(* ===== verification/Prelude.thy ===== *)
theory Prelude
  imports Main "HOL-Library.Word" "HOL-Library.Multiset" "HOL-Library.List_Lexorder" "HOL-Library.Char_ord"
begin

section \<open>Shared types, ranges and hints\<close>

text \<open>
  Machine integers of the C++ code. An unsigned integer is a word of its width, so that
  \<open>+\<close>, \<open>-\<close> and \<open>*\<close> wrap as the language says. A signed 64-bit integer is an \<open>int\<close>;
  \<open>i64\<close> is the range of the type, and since signed overflow is undefined in C++, every
  signed operation of the model comes with a lemma that its result stays in range.
  \<open>std::string\<close> is \<open>string\<close> (a list of 8-bit characters).
\<close>

type_synonym u8 = "8 word"
type_synonym u32 = "32 word"
type_synonym u64 = "64 word"

named_theorems i64_simps \<open>facts about the signed 64-bit range\<close>
named_theorems map_laws \<open>find after put and emplace, for ordered maps\<close>
named_theorems model_simps \<open>unfolding rules of small accessors\<close>

subsection \<open>The signed 64-bit range\<close>

definition i64 :: "int \<Rightarrow> bool" where
  "i64 x \<longleftrightarrow> - 9223372036854775808 \<le> x \<and> x \<le> 9223372036854775807"

abbreviation i64_max :: int where "i64_max \<equiv> 9223372036854775807"
abbreviation i64_min :: int where "i64_min \<equiv> - 9223372036854775808"
abbreviation u64_max :: u64 where "u64_max \<equiv> 18446744073709551615"

text \<open>\<open>static_cast<std::uint64_t>\<close> of a signed value, and back.\<close>

definition u64_of_i64 :: "int \<Rightarrow> u64" where
  "u64_of_i64 x = word_of_int x"

definition i64_of_u64 :: "u64 \<Rightarrow> int" where
  "i64_of_u64 w = sint w"

lemma i64_0 [simp, i64_simps]: "i64 0" by (simp add: i64_def)
lemma i64_maxD [i64_simps]: "i64 x \<Longrightarrow> x \<le> i64_max" by (simp add: i64_def)
lemma i64_minD [i64_simps]: "i64 x \<Longrightarrow> i64_min \<le> x" by (simp add: i64_def)

lemma uint_u64_of_i64 [simp]: "0 \<le> x \<Longrightarrow> x \<le> i64_max \<Longrightarrow> uint (u64_of_i64 x) = x"
  by (simp add: u64_of_i64_def uint_word_of_int)

lemma unat_u64_of_i64 [simp]: "0 \<le> x \<Longrightarrow> x \<le> i64_max \<Longrightarrow> unat (u64_of_i64 x) = nat x"
  by (metis uint_u64_of_i64 unat_eq_nat_uint)

lemma i64_of_u64_small [simp]:
  assumes "uint w \<le> i64_max"
  shows "i64_of_u64 w = uint w"
proof -
  have "- (2 ^ 63) \<le> uint w" by (rule order_trans [of _ 0]) simp_all
  moreover have "uint w < 2 ^ 63" using assms by simp
  ultimately have "signed_take_bit 63 (uint w) = uint w" by (rule signed_take_bit_int_eq_self)
  then show ?thesis by (simp add: i64_of_u64_def sint_uint)
qed

lemma i64_of_u64_id [simp]: "0 \<le> x \<Longrightarrow> x \<le> i64_max \<Longrightarrow> i64_of_u64 (u64_of_i64 x) = x"
  by simp

lemma unat_u64_less: "unat (w :: u64) < 18446744073709551616"
  using unsigned_less [of w, where 'a = nat] by simp

text \<open>Below the last value, an unsigned increment does not wrap.\<close>

lemma u64_succ:
  fixes x :: u64
  assumes "x \<noteq> u64_max"
  shows "unat (x + 1) = Suc (unat x)"
proof -
  have "x + 1 \<noteq> 0"
  proof
    assume "x + 1 = 0"
    then have "x = - 1" by (simp add: eq_neg_iff_add_eq_0)
    then have "x = u64_max" by simp
    with assms show False by simp
  qed
  then show ?thesis using unatSuc [of x] by (simp add: add.commute)
qed

text \<open>Sums and products that fit do not wrap.\<close>

lemma unat_mult_fits: "unat a * unat b < 18446744073709551616 \<Longrightarrow> unat (a * b :: u64) = unat a * unat b"
  by (rule unat_mult_lem [THEN iffD1]) simp

lemma unat_add_fits: "unat a + unat b < 18446744073709551616 \<Longrightarrow> unat (a + b :: u64) = unat a + unat b"
  by (rule unat_add_lem [THEN iffD1]) simp

lemma unat_i64_max: "unat (u64_of_i64 i64_max) = 9223372036854775807"
  by simp

lemma i64_of_u64_unat: "unat w \<le> 9223372036854775807 \<Longrightarrow> i64_of_u64 w = int (unat w)"
proof -
  assume "unat w \<le> 9223372036854775807"
  then have "int (unat w) \<le> i64_max" by linarith
  then have "uint w \<le> i64_max" by (simp only: uint_nat)
  then have "i64_of_u64 w = uint w" by (rule i64_of_u64_small)
  then show ?thesis by (simp only: uint_nat)
qed

lemma nat_div_less: "0 < c \<Longrightarrow> (m :: nat) div c < b \<longleftrightarrow> m < b * c"
  by (simp add: div_less_iff_less_mult)

subsection \<open>Lists without duplicates\<close>

lemma mset_eqI_distinct: "set xs = set ys \<Longrightarrow> distinct xs \<Longrightarrow> distinct ys \<Longrightarrow> mset xs = mset ys"
  by (rule iffD1 [OF set_eq_iff_mset_eq_distinct])

lemma map_of_mset_eq:
  assumes "mset xs = mset ys" and "distinct (map fst xs)"
  shows "map_of xs = map_of ys"
proof (rule ext)
  fix k
  have "mset (map fst xs) = mset (map fst ys)" using assms(1) by simp
  then have d: "distinct (map fst ys)" using assms(2) mset_eq_imp_distinct_iff by blast
  have s: "set xs = set ys" using assms(1) by (rule mset_eq_setD)
  show "map_of xs k = map_of ys k"
    using s map_of_eq_Some_iff [OF assms(2), of k] map_of_eq_Some_iff [OF d, of k]
    by (cases "map_of xs k"; cases "map_of ys k") auto
qed

end
