(* ===== verification/StdMap.thy ===== *)
theory StdMap
  imports Prelude
begin

section \<open>std::map and std::set\<close>

text \<open>
  The code keeps its state in \<open>std::map\<close> (members, receipts, reservations) and \<open>std::set\<close>.
  Both iterate in key order, so the model is a list of pairs sorted by key: \<open>find\<close> is
  \<open>map_of\<close>, \<open>map_put\<close> is \<open>m[k] = v\<close> (and \<open>m.at(k) = v\<close> where the key is present),
  \<open>map_emplace\<close> is \<open>emplace\<close>, which never overwrites and reports whether it inserted.
  The locale \<open>ordered_map\<close> is the interface the components use; the list is its
  interpretation \<open>smap\<close>.
\<close>

type_synonym ('k, 'v) std_map = "('k \<times> 'v) list"
type_synonym 'k std_set = "('k, unit) std_map"

abbreviation map_find :: "('k, 'v) std_map \<Rightarrow> 'k \<Rightarrow> 'v option" where
  "map_find \<equiv> map_of"

fun map_put :: "'k::linorder \<Rightarrow> 'v \<Rightarrow> ('k, 'v) std_map \<Rightarrow> ('k, 'v) std_map" where
  "map_put k v [] = [(k, v)]"
| "map_put k v ((k', v') # m) =
     (if k < k' then (k, v) # (k', v') # m
      else if k = k' then (k, v) # m
      else (k', v') # map_put k v m)"

definition map_emplace ::
  "'k::linorder \<Rightarrow> 'v \<Rightarrow> ('k, 'v) std_map \<Rightarrow> ('k, 'v) std_map \<times> bool" where
  "map_emplace k v m = (case map_find m k of None \<Rightarrow> (map_put k v m, True) | Some _ \<Rightarrow> (m, False))"

definition map_ok :: "('k::linorder, 'v) std_map \<Rightarrow> bool" where
  "map_ok m \<longleftrightarrow> sorted_wrt (<) (map fst m)"

abbreviation set_insert :: "'k::linorder \<Rightarrow> 'k std_set \<Rightarrow> 'k std_set \<times> bool" where
  "set_insert k s \<equiv> map_emplace k () s"

abbreviation set_count :: "'k std_set \<Rightarrow> 'k \<Rightarrow> bool" where
  "set_count s k \<equiv> map_find s k \<noteq> None"

subsection \<open>The interface\<close>

locale ordered_map =
  fixes empty :: 'm
    and find :: "'m \<Rightarrow> 'k::linorder \<Rightarrow> 'v option"
    and put :: "'k \<Rightarrow> 'v \<Rightarrow> 'm \<Rightarrow> 'm"
    and entries :: "'m \<Rightarrow> ('k \<times> 'v) list"
    and ok :: "'m \<Rightarrow> bool"
  assumes ok_empty: "ok empty"
    and find_empty: "find empty k = None"
    and ok_put: "ok m \<Longrightarrow> ok (put k v m)"
    and find_put: "ok m \<Longrightarrow> find (put k v m) k' = (if k' = k then Some v else find m k')"
    and entries_find: "ok m \<Longrightarrow> (k, v) \<in> set (entries m) \<longleftrightarrow> find m k = Some v"
    and entries_sorted: "ok m \<Longrightarrow> sorted_wrt (<) (map fst (entries m))"
begin

lemma entries_distinct: "ok m \<Longrightarrow> distinct (map fst (entries m))"
  using entries_sorted [of m] by (simp add: strict_sorted_iff)

lemma entries_put_new:
  assumes "ok m" and "find m k = None"
  shows "mset (entries (put k v m)) = add_mset (k, v) (mset (entries m))"
proof -
  have new: "(k, v) \<notin> set (entries m)" using assms by (simp add: entries_find)
  have "set (entries (put k v m)) = set ((k, v) # entries m)"
    using assms by (auto simp: entries_find ok_put find_put split: if_splits)
  moreover have "distinct ((k, v) # entries m)"
    using new entries_distinct [OF assms(1)] by (simp add: distinct_map)
  moreover have "distinct (entries (put k v m))"
    using entries_distinct [OF ok_put [OF assms(1)]] by (simp add: distinct_map)
  ultimately have "mset (entries (put k v m)) = mset ((k, v) # entries m)"
    by (intro mset_eqI_distinct)
  then show ?thesis by simp
qed

lemma entries_put_old:
  assumes "ok m" and "find m k = Some w"
  shows "add_mset (k, w) (mset (entries (put k v m))) = add_mset (k, v) (mset (entries m))"
proof -
  let ?rest = "filter (\<lambda>e. fst e \<noteq> k) (entries m)"
  have d: "distinct (entries m)" using entries_distinct [OF assms(1)] by (simp add: distinct_map)
  have "distinct ((k, w) # ?rest)" using d by simp
  moreover have "set (entries m) = set ((k, w) # ?rest)"
    using assms by (auto simp: entries_find)
  ultimately have old: "mset (entries m) = mset ((k, w) # ?rest)"
    using d by (intro mset_eqI_distinct)
  have "distinct ((k, v) # ?rest)" using d by simp
  moreover have "set (entries (put k v m)) = set ((k, v) # ?rest)"
    using assms by (auto simp: entries_find ok_put find_put split: if_splits)
  moreover have "distinct (entries (put k v m))"
    using entries_distinct [OF ok_put [OF assms(1)]] by (simp add: distinct_map)
  ultimately have "mset (entries (put k v m)) = mset ((k, v) # ?rest)"
    by (intro mset_eqI_distinct)
  with old show ?thesis by simp
qed

lemma sum_put_new:
  assumes "ok m" and "find m k = None"
  shows "(\<Sum>e\<leftarrow>entries (put k v m). g e) = g (k, v) + (\<Sum>e\<leftarrow>entries m. (g e :: int))"
proof -
  have "sum_mset (image_mset g (mset (entries (put k v m)))) =
        sum_mset (image_mset g (add_mset (k, v) (mset (entries m))))"
    using assms by (simp only: entries_put_new)
  then show ?thesis by (simp flip: sum_mset_sum_list mset_map)
qed

lemma sum_put_old:
  assumes "ok m" and "find m k = Some w"
  shows "(\<Sum>e\<leftarrow>entries (put k v m). g e) = (\<Sum>e\<leftarrow>entries m. (g e :: int)) - g (k, w) + g (k, v)"
proof -
  have "sum_mset (image_mset g (add_mset (k, w) (mset (entries (put k v m))))) =
        sum_mset (image_mset g (add_mset (k, v) (mset (entries m))))"
    using assms by (simp only: entries_put_old)
  then show ?thesis by (simp flip: sum_mset_sum_list mset_map)
qed

lemma length_put_new: "ok m \<Longrightarrow> find m k = None \<Longrightarrow> length (entries (put k v m)) = Suc (length (entries m))"
  by (metis entries_put_new size_add_mset size_mset)

lemma length_put_old: "ok m \<Longrightarrow> find m k = Some w \<Longrightarrow> length (entries (put k v m)) = length (entries m)"
  by (metis entries_put_old size_add_mset size_mset nat.inject)

end

subsection \<open>The list model meets the interface\<close>

lemma fst_set_map_put: "fst ` set (map_put k v m) = insert k (fst ` set m)"
  by (induction k v m rule: map_put.induct) auto

lemma map_find_put [map_laws]: "map_ok m \<Longrightarrow> map_find (map_put k v m) k' = (if k' = k then Some v else map_find m k')"
  by (induction k v m rule: map_put.induct) (auto simp: map_ok_def)

lemma map_ok_put [simp, intro]: "map_ok m \<Longrightarrow> map_ok (map_put k v m)"
proof (induction k v m rule: map_put.induct)
  case (2 k v k' v' m)
  then show ?case
    using fst_set_map_put [of k v m] by (auto simp: map_ok_def)
qed (simp add: map_ok_def)

lemma map_ok_Nil [simp, intro]: "map_ok []"
  by (simp add: map_ok_def)

lemma map_ok_distinct: "map_ok m \<Longrightarrow> distinct (map fst m)"
  by (simp add: map_ok_def strict_sorted_iff)

interpretation smap: ordered_map "[]" map_find map_put "\<lambda>m. m" map_ok
proof unfold_locales
  show "(k, v) \<in> set m \<longleftrightarrow> map_find m k = Some v" if "map_ok m" for k :: 'a and v :: 'b and m
    using map_ok_distinct [OF that] by simp
qed (simp_all add: map_find_put, simp add: map_ok_def)

lemma map_emplace_absent [simp]: "map_find m k = None \<Longrightarrow> map_emplace k v m = (map_put k v m, True)"
  by (simp add: map_emplace_def)

lemma map_emplace_present [simp]: "map_find m k = Some w \<Longrightarrow> map_emplace k v m = (m, False)"
  by (simp add: map_emplace_def)

lemma snd_map_emplace [simp]: "snd (map_emplace k v m) \<longleftrightarrow> map_find m k = None"
  by (simp add: map_emplace_def split: option.split)

lemma map_find_in_set: "map_find m k = Some v \<Longrightarrow> (k, v) \<in> set m"
  by (rule map_of_SomeD)

text \<open>A map is determined by its lookups.\<close>

lemma map_ok_ext:
  assumes "map_ok m" and "map_ok m'" and "\<And>k. map_find m k = map_find m' k"
  shows "m = m'"
proof -
  have "set m = set m'"
  proof (rule set_eqI)
    show "e \<in> set m \<longleftrightarrow> e \<in> set m'" for e
      using assms by (cases e) (simp add: smap.entries_find)
  qed
  moreover have "inj_on fst (set m \<union> set m')"
    using \<open>set m = set m'\<close> map_ok_distinct [OF assms(1)] by (simp add: distinct_map)
  ultimately show ?thesis
    using assms(1,2) map_ok_distinct
    by (intro map_sorted_distinct_set_unique [of fst]) (auto simp: map_ok_def strict_sorted_iff)
qed

end
