(* ===== verification/Contracts.thy ===== *)
theory Contracts
  imports StdMap
begin

section \<open>Contracts shared by several components\<close>

text \<open>
  Each locale states one contract that more than one component of the library keeps:
  a machine with an invariant, a receiver that answers replays from its receipts, a value
  guarded by an expected revision, and an enum with a string codec. The components
  interpret them on their own operations; the consequences are proved once, here.
\<close>

subsection \<open>A machine with an invariant\<close>

text \<open>\<open>foldl step s es\<close> is the state after the calls \<open>es\<close>, in order; \<open>ev_ok\<close> restricts the calls to
  those whose arguments are values of their C++ types.\<close>

locale machine =
  fixes step :: "'s \<Rightarrow> 'e \<Rightarrow> 's"
    and ev_ok :: "'e \<Rightarrow> bool"
    and inv :: "'s \<Rightarrow> bool"
  assumes step_inv: "inv s \<Longrightarrow> ev_ok e \<Longrightarrow> inv (step s e)"
begin

lemma run_inv: "inv s \<Longrightarrow> list_all ev_ok es \<Longrightarrow> inv (foldl step s es)"
  by (induction es arbitrary: s) (simp_all add: step_inv)

text \<open>A predicate that every step keeps, given the invariant, holds after every run.\<close>

lemma run_keeps:
  assumes "\<And>s e. inv s \<Longrightarrow> ev_ok e \<Longrightarrow> P s \<Longrightarrow> P (step s e)" and "inv s" and "list_all ev_ok es" and "P s"
  shows "P (foldl step s es)"
  using assms(2-4) by (induction es arbitrary: s) (simp_all add: step_inv assms(1))

text \<open>A measure that no step lowers is no lower after a run.\<close>

lemma run_mono:
  assumes "\<And>s e. inv s \<Longrightarrow> ev_ok e \<Longrightarrow> f s \<le> (f (step s e) :: 'a :: preorder)"
    and "inv s" and "list_all ev_ok es"
  shows "f s \<le> f (foldl step s es)"
  using assms(2,3)
proof (induction es arbitrary: s)
  case (Cons e es)
  from Cons.prems have "f s \<le> f (step s e)" by (intro assms(1)) simp_all
  also have "\<dots> \<le> f (foldl step (step s e) es)" using Cons by (simp add: step_inv)
  finally show ?case by simp
qed simp

end

subsection \<open>A receiver that is idempotent under redelivery\<close>

text \<open>
  \<open>recv s m\<close> returns a result code and the new state; \<open>receipt s k\<close> is the message the
  receiver has on record under the identifier \<open>k\<close>. The laws: a message whose identifier
  is on record is answered \<open>dup\<close> when it is the same message and \<open>conflict\<close> otherwise,
  without changing the state; \<open>applied\<close> records the message; every other answer leaves
  the state alone.
\<close>

locale idempotent_receiver =
  fixes recv :: "'s \<Rightarrow> 'm \<Rightarrow> 'r \<times> 's"
    and receipt :: "'s \<Rightarrow> 'k \<Rightarrow> 'm option"
    and ident :: "'m \<Rightarrow> 'k"
    and ok :: "'s \<Rightarrow> bool"
    and applied dup conflict :: 'r
  assumes recv_known: "receipt s (ident m) = Some m' \<Longrightarrow> recv s m = (if m' = m then dup else conflict, s)"
    and recv_applied: "ok s \<Longrightarrow> fst (recv s m) = applied \<Longrightarrow>
      receipt (snd (recv s m)) = (receipt s)(ident m \<mapsto> m)"
    and recv_other: "fst (recv s m) \<noteq> applied \<Longrightarrow> snd (recv s m) = s"
    and recv_ok: "ok s \<Longrightarrow> ok (snd (recv s m))"
    and codes: "dup \<noteq> applied" "conflict \<noteq> applied"
begin

lemma recv_fresh: "fst (recv s m) = applied \<Longrightarrow> receipt s (ident m) = None"
  using codes by (cases "receipt s (ident m)") (auto simp: recv_known split: if_splits)

lemma receipt_kept: "ok s \<Longrightarrow> receipt s k = Some m' \<Longrightarrow> receipt (snd (recv s m)) k = Some m'"
  by (metis fun_upd_apply option.distinct(1) recv_applied recv_fresh recv_other)

lemma receipts_kept:
  "ok s \<Longrightarrow> receipt s k = Some m' \<Longrightarrow> receipt (foldl (\<lambda>s m. snd (recv s m)) s ms) k = Some m'"
  by (induction ms arbitrary: s) (simp_all add: receipt_kept recv_ok)

text \<open>After any run, replaying messages that are on record changes nothing.\<close>

lemma replay_noop:
  assumes "\<And>m. m \<in> set ms \<Longrightarrow> receipt s (ident m) \<noteq> None"
  shows "foldl (\<lambda>s m. snd (recv s m)) s ms = s"
  using assms
proof (induction ms)
  case (Cons m ms)
  then obtain m' where "receipt s (ident m) = Some m'" by fastforce
  then have "snd (recv s m) = s" by (simp add: recv_known)
  with Cons show ?case by simp
qed simp

lemma redelivery:
  fixes ms :: "'m list"
  assumes "ok s" and "fst (recv s m) = applied"
  defines "s' \<equiv> foldl (\<lambda>s m. snd (recv s m)) (snd (recv s m)) ms"
  shows "recv s' m = (dup, s')"
proof -
  have "receipt (snd (recv s m)) (ident m) = Some m" using assms(1,2) by (simp add: recv_applied)
  then have "receipt s' (ident m) = Some m" unfolding s'_def by (intro receipts_kept recv_ok assms(1))
  then show ?thesis by (simp add: recv_known)
qed

lemma rewrite_refused:
  fixes ms :: "'m list"
  assumes "ok s" and "fst (recv s m) = applied" and "ident m2 = ident m" and "m2 \<noteq> m"
  defines "s' \<equiv> foldl (\<lambda>s m. snd (recv s m)) (snd (recv s m)) ms"
  shows "recv s' m2 = (conflict, s')"
proof -
  have "receipt (snd (recv s m)) (ident m) = Some m" using assms(1,2) by (simp add: recv_applied)
  then have "receipt s' (ident m2) = Some m"
    unfolding s'_def assms(3) by (intro receipts_kept recv_ok assms(1))
  then show ?thesis using assms(4) by (simp add: recv_known)
qed

end

subsection \<open>A value guarded by an expected revision\<close>

text \<open>
  \<open>advance x r\<close> succeeds exactly when \<open>r\<close> is the current revision and is not the last
  one, and then the revision grows by one; a refused call changes nothing.
\<close>

locale revision_guard =
  fixes revision :: "'s \<Rightarrow> u64"
    and advance :: "'s \<Rightarrow> u64 \<Rightarrow> bool \<times> 's"
  assumes advance_ok: "fst (advance x r) \<longleftrightarrow> revision x = r \<and> r \<noteq> u64_max"
    and advance_rev: "fst (advance x r) \<Longrightarrow> revision (snd (advance x r)) = revision x + 1"
    and advance_refused: "\<not> fst (advance x r) \<Longrightarrow> snd (advance x r) = x"
begin

lemma advance_no_wrap: "fst (advance x r) \<Longrightarrow> unat (revision (snd (advance x r))) = Suc (unat (revision x))"
proof -
  assume a: "fst (advance x r)"
  then have "revision x \<noteq> u64_max" by (auto simp: advance_ok)
  then have "unat (revision x + 1) = Suc (unat (revision x))" by (rule u64_succ)
  with a show ?thesis by (simp add: advance_rev)
qed

text \<open>Of two callers that read the same revision, at most one succeeds.\<close>

lemma advance_once: "fst (advance x r) \<Longrightarrow> \<not> fst (advance (snd (advance x r)) r)"
  by (metis advance_ok advance_no_wrap n_not_Suc_n)

end

subsection \<open>An enum with a string codec\<close>

locale enum_codec =
  fixes enc :: "'e \<Rightarrow> string"
    and dec :: "string \<Rightarrow> 'e option"
  assumes dec_enc: "dec (enc e) = Some e"
begin

lemma enc_inj: "enc a = enc b \<longleftrightarrow> a = b"
  by (metis dec_enc option.inject)

lemma dec_onto: "\<exists>s. dec s = Some e"
  using dec_enc by blast

end

text \<open>A codec whose parser first normalises its input by \<open>norm\<close>.\<close>

locale normalising_codec = enum_codec enc dec
  for enc :: "'e \<Rightarrow> string" and dec :: "string \<Rightarrow> 'e option" +
  fixes norm :: "string \<Rightarrow> string"
  assumes dec_norm: "norm s = norm t \<Longrightarrow> dec s = dec t"
begin

lemma dec_variant: "norm s = norm (enc e) \<Longrightarrow> dec s = Some e"
  using dec_norm [of s "enc e"] by (simp add: dec_enc)

end

end
