(* ===== verification/StringUtils.thy ===== *)
theory StringUtils
  imports Contracts
begin

section \<open>String helpers\<close>

text \<open>
  The character classes of \<open>cctype\<close> in the C locale, which the library never changes,
  and the helpers of \<open>utils/string_utils.hpp\<close> and \<open>utils/enum_utils.hpp\<close> that the
  modelled components call. A \<open>char\<close> is its code, 0 to 255; every call in the source
  casts to \<open>unsigned char\<close> first.
\<close>

definition c_toupper :: "char \<Rightarrow> char" where
  "c_toupper c = (if 97 \<le> (of_char c :: nat) \<and> (of_char c :: nat) \<le> 122 then char_of ((of_char c :: nat) - 32) else c)"

definition c_tolower :: "char \<Rightarrow> char" where
  "c_tolower c = (if 65 \<le> (of_char c :: nat) \<and> (of_char c :: nat) \<le> 90 then char_of ((of_char c :: nat) + 32) else c)"

definition c_isspace :: "char \<Rightarrow> bool" where
  "c_isspace c \<longleftrightarrow> (of_char c :: nat) = 32 \<or> 9 \<le> (of_char c :: nat) \<and> (of_char c :: nat) \<le> 13"

definition to_upper_case :: "string \<Rightarrow> string" where
  "to_upper_case str = map c_toupper str"

definition to_lower_case :: "string \<Rightarrow> string" where
  "to_lower_case str = map c_tolower str"

definition remove_space :: "string \<Rightarrow> string" where
  "remove_space str = filter (\<lambda>ch. \<not> c_isspace ch) str"

text \<open>\<open>std::string::find(ch, pos)\<close>: the first index from \<open>pos\<close> on, \<open>None\<close> for \<open>npos\<close>.\<close>

fun find_char_from :: "char \<Rightarrow> string \<Rightarrow> nat \<Rightarrow> nat option" where
  "find_char_from ch [] i = None"
| "find_char_from ch (c # cs) i = (if c = ch then Some i else find_char_from ch cs (Suc i))"

definition str_find :: "string \<Rightarrow> char \<Rightarrow> nat \<Rightarrow> nat option" where
  "str_find text ch pos = find_char_from ch (drop pos text) pos"

text \<open>\<open>utils::parse_list\<close>: the loop over \<open>find(',')\<close>, reading the list from \<open>start_pos\<close>.\<close>

fun parse_list_from :: "string \<Rightarrow> string \<Rightarrow> string list" where
  "parse_list_from item [] = []"
| "parse_list_from item (c # cs) =
     (if c = CHR '','' then (if item = [] then [] else [item]) @ parse_list_from [] cs
      else parse_list_from (item @ [c]) cs)"

definition parse_list :: "string \<Rightarrow> string list" where
  "parse_list value =
     (if value = [] then []
      else parse_list_from [] (if last value = CHR '','' then value else value @ '',''))"

definition to_bool_str :: "bool \<Rightarrow> string" where
  "to_bool_str value = (if value then ''true'' else ''false'')"

subsection \<open>Enum tables\<close>

text \<open>
  \<open>static_cast<std::size_t>(value)\<close> of an enum without explicit values is the position of
  the enumerator in its declaration; \<open>enum_index\<close> takes the declaration order as a list.
\<close>

definition enum_index :: "'e list \<Rightarrow> 'e \<Rightarrow> nat" where
  "enum_index vs v = length (takeWhile (\<lambda>x. x \<noteq> v) vs)"

definition enum_string_or_unknown :: "string list \<Rightarrow> nat \<Rightarrow> string" where
  "enum_string_or_unknown values index =
     (if values = [] then ''UNKNOWN''
      else if index < length values then values ! index else values ! 0)"

text \<open>\<open>to_enum<T>(str)\<close>: the parsed value, or \<open>std::invalid_argument\<close> with its message.\<close>

definition enum_or_throw :: "string \<Rightarrow> (string \<Rightarrow> 'e option) \<Rightarrow> string \<Rightarrow> string + 'e" where
  "enum_or_throw type_name dec str =
     (case dec str of None \<Rightarrow> Inl (''Invalid '' @ type_name @ '' string: '' @ str) | Some v \<Rightarrow> Inr v)"

subsection \<open>Lemmas\<close>

lemma c_toupper_idem [simp]: "c_toupper (c_toupper c) = c_toupper c"
  by (auto simp: c_toupper_def)

lemma c_tolower_idem [simp]: "c_tolower (c_tolower c) = c_tolower c"
  by (auto simp: c_tolower_def)

lemma c_toupper_tolower [simp]: "c_toupper (c_tolower c) = c_toupper c"
  by (auto simp: c_toupper_def c_tolower_def)

lemma to_upper_case_idem [simp]: "to_upper_case (to_upper_case s) = to_upper_case s"
  by (simp add: to_upper_case_def)

lemma to_upper_case_lower [simp]: "to_upper_case (to_lower_case s) = to_upper_case s"
  by (simp add: to_upper_case_def to_lower_case_def)

lemma to_upper_case_append [simp]: "to_upper_case (s @ t) = to_upper_case s @ to_upper_case t"
  by (simp add: to_upper_case_def)

lemma length_to_upper_case [simp]: "length (to_upper_case s) = length s"
  by (simp add: to_upper_case_def)

lemma c_isspace_toupper [simp]: "c_isspace (c_toupper c) = c_isspace c"
  by (auto simp: c_isspace_def c_toupper_def)

lemma find_char_from_SomeD:
  "find_char_from ch cs i = Some j \<Longrightarrow>
   i \<le> j \<and> j - i < length cs \<and> cs ! (j - i) = ch \<and> ch \<notin> set (take (j - i) cs)"
  by (induction ch cs i rule: find_char_from.induct)
     (auto split: if_splits simp: nth_Cons' take_Cons' Suc_diff_Suc)

lemma find_char_from_None [simp]: "find_char_from ch cs i = None \<longleftrightarrow> ch \<notin> set cs"
  by (induction ch cs i rule: find_char_from.induct) auto

lemma find_char_from_append:
  "ch \<notin> set a \<Longrightarrow> find_char_from ch (a @ ch # b) i = Some (i + length a)"
  by (induction a arbitrary: i) auto

lemma str_find_None [simp]: "str_find text ch pos = None \<longleftrightarrow> ch \<notin> set (drop pos text)"
  by (simp add: str_find_def)

lemma str_find_split:
  assumes "str_find text ch pos = Some j"
  shows "pos \<le> j" and "j < length text"
    and "drop pos text = take (j - pos) (drop pos text) @ ch # drop (Suc j) text"
    and "ch \<notin> set (take (j - pos) (drop pos text))"
proof -
  from find_char_from_SomeD [OF assms [unfolded str_find_def]]
  have d: "pos \<le> j" "j - pos < length text - pos" "drop pos text ! (j - pos) = ch"
    "ch \<notin> set (take (j - pos) (drop pos text))" by auto
  then show "pos \<le> j" "j < length text" "ch \<notin> set (take (j - pos) (drop pos text))" by auto
  have "drop pos text = take (j - pos) (drop pos text) @ drop pos text ! (j - pos) # drop (Suc (j - pos)) (drop pos text)"
    using d by (intro id_take_nth_drop) simp
  with d show "drop pos text = take (j - pos) (drop pos text) @ ch # drop (Suc j) text"
    by simp
qed

end
