(* ===== verification/TradingEnums.thy ===== *)
theory TradingEnums
  imports StringUtils
begin

section \<open>Enums of data/trading/enums.hpp\<close>

text \<open>
  Every enum of \<open>data/trading/enums.hpp\<close>: the enumerators in declaration order (prefixed,
  because the C++ enums are scoped), the table of \<open>to_str\<close> (with its \<open>mode\<close> where it has
  one), the table of \<open>to_enum\<close> and the throwing specialisation \<open>to_enum<T>\<close>. The trade
  state predicates are those of \<open>data/trading/trade_state_traits.hpp\<close>. Each pair of tables
  is an interpretation of \<open>enum_codec\<close>, and of \<open>normalising_codec\<close> where the parser
  upper-cases its input.
\<close>

subsection \<open>PlatformType\<close>

datatype platform_type =
    PT_UNKNOWN | PT_SIMULATOR | PT_CLICKER | PT_INTRADE_BAR | PT_TRADEUP

definition platform_type_values :: "platform_type list" where
  "platform_type_values =
    [PT_UNKNOWN, PT_SIMULATOR, PT_CLICKER, PT_INTRADE_BAR, PT_TRADEUP]"

definition platform_type_to_str :: "platform_type \<Rightarrow> int \<Rightarrow> string" where
  "platform_type_to_str value mode =
    (let index = enum_index platform_type_values value in
     if mode = 1 then enum_string_or_unknown [''unknown'', ''simulator'', ''clicker'', ''intrade.bar'', ''tradeup''] index
     else if mode = 2 then enum_string_or_unknown [''Unknown'', ''Simulator'', ''Clicker'', ''Intrade Bar'', ''TradeUp''] index
     else enum_string_or_unknown [''UNKNOWN'', ''SIMULATOR'', ''CLICKER'', ''INTRADE_BAR'', ''TRADEUP''] index)"

definition platform_type_to_enum :: "string \<Rightarrow> platform_type option" where
  "platform_type_to_enum str = map_of
    [(''UNKNOWN'', PT_UNKNOWN), (''SIMULATOR'', PT_SIMULATOR), (''CLICKER'', PT_CLICKER),
     (''INTRADE_BAR'', PT_INTRADE_BAR), (''TRADEUP'', PT_TRADEUP)]
    (to_upper_case str)"

definition platform_type_parse :: "string \<Rightarrow> string + platform_type" where
  "platform_type_parse = enum_or_throw ''PlatformType'' platform_type_to_enum"

subsection \<open>BridgeType\<close>

datatype bridge_type =
    BT_UNKNOWN | BT_LEGACY_TRADING_NAMED_PIPE | BT_TRADING_VIEW_EXTENSION_HTTP |
    BT_METATRADER_FILE_TRANSPORT | BT_BRIDGE_PROTOCOL_V1_HTTP_WEBSOCKET |
    BT_BRIDGE_PROTOCOL_V1_NAMED_PIPE | BT_BOT_BINARY | BT_TELEGRAM_SIGNAL

definition bridge_type_values :: "bridge_type list" where
  "bridge_type_values =
    [BT_UNKNOWN, BT_LEGACY_TRADING_NAMED_PIPE, BT_TRADING_VIEW_EXTENSION_HTTP,
     BT_METATRADER_FILE_TRANSPORT, BT_BRIDGE_PROTOCOL_V1_HTTP_WEBSOCKET,
     BT_BRIDGE_PROTOCOL_V1_NAMED_PIPE, BT_BOT_BINARY, BT_TELEGRAM_SIGNAL]"

definition bridge_type_to_str :: "bridge_type \<Rightarrow> int \<Rightarrow> string" where
  "bridge_type_to_str value mode = enum_string_or_unknown
    [''UNKNOWN'', ''LEGACY_TRADING_NAMED_PIPE'', ''TRADING_VIEW_EXTENSION_HTTP'',
     ''METATRADER_FILE_TRANSPORT'', ''BRIDGE_PROTOCOL_V1_HTTP_WEBSOCKET'',
     ''BRIDGE_PROTOCOL_V1_NAMED_PIPE'', ''BOT_BINARY'', ''TELEGRAM_SIGNAL'']
    (enum_index bridge_type_values value)"

definition bridge_type_to_enum :: "string \<Rightarrow> bridge_type option" where
  "bridge_type_to_enum str = map_of
    [(''UNKNOWN'', BT_UNKNOWN), (''LEGACY_TRADING_NAMED_PIPE'', BT_LEGACY_TRADING_NAMED_PIPE),
     (''TRADING_VIEW_EXTENSION_HTTP'', BT_TRADING_VIEW_EXTENSION_HTTP),
     (''METATRADER_FILE_TRANSPORT'', BT_METATRADER_FILE_TRANSPORT),
     (''BRIDGE_PROTOCOL_V1_HTTP_WEBSOCKET'', BT_BRIDGE_PROTOCOL_V1_HTTP_WEBSOCKET),
     (''BRIDGE_PROTOCOL_V1_NAMED_PIPE'', BT_BRIDGE_PROTOCOL_V1_NAMED_PIPE),
     (''BOT_BINARY'', BT_BOT_BINARY), (''TELEGRAM_SIGNAL'', BT_TELEGRAM_SIGNAL),
     (''BINARYBOT'', BT_BOT_BINARY), (''BOTBINARY'', BT_BOT_BINARY)]
    (to_upper_case str)"

definition bridge_type_parse :: "string \<Rightarrow> string + bridge_type" where
  "bridge_type_parse = enum_or_throw ''BridgeType'' bridge_type_to_enum"

subsection \<open>AccountType\<close>

datatype account_type =
    ACC_UNKNOWN | ACC_DEMO | ACC_REAL

definition account_type_values :: "account_type list" where
  "account_type_values =
    [ACC_UNKNOWN, ACC_DEMO, ACC_REAL]"

definition account_type_to_str :: "account_type \<Rightarrow> int \<Rightarrow> string" where
  "account_type_to_str value mode =
    (let index = enum_index account_type_values value in
     if mode = 1 then enum_string_or_unknown [''Unknown'', ''Demo'', ''Real''] index
     else enum_string_or_unknown [''UNKNOWN'', ''DEMO'', ''REAL''] index)"

definition account_type_to_enum :: "string \<Rightarrow> account_type option" where
  "account_type_to_enum str = map_of
    [(''UNKNOWN'', ACC_UNKNOWN), (''DEMO'', ACC_DEMO), (''REAL'', ACC_REAL)]
    (to_upper_case str)"

definition account_type_parse :: "string \<Rightarrow> string + account_type" where
  "account_type_parse = enum_or_throw ''AccountType'' account_type_to_enum"

subsection \<open>OptionType\<close>

datatype option_type =
    OPT_UNKNOWN | OPT_SPRINT | OPT_CLASSIC

definition option_type_values :: "option_type list" where
  "option_type_values =
    [OPT_UNKNOWN, OPT_SPRINT, OPT_CLASSIC]"

definition option_type_to_str :: "option_type \<Rightarrow> int \<Rightarrow> string" where
  "option_type_to_str value mode =
    (let index = enum_index option_type_values value in
     if mode = 1 then enum_string_or_unknown [''Unknown'', ''Sprint'', ''Classic''] index
     else enum_string_or_unknown [''UNKNOWN'', ''SPRINT'', ''CLASSIC''] index)"

definition option_type_to_enum :: "string \<Rightarrow> option_type option" where
  "option_type_to_enum str = map_of
    [(''UNKNOWN'', OPT_UNKNOWN), (''SPRINT'', OPT_SPRINT), (''CLASSIC'', OPT_CLASSIC)]
    (to_upper_case str)"

definition option_type_parse :: "string \<Rightarrow> string + option_type" where
  "option_type_parse = enum_or_throw ''OptionType'' option_type_to_enum"

subsection \<open>OrderType\<close>

datatype order_type =
    ORD_UNKNOWN | ORD_BUY | ORD_SELL

definition order_type_values :: "order_type list" where
  "order_type_values =
    [ORD_UNKNOWN, ORD_BUY, ORD_SELL]"

definition order_type_to_str :: "order_type \<Rightarrow> int \<Rightarrow> string" where
  "order_type_to_str value mode =
    (let index = enum_index order_type_values value in
     if mode = 1 then enum_string_or_unknown [''Unknown'', ''Buy'', ''Sell''] index
     else if mode = 2 then enum_string_or_unknown [''UNKNOWN'', ''PUT'', ''CALL''] index
     else if mode = 3 then enum_string_or_unknown [''Unknown'', ''Put'', ''Call''] index
     else enum_string_or_unknown [''UNKNOWN'', ''BUY'', ''SELL''] index)"

definition order_type_to_enum :: "string \<Rightarrow> order_type option" where
  "order_type_to_enum str = map_of
    [(''UNKNOWN'', ORD_UNKNOWN), (''BUY'', ORD_BUY), (''SELL'', ORD_SELL), (''PUT'', ORD_BUY),
     (''CALL'', ORD_SELL), (''UP'', ORD_BUY), (''DN'', ORD_SELL)]
    (to_upper_case str)"

definition order_type_parse :: "string \<Rightarrow> string + order_type" where
  "order_type_parse = enum_or_throw ''OrderType'' order_type_to_enum"

subsection \<open>CurrencyType\<close>

datatype currency_type =
    CUR_UNKNOWN | CUR_USD | CUR_EUR | CUR_GBP | CUR_BTC | CUR_ETH | CUR_USDT | CUR_USDC |
    CUR_RUB | CUR_UAH | CUR_KZT

definition currency_type_values :: "currency_type list" where
  "currency_type_values =
    [CUR_UNKNOWN, CUR_USD, CUR_EUR, CUR_GBP, CUR_BTC, CUR_ETH, CUR_USDT, CUR_USDC, CUR_RUB,
     CUR_UAH, CUR_KZT]"

definition currency_type_to_str :: "currency_type \<Rightarrow> string" where
  "currency_type_to_str value = enum_string_or_unknown
    [''UNKNOWN'', ''USD'', ''EUR'', ''GBP'', ''BTC'', ''ETH'', ''USDT'', ''USDC'', ''RUB'',
     ''UAH'', ''KZT'']
    (enum_index currency_type_values value)"

definition currency_type_to_enum :: "string \<Rightarrow> currency_type option" where
  "currency_type_to_enum str = map_of
    [(''UNKNOWN'', CUR_UNKNOWN), (''USD'', CUR_USD), (''EUR'', CUR_EUR), (''GBP'', CUR_GBP),
     (''BTC'', CUR_BTC), (''ETH'', CUR_ETH), (''USDT'', CUR_USDT), (''USDC'', CUR_USDC),
     (''RUB'', CUR_RUB), (''UAH'', CUR_UAH), (''KZT'', CUR_KZT)]
    (to_upper_case str)"

definition currency_type_parse :: "string \<Rightarrow> string + currency_type" where
  "currency_type_parse = enum_or_throw ''CurrencyType'' currency_type_to_enum"

subsection \<open>TradeState\<close>

datatype trade_state =
    TS_UNKNOWN | TS_WAITING_OPEN | TS_OPEN_SUCCESS | TS_OPEN_ERROR | TS_IN_PROGRESS |
    TS_WAITING_CLOSE | TS_CHECK_ERROR | TS_WIN | TS_LOSS | TS_STANDOFF | TS_REFUND |
    TS_CANCELED_TRADE

definition trade_state_values :: "trade_state list" where
  "trade_state_values =
    [TS_UNKNOWN, TS_WAITING_OPEN, TS_OPEN_SUCCESS, TS_OPEN_ERROR, TS_IN_PROGRESS,
     TS_WAITING_CLOSE, TS_CHECK_ERROR, TS_WIN, TS_LOSS, TS_STANDOFF, TS_REFUND,
     TS_CANCELED_TRADE]"

definition trade_state_to_str :: "trade_state \<Rightarrow> string" where
  "trade_state_to_str value = enum_string_or_unknown
    [''UNKNOWN'', ''WAITING_OPEN'', ''OPEN_SUCCESS'', ''OPEN_ERROR'', ''IN_PROGRESS'',
     ''WAITING_CLOSE'', ''CHECK_ERROR'', ''WIN'', ''LOSS'', ''STANDOFF'', ''REFUND'',
     ''CANCELED_TRADE'']
    (enum_index trade_state_values value)"

definition trade_state_to_enum :: "string \<Rightarrow> trade_state option" where
  "trade_state_to_enum str = map_of
    [(''UNKNOWN'', TS_UNKNOWN), (''WAITING_OPEN'', TS_WAITING_OPEN),
     (''OPEN_SUCCESS'', TS_OPEN_SUCCESS), (''OPEN_ERROR'', TS_OPEN_ERROR),
     (''IN_PROGRESS'', TS_IN_PROGRESS), (''WAITING_CLOSE'', TS_WAITING_CLOSE),
     (''CHECK_ERROR'', TS_CHECK_ERROR), (''WIN'', TS_WIN), (''LOSS'', TS_LOSS),
     (''STANDOFF'', TS_STANDOFF), (''REFUND'', TS_REFUND),
     (''CANCELED_TRADE'', TS_CANCELED_TRADE)]
    (to_upper_case str)"

definition trade_state_parse :: "string \<Rightarrow> string + trade_state" where
  "trade_state_parse = enum_or_throw ''TradeState'' trade_state_to_enum"

subsection \<open>SignalStatus\<close>

datatype signal_status =
    SS_UNKNOWN | SS_RECEIVED | SS_ACCEPTED | SS_REJECTED | SS_IN_PROGRESS | SS_COMPLETED |
    SS_CANCELED | SS_FAILED

definition signal_status_values :: "signal_status list" where
  "signal_status_values =
    [SS_UNKNOWN, SS_RECEIVED, SS_ACCEPTED, SS_REJECTED, SS_IN_PROGRESS, SS_COMPLETED,
     SS_CANCELED, SS_FAILED]"

definition signal_status_to_str :: "signal_status \<Rightarrow> string" where
  "signal_status_to_str value = enum_string_or_unknown
    [''UNKNOWN'', ''RECEIVED'', ''ACCEPTED'', ''REJECTED'', ''IN_PROGRESS'', ''COMPLETED'',
     ''CANCELED'', ''ERROR'']
    (enum_index signal_status_values value)"

definition signal_status_to_enum :: "string \<Rightarrow> signal_status option" where
  "signal_status_to_enum str = map_of
    [(''UNKNOWN'', SS_UNKNOWN), (''RECEIVED'', SS_RECEIVED), (''ACCEPTED'', SS_ACCEPTED),
     (''REJECTED'', SS_REJECTED), (''IN_PROGRESS'', SS_IN_PROGRESS),
     (''COMPLETED'', SS_COMPLETED), (''CANCELED'', SS_CANCELED), (''ERROR'', SS_FAILED),
     (''FAILED'', SS_FAILED)]
    (to_upper_case str)"

definition signal_status_parse :: "string \<Rightarrow> string + signal_status" where
  "signal_status_parse = enum_or_throw ''SignalStatus'' signal_status_to_enum"

subsection \<open>SignalRejectCode\<close>

datatype signal_reject_code =
    SRC_NONE | SRC_INVALID_SIGNAL | SRC_INVALID_REQUEST | SRC_FILTERED | SRC_RISK_LIMIT |
    SRC_DUPLICATE_SIGNAL | SRC_NO_CONNECTION | SRC_INTERNAL_ERROR

definition signal_reject_code_values :: "signal_reject_code list" where
  "signal_reject_code_values =
    [SRC_NONE, SRC_INVALID_SIGNAL, SRC_INVALID_REQUEST, SRC_FILTERED, SRC_RISK_LIMIT,
     SRC_DUPLICATE_SIGNAL, SRC_NO_CONNECTION, SRC_INTERNAL_ERROR]"

definition signal_reject_code_to_str :: "signal_reject_code \<Rightarrow> string" where
  "signal_reject_code_to_str value = enum_string_or_unknown
    [''NONE'', ''INVALID_SIGNAL'', ''INVALID_REQUEST'', ''FILTERED'', ''RISK_LIMIT'',
     ''DUPLICATE'', ''NO_CONNECTION'', ''INTERNAL_ERROR'']
    (enum_index signal_reject_code_values value)"

definition signal_reject_code_to_enum :: "string \<Rightarrow> signal_reject_code option" where
  "signal_reject_code_to_enum str = map_of
    [(''NONE'', SRC_NONE), (''INVALID_SIGNAL'', SRC_INVALID_SIGNAL),
     (''INVALID_REQUEST'', SRC_INVALID_REQUEST), (''FILTERED'', SRC_FILTERED),
     (''RISK_LIMIT'', SRC_RISK_LIMIT), (''DUPLICATE'', SRC_DUPLICATE_SIGNAL),
     (''DUPLICATE_SIGNAL'', SRC_DUPLICATE_SIGNAL), (''NO_CONNECTION'', SRC_NO_CONNECTION),
     (''INTERNAL_ERROR'', SRC_INTERNAL_ERROR)]
    (to_upper_case str)"

definition signal_reject_code_parse :: "string \<Rightarrow> string + signal_reject_code" where
  "signal_reject_code_parse = enum_or_throw ''SignalRejectCode'' signal_reject_code_to_enum"

subsection \<open>SignalOutcome\<close>

datatype signal_outcome =
    SO_UNKNOWN | SO_WIN | SO_LOSS | SO_STANDOFF | SO_REFUND | SO_MIXED | SO_FAILED

definition signal_outcome_values :: "signal_outcome list" where
  "signal_outcome_values =
    [SO_UNKNOWN, SO_WIN, SO_LOSS, SO_STANDOFF, SO_REFUND, SO_MIXED, SO_FAILED]"

definition signal_outcome_to_str :: "signal_outcome \<Rightarrow> string" where
  "signal_outcome_to_str value = enum_string_or_unknown
    [''UNKNOWN'', ''WIN'', ''LOSS'', ''STANDOFF'', ''REFUND'', ''MIXED'', ''ERROR'']
    (enum_index signal_outcome_values value)"

definition signal_outcome_to_enum :: "string \<Rightarrow> signal_outcome option" where
  "signal_outcome_to_enum str = map_of
    [(''UNKNOWN'', SO_UNKNOWN), (''WIN'', SO_WIN), (''LOSS'', SO_LOSS),
     (''STANDOFF'', SO_STANDOFF), (''REFUND'', SO_REFUND), (''MIXED'', SO_MIXED),
     (''ERROR'', SO_FAILED), (''FAILED'', SO_FAILED)]
    (to_upper_case str)"

definition signal_outcome_parse :: "string \<Rightarrow> string + signal_outcome" where
  "signal_outcome_parse = enum_or_throw ''SignalOutcome'' signal_outcome_to_enum"

subsection \<open>TradeErrorCode\<close>

datatype trade_error_code =
    TEC_SUCCESS | TEC_INVALID_SYMBOL | TEC_INVALID_OPTION | TEC_INVALID_ORDER |
    TEC_INVALID_ACCOUNT | TEC_INVALID_CURRENCY | TEC_AMOUNT_TOO_LOW | TEC_AMOUNT_TOO_HIGH |
    TEC_REFUND_TOO_LOW | TEC_REFUND_TOO_HIGH | TEC_PAYOUT_TOO_LOW | TEC_INVALID_DURATION |
    TEC_INVALID_EXPIRY_TIME | TEC_LIMIT_OPEN_TRADES | TEC_INVALID_REQUEST |
    TEC_LONG_QUEUE_WAIT | TEC_LONG_RESPONSE_WAIT | TEC_NO_CONNECTION |
    TEC_CLIENT_FORCED_CLOSE | TEC_PARSING_ERROR | TEC_CANCELED_TRADE | TEC_INSUFFICIENT_BALANCE

definition trade_error_code_values :: "trade_error_code list" where
  "trade_error_code_values =
    [TEC_SUCCESS, TEC_INVALID_SYMBOL, TEC_INVALID_OPTION, TEC_INVALID_ORDER,
     TEC_INVALID_ACCOUNT, TEC_INVALID_CURRENCY, TEC_AMOUNT_TOO_LOW, TEC_AMOUNT_TOO_HIGH,
     TEC_REFUND_TOO_LOW, TEC_REFUND_TOO_HIGH, TEC_PAYOUT_TOO_LOW, TEC_INVALID_DURATION,
     TEC_INVALID_EXPIRY_TIME, TEC_LIMIT_OPEN_TRADES, TEC_INVALID_REQUEST, TEC_LONG_QUEUE_WAIT,
     TEC_LONG_RESPONSE_WAIT, TEC_NO_CONNECTION, TEC_CLIENT_FORCED_CLOSE, TEC_PARSING_ERROR,
     TEC_CANCELED_TRADE, TEC_INSUFFICIENT_BALANCE]"

definition trade_error_code_to_str :: "trade_error_code \<Rightarrow> string" where
  "trade_error_code_to_str value =
    (let str_data =
      [''Success.'', ''Invalid symbol.'', ''Invalid option type.'', ''Invalid order type.'',
      ''Invalid account type.'', ''Invalid currency.'', ''Amount below minimum.'',
      ''Amount above maximum.'', ''Refund below minimum.'', ''Refund above maximum.'',
      ''Low payout percentage.'', ''Invalid duration.'', ''Invalid expiry time.'',
      ''Reached open trades limit.'', ''Invalid request.'', ''Long wait in the order queue.'',
      ''Long wait for server response.'', ''No network connection.'',
      ''Forced client shutdown.'', ''Parser error.'', ''Canceled.'', ''Insufficient balance.''];
      index = enum_index trade_error_code_values value
     in if index < length str_data then str_data ! index else ''Unknown error code.'')"

definition trade_error_code_to_enum :: "string \<Rightarrow> trade_error_code option" where
  "trade_error_code_to_enum str = map_of
    [(''Success.'', TEC_SUCCESS), (''Invalid symbol.'', TEC_INVALID_SYMBOL),
     (''Invalid option type.'', TEC_INVALID_OPTION),
     (''Invalid order type.'', TEC_INVALID_ORDER),
     (''Invalid account type.'', TEC_INVALID_ACCOUNT),
     (''Invalid currency.'', TEC_INVALID_CURRENCY),
     (''Amount below minimum.'', TEC_AMOUNT_TOO_LOW),
     (''Amount above maximum.'', TEC_AMOUNT_TOO_HIGH),
     (''Refund below minimum.'', TEC_REFUND_TOO_LOW),
     (''Refund above maximum.'', TEC_REFUND_TOO_HIGH),
     (''Low payout percentage.'', TEC_PAYOUT_TOO_LOW),
     (''Invalid duration.'', TEC_INVALID_DURATION),
     (''Invalid expiry time.'', TEC_INVALID_EXPIRY_TIME),
     (''Reached open trades limit.'', TEC_LIMIT_OPEN_TRADES),
     (''Invalid request.'', TEC_INVALID_REQUEST),
     (''Long wait in the order queue.'', TEC_LONG_QUEUE_WAIT),
     (''Long wait for server response.'', TEC_LONG_RESPONSE_WAIT),
     (''No network connection.'', TEC_NO_CONNECTION),
     (''Forced client shutdown.'', TEC_CLIENT_FORCED_CLOSE),
     (''Parser error.'', TEC_PARSING_ERROR), (''Canceled.'', TEC_CANCELED_TRADE),
     (''Insufficient balance.'', TEC_INSUFFICIENT_BALANCE)]
    str"

definition trade_error_code_parse :: "string \<Rightarrow> string + trade_error_code" where
  "trade_error_code_parse = enum_or_throw ''TradeErrorCode'' trade_error_code_to_enum"

subsection \<open>MmSystemType\<close>

datatype mm_system_type =
    MM_NONE | MM_FIXED | MM_PERCENT | MM_KELLY_CRITERION | MM_MARTINGALE_SIGNAL |
    MM_MARTINGALE_SYMBOL | MM_MARTINGALE_BAR | MM_ANTI_MARTINGALE_SIGNAL |
    MM_ANTI_MARTINGALE_SYMBOL | MM_ANTI_MARTINGALE_BAR | MM_LABOUCHERE_SIGNAL |
    MM_LABOUCHERE_SYMBOL | MM_LABOUCHERE_BAR | MM_SKU_SIGNAL | MM_SKU_SYMBOL | MM_SKU_BAR

definition mm_system_type_values :: "mm_system_type list" where
  "mm_system_type_values =
    [MM_NONE, MM_FIXED, MM_PERCENT, MM_KELLY_CRITERION, MM_MARTINGALE_SIGNAL,
     MM_MARTINGALE_SYMBOL, MM_MARTINGALE_BAR, MM_ANTI_MARTINGALE_SIGNAL,
     MM_ANTI_MARTINGALE_SYMBOL, MM_ANTI_MARTINGALE_BAR, MM_LABOUCHERE_SIGNAL,
     MM_LABOUCHERE_SYMBOL, MM_LABOUCHERE_BAR, MM_SKU_SIGNAL, MM_SKU_SYMBOL, MM_SKU_BAR]"

definition mm_system_type_to_str :: "mm_system_type \<Rightarrow> string" where
  "mm_system_type_to_str value = enum_string_or_unknown
    [''NONE'', ''FIXED'', ''PERCENT'', ''KELLY_CRITERION'', ''MARTINGALE_SIGNAL'',
     ''MARTINGALE_SYMBOL'', ''MARTINGALE_BAR'', ''ANTI_MARTINGALE_SIGNAL'',
     ''ANTI_MARTINGALE_SYMBOL'', ''ANTI_MARTINGALE_BAR'', ''LABOUCHERE_SIGNAL'',
     ''LABOUCHERE_SYMBOL'', ''LABOUCHERE_BAR'', ''SKU_SIGNAL'', ''SKU_SYMBOL'', ''SKU_BAR'']
    (enum_index mm_system_type_values value)"

definition mm_system_type_to_enum :: "string \<Rightarrow> mm_system_type option" where
  "mm_system_type_to_enum str = map_of
    [(''NONE'', MM_NONE), (''FIXED'', MM_FIXED), (''PERCENT'', MM_PERCENT),
     (''KELLY_CRITERION'', MM_KELLY_CRITERION), (''MARTINGALE_SIGNAL'', MM_MARTINGALE_SIGNAL),
     (''MARTINGALE_SYMBOL'', MM_MARTINGALE_SYMBOL), (''MARTINGALE_BAR'', MM_MARTINGALE_BAR),
     (''ANTI_MARTINGALE_SIGNAL'', MM_ANTI_MARTINGALE_SIGNAL),
     (''ANTI_MARTINGALE_SYMBOL'', MM_ANTI_MARTINGALE_SYMBOL),
     (''ANTI_MARTINGALE_BAR'', MM_ANTI_MARTINGALE_BAR),
     (''LABOUCHERE_SIGNAL'', MM_LABOUCHERE_SIGNAL),
     (''LABOUCHERE_SYMBOL'', MM_LABOUCHERE_SYMBOL), (''LABOUCHERE_BAR'', MM_LABOUCHERE_BAR),
     (''SKU_SIGNAL'', MM_SKU_SIGNAL), (''SKU_SYMBOL'', MM_SKU_SYMBOL), (''SKU_BAR'', MM_SKU_BAR)]
    str"

definition mm_system_type_parse :: "string \<Rightarrow> string + mm_system_type" where
  "mm_system_type_parse = enum_or_throw ''MmSystemType'' mm_system_type_to_enum"

subsection \<open>Trade state predicates\<close>

definition is_win :: "trade_state \<Rightarrow> bool" where
  "is_win state \<longleftrightarrow> state = TS_WIN"

definition is_loss :: "trade_state \<Rightarrow> bool" where
  "is_loss state \<longleftrightarrow> state = TS_LOSS"

definition is_standoff :: "trade_state \<Rightarrow> bool" where
  "is_standoff state \<longleftrightarrow> state = TS_STANDOFF"

definition is_refund :: "trade_state \<Rightarrow> bool" where
  "is_refund state \<longleftrightarrow> state = TS_REFUND"

definition is_terminal_trade_state :: "trade_state \<Rightarrow> bool" where
  "is_terminal_trade_state state \<longleftrightarrow>
     state = TS_WIN \<or> state = TS_LOSS \<or> state = TS_STANDOFF \<or> state = TS_REFUND \<or>
     state = TS_OPEN_ERROR \<or> state = TS_CHECK_ERROR \<or> state = TS_CANCELED_TRADE"

definition is_error_trade_state :: "trade_state \<Rightarrow> bool" where
  "is_error_trade_state state \<longleftrightarrow>
     state = TS_OPEN_ERROR \<or> state = TS_CHECK_ERROR \<or> state = TS_CANCELED_TRADE"

definition is_result_state :: "trade_state \<Rightarrow> bool" where
  "is_result_state state \<longleftrightarrow>
     state = TS_WIN \<or> state = TS_LOSS \<or> state = TS_STANDOFF \<or> state = TS_REFUND"

subsection \<open>Lemmas\<close>

lemmas enum_defs = enum_index_def enum_string_or_unknown_def to_upper_case_def c_toupper_def

lemma platform_type_roundtrip: "platform_type_to_enum (platform_type_to_str v 0) = Some v"
  by (cases v) (simp_all add: platform_type_to_str_def platform_type_to_enum_def platform_type_values_def enum_defs)

interpretation platform_type_codec: normalising_codec "\<lambda>v. platform_type_to_str v 0" platform_type_to_enum to_upper_case
  by (unfold_locales, rule platform_type_roundtrip, simp only: platform_type_to_enum_def)

lemma bridge_type_roundtrip: "bridge_type_to_enum (bridge_type_to_str v 0) = Some v"
  by (cases v) (simp_all add: bridge_type_to_str_def bridge_type_to_enum_def bridge_type_values_def enum_defs)

interpretation bridge_type_codec: normalising_codec "\<lambda>v. bridge_type_to_str v 0" bridge_type_to_enum to_upper_case
  by (unfold_locales, rule bridge_type_roundtrip, simp only: bridge_type_to_enum_def)

lemma account_type_roundtrip: "account_type_to_enum (account_type_to_str v 0) = Some v"
  by (cases v) (simp_all add: account_type_to_str_def account_type_to_enum_def account_type_values_def enum_defs)

interpretation account_type_codec: normalising_codec "\<lambda>v. account_type_to_str v 0" account_type_to_enum to_upper_case
  by (unfold_locales, rule account_type_roundtrip, simp only: account_type_to_enum_def)

lemma option_type_roundtrip: "option_type_to_enum (option_type_to_str v 0) = Some v"
  by (cases v) (simp_all add: option_type_to_str_def option_type_to_enum_def option_type_values_def enum_defs)

interpretation option_type_codec: normalising_codec "\<lambda>v. option_type_to_str v 0" option_type_to_enum to_upper_case
  by (unfold_locales, rule option_type_roundtrip, simp only: option_type_to_enum_def)

lemma order_type_roundtrip: "order_type_to_enum (order_type_to_str v 0) = Some v"
  by (cases v) (simp_all add: order_type_to_str_def order_type_to_enum_def order_type_values_def enum_defs)

interpretation order_type_codec: normalising_codec "\<lambda>v. order_type_to_str v 0" order_type_to_enum to_upper_case
  by (unfold_locales, rule order_type_roundtrip, simp only: order_type_to_enum_def)

lemma currency_type_roundtrip: "currency_type_to_enum (currency_type_to_str v) = Some v"
  by (cases v) (simp_all add: currency_type_to_str_def currency_type_to_enum_def currency_type_values_def enum_defs)

interpretation currency_type_codec: normalising_codec "currency_type_to_str" currency_type_to_enum to_upper_case
  by (unfold_locales, rule currency_type_roundtrip, simp only: currency_type_to_enum_def)

lemma trade_state_roundtrip: "trade_state_to_enum (trade_state_to_str v) = Some v"
  by (cases v) (simp_all add: trade_state_to_str_def trade_state_to_enum_def trade_state_values_def enum_defs)

interpretation trade_state_codec: normalising_codec "trade_state_to_str" trade_state_to_enum to_upper_case
  by (unfold_locales, rule trade_state_roundtrip, simp only: trade_state_to_enum_def)

lemma signal_status_roundtrip: "signal_status_to_enum (signal_status_to_str v) = Some v"
  by (cases v) (simp_all add: signal_status_to_str_def signal_status_to_enum_def signal_status_values_def enum_defs)

interpretation signal_status_codec: normalising_codec "signal_status_to_str" signal_status_to_enum to_upper_case
  by (unfold_locales, rule signal_status_roundtrip, simp only: signal_status_to_enum_def)

lemma signal_reject_code_roundtrip: "signal_reject_code_to_enum (signal_reject_code_to_str v) = Some v"
  by (cases v) (simp_all add: signal_reject_code_to_str_def signal_reject_code_to_enum_def signal_reject_code_values_def enum_defs)

interpretation signal_reject_code_codec: normalising_codec "signal_reject_code_to_str" signal_reject_code_to_enum to_upper_case
  by (unfold_locales, rule signal_reject_code_roundtrip, simp only: signal_reject_code_to_enum_def)

lemma signal_outcome_roundtrip: "signal_outcome_to_enum (signal_outcome_to_str v) = Some v"
  by (cases v) (simp_all add: signal_outcome_to_str_def signal_outcome_to_enum_def signal_outcome_values_def enum_defs)

interpretation signal_outcome_codec: normalising_codec "signal_outcome_to_str" signal_outcome_to_enum to_upper_case
  by (unfold_locales, rule signal_outcome_roundtrip, simp only: signal_outcome_to_enum_def)

lemma trade_error_code_roundtrip: "trade_error_code_to_enum (trade_error_code_to_str v) = Some v"
  by (cases v) (simp_all add: trade_error_code_to_str_def trade_error_code_to_enum_def trade_error_code_values_def enum_defs)

interpretation trade_error_code_codec: enum_codec "trade_error_code_to_str" trade_error_code_to_enum
  by (unfold_locales, rule trade_error_code_roundtrip)

lemma mm_system_type_roundtrip: "mm_system_type_to_enum (mm_system_type_to_str v) = Some v"
  by (cases v) (simp_all add: mm_system_type_to_str_def mm_system_type_to_enum_def mm_system_type_values_def enum_defs)

interpretation mm_system_type_codec: enum_codec "mm_system_type_to_str" mm_system_type_to_enum
  by (unfold_locales, rule mm_system_type_roundtrip)

end
