(* ===== verification/Money.thy ===== *)
theory Money
  imports TradingEnums
begin

section \<open>Policy decisions and fixed-point money\<close>

text \<open>
  \<open>trading_system/PolicyTypes.hpp\<close>: the decision and reason enums, the decision records
  with their factories, and \<open>MoneyAmount\<close>, a fixed-point amount (\<open>units\<close> is the amount
  times 10 to the \<open>precision\<close>). \<open>units\<close> is an \<open>std::int64_t\<close>; \<open>money_ok\<close> says that it is
  in the range of that type. The lemmas give an exact specification of the decimal parser
  and the round trip through the printer.
\<close>

subsection \<open>Enums\<close>

datatype data_availability =
    DA_SUPPORTED | DA_UNAVAILABLE | DA_STALE | DA_UNKNOWN

fun data_availability_to_string :: "data_availability \<Rightarrow> string" where
  "data_availability_to_string DA_SUPPORTED = ''SUPPORTED''"
| "data_availability_to_string DA_UNAVAILABLE = ''UNAVAILABLE''"
| "data_availability_to_string DA_STALE = ''STALE''"
| "data_availability_to_string DA_UNKNOWN = ''UNKNOWN''"

datatype policy_decision_kind =
    PDK_ALLOW | PDK_REJECT | PDK_UNAVAILABLE

fun policy_decision_kind_to_string :: "policy_decision_kind \<Rightarrow> string" where
  "policy_decision_kind_to_string PDK_ALLOW = ''ALLOW''"
| "policy_decision_kind_to_string PDK_REJECT = ''REJECT''"
| "policy_decision_kind_to_string PDK_UNAVAILABLE = ''UNAVAILABLE''"

datatype policy_reason =
    PR_NONE | PR_MATCHED | PR_INVALID_CONTEXT | PR_INVALID_CONFIGURATION | PR_MISSING_SYMBOL |
    PR_UNKNOWN_SYMBOL | PR_SYMBOL_NOT_ALLOWED | PR_SYMBOL_DENIED | PR_MISSING_SOURCE_ID |
    PR_SOURCE_NOT_ALLOWED | PR_SOURCE_DENIED | PR_MISSING_SIGNAL_NAME |
    PR_SIGNAL_NAME_NOT_ALLOWED | PR_SIGNAL_NAME_DENIED | PR_MISSING_EVALUATION_TIME |
    PR_WEEKDAY_NOT_ALLOWED | PR_TIME_NOT_ALLOWED | PR_TIME_DENIED

fun policy_reason_to_string :: "policy_reason \<Rightarrow> string" where
  "policy_reason_to_string PR_NONE = ''NONE''"
| "policy_reason_to_string PR_MATCHED = ''MATCHED''"
| "policy_reason_to_string PR_INVALID_CONTEXT = ''INVALID_CONTEXT''"
| "policy_reason_to_string PR_INVALID_CONFIGURATION = ''INVALID_CONFIGURATION''"
| "policy_reason_to_string PR_MISSING_SYMBOL = ''MISSING_SYMBOL''"
| "policy_reason_to_string PR_UNKNOWN_SYMBOL = ''UNKNOWN_SYMBOL''"
| "policy_reason_to_string PR_SYMBOL_NOT_ALLOWED = ''SYMBOL_NOT_ALLOWED''"
| "policy_reason_to_string PR_SYMBOL_DENIED = ''SYMBOL_DENIED''"
| "policy_reason_to_string PR_MISSING_SOURCE_ID = ''MISSING_SOURCE_ID''"
| "policy_reason_to_string PR_SOURCE_NOT_ALLOWED = ''SOURCE_NOT_ALLOWED''"
| "policy_reason_to_string PR_SOURCE_DENIED = ''SOURCE_DENIED''"
| "policy_reason_to_string PR_MISSING_SIGNAL_NAME = ''MISSING_SIGNAL_NAME''"
| "policy_reason_to_string PR_SIGNAL_NAME_NOT_ALLOWED = ''SIGNAL_NAME_NOT_ALLOWED''"
| "policy_reason_to_string PR_SIGNAL_NAME_DENIED = ''SIGNAL_NAME_DENIED''"
| "policy_reason_to_string PR_MISSING_EVALUATION_TIME = ''MISSING_EVALUATION_TIME''"
| "policy_reason_to_string PR_WEEKDAY_NOT_ALLOWED = ''WEEKDAY_NOT_ALLOWED''"
| "policy_reason_to_string PR_TIME_NOT_ALLOWED = ''TIME_NOT_ALLOWED''"
| "policy_reason_to_string PR_TIME_DENIED = ''TIME_DENIED''"

datatype sizing_decision_kind =
    SDK_SIZED | SDK_REJECTED | SDK_UNAVAILABLE

fun sizing_decision_kind_to_string :: "sizing_decision_kind \<Rightarrow> string" where
  "sizing_decision_kind_to_string SDK_SIZED = ''SIZED''"
| "sizing_decision_kind_to_string SDK_REJECTED = ''REJECTED''"
| "sizing_decision_kind_to_string SDK_UNAVAILABLE = ''UNAVAILABLE''"

datatype sizing_reason =
    SR_NONE | SR_SIZED | SR_INVALID_CONFIGURATION | SR_INVALID_AMOUNT | SR_INVALID_PERCENT |
    SR_UNKNOWN_CURRENCY | SR_CURRENCY_MISMATCH | SR_BALANCE_UNAVAILABLE | SR_BALANCE_STALE |
    SR_BALANCE_UNKNOWN | SR_MISSING_BALANCE | SR_ZERO_BALANCE | SR_NEGATIVE_BALANCE |
    SR_ZERO_RESULT | SR_PRECISION_MISMATCH | SR_NUMERIC_OVERFLOW

fun sizing_reason_to_string :: "sizing_reason \<Rightarrow> string" where
  "sizing_reason_to_string SR_NONE = ''NONE''"
| "sizing_reason_to_string SR_SIZED = ''SIZED''"
| "sizing_reason_to_string SR_INVALID_CONFIGURATION = ''INVALID_CONFIGURATION''"
| "sizing_reason_to_string SR_INVALID_AMOUNT = ''INVALID_AMOUNT''"
| "sizing_reason_to_string SR_INVALID_PERCENT = ''INVALID_PERCENT''"
| "sizing_reason_to_string SR_UNKNOWN_CURRENCY = ''UNKNOWN_CURRENCY''"
| "sizing_reason_to_string SR_CURRENCY_MISMATCH = ''CURRENCY_MISMATCH''"
| "sizing_reason_to_string SR_BALANCE_UNAVAILABLE = ''BALANCE_UNAVAILABLE''"
| "sizing_reason_to_string SR_BALANCE_STALE = ''BALANCE_STALE''"
| "sizing_reason_to_string SR_BALANCE_UNKNOWN = ''BALANCE_UNKNOWN''"
| "sizing_reason_to_string SR_MISSING_BALANCE = ''MISSING_BALANCE''"
| "sizing_reason_to_string SR_ZERO_BALANCE = ''ZERO_BALANCE''"
| "sizing_reason_to_string SR_NEGATIVE_BALANCE = ''NEGATIVE_BALANCE''"
| "sizing_reason_to_string SR_ZERO_RESULT = ''ZERO_RESULT''"
| "sizing_reason_to_string SR_PRECISION_MISMATCH = ''PRECISION_MISMATCH''"
| "sizing_reason_to_string SR_NUMERIC_OVERFLOW = ''NUMERIC_OVERFLOW''"

subsection \<open>Decisions\<close>

record policy_decision =
  pd_kind :: policy_decision_kind
  pd_reason :: policy_reason

definition pd_allow :: "policy_reason \<Rightarrow> policy_decision" where
  "pd_allow reason = \<lparr>pd_kind = PDK_ALLOW, pd_reason = reason\<rparr>"

definition pd_reject :: "policy_reason \<Rightarrow> policy_decision" where
  "pd_reject reason = \<lparr>pd_kind = PDK_REJECT, pd_reason = reason\<rparr>"

definition pd_unavailable :: "policy_reason \<Rightarrow> policy_decision" where
  "pd_unavailable reason = \<lparr>pd_kind = PDK_UNAVAILABLE, pd_reason = reason\<rparr>"

definition pd_is_allowed :: "policy_decision \<Rightarrow> bool" where
  "pd_is_allowed d \<longleftrightarrow> pd_kind d = PDK_ALLOW"

subsection \<open>Money\<close>

definition max_money_precision :: u8 where
  "max_money_precision = 18"

primrec power_of_ten_loop :: "nat \<Rightarrow> u64 \<Rightarrow> u64" where
  "power_of_ten_loop 0 r = r"
| "power_of_ten_loop (Suc n) r = power_of_ten_loop n (r * 10)"

definition power_of_ten :: "u8 \<Rightarrow> u64" where
  "power_of_ten precision = power_of_ten_loop (unat precision) 1"

record money_amount =
  ma_units :: int
  ma_precision :: u8
  ma_currency :: currency_type

definition money_default :: money_amount where
  "money_default = \<lparr>ma_units = 0, ma_precision = 2, ma_currency = CUR_UNKNOWN\<rparr>"

definition valid_metadata :: "money_amount \<Rightarrow> bool" where
  "valid_metadata m \<longleftrightarrow> ma_precision m \<le> max_money_precision \<and> ma_currency m \<noteq> CUR_UNKNOWN"

definition money_ok :: "money_amount \<Rightarrow> bool" where
  "money_ok m \<longleftrightarrow> i64 (ma_units m)"

subsubsection \<open>Parsing a decimal\<close>

definition is_digit :: "char \<Rightarrow> bool" where
  "is_digit ch \<longleftrightarrow> 48 \<le> (of_char ch :: nat) \<and> (of_char ch :: nat) \<le> 57"

definition digit_value :: "char \<Rightarrow> nat" where
  "digit_value ch = of_char ch - 48"

text \<open>The loop over the integer part: \<open>None\<close> is an early \<open>return std::nullopt\<close>.\<close>

fun whole_loop :: "string \<Rightarrow> u64 \<Rightarrow> u64 option" where
  "whole_loop [] whole = Some whole"
| "whole_loop (ch # cs) whole =
     (if \<not> is_digit ch then None
      else let digit = of_nat (digit_value ch)
           in if (u64_max - digit) div 10 < whole then None
              else whole_loop cs (whole * 10 + digit))"

text \<open>The loop over the fraction: \<open>i\<close> counts the digits read so far.\<close>

fun fraction_loop :: "nat \<Rightarrow> nat \<Rightarrow> string \<Rightarrow> u64 \<Rightarrow> u64 option" where
  "fraction_loop stored i [] fraction = Some fraction"
| "fraction_loop stored i (ch # cs) fraction =
     (if \<not> is_digit ch then None
      else if i < stored
           then fraction_loop stored (Suc i) cs (fraction * 10 + of_nat (digit_value ch))
      else if ch \<noteq> CHR ''0'' then None
      else fraction_loop stored (Suc i) cs fraction)"

definition from_decimal :: "string \<Rightarrow> currency_type \<Rightarrow> u8 \<Rightarrow> money_amount option" where
  "from_decimal text currency precision =
     (if text = [] \<or> max_money_precision < precision \<or> currency = CUR_UNKNOWN then None
      else
        let signed = (text ! 0 = CHR ''+'' \<or> text ! 0 = CHR ''-'');
            negative = (text ! 0 = CHR ''-'');
            position = (if signed then 1 else 0)
        in if signed \<and> position = length text then None
        else
          let dot = str_find text CHR ''.'' position
          in if (case dot of None \<Rightarrow> False | Some d \<Rightarrow> str_find text CHR ''.'' (d + 1) \<noteq> None) then None
          else
            let integer_end = (case dot of None \<Rightarrow> length text | Some d \<Rightarrow> d);
                fraction_begin = (case dot of None \<Rightarrow> length text | Some d \<Rightarrow> d + 1);
                fraction_size = length text - fraction_begin
            in if integer_end = position \<and> fraction_size = 0 then None
            else
              case whole_loop (take (integer_end - position) (drop position text)) 0 of
                None \<Rightarrow> None
              | Some whole \<Rightarrow>
                  let stored = min fraction_size (unat precision)
                  in case fraction_loop stored 0 (drop fraction_begin text) 0 of
                       None \<Rightarrow> None
                     | Some digits \<Rightarrow>
                         let fraction = power_of_ten_loop (unat precision - stored) digits;
                             factor = power_of_ten precision;
                             max_positive = u64_of_i64 i64_max;
                             max_magnitude = (if negative then max_positive + 1 else max_positive)
                         in if (max_magnitude - fraction) div factor < whole then None
                         else
                           let magnitude = whole * factor + fraction
                           in Some \<lparr>ma_units =
                                      (if \<not> negative then i64_of_u64 magnitude
                                       else if magnitude = max_positive + 1 then i64_min
                                       else - i64_of_u64 magnitude),
                                    ma_precision = precision, ma_currency = currency\<rparr>)"

subsubsection \<open>Printing a decimal\<close>

definition digit_char :: "nat \<Rightarrow> char" where
  "digit_char d = char_of (48 + d)"

fun nat_to_string :: "nat \<Rightarrow> string" where
  "nat_to_string n =
     (if n < 10 then [digit_char n] else nat_to_string (n div 10) @ [digit_char (n mod 10)])"

declare nat_to_string.simps [simp del]

text \<open>\<open>std::to_string\<close> of an unsigned value.\<close>

definition u64_to_string :: "u64 \<Rightarrow> string" where
  "u64_to_string w = nat_to_string (unat w)"

definition magnitude_of :: "int \<Rightarrow> u64" where
  "magnitude_of units = (if units < 0 then u64_of_i64 (- (units + 1)) + 1 else u64_of_i64 units)"

definition to_decimal :: "money_amount \<Rightarrow> string" where
  "to_decimal m =
     (if \<not> valid_metadata m then []
      else
        let negative = (ma_units m < 0);
            magnitude = magnitude_of (ma_units m);
            factor = power_of_ten (ma_precision m);
            whole = magnitude div factor;
            fraction = magnitude mod factor;
            result = (if negative then ''-'' else []) @ u64_to_string whole
        in if ma_precision m = 0 then result
           else
             let fraction_text = u64_to_string fraction
             in result @ ''.'' @
                replicate (unat (ma_precision m) - length fraction_text) CHR ''0'' @ fraction_text)"

subsection \<open>Sizing decisions\<close>

record sizing_decision =
  sd_kind :: sizing_decision_kind
  sd_reason :: sizing_reason
  sd_amount :: "money_amount option"

definition sd_sized :: "money_amount \<Rightarrow> sizing_decision" where
  "sd_sized amount = \<lparr>sd_kind = SDK_SIZED, sd_reason = SR_SIZED, sd_amount = Some amount\<rparr>"

definition sd_rejected :: "sizing_reason \<Rightarrow> sizing_decision" where
  "sd_rejected reason = \<lparr>sd_kind = SDK_REJECTED, sd_reason = reason, sd_amount = None\<rparr>"

definition sd_unavailable :: "sizing_reason \<Rightarrow> sizing_decision" where
  "sd_unavailable reason = \<lparr>sd_kind = SDK_UNAVAILABLE, sd_reason = reason, sd_amount = None\<rparr>"

definition sd_is_sized :: "sizing_decision \<Rightarrow> bool" where
  "sd_is_sized d \<longleftrightarrow> sd_kind d = SDK_SIZED \<and> sd_amount d \<noteq> None"

subsection \<open>Powers of ten and digit strings\<close>

lemma power_of_ten_loop_unat:
  "unat r * 10 ^ n < 2 ^ 64 \<Longrightarrow> unat (power_of_ten_loop n r) = unat r * 10 ^ n"
proof (induction n arbitrary: r)
  case (Suc n)
  have "unat r * 10 \<le> unat r * 10 ^ Suc n" by simp
  from this Suc.prems have "unat r * 10 < 2 ^ 64" by (rule le_less_trans)
  then have "unat r * unat (10 :: u64) < 2 ^ LENGTH(64)" by simp
  then have r: "unat (r * 10) = unat r * 10" by (simp only: unat_mult_lem) simp
  with Suc show ?case by (simp add: mult.assoc)
qed simp

lemma max_money_precision_le: "p \<le> max_money_precision \<longleftrightarrow> unat p \<le> 18"
  by (simp add: max_money_precision_def word_le_nat_alt)

lemma pow10_le: "n \<le> 18 \<Longrightarrow> (10 :: nat) ^ n \<le> 1000000000000000000"
  using power_increasing [of n 18 "10 :: nat"] by simp

lemma unat_power_of_ten: "p \<le> max_money_precision \<Longrightarrow> unat (power_of_ten p) = 10 ^ unat p"
  using pow10_le [of "unat p"]
  by (simp add: power_of_ten_def max_money_precision_le power_of_ten_loop_unat)

definition digits_val :: "nat \<Rightarrow> string \<Rightarrow> nat" where
  "digits_val v cs = foldl (\<lambda>v c. v * 10 + digit_value c) v cs"

lemma digits_val_Nil [simp]: "digits_val v [] = v"
  by (simp add: digits_val_def)

lemma digits_val_Cons [simp]: "digits_val v (c # cs) = digits_val (v * 10 + digit_value c) cs"
  by (simp add: digits_val_def)

lemma digits_val_append: "digits_val v (a @ b) = digits_val (digits_val v a) b"
  by (simp add: digits_val_def)

lemma digits_val_shift: "digits_val v cs = v * 10 ^ length cs + digits_val 0 cs"
proof (induction cs arbitrary: v)
  case (Cons c cs)
  have "digits_val (v * 10 + digit_value c) cs = (v * 10 + digit_value c) * 10 ^ length cs + digits_val 0 cs"
    by (rule Cons)
  moreover have "digits_val (digit_value c) cs = digit_value c * 10 ^ length cs + digits_val 0 cs"
    by (rule Cons)
  ultimately show ?case by (simp add: algebra_simps)
qed simp

lemma digit_value_le: "is_digit c \<Longrightarrow> digit_value c \<le> 9"
  unfolding is_digit_def digit_value_def by linarith

lemma digits_val_bound: "list_all is_digit cs \<Longrightarrow> digits_val 0 cs < 10 ^ length cs"
proof (induction cs rule: rev_induct)
  case (snoc c cs)
  then show ?case using digit_value_le [of c] by (simp add: digits_val_append)
qed simp

lemma unat_digit [simp]: "is_digit c \<Longrightarrow> unat (of_nat (digit_value c) :: u64) = digit_value c"
  using digit_value_le [of c] by (simp add: unat_of_nat)

lemma whole_loop_guard:
  assumes "is_digit c"
  shows "(u64_max - of_nat (digit_value c)) div 10 < w \<longleftrightarrow> 2 ^ 64 \<le> unat w * 10 + digit_value c"
proof -
  have "unat (u64_max - of_nat (digit_value c)) = unat u64_max - digit_value c"
    using assms digit_value_le [of c] by (subst unat_sub) (simp_all add: word_le_nat_alt)
  moreover have "a div 10 < b \<longleftrightarrow> a < b * 10" for a b :: nat by (simp add: less_mult_imp_div_less div_less_iff_less_mult)
  ultimately show ?thesis
    using digit_value_le [OF assms] by (simp add: word_less_nat_alt unat_div) linarith
qed

lemma whole_loop_digits:
  "list_all is_digit cs \<Longrightarrow> whole_loop cs w =
     (if digits_val (unat w) cs < 2 ^ 64 then Some (of_nat (digits_val (unat w) cs)) else None)"
proof (induction cs arbitrary: w)
  case (Cons c cs)
  let ?v = "unat w * 10 + digit_value c"
  have c: "is_digit c" "list_all is_digit cs" using Cons.prems by auto
  show ?case
  proof (cases "?v < 2 ^ 64")
    case True
    have m: "unat (w * 10) = unat w * 10"
      using True by (subst unat_mult_lem [THEN iffD1, of w 10]) simp_all
    have "unat (w * 10 + of_nat (digit_value c)) = ?v"
      using True c by (subst unat_add_lem [THEN iffD1]) (simp_all add: m)
    with True Cons.IH [OF c(2)] c show ?thesis by (simp add: whole_loop_guard)
  next
    case False
    have "?v \<le> digits_val ?v cs" by (subst digits_val_shift) (simp add: trans_le_add1)
    with False c show ?thesis by (simp add: whole_loop_guard)
  qed
next
  case Nil
  show ?case using unat_u64_less [of w] by simp
qed

lemma whole_loop_nondigit: "\<not> list_all is_digit cs \<Longrightarrow> whole_loop cs w = None"
  by (induction cs arbitrary: w) (auto simp: Let_def)

lemma fraction_loop_digits:
  assumes "unat f * 10 ^ (stored - i) + 10 ^ (stored - i) \<le> 2 ^ 64" and "list_all is_digit cs"
    and "stored - i \<le> length cs"
  shows "fraction_loop stored i cs f =
    (if list_all (\<lambda>c. c = CHR ''0'') (drop (stored - i) cs)
     then Some (of_nat (digits_val (unat f) (take (stored - i) cs))) else None)"
  using assms
proof (induction stored i cs f rule: fraction_loop.induct)
  case (2 stored i ch cs f)
  have d: "is_digit ch" "digit_value ch \<le> 9" using "2.prems" digit_value_le by auto
  show ?case
  proof (cases "i < stored")
    case True
    then obtain k where k: "stored - i = Suc k" "stored - Suc i = k"
      by (metis Suc_diff_Suc)
    let ?g = "f * 10 + of_nat (digit_value ch)"
    have le: "unat f * 10 ^ Suc k + 10 ^ Suc k \<le> 2 ^ 64" using "2.prems"(1) k by simp
    have le': "(unat f * 10 + 10) * 10 ^ k \<le> 2 ^ 64" using le by (simp add: algebra_simps)
    have "unat f * 10 + 10 \<le> (unat f * 10 + 10) * 10 ^ k" by simp
    from this le' have lt: "unat f * 10 + 10 \<le> 2 ^ 64" by (rule le_trans)
    have m: "unat (f * 10) = unat f * 10"
      using lt by (subst unat_mult_lem [THEN iffD1, of f 10]) simp_all
    have g: "unat ?g = unat f * 10 + digit_value ch"
      using lt d by (subst unat_add_lem [THEN iffD1]) (simp_all add: m)
    have "unat ?g * 10 ^ k + 10 ^ k = (unat ?g + 1) * 10 ^ k" by simp
    also have "\<dots> \<le> (unat f * 10 + 10) * 10 ^ k" using d(2) by (intro mult_le_mono1) (simp add: g)
    also note le'
    finally have "fraction_loop stored (Suc i) cs ?g =
      (if list_all (\<lambda>c. c = CHR ''0'') (drop k cs)
       then Some (of_nat (digits_val (unat ?g) (take k cs))) else None)"
      using "2.IH"(1) d(1) True "2.prems" k by simp
    with True d(1) k show ?thesis by (simp add: g)
  next
    case False
    then have "stored - i = 0" "stored - Suc i = 0" by auto
    with False "2.prems" "2.IH"(2) d(1) show ?thesis by auto
  qed
qed auto

lemma fraction_loop_nondigit: "\<not> list_all is_digit cs \<Longrightarrow> fraction_loop stored i cs f = None"
  by (induction cs arbitrary: i f) auto


subsection \<open>Exact specification of the parser\<close>

text \<open>
  \<open>decimal_units\<close> is the exact value of the digits, in units of 10 to the minus
  \<open>p\<close>, when the digits after the \<open>p\<close>-th fractional one are zero.
\<close>

definition decimal_units :: "string \<Rightarrow> string \<Rightarrow> nat \<Rightarrow> nat" where
  "decimal_units ip fp p = digits_val 0 (ip @ take p fp) * 10 ^ (p - length fp)"

lemma decimal_units_split:
  "decimal_units ip fp p =
     digits_val 0 ip * 10 ^ p + digits_val 0 (take p fp) * 10 ^ (p - length fp)"
proof -
  have "digits_val 0 (ip @ take p fp) = digits_val 0 ip * 10 ^ min p (length fp) + digits_val 0 (take p fp)"
    by (simp add: digits_val_append digits_val_shift [of "digits_val 0 ip"] min.commute)
  moreover have "10 ^ min p (length fp) * 10 ^ (p - length fp) = (10 :: nat) ^ p"
    by (simp add: min_def flip: power_add)
  ultimately show ?thesis
    by (simp add: decimal_units_def add_mult_distrib mult.assoc)
qed

lemma fraction_bound:
  assumes "list_all is_digit fp"
  shows "digits_val 0 (take p fp) * 10 ^ (p - length fp) < 10 ^ p"
proof -
  have "list_all is_digit (take p fp)" using assms by (auto simp: list_all_iff dest: in_set_takeD)
  then have "digits_val 0 (take p fp) < 10 ^ min p (length fp)"
    using digits_val_bound [of "take p fp"] by (simp add: min.commute)
  then have "digits_val 0 (take p fp) * 10 ^ (p - length fp) < 10 ^ min p (length fp) * 10 ^ (p - length fp)"
    by simp
  also have "\<dots> = 10 ^ p" by (simp add: min_def flip: power_add)
  finally show ?thesis .
qed

lemma fraction_scaled:
  assumes "list_all is_digit fp" and "p \<le> 18"
  shows "unat (power_of_ten_loop (p - min (length fp) p) (of_nat (digits_val 0 (take p fp)))) =
    digits_val 0 (take p fp) * 10 ^ (p - length fp)"
proof -
  let ?d = "digits_val 0 (take p fp)"
  have b: "?d * 10 ^ (p - length fp) < 10 ^ p" using assms(1) by (rule fraction_bound)
  have "?d \<le> ?d * 10 ^ (p - length fp)" by simp
  from this b have "?d < 10 ^ p" by (rule le_less_trans)
  with pow10_le [OF assms(2)] have "?d < 2 ^ 64" by simp
  then have d: "unat (of_nat ?d :: u64) = ?d" by (simp add: unat_of_nat)
  have "p - min (length fp) p = p - length fp" by simp
  then show ?thesis using b pow10_le [OF assms(2)] by (simp only:) (simp add: power_of_ten_loop_unat d)
qed

lemma magnitude_guard:
  fixes m f w :: u64
  assumes "unat f < 10 ^ unat p" and "10 ^ unat p \<le> unat m" and "p \<le> max_money_precision"
  shows "(m - f) div power_of_ten p < w \<longleftrightarrow> unat m < unat w * 10 ^ unat p + unat f"
    and "unat w * 10 ^ unat p + unat f \<le> unat m \<Longrightarrow>
         unat (w * power_of_ten p + f) = unat w * 10 ^ unat p + unat f"
proof -
  have t: "unat (power_of_ten p) = 10 ^ unat p" using assms(3) by (rule unat_power_of_ten)
  have "unat (m - f) = unat m - unat f" using assms by (intro unat_sub) (simp add: word_le_nat_alt)
  moreover have "a div 10 ^ n < b \<longleftrightarrow> a < b * 10 ^ n" for a b n :: nat by (simp add: div_less_iff_less_mult)
  ultimately show "(m - f) div power_of_ten p < w \<longleftrightarrow> unat m < unat w * 10 ^ unat p + unat f"
    using assms(1,2) by (simp add: word_less_nat_alt unat_div t) linarith
  assume le: "unat w * 10 ^ unat p + unat f \<le> unat m"
  then have lt: "unat w * 10 ^ unat p + unat f < 2 ^ 64" using unat_u64_less [of m] by simp
  have "unat (w * power_of_ten p) = unat w * 10 ^ unat p"
    using lt by (subst unat_mult_lem [THEN iffD1]) (simp_all add: t)
  then show "unat (w * power_of_ten p + f) = unat w * 10 ^ unat p + unat f"
    using lt by (subst unat_add_lem [THEN iffD1]) simp_all
qed


definition decimal_text :: "string \<Rightarrow> string \<Rightarrow> string \<Rightarrow> string \<Rightarrow> bool" where
  "decimal_text sg ip dot fp \<longleftrightarrow>
     (sg = [] \<or> sg = ''+'' \<or> sg = ''-'') \<and> list_all is_digit ip \<and> list_all is_digit fp \<and>
     (dot = ''.'' \<or> dot = [] \<and> fp = []) \<and> ip @ fp \<noteq> []"

definition signed_units :: "string \<Rightarrow> nat \<Rightarrow> int" where
  "signed_units sg n = (if sg = ''-'' then - int n else int n)"

lemma digit_not_mark:
  "is_digit c \<Longrightarrow> c \<noteq> CHR ''.'' \<and> c \<noteq> CHR ''+'' \<and> c \<noteq> CHR ''-''"
  by (auto simp: is_digit_def)

lemma digits_no_dot: "list_all is_digit cs \<Longrightarrow> CHR ''.'' \<notin> set cs"
  using digit_not_mark by (auto simp: list_all_iff)

text \<open>The last step: the magnitude against the limit of the signed type.\<close>

lemma units_result:
  fixes w f :: u64
  assumes f: "unat f < 10 ^ unat p" and p: "p \<le> max_money_precision"
  defines "n \<equiv> unat w * 10 ^ unat p + unat f"
    and "mx \<equiv> u64_of_i64 i64_max"
  shows "(if ((if sg = ''-'' then mx + 1 else mx) - f) div power_of_ten p < w then None
     else let magnitude = w * power_of_ten p + f in
       Some \<lparr>ma_units = (if sg \<noteq> ''-'' then i64_of_u64 magnitude
               else if magnitude = mx + 1 then i64_min else - i64_of_u64 magnitude),
             ma_precision = p, ma_currency = c\<rparr>) =
    (if i64 (signed_units sg n)
     then Some \<lparr>ma_units = signed_units sg n, ma_precision = p, ma_currency = c\<rparr> else None)"
proof -
  let ?m = "if sg = ''-'' then mx + 1 else mx"
  have mx: "unat mx = 9223372036854775807" by (simp add: mx_def)
  have mx1: "unat (mx + 1) = 9223372036854775808" by (simp add: mx_def u64_of_i64_def)
  have m: "unat ?m = (if sg = ''-'' then 9223372036854775808 else 9223372036854775807)"
    by (simp add: mx mx1)
  have "10 ^ unat p \<le> unat ?m"
    using pow10_le [of "unat p"] p m by (simp add: max_money_precision_le split: if_splits)
  note g = magnitude_guard [OF f this p, where w = w, folded n_def]
  show ?thesis
  proof (cases "unat ?m < n")
    case True
    then have "\<not> i64 (signed_units sg n)" by (simp add: m i64_def signed_units_def split: if_splits)
    with True show ?thesis by (simp only: g(1)) simp
  next
    case False
    then have u: "unat (w * power_of_ten p + f) = n" by (intro g(2)) simp
    have i: "i64 (signed_units sg n)" using False by (simp add: m i64_def signed_units_def split: if_splits)
    have small: "i64_of_u64 (w * power_of_ten p + f) = int n" if "n \<le> 9223372036854775807"
    proof -
      have "uint (w * power_of_ten p + f) = int n" using u by (metis uint_nat)
      with that show ?thesis by simp
    qed
    have eq: "w * power_of_ten p + f = mx + 1 \<longleftrightarrow> n = 9223372036854775808"
      by (simp only: word_unat_eq_iff u mx1)
    show ?thesis
      using False i small by (simp only: g(1) Let_def eq) (simp add: m signed_units_def split: if_splits)
  qed
qed

lemma text_sign:
  assumes "decimal_text sg ip dot fp"
  defines "text \<equiv> sg @ ip @ dot @ fp"
  shows "text \<noteq> []" and "(text ! 0 = CHR ''+'' \<or> text ! 0 = CHR ''-'') \<longleftrightarrow> sg \<noteq> []"
    and "text ! 0 = CHR ''-'' \<longleftrightarrow> sg = ''-''"
  using assms digit_not_mark
  by (cases ip; auto simp: decimal_text_def text_def)+

lemma text_dot:
  assumes "decimal_text sg ip dot fp"
  defines "text \<equiv> sg @ ip @ dot @ fp"
  shows "str_find text CHR ''.'' (length sg) = (if dot = [] then None else Some (length sg + length ip))"
    and "dot \<noteq> [] \<Longrightarrow> str_find text CHR ''.'' (length sg + length ip + 1) = None"
  using assms digits_no_dot
  by (auto simp: decimal_text_def text_def str_find_def find_char_from_append)

lemma from_decimal_wellformed:
  assumes d: "decimal_text sg ip dot fp" and p: "p \<le> max_money_precision" and c: "c \<noteq> CUR_UNKNOWN"
  shows "from_decimal (sg @ ip @ dot @ fp) c p =
    (let u = signed_units sg (decimal_units ip fp (unat p))
     in if list_all (\<lambda>ch. ch = CHR ''0'') (drop (unat p) fp) \<and> i64 u
        then Some \<lparr>ma_units = u, ma_precision = p, ma_currency = c\<rparr> else None)"
proof -
  let ?text = "sg @ ip @ dot @ fp" and ?p = "unat p"
  let ?zeros = "list_all (\<lambda>ch. ch = CHR ''0'') (drop ?p fp)"
  have ip: "list_all is_digit ip" and fp: "list_all is_digit fp" and dot: "dot = ''.'' \<or> dot = [] \<and> fp = []"
    and ne: "ip @ fp \<noteq> []" and sg: "sg = [] \<or> sg = ''+'' \<or> sg = ''-''"
    using d by (auto simp: decimal_text_def)
  have p18: "?p \<le> 18" using p by (simp add: max_money_precision_le)
  define stored where "stored = min (length fp) ?p"
  define digits where "digits = (of_nat (digits_val 0 (take ?p fp)) :: u64)"
  have pos: "(if ?text ! 0 = CHR ''+'' \<or> ?text ! 0 = CHR ''-'' then 1 else 0) = length sg"
    using text_sign(2) [OF d] sg by auto
  have len: "length sg \<noteq> length ?text" using ne dot by auto
  have frac: "fraction_loop stored 0 fp 0 = (if ?zeros then Some digits else None)"
  proof -
    have t: "take stored fp = take ?p fp" "drop stored fp = drop ?p fp" by (auto simp: stored_def min_def)
    have "stored \<le> 18" using p18 by (simp add: stored_def)
    then have "(10 :: nat) ^ stored \<le> 2 ^ 64" using pow10_le [of stored] by simp
    moreover have "stored \<le> length fp" by (simp add: stored_def)
    ultimately show ?thesis using fraction_loop_digits [of 0 stored 0 fp] fp by (simp add: t digits_def)
  qed
  have scaled: "unat (power_of_ten_loop (?p - stored) digits) = digits_val 0 (take ?p fp) * 10 ^ (?p - length fp)"
    unfolding stored_def digits_def using fp p18 by (rule fraction_scaled)
  have sbound: "unat (power_of_ten_loop (?p - stored) digits) < 10 ^ ?p"
    unfolding scaled using fp by (rule fraction_bound)
  have A: "\<not> (?text = [] \<or> max_money_precision < p \<or> c = CUR_UNKNOWN)"
    using text_sign(1) [OF d] p c by auto
  have parse: "from_decimal ?text c p =
    (case whole_loop ip 0 of None \<Rightarrow> None
     | Some whole \<Rightarrow> (case fraction_loop stored 0 fp 0 of None \<Rightarrow> None
       | Some digits \<Rightarrow>
           (if ((if ?text ! 0 = CHR ''-'' then u64_of_i64 i64_max + 1 else u64_of_i64 i64_max) -
               power_of_ten_loop (?p - stored) digits) div power_of_ten p < whole then None
            else let magnitude = whole * power_of_ten p + power_of_ten_loop (?p - stored) digits in
              Some \<lparr>ma_units = (if \<not> ?text ! 0 = CHR ''-'' then i64_of_u64 magnitude
                  else if magnitude = u64_of_i64 i64_max + 1 then i64_min else - i64_of_u64 magnitude),
                ma_precision = p, ma_currency = c\<rparr>)))"
  proof (cases "dot = []")
    case True
    with dot have fp0: "fp = []" by auto
    have E: "length ?text - length ?text = length fp" "drop (length ?text) ?text = fp"
      "take (length ?text - length sg) (drop (length sg) ?text) = ip"
      "\<not> (length ?text = length sg \<and> length fp = 0)"
      using True fp0 ne by auto
    have S: "str_find ?text CHR ''.'' (length sg) = None" using text_dot(1) [OF d] True by simp
    show ?thesis
      by (simp only: from_decimal_def Let_def A pos len S if_False option.case E simp_thms stored_def)
  next
    case False
    with dot have dot1: "dot = ''.''" by auto
    let ?e = "length sg + length ip"
    have E: "length ?text - (?e + 1) = length fp" "drop (?e + 1) ?text = fp"
      "take (?e - length sg) (drop (length sg) ?text) = ip"
      "\<not> (?e = length sg \<and> length fp = 0)"
      using dot1 ne by auto
    have S: "str_find ?text CHR ''.'' (length sg) = Some ?e" "str_find ?text CHR ''.'' (?e + 1) = None"
      using text_dot [OF d] False by simp_all
    show ?thesis
      by (simp only: from_decimal_def Let_def A pos len S if_False option.case E simp_thms stored_def)
  qed
  let ?W = "digits_val 0 ip"
  show ?thesis
  proof (cases "?W < 2 ^ 64")
    case True
    then have w: "whole_loop ip 0 = Some (of_nat ?W)" and uw: "unat (of_nat ?W :: u64) = ?W"
      using whole_loop_digits [OF ip, of 0] by (simp_all add: unat_of_nat)
    have n: "unat (of_nat ?W :: u64) * 10 ^ ?p + unat (power_of_ten_loop (?p - stored) digits)
        = decimal_units ip fp ?p"
      by (simp only: uw scaled decimal_units_split)
    note r = units_result [OF sbound p, of sg "of_nat ?W" c, unfolded n]
    show ?thesis
      by (simp only: parse w frac option.case text_sign(3) [OF d] r split: if_split) (simp add: Let_def)
  next
    case False
    then have w: "whole_loop ip 0 = None" using whole_loop_digits [OF ip, of 0] by simp
    have "?W * 1 \<le> decimal_units ip fp ?p"
      unfolding decimal_units_split by (intro trans_le_add1 mult_le_mono2) simp
    with False have "\<not> i64 (signed_units sg (decimal_units ip fp ?p))"
      by (auto simp: i64_def signed_units_def)
    then show ?thesis by (simp only: parse w option.case) (simp add: Let_def)
  qed
qed

subsection \<open>What the parser accepts\<close>

lemma whole_loop_SomeD: "whole_loop cs w = Some v \<Longrightarrow> list_all is_digit cs"
  by (induction cs w rule: whole_loop.induct) (auto simp: Let_def split: if_splits)

lemma fraction_loop_SomeD: "fraction_loop stored i cs f = Some v \<Longrightarrow> list_all is_digit cs"
  by (metis fraction_loop_nondigit option.distinct(1))

text \<open>Any text splits into a sign, an integer part, a dot and a fraction.\<close>

lemma from_decimal_shape:
  assumes "from_decimal text c p = Some m"
  obtains sg ip dot fp where "text = sg @ ip @ dot @ fp" and "decimal_text sg ip dot fp"
proof -
  define signed where "signed \<longleftrightarrow> text ! 0 = CHR ''+'' \<or> text ! 0 = CHR ''-''"
  define pos where "pos = (if signed then 1 else 0 :: nat)"
  define sg where "sg = take pos text"
  have ne: "text \<noteq> []" using assms by (auto simp: from_decimal_def)
  have sg: "sg = [] \<or> sg = ''+'' \<or> sg = ''-''"
    using ne by (cases "text") (auto simp: sg_def pos_def signed_def)
  have le: "pos \<le> length text" using ne by (simp add: pos_def Suc_le_eq)
  note res = assms [unfolded from_decimal_def Let_def, folded signed_def, folded pos_def]
  have "\<not> (signed \<and> pos = length text)" by (rule notI) (use res in \<open>simp split: if_splits\<close>)
  with le ne have lt: "pos < length text" by (auto simp: pos_def)
  show ?thesis
  proof (cases "str_find text CHR ''.'' pos")
    case None
    let ?ip = "drop pos text"
    have "whole_loop ?ip 0 \<noteq> None"
      using res None by (auto simp del: str_find_None split: if_splits option.splits)
    moreover have "?ip \<noteq> []" using lt by simp
    ultimately
    have "decimal_text sg ?ip [] []"
      using sg by (auto simp: decimal_text_def dest: whole_loop_SomeD)
    moreover have "text = sg @ ?ip @ [] @ []" by (simp add: sg_def)
    ultimately show ?thesis using that by blast
  next
    case (Some d)
    note s = str_find_split [OF Some]
    let ?ip = "take (d - pos) (drop pos text)" and ?fp = "drop (Suc d) text"
    have "whole_loop ?ip 0 \<noteq> None"
      using res Some lt by (auto split: if_splits option.splits)
    moreover have "\<not> (d = pos \<and> length text - Suc d = 0)"
      by (rule notI) (use res Some lt in \<open>simp split: if_splits\<close>)
    moreover have "list_all is_digit ?fp"
      using res Some by (auto split: if_splits option.splits dest: fraction_loop_SomeD)
    ultimately have "decimal_text sg ?ip ''.'' ?fp"
      using sg s(1,2) by (auto simp: decimal_text_def dest: whole_loop_SomeD)
    moreover have "text = sg @ ?ip @ ''.'' @ ?fp"
      using s(3) by (simp add: sg_def)
    ultimately show ?thesis using that by blast
  qed
qed

lemma from_decimal_invalid: "\<not> (p \<le> max_money_precision \<and> c \<noteq> CUR_UNKNOWN) \<Longrightarrow> from_decimal text c p = None"
  by (auto simp: from_decimal_def not_le)

lemma from_decimal_metadata:
  "from_decimal text c p = Some m \<Longrightarrow> p \<le> max_money_precision \<and> c \<noteq> CUR_UNKNOWN"
  by (rule ccontr) (simp add: from_decimal_invalid)

subsection \<open>Printing and parsing back\<close>

lemma digit_char_digit: "d < 10 \<Longrightarrow> is_digit (digit_char d)"
  by (simp add: is_digit_def digit_char_def)

lemma digit_value_char [simp]: "d < 10 \<Longrightarrow> digit_value (digit_char d) = d"
  by (simp add: digit_value_def digit_char_def)

lemma nat_to_string_digits: "list_all is_digit (nat_to_string n)"
  by (induction n rule: nat_to_string.induct) (subst nat_to_string.simps, auto simp: digit_char_digit)

lemma nat_to_string_nonempty: "nat_to_string n \<noteq> []"
  by (subst nat_to_string.simps) simp

lemma nat_to_string_val: "digits_val 0 (nat_to_string n) = n"
  by (induction n rule: nat_to_string.induct) (subst nat_to_string.simps, auto simp: digits_val_append)

lemma length_nat_to_string: "n < 10 ^ Suc k \<Longrightarrow> length (nat_to_string n) \<le> Suc k"
proof (induction k arbitrary: n)
  case 0
  then show ?case by (subst nat_to_string.simps) simp
next
  case (Suc k)
  have "n div 10 < 10 ^ Suc k" using Suc.prems by (simp add: div_less_iff_less_mult)
  from Suc.IH [OF this] show ?case by (subst nat_to_string.simps) simp
qed

lemma digit_value_zero: "digit_value CHR ''0'' = 0"
  by (simp add: digit_value_def)

lemma digits_val_zeros: "digits_val 0 (replicate k CHR ''0'' @ cs) = digits_val 0 cs"
  by (induction k) (simp_all add: digit_value_zero)

lemma zero_digit: "is_digit CHR ''0''"
  by (simp add: is_digit_def)

lemma unat_magnitude_of:
  assumes "i64 u"
  shows "unat (magnitude_of u) = nat \<bar>u\<bar>"
proof (cases "u < 0")
  case True
  let ?w = "u64_of_i64 (- (u + 1))"
  have w: "unat ?w = nat (- (u + 1))" using assms True by (intro unat_u64_of_i64) (auto simp: i64_def)
  then have "?w \<noteq> u64_max" using assms by (auto simp: i64_def)
  from u64_succ [OF this] have "unat (?w + 1) = Suc (nat (- (u + 1)))" by (simp only: w)
  then show ?thesis using True by (simp add: magnitude_of_def)
next
  case False
  then show ?thesis using assms by (simp add: magnitude_of_def i64_def)
qed

lemma power_of_ten_0 [simp]: "power_of_ten 0 = 1"
  by (simp add: power_of_ten_def)

lemma from_decimal_to_decimal:
  assumes ok: "money_ok m" and v: "valid_metadata m"
  shows "from_decimal (to_decimal m) (ma_currency m) (ma_precision m) = Some m"
proof -
  let ?p = "unat (ma_precision m)" and ?u = "ma_units m"
  define N where "N = nat \<bar>?u\<bar>"
  define W where "W = nat_to_string (N div 10 ^ ?p)"
  define F where "F = (if ma_precision m = 0 then []
    else replicate (?p - length (nat_to_string (N mod 10 ^ ?p))) CHR ''0'' @ nat_to_string (N mod 10 ^ ?p))"
  define sg where "sg = (if ?u < 0 then ''-'' else [])"
  define dot where "dot = (if ma_precision m = 0 then [] else ''.'')"
  have u: "i64 ?u" using ok by (simp add: money_ok_def)
  have p: "ma_precision m \<le> max_money_precision" and c: "ma_currency m \<noteq> CUR_UNKNOWN"
    using v by (simp_all add: valid_metadata_def)
  have t: "to_decimal m = sg @ W @ dot @ F"
    using v by (simp add: to_decimal_def u64_to_string_def unat_div unat_mod unat_power_of_ten [OF p]
      unat_magnitude_of [OF u] sg_def W_def dot_def F_def N_def Let_def)
  have zero: "ma_precision m = 0 \<longleftrightarrow> ?p = 0" by (simp add: unat_eq_0)
  have lenF: "length F = ?p"
  proof (cases "?p")
    case (Suc k)
    have "N mod 10 ^ ?p < 10 ^ ?p" by simp
    then have "length (nat_to_string (N mod 10 ^ ?p)) \<le> ?p"
      unfolding Suc by (intro length_nat_to_string)
    then show ?thesis using Suc by (simp add: F_def zero)
  qed (simp add: F_def zero)
  have valF: "digits_val 0 F = N mod 10 ^ ?p"
    by (simp add: F_def zero digits_val_zeros nat_to_string_val)
  have "decimal_text sg W dot F"
    using nat_to_string_digits nat_to_string_nonempty zero_digit
    by (auto simp: decimal_text_def sg_def W_def dot_def F_def list_all_iff)
  note w = from_decimal_wellformed [OF this p c]
  have "decimal_units W F ?p = N"
    using valF lenF by (simp add: decimal_units_split W_def nat_to_string_val div_mult_mod_eq del: mult.commute)
  then have "signed_units sg (decimal_units W F ?p) = ?u"
    by (simp add: signed_units_def sg_def N_def)
  with w u lenF show ?thesis by (simp add: t)
qed

subsection \<open>Properties\<close>

text \<open>C39: The decimal parser is exact. It accepts a text precisely when it is an optional sign,
  digits, and optionally a dot and more digits (at least one digit in all), the digits past the
  precision are zero, the currency and precision are valid and the value in units fits a signed
  64-bit integer, the minimum included; the result is that value, never a rounded or wrapped one.\<close>

theorem from_decimal_exact:
  "from_decimal txt c p = Some m \<longleftrightarrow>
   p \<le> max_money_precision \<and> c \<noteq> CUR_UNKNOWN \<and>
   (\<exists>sg ip dot fp. txt = sg @ ip @ dot @ fp \<and> decimal_text sg ip dot fp \<and>
      list_all (\<lambda>ch. ch = CHR ''0'') (drop (unat p) fp) \<and>
      i64 (signed_units sg (decimal_units ip fp (unat p))) \<and>
      m = \<lparr>ma_units = signed_units sg (decimal_units ip fp (unat p)), ma_precision = p, ma_currency = c\<rparr>)"
  (is "?l \<longleftrightarrow> ?r")
proof
  assume l: ?l
  note pc = from_decimal_metadata [OF l]
  from l obtain sg ip dot fp where t: "txt = sg @ ip @ dot @ fp" and d: "decimal_text sg ip dot fp"
    by (rule from_decimal_shape)
  from l [unfolded t] from_decimal_wellformed [OF d, of p c] pc t d show ?r
    by (auto simp: Let_def split: if_splits)
next
  assume ?r
  then show ?l by (auto simp: from_decimal_wellformed)
qed

text \<open>C40: Printing an amount with valid metadata and parsing the text with the same currency and
  precision gives the amount back, for every value of the 64-bit type, the minimum included.\<close>

theorem money_roundtrip:
  assumes "money_ok m" and "valid_metadata m"
  shows "from_decimal (to_decimal m) (ma_currency m) (ma_precision m) = Some m"
  using assms by (rule from_decimal_to_decimal)

theorem money_roundtrip_witness:
  "from_decimal (to_decimal \<lparr>ma_units = i64_min, ma_precision = 2, ma_currency = CUR_USD\<rparr>) CUR_USD 2 =
     Some \<lparr>ma_units = i64_min, ma_precision = 2, ma_currency = CUR_USD\<rparr>"
  using money_roundtrip [of "\<lparr>ma_units = i64_min, ma_precision = 2, ma_currency = CUR_USD\<rparr>"]
  by (simp add: money_ok_def i64_def valid_metadata_def max_money_precision_def)

end
