(* ===== verification/Float64.thy ===== *)
theory Float64
  imports Prelude
begin

section \<open>Binary64 arithmetic\<close>

text \<open>
  The C++ type \<open>double\<close> as IEEE 754 binary64 with rounding to nearest, ties to even: the bit
  pattern of a value, its comparison, \<open>+\<close>, \<open>-\<close>, \<open>*\<close>, \<open>/\<close>, the conversions from and to
  integers and \<open>std::round\<close>, all computing. A finite value is \<open>f64_int w * 2 ^ f64_scale w\<close> in
  units of \<open>2 ^ - 1075\<close>.
\<close>

type_synonym f64 = u64

subsection \<open>The parts of a bit pattern\<close>

abbreviation f64_implicit :: int where "f64_implicit \<equiv> 4503599627370496"
abbreviation f64_infinity :: int where "f64_infinity \<equiv> 9218868437227405312"
abbreviation f64_top_bit :: int where "f64_top_bit \<equiv> 9223372036854775808"

definition f64_sign :: "f64 \<Rightarrow> bool" where
  "f64_sign w \<longleftrightarrow> f64_top_bit \<le> uint w"

definition f64_magnitude :: "f64 \<Rightarrow> int" where
  "f64_magnitude w = (if f64_sign w then uint w - f64_top_bit else uint w)"

definition f64_is_nan :: "f64 \<Rightarrow> bool" where
  "f64_is_nan w \<longleftrightarrow> f64_infinity < f64_magnitude w"

definition f64_is_inf :: "f64 \<Rightarrow> bool" where
  "f64_is_inf w \<longleftrightarrow> f64_magnitude w = f64_infinity"

definition f64_finite :: "f64 \<Rightarrow> bool" where
  "f64_finite w \<longleftrightarrow> f64_magnitude w < f64_infinity"

definition f64_is_zero :: "f64 \<Rightarrow> bool" where
  "f64_is_zero w \<longleftrightarrow> f64_magnitude w = 0"

definition f64_scale :: "f64 \<Rightarrow> int" where
  "f64_scale w = max 1 (f64_magnitude w div f64_implicit)"

definition f64_mantissa :: "f64 \<Rightarrow> int" where
  "f64_mantissa w = (if f64_magnitude w < f64_implicit then f64_magnitude w
     else f64_implicit + f64_magnitude w mod f64_implicit)"

definition f64_int :: "f64 \<Rightarrow> int" where
  "f64_int w = (if f64_sign w then - f64_mantissa w else f64_mantissa w)"

definition f64_make :: "bool \<Rightarrow> int \<Rightarrow> f64" where
  "f64_make s m = word_of_int ((if s then f64_top_bit else 0) + m)"

definition f64_nan :: f64 where
  "f64_nan = f64_make False 9221120237041090560"

subsection \<open>Comparison\<close>

text \<open>Bit patterns of one sign are in the order of their values.\<close>

definition f64_key :: "f64 \<Rightarrow> int" where
  "f64_key w = (if f64_sign w then - f64_magnitude w else f64_magnitude w)"

definition f64_less :: "f64 \<Rightarrow> f64 \<Rightarrow> bool" where
  "f64_less x y \<longleftrightarrow> \<not> f64_is_nan x \<and> \<not> f64_is_nan y \<and> f64_key x < f64_key y"

definition f64_le :: "f64 \<Rightarrow> f64 \<Rightarrow> bool" where
  "f64_le x y \<longleftrightarrow> \<not> f64_is_nan x \<and> \<not> f64_is_nan y \<and> f64_key x \<le> f64_key y"

definition f64_eq :: "f64 \<Rightarrow> f64 \<Rightarrow> bool" where
  "f64_eq x y \<longleftrightarrow> \<not> f64_is_nan x \<and> \<not> f64_is_nan y \<and> f64_key x = f64_key y"

subsection \<open>Rounding\<close>

function bit_length :: "int \<Rightarrow> int" where
  "bit_length n = (if n \<le> 0 then 0 else 1 + bit_length (n div 2))"
  by pat_completeness auto
termination by (relation "measure nat") auto

declare bit_length.simps [simp del]

definition round_even :: "int \<Rightarrow> int \<Rightarrow> int" where
  "round_even n d = (let q = n div d; r = n mod d
     in if 2 * r < d \<or> 2 * r = d \<and> even q then q else q + 1)"

text \<open>\<open>f64_pack s n e\<close> is the double nearest to \<open>n * 2 ^ e\<close> in units of \<open>2 ^ - 1075\<close>. A mantissa that
  rounds up to \<open>2 ^ 53\<close> carries into the exponent, and a result past the largest double is infinite.\<close>

definition f64_pack :: "bool \<Rightarrow> int \<Rightarrow> int \<Rightarrow> f64" where
  "f64_pack s n e =
     (if n = 0 then f64_make s 0
      else
        let t = max 1 (e + bit_length n - 53);
            m = (if e < t then round_even n (2 ^ nat (t - e)) else n * 2 ^ nat (e - t));
            bits = (if m < f64_implicit then m else t * f64_implicit + (m - f64_implicit))
        in f64_make s (min f64_infinity bits))"

subsection \<open>Arithmetic\<close>

definition f64_add :: "f64 \<Rightarrow> f64 \<Rightarrow> f64" where
  "f64_add x y =
     (if f64_is_nan x \<or> f64_is_nan y then f64_nan
      else if f64_is_inf x then (if f64_is_inf y \<and> f64_sign x \<noteq> f64_sign y then f64_nan else x)
      else if f64_is_inf y then y
      else
        let e = min (f64_scale x) (f64_scale y);
            n = f64_int x * 2 ^ nat (f64_scale x - e) + f64_int y * 2 ^ nat (f64_scale y - e)
        in if n = 0 then f64_make (f64_sign x \<and> f64_sign y) 0 else f64_pack (n < 0) \<bar>n\<bar> e)"

definition f64_neg :: "f64 \<Rightarrow> f64" where
  "f64_neg x = f64_make (\<not> f64_sign x) (f64_magnitude x)"

definition f64_sub :: "f64 \<Rightarrow> f64 \<Rightarrow> f64" where
  "f64_sub x y = f64_add x (f64_neg y)"

definition f64_mul :: "f64 \<Rightarrow> f64 \<Rightarrow> f64" where
  "f64_mul x y =
     (let s = (f64_sign x \<noteq> f64_sign y)
      in if f64_is_nan x \<or> f64_is_nan y then f64_nan
      else if f64_is_inf x \<or> f64_is_inf y then
        (if f64_is_zero x \<or> f64_is_zero y then f64_nan else f64_make s f64_infinity)
      else f64_pack s (f64_mantissa x * f64_mantissa y) (f64_scale x + f64_scale y - 1075))"

text \<open>The quotient of two integers, with enough further bits and a sticky last one.\<close>

definition f64_quotient :: "bool \<Rightarrow> int \<Rightarrow> int \<Rightarrow> int \<Rightarrow> f64" where
  "f64_quotient s p q e =
     (let k = 64 + bit_length q; n = p * 2 ^ nat k
      in f64_pack s (2 * (n div q) + (if n mod q = 0 then 0 else 1)) (e - k - 1))"

definition f64_div :: "f64 \<Rightarrow> f64 \<Rightarrow> f64" where
  "f64_div x y =
     (let s = (f64_sign x \<noteq> f64_sign y)
      in if f64_is_nan x \<or> f64_is_nan y then f64_nan
      else if f64_is_inf x then (if f64_is_inf y then f64_nan else f64_make s f64_infinity)
      else if f64_is_inf y then f64_make s 0
      else if f64_is_zero y then (if f64_is_zero x then f64_nan else f64_make s f64_infinity)
      else f64_quotient s (f64_mantissa x) (f64_mantissa y) (f64_scale x - f64_scale y + 1075))"

subsection \<open>Conversions\<close>

definition f64_of_int :: "int \<Rightarrow> f64" where
  "f64_of_int i = f64_pack (i < 0) \<bar>i\<bar> 1075"

text \<open>A decimal literal: the double nearest to \<open>p / q\<close>.\<close>

definition f64_of_ratio :: "int \<Rightarrow> int \<Rightarrow> f64" where
  "f64_of_ratio p q = f64_quotient False p q 1075"

text \<open>\<open>std::round\<close> of a finite value, as an integer: halves go away from zero.\<close>

definition f64_round_abs :: "f64 \<Rightarrow> int" where
  "f64_round_abs x = (if 1075 \<le> f64_scale x then f64_mantissa x * 2 ^ nat (f64_scale x - 1075)
     else (2 * f64_mantissa x + 2 ^ nat (1075 - f64_scale x)) div (2 * 2 ^ nat (1075 - f64_scale x)))"

definition f64_round_int :: "f64 \<Rightarrow> int" where
  "f64_round_int x = (if f64_sign x then - f64_round_abs x else f64_round_abs x)"

definition f64_round :: "f64 \<Rightarrow> f64" where
  "f64_round x = (if f64_finite x then f64_pack (f64_sign x) (f64_round_abs x) 1075 else x)"

text \<open>\<open>static_cast\<close> to a signed integer type: towards zero (the result when it fits).\<close>

definition f64_trunc_int :: "f64 \<Rightarrow> int" where
  "f64_trunc_int x =
     (let m = (if 1075 \<le> f64_scale x then f64_mantissa x * 2 ^ nat (f64_scale x - 1075)
               else f64_mantissa x div 2 ^ nat (1075 - f64_scale x))
      in if f64_sign x then - m else m)"

subsection \<open>Exactness\<close>

text \<open>The value of a finite pattern, in units of \<open>2 ^ - 1075\<close>.\<close>

definition f64_val :: "f64 \<Rightarrow> int" where
  "f64_val w = f64_int w * 2 ^ nat (f64_scale w)"

definition f64_one :: int where
  "f64_one = 2 ^ 1075"

lemma f64_one_pos [simp]: "0 < f64_one" "f64_one \<noteq> 0"
  by (simp_all add: f64_one_def)

lemma f64_val_parts:
  assumes "f64_sign w = s" and "f64_mantissa w = m" and "f64_scale w = t" and "f64_magnitude w < f64_infinity"
  shows "f64_val w = (if s then - (m * 2 ^ nat t) else m * 2 ^ nat t) \<and> f64_finite w \<and> (f64_sign w \<longleftrightarrow> s)"
  using assms by (auto simp: f64_val_def f64_int_def f64_finite_def)

lemma f64_magnitude_bounds: "0 \<le> f64_magnitude w" "f64_magnitude w < f64_top_bit"
  using uint_bounded [of w] by (auto simp: f64_magnitude_def f64_sign_def)

lemma f64_make_parts:
  assumes "0 \<le> m" and "m < f64_top_bit"
  shows "f64_sign (f64_make s m) \<longleftrightarrow> s" and "f64_magnitude (f64_make s m) = m"
proof -
  have "uint (f64_make s m) = (if s then f64_top_bit else 0) + m"
    unfolding f64_make_def uint_word_of_int using assms by (intro mod_pos_pos_trivial) auto
  then show "f64_sign (f64_make s m) \<longleftrightarrow> s" and "f64_magnitude (f64_make s m) = m"
    using assms by (auto simp: f64_sign_def f64_magnitude_def)
qed

lemma bit_length_nonpos [simp]: "n \<le> 0 \<Longrightarrow> bit_length n = 0"
  by (simp add: bit_length.simps)

lemma bit_length_pos: "0 < n \<Longrightarrow> bit_length n = 1 + bit_length (n div 2)"
  by (simp add: bit_length.simps [of n])

lemma bit_length_nonneg [simp]: "0 \<le> bit_length n"
proof (induction n rule: bit_length.induct)
  case (1 n)
  then show ?case by (cases "n \<le> 0") (simp_all add: bit_length.simps [of n])
qed

lemma bit_length_bounds:
  "0 < n \<Longrightarrow> 2 ^ nat (bit_length n - 1) \<le> n \<and> n < 2 ^ nat (bit_length n)"
proof (induction n rule: bit_length.induct)
  case (1 n)
  then have e: "bit_length n = 1 + bit_length (n div 2)" by (simp add: bit_length_pos)
  show ?case
  proof (cases "n = 1")
    case False
    with 1 have h: "0 < n div 2" by simp
    with 1 have IH: "2 ^ nat (bit_length (n div 2) - 1) \<le> n div 2" "n div 2 < 2 ^ nat (bit_length (n div 2))" by auto
    have p: "0 < bit_length (n div 2)"
      using h by (simp add: bit_length_pos [OF h]) (meson bit_length_nonneg less_add_same_cancel1 add_nonneg_pos add_pos_nonneg zero_less_one)
    have "nat (bit_length n) = Suc (nat (bit_length (n div 2)))" "nat (bit_length n - 1) = Suc (nat (bit_length (n div 2) - 1))"
      using p e by simp_all
    moreover have "2 * (n div 2) \<le> n" "n < 2 * (n div 2 + 1)" by simp_all
    moreover have "n div 2 + 1 \<le> 2 ^ nat (bit_length (n div 2))" using IH by simp
    ultimately show ?thesis using IH by (simp only: power_Suc) linarith
  qed (simp add: bit_length.simps)
qed

lemma bit_length_le:
  assumes "n < 2 ^ k"
  shows "bit_length n \<le> int k"
proof (cases "0 < n")
  case True
  then have "2 ^ nat (bit_length n - 1) < (2 :: int) ^ k" using bit_length_bounds [OF True] assms by linarith
  then have "nat (bit_length n - 1) < k" by simp
  then show ?thesis by linarith
qed simp

lemma f64_pack_exact:
  assumes "0 \<le> n" "n < 2 ^ 53" and "1 \<le> e" "e \<le> 1900"
  shows "f64_val (f64_pack s n e) = (if s then - (n * 2 ^ nat e) else n * 2 ^ nat e)" and "f64_finite (f64_pack s n e)"
    and "f64_sign (f64_pack s n e) \<longleftrightarrow> s"
proof -
  have "f64_val (f64_pack s n e) = (if s then - (n * 2 ^ nat e) else n * 2 ^ nat e) \<and>
    f64_finite (f64_pack s n e) \<and> (f64_sign (f64_pack s n e) \<longleftrightarrow> s)"
  proof (cases "n = 0")
    case True
    have "f64_pack s n e = f64_make s 0" using True by (simp add: f64_pack_def)
    moreover have "f64_sign (f64_make s 0) \<longleftrightarrow> s" "f64_magnitude (f64_make s 0) = 0"
      using f64_make_parts [of 0 s] by simp_all
    moreover from this(2) have "f64_mantissa (f64_make s 0) = 0" "f64_magnitude (f64_make s 0) < f64_infinity"
      by (simp_all only: f64_mantissa_def) simp_all
    ultimately show ?thesis using True f64_val_parts [of "f64_make s 0" s 0] by simp
  next
    case False
    with assms have pos: "0 < n" by simp
    define L where "L = bit_length n"
    define t where "t = max 1 (e + L - 53)"
    define m where "m = n * 2 ^ nat (e - t)"
    have L: "L \<le> 53" "0 \<le> L" "2 ^ nat (L - 1) \<le> n" "n < 2 ^ nat L"
      using bit_length_le [OF assms(2)] bit_length_bounds [OF pos] by (simp_all add: L_def)
    have L1: "1 \<le> L" using L pos by (cases "L = 0") auto
    have t: "1 \<le> t" "t \<le> e" "e - t \<le> 53 - L" using L assms by (auto simp: t_def)
    have "n * 2 ^ nat (e - t) < 2 ^ nat L * 2 ^ nat (e - t)" using L(4) by simp
    also have "\<dots> = 2 ^ nat (L + (e - t))" using L(2) t(2) by (simp add: nat_add_distrib power_add)
    also have "\<dots> \<le> 2 ^ nat 53" using t(3) by (intro power_increasing nat_mono) auto
    finally have m: "m < 9007199254740992" "0 < m" using pos by (simp_all add: m_def)
    have val: "m * 2 ^ nat t = n * 2 ^ nat e"
    proof -
      have "nat e = nat (e - t) + nat t" using t by simp
      then show ?thesis by (simp add: m_def power_add)
    qed
    have pk: "f64_pack s n e = f64_make s (min f64_infinity
        (if m < f64_implicit then m else t * f64_implicit + (m - f64_implicit)))"
      using False t(2) by (simp add: f64_pack_def Let_def L_def [symmetric] t_def [symmetric] m_def [symmetric])
    show ?thesis
    proof (cases "m < f64_implicit")
      case True
      have t1: "t = 1"
      proof (rule ccontr)
        assume "t \<noteq> 1"
        then have "t = e + L - 53" "e - t = 53 - L" using t by (auto simp: t_def)
        then have "m = n * 2 ^ nat (53 - L)" by (simp add: m_def)
        moreover have "(2 :: int) ^ nat (L - 1) * 2 ^ nat (53 - L) \<le> n * 2 ^ nat (53 - L)" using L(3) by simp
        moreover have "(2 :: int) ^ nat (L - 1) * 2 ^ nat (53 - L) = 2 ^ nat 52"
          using L(1) L1 by (simp flip: power_add nat_add_distrib)
        ultimately show False using True by simp
      qed
      have w: "f64_pack s n e = f64_make s m" using pk True by simp
      have p: "f64_sign (f64_make s m) \<longleftrightarrow> s" "f64_magnitude (f64_make s m) = m"
        using f64_make_parts [of m s] m by auto
      have "f64_scale (f64_make s m) = 1" "f64_mantissa (f64_make s m) = m" "f64_magnitude (f64_make s m) < f64_infinity"
        using True m by (simp_all add: f64_scale_def f64_mantissa_def p(2))
      from f64_val_parts [OF p(1) this(2,1,3)] val t1 show ?thesis unfolding w by simp
    next
      case False
      define b where "b = t * f64_implicit + (m - f64_implicit)"
      have r: "0 \<le> m - f64_implicit" "m - f64_implicit < f64_implicit" using m False by auto
      have te: "t \<le> 1900" using t assms by linarith
      have b: "0 \<le> b" "b < f64_infinity" "b div f64_implicit = t" "b mod f64_implicit = m - f64_implicit"
      proof -
        show "0 \<le> b" using r t by (simp add: b_def)
        have "t * f64_implicit \<le> 1900 * f64_implicit" using te by simp
        then show "b < f64_infinity" using r by (simp add: b_def)
        show m: "b mod f64_implicit = m - f64_implicit"
          unfolding b_def mod_mult_self3 using r by (rule mod_pos_pos_trivial)
        have "b div f64_implicit * f64_implicit + b mod f64_implicit = b" by simp
        then show "b div f64_implicit = t" unfolding m by (simp add: b_def)
      qed
      have w: "f64_pack s n e = f64_make s b" using pk False b(2) by (simp add: b_def)
      have p: "f64_sign (f64_make s b) \<longleftrightarrow> s" "f64_magnitude (f64_make s b) = b"
        using f64_make_parts [of b s] b by auto
      have nb: "\<not> b < f64_implicit" using b(3) t(1) by (auto dest: div_pos_pos_trivial [OF b(1)])
      have "f64_scale (f64_make s b) = t" "f64_mantissa (f64_make s b) = m" "f64_magnitude (f64_make s b) < f64_infinity"
        using t nb b by (simp_all add: f64_scale_def f64_mantissa_def p(2))
      from f64_val_parts [OF p(1) this(2,1,3)] val show ?thesis unfolding w by simp
    qed
  qed
  then show "f64_val (f64_pack s n e) = (if s then - (n * 2 ^ nat e) else n * 2 ^ nat e)" "f64_finite (f64_pack s n e)"
    "f64_sign (f64_pack s n e) \<longleftrightarrow> s" by blast+
qed

lemma f64_magnitude_eq:
  "f64_magnitude w = (f64_scale w - 1) * f64_implicit + f64_mantissa w"
  "0 \<le> f64_mantissa w" "f64_mantissa w < 2 * f64_implicit" "1 \<le> f64_scale w"
  "1 < f64_scale w \<Longrightarrow> f64_implicit \<le> f64_mantissa w"
proof -
  let ?m = "f64_magnitude w"
  have b: "0 \<le> ?m" by (rule f64_magnitude_bounds)
  have d: "?m = ?m div f64_implicit * f64_implicit + ?m mod f64_implicit" by simp
  have r: "0 \<le> ?m mod f64_implicit" "?m mod f64_implicit < f64_implicit" by simp_all
  have small: "?m < f64_implicit \<longleftrightarrow> ?m div f64_implicit = 0" using b by (auto simp: zdiv_eq_0_iff)
  have "?m = (f64_scale w - 1) * f64_implicit + f64_mantissa w \<and> 0 \<le> f64_mantissa w \<and>
    f64_mantissa w < 2 * f64_implicit \<and> 1 \<le> f64_scale w \<and> (1 < f64_scale w \<longrightarrow> f64_implicit \<le> f64_mantissa w)"
  proof (cases "?m < f64_implicit")
    case True
    with b small show ?thesis by (simp add: f64_scale_def f64_mantissa_def)
  next
    case False
    then have "1 \<le> ?m div f64_implicit" using b small pos_imp_zdiv_nonneg_iff [of f64_implicit ?m] by linarith
    then have "f64_scale w = ?m div f64_implicit" "f64_mantissa w = f64_implicit + ?m mod f64_implicit"
      using False by (simp_all add: f64_scale_def f64_mantissa_def)
    with d r \<open>1 \<le> ?m div f64_implicit\<close> show ?thesis by (simp add: algebra_simps)
  qed
  then show "?m = (f64_scale w - 1) * f64_implicit + f64_mantissa w" "0 \<le> f64_mantissa w"
    "f64_mantissa w < 2 * f64_implicit" "1 \<le> f64_scale w" "1 < f64_scale w \<Longrightarrow> f64_implicit \<le> f64_mantissa w" by blast+
qed

text \<open>Magnitudes are in the order of the absolute values.\<close>

lemma f64_magnitude_less:
  assumes "f64_magnitude x < f64_magnitude y"
  shows "f64_mantissa x * 2 ^ nat (f64_scale x) < f64_mantissa y * 2 ^ nat (f64_scale y)"
proof -
  note x = f64_magnitude_eq [of x] and y = f64_magnitude_eq [of y]
  show ?thesis
  proof (cases "f64_scale x = f64_scale y")
    case True
    then show ?thesis using assms x(1) y(1) by simp
  next
    case False
    have "f64_scale x < f64_scale y"
    proof (rule ccontr)
      assume "\<not> ?thesis"
      with False have g: "f64_scale y + 1 \<le> f64_scale x" by simp
      then have "f64_scale y * f64_implicit \<le> (f64_scale x - 1) * f64_implicit" by simp
      moreover have "f64_implicit \<le> f64_mantissa x" using x(5) g y(4) by simp
      ultimately have "f64_magnitude y \<le> f64_magnitude x" using x(1) y(1,3) by (simp add: algebra_simps)
      with assms show False by simp
    qed
    then have ym: "f64_implicit \<le> f64_mantissa y" and s: "Suc (nat (f64_scale x)) \<le> nat (f64_scale y)" using y(5) x(4) by simp_all
    have "f64_mantissa x * 2 ^ nat (f64_scale x) < 2 * f64_implicit * 2 ^ nat (f64_scale x)" using x(3) by simp
    also have "\<dots> = f64_implicit * 2 ^ Suc (nat (f64_scale x))" by simp
    also have "\<dots> \<le> f64_implicit * 2 ^ nat (f64_scale y)" using s by (intro mult_left_mono power_increasing) simp_all
    also have "\<dots> \<le> f64_mantissa y * 2 ^ nat (f64_scale y)" using ym by simp
    finally show ?thesis .
  qed
qed

lemma f64_abs_val: "\<bar>f64_val w\<bar> = f64_mantissa w * 2 ^ nat (f64_scale w)"
  using f64_magnitude_eq(2) [of w] by (simp add: f64_val_def f64_int_def abs_mult)

lemma signed_order:
  fixes a b c d :: int
  assumes "a < b \<longleftrightarrow> c < d" "b < a \<longleftrightarrow> d < c" "a = 0 \<longleftrightarrow> c = 0" "b = 0 \<longleftrightarrow> d = 0" "0 \<le> a" "0 \<le> b" "0 \<le> c" "0 \<le> d"
  shows "(if s then - a else a) < (if t then - b else b) \<longleftrightarrow> (if s then - c else c) < (if t then - d else d)"
  using assms by (cases s; cases t) auto

lemma f64_key_less: "f64_key x < f64_key y \<longleftrightarrow> f64_val x < f64_val y"
proof -
  have m: "f64_magnitude u < f64_magnitude v \<longleftrightarrow> \<bar>f64_val u\<bar> < \<bar>f64_val v\<bar>" for u v
  proof (cases "f64_magnitude u" "f64_magnitude v" rule: linorder_cases)
    case equal
    then have "f64_mantissa u = f64_mantissa v" "f64_scale u = f64_scale v" by (simp_all only: f64_mantissa_def f64_scale_def)
    with equal show ?thesis by (simp add: f64_abs_val)
  next
    case less
    with f64_magnitude_less [OF less] show ?thesis by (simp add: f64_abs_val)
  next
    case greater
    with f64_magnitude_less [OF greater] show ?thesis by (simp add: f64_abs_val)
  qed
  have z: "f64_magnitude u = 0 \<longleftrightarrow> \<bar>f64_val u\<bar> = 0" for u
  proof -
    have "f64_mantissa u = 0 \<longleftrightarrow> f64_magnitude u = 0"
      using f64_magnitude_eq [of u] by (cases "1 < f64_scale u") (auto simp: f64_mantissa_def)
    then show ?thesis by (simp add: f64_abs_val)
  qed
  have v: "f64_val u = (if f64_sign u then - \<bar>f64_val u\<bar> else \<bar>f64_val u\<bar>)" for u
    unfolding f64_abs_val by (simp add: f64_val_def f64_int_def)
  show ?thesis
    unfolding f64_key_def by (subst v [of x], subst v [of y], rule signed_order) (use m z f64_magnitude_bounds in simp_all)
qed

lemma f64_less_val: "f64_finite x \<Longrightarrow> f64_finite y \<Longrightarrow> f64_less x y \<longleftrightarrow> f64_val x < f64_val y"
  by (simp add: f64_less_def f64_key_less f64_finite_def f64_is_nan_def)

lemma f64_one_nat: "(2 :: int) ^ nat 1075 = f64_one"
  by (simp only: f64_one_def) simp

lemmas f64_pack_int = f64_pack_exact [of _ 1075, unfolded f64_one_nat]

lemma f64_of_int_exact:
  assumes "\<bar>i\<bar> < 2 ^ 53"
  shows "f64_val (f64_of_int i) = i * f64_one" and "f64_finite (f64_of_int i)"
  using f64_pack_int [of "\<bar>i\<bar>" "i < 0"] assms by (auto simp: f64_of_int_def)

text \<open>Rounding and truncation, in terms of the value.\<close>

lemma f64_trunc_val: "f64_trunc_int x = (if f64_sign x then - (\<bar>f64_val x\<bar> div f64_one) else \<bar>f64_val x\<bar> div f64_one)"
proof -
  have "(if 1075 \<le> f64_scale x then f64_mantissa x * 2 ^ nat (f64_scale x - 1075)
         else f64_mantissa x div 2 ^ nat (1075 - f64_scale x)) = \<bar>f64_val x\<bar> div f64_one"
  proof (cases "1075 \<le> f64_scale x")
    case True
    then have "nat (f64_scale x) = nat (f64_scale x - 1075) + nat 1075" by linarith
    then have "f64_mantissa x * 2 ^ nat (f64_scale x) = f64_mantissa x * 2 ^ nat (f64_scale x - 1075) * f64_one"
      by (simp only: power_add mult.assoc f64_one_nat)
    then have "f64_mantissa x * 2 ^ nat (f64_scale x) div f64_one = f64_mantissa x * 2 ^ nat (f64_scale x - 1075)"
      by (simp only:) simp
    with True show ?thesis by (simp only: f64_abs_val if_True)
  next
    case False
    then have "nat (f64_scale x) + nat (1075 - f64_scale x) = nat 1075" using f64_magnitude_eq(4) [of x] by linarith
    then have o: "f64_one = 2 ^ nat (f64_scale x) * 2 ^ nat (1075 - f64_scale x)" by (metis power_add f64_one_nat)
    have "f64_mantissa x * 2 ^ nat (f64_scale x) div f64_one = f64_mantissa x div 2 ^ nat (1075 - f64_scale x)"
      unfolding o mult.commute [of "f64_mantissa x"] by (rule div_mult_mult1) simp
    with False show ?thesis by (simp only: f64_abs_val if_False)
  qed
  then show ?thesis by (simp only: f64_trunc_int_def Let_def)
qed

text \<open>A rounded value below \<open>2 ^ 53\<close> is that integer.\<close>

lemma f64_round_abs_nonneg: "0 \<le> f64_round_abs x"
  using f64_magnitude_eq(2) [of x] by (auto simp: f64_round_abs_def intro!: pos_imp_zdiv_nonneg_iff [THEN iffD2] add_nonneg_nonneg)

lemma f64_round_exact:
  assumes "f64_finite x" and "f64_round_abs x < 2 ^ 53"
  shows "f64_val (f64_round x) = f64_round_int x * f64_one" and "f64_finite (f64_round x)"
    and "f64_trunc_int (f64_round x) = f64_round_int x"
proof -
  note e = f64_pack_int [OF f64_round_abs_nonneg assms(2), of "f64_sign x"]
  have r: "f64_round x = f64_pack (f64_sign x) (f64_round_abs x) 1075" using assms(1) by (simp only: f64_round_def if_True)
  show v: "f64_val (f64_round x) = f64_round_int x * f64_one"
    using e(1) by (simp add: r f64_round_int_def)
  show "f64_finite (f64_round x)" using e(2) by (simp add: r)
  have s: "f64_sign (f64_round x) = f64_sign x" using e(3) by (simp add: r)
  have "\<bar>f64_val (f64_round x)\<bar> div f64_one = \<bar>f64_round_int x\<bar>"
    unfolding v abs_mult by (simp add: abs_of_pos)
  then show "f64_trunc_int (f64_round x) = f64_round_int x"
    using f64_round_abs_nonneg [of x] by (simp only: f64_trunc_val s) (simp add: f64_round_int_def)
qed

text \<open>A larger one is at least \<open>2 ^ 53\<close>.\<close>

lemma f64_pack_large:
  assumes "2 ^ 53 \<le> n"
  shows "4845873199050653696 \<le> f64_magnitude (f64_pack s n 1075)" and "f64_magnitude (f64_pack s n 1075) \<le> f64_infinity"
    and "f64_sign (f64_pack s n 1075) \<longleftrightarrow> s"
proof -
  define L where "L = bit_length n"
  define m where "m = round_even n (2 ^ nat (L - 53))"
  have pos: "0 < n" using assms by simp
  note b = bit_length_bounds [OF pos, folded L_def]
  have L: "54 \<le> L"
  proof (rule ccontr)
    assume "\<not> 54 \<le> L"
    then have "(2 :: int) ^ nat L \<le> 2 ^ nat 53" by (intro power_increasing nat_mono) auto
    then show False using b assms by simp
  qed
  have "nat (L - 1) = nat 52 + nat (L - 53)" using L by simp
  then have "(2 :: int) ^ nat (L - 1) = 2 ^ nat 52 * 2 ^ nat (L - 53)" by (simp only: power_add)
  then have "f64_implicit * 2 ^ nat (L - 53) \<le> n" using b by simp
  then have "f64_implicit * 2 ^ nat (L - 53) div 2 ^ nat (L - 53) \<le> n div 2 ^ nat (L - 53)" by (rule zdiv_mono1) simp
  then have "f64_implicit \<le> n div 2 ^ nat (L - 53)" by simp
  then have m: "f64_implicit \<le> m" by (simp add: m_def round_even_def Let_def)
  have w: "f64_pack s n 1075 = f64_make s (min f64_infinity ((1022 + L) * f64_implicit + (m - f64_implicit)))"
    using pos L m by (simp add: f64_pack_def Let_def flip: L_def m_def)
  let ?b = "min f64_infinity ((1022 + L) * f64_implicit + (m - f64_implicit))"
  have "1076 * f64_implicit \<le> (1022 + L) * f64_implicit" using L by simp
  then have r: "4845873199050653696 \<le> ?b" "?b \<le> f64_infinity" using m by simp_all
  then have "0 \<le> ?b" "?b < f64_top_bit" by linarith+
  note p = f64_make_parts [OF this]
  show "4845873199050653696 \<le> f64_magnitude (f64_pack s n 1075)" "f64_magnitude (f64_pack s n 1075) \<le> f64_infinity"
    "f64_sign (f64_pack s n 1075) \<longleftrightarrow> s"
    unfolding w p using r by simp_all
qed

lemma f64_key_small:
  assumes "\<bar>i\<bar> < 2 ^ 53"
  shows "f64_key (f64_of_int i) < 4845873199050653696" and "- 4845873199050653696 < f64_key (f64_of_int i)"
proof -
  let ?m = "4845873199050653696 :: int"
  have p: "f64_sign (f64_make s ?m) \<longleftrightarrow> s" "f64_magnitude (f64_make s ?m) = ?m" for s
    using f64_make_parts [of ?m s] by simp_all
  have k: "f64_key (f64_make s ?m) = (if s then - ?m else ?m)" for s by (simp only: f64_key_def p)
  have "f64_val (f64_make s ?m) = (if s then - (4503599627370496 * 2 ^ nat 1076) else 4503599627370496 * 2 ^ nat 1076)" for s
    using f64_val_parts [of "f64_make s ?m" s 4503599627370496 1076] by (simp only: p f64_mantissa_def f64_scale_def) simp
  moreover have "(2 :: int) ^ nat 1076 = 2 * f64_one" by (simp only: f64_one_nat [symmetric]) simp
  ultimately have v: "f64_val (f64_make s ?m) = (if s then - (2 ^ 53 * f64_one) else 2 ^ 53 * f64_one)" for s
    by (simp add: mult.assoc [symmetric])
  have "i < 2 ^ 53" "- (2 ^ 53) < i" using assms by linarith+
  then have "i * f64_one < 2 ^ 53 * f64_one" "- (2 ^ 53) * f64_one < i * f64_one"
    by (simp_all only: mult_less_cancel_right_pos [OF f64_one_pos(1)])
  then show "f64_key (f64_of_int i) < ?m" "- ?m < f64_key (f64_of_int i)"
    using f64_key_less [of "f64_of_int i" "f64_make False ?m"] f64_key_less [of "f64_make True ?m" "f64_of_int i"]
    unfolding k v f64_of_int_exact(1) [OF assms] by simp_all
qed

text \<open>A rounded value lies outside a range of integers below \<open>2 ^ 53\<close> exactly when the integer does.\<close>

lemma f64_round_outside:
  assumes x: "f64_finite x" and lo: "\<bar>lo\<bar> < 2 ^ 53" and hi: "\<bar>hi\<bar> < 2 ^ 53"
  shows "f64_less (f64_round x) (f64_of_int lo) \<or> f64_less (f64_of_int hi) (f64_round x) \<longleftrightarrow>
    f64_round_int x < lo \<or> hi < f64_round_int x"
proof (cases "f64_round_abs x < 2 ^ 53")
  case True
  show ?thesis
    using f64_round_exact [OF x True] f64_of_int_exact [OF lo] f64_of_int_exact [OF hi] by (simp add: f64_less_val)
next
  case False
  then have n: "2 ^ 53 \<le> f64_round_abs x" by simp
  have r: "f64_round x = f64_pack (f64_sign x) (f64_round_abs x) 1075" using x by (simp only: f64_round_def if_True)
  have k: "f64_magnitude (f64_round x) \<ge> 4845873199050653696" "f64_magnitude (f64_round x) \<le> f64_infinity"
    "f64_sign (f64_round x) \<longleftrightarrow> f64_sign x"
    unfolding r by (rule f64_pack_large [OF n])+
  note lo' = f64_key_small [OF lo] and hi' = f64_key_small [OF hi]
  have lhs: "f64_less (f64_round x) (f64_of_int lo) \<or> f64_less (f64_of_int hi) (f64_round x)"
    using k lo' hi' f64_of_int_exact(2) [OF lo] f64_of_int_exact(2) [OF hi]
    by (cases "f64_sign x") (simp_all add: f64_less_def f64_is_nan_def f64_finite_def f64_key_def)
  moreover have "f64_round_int x < lo \<or> hi < f64_round_int x"
    using n lo hi by (cases "f64_sign x") (simp_all add: f64_round_int_def, linarith+)
  ultimately show ?thesis by blast
qed

end
