(* ===== verification/Requests.thy ===== *)
theory Requests
  imports Money Float64
begin

section \<open>Trade requests, results and signals\<close>

text \<open>
  \<open>data/trading/TradeRequest.hpp\<close>, \<open>TradeResult.hpp\<close>, \<open>SpreadPack.hpp\<close> and
  \<open>TradeSignal.hpp\<close>: the values that bridges, policies and platforms exchange. A
  \<open>double\<close> is its 64-bit pattern, \<open>f64\<close> (the pattern of 0.0 is 0). A callback is a function object that the model only lists, so it is a
  number. The polymorphic parameter objects of a signal are of a type \<open>'p\<close> whose virtual
  methods are arguments of the operations that call them.
\<close>

unbundle bit_operations_syntax

type_synonym callback = nat

subsection \<open>SpreadPack\<close>

record spread_pack =
  sp_raw :: u64
  sp_digits :: u8

definition spread_pack_default :: spread_pack where
  "spread_pack_default = \<lparr>sp_raw = 0, sp_digits = 0\<rparr>"

subsection \<open>TradeResult\<close>

record trade_result =
  tres_trade_id :: u32
  tres_error_code :: trade_error_code
  tres_error_desc :: string
  tres_option_hash :: string
  tres_option_id :: int
  tres_amount :: f64
  tres_payout :: f64
  tres_profit :: f64
  tres_balance :: f64
  tres_open_balance :: f64
  tres_close_balance :: f64
  tres_balance_flags :: u8
  tres_open_price :: f64
  tres_close_price :: f64
  tres_delay :: int
  tres_ping :: int
  tres_place_date :: int
  tres_send_date :: int
  tres_open_date :: int
  tres_close_date :: int
  tres_trade_state :: trade_state
  tres_live_state :: trade_state
  tres_account_type :: account_type
  tres_currency :: currency_type
  tres_platform_type :: platform_type
  tres_spread :: spread_pack

definition trade_result_default :: trade_result where
  "trade_result_default =
   \<lparr>tres_trade_id = 0, tres_error_code = TEC_SUCCESS, tres_error_desc = [], tres_option_hash = [],
    tres_option_id = 0, tres_amount = 0, tres_payout = 0, tres_profit = 0, tres_balance = 0,
    tres_open_balance = 0, tres_close_balance = 0, tres_balance_flags = 0, tres_open_price = 0,
    tres_close_price = 0, tres_delay = 0, tres_ping = 0, tres_place_date = 0, tres_send_date = 0,
    tres_open_date = 0, tres_close_date = 0, tres_trade_state = TS_UNKNOWN,
    tres_live_state = TS_UNKNOWN, tres_account_type = ACC_UNKNOWN, tres_currency = CUR_UNKNOWN,
    tres_platform_type = PT_UNKNOWN, tres_spread = spread_pack_default\<rparr>"

definition has_balance :: "trade_result \<Rightarrow> bool" where
  "has_balance r \<longleftrightarrow> tres_balance_flags r AND 1 \<noteq> 0"

definition has_open_balance :: "trade_result \<Rightarrow> bool" where
  "has_open_balance r \<longleftrightarrow> tres_balance_flags r AND 2 \<noteq> 0"

definition has_close_balance :: "trade_result \<Rightarrow> bool" where
  "has_close_balance r \<longleftrightarrow> tres_balance_flags r AND 4 \<noteq> 0"

definition set_balance :: "f64 \<Rightarrow> trade_result \<Rightarrow> trade_result" where
  "set_balance value r = r\<lparr>tres_balance := value, tres_balance_flags := tres_balance_flags r OR 1\<rparr>"

definition set_open_balance :: "f64 \<Rightarrow> trade_result \<Rightarrow> trade_result" where
  "set_open_balance value r =
     r\<lparr>tres_open_balance := value, tres_balance_flags := tres_balance_flags r OR 2\<rparr>"

definition set_close_balance :: "f64 \<Rightarrow> trade_result \<Rightarrow> trade_result" where
  "set_close_balance value r =
     r\<lparr>tres_close_balance := value, tres_balance_flags := tres_balance_flags r OR 4\<rparr>"

subsection \<open>TradeRequest\<close>

record trade_request =
  treq_symbol :: string
  treq_signal_name :: string
  treq_user_data :: string
  treq_comment :: string
  treq_unique_hash :: string
  treq_source_time_ms :: int
  treq_is_assumed :: bool
  treq_assumed_reason :: string
  treq_assumed_source_identity :: string
  treq_assumed_source_step :: int
  treq_trade_id :: u32
  treq_signal_id :: u32
  treq_bridge_id :: u32
  treq_unique_id :: int
  treq_account_id :: int
  treq_option_type :: option_type
  treq_order_type :: order_type
  treq_account_type :: account_type
  treq_currency :: currency_type
  treq_amount :: f64
  treq_refund :: f64
  treq_min_payout :: f64
  treq_duration :: u32
  treq_expiry_time :: int
  treq_callbacks :: "callback list"

definition trade_request_default :: trade_request where
  "trade_request_default =
   \<lparr>treq_symbol = [], treq_signal_name = [], treq_user_data = [], treq_comment = [],
    treq_unique_hash = [], treq_source_time_ms = 0, treq_is_assumed = False,
    treq_assumed_reason = [], treq_assumed_source_identity = [], treq_assumed_source_step = - 1,
    treq_trade_id = 0, treq_signal_id = 0, treq_bridge_id = 0, treq_unique_id = 0,
    treq_account_id = 0, treq_option_type = OPT_UNKNOWN, treq_order_type = ORD_UNKNOWN,
    treq_account_type = ACC_UNKNOWN, treq_currency = CUR_UNKNOWN, treq_amount = 0,
    treq_refund = 0, treq_min_payout = 0, treq_duration = 0, treq_expiry_time = 0,
    treq_callbacks = []\<rparr>"

text \<open>\<open>copy_data_from\<close>: every data field of \<open>other\<close>, the callbacks of \<open>this\<close>.\<close>

definition copy_data_from :: "trade_request \<Rightarrow> trade_request \<Rightarrow> trade_request" where
  "copy_data_from this other =
     this\<lparr>treq_symbol := treq_symbol other, treq_signal_name := treq_signal_name other,
       treq_user_data := treq_user_data other, treq_comment := treq_comment other,
       treq_unique_hash := treq_unique_hash other,
       treq_source_time_ms := treq_source_time_ms other,
       treq_is_assumed := treq_is_assumed other,
       treq_assumed_reason := treq_assumed_reason other,
       treq_assumed_source_identity := treq_assumed_source_identity other,
       treq_assumed_source_step := treq_assumed_source_step other,
       treq_trade_id := treq_trade_id other, treq_signal_id := treq_signal_id other,
       treq_bridge_id := treq_bridge_id other, treq_unique_id := treq_unique_id other,
       treq_account_id := treq_account_id other, treq_option_type := treq_option_type other,
       treq_order_type := treq_order_type other, treq_account_type := treq_account_type other,
       treq_currency := treq_currency other, treq_amount := treq_amount other,
       treq_refund := treq_refund other, treq_min_payout := treq_min_payout other,
       treq_duration := treq_duration other, treq_expiry_time := treq_expiry_time other\<rparr>"

definition copy_request :: "trade_request \<Rightarrow> trade_request" where
  "copy_request other = copy_data_from trade_request_default other"

definition assign_request :: "trade_request \<Rightarrow> trade_request \<Rightarrow> trade_request" where
  "assign_request this other = copy_data_from this other"

definition add_callback :: "callback \<Rightarrow> trade_request \<Rightarrow> trade_request" where
  "add_callback cb this = this\<lparr>treq_callbacks := treq_callbacks this @ [cb]\<rparr>"

text \<open>\<open>dispatch_callbacks\<close>: the calls made, in order, each with its own clones.\<close>

definition dispatch_callbacks ::
  "trade_request \<Rightarrow> trade_request \<Rightarrow> trade_result \<Rightarrow> (callback \<times> trade_request \<times> trade_result) list" where
  "dispatch_callbacks this req res = map (\<lambda>cb. (cb, copy_request req, res)) (treq_callbacks this)"

definition create_trade_result :: "trade_request \<Rightarrow> trade_result" where
  "create_trade_result this = trade_result_default
     \<lparr>tres_trade_id := treq_trade_id this, tres_account_type := treq_account_type this,
      tres_currency := treq_currency this, tres_amount := treq_amount this\<rparr>"

subsection \<open>TradeSignal\<close>

record 'p trade_signal =
  tsig_signal_id :: u32
  tsig_bridge_id :: u32
  tsig_unique_id :: int
  tsig_unique_hash :: string
  tsig_platform_type :: platform_type
  tsig_account_type :: account_type
  tsig_currency :: currency_type
  tsig_account_id :: int
  tsig_symbol :: string
  tsig_signal_name :: string
  tsig_user_data :: string
  tsig_comment :: string
  tsig_source_time_ms :: int
  tsig_is_assumed :: bool
  tsig_assumed_reason :: string
  tsig_assumed_source_identity :: string
  tsig_assumed_source_step :: int
  tsig_option_type :: option_type
  tsig_order_type :: order_type
  tsig_amount :: f64
  tsig_refund :: f64
  tsig_min_payout :: f64
  tsig_duration :: u32
  tsig_expiry_time :: int
  tsig_mm_type :: mm_system_type
  tsig_mm_step :: int
  tsig_mm_group_id :: int
  tsig_mm_group_hash :: string
  tsig_mm_group_name :: string
  tsig_mm_params :: "'p option"
  tsig_decision_params :: "'p option"

definition trade_signal_default :: "'p trade_signal" where
  "trade_signal_default =
   \<lparr>tsig_signal_id = 0, tsig_bridge_id = 0, tsig_unique_id = 0, tsig_unique_hash = [],
    tsig_platform_type = PT_UNKNOWN, tsig_account_type = ACC_UNKNOWN,
    tsig_currency = CUR_UNKNOWN, tsig_account_id = 0, tsig_symbol = [], tsig_signal_name = [],
    tsig_user_data = [], tsig_comment = [], tsig_source_time_ms = 0, tsig_is_assumed = False,
    tsig_assumed_reason = [], tsig_assumed_source_identity = [], tsig_assumed_source_step = - 1,
    tsig_option_type = OPT_UNKNOWN, tsig_order_type = ORD_UNKNOWN, tsig_amount = 0,
    tsig_refund = 0, tsig_min_payout = 0, tsig_duration = 0, tsig_expiry_time = 0,
    tsig_mm_type = MM_NONE, tsig_mm_step = 0, tsig_mm_group_id = 0, tsig_mm_group_hash = [],
    tsig_mm_group_name = [], tsig_mm_params = None, tsig_decision_params = None\<rparr>"

definition assign_to_request :: "'p trade_signal \<Rightarrow> trade_request \<Rightarrow> trade_request" where
  "assign_to_request s request =
     request\<lparr>treq_signal_id := tsig_signal_id s, treq_bridge_id := tsig_bridge_id s,
       treq_unique_id := tsig_unique_id s, treq_unique_hash := tsig_unique_hash s,
       treq_account_id := tsig_account_id s, treq_account_type := tsig_account_type s,
       treq_currency := tsig_currency s, treq_symbol := tsig_symbol s,
       treq_signal_name := tsig_signal_name s, treq_user_data := tsig_user_data s,
       treq_comment := tsig_comment s, treq_source_time_ms := tsig_source_time_ms s,
       treq_is_assumed := tsig_is_assumed s, treq_assumed_reason := tsig_assumed_reason s,
       treq_assumed_source_identity := tsig_assumed_source_identity s,
       treq_assumed_source_step := tsig_assumed_source_step s,
       treq_option_type := tsig_option_type s, treq_order_type := tsig_order_type s,
       treq_amount := tsig_amount s, treq_refund := tsig_refund s,
       treq_min_payout := tsig_min_payout s, treq_duration := tsig_duration s,
       treq_expiry_time := tsig_expiry_time s\<rparr>"

definition to_trade_request :: "'p trade_signal \<Rightarrow> trade_request" where
  "to_trade_request s = assign_to_request s trade_request_default"

definition set_money_management ::
  "('p \<Rightarrow> mm_system_type) \<Rightarrow> 'p option \<Rightarrow> 'p trade_signal \<Rightarrow> 'p trade_signal" where
  "set_money_management get_type params s =
     (case params of
        Some p \<Rightarrow> s\<lparr>tsig_mm_type := get_type p, tsig_mm_params := Some p\<rparr>
      | None \<Rightarrow> s\<lparr>tsig_mm_type := MM_NONE, tsig_mm_params := None\<rparr>)"

definition clone_signal :: "('p \<Rightarrow> 'p) \<Rightarrow> ('p \<Rightarrow> 'p) \<Rightarrow> 'p trade_signal \<Rightarrow> 'p trade_signal" where
  "clone_signal clone_mm clone_decision s =
    (let cloned = trade_signal_default
       \<lparr>tsig_signal_id := tsig_signal_id s, tsig_bridge_id := tsig_bridge_id s,
         tsig_unique_id := tsig_unique_id s, tsig_unique_hash := tsig_unique_hash s,
         tsig_platform_type := tsig_platform_type s, tsig_account_type := tsig_account_type s,
         tsig_currency := tsig_currency s, tsig_account_id := tsig_account_id s,
         tsig_symbol := tsig_symbol s, tsig_signal_name := tsig_signal_name s,
         tsig_user_data := tsig_user_data s, tsig_comment := tsig_comment s,
         tsig_source_time_ms := tsig_source_time_ms s, tsig_is_assumed := tsig_is_assumed s,
         tsig_assumed_reason := tsig_assumed_reason s,
         tsig_assumed_source_identity := tsig_assumed_source_identity s,
         tsig_assumed_source_step := tsig_assumed_source_step s,
         tsig_option_type := tsig_option_type s, tsig_order_type := tsig_order_type s,
         tsig_amount := tsig_amount s, tsig_refund := tsig_refund s,
         tsig_min_payout := tsig_min_payout s, tsig_duration := tsig_duration s,
         tsig_expiry_time := tsig_expiry_time s, tsig_mm_type := tsig_mm_type s,
         tsig_mm_step := tsig_mm_step s, tsig_mm_group_id := tsig_mm_group_id s,
         tsig_mm_group_hash := tsig_mm_group_hash s, tsig_mm_group_name := tsig_mm_group_name s\<rparr>;
         cloned = (case tsig_mm_params s of
           Some p \<Rightarrow> cloned\<lparr>tsig_mm_params := Some (clone_mm p)\<rparr> | None \<Rightarrow> cloned)
     in (case tsig_decision_params s of
           Some p \<Rightarrow> cloned\<lparr>tsig_decision_params := Some (clone_decision p)\<rparr> | None \<Rightarrow> cloned))"

subsection \<open>Lemmas\<close>

lemma copy_request_data: "treq_callbacks (copy_request r) = []"
  and copy_request_id: "treq_callbacks r = [] \<Longrightarrow> copy_request r = r"
  by (simp_all add: copy_request_def copy_data_from_def trade_request_default_def)

lemma copy_request_eq: "copy_request r = r\<lparr>treq_callbacks := []\<rparr>"
  by (simp add: copy_request_def copy_data_from_def trade_request_default_def)

lemma clone_signal_eq:
  "clone_signal cm cd s =
     s\<lparr>tsig_mm_params := map_option cm (tsig_mm_params s),
       tsig_decision_params := map_option cd (tsig_decision_params s)\<rparr>"
  by (cases "tsig_mm_params s"; cases "tsig_decision_params s")
     (simp_all add: clone_signal_def trade_signal_default_def)

end
