(* ===== verification/Identity.thy ===== *)
theory Identity
  imports Requests
begin

section \<open>Intents, execution groups and series\<close>

text \<open>
  \<open>trading_system/Identity.hpp\<close>, \<open>TradeIntent.hpp\<close> and \<open>TradeSeries.hpp\<close>: the identity of
  a logical trade and of the physical executions behind it, and the revision that guards a
  mutation. The tables of the enum codecs are lists of pairs, as in the code, and both enums
  interpret \<open>enum_codec\<close>; \<open>advance_revision\<close> of an intent and of a series interpret
  \<open>revision_guard\<close>.
\<close>

subsection \<open>Enums and their tables\<close>

datatype intent_status =
    IS_PROPOSED | IS_REJECTED | IS_ADMITTED | IS_SUBMITTING | IS_EXECUTION_UNKNOWN | IS_EXECUTED
  | IS_SETTLED | IS_CANCELLED

datatype execution_cardinality = EC_ZERO_OR_ONE | EC_EXACTLY_ONE | EC_MULTIPLE | EC_SPLIT_GROUP

definition intent_status_table :: "(intent_status \<times> string) list" where
  "intent_status_table =
     [(IS_PROPOSED, ''PROPOSED''), (IS_REJECTED, ''REJECTED''), (IS_ADMITTED, ''ADMITTED''),
      (IS_SUBMITTING, ''SUBMITTING''), (IS_EXECUTION_UNKNOWN, ''EXECUTION_UNKNOWN''),
      (IS_EXECUTED, ''EXECUTED''), (IS_SETTLED, ''SETTLED''), (IS_CANCELLED, ''CANCELLED'')]"

definition execution_cardinality_table :: "(execution_cardinality \<times> string) list" where
  "execution_cardinality_table =
     [(EC_ZERO_OR_ONE, ''ZERO_OR_ONE''), (EC_EXACTLY_ONE, ''EXACTLY_ONE''),
      (EC_MULTIPLE, ''MULTIPLE''), (EC_SPLIT_GROUP, ''SPLIT_GROUP'')]"

fun enum_to_string :: "'e \<Rightarrow> ('e \<times> string) list \<Rightarrow> string" where
  "enum_to_string value [] = ''UNKNOWN''"
| "enum_to_string value (entry # table) =
     (if fst entry = value then snd entry else enum_to_string value table)"

text \<open>The out parameter of \<open>enum_from_string\<close> is written exactly when it returns true.\<close>

fun enum_from_string :: "string \<Rightarrow> ('e \<times> string) list \<Rightarrow> 'e option" where
  "enum_from_string txt [] = None"
| "enum_from_string txt (entry # table) =
     (if snd entry = txt then Some (fst entry) else enum_from_string txt table)"

definition intent_status_to_string :: "intent_status \<Rightarrow> string" where
  "intent_status_to_string value = enum_to_string value intent_status_table"

definition execution_cardinality_to_string :: "execution_cardinality \<Rightarrow> string" where
  "execution_cardinality_to_string value = enum_to_string value execution_cardinality_table"

text \<open>\<open>Inl\<close> is the message of the \<open>std::invalid_argument\<close> thrown.\<close>

definition intent_status_from_string :: "string \<Rightarrow> string + intent_status" where
  "intent_status_from_string value =
     (case enum_from_string value intent_status_table of
        Some result \<Rightarrow> Inr result
      | None \<Rightarrow> Inl (''Unknown trading-system intent status: '' @ value))"

definition execution_cardinality_from_string :: "string \<Rightarrow> string + execution_cardinality" where
  "execution_cardinality_from_string value =
     (case enum_from_string value execution_cardinality_table of
        Some result \<Rightarrow> Inr result
      | None \<Rightarrow> Inl (''Unknown trading-system execution cardinality: '' @ value))"

interpretation intent_status_codec: enum_codec intent_status_to_string
    "\<lambda>s. enum_from_string s intent_status_table"
proof unfold_locales
  show "enum_from_string (intent_status_to_string e) intent_status_table = Some e" for e
    by (cases e) (simp_all add: intent_status_to_string_def intent_status_table_def)
qed

interpretation execution_cardinality_codec: enum_codec execution_cardinality_to_string
    "\<lambda>s. enum_from_string s execution_cardinality_table"
proof unfold_locales
  show "enum_from_string (execution_cardinality_to_string e) execution_cardinality_table = Some e" for e
    by (cases e) (simp_all add: execution_cardinality_to_string_def execution_cardinality_table_def)
qed

lemma enum_from_string_SomeD: "enum_from_string s tab = Some e \<Longrightarrow> (e, s) \<in> set tab"
  by (induction s tab rule: enum_from_string.induct) (auto split: if_splits)

subsection \<open>ExecutionGroupIdentity\<close>

record group_identity =
  gi_group_id :: u64
  gi_expected_members :: u32

definition group_identity_default :: group_identity where
  "group_identity_default = \<lparr>gi_group_id = 0, gi_expected_members = 0\<rparr>"

fun valid_for_cardinality :: "group_identity \<Rightarrow> execution_cardinality \<Rightarrow> bool" where
  "valid_for_cardinality g EC_ZERO_OR_ONE \<longleftrightarrow> gi_group_id g = 0 \<and> gi_expected_members g \<le> 1"
| "valid_for_cardinality g EC_EXACTLY_ONE \<longleftrightarrow> gi_expected_members g = 1"
| "valid_for_cardinality g EC_MULTIPLE \<longleftrightarrow> gi_group_id g \<noteq> 0 \<and> 2 \<le> gi_expected_members g"
| "valid_for_cardinality g EC_SPLIT_GROUP \<longleftrightarrow> gi_group_id g \<noteq> 0 \<and> 2 \<le> gi_expected_members g"

subsection \<open>TradeIntent\<close>

record trade_intent =
  ti_intent_id :: u64
  ti_origin_signal_id :: u32
  ti_series_id :: u64
  ti_series_step :: int
  ti_execution_group :: group_identity
  ti_cardinality :: execution_cardinality
  ti_status :: intent_status
  ti_request :: trade_request
  ti_state_revision :: u64
  ti_idempotency_key :: string

definition trade_intent_default :: trade_intent where
  "trade_intent_default =
     \<lparr>ti_intent_id = 0, ti_origin_signal_id = 0, ti_series_id = 0, ti_series_step = - 1,
      ti_execution_group = group_identity_default, ti_cardinality = EC_ZERO_OR_ONE,
      ti_status = IS_PROPOSED, ti_request = trade_request_default, ti_state_revision = 0,
      ti_idempotency_key = []\<rparr>"

definition intent_valid :: "trade_intent \<Rightarrow> bool" where
  "intent_valid i \<longleftrightarrow>
     (let standalone = (ti_series_id i = 0 \<and> ti_series_step i = - 1);
          series_bound = (ti_series_id i \<noteq> 0 \<and> 0 \<le> ti_series_step i)
      in ti_intent_id i \<noteq> 0 \<and> (standalone \<or> series_bound) \<and> ti_idempotency_key i \<noteq> [] \<and>
         valid_for_cardinality (ti_execution_group i) (ti_cardinality i))"

definition intent_revision_matches :: "trade_intent \<Rightarrow> u64 \<Rightarrow> bool" where
  "intent_revision_matches i expected_revision \<longleftrightarrow> ti_state_revision i = expected_revision"

definition intent_advance_revision :: "trade_intent \<Rightarrow> u64 \<Rightarrow> bool \<times> trade_intent" where
  "intent_advance_revision i expected_revision =
     (if \<not> intent_revision_matches i expected_revision then (False, i)
      else if ti_state_revision i = u64_max then (False, i)
      else (True, i\<lparr>ti_state_revision := ti_state_revision i + 1\<rparr>))"

text \<open>\<open>clone\<close> copies the intent; the request inside it goes through its copy constructor.\<close>

definition intent_clone :: "trade_intent \<Rightarrow> trade_intent" where
  "intent_clone i = i\<lparr>ti_request := copy_request (ti_request i)\<rparr>"

interpretation intent_revision: revision_guard ti_state_revision intent_advance_revision
  by unfold_locales
     (auto simp: intent_advance_revision_def intent_revision_matches_def split: if_splits)

subsection \<open>TradeSeries\<close>

record trade_series =
  tse_series_id :: u64
  tse_origin_signal_id :: u32
  tse_next_step :: u32
  tse_state_revision :: u64

definition trade_series_default :: trade_series where
  "trade_series_default =
     \<lparr>tse_series_id = 0, tse_origin_signal_id = 0, tse_next_step = 0, tse_state_revision = 0\<rparr>"

definition series_valid :: "trade_series \<Rightarrow> bool" where
  "series_valid s \<longleftrightarrow> tse_series_id s \<noteq> 0"

definition series_revision_matches :: "trade_series \<Rightarrow> u64 \<Rightarrow> bool" where
  "series_revision_matches s expected_revision \<longleftrightarrow> tse_state_revision s = expected_revision"

definition series_advance_revision :: "trade_series \<Rightarrow> u64 \<Rightarrow> bool \<times> trade_series" where
  "series_advance_revision s expected_revision =
     (if \<not> series_revision_matches s expected_revision then (False, s)
      else if tse_state_revision s = u64_max then (False, s)
      else (True, s\<lparr>tse_state_revision := tse_state_revision s + 1\<rparr>))"

interpretation series_revision: revision_guard tse_state_revision series_advance_revision
  by unfold_locales
     (auto simp: series_advance_revision_def series_revision_matches_def split: if_splits)

end
