(* ===== verification/TimeZone.thy ===== *)
theory TimeZone
  imports Prelude "HOL-Library.Signed_Division"
begin

section \<open>Local time\<close>

text \<open>
  \<open>data/trading/TradeTimeZone.hpp\<close>. The checked helpers write their out parameter and
  return true, or return false: \<open>Some\<close> of the value, or \<open>None\<close>. The \<open>time_shield\<close> library
  is a record of the constants and functions the code calls, an argument of every operation
  that uses one; \<open>time_shield_units\<close> states the values its constants are documented to have.
  Of the zone enum of that library the code names two values.
\<close>

subsection \<open>Checked arithmetic\<close>

definition checked_add_int64 :: "int \<Rightarrow> int \<Rightarrow> int option" where
  "checked_add_int64 lhs rhs =
     (if 0 < rhs then (if i64_max - rhs < lhs then None else Some (lhs + rhs))
      else if rhs < 0 then
        (if rhs = i64_min then (if lhs < 0 then None else Some (lhs + rhs))
         else if lhs < i64_min - rhs then None else Some (lhs + rhs))
      else Some (lhs + rhs))"

definition checked_subtract_int64 :: "int \<Rightarrow> int \<Rightarrow> int option" where
  "checked_subtract_int64 lhs rhs =
     (if 0 < rhs then (if lhs < i64_min + rhs then None else Some (lhs - rhs))
      else if rhs < 0 then
        (if rhs = i64_min then (if 0 \<le> lhs then None else Some (lhs - rhs))
         else if i64_max + rhs < lhs then None else Some (lhs - rhs))
      else Some (lhs - rhs))"

subsection \<open>The time\_shield library\<close>

datatype ts_zone = ZONE_UTC | ZONE_UNKNOWN | ZONE_OTHER nat

record time_shield =
  ts_ms_per_sec :: int
  ts_ms_per_hour :: int
  ts_ms_per_day :: int
  ts_min_timestamp_ms :: int
  ts_max_timestamp_ms :: int
  ts_error_timestamp :: int
  ts_zone_offset_at_utc_ms :: "int \<Rightarrow> ts_zone \<Rightarrow> int option"
  ts_zone_to_gmt_ms :: "int \<Rightarrow> ts_zone \<Rightarrow> int"
  ts_ms_to_sec :: "int \<Rightarrow> int"
  ts_sec_of_day :: "int \<Rightarrow> int"
  ts_weekday_of_ts :: "int \<Rightarrow> int"
  ts_sec_to_ms :: "int \<Rightarrow> int"
  ts_ms_per_15_sec :: int
  ts_sec_per_min :: int
  ts_sec_per_3_min :: int
  ts_sec_per_5_min :: int
  ts_sec_per_hour :: int
  ts_sec_per_year :: int
  ts_start_of_min :: "int \<Rightarrow> int"
  ts_start_of_day :: "int \<Rightarrow> int"
  ts_is_day_off :: "int \<Rightarrow> bool"

definition time_shield_units :: "time_shield \<Rightarrow> bool" where
  "time_shield_units L \<longleftrightarrow>
     ts_ms_per_sec L = 1000 \<and> ts_ms_per_hour L = 3600000 \<and> ts_ms_per_day L = 86400000 \<and>
     (\<forall>s. ts_sec_to_ms L s = s * 1000) \<and> ts_ms_per_15_sec L = 15000 \<and> ts_sec_per_min L = 60 \<and>
     ts_sec_per_3_min L = 180 \<and> ts_sec_per_5_min L = 300 \<and> ts_sec_per_hour L = 3600 \<and>
     ts_sec_per_year L = 31536000"

text \<open>The integer division and remainder of C++ truncate: \<open>sdiv\<close> and \<open>smod\<close>.\<close>

definition checked_seconds_to_ms :: "time_shield \<Rightarrow> int \<Rightarrow> int option" where
  "checked_seconds_to_ms L seconds =
     (if i64_max sdiv ts_ms_per_sec L < seconds \<or> seconds < i64_min sdiv ts_ms_per_sec L then None
      else Some (seconds * ts_ms_per_sec L))"

definition is_time_shield_timestamp :: "time_shield \<Rightarrow> int \<Rightarrow> bool" where
  "is_time_shield_timestamp L t \<longleftrightarrow> ts_min_timestamp_ms L \<le> t \<and> t \<le> ts_max_timestamp_ms L"

definition checked_start_of_period_ms :: "int \<Rightarrow> int \<Rightarrow> int option" where
  "checked_start_of_period_ms timestamp_ms period_ms =
     (let remainder_ms = timestamp_ms smod period_ms;
          remainder_ms = (if remainder_ms < 0 then remainder_ms + period_ms else remainder_ms)
      in checked_subtract_int64 timestamp_ms remainder_ms)"

subsection \<open>TradeTimeZone\<close>

datatype time_zone_mode = TZM_FIXED_OFFSET | TZM_NAMED_ZONE

record trade_time_zone =
  tz_mode :: time_zone_mode
  tz_offset_sec :: int
  tz_zone :: ts_zone
  tz_named_zone_supported :: bool

definition tz_fixed_offset :: "int \<Rightarrow> trade_time_zone" where
  "tz_fixed_offset offset_seconds =
     \<lparr>tz_mode = TZM_FIXED_OFFSET, tz_offset_sec = offset_seconds, tz_zone = ZONE_UTC,
      tz_named_zone_supported = True\<rparr>"

definition tz_utc :: trade_time_zone where
  "tz_utc = tz_fixed_offset 0"

definition tz_named :: "ts_zone \<Rightarrow> trade_time_zone" where
  "tz_named value =
     (if value = ZONE_UNKNOWN then tz_utc\<lparr>tz_named_zone_supported := False\<rparr>
      else \<lparr>tz_mode = TZM_NAMED_ZONE, tz_offset_sec = 0, tz_zone = value,
            tz_named_zone_supported = True\<rparr>)"

definition is_named_zone :: "trade_time_zone \<Rightarrow> bool" where
  "is_named_zone z \<longleftrightarrow> tz_mode z = TZM_NAMED_ZONE \<and> tz_zone z \<noteq> ZONE_UNKNOWN"

definition try_offset_at_utc_ms :: "time_shield \<Rightarrow> trade_time_zone \<Rightarrow> int \<Rightarrow> int option" where
  "try_offset_at_utc_ms L z utc_ms =
     (if \<not> is_named_zone z then Some (tz_offset_sec z)
      else if \<not> is_time_shield_timestamp L utc_ms then None
      else ts_zone_offset_at_utc_ms L utc_ms (tz_zone z))"

definition offset_at_utc_ms :: "time_shield \<Rightarrow> trade_time_zone \<Rightarrow> int \<Rightarrow> int" where
  "offset_at_utc_ms L z utc_ms =
     (case try_offset_at_utc_ms L z utc_ms of Some resolved \<Rightarrow> resolved | None \<Rightarrow> 0)"

definition try_to_local_ms :: "time_shield \<Rightarrow> trade_time_zone \<Rightarrow> int \<Rightarrow> int option" where
  "try_to_local_ms L z utc_ms =
     (if \<not> tz_named_zone_supported z then None
      else if \<not> is_named_zone z then
        (case checked_seconds_to_ms L (tz_offset_sec z) of
           None \<Rightarrow> None
         | Some offset_ms \<Rightarrow> checked_add_int64 utc_ms offset_ms)
      else
        (case try_offset_at_utc_ms L z utc_ms of
           None \<Rightarrow> None
         | Some resolved \<Rightarrow>
             (case checked_seconds_to_ms L resolved of
                None \<Rightarrow> None
              | Some offset_ms \<Rightarrow> checked_add_int64 utc_ms offset_ms)))"

definition to_local_ms :: "time_shield \<Rightarrow> trade_time_zone \<Rightarrow> int \<Rightarrow> int" where
  "to_local_ms L z utc_ms =
     (case try_to_local_ms L z utc_ms of Some local_ms \<Rightarrow> local_ms | None \<Rightarrow> utc_ms)"

definition to_utc_ms :: "time_shield \<Rightarrow> trade_time_zone \<Rightarrow> int \<Rightarrow> int" where
  "to_utc_ms L z local_ms =
     (if \<not> is_named_zone z then
        (case checked_seconds_to_ms L (tz_offset_sec z) of
           None \<Rightarrow> local_ms
         | Some offset_ms \<Rightarrow>
             (case checked_subtract_int64 local_ms offset_ms of
                None \<Rightarrow> local_ms
              | Some utc_ms \<Rightarrow> utc_ms))
      else if \<not> is_time_shield_timestamp L local_ms then local_ms
      else
        let utc_ms = ts_zone_to_gmt_ms L local_ms (tz_zone z)
        in if utc_ms = ts_error_timestamp L then local_ms else utc_ms)"

definition start_of_local_day_utc_ms :: "time_shield \<Rightarrow> trade_time_zone \<Rightarrow> int \<Rightarrow> int" where
  "start_of_local_day_utc_ms L z utc_ms =
     (case checked_start_of_period_ms (to_local_ms L z utc_ms) (ts_ms_per_day L) of
        None \<Rightarrow> utc_ms
      | Some day_start_local_ms \<Rightarrow> to_utc_ms L z day_start_local_ms)"

definition next_local_day_start_utc_ms :: "time_shield \<Rightarrow> trade_time_zone \<Rightarrow> int \<Rightarrow> int" where
  "next_local_day_start_utc_ms L z utc_ms =
     (case checked_start_of_period_ms (to_local_ms L z utc_ms) (ts_ms_per_day L) of
        None \<Rightarrow> utc_ms
      | Some day_start_local_ms \<Rightarrow>
          (case checked_add_int64 day_start_local_ms (ts_ms_per_day L) of
             None \<Rightarrow> utc_ms
           | Some next_day_start_local_ms \<Rightarrow> to_utc_ms L z next_day_start_local_ms))"

definition start_of_local_hour_utc_ms :: "time_shield \<Rightarrow> trade_time_zone \<Rightarrow> int \<Rightarrow> int" where
  "start_of_local_hour_utc_ms L z utc_ms =
     (case try_offset_at_utc_ms L z utc_ms of
        None \<Rightarrow> utc_ms
      | Some offset_sec \<Rightarrow>
          (case checked_seconds_to_ms L offset_sec of
             None \<Rightarrow> utc_ms
           | Some offset_ms \<Rightarrow>
               (case checked_add_int64 utc_ms offset_ms of
                  None \<Rightarrow> utc_ms
                | Some local_ms \<Rightarrow>
                    (case checked_start_of_period_ms local_ms (ts_ms_per_hour L) of
                       None \<Rightarrow> utc_ms
                     | Some local_hour_start_ms \<Rightarrow>
                         (case checked_subtract_int64 local_hour_start_ms offset_ms of
                            None \<Rightarrow> utc_ms
                          | Some utc_hour_start_ms \<Rightarrow> utc_hour_start_ms)))))"

subsection \<open>The helpers are exact\<close>

lemma checked_add_exact:
  "i64 a \<Longrightarrow> i64 b \<Longrightarrow> checked_add_int64 a b = (if i64 (a + b) then Some (a + b) else None)"
  by (auto simp: checked_add_int64_def i64_def)

lemma checked_subtract_exact:
  "i64 a \<Longrightarrow> i64 b \<Longrightarrow> checked_subtract_int64 a b = (if i64 (a - b) then Some (a - b) else None)"
  by (auto simp: checked_subtract_int64_def i64_def)

text \<open>No guard of the helpers overflows: the sums and differences it compares are in range.\<close>

lemma checked_guards_in_range:
  "i64 b \<Longrightarrow> 0 < b \<Longrightarrow> i64 (i64_max - b)" "i64 b \<Longrightarrow> b < 0 \<Longrightarrow> b \<noteq> i64_min \<Longrightarrow> i64 (i64_min - b)"
  "i64 b \<Longrightarrow> 0 < b \<Longrightarrow> i64 (i64_min + b)" "i64 b \<Longrightarrow> b < 0 \<Longrightarrow> i64 (i64_max + b)"
  by (auto simp: i64_def)

lemma checked_seconds_to_ms_exact:
  "time_shield_units L \<Longrightarrow>
   checked_seconds_to_ms L s = (if i64 (s * 1000) then Some (s * 1000) else None)"
  by (auto simp: checked_seconds_to_ms_def time_shield_units_def i64_def signed_divide_int_def)

lemma floor_remainder:
  fixes t p :: int
  assumes "0 < p"
  shows "(if t smod p < 0 then t smod p + p else t smod p) = t mod p"
proof (cases "0 \<le> t")
  case True
  then have "t smod p = t mod p" using assms by (cases "t = 0") (simp_all add: signed_modulo_int_def signed_divide_int_def minus_div_mult_eq_mod)
  moreover have "0 \<le> t mod p" using assms by simp
  ultimately show ?thesis by simp
next
  case False
  then have s: "t smod p = - ((- t) mod p)"
    using assms by (simp add: signed_modulo_int_def signed_divide_int_def)
  have b: "0 \<le> (- t) mod p" "(- t) mod p < p" using assms by simp_all
  have "t mod p = (if (- t) mod p = 0 then 0 else p - (- t) mod p)"
    using zmod_zminus1_eq_if [of "- t" p] by simp
  then show ?thesis using s b by auto
qed

lemma checked_start_exact:
  assumes "0 < p" "i64 p" "i64 t"
  shows "checked_start_of_period_ms t p = (if i64 (t - t mod p) then Some (t - t mod p) else None)"
proof -
  have "0 \<le> t mod p" "t mod p < p" using assms(1) by simp_all
  then have "i64 (t mod p)" using assms(2) by (auto simp: i64_def)
  then show ?thesis
    using assms by (simp only: checked_start_of_period_ms_def Let_def floor_remainder checked_subtract_exact)
qed

subsection \<open>Fixed offsets\<close>

lemma fixed_offset_simps [simp]:
  "is_named_zone (tz_fixed_offset off) = False"
  "tz_offset_sec (tz_fixed_offset off) = off"
  "tz_named_zone_supported (tz_fixed_offset off) = True"
  by (simp_all add: is_named_zone_def tz_fixed_offset_def)

lemma fixed_to_local:
  "time_shield_units L \<Longrightarrow> i64 (off * 1000) \<Longrightarrow> i64 t \<Longrightarrow>
   try_to_local_ms L (tz_fixed_offset off) t =
     (if i64 (t + off * 1000) then Some (t + off * 1000) else None)"
  by (simp add: try_to_local_ms_def checked_seconds_to_ms_exact checked_add_exact)

lemma fixed_to_utc:
  "time_shield_units L \<Longrightarrow> i64 (off * 1000) \<Longrightarrow> i64 t \<Longrightarrow>
   to_utc_ms L (tz_fixed_offset off) t = (if i64 (t - off * 1000) then t - off * 1000 else t)"
  by (simp add: to_utc_ms_def checked_seconds_to_ms_exact checked_subtract_exact)

text \<open>Where a fixed-offset conversion to local time succeeds it is exact, and converting back
  gives the same instant; it fails exactly when the local time is not a 64-bit value.\<close>

theorem fixed_offset_roundtrip:
  assumes "time_shield_units L" "i64 (off * 1000)" "i64 t"
  shows "try_to_local_ms L (tz_fixed_offset off) t = (if i64 (t + off * 1000) then Some (t + off * 1000) else None) \<and>
    (\<forall>l. try_to_local_ms L (tz_fixed_offset off) t = Some l \<longrightarrow> to_utc_ms L (tz_fixed_offset off) l = t)"
  using assms by (auto simp: fixed_to_local fixed_to_utc split: if_splits)

definition sample_time_shield :: time_shield where
  "sample_time_shield = \<lparr>ts_ms_per_sec = 1000, ts_ms_per_hour = 3600000, ts_ms_per_day = 86400000,
     ts_min_timestamp_ms = -62135596800000, ts_max_timestamp_ms = 253402300799000,
     ts_error_timestamp = i64_max, ts_zone_offset_at_utc_ms = (\<lambda>t z. Some 7200),
     ts_zone_to_gmt_ms = (\<lambda>t z. t - 7200000), ts_ms_to_sec = (\<lambda>t. t div 1000),
     ts_sec_of_day = (\<lambda>s. s mod 86400), ts_weekday_of_ts = (\<lambda>s. (s div 86400 + 4) mod 7),
     ts_sec_to_ms = (\<lambda>s. s * 1000), ts_ms_per_15_sec = 15000, ts_sec_per_min = 60, ts_sec_per_3_min = 180,
     ts_sec_per_5_min = 300, ts_sec_per_hour = 3600, ts_sec_per_year = 31536000,
     ts_start_of_min = (\<lambda>s. s - s mod 60), ts_start_of_day = (\<lambda>s. s - s mod 86400),
     ts_is_day_off = (\<lambda>s. (s div 86400 + 4) mod 7 \<in> {0, 6})\<rparr>"

lemma sample_time_shield_units: "time_shield_units sample_time_shield"
  by (simp add: time_shield_units_def sample_time_shield_def)

theorem fixed_offset_roundtrip_witness:
  "try_to_local_ms sample_time_shield (tz_fixed_offset 10800) 1000 = Some 10801000 \<and>
   to_utc_ms sample_time_shield (tz_fixed_offset 10800) 10801000 = 1000"
  using fixed_offset_roundtrip [OF sample_time_shield_units, of 10800 1000] by (simp add: i64_def)

lemma fixed_day:
  assumes L: "time_shield_units L" and off: "i64 (off * 1000)"
    and "i64 (t - 86400000)" "i64 (t + 86400000)"
    and "i64 (t + off * 1000 - 86400000)" "i64 (t + off * 1000 + 86400000)"
  defines "d \<equiv> t - (t + off * 1000) mod 86400000"
  shows "start_of_local_day_utc_ms L (tz_fixed_offset off) t = d"
    and "next_local_day_start_utc_ms L (tz_fixed_offset off) t = d + 86400000"
proof -
  let ?l = "t + off * 1000"
  have r: "0 \<le> ?l mod 86400000" "?l mod 86400000 < 86400000" by simp_all
  have day: "ts_ms_per_day L = 86400000" using L by (simp add: time_shield_units_def)
  have i: "i64 t" "i64 ?l" "i64 (?l - ?l mod 86400000)" "i64 (?l - ?l mod 86400000 + 86400000)"
    "i64 (t - ?l mod 86400000)" "i64 (t - ?l mod 86400000 + 86400000)"
    using assms r by (auto simp: i64_def)
  have l: "to_local_ms L (tz_fixed_offset off) t = ?l"
    using i by (simp add: to_local_ms_def fixed_to_local [OF L off])
  have c: "checked_start_of_period_ms ?l 86400000 = Some (?l - ?l mod 86400000)"
    using i by (subst checked_start_exact) (simp_all add: i64_def)
  have u: "?l - ?l mod 86400000 - off * 1000 = d" "?l - ?l mod 86400000 + 86400000 - off * 1000 = d + 86400000"
    by (simp_all add: d_def)
  have e: "i64 d" "i64 (d + 86400000)" using i(5,6) by (simp_all only: d_def)
  show "start_of_local_day_utc_ms L (tz_fixed_offset off) t = d"
    by (simp only: start_of_local_day_utc_ms_def l day c option.case fixed_to_utc [OF L off i(3)] u e if_True)
  have n: "checked_add_int64 (?l - ?l mod 86400000) 86400000 = Some (?l - ?l mod 86400000 + 86400000)"
    using i by (subst checked_add_exact) (simp_all add: i64_def)
  show "next_local_day_start_utc_ms L (tz_fixed_offset off) t = d + 86400000"
    by (simp only: next_local_day_start_utc_ms_def l day c n option.case fixed_to_utc [OF L off i(4)] u e if_True)
qed

text \<open>For a fixed offset, the local day that contains an instant is the half-open interval from
  the computed day start to the computed next day start: both are local midnights, they are 24
  hours apart and the instant lies between them.\<close>

theorem local_day_bounds:
  assumes "time_shield_units L" and "i64 (off * 1000)"
    and "i64 (t - 86400000)" "i64 (t + 86400000)"
    and "i64 (t + off * 1000 - 86400000)" "i64 (t + off * 1000 + 86400000)"
  shows "start_of_local_day_utc_ms L (tz_fixed_offset off) t \<le> t \<and>
    t < next_local_day_start_utc_ms L (tz_fixed_offset off) t \<and>
    next_local_day_start_utc_ms L (tz_fixed_offset off) t =
      start_of_local_day_utc_ms L (tz_fixed_offset off) t + 86400000 \<and>
    (start_of_local_day_utc_ms L (tz_fixed_offset off) t + off * 1000) mod 86400000 = 0"
proof -
  let ?l = "t + off * 1000"
  have r: "0 \<le> ?l mod 86400000" "?l mod 86400000 < 86400000" by simp_all
  have "(t - ?l mod 86400000 + off * 1000) = ?l - ?l mod 86400000" by simp
  moreover have "(?l - ?l mod 86400000) mod 86400000 = 0" by (simp only: mod_diff_right_eq) simp
  ultimately have "(t - ?l mod 86400000 + off * 1000) mod 86400000 = 0" by (simp only:)
  with r show ?thesis by (simp only: fixed_day [OF assms]) simp
qed

theorem local_day_bounds_witness:
  "start_of_local_day_utc_ms sample_time_shield (tz_fixed_offset (- 18000)) 1700000000000 \<le> 1700000000000"
  using local_day_bounds [OF sample_time_shield_units, of "- 18000" 1700000000000] by (simp add: i64_def)

end
