(* ===== verification/Sizing.thy ===== *)
theory Sizing
  imports Identity TimeZone
begin

section \<open>Decision context and sizing policies\<close>

text \<open>
  \<open>trading_system/DecisionContext.hpp\<close> and \<open>Sizing.hpp\<close>: the snapshot the policies read,
  the fixed stake and the percentage of a balance. \<open>percentage_units\<close> is written over 64-bit
  words as in the code; \<open>percentage_reference\<close> is the exact rational value it stands for, and
  the main lemma is that they agree, overflow included.
\<close>

subsection \<open>The decision context\<close>

record balance_snapshot =
  bs_availability :: data_availability
  bs_currency :: currency_type
  bs_balance :: "money_amount option"
  bs_captured_at_ms :: int
  bs_revision :: u64

definition balance_snapshot_default :: balance_snapshot where
  "balance_snapshot_default =
     \<lparr>bs_availability = DA_UNKNOWN, bs_currency = CUR_UNKNOWN, bs_balance = None,
      bs_captured_at_ms = 0, bs_revision = 0\<rparr>"

record decision_context =
  dc_intent_id :: u64
  dc_signal_id :: u32
  dc_symbol :: string
  dc_bridge_id :: u32
  dc_signal_name :: string
  dc_evaluation_time_ms :: "int option"
  dc_time_zone :: trade_time_zone
  dc_account :: balance_snapshot

definition decision_context_default :: decision_context where
  "decision_context_default =
     \<lparr>dc_intent_id = 0, dc_signal_id = 0, dc_symbol = [], dc_bridge_id = 0, dc_signal_name = [],
      dc_evaluation_time_ms = None, dc_time_zone = tz_utc, dc_account = balance_snapshot_default\<rparr>"

definition context_from_signal ::
  "'p trade_signal \<Rightarrow> int \<Rightarrow> trade_time_zone \<Rightarrow> balance_snapshot \<Rightarrow> decision_context" where
  "context_from_signal signal evaluation_time_ms time_zone account = decision_context_default
     \<lparr>dc_signal_id := tsig_signal_id signal, dc_symbol := tsig_symbol signal,
      dc_bridge_id := tsig_bridge_id signal, dc_signal_name := tsig_signal_name signal,
      dc_evaluation_time_ms := Some evaluation_time_ms, dc_time_zone := time_zone,
      dc_account := account\<rparr>"

definition context_from_intent ::
  "trade_intent \<Rightarrow> int \<Rightarrow> trade_time_zone \<Rightarrow> balance_snapshot \<Rightarrow> decision_context" where
  "context_from_intent intent evaluation_time_ms time_zone account = decision_context_default
     \<lparr>dc_intent_id := ti_intent_id intent, dc_signal_id := ti_origin_signal_id intent,
      dc_symbol := treq_symbol (ti_request intent), dc_bridge_id := treq_bridge_id (ti_request intent),
      dc_signal_name := treq_signal_name (ti_request intent),
      dc_evaluation_time_ms := Some evaluation_time_ms, dc_time_zone := time_zone,
      dc_account := account\<rparr>"

subsection \<open>Percentage arithmetic\<close>

datatype money_rounding = MR_DOWN | MR_HALF_UP | MR_UP

definition percentage_units :: "int \<Rightarrow> u8 \<Rightarrow> u8 \<Rightarrow> int \<Rightarrow> money_rounding \<Rightarrow> int option" where
  "percentage_units balance_units balance_precision output_precision basis_points rounding =
     (if balance_units < 0 \<or> max_money_precision < balance_precision \<or>
         output_precision < balance_precision \<or> max_money_precision < output_precision \<or>
         basis_points \<le> 0 \<or> 10000 < basis_points
      then None
      else
        let precision_delta = output_precision - balance_precision;
            max_value = u64_of_i64 i64_max
        in if 4 \<le> precision_delta then
             let factor = power_of_ten (precision_delta - 4);
                 multiplier = u64_of_i64 basis_points * factor
             in if max_value div multiplier < u64_of_i64 balance_units then None
                else Some (i64_of_u64 (u64_of_i64 balance_units * multiplier))
           else
             let denominator = power_of_ten (4 - precision_delta);
                 value = u64_of_i64 balance_units;
                 whole = value div denominator;
                 remainder = value mod denominator
             in if max_value div u64_of_i64 basis_points < whole then None
                else
                  let result = whole * u64_of_i64 basis_points;
                      remainder_product = remainder * u64_of_i64 basis_points;
                      integral_remainder = remainder_product div denominator
                  in if max_value - integral_remainder < result then None
                     else
                       let result = result + integral_remainder;
                           fractional = remainder_product mod denominator
                       in if rounding = MR_UP \<and> fractional \<noteq> 0 then
                            (if result = max_value then None else Some (i64_of_u64 (result + 1)))
                          else if rounding = MR_HALF_UP \<and> denominator div 2 \<le> fractional then
                            (if result = max_value then None else Some (i64_of_u64 (result + 1)))
                          else Some (i64_of_u64 result))"

subsection \<open>FixedStake\<close>

definition fixed_stake_evaluate :: "money_amount \<Rightarrow> sizing_decision" where
  "fixed_stake_evaluate amount =
     (if \<not> valid_metadata amount \<or> ma_units amount \<le> 0 then sd_rejected SR_INVALID_AMOUNT
      else sd_sized amount)"

subsection \<open>PercentOfBalance\<close>

record percent_of_balance =
  pb_basis_points :: int
  pb_output_precision :: u8
  pb_rounding :: money_rounding
  pb_valid :: bool

definition from_basis_points :: "int \<Rightarrow> u8 \<Rightarrow> money_rounding \<Rightarrow> percent_of_balance" where
  "from_basis_points basis_points output_precision rounding =
     \<lparr>pb_basis_points = basis_points, pb_output_precision = output_precision,
      pb_rounding = rounding, pb_valid = (0 < basis_points \<and> basis_points \<le> 10000)\<rparr>"

definition percent_valid :: "percent_of_balance \<Rightarrow> bool" where
  "percent_valid p \<longleftrightarrow> pb_valid p \<and> pb_output_precision p \<le> max_money_precision"

definition percent_evaluate :: "percent_of_balance \<Rightarrow> decision_context \<Rightarrow> sizing_decision" where
  "percent_evaluate p context =
     (let account = dc_account context
      in if \<not> percent_valid p then sd_rejected SR_INVALID_PERCENT
      else if bs_availability account = DA_UNAVAILABLE then sd_unavailable SR_BALANCE_UNAVAILABLE
      else if bs_availability account = DA_STALE then sd_unavailable SR_BALANCE_STALE
      else if bs_availability account = DA_UNKNOWN then sd_unavailable SR_BALANCE_UNKNOWN
      else case bs_balance account of
             None \<Rightarrow> sd_unavailable SR_MISSING_BALANCE
           | Some balance \<Rightarrow>
               if max_money_precision < ma_precision balance then sd_rejected SR_INVALID_AMOUNT
               else if ma_currency balance = CUR_UNKNOWN then sd_rejected SR_UNKNOWN_CURRENCY
               else if \<not> valid_metadata balance then sd_rejected SR_INVALID_AMOUNT
               else if bs_currency account = CUR_UNKNOWN then sd_unavailable SR_UNKNOWN_CURRENCY
               else if bs_currency account \<noteq> ma_currency balance then sd_rejected SR_CURRENCY_MISMATCH
               else if ma_units balance < 0 then sd_rejected SR_NEGATIVE_BALANCE
               else if ma_units balance = 0 then sd_rejected SR_ZERO_BALANCE
               else if pb_output_precision p < ma_precision balance then sd_rejected SR_PRECISION_MISMATCH
               else case percentage_units (ma_units balance) (ma_precision balance)
                           (pb_output_precision p) (pb_basis_points p) (pb_rounding p) of
                      None \<Rightarrow> sd_rejected SR_NUMERIC_OVERFLOW
                    | Some calculated \<Rightarrow>
                        if calculated \<le> 0 then sd_rejected SR_ZERO_RESULT
                        else sd_sized \<lparr>ma_units = calculated, ma_precision = pb_output_precision p,
                                       ma_currency = ma_currency balance\<rparr>)"

subsection \<open>The exact percentage\<close>

text \<open>
  With \<open>n\<close> basis points of \<open>b\<close> units, moved by \<open>d\<close> decimal places, the exact value is
  \<open>b * n * 10 ^ d / 10 ^ 4\<close>, rounded as asked.
\<close>

definition round_quotient :: "money_rounding \<Rightarrow> int \<Rightarrow> int \<Rightarrow> int" where
  "round_quotient rounding num den =
     (case rounding of
        MR_DOWN \<Rightarrow> num div den
      | MR_UP \<Rightarrow> num div den + (if num mod den = 0 then 0 else 1)
      | MR_HALF_UP \<Rightarrow> num div den + (if den \<le> 2 * (num mod den) then 1 else 0))"

definition percentage_reference :: "int \<Rightarrow> nat \<Rightarrow> int \<Rightarrow> money_rounding \<Rightarrow> int" where
  "percentage_reference b d n rounding = round_quotient rounding (b * n * 10 ^ d) 10000"

lemma round_quotient_scale:
  "0 < c \<Longrightarrow> round_quotient r (c * num) (c * den) = round_quotient r num den"
  by (simp add: round_quotient_def mult.left_commute [of 2] flip: mult_mod_right split: money_rounding.split)

text \<open>The two code paths over integers: first the one that cancels the denominator.\<close>

lemma percentage_reference_cancel:
  "4 \<le> d \<Longrightarrow> percentage_reference b d n r = b * (n * 10 ^ (d - 4))"
proof -
  assume "4 \<le> d"
  then have "(10 :: int) ^ d = 10 ^ 4 * 10 ^ (d - 4)" by (simp only: flip: power_add) simp
  then have "b * n * 10 ^ d = 10000 * (b * (n * 10 ^ (d - 4)))" by simp
  then show ?thesis
    by (simp only: percentage_reference_def round_quotient_def) (simp split: money_rounding.split)
qed

lemma percentage_reference_small:
  assumes "d \<le> 4"
  shows "percentage_reference b d n r = round_quotient r (b * n) (10 ^ (4 - d))"
proof -
  have "(10000 :: int) = 10 ^ d * 10 ^ (4 - d)" using assms by (simp flip: power_add)
  then have "percentage_reference b d n r = round_quotient r (10 ^ d * (b * n)) (10 ^ d * 10 ^ (4 - d))"
    by (simp only: percentage_reference_def mult.commute)
  also have "\<dots> = round_quotient r (b * n) (10 ^ (4 - d))" by (rule round_quotient_scale) simp
  finally show ?thesis .
qed

text \<open>Over naturals: the rounded quotient, and the result when it is in the signed range.\<close>

definition round_nat :: "money_rounding \<Rightarrow> nat \<Rightarrow> nat \<Rightarrow> nat" where
  "round_nat r n d = n div d +
     (if r = MR_UP \<and> n mod d \<noteq> 0 \<or> r = MR_HALF_UP \<and> d \<le> 2 * (n mod d) then 1 else 0)"

definition fits_i64 :: "nat \<Rightarrow> int option" where
  "fits_i64 v = (if v \<le> 9223372036854775807 then Some (int v) else None)"

lemma round_quotient_nat: "round_quotient r (int n) (int d) = int (round_nat r n d)"
proof -
  have m: "d \<le> 2 * (n mod d) \<longleftrightarrow> int d \<le> 2 * (int n mod int d)" by (simp flip: zmod_int) linarith
  show ?thesis
    by (cases r) (simp_all add: round_quotient_def round_nat_def m flip: zdiv_int, simp_all flip: zmod_int)
qed

lemma fits_i64_int: "fits_i64 v = (if int v \<le> i64_max then Some (int v) else None)"
  by (simp add: fits_i64_def)

lemma percentage_path_exact:
  fixes B M :: u64
  assumes m: "0 < unat M"
  shows "(if u64_of_i64 i64_max div M < B then None else Some (i64_of_u64 (B * M))) = fits_i64 (unat B * unat M)"
proof (cases "unat B * unat M \<le> 9223372036854775807")
  case True
  then have "unat (B * M) = unat B * unat M" by (intro unat_mult_fits) simp
  with True m show ?thesis
    by (simp only: fits_i64_def word_less_nat_alt unat_div nat_div_less unat_i64_max i64_of_u64_unat) simp
next
  case False
  with m show ?thesis
    by (simp only: fits_i64_def word_less_nat_alt unat_div nat_div_less unat_i64_max) simp
qed

text \<open>The last step of the code: round the quotient \<open>result\<close>, refusing to pass the limit.\<close>

definition round_up_step :: "money_rounding \<Rightarrow> u64 \<Rightarrow> u64 \<Rightarrow> u64 \<Rightarrow> int option" where
  "round_up_step rounding result fractional denominator =
     (if rounding = MR_UP \<and> fractional \<noteq> 0 then
        (if result = u64_of_i64 i64_max then None else Some (i64_of_u64 (result + 1)))
      else if rounding = MR_HALF_UP \<and> denominator div 2 \<le> fractional then
        (if result = u64_of_i64 i64_max then None else Some (i64_of_u64 (result + 1)))
      else Some (i64_of_u64 result))"

lemma round_up_step_exact:
  fixes D f q :: u64
  assumes q: "unat q \<le> 9223372036854775807" and D: "even (unat D)"
    and n: "n div unat D = unat q" "n mod unat D = unat f"
  shows "round_up_step r q f D = fits_i64 (round_nat r n (unat D))"
proof -
  have z: "f = 0 \<longleftrightarrow> unat f = 0" by (simp add: unat_eq_0)
  have h: "D div 2 \<le> f \<longleftrightarrow> unat D \<le> 2 * unat f"
    using D by (auto simp: word_le_nat_alt unat_div elim!: evenE)
  have m: "q = u64_of_i64 i64_max \<longleftrightarrow> unat q = 9223372036854775807"
    by (simp only: word_unat_eq_iff unat_i64_max)
  have s: "i64_of_u64 (q + 1) = int (unat q + 1)" if "unat q \<noteq> 9223372036854775807"
  proof -
    have "unat (q + 1) = unat q + 1" using q that by (subst unat_add_fits) simp_all
    with q that show ?thesis by (subst i64_of_u64_unat) simp_all
  qed
  have "round_up_step r q f D =
    (if r = MR_UP \<and> unat f \<noteq> 0 \<or> r = MR_HALF_UP \<and> unat D \<le> 2 * unat f
     then if unat q = 9223372036854775807 then None else Some (int (unat q + 1))
     else Some (int (unat q)))"
    using s by (simp only: round_up_step_def z h m i64_of_u64_unat [OF q] split: if_split) blast
  with q show ?thesis by (simp only: fits_i64_def round_nat_def n) simp
qed

lemma percentage_path_round:
  fixes B N D :: u64
  assumes n: "0 < unat N" "unat N \<le> 10000" and D: "even (unat D)" "0 < unat D" "unat D \<le> 10000"
  defines "ir \<equiv> B mod D * N div D" and "fr \<equiv> B mod D * N mod D"
  shows "(if u64_of_i64 i64_max div N < B div D then None
     else if u64_of_i64 i64_max - ir < B div D * N then None
     else round_up_step r (B div D * N + ir) fr D) =
    fits_i64 (round_nat r (unat B * unat N) (unat D))"
proof -
  define W R where "W = unat B div unat D" and "R = unat B mod unat D"
  have R: "R < unat D" using D by (simp add: R_def)
  have Rn: "R * unat N \<le> 10000 * 10000" using R D n by (intro mult_le_mono) simp_all
  have rp: "unat (B mod D * N) = R * unat N"
    using Rn by (subst unat_mult_fits) (simp_all add: unat_mod R_def)
  have ir: "unat ir = R * unat N div unat D" and fr: "unat fr = R * unat N mod unat D"
    by (simp_all add: ir_def fr_def unat_div unat_mod rp)
  have irb: "unat ir \<le> 100000000" using Rn div_le_dividend [of "R * unat N" "unat D"] by (simp only: ir)
  have "unat B * unat N = (W * unat D + R) * unat N" by (simp add: W_def R_def)
  also have "\<dots> = R * unat N + W * unat N * unat D" by (simp add: algebra_simps)
  finally have BN: "unat B * unat N = R * unat N + W * unat N * unat D" .
  have q: "unat B * unat N div unat D = W * unat N + unat ir" and f: "unat B * unat N mod unat D = unat fr"
    using D(2) by (simp_all only: BN ir fr div_mult_self1 mod_mult_self1)
  have g1: "u64_of_i64 i64_max div N < B div D \<longleftrightarrow> 9223372036854775807 < W * unat N"
    using n by (simp only: word_less_nat_alt unat_div nat_div_less unat_i64_max W_def)
  have w: "unat (B div D * N) = W * unat N" if "W * unat N \<le> 9223372036854775807"
    using that by (subst unat_mult_fits) (simp_all add: unat_div W_def)
  have g2: "u64_of_i64 i64_max - ir < B div D * N \<longleftrightarrow> 9223372036854775807 < W * unat N + unat ir"
    if "W * unat N \<le> 9223372036854775807"
  proof -
    have "ir \<le> u64_of_i64 i64_max" using irb by (simp only: word_le_nat_alt unat_i64_max)
    then have "unat (u64_of_i64 i64_max - ir) = 9223372036854775807 - unat ir"
      by (subst unat_sub) (simp_all only: unat_i64_max)
    then show ?thesis using irb by (simp only: word_less_nat_alt w [OF that]) linarith
  qed
  show ?thesis
  proof (cases "W * unat N + unat ir \<le> 9223372036854775807")
    case True
    then have le: "W * unat N \<le> 9223372036854775807" by simp
    have u: "unat (B div D * N + ir) = W * unat N + unat ir"
      using True by (subst unat_add_fits) (simp_all add: w [OF le])
    have "round_up_step r (B div D * N + ir) fr D = fits_i64 (round_nat r (unat B * unat N) (unat D))"
      using True D(1) q f by (intro round_up_step_exact) (simp_all only: u)
    with True le show ?thesis by (simp only: g1 g2 [OF le]) simp
  next
    case False
    have "W * unat N + unat ir \<le> round_nat r (unat B * unat N) (unat D)"
      by (simp only: round_nat_def q le_add1)
    with False have "fits_i64 (round_nat r (unat B * unat N) (unat D)) = None" by (simp add: fits_i64_def)
    moreover have "u64_of_i64 i64_max div N < B div D \<or> u64_of_i64 i64_max - ir < B div D * N"
      using False g1 g2 by (cases "W * unat N \<le> 9223372036854775807") simp_all
    ultimately show ?thesis by argo
  qed
qed

subsection \<open>The percentage is exact\<close>

lemma power_of_ten_small:
  "p \<le> max_money_precision \<Longrightarrow> unat p \<le> k \<Longrightarrow> unat (power_of_ten p) \<le> 10 ^ k"
  by (simp add: unat_power_of_ten)

lemma percentage_units_exact:
  assumes b: "0 \<le> b" "b \<le> i64_max" and n: "0 < n" "n \<le> 10000"
    and p: "bp \<le> op" "op \<le> max_money_precision"
  shows "percentage_units b bp op n r =
    (let v = percentage_reference b (unat op - unat bp) n r in if v \<le> i64_max then Some v else None)"
proof -
  let ?B = "u64_of_i64 b" and ?N = "u64_of_i64 n" and ?d = "op - bp"
  define dn where "dn = unat op - unat bp"
  have d: "unat ?d = dn" using p(1) by (simp add: unat_sub dn_def)
  have op18: "unat op \<le> 18" using p(2) by (simp add: max_money_precision_le)
  have dn18: "dn \<le> 18" using op18 by (simp add: dn_def)
  have guard: "\<not> (b < 0 \<or> max_money_precision < bp \<or> op < bp \<or> max_money_precision < op \<or> n \<le> 0 \<or> 10000 < n)"
    using b n p by (auto simp: not_less)
  have B: "unat ?B = nat b" and N: "unat ?N = nat n" using b n by simp_all
  have BN: "int (unat ?B * unat ?N) = b * n" using b n by (simp only: B N) simp
  have four: "4 \<le> ?d \<longleftrightarrow> 4 \<le> dn" by (simp add: word_le_nat_alt d)
  show ?thesis
  proof (cases "4 \<le> dn")
    case True
    have "unat (?d - 4) = dn - 4" using True four by (simp add: unat_sub d)
    moreover have "?d - 4 \<le> max_money_precision"
      using calculation dn18 by (simp add: max_money_precision_le)
    ultimately have F: "unat (power_of_ten (?d - 4)) = 10 ^ (dn - 4)" by (simp add: unat_power_of_ten)
    have F14: "(10 :: nat) ^ (dn - 4) \<le> 10 ^ 14" using dn18 by (intro power_increasing) simp_all
    have "nat n * 10 ^ (dn - 4) \<le> 10000 * 10 ^ 14" using n F14 by (intro mult_le_mono) simp_all
    then have M: "unat (?N * power_of_ten (?d - 4)) = nat n * 10 ^ (dn - 4)"
      by (subst unat_mult_fits) (simp_all add: F N)
    have pos: "0 < unat (?N * power_of_ten (?d - 4))" using n by (simp add: M)
    have "int (unat ?B * unat (?N * power_of_ten (?d - 4))) = b * (n * 10 ^ (dn - 4))"
      using b n by (simp only: B M) simp
    then show ?thesis
      using True by (simp only: percentage_units_def guard if_False Let_def four if_True
        percentage_path_exact [OF pos] fits_i64_int percentage_reference_cancel dn_def [symmetric])
  next
    case False
    then have le: "?d \<le> 4" by (simp add: word_le_nat_alt d)
    then have d4: "unat (4 - ?d) = 4 - dn" by (simp add: unat_sub d)
    then have D: "unat (power_of_ten (4 - ?d)) = 10 ^ (4 - dn)"
      by (simp add: unat_power_of_ten max_money_precision_le)
    have D4: "(10 :: nat) ^ (4 - dn) \<le> 10 ^ 4" by (intro power_increasing) simp_all
    have ev: "even ((10 :: nat) ^ (4 - dn))" using False by simp
    note path = percentage_path_round [of ?N "power_of_ten (4 - ?d)" ?B r, unfolded D N B round_up_step_def]
    have "int (round_nat r (nat b * nat n) (10 ^ (4 - dn))) = percentage_reference b dn n r"
      using False b n by (simp add: percentage_reference_small flip: round_quotient_nat)
    then have v: "fits_i64 (round_nat r (nat b * nat n) (10 ^ (4 - dn))) =
      (if percentage_reference b dn n r \<le> i64_max then Some (percentage_reference b dn n r) else None)"
      by (simp only: fits_i64_int)
    have "percentage_units b bp op n r = fits_i64 (round_nat r (nat b * nat n) (10 ^ (4 - dn)))"
      using False n D4 ev
      by (subst path [symmetric]) (simp_all only: percentage_units_def guard if_False Let_def four, simp_all)
    then show ?thesis by (simp only: v Let_def dn_def [symmetric])
  qed
qed

lemma percentage_units_rejects:
  assumes "i64 b" "\<not> (0 \<le> b \<and> 0 < n \<and> n \<le> 10000 \<and> bp \<le> op \<and> op \<le> max_money_precision)"
  shows "percentage_units b bp op n r = None"
  using assms by (auto simp: percentage_units_def not_le not_less)

lemma round_quotient_le:
  assumes "0 < den" "num \<le> k * den"
  shows "round_quotient r num den \<le> k"
proof (cases "num = k * den")
  case True
  then show ?thesis using assms(1) by (simp add: round_quotient_def split: money_rounding.split)
next
  case False
  then have "num < k * den" using assms(2) by simp
  have "num div den < k"
  proof (rule ccontr)
    assume "\<not> num div den < k"
    then have "k * den \<le> num div den * den" using assms(1) by (intro mult_right_mono) simp_all
    also have "\<dots> \<le> num" using pos_mod_sign [OF assms(1), of num] div_mult_mod_eq [of num den] by linarith
    finally show False using \<open>num < k * den\<close> by simp
  qed
  then show ?thesis by (simp add: round_quotient_def split: money_rounding.split)
qed

text \<open>A percentage of at most 100 never exceeds the balance it is taken of.\<close>

lemma percentage_reference_le:
  assumes "0 \<le> b" "n \<le> 10000"
  shows "percentage_reference b d n r \<le> b * 10 ^ d"
proof -
  have "b * n * 10 ^ d \<le> b * 10000 * 10 ^ d"
    using assms by (intro mult_right_mono mult_left_mono) simp_all
  then have "b * n * 10 ^ d \<le> b * 10 ^ d * 10000" by (simp add: mult_ac)
  then show ?thesis unfolding percentage_reference_def by (intro round_quotient_le) simp_all
qed

lemma percentage_units_SomeD:
  assumes "percentage_units b bp op n r = Some v" and "i64 b"
  shows "0 \<le> b" "0 < n" "n \<le> 10000" "bp \<le> op" "op \<le> max_money_precision"
    "v = percentage_reference b (unat op - unat bp) n r" "v \<le> i64_max"
proof -
  have "0 \<le> b \<and> 0 < n \<and> n \<le> 10000 \<and> bp \<le> op \<and> op \<le> max_money_precision"
    by (rule ccontr) (use percentage_units_rejects [OF assms(2)] assms(1) in simp)
  then show g: "0 \<le> b" "0 < n" "n \<le> 10000" "bp \<le> op" "op \<le> max_money_precision" by auto
  have "b \<le> i64_max" using assms(2) by (simp add: i64_def)
  from assms(1) [unfolded percentage_units_exact [OF g(1) this g(2-5)]]
  show "v = percentage_reference b (unat op - unat bp) n r" "v \<le> i64_max"
    by (simp_all add: Let_def split: if_splits)
qed

subsection \<open>Properties\<close>

text \<open>For a non-negative balance, 1 to 10000 basis points and precisions in order, the integer
  arithmetic of the percentage policy computes the exact rational value, rounded down, half up or
  up as configured, in both of its code paths; it refuses exactly when the rounded value is not a
  signed 64-bit integer, so no intermediate product or increment ever wraps.\<close>

theorem percentage_exact:
  assumes "0 \<le> b" "b \<le> i64_max" and "0 < n" "n \<le> 10000"
    and "bp \<le> op" "op \<le> max_money_precision"
  shows "percentage_units b bp op n r =
    (let v = percentage_reference b (unat op - unat bp) n r in if v \<le> i64_max then Some v else None)"
  using assms by (rule percentage_units_exact)

theorem percentage_exact_witness:
  "percentage_units 12345 2 3 250 MR_HALF_UP = Some 3086 \<and>
   percentage_units 1000000000000000000 0 18 10000 MR_DOWN = None"
  using percentage_exact [of 12345 250 2 3 MR_HALF_UP]
    percentage_exact [of 1000000000000000000 10000 0 18 MR_DOWN]
  by (simp add: max_money_precision_def percentage_reference_def round_quotient_def)

text \<open>When the percentage policy sizes a trade, the account snapshot was supported, its balance
  positive and in the account's known currency; the stake is positive, valid, in that currency and
  the configured precision, equals the exact rounded percentage, and never exceeds the balance.\<close>

theorem percent_evaluate_safe:
  assumes "percent_evaluate p c = sd_sized a" and "bs_balance (dc_account c) = Some bal" and "money_ok bal"
  shows "bs_availability (dc_account c) = DA_SUPPORTED \<and> valid_metadata bal \<and> 0 < ma_units bal \<and>
    ma_currency bal = bs_currency (dc_account c) \<and>
    valid_metadata a \<and> money_ok a \<and> ma_currency a = ma_currency bal \<and> ma_precision a = pb_output_precision p \<and>
    0 < ma_units a \<and>
    ma_units a = percentage_reference (ma_units bal) (unat (pb_output_precision p) - unat (ma_precision bal))
      (pb_basis_points p) (pb_rounding p) \<and>
    ma_units a \<le> ma_units bal * 10 ^ (unat (ma_precision a) - unat (ma_precision bal))"
proof -
  have r: "percent_valid p" "bs_availability (dc_account c) = DA_SUPPORTED" "valid_metadata bal" "0 < ma_units bal"
    "ma_currency bal = bs_currency (dc_account c)" "ma_currency bal \<noteq> CUR_UNKNOWN"
    using assms(1,2)
    by (auto simp: percent_evaluate_def Let_def sd_sized_def sd_rejected_def sd_unavailable_def
        split: if_splits option.splits intro: data_availability.exhaust)
  obtain v where v: "percentage_units (ma_units bal) (ma_precision bal) (pb_output_precision p)
      (pb_basis_points p) (pb_rounding p) = Some v" "0 < v"
    "a = \<lparr>ma_units = v, ma_precision = pb_output_precision p, ma_currency = ma_currency bal\<rparr>"
    using assms(1,2)
    by (auto simp: percent_evaluate_def Let_def sd_sized_def sd_rejected_def sd_unavailable_def
        split: if_splits option.splits)
  note s = percentage_units_SomeD [OF v(1) assms(3) [unfolded money_ok_def]]
  have "v \<le> ma_units bal * 10 ^ (unat (pb_output_precision p) - unat (ma_precision bal))"
    using s percentage_reference_le by simp
  then show ?thesis
    using r v s by (simp add: valid_metadata_def money_ok_def i64_def percent_valid_def)
qed

theorem percent_evaluate_safe_witness:
  "percent_evaluate (from_basis_points 250 2 MR_DOWN) (decision_context_default
       \<lparr>dc_account := \<lparr>bs_availability = DA_SUPPORTED, bs_currency = CUR_USD,
          bs_balance = Some \<lparr>ma_units = 100000, ma_precision = 2, ma_currency = CUR_USD\<rparr>,
          bs_captured_at_ms = 0, bs_revision = 1\<rparr>\<rparr>) =
     sd_sized \<lparr>ma_units = 2500, ma_precision = 2, ma_currency = CUR_USD\<rparr> \<and>
   (2500 :: int) \<le> 100000 * 10 ^ (2 - 2)"
proof -
  let ?b = "\<lparr>ma_units = 100000, ma_precision = 2, ma_currency = CUR_USD\<rparr>"
  let ?c = "decision_context_default \<lparr>dc_account := \<lparr>bs_availability = DA_SUPPORTED, bs_currency = CUR_USD,
    bs_balance = Some ?b, bs_captured_at_ms = 0, bs_revision = 1\<rparr>\<rparr>"
  have u: "percentage_units 100000 2 2 250 MR_DOWN = Some 2500"
    by (subst percentage_units_exact)
       (simp_all add: max_money_precision_def percentage_reference_def round_quotient_def)
  have e: "percent_evaluate (from_basis_points 250 2 MR_DOWN) ?c =
     sd_sized \<lparr>ma_units = 2500, ma_precision = 2, ma_currency = CUR_USD\<rparr>"
    by (simp add: percent_evaluate_def from_basis_points_def percent_valid_def max_money_precision_def
        valid_metadata_def u)
  with percent_evaluate_safe [OF e, of ?b] show ?thesis by (simp add: money_ok_def i64_def)
qed

end
