(* ===== verification/Filters.thy ===== *)
theory Filters
  imports Sizing
begin

section \<open>Signal filters\<close>

text \<open>
  \<open>trading_system/Filters.hpp\<close>: the time window, the symbol, source and trading-window
  filters. A filter is the record of its configuration as its constructor leaves it; \<open>evaluate\<close>
  is a function of the record and the context. The symbol normalizer is a function object of the
  caller, so it is a field; the calendar of \<open>time_shield\<close> is the record argument of
  theory \<open>TimeZone\<close>.
\<close>

subsection \<open>TradingTimeWindow\<close>

record time_window =
  tw_start_second :: u32
  tw_end_second :: u32

definition window_valid :: "time_window \<Rightarrow> bool" where
  "window_valid w \<longleftrightarrow>
     tw_start_second w < 86400 \<and> tw_end_second w \<le> 86400 \<and> tw_start_second w \<noteq> tw_end_second w"

definition window_contains :: "time_window \<Rightarrow> u32 \<Rightarrow> bool" where
  "window_contains w second_of_day =
     (if \<not> window_valid w \<or> 86400 \<le> second_of_day then False
      else if tw_start_second w < tw_end_second w
           then tw_start_second w \<le> second_of_day \<and> second_of_day < tw_end_second w
      else tw_start_second w \<le> second_of_day \<or> second_of_day < tw_end_second w)"

subsection \<open>SymbolFilter\<close>

definition normalize_symbol :: "string \<Rightarrow> string" where
  "normalize_symbol symbol = map c_toupper (filter (\<lambda>ch. \<not> (ch = CHR ''/'' \<or> c_isspace ch)) symbol)"

record symbol_filter =
  sf_allowed :: "string list"
  sf_denied :: "string list"
  sf_known :: "string list"
  sf_normalizer :: "string \<Rightarrow> string"

definition make_symbol_filter ::
  "string list \<Rightarrow> string list \<Rightarrow> string list \<Rightarrow> (string \<Rightarrow> string) option \<Rightarrow> symbol_filter" where
  "make_symbol_filter allowed_symbols denied_symbols known_symbols normalizer =
     (let norm = (case normalizer of Some f \<Rightarrow> f | None \<Rightarrow> normalize_symbol)
      in \<lparr>sf_allowed = map norm allowed_symbols, sf_denied = map norm denied_symbols,
          sf_known = map norm known_symbols, sf_normalizer = norm\<rparr>)"

definition symbol_evaluate :: "symbol_filter \<Rightarrow> decision_context \<Rightarrow> policy_decision" where
  "symbol_evaluate f context =
     (if dc_symbol context = [] then pd_unavailable PR_MISSING_SYMBOL
      else
        let normalized = sf_normalizer f (dc_symbol context)
        in if normalized = [] then pd_unavailable PR_MISSING_SYMBOL
        else if sf_known f \<noteq> [] \<and> normalized \<notin> set (sf_known f) then pd_unavailable PR_UNKNOWN_SYMBOL
        else if sf_allowed f \<noteq> [] \<and> normalized \<notin> set (sf_allowed f) then pd_reject PR_SYMBOL_NOT_ALLOWED
        else if normalized \<in> set (sf_denied f) then pd_reject PR_SYMBOL_DENIED
        else pd_allow PR_MATCHED)"

subsection \<open>SourceFilter\<close>

record source_filter =
  sof_allowed_bridge_ids :: "u32 list"
  sof_denied_bridge_ids :: "u32 list"
  sof_allowed_signal_names :: "string list"
  sof_denied_signal_names :: "string list"

definition source_evaluate :: "source_filter \<Rightarrow> decision_context \<Rightarrow> policy_decision" where
  "source_evaluate f context =
     (if sof_allowed_bridge_ids f \<noteq> [] \<and> dc_bridge_id context = 0
      then pd_unavailable PR_MISSING_SOURCE_ID
      else if sof_allowed_signal_names f \<noteq> [] \<and> dc_signal_name context = []
      then pd_unavailable PR_MISSING_SIGNAL_NAME
      else if dc_bridge_id context \<in> set (sof_denied_bridge_ids f) then pd_reject PR_SOURCE_DENIED
      else if sof_allowed_bridge_ids f \<noteq> [] \<and> dc_bridge_id context \<notin> set (sof_allowed_bridge_ids f)
      then pd_reject PR_SOURCE_NOT_ALLOWED
      else if dc_signal_name context \<in> set (sof_denied_signal_names f) then pd_reject PR_SIGNAL_NAME_DENIED
      else if sof_allowed_signal_names f \<noteq> [] \<and> dc_signal_name context \<notin> set (sof_allowed_signal_names f)
      then pd_reject PR_SIGNAL_NAME_NOT_ALLOWED
      else pd_allow PR_MATCHED)"

subsection \<open>TradingWindowFilter\<close>

text \<open>The days of the week of \<open>time_shield\<close> run from \<open>SUN\<close>, 0, to \<open>SAT\<close>, 6.\<close>

abbreviation ts_SUN :: int where "ts_SUN \<equiv> 0"
abbreviation ts_SAT :: int where "ts_SAT \<equiv> 6"

record window_filter =
  wf_allowed_windows :: "time_window list"
  wf_denied_windows :: "time_window list"
  wf_allowed_weekdays :: "int list"
  wf_valid :: bool

definition make_window_filter ::
  "time_window list \<Rightarrow> time_window list \<Rightarrow> int list \<Rightarrow> window_filter" where
  "make_window_filter allowed_windows denied_windows allowed_weekdays =
     \<lparr>wf_allowed_windows = allowed_windows, wf_denied_windows = denied_windows,
      wf_allowed_weekdays = allowed_weekdays,
      wf_valid = (list_all window_valid allowed_windows \<and> list_all window_valid denied_windows \<and>
        list_all (\<lambda>weekday. \<not> (weekday < ts_SUN \<or> ts_SAT < weekday)) allowed_weekdays)\<rparr>"

definition windows_contain :: "time_window list \<Rightarrow> u32 \<Rightarrow> bool" where
  "windows_contain windows second_of_day \<longleftrightarrow> list_ex (\<lambda>w. window_contains w second_of_day) windows"

definition previous_weekday :: "int \<Rightarrow> int" where
  "previous_weekday weekday = (if weekday = ts_SUN then ts_SAT else weekday - 1)"

text \<open>The loop over the allowed windows: \<open>None\<close> is the early \<open>return allow()\<close>, \<open>Some\<close> the
  final value of \<open>matches_time\<close>.\<close>

fun window_loop :: "int list \<Rightarrow> u32 \<Rightarrow> int \<Rightarrow> bool \<Rightarrow> time_window list \<Rightarrow> bool option" where
  "window_loop weekdays second_of_day weekday matches_time [] = Some matches_time"
| "window_loop weekdays second_of_day weekday matches_time (w # ws) =
     (if \<not> window_contains w second_of_day then window_loop weekdays second_of_day weekday matches_time ws
      else
        let window_weekday =
              (if tw_end_second w < tw_start_second w \<and> second_of_day < tw_end_second w
               then previous_weekday weekday else weekday)
        in if weekdays = [] \<or> window_weekday \<in> set weekdays then None
           else window_loop weekdays second_of_day weekday True ws)"

definition window_evaluate :: "time_shield \<Rightarrow> window_filter \<Rightarrow> decision_context \<Rightarrow> policy_decision" where
  "window_evaluate L f context =
     (if \<not> wf_valid f then pd_unavailable PR_INVALID_CONFIGURATION
      else case dc_evaluation_time_ms context of
        None \<Rightarrow> pd_unavailable PR_MISSING_EVALUATION_TIME
      | Some evaluation_time_ms \<Rightarrow>
          (case try_to_local_ms L (dc_time_zone context) evaluation_time_ms of
             None \<Rightarrow> pd_unavailable PR_INVALID_CONFIGURATION
           | Some local_ms \<Rightarrow>
               let local_sec = ts_ms_to_sec L local_ms;
                   second_of_day = word_of_int (ts_sec_of_day L local_sec);
                   weekday = ts_weekday_of_ts L local_sec
               in if windows_contain (wf_denied_windows f) second_of_day then pd_reject PR_TIME_DENIED
                  else if wf_allowed_windows f = [] then
                    (if wf_allowed_weekdays f \<noteq> [] \<and> weekday \<notin> set (wf_allowed_weekdays f)
                     then pd_reject PR_WEEKDAY_NOT_ALLOWED else pd_allow PR_MATCHED)
                  else
                    (case window_loop (wf_allowed_weekdays f) second_of_day weekday False (wf_allowed_windows f) of
                       None \<Rightarrow> pd_allow PR_MATCHED
                     | Some matches_time \<Rightarrow>
                         pd_reject (if matches_time then PR_WEEKDAY_NOT_ALLOWED else PR_TIME_NOT_ALLOWED))))"

subsection \<open>What the filters decide\<close>

lemma pd_simps [model_simps]:
  "pd_is_allowed (pd_allow r)" "\<not> pd_is_allowed (pd_reject r)" "\<not> pd_is_allowed (pd_unavailable r)"
  by (simp_all add: pd_is_allowed_def pd_allow_def pd_reject_def pd_unavailable_def)

lemma normalize_symbol_idem [simp]: "normalize_symbol (normalize_symbol s) = normalize_symbol s"
proof -
  have "c_toupper ch \<noteq> CHR ''/''" if "ch \<noteq> CHR ''/''" for ch
  proof
    assume a: "c_toupper ch = CHR ''/''"
    then have "(of_char (c_toupper ch) :: nat) = 47" by simp
    then have "\<not> (97 \<le> (of_char ch :: nat) \<and> (of_char ch :: nat) \<le> 122)"
      by (auto simp: c_toupper_def)
    with a that show False by (simp add: c_toupper_def)
  qed
  then have "filter (\<lambda>ch. \<not> (ch = CHR ''/'' \<or> c_isspace ch)) (normalize_symbol s) = normalize_symbol s"
    unfolding normalize_symbol_def filter_id_conv by auto
  moreover have "map c_toupper (normalize_symbol s) = normalize_symbol s"
    by (simp add: normalize_symbol_def)
  ultimately show ?thesis by (simp add: normalize_symbol_def)
qed

text \<open>A window is a cyclic interval of the day: it holds the seconds that come before its end,
  counting forward from its start.\<close>

lemma window_contains_cyclic:
  assumes "window_valid w" and "s < 86400"
  shows "window_contains w s \<longleftrightarrow>
    (int (unat s) - int (unat (tw_start_second w))) mod 86400 <
    (if tw_end_second w = 86400 \<and> tw_start_second w = 0 then 86400
     else (int (unat (tw_end_second w)) - int (unat (tw_start_second w))) mod 86400)"
proof -
  define a b c where "a = unat (tw_start_second w)" and "b = unat (tw_end_second w)" and "c = unat s"
  have r: "a < 86400" "b \<le> 86400" "a \<noteq> b" "c < 86400"
    using assms by (auto simp: window_valid_def a_def b_def c_def word_less_nat_alt word_le_nat_alt word_unat_eq_iff)
  have z: "tw_end_second w = 86400 \<longleftrightarrow> b = 86400" "tw_start_second w = 0 \<longleftrightarrow> a = 0"
    by (simp_all add: a_def b_def word_unat_eq_iff)
  have e: "window_contains w s \<longleftrightarrow> (if a < b then a \<le> c \<and> c < b else a \<le> c \<or> c < b)"
    using assms by (simp add: window_contains_def not_le a_def b_def c_def word_less_nat_alt word_le_nat_alt)
  have m: "(int c - int a) mod 86400 = (if a \<le> c then int c - int a else int c - int a + 86400)"
  proof (cases "a \<le> c")
    case False
    have "(int c - int a) mod 86400 = (int c - int a + 86400) mod 86400" by simp
    also have "\<dots> = int c - int a + 86400" using False r by (intro mod_pos_pos_trivial) simp_all
    finally show ?thesis using False by simp
  qed (use r in simp)
  have n: "(int b - int a) mod 86400 = (if b = 86400 \<and> a = 0 then 0 else if a \<le> b then int b - int a else int b - int a + 86400)"
  proof (cases "a \<le> b")
    case False
    have "(int b - int a) mod 86400 = (int b - int a + 86400) mod 86400" by simp
    also have "\<dots> = int b - int a + 86400" using False r by (intro mod_pos_pos_trivial) simp_all
    finally show ?thesis using False by simp
  qed (use r in auto)
  show ?thesis using r by (simp only: e z m n flip: a_def b_def c_def) auto
qed

lemma window_loop_None:
  "window_loop days s day m ws = None \<longleftrightarrow>
   (\<exists>w\<in>set ws. window_contains w s \<and> (days = [] \<or>
      (if tw_end_second w < tw_start_second w \<and> s < tw_end_second w then previous_weekday day else day) \<in> set days))"
  by (induction ws arbitrary: m) (auto simp: Let_def)

lemma window_loop_Some:
  "window_loop days s day m ws = Some r \<Longrightarrow> r \<longleftrightarrow> m \<or> windows_contain ws s"
  by (induction ws arbitrary: m) (auto simp: Let_def windows_contain_def split: if_splits)

text \<open>Inside a window that crosses midnight, the seconds before its end are those before its start.\<close>

lemma window_tail:
  "window_contains w s \<Longrightarrow> tw_end_second w < tw_start_second w \<and> s < tw_end_second w \<longleftrightarrow> s < tw_start_second w"
  by (auto simp: window_contains_def window_valid_def not_less dest: order_le_neq_trans split: if_splits)

subsection \<open>Properties\<close>

text \<open>With a valid configuration, an evaluation time and a resolvable time zone, the trading-window
  filter allows a trade exactly when no denied window holds the local second of the day and either
  there is no allowed window and the weekday is allowed, or some allowed window holds the second
  and the day on which that window started is an allowed weekday (no weekday listed allows all).\<close>

theorem window_filter_spec:
  assumes "wf_valid f" and "dc_evaluation_time_ms c = Some t"
    and "try_to_local_ms L (dc_time_zone c) t = Some local_ms"
  shows "pd_is_allowed (window_evaluate L f c) \<longleftrightarrow>
    (let s = word_of_int (ts_sec_of_day L (ts_ms_to_sec L local_ms));
         day = ts_weekday_of_ts L (ts_ms_to_sec L local_ms);
         day_ok = (\<lambda>d. wf_allowed_weekdays f = [] \<or> d \<in> set (wf_allowed_weekdays f))
     in (\<forall>w\<in>set (wf_denied_windows f). \<not> window_contains w s) \<and>
        (if wf_allowed_windows f = [] then day_ok day
         else \<exists>w\<in>set (wf_allowed_windows f). window_contains w s \<and>
                day_ok (if s < tw_start_second w then previous_weekday day else day)))"
proof -
  define s :: u32 where "s = word_of_int (ts_sec_of_day L (ts_ms_to_sec L local_ms))"
  define day where "day = ts_weekday_of_ts L (ts_ms_to_sec L local_ms)"
  have den: "windows_contain (wf_denied_windows f) s \<longleftrightarrow> (\<exists>w\<in>set (wf_denied_windows f). window_contains w s)"
    by (simp add: windows_contain_def list_ex_iff)
  have loop: "window_loop (wf_allowed_weekdays f) s day False (wf_allowed_windows f) = None \<longleftrightarrow>
    (\<exists>w\<in>set (wf_allowed_windows f). window_contains w s \<and> (wf_allowed_weekdays f = [] \<or>
      (if s < tw_start_second w then previous_weekday day else day) \<in> set (wf_allowed_weekdays f)))"
    by (simp only: window_loop_None) (meson window_tail)
  show ?thesis
    using assms
    by (simp add: window_evaluate_def Let_def den loop [symmetric] model_simps split: option.split
        flip: s_def day_def)
qed

theorem window_filter_spec_witness:
  "\<not> pd_is_allowed (window_evaluate sample_time_shield
     (make_window_filter [\<lparr>tw_start_second = 79200, tw_end_second = 7200\<rparr>] [] [5])
     (decision_context_default\<lparr>dc_evaluation_time_ms := Some 90000000\<rparr>))"
proof -
  let ?c = "decision_context_default\<lparr>dc_evaluation_time_ms := Some 90000000\<rparr>"
  let ?f = "make_window_filter [\<lparr>tw_start_second = 79200, tw_end_second = 7200\<rparr>] [] [5]"
  have "try_to_local_ms sample_time_shield (dc_time_zone ?c) 90000000 = Some 90000000"
    using fixed_to_local [OF sample_time_shield_units, of 0 90000000]
    by (simp add: decision_context_default_def tz_utc_def i64_def)
  from window_filter_spec [OF _ _ this, of ?f] show ?thesis
    by (simp add: make_window_filter_def window_valid_def sample_time_shield_def window_contains_def previous_weekday_def)
qed

text \<open>With the default normalizer the symbol filter decides by the normalized symbol alone, on
  both sides: two non-empty spellings that differ in letter case, spaces or slashes get the same
  decision, however the configured lists spell their symbols.\<close>

theorem symbol_filter_normalizes:
  assumes "normalize_symbol (dc_symbol c) = normalize_symbol (dc_symbol c')"
    and "dc_symbol c \<noteq> []" and "dc_symbol c' \<noteq> []"
    and "map normalize_symbol a = map normalize_symbol a'" and "map normalize_symbol d = map normalize_symbol d'"
    and "map normalize_symbol k = map normalize_symbol k'"
  shows "symbol_evaluate (make_symbol_filter a d k None) c = symbol_evaluate (make_symbol_filter a' d' k' None) c'"
  using assms by (auto simp: symbol_evaluate_def make_symbol_filter_def Let_def)

theorem symbol_filter_normalizes_witness:
  "symbol_evaluate (make_symbol_filter [''EUR/USD''] [] [] None) (decision_context_default\<lparr>dc_symbol := ''eur usd''\<rparr>) =
   symbol_evaluate (make_symbol_filter [''eurusd''] [] [] None) (decision_context_default\<lparr>dc_symbol := ''EURUSD''\<rparr>)"
  by (rule symbol_filter_normalizes)
     code_simp+

end
