(* ===== verification/Settlement.thy ===== *)
theory Settlement
  imports Identity
begin

section \<open>Settlements\<close>

text \<open>
  \<open>trading_system/Settlement.hpp\<close>: the outcome of one physical execution, the result codes of
  the progression API and the value snapshot of a group. \<open>operator==\<close> compares every field, so
  it is equality (\<open>settlement_equal_iff\<close>).
\<close>

datatype outcome_kind = OK_WIN | OK_LOSS | OK_DRAW | OK_REJECTED | OK_CANCELLED | OK_UNKNOWN
datatype execution_evidence = EV_NOT_SUBMITTED | EV_MAY_HAVE_EXECUTED | EV_EXECUTED
datatype series_status = SST_ACTIVE | SST_WAITING_OUTCOME | SST_UNRESOLVED | SST_COMPLETED | SST_BLOCKED_ERROR
datatype aggregation_status = AS_PENDING | AS_READY | AS_NUMERIC_OVERFLOW

datatype progression_result =
    PRG_APPLIED | PRG_DUPLICATE | PRG_SETTLEMENT_CONFLICT | PRG_REVISION_CONFLICT | PRG_REVISION_OVERFLOW
  | PRG_INVALID_STATE | PRG_INVALID_IDENTITY | PRG_INVALID_CONFIGURATION | PRG_UNSUPPORTED_CARDINALITY
  | PRG_INTENT_ALREADY_USED | PRG_WRONG_OPERATION | PRG_UNKNOWN_MEMBER | PRG_MEMBER_ALREADY_TERMINAL
  | PRG_INVALID_OUTCOME | PRG_CURRENCY_MISMATCH | PRG_PRECISION_MISMATCH | PRG_NUMERIC_OVERFLOW
  | PRG_STEP_LIMIT_REACHED | PRG_IDEMPOTENCY_KEY_ALREADY_USED

record trade_settlement =
  st_settlement_id :: u64
  st_intent_id :: u64
  st_execution_group_id :: u64
  st_trade_id :: u64
  st_kind :: outcome_kind
  st_evidence :: execution_evidence
  st_net_profit :: "money_amount option"

definition is_trading_result :: "trade_settlement \<Rightarrow> bool" where
  "is_trading_result s \<longleftrightarrow> st_kind s = OK_WIN \<or> st_kind s = OK_LOSS \<or> st_kind s = OK_DRAW"

definition settlement_terminal :: "trade_settlement \<Rightarrow> bool" where
  "settlement_terminal s \<longleftrightarrow> st_kind s \<noteq> OK_UNKNOWN"

definition settlement_valid :: "trade_settlement \<Rightarrow> bool" where
  "settlement_valid s =
     (if st_settlement_id s = 0 \<or> st_intent_id s = 0 \<or> st_trade_id s = 0 then False
      else if is_trading_result s then
        (case st_net_profit s of
           None \<Rightarrow> False
         | Some net \<Rightarrow>
             if st_evidence s \<noteq> EV_EXECUTED \<or> \<not> valid_metadata net then False
             else st_kind s = OK_WIN \<and> 0 < ma_units net \<or>
                  st_kind s = OK_LOSS \<and> ma_units net < 0 \<or>
                  st_kind s = OK_DRAW \<and> ma_units net = 0)
      else if st_net_profit s \<noteq> None then False
      else if st_kind s = OK_UNKNOWN then st_evidence s = EV_MAY_HAVE_EXECUTED
      else (st_kind s = OK_REJECTED \<or> st_kind s = OK_CANCELLED) \<and> st_evidence s = EV_NOT_SUBMITTED)"

definition settlement_equal :: "trade_settlement \<Rightarrow> trade_settlement \<Rightarrow> bool" where
  "settlement_equal lhs rhs =
     (if st_settlement_id lhs \<noteq> st_settlement_id rhs \<or> st_intent_id lhs \<noteq> st_intent_id rhs \<or>
         st_execution_group_id lhs \<noteq> st_execution_group_id rhs \<or> st_trade_id lhs \<noteq> st_trade_id rhs \<or>
         st_kind lhs \<noteq> st_kind rhs \<or> st_evidence lhs \<noteq> st_evidence rhs \<or>
         (st_net_profit lhs \<noteq> None) \<noteq> (st_net_profit rhs \<noteq> None)
      then False
      else case (st_net_profit lhs, st_net_profit rhs) of
             (Some l, Some r) \<Rightarrow>
               ma_units l = ma_units r \<and> ma_precision l = ma_precision r \<and> ma_currency l = ma_currency r
           | _ \<Rightarrow> True)"

record group_outcome =
  go_final :: bool
  go_unresolved :: bool
  go_all_members_terminal :: bool
  go_completed_members :: u32
  go_aggregation_status :: aggregation_status
  go_kind :: "outcome_kind option"
  go_net_profit :: "money_amount option"

definition group_outcome_default :: group_outcome where
  "group_outcome_default =
     \<lparr>go_final = False, go_unresolved = False, go_all_members_terminal = False, go_completed_members = 0,
      go_aggregation_status = AS_PENDING, go_kind = None, go_net_profit = None\<rparr>"

subsection \<open>Lemmas\<close>

lemma settlement_equal_iff [simp]: "settlement_equal a b \<longleftrightarrow> a = b"
  by (cases a; cases b) (auto simp: settlement_equal_def split: option.splits intro: money_amount.equality)

text \<open>In a valid settlement the money, the evidence and the kind agree.\<close>

lemma settlement_valid_net:
  "settlement_valid s \<Longrightarrow> st_net_profit s \<noteq> None \<longleftrightarrow> is_trading_result s"
  by (auto simp: settlement_valid_def split: if_splits option.splits)

lemma settlement_valid_kind:
  assumes "settlement_valid s" and "st_net_profit s = Some net"
  shows "st_kind s = (if 0 < ma_units net then OK_WIN else if ma_units net < 0 then OK_LOSS else OK_DRAW)"
    and "st_evidence s = EV_EXECUTED" and "settlement_terminal s" and "valid_metadata net"
  using assms
  by (auto simp: settlement_valid_def is_trading_result_def settlement_terminal_def split: if_splits)

end
