(* ===== verification/Aggregator.thy ===== *)
theory Aggregator
  imports Settlement
begin

section \<open>Aggregating an execution group\<close>

text \<open>
  \<open>trading_system/ExecutionGroupAggregator.hpp\<close>: the two-limb magnitudes and the net
  accumulator, the roster, \<open>apply\<close> and \<open>aggregate\<close>. The lemmas show that the accumulator is an
  exact integer sum, that the outcome held by an aggregator is always the specification
  \<open>group_spec\<close> of its members, and that \<open>apply\<close> is an idempotent receiver.
\<close>

subsection \<open>Magnitude\<close>

datatype magnitude = Magnitude (mg_low: u64) (mg_high: u64)

definition magnitude_add :: "magnitude \<Rightarrow> u64 \<Rightarrow> magnitude" where
  "magnitude_add m units =
     (let low = mg_low m + units
      in Magnitude low (if low < mg_low m then mg_high m + 1 else mg_high m))"

definition magnitude_less_than :: "magnitude \<Rightarrow> magnitude \<Rightarrow> bool" where
  "magnitude_less_than m other \<longleftrightarrow>
     mg_high m < mg_high other \<or> mg_high m = mg_high other \<and> mg_low m < mg_low other"

definition magnitude_subtract :: "magnitude \<Rightarrow> magnitude \<Rightarrow> magnitude" where
  "magnitude_subtract m other =
     Magnitude (mg_low m - mg_low other)
       (mg_high m - mg_high other - (if mg_low m < mg_low other then 1 else 0))"

definition mag_val :: "magnitude \<Rightarrow> nat" where
  "mag_val m = unat (mg_high m) * 18446744073709551616 + unat (mg_low m)"

instantiation magnitude :: linorder
begin

definition less_magnitude :: "magnitude \<Rightarrow> magnitude \<Rightarrow> bool" where
  "m < n \<longleftrightarrow> magnitude_less_than m n"

definition less_eq_magnitude :: "magnitude \<Rightarrow> magnitude \<Rightarrow> bool" where
  "m \<le> n \<longleftrightarrow> m = n \<or> magnitude_less_than m n"

instance
  by standard
     (auto simp: less_magnitude_def less_eq_magnitude_def magnitude_less_than_def intro: magnitude.expand)

end

lemma mag_less: "magnitude_less_than m n \<longleftrightarrow> mag_val m < mag_val n"
  using unat_u64_less [of "mg_low m"] unat_u64_less [of "mg_low n"]
  by (simp add: magnitude_less_than_def mag_val_def word_less_nat_alt word_unat_eq_iff) linarith

lemma mag_add:
  assumes "mag_val m + unat u < 340282366920938463463374607431768211456"
  shows "mag_val (magnitude_add m u) = mag_val m + unat u"
proof -
  let ?l = "mg_low m" and ?h = "mg_high m"
  note b = unat_u64_less [of ?l] unat_u64_less [of u] unat_u64_less [of ?h]
  show ?thesis
  proof (cases "unat ?l + unat u < 18446744073709551616")
    case True
    then have "unat (?l + u) = unat ?l + unat u" by (rule unat_add_fits)
    then show ?thesis by (simp add: magnitude_add_def mag_val_def word_less_nat_alt)
  next
    case False
    then have s: "unat (?l + u) = unat ?l + unat u - 18446744073709551616"
      using b by (simp add: unat_word_ariths mod_if)
    with False b have less: "?l + u < ?l" by (simp add: word_less_nat_alt)
    have "unat ?h + 1 < 18446744073709551616" using assms False by (simp add: mag_val_def)
    then have "unat (?h + 1) = unat ?h + 1" by (subst unat_add_fits) simp_all
    with less s False show ?thesis by (simp add: magnitude_add_def mag_val_def)
  qed
qed

lemma mag_subtract:
  assumes "mag_val n \<le> mag_val m"
  shows "mag_val (magnitude_subtract m n) = mag_val m - mag_val n"
proof -
  let ?l = "mg_low m" and ?k = "mg_low n" and ?h = "mg_high m" and ?g = "mg_high n"
  note b = unat_u64_less [of ?l] unat_u64_less [of ?k] unat_u64_less [of ?h] unat_u64_less [of ?g]
  show ?thesis
  proof (cases "?l < ?k")
    case True
    then have lt: "unat ?l < unat ?k" by (simp add: word_less_nat_alt)
    have hg: "unat ?g < unat ?h" using assms lt b by (simp add: mag_val_def)
    have l: "unat (?l - ?k) = unat ?l + 18446744073709551616 - unat ?k"
      using lt b by (simp add: unat_sub_if_size word_size)
    have "unat (?h - ?g) = unat ?h - unat ?g" using hg by (intro unat_sub) (simp add: word_le_nat_alt)
    moreover from this have "unat (?h - ?g - 1) = unat (?h - ?g) - 1"
      using hg by (subst unat_sub) (simp_all add: word_le_nat_alt)
    ultimately have "unat (?h - ?g - 1) = unat ?h - unat ?g - 1" by simp
    with True l lt hg b show ?thesis by (simp add: magnitude_subtract_def mag_val_def)
  next
    case False
    then have le: "unat ?k \<le> unat ?l" by (simp add: word_less_nat_alt)
    have hg: "unat ?g \<le> unat ?h" using assms b by (simp add: mag_val_def)
    have "unat (?l - ?k) = unat ?l - unat ?k" "unat (?h - ?g) = unat ?h - unat ?g"
      using le hg by (simp_all add: unat_sub word_le_nat_alt)
    with False le hg show ?thesis by (simp add: magnitude_subtract_def mag_val_def diff_mult_distrib)
  qed
qed

subsection \<open>NetAccumulator\<close>

record net_accumulator =
  na_positive :: magnitude
  na_negative :: magnitude

definition net_accumulator_default :: net_accumulator where
  "net_accumulator_default = \<lparr>na_positive = Magnitude 0 0, na_negative = Magnitude 0 0\<rparr>"

definition accumulator_add :: "int \<Rightarrow> net_accumulator \<Rightarrow> net_accumulator" where
  "accumulator_add units a =
     (if units < 0
      then a\<lparr>na_negative := magnitude_add (na_negative a) (u64_of_i64 (- (units + 1)) + 1)\<rparr>
      else a\<lparr>na_positive := magnitude_add (na_positive a) (u64_of_i64 units)\<rparr>)"

definition accumulator_to_units :: "net_accumulator \<Rightarrow> int option" where
  "accumulator_to_units a =
     (let negative = magnitude_less_than (na_positive a) (na_negative a);
          magnitude = (if negative then magnitude_subtract (na_negative a) (na_positive a)
                       else magnitude_subtract (na_positive a) (na_negative a));
          maximum = u64_of_i64 i64_max
      in if mg_high magnitude \<noteq> 0 \<or> maximum + (if negative then 1 else 0) < mg_low magnitude then None
         else if negative \<and> mg_low magnitude = maximum + 1 then Some i64_min
         else let value = i64_of_u64 (mg_low magnitude) in Some (if negative then - value else value))"

text \<open>The value of an accumulator; \<open>net_fits n\<close> bounds both limbs by \<open>n\<close> additions.\<close>

definition net_val :: "net_accumulator \<Rightarrow> int" where
  "net_val a = int (mag_val (na_positive a)) - int (mag_val (na_negative a))"

definition net_fits :: "nat \<Rightarrow> net_accumulator \<Rightarrow> bool" where
  "net_fits n a \<longleftrightarrow> mag_val (na_positive a) \<le> n * 9223372036854775808 \<and>
     mag_val (na_negative a) \<le> n * 9223372036854775808"

lemma net_default [simp]: "net_val net_accumulator_default = 0" "net_fits 0 net_accumulator_default"
  by (simp_all add: net_val_def net_fits_def net_accumulator_default_def mag_val_def)

lemma accumulator_add_exact:
  assumes "i64 u" and "net_fits n a" and "n < 4294967296"
  shows "net_val (accumulator_add u a) = net_val a + u" and "net_fits (Suc n) (accumulator_add u a)"
proof -
  have w: "unat (if u < 0 then u64_of_i64 (- (u + 1)) + 1 else u64_of_i64 u) = nat \<bar>u\<bar>"
    using unat_magnitude_of [OF assms(1)] by (simp add: magnitude_of_def)
  have u: "nat \<bar>u\<bar> \<le> 9223372036854775808" using assms(1) by (auto simp: i64_def nat_le_iff abs_le_iff)
  have n: "n * 9223372036854775808 \<le> 4294967296 * 9223372036854775808" using assms(3) by (intro mult_le_mono1) simp
  have s: "mag_val (magnitude_add m v) = mag_val m + nat \<bar>u\<bar>"
    if "mag_val m \<le> n * 9223372036854775808" "unat v = nat \<bar>u\<bar>" for m v
    using that u n by (subst mag_add) simp_all
  show "net_val (accumulator_add u a) = net_val a + u" "net_fits (Suc n) (accumulator_add u a)"
    using assms(2) u w s by (auto simp: net_val_def net_fits_def accumulator_add_def)
qed

lemma accumulator_to_units_exact: "accumulator_to_units a = (if i64 (net_val a) then Some (net_val a) else None)"
proof -
  define neg where "neg \<longleftrightarrow> magnitude_less_than (na_positive a) (na_negative a)"
  define m where "m = (if neg then magnitude_subtract (na_negative a) (na_positive a)
    else magnitude_subtract (na_positive a) (na_negative a))"
  define N where "N = nat \<bar>net_val a\<bar>"
  have neg: "neg \<longleftrightarrow> net_val a < 0" by (simp add: neg_def mag_less net_val_def)
  have mv: "mag_val m = N"
    using neg by (simp add: m_def N_def net_val_def mag_subtract nat_minus_as_int split: if_splits)
  have v: "net_val a = (if neg then - int N else int N)" using neg by (simp add: N_def)
  let ?M = "u64_of_i64 i64_max"
  have M: "unat ?M = 9223372036854775807" by simp
  have M1: "unat (?M + 1) = 9223372036854775808" by (subst unat_add_fits) simp_all
  have lim: "unat (?M + (if neg then 1 else 0)) = (if neg then 9223372036854775808 else 9223372036854775807)"
    using M M1 by simp
  have hi: "mg_high m \<noteq> 0 \<or> unat (mg_low m) = N"
    using mv by (auto simp: mag_val_def)
  have big: "mg_high m \<noteq> 0 \<Longrightarrow> 18446744073709551616 \<le> N"
    using mv by (auto simp: mag_val_def unat_eq_0 [symmetric])
  have refuse: "mg_high m \<noteq> 0 \<or> ?M + (if neg then 1 else 0) < mg_low m \<longleftrightarrow> \<not> i64 (net_val a)"
    using hi big by (auto simp: word_less_nat_alt lim v i64_def split: if_splits)
  have last: "mg_low m = ?M + 1 \<longleftrightarrow> unat (mg_low m) = 9223372036854775808"
    by (simp only: word_unat_eq_iff M1)
  have val: "i64_of_u64 (mg_low m) = int N" if "i64 (net_val a)" "\<not> (neg \<and> mg_low m = ?M + 1)"
  proof -
    have "unat (mg_low m) = N" using that(1) refuse hi by blast
    moreover have "N \<le> 9223372036854775807"
      using that v last calculation by (auto simp: i64_def split: if_splits)
    ultimately show ?thesis by (simp add: i64_of_u64_unat)
  qed
  show ?thesis
  proof (cases "i64 (net_val a)")
    case True
    then have "unat (mg_low m) = N" using refuse hi by blast
    then have "neg \<and> mg_low m = ?M + 1 \<Longrightarrow> net_val a = i64_min" using last v by simp
    with True val v refuse show ?thesis
      by (simp only: accumulator_to_units_def Let_def flip: neg_def, simp only: flip: m_def) auto
  next
    case False
    with refuse show ?thesis
      by (simp only: accumulator_to_units_def Let_def flip: neg_def, simp only: flip: m_def) simp
  qed
qed

subsection \<open>The aggregator\<close>

record aggregator =
  ag_intent_id :: u64
  ag_group :: group_identity
  ag_zero :: money_amount
  ag_valid :: bool
  ag_outcome :: group_outcome
  ag_members :: "(u64, trade_settlement option) std_map"
  ag_receipts :: "(u64, trade_settlement) std_map"

definition aggregator_default :: aggregator where
  "aggregator_default =
     \<lparr>ag_intent_id = 0, ag_group = group_identity_default, ag_zero = money_default, ag_valid = False,
      ag_outcome = group_outcome_default, ag_members = [], ag_receipts = []\<rparr>"

text \<open>The constructor's loop over the roster: the members inserted so far, and whether it ran to
  its end without the early \<open>return\<close>.\<close>

fun roster_loop ::
  "u64 list \<Rightarrow> (u64, trade_settlement option) std_map \<Rightarrow> (u64, trade_settlement option) std_map \<times> bool" where
  "roster_loop [] members = (members, True)"
| "roster_loop (trade_id # ids) members =
     (if trade_id = 0 then (members, False)
      else
        let (members', inserted) = map_emplace trade_id None members
        in if \<not> inserted then (members', False) else roster_loop ids members')"

definition make_aggregator ::
  "u64 \<Rightarrow> group_identity \<Rightarrow> u64 list \<Rightarrow> currency_type \<Rightarrow> u8 \<Rightarrow> aggregator" where
  "make_aggregator intent_id grp trade_ids currency precision =
     (let zero = \<lparr>ma_units = 0, ma_precision = precision, ma_currency = currency\<rparr>;
          a = aggregator_default\<lparr>ag_intent_id := intent_id, ag_group := grp, ag_zero := zero\<rparr>
      in if intent_id = 0 \<or> \<not> valid_metadata zero \<or> trade_ids = [] \<or>
            length trade_ids \<noteq> unat (gi_expected_members grp) \<or>
            (1 < length trade_ids \<and> gi_group_id grp = 0) then a
         else
           let (members, complete) = roster_loop trade_ids []
           in a\<lparr>ag_members := members, ag_valid := complete\<rparr>)"

text \<open>\<open>aggregate\<close>: the loop state is the result, the accumulator and the two flags.\<close>

fun aggregate_loop ::
  "(u64 \<times> trade_settlement option) list \<Rightarrow> group_outcome \<times> net_accumulator \<times> bool \<times> bool \<Rightarrow>
   group_outcome \<times> net_accumulator \<times> bool \<times> bool" where
  "aggregate_loop [] loop_state = loop_state"
| "aggregate_loop ((k, None) # ms) loop_state = aggregate_loop ms loop_state"
| "aggregate_loop ((k, Some event) # ms) (result, accumulator, has_execution, has_rejection) =
     (if \<not> settlement_terminal event
      then aggregate_loop ms (result\<lparr>go_unresolved := True\<rparr>, accumulator, has_execution, has_rejection)
      else
        let result = result\<lparr>go_completed_members := go_completed_members result + 1\<rparr>;
            has_rejection = (has_rejection \<or> st_kind event = OK_REJECTED)
        in case st_net_profit event of
             None \<Rightarrow> aggregate_loop ms (result, accumulator, has_execution, has_rejection)
           | Some net \<Rightarrow>
               aggregate_loop ms (result, accumulator_add (ma_units net) accumulator, True, has_rejection))"

definition compute_outcome ::
  "group_identity \<Rightarrow> money_amount \<Rightarrow> (u64, trade_settlement option) std_map \<Rightarrow> group_outcome" where
  "compute_outcome grp zero members =
     (let (result, accumulator, has_execution, has_rejection) =
            aggregate_loop members (group_outcome_default, net_accumulator_default, False, False);
          all_terminal = (go_completed_members result = gi_expected_members grp);
          result = result\<lparr>go_all_members_terminal := all_terminal\<rparr>;
          units = accumulator_to_units accumulator
      in if has_execution \<and> units = None
         then result\<lparr>go_aggregation_status := AS_NUMERIC_OVERFLOW\<rparr>
         else
           let sum = (if has_execution then zero\<lparr>ma_units := the units\<rparr> else zero);
               result = (if has_execution then result\<lparr>go_net_profit := Some sum\<rparr> else result);
               result = result\<lparr>go_final := all_terminal\<rparr>
           in if \<not> all_terminal then result
              else
                result\<lparr>go_aggregation_status := AS_READY,
                  go_kind := Some
                    (if has_execution then
                       (if 0 < ma_units sum then OK_WIN else if ma_units sum < 0 then OK_LOSS else OK_DRAW)
                     else if has_rejection then OK_REJECTED else OK_CANCELLED)\<rparr>)"

definition aggregate :: "aggregator \<Rightarrow> aggregator" where
  "aggregate a = a\<lparr>ag_outcome := compute_outcome (ag_group a) (ag_zero a) (ag_members a)\<rparr>"

definition aggregator_apply :: "aggregator \<Rightarrow> trade_settlement \<Rightarrow> progression_result \<times> aggregator" where
  "aggregator_apply a event =
     (case map_find (ag_receipts a) (st_settlement_id event) of
        Some receipt \<Rightarrow> (if settlement_equal receipt event then PRG_DUPLICATE else PRG_SETTLEMENT_CONFLICT, a)
      | None \<Rightarrow>
          if \<not> ag_valid a then (PRG_INVALID_CONFIGURATION, a)
          else if \<not> settlement_valid event then (PRG_INVALID_OUTCOME, a)
          else if st_intent_id event \<noteq> ag_intent_id a \<or>
                  st_execution_group_id event \<noteq> gi_group_id (ag_group a) then (PRG_WRONG_OPERATION, a)
          else case map_find (ag_members a) (st_trade_id event) of
            None \<Rightarrow> (PRG_UNKNOWN_MEMBER, a)
          | Some member \<Rightarrow>
              if (case member of None \<Rightarrow> False | Some m \<Rightarrow> settlement_terminal m)
              then (PRG_MEMBER_ALREADY_TERMINAL, a)
              else if (case st_net_profit event of None \<Rightarrow> False
                       | Some net \<Rightarrow> ma_currency net \<noteq> ma_currency (ag_zero a)) then (PRG_CURRENCY_MISMATCH, a)
              else if (case st_net_profit event of None \<Rightarrow> False
                       | Some net \<Rightarrow> ma_precision net \<noteq> ma_precision (ag_zero a)) then (PRG_PRECISION_MISMATCH, a)
              else
                let candidate = a\<lparr>ag_members := map_put (st_trade_id event) (Some event) (ag_members a)\<rparr>;
                    candidate = aggregate candidate;
                    candidate = candidate\<lparr>ag_receipts :=
                      fst (map_emplace (st_settlement_id event) event (ag_receipts candidate))\<rparr>
                in (PRG_APPLIED, candidate))"

subsection \<open>The specification of an outcome\<close>

definition member_events :: "(u64, trade_settlement option) std_map \<Rightarrow> trade_settlement list" where
  "member_events ms = List.map_filter snd ms"

definition terminal_events :: "(u64, trade_settlement option) std_map \<Rightarrow> trade_settlement list" where
  "terminal_events ms = filter settlement_terminal (member_events ms)"

definition executed_units :: "(u64, trade_settlement option) std_map \<Rightarrow> int list" where
  "executed_units ms = map ma_units (List.map_filter st_net_profit (terminal_events ms))"

text \<open>The net result is the integer sum of the executed members; it is published unless it is not
  a signed 64-bit value; the outcome is final when every member is terminal.\<close>

definition group_spec ::
  "group_identity \<Rightarrow> money_amount \<Rightarrow> (u64, trade_settlement option) std_map \<Rightarrow> group_outcome" where
  "group_spec grp zero ms =
     (let done = length (terminal_events ms);
          complete = (done = unat (gi_expected_members grp));
          executed = (executed_units ms \<noteq> []);
          net = sum_list (executed_units ms);
          overflow = (executed \<and> \<not> i64 net);
          final = (complete \<and> \<not> overflow)
      in \<lparr>go_final = final,
          go_unresolved = (\<exists>e\<in>set (member_events ms). \<not> settlement_terminal e),
          go_all_members_terminal = complete,
          go_completed_members = of_nat done,
          go_aggregation_status = (if overflow then AS_NUMERIC_OVERFLOW else if final then AS_READY else AS_PENDING),
          go_kind = (if \<not> final then None
            else if executed then Some (if 0 < net then OK_WIN else if net < 0 then OK_LOSS else OK_DRAW)
            else if \<exists>e\<in>set (terminal_events ms). st_kind e = OK_REJECTED then Some OK_REJECTED
            else Some OK_CANCELLED),
          go_net_profit = (if executed \<and> \<not> overflow then Some (zero\<lparr>ma_units := net\<rparr>) else None)\<rparr>)"

text \<open>\<open>settlement_ok\<close> says that the units of an event are in the range of their type.\<close>

definition settlement_ok :: "trade_settlement \<Rightarrow> bool" where
  "settlement_ok e \<longleftrightarrow> (\<forall>net. st_net_profit e = Some net \<longrightarrow> money_ok net)"

lemma member_events_simps [simp]:
  "member_events [] = []" "member_events ((k, None) # ms) = member_events ms"
  "member_events ((k, Some e) # ms) = e # member_events ms"
  by (simp_all add: member_events_def map_filter_simps)

lemma terminal_events_simps [simp]:
  "terminal_events [] = []" "terminal_events ((k, None) # ms) = terminal_events ms"
  "terminal_events ((k, Some e) # ms) = (if settlement_terminal e then [e] else []) @ terminal_events ms"
  by (simp_all add: terminal_events_def)

lemma executed_units_simps [simp]:
  "executed_units [] = []" "executed_units ((k, None) # ms) = executed_units ms"
  "executed_units ((k, Some e) # ms) =
     (if settlement_terminal e then (case st_net_profit e of None \<Rightarrow> [] | Some net \<Rightarrow> [ma_units net]) else [])
     @ executed_units ms"
  by (simp_all add: executed_units_def map_filter_simps split: option.split)

lemma length_terminal_events: "length (terminal_events ms) \<le> length ms"
proof (induction ms)
  case (Cons m ms)
  then show ?case by (cases m; cases "snd m") auto
qed simp

subsection \<open>The loop computes the specification\<close>

lemma aggregate_loop_exact:
  assumes "\<forall>e\<in>set (member_events ms). settlement_ok e" and "net_fits n acc" and "n + length ms \<le> 4294967296"
  shows "\<exists>acc'. net_val acc' = net_val acc + sum_list (executed_units ms) \<and>
    aggregate_loop ms (r, acc, x, j) =
      (r\<lparr>go_unresolved := go_unresolved r \<or> (\<exists>e\<in>set (member_events ms). \<not> settlement_terminal e),
         go_completed_members := go_completed_members r + of_nat (length (terminal_events ms))\<rparr>,
       acc', x \<or> executed_units ms \<noteq> [], j \<or> (\<exists>e\<in>set (terminal_events ms). st_kind e = OK_REJECTED))"
  using assms
proof (induction ms arbitrary: n acc r x j)
  case (Cons m ms)
  obtain k me where m: "m = (k, me)" by (cases m)
  show ?case
  proof (cases me)
    case None
    have "net_fits n acc" "n + length ms \<le> 4294967296" "\<forall>e\<in>set (member_events ms). settlement_ok e"
      using Cons.prems m None by auto
    from Cons.IH [OF this(3,1,2)] show ?thesis using m None by simp
  next
    case (Some e)
    have p: "n + length ms \<le> 4294967296" "Suc n + length ms \<le> 4294967296" "n < 4294967296"
      "\<forall>e\<in>set (member_events ms). settlement_ok e" "settlement_ok e" "net_fits n acc"
      using Cons.prems m Some by auto
    note IH0 = Cons.IH [OF p(4,6,1)]
    show ?thesis
    proof (cases "settlement_terminal e")
      case False
      with IH0 [of "r\<lparr>go_unresolved := True\<rparr>" x j] m Some show ?thesis by simp
    next
      case True
      let ?r = "r\<lparr>go_completed_members := go_completed_members r + 1\<rparr>" and ?j = "j \<or> st_kind e = OK_REJECTED"
      show ?thesis
      proof (cases "st_net_profit e")
        case None
        with IH0 [of ?r x ?j] m Some True show ?thesis by (simp add: Let_def add.assoc disj_assoc)
      next
        case (Some net)
        have "i64 (ma_units net)" using p(5) Some by (simp add: settlement_ok_def money_ok_def)
        note add = accumulator_add_exact [OF this p(6,3)]
        from Cons.IH [OF p(4) add(2) p(2), of ?r True ?j] m \<open>me = Some e\<close> True Some add(1)
        show ?thesis by (simp add: Let_def add.assoc disj_assoc)
      qed
    qed
  qed
qed simp

lemma compute_outcome_spec:
  assumes ok: "\<forall>e\<in>set (member_events ms). settlement_ok e" and len: "length ms = unat (gi_expected_members grp)"
  shows "compute_outcome grp zero ms = group_spec grp zero ms"
proof -
  have b: "unat (gi_expected_members grp) < 4294967296"
    using unsigned_less [of "gi_expected_members grp", where 'a = nat] by simp
  have "0 + length ms \<le> 4294967296" using b len by simp
  from aggregate_loop_exact [OF ok net_default(2) this, of group_outcome_default False False]
  obtain acc where
    acc: "net_val acc = sum_list (executed_units ms)" and
    loop: "aggregate_loop ms (group_outcome_default, net_accumulator_default, False, False) =
      (group_outcome_default\<lparr>go_unresolved := \<exists>e\<in>set (member_events ms). \<not> settlement_terminal e,
         go_completed_members := of_nat (length (terminal_events ms))\<rparr>,
       acc, executed_units ms \<noteq> [], \<exists>e\<in>set (terminal_events ms). st_kind e = OK_REJECTED)"
    by (auto simp: group_outcome_default_def)
  have "unat (of_nat (length (terminal_events ms)) :: u32) = length (terminal_events ms)"
    using length_terminal_events [of ms] b len by (simp add: unat_of_nat)
  then have c: "of_nat (length (terminal_events ms)) = gi_expected_members grp \<longleftrightarrow>
    length (terminal_events ms) = unat (gi_expected_members grp)"
    by (metis word_unat_eq_iff)
  show ?thesis
    by (simp only: compute_outcome_def loop prod.case Let_def)
       (simp add: accumulator_to_units_exact acc group_spec_def c group_outcome_default_def)
qed

subsection \<open>The roster\<close>

lemma roster_loop_complete:
  assumes "map_ok ms"
  shows "snd (roster_loop ids ms) \<longleftrightarrow> 0 \<notin> set ids \<and> distinct ids \<and> (\<forall>k\<in>set ids. map_find ms k = None)"
    and "map_ok (fst (roster_loop ids ms))"
    and "snd (roster_loop ids ms) \<Longrightarrow>
      map_find (fst (roster_loop ids ms)) k = (if k \<in> set ids then Some None else map_find ms k)"
    and "snd (roster_loop ids ms) \<Longrightarrow> length (fst (roster_loop ids ms)) = length ms + length ids"
proof -
  have "(snd (roster_loop ids ms) \<longleftrightarrow> 0 \<notin> set ids \<and> distinct ids \<and> (\<forall>k\<in>set ids. map_find ms k = None)) \<and>
    map_ok (fst (roster_loop ids ms)) \<and>
    (snd (roster_loop ids ms) \<longrightarrow>
      (\<forall>k. map_find (fst (roster_loop ids ms)) k = (if k \<in> set ids then Some None else map_find ms k)) \<and>
      length (fst (roster_loop ids ms)) = length ms + length ids)"
    using assms
  proof (induction ids arbitrary: ms)
    case (Cons i ids)
    show ?case
    proof (cases "i = 0 \<or> map_find ms i \<noteq> None")
      case True
      then show ?thesis using Cons.prems by (auto simp: split_def)
    next
      case False
      then have n: "map_find ms i = None" "i \<noteq> 0" by auto
      note IH = Cons.IH [OF map_ok_put [OF Cons.prems], of i None]
      have f: "map_find (map_put i None ms) k = (if k = i then Some None else map_find ms k)" for k
        using Cons.prems by (rule map_find_put)
      have "(\<forall>k\<in>set ids. map_find (map_put i None ms) k = None) \<longleftrightarrow>
        i \<notin> set ids \<and> (\<forall>k\<in>set ids. map_find ms k = None)"
        by (auto simp: f)
      then show ?thesis
        using IH n smap.length_put_new [OF Cons.prems n(1), of None] by (auto simp: f)
    qed
  qed simp
  then show "snd (roster_loop ids ms) \<longleftrightarrow> 0 \<notin> set ids \<and> distinct ids \<and> (\<forall>k\<in>set ids. map_find ms k = None)"
    and "map_ok (fst (roster_loop ids ms))"
    and "snd (roster_loop ids ms) \<Longrightarrow>
      map_find (fst (roster_loop ids ms)) k = (if k \<in> set ids then Some None else map_find ms k)"
    and "snd (roster_loop ids ms) \<Longrightarrow> length (fst (roster_loop ids ms)) = length ms + length ids"
    by auto
qed

definition roster_ok :: "u64 \<Rightarrow> group_identity \<Rightarrow> u64 list \<Rightarrow> currency_type \<Rightarrow> u8 \<Rightarrow> bool" where
  "roster_ok intent_id grp ids c p \<longleftrightarrow>
     intent_id \<noteq> 0 \<and> p \<le> max_money_precision \<and> c \<noteq> CUR_UNKNOWN \<and> ids \<noteq> [] \<and>
     length ids = unat (gi_expected_members grp) \<and> (1 < length ids \<longrightarrow> gi_group_id grp \<noteq> 0) \<and>
     0 \<notin> set ids \<and> distinct ids"

lemma make_aggregator_valid: "ag_valid (make_aggregator i grp ids c p) \<longleftrightarrow> roster_ok i grp ids c p"
  by (auto simp: make_aggregator_def roster_ok_def aggregator_default_def valid_metadata_def Let_def
      roster_loop_complete(1) split: prod.split dest: arg_cong [of _ _ snd])

lemma make_aggregator_fields [simp]:
  "ag_intent_id (make_aggregator i grp ids c p) = i" "ag_group (make_aggregator i grp ids c p) = grp"
  "ag_zero (make_aggregator i grp ids c p) = \<lparr>ma_units = 0, ma_precision = p, ma_currency = c\<rparr>"
  "ag_outcome (make_aggregator i grp ids c p) = group_outcome_default"
  "ag_receipts (make_aggregator i grp ids c p) = []"
  by (simp_all add: make_aggregator_def aggregator_default_def Let_def split: prod.split)

lemma make_aggregator_members:
  "roster_ok i grp ids c p \<Longrightarrow>
     map_find (ag_members (make_aggregator i grp ids c p)) k = (if k \<in> set ids then Some None else None)"
  "roster_ok i grp ids c p \<Longrightarrow> length (ag_members (make_aggregator i grp ids c p)) = unat (gi_expected_members grp)"
  "map_ok (ag_members (make_aggregator i grp ids c p))"
  using roster_loop_complete [of "[]" ids]
  by (auto simp: make_aggregator_def roster_ok_def aggregator_default_def valid_metadata_def Let_def split_def)

subsection \<open>The invariant\<close>

definition event_fits :: "aggregator \<Rightarrow> trade_settlement \<Rightarrow> bool" where
  "event_fits a e \<longleftrightarrow>
     settlement_valid e \<and> settlement_ok e \<and> st_intent_id e = ag_intent_id a \<and>
     st_execution_group_id e = gi_group_id (ag_group a) \<and> map_find (ag_members a) (st_trade_id e) \<noteq> None \<and>
     (\<forall>net. st_net_profit e = Some net \<longrightarrow>
        ma_currency net = ma_currency (ag_zero a) \<and> ma_precision net = ma_precision (ag_zero a))"

definition aggregator_inv :: "aggregator \<Rightarrow> bool" where
  "aggregator_inv a \<longleftrightarrow>
     map_ok (ag_members a) \<and> map_ok (ag_receipts a) \<and>
     (\<not> ag_valid a \<longrightarrow> ag_receipts a = [] \<and> ag_outcome a = group_outcome_default) \<and>
     (ag_valid a \<longrightarrow>
        length (ag_members a) = unat (gi_expected_members (ag_group a)) \<and>
        ag_outcome a = group_spec (ag_group a) (ag_zero a) (ag_members a)) \<and>
     (\<forall>k e. map_find (ag_receipts a) k = Some e \<longrightarrow> st_settlement_id e = k \<and> event_fits a e) \<and>
     (ag_valid a \<longrightarrow> (\<forall>k e. map_find (ag_members a) k = Some (Some e) \<longrightarrow>
        st_trade_id e = k \<and> map_find (ag_receipts a) (st_settlement_id e) = Some e))"

text \<open>The call \<open>apply\<close> is applied exactly when the event is new, fits and its member is open.\<close>

definition member_open :: "aggregator \<Rightarrow> u64 \<Rightarrow> bool" where
  "member_open a k \<longleftrightarrow> (case map_find (ag_members a) k of
     Some None \<Rightarrow> True | Some (Some m) \<Rightarrow> \<not> settlement_terminal m | None \<Rightarrow> False)"

definition applied_state :: "aggregator \<Rightarrow> trade_settlement \<Rightarrow> aggregator" where
  "applied_state a e =
     (let members = map_put (st_trade_id e) (Some e) (ag_members a)
      in a\<lparr>ag_members := members, ag_outcome := compute_outcome (ag_group a) (ag_zero a) members,
           ag_receipts := map_put (st_settlement_id e) e (ag_receipts a)\<rparr>)"

lemma aggregator_apply_applied:
  assumes "settlement_ok e"
  shows "fst (aggregator_apply a e) = PRG_APPLIED \<longleftrightarrow>
    map_find (ag_receipts a) (st_settlement_id e) = None \<and> ag_valid a \<and> event_fits a e \<and> member_open a (st_trade_id e)"
  using assms
  by (auto simp: aggregator_apply_def event_fits_def member_open_def Let_def split: option.splits if_splits)

lemma aggregator_apply_state:
  "snd (aggregator_apply a e) = (if fst (aggregator_apply a e) = PRG_APPLIED then applied_state a e else a)"
  by (auto simp: aggregator_apply_def applied_state_def aggregate_def Let_def split: option.splits if_splits)

lemma applied_state_fields [simp]:
  "ag_intent_id (applied_state a e) = ag_intent_id a" "ag_group (applied_state a e) = ag_group a"
  "ag_zero (applied_state a e) = ag_zero a" "ag_valid (applied_state a e) = ag_valid a"
  "ag_members (applied_state a e) = map_put (st_trade_id e) (Some e) (ag_members a)"
  "ag_receipts (applied_state a e) = map_put (st_settlement_id e) e (ag_receipts a)"
  "ag_outcome (applied_state a e) =
     compute_outcome (ag_group a) (ag_zero a) (map_put (st_trade_id e) (Some e) (ag_members a))"
  by (simp_all add: applied_state_def Let_def)

lemma member_events_set: "e \<in> set (member_events ms) \<longleftrightarrow> (\<exists>k. (k, Some e) \<in> set ms)"
proof (induction ms)
  case (Cons m ms)
  then show ?case by (cases m; cases "snd m") auto
qed simp

lemma aggregator_inv_members_ok:
  "aggregator_inv a \<Longrightarrow> ag_valid a \<Longrightarrow> e \<in> set (member_events (ag_members a)) \<Longrightarrow> settlement_ok e"
  by (auto simp: aggregator_inv_def member_events_set smap.entries_find event_fits_def)

lemma event_fits_applied: "event_fits a x \<Longrightarrow> map_ok (ag_members a) \<Longrightarrow> event_fits (applied_state a e) x"
  by (auto simp: event_fits_def map_find_put)

lemma applied_state_inv:
  assumes inv: "aggregator_inv a" and v: "ag_valid a" and fits: "event_fits a e"
    and new: "map_find (ag_receipts a) (st_settlement_id e) = None"
  shows "aggregator_inv (applied_state a e)"
proof -
  let ?k = "st_trade_id e" and ?ms = "map_put (st_trade_id e) (Some e) (ag_members a)"
  have mo: "map_ok (ag_members a)" and ro: "map_ok (ag_receipts a)" using inv by (simp_all add: aggregator_inv_def)
  from fits obtain w where w: "map_find (ag_members a) ?k = Some w" by (auto simp: event_fits_def)
  have len: "length ?ms = unat (gi_expected_members (ag_group a))"
    using inv v smap.length_put_old [OF mo w, of "Some e"] by (simp add: aggregator_inv_def)
  have ok: "\<forall>x\<in>set (member_events ?ms). settlement_ok x"
  proof
    fix x assume "x \<in> set (member_events ?ms)"
    then obtain k where "map_find ?ms k = Some (Some x)"
      using mo by (auto simp: member_events_set smap.entries_find)
    then have "x = e \<or> map_find (ag_members a) k = Some (Some x)" using mo by (auto simp: map_find_put split: if_splits)
    then show "settlement_ok x"
      using aggregator_inv_members_ok [OF inv v] fits mo
      by (auto simp: event_fits_def member_events_set smap.entries_find)
  qed
  have r: "map_find (ag_receipts (applied_state a e)) k = Some x \<Longrightarrow> st_settlement_id x = k \<and> event_fits (applied_state a e) x"
    for k x
    using inv ro fits event_fits_applied [OF _ mo] by (auto simp: map_find_put aggregator_inv_def split: if_splits)
  have m: "st_trade_id x = k \<and> map_find (ag_receipts (applied_state a e)) (st_settlement_id x) = Some x"
    if x: "map_find ?ms k = Some (Some x)" for k x
  proof (cases "k = ?k")
    case True
    with x mo ro show ?thesis by (simp add: map_find_put)
  next
    case False
    with x mo have "map_find (ag_members a) k = Some (Some x)" by (simp add: map_find_put)
    then have "st_trade_id x = k" "map_find (ag_receipts a) (st_settlement_id x) = Some x"
      using inv v by (simp_all add: aggregator_inv_def)
    moreover from this new have "st_settlement_id x \<noteq> st_settlement_id e" by auto
    ultimately show ?thesis using ro by (simp add: map_find_put)
  qed
  have c1: "\<forall>k x. map_find (ag_receipts (applied_state a e)) k = Some x \<longrightarrow>
      st_settlement_id x = k \<and> event_fits (applied_state a e) x"
    using r by blast
  have c2: "\<forall>k x. map_find (ag_members (applied_state a e)) k = Some (Some x) \<longrightarrow>
      st_trade_id x = k \<and> map_find (ag_receipts (applied_state a e)) (st_settlement_id x) = Some x"
    using m unfolding applied_state_fields by blast
  have "map_ok (ag_members (applied_state a e))" "map_ok (ag_receipts (applied_state a e))"
    "ag_valid (applied_state a e)"
    "length (ag_members (applied_state a e)) = unat (gi_expected_members (ag_group (applied_state a e)))"
    "ag_outcome (applied_state a e) = group_spec (ag_group (applied_state a e)) (ag_zero (applied_state a e))
       (ag_members (applied_state a e))"
    using mo ro v len by (simp_all add: compute_outcome_spec [OF ok len])
  with c1 c2 show ?thesis unfolding aggregator_inv_def by blast
qed

lemma aggregator_apply_inv:
  "aggregator_inv a \<Longrightarrow> settlement_ok e \<Longrightarrow> aggregator_inv (snd (aggregator_apply a e))"
  by (auto simp: aggregator_apply_state aggregator_apply_applied intro: applied_state_inv)

lemma group_spec_initial:
  assumes "\<And>k e. (k, Some e) \<notin> set ms" and "gi_expected_members grp \<noteq> 0"
  shows "group_spec grp zero ms = group_outcome_default"
proof -
  have e: "member_events ms = []"
    using assms(1) member_events_set [of _ ms] by (metis list.set_intros(1) neq_Nil_conv)
  then have "terminal_events ms = []" by (simp add: terminal_events_def)
  with e assms(2) show ?thesis
    by (simp add: group_spec_def executed_units_def map_filter_simps group_outcome_default_def unat_eq_0 eq_commute [of 0])
qed

lemma make_aggregator_inv: "aggregator_inv (make_aggregator i grp ids c p)"
proof (cases "roster_ok i grp ids c p")
  case True
  note m = make_aggregator_members(1,2) [OF True]
  have "(k, Some e) \<notin> set (ag_members (make_aggregator i grp ids c p))" for k e
    using m(1) make_aggregator_members(3) [of i grp ids c p] by (auto simp: smap.entries_find split: if_splits)
  moreover have "gi_expected_members grp \<noteq> 0" using True by (auto simp: roster_ok_def)
  ultimately show ?thesis
    using m make_aggregator_members(3) [of i grp ids c p]
    by (auto simp: aggregator_inv_def make_aggregator_valid True group_spec_initial split: if_splits)
next
  case False
  then show ?thesis using make_aggregator_members(3) [of i grp ids c p]
    by (simp add: aggregator_inv_def make_aggregator_valid)
qed

interpretation agg: machine "\<lambda>a e. snd (aggregator_apply a e)" settlement_ok aggregator_inv
  by unfold_locales (rule aggregator_apply_inv)

interpretation agg_receiver: idempotent_receiver aggregator_apply "\<lambda>a k. map_find (ag_receipts a) k"
    st_settlement_id "\<lambda>a. map_ok (ag_receipts a)" PRG_APPLIED PRG_DUPLICATE PRG_SETTLEMENT_CONFLICT
proof unfold_locales
  show "aggregator_apply s m = (if m' = m then PRG_DUPLICATE else PRG_SETTLEMENT_CONFLICT, s)"
    if "map_find (ag_receipts s) (st_settlement_id m) = Some m'" for s m m'
    using that by (simp add: aggregator_apply_def)
  show "map_find (ag_receipts (snd (aggregator_apply s m))) = (map_find (ag_receipts s))(st_settlement_id m \<mapsto> m)"
    if "map_ok (ag_receipts s)" "fst (aggregator_apply s m) = PRG_APPLIED" for s m
    using that by (auto simp: aggregator_apply_state map_find_put fun_eq_iff)
qed (auto simp: aggregator_apply_state)

lemma aggregator_inv_outcome:
  "aggregator_inv a \<Longrightarrow> ag_valid a \<Longrightarrow> ag_outcome a = group_spec (ag_group a) (ag_zero a) (ag_members a)"
  by (simp add: aggregator_inv_def)

lemma aggregator_inv_maps: "aggregator_inv a \<Longrightarrow> map_ok (ag_members a)" "aggregator_inv a \<Longrightarrow> map_ok (ag_receipts a)"
  by (simp_all add: aggregator_inv_def)

subsection \<open>Sequences of terminal events\<close>

text \<open>Applying a list of events, giving up at the first one that is not applied.\<close>

fun apply_all :: "aggregator \<Rightarrow> trade_settlement list \<Rightarrow> aggregator option" where
  "apply_all a [] = Some a"
| "apply_all a (e # es) =
     (let (result, a') = aggregator_apply a e
      in if result \<noteq> PRG_APPLIED then None else apply_all a' es)"

lemma apply_all_Cons [simp]:
  "apply_all a (e # es) =
    (if fst (aggregator_apply a e) = PRG_APPLIED then apply_all (applied_state a e) es else None)"
  by (simp add: split_def Let_def aggregator_apply_state)

declare apply_all.simps(2) [simp del]

definition batch_ok :: "aggregator \<Rightarrow> trade_settlement list \<Rightarrow> bool" where
  "batch_ok a es \<longleftrightarrow>
     (es \<noteq> [] \<longrightarrow> ag_valid a) \<and> distinct (map st_settlement_id es) \<and> distinct (map st_trade_id es) \<and>
     (\<forall>e\<in>set es. map_find (ag_receipts a) (st_settlement_id e) = None \<and> event_fits a e \<and>
        member_open a (st_trade_id e))"

lemma batch_ok_Cons:
  assumes inv: "aggregator_inv a" and t: "settlement_terminal e" and ok: "settlement_ok e"
  shows "batch_ok a (e # es) \<longleftrightarrow> fst (aggregator_apply a e) = PRG_APPLIED \<and> batch_ok (applied_state a e) es"
proof -
  have mo: "map_ok (ag_members a)" and ro: "map_ok (ag_receipts a)" using inv by (simp_all add: aggregator_inv_def)
  have f: "event_fits (applied_state a e) x \<longleftrightarrow> event_fits a x" if "event_fits a e" for x
    using that mo by (auto simp: event_fits_def map_find_put)
  have o: "member_open (applied_state a e) k \<longleftrightarrow> k \<noteq> st_trade_id e \<and> member_open a k" for k
    using mo t by (simp add: member_open_def map_find_put)
  have r: "map_find (ag_receipts (applied_state a e)) k = None \<longleftrightarrow>
      k \<noteq> st_settlement_id e \<and> map_find (ag_receipts a) k = None" for k
    using ro by (simp add: map_find_put)
  show ?thesis
    by (auto simp: batch_ok_def aggregator_apply_applied [OF ok] f o r image_iff simp del: applied_state_fields(5-7))
qed

lemma apply_all_batch:
  assumes "aggregator_inv a" and "list_all settlement_terminal es" and "list_all settlement_ok es"
  shows "apply_all a es \<noteq> None \<longleftrightarrow> batch_ok a es"
  using assms
proof (induction es arbitrary: a)
  case (Cons e es)
  have step: "fst (aggregator_apply a e) = PRG_APPLIED \<Longrightarrow>
      apply_all (applied_state a e) es \<noteq> None \<longleftrightarrow> batch_ok (applied_state a e) es"
    using Cons.prems aggregator_apply_inv [OF Cons.prems(1), of e]
    by (intro Cons.IH) (simp_all add: aggregator_apply_state)
  have b: "batch_ok a (e # es) \<longleftrightarrow> fst (aggregator_apply a e) = PRG_APPLIED \<and> batch_ok (applied_state a e) es"
    using Cons.prems by (intro batch_ok_Cons) simp_all
  then show ?case using step by simp
qed (simp add: batch_ok_def)

lemma apply_all_fields:
  assumes "apply_all a es = Some a'"
  shows "ag_intent_id a' = ag_intent_id a" "ag_group a' = ag_group a" "ag_zero a' = ag_zero a" "ag_valid a' = ag_valid a"
  using assms by (induction es arbitrary: a) (auto split: if_splits)

lemma apply_all_inv:
  "apply_all a es = Some a' \<Longrightarrow> aggregator_inv a \<Longrightarrow> list_all settlement_ok es \<Longrightarrow> aggregator_inv a'"
proof (induction es arbitrary: a)
  case (Cons e es)
  then show ?case using aggregator_apply_inv [of a e] by (auto simp: aggregator_apply_state split: if_splits)
qed simp

lemma apply_all_maps:
  assumes "apply_all a es = Some a'" and "aggregator_inv a" and "list_all settlement_ok es"
    and "distinct (map st_settlement_id es)" and "distinct (map st_trade_id es)"
  shows "map_find (ag_members a') = map_find (ag_members a) ++ map_of (map (\<lambda>e. (st_trade_id e, Some e)) es)"
    and "map_find (ag_receipts a') = map_find (ag_receipts a) ++ map_of (map (\<lambda>e. (st_settlement_id e, e)) es)"
proof -
  have "map_find (ag_members a') = map_find (ag_members a) ++ map_of (map (\<lambda>e. (st_trade_id e, Some e)) es) \<and>
    map_find (ag_receipts a') = map_find (ag_receipts a) ++ map_of (map (\<lambda>e. (st_settlement_id e, e)) es)"
    using assms
  proof (induction es arbitrary: a)
    case (Cons e es)
    have ap: "fst (aggregator_apply a e) = PRG_APPLIED" and run: "apply_all (applied_state a e) es = Some a'"
      using Cons.prems(1) by (auto split: if_splits)
    have inv: "aggregator_inv (applied_state a e)"
      using Cons.prems ap aggregator_apply_inv [of a e] by (simp add: aggregator_apply_state)
    note IH = Cons.IH [OF run inv]
    have mo: "map_ok (ag_members a)" "map_ok (ag_receipts a)" using Cons.prems(2) by (simp_all add: aggregator_inv_def)
    have p: "map_find (map_put k v m) = (map_find m)(k \<mapsto> v)" if "map_ok m" for k v and m :: "('x::linorder, 'y) std_map"
      using that by (auto simp: map_find_put fun_eq_iff)
    have u: "m(k \<mapsto> v) ++ map_of ps = m ++ (map_of ps)(k \<mapsto> v)" if "k \<notin> fst ` set ps" for m :: "'x \<rightharpoonup> 'y" and k v ps
    proof -
      have "map_of ps k = None" using that by (simp add: map_of_eq_None_iff)
      then show ?thesis by (auto simp: fun_eq_iff map_add_def split: option.split)
    qed
    have n: "st_trade_id e \<notin> fst ` set (map (\<lambda>e. (st_trade_id e, Some e)) es)"
      "st_settlement_id e \<notin> fst ` set (map (\<lambda>e. (st_settlement_id e, e)) es)"
      using Cons.prems(4,5) by (simp_all add: image_image)
    have d: "list_all settlement_ok es" "distinct (map st_settlement_id es)" "distinct (map st_trade_id es)"
      using Cons.prems by simp_all
    show ?case
      using IH [OF d] unfolding applied_state_fields p [OF mo(1)] p [OF mo(2)] u [OF n(1)] u [OF n(2)]
      by (simp only: list.map map_of.simps fst_conv snd_conv)
  qed simp
  then show "map_find (ag_members a') = map_find (ag_members a) ++ map_of (map (\<lambda>e. (st_trade_id e, Some e)) es)"
    and "map_find (ag_receipts a') = map_find (ag_receipts a) ++ map_of (map (\<lambda>e. (st_settlement_id e, e)) es)"
    by auto
qed

lemma apply_all_permute:
  assumes run: "apply_all a es = Some a'" and inv: "aggregator_inv a" and v: "ag_valid a"
    and t: "list_all settlement_terminal es" and ok: "list_all settlement_ok es" and p: "mset es = mset fs"
  shows "apply_all a fs = Some a'"
proof -
  have s: "set fs = set es" using p by (metis mset_eq_setD)
  have d: "distinct (map f es) \<longleftrightarrow> distinct (map f fs)" for f :: "trade_settlement \<Rightarrow> u64"
    using p by (metis mset_eq_imp_distinct_iff mset_map)
  have be: "batch_ok a es" using apply_all_batch [OF inv t ok] run by simp
  then have bf: "batch_ok a fs" using s d v by (simp add: batch_ok_def)
  have okf: "list_all settlement_ok fs" and tf: "list_all settlement_terminal fs"
    using ok t s by (simp_all add: list_all_iff)
  obtain b where b: "apply_all a fs = Some b" using apply_all_batch [OF inv tf okf] bf by auto
  have de: "distinct (map st_settlement_id es)" "distinct (map st_trade_id es)"
    using be by (simp_all add: batch_ok_def)
  note e = apply_all_maps [OF run inv ok de] and f = apply_all_maps [OF b inv okf de [unfolded d]]
  note ia = apply_all_inv [OF run inv ok] and ib = apply_all_inv [OF b inv okf]
  have "map_of (map (\<lambda>e. (st_trade_id e, Some e)) es) = map_of (map (\<lambda>e. (st_trade_id e, Some e)) fs)"
    using p de(2) by (intro map_of_mset_eq) (simp_all add: comp_def)
  then have m: "ag_members a' = ag_members b"
    using e(1) f(1) aggregator_inv_maps [OF ia] aggregator_inv_maps [OF ib] by (intro map_ok_ext) simp_all
  have "map_of (map (\<lambda>e. (st_settlement_id e, e)) es) = map_of (map (\<lambda>e. (st_settlement_id e, e)) fs)"
    using p de(1) by (intro map_of_mset_eq) (simp_all add: comp_def)
  then have r: "ag_receipts a' = ag_receipts b"
    using e(2) f(2) aggregator_inv_maps [OF ia] aggregator_inv_maps [OF ib] by (intro map_ok_ext) simp_all
  note fa = apply_all_fields [OF run] and fb = apply_all_fields [OF b]
  have "ag_outcome a' = ag_outcome b"
    using aggregator_inv_outcome [OF ia] aggregator_inv_outcome [OF ib] v m by (simp add: fa fb)
  then have "a' = b" using m r by (intro aggregator.equality) (simp_all add: fa fb)
  with b show ?thesis by simp
qed

subsection \<open>Properties\<close>

lemma aggregator_run_fields:
  "ag_intent_id (foldl (\<lambda>a e. snd (aggregator_apply a e)) a es) = ag_intent_id a"
  "ag_group (foldl (\<lambda>a e. snd (aggregator_apply a e)) a es) = ag_group a"
  "ag_zero (foldl (\<lambda>a e. snd (aggregator_apply a e)) a es) = ag_zero a"
  "ag_valid (foldl (\<lambda>a e. snd (aggregator_apply a e)) a es) = ag_valid a"
  by (induction es arbitrary: a) (simp_all add: aggregator_apply_state)

definition sample_settlement :: "u64 \<Rightarrow> u64 \<Rightarrow> int \<Rightarrow> trade_settlement" where
  "sample_settlement sid tid units =
     \<lparr>st_settlement_id = sid, st_intent_id = 1, st_execution_group_id = 7, st_trade_id = tid,
      st_kind = (if 0 < units then OK_WIN else if units < 0 then OK_LOSS else OK_DRAW), st_evidence = EV_EXECUTED,
      st_net_profit = Some \<lparr>ma_units = units, ma_precision = 2, ma_currency = CUR_USD\<rparr>\<rparr>"

definition sample_aggregator :: aggregator where
  "sample_aggregator = make_aggregator 1 \<lparr>gi_group_id = 7, gi_expected_members = 2\<rparr> [10, 11] CUR_USD 2"

lemma sample_roster: "roster_ok 1 \<lparr>gi_group_id = 7, gi_expected_members = 2\<rparr> [10, 11] CUR_USD 2"
  by (simp add: roster_ok_def max_money_precision_def)

lemma sample_aggregator_inv: "aggregator_inv sample_aggregator"
  by (simp add: sample_aggregator_def make_aggregator_inv)

text \<open>C5: The net accumulator is an exact integer sum: adding fewer than 2 to the 32 signed 64-bit
  amounts, the minimum included, and reading the result gives their mathematical sum, in any order
  and whatever the partial sums are, and is refused exactly when that sum is not a signed 64-bit value.\<close>

theorem net_accumulator_exact:
  assumes "list_all i64 us" and "length us < 4294967296"
  shows "accumulator_to_units (fold accumulator_add us net_accumulator_default) =
    (if i64 (sum_list us) then Some (sum_list us) else None)"
proof -
  have "net_fits n a \<Longrightarrow> n + length us \<le> 4294967296 \<Longrightarrow> net_val (fold accumulator_add us a) = net_val a + sum_list us"
    for n a
    using assms(1)
  proof (induction us arbitrary: n a)
    case (Cons u us)
    then show ?case using accumulator_add_exact [of u n a] Cons.IH [of "Suc n" "accumulator_add u a"] by simp
  qed simp
  from this [of 0] assms(2) have "net_val (fold accumulator_add us net_accumulator_default) = sum_list us" by simp
  then show ?thesis by (simp add: accumulator_to_units_exact)
qed

theorem net_accumulator_exact_witness:
  "accumulator_to_units (fold accumulator_add [i64_max, i64_max, i64_min, i64_min] net_accumulator_default) = Some (- 2)"
  using net_accumulator_exact [of "[i64_max, i64_max, i64_min, i64_min]"] by (simp add: i64_def)

text \<open>C4: After any sequence of calls on an aggregator with a valid roster, the outcome it publishes
  is the specification of its members: the exact net sum of the executed ones, their number, READY
  with the kind of the sign of the sum (or REJECTED, CANCELLED without execution) exactly when every
  member is terminal and the sum is a 64-bit value, and NUMERIC_OVERFLOW exactly when it is not.\<close>

theorem group_outcome_exact:
  assumes "roster_ok i grp ids c p" and "list_all settlement_ok es"
  shows "ag_outcome (foldl (\<lambda>a e. snd (aggregator_apply a e)) (make_aggregator i grp ids c p) es) =
    group_spec grp \<lparr>ma_units = 0, ma_precision = p, ma_currency = c\<rparr>
      (ag_members (foldl (\<lambda>a e. snd (aggregator_apply a e)) (make_aggregator i grp ids c p) es))"
proof -
  have "aggregator_inv (foldl (\<lambda>a e. snd (aggregator_apply a e)) (make_aggregator i grp ids c p) es)"
    using make_aggregator_inv assms(2) by (rule agg.run_inv)
  from aggregator_inv_outcome [OF this] show ?thesis
    by (simp add: aggregator_run_fields make_aggregator_valid assms(1))
qed

theorem group_outcome_exact_witness:
  "ag_outcome (foldl (\<lambda>a e. snd (aggregator_apply a e)) sample_aggregator [sample_settlement 1 10 500, sample_settlement 2 11 (- 700)]) =
     group_spec \<lparr>gi_group_id = 7, gi_expected_members = 2\<rparr> \<lparr>ma_units = 0, ma_precision = 2, ma_currency = CUR_USD\<rparr>
      (ag_members (foldl (\<lambda>a e. snd (aggregator_apply a e)) sample_aggregator
        [sample_settlement 1 10 500, sample_settlement 2 11 (- 700)]))"
  using group_outcome_exact [OF sample_roster, of "[sample_settlement 1 10 500, sample_settlement 2 11 (- 700)]"]
  by (simp add: sample_aggregator_def settlement_ok_def sample_settlement_def money_ok_def i64_def)

text \<open>Settlements are idempotent: once an event was applied, after any further calls its exact
  redelivery answers DUPLICATE and a different event under its identifier answers
  SETTLEMENT_CONFLICT, and neither changes the aggregator.\<close>

theorem aggregator_idempotent:
  assumes "aggregator_inv a" and "fst (aggregator_apply a e) = PRG_APPLIED"
    and "st_settlement_id e2 = st_settlement_id e"
  shows "aggregator_apply (foldl (\<lambda>a e. snd (aggregator_apply a e)) (snd (aggregator_apply a e)) es) e2 =
    (if e2 = e then PRG_DUPLICATE else PRG_SETTLEMENT_CONFLICT,
     foldl (\<lambda>a e. snd (aggregator_apply a e)) (snd (aggregator_apply a e)) es)"
  using agg_receiver.redelivery [OF aggregator_inv_maps(2) [OF assms(1)] assms(2)]
    agg_receiver.rewrite_refused [OF aggregator_inv_maps(2) [OF assms(1)] assms(2,3)] by simp

theorem aggregator_idempotent_witness:
  "fst (aggregator_apply (snd (aggregator_apply sample_aggregator (sample_settlement 1 10 500))) (sample_settlement 1 10 500)) = PRG_DUPLICATE"
proof -
  have "fst (aggregator_apply sample_aggregator (sample_settlement 1 10 500)) = PRG_APPLIED" by code_simp
  from aggregator_idempotent [OF sample_aggregator_inv this refl, of "[]"] show ?thesis by simp
qed

text \<open>A member's terminal outcome is final: no later call of any kind replaces it, and its
  settlement stays on record.\<close>

theorem terminal_member_kept:
  assumes "aggregator_inv a" and "ag_valid a" and "map_find (ag_members a) k = Some (Some e)"
    and "settlement_terminal e" and "list_all settlement_ok es"
  shows "map_find (ag_members (foldl (\<lambda>a e. snd (aggregator_apply a e)) a es)) k = Some (Some e) \<and>
    map_find (ag_receipts (foldl (\<lambda>a e. snd (aggregator_apply a e)) a es)) (st_settlement_id e) = Some e"
proof -
  have "map_find (ag_members (snd (aggregator_apply b x))) k = Some (Some e) \<and> ag_valid (snd (aggregator_apply b x))"
    if "aggregator_inv b" "settlement_ok x" "map_find (ag_members b) k = Some (Some e) \<and> ag_valid b" for b x
    using that assms(4) aggregator_inv_maps(1) [OF that(1)]
    by (auto simp: aggregator_apply_state aggregator_apply_applied member_open_def map_find_put)
  from agg.run_keeps [where P = "\<lambda>b. map_find (ag_members b) k = Some (Some e) \<and> ag_valid b", OF this assms(1,5)] assms(2,3)
  have m: "map_find (ag_members (foldl (\<lambda>a e. snd (aggregator_apply a e)) a es)) k = Some (Some e)" by blast
  moreover have "aggregator_inv (foldl (\<lambda>a e. snd (aggregator_apply a e)) a es)" using assms(1,5) by (rule agg.run_inv)
  ultimately show ?thesis using assms(2) by (simp add: aggregator_inv_def aggregator_run_fields)
qed

theorem terminal_member_kept_witness:
  "map_find (ag_members (snd (aggregator_apply (snd (aggregator_apply sample_aggregator (sample_settlement 1 10 500)))
     (sample_settlement 2 10 (- 5))))) 10 = Some (Some (sample_settlement 1 10 500))"
proof -
  let ?a = "snd (aggregator_apply sample_aggregator (sample_settlement 1 10 500))"
  have ok: "settlement_ok (sample_settlement s t 500)" "settlement_ok (sample_settlement s t (- 5))" for s t
    by (simp_all add: settlement_ok_def sample_settlement_def money_ok_def i64_def)
  have "aggregator_inv ?a"
    using aggregator_apply_inv [OF make_aggregator_inv ok(1)] by (simp add: sample_aggregator_def)
  moreover have "ag_valid ?a" "map_find (ag_members ?a) 10 = Some (Some (sample_settlement 1 10 500))"
    "settlement_terminal (sample_settlement 1 10 500)" by code_simp+
  ultimately show ?thesis using terminal_member_kept [of ?a 10 _ "[sample_settlement 2 10 (- 5)]"] ok by simp
qed

text \<open>C6: The order in which terminal settlements arrive does not matter: if a list of them is
  applied in one order, every permutation is applied too and leaves the very same aggregator.\<close>

theorem settlement_order_irrelevant:
  assumes "apply_all a es = Some a'" and "aggregator_inv a" and "ag_valid a"
    and "list_all settlement_terminal es" and "list_all settlement_ok es" and "mset es = mset fs"
  shows "apply_all a fs = Some a'"
  using assms by (rule apply_all_permute)

theorem settlement_order_irrelevant_witness:
  "apply_all sample_aggregator [sample_settlement 2 11 (- 700), sample_settlement 1 10 500] =
   apply_all sample_aggregator [sample_settlement 1 10 500, sample_settlement 2 11 (- 700)]"
proof -
  let ?x = "sample_settlement 1 10 500" and ?y = "sample_settlement 2 11 (- 700)"
  have "apply_all sample_aggregator [?x, ?y] \<noteq> None" by code_simp
  then obtain b where b: "apply_all sample_aggregator [?x, ?y] = Some b" by blast
  have "aggregator_inv sample_aggregator" by (rule sample_aggregator_inv)
  moreover have "ag_valid sample_aggregator" "list_all settlement_terminal [?x, ?y]" by code_simp+
  moreover have "list_all settlement_ok [?x, ?y]"
    by (simp add: settlement_ok_def sample_settlement_def money_ok_def i64_def)
  moreover have "mset [?x, ?y] = mset [?y, ?x]" by simp
  ultimately have "apply_all sample_aggregator [?y, ?x] = Some b" by (rule settlement_order_irrelevant [OF b])
  then show ?thesis by (simp only: b)
qed

end
