(* ===== verification/Series.thy ===== *)
theory Series
  imports Aggregator
begin

section \<open>Progression of a series\<close>

text \<open>
  \<open>trading_system/SeriesProgression.hpp\<close>: a series runs one logical operation at a time.
  \<open>series_begin\<close>, \<open>series_apply\<close> and \<open>series_complete\<close> are the three operations; each
  returns its result code and the new state. \<open>series_spec\<close> is the abstract state machine
  that every applied call follows.
\<close>

definition max_series_step :: u32 where
  "max_series_step = 2147483647"

record series_snapshot =
  sn_series :: trade_series
  sn_status :: series_status
  sn_current_intent_id :: u64
  sn_current_group_id :: u64
  sn_current_step :: u32
  sn_outcome :: group_outcome

record progression =
  pr_state :: series_snapshot
  pr_group :: aggregator
  pr_has_group :: bool
  pr_receipts :: "(u64, trade_settlement) std_map"
  pr_used_intents :: "u64 std_set"
  pr_used_intent_keys :: "string std_set"

definition make_progression :: "trade_series \<Rightarrow> progression" where
  "make_progression series =
     \<lparr>pr_state = \<lparr>sn_series = series, sn_status = SST_ACTIVE, sn_current_intent_id = 0,
        sn_current_group_id = 0, sn_current_step = 0, sn_outcome = group_outcome_default\<rparr>,
      pr_group = aggregator_default, pr_has_group = False, pr_receipts = [], pr_used_intents = [],
      pr_used_intent_keys = []\<rparr>"

abbreviation pr_series :: "progression \<Rightarrow> trade_series" where "pr_series p \<equiv> sn_series (pr_state p)"
abbreviation pr_status :: "progression \<Rightarrow> series_status" where "pr_status p \<equiv> sn_status (pr_state p)"
abbreviation pr_revision :: "progression \<Rightarrow> u64" where "pr_revision p \<equiv> tse_state_revision (pr_series p)"
abbreviation pr_next_step :: "progression \<Rightarrow> u32" where "pr_next_step p \<equiv> tse_next_step (pr_series p)"

definition bump_revision :: "series_snapshot \<Rightarrow> series_snapshot" where
  "bump_revision s = s\<lparr>sn_series := (sn_series s)\<lparr>tse_state_revision := tse_state_revision (sn_series s) + 1\<rparr>\<rparr>"

definition check_revision :: "progression \<Rightarrow> u64 \<Rightarrow> progression_result" where
  "check_revision p expected_revision =
     (if \<not> series_valid (pr_series p) then PRG_INVALID_IDENTITY
      else if pr_revision p \<noteq> expected_revision then PRG_REVISION_CONFLICT
      else if expected_revision = u64_max then PRG_REVISION_OVERFLOW
      else if max_series_step < pr_next_step p then PRG_STEP_LIMIT_REACHED
      else PRG_APPLIED)"

definition series_begin ::
  "progression \<Rightarrow> trade_intent \<Rightarrow> u64 list \<Rightarrow> currency_type \<Rightarrow> u8 \<Rightarrow> u64 \<Rightarrow> progression_result \<times> progression" where
  "series_begin p intent trade_ids currency precision expected_revision =
     (let check = check_revision p expected_revision
      in if check \<noteq> PRG_APPLIED then (check, p)
      else if pr_status p \<noteq> SST_ACTIVE then (PRG_INVALID_STATE, p)
      else if pr_next_step p = max_series_step then (PRG_STEP_LIMIT_REACHED, p)
      else if \<not> intent_valid intent \<or> ti_series_id intent \<noteq> tse_series_id (pr_series p) \<or>
              ti_origin_signal_id intent \<noteq> tse_origin_signal_id (pr_series p) \<or>
              ti_series_step intent < 0 \<or> word_of_int (ti_series_step intent) \<noteq> pr_next_step p
      then (PRG_INVALID_IDENTITY, p)
      else if ti_status intent \<noteq> IS_PROPOSED \<and> ti_status intent \<noteq> IS_ADMITTED then (PRG_INVALID_STATE, p)
      else if ti_cardinality intent = EC_MULTIPLE then (PRG_UNSUPPORTED_CARDINALITY, p)
      else if set_count (pr_used_intents p) (ti_intent_id intent) then (PRG_INTENT_ALREADY_USED, p)
      else if set_count (pr_used_intent_keys p) (ti_idempotency_key intent)
      then (PRG_IDEMPOTENCY_KEY_ALREADY_USED, p)
      else
        let grp = ti_execution_group intent;
            grp = (if ti_cardinality intent = EC_ZERO_OR_ONE then grp\<lparr>gi_expected_members := 1\<rparr> else grp);
            aggregator = make_aggregator (ti_intent_id intent) grp trade_ids currency precision
        in if \<not> ag_valid aggregator then (PRG_INVALID_CONFIGURATION, p)
        else
          (PRG_APPLIED,
           p\<lparr>pr_group := aggregator, pr_has_group := True,
             pr_used_intents := fst (set_insert (ti_intent_id intent) (pr_used_intents p)),
             pr_used_intent_keys := fst (set_insert (ti_idempotency_key intent) (pr_used_intent_keys p)),
             pr_state := bump_revision ((pr_state p)
               \<lparr>sn_status := SST_WAITING_OUTCOME, sn_current_intent_id := ti_intent_id intent,
                sn_current_group_id := gi_group_id grp, sn_current_step := pr_next_step p,
                sn_outcome := group_outcome_default\<rparr>)\<rparr>))"

definition series_apply :: "progression \<Rightarrow> trade_settlement \<Rightarrow> u64 \<Rightarrow> progression_result \<times> progression" where
  "series_apply p event expected_revision =
     (case map_find (pr_receipts p) (st_settlement_id event) of
        Some receipt \<Rightarrow> (if settlement_equal receipt event then PRG_DUPLICATE else PRG_SETTLEMENT_CONFLICT, p)
      | None \<Rightarrow>
          let check = check_revision p expected_revision
          in if check \<noteq> PRG_APPLIED then (check, p)
          else if \<not> pr_has_group p \<or> (pr_status p \<noteq> SST_WAITING_OUTCOME \<and>
                  pr_status p \<noteq> SST_UNRESOLVED \<and> pr_status p \<noteq> SST_BLOCKED_ERROR)
          then (PRG_INVALID_STATE, p)
          else
            let (result, grp) = aggregator_apply (pr_group p) event
            in if result \<noteq> PRG_APPLIED then (result, p)
            else
              let outcome = ag_outcome grp;
                  candidate = p\<lparr>pr_group := grp, pr_state := (pr_state p)\<lparr>sn_outcome := outcome\<rparr>\<rparr>;
                  st = pr_state candidate;
                  candidate =
                    (if go_all_members_terminal outcome \<and> go_aggregation_status outcome = AS_NUMERIC_OVERFLOW
                     then candidate\<lparr>pr_state := st\<lparr>sn_status := SST_BLOCKED_ERROR\<rparr>\<rparr>
                     else if go_final outcome then
                       let series = sn_series st;
                           series = (if go_net_profit outcome \<noteq> None
                                     then series\<lparr>tse_next_step := tse_next_step series + 1\<rparr> else series)
                       in candidate\<lparr>pr_has_group := False, pr_state := st
                            \<lparr>sn_series := series, sn_status := SST_ACTIVE, sn_current_intent_id := 0,
                             sn_current_group_id := 0\<rparr>\<rparr>
                     else candidate\<lparr>pr_state := st\<lparr>sn_status :=
                       (if go_unresolved outcome then SST_UNRESOLVED else SST_WAITING_OUTCOME)\<rparr>\<rparr>)
              in (PRG_APPLIED,
                  candidate\<lparr>pr_receipts := fst (map_emplace (st_settlement_id event) event (pr_receipts p)),
                    pr_state := bump_revision (pr_state candidate)\<rparr>))"

definition series_complete :: "progression \<Rightarrow> u64 \<Rightarrow> progression_result \<times> progression" where
  "series_complete p expected_revision =
     (let check = check_revision p expected_revision
      in if check \<noteq> PRG_APPLIED then (check, p)
      else if pr_status p \<noteq> SST_ACTIVE then (PRG_INVALID_STATE, p)
      else (PRG_APPLIED, p\<lparr>pr_state := bump_revision ((pr_state p)\<lparr>sn_status := SST_COMPLETED\<rparr>)\<rparr>))"

subsection \<open>Calls\<close>

datatype series_call =
    Begin_call trade_intent "u64 list" currency_type u8 u64
  | Apply_call trade_settlement u64
  | Complete_call u64

fun series_do :: "progression \<Rightarrow> series_call \<Rightarrow> progression_result \<times> progression" where
  "series_do p (Begin_call intent ids c prec rv) = series_begin p intent ids c prec rv"
| "series_do p (Apply_call event rv) = series_apply p event rv"
| "series_do p (Complete_call rv) = series_complete p rv"

fun call_ok :: "series_call \<Rightarrow> bool" where
  "call_ok (Apply_call event rv) = settlement_ok event"
| "call_ok _ = True"

abbreviation series_run :: "progression \<Rightarrow> series_call list \<Rightarrow> progression" where
  "series_run \<equiv> foldl (\<lambda>p c. snd (series_do p c))"

subsection \<open>What an applied call does\<close>

lemma check_revision_applied:
  "check_revision p r = PRG_APPLIED \<longleftrightarrow>
     series_valid (pr_series p) \<and> pr_revision p = r \<and> r \<noteq> u64_max \<and> pr_next_step p \<le> max_series_step"
  by (auto simp: check_revision_def)

definition begin_group :: "trade_intent \<Rightarrow> group_identity" where
  "begin_group i = (if ti_cardinality i = EC_ZERO_OR_ONE
     then (ti_execution_group i)\<lparr>gi_expected_members := 1\<rparr> else ti_execution_group i)"

lemma set_insert_new [simp]: "map_find s k \<noteq> Some () \<Longrightarrow> set_insert k s = (map_put k () s, True)"
  by (cases "map_find s k") simp_all

text \<open>\<open>begin_allowed\<close> collects the guards of \<open>begin\<close>, \<open>begun_state\<close> is the state it builds.\<close>

definition begin_allowed ::
  "progression \<Rightarrow> trade_intent \<Rightarrow> u64 list \<Rightarrow> currency_type \<Rightarrow> u8 \<Rightarrow> u64 \<Rightarrow> bool" where
  "begin_allowed p i ids c prec r \<longleftrightarrow>
     check_revision p r = PRG_APPLIED \<and> pr_status p = SST_ACTIVE \<and> pr_next_step p \<noteq> max_series_step \<and>
     intent_valid i \<and> ti_series_id i = tse_series_id (pr_series p) \<and>
     ti_origin_signal_id i = tse_origin_signal_id (pr_series p) \<and>
     0 \<le> ti_series_step i \<and> word_of_int (ti_series_step i) = pr_next_step p \<and>
     (ti_status i = IS_PROPOSED \<or> ti_status i = IS_ADMITTED) \<and> ti_cardinality i \<noteq> EC_MULTIPLE \<and>
     \<not> set_count (pr_used_intents p) (ti_intent_id i) \<and>
     \<not> set_count (pr_used_intent_keys p) (ti_idempotency_key i) \<and>
     ag_valid (make_aggregator (ti_intent_id i) (begin_group i) ids c prec)"

definition begun_state ::
  "progression \<Rightarrow> trade_intent \<Rightarrow> u64 list \<Rightarrow> currency_type \<Rightarrow> u8 \<Rightarrow> progression" where
  "begun_state p i ids c prec =
     p\<lparr>pr_group := make_aggregator (ti_intent_id i) (begin_group i) ids c prec, pr_has_group := True,
       pr_used_intents := map_put (ti_intent_id i) () (pr_used_intents p),
       pr_used_intent_keys := map_put (ti_idempotency_key i) () (pr_used_intent_keys p),
       pr_state := bump_revision ((pr_state p)
         \<lparr>sn_status := SST_WAITING_OUTCOME, sn_current_intent_id := ti_intent_id i,
          sn_current_group_id := gi_group_id (begin_group i), sn_current_step := pr_next_step p,
          sn_outcome := group_outcome_default\<rparr>)\<rparr>"

lemma fst_if_refuse: "x \<noteq> A \<Longrightarrow> fst (if b then (x, p) else y) = A \<longleftrightarrow> \<not> b \<and> fst y = A"
  by simp

lemma refuse_if:
  "fst (if b then (x, p) else y) \<noteq> A \<Longrightarrow> (\<not> b \<Longrightarrow> fst y \<noteq> A \<Longrightarrow> snd y = p) \<Longrightarrow> snd (if b then (x, p) else y) = p"
  by (cases b) simp_all

lemma series_begin_applied_iff: "fst (series_begin p i ids c prec r) = PRG_APPLIED \<longleftrightarrow> begin_allowed p i ids c prec r"
proof (cases "check_revision p r = PRG_APPLIED")
  case True
  then show ?thesis
    unfolding series_begin_def Let_def begin_group_def [symmetric] begin_allowed_def True
    by (simp only: fst_if_refuse progression_result.distinct fst_conv simp_thms de_Morgan_disj not_not not_less
        if_False not_le) blast
next
  case False
  then show ?thesis by (simp add: series_begin_def begin_allowed_def Let_def)
qed

lemma series_begin_state:
  "snd (series_begin p i ids c prec r) =
     (if fst (series_begin p i ids c prec r) = PRG_APPLIED then begun_state p i ids c prec else p)"
proof (cases "begin_allowed p i ids c prec r")
  case True
  then have "series_begin p i ids c prec r = (PRG_APPLIED, begun_state p i ids c prec)"
    by (simp add: begin_allowed_def series_begin_def Let_def begun_state_def begin_group_def [symmetric])
  then show ?thesis by simp
next
  case False
  then have n: "fst (series_begin p i ids c prec r) \<noteq> PRG_APPLIED" by (simp add: series_begin_applied_iff)
  then have "snd (series_begin p i ids c prec r) = p"
    unfolding series_begin_def Let_def by (elim refuse_if) simp
  with n show ?thesis by simp
qed

lemma series_complete_refused: "fst (series_complete p r) \<noteq> PRG_APPLIED \<Longrightarrow> snd (series_complete p r) = p"
  by (auto simp: series_complete_def Let_def split: if_splits)

lemma series_complete_applied:
  assumes "fst (series_complete p r) = PRG_APPLIED"
  shows "check_revision p r = PRG_APPLIED" "pr_status p = SST_ACTIVE"
    "snd (series_complete p r) = p\<lparr>pr_state := bump_revision ((pr_state p)\<lparr>sn_status := SST_COMPLETED\<rparr>)\<rparr>"
  using assms by (simp_all add: series_complete_def Let_def split: if_splits)

text \<open>The state after an applied settlement, by the outcome of the group.\<close>

definition settled_state :: "progression \<Rightarrow> trade_settlement \<Rightarrow> progression" where
  "settled_state p e =
     (let grp = applied_state (pr_group p) e;
          outcome = ag_outcome grp;
          blocked = (go_all_members_terminal outcome \<and> go_aggregation_status outcome = AS_NUMERIC_OVERFLOW);
          closed = (\<not> blocked \<and> go_final outcome);
          st = pr_state p;
          series = sn_series st
      in p\<lparr>pr_group := grp, pr_has_group := (pr_has_group p \<and> \<not> closed),
          pr_receipts := map_put (st_settlement_id e) e (pr_receipts p),
          pr_state := st
            \<lparr>sn_series := series
               \<lparr>tse_next_step := (if closed \<and> go_net_profit outcome \<noteq> None then tse_next_step series + 1
                                  else tse_next_step series),
                tse_state_revision := tse_state_revision series + 1\<rparr>,
             sn_status := (if blocked then SST_BLOCKED_ERROR else if closed then SST_ACTIVE
                           else if go_unresolved outcome then SST_UNRESOLVED else SST_WAITING_OUTCOME),
             sn_current_intent_id := (if closed then 0 else sn_current_intent_id st),
             sn_current_group_id := (if closed then 0 else sn_current_group_id st),
             sn_outcome := outcome\<rparr>\<rparr>)"

lemma series_apply_refused: "fst (series_apply p e r) \<noteq> PRG_APPLIED \<Longrightarrow> snd (series_apply p e r) = p"
  by (auto simp: series_apply_def Let_def split_def split: if_splits option.splits)

lemma series_apply_applied:
  assumes "fst (series_apply p e r) = PRG_APPLIED"
  shows "check_revision p r = PRG_APPLIED" "pr_has_group p"
    "map_find (pr_receipts p) (st_settlement_id e) = None"
    "fst (aggregator_apply (pr_group p) e) = PRG_APPLIED"
proof -
  show "check_revision p r = PRG_APPLIED" "pr_has_group p"
    "map_find (pr_receipts p) (st_settlement_id e) = None"
    "fst (aggregator_apply (pr_group p) e) = PRG_APPLIED"
    using assms by (auto simp: series_apply_def Let_def split_def split: if_splits option.splits)
qed

lemma series_apply_state:
  assumes "fst (series_apply p e r) = PRG_APPLIED"
  shows "snd (series_apply p e r) = settled_state p e"
proof -
  note a = series_apply_applied [OF assms]
  have s: "snd (aggregator_apply (pr_group p) e) = applied_state (pr_group p) e"
    by (simp add: aggregator_apply_state a(4))
  have g: "\<not> (\<not> pr_has_group p \<or> (pr_status p \<noteq> SST_WAITING_OUTCOME \<and>
      pr_status p \<noteq> SST_UNRESOLVED \<and> pr_status p \<noteq> SST_BLOCKED_ERROR))"
    using assms a(3) by (auto simp: series_apply_def Let_def split_def a(1) split: if_splits)
  have n: "(case map_find (pr_receipts p) (st_settlement_id e) of None \<Rightarrow> x | Some y \<Rightarrow> f y) = x" for x f
    by (simp add: a(3))
  show ?thesis
    unfolding series_apply_def n a(1) split_def Let_def a(4) s if_not_P [OF g] settled_state_def bump_revision_def
    using a(2,3) by (simp del: applied_state_fields)
qed

subsection \<open>The invariant\<close>

definition progression_inv :: "progression \<Rightarrow> bool" where
  "progression_inv p \<longleftrightarrow>
     map_ok (pr_receipts p) \<and> map_ok (pr_used_intents p) \<and> map_ok (pr_used_intent_keys p) \<and>
     aggregator_inv (pr_group p) \<and>
     (\<not> pr_has_group p \<longrightarrow> (pr_status p = SST_ACTIVE \<or> pr_status p = SST_COMPLETED) \<and>
        sn_current_intent_id (pr_state p) = 0 \<and> sn_current_group_id (pr_state p) = 0) \<and>
     (pr_has_group p \<longrightarrow>
        ag_valid (pr_group p) \<and> pr_next_step p < max_series_step \<and>
        sn_current_step (pr_state p) = pr_next_step p \<and>
        ag_intent_id (pr_group p) = sn_current_intent_id (pr_state p) \<and>
        sn_current_intent_id (pr_state p) \<noteq> 0 \<and>
        set_count (pr_used_intents p) (sn_current_intent_id (pr_state p)) \<and>
        sn_outcome (pr_state p) = ag_outcome (pr_group p) \<and> \<not> go_final (ag_outcome (pr_group p)) \<and>
        pr_status p =
          (if go_all_members_terminal (ag_outcome (pr_group p)) then SST_BLOCKED_ERROR
           else if go_unresolved (ag_outcome (pr_group p)) then SST_UNRESOLVED else SST_WAITING_OUTCOME) \<and>
        (\<forall>k e. map_find (ag_receipts (pr_group p)) k = Some e \<longrightarrow> map_find (pr_receipts p) k = Some e))"

lemma bump_revision_simps [simp]:
  "sn_status (bump_revision s) = sn_status s" "sn_current_intent_id (bump_revision s) = sn_current_intent_id s"
  "sn_current_group_id (bump_revision s) = sn_current_group_id s" "sn_current_step (bump_revision s) = sn_current_step s"
  "sn_outcome (bump_revision s) = sn_outcome s"
  "tse_series_id (sn_series (bump_revision s)) = tse_series_id (sn_series s)"
  "tse_origin_signal_id (sn_series (bump_revision s)) = tse_origin_signal_id (sn_series s)"
  "tse_next_step (sn_series (bump_revision s)) = tse_next_step (sn_series s)"
  "tse_state_revision (sn_series (bump_revision s)) = tse_state_revision (sn_series s) + 1"
  by (simp_all add: bump_revision_def)

lemma make_progression_inv: "progression_inv (make_progression s)"
  by (simp add: progression_inv_def make_progression_def aggregator_inv_def aggregator_default_def)

lemma group_outcome_default_simps [simp]:
  "go_final group_outcome_default = False" "go_unresolved group_outcome_default = False"
  "go_all_members_terminal group_outcome_default = False" "go_net_profit group_outcome_default = None"
  by (simp_all add: group_outcome_default_def)

lemma begun_state_inv:
  assumes inv: "progression_inv p" and al: "begin_allowed p i ids c prec r"
  shows "progression_inv (begun_state p i ids c prec)"
proof -
  have "pr_next_step p < max_series_step" and "ti_intent_id i \<noteq> 0"
    using al by (auto simp: begin_allowed_def check_revision_applied intent_valid_def Let_def)
  then show ?thesis
    using inv al make_aggregator_inv
    by (simp add: progression_inv_def begun_state_def begin_allowed_def map_find_put)
qed

text \<open>The outcome of a group after an applied event.\<close>

lemma group_spec_status:
  "go_final (group_spec g z ms) \<longleftrightarrow> go_all_members_terminal (group_spec g z ms) \<and>
     go_aggregation_status (group_spec g z ms) \<noteq> AS_NUMERIC_OVERFLOW"
  by (simp add: group_spec_def Let_def)

lemma applied_outcome:
  assumes "aggregator_inv a" and "ag_valid a" and "settlement_ok e" and "fst (aggregator_apply a e) = PRG_APPLIED"
  shows "aggregator_inv (applied_state a e)"
    and "go_final (ag_outcome (applied_state a e)) \<longleftrightarrow> go_all_members_terminal (ag_outcome (applied_state a e)) \<and>
      go_aggregation_status (ag_outcome (applied_state a e)) \<noteq> AS_NUMERIC_OVERFLOW"
proof -
  show inv: "aggregator_inv (applied_state a e)"
    using aggregator_apply_inv [OF assms(1,3)] assms(4) by (simp add: aggregator_apply_state)
  have "ag_outcome (applied_state a e) = group_spec (ag_group a) (ag_zero a) (ag_members (applied_state a e))"
    using aggregator_inv_outcome [OF inv] assms(2) by (simp del: applied_state_fields(5-7))
  then show "go_final (ag_outcome (applied_state a e)) \<longleftrightarrow> go_all_members_terminal (ag_outcome (applied_state a e)) \<and>
      go_aggregation_status (ag_outcome (applied_state a e)) \<noteq> AS_NUMERIC_OVERFLOW"
    by (simp only: group_spec_status)
qed

lemma settled_state_inv:
  assumes inv: "progression_inv p" and h: "pr_has_group p" and ok: "settlement_ok e"
    and new: "map_find (pr_receipts p) (st_settlement_id e) = None"
    and ap: "fst (aggregator_apply (pr_group p) e) = PRG_APPLIED"
  shows "progression_inv (settled_state p e)"
proof -
  have g: "aggregator_inv (pr_group p)" "ag_valid (pr_group p)" using inv h by (simp_all add: progression_inv_def)
  note o = applied_outcome [OF g ok ap]
  have ro: "map_ok (pr_receipts p)" "map_ok (ag_receipts (pr_group p))"
    using inv aggregator_inv_maps [OF g(1)] by (simp_all add: progression_inv_def)
  have rec: "map_find (ag_receipts (applied_state (pr_group p) e)) k = Some x \<Longrightarrow>
      map_find (map_put (st_settlement_id e) e (pr_receipts p)) k = Some x" for k x
    using inv h ro by (auto simp: progression_inv_def map_find_put split: if_splits)
  show ?thesis
    using inv h o rec ro(1)
    by (auto simp: progression_inv_def settled_state_def Let_def simp del: applied_state_fields(5-7))
qed

lemma series_do_inv:
  assumes "progression_inv p" and "call_ok c"
  shows "progression_inv (snd (series_do p c))"
proof (cases c)
  case (Begin_call i ids cur prec r)
  then show ?thesis
    using assms begun_state_inv by (simp add: series_begin_state series_begin_applied_iff)
next
  case (Apply_call e r)
  show ?thesis
  proof (cases "fst (series_apply p e r) = PRG_APPLIED")
    case True
    then show ?thesis
      using assms Apply_call series_apply_applied [OF True] by (simp add: series_apply_state settled_state_inv)
  qed (use assms Apply_call series_apply_refused in simp)
next
  case (Complete_call r)
  show ?thesis
  proof (cases "fst (series_complete p r) = PRG_APPLIED")
    case True
    then show ?thesis
      using assms Complete_call series_complete_applied [OF True] by (auto simp: progression_inv_def split: if_splits)
  qed (use assms Complete_call series_complete_refused in simp)
qed

interpretation series: machine "\<lambda>p c. snd (series_do p c)" call_ok progression_inv
  by unfold_locales (rule series_do_inv)

subsection \<open>A blocked group accepts nothing\<close>

lemma all_terminal_members:
  "length (terminal_events ms) = length ms \<Longrightarrow> (k, v) \<in> set ms \<Longrightarrow> \<exists>e. v = Some e \<and> settlement_terminal e"
proof (induction ms)
  case (Cons m ms)
  obtain j w where m: "m = (j, w)" by (cases m)
  with Cons.prems(1) length_terminal_events [of ms]
  have "length (terminal_events ms) = length ms \<and> (\<exists>e. w = Some e \<and> settlement_terminal e)"
    by (cases w) (auto split: if_splits)
  with Cons m show ?case by auto
qed simp

lemma complete_group_refuses:
  assumes "aggregator_inv a" and "ag_valid a" and "go_all_members_terminal (ag_outcome a)" and "settlement_ok e"
  shows "fst (aggregator_apply a e) \<noteq> PRG_APPLIED"
proof
  assume "fst (aggregator_apply a e) = PRG_APPLIED"
  then have o: "member_open a (st_trade_id e)" using assms(4) by (simp add: aggregator_apply_applied)
  have "go_all_members_terminal (group_spec (ag_group a) (ag_zero a) (ag_members a))"
    using assms(1-3) aggregator_inv_outcome by fastforce
  then have "length (terminal_events (ag_members a)) = unat (gi_expected_members (ag_group a))"
    by (simp add: group_spec_def Let_def)
  then have "length (terminal_events (ag_members a)) = length (ag_members a)"
    using assms(1,2) by (simp add: aggregator_inv_def)
  from all_terminal_members [OF this] have "\<not> member_open a k" for k
    by (auto simp: member_open_def split: option.split dest!: map_of_SomeD)
  with o show False by blast
qed

subsection \<open>The abstract series\<close>

text \<open>What a series promises, without its snapshots, receipts and codes: it is idle, runs an
  operation (the members of its group with their latest events), is blocked or closed, and counts
  the steps done. Every transition names the call that causes it; where an event ends the last
  member, the events of the members alone decide which transition it is.\<close>

datatype series_view = Idle nat | Running nat "(u64, trade_settlement option) std_map" | Blocked nat | Closed nat

definition all_ended :: "(u64, trade_settlement option) std_map \<Rightarrow> bool" where
  "all_ended ms \<longleftrightarrow> (\<forall>(k, v)\<in>set ms. \<exists>e. v = Some e \<and> settlement_terminal e)"

definition awaits :: "(u64, trade_settlement option) std_map \<Rightarrow> trade_settlement \<Rightarrow> bool" where
  "awaits ms e \<longleftrightarrow> (\<exists>v. map_find ms (st_trade_id e) = Some v \<and> (\<forall>x. v = Some x \<longrightarrow> \<not> settlement_terminal x))"

inductive series_spec :: "series_view \<Rightarrow> series_call \<Rightarrow> series_view \<Rightarrow> bool" where
  start: "series_spec (Idle n) (Begin_call i ids c prec r) (Running n ms)"
    if "n < 2147483647" "0 \<le> ti_series_step i" "ti_series_step i mod 2 ^ 32 = int n" "distinct ids" "0 \<notin> set ids" "map_ok ms"
      "\<forall>k. map_find ms k = (if k \<in> set ids then Some None else None)"
| progress: "series_spec (Running n ms) (Apply_call e r) (Running n ms')"
    if "awaits ms e" "ms' = map_put (st_trade_id e) (Some e) ms" "\<not> all_ended ms'"
| executed: "series_spec (Running n ms) (Apply_call e r) (Idle (Suc n))"
    if "awaits ms e" "ms' = map_put (st_trade_id e) (Some e) ms" "all_ended ms'"
      "executed_units ms' \<noteq> []" "i64 (sum_list (executed_units ms'))"
| not_executed: "series_spec (Running n ms) (Apply_call e r) (Idle n)"
    if "awaits ms e" "ms' = map_put (st_trade_id e) (Some e) ms" "all_ended ms'" "executed_units ms' = []"
| block: "series_spec (Running n ms) (Apply_call e r) (Blocked n)"
    if "awaits ms e" "ms' = map_put (st_trade_id e) (Some e) ms" "all_ended ms'"
      "\<not> i64 (sum_list (executed_units ms'))"
| close: "series_spec (Idle n) (Complete_call r) (Closed n)"

inductive_simps series_spec_simps:
  "series_spec (Idle n) (Begin_call i ids c prec r) v" "series_spec (Running n ms) (Apply_call e r) v"
  "series_spec (Idle n) (Complete_call r) v"
inductive_cases series_spec_from: "series_spec (Blocked n) c v" "series_spec (Closed n) c v"

lemma i64_zero: "i64 0"
  by (simp add: i64_def)

text \<open>The promise leaves no choice: the view before and the call determine the view after.\<close>

lemma series_spec_deterministic: "series_spec v c v1 \<Longrightarrow> series_spec v c v2 \<Longrightarrow> v1 = v2"
proof (induction rule: series_spec.induct)
  case (start n i ms ids c prec r)
  from start.prems show ?case
    by cases (auto intro!: map_ok_ext start(6) simp: start(7))
qed (auto simp: series_spec_simps i64_zero)

definition series_abs :: "progression \<Rightarrow> series_view" where
  "series_abs p = (let n = unat (pr_next_step p) in case pr_status p of SST_ACTIVE \<Rightarrow> Idle n
     | SST_WAITING_OUTCOME \<Rightarrow> Running n (ag_members (pr_group p))
     | SST_UNRESOLVED \<Rightarrow> Running n (ag_members (pr_group p))
     | SST_BLOCKED_ERROR \<Rightarrow> Blocked n | SST_COMPLETED \<Rightarrow> Closed n)"

lemma pr_running:
  assumes "progression_inv p" and "pr_has_group p" and "\<not> go_all_members_terminal (ag_outcome (pr_group p))"
  shows "series_abs p = Running (unat (pr_next_step p)) (ag_members (pr_group p))"
  using assms by (auto simp: progression_inv_def series_abs_def split: if_splits)

lemma all_ended_iff: "all_ended ms \<longleftrightarrow> length (terminal_events ms) = length ms"
proof
  assume "all_ended ms"
  then show "length (terminal_events ms) = length ms"
    by (induction ms) (auto simp: all_ended_def)
qed (auto simp: all_ended_def dest: all_terminal_members)

text \<open>The outcome of an applied group, read from the members.\<close>

lemma applied_outcome_members:
  assumes "aggregator_inv a" and "ag_valid a" and "settlement_ok e" and "fst (aggregator_apply a e) = PRG_APPLIED"
    and ms: "ms' = map_put (st_trade_id e) (Some e) (ag_members a)"
  shows "go_all_members_terminal (ag_outcome (applied_state a e)) \<longleftrightarrow> all_ended ms'"
    and "go_aggregation_status (ag_outcome (applied_state a e)) = AS_NUMERIC_OVERFLOW \<longleftrightarrow>
      \<not> i64 (sum_list (executed_units ms'))"
    and "go_net_profit (ag_outcome (applied_state a e)) \<noteq> None \<longleftrightarrow>
      executed_units ms' \<noteq> [] \<and> i64 (sum_list (executed_units ms'))"
proof -
  have inv: "aggregator_inv (applied_state a e)"
    using aggregator_apply_inv [OF assms(1,3)] assms(4) by (simp add: aggregator_apply_state)
  have o: "ag_outcome (applied_state a e) = group_spec (ag_group a) (ag_zero a) ms'"
    using aggregator_inv_outcome [OF inv] assms(2) ms by (simp del: applied_state_fields(7))
  have "length (ag_members (applied_state a e)) = unat (gi_expected_members (ag_group (applied_state a e)))"
    using inv assms(2) unfolding aggregator_inv_def applied_state_fields(4) by blast
  then have l: "length ms' = unat (gi_expected_members (ag_group a))" by (simp add: ms)
  show "go_all_members_terminal (ag_outcome (applied_state a e)) \<longleftrightarrow> all_ended ms'"
    unfolding o by (simp add: group_spec_def Let_def all_ended_iff l)
  show "go_aggregation_status (ag_outcome (applied_state a e)) = AS_NUMERIC_OVERFLOW \<longleftrightarrow>
      \<not> i64 (sum_list (executed_units ms'))"
    unfolding o by (auto simp: group_spec_def Let_def i64_zero)
  show "go_net_profit (ag_outcome (applied_state a e)) \<noteq> None \<longleftrightarrow>
      executed_units ms' \<noteq> [] \<and> i64 (sum_list (executed_units ms'))"
    unfolding o by (simp add: group_spec_def Let_def)
qed

lemma member_open_awaits: "member_open a (st_trade_id e) \<longleftrightarrow> awaits (ag_members a) e"
  by (auto simp: member_open_def awaits_def split: option.splits)

lemma settled_state_spec:
  assumes inv: "progression_inv p" and h: "pr_has_group p" and ok: "settlement_ok e"
    and ap: "fst (aggregator_apply (pr_group p) e) = PRG_APPLIED"
  shows "series_spec (series_abs p) (Apply_call e r) (series_abs (settled_state p e))"
proof -
  have g: "aggregator_inv (pr_group p)" "ag_valid (pr_group p)" "pr_next_step p < max_series_step"
    using inv h by (simp_all add: progression_inv_def)
  have "\<not> go_all_members_terminal (ag_outcome (pr_group p))"
    using complete_group_refuses [OF g(1,2) _ ok] ap by blast
  note r = pr_running [OF inv h this]
  have w: "awaits (ag_members (pr_group p)) e"
    using ap aggregator_apply_applied [OF ok] by (simp add: member_open_awaits)
  have "unat (pr_next_step p) < 2147483647" using g(3) by (simp add: max_series_step_def word_less_nat_alt)
  then have s: "unat (pr_next_step p + 1) = Suc (unat (pr_next_step p))"
    by (subst unat_add_lem [THEN iffD1]) simp_all
  define ms' where "ms' = map_put (st_trade_id e) (Some e) (ag_members (pr_group p))"
  note o = applied_outcome_members [OF g(1,2) ok ap ms'_def]
  note f = applied_outcome(2) [OF g(1,2) ok ap]
  have m: "ag_members (applied_state (pr_group p) e) = ms'" by (simp add: ms'_def)
  show ?thesis
    unfolding r series_spec_simps ms'_def [symmetric]
    using w f o s i64_zero
    by (auto simp: series_abs_def settled_state_def Let_def m simp del: applied_state_fields(5-7))
qed

lemma roster_ok_ids: "roster_ok i grp ids c p \<Longrightarrow> distinct ids \<and> 0 \<notin> set ids"
  by (simp add: roster_ok_def)

lemma begun_state_spec:
  assumes "begin_allowed p i ids c prec r"
  shows "series_spec (series_abs p) (Begin_call i ids c prec r) (series_abs (begun_state p i ids c prec))"
proof -
  have al: "pr_status p = SST_ACTIVE" "pr_next_step p < max_series_step" "0 \<le> ti_series_step i"
    "word_of_int (ti_series_step i) = pr_next_step p" "roster_ok (ti_intent_id i) (begin_group i) ids c prec"
    using assms by (auto simp: begin_allowed_def check_revision_applied make_aggregator_valid)
  have "uint (pr_next_step p) = ti_series_step i mod 2 ^ 32"
    unfolding al(4) [symmetric] by (simp add: uint_word_of_int)
  then have "ti_series_step i mod 2 ^ 32 = int (unat (pr_next_step p))" by simp
  with al(2,3) roster_ok_ids [OF al(5)] make_aggregator_members(1) [OF al(5)]
    make_aggregator_members(3) [of "ti_intent_id i" "begin_group i" ids c prec]
  have "series_spec (Idle (unat (pr_next_step p))) (Begin_call i ids c prec r) (Running (unat (pr_next_step p))
      (ag_members (make_aggregator (ti_intent_id i) (begin_group i) ids c prec)))"
    by (intro series_spec.start) (simp_all add: max_series_step_def word_less_nat_alt)
  then show ?thesis by (simp add: series_abs_def begun_state_def al(1))
qed

lemma begun_state_revision: "pr_revision (begun_state p i ids c prec) = pr_revision p + 1"
  by (simp add: begun_state_def)

lemma settled_state_revision: "pr_revision (settled_state p e) = pr_revision p + 1"
  by (simp add: settled_state_def Let_def)

lemma series_do_refines:
  assumes inv: "progression_inv p" and ok: "call_ok c" and a: "fst (series_do p c) = PRG_APPLIED"
  shows "series_spec (series_abs p) c (series_abs (snd (series_do p c)))"
    and "unat (pr_revision (snd (series_do p c))) = Suc (unat (pr_revision p))"
proof -
  have "series_spec (series_abs p) c (series_abs (snd (series_do p c))) \<and>
    pr_revision (snd (series_do p c)) = pr_revision p + 1 \<and> (\<exists>r. check_revision p r = PRG_APPLIED)"
  proof (cases c)
    case (Begin_call i ids cur prec r)
    with a have al: "begin_allowed p i ids cur prec r" by (simp add: series_begin_applied_iff)
    then have "check_revision p r = PRG_APPLIED" by (simp add: begin_allowed_def)
    then show ?thesis
      using Begin_call a begun_state_spec [OF al] begun_state_revision [of p] by (auto simp: series_begin_state)
  next
    case (Apply_call e r)
    with a have a': "fst (series_apply p e r) = PRG_APPLIED" by simp
    note s = series_apply_applied [OF a']
    show ?thesis
      using Apply_call settled_state_spec [OF inv s(2) _ s(4)] ok s(1) by (auto simp: series_apply_state [OF a'] settled_state_revision)
  next
    case (Complete_call r)
    with a have a': "fst (series_complete p r) = PRG_APPLIED" by simp
    from series_complete_applied [OF a'] Complete_call show ?thesis
      by (auto simp: series_abs_def series_spec_simps)
  qed
  then show "series_spec (series_abs p) c (series_abs (snd (series_do p c)))"
    and "unat (pr_revision (snd (series_do p c))) = Suc (unat (pr_revision p))"
    by (auto simp: check_revision_applied intro: u64_succ)
qed

lemma series_do_refused: "fst (series_do p c) \<noteq> PRG_APPLIED \<Longrightarrow> snd (series_do p c) = p"
  by (cases c) (simp_all add: series_begin_state series_apply_refused series_complete_refused)

subsection \<open>Receipts and intents are never forgotten\<close>

lemma series_do_keeps:
  assumes "progression_inv p"
  shows "map_find (pr_receipts p) k = Some e \<Longrightarrow> map_find (pr_receipts (snd (series_do p c))) k = Some e"
    and "set_count (pr_used_intents p) i \<Longrightarrow> set_count (pr_used_intents (snd (series_do p c))) i"
    and "set_count (pr_used_intent_keys p) s \<Longrightarrow> set_count (pr_used_intent_keys (snd (series_do p c))) s"
proof -
  have m: "map_ok (pr_receipts p)" "map_ok (pr_used_intents p)" "map_ok (pr_used_intent_keys p)"
    using assms by (simp_all add: progression_inv_def)
  have x: "(map_find (pr_receipts p) k = Some e \<longrightarrow> map_find (pr_receipts (snd (series_do p c))) k = Some e) \<and>
    (set_count (pr_used_intents p) i \<longrightarrow> set_count (pr_used_intents (snd (series_do p c))) i) \<and>
    (set_count (pr_used_intent_keys p) s \<longrightarrow> set_count (pr_used_intent_keys (snd (series_do p c))) s)"
  proof (cases "fst (series_do p c) = PRG_APPLIED")
    case True
    show ?thesis
    proof (cases c)
      case (Begin_call i ids cur prec r)
      with True m show ?thesis by (simp add: series_begin_state begun_state_def map_find_put)
    next
      case (Apply_call ev r)
      then have a: "fst (series_apply p ev r) = PRG_APPLIED" using True by simp
      from series_apply_applied(3) [OF a] Apply_call m show ?thesis
        by (auto simp: series_apply_state [OF a] settled_state_def Let_def map_find_put)
    next
      case (Complete_call r)
      with True series_complete_applied(3) [of p r] show ?thesis by simp
    qed
  qed (simp add: series_do_refused)
  then show "map_find (pr_receipts p) k = Some e \<Longrightarrow> map_find (pr_receipts (snd (series_do p c))) k = Some e"
    "set_count (pr_used_intents p) i \<Longrightarrow> set_count (pr_used_intents (snd (series_do p c))) i"
    "set_count (pr_used_intent_keys p) s \<Longrightarrow> set_count (pr_used_intent_keys (snd (series_do p c))) s"
    by blast+
qed

lemma series_run_keeps:
  assumes "progression_inv p" and "list_all call_ok cs"
  shows "map_find (pr_receipts p) k = Some e \<Longrightarrow> map_find (pr_receipts (series_run p cs)) k = Some e"
    and "set_count (pr_used_intents p) i \<Longrightarrow> set_count (pr_used_intents (series_run p cs)) i"
    and "set_count (pr_used_intent_keys p) s \<Longrightarrow> set_count (pr_used_intent_keys (series_run p cs)) s"
  using series.run_keeps [where P = "\<lambda>p. map_find (pr_receipts p) k = Some e", OF series_do_keeps(1) assms]
    series.run_keeps [where P = "\<lambda>p. set_count (pr_used_intents p) i", OF series_do_keeps(2) assms]
    series.run_keeps [where P = "\<lambda>p. set_count (pr_used_intent_keys p) s", OF series_do_keeps(3) assms]
  by blast+

text \<open>A caller that reads the revision before each call sees an idempotent receiver.\<close>

interpretation series_receiver: idempotent_receiver "\<lambda>p e. series_apply p e (pr_revision p)"
    "\<lambda>p k. map_find (pr_receipts p) k" st_settlement_id "\<lambda>p. map_ok (pr_receipts p)"
    PRG_APPLIED PRG_DUPLICATE PRG_SETTLEMENT_CONFLICT
proof unfold_locales
  fix p m
  show "series_apply p m (pr_revision p) = (if m' = m then PRG_DUPLICATE else PRG_SETTLEMENT_CONFLICT, p)"
    if "map_find (pr_receipts p) (st_settlement_id m) = Some m'" for m'
    using that by (simp add: series_apply_def)
  show "map_find (pr_receipts (snd (series_apply p m (pr_revision p)))) = (map_find (pr_receipts p))(st_settlement_id m \<mapsto> m)"
    if "map_ok (pr_receipts p)" "fst (series_apply p m (pr_revision p)) = PRG_APPLIED"
    using that by (auto simp: series_apply_state settled_state_def Let_def map_find_put fun_eq_iff)
  show "snd (series_apply p m (pr_revision p)) = p" if "fst (series_apply p m (pr_revision p)) \<noteq> PRG_APPLIED"
    using that by (rule series_apply_refused)
  show "map_ok (pr_receipts (snd (series_apply p m (pr_revision p))))" if "map_ok (pr_receipts p)"
    using that by (cases "fst (series_apply p m (pr_revision p)) = PRG_APPLIED")
      (simp_all add: series_apply_state settled_state_def Let_def series_apply_refused)
qed simp_all

subsection \<open>Properties\<close>

definition sample_series :: trade_series where
  "sample_series = \<lparr>tse_series_id = 3, tse_origin_signal_id = 4, tse_next_step = 0, tse_state_revision = 0\<rparr>"

definition sample_intent :: trade_intent where
  "sample_intent = trade_intent_default\<lparr>ti_intent_id := 1, ti_origin_signal_id := 4, ti_series_id := 3,
     ti_series_step := 0, ti_execution_group := \<lparr>gi_group_id = 7, gi_expected_members = 2\<rparr>,
     ti_cardinality := EC_SPLIT_GROUP, ti_idempotency_key := ''k''\<rparr>"

definition sample_begun :: progression where
  "sample_begun = series_run (make_progression sample_series) [Begin_call sample_intent [10, 11] CUR_USD 2 0]"

lemma sample_begun_inv: "progression_inv sample_begun"
  unfolding sample_begun_def by (rule series.run_inv [OF make_progression_inv]) simp

lemma sample_settlement_ok: "settlement_ok (sample_settlement s k 500)" "settlement_ok (sample_settlement s k (- 700))"
  "settlement_ok (sample_settlement s k i64_max)"
  by (simp_all add: settlement_ok_def sample_settlement_def money_ok_def i64_def)

text \<open>C3: After any history, a series call either answers APPLIED, takes exactly the transition the
  abstract series names for that call, and raises the revision by exactly one without wrapping, or
  it changes nothing at all. The transition is decided by the call and the members: \<open>begin\<close> starts
  an operation for the current step with every member open; a settlement for an open member is
  recorded; the settlement that ends the last member advances the step when some member was
  executed and the total fits, leaves it when none was, and blocks the series when the total
  leaves 64 bits; \<open>complete\<close> closes an idle series. Nothing leaves a blocked or closed series.\<close>

theorem series_refinement:
  assumes "list_all call_ok cs" and "call_ok c"
  shows "case series_do (series_run (make_progression s) cs) c of (result, p') \<Rightarrow>
    if result = PRG_APPLIED
    then series_spec (series_abs (series_run (make_progression s) cs)) c (series_abs p') \<and>
      unat (pr_revision p') = Suc (unat (pr_revision (series_run (make_progression s) cs)))
    else p' = series_run (make_progression s) cs"
proof -
  have "progression_inv (series_run (make_progression s) cs)"
    using make_progression_inv assms(1) by (rule series.run_inv)
  from series_do_refines [OF this assms(2)] series_do_refused [of "series_run (make_progression s) cs" c]
  show ?thesis by (simp add: split_def)
qed

text \<open>A split group of two: the second settlement ends it with a loss, and the step advances.\<close>

theorem series_refinement_witness:
  "series_spec (series_abs (series_run sample_begun [Apply_call (sample_settlement 1 10 500) 1]))
     (Apply_call (sample_settlement 2 11 (- 700)) 2) (Idle 1)"
proof -
  let ?cs = "[Begin_call sample_intent [10, 11] CUR_USD 2 0, Apply_call (sample_settlement 1 10 500) 1]"
  let ?c = "Apply_call (sample_settlement 2 11 (- 700)) 2"
  have "fst (series_do (series_run (make_progression sample_series) ?cs) ?c) = PRG_APPLIED"
    "series_abs (snd (series_do (series_run (make_progression sample_series) ?cs) ?c)) = Idle 1"
    by code_simp+
  with series_refinement [of ?cs ?c sample_series] sample_settlement_ok
  show ?thesis by (simp add: sample_begun_def split_def)
qed

text \<open>The step counter moves exactly when it should. An applied settlement closes the running
  operation exactly when the group outcome is final, and then advances the next step by one, never
  wrapping, exactly when some member was executed; otherwise the step stays.\<close>

theorem step_advances_on_execution:
  assumes "progression_inv p" and "settlement_ok e" and "fst (series_apply p e r) = PRG_APPLIED"
  shows "unat (pr_next_step (snd (series_apply p e r))) = unat (pr_next_step p) +
      (let out = sn_outcome (pr_state (snd (series_apply p e r))) in if go_final out \<and> go_net_profit out \<noteq> None then 1 else 0) \<and>
    (pr_has_group (snd (series_apply p e r)) \<longleftrightarrow> \<not> go_final (sn_outcome (pr_state (snd (series_apply p e r)))))"
proof -
  note a = series_apply_applied [OF assms(3)]
  have g: "aggregator_inv (pr_group p)" "ag_valid (pr_group p)" "pr_next_step p < max_series_step"
    using assms(1) a(2) by (simp_all add: progression_inv_def)
  note o = applied_outcome(2) [OF g(1,2) assms(2) a(4)]
  have "unat (pr_next_step p) < 2147483647" using g(3) by (simp add: max_series_step_def word_less_nat_alt)
  then have "unat (pr_next_step p + 1) = Suc (unat (pr_next_step p))"
    by (subst unat_add_lem [THEN iffD1]) simp_all
  then show ?thesis
    using a(2) o by (auto simp: series_apply_state [OF assms(3)] settled_state_def Let_def simp del: applied_state_fields(5-7))
qed

theorem step_advances_on_execution_witness:
  "let p = snd (series_apply sample_begun (sample_settlement 1 10 500) 1)
   in unat (pr_next_step (snd (series_apply p (sample_settlement 2 11 (- 700)) 2))) = 1"
proof -
  let ?p = "snd (series_apply sample_begun (sample_settlement 1 10 500) 1)"
  let ?q = "snd (series_apply ?p (sample_settlement 2 11 (- 700)) 2)"
  have "progression_inv ?p"
    using series_do_inv [OF sample_begun_inv, of "Apply_call (sample_settlement 1 10 500) 1"] sample_settlement_ok by simp
  moreover have "fst (series_apply ?p (sample_settlement 2 11 (- 700)) 2) = PRG_APPLIED" by code_simp
  moreover have "go_final (sn_outcome (pr_state ?q))" "go_net_profit (sn_outcome (pr_state ?q)) \<noteq> None"
    "unat (pr_next_step ?p) = 0" by code_simp+
  ultimately show ?thesis
    using step_advances_on_execution [of ?p "sample_settlement 2 11 (- 700)" 2] sample_settlement_ok by (simp add: Let_def)
qed

text \<open>An intent starts at most one operation. Once \<open>begin\<close> was applied for an intent, whatever
  calls follow, no \<open>begin\<close> with the same intent id or the same idempotency key is applied again.\<close>

theorem intent_used_once:
  assumes "progression_inv p" and "fst (series_begin p i ids c prec r) = PRG_APPLIED" and "list_all call_ok cs"
    and "ti_intent_id j = ti_intent_id i \<or> ti_idempotency_key j = ti_idempotency_key i"
  shows "fst (series_begin (series_run (snd (series_begin p i ids c prec r)) cs) j ids' c' prec' r') \<noteq> PRG_APPLIED"
proof -
  let ?p = "snd (series_begin p i ids c prec r)"
  have inv: "progression_inv ?p" using series_do_inv [OF assms(1), of "Begin_call i ids c prec r"] by simp
  have "map_ok (pr_used_intents p)" "map_ok (pr_used_intent_keys p)" using assms(1) by (simp_all add: progression_inv_def)
  then have "set_count (pr_used_intents ?p) (ti_intent_id i)" "set_count (pr_used_intent_keys ?p) (ti_idempotency_key i)"
    using assms(2) by (simp_all add: series_begin_state begun_state_def map_find_put)
  from series_run_keeps(2) [OF inv assms(3) this(1)] series_run_keeps(3) [OF inv assms(3) this(2)] assms(4)
  show ?thesis by (auto simp: series_begin_applied_iff begin_allowed_def)
qed

theorem intent_used_once_witness:
  "fst (series_begin sample_begun sample_intent [10, 11] CUR_USD 2 1) \<noteq> PRG_APPLIED"
proof -
  have "fst (series_begin (make_progression sample_series) sample_intent [10, 11] CUR_USD 2 0) = PRG_APPLIED" by code_simp
  from intent_used_once [OF make_progression_inv this, of "[]" sample_intent "[10, 11]" CUR_USD 2 1]
  show ?thesis by (simp add: sample_begun_def)
qed

text \<open>BLOCKED\_ERROR is final: a series whose group total overflowed is never changed again, by
  any sequence of calls, so the stuck result cannot be counted or skipped.\<close>

theorem blocked_series_frozen:
  assumes "progression_inv p" and "pr_status p = SST_BLOCKED_ERROR" and "list_all call_ok cs"
  shows "series_run p cs = p"
  using assms(3)
proof (induction cs)
  case (Cons c cs)
  have "fst (series_do p c) \<noteq> PRG_APPLIED"
  proof
    assume "fst (series_do p c) = PRG_APPLIED"
    then have "series_spec (series_abs p) c (series_abs (snd (series_do p c)))"
      using assms(1) Cons.prems by (intro series_do_refines) simp_all
    then show False using assms(2) by (auto simp: series_abs_def elim: series_spec_from)
  qed
  with Cons show ?case by (simp add: series_do_refused)
qed simp

theorem blocked_series_frozen_witness:
  "let p = series_run sample_begun [Apply_call (sample_settlement 1 10 i64_max) 1, Apply_call (sample_settlement 2 11 i64_max) 2]
   in pr_status p = SST_BLOCKED_ERROR \<and> series_run p [Complete_call 3] = p"
proof -
  let ?p = "series_run sample_begun [Apply_call (sample_settlement 1 10 i64_max) 1, Apply_call (sample_settlement 2 11 i64_max) 2]"
  have "progression_inv ?p"
    using sample_settlement_ok by (intro series.run_inv [OF sample_begun_inv]) simp
  moreover have s: "pr_status ?p = SST_BLOCKED_ERROR" by code_simp
  ultimately have "series_run ?p [Complete_call 3] = ?p" by (intro blocked_series_frozen) simp_all
  with s show ?thesis by (simp only: Let_def simp_thms)
qed

text \<open>A settlement counts once for a series. After it was applied, whatever calls follow and
  whatever revision the sender names, redelivering it answers DUPLICATE, another event under its
  identifier answers SETTLEMENT\_CONFLICT, and neither changes the series.\<close>

theorem series_settlement_once:
  assumes "progression_inv p" and "fst (series_apply p e r) = PRG_APPLIED" and "settlement_ok e"
    and "list_all call_ok cs" and "st_settlement_id e2 = st_settlement_id e"
  shows "series_apply (series_run (snd (series_apply p e r)) cs) e2 r2 =
    (if e2 = e then PRG_DUPLICATE else PRG_SETTLEMENT_CONFLICT, series_run (snd (series_apply p e r)) cs)"
proof -
  have inv: "progression_inv (snd (series_apply p e r))"
    using series_do_inv [OF assms(1), of "Apply_call e r"] assms(3) by simp
  have "map_ok (pr_receipts p)" using assms(1) by (simp add: progression_inv_def)
  then have "map_find (pr_receipts (snd (series_apply p e r))) (st_settlement_id e) = Some e"
    by (simp add: series_apply_state [OF assms(2)] settled_state_def Let_def map_find_put)
  from series_run_keeps(1) [OF inv assms(4) this] assms(5) show ?thesis by (simp add: series_apply_def)
qed

theorem series_settlement_once_witness:
  "fst (series_apply (snd (series_apply sample_begun (sample_settlement 1 10 500) 1)) (sample_settlement 1 10 500) 99) = PRG_DUPLICATE"
proof -
  have "fst (series_apply sample_begun (sample_settlement 1 10 500) 1) = PRG_APPLIED" by code_simp
  from series_settlement_once [OF sample_begun_inv this sample_settlement_ok(1), of "[]"] show ?thesis by simp
qed

end
