(* ===== verification/Risk.thy ===== *)
theory Risk
  imports Aggregator
begin

section \<open>Risk admission\<close>

text \<open>
  \<open>trading_system/RiskAdmission.hpp\<close>: the owner of the reservations of one risk scope. Every
  public operation reads and changes the state under one mutex held to its end, so an operation is
  one atomic step of \<open>risk_admission\<close>. The lemmas keep the invariant \<open>risk_inv\<close>: one reservation per
  idempotency key and per intent, one currency, distinct identifiers and an exact sum of active
  risk within the configured limit.
\<close>

subsection \<open>Data\<close>

datatype risk_scope_kind = RSK_ACCOUNT | RSK_STRATEGY | RSK_GROUP

record risk_scope =
  rs_kind :: risk_scope_kind
  rs_scope_id :: u64

definition scope_valid :: "risk_scope \<Rightarrow> bool" where
  "scope_valid s \<longleftrightarrow> rs_scope_id s \<noteq> 0"

datatype risk_availability = RA_SUPPORTED | RA_UNAVAILABLE | RA_STALE

record account_snapshot =
  as_availability :: risk_availability
  as_available_balance :: money_amount
  as_captured_at_ms :: int
  as_revision :: u64

definition snapshot_valid :: "account_snapshot \<Rightarrow> bool" where
  "snapshot_valid s \<longleftrightarrow>
     as_availability s = RA_SUPPORTED \<and> valid_metadata (as_available_balance s) \<and>
     0 \<le> ma_units (as_available_balance s)"

record risk_config =
  rc_scope :: risk_scope
  rc_max_snapshot_age_ms :: int
  rc_max_reserved_risk :: "money_amount option"

definition config_valid :: "risk_config \<Rightarrow> bool" where
  "config_valid c \<longleftrightarrow>
     scope_valid (rc_scope c) \<and> 0 \<le> rc_max_snapshot_age_ms c \<and>
     (case rc_max_reserved_risk c of None \<Rightarrow> True | Some m \<Rightarrow> valid_metadata m \<and> 0 < ma_units m)"

record risk_request =
  rq_intent_id :: u64
  rq_execution_group :: group_identity
  rq_cardinality :: execution_cardinality
  rq_intent_status :: intent_status
  rq_idempotency_key :: string
  rq_stake :: money_amount
  rq_potential_risk :: money_amount

definition request_from_intent :: "trade_intent \<Rightarrow> money_amount \<Rightarrow> money_amount \<Rightarrow> risk_request" where
  "request_from_intent intent stake potential_risk =
     \<lparr>rq_intent_id = ti_intent_id intent, rq_execution_group = ti_execution_group intent,
      rq_cardinality = ti_cardinality intent, rq_intent_status = ti_status intent,
      rq_idempotency_key = ti_idempotency_key intent, rq_stake = stake, rq_potential_risk = potential_risk\<rparr>"

definition valid_identity :: "risk_request \<Rightarrow> bool" where
  "valid_identity r \<longleftrightarrow>
     rq_intent_id r \<noteq> 0 \<and> rq_idempotency_key r \<noteq> [] \<and>
     valid_for_cardinality (rq_execution_group r) (rq_cardinality r) \<and>
     (rq_intent_status r = IS_PROPOSED \<or> rq_intent_status r = IS_ADMITTED)"

datatype reservation_state = RRS_RESERVED | RRS_SUBMITTED | RRS_EXECUTION_UNKNOWN | RRS_RELEASED | RRS_SETTLED

datatype admission_kind =
    RAK_ADMITTED | RAK_APPLIED | RAK_DUPLICATE | RAK_REJECTED | RAK_UNAVAILABLE | RAK_CONFLICT | RAK_INVALID_STATE

datatype admission_reason =
    RAR_NONE | RAR_RESERVED | RAR_COMMITTED | RAR_RELEASED | RAR_EXECUTION_UNKNOWN | RAR_SETTLED
  | RAR_INVALID_CONFIGURATION | RAR_INVALID_REQUEST | RAR_INVALID_RISK | RAR_CURRENCY_MISMATCH
  | RAR_PRECISION_MISMATCH | RAR_SNAPSHOT_UNAVAILABLE | RAR_SNAPSHOT_STALE | RAR_BALANCE_LIMIT_EXCEEDED
  | RAR_RISK_LIMIT_EXCEEDED | RAR_NUMERIC_OVERFLOW | RAR_UNKNOWN_RESERVATION | RAR_INVALID_TRANSITION
  | RAR_PAYLOAD_CONFLICT | RAR_REVISION_CONFLICT | RAR_INVALID_SETTLEMENT_EVIDENCE

record risk_reservation =
  rr_reservation_id :: u64
  rr_scope :: risk_scope
  rr_intent_id :: u64
  rr_execution_group :: group_identity
  rr_cardinality :: execution_cardinality
  rr_idempotency_key :: string
  rr_stake :: money_amount
  rr_potential_risk :: money_amount
  rr_state :: reservation_state
  rr_account_revision :: u64

definition reservation_valid :: "risk_reservation \<Rightarrow> bool" where
  "reservation_valid r \<longleftrightarrow>
     rr_reservation_id r \<noteq> 0 \<and> scope_valid (rr_scope r) \<and> rr_intent_id r \<noteq> 0 \<and>
     rr_idempotency_key r \<noteq> [] \<and> valid_metadata (rr_stake r) \<and> valid_metadata (rr_potential_risk r)"

subsection \<open>Settlement evidence\<close>

record settlement_evidence =
  se_reservation_id :: u64
  se_intent_id :: u64
  se_execution_group :: group_identity
  se_outcome :: group_outcome
  se_settlements :: "trade_settlement list"

text \<open>The loop over the settlements: the trade ids collected, or \<open>None\<close> for \<open>return false\<close>.\<close>

fun evidence_loop ::
  "u64 \<Rightarrow> u64 \<Rightarrow> u64 std_set \<Rightarrow> u64 std_set \<Rightarrow> trade_settlement list \<Rightarrow> u64 std_set option" where
  "evidence_loop intent_id group_id sids tids [] = Some tids"
| "evidence_loop intent_id group_id sids tids (s # ss) =
     (if \<not> settlement_valid s \<or> \<not> settlement_terminal s \<or> st_intent_id s \<noteq> intent_id \<or>
         st_execution_group_id s \<noteq> group_id then None
      else
        let (sids', new_sid) = set_insert (st_settlement_id s) sids
        in if \<not> new_sid then None
        else
          let (tids', new_tid) = set_insert (st_trade_id s) tids
          in if \<not> new_tid then None else evidence_loop intent_id group_id sids' tids' ss)"

definition same_outcome :: "group_outcome \<Rightarrow> group_outcome \<Rightarrow> bool" where
  "same_outcome lhs rhs =
     (if go_final lhs \<noteq> go_final rhs \<or> go_unresolved lhs \<noteq> go_unresolved rhs \<or>
         go_all_members_terminal lhs \<noteq> go_all_members_terminal rhs \<or>
         go_completed_members lhs \<noteq> go_completed_members rhs \<or>
         go_aggregation_status lhs \<noteq> go_aggregation_status rhs \<or> go_kind lhs \<noteq> go_kind rhs \<or>
         (go_net_profit lhs \<noteq> None) \<noteq> (go_net_profit rhs \<noteq> None)
      then False
      else case (go_net_profit lhs, go_net_profit rhs) of
             (Some l, Some r) \<Rightarrow>
               ma_units l = ma_units r \<and> ma_precision l = ma_precision r \<and> ma_currency l = ma_currency r
           | _ \<Rightarrow> True)"

definition evidence_valid_for :: "settlement_evidence \<Rightarrow> risk_reservation \<Rightarrow> bool" where
  "evidence_valid_for ev r =
     (let out = se_outcome ev; grp = se_execution_group ev
      in if se_reservation_id ev \<noteq> rr_reservation_id r \<or> se_intent_id ev \<noteq> rr_intent_id r \<or>
            gi_group_id grp \<noteq> gi_group_id (rr_execution_group r) \<or>
            gi_expected_members grp \<noteq> gi_expected_members (rr_execution_group r) \<or>
            \<not> go_final out \<or> \<not> go_all_members_terminal out \<or> go_unresolved out \<or>
            go_aggregation_status out \<noteq> AS_READY \<or> go_kind out = None \<or>
            go_completed_members out \<noteq> gi_expected_members grp \<or>
            length (se_settlements ev) \<noteq> unat (gi_expected_members grp)
      then False
      else case evidence_loop (se_intent_id ev) (gi_group_id grp) [] [] (se_settlements ev) of
        None \<Rightarrow> False
      | Some trade_ids \<Rightarrow>
          let roster = map fst trade_ids;
              aggregator = make_aggregator (rr_intent_id r) (rr_execution_group r) roster
                (ma_currency (rr_potential_risk r)) (ma_precision (rr_potential_risk r))
          in if \<not> ag_valid aggregator then False
          else case apply_all aggregator (se_settlements ev) of
            None \<Rightarrow> False
          | Some a \<Rightarrow>
              if go_aggregation_status (ag_outcome a) \<noteq> AS_READY then False
              else same_outcome (ag_outcome a) out)"

subsection \<open>Results\<close>

record admission_result =
  ar_kind :: admission_kind
  ar_reason :: admission_reason
  ar_reservation :: "risk_reservation option"

definition res_applied :: "admission_reason \<Rightarrow> risk_reservation \<Rightarrow> admission_result" where
  "res_applied reason r = \<lparr>ar_kind = RAK_APPLIED, ar_reason = reason, ar_reservation = Some r\<rparr>"

definition res_admitted :: "risk_reservation \<Rightarrow> admission_result" where
  "res_admitted r = \<lparr>ar_kind = RAK_ADMITTED, ar_reason = RAR_RESERVED, ar_reservation = Some r\<rparr>"

definition res_duplicate :: "risk_reservation \<Rightarrow> admission_result" where
  "res_duplicate r = \<lparr>ar_kind = RAK_DUPLICATE, ar_reason = RAR_NONE, ar_reservation = Some r\<rparr>"

definition res_rejected :: "admission_reason \<Rightarrow> admission_result" where
  "res_rejected reason = \<lparr>ar_kind = RAK_REJECTED, ar_reason = reason, ar_reservation = None\<rparr>"

definition res_unavailable :: "admission_reason \<Rightarrow> admission_result" where
  "res_unavailable reason = \<lparr>ar_kind = RAK_UNAVAILABLE, ar_reason = reason, ar_reservation = None\<rparr>"

definition res_conflict :: "admission_reason \<Rightarrow> admission_result" where
  "res_conflict reason = \<lparr>ar_kind = RAK_CONFLICT, ar_reason = reason, ar_reservation = None\<rparr>"

definition res_invalid_state :: "admission_reason \<Rightarrow> admission_result" where
  "res_invalid_state reason = \<lparr>ar_kind = RAK_INVALID_STATE, ar_reason = reason, ar_reservation = None\<rparr>"

definition has_state :: "admission_result \<Rightarrow> reservation_state \<Rightarrow> bool" where
  "has_state r st \<longleftrightarrow> (case ar_reservation r of None \<Rightarrow> False | Some v \<Rightarrow> rr_state v = st)"

definition res_succeeded :: "admission_result \<Rightarrow> bool" where
  "res_succeeded r \<longleftrightarrow> ar_kind r = RAK_ADMITTED \<or> ar_kind r = RAK_APPLIED \<or>
     ar_kind r = RAK_DUPLICATE \<and> has_state r RRS_RESERVED"

definition retains_risk :: "admission_result \<Rightarrow> bool" where
  "retains_risk r \<longleftrightarrow>
     has_state r RRS_RESERVED \<or> has_state r RRS_SUBMITTED \<or> has_state r RRS_EXECUTION_UNKNOWN"

definition is_submission_admission :: "admission_result \<Rightarrow> bool" where
  "is_submission_admission r \<longleftrightarrow> ar_kind r = RAK_ADMITTED \<or>
     ar_kind r = RAK_DUPLICATE \<and> has_state r RRS_RESERVED"

subsection \<open>The owner\<close>

record risk_admission =
  ra_config :: risk_config
  ra_snapshot :: "account_snapshot option"
  ra_next_reservation_id :: u64
  ra_id_sequence_valid :: bool
  ra_id_sequence_exhausted :: bool
  ra_by_key :: "(string, risk_reservation) std_map"
  ra_by_intent :: "(u64, string) std_map"

definition make_risk_admission :: "risk_config \<Rightarrow> u64 \<Rightarrow> risk_admission" where
  "make_risk_admission config first_reservation_id =
     \<lparr>ra_config = config, ra_snapshot = None, ra_next_reservation_id = first_reservation_id,
      ra_id_sequence_valid = (first_reservation_id \<noteq> 0), ra_id_sequence_exhausted = False,
      ra_by_key = [], ra_by_intent = []\<rparr>"

definition risk_valid :: "risk_admission \<Rightarrow> bool" where
  "risk_valid a \<longleftrightarrow> config_valid (ra_config a) \<and> ra_id_sequence_valid a"

definition same_currency :: "money_amount \<Rightarrow> money_amount \<Rightarrow> bool" where
  "same_currency lhs rhs \<longleftrightarrow> ma_currency lhs = ma_currency rhs \<and> ma_precision lhs = ma_precision rhs"

definition same_snapshot :: "account_snapshot \<Rightarrow> account_snapshot \<Rightarrow> bool" where
  "same_snapshot lhs rhs \<longleftrightarrow>
     as_availability lhs = as_availability rhs \<and>
     ma_units (as_available_balance lhs) = ma_units (as_available_balance rhs) \<and>
     same_currency (as_available_balance lhs) (as_available_balance rhs) \<and>
     as_captured_at_ms lhs = as_captured_at_ms rhs"

definition update_snapshot :: "risk_admission \<Rightarrow> account_snapshot \<Rightarrow> admission_result \<times> risk_admission" where
  "update_snapshot a snapshot =
     (if \<not> risk_valid a \<or> \<not> snapshot_valid snapshot
      then (res_unavailable (if as_availability snapshot = RA_STALE then RAR_SNAPSHOT_STALE
                             else RAR_SNAPSHOT_UNAVAILABLE), a)
      else case ra_snapshot a of
        None \<Rightarrow> (\<lparr>ar_kind = RAK_APPLIED, ar_reason = RAR_NONE, ar_reservation = None\<rparr>,
                 a\<lparr>ra_snapshot := Some snapshot\<rparr>)
      | Some old \<Rightarrow>
          if as_revision snapshot < as_revision old then (res_conflict RAR_REVISION_CONFLICT, a)
          else if as_revision snapshot = as_revision old then
            (if same_snapshot old snapshot
             then \<lparr>ar_kind = RAK_DUPLICATE, ar_reason = RAR_NONE, ar_reservation = None\<rparr>
             else res_conflict RAR_REVISION_CONFLICT, a)
          else if \<not> same_currency (as_available_balance old) (as_available_balance snapshot) then
            (res_conflict
               (if ma_currency (as_available_balance old) \<noteq> ma_currency (as_available_balance snapshot)
                then RAR_CURRENCY_MISMATCH else RAR_PRECISION_MISMATCH), a)
          else (\<lparr>ar_kind = RAK_APPLIED, ar_reason = RAR_NONE, ar_reservation = None\<rparr>,
                a\<lparr>ra_snapshot := Some snapshot\<rparr>))"

definition normalized_group :: "risk_request \<Rightarrow> group_identity" where
  "normalized_group r = (if rq_cardinality r = EC_ZERO_OR_ONE
     then (rq_execution_group r)\<lparr>gi_expected_members := 1\<rparr> else rq_execution_group r)"

definition same_request :: "risk_reservation \<Rightarrow> risk_request \<Rightarrow> bool" where
  "same_request stored r \<longleftrightarrow>
     rr_intent_id stored = rq_intent_id r \<and>
     gi_group_id (rr_execution_group stored) = gi_group_id (normalized_group r) \<and>
     gi_expected_members (rr_execution_group stored) = gi_expected_members (normalized_group r) \<and>
     rr_cardinality stored = rq_cardinality r \<and>
     ma_units (rr_stake stored) = ma_units (rq_stake r) \<and> same_currency (rr_stake stored) (rq_stake r) \<and>
     ma_units (rr_potential_risk stored) = ma_units (rq_potential_risk r) \<and>
     same_currency (rr_potential_risk stored) (rq_potential_risk r)"

definition can_add :: "int \<Rightarrow> int \<Rightarrow> bool" where
  "can_add lhs rhs \<longleftrightarrow> 0 \<le> rhs \<and> lhs \<le> i64_max - rhs"

fun active_loop :: "int \<Rightarrow> (string \<times> risk_reservation) list \<Rightarrow> int" where
  "active_loop tot [] = tot"
| "active_loop tot ((k, r) # rs) =
     (if rr_state r = RRS_RELEASED \<or> rr_state r = RRS_SETTLED then active_loop tot rs
      else if can_add tot (ma_units (rr_potential_risk r))
           then active_loop (tot + ma_units (rr_potential_risk r)) rs
      else i64_max)"

definition active_risk_units :: "risk_admission \<Rightarrow> int" where
  "active_risk_units a = active_loop 0 (ra_by_key a)"

definition new_reservation :: "risk_admission \<Rightarrow> account_snapshot \<Rightarrow> risk_request \<Rightarrow> risk_reservation" where
  "new_reservation a snapshot request =
     \<lparr>rr_reservation_id = ra_next_reservation_id a, rr_scope = rc_scope (ra_config a),
      rr_intent_id = rq_intent_id request, rr_execution_group = normalized_group request,
      rr_cardinality = rq_cardinality request, rr_idempotency_key = rq_idempotency_key request,
      rr_stake = rq_stake request, rr_potential_risk = rq_potential_risk request,
      rr_state = RRS_RESERVED, rr_account_revision = as_revision snapshot\<rparr>"

definition reserve :: "risk_admission \<Rightarrow> risk_request \<Rightarrow> int \<Rightarrow> admission_result \<times> risk_admission" where
  "reserve a request now_ms =
     (if \<not> risk_valid a then (res_rejected RAR_INVALID_CONFIGURATION, a)
      else if \<not> valid_identity request then (res_rejected RAR_INVALID_REQUEST, a)
      else case map_find (ra_by_key a) (rq_idempotency_key request) of
        Some existing \<Rightarrow>
          (if same_request existing request then res_duplicate existing
           else res_conflict RAR_PAYLOAD_CONFLICT, a)
      | None \<Rightarrow>
      if map_find (ra_by_intent a) (rq_intent_id request) \<noteq> None then (res_conflict RAR_PAYLOAD_CONFLICT, a)
      else if ra_id_sequence_exhausted a then (res_rejected RAR_NUMERIC_OVERFLOW, a)
      else if \<not> valid_metadata (rq_stake request) \<or> \<not> valid_metadata (rq_potential_risk request)
      then (res_rejected RAR_INVALID_RISK, a)
      else if \<not> same_currency (rq_stake request) (rq_potential_risk request)
      then (res_rejected (if ma_currency (rq_stake request) \<noteq> ma_currency (rq_potential_risk request)
                          then RAR_CURRENCY_MISMATCH else RAR_PRECISION_MISMATCH), a)
      else if ma_units (rq_stake request) \<le> 0 \<or> ma_units (rq_potential_risk request) \<le> 0
      then (res_rejected RAR_INVALID_RISK, a)
      else case ra_snapshot a of
        None \<Rightarrow> (res_unavailable RAR_SNAPSHOT_UNAVAILABLE, a)
      | Some snapshot \<Rightarrow>
      if as_availability snapshot \<noteq> RA_SUPPORTED then (res_unavailable RAR_SNAPSHOT_UNAVAILABLE, a)
      else if \<not> same_currency (as_available_balance snapshot) (rq_potential_risk request)
      then (res_rejected (if ma_currency (as_available_balance snapshot) \<noteq> ma_currency (rq_potential_risk request)
                          then RAR_CURRENCY_MISMATCH else RAR_PRECISION_MISMATCH), a)
      else if now_ms < as_captured_at_ms snapshot \<or>
              u64_of_i64 (rc_max_snapshot_age_ms (ra_config a))
                < u64_of_i64 now_ms - u64_of_i64 (as_captured_at_ms snapshot)
      then (res_unavailable RAR_SNAPSHOT_STALE, a)
      else
        let reserved = active_risk_units a
        in if \<not> can_add reserved (ma_units (rq_potential_risk request)) then (res_rejected RAR_NUMERIC_OVERFLOW, a)
        else
          let next_reserved = reserved + ma_units (rq_potential_risk request)
          in if ma_units (as_available_balance snapshot) < next_reserved
             then (res_rejected RAR_BALANCE_LIMIT_EXCEEDED, a)
          else
            let limit_error =
              (case rc_max_reserved_risk (ra_config a) of
                 None \<Rightarrow> None
               | Some m \<Rightarrow>
                   if ma_currency m \<noteq> ma_currency (rq_potential_risk request) then Some RAR_CURRENCY_MISMATCH
                   else if ma_precision m \<noteq> ma_precision (rq_potential_risk request)
                   then Some RAR_PRECISION_MISMATCH
                   else if ma_units m < next_reserved then Some RAR_RISK_LIMIT_EXCEEDED
                   else None)
            in case limit_error of Some err \<Rightarrow> (res_rejected err, a)
            | None \<Rightarrow>
              let reservation = new_reservation a snapshot request;
                  (by_key, inserted_key) =
                    map_emplace (rr_idempotency_key reservation) reservation (ra_by_key a);
                  (by_intent, inserted_intent) =
                    map_emplace (rr_intent_id reservation) (rr_idempotency_key reservation) (ra_by_intent a)
              in if \<not> inserted_key \<or> \<not> inserted_intent then (res_conflict RAR_PAYLOAD_CONFLICT, a)
              else
                let exhaust_ids = (rr_reservation_id reservation = u64_max);
                    next_id = (if exhaust_ids then 0 else rr_reservation_id reservation + 1)
                in (res_admitted reservation,
                    a\<lparr>ra_by_key := by_key, ra_by_intent := by_intent, ra_next_reservation_id := next_id,
                      ra_id_sequence_exhausted := exhaust_ids\<rparr>))"

definition reservation_matches :: "risk_reservation \<Rightarrow> risk_reservation \<Rightarrow> bool" where
  "reservation_matches stored token \<longleftrightarrow>
     rr_reservation_id stored = rr_reservation_id token \<and>
     rs_kind (rr_scope stored) = rs_kind (rr_scope token) \<and>
     rs_scope_id (rr_scope stored) = rs_scope_id (rr_scope token) \<and>
     rr_intent_id stored = rr_intent_id token \<and> rr_idempotency_key stored = rr_idempotency_key token \<and>
     gi_group_id (rr_execution_group stored) = gi_group_id (rr_execution_group token) \<and>
     gi_expected_members (rr_execution_group stored) = gi_expected_members (rr_execution_group token) \<and>
     rr_cardinality stored = rr_cardinality token \<and>
     ma_units (rr_stake stored) = ma_units (rr_stake token) \<and>
     same_currency (rr_stake stored) (rr_stake token) \<and>
     ma_units (rr_potential_risk stored) = ma_units (rr_potential_risk token) \<and>
     same_currency (rr_potential_risk stored) (rr_potential_risk token)"

definition risk_transition ::
  "risk_admission \<Rightarrow> risk_reservation \<Rightarrow> reservation_state \<Rightarrow> admission_reason \<Rightarrow>
   (reservation_state \<Rightarrow> bool) \<Rightarrow> admission_result \<times> risk_admission" where
  "risk_transition a token target reason allowed =
     (case map_find (ra_by_key a) (rr_idempotency_key token) of
        None \<Rightarrow> (res_invalid_state RAR_UNKNOWN_RESERVATION, a)
      | Some stored \<Rightarrow>
          if \<not> reservation_matches stored token then (res_conflict RAR_PAYLOAD_CONFLICT, a)
          else if rr_state stored = target then (res_duplicate stored, a)
          else if \<not> allowed (rr_state stored) then (res_invalid_state RAR_INVALID_TRANSITION, a)
          else
            let stored = stored\<lparr>rr_state := target\<rparr>
            in (res_applied reason stored,
                a\<lparr>ra_by_key := map_put (rr_idempotency_key token) stored (ra_by_key a)\<rparr>))"

definition risk_commit :: "risk_admission \<Rightarrow> risk_reservation \<Rightarrow> admission_result \<times> risk_admission" where
  "risk_commit a token = risk_transition a token RRS_SUBMITTED RAR_COMMITTED (\<lambda>st. st = RRS_RESERVED)"

definition risk_release :: "risk_admission \<Rightarrow> risk_reservation \<Rightarrow> admission_result \<times> risk_admission" where
  "risk_release a token = risk_transition a token RRS_RELEASED RAR_RELEASED (\<lambda>st. st = RRS_RESERVED)"

definition mark_unknown :: "risk_admission \<Rightarrow> risk_reservation \<Rightarrow> admission_result \<times> risk_admission" where
  "mark_unknown a token = risk_transition a token RRS_EXECUTION_UNKNOWN RAR_EXECUTION_UNKNOWN
     (\<lambda>st. st = RRS_RESERVED \<or> st = RRS_SUBMITTED)"

definition risk_settle ::
  "risk_admission \<Rightarrow> risk_reservation \<Rightarrow> settlement_evidence \<Rightarrow> admission_result \<times> risk_admission" where
  "risk_settle a token ev =
     (if \<not> evidence_valid_for ev token then (res_rejected RAR_INVALID_SETTLEMENT_EVIDENCE, a)
      else risk_transition a token RRS_SETTLED RAR_SETTLED
             (\<lambda>st. st = RRS_SUBMITTED \<or> st = RRS_EXECUTION_UNKNOWN))"

subsection \<open>Calls\<close>

datatype risk_call =
    Update_call account_snapshot
  | Reserve_call risk_request int
  | Commit_call risk_reservation
  | Release_call risk_reservation
  | Unknown_call risk_reservation
  | Settle_call risk_reservation settlement_evidence

fun risk_do :: "risk_admission \<Rightarrow> risk_call \<Rightarrow> admission_result \<times> risk_admission" where
  "risk_do a (Update_call s) = update_snapshot a s"
| "risk_do a (Reserve_call q now) = reserve a q now"
| "risk_do a (Commit_call t) = risk_commit a t"
| "risk_do a (Release_call t) = risk_release a t"
| "risk_do a (Unknown_call t) = mark_unknown a t"
| "risk_do a (Settle_call t ev) = risk_settle a t ev"

abbreviation risk_run :: "risk_admission \<Rightarrow> risk_call list \<Rightarrow> risk_admission" where
  "risk_run \<equiv> foldl (\<lambda>a c. snd (risk_do a c))"

subsection \<open>The sum of active risk\<close>

definition active_state :: "reservation_state \<Rightarrow> bool" where
  "active_state st \<longleftrightarrow> st \<noteq> RRS_RELEASED \<and> st \<noteq> RRS_SETTLED"

definition active_units :: "risk_reservation \<Rightarrow> int" where
  "active_units r = (if active_state (rr_state r) then ma_units (rr_potential_risk r) else 0)"

definition active_sum :: "risk_admission \<Rightarrow> int" where
  "active_sum a = (\<Sum>e\<leftarrow>ra_by_key a. active_units (snd e))"

lemma active_loop_sum:
  assumes "\<forall>e\<in>set rs. 0 < ma_units (rr_potential_risk (snd e))" and "0 \<le> tot" and "tot \<le> i64_max"
  shows "active_loop tot rs = min i64_max (tot + (\<Sum>e\<leftarrow>rs. active_units (snd e)))"
  using assms
proof (induction rs arbitrary: tot)
  case (Cons e rs)
  obtain k r where e: "e = (k, r)" by (cases e)
  have pos: "0 \<le> (\<Sum>e\<leftarrow>rs. active_units (snd e))"
    using Cons.prems(1) by (intro sum_list_nonneg) (auto simp: active_units_def less_imp_le)
  show ?case
  proof (cases "active_state (rr_state r)")
    case True
    then show ?thesis
      using Cons.IH [of "tot + ma_units (rr_potential_risk r)"] Cons.prems pos e
      by (auto simp: active_state_def active_units_def can_add_def min_def)
  next
    case False
    then show ?thesis using Cons.IH [of tot] Cons.prems e by (auto simp: active_state_def active_units_def)
  qed
qed simp

subsection \<open>When a reservation is admitted\<close>

lemma res_kind [simp]:
  "ar_kind (res_applied x r) = RAK_APPLIED" "ar_kind (res_admitted r) = RAK_ADMITTED"
  "ar_kind (res_duplicate r) = RAK_DUPLICATE" "ar_kind (res_rejected x) = RAK_REJECTED"
  "ar_kind (res_unavailable x) = RAK_UNAVAILABLE" "ar_kind (res_conflict x) = RAK_CONFLICT"
  "ar_kind (res_invalid_state x) = RAK_INVALID_STATE"
  by (simp_all add: res_applied_def res_admitted_def res_duplicate_def res_rejected_def res_unavailable_def
      res_conflict_def res_invalid_state_def)

definition snapshot_fresh :: "risk_admission \<Rightarrow> account_snapshot \<Rightarrow> int \<Rightarrow> bool" where
  "snapshot_fresh a s now \<longleftrightarrow> \<not> (now < as_captured_at_ms s \<or>
     u64_of_i64 (rc_max_snapshot_age_ms (ra_config a)) < u64_of_i64 now - u64_of_i64 (as_captured_at_ms s))"

definition limit_ok :: "risk_admission \<Rightarrow> risk_request \<Rightarrow> int \<Rightarrow> bool" where
  "limit_ok a q next_reserved \<longleftrightarrow> (\<forall>m. rc_max_reserved_risk (ra_config a) = Some m \<longrightarrow>
     same_currency m (rq_potential_risk q) \<and> next_reserved \<le> ma_units m)"

definition admissible :: "risk_admission \<Rightarrow> risk_request \<Rightarrow> int \<Rightarrow> account_snapshot \<Rightarrow> bool" where
  "admissible a q now s \<longleftrightarrow>
     risk_valid a \<and> valid_identity q \<and>
     map_find (ra_by_key a) (rq_idempotency_key q) = None \<and> map_find (ra_by_intent a) (rq_intent_id q) = None \<and>
     \<not> ra_id_sequence_exhausted a \<and> valid_metadata (rq_stake q) \<and> valid_metadata (rq_potential_risk q) \<and>
     same_currency (rq_stake q) (rq_potential_risk q) \<and> 0 < ma_units (rq_stake q) \<and> 0 < ma_units (rq_potential_risk q) \<and>
     ra_snapshot a = Some s \<and> as_availability s = RA_SUPPORTED \<and>
     same_currency (as_available_balance s) (rq_potential_risk q) \<and> snapshot_fresh a s now \<and>
     can_add (active_risk_units a) (ma_units (rq_potential_risk q)) \<and>
     active_risk_units a + ma_units (rq_potential_risk q) \<le> ma_units (as_available_balance s) \<and>
     limit_ok a q (active_risk_units a + ma_units (rq_potential_risk q))"

definition reserved_state :: "risk_admission \<Rightarrow> account_snapshot \<Rightarrow> risk_request \<Rightarrow> risk_admission" where
  "reserved_state a s q =
     a\<lparr>ra_by_key := map_put (rq_idempotency_key q) (new_reservation a s q) (ra_by_key a),
       ra_by_intent := map_put (rq_intent_id q) (rq_idempotency_key q) (ra_by_intent a),
       ra_next_reservation_id := (if ra_next_reservation_id a = u64_max then 0 else ra_next_reservation_id a + 1),
       ra_id_sequence_exhausted := (ra_next_reservation_id a = u64_max)\<rparr>"

lemma reserve_admissible:
  assumes "admissible a q now s"
  shows "reserve a q now = (res_admitted (new_reservation a s q), reserved_state a s q)"
proof -
  note h = assms [unfolded admissible_def snapshot_fresh_def limit_ok_def]
  have lim: "(case rc_max_reserved_risk (ra_config a) of None \<Rightarrow> None
      | Some m \<Rightarrow>
          if ma_currency m \<noteq> ma_currency (rq_potential_risk q) then Some RAR_CURRENCY_MISMATCH
          else if ma_precision m \<noteq> ma_precision (rq_potential_risk q) then Some RAR_PRECISION_MISMATCH
          else if ma_units m < active_risk_units a + ma_units (rq_potential_risk q) then Some RAR_RISK_LIMIT_EXCEEDED
          else None) = None"
    using h by (auto simp: same_currency_def split: option.split)
  have g: "risk_valid a = True" "valid_identity q = True" "map_find (ra_by_key a) (rq_idempotency_key q) = None"
    "map_find (ra_by_intent a) (rq_intent_id q) = None" "ra_id_sequence_exhausted a = False"
    "valid_metadata (rq_stake q) = True" "valid_metadata (rq_potential_risk q) = True"
    "same_currency (rq_stake q) (rq_potential_risk q) = True"
    "(ma_units (rq_stake q) \<le> 0 \<or> ma_units (rq_potential_risk q) \<le> 0) = False"
    "ra_snapshot a = Some s" "as_availability s = RA_SUPPORTED"
    "same_currency (as_available_balance s) (rq_potential_risk q) = True"
    "(now < as_captured_at_ms s \<or>
       u64_of_i64 (rc_max_snapshot_age_ms (ra_config a)) < u64_of_i64 now - u64_of_i64 (as_captured_at_ms s)) = False"
    "can_add (active_risk_units a) (ma_units (rq_potential_risk q)) = True"
    "(ma_units (as_available_balance s) < active_risk_units a + ma_units (rq_potential_risk q)) = False"
    using h by auto
  have nr: "rr_idempotency_key (new_reservation a s q) = rq_idempotency_key q"
    "rr_intent_id (new_reservation a s q) = rq_intent_id q"
    "rr_reservation_id (new_reservation a s q) = ra_next_reservation_id a"
    by (simp_all add: new_reservation_def)
  show ?thesis
    by (simp only: reserve_def g lim nr not_True_eq_False not_False_eq_True if_True if_False simp_thms option.case
        Let_def map_emplace_absent [OF g(3)] map_emplace_absent [OF g(4)] prod.case reserved_state_def)
qed

lemma reserve_not_admissible:
  assumes "\<And>s. \<not> admissible a q now s"
  shows "ar_kind (fst (reserve a q now)) \<noteq> RAK_ADMITTED \<and> snd (reserve a q now) = a"
proof -
  have stage: "ar_kind (fst (if b then (x, a) else y)) \<noteq> RAK_ADMITTED \<and> snd (if b then (x, a) else y) = a"
    if "ar_kind x \<noteq> RAK_ADMITTED" "\<not> b \<Longrightarrow> ar_kind (fst y) \<noteq> RAK_ADMITTED \<and> snd y = a" for b x y
    using that by (cases b) simp_all
  show ?thesis
    unfolding reserve_def Let_def
    apply (rule stage, simp)
    apply (rule stage, simp)
    apply (cases "map_find (ra_by_key a) (rq_idempotency_key q)")
     apply (simp only: option.case)
     apply (rule stage, simp)
     apply (rule stage, simp)
     apply (rule stage, simp)
     apply (rule stage, simp)
     apply (rule stage, simp)
     apply (cases "ra_snapshot a")
      apply simp
     apply (simp only: option.case)
     apply (rule stage, simp)
     apply (rule stage, simp)
     apply (rule stage, simp)
     apply (rule stage, simp)
     apply (rule stage, simp)
    subgoal premises prems for s
      using assms [of s] prems
      by (auto simp: admissible_def snapshot_fresh_def limit_ok_def same_currency_def split: option.splits if_splits)
    apply simp
    done
qed

lemma reserve_kind_state:
  "(ar_kind (fst (reserve a q now)) = RAK_ADMITTED \<longleftrightarrow> (\<exists>s. admissible a q now s)) \<and>
   (ar_kind (fst (reserve a q now)) \<noteq> RAK_ADMITTED \<longrightarrow> snd (reserve a q now) = a)"
  using reserve_admissible reserve_not_admissible by (cases "\<exists>s. admissible a q now s") fastforce+

subsection \<open>The invariant\<close>

definition reservation_inv :: "risk_admission \<Rightarrow> string \<Rightarrow> risk_reservation \<Rightarrow> bool" where
  "reservation_inv a k r \<longleftrightarrow>
     rr_idempotency_key r = k \<and> map_find (ra_by_intent a) (rr_intent_id r) = Some k \<and>
     0 < ma_units (rr_potential_risk r) \<and> rr_reservation_id r \<noteq> 0 \<and>
     (\<not> ra_id_sequence_exhausted a \<longrightarrow> rr_reservation_id r < ra_next_reservation_id a) \<and>
     (\<exists>s. ra_snapshot a = Some s \<and> same_currency (as_available_balance s) (rr_potential_risk r)) \<and>
     (\<forall>m. rc_max_reserved_risk (ra_config a) = Some m \<longrightarrow> same_currency m (rr_potential_risk r))"

definition limit_inv :: "risk_admission \<Rightarrow> bool" where
  "limit_inv a \<longleftrightarrow> active_sum a \<le> i64_max \<and>
     (\<forall>m. rc_max_reserved_risk (ra_config a) = Some m \<longrightarrow> ra_by_key a \<noteq> [] \<longrightarrow> active_sum a \<le> ma_units m)"

definition risk_inv :: "risk_admission \<Rightarrow> bool" where
  "risk_inv a \<longleftrightarrow>
     map_ok (ra_by_key a) \<and> map_ok (ra_by_intent a) \<and>
     (\<forall>k r. map_find (ra_by_key a) k = Some r \<longrightarrow> reservation_inv a k r) \<and>
     (\<forall>i k. map_find (ra_by_intent a) i = Some k \<longrightarrow>
        (\<exists>r. map_find (ra_by_key a) k = Some r \<and> rr_intent_id r = i)) \<and>
     (\<forall>k r k' r'. map_find (ra_by_key a) k = Some r \<longrightarrow> map_find (ra_by_key a) k' = Some r' \<longrightarrow>
        rr_reservation_id r = rr_reservation_id r' \<longrightarrow> k = k') \<and>
     (ra_id_sequence_valid a \<and> \<not> ra_id_sequence_exhausted a \<longrightarrow> ra_next_reservation_id a \<noteq> 0) \<and>
     limit_inv a"

lemma make_risk_admission_inv: "risk_inv (make_risk_admission c n)"
  by (simp add: risk_inv_def make_risk_admission_def limit_inv_def active_sum_def)

lemma risk_inv_maps: "risk_inv a \<Longrightarrow> map_ok (ra_by_key a)" "risk_inv a \<Longrightarrow> map_ok (ra_by_intent a)"
  by (simp_all add: risk_inv_def)

lemma risk_inv_find: "risk_inv a \<Longrightarrow> map_find (ra_by_key a) k = Some r \<Longrightarrow> reservation_inv a k r"
  by (simp add: risk_inv_def)

lemma risk_inv_intent:
  "risk_inv a \<Longrightarrow> map_find (ra_by_intent a) i = Some k \<Longrightarrow>
   \<exists>r. map_find (ra_by_key a) k = Some r \<and> rr_intent_id r = i"
  by (simp add: risk_inv_def)

lemma risk_inv_ids:
  "risk_inv a \<Longrightarrow> map_find (ra_by_key a) k = Some r \<Longrightarrow> map_find (ra_by_key a) k' = Some r' \<Longrightarrow>
   rr_reservation_id r = rr_reservation_id r' \<Longrightarrow> k = k'"
  unfolding risk_inv_def by blast

lemma active_units_nonneg: "risk_inv a \<Longrightarrow> e \<in> set (ra_by_key a) \<Longrightarrow> 0 < ma_units (rr_potential_risk (snd e))"
  by (cases e) (auto simp: risk_inv_def smap.entries_find reservation_inv_def)

lemma active_sum_nonneg: "risk_inv a \<Longrightarrow> 0 \<le> active_sum a"
  unfolding active_sum_def using active_units_nonneg [of a]
  by (intro sum_list_nonneg) (auto simp: active_units_def less_imp_le)

lemma active_risk_exact: "risk_inv a \<Longrightarrow> active_risk_units a = active_sum a"
proof -
  assume inv: "risk_inv a"
  then have "active_sum a \<le> i64_max" by (simp add: risk_inv_def limit_inv_def)
  with active_loop_sum [of "ra_by_key a" 0] active_units_nonneg [OF inv] show ?thesis
    by (simp add: active_risk_units_def active_sum_def)
qed

lemma active_sum_reserved:
  assumes "risk_inv a" and "map_find (ra_by_key a) (rq_idempotency_key q) = None"
  shows "active_sum (reserved_state a s q) = active_sum a + ma_units (rq_potential_risk q)"
  using smap.sum_put_new [OF risk_inv_maps(1) [OF assms(1)] assms(2), of "\<lambda>e. active_units (snd e)"]
  by (simp add: active_sum_def reserved_state_def active_units_def new_reservation_def active_state_def)

lemma reserved_state_inv:
  assumes inv: "risk_inv a" and ad: "admissible a q now s"
  shows "risk_inv (reserved_state a s q)"
proof -
  let ?k = "rq_idempotency_key q" and ?i = "rq_intent_id q" and ?n = "new_reservation a s q"
  let ?a = "reserved_state a s q" and ?id = "ra_next_reservation_id a"
  have m: "map_ok (ra_by_key a)" "map_ok (ra_by_intent a)" using inv by (simp_all add: risk_inv_def)
  have free: "map_find (ra_by_key a) ?k = None" "map_find (ra_by_intent a) ?i = None"
    "\<not> ra_id_sequence_exhausted a" "ra_id_sequence_valid a" "ra_snapshot a = Some s" "0 < ma_units (rq_potential_risk q)"
    "same_currency (as_available_balance s) (rq_potential_risk q)"
    using ad by (simp_all add: admissible_def risk_valid_def)
  have id: "?id \<noteq> 0" using inv free by (simp add: risk_inv_def)
  have nxt: "?id \<noteq> u64_max \<Longrightarrow> x \<le> ?id \<Longrightarrow> x < ?id + 1" for x
    using u64_succ [of ?id] by (simp add: word_less_nat_alt word_le_nat_alt)
  have old: "reservation_inv ?a k r" if "map_find (ra_by_key a) k = Some r" for k r
  proof -
    have r: "reservation_inv a k r" using inv that by (rule risk_inv_find)
    then have "rr_intent_id r \<noteq> ?i" using free(2) by (auto simp: reservation_inv_def)
    moreover have "rr_reservation_id r < ?id" using r free(3) by (simp add: reservation_inv_def)
    ultimately show ?thesis
      using r m nxt [of "rr_reservation_id r"] by (simp add: reservation_inv_def reserved_state_def map_find_put)
  qed
  have new: "reservation_inv ?a ?k ?n"
    using ad m id nxt [of ?id]
    by (auto simp: reservation_inv_def reserved_state_def new_reservation_def map_find_put admissible_def limit_ok_def)
  have lt: "rr_reservation_id r \<noteq> ?id" if "map_find (ra_by_key a) k = Some r" for k r
    using risk_inv_find [OF inv that] free(3) by (auto simp: reservation_inv_def)
  have sum: "active_sum ?a = active_sum a + ma_units (rq_potential_risk q)"
    using inv free(1) by (rule active_sum_reserved)
  have e: "active_risk_units a = active_sum a" using inv by (rule active_risk_exact)
  have lim: "limit_inv ?a"
    unfolding limit_inv_def sum
    using ad by (auto simp: admissible_def e can_add_def limit_ok_def reserved_state_def)
  have f: "map_find (ra_by_key ?a) k = (if k = ?k then Some ?n else map_find (ra_by_key a) k)"
    "map_find (ra_by_intent ?a) i = (if i = ?i then Some ?k else map_find (ra_by_intent a) i)" for k i
    using m by (simp_all add: reserved_state_def map_find_put)
  have c1: "\<forall>k r. map_find (ra_by_key ?a) k = Some r \<longrightarrow> reservation_inv ?a k r"
    using old new by (auto simp: f)
  have c2: "\<forall>i k. map_find (ra_by_intent ?a) i = Some k \<longrightarrow>
      (\<exists>r. map_find (ra_by_key ?a) k = Some r \<and> rr_intent_id r = i)"
  proof (intro allI impI)
    fix i k assume x: "map_find (ra_by_intent ?a) i = Some k"
    show "\<exists>r. map_find (ra_by_key ?a) k = Some r \<and> rr_intent_id r = i"
    proof (cases "i = ?i")
      case True
      with x show ?thesis by (simp add: f new_reservation_def)
    next
      case False
      with x have "map_find (ra_by_intent a) i = Some k" by (simp add: f)
      then obtain r where "map_find (ra_by_key a) k = Some r" "rr_intent_id r = i"
        using risk_inv_intent [OF inv] by blast
      with free(1) show ?thesis by (auto simp: f)
    qed
  qed
  have c3: "\<forall>k r k' r'. map_find (ra_by_key ?a) k = Some r \<longrightarrow> map_find (ra_by_key ?a) k' = Some r' \<longrightarrow>
      rr_reservation_id r = rr_reservation_id r' \<longrightarrow> k = k'"
  proof (intro allI impI)
    fix k r k' r'
    assume x: "map_find (ra_by_key ?a) k = Some r" "map_find (ra_by_key ?a) k' = Some r'"
      "rr_reservation_id r = rr_reservation_id r'"
    have n: "rr_reservation_id ?n = ?id" by (simp add: new_reservation_def)
    show "k = k'"
    proof (cases "k = ?k"; cases "k' = ?k")
      assume "k = ?k" "k' \<noteq> ?k"
      with x n lt [of k' r'] show ?thesis by (simp add: f)
    next
      assume "k \<noteq> ?k" "k' = ?k"
      with x n lt [of k r] show ?thesis by (simp add: f)
    next
      assume "k \<noteq> ?k" "k' \<noteq> ?k"
      with x risk_inv_ids [OF inv, of k r k' r'] show ?thesis by (simp add: f)
    qed simp
  qed
  have c4: "ra_id_sequence_valid ?a \<and> \<not> ra_id_sequence_exhausted ?a \<longrightarrow> ra_next_reservation_id ?a \<noteq> 0"
    using nxt [of 0] by (auto simp: reserved_state_def)
  have "map_ok (ra_by_key ?a)" "map_ok (ra_by_intent ?a)" using m by (simp_all add: reserved_state_def)
  with c1 c2 c3 c4 lim show ?thesis unfolding risk_inv_def by blast
qed

subsection \<open>Transitions and snapshots\<close>

definition moved_state :: "risk_admission \<Rightarrow> risk_reservation \<Rightarrow> reservation_state \<Rightarrow> risk_admission" where
  "moved_state a r target =
     a\<lparr>ra_by_key := map_put (rr_idempotency_key r) (r\<lparr>rr_state := target\<rparr>) (ra_by_key a)\<rparr>"

lemma risk_transition_cases:
  assumes "\<forall>st. allowed st \<longrightarrow> active_state st"
  obtains (same) "snd (risk_transition a token target reason allowed) = a"
  | (moved) stored where "map_find (ra_by_key a) (rr_idempotency_key token) = Some stored"
      "reservation_matches stored token" "rr_state stored \<noteq> target" "allowed (rr_state stored)"
      "active_state (rr_state stored)"
      "risk_transition a token target reason allowed =
         (res_applied reason (stored\<lparr>rr_state := target\<rparr>), moved_state a stored target)"
proof (cases "map_find (ra_by_key a) (rr_idempotency_key token)")
  case None
  then show ?thesis using that(1) by (simp add: risk_transition_def)
next
  case (Some stored)
  show ?thesis
  proof (cases "reservation_matches stored token \<and> rr_state stored \<noteq> target \<and> allowed (rr_state stored)")
    case True
    then have "rr_idempotency_key stored = rr_idempotency_key token" by (simp add: reservation_matches_def)
    with Some True that(2) [of stored] assms show ?thesis
      by (simp add: risk_transition_def moved_state_def Let_def)
  next
    case False
    with Some have "snd (risk_transition a token target reason allowed) = a"
      by (auto simp: risk_transition_def Let_def)
    then show ?thesis by (rule that(1))
  qed
qed

lemma moved_state_inv:
  assumes inv: "risk_inv a" and find: "map_find (ra_by_key a) k = Some r" and act: "active_state (rr_state r)"
  shows "risk_inv (moved_state a r target)"
    and "active_sum (moved_state a r target) =
      active_sum a - (if active_state target then 0 else ma_units (rr_potential_risk r))"
proof -
  let ?a = "moved_state a r target" and ?r = "r\<lparr>rr_state := target\<rparr>"
  have m: "map_ok (ra_by_key a)" "map_ok (ra_by_intent a)" using inv by (simp_all add: risk_inv_def)
  have ri: "reservation_inv a k r" using inv find by (rule risk_inv_find)
  then have k: "rr_idempotency_key r = k" by (simp add: reservation_inv_def)
  have f: "map_find (ra_by_key ?a) j = (if j = k then Some ?r else map_find (ra_by_key a) j)" for j
    using m by (simp add: moved_state_def k map_find_put)
  show sum: "active_sum ?a = active_sum a - (if active_state target then 0 else ma_units (rr_potential_risk r))"
    using smap.sum_put_old [OF m(1) find, of "\<lambda>e. active_units (snd e)" ?r] act
    by (simp add: active_sum_def moved_state_def k active_units_def)
  have i: "reservation_inv ?a j s \<longleftrightarrow> reservation_inv a j s" for j s
    by (simp add: reservation_inv_def moved_state_def)
  have "reservation_inv a k ?r" using ri by (simp add: reservation_inv_def)
  then have c1: "\<forall>j s. map_find (ra_by_key ?a) j = Some s \<longrightarrow> reservation_inv ?a j s"
    using risk_inv_find [OF inv] by (auto simp: f i)
  have c2: "\<forall>i j. map_find (ra_by_intent ?a) i = Some j \<longrightarrow>
      (\<exists>s. map_find (ra_by_key ?a) j = Some s \<and> rr_intent_id s = i)"
  proof (intro allI impI)
    fix i j assume "map_find (ra_by_intent ?a) i = Some j"
    then have "map_find (ra_by_intent a) i = Some j" by (simp add: moved_state_def)
    from risk_inv_intent [OF inv this] find
    show "\<exists>s. map_find (ra_by_key ?a) j = Some s \<and> rr_intent_id s = i" by (auto simp: f)
  qed
  have c3: "\<forall>i s j u. map_find (ra_by_key ?a) i = Some s \<longrightarrow> map_find (ra_by_key ?a) j = Some u \<longrightarrow>
      rr_reservation_id s = rr_reservation_id u \<longrightarrow> i = j"
  proof (intro allI impI)
    fix i s j u
    assume x: "map_find (ra_by_key ?a) i = Some s" "map_find (ra_by_key ?a) j = Some u"
      "rr_reservation_id s = rr_reservation_id u"
    have "\<exists>s'. map_find (ra_by_key a) i = Some s' \<and> rr_reservation_id s' = rr_reservation_id s"
      using x(1) find by (auto simp: f split: if_splits)
    moreover have "\<exists>u'. map_find (ra_by_key a) j = Some u' \<and> rr_reservation_id u' = rr_reservation_id u"
      using x(2) find by (auto simp: f split: if_splits)
    ultimately show "i = j" using x(3) risk_inv_ids [OF inv] by metis
  qed
  have ne: "ra_by_key a \<noteq> []" using find by auto
  have "0 < ma_units (rr_potential_risk r)" using ri by (simp add: reservation_inv_def)
  then have lim: "limit_inv ?a"
    unfolding limit_inv_def sum using inv ne by (auto simp: risk_inv_def limit_inv_def moved_state_def)
  have "map_ok (ra_by_key ?a)" "map_ok (ra_by_intent ?a)" using m by (simp_all add: moved_state_def)
  moreover have "ra_id_sequence_valid ?a \<and> \<not> ra_id_sequence_exhausted ?a \<longrightarrow> ra_next_reservation_id ?a \<noteq> 0"
    using inv by (simp add: risk_inv_def moved_state_def)
  ultimately show "risk_inv ?a" using c1 c2 c3 lim unfolding risk_inv_def by blast
qed

lemma update_snapshot_cases:
  obtains "snd (update_snapshot a s) = a"
  | "ar_kind (fst (update_snapshot a s)) = RAK_APPLIED" "snd (update_snapshot a s) = a\<lparr>ra_snapshot := Some s\<rparr>"
    "risk_valid a" "snapshot_valid s"
    "\<forall>old. ra_snapshot a = Some old \<longrightarrow> as_revision old < as_revision s \<and>
       same_currency (as_available_balance old) (as_available_balance s)"
proof (cases "snd (update_snapshot a s) = a")
  case False
  then have "ar_kind (fst (update_snapshot a s)) = RAK_APPLIED \<and> snd (update_snapshot a s) = a\<lparr>ra_snapshot := Some s\<rparr> \<and>
    risk_valid a \<and> snapshot_valid s \<and>
    (\<forall>old. ra_snapshot a = Some old \<longrightarrow> as_revision old < as_revision s \<and>
       same_currency (as_available_balance old) (as_available_balance s))"
    by (auto simp: update_snapshot_def split: option.splits if_splits)
  with that(2) show ?thesis by blast
qed (use that(1) in blast)

lemma same_currency_trans: "same_currency x y \<Longrightarrow> same_currency x z \<Longrightarrow> same_currency y z"
  by (simp add: same_currency_def)

lemma new_snapshot_inv:
  assumes inv: "risk_inv a"
    and old: "\<forall>old. ra_snapshot a = Some old \<longrightarrow> same_currency (as_available_balance old) (as_available_balance s)"
  shows "risk_inv (a\<lparr>ra_snapshot := Some s\<rparr>)"
proof -
  have "reservation_inv (a\<lparr>ra_snapshot := Some s\<rparr>) k r" if "map_find (ra_by_key a) k = Some r" for k r
    using risk_inv_find [OF inv that] old by (auto simp: reservation_inv_def intro: same_currency_trans)
  then show ?thesis using inv by (simp add: risk_inv_def limit_inv_def active_sum_def)
qed

text \<open>Each call either leaves the owner alone or is one of three changes.\<close>

lemma risk_do_cases:
  obtains "snd (risk_do a c) = a"
  | s q now where "c = Reserve_call q now" "admissible a q now s"
      "risk_do a c = (res_admitted (new_reservation a s q), reserved_state a s q)"
  | k r target where "map_find (ra_by_key a) k = Some r" "active_state (rr_state r)"
      "rr_state r \<noteq> target" "snd (risk_do a c) = moved_state a r target"
  | s where "c = Update_call s" "snd (risk_do a c) = a\<lparr>ra_snapshot := Some s\<rparr>" "snapshot_valid s"
      "\<forall>old. ra_snapshot a = Some old \<longrightarrow> same_currency (as_available_balance old) (as_available_balance s)"
proof (cases c)
  case (Update_call s)
  show ?thesis
  proof (cases rule: update_snapshot_cases [of a s])
    case 1
    then show ?thesis using that(1) Update_call by simp
  next
    case 2
    then show ?thesis using that(4) [of s] Update_call by simp
  qed
next
  case (Reserve_call q now)
  show ?thesis
  proof (cases "\<exists>s. admissible a q now s")
    case True
    then obtain s where "admissible a q now s" by blast
    with that(2) [OF Reserve_call this] show ?thesis by (simp add: Reserve_call reserve_admissible)
  next
    case False
    with reserve_not_admissible [of a q now] that(1) Reserve_call show ?thesis by simp
  qed
next
  case (Commit_call t)
  have act: "\<forall>st. (\<lambda>st. st = RRS_RESERVED) st \<longrightarrow> active_state st" by (auto simp: active_state_def)
  show ?thesis
  proof (cases rule: risk_transition_cases [OF act, of a t RRS_SUBMITTED RAR_COMMITTED])
    case 1
    then show ?thesis using that(1) by (simp add: Commit_call risk_commit_def)
  next
    case (2 stored)
    from that(3) [OF 2(1) 2(5) 2(3)] 2(6) show ?thesis by (simp add: Commit_call risk_commit_def)
  qed
next
  case (Release_call t)
  have act: "\<forall>st. (\<lambda>st. st = RRS_RESERVED) st \<longrightarrow> active_state st" by (auto simp: active_state_def)
  show ?thesis
  proof (cases rule: risk_transition_cases [OF act, of a t RRS_RELEASED RAR_RELEASED])
    case 1
    then show ?thesis using that(1) by (simp add: Release_call risk_release_def)
  next
    case (2 stored)
    from that(3) [OF 2(1) 2(5) 2(3)] 2(6) show ?thesis by (simp add: Release_call risk_release_def)
  qed
next
  case (Unknown_call t)
  have act: "\<forall>st. (\<lambda>st. st = RRS_RESERVED \<or> st = RRS_SUBMITTED) st \<longrightarrow> active_state st" by (auto simp: active_state_def)
  show ?thesis
  proof (cases rule: risk_transition_cases [OF act, of a t RRS_EXECUTION_UNKNOWN RAR_EXECUTION_UNKNOWN])
    case 1
    then show ?thesis using that(1) by (simp add: Unknown_call mark_unknown_def)
  next
    case (2 stored)
    from that(3) [OF 2(1) 2(5) 2(3)] 2(6) show ?thesis by (simp add: Unknown_call mark_unknown_def)
  qed
next
  case (Settle_call t ev)
  have act: "\<forall>st. (\<lambda>st. st = RRS_SUBMITTED \<or> st = RRS_EXECUTION_UNKNOWN) st \<longrightarrow> active_state st" by (auto simp: active_state_def)
  show ?thesis
  proof (cases "evidence_valid_for ev t")
    case True
    show ?thesis
    proof (cases rule: risk_transition_cases [OF act, of a t RRS_SETTLED RAR_SETTLED])
      case 1
      then show ?thesis using that(1) by (simp add: Settle_call risk_settle_def True)
    next
      case (2 stored)
      from that(3) [OF 2(1) 2(5) 2(3)] 2(6) show ?thesis by (simp add: Settle_call risk_settle_def True)
    qed
  next
    case False
    then show ?thesis using that(1) Settle_call by (simp add: risk_settle_def)
  qed
qed

lemma risk_do_inv: "risk_inv a \<Longrightarrow> risk_inv (snd (risk_do a c))"
  by (cases rule: risk_do_cases [of a c])
     (simp_all add: reserved_state_inv moved_state_inv(1) new_snapshot_inv)

interpretation risk: machine "\<lambda>a c. snd (risk_do a c)" "\<lambda>_. True" risk_inv
  by unfold_locales (rule risk_do_inv)

subsection \<open>What every call keeps\<close>

lemma update_state_fields [simp]:
  "ra_config (reserved_state a s q) = ra_config a" "ra_config (moved_state a r st) = ra_config a"
  "ra_id_sequence_valid (reserved_state a s q) = ra_id_sequence_valid a"
  "ra_id_sequence_valid (moved_state a r st) = ra_id_sequence_valid a"
  "ra_by_intent (moved_state a r st) = ra_by_intent a"
  by (simp_all add: reserved_state_def moved_state_def)

lemma risk_do_config: "ra_config (snd (risk_do a c)) = ra_config a \<and> ra_id_sequence_valid (snd (risk_do a c)) = ra_id_sequence_valid a"
  by (cases rule: risk_do_cases [of a c]) simp_all

lemma risk_run_config: "ra_config (risk_run a cs) = ra_config a \<and> ra_id_sequence_valid (risk_run a cs) = ra_id_sequence_valid a"
  by (induction cs arbitrary: a) (simp_all add: risk_do_config)

text \<open>A reservation on record keeps everything but its state, and a closed one keeps that too.\<close>

definition same_but_state :: "risk_reservation \<Rightarrow> risk_reservation \<Rightarrow> bool" where
  "same_but_state r r' \<longleftrightarrow> r' = r\<lparr>rr_state := rr_state r'\<rparr>"

lemma same_but_state_update: "same_but_state r r' \<Longrightarrow> same_but_state r (r'\<lparr>rr_state := st\<rparr>)"
  by (cases r; cases r') (simp add: same_but_state_def)

lemma risk_do_keeps:
  assumes inv: "risk_inv a" and find: "\<exists>r'. map_find (ra_by_key a) k = Some r' \<and> same_but_state r r' \<and>
      (\<not> active_state st \<longrightarrow> rr_state r' = st)"
  shows "\<exists>r'. map_find (ra_by_key (snd (risk_do a c))) k = Some r' \<and> same_but_state r r' \<and>
      (\<not> active_state st \<longrightarrow> rr_state r' = st)"
proof (cases rule: risk_do_cases [of a c])
  case (2 s q now)
  then have "map_find (ra_by_key a) (rq_idempotency_key q) = None" by (simp add: admissible_def)
  with 2 find risk_inv_maps(1) [OF inv] show ?thesis by (auto simp: reserved_state_def map_find_put)
next
  case (3 j x target)
  then have j: "rr_idempotency_key x = j" using risk_inv_find [OF inv] by (auto simp: reservation_inv_def)
  from find obtain r' where r': "map_find (ra_by_key a) k = Some r'" "same_but_state r r'"
    "\<not> active_state st \<longrightarrow> rr_state r' = st" by blast
  show ?thesis
  proof (cases "j = k")
    case True
    with 3 r' have "x = r'" by simp
    with 3(2) r'(3) have "active_state st" by auto
    moreover have "same_but_state r (x\<lparr>rr_state := target\<rparr>)"
      using r'(2) \<open>x = r'\<close> by (simp add: same_but_state_update)
    ultimately show ?thesis
      using 3(4) True j risk_inv_maps(1) [OF inv] by (simp add: moved_state_def map_find_put)
  next
    case False
    with 3(4) r' j risk_inv_maps(1) [OF inv] show ?thesis by (simp add: moved_state_def map_find_put)
  qed
qed (use find in simp_all)

lemma risk_run_keeps:
  assumes "risk_inv a" and "map_find (ra_by_key a) k = Some r"
  shows "\<exists>r'. map_find (ra_by_key (risk_run a cs)) k = Some r' \<and> same_but_state r r' \<and>
      (\<not> active_state (rr_state r) \<longrightarrow> rr_state r' = rr_state r)"
  using risk.run_keeps [where P = "\<lambda>a. \<exists>r'. map_find (ra_by_key a) k = Some r' \<and> same_but_state r r' \<and>
      (\<not> active_state (rr_state r) \<longrightarrow> rr_state r' = rr_state r)", OF risk_do_keeps assms(1), of cs] assms(2)
  by (simp add: same_but_state_def list_all_iff)

text \<open>The age of a snapshot: the unsigned difference of two signed times is their exact distance.\<close>

lemma u64_age:
  assumes "i64 x" "i64 y" "x \<le> y"
  shows "unat (u64_of_i64 y - u64_of_i64 x) = nat (y - x)"
proof -
  have "u64_of_i64 y - u64_of_i64 x = word_of_int (y - x)" by (simp add: u64_of_i64_def)
  moreover have "0 \<le> y - x" "y - x < 2 ^ 64" using assms by (auto simp: i64_def)
  ultimately have "uint (u64_of_i64 y - u64_of_i64 x) = y - x" by (simp only: uint_word_of_int) simp
  then show ?thesis by (simp only: unat_eq_nat_uint)
qed

lemma snapshot_fresh_exact:
  assumes "i64 now" and "i64 (as_captured_at_ms s)" and "i64 (rc_max_snapshot_age_ms (ra_config a))"
    and "0 \<le> rc_max_snapshot_age_ms (ra_config a)"
  shows "snapshot_fresh a s now \<longleftrightarrow> as_captured_at_ms s \<le> now \<and>
    now - as_captured_at_ms s \<le> rc_max_snapshot_age_ms (ra_config a)"
proof -
  have "unat (u64_of_i64 (rc_max_snapshot_age_ms (ra_config a))) = nat (rc_max_snapshot_age_ms (ra_config a))"
    using assms(3,4) by (simp add: i64_def)
  then show ?thesis
    using u64_age [OF assms(2,1)] assms(4) by (auto simp: snapshot_fresh_def word_less_nat_alt not_less)
qed

subsection \<open>Evidence\<close>

definition evidence_event_ok :: "u64 \<Rightarrow> u64 \<Rightarrow> trade_settlement \<Rightarrow> bool" where
  "evidence_event_ok i g s \<longleftrightarrow>
     settlement_valid s \<and> settlement_terminal s \<and> st_intent_id s = i \<and> st_execution_group_id s = g"

lemma evidence_loop_Cons [simp]:
  "evidence_loop i g sids tids (s # ss) =
     (if evidence_event_ok i g s \<and> map_find sids (st_settlement_id s) = None \<and> map_find tids (st_trade_id s) = None
      then evidence_loop i g (map_put (st_settlement_id s) () sids) (map_put (st_trade_id s) () tids) ss else None)"
proof (cases "evidence_event_ok i g s")
  case True
  then show ?thesis
    by (cases "map_find sids (st_settlement_id s)"; cases "map_find tids (st_trade_id s)")
       (auto simp: evidence_event_ok_def Let_def)
qed (auto simp: evidence_event_ok_def)

declare evidence_loop.simps(2) [simp del]

lemma evidence_loop_accepts:
  assumes "map_ok sids" and "map_ok tids"
  shows "evidence_loop i g sids tids ss \<noteq> None \<longleftrightarrow>
      (\<forall>s\<in>set ss. evidence_event_ok i g s) \<and> distinct (map st_settlement_id ss) \<and> distinct (map st_trade_id ss) \<and>
      (\<forall>s\<in>set ss. map_find sids (st_settlement_id s) = None) \<and> (\<forall>s\<in>set ss. map_find tids (st_trade_id s) = None)"
  using assms
proof (induction ss arbitrary: sids tids)
  case (Cons s ss)
  have f: "map_find (map_put k () m) j = None \<longleftrightarrow> j \<noteq> k \<and> map_find m j = None"
    if "map_ok m" for j k and m :: "u64 std_set"
    using that by (simp add: map_find_put)
  have n: "h s \<notin> h ` set ss \<longleftrightarrow> (\<forall>x\<in>set ss. h x \<noteq> h s)" for h :: "trade_settlement \<Rightarrow> u64"
    by (auto simp: image_iff)
  note IH = Cons.IH [OF map_ok_put [OF Cons.prems(1)] map_ok_put [OF Cons.prems(2)],
      of "st_settlement_id s" "()" "st_trade_id s" "()", unfolded f [OF Cons.prems(1)] f [OF Cons.prems(2)] ball_conj_distrib]
  have "evidence_loop i g sids tids (s # ss) \<noteq> None \<longleftrightarrow>
    evidence_event_ok i g s \<and> map_find sids (st_settlement_id s) = None \<and> map_find tids (st_trade_id s) = None \<and>
    evidence_loop i g (map_put (st_settlement_id s) () sids) (map_put (st_trade_id s) () tids) ss \<noteq> None"
    by auto
  then show ?case unfolding IH list.set ball_simps list.map distinct.simps set_map n by blast
qed simp

lemma evidence_loop_roster:
  assumes "evidence_loop i g sids tids ss = Some r" and "map_ok tids"
  shows "map_ok r \<and> (\<forall>k. map_find r k = (if k \<in> st_trade_id ` set ss then Some () else map_find tids k))"
  using assms
proof (induction ss arbitrary: sids tids)
  case (Cons s ss)
  then have "evidence_loop i g (map_put (st_settlement_id s) () sids) (map_put (st_trade_id s) () tids) ss = Some r"
    by (simp split: if_splits)
  from Cons.IH [OF this map_ok_put [OF Cons.prems(2)]] show ?case
    using Cons.prems(2) by (simp add: map_find_put)
qed simp

lemma same_outcome_iff [simp]: "same_outcome x y \<longleftrightarrow> x = y"
  by (cases x; cases y) (auto simp: same_outcome_def split: option.splits intro: money_amount.equality)

text \<open>The members of a group whose settlements are all in are those settlements.\<close>

lemma member_events_complete:
  assumes ok: "map_ok ms" and m: "\<And>k. map_find ms k = map_of (map (\<lambda>e. (st_trade_id e, Some e)) es) k"
    and d: "distinct (map st_trade_id es)"
  shows "mset (member_events ms) = mset es"
proof (rule mset_eqI_distinct)
  have s: "set ms = set (map (\<lambda>e. (st_trade_id e, Some e)) es)"
  proof (rule set_eqI)
    fix x show "x \<in> set ms \<longleftrightarrow> x \<in> set (map (\<lambda>e. (st_trade_id e, Some e)) es)"
      using smap.entries_find [OF ok] m map_of_eq_Some_iff [of "map (\<lambda>e. (st_trade_id e, Some e)) es"] d
      by (cases x) (simp add: comp_def)
  qed
  then show "set (member_events ms) = set es" by (auto simp: member_events_set set_eq_iff)
  show "distinct es" using d by (simp add: distinct_map)
  have "distinct (map fst xs) \<Longrightarrow> set xs \<subseteq> {(st_trade_id e, Some e) | e. True} \<Longrightarrow> distinct (member_events xs)" for xs
  proof (induction xs)
    case (Cons x xs)
    then obtain e where "x = (st_trade_id e, Some e)" by auto
    moreover from this Cons.prems have "e \<notin> set (member_events xs)" by (force simp: member_events_set)
    ultimately show ?case using Cons by simp
  qed simp
  from this [OF map_ok_distinct [OF ok]] s show "distinct (member_events ms)" by auto
qed

text \<open>What a valid piece of evidence contains.\<close>

lemma evidence_validD:
  assumes v: "evidence_valid_for ev r"
  obtains tids a where "evidence_loop (rr_intent_id r) (gi_group_id (se_execution_group ev)) [] [] (se_settlements ev) = Some tids"
    and "roster_ok (rr_intent_id r) (rr_execution_group r) (map fst tids) (ma_currency (rr_potential_risk r)) (ma_precision (rr_potential_risk r))"
    and "apply_all (make_aggregator (rr_intent_id r) (rr_execution_group r) (map fst tids)
           (ma_currency (rr_potential_risk r)) (ma_precision (rr_potential_risk r))) (se_settlements ev) = Some a"
    and "ag_outcome a = se_outcome ev" and "go_aggregation_status (se_outcome ev) = AS_READY" and "go_final (se_outcome ev)"
    and "se_intent_id ev = rr_intent_id r"
    and "length (se_settlements ev) = unat (gi_expected_members (rr_execution_group r))"
proof -
  let ?loop = "evidence_loop (se_intent_id ev) (gi_group_id (se_execution_group ev)) [] [] (se_settlements ev)"
  have e: "se_intent_id ev = rr_intent_id r" and st: "go_aggregation_status (se_outcome ev) = AS_READY"
    and fin: "go_final (se_outcome ev)"
    and len: "length (se_settlements ev) = unat (gi_expected_members (rr_execution_group r))"
    using v by (simp_all add: evidence_valid_for_def Let_def split: if_splits)
  from v obtain tids where l: "?loop = Some tids"
    by (cases ?loop) (simp_all add: evidence_valid_for_def Let_def split: if_splits)
  let ?a0 = "make_aggregator (rr_intent_id r) (rr_execution_group r) (map fst tids)
           (ma_currency (rr_potential_risk r)) (ma_precision (rr_potential_risk r))"
  have ro: "ag_valid ?a0" using v l by (simp add: evidence_valid_for_def Let_def split: if_splits)
  from v l obtain a where a: "apply_all ?a0 (se_settlements ev) = Some a"
    by (cases "apply_all ?a0 (se_settlements ev)") (simp_all add: evidence_valid_for_def Let_def split: if_splits)
  have "ag_outcome a = se_outcome ev" using v l a by (simp add: evidence_valid_for_def Let_def split: if_splits)
  with that l ro a e st fin len show ?thesis by (simp add: make_aggregator_valid)
qed

lemma evidence_members:
  assumes l: "evidence_loop i g [] [] es = Some tids"
    and ro: "roster_ok i grp (map fst tids) c p"
    and a: "apply_all (make_aggregator i grp (map fst tids) c p) es = Some a"
    and ok: "list_all settlement_ok es"
  shows "mset (member_events (ag_members a)) = mset es" and "list_all settlement_terminal es"
    and "ag_outcome a = group_spec grp \<lparr>ma_units = 0, ma_precision = p, ma_currency = c\<rparr> (ag_members a)"
proof -
  have acc: "\<forall>s\<in>set es. evidence_event_ok i g s" "distinct (map st_settlement_id es)" "distinct (map st_trade_id es)"
    using evidence_loop_accepts [of "[]" "[]" i g es] l by auto
  then show t: "list_all settlement_terminal es" by (simp add: list_all_iff evidence_event_ok_def)
  have r: "map_ok tids" "\<And>k. map_find tids k = (if k \<in> st_trade_id ` set es then Some () else None)"
    using evidence_loop_roster [OF l] by auto
  have s: "set (map fst tids) = st_trade_id ` set es"
  proof (rule set_eqI)
    fix k
    have "k \<in> set (map fst tids) \<longleftrightarrow> map_find tids k \<noteq> None" by (force simp: map_of_eq_None_iff)
    then show "k \<in> set (map fst tids) \<longleftrightarrow> k \<in> st_trade_id ` set es" by (simp add: r(2))
  qed
  have inv: "aggregator_inv (make_aggregator i grp (map fst tids) c p)" by (rule make_aggregator_inv)
  note ia = apply_all_inv [OF a inv ok]
  have m: "map_find (ag_members a) k = map_of (map (\<lambda>e. (st_trade_id e, Some e)) es) k" for k
  proof -
    have n: "map_of (map (\<lambda>e. (st_trade_id e, Some e)) es) k = None \<longleftrightarrow> k \<notin> st_trade_id ` set es"
      by (simp add: map_of_eq_None_iff image_image)
    show ?thesis
      using apply_all_maps(1) [OF a inv ok acc(2,3)] make_aggregator_members(1) [OF ro, of k] s n
      by (auto simp: map_add_def split: option.split)
  qed
  show "mset (member_events (ag_members a)) = mset es"
    using aggregator_inv_maps(1) [OF ia] m acc(3) by (rule member_events_complete)
  show "ag_outcome a = group_spec grp \<lparr>ma_units = 0, ma_precision = p, ma_currency = c\<rparr> (ag_members a)"
    using aggregator_inv_outcome [OF ia] apply_all_fields [OF a] ro by (simp add: make_aggregator_valid)
qed

lemma executed_units_mset:
  assumes "mset (member_events ms) = mset es" and "list_all settlement_terminal es"
  shows "mset (executed_units ms) = mset (map ma_units (List.map_filter st_net_profit es))"
    and "terminal_events ms = member_events ms"
proof -
  have "set (member_events ms) = set es" using assms(1) by (rule mset_eq_setD)
  then have "\<forall>e\<in>set (member_events ms). settlement_terminal e" using assms(2) by (simp add: list_all_iff)
  then show t: "terminal_events ms = member_events ms" by (simp add: terminal_events_def filter_id_conv)
  have "mset (List.map_filter f xs) = image_mset (the \<circ> f) (filter_mset (\<lambda>x. f x \<noteq> None) (mset xs))"
    for f :: "trade_settlement \<Rightarrow> money_amount option" and xs
    by (simp add: map_filter_def)
  then show "mset (executed_units ms) = mset (map ma_units (List.map_filter st_net_profit es))"
    by (simp add: executed_units_def t assms(1))
qed

text \<open>Acceptance of evidence does not depend on the order of its settlements.\<close>

lemma evidence_loop_permute:
  assumes l: "evidence_loop i g [] [] es = Some tids" and p: "mset es = mset fs"
  shows "evidence_loop i g [] [] fs = Some tids"
proof -
  have s: "set fs = set es" using p by (metis mset_eq_setD)
  have d: "distinct (map f es) \<longleftrightarrow> distinct (map f fs)" for f :: "trade_settlement \<Rightarrow> u64"
    using p by (metis mset_eq_imp_distinct_iff mset_map)
  have "evidence_loop i g [] [] fs \<noteq> None"
    using evidence_loop_accepts [of "[]" "[]" i g es] evidence_loop_accepts [of "[]" "[]" i g fs] l s d by simp
  then obtain t where t: "evidence_loop i g [] [] fs = Some t" by blast
  have "t = tids"
    using evidence_loop_roster [OF l] evidence_loop_roster [OF t] s by (intro map_ok_ext) auto
  with t show ?thesis by simp
qed

lemma evidence_valid_permute:
  assumes v: "evidence_valid_for ev r" and ok: "list_all settlement_ok (se_settlements ev)"
    and p: "mset (se_settlements ev) = mset fs"
  shows "evidence_valid_for (ev\<lparr>se_settlements := fs\<rparr>) r"
proof (cases rule: evidence_validD [OF v])
  case (1 tids a)
  let ?a0 = "make_aggregator (rr_intent_id r) (rr_execution_group r) (map fst tids)
           (ma_currency (rr_potential_risk r)) (ma_precision (rr_potential_risk r))"
  have len: "length fs = length (se_settlements ev)" using p by (metis mset_eq_length)
  have t: "list_all settlement_terminal (se_settlements ev)"
    using 1(1) evidence_loop_accepts [of "[]" "[]"] by (fastforce simp: list_all_iff evidence_event_ok_def)
  have val: "ag_valid ?a0" using 1(2) by (simp add: make_aggregator_valid)
  have "apply_all ?a0 fs = Some a"
    by (rule apply_all_permute [OF 1(3) make_aggregator_inv val t ok p])
  moreover note evidence_loop_permute [OF 1(1) p]
  ultimately show ?thesis
    using v 1 len val by (simp add: evidence_valid_for_def Let_def split: if_splits)
qed

subsection \<open>Properties\<close>

definition sample_money :: "int \<Rightarrow> money_amount" where
  "sample_money u = \<lparr>ma_units = u, ma_precision = 2, ma_currency = CUR_USD\<rparr>"

definition sample_config :: risk_config where
  "sample_config = \<lparr>rc_scope = \<lparr>rs_kind = RSK_ACCOUNT, rs_scope_id = 1\<rparr>, rc_max_snapshot_age_ms = 30000,
     rc_max_reserved_risk = Some (sample_money 1000)\<rparr>"

definition sample_request :: "string \<Rightarrow> u64 \<Rightarrow> int \<Rightarrow> risk_request" where
  "sample_request k i risk = \<lparr>rq_intent_id = i, rq_execution_group = \<lparr>gi_group_id = 7, gi_expected_members = 2\<rparr>,
     rq_cardinality = EC_SPLIT_GROUP, rq_intent_status = IS_PROPOSED, rq_idempotency_key = k,
     rq_stake = sample_money risk, rq_potential_risk = sample_money risk\<rparr>"

definition sample_owner :: risk_admission where
  "sample_owner = risk_run (make_risk_admission sample_config 1)
     [Update_call \<lparr>as_availability = RA_SUPPORTED, as_available_balance = sample_money 5000, as_captured_at_ms = 100,
        as_revision = 1\<rparr>]"

lemma sample_owner_inv: "risk_inv sample_owner"
  unfolding sample_owner_def by (rule risk.run_inv [OF make_risk_admission_inv]) (simp add: list_all_iff)

text \<open>C1: Reserved risk never passes the configured limit. After any calls whatever, the reported
  active risk is the exact integer sum over the reservations neither released nor settled (no
  saturation), all of them in one currency and precision, and with any reservation on record it is
  at most the configured maximum.\<close>

theorem risk_within_limit:
  assumes "rc_max_reserved_risk cfg = Some m" and "ra_by_key (risk_run (make_risk_admission cfg n) cs) \<noteq> []"
  shows "active_risk_units (risk_run (make_risk_admission cfg n) cs) =
      (\<Sum>e\<leftarrow>ra_by_key (risk_run (make_risk_admission cfg n) cs).
         if rr_state (snd e) \<in> {RRS_RELEASED, RRS_SETTLED} then 0 else ma_units (rr_potential_risk (snd e))) \<and>
    active_risk_units (risk_run (make_risk_admission cfg n) cs) \<le> ma_units m \<and>
    (\<forall>e\<in>set (ra_by_key (risk_run (make_risk_admission cfg n) cs)).
       same_currency m (rr_potential_risk (snd e)) \<and> 0 < ma_units (rr_potential_risk (snd e)))"
proof -
  let ?a = "risk_run (make_risk_admission cfg n) cs"
  have inv: "risk_inv ?a" by (rule risk.run_inv [OF make_risk_admission_inv]) (simp add: list_all_iff)
  have c: "rc_max_reserved_risk (ra_config ?a) = Some m"
    using assms(1) by (simp add: risk_run_config) (simp add: make_risk_admission_def)
  have "limit_inv ?a" using inv by (simp add: risk_inv_def)
  then have lim: "active_sum ?a \<le> ma_units m" using c assms(2) by (simp add: limit_inv_def)
  have "active_sum ?a = (\<Sum>e\<leftarrow>ra_by_key ?a. if rr_state (snd e) \<in> {RRS_RELEASED, RRS_SETTLED} then 0
      else ma_units (rr_potential_risk (snd e)))"
    unfolding active_sum_def by (rule arg_cong [of _ _ sum_list], rule map_cong [OF refl]) (auto simp: active_units_def active_state_def)
  moreover have "same_currency m (rr_potential_risk (snd e)) \<and> 0 < ma_units (rr_potential_risk (snd e))"
    if e: "e \<in> set (ra_by_key ?a)" for e
  proof -
    have "map_find (ra_by_key ?a) (fst e) = Some (snd e)"
      using smap.entries_find [OF risk_inv_maps(1) [OF inv], of "fst e" "snd e"] e by simp
    from risk_inv_find [OF inv this] c show ?thesis by (simp add: reservation_inv_def)
  qed
  ultimately show ?thesis using active_risk_exact [OF inv] lim by (simp only:) blast
qed

theorem risk_within_limit_witness:
  "active_risk_units (risk_run (make_risk_admission sample_config 1)
     [Update_call \<lparr>as_availability = RA_SUPPORTED, as_available_balance = sample_money 5000, as_captured_at_ms = 100,
        as_revision = 1\<rparr>, Reserve_call (sample_request ''a'' 1 700) 200, Reserve_call (sample_request ''b'' 2 400) 200]) \<le> 1000"
proof -
  let ?cs = "[Update_call \<lparr>as_availability = RA_SUPPORTED, as_available_balance = sample_money 5000, as_captured_at_ms = 100,
        as_revision = 1\<rparr>, Reserve_call (sample_request ''a'' 1 700) 200, Reserve_call (sample_request ''b'' 2 400) 200]"
  have "rc_max_reserved_risk sample_config = Some (sample_money 1000)" by (simp add: sample_config_def)
  moreover have "ra_by_key (risk_run (make_risk_admission sample_config 1) ?cs) \<noteq> []" by code_simp
  ultimately show ?thesis using risk_within_limit [of sample_config "sample_money 1000" 1 ?cs] by (simp add: sample_money_def)
qed

text \<open>C2: A new request, whose key and intent are not on record, is admitted exactly when the
  configuration and its own data are valid, identifiers are left, the snapshot is supported, in its
  currency, not from the future and not older than the limit (by exact arithmetic over all 64-bit
  times), and the active risk plus its own stays within the balance and the configured maximum; an
  admission adds exactly its risk and any other answer changes nothing.\<close>

theorem admission_exact:
  assumes inv: "risk_inv a" and "map_find (ra_by_key a) (rq_idempotency_key q) = None"
    and "map_find (ra_by_intent a) (rq_intent_id q) = None"
    and snap: "ra_snapshot a = Some s" and "money_ok (as_available_balance s)" and "i64 (as_captured_at_ms s)" and "i64 now"
    and "i64 (rc_max_snapshot_age_ms (ra_config a))" and "risk_valid a"
  shows "(ar_kind (fst (reserve a q now)) = RAK_ADMITTED \<longleftrightarrow>
     valid_identity q \<and> \<not> ra_id_sequence_exhausted a \<and>
     valid_metadata (rq_stake q) \<and> valid_metadata (rq_potential_risk q) \<and>
     same_currency (rq_stake q) (rq_potential_risk q) \<and> 0 < ma_units (rq_stake q) \<and> 0 < ma_units (rq_potential_risk q) \<and>
     as_availability s = RA_SUPPORTED \<and> same_currency (as_available_balance s) (rq_potential_risk q) \<and>
     as_captured_at_ms s \<le> now \<and> now - as_captured_at_ms s \<le> rc_max_snapshot_age_ms (ra_config a) \<and>
     active_risk_units a + ma_units (rq_potential_risk q) \<le> ma_units (as_available_balance s) \<and>
     (\<forall>m. rc_max_reserved_risk (ra_config a) = Some m \<longrightarrow> same_currency m (rq_potential_risk q) \<and>
        active_risk_units a + ma_units (rq_potential_risk q) \<le> ma_units m)) \<and>
    (if ar_kind (fst (reserve a q now)) = RAK_ADMITTED
     then active_risk_units (snd (reserve a q now)) = active_risk_units a + ma_units (rq_potential_risk q)
     else snd (reserve a q now) = a)"
proof -
  have "0 \<le> rc_max_snapshot_age_ms (ra_config a)" using assms(9) by (simp add: risk_valid_def config_valid_def)
  note fresh = snapshot_fresh_exact [OF assms(7,6,8) this]
  have "ma_units (as_available_balance s) \<le> i64_max" using assms(5) by (simp add: money_ok_def i64_def)
  then have add: "0 < ma_units (rq_potential_risk q) \<Longrightarrow>
      active_risk_units a + ma_units (rq_potential_risk q) \<le> ma_units (as_available_balance s) \<Longrightarrow>
      can_add (active_risk_units a) (ma_units (rq_potential_risk q))"
    by (simp add: can_add_def)
  have ad: "(\<exists>x. admissible a q now x) \<longleftrightarrow> admissible a q now s" using snap by (auto simp: admissible_def)
  have sum: "active_risk_units (reserved_state a s q) = active_risk_units a + ma_units (rq_potential_risk q)"
    if "admissible a q now s"
    using active_risk_exact [OF inv] active_risk_exact [OF reserved_state_inv [OF inv that]]
      active_sum_reserved [OF inv assms(2)] by simp
  have k: "ar_kind (fst (reserve a q now)) = RAK_ADMITTED \<longleftrightarrow> admissible a q now s"
    using reserve_kind_state [of a q now] ad by blast
  have st: "admissible a q now s \<Longrightarrow> snd (reserve a q now) = reserved_state a s q"
    by (simp add: reserve_admissible)
  have "admissible a q now s \<longleftrightarrow> valid_identity q \<and> \<not> ra_id_sequence_exhausted a \<and>
     valid_metadata (rq_stake q) \<and> valid_metadata (rq_potential_risk q) \<and>
     same_currency (rq_stake q) (rq_potential_risk q) \<and> 0 < ma_units (rq_stake q) \<and> 0 < ma_units (rq_potential_risk q) \<and>
     as_availability s = RA_SUPPORTED \<and> same_currency (as_available_balance s) (rq_potential_risk q) \<and>
     as_captured_at_ms s \<le> now \<and> now - as_captured_at_ms s \<le> rc_max_snapshot_age_ms (ra_config a) \<and>
     active_risk_units a + ma_units (rq_potential_risk q) \<le> ma_units (as_available_balance s) \<and>
     (\<forall>m. rc_max_reserved_risk (ra_config a) = Some m \<longrightarrow> same_currency m (rq_potential_risk q) \<and>
        active_risk_units a + ma_units (rq_potential_risk q) \<le> ma_units m)"
    using assms(2,3,4,9) add unfolding admissible_def fresh limit_ok_def by blast
  then show ?thesis using k st sum reserve_kind_state [of a q now] by simp
qed

theorem admission_exact_witness:
  "ar_kind (fst (reserve sample_owner (sample_request ''a'' 1 700) 200)) = RAK_ADMITTED \<and>
   active_risk_units (snd (reserve sample_owner (sample_request ''a'' 1 700) 200)) = 700"
proof -
  let ?s = "\<lparr>as_availability = RA_SUPPORTED, as_available_balance = sample_money 5000, as_captured_at_ms = 100, as_revision = 1\<rparr>"
  let ?q = "sample_request ''a'' 1 700"
  have p: "map_find (ra_by_key sample_owner) (rq_idempotency_key ?q) = None"
    "map_find (ra_by_intent sample_owner) (rq_intent_id ?q) = None" "ra_snapshot sample_owner = Some ?s"
    "money_ok (as_available_balance ?s)" "i64 (as_captured_at_ms ?s)" "i64 200"
    "i64 (rc_max_snapshot_age_ms (ra_config sample_owner))" "risk_valid sample_owner"
    by code_simp+
  have v: "ar_kind (fst (reserve sample_owner ?q 200)) = RAK_ADMITTED" "active_risk_units sample_owner = 0"
    "ma_units (rq_potential_risk ?q) = 700"
    by code_simp+
  from conjunct2 [OF admission_exact [OF sample_owner_inv p], unfolded if_P [OF v(1)] v(2,3)] v(1)
  show ?thesis by simp
qed

text \<open>Admission is idempotent. After a request was admitted, whatever calls follow, sending it
  again at any time answers DUPLICATE with the reservation that was made (in its current state) and
  a request with the same key and another payload answers CONFLICT; neither changes the owner.\<close>

theorem reserve_idempotent:
  assumes "risk_inv a" and "ar_kind (fst (reserve a q now)) = RAK_ADMITTED"
    and "rq_idempotency_key q' = rq_idempotency_key q" and "valid_identity q'"
  shows "\<exists>r. map_find (ra_by_key (risk_run (snd (reserve a q now)) cs)) (rq_idempotency_key q) = Some r \<and>
    rr_reservation_id r = ra_next_reservation_id a \<and> rr_intent_id r = rq_intent_id q \<and>
    reserve (risk_run (snd (reserve a q now)) cs) q' now' =
      (if same_request r q' then res_duplicate r else res_conflict RAR_PAYLOAD_CONFLICT,
       risk_run (snd (reserve a q now)) cs) \<and>
    same_request r q"
proof -
  from assms(2) obtain s where ad: "admissible a q now s" using reserve_kind_state [of a q now] by blast
  let ?n = "new_reservation a s q" and ?b = "reserved_state a s q"
  have b: "snd (reserve a q now) = ?b" using ad by (simp add: reserve_admissible)
  have "map_find (ra_by_key ?b) (rq_idempotency_key q) = Some ?n"
    using risk_inv_maps(1) [OF assms(1)] by (simp add: reserved_state_def map_find_put)
  from risk_run_keeps [OF reserved_state_inv [OF assms(1) ad] this, of cs]
  obtain r where r: "map_find (ra_by_key (risk_run ?b cs)) (rq_idempotency_key q) = Some r" "same_but_state ?n r" by blast
  then have f: "r = ?n\<lparr>rr_state := rr_state r\<rparr>" by (simp add: same_but_state_def)
  have "rr_reservation_id r = ra_next_reservation_id a" "rr_intent_id r = rq_intent_id q" "same_request r q"
    by (subst f, simp add: new_reservation_def same_request_def same_currency_def)+
  moreover have "risk_valid (risk_run ?b cs)"
    using ad risk_run_config [of ?b cs] by (simp add: risk_valid_def admissible_def)
  then have "reserve (risk_run ?b cs) q' now' =
      (if same_request r q' then res_duplicate r else res_conflict RAR_PAYLOAD_CONFLICT, risk_run ?b cs)"
    using r(1) assms(3,4) by (simp add: reserve_def)
  ultimately show ?thesis using r(1) b by simp
qed

theorem reserve_idempotent_witness:
  "ar_kind (fst (reserve (risk_run (snd (reserve sample_owner (sample_request ''a'' 1 700) 200)) []) (sample_request ''a'' 1 700) 999999)) = RAK_DUPLICATE"
proof -
  have a: "ar_kind (fst (reserve sample_owner (sample_request ''a'' 1 700) 200)) = RAK_ADMITTED"
    and v: "valid_identity (sample_request ''a'' 1 700)" by code_simp+
  from reserve_idempotent [OF sample_owner_inv a refl v, of "[]" 999999] show ?thesis by auto
qed

text \<open>A reservation that was released or settled is closed for good: whatever calls follow, the
  owner keeps it unchanged, so no late commit, release, settlement or retry moves it again.\<close>

theorem closed_reservation_absorbing:
  assumes "map_find (ra_by_key (risk_run (make_risk_admission cfg n) cs)) k = Some r"
    and "rr_state r = RRS_RELEASED \<or> rr_state r = RRS_SETTLED"
  shows "map_find (ra_by_key (risk_run (make_risk_admission cfg n) (cs @ cs'))) k = Some r"
proof -
  have "risk_inv (risk_run (make_risk_admission cfg n) cs)"
    by (rule risk.run_inv [OF make_risk_admission_inv]) (simp add: list_all_iff)
  from risk_run_keeps [OF this assms(1), of cs'] assms(2) show ?thesis
    by (auto simp: same_but_state_def active_state_def)
qed

definition sample_calls :: "risk_call list" where
  "sample_calls =
     [Update_call \<lparr>as_availability = RA_SUPPORTED, as_available_balance = sample_money 5000, as_captured_at_ms = 100,
        as_revision = 1\<rparr>, Reserve_call (sample_request ''a'' 1 700) 200]"

definition sample_token :: risk_reservation where
  "sample_token = the (map_find (ra_by_key (risk_run (make_risk_admission sample_config 1) sample_calls)) ''a'')"

theorem closed_reservation_absorbing_witness:
  "map_find (ra_by_key (risk_run (make_risk_admission sample_config 1)
     ((sample_calls @ [Release_call sample_token]) @ [Commit_call sample_token]))) ''a'' =
   Some (sample_token\<lparr>rr_state := RRS_RELEASED\<rparr>)"
proof (rule closed_reservation_absorbing)
  show "map_find (ra_by_key (risk_run (make_risk_admission sample_config 1) (sample_calls @ [Release_call sample_token]))) ''a'' =
   Some (sample_token\<lparr>rr_state := RRS_RELEASED\<rparr>)" by code_simp
  show "rr_state (sample_token\<lparr>rr_state := RRS_RELEASED\<rparr>) = RRS_RELEASED \<or>
    rr_state (sample_token\<lparr>rr_state := RRS_RELEASED\<rparr>) = RRS_SETTLED" by simp
qed

text \<open>Reservations do not share identity: after any calls, two reservations on record under
  different idempotency keys have different nonzero reservation ids and different intents, the
  end of the 64-bit id sequence included.\<close>

theorem reservations_unique:
  assumes "map_find (ra_by_key (risk_run (make_risk_admission cfg n) cs)) k = Some r"
    and "map_find (ra_by_key (risk_run (make_risk_admission cfg n) cs)) k' = Some r'" and "k \<noteq> k'"
  shows "rr_reservation_id r \<noteq> rr_reservation_id r' \<and> rr_intent_id r \<noteq> rr_intent_id r' \<and>
    rr_idempotency_key r = k \<and> rr_reservation_id r \<noteq> 0"
proof -
  have inv: "risk_inv (risk_run (make_risk_admission cfg n) cs)"
    by (rule risk.run_inv [OF make_risk_admission_inv]) (simp add: list_all_iff)
  note f = risk_inv_find [OF inv assms(1), unfolded reservation_inv_def] risk_inv_find [OF inv assms(2), unfolded reservation_inv_def]
  show ?thesis using risk_inv_ids [OF inv assms(1,2)] assms(3) f by auto
qed

theorem reservations_unique_witness:
  "rr_reservation_id (the (map_find (ra_by_key (risk_run (make_risk_admission sample_config 1)
      (sample_calls @ [Reserve_call (sample_request ''b'' 2 100) 200]))) ''a'')) \<noteq>
   rr_reservation_id (the (map_find (ra_by_key (risk_run (make_risk_admission sample_config 1)
      (sample_calls @ [Reserve_call (sample_request ''b'' 2 100) 200]))) ''b''))"
proof -
  let ?m = "ra_by_key (risk_run (make_risk_admission sample_config 1) (sample_calls @ [Reserve_call (sample_request ''b'' 2 100) 200]))"
  have "map_find ?m ''a'' \<noteq> None" "map_find ?m ''b'' \<noteq> None" by code_simp+
  then show ?thesis using reservations_unique [of sample_config 1 "sample_calls @ [Reserve_call (sample_request ''b'' 2 100) 200]" "''a''" _ "''b''"] by auto
qed

text \<open>A settlement that the owner applies rests on exact evidence: one valid terminal settlement
  of the intent for each expected member, with distinct settlement and trade ids, and an outcome
  whose net profit is the exact integer sum of the executed members in the currency of the
  reservation, its kind the sign of that sum, or REJECTED or CANCELLED when nothing was executed.\<close>

theorem settled_evidence_exact:
  assumes "ar_kind (fst (risk_settle a t ev)) = RAK_APPLIED" and "list_all settlement_ok (se_settlements ev)"
  shows "(let units = map ma_units (List.map_filter st_net_profit (se_settlements ev)); out = se_outcome ev
     in go_final out \<and> length (se_settlements ev) = unat (gi_expected_members (rr_execution_group t)) \<and>
        distinct (map st_settlement_id (se_settlements ev)) \<and> distinct (map st_trade_id (se_settlements ev)) \<and>
        (\<forall>s\<in>set (se_settlements ev). settlement_valid s \<and> settlement_terminal s \<and> st_intent_id s = rr_intent_id t) \<and>
        (if units = [] then go_net_profit out = None \<and> go_kind out \<in> {Some OK_REJECTED, Some OK_CANCELLED}
         else i64 (sum_list units) \<and>
           go_net_profit out = Some ((rr_potential_risk t)\<lparr>ma_units := sum_list units\<rparr>) \<and>
           go_kind out = Some (if 0 < sum_list units then OK_WIN else if sum_list units < 0 then OK_LOSS else OK_DRAW)))"
proof -
  have v: "evidence_valid_for ev t" using assms(1) by (auto simp: risk_settle_def split: if_splits)
  show ?thesis
  proof (cases rule: evidence_validD [OF v])
    case (1 tids a)
    let ?z = "\<lparr>ma_units = 0, ma_precision = ma_precision (rr_potential_risk t), ma_currency = ma_currency (rr_potential_risk t)\<rparr>"
    let ?us = "map ma_units (List.map_filter st_net_profit (se_settlements ev))"
    have acc: "\<forall>s\<in>set (se_settlements ev). evidence_event_ok (rr_intent_id t) (gi_group_id (se_execution_group ev)) s"
      "distinct (map st_settlement_id (se_settlements ev))" "distinct (map st_trade_id (se_settlements ev))"
      using 1(1) evidence_loop_accepts [of "[]" "[]" _ _ "se_settlements ev"] by auto
    note m = evidence_members [OF 1(1,2,3) assms(2)]
    have "mset (executed_units (ag_members a)) = mset ?us" by (rule executed_units_mset(1) [OF m(1,2)])
    then have s: "sum_list (executed_units (ag_members a)) = sum_list ?us" and e: "executed_units (ag_members a) = [] \<longleftrightarrow> ?us = []"
      by (metis sum_mset_sum_list, metis mset_zero_iff)
    have out: "se_outcome ev = group_spec (rr_execution_group t) ?z (ag_members a)" using m(3) 1(4) by simp
    have z: "?z\<lparr>ma_units := x\<rparr> = (rr_potential_risk t)\<lparr>ma_units := x\<rparr>" for x by simp
    have fin: "go_final (group_spec (rr_execution_group t) ?z (ag_members a))" using 1(6) out by simp
    have core: "(if ?us = [] then go_net_profit (se_outcome ev) = None \<and> go_kind (se_outcome ev) \<in> {Some OK_REJECTED, Some OK_CANCELLED}
         else i64 (sum_list ?us) \<and>
           go_net_profit (se_outcome ev) = Some ((rr_potential_risk t)\<lparr>ma_units := sum_list ?us\<rparr>) \<and>
           go_kind (se_outcome ev) = Some (if 0 < sum_list ?us then OK_WIN else if sum_list ?us < 0 then OK_LOSS else OK_DRAW))"
      using fin unfolding out by (auto simp: group_spec_def Let_def s e)
    show ?thesis unfolding Let_def
      using acc 1(6,8) core by (simp add: evidence_event_ok_def)
  qed
qed

definition sample_evidence :: settlement_evidence where
  "sample_evidence = \<lparr>se_reservation_id = 1, se_intent_id = 1,
     se_execution_group = \<lparr>gi_group_id = 7, gi_expected_members = 2\<rparr>,
     se_outcome = ag_outcome (the (apply_all sample_aggregator [sample_settlement 1 10 500, sample_settlement 2 11 (- 700)])),
     se_settlements = [sample_settlement 1 10 500, sample_settlement 2 11 (- 700)]\<rparr>"

lemma sample_evidence_ok: "list_all settlement_ok (se_settlements sample_evidence)"
  by (simp add: sample_evidence_def settlement_ok_def sample_settlement_def money_ok_def i64_def)

theorem settled_evidence_exact_witness:
  "go_net_profit (se_outcome sample_evidence) = Some ((rr_potential_risk sample_token)\<lparr>ma_units := - 200\<rparr>) \<and>
   go_kind (se_outcome sample_evidence) = Some OK_LOSS"
proof -
  have a: "ar_kind (fst (risk_settle (risk_run (make_risk_admission sample_config 1)
     (sample_calls @ [Commit_call sample_token])) sample_token sample_evidence)) = RAK_APPLIED" by code_simp
  have u: "map ma_units (List.map_filter st_net_profit (se_settlements sample_evidence)) = [500, - 700]" by code_simp
  from settled_evidence_exact [OF a sample_evidence_ok, unfolded u Let_def] show ?thesis by simp
qed

text \<open>Whether a piece of settlement evidence is accepted does not depend on the order in which
  its settlements are listed.\<close>

theorem evidence_order_irrelevant:
  assumes "list_all settlement_ok (se_settlements ev)" and "mset (se_settlements ev) = mset fs"
  shows "evidence_valid_for (ev\<lparr>se_settlements := fs\<rparr>) r = evidence_valid_for ev r"
proof
  assume "evidence_valid_for ev r"
  then show "evidence_valid_for (ev\<lparr>se_settlements := fs\<rparr>) r" by (rule evidence_valid_permute [OF _ assms])
next
  assume v: "evidence_valid_for (ev\<lparr>se_settlements := fs\<rparr>) r"
  have "set fs = set (se_settlements ev)" using assms(2) by (metis mset_eq_setD)
  then have "list_all settlement_ok fs" using assms(1) by (simp add: list_all_iff)
  with evidence_valid_permute [OF v, of "se_settlements ev"] assms(2) show "evidence_valid_for ev r" by simp
qed

theorem evidence_order_irrelevant_witness:
  "evidence_valid_for (sample_evidence\<lparr>se_settlements := rev (se_settlements sample_evidence)\<rparr>) sample_token"
proof -
  have "evidence_valid_for sample_evidence sample_token" by code_simp
  then show ?thesis by (subst evidence_order_irrelevant [OF sample_evidence_ok]) simp_all
qed

end
