(* ===== verification/AccountInfo.thy ===== *)
theory AccountInfo
  imports Requests TimeZone
begin

section \<open>Account information\<close>

text \<open>
  \<open>data/account/AccountInfoRequest.hpp\<close>, \<open>BaseAccountInfoData.hpp\<close> and
  \<open>BaseTradeExecutionComponent/AccountInfoProvider.hpp\<close>. The account of a platform is an object
  with virtual methods: \<open>account_data\<close> is the record of the three the execution component
  calls, an argument of its operations; \<open>IntradeAccount\<close> gives one of them.
\<close>

subsection \<open>AccountInfoType\<close>

datatype account_info_type =
    AIT_UNKNOWN | AIT_PARTNER_ID | AIT_USER_ID | AIT_BALANCE | AIT_BONUS | AIT_CONNECTION_STATUS
  | AIT_VIP_STATUS | AIT_PLATFORM_TYPE | AIT_ACCOUNT_TYPE | AIT_CURRENCY | AIT_OPEN_TRADES | AIT_MAX_TRADES
  | AIT_PAYOUT | AIT_MIN_AMOUNT | AIT_MAX_AMOUNT | AIT_MAX_REFUND | AIT_MIN_DURATION | AIT_MAX_DURATION
  | AIT_START_TIME | AIT_END_TIME | AIT_ORDER_QUEUE_TIMEOUT | AIT_RESPONSE_TIMEOUT | AIT_ORDER_INTERVAL_MS
  | AIT_SYMBOL_AVAILABILITY | AIT_OPTION_TYPE_AVAILABILITY | AIT_ORDER_TYPE_AVAILABILITY
  | AIT_ACCOUNT_TYPE_AVAILABILITY | AIT_CURRENCY_AVAILABILITY | AIT_TRADE_LIMIT_NOT_EXCEEDED
  | AIT_AMOUNT_BELOW_MAX | AIT_AMOUNT_ABOVE_MIN | AIT_REFUND_BELOW_MAX | AIT_REFUND_ABOVE_MIN
  | AIT_DURATION_AVAILABLE | AIT_EXPIRATION_DATE_AVAILABLE | AIT_PAYOUT_ABOVE_MIN | AIT_AMOUNT_BELOW_BALANCE

subsection \<open>AccountInfoRequest\<close>

record account_info_request =
  air_type :: account_info_type
  air_symbol :: string
  air_amount :: f64
  air_refund :: f64
  air_min_payout :: f64
  air_account_id :: int
  air_account_type :: account_type
  air_currency :: currency_type
  air_option_type :: option_type
  air_order_type :: order_type
  air_duration :: u32
  air_expiry_time :: int
  air_timestamp :: int

definition account_info_request_default :: account_info_request where
  "account_info_request_default =
     \<lparr>air_type = AIT_UNKNOWN, air_symbol = [], air_amount = 0, air_refund = 0, air_min_payout = 0,
      air_account_id = 0, air_account_type = ACC_UNKNOWN, air_currency = CUR_UNKNOWN,
      air_option_type = OPT_UNKNOWN, air_order_type = ORD_UNKNOWN, air_duration = 0, air_expiry_time = 0,
      air_timestamp = 0\<rparr>"

definition air_set_data :: "trade_request \<Rightarrow> account_info_type \<Rightarrow> account_info_request \<Rightarrow> account_info_request" where
  "air_set_data request info_type a =
     a\<lparr>air_type := info_type, air_symbol := treq_symbol request, air_amount := treq_amount request,
       air_refund := treq_refund request, air_min_payout := treq_min_payout request,
       air_account_id := treq_account_id request, air_account_type := treq_account_type request,
       air_currency := treq_currency request, air_option_type := treq_option_type request,
       air_order_type := treq_order_type request, air_duration := treq_duration request,
       air_expiry_time := treq_expiry_time request\<rparr>"

definition air_of_trade :: "trade_request \<Rightarrow> account_info_type \<Rightarrow> account_info_request" where
  "air_of_trade request info_type = air_set_data request info_type account_info_request_default"

subsection \<open>BaseAccountInfoData\<close>

record account_data =
  ad_bool :: "account_info_request \<Rightarrow> bool"
  ad_int64 :: "account_info_request \<Rightarrow> int"
  ad_f64 :: "account_info_request \<Rightarrow> f64"

definition info_request :: "account_info_type \<Rightarrow> int \<Rightarrow> account_info_request" where
  "info_request ty timestamp = account_info_request_default\<lparr>air_type := ty, air_timestamp := timestamp\<rparr>"

definition symbol_request :: "string \<Rightarrow> int \<Rightarrow> account_info_request" where
  "symbol_request symbol timestamp = account_info_request_default
     \<lparr>air_type := AIT_SYMBOL_AVAILABILITY, air_symbol := symbol, air_timestamp := timestamp\<rparr>"

definition option_request :: "option_type \<Rightarrow> int \<Rightarrow> account_info_request" where
  "option_request option_type timestamp = account_info_request_default
     \<lparr>air_type := AIT_OPTION_TYPE_AVAILABILITY, air_option_type := option_type, air_timestamp := timestamp\<rparr>"

definition order_request :: "order_type \<Rightarrow> int \<Rightarrow> account_info_request" where
  "order_request order_type timestamp = account_info_request_default
     \<lparr>air_type := AIT_ORDER_TYPE_AVAILABILITY, air_order_type := order_type, air_timestamp := timestamp\<rparr>"

definition account_request :: "account_type \<Rightarrow> int \<Rightarrow> account_info_request" where
  "account_request account_type timestamp = account_info_request_default
     \<lparr>air_type := AIT_ACCOUNT_TYPE_AVAILABILITY, air_account_type := account_type, air_timestamp := timestamp\<rparr>"

definition currency_request :: "currency_type \<Rightarrow> int \<Rightarrow> account_info_request" where
  "currency_request currency timestamp = account_info_request_default
     \<lparr>air_type := AIT_CURRENCY_AVAILABILITY, air_currency := currency, air_timestamp := timestamp\<rparr>"

definition trade_info_request :: "account_info_type \<Rightarrow> trade_request \<Rightarrow> int \<Rightarrow> account_info_request" where
  "trade_info_request info_type request timestamp = (air_of_trade request info_type)\<lparr>air_timestamp := timestamp\<rparr>"

text \<open>\<open>static_cast\<close> from the integer reading to an enum. An integer that is no enumerator is read as
  the first one, \<open>UNKNOWN\<close>.\<close>

definition enum_at :: "'e list \<Rightarrow> int \<Rightarrow> 'e" where
  "enum_at vs i = (if 0 \<le> i \<and> nat i < length vs then vs ! nat i else hd vs)"

definition get_account_type :: "account_data \<Rightarrow> account_info_request \<Rightarrow> account_type" where
  "get_account_type d r = enum_at account_type_values (ad_int64 d r)"

definition get_currency :: "account_data \<Rightarrow> account_info_request \<Rightarrow> currency_type" where
  "get_currency d r = enum_at currency_type_values (ad_int64 d r)"

subsection \<open>AccountInfoProvider\<close>

definition get_response_timeout :: "time_shield \<Rightarrow> account_data \<Rightarrow> int" where
  "get_response_timeout L d = ts_sec_to_ms L (ad_int64 d (info_request AIT_RESPONSE_TIMEOUT 0))"

end
