(* ===== verification/IntradeAccount.thy ===== *)
theory IntradeAccount
  imports AccountInfo StringUtils Float64
begin

section \<open>The Intrade.bar account\<close>

text \<open>
  \<open>platforms/IntradeBarPlatform/AccountInfoData.hpp\<close> and \<open>symbol_utils.hpp\<close>: the broker's rules as
  readings of an account. \<open>intrade_account_data\<close> is the object the execution component asks. The
  calendar of \<open>time_shield\<close> is an argument; amounts and payouts are binary64. \<open>get_info_str\<close> is
  left out: it prints through \<open>snprintf\<close> and nothing modelled reads it.
\<close>

subsection \<open>Symbols\<close>

definition supported_symbols :: "string list" where
  "supported_symbols =
     [''AUDCAD'', ''AUDCHF'', ''AUDJPY'', ''AUDNZD'', ''AUDUSD'', ''CADJPY'', ''EURAUD'', ''EURCAD'', ''EURCHF'',
      ''EURGBP'', ''EURJPY'', ''EURUSD'', ''GBPAUD'', ''GBPCHF'', ''GBPJPY'', ''GBPNZD'', ''NZDJPY'', ''NZDUSD'',
      ''USDCAD'', ''USDCHF'', ''USDJPY'', ''BTCUSDT'']"

definition normalize_symbol_name :: "string \<Rightarrow> string" where
  "normalize_symbol_name symbol =
     (let symbol = filter (\<lambda>ch. \<not> (ch = CHR ''/'' \<or> c_isspace ch)) symbol;
          symbol = map c_toupper symbol
      in if symbol = ''BTCUSD'' then ''BTCUSDT'' else symbol)"

definition is_btc_symbol :: "string \<Rightarrow> bool" where
  "is_btc_symbol symbol \<longleftrightarrow> normalize_symbol_name symbol = ''BTCUSDT''"

definition is_supported_symbol :: "string \<Rightarrow> bool" where
  "is_supported_symbol symbol = list_ex (\<lambda>item. normalize_symbol_name symbol = item) supported_symbols"

definition is_fxconnect_supported_symbol :: "string \<Rightarrow> bool" where
  "is_fxconnect_supported_symbol symbol =
     (let normalized = normalize_symbol_name symbol
      in normalized \<noteq> ''BTCUSDT'' \<and> is_supported_symbol normalized)"

definition make_fxconnect_symbol :: "string \<Rightarrow> string" where
  "make_fxconnect_symbol symbol =
     (let normalized = normalize_symbol_name symbol
      in if \<not> is_fxconnect_supported_symbol normalized then []
         else take 3 normalized @ ''/'' @ take 3 (drop 3 normalized))"

subsection \<open>State\<close>

record intrade_account =
  ia_user_id :: int
  ia_balance :: f64
  ia_currency :: currency_type
  ia_account_type :: account_type
  ia_connect :: bool
  ia_open_trades :: int
  ia_min_usd_amount :: f64
  ia_max_usd_amount :: f64
  ia_max_usd_limit_amount :: f64
  ia_high_payout_usd_amount :: f64
  ia_min_rub_amount :: f64
  ia_max_rub_amount :: f64
  ia_max_rub_limit_amount :: f64
  ia_high_payout_rub_amount :: f64
  ia_min_duration :: int
  ia_min_btc_duration :: int
  ia_max_duration :: int
  ia_max_trades :: int
  ia_max_limit_trades :: int
  ia_order_queue_timeout :: int
  ia_responce_timeout :: int
  ia_order_interval_ms :: int
  ia_start_btc_time :: int
  ia_end_btc_time :: int
  ia_start_time :: int
  ia_end_time :: int

definition intrade_account_default :: intrade_account where
  "intrade_account_default =
     \<lparr>ia_user_id = 0, ia_balance = 0, ia_currency = CUR_UNKNOWN, ia_account_type = ACC_UNKNOWN, ia_connect = False,
      ia_open_trades = 0, ia_min_usd_amount = f64_of_int 1, ia_max_usd_amount = f64_of_int 700,
      ia_max_usd_limit_amount = f64_of_int 50, ia_high_payout_usd_amount = f64_of_int 80,
      ia_min_rub_amount = f64_of_int 100, ia_max_rub_amount = f64_of_int 50000,
      ia_max_rub_limit_amount = f64_of_int 3500, ia_high_payout_rub_amount = f64_of_int 5000,
      ia_min_duration = 60, ia_min_btc_duration = 300, ia_max_duration = 30000, ia_max_trades = 5,
      ia_max_limit_trades = 2, ia_order_queue_timeout = 10, ia_responce_timeout = 180, ia_order_interval_ms = 1000,
      ia_start_btc_time = 0, ia_end_btc_time = 86400, ia_start_time = 3600, ia_end_time = 75600\<rparr>"

subsection \<open>Limits\<close>

definition check_amount_limits :: "int \<Rightarrow> bool" where
  "check_amount_limits second_day \<longleftrightarrow>
     50100 \<le> second_day \<and> second_day < 50700 \<or> 53700 \<le> second_day \<and> second_day < 54300 \<or>
     57300 \<le> second_day \<and> second_day < 57900 \<or> 60900 \<le> second_day \<and> second_day < 61500 \<or>
     64500 \<le> second_day \<and> second_day < 65100 \<or> 68100 \<le> second_day \<and> second_day < 68700 \<or>
     71700 \<le> second_day \<and> second_day < 72300 \<or> 73500 \<le> second_day \<and> second_day < 74100 \<or>
     75300 \<le> second_day"

definition check_payout_limits :: "int \<Rightarrow> bool" where
  "check_payout_limits second_day \<longleftrightarrow>
     second_day < 3780 \<or> 7020 \<le> second_day \<and> second_day < 7380 \<or>
     10620 \<le> second_day \<and> second_day < 10980 \<or> 14220 \<le> second_day \<and> second_day < 14580 \<or>
     17820 \<le> second_day \<and> second_day < 18180 \<or> 21420 \<le> second_day \<and> second_day < 21780 \<or>
     50100 \<le> second_day \<and> second_day < 50700 \<or> 53700 \<le> second_day \<and> second_day < 54300 \<or>
     57300 \<le> second_day \<and> second_day < 57900 \<or> 60900 \<le> second_day \<and> second_day < 61500 \<or>
     64500 \<le> second_day \<and> second_day < 65100 \<or> 68100 \<le> second_day \<and> second_day < 68700 \<or>
     71700 \<le> second_day \<and> second_day < 72300 \<or> 75300 \<le> second_day"

definition get_min_amount :: "intrade_account \<Rightarrow> account_info_request \<Rightarrow> f64" where
  "get_min_amount a r =
     (if air_currency r = CUR_USD then ia_min_usd_amount a
      else if air_currency r = CUR_RUB then ia_min_rub_amount a
      else if ia_currency a = CUR_USD then ia_min_usd_amount a
      else if ia_currency a = CUR_RUB then ia_min_rub_amount a else 0)"

definition get_max_amount :: "time_shield \<Rightarrow> intrade_account \<Rightarrow> account_info_request \<Rightarrow> f64" where
  "get_max_amount L a r =
     (if check_amount_limits (ts_sec_of_day L (air_timestamp r)) then
        (if air_currency r = CUR_USD then ia_max_usd_limit_amount a
         else if air_currency r = CUR_RUB then ia_max_rub_limit_amount a
         else if ia_currency a = CUR_USD then ia_max_usd_limit_amount a
         else if ia_currency a = CUR_RUB then ia_max_rub_limit_amount a else 0)
      else
        (if air_currency r = CUR_USD then ia_max_usd_amount a
         else if air_currency r = CUR_RUB then ia_max_rub_amount a
         else if ia_currency a = CUR_USD then ia_max_usd_amount a
         else if ia_currency a = CUR_RUB then ia_max_rub_amount a else 0))"

definition get_min_duration :: "intrade_account \<Rightarrow> account_info_request \<Rightarrow> int" where
  "get_min_duration a r = (if is_btc_symbol (air_symbol r) then ia_min_btc_duration a else ia_min_duration a)"

definition get_max_duration_sec :: "time_shield \<Rightarrow> intrade_account \<Rightarrow> account_info_request \<Rightarrow> int" where
  "get_max_duration_sec L a r =
     (if is_btc_symbol (air_symbol r) then ia_max_duration a
      else min (ts_start_of_min L (ia_end_time a - ts_sec_of_day L (air_timestamp r))) (ia_max_duration a))"

definition get_start_time_sec :: "intrade_account \<Rightarrow> account_info_request \<Rightarrow> int" where
  "get_start_time_sec a r = (if is_btc_symbol (air_symbol r) then ia_start_btc_time a else ia_start_time a)"

definition get_end_time_sec :: "intrade_account \<Rightarrow> account_info_request \<Rightarrow> int" where
  "get_end_time_sec a r = (if is_btc_symbol (air_symbol r) then ia_end_btc_time a else ia_end_time a)"

subsection \<open>Expiration of classic options\<close>

definition calc_expiration :: "time_shield \<Rightarrow> int \<Rightarrow> int \<Rightarrow> int" where
  "calc_expiration L timestamp expiry_time =
     (if expiry_time smod ts_sec_per_5_min L \<noteq> 0 then 0
      else let diff = expiry_time - timestamp
      in if diff \<le> ts_sec_per_3_min L then 0
         else ((((diff - 1) sdiv ts_sec_per_min L - 3) sdiv 5) * 5 + 5) * ts_sec_per_min L)"

definition calc_expiry_time :: "time_shield \<Rightarrow> int \<Rightarrow> int \<Rightarrow> int" where
  "calc_expiry_time L timestamp expiration =
     (if expiration smod 5 \<noteq> 0 \<or> expiration < 5 then 0
      else let timestamp_future = timestamp + (expiration + 3) * ts_sec_per_min L
      in timestamp_future - timestamp_future smod (5 * ts_sec_per_min L))"

subsection \<open>Payout\<close>

text \<open>The amounts from which the payout is the high one, and below which there is none: both the
  currency of the request and that of the account are tested.\<close>

definition high_payout :: "intrade_account \<Rightarrow> account_info_request \<Rightarrow> bool" where
  "high_payout a r \<longleftrightarrow>
     air_currency r = CUR_USD \<and> f64_le (ia_high_payout_usd_amount a) (air_amount r) \<or>
     air_currency r = CUR_RUB \<and> f64_le (ia_high_payout_rub_amount a) (air_amount r) \<or>
     ia_currency a = CUR_USD \<and> f64_le (ia_high_payout_usd_amount a) (air_amount r) \<or>
     ia_currency a = CUR_RUB \<and> f64_le (ia_high_payout_rub_amount a) (air_amount r)"

definition amount_too_small :: "intrade_account \<Rightarrow> account_info_request \<Rightarrow> bool" where
  "amount_too_small a r \<longleftrightarrow>
     air_currency r = CUR_USD \<and> f64_less (air_amount r) (ia_min_usd_amount a) \<or>
     air_currency r = CUR_RUB \<and> f64_less (air_amount r) (ia_min_rub_amount a) \<or>
     ia_currency a = CUR_USD \<and> f64_less (air_amount r) (ia_min_usd_amount a) \<or>
     ia_currency a = CUR_RUB \<and> f64_less (air_amount r) (ia_min_rub_amount a)"

definition get_payout :: "time_shield \<Rightarrow> intrade_account \<Rightarrow> account_info_request \<Rightarrow> f64" where
  "get_payout L a r =
     (let duration = uint (air_duration r); timestamp = air_timestamp r
      in if amount_too_small a r then 0
      else
        let sec_of_day = ts_sec_of_day L timestamp
        in if is_btc_symbol (air_symbol r) then
             (if air_option_type r = OPT_CLASSIC \<or> duration < ia_min_btc_duration a \<or> ia_max_duration a < duration then 0
              else if ts_is_day_off L (timestamp + 3 * ts_sec_per_hour L) then f64_of_ratio 6 10
              else if \<not> check_payout_limits sec_of_day then
                (if high_payout a r then f64_of_ratio 85 100 else f64_of_ratio 79 100)
              else f64_of_ratio 6 10)
           else if ts_is_day_off L timestamp \<or> sec_of_day < ia_start_time a \<or> ia_end_time a \<le> sec_of_day then 0
           else if air_option_type r = OPT_SPRINT then
             (if duration < ts_sec_per_min L \<or> duration = 2 * ts_sec_per_min L \<or> duration smod ts_sec_per_min L \<noteq> 0 \<or>
                 min (ts_start_of_min L (ia_end_time a - ts_sec_of_day L timestamp)) (ia_max_duration a) < duration then 0
              else if \<not> check_payout_limits sec_of_day then
                (if high_payout a r then f64_of_ratio 85 100
                 else if duration = 180 then f64_of_ratio 82 100
                 else if duration = 60 then f64_of_ratio 82 100
                 else f64_of_ratio 82 100)
              else f64_of_ratio 6 10)
           else if air_option_type r = OPT_CLASSIC then
             (if ts_sec_per_year L < duration \<and> calc_expiration L timestamp duration = 0 then 0
              else if \<not> ts_sec_per_year L < duration \<and> duration smod (5 * ts_sec_per_min L) \<noteq> 0 then 0
              else
                let expiry = calc_expiry_time L timestamp (duration sdiv ts_sec_per_min L)
                in if \<not> ts_sec_per_year L < duration \<and> (expiry = 0 \<or> ts_start_of_day L expiry + ia_end_time a < expiry) then 0
                else if sec_of_day < ia_start_time a \<or> ia_end_time a \<le> sec_of_day then 0
                else if \<not> check_payout_limits sec_of_day then
                  (if high_payout a r then f64_of_ratio 85 100 else f64_of_ratio 79 100)
                else 0)
           else 0)"

subsection \<open>Readings\<close>

definition get_info_bool :: "time_shield \<Rightarrow> intrade_account \<Rightarrow> account_info_request \<Rightarrow> bool" where
  "get_info_bool L a r =
     (case air_type r of
        AIT_CONNECTION_STATUS \<Rightarrow> ia_connect a
      | AIT_SYMBOL_AVAILABILITY \<Rightarrow> is_supported_symbol (air_symbol r)
      | AIT_OPTION_TYPE_AVAILABILITY \<Rightarrow>
          if air_option_type r = OPT_CLASSIC \<and> is_btc_symbol (air_symbol r) then False
          else air_option_type r = OPT_CLASSIC \<or> air_option_type r = OPT_SPRINT
      | AIT_ORDER_TYPE_AVAILABILITY \<Rightarrow> air_order_type r = ORD_BUY \<or> air_order_type r = ORD_SELL
      | AIT_ACCOUNT_TYPE_AVAILABILITY \<Rightarrow> ia_account_type a \<noteq> ACC_UNKNOWN \<and> air_account_type r = ia_account_type a
      | AIT_CURRENCY_AVAILABILITY \<Rightarrow> ia_currency a \<noteq> CUR_UNKNOWN \<and> air_currency r = ia_currency a
      | AIT_TRADE_LIMIT_NOT_EXCEEDED \<Rightarrow>
          if check_amount_limits (ts_sec_of_day L (air_timestamp r)) then ia_open_trades a < ia_max_limit_trades a
          else ia_open_trades a < ia_max_trades a
      | AIT_AMOUNT_BELOW_MAX \<Rightarrow> f64_le (air_amount r) (get_max_amount L a r)
      | AIT_AMOUNT_ABOVE_MIN \<Rightarrow> f64_le (get_min_amount a r) (air_amount r)
      | AIT_REFUND_BELOW_MAX \<Rightarrow> True
      | AIT_REFUND_ABOVE_MIN \<Rightarrow> True
      | AIT_DURATION_AVAILABLE \<Rightarrow>
          if air_option_type r = OPT_CLASSIC then True
          else
            let req_duration = uint (air_duration r)
            in get_min_duration a r \<le> req_duration \<and> req_duration \<le> get_max_duration_sec L a r \<and>
               req_duration smod ts_sec_per_min L = 0 \<and> req_duration \<noteq> 2 * ts_sec_per_min L
      | AIT_EXPIRATION_DATE_AVAILABLE \<Rightarrow>
          if air_option_type r = OPT_SPRINT then True
          else
            let sec_of_day = ts_sec_of_day L (air_expiry_time r)
            in if sec_of_day < ia_start_time a \<or> ia_end_time a < sec_of_day then False
               else if air_expiry_time r smod ts_sec_per_5_min L \<noteq> 0 then False
               else 180 \<le> air_expiry_time r - air_timestamp r
      | AIT_PAYOUT_ABOVE_MIN \<Rightarrow>
          if f64_eq (air_min_payout r) 0 then True else f64_le (air_min_payout r) (get_payout L a r)
      | AIT_AMOUNT_BELOW_BALANCE \<Rightarrow> f64_le (air_amount r) (ia_balance a)
      | _ \<Rightarrow> False)"

definition get_info_int64 :: "time_shield \<Rightarrow> intrade_account \<Rightarrow> account_info_request \<Rightarrow> int" where
  "get_info_int64 L a r =
     (case air_type r of
        AIT_USER_ID \<Rightarrow> ia_user_id a
      | AIT_CONNECTION_STATUS \<Rightarrow> (if ia_connect a then 1 else 0)
      | AIT_BALANCE \<Rightarrow> f64_trunc_int (ia_balance a)
      | AIT_PLATFORM_TYPE \<Rightarrow> int (enum_index platform_type_values PT_INTRADE_BAR)
      | AIT_ACCOUNT_TYPE \<Rightarrow> int (enum_index account_type_values (ia_account_type a))
      | AIT_CURRENCY \<Rightarrow> int (enum_index currency_type_values (ia_currency a))
      | AIT_OPEN_TRADES \<Rightarrow> ia_open_trades a
      | AIT_MAX_TRADES \<Rightarrow>
          (if check_amount_limits (ts_sec_of_day L (air_timestamp r)) then ia_max_limit_trades a else ia_max_trades a)
      | AIT_PAYOUT \<Rightarrow> f64_trunc_int (f64_mul (get_payout L a r) (f64_of_int 100))
      | AIT_MIN_AMOUNT \<Rightarrow> f64_trunc_int (get_min_amount a r)
      | AIT_MAX_AMOUNT \<Rightarrow> f64_trunc_int (get_max_amount L a r)
      | AIT_MIN_DURATION \<Rightarrow> get_min_duration a r
      | AIT_MAX_DURATION \<Rightarrow> get_max_duration_sec L a r
      | AIT_START_TIME \<Rightarrow> ts_start_of_day L (air_timestamp r) + get_start_time_sec a r
      | AIT_END_TIME \<Rightarrow> ts_start_of_day L (air_timestamp r) + get_end_time_sec a r
      | AIT_ORDER_QUEUE_TIMEOUT \<Rightarrow> ia_order_queue_timeout a
      | AIT_RESPONSE_TIMEOUT \<Rightarrow> ia_responce_timeout a
      | AIT_ORDER_INTERVAL_MS \<Rightarrow> ia_order_interval_ms a
      | _ \<Rightarrow> 0)"

definition get_info_f64 :: "time_shield \<Rightarrow> intrade_account \<Rightarrow> account_info_request \<Rightarrow> f64" where
  "get_info_f64 L a r =
     (case air_type r of
        AIT_BALANCE \<Rightarrow> ia_balance a
      | AIT_PAYOUT \<Rightarrow> get_payout L a r
      | AIT_MIN_AMOUNT \<Rightarrow> get_min_amount a r
      | AIT_MAX_AMOUNT \<Rightarrow> get_max_amount L a r
      | _ \<Rightarrow> 0)"

definition intrade_account_data :: "time_shield \<Rightarrow> intrade_account \<Rightarrow> account_data" where
  "intrade_account_data L a = \<lparr>ad_bool = get_info_bool L a, ad_int64 = get_info_int64 L a, ad_f64 = get_info_f64 L a\<rparr>"

subsection \<open>Lemmas\<close>

lemma supported_member: "is_supported_symbol s \<longleftrightarrow> normalize_symbol_name s \<in> set supported_symbols"
  by (auto simp: is_supported_symbol_def list_ex_iff)

lemma supported_fixed: "s \<in> set supported_symbols \<Longrightarrow> normalize_symbol_name s = s"
proof -
  have "list_all (\<lambda>s. normalize_symbol_name s = s) supported_symbols" by code_simp
  then show "s \<in> set supported_symbols \<Longrightarrow> normalize_symbol_name s = s" by (simp add: list_all_iff)
qed

lemma c_toupper_slash: "c_toupper c = CHR ''/'' \<longleftrightarrow> c = CHR ''/''"
proof -
  have "(of_char (c_toupper c) :: nat) = of_char (CHR ''/'') \<longleftrightarrow> (of_char c :: nat) = of_char (CHR ''/'')"
    by (auto simp: c_toupper_def)
  then show ?thesis by (simp only: of_char_eq_iff)
qed

lemma normalize_symbol_name_idem: "normalize_symbol_name (normalize_symbol_name s) = normalize_symbol_name s"
proof -
  have f: "filter (\<lambda>ch. \<not> (ch = CHR ''/'' \<or> c_isspace ch)) (map c_toupper (filter (\<lambda>ch. \<not> (ch = CHR ''/'' \<or> c_isspace ch)) s)) =
      map c_toupper (filter (\<lambda>ch. \<not> (ch = CHR ''/'' \<or> c_isspace ch)) s)"
    by (induction s) (simp_all add: c_toupper_slash)
  have btc: "normalize_symbol_name ''BTCUSDT'' = ''BTCUSDT''" by code_simp
  define n where "n = map c_toupper (filter (\<lambda>ch. \<not> (ch = CHR ''/'' \<or> c_isspace ch)) s)"
  have n: "normalize_symbol_name s = (if n = ''BTCUSD'' then ''BTCUSDT'' else n)"
    by (simp only: normalize_symbol_name_def Let_def n_def)
  have "map c_toupper n = n" by (simp add: n_def)
  then have "normalize_symbol_name n = (if n = ''BTCUSD'' then ''BTCUSDT'' else n)"
    by (simp only: normalize_symbol_name_def Let_def f [folded n_def])
  then show ?thesis using n btc by (cases "n = ''BTCUSD''") (simp_all only: if_True if_False refl)
qed

text \<open>The broker's stream name of a supported currency pair reads back as the pair; every other symbol has none.\<close>

theorem fxconnect_roundtrip:
  "if is_fxconnect_supported_symbol s
   then normalize_symbol_name (make_fxconnect_symbol s) = normalize_symbol_name s \<and> length (make_fxconnect_symbol s) = 7
   else make_fxconnect_symbol s = []"
proof (cases "is_fxconnect_supported_symbol s")
  case True
  let ?n = "normalize_symbol_name s"
  have n: "?n \<in> set supported_symbols" "?n \<noteq> ''BTCUSDT''"
    using True by (simp_all add: is_fxconnect_supported_symbol_def Let_def supported_member normalize_symbol_name_idem)
  have "list_all (\<lambda>n. n = ''BTCUSDT'' \<or> is_fxconnect_supported_symbol n \<and>
      normalize_symbol_name (take 3 n @ ''/'' @ take 3 (drop 3 n)) = n \<and> length n = 6) supported_symbols" by code_simp
  then have "is_fxconnect_supported_symbol ?n \<and>
      normalize_symbol_name (take 3 ?n @ ''/'' @ take 3 (drop 3 ?n)) = ?n \<and> length ?n = 6"
    using n by (auto simp: list_all_iff)
  moreover from this have "make_fxconnect_symbol s = take 3 ?n @ ''/'' @ take 3 (drop 3 ?n)"
    by (simp only: make_fxconnect_symbol_def Let_def simp_thms if_False)
  ultimately have "normalize_symbol_name (make_fxconnect_symbol s) = ?n" "length (make_fxconnect_symbol s) = 7"
    by (simp_all only: ) simp_all
  then show ?thesis using True by simp
next
  case False
  then have "\<not> is_fxconnect_supported_symbol (normalize_symbol_name s)"
    by (simp add: is_fxconnect_supported_symbol_def Let_def normalize_symbol_name_idem)
  with False show ?thesis by (simp add: make_fxconnect_symbol_def Let_def)
qed

subsection \<open>Expiration\<close>

lemma expiry_arith:
  fixes t m :: int
  assumes "1 \<le> m"
  defines "e \<equiv> t + (5 * m + 3) * 60"
  shows "180 < e - e mod 300 - t" and "(e - e mod 300 - t - 1) div 60 = 5 * m + (179 - e mod 300) div 60"
    and "0 \<le> 5 * m + (179 - e mod 300) div 60 - 3" and "(5 * m + (179 - e mod 300) div 60 - 3) div 5 = m - 1"
proof -
  define s where "s = e mod 300"
  have s: "0 \<le> s" "s < 300" by (simp_all add: s_def)
  have d: "e - s - t = 300 * m + 180 - s" by (simp add: e_def)
  show "180 < e - e mod 300 - t" using assms(1) s d by (simp flip: s_def)
  have "e - s - t - 1 = (179 - s) + 5 * m * 60" using d by simp
  then have "(e - s - t - 1) div 60 = ((179 - s) + 5 * m * 60) div 60" by (simp only:)
  also have "\<dots> = 5 * m + (179 - s) div 60" by (subst div_mult_self1) simp_all
  finally show "(e - e mod 300 - t - 1) div 60 = 5 * m + (179 - e mod 300) div 60" by (simp flip: s_def)
  define x where "x = (179 - s) div 60"
  have x: "- 2 \<le> x" "x \<le> 2" 
    using zdiv_mono1 [of "- 120" "179 - s" 60] zdiv_mono1 [of "179 - s" 179 60] s by (simp_all add: x_def)
  show "0 \<le> 5 * m + (179 - e mod 300) div 60 - 3" using x assms(1) by (simp flip: s_def x_def)
  have "(5 * m + x - 3) div 5 = ((x + 2) + (m - 1) * 5) div 5" by (simp add: algebra_simps)
  also have "\<dots> = (m - 1) + (x + 2) div 5" by (subst div_mult_self1) simp_all
  also have "(x + 2) div 5 = 0" using x by (intro div_pos_pos_trivial) linarith+
  finally show "(5 * m + (179 - e mod 300) div 60 - 3) div 5 = m - 1" by (simp flip: s_def x_def)
qed

lemma sdiv_smod_nonneg: "0 \<le> a \<Longrightarrow> 0 < b \<Longrightarrow> (a :: int) sdiv b = a div b \<and> a smod b = a mod b"
  by (cases "a = 0") (simp_all add: signed_divide_int_def signed_modulo_int_def minus_div_mult_eq_mod)

text \<open>The expiry time computed for a classic option of a valid number of minutes lies on a five-minute boundary, at least three minutes ahead, and converts back to that number of minutes.\<close>

theorem classic_expiry_roundtrip:
  assumes "time_shield_units L" and "0 \<le> t" and "5 \<le> n" and "n mod 5 = 0"
  shows "calc_expiration L t (calc_expiry_time L t n) = n * 60 \<and> calc_expiry_time L t n mod 300 = 0 \<and>
    180 < calc_expiry_time L t n - t"
proof -
  obtain m where n: "n = 5 * m" using assms(4) by (auto simp: mod_eq_0_iff_dvd dvd_def)
  have m: "1 \<le> m" using assms(3) n by simp
  define e where "e = t + (5 * m + 3) * 60"
  have e: "0 \<le> e" using assms(2) m by (simp add: e_def)
  note A = expiry_arith [OF m, of t, folded e_def]
  have "n smod 5 = 0" using sdiv_smod_nonneg [of n 5] assms(3,4) by simp
  moreover have u: "ts_sec_per_min L = 60" "ts_sec_per_3_min L = 180" "ts_sec_per_5_min L = 300"
    using assms(1) by (simp_all add: time_shield_units_def)
  moreover have "e smod 300 = e mod 300" using sdiv_smod_nonneg [OF e, of 300] by simp
  moreover have "t + (n + 3) * 60 = e" by (simp add: e_def n)
  ultimately have x: "calc_expiry_time L t n = e - e mod 300"
    using assms(3) by (simp add: calc_expiry_time_def Let_def)
  have mul: "(e - e mod 300) mod 300 = 0" by (simp add: minus_mod_eq_mult_div)
  have "0 \<le> e - e mod 300" using e by (simp add: minus_mod_eq_mult_div)
  then have z: "(e - e mod 300) smod 300 = 0" using sdiv_smod_nonneg [of "e - e mod 300" 300] mul by simp
  have "(e - e mod 300 - t - 1) sdiv 60 = 5 * m + (179 - e mod 300) div 60"
    using sdiv_smod_nonneg [of "e - e mod 300 - t - 1" 60] A(1,2) by simp
  moreover have "(5 * m + (179 - e mod 300) div 60 - 3) sdiv 5 = m - 1"
    using sdiv_smod_nonneg [OF A(3), of 5] A(4) by simp
  ultimately have "calc_expiration L t (e - e mod 300) = n * 60"
    using z A(1) u by (simp add: calc_expiration_def Let_def n)
  then show ?thesis using x mul A(1) by simp
qed

theorem classic_expiry_roundtrip_witness:
  "calc_expiration sample_time_shield 1700000000 (calc_expiry_time sample_time_shield 1700000000 15) = 900"
  using classic_expiry_roundtrip [OF sample_time_shield_units, of 1700000000 15] by simp

end
