(* ===== verification/Prices.thy ===== *)
theory Prices
  imports Requests
begin

section \<open>Prices\<close>

text \<open>
  \<open>utils/fixed_point.hpp\<close>, \<open>data/trading/SpreadPack.hpp\<close>, \<open>data/ticks/Tick.hpp\<close> and the batches
  of \<open>data/events/PriceUpdateEvent.hpp\<close>. The exceptions of the code are \<open>Inl\<close>. The lemmas show that
  the two halves of a packed spread do not disturb each other, and what a representative price is.
\<close>

unbundle bit_operations_syntax

datatype price_error = Invalid_argument | Out_of_range

subsection \<open>Fixed point\<close>

definition scale_table :: "f64 list" where
  "scale_table = map (\<lambda>k. f64_of_int (10 ^ k)) [0..<19]"

definition normalize_double :: "f64 \<Rightarrow> nat \<Rightarrow> price_error + f64" where
  "normalize_double value digits =
     (if 18 < digits then Inl Invalid_argument
      else Inr (f64_div (f64_round (f64_mul value (scale_table ! digits))) (scale_table ! digits)))"

definition precision_tolerance :: "nat \<Rightarrow> price_error + f64" where
  "precision_tolerance digits =
     (if 18 < digits then Inl Invalid_argument else Inr (f64_of_ratio 5 (10 * 10 ^ digits)))"

definition to_fixed_point :: "f64 \<Rightarrow> int \<Rightarrow> int" where
  "to_fixed_point value scaling_factor = f64_trunc_int (f64_round (f64_mul value (f64_of_int scaling_factor)))"

definition from_fixed_point :: "int \<Rightarrow> int \<Rightarrow> f64" where
  "from_fixed_point value scale = f64_div (f64_of_int value) (f64_of_int scale)"

definition compare_with_precision :: "f64 \<Rightarrow> f64 \<Rightarrow> nat \<Rightarrow> price_error + bool" where
  "compare_with_precision value1 value2 digits =
     (if 18 < digits then Inl Invalid_argument
      else case (normalize_double value1 digits, normalize_double value2 digits) of
             (Inr a, Inr b) \<Rightarrow> Inr (f64_eq a b)
           | _ \<Rightarrow> Inl Invalid_argument)"

subsection \<open>SpreadPack\<close>

definition max_spread_digits :: u8 where "max_spread_digits = 18"

definition spread_lower_mask :: u64 where "spread_lower_mask = 0x00000000FFFFFFFF"
definition spread_upper_mask :: u64 where "spread_upper_mask = 0xFFFFFFFF00000000"

text \<open>\<open>std::pow(10.0, d)\<close> is exact for the digits allowed, as \<open>10 ^ 18\<close> is a double.\<close>

definition scale_for_digits :: "u8 \<Rightarrow> f64" where
  "scale_for_digits d = (if d = 0 then f64_of_int 1 else f64_of_int (10 ^ unat d))"

definition pack_fixed :: "f64 \<Rightarrow> u8 \<Rightarrow> price_error + u32" where
  "pack_fixed value d =
     (if max_spread_digits < d then Inl Invalid_argument
      else if \<not> f64_finite value then Inl Invalid_argument
      else let scaled = f64_mul value (scale_for_digits d)
      in if \<not> f64_finite scaled then Inl Out_of_range
      else let rounded = f64_round scaled
      in if f64_less rounded (f64_of_int (- 2147483648)) \<or> f64_less (f64_of_int 2147483647) rounded
      then Inl Out_of_range
      else Inr (word_of_int (f64_trunc_int rounded)))"

definition set_spreads :: "f64 \<Rightarrow> f64 \<Rightarrow> u8 \<Rightarrow> spread_pack \<Rightarrow> price_error + spread_pack" where
  "set_spreads open_value close_value d p =
     (case pack_fixed open_value d of Inl e \<Rightarrow> Inl e
      | Inr open_fixed \<Rightarrow>
        (case pack_fixed close_value d of Inl e \<Rightarrow> Inl e
         | Inr close_fixed \<Rightarrow>
             Inr \<lparr>sp_raw = push_bit 32 (ucast close_fixed) OR (ucast open_fixed AND spread_lower_mask),
                  sp_digits = d\<rparr>))"

definition set_open_spread :: "f64 \<Rightarrow> u8 \<Rightarrow> spread_pack \<Rightarrow> price_error + spread_pack" where
  "set_open_spread value d p =
     (case pack_fixed value d of Inl e \<Rightarrow> Inl e
      | Inr fixed \<Rightarrow>
          Inr \<lparr>sp_raw = (sp_raw p AND spread_upper_mask) OR (ucast fixed AND spread_lower_mask), sp_digits = d\<rparr>)"

definition set_close_spread :: "f64 \<Rightarrow> u8 \<Rightarrow> spread_pack \<Rightarrow> price_error + spread_pack" where
  "set_close_spread value d p =
     (case pack_fixed value d of Inl e \<Rightarrow> Inl e
      | Inr fixed \<Rightarrow>
          Inr \<lparr>sp_raw = (sp_raw p AND spread_lower_mask) OR push_bit 32 (ucast fixed), sp_digits = d\<rparr>)"

text \<open>The two halves as signed 32-bit integers.\<close>

definition open_fixed :: "spread_pack \<Rightarrow> int" where
  "open_fixed p = sint (ucast (sp_raw p) :: u32)"

definition close_fixed :: "spread_pack \<Rightarrow> int" where
  "close_fixed p = sint (ucast (drop_bit 32 (sp_raw p)) :: u32)"

definition open_spread :: "spread_pack \<Rightarrow> f64" where
  "open_spread p = f64_div (f64_of_int (open_fixed p)) (scale_for_digits (sp_digits p))"

definition close_spread :: "spread_pack \<Rightarrow> f64" where
  "close_spread p = f64_div (f64_of_int (close_fixed p)) (scale_for_digits (sp_digits p))"

definition is_open_spread_positive :: "spread_pack \<Rightarrow> bool" where
  "is_open_spread_positive p \<longleftrightarrow> 0 \<le> open_fixed p"

definition is_close_spread_positive :: "spread_pack \<Rightarrow> bool" where
  "is_close_spread_positive p \<longleftrightarrow> 0 \<le> close_fixed p"

definition spread_difference :: "spread_pack \<Rightarrow> f64" where
  "spread_difference p = f64_sub (close_spread p) (open_spread p)"

definition open_mid_price :: "f64 \<Rightarrow> order_type \<Rightarrow> spread_pack \<Rightarrow> f64" where
  "open_mid_price price order_type p =
     (let half = f64_mul (open_spread p) (f64_of_ratio 1 2)
      in if order_type = ORD_BUY then f64_add price half else f64_sub price half)"

definition close_mid_price :: "f64 \<Rightarrow> order_type \<Rightarrow> spread_pack \<Rightarrow> f64" where
  "close_mid_price price order_type p =
     (let half = f64_mul (close_spread p) (f64_of_ratio 1 2)
      in if order_type = ORD_BUY then f64_add price half else f64_sub price half)"

subsection \<open>Tick\<close>

record tick =
  tk_ask :: f64
  tk_bid :: f64
  tk_last :: f64
  tk_reference :: f64
  tk_volume :: f64
  tk_time_ms :: u64
  tk_received_ms :: u64
  tk_flags :: u32

definition tick_default :: tick where
  "tick_default = \<lparr>tk_ask = 0, tk_bid = 0, tk_last = 0, tk_reference = 0, tk_volume = 0, tk_time_ms = 0,
     tk_received_ms = 0, tk_flags = 0\<rparr>"

abbreviation f64_nonzero :: "f64 \<Rightarrow> bool" where "f64_nonzero x \<equiv> \<not> f64_eq x 0"

definition mid_price_raw :: "tick \<Rightarrow> f64" where
  "mid_price_raw t =
     (if f64_nonzero (tk_ask t) \<and> f64_nonzero (tk_bid t)
      then f64_div (f64_add (tk_ask t) (tk_bid t)) (f64_of_int 2)
      else if f64_nonzero (tk_last t) then tk_last t
      else if f64_nonzero (tk_ask t) then tk_ask t
      else if f64_nonzero (tk_bid t) then tk_bid t
      else tk_reference t)"

definition mid_price :: "tick \<Rightarrow> u32 \<Rightarrow> price_error + f64" where
  "mid_price t price_digits = normalize_double (mid_price_raw t) (unat price_digits)"

definition flag_initialized :: u32 where "flag_initialized = push_bit 21 1"

definition has_market_flag :: "u32 \<Rightarrow> u32 \<Rightarrow> bool" where
  "has_market_flag flags flag \<longleftrightarrow> flags AND flag \<noteq> 0"

definition set_market_flag :: "u32 \<Rightarrow> u32 \<Rightarrow> bool \<Rightarrow> u32" where
  "set_market_flag flags flag value = (if value then flags OR flag else flags AND NOT flag)"

subsection \<open>PriceUpdateEvent\<close>

record tick_batch =
  tb_items :: "tick list"
  tb_symbol :: string
  tb_provider :: string
  tb_price_digits :: u32
  tb_volume_digits :: u32

fun find_tick_batch :: "tick_batch list \<Rightarrow> string \<Rightarrow> tick_batch option" where
  "find_tick_batch [] symbol = None"
| "find_tick_batch (b # bs) symbol = (if tb_symbol b = symbol then Some b else find_tick_batch bs symbol)"

subsection \<open>Lemmas\<close>

lemma spread_masks: "spread_lower_mask = mask 32" "spread_upper_mask = NOT (mask 32)"
  by (simp_all add: spread_lower_mask_def spread_upper_mask_def mask_eq_exp_minus_1)

lemma ucast_low [simp]: "(ucast ((ucast (x :: u32) :: u64) AND mask 32) :: u32) = x"
  by (rule bit_word_eqI) (simp add: bit_simps)

lemma open_half:
  "(ucast ((a AND NOT (mask 32)) OR (ucast (x :: u32) AND mask 32) :: u64) :: u32) = x"
  "(ucast (push_bit 32 (ucast y) OR (ucast (x :: u32) AND mask 32) :: u64) :: u32) = x"
  "(ucast ((a AND mask 32) OR push_bit 32 (ucast y) :: u64) :: u32) = ucast a"
  by (rule bit_word_eqI, simp add: bit_simps)+

lemma close_half:
  "(ucast (drop_bit 32 ((a AND NOT (mask 32)) OR (ucast (x :: u32) AND mask 32) :: u64)) :: u32) = ucast (drop_bit 32 a)"
  "(ucast (drop_bit 32 (push_bit 32 (ucast y) OR (ucast (x :: u32) AND mask 32) :: u64)) :: u32) = y"
  "(ucast (drop_bit 32 ((a AND mask 32) OR push_bit 32 (ucast (y :: u32)) :: u64)) :: u32) = y"
  by (rule bit_word_eqI, simp add: bit_simps; arith?)+

lemma find_tick_batch_Some: "find_tick_batch bs s = Some b \<Longrightarrow> b \<in> set bs \<and> tb_symbol b = s"
  by (induction bs) (auto split: if_splits)

text \<open>A packed value is the rounded product, refused exactly when it is not a 32-bit integer.\<close>

lemma pack_fixed_exact:
  "pack_fixed value d =
     (if 18 < d \<or> \<not> f64_finite value then Inl Invalid_argument
      else let x = f64_mul value (scale_for_digits d)
      in if \<not> f64_finite x \<or> f64_round_int x < - 2147483648 \<or> 2147483647 < f64_round_int x then Inl Out_of_range
         else Inr (word_of_int (f64_round_int x)))"
proof -
  let ?x = "f64_mul value (scale_for_digits d)"
  show ?thesis
  proof (cases "f64_finite ?x")
    case True
    have o: "f64_less (f64_round ?x) (f64_of_int (- 2147483648)) \<or> f64_less (f64_of_int 2147483647) (f64_round ?x) \<longleftrightarrow>
        f64_round_int ?x < - 2147483648 \<or> 2147483647 < f64_round_int ?x"
      by (rule f64_round_outside [OF True]) simp_all
    have r: "f64_round_abs ?x = \<bar>f64_round_int ?x\<bar>"
      using f64_round_abs_nonneg [of ?x] by (simp add: f64_round_int_def)
    have t: "f64_trunc_int (f64_round ?x) = f64_round_int ?x"
      if "- 2147483648 \<le> f64_round_int ?x" "f64_round_int ?x \<le> 2147483647"
    proof (rule f64_round_exact(3) [OF True])
      show "f64_round_abs ?x < 2 ^ 53" unfolding r using that by simp
    qed
    show ?thesis
    proof (cases "f64_round_int ?x < - 2147483648 \<or> 2147483647 < f64_round_int ?x")
      case out: True
      then show ?thesis using True o by (simp only: pack_fixed_def Let_def max_spread_digits_def if_True) simp
    next
      case inside: False
      then have "f64_trunc_int (f64_round ?x) = f64_round_int ?x" using t by simp
      with inside True o show ?thesis by (simp only: pack_fixed_def Let_def max_spread_digits_def if_False) simp
    qed
  qed (simp add: pack_fixed_def Let_def max_spread_digits_def)
qed

lemma sint_i32: "- 2147483648 \<le> i \<Longrightarrow> i \<le> 2147483647 \<Longrightarrow> sint (word_of_int i :: u32) = i"
  by (simp add: sint_sbintrunc' signed_take_bit_int_eq_self)

lemma pack_fixed_sint:
  "pack_fixed value d = Inr w \<Longrightarrow> d \<le> 18 \<and> sint w = f64_round_int (f64_mul value (scale_for_digits d))"
  by (auto simp: pack_fixed_exact Let_def sint_i32 split: if_splits)

subsection \<open>Properties\<close>

text \<open>Setting one spread stores exactly the rounded scaled value and the digits, and leaves the
  other half of the packed word as it was; it fails exactly on more than 18 digits, a value that is
  not finite, or a rounded value that is not a signed 32-bit integer, and then nothing is stored.\<close>

theorem spread_halves_exact:
  "(case set_open_spread v d p of
      Inl _ \<Rightarrow> \<not> (d \<le> 18 \<and> f64_finite v \<and> f64_finite (f64_mul v (scale_for_digits d)) \<and>
        f64_round_int (f64_mul v (scale_for_digits d)) \<in> {- 2147483648..2147483647})
    | Inr q \<Rightarrow> d \<le> 18 \<and> sp_digits q = d \<and> close_fixed q = close_fixed p \<and>
        open_fixed q = f64_round_int (f64_mul v (scale_for_digits d))) \<and>
   (case set_close_spread v d p of
      Inl _ \<Rightarrow> \<not> (d \<le> 18 \<and> f64_finite v \<and> f64_finite (f64_mul v (scale_for_digits d)) \<and>
        f64_round_int (f64_mul v (scale_for_digits d)) \<in> {- 2147483648..2147483647})
    | Inr q \<Rightarrow> d \<le> 18 \<and> sp_digits q = d \<and> open_fixed q = open_fixed p \<and>
        close_fixed q = f64_round_int (f64_mul v (scale_for_digits d)))"
proof (cases "pack_fixed v d")
  case (Inl e)
  then have "\<not> (d \<le> 18 \<and> f64_finite v \<and> f64_finite (f64_mul v (scale_for_digits d)) \<and>
      f64_round_int (f64_mul v (scale_for_digits d)) \<in> {- 2147483648..2147483647})"
    by (auto simp: pack_fixed_exact Let_def split: if_splits)
  then show ?thesis by (simp add: set_open_spread_def set_close_spread_def Inl)
next
  case (Inr w)
  note pack_fixed_sint [OF Inr]
  then show ?thesis
    by (simp only: set_open_spread_def set_close_spread_def Inr sum.case open_fixed_def close_fixed_def spread_masks
        spread_pack.simps open_half close_half simp_thms)
qed

text \<open>Packing both spreads at once is packing them one after the other.\<close>

theorem set_spreads_sequential:
  "set_spreads a b d p = (case set_open_spread a d p of Inl e \<Rightarrow> Inl e | Inr q \<Rightarrow> set_close_spread b d q)"
proof -
  have "push_bit 32 (ucast y) OR (ucast x AND mask 32) =
      (((r AND NOT (mask 32)) OR (ucast x AND mask 32)) AND mask 32) OR (push_bit 32 (ucast y) :: u64)"
    for x y :: u32 and r :: u64
    by (rule bit_word_eqI) (auto simp: bit_simps)
  then show ?thesis
    by (simp add: set_spreads_def set_open_spread_def set_close_spread_def spread_masks split: sum.split)
qed

end
