(* ===== verification/TradeState.thy ===== *)
theory TradeState
  imports AccountInfo Prices
begin

section \<open>Trade states\<close>

text \<open>
  \<open>components/BaseTradeExecutionComponent/TradeStateManager.hpp\<close>: the checks of a request against
  the account, the outcome of a price, the times of a trade and the forced end of a transaction.
  The account and the clock are arguments. A transaction (\<open>data/events/TradeTransactionEvent.hpp\<close>)
  is the pair of a request and a result that the queue and the platform share, with the token that
  says whether asynchronous work may still update it.
\<close>

record transaction =
  tx_request :: trade_request
  tx_result :: trade_result
  tx_active :: bool

definition make_transaction :: "trade_request \<Rightarrow> trade_result \<Rightarrow> transaction" where
  "make_transaction request result = \<lparr>tx_request = request, tx_result = result, tx_active = True\<rparr>"

definition cancel_async_operations :: "transaction \<Rightarrow> transaction" where
  "cancel_async_operations tx = tx\<lparr>tx_active := False\<rparr>"

definition async_operations_active :: "transaction \<Rightarrow> bool" where
  "async_operations_active tx \<longleftrightarrow> tx_active tx"

subsection \<open>Validation\<close>

definition validate_request :: "time_shield \<Rightarrow> account_data \<Rightarrow> int \<Rightarrow> trade_request \<Rightarrow> trade_error_code" where
  "validate_request L d now_ms request =
     (if treq_symbol request = [] then TEC_INVALID_SYMBOL
      else
        let timestamp = ts_ms_to_sec L now_ms;
            for_trade = (\<lambda>ty. ad_bool d (trade_info_request ty request timestamp))
        in if \<not> ad_bool d (info_request AIT_CONNECTION_STATUS 0) then TEC_NO_CONNECTION
        else if \<not> ad_bool d (symbol_request (treq_symbol request) timestamp) then TEC_INVALID_SYMBOL
        else if \<not> ad_bool d (option_request (treq_option_type request) timestamp) then TEC_INVALID_OPTION
        else if \<not> ad_bool d (order_request (treq_order_type request) timestamp) then TEC_INVALID_ORDER
        else if \<not> ad_bool d (account_request (treq_account_type request) timestamp) then TEC_INVALID_ACCOUNT
        else if \<not> ad_bool d (currency_request (treq_currency request) timestamp) then TEC_INVALID_CURRENCY
        else if \<not> for_trade AIT_TRADE_LIMIT_NOT_EXCEEDED then TEC_LIMIT_OPEN_TRADES
        else if \<not> for_trade AIT_AMOUNT_BELOW_MAX then TEC_AMOUNT_TOO_HIGH
        else if \<not> for_trade AIT_AMOUNT_ABOVE_MIN then TEC_AMOUNT_TOO_LOW
        else if \<not> for_trade AIT_REFUND_BELOW_MAX then TEC_REFUND_TOO_HIGH
        else if \<not> for_trade AIT_REFUND_ABOVE_MIN then TEC_REFUND_TOO_LOW
        else if \<not> for_trade AIT_DURATION_AVAILABLE then TEC_INVALID_DURATION
        else if \<not> for_trade AIT_EXPIRATION_DATE_AVAILABLE then TEC_INVALID_EXPIRY_TIME
        else if \<not> for_trade AIT_PAYOUT_ABOVE_MIN then TEC_PAYOUT_TOO_LOW
        else if \<not> for_trade AIT_AMOUNT_BELOW_BALANCE then TEC_INSUFFICIENT_BALANCE
        else TEC_SUCCESS)"

subsection \<open>States\<close>

definition determine_trade_state :: "trade_result \<Rightarrow> trade_request \<Rightarrow> f64 \<Rightarrow> trade_state" where
  "determine_trade_state result request close_price =
     (if f64_eq (tres_open_price result) 0 then TS_STANDOFF
      else if treq_order_type request = ORD_BUY then
        (if f64_less (tres_open_price result) close_price then TS_WIN
         else if f64_less close_price (tres_open_price result) then TS_LOSS else TS_STANDOFF)
      else if treq_order_type request = ORD_SELL then
        (if f64_less close_price (tres_open_price result) then TS_WIN
         else if f64_less (tres_open_price result) close_price then TS_LOSS else TS_STANDOFF)
      else TS_STANDOFF)"

definition is_closable_state :: "trade_state \<Rightarrow> bool" where
  "is_closable_state st \<longleftrightarrow> st = TS_WAITING_CLOSE \<or> st = TS_OPEN_SUCCESS \<or> st = TS_IN_PROGRESS"

definition is_transition_to_waiting_close :: "trade_state \<Rightarrow> bool" where
  "is_transition_to_waiting_close st \<longleftrightarrow> st = TS_OPEN_SUCCESS \<or> st = TS_IN_PROGRESS"

definition is_terminal_state :: "trade_state \<Rightarrow> bool" where
  "is_terminal_state st \<longleftrightarrow> st = TS_OPEN_ERROR \<or> st = TS_CHECK_ERROR \<or> st = TS_WIN \<or> st = TS_LOSS \<or>
     st = TS_STANDOFF \<or> st = TS_REFUND"

definition calculate_close_date :: "time_shield \<Rightarrow> trade_result \<Rightarrow> trade_request \<Rightarrow> int" where
  "calculate_close_date L result request =
     (if 0 < tres_close_date result then tres_close_date result
      else if treq_option_type request = OPT_SPRINT then
        (if 0 < tres_open_date result then tres_open_date result + ts_sec_to_ms L (uint (treq_duration request))
         else tres_place_date result + ts_sec_to_ms L (uint (treq_duration request)))
      else if treq_option_type request = OPT_CLASSIC then ts_sec_to_ms L (treq_expiry_time request)
      else 0)"

definition finalize_with_error ::
  "account_data \<Rightarrow> trade_error_code \<Rightarrow> trade_state \<Rightarrow> int \<Rightarrow> string \<Rightarrow> transaction \<Rightarrow> transaction" where
  "finalize_with_error d error_code st timestamp error_desc tx =
     (let request = tx_request tx;
          result = (tx_result tx)\<lparr>tres_error_code := error_code,
            tres_error_desc := (if error_desc = [] then trade_error_code_to_str error_code else error_desc),
            tres_send_date := timestamp, tres_open_date := timestamp, tres_close_date := timestamp\<rparr>;
          balance = ad_f64 d (trade_info_request AIT_BALANCE request timestamp);
          result = set_close_balance balance (set_open_balance balance (set_balance balance result));
          payout = ad_f64 d (trade_info_request AIT_PAYOUT request timestamp)
      in tx\<lparr>tx_result := result\<lparr>tres_payout := payout, tres_trade_state := st, tres_live_state := st\<rparr>\<rparr>)"

subsection \<open>Lemmas\<close>

lemma finalize_fields [simp]:
  "tx_request (finalize_with_error d e st t s tx) = tx_request tx"
  "tres_trade_state (tx_result (finalize_with_error d e st t s tx)) = st"
  "tres_live_state (tx_result (finalize_with_error d e st t s tx)) = st"
  "tres_error_code (tx_result (finalize_with_error d e st t s tx)) = e"
  "tres_trade_id (tx_result (finalize_with_error d e st t s tx)) = tres_trade_id (tx_result tx)"
  "tx_active (finalize_with_error d e st t s tx) = tx_active tx"
  by (simp_all add: finalize_with_error_def Let_def set_balance_def set_open_balance_def set_close_balance_def)

lemma cancel_fields [simp]:
  "tx_request (cancel_async_operations tx) = tx_request tx" "tx_result (cancel_async_operations tx) = tx_result tx"
  "\<not> tx_active (cancel_async_operations tx)"
  by (simp_all add: cancel_async_operations_def)

lemma state_kinds:
  "is_terminal_state st \<Longrightarrow> \<not> is_closable_state st"
  "is_terminal_state st \<Longrightarrow> is_terminal_trade_state st"
  by (auto simp: is_terminal_state_def is_closable_state_def is_terminal_trade_state_def)

text \<open>The opposite orders have opposite outcomes on the same price.\<close>

lemma f64_less_asym: "f64_less x y \<Longrightarrow> \<not> f64_less y x"
  by (simp add: f64_less_def)

text \<open>The outcome of a trade is the sign of the price move: a finite close price above the open price wins a BUY and loses a SELL, one below does the opposite, and an equal price, or an open price that is not set, is a standoff.\<close>

theorem trade_outcome_exact:
  assumes "f64_finite (tres_open_price result)" and "f64_finite close_price"
  shows "determine_trade_state result request close_price =
    (let move = f64_val close_price - f64_val (tres_open_price result);
         gain = (case treq_order_type request of ORD_BUY \<Rightarrow> move | ORD_SELL \<Rightarrow> - move | ORD_UNKNOWN \<Rightarrow> 0)
     in if f64_val (tres_open_price result) = 0 \<or> gain = 0 then TS_STANDOFF else if 0 < gain then TS_WIN else TS_LOSS)"
proof -
  have z: "f64_finite 0" "f64_val 0 = 0" by code_simp+
  have "f64_key x = f64_key y \<longleftrightarrow> f64_val x = f64_val y" for x y
    using f64_key_less [of x y] f64_key_less [of y x] by (metis linorder_neq_iff)
  then have "f64_eq (tres_open_price result) 0 \<longleftrightarrow> f64_val (tres_open_price result) = 0"
    using assms z by (auto simp: f64_eq_def f64_finite_def f64_is_nan_def)
  then show ?thesis
    using assms by (auto simp: determine_trade_state_def Let_def f64_less_val split: order_type.splits)
qed

theorem trade_outcome_exact_witness:
  "determine_trade_state (trade_result_default\<lparr>tres_open_price := f64_of_int 2\<rparr>) (trade_request_default\<lparr>treq_order_type := ORD_SELL\<rparr>)
     (f64_of_int 1) = TS_WIN"
proof -
  have "f64_finite (f64_of_int 2)" "f64_finite (f64_of_int 1)" by (rule f64_of_int_exact; simp)+
  moreover have "f64_val (f64_of_int 2) = 2 * f64_one" "f64_val (f64_of_int 1) = 1 * f64_one" by (rule f64_of_int_exact; simp)+
  moreover have "0 < f64_one" by (simp add: f64_one_def)
  ultimately show ?thesis
    using trade_outcome_exact [of "trade_result_default\<lparr>tres_open_price := f64_of_int 2\<rparr>" "f64_of_int 1" "trade_request_default\<lparr>treq_order_type := ORD_SELL\<rparr>"]
    by simp
qed

end
