(* ===== verification/TradeQueue.thy ===== *)
theory TradeQueue
  imports TradeState
begin

section \<open>The trade queue\<close>

text \<open>
  \<open>components/BaseTradeExecutionComponent/TradeQueueManager.hpp\<close> and \<open>utils/trade_id.hpp\<close>: pending
  and open transactions, the broker snapshot of open trades and the fence it puts before new orders.
  The platform event loop owns the queue, so each public operation is one atomic step. What an
  operation reads (the account, the wall clock in milliseconds, the steady clock in nanoseconds) and
  what the subscribers of the two events addressed to the platform make of a shared result are the
  fields of \<open>queue_env\<close>; a clock is read once per operation. Notifications and callbacks are
  appended to the log \<open>tq_log\<close>. A subscriber that calls back into the queue during an operation
  is not modelled.
\<close>

subsection \<open>Identifiers\<close>

text \<open>\<open>utils::make_trade_id\<close>: the identifier and the counter left by the successful exchange.\<close>

definition make_trade_id :: "u32 \<Rightarrow> u32 \<times> u32" where
  "make_trade_id current =
     (let result = (if current = 0 then 1 else current);
          following = (if result = 4294967295 then 1 else result + 1)
      in (result, following))"

subsection \<open>State\<close>

datatype queue_event =
    QE_open_trades int "(trade_request \<times> trade_result) option"
  | QE_transaction trade_request trade_result
  | QE_callback callback trade_request trade_result
  | QE_trade_result trade_request trade_result
  | QE_trade_request trade_request trade_result
  | QE_trade_status trade_request trade_result
  | QE_snapshot_refresh string

record trade_queue =
  tq_pending :: "transaction list"
  tq_open :: "transaction list"
  tq_last_order_time :: int
  tq_has_sent_order :: bool
  tq_local_open_trades :: int
  tq_snapshot_open_trades :: int
  tq_snapshot_unknown_close :: int
  tq_require_snapshot :: bool
  tq_snapshot_ready :: bool
  tq_refresh_requested :: bool
  tq_close_due :: "int list"
  tq_has_storm_balance :: bool
  tq_storm_base :: f64
  tq_storm_profit :: f64
  tq_last_activity_ms :: int
  tq_result_callback :: bool
  tq_id_counter :: u32
  tq_log :: "queue_event list"

definition make_trade_queue :: "bool \<Rightarrow> u32 \<Rightarrow> trade_queue" where
  "make_trade_queue require_snapshot id_counter =
     \<lparr>tq_pending = [], tq_open = [], tq_last_order_time = 0, tq_has_sent_order = False, tq_local_open_trades = 0,
      tq_snapshot_open_trades = 0, tq_snapshot_unknown_close = 0, tq_require_snapshot = require_snapshot,
      tq_snapshot_ready = (\<not> require_snapshot), tq_refresh_requested = False, tq_close_due = [],
      tq_has_storm_balance = False, tq_storm_base = 0, tq_storm_profit = 0, tq_last_activity_ms = 0,
      tq_result_callback = False, tq_id_counter = id_counter, tq_log = []\<rparr>"

record queue_env =
  qe_lib :: time_shield
  qe_account :: account_data
  qe_now_ms :: int
  qe_steady_ns :: int
  qe_on_request :: "transaction \<Rightarrow> trade_result"
  qe_on_status :: "transaction \<Rightarrow> trade_result"

subsection \<open>Notifications\<close>

definition tq_notify :: "queue_event \<Rightarrow> trade_queue \<Rightarrow> trade_queue" where
  "tq_notify ev q = q\<lparr>tq_log := tq_log q @ [ev]\<rparr>"

definition dispatch_trade_event :: "transaction \<Rightarrow> trade_queue \<Rightarrow> trade_queue" where
  "dispatch_trade_event tx q =
     (let request = tx_request tx; result = tx_result tx;
          q = tq_notify (QE_transaction request result) q;
          q = q\<lparr>tq_log := tq_log q @
                 map (\<lambda>(cb, rq, rs). QE_callback cb rq rs) (dispatch_callbacks request request result)\<rparr>
      in if tq_result_callback q then tq_notify (QE_trade_result (copy_request request) result) q else q)"

definition current_open_trades :: "trade_queue \<Rightarrow> int" where
  "current_open_trades q = tq_local_open_trades q + tq_snapshot_open_trades q"

definition emit_open_trades :: "(trade_request \<times> trade_result) option \<Rightarrow> trade_queue \<Rightarrow> trade_queue" where
  "emit_open_trades src q = tq_notify (QE_open_trades (current_open_trades q) src) q"

definition clear_snapshot_open_trades :: "trade_queue \<Rightarrow> bool \<times> trade_queue" where
  "clear_snapshot_open_trades q =
     (tq_snapshot_open_trades q \<noteq> 0 \<or> tq_snapshot_unknown_close q \<noteq> 0 \<or> tq_close_due q \<noteq> [],
      q\<lparr>tq_snapshot_open_trades := 0, tq_snapshot_unknown_close := 0, tq_refresh_requested := False,
        tq_close_due := []\<rparr>)"

definition request_snapshot_refresh :: "string \<Rightarrow> trade_queue \<Rightarrow> trade_queue" where
  "request_snapshot_refresh reason q =
     (if tq_refresh_requested q then q
      else tq_notify (QE_snapshot_refresh reason) (q\<lparr>tq_refresh_requested := True\<rparr>))"

subsection \<open>The trade storm balance\<close>

definition next_open_balance :: "queue_env \<Rightarrow> int \<Rightarrow> f64 \<Rightarrow> trade_queue \<Rightarrow> f64 \<times> trade_queue" where
  "next_open_balance env timestamp_ms account_balance q =
     (let local_queue_idle = (tq_local_open_trades q \<le> 0 \<and> tq_open q = []);
          idle_long_enough = (tq_last_activity_ms q \<le> 0 \<or>
            ts_ms_per_15_sec (qe_lib env) \<le> timestamp_ms - tq_last_activity_ms q);
          q = (if \<not> tq_has_storm_balance q \<or> local_queue_idle \<and> idle_long_enough
               then q\<lparr>tq_has_storm_balance := True, tq_storm_base := account_balance, tq_storm_profit := 0\<rparr>
               else q)
      in (f64_add (tq_storm_base q) (tq_storm_profit q), q))"

definition add_realized_profit :: "trade_result \<Rightarrow> trade_queue \<Rightarrow> trade_queue" where
  "add_realized_profit result q =
     (if is_result_state (tres_trade_state result)
      then q\<lparr>tq_storm_profit := f64_add (tq_storm_profit q) (tres_profit result)\<rparr> else q)"

subsection \<open>Counting open trades\<close>

definition increment_open_trades :: "queue_env \<Rightarrow> transaction \<Rightarrow> trade_queue \<Rightarrow> trade_queue" where
  "increment_open_trades env tx q =
     emit_open_trades (Some (tx_request tx, tx_result tx))
       (q\<lparr>tq_local_open_trades := tq_local_open_trades q + 1, tq_last_activity_ms := qe_now_ms env\<rparr>)"

definition decrement_open_trades :: "queue_env \<Rightarrow> transaction \<Rightarrow> trade_queue \<Rightarrow> trade_queue" where
  "decrement_open_trades env tx q =
     (if 0 < tq_local_open_trades q then
        let q = add_realized_profit (tx_result tx) q
        in emit_open_trades (Some (tx_request tx, tx_result tx))
             (q\<lparr>tq_local_open_trades := tq_local_open_trades q - 1, tq_last_activity_ms := qe_now_ms env\<rparr>)
      else q)"

subsection \<open>Adding a trade\<close>

definition fill_request :: "account_data \<Rightarrow> u32 option \<Rightarrow> trade_request \<Rightarrow> trade_request" where
  "fill_request d provided request =
     (let request = (if treq_account_type request = ACC_UNKNOWN
            then request\<lparr>treq_account_type := get_account_type d (info_request AIT_ACCOUNT_TYPE 0)\<rparr> else request);
          request = (if treq_currency request = CUR_UNKNOWN
            then request\<lparr>treq_currency := get_currency d (info_request AIT_CURRENCY 0)\<rparr> else request)
      in case provided of
           Some i \<Rightarrow> if treq_trade_id request = 0 then request\<lparr>treq_trade_id := i\<rparr> else request
         | None \<Rightarrow> request)"

definition assign_trade_id :: "u32 \<Rightarrow> trade_request \<Rightarrow> trade_request \<times> u32" where
  "assign_trade_id current request =
     (if treq_trade_id request = 0 then
        let (i, counter) = make_trade_id current in (request\<lparr>treq_trade_id := i\<rparr>, counter)
      else (request, current))"

definition add_trade ::
  "queue_env \<Rightarrow> trade_request option \<Rightarrow> platform_type \<Rightarrow> u32 option \<Rightarrow>
   (trade_request \<Rightarrow> trade_result \<Rightarrow> (trade_request \<times> trade_result) option) \<Rightarrow> trade_queue \<Rightarrow> bool \<times> trade_queue" where
  "add_trade env req platform provided preprocess q =
     (case req of None \<Rightarrow> (False, q)
      | Some request \<Rightarrow>
        let (request, counter) = assign_trade_id (tq_id_counter q) (fill_request (qe_account env) provided request);
            q = q\<lparr>tq_id_counter := counter\<rparr>;
            result = (create_trade_result request)\<lparr>tres_place_date := qe_now_ms env, tres_platform_type := platform\<rparr>
        in case preprocess request result of
             None \<Rightarrow> (False, q)
           | Some (request, result) \<Rightarrow>
               (True, q\<lparr>tq_pending := tq_pending q @ [make_transaction request result]\<rparr>))"

definition set_trade_result_callback :: "bool \<Rightarrow> trade_queue \<Rightarrow> trade_queue" where
  "set_trade_result_callback present q = q\<lparr>tq_result_callback := present\<rparr>"

subsection \<open>Pending transactions\<close>

text \<open>\<open>duration_cast\<close> from nanoseconds to milliseconds truncates.\<close>

definition elapsed_ms :: "int \<Rightarrow> int \<Rightarrow> int" where
  "elapsed_ms now previous = (now - previous) sdiv 1000000"

definition pop_next_transaction :: "queue_env \<Rightarrow> trade_queue \<Rightarrow> (transaction \<times> trade_queue) option" where
  "pop_next_transaction env q =
     (let d = qe_account env
      in if tq_require_snapshot q \<and> \<not> tq_snapshot_ready q \<and> ad_bool d (info_request AIT_CONNECTION_STATUS 0) then None
      else
        let order_interval_ms = max 0 (ad_int64 d (info_request AIT_ORDER_INTERVAL_MS 0));
            elapsed = elapsed_ms (qe_steady_ns env) (tq_last_order_time q)
        in if \<not> tq_has_sent_order q \<or> order_interval_ms \<le> elapsed then
             (case tq_pending q of
                [] \<Rightarrow> None
              | tx # rest \<Rightarrow>
                  if ad_int64 d (trade_info_request AIT_OPEN_TRADES (tx_request tx) 0)
                       < ad_int64 d (trade_info_request AIT_MAX_TRADES (tx_request tx) 0)
                  then Some (tx, q\<lparr>tq_pending := rest\<rparr>) else None)
           else None)"

text \<open>\<open>clean_expired_transactions\<close>: the loop over the pending list; the canceled ones and the rest.\<close>

fun clean_expired :: "int \<Rightarrow> int \<Rightarrow> transaction list \<Rightarrow> transaction list \<times> transaction list" where
  "clean_expired current_time_ms timeout_ms [] = ([], [])"
| "clean_expired current_time_ms timeout_ms (tx # txs) =
     (let (canceled, kept) = clean_expired current_time_ms timeout_ms txs
      in if timeout_ms \<le> current_time_ms - tres_place_date (tx_result tx)
         then (tx # canceled, kept) else (canceled, tx # kept))"

definition handle_canceled :: "queue_env \<Rightarrow> transaction list \<Rightarrow> transaction list" where
  "handle_canceled env canceled =
     map (\<lambda>tx. finalize_with_error (qe_account env) TEC_LONG_QUEUE_WAIT TS_OPEN_ERROR (qe_now_ms env) []
            (cancel_async_operations tx)) canceled"

text \<open>One pending transaction that was popped: sent to the platform, or refused.\<close>

definition send_transaction :: "queue_env \<Rightarrow> transaction \<Rightarrow> trade_queue \<Rightarrow> trade_queue" where
  "send_transaction env tx q =
     (let d = qe_account env; now_ms = qe_now_ms env; request = tx_request tx;
          error_code = validate_request (qe_lib env) d now_ms request;
          tx = tx\<lparr>tx_result := (tx_result tx)\<lparr>tres_error_code := error_code\<rparr>\<rparr>
      in if error_code = TEC_SUCCESS then
           let result = (tx_result tx)\<lparr>tres_trade_state := TS_WAITING_OPEN, tres_live_state := TS_WAITING_OPEN,
                 tres_send_date := now_ms\<rparr>;
               account_balance = ad_f64 d (trade_info_request AIT_BALANCE request 0);
               result = set_balance account_balance result;
               (open_balance, q) = next_open_balance env now_ms account_balance q;
               result = set_open_balance open_balance result;
               result = result\<lparr>tres_payout :=
                 ad_f64 d (trade_info_request AIT_PAYOUT request (ts_ms_to_sec (qe_lib env) now_ms))\<rparr>;
               tx = tx\<lparr>tx_result := result\<rparr>;
               q = q\<lparr>tq_last_order_time := qe_steady_ns env, tq_has_sent_order := True\<rparr>;
               q = increment_open_trades env tx q;
               q = dispatch_trade_event tx q;
               q = tq_notify (QE_trade_request request result) q;
               tx = tx\<lparr>tx_result := qe_on_request env tx\<rparr>
           in q\<lparr>tq_open := tq_open q @ [tx]\<rparr>
         else
           dispatch_trade_event (finalize_with_error d error_code TS_OPEN_ERROR now_ms [] tx) q)"

text \<open>The canceled transactions, finalized, and the queue. Nothing else holds the former.\<close>

definition process_pending :: "queue_env \<Rightarrow> trade_queue \<Rightarrow> transaction list \<times> trade_queue" where
  "process_pending env q =
     (if tq_pending q = [] then ([], q)
      else
        let timeout_ms = ts_sec_to_ms (qe_lib env) (ad_int64 (qe_account env) (info_request AIT_ORDER_QUEUE_TIMEOUT 0));
            (canceled, kept) = clean_expired (qe_now_ms env) timeout_ms (tq_pending q);
            q = q\<lparr>tq_pending := kept\<rparr>
        in if kept = [] then (handle_canceled env canceled, q)
           else case pop_next_transaction env q of
             None \<Rightarrow> (handle_canceled env canceled, q)
           | Some (tx, q) \<Rightarrow> (handle_canceled env canceled, send_transaction env tx q))"

subsection \<open>Closing and finalizing\<close>

definition handle_closing_error :: "queue_env \<Rightarrow> transaction \<Rightarrow> trade_queue \<Rightarrow> trade_queue" where
  "handle_closing_error env tx q =
     (let tx = cancel_async_operations tx;
          q = decrement_open_trades env tx q;
          result = tx_result tx;
          tx = finalize_with_error (qe_account env) (tres_error_code result) TS_CHECK_ERROR (qe_now_ms env)
                 (tres_error_desc result) tx
      in dispatch_trade_event tx q)"

definition set_error_code :: "trade_error_code \<Rightarrow> transaction \<Rightarrow> transaction" where
  "set_error_code e tx = tx\<lparr>tx_result := (tx_result tx)\<lparr>tres_error_code := e\<rparr>\<rparr>"

definition set_states :: "trade_state \<Rightarrow> transaction \<Rightarrow> transaction" where
  "set_states st tx = tx\<lparr>tx_result := (tx_result tx)\<lparr>tres_trade_state := st, tres_live_state := st\<rparr>\<rparr>"

text \<open>One pass of the loop of \<open>process_closing_transactions\<close>: the transaction kept, or \<open>None\<close> for \<open>erase\<close>.\<close>

definition closing_step :: "queue_env \<Rightarrow> transaction \<Rightarrow> trade_queue \<Rightarrow> transaction option \<times> trade_queue" where
  "closing_step env tx q =
     (let request = tx_request tx; result = tx_result tx; st = tres_trade_state result; timestamp = qe_now_ms env
      in if st = TS_OPEN_SUCCESS then (Some (set_states TS_IN_PROGRESS tx), dispatch_trade_event tx q)
      else if \<not> is_closable_state st then (Some tx, q)
      else
        let close_date = calculate_close_date (qe_lib env) result request
        in if close_date = 0 then
             (None, handle_closing_error env (set_error_code
                (if treq_option_type request = OPT_SPRINT then TEC_INVALID_DURATION else TEC_INVALID_EXPIRY_TIME) tx) q)
        else if timestamp < close_date then (Some tx, q)
        else if close_date + get_response_timeout (qe_lib env) (qe_account env) < timestamp then
          (None, handle_closing_error env (set_error_code TEC_LONG_RESPONSE_WAIT tx) q)
        else if is_transition_to_waiting_close st then
          let tx = set_states TS_WAITING_CLOSE tx;
              q = dispatch_trade_event tx q;
              q = tq_notify (QE_trade_status request (tx_result tx)) q
          in (Some (tx\<lparr>tx_result := qe_on_status env tx\<rparr>), q)
        else (Some tx, q))"

text \<open>One pass of the loop of \<open>process_finalizing_transactions\<close>.\<close>

definition finalizing_step :: "queue_env \<Rightarrow> transaction \<Rightarrow> trade_queue \<Rightarrow> transaction option \<times> trade_queue" where
  "finalizing_step env tx q =
     (if is_terminal_state (tres_trade_state (tx_result tx)) then
        let tx = cancel_async_operations tx
        in (None, dispatch_trade_event tx (decrement_open_trades env tx q))
      else (Some tx, q))"

text \<open>A loop over the open transactions that erases some of them.\<close>

fun sweep ::
  "(transaction \<Rightarrow> trade_queue \<Rightarrow> transaction option \<times> trade_queue) \<Rightarrow> transaction list \<Rightarrow> trade_queue \<Rightarrow>
   transaction list \<times> trade_queue" where
  "sweep step [] q = ([], q)"
| "sweep step (tx # txs) q =
     (let (kept, q) = step tx q; (rest, q) = sweep step txs q
      in (case kept of None \<Rightarrow> rest | Some tx \<Rightarrow> tx # rest, q))"

definition sweep_open ::
  "(transaction \<Rightarrow> trade_queue \<Rightarrow> transaction option \<times> trade_queue) \<Rightarrow> trade_queue \<Rightarrow> trade_queue" where
  "sweep_open step q = (let (kept, q) = sweep step (tq_open q) q in q\<lparr>tq_open := kept\<rparr>)"

definition process_closing :: "queue_env \<Rightarrow> trade_queue \<Rightarrow> trade_queue" where
  "process_closing env q = sweep_open (closing_step env) q"

definition process_finalizing :: "queue_env \<Rightarrow> trade_queue \<Rightarrow> trade_queue" where
  "process_finalizing env q = sweep_open (finalizing_step env) q"

subsection \<open>The broker snapshot\<close>

definition add_close_buffer :: "int \<Rightarrow> int \<Rightarrow> int" where
  "add_close_buffer close_time_ms close_buffer_ms =
     (if close_buffer_ms \<le> 0 then close_time_ms
      else if i64_max - close_buffer_ms < close_time_ms then i64_max
      else close_time_ms + close_buffer_ms)"

text \<open>\<open>std::upper_bound\<close> on the sorted close times, as the part up to it and the part from it on.\<close>

definition process_snapshot :: "queue_env \<Rightarrow> trade_queue \<Rightarrow> trade_queue" where
  "process_snapshot env q =
     (if tq_snapshot_open_trades q \<le> 0 then q
      else if tq_close_due q = [] then
        (if 0 < tq_snapshot_unknown_close q then request_snapshot_refresh ''missing-close-times'' q else q)
      else
        let due = takeWhile (\<lambda>t. t \<le> qe_now_ms env) (tq_close_due q);
            active = dropWhile (\<lambda>t. t \<le> qe_now_ms env) (tq_close_due q);
            closed_count = int (length due)
        in if closed_count \<le> 0 then q
        else
          let snapshot = (if tq_snapshot_open_trades q \<le> closed_count then 0
                          else tq_snapshot_open_trades q - closed_count);
              q = q\<lparr>tq_close_due := active, tq_snapshot_open_trades := snapshot,
                    tq_snapshot_unknown_close := min (tq_snapshot_unknown_close q) snapshot\<rparr>;
              q = emit_open_trades None q
          in if 0 < tq_snapshot_open_trades q \<and> 0 < tq_snapshot_unknown_close q \<and> tq_close_due q = []
             then request_snapshot_refresh ''unknown-close-times'' q else q)"

text \<open>\<open>OpenTradesSnapshotEvent\<close>.\<close>

record snapshot_event =
  sne_open_trades :: int
  sne_close_times_ms :: "int list"
  sne_close_buffer_ms :: int

definition on_snapshot :: "snapshot_event \<Rightarrow> trade_queue \<Rightarrow> trade_queue" where
  "on_snapshot ev q =
     (let q = q\<lparr>tq_refresh_requested := False\<rparr>;
          pending_blocks_snapshot = (tq_snapshot_ready q \<and> tq_pending q \<noteq> [])
      in if pending_blocks_snapshot \<or> tq_open q \<noteq> [] \<or> 0 < tq_local_open_trades q
         then request_snapshot_refresh ''local-queue-active'' q
      else
        let open_count = max 0 (sne_open_trades ev);
            close_buffer_ms = max 0 (sne_close_buffer_ms ev);
            times = (if 0 < open_count
              then map (\<lambda>t. add_close_buffer t close_buffer_ms) (filter (\<lambda>t. 0 < t) (sne_close_times_ms ev)) else []);
            times = sort times;
            times = (if open_count < int (length times) then take (nat open_count) times else times);
            unknown = max 0 (open_count - int (length times));
            q = q\<lparr>tq_snapshot_ready := True, tq_snapshot_open_trades := open_count, tq_close_due := times,
                  tq_snapshot_unknown_close := unknown\<rparr>;
            q = emit_open_trades None q
        in if 0 < unknown then request_snapshot_refresh ''unknown-close-times'' q else q)"

definition on_availability :: "bool \<Rightarrow> trade_queue \<Rightarrow> trade_queue" where
  "on_availability ready q =
     (if \<not> tq_require_snapshot q then q
      else let q = q\<lparr>tq_snapshot_ready := ready\<rparr>
           in if ready then q else snd (clear_snapshot_open_trades q))"

subsection \<open>Forced close\<close>

text \<open>The loops of \<open>finalize_all_trades\<close> over the pending and the open transactions.\<close>

fun force_pending :: "queue_env \<Rightarrow> transaction list \<Rightarrow> trade_queue \<Rightarrow> trade_queue" where
  "force_pending env [] q = q"
| "force_pending env (tx # txs) q =
     force_pending env txs (dispatch_trade_event
       (finalize_with_error (qe_account env) TEC_CLIENT_FORCED_CLOSE TS_OPEN_ERROR (qe_now_ms env) []
          (cancel_async_operations tx)) q)"

fun force_open :: "queue_env \<Rightarrow> transaction list \<Rightarrow> trade_queue \<Rightarrow> trade_queue" where
  "force_open env [] q = q"
| "force_open env (tx # txs) q =
     (let tx = finalize_with_error (qe_account env) TEC_CLIENT_FORCED_CLOSE TS_CHECK_ERROR (qe_now_ms env) []
            (cancel_async_operations tx)
      in force_open env txs (dispatch_trade_event tx (decrement_open_trades env tx q)))"

definition finalize_all_trades :: "queue_env \<Rightarrow> trade_queue \<Rightarrow> trade_queue" where
  "finalize_all_trades env q =
     (let pending = tq_pending q;
          q = force_pending env pending (q\<lparr>tq_pending := []\<rparr>);
          q = (force_open env (tq_open q) q)\<lparr>tq_open := []\<rparr>;
          (changed, q) = clear_snapshot_open_trades q;
          q = (if changed then emit_open_trades None q else q)
      in q\<lparr>tq_has_sent_order := False, tq_has_storm_balance := False, tq_storm_base := 0, tq_storm_profit := 0,
           tq_last_activity_ms := qe_now_ms env\<rparr>)"

definition on_disconnect :: "queue_env \<Rightarrow> trade_queue \<Rightarrow> trade_queue" where
  "on_disconnect env q =
     finalize_all_trades env (if tq_require_snapshot q then q\<lparr>tq_snapshot_ready := False\<rparr> else q)"

subsection \<open>Price updates\<close>

text \<open>One pass of the loop over the open transactions: the transaction left, the queue, and whether an
  exception of the price code left the loop.\<close>

definition price_step :: "tick_batch list \<Rightarrow> transaction \<Rightarrow> trade_queue \<Rightarrow> transaction \<times> trade_queue \<times> bool" where
  "price_step batches tx q =
     (let st = tres_trade_state (tx_result tx)
      in if st \<noteq> TS_OPEN_SUCCESS \<and> st \<noteq> TS_IN_PROGRESS then (tx, q, False)
      else
        let (tx, q) = (if st = TS_OPEN_SUCCESS then (set_states TS_IN_PROGRESS tx, dispatch_trade_event tx q) else (tx, q))
        in case find_tick_batch batches (treq_symbol (tx_request tx)) of
             None \<Rightarrow> (tx, q, False)
           | Some batch \<Rightarrow>
               if tb_items batch = [] then (tx, q, False)
               else
                 let quote = last (tb_items batch)
                 in if \<not> has_market_flag (tk_flags quote) flag_initialized then (tx, q, False)
                 else case mid_price quote (tb_price_digits batch) of
                   Inl _ \<Rightarrow> (tx, q, True)
                 | Inr close_price \<Rightarrow>
                     let result = (tx_result tx)\<lparr>tres_close_price := close_price\<rparr>;
                         result = result\<lparr>tres_live_state := determine_trade_state result (tx_request tx) close_price\<rparr>;
                         tx = tx\<lparr>tx_result := result\<rparr>
                     in (tx, dispatch_trade_event tx q, False))"

fun price_loop :: "tick_batch list \<Rightarrow> transaction list \<Rightarrow> trade_queue \<Rightarrow> transaction list \<times> trade_queue" where
  "price_loop batches [] q = ([], q)"
| "price_loop batches (tx # txs) q =
     (let (tx, q, threw) = price_step batches tx q
      in if threw then (tx # txs, q)
         else let (rest, q) = price_loop batches txs q in (tx # rest, q))"

definition on_price_update :: "tick_batch list \<Rightarrow> trade_queue \<Rightarrow> trade_queue" where
  "on_price_update batches q =
     (let (txs, q') = price_loop batches (tq_open q) q in q'\<lparr>tq_open := txs\<rparr>)"

subsection \<open>One turn of the event loop\<close>

definition queue_process :: "queue_env \<Rightarrow> trade_queue \<Rightarrow> trade_queue" where
  "queue_process env q =
     (let q = process_snapshot env q;
          (canceled, q) = process_pending env q;
          q = process_closing env q
      in process_finalizing env q)"

end
