(* ===== verification/TradeQueueLaws.thy ===== *)
theory TradeQueueLaws
  imports TradeQueue
begin

section \<open>Laws of the trade queue\<close>

text \<open>
  The invariant of the queue (its counter of open trades is their number, the snapshot bookkeeping
  adds up, the tokens of its transactions are active) through every operation, what is published,
  when an order is sent, and how transactions leave.
\<close>

subsection \<open>Frames\<close>

text \<open>A notification only extends the log; a pass over the open transactions also counts them down.\<close>

definition dispatch_events :: "bool \<Rightarrow> transaction \<Rightarrow> queue_event list" where
  "dispatch_events callback tx =
     QE_transaction (tx_request tx) (tx_result tx) #
     map (\<lambda>cb. QE_callback cb (copy_request (tx_request tx)) (tx_result tx)) (treq_callbacks (tx_request tx)) @
     (if callback then [QE_trade_result (copy_request (tx_request tx)) (tx_result tx)] else [])"

lemma dispatch_log:
  "dispatch_trade_event tx q = q\<lparr>tq_log := tq_log q @ dispatch_events (tq_result_callback q) tx\<rparr>"
  by (simp add: dispatch_trade_event_def dispatch_events_def tq_notify_def Let_def dispatch_callbacks_def comp_def)

lemma emit_log: "emit_open_trades src q = q\<lparr>tq_log := tq_log q @ [QE_open_trades (current_open_trades q) src]\<rparr>"
  by (simp add: emit_open_trades_def tq_notify_def)

lemmas log_simps = dispatch_log emit_log tq_notify_def

definition pass_frame :: "trade_queue \<Rightarrow> trade_queue \<Rightarrow> queue_event list \<Rightarrow> bool" where
  "pass_frame q q' evs \<longleftrightarrow> (\<exists>n p a. q' = q\<lparr>tq_local_open_trades := n, tq_storm_profit := p, tq_last_activity_ms := a,
     tq_log := tq_log q @ evs\<rparr>)"

lemma pass_frame_refl [simp]: "pass_frame q q []"
  unfolding pass_frame_def
  by (rule exI [of _ "tq_local_open_trades q"], rule exI [of _ "tq_storm_profit q"], rule exI [of _ "tq_last_activity_ms q"]) simp

lemma pass_frame_intro:
  "q' = q\<lparr>tq_local_open_trades := n, tq_storm_profit := p, tq_last_activity_ms := a, tq_log := tq_log q @ evs\<rparr> \<Longrightarrow>
    pass_frame q q' evs"
  unfolding pass_frame_def by blast

lemma pass_frame_trans:
  assumes "pass_frame q r xs" "pass_frame r s ys"
  shows "pass_frame q s (xs @ ys)"
proof -
  obtain n p a where "s = r\<lparr>tq_local_open_trades := n, tq_storm_profit := p, tq_last_activity_ms := a, tq_log := tq_log r @ ys\<rparr>"
    using assms(2) unfolding pass_frame_def by blast
  moreover obtain n' p' a' where
    "r = q\<lparr>tq_local_open_trades := n', tq_storm_profit := p', tq_last_activity_ms := a', tq_log := tq_log q @ xs\<rparr>"
    using assms(1) unfolding pass_frame_def by blast
  ultimately show ?thesis by (intro pass_frame_intro [where n = n and p = p and a = a]) simp
qed

lemma pass_frame_fields:
  assumes "pass_frame q q' evs"
  shows "tq_pending q' = tq_pending q" "tq_open q' = tq_open q" "tq_last_order_time q' = tq_last_order_time q"
    "tq_has_sent_order q' = tq_has_sent_order q" "tq_snapshot_open_trades q' = tq_snapshot_open_trades q"
    "tq_snapshot_unknown_close q' = tq_snapshot_unknown_close q" "tq_require_snapshot q' = tq_require_snapshot q"
    "tq_snapshot_ready q' = tq_snapshot_ready q" "tq_close_due q' = tq_close_due q" "tq_log q' = tq_log q @ evs"
    "tq_result_callback q' = tq_result_callback q"
  using assms by (auto simp: pass_frame_def)

text \<open>Published counts are not negative.\<close>

definition counts_ok :: "queue_event list \<Rightarrow> bool" where
  "counts_ok evs \<longleftrightarrow> (\<forall>n src. QE_open_trades n src \<in> set evs \<longrightarrow> 0 \<le> n)"

lemma counts_ok_simps [simp]:
  "counts_ok []" "counts_ok (xs @ ys) \<longleftrightarrow> counts_ok xs \<and> counts_ok ys" "counts_ok (dispatch_events c tx)"
  "counts_ok (QE_open_trades n src # xs) \<longleftrightarrow> 0 \<le> n \<and> counts_ok xs"
  "counts_ok (QE_snapshot_refresh s # xs) \<longleftrightarrow> counts_ok xs"
  "counts_ok (QE_trade_request rq rs # xs) \<longleftrightarrow> counts_ok xs" "counts_ok (QE_trade_status rq rs # xs) \<longleftrightarrow> counts_ok xs"
  by (auto simp: counts_ok_def dispatch_events_def)

definition profit_after :: "trade_result \<Rightarrow> f64 \<Rightarrow> f64" where
  "profit_after result p = (if is_result_state (tres_trade_state result) then f64_add p (tres_profit result) else p)"

lemma realized_profit: "add_realized_profit result q = q\<lparr>tq_storm_profit := profit_after result (tq_storm_profit q)\<rparr>"
  by (simp add: add_realized_profit_def profit_after_def)

lemma decrement_frame:
  assumes "0 < tq_local_open_trades q"
  shows "decrement_open_trades env tx q = q\<lparr>tq_local_open_trades := tq_local_open_trades q - 1,
    tq_storm_profit := profit_after (tx_result tx) (tq_storm_profit q),
    tq_last_activity_ms := qe_now_ms env,
    tq_log := tq_log q @ [QE_open_trades (current_open_trades q - 1) (Some (tx_request tx, tx_result tx))]\<rparr>"
  using assms by (simp add: decrement_open_trades_def Let_def realized_profit emit_log current_open_trades_def)

text \<open>The requests of the transactions a list of events reports in a terminal state.\<close>

fun terminals :: "queue_event list \<Rightarrow> trade_request list" where
  "terminals [] = []"
| "terminals (QE_transaction request result # evs) =
     (if is_terminal_state (tres_trade_state result) then request # terminals evs else terminals evs)"
| "terminals (ev # evs) = terminals evs"

lemma terminals_append [simp]: "terminals (xs @ ys) = terminals xs @ terminals ys"
  by (induction xs rule: terminals.induct) simp_all

lemma terminals_callbacks [simp]: "terminals (map (\<lambda>cb. QE_callback cb rq rs) cbs) = []"
  by (induction cbs) simp_all

lemma terminals_dispatch [simp]:
  "terminals (dispatch_events c tx) = (if is_terminal_state (tres_trade_state (tx_result tx)) then [tx_request tx] else [])"
  by (simp add: dispatch_events_def)

subsection \<open>Passes over the open transactions\<close>

text \<open>The contract of a pass: what it keeps of a transaction depends on the transaction alone, an
  erased one is counted down, and nothing else of the queue changes.\<close>

locale open_pass =
  fixes step :: "transaction \<Rightarrow> trade_queue \<Rightarrow> transaction option \<times> trade_queue"
    and kept :: "transaction \<Rightarrow> transaction option"
    and events :: "int \<Rightarrow> bool \<Rightarrow> transaction \<Rightarrow> queue_event list"
  assumes step_kept: "fst (step tx q) = kept tx"
    and step_frame: "0 < tq_local_open_trades q \<Longrightarrow> pass_frame q (snd (step tx q)) (events (current_open_trades q) (tq_result_callback q) tx)"
    and step_count: "0 < tq_local_open_trades q \<Longrightarrow>
      tq_local_open_trades (snd (step tx q)) = tq_local_open_trades q - (if kept tx = None then 1 else 0)"
begin

fun pass_events :: "int \<Rightarrow> bool \<Rightarrow> transaction list \<Rightarrow> queue_event list" where
  "pass_events n c [] = []"
| "pass_events n c (tx # txs) = events n c tx @ pass_events (if kept tx = None then n - 1 else n) c txs"

lemma pass_sweep:
  assumes "int (length txs) \<le> tq_local_open_trades q"
  shows "fst (sweep step txs q) = List.map_filter kept txs \<and>
    pass_frame q (snd (sweep step txs q)) (pass_events (current_open_trades q) (tq_result_callback q) txs) \<and>
    tq_local_open_trades (snd (sweep step txs q)) = tq_local_open_trades q - int (length txs - length (List.map_filter kept txs))"
  using assms
proof (induction txs arbitrary: q)
  case (Cons tx txs)
  have pos: "0 < tq_local_open_trades q" using Cons.prems by simp
  obtain k r where s: "step tx q = (k, r)" by (cases "step tx q")
  have k: "k = kept tx" using step_kept [of tx q] s by simp
  have f: "pass_frame q r (events (current_open_trades q) (tq_result_callback q) tx)"
    and c: "tq_local_open_trades r = tq_local_open_trades q - (if kept tx = None then 1 else 0)"
    using step_frame [OF pos, of tx] step_count [OF pos, of tx] s by simp_all
  obtain rest t where w: "sweep step txs r = (rest, t)" by (cases "sweep step txs r")
  have cur: "current_open_trades r = (if kept tx = None then current_open_trades q - 1 else current_open_trades q)"
    using c pass_frame_fields(5) [OF f] by (simp add: current_open_trades_def)
  have le: "int (length txs) \<le> tq_local_open_trades r" using Cons.prems c by (simp split: if_splits)
  note IH = Cons.IH [OF le, unfolded w fst_conv snd_conv cur pass_frame_fields(11) [OF f]]
  have len: "length (List.map_filter kept txs) \<le> length txs" by (simp add: map_filter_def)
  show ?case
    using IH c k len pass_frame_trans [OF f]
    by (auto simp: s w map_filter_simps Suc_diff_le split: option.split)
qed (simp add: map_filter_simps)

lemma pass_open:
  assumes "int (length (tq_open q)) = tq_local_open_trades q"
  shows "tq_open (sweep_open step q) = List.map_filter kept (tq_open q)"
    and "tq_local_open_trades (sweep_open step q) = int (length (List.map_filter kept (tq_open q)))"
    and "tq_log (sweep_open step q) = tq_log q @ pass_events (current_open_trades q) (tq_result_callback q) (tq_open q)"
    and "tq_pending (sweep_open step q) = tq_pending q" "tq_snapshot_open_trades (sweep_open step q) = tq_snapshot_open_trades q"
    and "tq_snapshot_unknown_close (sweep_open step q) = tq_snapshot_unknown_close q"
    and "tq_close_due (sweep_open step q) = tq_close_due q" "tq_result_callback (sweep_open step q) = tq_result_callback q"
    and "tq_require_snapshot (sweep_open step q) = tq_require_snapshot q" "tq_snapshot_ready (sweep_open step q) = tq_snapshot_ready q"
    and "tq_last_order_time (sweep_open step q) = tq_last_order_time q" "tq_has_sent_order (sweep_open step q) = tq_has_sent_order q"
proof -
  obtain l r where w: "sweep step (tq_open q) q = (l, r)" by (cases "sweep step (tq_open q) q")
  have s: "l = List.map_filter kept (tq_open q)"
    "pass_frame q r (pass_events (current_open_trades q) (tq_result_callback q) (tq_open q))"
    "tq_local_open_trades r = tq_local_open_trades q - int (length (tq_open q) - length (List.map_filter kept (tq_open q)))"
    using pass_sweep [of "tq_open q" q] assms w by simp_all
  have "length (List.map_filter kept (tq_open q)) \<le> length (tq_open q)" by (simp add: map_filter_def)
  then show "tq_local_open_trades (sweep_open step q) = int (length (List.map_filter kept (tq_open q)))"
    using s assms by (simp add: sweep_open_def w of_nat_diff)
  note f = pass_frame_fields [OF s(2)]
  show "tq_open (sweep_open step q) = List.map_filter kept (tq_open q)"
    and "tq_log (sweep_open step q) = tq_log q @ pass_events (current_open_trades q) (tq_result_callback q) (tq_open q)"
    and "tq_pending (sweep_open step q) = tq_pending q" "tq_snapshot_open_trades (sweep_open step q) = tq_snapshot_open_trades q"
    and "tq_snapshot_unknown_close (sweep_open step q) = tq_snapshot_unknown_close q"
    and "tq_close_due (sweep_open step q) = tq_close_due q" "tq_result_callback (sweep_open step q) = tq_result_callback q"
    and "tq_require_snapshot (sweep_open step q) = tq_require_snapshot q" "tq_snapshot_ready (sweep_open step q) = tq_snapshot_ready q"
    and "tq_last_order_time (sweep_open step q) = tq_last_order_time q" "tq_has_sent_order (sweep_open step q) = tq_has_sent_order q"
    using f s by (simp_all add: sweep_open_def w)
qed

text \<open>A property of the events of every transaction of the list holds of the events of the pass.\<close>

lemma pass_events_all:
  assumes "\<forall>tx \<in> set txs. \<forall>n. list_all P (events n c tx)"
  shows "list_all P (pass_events n c txs)"
  using assms by (induction txs arbitrary: n) auto

lemma pass_events_ex:
  assumes "tx \<in> set txs" and "\<And>n. e \<in> set (events n c tx)"
  shows "e \<in> set (pass_events n c txs)"
  using assms by (induction txs arbitrary: n) auto

text \<open>The counts published by a pass stay at or above the number of transactions left.\<close>

lemma pass_counts_ok:
  assumes "\<And>n c tx. 0 < n \<Longrightarrow> counts_ok (events n c tx)" and "int (length txs) \<le> n"
  shows "counts_ok (pass_events n c txs)"
  using assms(2)
proof (induction txs arbitrary: n)
  case (Cons tx txs)
  then show ?case using assms(1) [of n c tx] by auto
qed simp

text \<open>What a pass erases is what it reports as ended.\<close>

lemma pass_conserves:
  assumes "\<And>n c tx. mset (terminals (events n c tx)) = (if kept tx = None then {#tx_request tx#} else {#})"
    and "\<And>tx k. kept tx = Some k \<Longrightarrow> tx_request k = tx_request tx"
  shows "mset (terminals (pass_events n c txs)) + mset (map tx_request (List.map_filter kept txs)) = mset (map tx_request txs)"
proof (induction txs arbitrary: n)
  case (Cons tx txs)
  show ?case
  proof (cases "kept tx")
    case None
    then show ?thesis using Cons.IH [of "n - 1"] by (simp add: map_filter_simps assms(1))
  next
    case (Some k)
    then show ?thesis using Cons.IH [of n] assms(2) [OF Some] by (simp add: map_filter_simps assms(1))
  qed
qed (simp add: map_filter_simps)

lemma pass_only:
  assumes "\<And>n c tx. filter P (events n c tx) = []"
  shows "filter P (pass_events n c txs) = []"
  by (induction txs arbitrary: n) (simp_all add: assms)

end

subsection \<open>The closing pass\<close>

text \<open>What the closing loop does with a transaction, as a verdict on the transaction alone.\<close>

datatype closing_verdict = CV_keep | CV_opened | CV_fail trade_error_code | CV_wait

definition closing_verdict :: "queue_env \<Rightarrow> transaction \<Rightarrow> closing_verdict" where
  "closing_verdict env tx =
     (let request = tx_request tx; result = tx_result tx; st = tres_trade_state result;
          close_date = calculate_close_date (qe_lib env) result request
      in if st = TS_OPEN_SUCCESS then CV_opened
      else if \<not> is_closable_state st then CV_keep
      else if close_date = 0 then
        CV_fail (if treq_option_type request = OPT_SPRINT then TEC_INVALID_DURATION else TEC_INVALID_EXPIRY_TIME)
      else if qe_now_ms env < close_date then CV_keep
      else if close_date + get_response_timeout (qe_lib env) (qe_account env) < qe_now_ms env then
        CV_fail TEC_LONG_RESPONSE_WAIT
      else if is_transition_to_waiting_close st then CV_wait else CV_keep)"

definition failed_tx :: "queue_env \<Rightarrow> trade_error_code \<Rightarrow> transaction \<Rightarrow> transaction" where
  "failed_tx env e tx = finalize_with_error (qe_account env) e TS_CHECK_ERROR (qe_now_ms env)
     (tres_error_desc (tx_result tx)) (cancel_async_operations (set_error_code e tx))"

definition waiting_tx :: "queue_env \<Rightarrow> transaction \<Rightarrow> transaction" where
  "waiting_tx env tx = (let tx = set_states TS_WAITING_CLOSE tx in tx\<lparr>tx_result := qe_on_status env tx\<rparr>)"

definition closing_kept :: "queue_env \<Rightarrow> transaction \<Rightarrow> transaction option" where
  "closing_kept env tx =
     (case closing_verdict env tx of
        CV_keep \<Rightarrow> Some tx | CV_opened \<Rightarrow> Some (set_states TS_IN_PROGRESS tx)
      | CV_fail e \<Rightarrow> None | CV_wait \<Rightarrow> Some (waiting_tx env tx))"

definition closing_events :: "queue_env \<Rightarrow> int \<Rightarrow> bool \<Rightarrow> transaction \<Rightarrow> queue_event list" where
  "closing_events env n c tx =
     (case closing_verdict env tx of
        CV_keep \<Rightarrow> [] | CV_opened \<Rightarrow> dispatch_events c tx
      | CV_fail e \<Rightarrow> QE_open_trades (n - 1) (Some (tx_request tx, tx_result (set_error_code e tx))) #
          dispatch_events c (failed_tx env e tx)
      | CV_wait \<Rightarrow> dispatch_events c (set_states TS_WAITING_CLOSE tx) @
          [QE_trade_status (tx_request tx) (tx_result (set_states TS_WAITING_CLOSE tx))])"

lemma set_fields [simp]:
  "tx_request (set_states st tx) = tx_request tx" "tx_active (set_states st tx) = tx_active tx"
  "tres_trade_state (tx_result (set_states st tx)) = st"
  "tx_request (set_error_code e tx) = tx_request tx" "tx_active (set_error_code e tx) = tx_active tx"
  "tres_error_code (tx_result (set_error_code e tx)) = e"
  "tres_error_desc (tx_result (set_error_code e tx)) = tres_error_desc (tx_result tx)"
  "tres_trade_state (tx_result (set_error_code e tx)) = tres_trade_state (tx_result tx)"
  "tx_request (failed_tx env e tx) = tx_request tx" "tres_trade_state (tx_result (failed_tx env e tx)) = TS_CHECK_ERROR"
  "tres_error_code (tx_result (failed_tx env e tx)) = e"
  "tx_request (waiting_tx env tx) = tx_request tx" "tx_active (waiting_tx env tx) = tx_active tx"
  by (simp_all add: set_states_def set_error_code_def failed_tx_def waiting_tx_def Let_def)

lemma closing_fail_step:
  assumes "0 < tq_local_open_trades q"
  shows "handle_closing_error env (set_error_code e tx) q = q\<lparr>tq_local_open_trades := tq_local_open_trades q - 1,
    tq_storm_profit := profit_after (tx_result (set_error_code e tx)) (tq_storm_profit q),
    tq_last_activity_ms := qe_now_ms env,
    tq_log := tq_log q @ QE_open_trades (current_open_trades q - 1) (Some (tx_request tx, tx_result (set_error_code e tx))) #
          dispatch_events (tq_result_callback q) (failed_tx env e tx)\<rparr>"
  using assms by (simp add: handle_closing_error_def Let_def decrement_frame dispatch_log failed_tx_def)

lemma closing_step_verdict:
  "closing_step env tx q =
     (case closing_verdict env tx of
        CV_keep \<Rightarrow> (Some tx, q)
      | CV_opened \<Rightarrow> (Some (set_states TS_IN_PROGRESS tx), dispatch_trade_event tx q)
      | CV_fail e \<Rightarrow> (None, handle_closing_error env (set_error_code e tx) q)
      | CV_wait \<Rightarrow> (Some (waiting_tx env tx), tq_notify (QE_trade_status (tx_request tx) (tx_result (set_states TS_WAITING_CLOSE tx)))
          (dispatch_trade_event (set_states TS_WAITING_CLOSE tx) q)))"
  by (simp add: closing_step_def closing_verdict_def Let_def waiting_tx_def)

lemma log_frame: "pass_frame q (q\<lparr>tq_log := tq_log q @ evs\<rparr>) evs"
  by (rule pass_frame_intro [where n = "tq_local_open_trades q" and p = "tq_storm_profit q" and a = "tq_last_activity_ms q"]) simp

interpretation cp: open_pass "closing_step env" "closing_kept env" "closing_events env" for env
proof
  fix tx q
  show "fst (closing_step env tx q) = closing_kept env tx"
    by (simp add: closing_step_verdict closing_kept_def split: closing_verdict.split)
  assume pos: "0 < tq_local_open_trades q"
  show "pass_frame q (snd (closing_step env tx q)) (closing_events env (current_open_trades q) (tq_result_callback q) tx)"
  proof (cases "closing_verdict env tx")
    case (CV_fail e)
    then show ?thesis using pos
      by (simp add: closing_step_verdict closing_events_def closing_fail_step) (rule pass_frame_intro, rule refl)
  qed (simp_all add: closing_step_verdict closing_events_def log_simps log_frame)
  show "tq_local_open_trades (snd (closing_step env tx q)) = tq_local_open_trades q - (if closing_kept env tx = None then 1 else 0)"
    using pos by (simp add: closing_step_verdict closing_kept_def closing_fail_step log_simps split: closing_verdict.split)
qed

subsection \<open>The finalizing pass\<close>

definition finalizing_kept :: "transaction \<Rightarrow> transaction option" where
  "finalizing_kept tx = (if is_terminal_state (tres_trade_state (tx_result tx)) then None else Some tx)"

definition finalizing_events :: "int \<Rightarrow> bool \<Rightarrow> transaction \<Rightarrow> queue_event list" where
  "finalizing_events n c tx =
     (if is_terminal_state (tres_trade_state (tx_result tx))
      then QE_open_trades (n - 1) (Some (tx_request tx, tx_result tx)) # dispatch_events c (cancel_async_operations tx) else [])"

interpretation fp: open_pass "finalizing_step env" finalizing_kept finalizing_events for env
proof
  fix tx q
  show "fst (finalizing_step env tx q) = finalizing_kept tx"
    by (simp add: finalizing_step_def finalizing_kept_def Let_def)
  assume pos: "0 < tq_local_open_trades q"
  show "pass_frame q (snd (finalizing_step env tx q)) (finalizing_events (current_open_trades q) (tq_result_callback q) tx)"
    using pos by (simp add: finalizing_step_def finalizing_events_def Let_def decrement_frame dispatch_log)
      (rule impI, rule pass_frame_intro, rule refl)
  show "tq_local_open_trades (snd (finalizing_step env tx q)) = tq_local_open_trades q - (if finalizing_kept tx = None then 1 else 0)"
    using pos by (simp add: finalizing_step_def finalizing_kept_def Let_def decrement_frame dispatch_log)
qed

lemma counts_closing: "0 < n \<Longrightarrow> counts_ok (closing_events env n c tx)"
  by (simp add: closing_events_def split: closing_verdict.split)

lemma counts_finalizing: "0 < n \<Longrightarrow> counts_ok (finalizing_events n c tx)"
  by (simp add: finalizing_events_def)

subsection \<open>Sending one pending transaction\<close>

definition expired :: "queue_env \<Rightarrow> transaction \<Rightarrow> bool" where
  "expired env tx \<longleftrightarrow> ts_sec_to_ms (qe_lib env) (ad_int64 (qe_account env) (info_request AIT_ORDER_QUEUE_TIMEOUT 0))
     \<le> qe_now_ms env - tres_place_date (tx_result tx)"

lemma clean_expired_filter:
  "clean_expired (qe_now_ms env) (ts_sec_to_ms (qe_lib env) (ad_int64 (qe_account env) (info_request AIT_ORDER_QUEUE_TIMEOUT 0))) txs =
     (filter (expired env) txs, filter (\<lambda>tx. \<not> expired env tx) txs)"
  by (induction txs) (simp_all add: expired_def)

definition refused_tx :: "queue_env \<Rightarrow> transaction \<Rightarrow> transaction" where
  "refused_tx env tx = (let e = validate_request (qe_lib env) (qe_account env) (qe_now_ms env) (tx_request tx)
     in finalize_with_error (qe_account env) e TS_OPEN_ERROR (qe_now_ms env) [] (set_error_code e tx))"

definition sent_tx :: "queue_env \<Rightarrow> transaction \<Rightarrow> trade_queue \<Rightarrow> transaction" where
  "sent_tx env tx q =
     (let d = qe_account env; request = tx_request tx;
          balance = ad_f64 d (trade_info_request AIT_BALANCE request 0);
          result = (tx_result tx)\<lparr>tres_error_code := TEC_SUCCESS, tres_trade_state := TS_WAITING_OPEN,
            tres_live_state := TS_WAITING_OPEN, tres_send_date := qe_now_ms env\<rparr>;
          result = set_open_balance (fst (next_open_balance env (qe_now_ms env) balance q)) (set_balance balance result)
      in tx\<lparr>tx_result := result\<lparr>tres_payout :=
           ad_f64 d (trade_info_request AIT_PAYOUT request (ts_ms_to_sec (qe_lib env) (qe_now_ms env)))\<rparr>\<rparr>)"

definition opened_tx :: "queue_env \<Rightarrow> transaction \<Rightarrow> trade_queue \<Rightarrow> transaction" where
  "opened_tx env tx q = (let tx = sent_tx env tx q in tx\<lparr>tx_result := qe_on_request env tx\<rparr>)"

definition sent_events :: "queue_env \<Rightarrow> transaction \<Rightarrow> trade_queue \<Rightarrow> queue_event list" where
  "sent_events env tx q =
     (let sent = sent_tx env tx q; result = tx_result sent
      in QE_open_trades (current_open_trades q + 1) (Some (tx_request tx, result)) #
         dispatch_events (tq_result_callback q) sent @ [QE_trade_request (tx_request tx) result])"

definition accepted :: "queue_env \<Rightarrow> transaction \<Rightarrow> bool" where
  "accepted env tx \<longleftrightarrow> validate_request (qe_lib env) (qe_account env) (qe_now_ms env) (tx_request tx) = TEC_SUCCESS"

lemma tx_fields [simp]:
  "tx_request (sent_tx env tx q) = tx_request tx" "tx_active (sent_tx env tx q) = tx_active tx"
  "tx_request (opened_tx env tx q) = tx_request tx" "tx_active (opened_tx env tx q) = tx_active tx"
  "tx_request (refused_tx env tx) = tx_request tx"
  by (simp_all add: sent_tx_def opened_tx_def refused_tx_def Let_def)

lemma next_open_balance_frame:
  "\<exists>h b p. snd (next_open_balance env now bal q) = q\<lparr>tq_has_storm_balance := h, tq_storm_base := b, tq_storm_profit := p\<rparr>"
proof (cases "\<not> tq_has_storm_balance q \<or> (tq_local_open_trades q \<le> 0 \<and> tq_open q = []) \<and>
    (tq_last_activity_ms q \<le> 0 \<or> ts_ms_per_15_sec (qe_lib env) \<le> now - tq_last_activity_ms q)")
  case True
  then have "snd (next_open_balance env now bal q) = q\<lparr>tq_has_storm_balance := True, tq_storm_base := bal, tq_storm_profit := 0\<rparr>"
    by (auto simp: next_open_balance_def Let_def)
  then show ?thesis by blast
next
  case False
  then have "snd (next_open_balance env now bal q) = q" by (auto simp: next_open_balance_def Let_def)
  then show ?thesis
    by (intro exI [of _ "tq_has_storm_balance q"] exI [of _ "tq_storm_base q"] exI [of _ "tq_storm_profit q"]) simp
qed

lemma send_accepted:
  assumes "accepted env tx"
  shows "\<exists>h b p. send_transaction env tx q = q\<lparr>tq_open := tq_open q @ [opened_tx env tx q],
    tq_last_order_time := qe_steady_ns env, tq_has_sent_order := True, tq_local_open_trades := tq_local_open_trades q + 1,
    tq_has_storm_balance := h, tq_storm_base := b, tq_storm_profit := p, tq_last_activity_ms := qe_now_ms env,
    tq_log := tq_log q @ sent_events env tx q\<rparr>"
proof -
  define bal where "bal = ad_f64 (qe_account env) (trade_info_request AIT_BALANCE (tx_request tx) 0)"
  obtain ob q1 where nb: "next_open_balance env (qe_now_ms env) bal q = (ob, q1)"
    by (cases "next_open_balance env (qe_now_ms env) bal q")
  obtain h b p where q1: "q1 = q\<lparr>tq_has_storm_balance := h, tq_storm_base := b, tq_storm_profit := p\<rparr>"
    using next_open_balance_frame [of env "qe_now_ms env" bal q] nb by auto
  have "send_transaction env tx q = q\<lparr>tq_open := tq_open q @ [opened_tx env tx q],
    tq_last_order_time := qe_steady_ns env, tq_has_sent_order := True, tq_local_open_trades := tq_local_open_trades q + 1,
    tq_has_storm_balance := h, tq_storm_base := b, tq_storm_profit := p, tq_last_activity_ms := qe_now_ms env,
    tq_log := tq_log q @ sent_events env tx q\<rparr>"
    using assms nb
    by (simp add: send_transaction_def accepted_def Let_def flip: bal_def)
      (simp add: q1 increment_open_trades_def emit_log dispatch_log tq_notify_def current_open_trades_def
        sent_events_def opened_tx_def sent_tx_def Let_def flip: bal_def)
  then show ?thesis by blast
qed

lemma send_refused:
  assumes "\<not> accepted env tx"
  shows "send_transaction env tx q = q\<lparr>tq_log := tq_log q @ dispatch_events (tq_result_callback q) (refused_tx env tx)\<rparr>"
  using assms by (simp add: send_transaction_def accepted_def Let_def dispatch_log refused_tx_def set_error_code_def)

text \<open>The pending pass drops the expired transactions and sends at most the first of the others.\<close>

definition may_send :: "queue_env \<Rightarrow> trade_queue \<Rightarrow> bool" where
  "may_send env q \<longleftrightarrow>
     \<not> (tq_require_snapshot q \<and> \<not> tq_snapshot_ready q \<and> ad_bool (qe_account env) (info_request AIT_CONNECTION_STATUS 0)) \<and>
     (tq_has_sent_order q \<longrightarrow>
        max 0 (ad_int64 (qe_account env) (info_request AIT_ORDER_INTERVAL_MS 0))
          \<le> elapsed_ms (qe_steady_ns env) (tq_last_order_time q))"

definition below_max :: "queue_env \<Rightarrow> transaction \<Rightarrow> bool" where
  "below_max env tx \<longleftrightarrow> ad_int64 (qe_account env) (trade_info_request AIT_OPEN_TRADES (tx_request tx) 0)
     < ad_int64 (qe_account env) (trade_info_request AIT_MAX_TRADES (tx_request tx) 0)"

lemma pop_next:
  "pop_next_transaction env q =
     (if may_send env q then
        (case tq_pending q of [] \<Rightarrow> None
         | tx # rest \<Rightarrow> if below_max env tx then Some (tx, q\<lparr>tq_pending := rest\<rparr>) else None)
      else None)"
  by (auto simp: pop_next_transaction_def may_send_def below_max_def Let_def split: list.split)

lemma process_pending_cases:
  "snd (process_pending env q) =
     (case filter (\<lambda>tx. \<not> expired env tx) (tq_pending q) of
        [] \<Rightarrow> q\<lparr>tq_pending := []\<rparr>
      | tx # rest \<Rightarrow>
          if may_send env q \<and> below_max env tx
          then send_transaction env tx (q\<lparr>tq_pending := rest\<rparr>)
          else q\<lparr>tq_pending := tx # rest\<rparr>)"
proof (cases "tq_pending q = []")
  case True
  then show ?thesis by (cases q) (simp add: process_pending_def)
next
  case False
  have m: "may_send env (q\<lparr>tq_pending := xs\<rparr>) = may_send env q" for xs by (simp add: may_send_def)
  show ?thesis using False
    by (simp add: process_pending_def Let_def clean_expired_filter pop_next m split: list.split)
qed

subsection \<open>The invariant\<close>

definition queue_inv :: "trade_queue \<Rightarrow> bool" where
  "queue_inv q \<longleftrightarrow> tq_local_open_trades q = int (length (tq_open q)) \<and>
     tq_snapshot_open_trades q = tq_snapshot_unknown_close q + int (length (tq_close_due q)) \<and>
     0 \<le> tq_snapshot_unknown_close q \<and> sorted (tq_close_due q) \<and>
     list_all tx_active (tq_pending q) \<and> list_all tx_active (tq_open q) \<and> counts_ok (tq_log q)"

lemma queue_invD:
  assumes "queue_inv q"
  shows "tq_local_open_trades q = int (length (tq_open q))" "0 \<le> current_open_trades q"
    "tq_snapshot_open_trades q = tq_snapshot_unknown_close q + int (length (tq_close_due q))"
    "0 \<le> tq_snapshot_unknown_close q" "sorted (tq_close_due q)"
    "list_all tx_active (tq_pending q)" "list_all tx_active (tq_open q)" "counts_ok (tq_log q)"
    "int (length (tq_open q)) \<le> current_open_trades q"
  using assms by (simp_all add: queue_inv_def current_open_trades_def)

lemma make_queue_inv: "queue_inv (make_trade_queue r c)"
  by (simp add: queue_inv_def make_trade_queue_def)

lemma refresh_inv [simp]: "queue_inv (request_snapshot_refresh s q) = queue_inv q"
  by (simp add: request_snapshot_refresh_def tq_notify_def queue_inv_def)

lemma dispatch_inv [simp]: "queue_inv (dispatch_trade_event tx q) = queue_inv q"
  by (simp add: dispatch_log queue_inv_def)

lemma emit_inv [simp]: "queue_inv (emit_open_trades src q) \<longleftrightarrow> queue_inv q \<and> 0 \<le> current_open_trades q"
  by (auto simp: emit_log queue_inv_def)

lemma clear_inv: "queue_inv q \<Longrightarrow> queue_inv (snd (clear_snapshot_open_trades q))"
  by (simp add: clear_snapshot_open_trades_def queue_inv_def)

lemma length_take_drop_while: "length (takeWhile P xs) + length (dropWhile P xs) = length xs"
  by (metis length_append takeWhile_dropWhile_id)

lemma sorted_dropWhile: "sorted xs \<Longrightarrow> sorted (dropWhile P xs)"
  by (metis sorted_append takeWhile_dropWhile_id)

text \<open>The snapshot pass: the close times passed are dropped, and the count of broker trades with them.\<close>

definition due_closed :: "queue_env \<Rightarrow> trade_queue \<Rightarrow> int" where
  "due_closed env q = int (length (takeWhile (\<lambda>t. t \<le> qe_now_ms env) (tq_close_due q)))"

lemma process_snapshot_eq:
  fixes env :: queue_env
  assumes "queue_inv q"
  defines "active \<equiv> dropWhile (\<lambda>t. t \<le> qe_now_ms env) (tq_close_due q)"
  shows "process_snapshot env q =
    (if due_closed env q = 0 then
       if tq_close_due q = [] \<and> 0 < tq_snapshot_unknown_close q then request_snapshot_refresh ''missing-close-times'' q else q
     else
       let q' = emit_open_trades None (q\<lparr>tq_close_due := active,
             tq_snapshot_open_trades := tq_snapshot_open_trades q - due_closed env q\<rparr>)
       in if active = [] \<and> 0 < tq_snapshot_unknown_close q then request_snapshot_refresh ''unknown-close-times'' q' else q')"
proof -
  note I = queue_invD [OF assms(1)]
  define closed where "closed = due_closed env q"
  have len: "int (length (tq_close_due q)) = closed + int (length active)" and nonneg: "0 \<le> closed"
    using length_take_drop_while [of "\<lambda>t. t \<le> qe_now_ms env" "tq_close_due q"]
    by (simp_all add: closed_def due_closed_def active_def flip: of_nat_add)
  have snap: "tq_snapshot_open_trades q = tq_snapshot_unknown_close q + closed + int (length active)"
    using I(3) len by simp
  have closed: "int (length (takeWhile (\<lambda>t. t \<le> qe_now_ms env) (tq_close_due q))) = closed"
    by (simp add: closed_def due_closed_def)
  consider "tq_snapshot_open_trades q \<le> 0" | "0 < tq_snapshot_open_trades q" "tq_close_due q = []"
    | "0 < tq_snapshot_open_trades q" "tq_close_due q \<noteq> []" "closed = 0"
    | "0 < tq_snapshot_open_trades q" "tq_close_due q \<noteq> []" "0 < closed"
    using nonneg by linarith
  then show ?thesis
  proof cases
    case 1
    then have "closed = 0" "tq_snapshot_unknown_close q = 0" using snap nonneg I(4) by linarith+
    with 1 show ?thesis by (simp add: process_snapshot_def closed_def)
  next
    case 2
    then have "closed = 0" by (simp add: closed_def due_closed_def)
    with 2 show ?thesis by (simp add: process_snapshot_def closed_def)
  next
    case 3
    then have "takeWhile (\<lambda>t. t \<le> qe_now_ms env) (tq_close_due q) = []" using closed by simp
    with 3 show ?thesis by (simp add: process_snapshot_def Let_def flip: closed_def)
  next
    case 4
    have due: "takeWhile (\<lambda>t. t \<le> qe_now_ms env) (tq_close_due q) \<noteq> []" using 4 closed by auto
    show ?thesis
    proof (cases "tq_snapshot_open_trades q \<le> closed")
      case True
      then have z: "tq_snapshot_open_trades q = closed" "tq_snapshot_unknown_close q = 0" "int (length active) = 0"
        using snap I(4) by linarith+
      have "process_snapshot env q = emit_open_trades None (q\<lparr>tq_close_due := active,
          tq_snapshot_open_trades := 0, tq_snapshot_unknown_close := 0\<rparr>)"
        using 4 due True z(2) by (simp add: process_snapshot_def Let_def closed emit_log flip: closed_def active_def)
      also have "q\<lparr>tq_close_due := active, tq_snapshot_open_trades := 0, tq_snapshot_unknown_close := 0\<rparr> =
          q\<lparr>tq_close_due := active, tq_snapshot_open_trades := 0\<rparr>" using z(2) by (cases q) simp
      finally show ?thesis using z(1,2) 4(3) by (simp add: Let_def flip: closed_def)
    next
      case False
      moreover have "min (tq_snapshot_unknown_close q) (tq_snapshot_open_trades q - closed) = tq_snapshot_unknown_close q"
        using snap by simp
      ultimately show ?thesis using 4 due
        by (auto simp: process_snapshot_def Let_def closed emit_log simp flip: closed_def active_def)
    qed
  qed
qed

lemma process_snapshot_facts:
  assumes "queue_inv q"
  shows "queue_inv (process_snapshot env q)"
    and "tq_snapshot_open_trades (process_snapshot env q) = tq_snapshot_open_trades q - due_closed env q"
    and "tq_snapshot_unknown_close (process_snapshot env q) = tq_snapshot_unknown_close q"
    and "tq_close_due (process_snapshot env q) = dropWhile (\<lambda>t. t \<le> qe_now_ms env) (tq_close_due q)"
proof -
  note I = queue_invD [OF assms]
  define active where "active = dropWhile (\<lambda>t. t \<le> qe_now_ms env) (tq_close_due q)"
  have len: "int (length (tq_close_due q)) = due_closed env q + int (length active)"
    using length_take_drop_while [of "\<lambda>t. t \<le> qe_now_ms env" "tq_close_due q"]
    by (simp add: due_closed_def active_def flip: of_nat_add)
  have none: "due_closed env q = 0 \<Longrightarrow> active = tq_close_due q"
    by (auto simp: due_closed_def active_def takeWhile_eq_Nil_iff dropWhile_eq_self_iff)
  have s: "sorted active" using I(5) by (simp add: active_def sorted_dropWhile)
  note eq = process_snapshot_eq [OF assms, of env, folded active_def]
  show "tq_snapshot_open_trades (process_snapshot env q) = tq_snapshot_open_trades q - due_closed env q"
    "tq_snapshot_unknown_close (process_snapshot env q) = tq_snapshot_unknown_close q"
    by (simp_all add: eq Let_def request_snapshot_refresh_def log_simps)
  show "tq_close_due (process_snapshot env q) = dropWhile (\<lambda>t. t \<le> qe_now_ms env) (tq_close_due q)"
    using none by (simp add: eq Let_def request_snapshot_refresh_def log_simps flip: active_def)
  show "queue_inv (process_snapshot env q)"
  proof (cases "due_closed env q = 0")
    case True
    then show ?thesis using assms by (simp add: eq)
  next
    case False
    let ?q = "q\<lparr>tq_close_due := active, tq_snapshot_open_trades := tq_snapshot_open_trades q - due_closed env q\<rparr>"
    have "tq_snapshot_open_trades q - due_closed env q = tq_snapshot_unknown_close q + int (length active)"
      using I(3) len by linarith
    then have "queue_inv ?q" "0 \<le> current_open_trades ?q"
      using I(1,4-8) s by (simp_all add: queue_inv_def current_open_trades_def)
    then show ?thesis using False by (auto simp: eq Let_def)
  qed
qed

lemma process_snapshot_keeps [simp]:
  "tq_pending (process_snapshot env q) = tq_pending q" "tq_open (process_snapshot env q) = tq_open q"
  "tq_local_open_trades (process_snapshot env q) = tq_local_open_trades q"
  "tq_last_order_time (process_snapshot env q) = tq_last_order_time q"
  "tq_has_sent_order (process_snapshot env q) = tq_has_sent_order q"
  "tq_require_snapshot (process_snapshot env q) = tq_require_snapshot q"
  "tq_snapshot_ready (process_snapshot env q) = tq_snapshot_ready q"
  "tq_result_callback (process_snapshot env q) = tq_result_callback q"
  by (simp_all add: process_snapshot_def Let_def request_snapshot_refresh_def log_simps)

text \<open>The invariant through the other operations.\<close>

lemma sent_counts: "0 \<le> current_open_trades q \<Longrightarrow> counts_ok (sent_events env tx q)"
  by (simp add: sent_events_def Let_def)

lemma send_inv:
  assumes "queue_inv q" and "tx_active tx"
  shows "queue_inv (send_transaction env tx q)"
proof (cases "accepted env tx")
  case True
  then obtain h b p where "send_transaction env tx q = q\<lparr>tq_open := tq_open q @ [opened_tx env tx q],
    tq_last_order_time := qe_steady_ns env, tq_has_sent_order := True, tq_local_open_trades := tq_local_open_trades q + 1,
    tq_has_storm_balance := h, tq_storm_base := b, tq_storm_profit := p, tq_last_activity_ms := qe_now_ms env,
    tq_log := tq_log q @ sent_events env tx q\<rparr>"
    using send_accepted by blast
  then show ?thesis using assms sent_counts [OF queue_invD(2) [OF assms(1)], of env tx] by (simp add: queue_inv_def)
next
  case False
  then show ?thesis using assms by (simp add: send_refused queue_inv_def)
qed

lemma pending_inv: "queue_inv q \<Longrightarrow> list_all tx_active txs \<Longrightarrow> queue_inv (q\<lparr>tq_pending := txs\<rparr>)"
  by (simp add: queue_inv_def)

lemma process_pending_inv:
  assumes "queue_inv q"
  shows "queue_inv (snd (process_pending env q))"
proof -
  have a: "list_all tx_active (filter (\<lambda>tx. \<not> expired env tx) (tq_pending q))"
    using assms by (simp add: queue_inv_def list_all_iff)
  show ?thesis
  proof (cases "filter (\<lambda>tx. \<not> expired env tx) (tq_pending q)")
    case (Cons tx rest)
    then show ?thesis using a assms by (simp add: process_pending_cases pending_inv send_inv)
  qed (simp add: process_pending_cases pending_inv assms)
qed

text \<open>A pass keeps the invariant when what it keeps stays active.\<close>

lemma kept_active: "list_all tx_active txs \<Longrightarrow> \<forall>tx k. f tx = Some k \<longrightarrow> tx_active tx \<longrightarrow> tx_active k \<Longrightarrow>
    list_all tx_active (List.map_filter f txs)"
  by (induction txs) (auto simp: map_filter_simps split: option.split)

lemma process_closing_inv:
  assumes "queue_inv q"
  shows "queue_inv (process_closing env q)"
proof -
  note I = queue_invD [OF assms]
  note P = cp.pass_open [OF I(1) [symmetric], of env]
  have "counts_ok (cp.pass_events env (current_open_trades q) (tq_result_callback q) (tq_open q))"
    using counts_closing I(9) by (rule cp.pass_counts_ok)
  moreover have "list_all tx_active (List.map_filter (closing_kept env) (tq_open q))"
    by (rule kept_active [OF I(7)]) (auto simp: closing_kept_def split: closing_verdict.splits)
  ultimately show ?thesis using I by (simp add: process_closing_def queue_inv_def P)
qed

lemma process_finalizing_inv:
  assumes "queue_inv q"
  shows "queue_inv (process_finalizing env q)"
proof -
  note I = queue_invD [OF assms]
  note P = fp.pass_open [OF I(1) [symmetric], of env]
  have "counts_ok (fp.pass_events (current_open_trades q) (tq_result_callback q) (tq_open q))"
    using counts_finalizing I(9) by (rule fp.pass_counts_ok)
  moreover have "list_all tx_active (List.map_filter finalizing_kept (tq_open q))"
    by (rule kept_active [OF I(7)]) (auto simp: finalizing_kept_def split: if_splits)
  ultimately show ?thesis using I by (simp add: process_finalizing_def queue_inv_def P)
qed

lemma queue_process_eq:
  "queue_process env q = process_finalizing env (process_closing env (snd (process_pending env (process_snapshot env q))))"
  by (simp add: queue_process_def Let_def split: prod.split)

lemma queue_process_inv: "queue_inv q \<Longrightarrow> queue_inv (queue_process env q)"
  by (simp add: queue_process_eq process_snapshot_facts(1) process_pending_inv process_closing_inv process_finalizing_inv)

text \<open>The transaction that \<open>add_trade\<close> appends, if any, and the counter it leaves.\<close>

lemma add_trade_cases:
  "\<exists>c. add_trade env req pl provided pre q = (False, q\<lparr>tq_id_counter := c\<rparr>) \<or>
    (\<exists>request result. add_trade env req pl provided pre q =
       (True, q\<lparr>tq_id_counter := c, tq_pending := tq_pending q @ [make_transaction request result]\<rparr>))"
proof (cases req)
  case None
  then show ?thesis by (intro exI [of _ "tq_id_counter q"]) (simp add: add_trade_def)
next
  case (Some r)
  obtain r' c where "assign_trade_id (tq_id_counter q) (fill_request (qe_account env) provided r) = (r', c)" by (metis surj_pair)
  then show ?thesis
    by (intro exI [of _ c]) (auto simp: add_trade_def Some Let_def split: option.split)
qed

lemma add_trade_inv: "queue_inv q \<Longrightarrow> queue_inv (snd (add_trade env req pl provided pre q))"
  using add_trade_cases [of env req pl provided pre q]
  by (auto simp: queue_inv_def make_transaction_def)

text \<open>The forced end: every pending and open transaction is reported, the counts go down to zero.\<close>

definition forced :: "queue_env \<Rightarrow> trade_state \<Rightarrow> transaction \<Rightarrow> transaction" where
  "forced env st tx = finalize_with_error (qe_account env) TEC_CLIENT_FORCED_CLOSE st (qe_now_ms env) [] (cancel_async_operations tx)"

lemma force_pending_log:
  "force_pending env txs q = q\<lparr>tq_log := tq_log q @
     concat (map (\<lambda>tx. dispatch_events (tq_result_callback q) (forced env TS_OPEN_ERROR tx)) txs)\<rparr>"
  by (induction txs arbitrary: q) (simp_all add: dispatch_log forced_def)

fun force_events :: "queue_env \<Rightarrow> int \<Rightarrow> bool \<Rightarrow> transaction list \<Rightarrow> queue_event list" where
  "force_events env n c [] = []"
| "force_events env n c (tx # txs) = QE_open_trades (n - 1) (Some (tx_request tx, tx_result (forced env TS_CHECK_ERROR tx))) #
     dispatch_events c (forced env TS_CHECK_ERROR tx) @ force_events env (n - 1) c txs"

lemma force_open_frame:
  assumes "int (length txs) \<le> tq_local_open_trades q"
  shows "pass_frame q (force_open env txs q) (force_events env (current_open_trades q) (tq_result_callback q) txs) \<and>
    tq_local_open_trades (force_open env txs q) = tq_local_open_trades q - int (length txs)"
  using assms
proof (induction txs arbitrary: q)
  case (Cons tx txs)
  let ?tx = "forced env TS_CHECK_ERROR tx"
  let ?evs = "QE_open_trades (current_open_trades q - 1) (Some (tx_request ?tx, tx_result ?tx)) # dispatch_events (tq_result_callback q) ?tx"
  define r where "r = dispatch_trade_event ?tx (decrement_open_trades env ?tx q)"
  have pos: "0 < tq_local_open_trades q" using Cons.prems by simp
  have f: "pass_frame q r ?evs"
    using pos by (simp add: r_def decrement_frame dispatch_log) (rule pass_frame_intro, rule refl)
  have c: "tq_local_open_trades r = tq_local_open_trades q - 1" "tq_result_callback r = tq_result_callback q"
    "current_open_trades r = current_open_trades q - 1"
    using pos by (simp_all add: r_def decrement_frame dispatch_log current_open_trades_def)
  have "int (length txs) \<le> tq_local_open_trades r" using Cons.prems c by simp
  from Cons.IH [OF this] show ?case
    using pass_frame_trans [OF f] c by (simp add: Let_def forced_def flip: r_def [unfolded forced_def])
qed simp

lemma force_counts: "int (length txs) \<le> n \<Longrightarrow> counts_ok (force_events env n c txs)"
  by (induction txs arbitrary: n) auto

lemma finalize_all_frame:
  assumes "queue_inv q"
  defines "c \<equiv> tq_result_callback q"
  shows "tq_pending (finalize_all_trades env q) = []" "tq_open (finalize_all_trades env q) = []"
    and "tq_local_open_trades (finalize_all_trades env q) = 0" "tq_snapshot_open_trades (finalize_all_trades env q) = 0"
    and "tq_close_due (finalize_all_trades env q) = []" "tq_snapshot_unknown_close (finalize_all_trades env q) = 0"
    and "tq_log (finalize_all_trades env q) = tq_log q @
      concat (map (\<lambda>tx. dispatch_events c (forced env TS_OPEN_ERROR tx)) (tq_pending q)) @
      force_events env (current_open_trades q) c (tq_open q) @
      (if tq_snapshot_open_trades q = 0 then [] else [QE_open_trades 0 None])"
proof -
  note I = queue_invD [OF assms(1)]
  define p where "p = force_pending env (tq_pending q) (q\<lparr>tq_pending := []\<rparr>)"
  have p: "p = q\<lparr>tq_pending := [], tq_log := tq_log q @ concat (map (\<lambda>tx. dispatch_events c (forced env TS_OPEN_ERROR tx)) (tq_pending q))\<rparr>"
    by (simp add: p_def force_pending_log c_def)
  define r where "r = force_open env (tq_open q) p"
  have "int (length (tq_open q)) \<le> tq_local_open_trades p" using I(1) by (simp add: p)
  note F = force_open_frame [OF this, of env, folded r_def]
  note f = pass_frame_fields [OF conjunct1 [OF F]]
  have r: "tq_local_open_trades r = 0" using F I(1) by (simp add: p)
  have cur: "current_open_trades p = current_open_trades q" by (simp add: p current_open_trades_def)
  have "tq_snapshot_open_trades q = 0 \<longleftrightarrow> tq_snapshot_unknown_close q = 0 \<and> int (length (tq_close_due q)) = 0"
    using I(3,4) by linarith
  then have z: "tq_snapshot_open_trades q = 0 \<longleftrightarrow> tq_snapshot_unknown_close q = 0 \<and> tq_close_due q = []" by simp
  have eq: "finalize_all_trades env q =
    (let (changed, q) = clear_snapshot_open_trades (r\<lparr>tq_open := []\<rparr>);
          q = (if changed then emit_open_trades None q else q)
      in q\<lparr>tq_has_sent_order := False, tq_has_storm_balance := False, tq_storm_base := 0, tq_storm_profit := 0,
           tq_last_activity_ms := qe_now_ms env\<rparr>)"
    by (simp add: finalize_all_trades_def Let_def r_def p_def) (simp add: p [unfolded p_def])
  show "tq_pending (finalize_all_trades env q) = []" "tq_open (finalize_all_trades env q) = []"
    "tq_local_open_trades (finalize_all_trades env q) = 0" "tq_snapshot_open_trades (finalize_all_trades env q) = 0"
    "tq_close_due (finalize_all_trades env q) = []" "tq_snapshot_unknown_close (finalize_all_trades env q) = 0"
    by (simp_all add: eq clear_snapshot_open_trades_def Let_def emit_log r f(1)) (simp_all add: p)
  show "tq_log (finalize_all_trades env q) = tq_log q @
      concat (map (\<lambda>tx. dispatch_events c (forced env TS_OPEN_ERROR tx)) (tq_pending q)) @
      force_events env (current_open_trades q) c (tq_open q) @
      (if tq_snapshot_open_trades q = 0 then [] else [QE_open_trades 0 None])"
    using z by (simp add: eq clear_snapshot_open_trades_def Let_def emit_log f cur)
      (auto simp: p c_def current_open_trades_def r)
qed

lemma counts_dispatches [simp]: "counts_ok (concat (map (\<lambda>tx. dispatch_events c (f tx)) txs))"
  by (induction txs) simp_all

lemma finalize_all_inv:
  assumes "queue_inv q"
  shows "queue_inv (finalize_all_trades env q)"
proof -
  note I = queue_invD [OF assms]
  note F = finalize_all_frame [OF assms, of env]
  have "counts_ok (force_events env (current_open_trades q) (tq_result_callback q) (tq_open q))"
    using I(9) by (rule force_counts)
  then have "counts_ok (tq_log (finalize_all_trades env q))" using I(8) by (simp only: F counts_ok_simps) simp
  then show ?thesis unfolding queue_inv_def by (simp add: F(1-6))
qed

text \<open>Price updates change the results of the open transactions and report them.\<close>

lemma price_step_frame:
  assumes "price_step batches tx q = (tx', q', threw)"
  shows "tx_request tx' = tx_request tx \<and> tx_active tx' = tx_active tx \<and> (\<exists>txs. q' = foldl (\<lambda>q tx. dispatch_trade_event tx q) q txs)"
proof -
  have "\<exists>txs. dispatch_trade_event a q = foldl (\<lambda>q tx. dispatch_trade_event tx q) q txs" for a
    by (rule exI [of _ "[a]"]) simp
  moreover have "\<exists>txs. dispatch_trade_event b (dispatch_trade_event a q) = foldl (\<lambda>q tx. dispatch_trade_event tx q) q txs" for a b
    by (rule exI [of _ "[a, b]"]) simp
  moreover have "\<exists>txs. q = foldl (\<lambda>q tx. dispatch_trade_event tx q) q txs" by (rule exI [of _ "[]"]) simp
  ultimately show ?thesis
    using assms by (auto simp: price_step_def Let_def split: if_splits option.splits sum.splits)
qed

lemma dispatches_keep:
  "tq_open (foldl (\<lambda>q tx. dispatch_trade_event tx q) q txs) = tq_open q \<and>
   queue_inv (foldl (\<lambda>q tx. dispatch_trade_event tx q) q txs) = queue_inv q"
  by (induction txs arbitrary: q) (simp_all add: dispatch_log [THEN arg_cong [where f = tq_open]])

lemma price_loop_frame:
  assumes "price_loop batches txs q = (txs', q')"
  shows "map tx_request txs' = map tx_request txs \<and> map tx_active txs' = map tx_active txs \<and> tq_open q' = tq_open q \<and>
    queue_inv q' = queue_inv q"
  using assms
proof (induction txs arbitrary: q txs' q')
  case (Cons tx txs)
  obtain tx1 q1 threw where s: "price_step batches tx q = (tx1, q1, threw)" by (metis prod.collapse)
  obtain rest q2 where w: "price_loop batches txs q1 = (rest, q2)" by (metis prod.collapse)
  obtain ds where q1: "q1 = foldl (\<lambda>q tx. dispatch_trade_event tx q) q ds" and tx1: "tx_request tx1 = tx_request tx" "tx_active tx1 = tx_active tx"
    using price_step_frame [OF s] by blast
  have k: "tq_open q1 = tq_open q" "queue_inv q1 = queue_inv q" by (simp_all only: q1 dispatches_keep)
  show ?case
  proof (cases threw)
    case True
    then have "txs' = tx1 # txs" "q' = q1" using Cons.prems by (simp_all add: s)
    then show ?thesis using k tx1 by simp
  next
    case False
    then have "txs' = tx1 # rest" "q' = q2" using Cons.prems by (simp_all add: s w)
    then show ?thesis using k tx1 Cons.IH [OF w] by simp
  qed
qed simp

lemma on_price_update_inv:
  assumes "queue_inv q"
  shows "queue_inv (on_price_update batches q)"
proof -
  obtain txs q' where w: "price_loop batches (tq_open q) q = (txs, q')" by (metis prod.collapse)
  note F = price_loop_frame [OF w]
  have "length txs = length (tq_open q)" using F by (metis length_map)
  moreover have "list_all id (map tx_active txs) \<longleftrightarrow> list_all id (map tx_active (tq_open q))"
    using F by simp
  then have "list_all tx_active txs \<longleftrightarrow> list_all tx_active (tq_open q)" by (simp add: list.pred_map)
  ultimately show ?thesis using assms F by (simp add: on_price_update_def w queue_inv_def)
qed

lemma on_disconnect_inv: "queue_inv q \<Longrightarrow> queue_inv (on_disconnect env q)"
  unfolding on_disconnect_def by (rule finalize_all_inv) (simp add: queue_inv_def)

lemma on_availability_inv: "queue_inv q \<Longrightarrow> queue_inv (on_availability ready q)"
  by (simp add: on_availability_def Let_def clear_snapshot_open_trades_def queue_inv_def)

text \<open>A broker snapshot that is accepted replaces the counts; one that is not leaves them alone.\<close>

definition snapshot_times :: "snapshot_event \<Rightarrow> int list" where
  "snapshot_times ev = take (nat (sne_open_trades ev)) (sort
     (map (\<lambda>t. add_close_buffer t (max 0 (sne_close_buffer_ms ev))) (filter (\<lambda>t. 0 < t) (sne_close_times_ms ev))))"

definition snapshot_accepted :: "trade_queue \<Rightarrow> bool" where
  "snapshot_accepted q \<longleftrightarrow> (tq_snapshot_ready q \<longrightarrow> tq_pending q = []) \<and> tq_open q = [] \<and> tq_local_open_trades q \<le> 0"

lemma snapshot_times_length: "int (length (snapshot_times ev)) \<le> max 0 (sne_open_trades ev)"
  by (simp add: snapshot_times_def min_def) linarith?

lemma snapshot_times_sorted: "sorted (snapshot_times ev)"
  by (simp add: snapshot_times_def sorted_wrt_take)

lemma on_snapshot_eq:
  "on_snapshot ev q =
     (if snapshot_accepted q then
        let n = max 0 (sne_open_trades ev); unknown = n - int (length (snapshot_times ev));
            q' = emit_open_trades None (q\<lparr>tq_refresh_requested := False, tq_snapshot_ready := True, tq_snapshot_open_trades := n,
              tq_close_due := snapshot_times ev, tq_snapshot_unknown_close := unknown\<rparr>)
        in if 0 < unknown then request_snapshot_refresh ''unknown-close-times'' q' else q'
      else request_snapshot_refresh ''local-queue-active'' (q\<lparr>tq_refresh_requested := False\<rparr>))"
proof (cases "snapshot_accepted q")
  case True
  define n where "n = max 0 (sne_open_trades ev)"
  define ts where "ts = (if 0 < n then map (\<lambda>t. add_close_buffer t (max 0 (sne_close_buffer_ms ev)))
    (filter (\<lambda>t. 0 < t) (sne_close_times_ms ev)) else [])"
  have nn: "nat n = nat (sne_open_trades ev)" by (simp add: n_def)
  have times: "(if n < int (length (sort ts)) then take (nat n) (sort ts) else sort ts) = snapshot_times ev"
  proof (cases "0 < n")
    case True
    then show ?thesis by (auto simp: ts_def snapshot_times_def simp flip: nn)
  next
    case False
    then show ?thesis using nn by (simp add: ts_def snapshot_times_def n_def)
  qed
  have le: "int (length (snapshot_times ev)) \<le> n" using snapshot_times_length by (simp add: n_def)
  have nb: "\<not> ((tq_snapshot_ready q \<and> tq_pending q \<noteq> []) \<or> tq_open q \<noteq> [] \<or> 0 < tq_local_open_trades q)"
    using True by (auto simp: snapshot_accepted_def)
  show ?thesis
    unfolding on_snapshot_def Let_def times [unfolded ts_def n_def]
    unfolding n_def [symmetric]
    using nb le True by (cases "tq_snapshot_ready q") simp_all
next
  case False
  then have "(tq_snapshot_ready q \<and> tq_pending q \<noteq> []) \<or> tq_open q \<noteq> [] \<or> 0 < tq_local_open_trades q"
    by (auto simp: snapshot_accepted_def)
  then show ?thesis using False by (simp add: on_snapshot_def Let_def)
qed

lemma on_snapshot_inv:
  assumes "queue_inv q"
  shows "queue_inv (on_snapshot ev q)"
proof -
  define n where "n = max 0 (sne_open_trades ev)"
  have le: "int (length (snapshot_times ev)) \<le> n" using snapshot_times_length by (simp add: n_def)
  have "0 \<le> n" by (simp add: n_def)
  have a: "queue_inv (q\<lparr>tq_refresh_requested := False\<rparr>)" using assms by (simp add: queue_inv_def)
  have b: "queue_inv (q\<lparr>tq_refresh_requested := False, tq_snapshot_ready := True, tq_snapshot_open_trades := n,
      tq_close_due := snapshot_times ev, tq_snapshot_unknown_close := n - int (length (snapshot_times ev))\<rparr>)"
    using assms le by (simp add: queue_inv_def snapshot_times_sorted)
  show ?thesis
    unfolding on_snapshot_eq Let_def n_def [symmetric] using a b queue_invD(2) [OF b] by simp
qed

end
