(* ===== verification/TradeExecution.thy ===== *)
theory TradeExecution
  imports TradeQueueLaws
begin

section \<open>What the trade queue guarantees\<close>

text \<open>
  The operations of the trade queue as the calls of one machine, in any order, and its guarantees:
  the counts it publishes, the fence before new orders, when an order goes out, that no due or
  terminal transaction stays open, and how the forced end reports what is left. Between two calls
  the platform may store a new result in an open transaction whose token is active
  (\<open>QC_broker\<close>).
\<close>

datatype queue_call =
    QC_add queue_env "trade_request option" platform_type "u32 option"
      "trade_request \<Rightarrow> trade_result \<Rightarrow> (trade_request \<times> trade_result) option"
  | QC_callback bool
  | QC_process queue_env
  | QC_finalize queue_env
  | QC_price "tick_batch list"
  | QC_disconnect queue_env
  | QC_snapshot snapshot_event
  | QC_availability bool
  | QC_broker nat trade_result

definition broker_update :: "nat \<Rightarrow> trade_result \<Rightarrow> trade_queue \<Rightarrow> trade_queue" where
  "broker_update i result q =
     (if i < length (tq_open q) \<and> async_operations_active (tq_open q ! i)
      then q\<lparr>tq_open := (tq_open q)[i := (tq_open q ! i)\<lparr>tx_result := result\<rparr>]\<rparr> else q)"

fun queue_do :: "trade_queue \<Rightarrow> queue_call \<Rightarrow> trade_queue" where
  "queue_do q (QC_add env request platform provided preprocess) = snd (add_trade env request platform provided preprocess q)"
| "queue_do q (QC_callback present) = set_trade_result_callback present q"
| "queue_do q (QC_process env) = queue_process env q"
| "queue_do q (QC_finalize env) = finalize_all_trades env q"
| "queue_do q (QC_price batches) = on_price_update batches q"
| "queue_do q (QC_disconnect env) = on_disconnect env q"
| "queue_do q (QC_snapshot ev) = on_snapshot ev q"
| "queue_do q (QC_availability ready) = on_availability ready q"
| "queue_do q (QC_broker i result) = broker_update i result q"

lemma broker_update_inv: "queue_inv q \<Longrightarrow> queue_inv (broker_update i result q)"
  by (auto simp: broker_update_def queue_inv_def async_operations_active_def list_all_length nth_list_update)

interpretation tq: machine queue_do "\<lambda>_. True" queue_inv
proof
  fix q c
  show "queue_inv q \<Longrightarrow> queue_inv (queue_do q c)"
    by (cases c) (simp_all add: add_trade_inv queue_process_inv finalize_all_inv on_price_update_inv on_disconnect_inv
      on_snapshot_inv on_availability_inv broker_update_inv, simp add: set_trade_result_callback_def queue_inv_def)
qed

lemma reachable_inv: "queue_inv (foldl queue_do (make_trade_queue r c) calls)"
  by (rule tq.run_inv [OF make_queue_inv]) (simp add: list_all_iff)

subsection \<open>Counts\<close>

text \<open>C7: After any calls, in any order, the queue's count of open trades is the number of its open transactions, the broker count is the number of its pending close times plus those of unknown time, and no published count is negative.\<close>

theorem queue_counts_exact:
  "let q = foldl queue_do (make_trade_queue require counter) calls
   in tq_local_open_trades q = int (length (tq_open q)) \<and>
      tq_snapshot_open_trades q = tq_snapshot_unknown_close q + int (length (tq_close_due q)) \<and>
      0 \<le> tq_snapshot_unknown_close q \<and> sorted (tq_close_due q) \<and>
      list_all (\<lambda>ev. case ev of QE_open_trades n src \<Rightarrow> 0 \<le> n | _ \<Rightarrow> True) (tq_log q)"
proof -
  define q where "q = foldl queue_do (make_trade_queue require counter) calls"
  note I = queue_invD [OF reachable_inv [of require counter calls, folded q_def]]
  have "list_all (\<lambda>ev. case ev of QE_open_trades n src \<Rightarrow> 0 \<le> n | _ \<Rightarrow> True) (tq_log q)"
    using I(8) by (auto simp: counts_ok_def list_all_iff split: queue_event.split)
  with I show ?thesis unfolding Let_def q_def by blast
qed

subsection \<open>Conservation of trades\<close>

lemma closing_terminals:
  "mset (terminals (closing_events env n c tx)) = (if closing_kept env tx = None then {#tx_request tx#} else {#})"
  by (auto simp: closing_events_def closing_kept_def closing_verdict_def is_terminal_state_def Let_def
      split: closing_verdict.split)

lemma closing_request: "closing_kept env tx = Some k \<Longrightarrow> tx_request k = tx_request tx"
  by (auto simp: closing_kept_def split: closing_verdict.splits)

lemma finalizing_terminals:
  "mset (terminals (finalizing_events n c tx)) = (if finalizing_kept tx = None then {#tx_request tx#} else {#})"
  by (simp add: finalizing_events_def finalizing_kept_def)

lemma finalizing_request: "finalizing_kept tx = Some k \<Longrightarrow> tx_request k = tx_request tx"
  by (simp add: finalizing_kept_def split: if_splits)

text \<open>The events appended by one call.\<close>

definition appended :: "trade_queue \<Rightarrow> trade_queue \<Rightarrow> queue_event list" where
  "appended q q' = drop (length (tq_log q)) (tq_log q')"

definition requests_of :: "trade_queue \<Rightarrow> trade_request multiset" where
  "requests_of q = mset (map tx_request (tq_pending q)) + mset (map tx_request (tq_open q))"

definition conserves :: "trade_request multiset \<Rightarrow> trade_queue \<Rightarrow> trade_queue \<Rightarrow> bool" where
  "conserves silent q q' \<longleftrightarrow> (\<exists>evs. tq_log q' = tq_log q @ evs \<and> requests_of q = mset (terminals evs) + silent + requests_of q')"

lemma conserves_trans: "conserves a q r \<Longrightarrow> conserves b r s \<Longrightarrow> conserves (a + b) q s"
  unfolding conserves_def
  by (elim exE conjE, rename_tac xs ys, rule_tac x = "xs @ ys" in exI) (simp add: ac_simps)

lemma closing_conserves:
  assumes "queue_inv q"
  shows "conserves {#} q (process_closing env q)"
proof -
  note P = cp.pass_open [OF queue_invD(1) [OF assms, symmetric], of env, folded process_closing_def]
  have "mset (map tx_request (tq_open q)) = mset (terminals (cp.pass_events env (current_open_trades q) (tq_result_callback q) (tq_open q))) +
      mset (map tx_request (List.map_filter (closing_kept env) (tq_open q)))"
    by (rule cp.pass_conserves [symmetric]) (simp_all add: closing_terminals closing_request)
  then have "requests_of q = mset (terminals (cp.pass_events env (current_open_trades q) (tq_result_callback q) (tq_open q))) + {#} +
      requests_of (process_closing env q)" by (simp add: requests_of_def P(1,4))
  then show ?thesis unfolding conserves_def using P(3) by blast
qed

lemma finalizing_conserves:
  assumes "queue_inv q"
  shows "conserves {#} q (process_finalizing env q)"
proof -
  note P = fp.pass_open [OF queue_invD(1) [OF assms, symmetric], of env, folded process_finalizing_def]
  have "mset (map tx_request (tq_open q)) = mset (terminals (fp.pass_events (current_open_trades q) (tq_result_callback q) (tq_open q))) +
      mset (map tx_request (List.map_filter finalizing_kept (tq_open q)))"
    by (rule fp.pass_conserves [symmetric]) (simp_all add: finalizing_terminals finalizing_request)
  then have "requests_of q = mset (terminals (fp.pass_events (current_open_trades q) (tq_result_callback q) (tq_open q))) + {#} +
      requests_of (process_finalizing env q)" by (simp add: requests_of_def P(1,4))
  then show ?thesis unfolding conserves_def using P(3) by blast
qed

lemma snapshot_conserves: "conserves {#} q (process_snapshot env q)"
proof -
  have "\<exists>evs. tq_log (process_snapshot env q) = tq_log q @ evs \<and> terminals evs = []"
    by (simp add: process_snapshot_def Let_def request_snapshot_refresh_def log_simps)
  then show ?thesis by (auto simp: conserves_def requests_of_def)
qed

lemma refused_terminal [simp]: "tres_trade_state (tx_result (refused_tx env tx)) = TS_OPEN_ERROR"
  by (simp add: refused_tx_def Let_def)

lemma sent_state [simp]: "tres_trade_state (tx_result (sent_tx env tx q)) = TS_WAITING_OPEN"
  by (simp add: sent_tx_def Let_def set_balance_def set_open_balance_def)

lemma send_conserves: "conserves {#} (q\<lparr>tq_pending := tx # rest\<rparr>) (send_transaction env tx (q\<lparr>tq_pending := rest\<rparr>))"
proof (cases "accepted env tx")
  case True
  let ?q = "q\<lparr>tq_pending := rest\<rparr>"
  have "terminals (sent_events env tx ?q) = []"
    by (simp add: sent_events_def Let_def is_terminal_state_def)
  then show ?thesis
    using send_accepted [OF True, of ?q] by (auto simp: conserves_def requests_of_def)
next
  case False
  then show ?thesis
    by (auto simp: send_refused conserves_def requests_of_def is_terminal_state_def intro!: exI)
qed

lemma pending_conserves:
  "conserves (mset (map tx_request (filter (expired env) (tq_pending q)))) q (snd (process_pending env q))"
proof -
  let ?live = "filter (\<lambda>tx. \<not> expired env tx) (tq_pending q)"
  have "mset (map tx_request (tq_pending q)) =
      mset (map tx_request (filter (expired env) (tq_pending q))) + mset (map tx_request ?live)"
    by (simp flip: image_mset_union mset_filter) (metis multiset_partition mset_filter)
  then have a: "conserves (mset (map tx_request (filter (expired env) (tq_pending q)))) q (q\<lparr>tq_pending := ?live\<rparr>)"
    by (simp add: conserves_def requests_of_def ac_simps)
  have "conserves {#} (q\<lparr>tq_pending := ?live\<rparr>) (snd (process_pending env q))"
  proof (cases ?live)
    case Nil
    then show ?thesis by (simp add: process_pending_cases conserves_def)
  next
    case (Cons tx rest)
    then show ?thesis using send_conserves [where q = q and tx = tx and rest = rest and env = env]
      by (auto simp: process_pending_cases conserves_def)
  qed
  from conserves_trans [OF a this] show ?thesis by simp
qed

lemma queue_conserves:
  assumes "queue_inv q"
  shows "conserves (mset (map tx_request (filter (expired env) (tq_pending q)))) q (queue_process env q)"
proof -
  define q1 where "q1 = process_snapshot env q"
  define q2 where "q2 = snd (process_pending env q1)"
  define q3 where "q3 = process_closing env q2"
  have i1: "queue_inv q1" using process_snapshot_facts(1) [OF assms] by (simp add: q1_def)
  have i2: "queue_inv q2" using process_pending_inv [OF i1] by (simp add: q2_def)
  have i3: "queue_inv q3" using process_closing_inv [OF i2] by (simp add: q3_def)
  have "tq_pending q1 = tq_pending q" by (simp add: q1_def)
  then have "conserves (mset (map tx_request (filter (expired env) (tq_pending q)))) q (process_finalizing env q3)"
    using conserves_trans [OF conserves_trans [OF conserves_trans [OF snapshot_conserves [of q env, folded q1_def]
      pending_conserves [of env q1, folded q2_def]] closing_conserves [OF i2, of env, folded q3_def]] finalizing_conserves [OF i3, of env]]
    by simp
  moreover have "process_finalizing env q3 = queue_process env q" by (simp add: queue_process_eq q1_def q2_def q3_def)
  ultimately show ?thesis by simp
qed

text \<open>C8: One turn of the event loop neither loses nor duplicates a trade: the trades that leave the queue are exactly those it reports in a terminal state, each once, together with the pending trades that waited longer than the order queue timeout, which it drops without reporting them.\<close>

theorem trades_conserved:
  "let q = foldl queue_do (make_trade_queue require counter) calls
   in \<exists>evs. tq_log (queue_process env q) = tq_log q @ evs \<and>
        requests_of q = requests_of (queue_process env q) + mset (terminals evs) +
          mset (map tx_request (filter (expired env) (tq_pending q)))"
  using queue_conserves [OF reachable_inv] by (simp add: Let_def conserves_def ac_simps)

subsection \<open>Orders\<close>

definition is_order :: "queue_event \<Rightarrow> bool" where
  "is_order ev = (case ev of QE_trade_request rq rs \<Rightarrow> True | _ \<Rightarrow> False)"

lemma is_order_simps [simp]:
  "is_order (QE_trade_request rq rs)" "\<not> is_order (QE_open_trades n src)" "\<not> is_order (QE_transaction rq rs)"
  "\<not> is_order (QE_callback cb rq rs)" "\<not> is_order (QE_trade_result rq rs)" "\<not> is_order (QE_trade_status rq rs)"
  "\<not> is_order (QE_snapshot_refresh s)"
  by (simp_all add: is_order_def)

lemma orders_dispatch [simp]: "filter is_order (dispatch_events c tx) = []"
  by (auto simp: dispatch_events_def filter_empty_conv)

lemma orders_sent [simp]:
  "filter is_order (sent_events env tx q) = [QE_trade_request (tx_request tx) (tx_result (sent_tx env tx q))]"
  by (simp add: sent_events_def Let_def)

lemma orders_closing: "filter is_order (closing_events env n c tx) = []"
  by (simp add: closing_events_def split: closing_verdict.split)

lemma orders_finalizing: "filter is_order (finalizing_events n c tx) = []"
  by (simp add: finalizing_events_def)

definition orders :: "trade_queue \<Rightarrow> queue_event list" where "orders q = filter is_order (tq_log q)"

lemma orders_process:
  assumes "queue_inv q"
  shows "orders (queue_process env q) = orders (snd (process_pending env (process_snapshot env q)))"
    and "tq_last_order_time (queue_process env q) = tq_last_order_time (snd (process_pending env (process_snapshot env q)))"
    and "tq_has_sent_order (queue_process env q) = tq_has_sent_order (snd (process_pending env (process_snapshot env q)))"
proof -
  define p where "p = snd (process_pending env (process_snapshot env q))"
  have i: "queue_inv p" unfolding p_def by (intro process_pending_inv process_snapshot_facts assms)
  have i2: "queue_inv (process_closing env p)" by (rule process_closing_inv [OF i])
  note C = cp.pass_open [OF queue_invD(1) [OF i, symmetric], of env, folded process_closing_def]
  note F = fp.pass_open [OF queue_invD(1) [OF i2, symmetric], of env, folded process_finalizing_def]
  have e: "filter is_order (cp.pass_events env n c txs) = []" "filter is_order (fp.pass_events n c txs) = []" for n c txs
    by (rule cp.pass_only [OF orders_closing], rule fp.pass_only [OF orders_finalizing])
  show "orders (queue_process env q) = orders p" by (simp add: queue_process_eq orders_def C F e flip: p_def)
  show "tq_last_order_time (queue_process env q) = tq_last_order_time p" "tq_has_sent_order (queue_process env q) = tq_has_sent_order p"
    by (simp_all add: queue_process_eq C F flip: p_def)
qed

lemma orders_snapshot: "orders (process_snapshot env q) = orders q"
  by (simp add: process_snapshot_def Let_def request_snapshot_refresh_def log_simps orders_def)

text \<open>The first pending transaction that has not expired, when it may go out now.\<close>

definition next_order :: "queue_env \<Rightarrow> trade_queue \<Rightarrow> transaction option" where
  "next_order env q =
     (case filter (\<lambda>tx. \<not> expired env tx) (tq_pending q) of
        [] \<Rightarrow> None
      | tx # rest \<Rightarrow> if may_send env q \<and> below_max env tx \<and> accepted env tx then Some tx else None)"

lemma orders_pending:
  "case next_order env q of
     None \<Rightarrow> orders (snd (process_pending env q)) = orders q \<and>
       tq_last_order_time (snd (process_pending env q)) = tq_last_order_time q \<and>
       tq_has_sent_order (snd (process_pending env q)) = tq_has_sent_order q
   | Some tx \<Rightarrow> (\<exists>result. orders (snd (process_pending env q)) = orders q @ [QE_trade_request (tx_request tx) result] \<and>
         tres_trade_state result = TS_WAITING_OPEN \<and> tres_error_code result = TEC_SUCCESS) \<and>
       tq_last_order_time (snd (process_pending env q)) = qe_steady_ns env \<and> tq_has_sent_order (snd (process_pending env q))"
proof (cases "filter (\<lambda>tx. \<not> expired env tx) (tq_pending q)")
  case Nil
  then show ?thesis by (simp add: process_pending_cases next_order_def orders_def)
next
  case (Cons tx rest)
  show ?thesis
  proof (cases "may_send env q \<and> below_max env tx \<and> accepted env tx")
    case True
    let ?q = "q\<lparr>tq_pending := rest\<rparr>"
    have e: "tres_error_code (tx_result (sent_tx env tx ?q)) = TEC_SUCCESS"
      by (simp add: sent_tx_def Let_def set_balance_def set_open_balance_def)
    show ?thesis
      using True e send_accepted [of env tx ?q]
      by (auto simp: process_pending_cases next_order_def Cons orders_def)
  next
    case False
    then show ?thesis
      by (auto simp: process_pending_cases next_order_def Cons orders_def send_refused)
  qed
qed

lemma next_order_snapshot [simp]: "next_order env (process_snapshot env q) = next_order env q"
  by (simp add: next_order_def may_send_def split: list.split)

text \<open>C9: One turn of the event loop sends an order exactly when the first pending trade that has not expired may go out: no snapshot is missing, the order interval since the last order has passed, the broker's limit of open trades is not reached and the request is valid; it then sends that one order only, in state WAITING_OPEN, and the interval starts again.\<close>

theorem order_admission_exact:
  "let q = foldl queue_do (make_trade_queue require counter) calls; q' = queue_process env q
   in case next_order env q of
        None \<Rightarrow> orders q' = orders q \<and> tq_last_order_time q' = tq_last_order_time q \<and>
          tq_has_sent_order q' = tq_has_sent_order q
      | Some tx \<Rightarrow> (\<exists>result. orders q' = orders q @ [QE_trade_request (tx_request tx) result] \<and>
            tres_trade_state result = TS_WAITING_OPEN \<and> tres_error_code result = TEC_SUCCESS) \<and>
          tq_last_order_time q' = qe_steady_ns env \<and> tq_has_sent_order q'"
  using orders_pending [of env "process_snapshot env (foldl queue_do (make_trade_queue require counter) calls)"]
  by (simp add: Let_def orders_process [OF reachable_inv] orders_snapshot cong: option.case_cong)

text \<open>C10: While a broker snapshot is required and missing, no order is sent, connected or not.\<close>

theorem snapshot_fence:
  assumes "tq_require_snapshot q" and "\<not> tq_snapshot_ready q" and "queue_inv q"
  shows "orders (queue_process env q) = orders q"
proof -
  have "next_order env q = None"
  proof (cases "ad_bool (qe_account env) (info_request AIT_CONNECTION_STATUS 0)")
    case True
    then show ?thesis using assms by (simp add: next_order_def may_send_def split: list.split)
  next
    case False
    have "\<not> accepted env tx" for tx
      using False by (simp add: accepted_def validate_request_def Let_def)
    then show ?thesis by (simp add: next_order_def split: list.split)
  qed
  then show ?thesis
    using orders_pending [of env "process_snapshot env q"] assms(3) by (simp add: orders_process orders_snapshot)
qed

text \<open>Between two orders the queue waits for the order interval of the account, whatever else happens to it, as long as it is not emptied by a forced end or a disconnect.\<close>

fun keeps_pace :: "queue_call \<Rightarrow> bool" where
  "keeps_pace (QC_process env) = False"
| "keeps_pace (QC_finalize env) = False"
| "keeps_pace (QC_disconnect env) = False"
| "keeps_pace _ = True"

definition pace :: "trade_queue \<Rightarrow> int \<times> bool" where
  "pace q = (tq_last_order_time q, tq_has_sent_order q)"

lemma pace_simps [simp]:
  "pace (request_snapshot_refresh s q) = pace q" "pace (emit_open_trades src q) = pace q"
  "pace (q\<lparr>tq_refresh_requested := b\<rparr>) = pace q"
  by (simp_all add: pace_def request_snapshot_refresh_def log_simps)

lemma pace_dispatches: "pace (foldl (\<lambda>q tx. dispatch_trade_event tx q) q txs) = pace q"
  by (induction txs arbitrary: q) (simp_all add: dispatch_log pace_def)

lemma pace_price_loop: "price_loop batches txs q = (txs', q') \<Longrightarrow> pace q' = pace q"
proof (induction txs arbitrary: q txs' q')
  case (Cons tx txs)
  obtain tx1 q1 threw where s: "price_step batches tx q = (tx1, q1, threw)" by (metis prod.collapse)
  obtain rest q2 where w: "price_loop batches txs q1 = (rest, q2)" by (metis prod.collapse)
  have "pace q1 = pace q" using price_step_frame [OF s] pace_dispatches by metis
  then show ?case using Cons.prems Cons.IH [OF w] by (auto simp: s w split: if_splits)
qed simp

lemma pace_kept:
  assumes "keeps_pace c"
  shows "pace (queue_do q c) = pace q"
proof (cases c)
  case (QC_add env req pl provided pre)
  then show ?thesis using add_trade_cases [of env req pl provided pre q] by (auto simp: pace_def)
next
  case (QC_price batches)
  obtain txs q' where "price_loop batches (tq_open q) q = (txs, q')" by (metis prod.collapse)
  with pace_price_loop [OF this] QC_price show ?thesis by (simp add: on_price_update_def pace_def)
next
  case (QC_snapshot ev)
  then show ?thesis by (simp add: on_snapshot_eq Let_def) (simp add: pace_def)
next
  case (QC_availability ready)
  then show ?thesis by (simp add: on_availability_def clear_snapshot_open_trades_def Let_def pace_def)
next
  case (QC_callback present)
  then show ?thesis by (simp add: set_trade_result_callback_def pace_def)
next
  case (QC_broker i result)
  then show ?thesis by (simp add: broker_update_def pace_def)
qed (use assms in simp_all)

lemma pace_kept_run: "list_all keeps_pace calls \<Longrightarrow> pace (foldl queue_do q calls) = pace q"
  by (induction calls arbitrary: q) (simp_all add: pace_kept)

text \<open>After an order, the next one goes out only when the order interval has passed on the steady clock, whatever calls other than a turn of the event loop, a forced end or a disconnect come in between.\<close>

theorem order_interval_respected:
  assumes "queue_inv q" and "orders (queue_process env q) \<noteq> orders q"
    and "list_all keeps_pace calls" and "q1 = foldl queue_do (queue_process env q) calls"
    and "orders (queue_process env' q1) \<noteq> orders q1"
  shows "ad_int64 (qe_account env') (info_request AIT_ORDER_INTERVAL_MS 0) \<le> (qe_steady_ns env' - qe_steady_ns env) sdiv 1000000"
proof -
  have i1: "queue_inv q1" unfolding assms(4)
    by (rule tq.run_inv [OF queue_process_inv [OF assms(1)]]) (simp add: list_all_iff)
  from orders_pending [of env "process_snapshot env q"] assms(2)
  have "pace (queue_process env q) = (qe_steady_ns env, True)"
    by (auto simp: orders_process [OF assms(1)] orders_snapshot pace_def split: option.splits)
  then have p: "pace q1 = (qe_steady_ns env, True)" by (simp add: assms(4) pace_kept_run [OF assms(3)])
  from orders_pending [of env' "process_snapshot env' q1"] assms(5)
  have "next_order env' q1 \<noteq> None"
    by (auto simp: orders_process [OF i1] orders_snapshot split: option.splits)
  then have "may_send env' q1" by (auto simp: next_order_def split: list.splits if_splits)
  then show ?thesis using p by (simp add: may_send_def pace_def elapsed_ms_def)
qed

subsection \<open>Closing\<close>

text \<open>A transaction that is to end: it reached a terminal state, or it is open and has no close date, or its close date
  and the response timeout are over.\<close>

definition due :: "queue_env \<Rightarrow> transaction \<Rightarrow> bool" where
  "due env tx \<longleftrightarrow>
     tres_trade_state (tx_result tx) \<in> {TS_OPEN_ERROR, TS_CHECK_ERROR, TS_WIN, TS_LOSS, TS_STANDOFF, TS_REFUND} \<or>
     tres_trade_state (tx_result tx) \<in> {TS_OPEN_SUCCESS, TS_IN_PROGRESS, TS_WAITING_CLOSE} \<and>
     (let close_date = calculate_close_date (qe_lib env) (tx_result tx) (tx_request tx)
      in close_date = 0 \<or> close_date \<le> qe_now_ms env \<and>
         close_date + get_response_timeout (qe_lib env) (qe_account env) < qe_now_ms env)"

text \<open>A broker that has nothing to say: no status callback changes a result.\<close>

definition silent_broker :: "queue_env \<Rightarrow> bool" where
  "silent_broker env \<longleftrightarrow> (\<forall>tx. qe_on_status env tx = tx_result tx)"

lemma set_states_close_date [simp]:
  "calculate_close_date L (tx_result (set_states st tx)) req = calculate_close_date L (tx_result tx) req"
  by (simp add: set_states_def calculate_close_date_def)

lemma process_open:
  assumes "queue_inv q"
  shows "tq_open (queue_process env q) =
    List.map_filter finalizing_kept (List.map_filter (closing_kept env) (tq_open (snd (process_pending env (process_snapshot env q)))))"
proof -
  define p where "p = snd (process_pending env (process_snapshot env q))"
  have i: "queue_inv p" unfolding p_def by (intro process_pending_inv process_snapshot_facts assms)
  have i2: "queue_inv (process_closing env p)" by (rule process_closing_inv [OF i])
  show ?thesis
    using cp.pass_open(1) [OF queue_invD(1) [OF i, symmetric], of env] fp.pass_open(1) [OF queue_invD(1) [OF i2, symmetric], of env]
    by (simp add: queue_process_eq process_closing_def process_finalizing_def flip: p_def)
qed

lemma map_filter_set: "set (List.map_filter f xs) = {y. \<exists>x \<in> set xs. f x = Some y}"
  by (force simp: map_filter_def)

text \<open>No transaction in a terminal state stays in the queue after a turn of the event loop.\<close>

theorem no_terminal_left:
  "let q = foldl queue_do (make_trade_queue require counter) calls
   in list_all (\<lambda>tx. \<not> is_terminal_state (tres_trade_state (tx_result tx))) (tq_open (queue_process env q))"
  by (auto simp: Let_def process_open [OF reachable_inv] list_all_iff map_filter_set finalizing_kept_def split: if_splits)

text \<open>One turn of the event loop for a transaction, when nothing is pending.\<close>

definition after_turn :: "queue_env \<Rightarrow> transaction \<Rightarrow> transaction option" where
  "after_turn env tx = Option.bind (closing_kept env tx) finalizing_kept"

lemma map_filter_bind: "List.map_filter f (List.map_filter g xs) = List.map_filter (\<lambda>x. Option.bind (g x) f) xs"
  by (induction xs) (simp_all add: map_filter_simps split: option.splits)

lemma turn_open:
  assumes "queue_inv q" and "tq_pending q = []"
  shows "tq_open (queue_process env q) = List.map_filter (after_turn env) (tq_open q)"
    and "tq_pending (queue_process env q) = []"
proof -
  have p: "snd (process_pending env (process_snapshot env q)) = process_snapshot env q"
    using assms(2) by (simp add: process_pending_def)
  show "tq_open (queue_process env q) = List.map_filter (after_turn env) (tq_open q)"
    using assms by (simp add: process_open p map_filter_bind after_turn_def [abs_def])
  have i: "queue_inv (process_snapshot env q)" by (rule process_snapshot_facts(1) [OF assms(1)])
  have i2: "queue_inv (process_closing env (process_snapshot env q))" by (rule process_closing_inv [OF i])
  show "tq_pending (queue_process env q) = []"
    using cp.pass_open(4) [OF queue_invD(1) [OF i, symmetric], of env] fp.pass_open(4) [OF queue_invD(1) [OF i2, symmetric], of env] assms(2)
    by (simp add: queue_process_eq process_closing_def process_finalizing_def p)
qed

text \<open>What one turn makes of a transaction when the broker changes nothing.\<close>

lemma after_turn_silent:
  assumes "silent_broker env"
  shows "after_turn env tx =
    (if tres_trade_state (tx_result tx) = TS_OPEN_SUCCESS then Some (set_states TS_IN_PROGRESS tx)
     else if due env tx then None
     else if tres_trade_state (tx_result tx) = TS_IN_PROGRESS \<and>
       calculate_close_date (qe_lib env) (tx_result tx) (tx_request tx) \<le> qe_now_ms env
     then Some (set_states TS_WAITING_CLOSE tx) else Some tx)"
proof -
  have w: "waiting_tx env tx = set_states TS_WAITING_CLOSE tx"
    using assms by (simp add: waiting_tx_def silent_broker_def Let_def)
  show ?thesis
    by (auto simp: after_turn_def closing_kept_def closing_verdict_def due_def finalizing_kept_def w Let_def
        is_closable_state_def is_transition_to_waiting_close_def is_terminal_state_def)
qed

lemma due_set_states: "st = TS_IN_PROGRESS \<or> st = TS_WAITING_CLOSE \<Longrightarrow> is_closable_state (tres_trade_state (tx_result tx)) \<Longrightarrow>
    due env (set_states st tx) = due env tx"
  by (auto simp: due_def is_closable_state_def is_terminal_state_def)

lemma after_two_turns:
  assumes "silent_broker env1" "silent_broker env2" "qe_lib env1 = qe_lib env2" "qe_account env1 = qe_account env2"
    and "qe_now_ms env1 \<le> qe_now_ms env2"
  shows "Option.bind (after_turn env1 tx) (after_turn env2) = None \<longleftrightarrow> due env2 tx"
    and "Option.bind (after_turn env1 tx) (after_turn env2) = Some tx' \<Longrightarrow> tx_request tx' = tx_request tx"
proof -
  have mono: "due env1 tx \<Longrightarrow> due env2 tx" using assms(3-5) by (auto simp: due_def Let_def)
  show "Option.bind (after_turn env1 tx) (after_turn env2) = None \<longleftrightarrow> due env2 tx"
    using mono by (auto simp: after_turn_silent assms due_set_states is_closable_state_def)
  show "Option.bind (after_turn env1 tx) (after_turn env2) = Some tx' \<Longrightarrow> tx_request tx' = tx_request tx"
    by (auto simp: after_turn_silent assms split: if_splits)
qed

text \<open>C11: When the broker falls silent and nothing is pending, two turns of the event loop end exactly the transactions
  that are due: those in a terminal state, and those that are opened, in progress or waiting to close and have no close
  date or passed it by more than the response timeout. Each of them is reported exactly once in a terminal state, and
  every other transaction stays open, in order. In particular a transaction that still waits for the broker to open it
  is never due, whatever the time: no timeout ends it.\<close>

theorem overdue_queue_drains:
  assumes "queue_inv q" and "tq_pending q = []"
    and "silent_broker env1" "silent_broker env2" "qe_lib env1 = qe_lib env2" "qe_account env1 = qe_account env2"
    and "qe_now_ms env1 \<le> qe_now_ms env2"
  shows "let q' = queue_process env2 (queue_process env1 q) in
    map tx_request (tq_open q') = map tx_request (filter (\<lambda>tx. \<not> due env2 tx) (tq_open q)) \<and>
    (\<exists>evs. tq_log q' = tq_log q @ evs \<and>
       mset (terminals evs) = mset (map tx_request (filter (due env2) (tq_open q))))"
proof -
  let ?q = "queue_process env1 q"
  have i: "queue_inv ?q" by (rule queue_process_inv [OF assms(1)])
  note P = turn_open [OF assms(1,2), of env1] and t = after_two_turns [OF assms(3-7)]
  note P2 = turn_open [OF i P(2), of env2]
  have "map tx_request (List.map_filter (\<lambda>tx. Option.bind (after_turn env1 tx) (after_turn env2)) txs) =
      map tx_request (filter (\<lambda>tx. \<not> due env2 tx) txs)" for txs
  proof (induction txs)
    case (Cons tx txs)
    show ?case
    proof (cases "Option.bind (after_turn env1 tx) (after_turn env2)")
      case None
      with t(1) [of tx] Cons.IH show ?thesis by (simp add: map_filter_simps)
    next
      case (Some tx')
      then have "\<not> due env2 tx" using t(1) [of tx] by simp
      with Some t(2) [OF Some] Cons.IH show ?thesis by (simp add: map_filter_simps)
    qed
  qed (simp add: map_filter_simps)
  then have ob: "map tx_request (tq_open (queue_process env2 ?q)) = map tx_request (filter (\<lambda>tx. \<not> due env2 tx) (tq_open q))"
    by (simp add: P2(1) P(1) map_filter_bind)
  have "conserves {#} q (queue_process env2 ?q)"
    using conserves_trans [OF queue_conserves [OF assms(1), of env1] queue_conserves [OF i, of env2]] assms(2) P(2) by simp
  then obtain evs where e: "tq_log (queue_process env2 ?q) = tq_log q @ evs"
    "mset (map tx_request (tq_open q)) = mset (terminals evs) + mset (map tx_request (tq_open (queue_process env2 ?q)))"
    using assms(2) P2(2) by (auto simp: conserves_def requests_of_def)
  have "mset (map tx_request (tq_open q)) =
      mset (map tx_request (filter (due env2) (tq_open q))) + mset (map tx_request (filter (\<lambda>tx. \<not> due env2 tx) (tq_open q)))"
    by (simp flip: image_mset_union add: mset_filter)
  with e(2) ob have "mset (terminals evs) = mset (map tx_request (filter (due env2) (tq_open q)))" by simp
  with ob e(1) show ?thesis by (auto simp: Let_def)
qed

subsection \<open>The forced end\<close>

definition is_report :: "queue_event \<Rightarrow> bool" where
  "is_report ev = (case ev of QE_transaction rq rs \<Rightarrow> True | _ \<Rightarrow> False)"

lemma is_report_simps [simp]:
  "is_report (QE_transaction rq rs)" "\<not> is_report (QE_open_trades n src)" "\<not> is_report (QE_trade_request rq rs)"
  "\<not> is_report (QE_callback cb rq rs)" "\<not> is_report (QE_trade_result rq rs)" "\<not> is_report (QE_trade_status rq rs)"
  by (simp_all add: is_report_def)

lemma reports_dispatch [simp]: "filter is_report (dispatch_events c tx) = [QE_transaction (tx_request tx) (tx_result tx)]"
  by (auto simp: dispatch_events_def filter_empty_conv)

lemma reports_pending: "filter is_report (concat (map (\<lambda>tx. dispatch_events c (f tx)) txs)) =
    map (\<lambda>tx. QE_transaction (tx_request (f tx)) (tx_result (f tx))) txs"
  by (induction txs) simp_all

lemma reports_force: "filter is_report (force_events env n c txs) =
    map (\<lambda>tx. QE_transaction (tx_request (forced env TS_CHECK_ERROR tx)) (tx_result (forced env TS_CHECK_ERROR tx))) txs"
  by (induction txs arbitrary: n) simp_all

lemma forced_fields [simp]:
  "tx_request (forced env st tx) = tx_request tx" "tres_trade_state (tx_result (forced env st tx)) = st"
  "tres_error_code (tx_result (forced env st tx)) = TEC_CLIENT_FORCED_CLOSE"
  "tres_trade_id (tx_result (forced env st tx)) = tres_trade_id (tx_result tx)"
  by (simp_all add: forced_def)

text \<open>C12: A forced end empties the queue and reports every trade it held exactly once, in order, as closed by the client: the pending ones with OPEN_ERROR, then the open ones with CHECK_ERROR. No open trade is counted afterwards.\<close>

theorem forced_end_reports_all:
  "let q = foldl queue_do (make_trade_queue require counter) calls; q' = finalize_all_trades env q;
       report = (\<lambda>st tx. (tx_request tx, tres_trade_id (tx_result tx), st, TEC_CLIENT_FORCED_CLOSE))
   in tq_pending q' = [] \<and> tq_open q' = [] \<and> current_open_trades q' = 0 \<and>
      map (\<lambda>ev. case ev of QE_transaction rq rs \<Rightarrow> (rq, tres_trade_id rs, tres_trade_state rs, tres_error_code rs))
        (filter is_report (drop (length (tq_log q)) (tq_log q'))) =
      map (report TS_OPEN_ERROR) (tq_pending q) @ map (report TS_CHECK_ERROR) (tq_open q)"
proof -
  define q where "q = foldl queue_do (make_trade_queue require counter) calls"
  note F = finalize_all_frame [OF reachable_inv [of require counter calls, folded q_def], of env]
  show ?thesis
    by (simp add: Let_def F reports_pending reports_force comp_def current_open_trades_def flip: q_def)
qed

subsection \<open>The broker snapshot\<close>

lemma add_close_buffer_saturates:
  assumes "0 < t" "t \<le> i64_max" "0 \<le> b" "b \<le> i64_max"
  shows "add_close_buffer t b = min i64_max (t + b)"
  using assms by (simp add: add_close_buffer_def min_def)

lemma takeWhile_sorted:
  assumes "sorted xs"
  shows "takeWhile (\<lambda>t. t \<le> (now :: int)) xs = filter (\<lambda>t. t \<le> now) xs"
  using assms by (induction xs) (auto simp: filter_empty_conv eq_commute [of "[]"])

lemma process_snapshot_open: 
  assumes "queue_inv q"
  shows "tq_snapshot_open_trades (queue_process env q) = tq_snapshot_open_trades (process_snapshot env q)"
proof -
  define p where "p = snd (process_pending env (process_snapshot env q))"
  have i: "queue_inv p" unfolding p_def by (intro process_pending_inv process_snapshot_facts assms)
  have i2: "queue_inv (process_closing env p)" by (rule process_closing_inv [OF i])
  have send: "tq_snapshot_open_trades (send_transaction env tx r) = tq_snapshot_open_trades r" for tx r
    using send_accepted [of env tx r] by (cases "accepted env tx") (auto simp: send_refused)
  have "tq_snapshot_open_trades p = tq_snapshot_open_trades (process_snapshot env q)"
    by (simp add: p_def process_pending_cases send split: list.split)
  then show ?thesis
    using cp.pass_open(5) [OF queue_invD(1) [OF i, symmetric], of env] fp.pass_open(5) [OF queue_invD(1) [OF i2, symmetric], of env]
    by (simp add: queue_process_eq process_closing_def process_finalizing_def flip: p_def)
qed

text \<open>After an accepted broker snapshot with no more close times than trades, a turn of the event loop counts as still open exactly the trades whose close time, the buffer added without overflow, has not passed, and those of unknown close time.\<close>

theorem snapshot_counts_down:
  assumes "queue_inv q" and "snapshot_accepted q" and "0 \<le> sne_close_buffer_ms ev" and "sne_close_buffer_ms ev \<le> i64_max"
    and "\<forall>t \<in> set (sne_close_times_ms ev). t \<le> i64_max"
    and "int (length (filter (\<lambda>t. 0 < t) (sne_close_times_ms ev))) \<le> sne_open_trades ev"
  shows "tq_snapshot_open_trades (queue_process env (on_snapshot ev q)) =
    sne_open_trades ev - int (length (filter (\<lambda>t. 0 < t \<and> min i64_max (t + sne_close_buffer_ms ev) \<le> qe_now_ms env) (sne_close_times_ms ev)))"
proof -
  let ?b = "sne_close_buffer_ms ev" and ?ts = "sne_close_times_ms ev"
  have i: "queue_inv (on_snapshot ev q)" by (rule on_snapshot_inv [OF assms(1)])
  have f: "tq_snapshot_open_trades (on_snapshot ev q) = max 0 (sne_open_trades ev)" "tq_close_due (on_snapshot ev q) = snapshot_times ev"
    using assms(2) by (simp_all add: on_snapshot_eq Let_def request_snapshot_refresh_def log_simps)
  have n: "0 \<le> sne_open_trades ev" using assms(6) by linarith
  have "length (filter (\<lambda>t. 0 < t) ?ts) \<le> nat (sne_open_trades ev)" using assms(6) by simp
  then have t: "snapshot_times ev = sort (map (\<lambda>t. add_close_buffer t ?b) (filter (\<lambda>t. 0 < t) ?ts))"
    using assms(3) by (simp add: snapshot_times_def)
  have "length (filter (\<lambda>t. t \<le> qe_now_ms env) (snapshot_times ev)) =
      length (filter (\<lambda>t. add_close_buffer t ?b \<le> qe_now_ms env) (filter (\<lambda>t. 0 < t) ?ts))"
    by (simp add: t filter_sort filter_map comp_def)
  also have "filter (\<lambda>t. add_close_buffer t ?b \<le> qe_now_ms env) (filter (\<lambda>t. 0 < t) ?ts) =
      filter (\<lambda>t. 0 < t \<and> min i64_max (t + ?b) \<le> qe_now_ms env) ?ts"
    unfolding filter_filter using assms(3-5) by (intro filter_cong) (auto simp: add_close_buffer_saturates)
  finally show ?thesis
    using process_snapshot_facts(2) [OF i, of env] n
    by (simp add: process_snapshot_open [OF i] due_closed_def f takeWhile_sorted [OF snapshot_times_sorted])
qed

subsection \<open>Identifiers\<close>

fun trade_ids :: "nat \<Rightarrow> u32 \<Rightarrow> u32 list" where
  "trade_ids 0 c = []"
| "trade_ids (Suc n) c = (let (i, c') = make_trade_id c in i # trade_ids n c')"

definition id_position :: "u32 \<Rightarrow> int" where
  "id_position c = (if c = 0 then 0 else uint c - 1)"

lemma id_position_step:
  "uint (fst (make_trade_id c)) = id_position c + 1 \<and>
   id_position (snd (make_trade_id c)) = (id_position c + 1) mod 4294967295 \<and> 0 \<le> id_position c \<and> id_position c < 4294967295"
proof -
  have u: "0 \<le> uint c" "uint c < 4294967296" using uint_lt2p [of c] by simp_all
  show ?thesis
  proof (cases "c = 0 \<or> c = 4294967295")
    case True
    then show ?thesis by (auto simp: make_trade_id_def id_position_def)
  next
    case False
    have c: "uint c \<noteq> 0" "uint c \<noteq> 4294967295"
      using False word_uint_eq_iff [of c 0] word_uint_eq_iff [of c 4294967295] by simp_all
    then have s: "uint (c + 1) = uint c + 1" using u by (simp add: uint_word_ariths)
    then have "c + 1 \<noteq> 0" using u by (metis add_nonneg_eq_0_iff uint_0_iff zero_le_one zero_neq_one)
    then have "id_position c = uint c - 1" "make_trade_id c = (c, c + 1)" "id_position (c + 1) = uint c"
      using False s by (simp_all add: id_position_def make_trade_id_def)
    moreover have "uint c mod 4294967295 = uint c" using c u by (intro mod_pos_pos_trivial) linarith+
    moreover have "0 < uint c" "uint c < 4294967295" using c u by linarith+
    ultimately show ?thesis by (intro conjI) simp_all
  qed
qed

lemma trade_ids_nth:
  "k < n \<Longrightarrow> uint (trade_ids n c ! k) = (id_position c + int k) mod 4294967295 + 1"
proof (induction n arbitrary: c k)
  case (Suc n)
  obtain i c' where m: "make_trade_id c = (i, c')" by (metis prod.collapse)
  note S = id_position_step [of c, unfolded m fst_conv snd_conv]
  show ?case
  proof (cases k)
    case 0
    then show ?thesis using S by (simp add: m)
  next
    case (Suc j)
    then have "uint (trade_ids n c' ! j) = ((id_position c + 1) mod 4294967295 + int j) mod 4294967295 + 1"
      using Suc.IH [of j c'] Suc.prems S by simp
    then show ?thesis using Suc by (simp add: m mod_add_right_eq ac_simps)
  qed
qed simp

lemma trade_ids_length [simp]: "length (trade_ids n c) = n"
  by (induction n arbitrary: c) (simp_all split: prod.split)

text \<open>Trade identifiers are never 0, and any 4294967295 of them made in a row are pairwise distinct, the wrap of the counter included.\<close>

theorem trade_ids_distinct:
  assumes "n \<le> 4294967295"
  shows "distinct (trade_ids n c) \<and> 0 \<notin> set (trade_ids n c)"
proof
  show "distinct (trade_ids n c)"
    unfolding distinct_conv_nth
  proof (intro allI impI notI)
    fix i j
    assume ij: "i < length (trade_ids n c)" "j < length (trade_ids n c)" "i \<noteq> j" "trade_ids n c ! i = trade_ids n c ! j"
    then have "(id_position c + int i) mod 4294967295 = (id_position c + int j) mod 4294967295"
      using trade_ids_nth [of i n c] trade_ids_nth [of j n c] by simp
    then have "(4294967295 :: int) dvd int i - int j" by (metis add_diff_cancel_left mod_eq_dvd_iff)
    moreover have "\<bar>int i - int j\<bar> < 4294967295" using ij(1,2) assms by simp linarith?
    ultimately show False using ij(3) by (metis abs_of_nonneg dvd_imp_le_int eq_iff_diff_eq_0 int_int_eq linorder_not_less zero_le_numeral)
  qed
  show "0 \<notin> set (trade_ids n c)"
  proof
    assume "0 \<in> set (trade_ids n c)"
    then obtain k where "k < n" "trade_ids n c ! k = 0" by (auto simp: in_set_conv_nth)
    then have "0 = (id_position c + int k) mod 4294967295 + 1" using trade_ids_nth [of k n c] by simp
    moreover have "0 \<le> (id_position c + int k) mod 4294967295" by simp
    ultimately show False by linarith
  qed
qed

subsection \<open>Samples\<close>

text \<open>An account that admits everything, with 30 seconds to wait in the queue, 10 for an answer and 100 ms between orders.\<close>

definition sample_account :: account_data where
  "sample_account = \<lparr>ad_bool = (\<lambda>r. True),
     ad_int64 = (\<lambda>r. if air_type r = AIT_ORDER_QUEUE_TIMEOUT then 30 else if air_type r = AIT_RESPONSE_TIMEOUT then 10
       else if air_type r = AIT_ORDER_INTERVAL_MS then 100 else if air_type r = AIT_MAX_TRADES then 5 else 0),
     ad_f64 = (\<lambda>r. 0)\<rparr>"

definition sample_env :: "int \<Rightarrow> queue_env" where
  "sample_env now = \<lparr>qe_lib = sample_time_shield, qe_account = sample_account, qe_now_ms = now, qe_steady_ns = now * 1000000,
     qe_on_request = (\<lambda>tx. (tx_result tx)\<lparr>tres_trade_state := TS_OPEN_SUCCESS, tres_open_date := now\<rparr>),
     qe_on_status = tx_result\<rparr>"

definition sample_request :: trade_request where
  "sample_request = trade_request_default\<lparr>treq_symbol := ''EURUSD'', treq_option_type := OPT_SPRINT, treq_order_type := ORD_BUY,
     treq_account_type := ACC_DEMO, treq_currency := CUR_USD, treq_duration := 60\<rparr>"

definition sample_queue :: "int \<Rightarrow> trade_queue" where
  "sample_queue now = foldl queue_do (make_trade_queue False 1)
     [QC_add (sample_env now) (Some sample_request) PT_SIMULATOR None (\<lambda>rq rs. Some (rq, rs)),
      QC_add (sample_env now) (Some sample_request) PT_SIMULATOR None (\<lambda>rq rs. Some (rq, rs))]"

lemma sample_queue_inv: "queue_inv (sample_queue now)"
  unfolding sample_queue_def by (rule reachable_inv)

lemma sample_open_inv: "queue_inv (queue_process (sample_env 1000) (sample_queue 1000))"
  by (rule queue_process_inv [OF sample_queue_inv])

theorem snapshot_fence_witness:
  "orders (queue_process (sample_env 1000) ((sample_queue 1000)\<lparr>tq_require_snapshot := True, tq_snapshot_ready := False\<rparr>)) = []"
proof -
  have "queue_inv ((sample_queue 1000)\<lparr>tq_require_snapshot := True, tq_snapshot_ready := False\<rparr>)"
    using sample_queue_inv [of 1000] by (simp add: queue_inv_def)
  moreover have "orders ((sample_queue 1000)\<lparr>tq_require_snapshot := True, tq_snapshot_ready := False\<rparr>) = []" by code_simp
  ultimately show ?thesis
    using snapshot_fence [of "(sample_queue 1000)\<lparr>tq_require_snapshot := True, tq_snapshot_ready := False\<rparr>" "sample_env 1000"] by simp
qed

theorem order_interval_respected_witness:
  "(100 :: int) \<le> (qe_steady_ns (sample_env 1200) - qe_steady_ns (sample_env 1000)) sdiv 1000000"
proof -
  let ?q = "queue_do (queue_process (sample_env 1000) (sample_queue 1000)) (QC_callback True)"
  have "orders (queue_process (sample_env 1000) (sample_queue 1000)) \<noteq> orders (sample_queue 1000)" by code_simp
  moreover have "orders (queue_process (sample_env 1200) ?q) \<noteq> orders ?q" by code_simp
  moreover have "ad_int64 (qe_account (sample_env 1200)) (info_request AIT_ORDER_INTERVAL_MS 0) = 100" by code_simp
  ultimately show ?thesis
    using order_interval_respected [of "sample_queue 1000" "sample_env 1000" "[QC_callback True]" ?q "sample_env 1200"] sample_queue_inv
    by simp
qed

theorem overdue_queue_drains_witness:
  "tq_open (queue_process (sample_env 100000) (queue_process (sample_env 1000)
     ((queue_process (sample_env 1000) (sample_queue 1000))\<lparr>tq_pending := []\<rparr>))) = []"
proof -
  let ?q = "(queue_process (sample_env 1000) (sample_queue 1000))\<lparr>tq_pending := []\<rparr>"
  have "list_all (due (sample_env 100000)) (tq_open ?q)" by code_simp
  then have "filter (\<lambda>tx. \<not> due (sample_env 100000) tx) (tq_open ?q) = []" by (simp add: list_all_iff filter_empty_conv)
  moreover have "queue_inv ?q" by (rule pending_inv [OF sample_open_inv]) simp
  moreover have "silent_broker (sample_env t)" for t by (simp add: silent_broker_def sample_env_def)
  moreover have "qe_lib (sample_env 1000) = qe_lib (sample_env 100000)" "qe_account (sample_env 1000) = qe_account (sample_env 100000)"
    "qe_now_ms (sample_env 1000) \<le> qe_now_ms (sample_env 100000)"
    by (simp_all add: sample_env_def)
  ultimately show ?thesis using overdue_queue_drains [of ?q "sample_env 1000" "sample_env 100000"] by (simp add: Let_def)
qed

theorem snapshot_counts_down_witness:
  "tq_snapshot_open_trades (queue_process (sample_env 1000) (on_snapshot \<lparr>sne_open_trades = 5,
     sne_close_times_ms = [900, 2000, 0, 300], sne_close_buffer_ms = 100\<rparr> (make_trade_queue True 1))) = 3"
proof -
  let ?ev = "\<lparr>sne_open_trades = 5, sne_close_times_ms = [900, 2000, 0, 300], sne_close_buffer_ms = 100\<rparr>"
  have "snapshot_accepted (make_trade_queue True 1)" by code_simp
  moreover have "int (length (filter (\<lambda>t. 0 < t \<and> min i64_max (t + sne_close_buffer_ms ?ev) \<le> qe_now_ms (sample_env 1000))
      (sne_close_times_ms ?ev))) = 2" by code_simp
  ultimately show ?thesis
    using snapshot_counts_down [OF make_queue_inv, of True 1 ?ev "sample_env 1000"] by simp
qed

theorem trade_ids_distinct_witness: "distinct (trade_ids 3 4294967295) \<and> 0 \<notin> set (trade_ids 3 4294967295)"
  by (rule trade_ids_distinct [of 3]) simp

end
