(* ===== verification/IntradeOrders.thy ===== *)
theory IntradeOrders
  imports IntradeAccount TradeExecution
begin

section \<open>Orders on an Intrade.bar account\<close>

text \<open>
  The trade queue over the broker's rules: what every order that goes out satisfies, and one rule
  that the validation of a request does not see.
\<close>

lemma f64_le_val: "f64_finite x \<Longrightarrow> f64_finite y \<Longrightarrow> f64_le x y \<longleftrightarrow> f64_val x \<le> f64_val y"
  using f64_key_less [of y x] by (auto simp: f64_le_def f64_finite_def f64_is_nan_def)

lemma f64_between_finite: "f64_le x y \<Longrightarrow> f64_le y z \<Longrightarrow> f64_finite x \<Longrightarrow> f64_finite z \<Longrightarrow> f64_finite y"
  using f64_magnitude_bounds(1) [of x] f64_magnitude_bounds(1) [of y] f64_magnitude_bounds(1) [of z]
  by (auto simp: f64_le_def f64_finite_def f64_key_def split: if_splits)

lemma accepted_checks:
  "validate_request L d now request = TEC_SUCCESS \<longleftrightarrow>
    treq_symbol request \<noteq> [] \<and>
    (let timestamp = ts_ms_to_sec L now; for_trade = (\<lambda>ty. ad_bool d (trade_info_request ty request timestamp))
     in ad_bool d (info_request AIT_CONNECTION_STATUS 0) \<and> ad_bool d (symbol_request (treq_symbol request) timestamp) \<and>
        ad_bool d (option_request (treq_option_type request) timestamp) \<and>
        ad_bool d (order_request (treq_order_type request) timestamp) \<and>
        ad_bool d (account_request (treq_account_type request) timestamp) \<and>
        ad_bool d (currency_request (treq_currency request) timestamp) \<and>
        list_all for_trade [AIT_TRADE_LIMIT_NOT_EXCEEDED, AIT_AMOUNT_BELOW_MAX, AIT_AMOUNT_ABOVE_MIN, AIT_REFUND_BELOW_MAX,
          AIT_REFUND_ABOVE_MIN, AIT_DURATION_AVAILABLE, AIT_EXPIRATION_DATE_AVAILABLE, AIT_PAYOUT_ABOVE_MIN,
          AIT_AMOUNT_BELOW_BALANCE])"
  by (simp add: validate_request_def Let_def)

lemmas request_defs = info_request_def symbol_request_def option_request_def order_request_def account_request_def
  currency_request_def trade_info_request_def air_of_trade_def air_set_data_def account_info_request_default_def

lemmas reading_defs = intrade_account_data_def get_info_bool_def

lemma intrade_reads:
  "ad_bool (intrade_account_data L a) (info_request AIT_CONNECTION_STATUS t) = ia_connect a"
  "ad_bool (intrade_account_data L a) (symbol_request s t) = is_supported_symbol s"
  "ad_bool (intrade_account_data L a) (option_request opt t) = (opt = OPT_CLASSIC \<or> opt = OPT_SPRINT)"
  "ad_bool (intrade_account_data L a) (order_request ord t) = (ord = ORD_BUY \<or> ord = ORD_SELL)"
  "ad_bool (intrade_account_data L a) (account_request acc t) = (ia_account_type a \<noteq> ACC_UNKNOWN \<and> acc = ia_account_type a)"
  "ad_bool (intrade_account_data L a) (currency_request cur t) = (ia_currency a \<noteq> CUR_UNKNOWN \<and> cur = ia_currency a)"
  "ad_bool (intrade_account_data L a) (trade_info_request AIT_TRADE_LIMIT_NOT_EXCEEDED rq t) =
     (ia_open_trades a < (if check_amount_limits (ts_sec_of_day L t) then ia_max_limit_trades a else ia_max_trades a))"
  "ad_bool (intrade_account_data L a) (trade_info_request AIT_AMOUNT_BELOW_BALANCE rq t) = f64_le (treq_amount rq) (ia_balance a)"
  "ad_bool (intrade_account_data L a) (trade_info_request AIT_AMOUNT_BELOW_MAX rq t) =
     f64_le (treq_amount rq) (get_max_amount L a (trade_info_request AIT_AMOUNT_BELOW_MAX rq t))"
  "ad_bool (intrade_account_data L a) (trade_info_request AIT_AMOUNT_ABOVE_MIN rq t) =
     f64_le (get_min_amount a (trade_info_request AIT_AMOUNT_ABOVE_MIN rq t)) (treq_amount rq)"
  "ad_bool (intrade_account_data L a) (trade_info_request AIT_REFUND_BELOW_MAX rq t)"
  "ad_bool (intrade_account_data L a) (trade_info_request AIT_REFUND_ABOVE_MIN rq t)"
  "air_currency (trade_info_request ty rq t) = treq_currency rq" "air_timestamp (trade_info_request ty rq t) = t"
  "air_symbol (trade_info_request ty rq t) = treq_symbol rq" "air_option_type (trade_info_request ty rq t) = treq_option_type rq"
proof -
  have "\<not> is_btc_symbol []" by code_simp
  then show "ad_bool (intrade_account_data L a) (option_request opt t) = (opt = OPT_CLASSIC \<or> opt = OPT_SPRINT)"
    by (simp add: reading_defs request_defs)
qed (simp_all add: reading_defs request_defs)

text \<open>An order that goes out was accepted.\<close>

lemma order_accepted:
  assumes "queue_inv q" and "orders (queue_process env q) = orders q @ [QE_trade_request request result]"
  shows "validate_request (qe_lib env) (qe_account env) (qe_now_ms env) request = TEC_SUCCESS"
proof (cases "next_order env q")
  case None
  then show ?thesis using orders_pending [of env "process_snapshot env q"] assms
    by (simp add: orders_process orders_snapshot)
next
  case (Some tx)
  then have "tx_request tx = request" using orders_pending [of env "process_snapshot env q"] assms
    by (auto simp: orders_process orders_snapshot)
  moreover have "accepted env tx" using Some by (auto simp: next_order_def split: list.splits if_splits)
  ultimately show ?thesis by (simp add: accepted_def)
qed

text \<open>C38: Every order that the queue sends on a dollar account with the broker's limits is a finite amount between one dollar and the maximum of that second of the day, 50 dollars in the restricted minutes and 700 otherwise, no more than the balance, on a supported symbol of the connected account, and leaves the number of open trades below the limit.\<close>

theorem broker_limits_kept:
  assumes "queue_inv q" and "orders (queue_process env q) = orders q @ [QE_trade_request request result]"
    and "qe_account env = intrade_account_data (qe_lib env) a" and "ia_currency a = CUR_USD"
    and "ia_min_usd_amount a = f64_of_int 1" "ia_max_usd_amount a = f64_of_int 700" "ia_max_usd_limit_amount a = f64_of_int 50"
    and "restricted = check_amount_limits (ts_sec_of_day (qe_lib env) (ts_ms_to_sec (qe_lib env) (qe_now_ms env)))"
  shows "f64_finite (treq_amount request) \<and> f64_one \<le> f64_val (treq_amount request) \<and>
    f64_val (treq_amount request) \<le> (if restricted then 50 else 700) * f64_one \<and> f64_le (treq_amount request) (ia_balance a) \<and>
    ia_connect a \<and> is_supported_symbol (treq_symbol request) \<and> treq_account_type request = ia_account_type a \<and>
    treq_currency request = CUR_USD \<and> ia_open_trades a < (if restricted then ia_max_limit_trades a else ia_max_trades a)"
proof -
  define t where "t = ts_ms_to_sec (qe_lib env) (qe_now_ms env)"
  note checks = order_accepted [OF assms(1,2), unfolded assms(3) accepted_checks Let_def, folded t_def]
  have r: "restricted = check_amount_limits (ts_sec_of_day (qe_lib env) t)" by (simp add: assms(8) t_def)
  have basic: "ia_connect a" "is_supported_symbol (treq_symbol request)" "treq_account_type request = ia_account_type a"
    "treq_currency request = CUR_USD" "ia_open_trades a < (if restricted then ia_max_limit_trades a else ia_max_trades a)"
    "f64_le (treq_amount request) (ia_balance a)"
    using checks assms(4) by (simp_all add: intrade_reads r)
  have le: "f64_le (f64_of_int 1) (treq_amount request)" "f64_le (treq_amount request) (f64_of_int (if restricted then 50 else 700))"
    using checks assms(4-7) basic(4)
    by (cases "check_amount_limits (ts_sec_of_day (qe_lib env) t)";
      simp add: intrade_reads get_min_amount_def get_max_amount_def r)+
  have e: "f64_val (f64_of_int 1) = 1 * f64_one" "f64_finite (f64_of_int 1)"
    "f64_val (f64_of_int (if restricted then 50 else 700)) = (if restricted then 50 else 700) * f64_one"
    "f64_finite (f64_of_int (if restricted then 50 else 700))"
    by (rule f64_of_int_exact; simp)+
  have "f64_finite (treq_amount request)" using f64_between_finite [OF le e(2,4)] .
  then show ?thesis using le e basic by (simp add: f64_le_val)
qed

definition sample_intrade :: intrade_account where
  "sample_intrade = intrade_account_default\<lparr>ia_connect := True, ia_currency := CUR_USD, ia_account_type := ACC_DEMO,
     ia_balance := f64_of_int 1000\<rparr>"

definition sample_intrade_env :: queue_env where
  "sample_intrade_env = (sample_env 1699960000000)\<lparr>qe_account := intrade_account_data sample_time_shield sample_intrade\<rparr>"

definition sample_order :: trade_request where
  "sample_order = sample_request\<lparr>treq_amount := f64_of_int 20\<rparr>"

definition sample_intrade_queue :: trade_queue where
  "sample_intrade_queue = queue_do (make_trade_queue False 1)
     (QC_add sample_intrade_env (Some sample_order) PT_INTRADE_BAR None (\<lambda>rq rs. Some (rq, rs)))"

theorem broker_limits_kept_witness:
  "f64_one \<le> f64_val (f64_of_int 20) \<and> f64_val (f64_of_int 20) \<le> 700 * f64_one"
proof -
  have "case next_order sample_intrade_env sample_intrade_queue of
      Some tx \<Rightarrow> treq_amount (tx_request tx) = f64_of_int 20 | None \<Rightarrow> False" by code_simp
  then obtain tx where tx: "next_order sample_intrade_env sample_intrade_queue = Some tx" "treq_amount (tx_request tx) = f64_of_int 20"
    by (auto split: option.splits)
  have i: "queue_inv sample_intrade_queue"
    using reachable_inv [of False 1 "[QC_add sample_intrade_env (Some sample_order) PT_INTRADE_BAR None (\<lambda>rq rs. Some (rq, rs))]"]
    by (simp add: sample_intrade_queue_def)
  from orders_pending [of sample_intrade_env "process_snapshot sample_intrade_env sample_intrade_queue"] tx(1)
  obtain rs where "orders (queue_process sample_intrade_env sample_intrade_queue) =
      orders sample_intrade_queue @ [QE_trade_request (tx_request tx) rs]"
    by (auto simp: orders_process [OF i] orders_snapshot)
  from broker_limits_kept [OF i this, of sample_intrade]
  have "f64_one \<le> f64_val (treq_amount (tx_request tx)) \<and> f64_val (treq_amount (tx_request tx)) \<le>
      (if check_amount_limits (ts_sec_of_day sample_time_shield (ts_ms_to_sec sample_time_shield 1699960000000)) then 50 else 700) * f64_one"
    by (simp add: sample_intrade_env_def sample_env_def sample_intrade_def intrade_account_default_def)
  moreover have "\<not> check_amount_limits (ts_sec_of_day sample_time_shield (ts_ms_to_sec sample_time_shield 1699960000000))" by code_simp
  ultimately show ?thesis by (simp add: tx(2))
qed

text \<open>Validation asks whether an option type is available without naming the symbol, so a classic option on BTCUSDT, which the account does not offer and for which it pays nothing, is accepted whenever the same request on a currency pair is and no minimum payout is set.\<close>

theorem btc_classic_accepted:
  assumes "is_btc_symbol symbol" and "treq_option_type request = OPT_CLASSIC" and "f64_eq (treq_min_payout request) 0"
    and "validate_request L (intrade_account_data L a) now request = TEC_SUCCESS"
  shows "validate_request L (intrade_account_data L a) now (request\<lparr>treq_symbol := symbol\<rparr>) = TEC_SUCCESS \<and>
    \<not> get_info_bool L a ((option_request OPT_CLASSIC t)\<lparr>air_symbol := symbol\<rparr>) \<and>
    get_payout L a (trade_info_request AIT_PAYOUT (request\<lparr>treq_symbol := symbol\<rparr>) t) = 0"
proof (intro conjI)
  have "symbol \<noteq> []" using assms(1) by (auto simp: is_btc_symbol_def normalize_symbol_name_def)
  have "is_supported_symbol symbol"
    using assms(1) by (simp add: is_supported_symbol_def is_btc_symbol_def supported_symbols_def)
  have "get_min_amount a (trade_info_request ty (request\<lparr>treq_symbol := symbol\<rparr>) t) = get_min_amount a (trade_info_request ty request t)"
    "get_max_amount L a (trade_info_request ty (request\<lparr>treq_symbol := symbol\<rparr>) t) = get_max_amount L a (trade_info_request ty request t)" for ty t
    by (simp_all add: get_min_amount_def get_max_amount_def intrade_reads)
  moreover have "ad_bool (intrade_account_data L a) (trade_info_request AIT_DURATION_AVAILABLE (request\<lparr>treq_symbol := symbol\<rparr>) t)"
    "ad_bool (intrade_account_data L a) (trade_info_request AIT_PAYOUT_ABOVE_MIN (request\<lparr>treq_symbol := symbol\<rparr>) t)"
    "ad_bool (intrade_account_data L a) (trade_info_request AIT_EXPIRATION_DATE_AVAILABLE (request\<lparr>treq_symbol := symbol\<rparr>) t) =
     ad_bool (intrade_account_data L a) (trade_info_request AIT_EXPIRATION_DATE_AVAILABLE request t)" for t
    using assms(2,3) by (simp_all add: reading_defs request_defs)
  ultimately show "validate_request L (intrade_account_data L a) now (request\<lparr>treq_symbol := symbol\<rparr>) = TEC_SUCCESS"
    using assms(4) \<open>symbol \<noteq> []\<close> \<open>is_supported_symbol symbol\<close> unfolding accepted_checks Let_def
    by (simp add: intrade_reads)
  show "\<not> get_info_bool L a ((option_request OPT_CLASSIC t)\<lparr>air_symbol := symbol\<rparr>)"
    using assms(1) by (simp add: get_info_bool_def option_request_def)
  show "get_payout L a (trade_info_request AIT_PAYOUT (request\<lparr>treq_symbol := symbol\<rparr>) t) = 0"
    using assms(1,2) by (simp add: get_payout_def Let_def intrade_reads)
qed

definition sample_classic :: trade_request where
  "sample_classic = sample_order\<lparr>treq_option_type := OPT_CLASSIC, treq_expiry_time := 1699960800\<rparr>"

theorem btc_classic_accepted_witness:
  "validate_request sample_time_shield (intrade_account_data sample_time_shield sample_intrade) 1699960000000
     (sample_classic\<lparr>treq_symbol := ''btc/usd''\<rparr>) = TEC_SUCCESS"
proof -
  have "is_btc_symbol ''btc/usd''" "treq_option_type sample_classic = OPT_CLASSIC" "f64_eq (treq_min_payout sample_classic) 0"
    "validate_request sample_time_shield (intrade_account_data sample_time_shield sample_intrade) 1699960000000 sample_classic = TEC_SUCCESS"
    by code_simp+
  then show ?thesis using btc_classic_accepted by blast
qed

text \<open>A payout is zero or one of the broker's four rates, 60, 79, 82 and 85 percent.\<close>

theorem payout_rates:
  "get_payout L a r \<in> insert 0 ((\<lambda>p. f64_of_ratio p 100) ` {60, 79, 82, 85})"
proof -
  have e: "f64_of_ratio 60 100 = f64_of_ratio 6 10" by code_simp
  show ?thesis unfolding get_payout_def Let_def by (simp add: e)
qed

end
