(* ===== verification/Tasks.thy ===== *)
theory Tasks
  imports Prelude Contracts
begin

section \<open>Task scheduling\<close>

text \<open>
  \<open>utils/tasks/Task.hpp\<close> and \<open>TaskManager.hpp\<close>. A task is its state; its callback is an identifier,
  and what a call does is the argument \<open>run\<close> of the operations: the task the callback leaves (it may
  reschedule it) and the tasks it asks the manager to add. The clock is an argument, read once per
  operation, and the calls made are logged. The worker thread, which only repeats \<open>process\<close>, and a
  callback that reaches other tasks are not modelled. The loop that brings a periodic task past the
  present is \<open>catch_up\<close>: \<open>None\<close> if it does not end.
\<close>

subsection \<open>Task\<close>

datatype task_type = TT_SINGLE | TT_DELAYED_SINGLE | TT_PERIODIC | TT_DELAYED_PERIODIC | TT_ON_DATE | TT_PERIODIC_ON_DATE

record task =
  tk_type :: task_type
  tk_callback :: nat
  tk_delay_ms :: int
  tk_period_ms :: int
  tk_timestamp_ms :: int
  tk_start_time :: int
  tk_next_execution_time :: int
  tk_reschedule_time :: int
  tk_execution_time :: int
  tk_completed :: bool
  tk_force_execute :: bool
  tk_shutdown :: bool
  tk_name :: string

definition initial_execution_time :: "task_type \<Rightarrow> int \<Rightarrow> int \<Rightarrow> int \<Rightarrow> int" where
  "initial_execution_time ty start_time next_execution_time timestamp_ms =
     (case ty of
        TT_SINGLE \<Rightarrow> start_time | TT_PERIODIC \<Rightarrow> start_time
      | TT_DELAYED_SINGLE \<Rightarrow> next_execution_time | TT_DELAYED_PERIODIC \<Rightarrow> next_execution_time
      | TT_ON_DATE \<Rightarrow> timestamp_ms | TT_PERIODIC_ON_DATE \<Rightarrow> timestamp_ms)"

definition make_task :: "int \<Rightarrow> string \<Rightarrow> task_type \<Rightarrow> nat \<Rightarrow> int \<Rightarrow> int \<Rightarrow> int \<Rightarrow> task" where
  "make_task now nm ty callback delay_ms period_ms timestamp_ms =
     \<lparr>tk_type = ty, tk_callback = callback, tk_delay_ms = delay_ms, tk_period_ms = period_ms,
      tk_timestamp_ms = timestamp_ms, tk_start_time = now + period_ms, tk_next_execution_time = now + delay_ms,
      tk_reschedule_time = 0,
      tk_execution_time = initial_execution_time ty (now + period_ms) (now + delay_ms) timestamp_ms,
      tk_completed = False, tk_force_execute = False, tk_shutdown = False, tk_name = nm\<rparr>"

definition is_valid_period :: "int \<Rightarrow> bool" where
  "is_valid_period period_ms \<longleftrightarrow> 0 < period_ms"

definition reschedule_at :: "int \<Rightarrow> task \<Rightarrow> task" where
  "reschedule_at new_time_ms t =
     (if tk_shutdown t then t
      else t\<lparr>tk_next_execution_time := new_time_ms, tk_start_time := new_time_ms, tk_timestamp_ms := new_time_ms,
             tk_reschedule_time := new_time_ms, tk_execution_time := new_time_ms, tk_completed := False\<rparr>)"

definition reschedule_in :: "int \<Rightarrow> int \<Rightarrow> task \<Rightarrow> task" where
  "reschedule_in now new_delay_ms t =
     (if tk_shutdown t then t
      else let at = now + new_delay_ms
      in t\<lparr>tk_next_execution_time := at, tk_start_time := at, tk_timestamp_ms := at,
           tk_reschedule_time := at, tk_execution_time := at, tk_completed := False\<rparr>)"

definition set_period :: "int \<Rightarrow> task \<Rightarrow> bool \<times> task" where
  "set_period new_period_ms t =
     (if \<not> is_valid_period new_period_ms then (False, t)
      else
        let t = t\<lparr>tk_start_time := tk_start_time t - tk_period_ms t\<rparr>;
            t = t\<lparr>tk_period_ms := new_period_ms\<rparr>;
            t = t\<lparr>tk_start_time := tk_start_time t + tk_period_ms t\<rparr>
        in (True, if tk_type t = TT_PERIODIC then t\<lparr>tk_execution_time := tk_start_time t\<rparr> else t))"

definition reset_timer :: "task \<Rightarrow> task" where
  "reset_timer t =
     t\<lparr>tk_next_execution_time := tk_next_execution_time t + tk_period_ms t,
       tk_start_time := tk_start_time t + tk_period_ms t,
       tk_timestamp_ms := tk_timestamp_ms t + tk_period_ms t, tk_reschedule_time := 0\<rparr>"

definition task_is_ready :: "int \<Rightarrow> task \<Rightarrow> bool" where
  "task_is_ready now t =
     (if tk_completed t then False
      else if tk_force_execute t \<or> tk_shutdown t then True
      else case tk_type t of
        TT_SINGLE \<Rightarrow> tk_reschedule_time t \<le> now
      | TT_DELAYED_SINGLE \<Rightarrow> tk_next_execution_time t \<le> now
      | TT_PERIODIC \<Rightarrow> tk_start_time t \<le> now
      | TT_DELAYED_PERIODIC \<Rightarrow> tk_next_execution_time t \<le> now
      | TT_ON_DATE \<Rightarrow> tk_timestamp_ms t \<le> now
      | TT_PERIODIC_ON_DATE \<Rightarrow> tk_timestamp_ms t \<le> now)"

definition force_execute_task :: "task \<Rightarrow> task" where
  "force_execute_task t = t\<lparr>tk_force_execute := True\<rparr>"

definition is_periodic :: "task \<Rightarrow> bool" where
  "is_periodic t \<longleftrightarrow> tk_type t = TT_PERIODIC \<or> tk_type t = TT_DELAYED_PERIODIC \<or> tk_type t = TT_PERIODIC_ON_DATE"

definition get_delay :: "int \<Rightarrow> task \<Rightarrow> int" where
  "get_delay now t = now - tk_execution_time t"

definition shutdown_task :: "task \<Rightarrow> task" where
  "shutdown_task t = t\<lparr>tk_shutdown := True\<rparr>"

partial_function (option) catch_up :: "int \<Rightarrow> int \<Rightarrow> int \<Rightarrow> int option" where
  "catch_up period_ms now time = (if time \<le> now then catch_up period_ms now (time + period_ms) else Some time)"

text \<open>A task that a callback asks to add: the arguments of the \<open>add_\<close> operations.\<close>

record task_spec =
  ts_name :: string
  ts_type :: task_type
  ts_callback :: nat
  ts_delay_ms :: int
  ts_period_ms :: int
  ts_timestamp_ms :: int

type_synonym runner = "nat \<Rightarrow> task \<Rightarrow> task \<times> task_spec list"

text \<open>\<open>Task::process\<close>: the task left, whether the callback was called, and what it asked to add.\<close>

definition run_single :: "runner \<Rightarrow> int \<Rightarrow> int \<Rightarrow> task \<Rightarrow> task \<times> bool \<times> task_spec list" where
  "run_single run now due t =
     (if due \<le> now \<or> tk_force_execute t \<or> tk_shutdown t then
        let (t, added) = run (tk_callback t) (t\<lparr>tk_completed := True\<rparr>) in (t, True, added)
      else (t, False, []))"

definition run_periodic ::
  "runner \<Rightarrow> int \<Rightarrow> (task \<Rightarrow> int) \<Rightarrow> (int \<Rightarrow> task \<Rightarrow> task) \<Rightarrow> task \<Rightarrow> (task \<times> bool \<times> task_spec list) option" where
  "run_periodic run now due set_due t =
     (if \<not> is_valid_period (tk_period_ms t) then Some (t\<lparr>tk_completed := True\<rparr>, False, [])
      else
        let t = t\<lparr>tk_execution_time := due t\<rparr>
        in if due t \<le> now \<or> tk_force_execute t \<or> tk_shutdown t then
             (case catch_up (tk_period_ms t) now (due t) of
                None \<Rightarrow> None
              | Some time \<Rightarrow> let (t, added) = run (tk_callback t) (set_due time t) in Some (t, True, added))
           else Some (t, False, []))"

definition task_process :: "runner \<Rightarrow> int \<Rightarrow> task \<Rightarrow> (task \<times> bool \<times> task_spec list) option" where
  "task_process run now t =
     (if tk_completed t then Some (t, False, [])
      else
        let step = (case tk_type t of
              TT_SINGLE \<Rightarrow>
                let t = t\<lparr>tk_execution_time := (if tk_reschedule_time t \<noteq> 0 then tk_reschedule_time t else tk_start_time t)\<rparr>
                in Some (if tk_reschedule_time t \<le> now \<or> tk_force_execute t \<or> tk_shutdown t
                     then let (t, added) = run (tk_callback t) (t\<lparr>tk_reschedule_time := 0, tk_completed := True\<rparr>) in (t, True, added)
                     else (t, False, []))
            | TT_DELAYED_SINGLE \<Rightarrow>
                Some (run_single run now (tk_next_execution_time t) (t\<lparr>tk_execution_time := tk_next_execution_time t\<rparr>))
            | TT_PERIODIC \<Rightarrow>
                run_periodic run now tk_start_time (\<lambda>time t. t\<lparr>tk_start_time := time\<rparr>) t
            | TT_DELAYED_PERIODIC \<Rightarrow>
                run_periodic run now tk_next_execution_time (\<lambda>time t. t\<lparr>tk_next_execution_time := time\<rparr>) t
            | TT_ON_DATE \<Rightarrow>
                Some (run_single run now (tk_timestamp_ms t) (t\<lparr>tk_execution_time := tk_timestamp_ms t\<rparr>))
            | TT_PERIODIC_ON_DATE \<Rightarrow>
                run_periodic run now tk_timestamp_ms (\<lambda>time t. t\<lparr>tk_timestamp_ms := time\<rparr>) t)
        in case step of
             None \<Rightarrow> None
           | Some (t, called, added) \<Rightarrow>
               let t = t\<lparr>tk_force_execute := False\<rparr>
               in Some (if tk_shutdown t then t\<lparr>tk_completed := True\<rparr> else t, called, added))"

subsection \<open>TaskManager\<close>

record task_manager =
  tm_pending :: "task list"
  tm_tasks :: "task list"
  tm_force_execute :: bool
  tm_shutdown :: bool
  tm_task_count :: nat
  tm_calls :: "nat list"

definition make_task_manager :: task_manager where
  "make_task_manager = \<lparr>tm_pending = [], tm_tasks = [], tm_force_execute = False, tm_shutdown = False,
     tm_task_count = 0, tm_calls = []\<rparr>"

definition add_task :: "task \<Rightarrow> task_manager \<Rightarrow> bool \<times> task_manager" where
  "add_task t m = (if tm_shutdown m then (False, m) else (True, m\<lparr>tm_pending := tm_pending m @ [t]\<rparr>))"

definition can_add_periodic_task :: "int \<Rightarrow> task_manager \<Rightarrow> bool" where
  "can_add_periodic_task period_ms m = (if tm_shutdown m then False else is_valid_period period_ms)"

definition add_single_task :: "int \<Rightarrow> string \<Rightarrow> nat \<Rightarrow> task_manager \<Rightarrow> bool \<times> task_manager" where
  "add_single_task now nm callback m = add_task (make_task now nm TT_SINGLE callback 0 0 0) m"

definition add_delayed_task :: "int \<Rightarrow> string \<Rightarrow> int \<Rightarrow> nat \<Rightarrow> task_manager \<Rightarrow> bool \<times> task_manager" where
  "add_delayed_task now nm delay_ms callback m = add_task (make_task now nm TT_DELAYED_SINGLE callback delay_ms 0 0) m"

definition add_periodic_task :: "int \<Rightarrow> string \<Rightarrow> int \<Rightarrow> nat \<Rightarrow> task_manager \<Rightarrow> bool \<times> task_manager" where
  "add_periodic_task now nm period_ms callback m =
     (if \<not> can_add_periodic_task period_ms m then (False, m)
      else add_task (make_task now nm TT_PERIODIC callback 0 period_ms 0) m)"

definition add_delayed_periodic_task :: "int \<Rightarrow> string \<Rightarrow> int \<Rightarrow> int \<Rightarrow> nat \<Rightarrow> task_manager \<Rightarrow> bool \<times> task_manager" where
  "add_delayed_periodic_task now nm delay_ms period_ms callback m =
     (if \<not> can_add_periodic_task period_ms m then (False, m)
      else add_task (make_task now nm TT_DELAYED_PERIODIC callback delay_ms period_ms 0) m)"

definition add_on_date_task :: "int \<Rightarrow> string \<Rightarrow> int \<Rightarrow> nat \<Rightarrow> task_manager \<Rightarrow> bool \<times> task_manager" where
  "add_on_date_task now nm timestamp_ms callback m = add_task (make_task now nm TT_ON_DATE callback 0 0 timestamp_ms) m"

definition add_periodic_on_date_task :: "int \<Rightarrow> string \<Rightarrow> int \<Rightarrow> int \<Rightarrow> nat \<Rightarrow> task_manager \<Rightarrow> bool \<times> task_manager" where
  "add_periodic_on_date_task now nm timestamp_ms period_ms callback m =
     (if \<not> can_add_periodic_task period_ms m then (False, m)
      else add_task (make_task now nm TT_PERIODIC_ON_DATE callback 0 period_ms timestamp_ms) m)"

text \<open>The operation for a task of a given type.\<close>

definition add_spec :: "int \<Rightarrow> task_spec \<Rightarrow> task_manager \<Rightarrow> bool \<times> task_manager" where
  "add_spec now s m =
     (case ts_type s of
        TT_SINGLE \<Rightarrow> add_single_task now (ts_name s) (ts_callback s) m
      | TT_DELAYED_SINGLE \<Rightarrow> add_delayed_task now (ts_name s) (ts_delay_ms s) (ts_callback s) m
      | TT_PERIODIC \<Rightarrow> add_periodic_task now (ts_name s) (ts_period_ms s) (ts_callback s) m
      | TT_DELAYED_PERIODIC \<Rightarrow> add_delayed_periodic_task now (ts_name s) (ts_delay_ms s) (ts_period_ms s) (ts_callback s) m
      | TT_ON_DATE \<Rightarrow> add_on_date_task now (ts_name s) (ts_timestamp_ms s) (ts_callback s) m
      | TT_PERIODIC_ON_DATE \<Rightarrow>
          add_periodic_on_date_task now (ts_name s) (ts_timestamp_ms s) (ts_period_ms s) (ts_callback s) m)"

text \<open>One task of the loop of \<open>TaskManager::process\<close>, then the loop.\<close>

definition flagged :: "task_manager \<Rightarrow> task \<Rightarrow> task" where
  "flagged m t =
     (let t = (if tm_force_execute m then force_execute_task t else t)
      in if tm_shutdown m then shutdown_task t else t)"

definition process_one :: "runner \<Rightarrow> int \<Rightarrow> task \<Rightarrow> task_manager \<Rightarrow> (task \<times> task_manager) option" where
  "process_one run now t m =
     (let t = flagged m t
      in if tk_completed t then Some (t, m)
         else case task_process run now t of
           None \<Rightarrow> None
         | Some (t', called, added) \<Rightarrow>
             Some (t', fold (\<lambda>s m. snd (add_spec now s m)) added
               (if called then m\<lparr>tm_calls := tm_calls m @ [tk_callback t]\<rparr> else m)))"

fun process_loop :: "runner \<Rightarrow> int \<Rightarrow> task list \<Rightarrow> task_manager \<Rightarrow> (task list \<times> task_manager) option" where
  "process_loop run now [] m = Some ([], m)"
| "process_loop run now (t # ts) m =
     (case process_one run now t m of
        None \<Rightarrow> None
      | Some (t, m) \<Rightarrow>
          (case process_loop run now ts m of None \<Rightarrow> None | Some (ts, m) \<Rightarrow> Some (t # ts, m)))"

definition manager_process :: "runner \<Rightarrow> int \<Rightarrow> task_manager \<Rightarrow> task_manager option" where
  "manager_process run now m =
     (let tasks = tm_tasks m @ tm_pending m;
          m = m\<lparr>tm_pending := [], tm_tasks := tasks\<rparr>
      in case process_loop run now tasks m of
           None \<Rightarrow> None
         | Some (tasks, m) \<Rightarrow>
             let tasks = filter (\<lambda>t. \<not> tk_completed t) tasks
             in Some (m\<lparr>tm_force_execute := False, tm_tasks := tasks, tm_task_count := length tasks\<rparr>))"

text \<open>\<open>shutdown\<close> without a worker thread (the branch that joins one is not modelled).\<close>

definition manager_shutdown :: "runner \<Rightarrow> int \<Rightarrow> task_manager \<Rightarrow> task_manager option" where
  "manager_shutdown run now m =
     (case manager_process run now (m\<lparr>tm_shutdown := True\<rparr>) of
        None \<Rightarrow> None | Some m \<Rightarrow> Some (m\<lparr>tm_shutdown := False\<rparr>))"

definition manager_force_execute :: "task_manager \<Rightarrow> task_manager" where
  "manager_force_execute m = m\<lparr>tm_force_execute := True\<rparr>"

subsection \<open>The catch-up loop\<close>

lemma catch_up_guard:
  assumes "catch_up period_ms now time = Some y"
  shows "\<not> (period_ms \<le> 0 \<and> time \<le> now)"
proof (rule catch_up.raw_induct [OF _ assms])
  fix again :: "int \<Rightarrow> int \<Rightarrow> int \<Rightarrow> int option" and period_ms now time y
  assume IH: "\<And>period_ms now time y. again period_ms now time = Some y \<Longrightarrow> \<not> (period_ms \<le> 0 \<and> time \<le> now)"
    and step: "(if time \<le> now then again period_ms now (time + period_ms) else Some time) = Some y"
  show "\<not> (period_ms \<le> 0 \<and> time \<le> now)"
  proof
    assume a: "period_ms \<le> 0 \<and> time \<le> now"
    then have "again period_ms now (time + period_ms) = Some y" using step by simp
    from IH [OF this] a show False by simp
  qed
qed

lemma catch_up_diverges: "period_ms \<le> 0 \<Longrightarrow> time \<le> now \<Longrightarrow> catch_up period_ms now time = None"
  using catch_up_guard by (cases "catch_up period_ms now time") auto

lemma catch_up_exact:
  assumes "0 < period_ms"
  shows "catch_up period_ms now time =
    Some (if now < time then time else time + period_ms * ((now - time) div period_ms + 1))"
proof (induction "nat (now - time + 1)" arbitrary: time rule: less_induct)
  case less
  show ?case
  proof (cases "time \<le> now")
    case False
    then show ?thesis by (simp add: catch_up.simps)
  next
    case True
    have "nat (now - (time + period_ms) + 1) < nat (now - time + 1)" using True assms by simp
    note IH = less [OF this]
    have d: "(now - (time + period_ms)) div period_ms = (now - time) div period_ms - 1"
      using div_add_self2 [of period_ms "now - time - period_ms"] assms by (simp add: algebra_simps)
    have "catch_up period_ms now time = catch_up period_ms now (time + period_ms)"
      using True by (subst catch_up.simps) simp
    moreover have "(now - time) div period_ms = 0" if "now < time + period_ms"
      using that True by (intro div_pos_pos_trivial) linarith+
    ultimately show ?thesis using True IH d by (auto simp: algebra_simps)
  qed
qed

text \<open>The loop that brings a periodic task past the present ends exactly when the period is positive or the task is not due; it then leaves the first time of the task's own grid after the present, so that late runs cause no drift.\<close>

theorem catch_up_ends:
  "catch_up period_ms now time =
    (if now < time then Some time
     else if 0 < period_ms then Some (now + period_ms - (now - time) mod period_ms)
     else None)"
proof (cases "0 < period_ms")
  case True
  have "time + period_ms * ((now - time) div period_ms + 1) = now + period_ms - (now - time) mod period_ms"
    using minus_mod_eq_mult_div [of "now - time" period_ms] by (simp add: algebra_simps)
  with True show ?thesis by (simp add: catch_up_exact)
next
  case False
  then show ?thesis by (cases "time \<le> now") (simp_all add: catch_up_diverges catch_up.simps [of _ now time])
qed

subsection \<open>One task\<close>

lemma run_periodic_eq:
  "run_periodic run now due set_due t =
     Some (if \<not> is_valid_period (tk_period_ms t) then (t\<lparr>tk_completed := True\<rparr>, False, [])
       else
         let t = t\<lparr>tk_execution_time := due t\<rparr>
         in if due t \<le> now \<or> tk_force_execute t \<or> tk_shutdown t
            then let (t, added) = run (tk_callback t) (set_due (if now < due t then due t
                   else now + tk_period_ms t - (now - due t) mod tk_period_ms t) t) in (t, True, added)
            else (t, False, []))"
  by (simp add: run_periodic_def Let_def catch_up_ends is_valid_period_def split_def)

lemma task_process_total: "\<exists>t' called added. task_process run now t = Some (t', called, added)"
  by (cases "tk_completed t"; cases "tk_type t")
     (auto simp: task_process_def run_periodic_eq Let_def split_def)

lemma task_process_called:
  assumes "task_process run now t = Some (t', called, added)"
  shows "called \<longleftrightarrow> task_is_ready now t \<and> (is_periodic t \<longrightarrow> is_valid_period (tk_period_ms t))"
  using assms
  by (cases "tk_completed t"; cases "tk_type t")
     (auto simp: task_process_def run_periodic_eq run_single_def task_is_ready_def is_periodic_def Let_def split_def
       split: if_splits)

lemma task_process_added:
  assumes "task_process run now t = Some (t', called, added)" and "\<not> called"
  shows "added = []"
  using assms
  by (cases "tk_completed t"; cases "tk_type t")
     (auto simp: task_process_def run_periodic_eq run_single_def Let_def split_def split: if_splits)

text \<open>What decides a call: the task is ready, and a periodic one has a usable period.\<close>

definition task_called :: "int \<Rightarrow> task \<Rightarrow> bool" where
  "task_called now t \<longleftrightarrow> task_is_ready now t \<and> (is_periodic t \<longrightarrow> is_valid_period (tk_period_ms t))"

lemma task_called_completed [simp]: "tk_completed t \<Longrightarrow> \<not> task_called now t"
  by (simp add: task_called_def task_is_ready_def)

lemma task_process_shutdown:
  assumes "task_process run now t = Some (t', called, added)" and "tk_shutdown t"
    and keeps: "\<And>n u. tk_shutdown u \<Longrightarrow> tk_shutdown (fst (run n u))"
  shows "tk_completed t'"
  using assms(1,2) keeps
  by (cases "tk_completed t"; cases "tk_type t")
     (auto simp: task_process_def run_periodic_eq run_single_def Let_def split_def split: if_splits)

lemma flagged_simps [simp]:
  "tk_callback (flagged m t) = tk_callback t"
  "tk_type (flagged m t) = tk_type t"
  "tk_period_ms (flagged m t) = tk_period_ms t"
  "tk_completed (flagged m t) = tk_completed t"
  "tk_shutdown (flagged m t) \<longleftrightarrow> tk_shutdown t \<or> tm_shutdown m"
  by (auto simp: flagged_def Let_def force_execute_task_def shutdown_task_def)

subsection \<open>The manager\<close>

lemmas add_defs = add_spec_def add_single_task_def add_delayed_task_def add_periodic_task_def
  add_delayed_periodic_task_def add_on_date_task_def add_periodic_on_date_task_def add_task_def

lemma add_spec_frame [simp]:
  "tm_calls (snd (add_spec now s m)) = tm_calls m"
  "tm_force_execute (snd (add_spec now s m)) = tm_force_execute m"
  "tm_shutdown (snd (add_spec now s m)) = tm_shutdown m"
  by (cases "ts_type s"; simp add: add_defs)+

lemma add_spec_shutdown: "tm_shutdown m \<Longrightarrow> snd (add_spec now s m) = m"
  by (cases "ts_type s") (simp_all add: add_defs)

lemma fold_add_frame [simp]:
  "tm_calls (fold (\<lambda>s m. snd (add_spec now s m)) added m) = tm_calls m"
  "tm_force_execute (fold (\<lambda>s m. snd (add_spec now s m)) added m) = tm_force_execute m"
  "tm_shutdown (fold (\<lambda>s m. snd (add_spec now s m)) added m) = tm_shutdown m"
  by (induction added arbitrary: m) simp_all

lemma fold_add_shutdown: "tm_shutdown m \<Longrightarrow> fold (\<lambda>s m. snd (add_spec now s m)) added m = m"
  by (induction added) (simp_all add: add_spec_shutdown)

lemma process_one_ok:
  obtains t' m' where "process_one run now t m = Some (t', m')"
    and "tm_calls m' = tm_calls m @ (if task_called now (flagged m t) then [tk_callback t] else [])"
    and "tm_force_execute m' = tm_force_execute m" and "tm_shutdown m' = tm_shutdown m"
    and "tm_shutdown m \<Longrightarrow> tm_pending m' = tm_pending m"
    and "tm_shutdown m \<Longrightarrow> (\<And>n u. tk_shutdown u \<Longrightarrow> tk_shutdown (fst (run n u))) \<Longrightarrow> tk_completed t'"
proof (cases "tk_completed t")
  case True
  then show ?thesis using that [of "flagged m t" m] by (simp add: process_one_def)
next
  case False
  obtain t' called added where p: "task_process run now (flagged m t) = Some (t', called, added)"
    using task_process_total by blast
  let ?m = "fold (\<lambda>s m. snd (add_spec now s m)) added
    (if called then m\<lparr>tm_calls := tm_calls m @ [tk_callback t]\<rparr> else m)"
  have "process_one run now t m = Some (t', ?m)" using False p by (simp add: process_one_def)
  moreover have "called = task_called now (flagged m t)"
    using task_process_called [OF p] by (simp add: task_called_def)
  moreover have "tm_shutdown m \<Longrightarrow> tm_pending ?m = tm_pending m" by (simp add: fold_add_shutdown)
  moreover have "tm_shutdown m \<Longrightarrow> (\<And>n u. tk_shutdown u \<Longrightarrow> tk_shutdown (fst (run n u))) \<Longrightarrow> tk_completed t'"
    using task_process_shutdown [OF p] by simp
  ultimately show ?thesis using that [of t' ?m] by simp
qed

lemma flagged_cong:
  "tm_force_execute m' = tm_force_execute m \<Longrightarrow> tm_shutdown m' = tm_shutdown m \<Longrightarrow> flagged m' = flagged m"
  by (rule ext) (simp add: flagged_def)

lemma process_loop_ok:
  "\<exists>ts' m'. process_loop run now ts m = Some (ts', m')
     \<and> tm_calls m' = tm_calls m @ map tk_callback (filter (\<lambda>t. task_called now (flagged m t)) ts)
     \<and> tm_force_execute m' = tm_force_execute m \<and> tm_shutdown m' = tm_shutdown m
     \<and> (tm_shutdown m \<longrightarrow> tm_pending m' = tm_pending m
          \<and> ((\<forall>n u. tk_shutdown u \<longrightarrow> tk_shutdown (fst (run n u))) \<longrightarrow> list_all tk_completed ts'))"
proof (induction ts arbitrary: m)
  case Nil
  then show ?case by simp
next
  case (Cons t ts)
  obtain t1 m1 where one: "process_one run now t m = Some (t1, m1)"
    "tm_calls m1 = tm_calls m @ (if task_called now (flagged m t) then [tk_callback t] else [])"
    "tm_force_execute m1 = tm_force_execute m" "tm_shutdown m1 = tm_shutdown m"
    "tm_shutdown m \<Longrightarrow> tm_pending m1 = tm_pending m"
    "tm_shutdown m \<Longrightarrow> (\<And>n u. tk_shutdown u \<Longrightarrow> tk_shutdown (fst (run n u))) \<Longrightarrow> tk_completed t1"
    by (rule process_one_ok [of run now t m]) blast
  from Cons.IH [of m1] obtain ts2 m2 where two: "process_loop run now ts m1 = Some (ts2, m2)"
    "tm_calls m2 = tm_calls m1 @ map tk_callback (filter (\<lambda>t. task_called now (flagged m t)) ts)"
    "tm_force_execute m2 = tm_force_execute m1" "tm_shutdown m2 = tm_shutdown m1"
    "tm_shutdown m1 \<Longrightarrow> tm_pending m2 = tm_pending m1"
    "tm_shutdown m1 \<Longrightarrow> \<forall>n u. tk_shutdown u \<longrightarrow> tk_shutdown (fst (run n u)) \<Longrightarrow> list_all tk_completed ts2"
    using flagged_cong [OF one(3,4)] by auto
  have "process_loop run now (t # ts) m = Some (t1 # ts2, m2)" using one(1) two(1) by simp
  then show ?case using one two by auto
qed

text \<open>Processing the tasks always ends. Each task of the manager, then each pending one, that is ready and usable is called exactly once, in the order of registration; no other callback is called. A forced or final pass counts every uncompleted task as ready.\<close>

theorem process_calls_ready:
  "\<exists>m'. manager_process run now m = Some m'
     \<and> tm_calls m' = tm_calls m @ map tk_callback (filter (\<lambda>t. task_called now (flagged m t)) (tm_tasks m @ tm_pending m))
     \<and> tm_task_count m' = length (tm_tasks m') \<and> \<not> tm_force_execute m'"
proof -
  let ?ts = "tm_tasks m @ tm_pending m" and ?m = "m\<lparr>tm_pending := [], tm_tasks := tm_tasks m @ tm_pending m\<rparr>"
  have "flagged ?m = flagged m" by (rule flagged_cong) simp_all
  with process_loop_ok [of run now ?ts ?m] show ?thesis
    by (auto simp: manager_process_def Let_def)
qed

text \<open>C37: Shutting down a manager that has no worker thread drains it: every task that is not completed, periodic ones
  included, gets exactly one last call, in order, except periodic tasks whose period is not positive, which end
  without a call; what the callbacks try to add is rejected, no task remains, and the manager can be used again. The
  callbacks are arbitrary, as long as none clears its task's shutdown flag, for which the class has no operation. The
  last call is what \<open>Task::shutdown\<close> asks for by setting the flag, although its comment says that it prevents
  further execution.\<close>

theorem shutdown_drains:
  assumes "\<And>n u. tk_shutdown u \<Longrightarrow> tk_shutdown (fst (run n u))"
  shows "\<exists>m'. manager_shutdown run now m = Some m' \<and> tm_tasks m' = [] \<and> tm_pending m' = []
     \<and> tm_task_count m' = 0 \<and> \<not> tm_shutdown m'
     \<and> tm_calls m' = tm_calls m @ map tk_callback
         (filter (\<lambda>t. \<not> tk_completed t \<and> \<not> (is_periodic t \<and> tk_period_ms t \<le> 0)) (tm_tasks m @ tm_pending m))"
proof -
  let ?ts = "tm_tasks m @ tm_pending m"
  let ?m = "m\<lparr>tm_shutdown := True, tm_pending := [], tm_tasks := tm_tasks m @ tm_pending m\<rparr>"
  have called: "task_called now (flagged ?m t) \<longleftrightarrow> \<not> tk_completed t \<and> \<not> (is_periodic t \<and> tk_period_ms t \<le> 0)" for t
    by (auto simp: task_called_def task_is_ready_def is_periodic_def is_valid_period_def)
  obtain ts' m' where loop: "process_loop run now ?ts ?m = Some (ts', m')"
    "tm_calls m' = tm_calls m @ map tk_callback (filter (\<lambda>t. task_called now (flagged ?m t)) ?ts)"
    "tm_pending m' = []" "list_all tk_completed ts'"
    using process_loop_ok [of run now ?ts ?m] assms by auto
  have "filter (\<lambda>t. \<not> tk_completed t) ts' = []" using loop(4) by (simp add: list_all_iff filter_empty_conv)
  with loop show ?thesis unfolding called by (simp add: manager_shutdown_def manager_process_def)
qed

text \<open>A periodic task asks for its own rescheduling and for a new task while the manager shuts down.\<close>

definition sample_run :: runner where
  "sample_run n t = (reschedule_in 5000 10 t, [\<lparr>ts_name = ''late'', ts_type = TT_SINGLE, ts_callback = 9,
     ts_delay_ms = 0, ts_period_ms = 0, ts_timestamp_ms = 0\<rparr>])"

definition sample_manager :: task_manager where
  "sample_manager =
     snd (add_single_task 1000 ''once'' 2 (snd (add_periodic_task 1000 ''poll'' 100 1 make_task_manager)))"

lemma sample_run_keeps: "tk_shutdown u \<Longrightarrow> tk_shutdown (fst (sample_run n u))"
  by (simp add: sample_run_def reschedule_in_def)

lemma shutdown_drains_witness:
  "map_option tm_calls (manager_shutdown sample_run 5000 sample_manager) = Some [1, 2]
   \<and> map_option tm_tasks (manager_shutdown sample_run 5000 sample_manager) = Some []"
  using shutdown_drains [where run = sample_run and now = 5000 and m = sample_manager, OF sample_run_keeps]
  by (auto simp: sample_manager_def make_task_manager_def add_single_task_def add_periodic_task_def add_task_def
      can_add_periodic_task_def is_valid_period_def make_task_def is_periodic_def)

text \<open>Two periodic tasks, one of them late by several periods, and a delayed one that is not due.\<close>

lemma process_sample:
  "map_option (\<lambda>m. (tm_calls m, map (\<lambda>t. (tk_callback t, tk_start_time t, tk_execution_time t)) (tm_tasks m)))
     (manager_process (\<lambda>n t. (t, [])) 1350
       (snd (add_delayed_task 1000 ''later'' 500 3
         (snd (add_periodic_task 1000 ''slow'' 400 2 (snd (add_periodic_task 1000 ''fast'' 100 1 make_task_manager)))))))
   = Some ([1], [(1, 1400, 1100), (2, 1400, 1400), (3, 1000, 1500)])"
  by (simp add: make_task_manager_def add_delayed_task_def add_periodic_task_def add_task_def
      can_add_periodic_task_def is_valid_period_def make_task_def manager_process_def process_one_def flagged_def
      task_process_def run_periodic_def run_single_def catch_up_exact Let_def initial_execution_time_def)

end
