(* ===== verification/Lifecycle.thy ===== *)
theory Lifecycle
  imports Prelude Contracts "HOL-Library.Sublist"
begin

section \<open>The lifecycle stack\<close>

text \<open>
  \<open>lifecycle/LifecycleStack.hpp\<close> and the module interface \<open>ILifecycleModule.hpp\<close>. A module is an address; its
  three operations act on the state \<open>'w\<close> that all modules share, so that one may affect another. They are an
  argument of the stack. The calls that the stack makes are logged. A module that calls back into its own stack is
  not modelled.
\<close>

subsection \<open>The stack\<close>

record 'w module_ops =
  mo_process :: "nat \<Rightarrow> 'w \<Rightarrow> 'w"
  mo_shutdown :: "nat \<Rightarrow> 'w \<Rightarrow> 'w"
  mo_is_stopped :: "nat \<Rightarrow> 'w \<Rightarrow> bool"

datatype module_call = Process nat | Shutdown nat

record 'w lifecycle_stack =
  ls_self :: nat
  ls_modules :: "nat list"
  ls_shutdown_cursor :: nat
  ls_shutdown_requested :: bool
  ls_current_shutdown_requested :: bool
  ls_stopped :: bool
  ls_world :: 'w
  ls_calls :: "module_call list"

definition make_lifecycle_stack :: "nat \<Rightarrow> 'w \<Rightarrow> 'w lifecycle_stack" where
  "make_lifecycle_stack self w =
     \<lparr>ls_self = self, ls_modules = [], ls_shutdown_cursor = 0, ls_shutdown_requested = False,
      ls_current_shutdown_requested = False, ls_stopped = False, ls_world = w, ls_calls = []\<rparr>"

definition add_module :: "nat \<Rightarrow> 'w lifecycle_stack \<Rightarrow> bool \<times> 'w lifecycle_stack" where
  "add_module m s =
     (if ls_shutdown_requested s \<or> m = ls_self s then (False, s)
      else if m \<in> set (ls_modules s) then (False, s)
      else (True, s\<lparr>ls_modules := ls_modules s @ [m]\<rparr>))"

definition call_process :: "'w module_ops \<Rightarrow> nat \<Rightarrow> 'w lifecycle_stack \<Rightarrow> 'w lifecycle_stack" where
  "call_process M m s =
     (if mo_is_stopped M m (ls_world s) then s
      else s\<lparr>ls_world := mo_process M m (ls_world s), ls_calls := ls_calls s @ [Process m]\<rparr>)"

definition call_shutdown :: "'w module_ops \<Rightarrow> nat \<Rightarrow> 'w lifecycle_stack \<Rightarrow> 'w lifecycle_stack" where
  "call_shutdown M m s =
     (if ls_current_shutdown_requested s then s
      else s\<lparr>ls_current_shutdown_requested := True, ls_world := mo_shutdown M m (ls_world s),
             ls_calls := ls_calls s @ [Shutdown m]\<rparr>)"

text \<open>The loop of \<open>advance_shutdown\<close>, the cursor its argument.\<close>

primrec advance_loop :: "'w module_ops \<Rightarrow> nat \<Rightarrow> 'w lifecycle_stack \<Rightarrow> 'w lifecycle_stack" where
  "advance_loop M 0 s = s\<lparr>ls_shutdown_cursor := 0, ls_stopped := True\<rparr>"
| "advance_loop M (Suc c) s =
     (let m = ls_modules s ! c
      in if mo_is_stopped M m (ls_world s) then advance_loop M c (s\<lparr>ls_current_shutdown_requested := False\<rparr>)
         else
           let s = call_shutdown M m s
           in if \<not> mo_is_stopped M m (ls_world s) then s\<lparr>ls_shutdown_cursor := Suc c\<rparr>
              else advance_loop M c (s\<lparr>ls_current_shutdown_requested := False\<rparr>))"

definition advance_shutdown :: "'w module_ops \<Rightarrow> 'w lifecycle_stack \<Rightarrow> 'w lifecycle_stack" where
  "advance_shutdown M s = advance_loop M (ls_shutdown_cursor s) s"

definition stack_process :: "'w module_ops \<Rightarrow> 'w lifecycle_stack \<Rightarrow> 'w lifecycle_stack" where
  "stack_process M s =
     (if ls_stopped s then s
      else
        let process_count = (if ls_shutdown_requested s then ls_shutdown_cursor s else length (ls_modules s));
            s = fold (call_process M) (take process_count (ls_modules s)) s
        in if ls_shutdown_requested s then advance_shutdown M s else s)"

definition stack_shutdown :: "'w module_ops \<Rightarrow> 'w lifecycle_stack \<Rightarrow> 'w lifecycle_stack" where
  "stack_shutdown M s =
     (if ls_stopped s \<or> ls_shutdown_requested s then s
      else advance_shutdown M (s\<lparr>ls_shutdown_requested := True, ls_shutdown_cursor := length (ls_modules s)\<rparr>))"

datatype stack_call = Add_module nat | Do_process | Do_shutdown

primrec stack_step :: "'w module_ops \<Rightarrow> 'w lifecycle_stack \<Rightarrow> stack_call \<Rightarrow> 'w lifecycle_stack" where
  "stack_step M s (Add_module m) = snd (add_module m s)"
| "stack_step M s Do_process = stack_process M s"
| "stack_step M s Do_shutdown = stack_shutdown M s"

subsection \<open>Frames\<close>

definition shutdowns :: "module_call list \<Rightarrow> nat list" where
  "shutdowns calls = concat (map (\<lambda>c. case c of Shutdown m \<Rightarrow> [m] | Process m \<Rightarrow> []) calls)"

lemma shutdowns_append [simp]: "shutdowns (xs @ ys) = shutdowns xs @ shutdowns ys"
  by (simp add: shutdowns_def)

lemma shutdowns_simps [simp]: "shutdowns [] = []" "shutdowns [Process m] = []" "shutdowns [Shutdown m] = [m]"
  by (simp_all add: shutdowns_def)

lemma call_process_frame [simp]:
  "ls_modules (call_process M m s) = ls_modules s"
  "ls_self (call_process M m s) = ls_self s"
  "ls_shutdown_cursor (call_process M m s) = ls_shutdown_cursor s"
  "ls_shutdown_requested (call_process M m s) = ls_shutdown_requested s"
  "ls_current_shutdown_requested (call_process M m s) = ls_current_shutdown_requested s"
  "ls_stopped (call_process M m s) = ls_stopped s"
  "shutdowns (ls_calls (call_process M m s)) = shutdowns (ls_calls s)"
  by (simp_all add: call_process_def)

lemma process_pass_frame [simp]:
  "ls_modules (fold (call_process M) ms s) = ls_modules s"
  "ls_self (fold (call_process M) ms s) = ls_self s"
  "ls_shutdown_cursor (fold (call_process M) ms s) = ls_shutdown_cursor s"
  "ls_shutdown_requested (fold (call_process M) ms s) = ls_shutdown_requested s"
  "ls_current_shutdown_requested (fold (call_process M) ms s) = ls_current_shutdown_requested s"
  "ls_stopped (fold (call_process M) ms s) = ls_stopped s"
  "shutdowns (ls_calls (fold (call_process M) ms s)) = shutdowns (ls_calls s)"
  by (induction ms arbitrary: s) simp_all

lemma advance_loop_frame [simp]:
  "ls_modules (advance_loop M c s) = ls_modules s"
  "ls_self (advance_loop M c s) = ls_self s"
  "ls_shutdown_requested (advance_loop M c s) = ls_shutdown_requested s"
  by (induction c arbitrary: s) (simp_all add: Let_def call_shutdown_def)

lemma advance_cursor: "ls_shutdown_cursor (advance_loop M c s) \<le> c"
  by (induction c arbitrary: s) (auto simp: Let_def le_SucI)

subsection \<open>The invariant\<close>

text \<open>The modules are distinct. Before the shutdown none has been asked to stop. Afterwards, those asked are
  among the ones beyond the cursor, the last first, and the one before the cursor is only among them while it is
  stopping.\<close>

definition asked_count :: "'w lifecycle_stack \<Rightarrow> nat" where
  "asked_count s = (if ls_current_shutdown_requested s then ls_shutdown_cursor s - 1 else ls_shutdown_cursor s)"

definition stack_inv :: "'w lifecycle_stack \<Rightarrow> bool" where
  "stack_inv s \<longleftrightarrow> distinct (ls_modules s) \<and> ls_self s \<notin> set (ls_modules s)
     \<and> (if ls_shutdown_requested s
        then ls_shutdown_cursor s \<le> length (ls_modules s)
          \<and> (ls_current_shutdown_requested s \<longrightarrow> 0 < ls_shutdown_cursor s)
          \<and> subseq (shutdowns (ls_calls s)) (rev (drop (asked_count s) (ls_modules s)))
          \<and> (ls_stopped s \<longleftrightarrow> ls_shutdown_cursor s = 0)
        else \<not> ls_stopped s \<and> \<not> ls_current_shutdown_requested s \<and> shutdowns (ls_calls s) = [])"

lemma subseq_set: "subseq xs ys \<Longrightarrow> x \<in> set xs \<Longrightarrow> x \<in> set ys"
  by (auto simp: subseq_conv_nths dest: in_set_nthsD)

lemma rev_drop_Suc: "c < length ms \<Longrightarrow> rev (drop c ms) = rev (drop (Suc c) ms) @ [ms ! c]"
  by (simp add: Cons_nth_drop_Suc [symmetric])

lemma subseq_drop_Suc: "c < length ms \<Longrightarrow> subseq xs (rev (drop (Suc c) ms)) \<Longrightarrow> subseq xs (rev (drop c ms))"
  by (simp add: rev_drop_Suc subseq_append_le_same_iff) (metis append_Nil2 list_emb_append_mono list_emb_Nil)

lemma advance_loop_inv:
  assumes "distinct (ls_modules s)" "ls_self s \<notin> set (ls_modules s)" "ls_shutdown_requested s"
    and "\<not> ls_stopped s" and "c \<le> length (ls_modules s)" and "ls_current_shutdown_requested s \<longrightarrow> 0 < c"
    and "subseq (shutdowns (ls_calls s)) (rev (drop (if ls_current_shutdown_requested s then c - 1 else c) (ls_modules s)))"
  shows "stack_inv (advance_loop M c s)"
  using assms
proof (induction c arbitrary: s)
  case 0
  then show ?case by (simp add: stack_inv_def asked_count_def)
next
  case (Suc c)
  let ?m = "ls_modules s ! c"
  have drop_c: "subseq (shutdowns (ls_calls s)) (rev (drop c (ls_modules s)))"
    using Suc.prems(5,7) by (cases "ls_current_shutdown_requested s") (simp_all add: subseq_drop_Suc)
  have asked: "subseq (shutdowns (ls_calls (call_shutdown M ?m s))) (rev (drop c (ls_modules s)))"
  proof (cases "ls_current_shutdown_requested s")
    case True
    with drop_c show ?thesis by (simp add: call_shutdown_def)
  next
    case False
    with Suc.prems(5,7) show ?thesis by (simp add: call_shutdown_def rev_drop_Suc)
  qed
  have frame [simp]: "ls_modules (call_shutdown M ?m s) = ls_modules s" "ls_self (call_shutdown M ?m s) = ls_self s"
    "ls_shutdown_requested (call_shutdown M ?m s) = ls_shutdown_requested s"
    "ls_current_shutdown_requested (call_shutdown M ?m s)" "ls_stopped (call_shutdown M ?m s) = ls_stopped s"
    by (simp_all add: call_shutdown_def)
  show ?case
  proof (cases "mo_is_stopped M ?m (ls_world s)")
    case True
    have "stack_inv (advance_loop M c (s\<lparr>ls_current_shutdown_requested := False\<rparr>))"
      by (rule Suc.IH) (use Suc.prems drop_c in simp_all)
    with True show ?thesis by simp
  next
    case running: False
    let ?s = "call_shutdown M ?m s"
    show ?thesis
    proof (cases "mo_is_stopped M ?m (ls_world ?s)")
      case True
      have "stack_inv (advance_loop M c (?s\<lparr>ls_current_shutdown_requested := False\<rparr>))"
        by (rule Suc.IH) (use Suc.prems asked in simp_all)
      with running True show ?thesis by simp
    next
      case False
      with running Suc.prems asked have "stack_inv (?s\<lparr>ls_shutdown_cursor := Suc c\<rparr>)"
        by (simp add: stack_inv_def asked_count_def)
      with running False show ?thesis by simp
    qed
  qed
qed

lemma stack_inv_add: "stack_inv s \<Longrightarrow> stack_inv (snd (add_module m s))"
  by (auto simp: add_module_def stack_inv_def)

lemma stack_inv_process: "stack_inv s \<Longrightarrow> stack_inv (stack_process M s)"
proof (cases "ls_stopped s")
  case False
  assume inv: "stack_inv s"
  show ?thesis
  proof (cases "ls_shutdown_requested s")
    case True
    let ?s = "fold (call_process M) (take (ls_shutdown_cursor s) (ls_modules s)) s"
    have "stack_inv (advance_loop M (ls_shutdown_cursor s) ?s)"
      by (rule advance_loop_inv) (use inv True False in \<open>simp_all add: stack_inv_def asked_count_def\<close>)
    with True False show ?thesis by (simp add: stack_process_def advance_shutdown_def)
  next
    case no: False
    with inv False show ?thesis by (simp add: stack_process_def stack_inv_def)
  qed
qed (simp add: stack_process_def)

lemma stack_inv_shutdown: "stack_inv s \<Longrightarrow> stack_inv (stack_shutdown M s)"
proof (cases "ls_stopped s \<or> ls_shutdown_requested s")
  case False
  assume inv: "stack_inv s"
  let ?s = "s\<lparr>ls_shutdown_requested := True, ls_shutdown_cursor := length (ls_modules s)\<rparr>"
  have "stack_inv (advance_loop M (length (ls_modules s)) ?s)"
    by (rule advance_loop_inv) (use inv False in \<open>simp_all add: stack_inv_def\<close>)
  with False show ?thesis by (simp add: stack_shutdown_def advance_shutdown_def)
qed (simp add: stack_shutdown_def)

interpretation stack: machine "stack_step M" "\<lambda>_. True" stack_inv
proof unfold_locales
  fix s :: "'a lifecycle_stack" and e
  assume "stack_inv s"
  then show "stack_inv (stack_step M s e)"
    by (cases e) (simp_all add: stack_inv_add stack_inv_process stack_inv_shutdown)
qed

lemma stack_inv_make: "stack_inv (make_lifecycle_stack self w)"
  by (simp add: stack_inv_def make_lifecycle_stack_def)

lemma stack_inv_run: "stack_inv (foldl (stack_step M) (make_lifecycle_stack self w) cs)"
  by (rule stack.run_inv [OF stack_inv_make]) (simp add: list.pred_True)

text \<open>Whatever calls are made on a stack, each module is asked to stop at most once, and the modules are asked in the reverse of the order they were registered in.\<close>

theorem shutdown_reverse_order:
  "let s = foldl (stack_step M) (make_lifecycle_stack self w) cs
   in subseq (shutdowns (ls_calls s)) (rev (ls_modules s)) \<and> distinct (shutdowns (ls_calls s))"
proof -
  let ?s = "foldl (stack_step M) (make_lifecycle_stack self w) cs"
  have inv: "stack_inv ?s" by (rule stack_inv_run)
  have "rev (ls_modules ?s) = rev (drop n (ls_modules ?s)) @ rev (take n (ls_modules ?s))" for n
    by (simp flip: rev_append)
  then have "subseq (rev (drop n (ls_modules ?s))) (rev (ls_modules ?s))" for n
    by (metis subseq_rev_drop_many subseq_order.order_refl)
  with inv have "subseq (shutdowns (ls_calls ?s)) (rev (ls_modules ?s))"
    by (auto simp: stack_inv_def split: if_splits intro: subseq_order.order_trans)
  moreover from this inv have "distinct (shutdowns (ls_calls ?s))"
    by (auto simp: stack_inv_def subseq_conv_nths intro: distinct_nthsI)
  ultimately show ?thesis by (simp add: Let_def)
qed

subsection \<open>Stopped modules\<close>

text \<open>What the interface promises of a module: once stopped it stays so, whatever is called on any module.\<close>

definition stays_stopped :: "'w module_ops \<Rightarrow> bool" where
  "stays_stopped M \<longleftrightarrow> (\<forall>n m w. mo_is_stopped M n w \<longrightarrow>
     mo_is_stopped M n (mo_process M m w) \<and> mo_is_stopped M n (mo_shutdown M m w))"

lemma call_process_stays:
  "stays_stopped M \<Longrightarrow> mo_is_stopped M n (ls_world s) \<Longrightarrow> mo_is_stopped M n (ls_world (call_process M m s))"
  by (simp add: call_process_def stays_stopped_def)

lemma process_pass_stays:
  "stays_stopped M \<Longrightarrow> mo_is_stopped M n (ls_world s) \<Longrightarrow> mo_is_stopped M n (ls_world (fold (call_process M) ms s))"
  by (induction ms arbitrary: s) (simp_all add: call_process_stays)

lemma call_shutdown_stays:
  "stays_stopped M \<Longrightarrow> mo_is_stopped M n (ls_world s) \<Longrightarrow> mo_is_stopped M n (ls_world (call_shutdown M m s))"
  by (simp add: call_shutdown_def stays_stopped_def)

lemma advance_loop_stays:
  "stays_stopped M \<Longrightarrow> mo_is_stopped M n (ls_world s) \<Longrightarrow> mo_is_stopped M n (ls_world (advance_loop M c s))"
  by (induction c arbitrary: s) (simp_all add: Let_def call_shutdown_stays)

lemma advance_loop_stopped:
  assumes "stays_stopped M" and "ls_shutdown_cursor (advance_loop M c s) \<le> j" "j < c"
  shows "mo_is_stopped M (ls_modules s ! j) (ls_world (advance_loop M c s))"
  using assms(2,3)
proof (induction c arbitrary: s)
  case (Suc c)
  let ?m = "ls_modules s ! c"
  let ?s = "call_shutdown M ?m s"
  have [simp]: "ls_modules ?s = ls_modules s" by (simp add: call_shutdown_def)
  consider "mo_is_stopped M ?m (ls_world s)" | "\<not> mo_is_stopped M ?m (ls_world s)" "\<not> mo_is_stopped M ?m (ls_world ?s)"
    | "\<not> mo_is_stopped M ?m (ls_world s)" "mo_is_stopped M ?m (ls_world ?s)" by blast
  then show ?case
  proof cases
    case 1
    let ?n = "s\<lparr>ls_current_shutdown_requested := False\<rparr>"
    have "mo_is_stopped M ?m (ls_world (advance_loop M c ?n))" using advance_loop_stays [OF assms(1), of _ ?n] 1 by simp
    with Suc.IH [of ?n] Suc.prems 1 show ?thesis by (cases "j = c") simp_all
  next
    case 2
    with Suc.prems show ?thesis by simp
  next
    case 3
    let ?n = "?s\<lparr>ls_current_shutdown_requested := False\<rparr>"
    have "mo_is_stopped M ?m (ls_world (advance_loop M c ?n))" using advance_loop_stays [OF assms(1), of _ ?n] 3 by simp
    with Suc.IH [of ?n] Suc.prems 3 show ?thesis by (cases "j = c") simp_all
  qed
qed simp

definition beyond_stopped :: "'w module_ops \<Rightarrow> 'w lifecycle_stack \<Rightarrow> bool" where
  "beyond_stopped M s \<longleftrightarrow> (ls_shutdown_requested s \<longrightarrow>
     (\<forall>j. ls_shutdown_cursor s \<le> j \<and> j < length (ls_modules s) \<longrightarrow> mo_is_stopped M (ls_modules s ! j) (ls_world s)))"

lemma beyond_stopped_advance:
  assumes "stays_stopped M" "ls_shutdown_requested s"
    and "\<And>j. c \<le> j \<Longrightarrow> j < length (ls_modules s) \<Longrightarrow> mo_is_stopped M (ls_modules s ! j) (ls_world s)"
  shows "beyond_stopped M (advance_loop M c s)"
  unfolding beyond_stopped_def
proof (intro impI allI)
  fix j assume j: "ls_shutdown_cursor (advance_loop M c s) \<le> j \<and> j < length (ls_modules (advance_loop M c s))"
  show "mo_is_stopped M (ls_modules (advance_loop M c s) ! j) (ls_world (advance_loop M c s))"
  proof (cases "j < c")
    case True
    with j advance_loop_stopped [OF assms(1)] show ?thesis by simp
  next
    case False
    with j assms(3) advance_loop_stays [OF assms(1)] show ?thesis by simp
  qed
qed

lemma beyond_stopped_step:
  assumes M: "stays_stopped M" and b: "beyond_stopped M s"
  shows "beyond_stopped M (stack_step M s e)"
proof (cases e)
  case (Add_module m)
  with b show ?thesis by (simp add: add_module_def beyond_stopped_def)
next
  case Do_process
  let ?s = "fold (call_process M) (take (ls_shutdown_cursor s) (ls_modules s)) s"
  have "ls_shutdown_requested s \<Longrightarrow> beyond_stopped M (advance_loop M (ls_shutdown_cursor s) ?s)"
    by (rule beyond_stopped_advance [OF M]) (use b in \<open>simp_all add: beyond_stopped_def process_pass_stays [OF M]\<close>)
  moreover have "\<not> ls_shutdown_requested s \<Longrightarrow> beyond_stopped M (fold (call_process M) (ls_modules s) s)"
    by (simp add: beyond_stopped_def)
  ultimately show ?thesis using b Do_process by (simp add: stack_process_def advance_shutdown_def)
next
  case Do_shutdown
  let ?s = "s\<lparr>ls_shutdown_requested := True, ls_shutdown_cursor := length (ls_modules s)\<rparr>"
  have "beyond_stopped M (advance_loop M (length (ls_modules s)) ?s)"
    by (rule beyond_stopped_advance [OF M]) simp_all
  with b Do_shutdown show ?thesis by (simp add: stack_shutdown_def advance_shutdown_def)
qed

text \<open>When a module has been asked to stop, every module registered after it, which may depend on it, has stopped, provided that stopped modules stay stopped.\<close>

theorem dependents_stop_first:
  assumes "stays_stopped M" and "s = foldl (stack_step M) (make_lifecycle_stack self w) cs"
    and "i < j" "j < length (ls_modules s)" "ls_modules s ! i \<in> set (shutdowns (ls_calls s))"
  shows "mo_is_stopped M (ls_modules s ! j) (ls_world s)"
proof -
  have inv: "stack_inv s" unfolding assms(2) by (rule stack_inv_run)
  have "beyond_stopped M (foldl (stack_step M) t cs)" if "beyond_stopped M t" for t
    using that by (induction cs arbitrary: t) (simp_all add: beyond_stopped_step [OF assms(1)])
  then have b: "beyond_stopped M s"
    unfolding assms(2) by (simp add: beyond_stopped_def make_lifecycle_stack_def)
  from inv assms(5) have req: "ls_shutdown_requested s" by (auto simp: stack_inv_def split: if_splits)
  with inv assms(5) have "ls_modules s ! i \<in> set (drop (asked_count s) (ls_modules s))"
    by (auto simp: stack_inv_def dest: subseq_set)
  then obtain k where "asked_count s \<le> k" "k < length (ls_modules s)" "ls_modules s ! k = ls_modules s ! i"
    by (auto simp: in_set_conv_nth) (metis add.commute le_add1 less_diff_conv)
  with inv assms(3,4) have "asked_count s \<le> i" by (auto simp: stack_inv_def nth_eq_iff_index_eq)
  with assms(3) have "ls_shutdown_cursor s \<le> j" by (simp add: asked_count_def split: if_splits)
  with b req assms(4) show ?thesis by (simp add: beyond_stopped_def)
qed

subsection \<open>Completion\<close>

text \<open>A module that was asked to stop makes progress with each of its turns, and no other module's turn undoes
  it: \<open>asked\<close> says that it was asked, \<open>work\<close> how much it has left.\<close>

definition stops_when_asked :: "'w module_ops \<Rightarrow> (nat \<Rightarrow> 'w \<Rightarrow> bool) \<Rightarrow> (nat \<Rightarrow> 'w \<Rightarrow> nat) \<Rightarrow> bool" where
  "stops_when_asked M asked work \<longleftrightarrow> stays_stopped M \<and> (\<forall>n m w.
     asked n (mo_shutdown M n w)
     \<and> (asked n w \<longrightarrow> asked n (mo_process M m w) \<and> asked n (mo_shutdown M m w)
          \<and> work n (mo_process M m w) \<le> work n w \<and> work n (mo_shutdown M m w) \<le> work n w)
     \<and> (asked n w \<and> \<not> mo_is_stopped M n w \<longrightarrow> work n (mo_process M n w) < work n w))"

lemma process_pass_asked:
  assumes "stops_when_asked M asked work" and "asked n (ls_world s)"
  shows "asked n (ls_world (fold (call_process M) ms s)) \<and> work n (ls_world (fold (call_process M) ms s)) \<le> work n (ls_world s)"
  using assms(2)
proof (induction ms arbitrary: s)
  case (Cons m ms)
  have "asked n (ls_world (call_process M m s)) \<and> work n (ls_world (call_process M m s)) \<le> work n (ls_world s)"
    using assms(1) Cons.prems by (simp add: call_process_def stops_when_asked_def)
  with Cons.IH [of "call_process M m s"] show ?case by auto
qed simp

lemma process_pass_progress:
  assumes "stops_when_asked M asked work" and "asked n (ls_world s)" and "n \<in> set ms"
    and "\<not> mo_is_stopped M n (ls_world (fold (call_process M) ms s))"
  shows "work n (ls_world (fold (call_process M) ms s)) < work n (ls_world s)"
proof -
  from assms(3) obtain xs ys where ms: "ms = xs @ n # ys" by (auto simp: in_set_conv_decomp)
  let ?s = "fold (call_process M) xs s" and ?t = "call_process M n (fold (call_process M) xs s)"
  have M: "stays_stopped M" using assms(1) by (simp add: stops_when_asked_def)
  have x: "asked n (ls_world ?s) \<and> work n (ls_world ?s) \<le> work n (ls_world s)"
    by (rule process_pass_asked [OF assms(1,2)])
  have "\<not> mo_is_stopped M n (ls_world ?s)"
    using assms(4) process_pass_stays [OF M] call_process_stays [OF M] unfolding ms by fastforce
  with assms(1) x have y: "asked n (ls_world ?t) \<and> work n (ls_world ?t) < work n (ls_world ?s)"
    by (simp add: call_process_def stops_when_asked_def)
  with process_pass_asked [OF assms(1), of n ?t ys] x show ?thesis by (simp add: ms)
qed

text \<open>The state of a stack that is stopping: the module before the cursor was asked to stop.\<close>

definition stopping :: "(nat \<Rightarrow> 'w \<Rightarrow> bool) \<Rightarrow> 'w lifecycle_stack \<Rightarrow> bool" where
  "stopping asked s \<longleftrightarrow> ls_shutdown_requested s \<and> ls_shutdown_cursor s \<le> length (ls_modules s) \<and>
     (\<not> ls_stopped s \<longrightarrow> 0 < ls_shutdown_cursor s \<and> ls_current_shutdown_requested s
        \<and> asked (ls_modules s ! (ls_shutdown_cursor s - 1)) (ls_world s))"

lemma advance_loop_stopping:
  assumes "stops_when_asked M asked work" "ls_shutdown_requested s" "c \<le> length (ls_modules s)" "\<not> ls_stopped s"
    and "ls_current_shutdown_requested s \<longrightarrow> 0 < c \<and> asked (ls_modules s ! (c - 1)) (ls_world s)"
  shows "stopping asked (advance_loop M c s)"
  using assms(2-)
proof (induction c arbitrary: s)
  case 0
  then show ?case by (simp add: stopping_def)
next
  case (Suc c)
  let ?m = "ls_modules s ! c"
  let ?s = "call_shutdown M ?m s"
  have frame [simp]: "ls_modules ?s = ls_modules s" "ls_shutdown_requested ?s = ls_shutdown_requested s"
    "ls_current_shutdown_requested ?s" "ls_stopped ?s = ls_stopped s"
    by (simp_all add: call_shutdown_def)
  have asked: "asked ?m (ls_world ?s)"
    using Suc.prems(4) assms(1) by (simp add: call_shutdown_def stops_when_asked_def)
  have "stopping asked (advance_loop M c (s\<lparr>ls_current_shutdown_requested := False\<rparr>))"
    "stopping asked (advance_loop M c (?s\<lparr>ls_current_shutdown_requested := False\<rparr>))"
    by (rule Suc.IH; use Suc.prems in simp)+
  then show ?case using Suc.prems asked
    by (simp add: Let_def) (simp add: stopping_def)
qed

lemma advance_loop_waiting:
  assumes "ls_current_shutdown_requested s" and "ls_shutdown_cursor (advance_loop M (Suc c) s) = Suc c"
  shows "ls_world (advance_loop M (Suc c) s) = ls_world s \<and> \<not> mo_is_stopped M (ls_modules s ! c) (ls_world s)"
proof -
  have "ls_shutdown_cursor (advance_loop M c t) \<noteq> Suc c" for t
    using advance_cursor [of M c t] by simp
  with assms show ?thesis by (simp add: call_shutdown_def Let_def split: if_splits)
qed

lemma stopping_process:
  assumes M: "stops_when_asked M asked work" and s: "stopping asked s" "\<not> ls_stopped s"
  shows "stopping asked (stack_process M s) \<and>
    (ls_shutdown_cursor (stack_process M s) < ls_shutdown_cursor s \<or>
     ls_shutdown_cursor (stack_process M s) = ls_shutdown_cursor s \<and>
     ls_modules (stack_process M s) = ls_modules s \<and>
     work (ls_modules s ! (ls_shutdown_cursor s - 1)) (ls_world (stack_process M s))
       < work (ls_modules s ! (ls_shutdown_cursor s - 1)) (ls_world s))"
proof -
  obtain c where c: "ls_shutdown_cursor s = Suc c" using s by (auto simp: stopping_def gr0_conv_Suc)
  let ?n = "ls_modules s ! c"
  let ?s = "fold (call_process M) (take (Suc c) (ls_modules s)) s"
  have eq: "stack_process M s = advance_loop M (Suc c) ?s"
    using s c by (simp add: stack_process_def stopping_def advance_shutdown_def Let_def del: advance_loop.simps)
  have asked: "asked ?n (ls_world s)" and len: "Suc c \<le> length (ls_modules s)" using s c by (simp_all add: stopping_def)
  have n: "?n \<in> set (take (Suc c) (ls_modules s))" using len by (simp add: take_Suc_conv_app_nth)
  have "stopping asked (advance_loop M (Suc c) ?s)"
    by (rule advance_loop_stopping [OF M])
       (use s c process_pass_asked [OF M asked] in \<open>simp_all add: stopping_def del: take_Suc\<close>)
  moreover have "work ?n (ls_world (advance_loop M (Suc c) ?s)) < work ?n (ls_world s)"
    if "ls_shutdown_cursor (advance_loop M (Suc c) ?s) = Suc c"
  proof -
    have "ls_current_shutdown_requested ?s" using s by (simp add: stopping_def)
    from advance_loop_waiting [OF this that]
    show ?thesis using process_pass_progress [OF M asked n] by (simp del: advance_loop.simps)
  qed
  ultimately show ?thesis
    using advance_cursor [of M "Suc c" ?s] unfolding eq c by (auto simp del: advance_loop.simps)
qed

lemma stopping_ends:
  assumes M: "stops_when_asked M asked work" and "stopping asked s"
  shows "\<exists>k. ls_stopped ((stack_process M ^^ k) s)"
  using assms(2)
proof (induction "(ls_shutdown_cursor s, work (ls_modules s ! (ls_shutdown_cursor s - 1)) (ls_world s))"
    arbitrary: s rule: wf_induct_rule [OF wf_lex_prod [OF wf_less_than wf_less_than]])
  case (1 s)
  show ?case
  proof (cases "ls_stopped s")
    case True
    then show ?thesis by (intro exI [of _ 0]) simp
  next
    case False
    from stopping_process [OF M "1.prems" False] "1.hyps" [of "stack_process M s"]
    obtain k where "ls_stopped ((stack_process M ^^ k) (stack_process M s))" by auto
    then show ?thesis by (intro exI [of _ "Suc k"]) (simp add: funpow_swap1)
  qed
qed

text \<open>C34: If every module that is asked to stop does so after finitely many of its turns, and stopped modules stay stopped, then the stack has stopped after finitely many calls of process.\<close>

theorem shutdown_completes:
  assumes "stops_when_asked M asked work" and "s = foldl (stack_step M) (make_lifecycle_stack self w) cs"
    and "\<not> ls_shutdown_requested s"
  shows "\<exists>k. ls_stopped ((stack_process M ^^ k) (stack_shutdown M s))"
proof -
  have inv: "stack_inv s" unfolding assms(2) by (rule stack_inv_run)
  let ?s = "s\<lparr>ls_shutdown_requested := True, ls_shutdown_cursor := length (ls_modules s)\<rparr>"
  have "stopping asked (advance_loop M (length (ls_modules s)) ?s)"
    by (rule advance_loop_stopping [OF assms(1)]) (use inv assms(3) in \<open>simp_all add: stack_inv_def\<close>)
  then show ?thesis
    using inv assms(3) stopping_ends [OF assms(1)]
    by (simp add: stack_shutdown_def advance_shutdown_def stack_inv_def)
qed

text \<open>Modules that need as many turns as their second component says.\<close>

definition sample_modules :: "(nat \<Rightarrow> bool \<times> nat) module_ops" where
  "sample_modules =
     \<lparr>mo_process = \<lambda>n w. w(n := (fst (w n), if fst (w n) then snd (w n) - 1 else snd (w n))),
      mo_shutdown = \<lambda>n w. w(n := (True, snd (w n))),
      mo_is_stopped = \<lambda>n w. fst (w n) \<and> snd (w n) = 0\<rparr>"

lemma sample_modules_stop: "stops_when_asked sample_modules (\<lambda>n w. fst (w n)) (\<lambda>n w. snd (w n))"
  by (simp add: stops_when_asked_def stays_stopped_def sample_modules_def)

definition sample_stack :: "(nat \<Rightarrow> bool \<times> nat) lifecycle_stack" where
  "sample_stack = foldl (stack_step sample_modules) (make_lifecycle_stack 0 (\<lambda>n. (False, n))) [Add_module 1, Add_module 2]"

lemma shutdown_completes_witness:
  "\<exists>k. ls_stopped ((stack_process sample_modules ^^ k) (stack_shutdown sample_modules sample_stack))"
proof (rule shutdown_completes [OF sample_modules_stop sample_stack_def])
  show "\<not> ls_shutdown_requested sample_stack" by code_simp
qed

text \<open>Three turns in, the second module has stopped and the first has been asked to.\<close>

lemma sample_stopping:
  "(let s = foldl (stack_step sample_modules) (make_lifecycle_stack 0 (\<lambda>n. (False, n)))
      [Add_module 1, Add_module 2, Do_process, Do_shutdown, Do_process, Do_process]
    in (ls_modules s, ls_calls s, ls_stopped s))
   = ([1, 2], [Process 1, Process 2, Shutdown 2, Process 1, Process 2, Process 1, Process 2, Shutdown 1], False)"
  by code_simp

lemma dependents_stop_first_witness:
  "mo_is_stopped sample_modules 2
     (ls_world (foldl (stack_step sample_modules) (make_lifecycle_stack 0 (\<lambda>n. (False, n)))
       [Add_module 1, Add_module 2, Do_process, Do_shutdown, Do_process, Do_process]))"
proof -
  let ?s = "foldl (stack_step sample_modules) (make_lifecycle_stack 0 (\<lambda>n. (False, n)))
       [Add_module 1, Add_module 2, Do_process, Do_shutdown, Do_process, Do_process]"
  have s: "ls_modules ?s = [1, 2]" "1 \<in> set (shutdowns (ls_calls ?s))"
    using sample_stopping by (simp_all add: Let_def shutdowns_def)
  have "stays_stopped sample_modules" using sample_modules_stop by (simp add: stops_when_asked_def)
  from dependents_stop_first [OF this refl, of 0 1 0 "\<lambda>n. (False, n)" "[Add_module 1, Add_module 2, Do_process, Do_shutdown, Do_process, Do_process]"]
  show ?thesis using s by simp
qed

end
