(* ===== verification/Events.thy ===== *)
theory Events
  imports Prelude Contracts
begin

section \<open>Publish/subscribe\<close>

text \<open>
  \<open>utils/pubsub/EventBus.hpp\<close>, \<open>EventBus.ipp\<close> and \<open>EventAwaiter.hpp\<close>. Event types, owners and callbacks are
  numbers; \<open>0\<close> stands for the null listener. The two maps of the bus send a type to its callbacks and to its
  listeners. What a subscriber does with an event is a parameter: it changes the state \<open>'w\<close> that the subscribers
  share and calls the bus. A synchronous notification may nest, so \<open>notify\<close> takes the depth of calls that the
  stack still allows; \<open>None\<close> is its overflow. A handler that runs the queue itself is not modelled. Deliveries are logged with the depth left when they were made, and
  so are the events posted and the events taken from the queue.
\<close>

subsection \<open>The bus\<close>

record event =
  ev_type :: nat
  ev_data :: nat

datatype subscriber = Callback nat | Listener nat

record callback_record =
  cr_owner :: nat
  cr_callback :: nat

record 'w event_bus =
  eb_callbacks :: "nat \<Rightarrow> callback_record list"
  eb_listeners :: "nat \<Rightarrow> nat list"
  eb_queue :: "event list"
  eb_world :: 'w
  eb_deliveries :: "(nat \<times> subscriber \<times> event) list"
  eb_posted :: "event list"
  eb_taken :: "event list"

definition make_event_bus :: "'w \<Rightarrow> 'w event_bus" where
  "make_event_bus w = \<lparr>eb_callbacks = \<lambda>_. [], eb_listeners = \<lambda>_. [], eb_queue = [], eb_world = w,
     eb_deliveries = [], eb_posted = [], eb_taken = []\<rparr>"

definition subscribe_callback :: "nat \<Rightarrow> nat \<Rightarrow> nat \<Rightarrow> 'w event_bus \<Rightarrow> 'w event_bus" where
  "subscribe_callback ty owner callback b =
     b\<lparr>eb_callbacks := (eb_callbacks b)(ty := eb_callbacks b ty @ [\<lparr>cr_owner = owner, cr_callback = callback\<rparr>])\<rparr>"

definition subscribe_listener :: "nat \<Rightarrow> nat \<Rightarrow> 'w event_bus \<Rightarrow> 'w event_bus" where
  "subscribe_listener ty listener b =
     (if listener \<in> set (eb_listeners b ty) then b
      else b\<lparr>eb_listeners := (eb_listeners b)(ty := eb_listeners b ty @ [listener])\<rparr>)"

definition unsubscribe :: "nat \<Rightarrow> nat \<Rightarrow> 'w event_bus \<Rightarrow> 'w event_bus" where
  "unsubscribe ty owner b =
     b\<lparr>eb_callbacks := (eb_callbacks b)(ty := filter (\<lambda>rec. cr_owner rec \<noteq> owner) (eb_callbacks b ty)),
       eb_listeners := (eb_listeners b)(ty := filter (\<lambda>l. l \<noteq> owner) (eb_listeners b ty))\<rparr>"

definition unsubscribe_all :: "nat \<Rightarrow> 'w event_bus \<Rightarrow> 'w event_bus" where
  "unsubscribe_all owner b =
     b\<lparr>eb_callbacks := (\<lambda>ty. filter (\<lambda>rec. cr_owner rec \<noteq> owner) (eb_callbacks b ty)),
       eb_listeners := (\<lambda>ty. filter (\<lambda>l. l \<noteq> owner) (eb_listeners b ty))\<rparr>"

definition notify_async :: "event option \<Rightarrow> 'w event_bus \<Rightarrow> 'w event_bus" where
  "notify_async event b =
     (case event of
        None \<Rightarrow> b
      | Some e \<Rightarrow> b\<lparr>eb_queue := eb_queue b @ [e], eb_posted := eb_posted b @ [e]\<rparr>)"

text \<open>The calls a subscriber may make on the bus.\<close>

datatype bus_call =
    Subscribe_callback nat nat nat
  | Subscribe_listener nat nat
  | Unsubscribe nat nat
  | Unsubscribe_all nat
  | Notify event
  | Notify_async event

type_synonym 'w handlers = "subscriber \<Rightarrow> event \<Rightarrow> 'w \<Rightarrow> bus_call list \<times> 'w"

text \<open>A loop whose body may fail.\<close>

primrec each :: "('a \<Rightarrow> 's \<Rightarrow> 's option) \<Rightarrow> 'a list \<Rightarrow> 's \<Rightarrow> 's option" where
  "each f [] s = Some s"
| "each f (x # xs) s = (case f x s of None \<Rightarrow> None | Some s \<Rightarrow> each f xs s)"

primrec run_call :: "(event \<Rightarrow> 'w event_bus \<Rightarrow> 'w event_bus option) \<Rightarrow> bus_call \<Rightarrow> 'w event_bus \<Rightarrow> 'w event_bus option" where
  "run_call notify (Subscribe_callback ty owner callback) b = Some (subscribe_callback ty owner callback b)"
| "run_call notify (Subscribe_listener ty listener) b = Some (subscribe_listener ty listener b)"
| "run_call notify (Unsubscribe ty owner) b = Some (unsubscribe ty owner b)"
| "run_call notify (Unsubscribe_all owner) b = Some (unsubscribe_all owner b)"
| "run_call notify (Notify e) b = notify e b"
| "run_call notify (Notify_async e) b = Some (notify_async (Some e) b)"

text \<open>The copies that \<open>notify\<close> takes: the callbacks of the type of the event, then its listeners, without the null one.\<close>

definition subscribers :: "nat \<Rightarrow> 'w event_bus \<Rightarrow> subscriber list" where
  "subscribers ty b =
     map (\<lambda>rec. Callback (cr_callback rec)) (eb_callbacks b ty) @ map Listener (filter (\<lambda>l. l \<noteq> 0) (eb_listeners b ty))"

definition deliver ::
  "'w handlers \<Rightarrow> nat \<Rightarrow> (event \<Rightarrow> 'w event_bus \<Rightarrow> 'w event_bus option) \<Rightarrow> event \<Rightarrow> subscriber \<Rightarrow> 'w event_bus \<Rightarrow> 'w event_bus option" where
  "deliver H d notify e r b =
     (let (calls, w) = H r e (eb_world b)
      in each (run_call notify) calls (b\<lparr>eb_world := w, eb_deliveries := eb_deliveries b @ [(d, r, e)]\<rparr>))"

primrec notify :: "'w handlers \<Rightarrow> nat \<Rightarrow> event \<Rightarrow> 'w event_bus \<Rightarrow> 'w event_bus option" where
  "notify H 0 e b = None"
| "notify H (Suc d) e b = each (deliver H d (notify H d) e) (subscribers (ev_type e) b) b"

definition take_event :: "'w handlers \<Rightarrow> nat \<Rightarrow> event \<Rightarrow> 'w event_bus \<Rightarrow> 'w event_bus option" where
  "take_event H d e b = notify H d e (b\<lparr>eb_taken := eb_taken b @ [e]\<rparr>)"

definition bus_process :: "'w handlers \<Rightarrow> nat \<Rightarrow> 'w event_bus \<Rightarrow> 'w event_bus option" where
  "bus_process H d b = each (take_event H d) (eb_queue b) (b\<lparr>eb_queue := []\<rparr>)"

text \<open>\<open>drain\<close>: the number of events processed.\<close>

primrec drain_loop :: "'w handlers \<Rightarrow> nat \<Rightarrow> nat \<Rightarrow> nat \<Rightarrow> 'w event_bus \<Rightarrow> (nat \<times> 'w event_bus) option" where
  "drain_loop H d 0 n b = Some (n, b)"
| "drain_loop H d (Suc rounds) n b =
     (if eb_queue b = [] then Some (n, b)
      else case bus_process H d b of
        None \<Rightarrow> None
      | Some b' \<Rightarrow> drain_loop H d rounds (n + length (eb_queue b)) b')"

definition drain :: "'w handlers \<Rightarrow> nat \<Rightarrow> nat \<Rightarrow> 'w event_bus \<Rightarrow> (nat \<times> 'w event_bus) option" where
  "drain H d max_rounds b = drain_loop H d max_rounds 0 b"

subsection \<open>Loops\<close>

lemma each_append: "each f (xs @ ys) s = (case each f xs s of None \<Rightarrow> None | Some s \<Rightarrow> each f ys s)"
  by (induction xs arbitrary: s) (simp_all split: option.split)

text \<open>A loop keeps what each step keeps, and succeeds if each step does.\<close>

lemma each_some:
  assumes "\<And>x s. x \<in> set xs \<Longrightarrow> f x s \<noteq> None"
  shows "each f xs s \<noteq> None"
  using assms
proof (induction xs arbitrary: s)
  case (Cons x xs)
  then obtain s' where "f x s = Some s'" by fastforce
  with Cons.IH [of s'] Cons.prems show ?case by simp
qed simp

lemma each_rel:
  assumes "each f xs s = Some s'" and "\<And>s. R s s" and "\<And>s t u. R s t \<Longrightarrow> R t u \<Longrightarrow> R s u"
    and "\<And>x s s'. x \<in> set xs \<Longrightarrow> f x s = Some s' \<Longrightarrow> R s s'"
  shows "R s s'"
  using assms(1,4)
proof (induction xs arbitrary: s)
  case Nil
  then show ?case using assms(2) by simp
next
  case (Cons x xs)
  from Cons.prems(1) obtain t where t: "f x s = Some t" "each f xs t = Some s'" by (auto split: option.splits)
  have "R s t" by (rule Cons.prems(2) [OF _ t(1)]) simp
  moreover have "R t s'" by (rule Cons.IH [OF t(2)], rule Cons.prems(2)) simp_all
  ultimately show ?case by (rule assms(3))
qed

subsection \<open>Delivery\<close>

text \<open>What a notification may do to a bus: new deliveries of lower depth, and new events at the end of the queue.\<close>

definition grows :: "nat \<Rightarrow> 'w event_bus \<Rightarrow> 'w event_bus \<Rightarrow> bool" where
  "grows d b b' \<longleftrightarrow> eb_taken b' = eb_taken b
     \<and> (\<exists>new. eb_deliveries b' = eb_deliveries b @ new \<and> list_all (\<lambda>x. fst x < d) new)
     \<and> (\<exists>xs. eb_queue b' = eb_queue b @ xs \<and> eb_posted b' = eb_posted b @ xs)"

lemma grows_refl: "grows d b b"
  by (simp add: grows_def)

lemma grows_trans: "grows d a b \<Longrightarrow> grows d b c \<Longrightarrow> grows d a c"
  by (fastforce simp: grows_def)

lemma grows_mono: "grows d a b \<Longrightarrow> d \<le> d' \<Longrightarrow> grows d' a b"
  by (fastforce simp: grows_def list_all_iff)

lemma run_call_grows:
  assumes "run_call n c b = Some b'" and "\<And>e b b'. n e b = Some b' \<Longrightarrow> grows d b b'"
  shows "grows d b b'"
  using assms
  by (cases c) (auto simp: grows_def subscribe_callback_def subscribe_listener_def unsubscribe_def unsubscribe_all_def
      notify_async_def)

lemma deliver_grows:
  assumes "deliver H d n e r b = Some b'" and "\<And>e b b'. n e b = Some b' \<Longrightarrow> grows d b b'"
  shows "\<exists>new. eb_deliveries b' = eb_deliveries b @ (d, r, e) # new \<and> list_all (\<lambda>x. fst x < d) new"
    and "grows (Suc d) b b'"
proof -
  obtain calls w where c: "H r e (eb_world b) = (calls, w)" by fastforce
  let ?b = "b\<lparr>eb_world := w, eb_deliveries := eb_deliveries b @ [(d, r, e)]\<rparr>"
  have "each (run_call n) calls ?b = Some b'" using assms(1) c by (simp add: deliver_def)
  then have g: "grows d ?b b'"
    by (rule each_rel [where R = "grows d"]) (use grows_refl grows_trans run_call_grows assms(2) in blast)+
  then show "\<exists>new. eb_deliveries b' = eb_deliveries b @ (d, r, e) # new \<and> list_all (\<lambda>x. fst x < d) new"
    by (fastforce simp: grows_def)
  have "grows (Suc d) b ?b" by (simp add: grows_def)
  with grows_mono [OF g, of "Suc d"] grows_trans show "grows (Suc d) b b'" by fastforce
qed

lemma notify_grows: "notify H d e b = Some b' \<Longrightarrow> grows d b b'"
proof (induction d arbitrary: e b b')
  case (Suc d)
  show ?case
  proof (rule each_rel [where R = "grows (Suc d)", OF Suc.prems [unfolded notify.simps]])
    show "grows (Suc d) a c" if "grows (Suc d) a b" "grows (Suc d) b c" for a b c
      using that by (rule grows_trans)
    show "grows (Suc d) s s'" if "deliver H d (notify H d) e x s = Some s'" for x s s'
      using that Suc.IH by (rule deliver_grows(2))
  qed (rule grows_refl)
qed simp

text \<open>The deliveries at the depth of the notification itself.\<close>

lemma deliver_pass:
  assumes "each (deliver H d n e) rs b = Some b'" and "\<And>e b b'. n e b = Some b' \<Longrightarrow> grows d b b'"
  shows "\<exists>new. eb_deliveries b' = eb_deliveries b @ new \<and> filter (\<lambda>x. fst x = d) new = map (\<lambda>r. (d, r, e)) rs"
  using assms(1)
proof (induction rs arbitrary: b)
  case (Cons r rs)
  from Cons.prems obtain b1 where b1: "deliver H d n e r b = Some b1" "each (deliver H d n e) rs b1 = Some b'"
    by (auto split: option.splits)
  obtain new where
    new: "eb_deliveries b1 = eb_deliveries b @ (d, r, e) # new" "list_all (\<lambda>x. fst x < d) new"
    using deliver_grows(1) [where n = n, OF b1(1)] assms(2) by blast
  from new(2) have "filter (\<lambda>x. fst x = d) new = []" by (auto simp: list_all_iff filter_empty_conv)
  moreover obtain new' where "eb_deliveries b' = eb_deliveries b1 @ new'"
    "filter (\<lambda>x. fst x = d) new' = map (\<lambda>r. (d, r, e)) rs"
    using Cons.IH [OF b1(2)] by blast
  ultimately show ?case using new(1) by (intro exI [of _ "(d, r, e) # new @ new'"]) simp
qed simp

lemma notify_total:
  assumes "\<And>r e w e'. Notify e' \<in> set (fst (H r e w)) \<Longrightarrow> rank e' < rank e" and "rank e < d"
  shows "notify H d e b \<noteq> None"
  using assms(2)
proof (induction d arbitrary: e b)
  case (Suc d)
  have "deliver H d (notify H d) e r b \<noteq> None" for r b
  proof -
    have "run_call (notify H d) c b' \<noteq> None" if "c \<in> set (fst (H r e w))" for c w b'
    proof (cases c)
      case (Notify e')
      with that assms(1) have "rank e' < rank e" by blast
      with Suc Notify show ?thesis by simp
    qed simp_all
    then show ?thesis unfolding deliver_def split_def Let_def by (intro each_some) auto
  qed
  then show ?case by (simp add: each_some)
qed simp

text \<open>A notification ends if the subscribers notify each other only of events of lower rank, and it then delivers the event exactly once to every subscriber of its type at the time of the call, the callbacks first, each in the order of subscription, whatever they subscribe, unsubscribe or post meanwhile.\<close>

theorem notify_delivers:
  assumes "\<And>r e w e'. Notify e' \<in> set (fst (H r e w)) \<Longrightarrow> rank e' < rank e" and "rank e \<le> d"
  shows "\<exists>b' new. notify H (Suc d) e b = Some b' \<and> eb_deliveries b' = eb_deliveries b @ new \<and>
    filter (\<lambda>x. fst x = d) new = map (\<lambda>r. (d, r, e)) (subscribers (ev_type e) b)"
proof -
  have "notify H (Suc d) e b \<noteq> None" by (rule notify_total [OF assms(1)]) (use assms(2) in simp)+
  then obtain b' where b': "notify H (Suc d) e b = Some b'" by blast
  with deliver_pass [of H d "notify H d" e "subscribers (ev_type e) b" b b'] notify_grows show ?thesis by fastforce
qed

subsection \<open>The queue\<close>

lemma take_pass:
  assumes "each (take_event H d) es b = Some b'"
  shows "eb_taken b' = eb_taken b @ es \<and> (\<exists>xs. eb_queue b' = eb_queue b @ xs \<and> eb_posted b' = eb_posted b @ xs)"
  using assms
proof (induction es arbitrary: b)
  case (Cons e es)
  from Cons.prems obtain b1 where b1: "take_event H d e b = Some b1" "each (take_event H d) es b1 = Some b'"
    by (auto split: option.splits)
  from notify_grows [OF b1(1) [unfolded take_event_def]] Cons.IH [OF b1(2)] show ?case by (fastforce simp: grows_def)
qed simp

lemma bus_process_takes:
  "bus_process H d b = Some b' \<Longrightarrow> eb_taken b' = eb_taken b @ eb_queue b \<and> eb_posted b' = eb_posted b @ eb_queue b'"
  unfolding bus_process_def by (drule take_pass) auto

lemma drain_loop_exact:
  assumes "drain_loop H d rounds n b = Some (n', b')"
  shows "eb_taken b' @ eb_queue b' = eb_taken b @ eb_queue b @ drop (length (eb_posted b)) (eb_posted b')
    \<and> (\<exists>xs. eb_posted b' = eb_posted b @ xs) \<and> length (eb_taken b') + n = length (eb_taken b) + n'
    \<and> (eb_queue b' = [] \<or> n + rounds \<le> n')"
  using assms
proof (induction rounds arbitrary: n b)
  case (Suc rounds)
  show ?case
  proof (cases "eb_queue b = []")
    case True
    with Suc.prems show ?thesis by auto
  next
    case False
    with Suc.prems obtain b1 where b1: "bus_process H d b = Some b1"
      "drain_loop H d rounds (n + length (eb_queue b)) b1 = Some (n', b')"
      by (auto split: option.splits)
    from False have "1 \<le> length (eb_queue b)" by (cases "eb_queue b") simp_all
    then have "n + length (eb_queue b) + rounds \<le> n' \<Longrightarrow> n + Suc rounds \<le> n'" by linarith
    with bus_process_takes [OF b1(1)] Suc.IH [OF b1(2)] show ?thesis by auto
  qed
qed auto

text \<open>Draining the queue counts exactly the events it takes, which are the oldest ones of those posted before or meanwhile, in their order; the rest stays queued. Events are left only if each round had one.\<close>

theorem drain_exact:
  assumes "drain H d max_rounds b = Some (n, b')"
  shows "\<exists>posted. eb_posted b' = eb_posted b @ posted \<and>
    eb_taken b' = eb_taken b @ take n (eb_queue b @ posted) \<and> eb_queue b' = drop n (eb_queue b @ posted) \<and>
    \<not> (eb_queue b' \<noteq> [] \<and> n < max_rounds)"
proof -
  from drain_loop_exact [OF assms [unfolded drain_def]] obtain xs where
    x: "eb_posted b' = eb_posted b @ xs" "eb_taken b' @ eb_queue b' = eb_taken b @ eb_queue b @ xs"
    "length (eb_taken b') = length (eb_taken b) + n" "eb_queue b' = [] \<or> max_rounds \<le> n" by auto
  have "eb_taken b' = take (length (eb_taken b) + n) (eb_taken b @ eb_queue b @ xs)"
    "eb_queue b' = drop (length (eb_taken b) + n) (eb_taken b @ eb_queue b @ xs)"
    using x(2,3) by (metis append_eq_conv_conj)+
  with x show ?thesis by (intro exI [of _ xs]) auto
qed

subsection \<open>Awaiters\<close>

text \<open>An \<open>EventAwaiter\<close> is its own listener and the owner of its callback. Its predicate and its user callback are
  parameters; \<open>aw_fired\<close> counts the calls of the latter. Releasing the last reference runs the destructor, which
  cancels. The user callbacks act on the user's part of the state: that one awaiter's callback cancels another awaiter
  is not modelled.\<close>

record awaiter =
  aw_type :: nat
  aw_id :: nat
  aw_single_shot :: bool
  aw_cancelled :: bool
  aw_fired :: nat

record 'u awaiter_world =
  aww_store :: "nat \<Rightarrow> awaiter option"
  aww_user :: 'u

definition is_active :: "awaiter \<Rightarrow> bool" where
  "is_active a \<longleftrightarrow> \<not> aw_cancelled a"

definition cancel :: "awaiter \<Rightarrow> bus_call list \<times> awaiter" where
  "cancel a = (if aw_cancelled a then ([], a) else ([Unsubscribe (aw_type a) (aw_id a)], a\<lparr>aw_cancelled := True\<rparr>))"

definition handle_event ::
  "(event \<Rightarrow> bool) \<Rightarrow> (event \<Rightarrow> 'u \<Rightarrow> bus_call list \<times> 'u) \<Rightarrow> event \<Rightarrow> awaiter \<Rightarrow> 'u \<Rightarrow> bus_call list \<times> awaiter \<times> 'u" where
  "handle_event matches on_match e a u =
     (if aw_cancelled a then ([], a, u)
      else if \<not> matches e then ([], a, u)
      else
        let (cs, a) = (if aw_single_shot a then cancel a else ([], a));
            (calls, u) = on_match e u
        in (cs @ calls, a\<lparr>aw_fired := aw_fired a + 1\<rparr>, u))"

text \<open>\<open>create\<close> with \<open>subscribe_internal\<close>.\<close>

definition create_awaiter :: "nat \<Rightarrow> nat \<Rightarrow> bool \<Rightarrow> 'u awaiter_world event_bus \<Rightarrow> 'u awaiter_world event_bus" where
  "create_awaiter self ty single_shot b =
     subscribe_callback ty self self
       (b\<lparr>eb_world := (eb_world b)\<lparr>aww_store := (aww_store (eb_world b))(self \<mapsto>
          \<lparr>aw_type = ty, aw_id = self, aw_single_shot = single_shot, aw_cancelled = False, aw_fired = 0\<rparr>)\<rparr>\<rparr>)"

definition cancel_awaiter :: "nat \<Rightarrow> 'u awaiter_world event_bus \<Rightarrow> 'u awaiter_world event_bus" where
  "cancel_awaiter k b =
     (case aww_store (eb_world b) k of
        None \<Rightarrow> b
      | Some a \<Rightarrow>
          let b' = b\<lparr>eb_world := (eb_world b)\<lparr>aww_store := (aww_store (eb_world b))(k \<mapsto> snd (cancel a))\<rparr>\<rparr>
          in if aw_cancelled a then b' else unsubscribe (aw_type a) (aw_id a) b')"

text \<open>The subscribers: the callbacks of awaiters, and the user's \<open>H\<close>.\<close>

definition with_awaiters ::
  "(nat \<Rightarrow> event \<Rightarrow> bool) \<Rightarrow> (nat \<Rightarrow> event \<Rightarrow> 'u \<Rightarrow> bus_call list \<times> 'u) \<Rightarrow> 'u handlers \<Rightarrow> 'u awaiter_world handlers" where
  "with_awaiters matches on_match H r e w =
     (case (case r of Callback k \<Rightarrow> aww_store w k | Listener l \<Rightarrow> None) of
        None \<Rightarrow> let (calls, u) = H r e (aww_user w) in (calls, w\<lparr>aww_user := u\<rparr>)
      | Some a \<Rightarrow>
          let k = (case r of Callback k \<Rightarrow> k | Listener l \<Rightarrow> l);
              (calls, a, u) = handle_event (matches k) (on_match k) e a (aww_user w)
          in (calls, w\<lparr>aww_store := (aww_store w)(k \<mapsto> a), aww_user := u\<rparr>))"

subsection \<open>The mediator\<close>

text \<open>\<open>EventMediator\<close> with a bus: it subscribes in its own name, and keeps its awaiters until they are dead.\<close>

record mediator =
  md_id :: nat
  md_awaiters :: "nat list"

definition prune_dead_awaiters :: "'u awaiter_world event_bus \<Rightarrow> mediator \<Rightarrow> mediator" where
  "prune_dead_awaiters b m =
     m\<lparr>md_awaiters := filter (\<lambda>k. case aww_store (eb_world b) k of None \<Rightarrow> False | Some a \<Rightarrow> is_active a) (md_awaiters m)\<rparr>"

definition await_once :: "nat \<Rightarrow> nat \<Rightarrow> mediator \<times> 'u awaiter_world event_bus \<Rightarrow> mediator \<times> 'u awaiter_world event_bus" where
  "await_once self ty mb =
     (let (m, b) = mb;
          m = prune_dead_awaiters b m;
          b = create_awaiter self ty True b
      in (m\<lparr>md_awaiters := md_awaiters m @ [self]\<rparr>, b))"

definition cancel_all_awaiters :: "mediator \<times> 'u awaiter_world event_bus \<Rightarrow> mediator \<times> 'u awaiter_world event_bus" where
  "cancel_all_awaiters mb = (let (m, b) = mb in (m\<lparr>md_awaiters := []\<rparr>, fold cancel_awaiter (md_awaiters m) b))"

definition destroy_mediator :: "mediator \<times> 'u awaiter_world event_bus \<Rightarrow> 'u awaiter_world event_bus" where
  "destroy_mediator mb = (let (m, b) = cancel_all_awaiters mb in unsubscribe_all (md_id m) b)"

subsection \<open>An awaiter fires once\<close>

definition matched :: "(nat \<Rightarrow> event \<Rightarrow> bool) \<Rightarrow> nat \<Rightarrow> (nat \<times> subscriber \<times> event) list \<Rightarrow> bool" where
  "matched matches k ds \<longleftrightarrow> (\<exists>x \<in> set ds. fst (snd x) = Callback k \<and> matches k (snd (snd x)))"

lemma matched_simps [simp]:
  "\<not> matched P k []"
  "matched P k (x # xs) \<longleftrightarrow> fst (snd x) = Callback k \<and> P k (snd (snd x)) \<or> matched P k xs"
  "matched P k (xs @ ys) \<longleftrightarrow> matched P k xs \<or> matched P k ys"
  by (auto simp: matched_def)

definition fires_once :: "(nat \<Rightarrow> event \<Rightarrow> bool) \<Rightarrow> nat \<Rightarrow> 'u awaiter_world event_bus \<Rightarrow> 'u awaiter_world event_bus \<Rightarrow> bool" where
  "fires_once P k b b' \<longleftrightarrow> (\<exists>new. eb_deliveries b' = eb_deliveries b @ new \<and>
     (\<forall>a. aww_store (eb_world b) k = Some a \<longrightarrow> aw_single_shot a \<longrightarrow>
        aww_store (eb_world b') k = Some (if aw_cancelled a \<or> \<not> matched P k new then a
          else a\<lparr>aw_cancelled := True, aw_fired := aw_fired a + 1\<rparr>)))"

lemma fires_once_refl: "fires_once P k b b"
  by (simp add: fires_once_def)

lemma fires_once_trans:
  assumes "fires_once P k a b" and "fires_once P k b c"
  shows "fires_once P k a c"
proof -
  from assms obtain xs ys where
    "eb_deliveries b = eb_deliveries a @ xs" "eb_deliveries c = eb_deliveries b @ ys"
    and "\<And>x. aww_store (eb_world a) k = Some x \<Longrightarrow> aw_single_shot x \<Longrightarrow>
      aww_store (eb_world b) k = Some (if aw_cancelled x \<or> \<not> matched P k xs then x
        else x\<lparr>aw_cancelled := True, aw_fired := aw_fired x + 1\<rparr>)"
    and "\<And>x. aww_store (eb_world b) k = Some x \<Longrightarrow> aw_single_shot x \<Longrightarrow>
      aww_store (eb_world c) k = Some (if aw_cancelled x \<or> \<not> matched P k ys then x
        else x\<lparr>aw_cancelled := True, aw_fired := aw_fired x + 1\<rparr>)"
    unfolding fires_once_def by blast
  then show ?thesis unfolding fires_once_def
    by (intro exI [of _ "xs @ ys"] conjI) (auto split: if_splits)
qed

lemma run_call_fires_once:
  assumes "run_call n c b = Some b'" and "\<And>e b b'. n e b = Some b' \<Longrightarrow> fires_once P k b b'"
  shows "fires_once P k b b'"
  using assms
  by (cases c) (auto simp: fires_once_def subscribe_callback_def subscribe_listener_def unsubscribe_def
      unsubscribe_all_def notify_async_def)

lemma with_awaiters_store:
  "aww_store w k = Some a \<Longrightarrow> aw_single_shot a \<Longrightarrow>
   aww_store (snd (with_awaiters P F H r e w)) k =
     Some (if aw_cancelled a \<or> \<not> (r = Callback k \<and> P k e) then a
           else a\<lparr>aw_cancelled := True, aw_fired := aw_fired a + 1\<rparr>)"
  by (cases r) (auto simp: with_awaiters_def handle_event_def cancel_def Let_def split_def split: option.splits)

lemma deliver_fires_once:
  assumes "deliver (with_awaiters P F H) d n e r b = Some b'"
    and "\<And>e b b'. n e b = Some b' \<Longrightarrow> fires_once P k b b'"
  shows "fires_once P k b b'"
proof -
  obtain calls w where c: "with_awaiters P F H r e (eb_world b) = (calls, w)" by fastforce
  let ?b = "b\<lparr>eb_world := w, eb_deliveries := eb_deliveries b @ [(d, r, e)]\<rparr>"
  have each: "each (run_call n) calls ?b = Some b'" using assms(1) c by (simp add: deliver_def)
  have "fires_once P k ?b b'"
  proof (rule each_rel [where R = "fires_once P k", OF each])
    show "fires_once P k s u" if "fires_once P k s t" "fires_once P k t u" for s t u
      using that by (rule fires_once_trans)
    show "fires_once P k s s'" if "run_call n x s = Some s'" for x s s'
      using that assms(2) by (rule run_call_fires_once)
  qed (rule fires_once_refl)
  moreover have "fires_once P k b ?b"
    unfolding fires_once_def
    by (intro exI [of _ "[(d, r, e)]"]) (use with_awaiters_store [of "eb_world b" k _ P F H r e] c in simp)
  ultimately show ?thesis by (metis fires_once_trans)
qed

lemma notify_fires_once: "notify (with_awaiters P F H) d e b = Some b' \<Longrightarrow> fires_once P k b b'"
proof (induction d arbitrary: e b b')
  case (Suc d)
  show ?case
  proof (rule each_rel [where R = "fires_once P k", OF Suc.prems [unfolded notify.simps]])
    show "fires_once P k s u" if "fires_once P k s t" "fires_once P k t u" for s t u
      using that by (rule fires_once_trans)
    show "fires_once P k s s'" if "deliver (with_awaiters P F H) d (notify (with_awaiters P F H) d) e x s = Some s'" for x s s'
      using that Suc.IH by (rule deliver_fires_once)
  qed (rule fires_once_refl)
qed simp

text \<open>C35: Over any sequence of notifications, nested ones included, a single-shot awaiter calls its user exactly once if a matching event is delivered to it, and never otherwise; once it has fired it is cancelled.\<close>

theorem awaiter_fires_once:
  assumes "aww_store (eb_world b) k = Some a" "aw_single_shot a" "is_active a"
    and "each (notify (with_awaiters matches on_match H) d) es b = Some b'"
  shows "\<exists>new a'. eb_deliveries b' = eb_deliveries b @ new \<and> aww_store (eb_world b') k = Some a' \<and>
    aw_fired a' = aw_fired a + (if matched matches k new then 1 else 0) \<and> (is_active a' \<longleftrightarrow> \<not> matched matches k new)"
proof -
  have "fires_once matches k b b'"
    by (rule each_rel [OF assms(4)]) (metis fires_once_refl fires_once_trans notify_fires_once)+
  with assms(1-3) show ?thesis by (auto simp: fires_once_def is_active_def)
qed

text \<open>A destroyed mediator has no subscription left and no active awaiter.\<close>

lemma cancel_awaiter_store:
  "aww_store (eb_world (cancel_awaiter j b)) k =
     (if k = j then map_option (\<lambda>a. a\<lparr>aw_cancelled := True\<rparr>) (aww_store (eb_world b) k) else aww_store (eb_world b) k)"
  by (cases "aww_store (eb_world b) j") (auto simp: cancel_awaiter_def cancel_def unsubscribe_def Let_def)

definition dead :: "'u awaiter_world event_bus \<Rightarrow> nat \<Rightarrow> bool" where
  "dead b k \<longleftrightarrow> (case aww_store (eb_world b) k of None \<Rightarrow> True | Some a \<Rightarrow> \<not> is_active a)"

lemma cancel_pass_dead: "k \<in> set ks \<or> dead b k \<Longrightarrow> dead (fold cancel_awaiter ks b) k"
proof (induction ks arbitrary: b)
  case (Cons j ks)
  then have "k \<in> set ks \<or> dead (cancel_awaiter j b) k"
    by (auto simp: dead_def cancel_awaiter_store is_active_def split: option.splits)
  with Cons.IH show ?case by simp
qed simp

lemma destroy_mediator_clean:
  "md_id m \<notin> cr_owner ` set (eb_callbacks (destroy_mediator (m, b)) ty) \<and>
   md_id m \<notin> set (eb_listeners (destroy_mediator (m, b)) ty) \<and>
   list_all (dead (destroy_mediator (m, b))) (md_awaiters m)"
proof -
  have "dead (unsubscribe_all owner c) k = dead c k" for owner k and c :: "'a awaiter_world event_bus"
    by (simp add: dead_def unsubscribe_all_def)
  with cancel_pass_dead [of _ "md_awaiters m" b] show ?thesis
    by (auto simp: destroy_mediator_def cancel_all_awaiters_def list_all_iff) (auto simp: unsubscribe_all_def)
qed

subsection \<open>Samples\<close>

text \<open>Listener 1 unsubscribes listener 2, passes an event of type 5 on as one of type 4, and posts one.\<close>

definition sample_handlers :: "unit handlers" where
  "sample_handlers r e w =
     (if r = Listener 1 \<and> ev_type e = 5
      then ([Unsubscribe 5 2, Notify \<lparr>ev_type = 4, ev_data = 0\<rparr>, Notify_async \<lparr>ev_type = 4, ev_data = 1\<rparr>], w) else ([], w))"

definition sample_bus :: "unit event_bus" where
  "sample_bus = subscribe_listener 4 3 (subscribe_listener 5 2 (subscribe_listener 5 1
     (subscribe_callback 5 7 70 (subscribe_listener 5 1 (make_event_bus ())))))"

lemma sample_handlers_rank: "Notify e' \<in> set (fst (sample_handlers r e w)) \<Longrightarrow> ev_type e' < ev_type e"
  by (auto simp: sample_handlers_def split: if_splits)

lemma notify_delivers_witness:
  "\<exists>b' new. notify sample_handlers 6 \<lparr>ev_type = 5, ev_data = 9\<rparr> sample_bus = Some b' \<and> eb_deliveries b' = new \<and>
    filter (\<lambda>x. fst x = 5) new = map (\<lambda>r. (5, r, \<lparr>ev_type = 5, ev_data = 9\<rparr>)) [Callback 70, Listener 1, Listener 2]"
proof -
  have s: "subscribers 5 sample_bus = [Callback 70, Listener 1, Listener 2]" "eb_deliveries sample_bus = []"
    by code_simp+
  have "notify sample_handlers 6 = notify sample_handlers (Suc 5)" by simp
  then show ?thesis
    using notify_delivers [of sample_handlers ev_type "\<lparr>ev_type = 5, ev_data = 9\<rparr>" 5 sample_bus, OF sample_handlers_rank]
    by (simp add: s del: notify.simps)
qed

text \<open>The nested event comes before the rest, and the unsubscribed listener is still called.\<close>

lemma sample_notify:
  "map_option eb_deliveries (notify sample_handlers 6 \<lparr>ev_type = 5, ev_data = 9\<rparr> sample_bus) =
    Some [(5, Callback 70, \<lparr>ev_type = 5, ev_data = 9\<rparr>), (5, Listener 1, \<lparr>ev_type = 5, ev_data = 9\<rparr>),
      (4, Listener 3, \<lparr>ev_type = 4, ev_data = 0\<rparr>), (5, Listener 2, \<lparr>ev_type = 5, ev_data = 9\<rparr>)]"
  by code_simp

definition sample_posted :: "unit event_bus" where
  "sample_posted = notify_async (Some \<lparr>ev_type = 5, ev_data = 1\<rparr>) (notify_async None (notify_async (Some \<lparr>ev_type = 4, ev_data = 0\<rparr>) sample_bus))"

lemma drain_exact_witness:
  "\<exists>b'. drain sample_handlers 9 10 sample_posted = Some (3, b') \<and> eb_queue b' = []"
proof -
  have "map_option fst (drain sample_handlers 9 10 sample_posted) = Some 3" by code_simp
  then obtain b' where b': "drain sample_handlers 9 10 sample_posted = Some (3, b')" by auto
  from drain_exact [OF b'] show ?thesis using b' by auto
qed

text \<open>An awaiter of events of type 5 with even data, in a mediator.\<close>

definition sample_matches :: "nat \<Rightarrow> event \<Rightarrow> bool" where
  "sample_matches k e \<longleftrightarrow> even (ev_data e)"

definition sample_awaiting :: "unit awaiter_world event_bus" where
  "sample_awaiting = snd (await_once 8 5 (\<lparr>md_id = 1, md_awaiters = []\<rparr>,
     make_event_bus \<lparr>aww_store = (\<lambda>_. None), aww_user = ()\<rparr>))"

lemma awaiter_fires_once_witness:
  "\<exists>b' a'. each (notify (with_awaiters sample_matches (\<lambda>_ _ u. ([], u)) (\<lambda>_ _ u. ([], u))) 2)
      [\<lparr>ev_type = 5, ev_data = 1\<rparr>, \<lparr>ev_type = 5, ev_data = 2\<rparr>, \<lparr>ev_type = 5, ev_data = 4\<rparr>] sample_awaiting = Some b' \<and>
    aww_store (eb_world b') 8 = Some a' \<and> aw_fired a' = 1 \<and> \<not> is_active a'"
proof -
  let ?H = "with_awaiters sample_matches (\<lambda>_ _ u. ([], u)) (\<lambda>_ _ u. ([], u))"
  let ?es = "[\<lparr>ev_type = 5, ev_data = 1\<rparr>, \<lparr>ev_type = 5, ev_data = 2\<rparr>, \<lparr>ev_type = 5, ev_data = 4\<rparr>]"
  have d: "map_option eb_deliveries (each (notify ?H 2) ?es sample_awaiting) =
      Some [(1, Callback 8, \<lparr>ev_type = 5, ev_data = 1\<rparr>), (1, Callback 8, \<lparr>ev_type = 5, ev_data = 2\<rparr>)]"
    by code_simp
  have a: "aww_store (eb_world sample_awaiting) 8 = Some \<lparr>aw_type = 5, aw_id = 8, aw_single_shot = True, aw_cancelled = False, aw_fired = 0\<rparr>"
    "eb_deliveries sample_awaiting = []"
    by code_simp+
  from d obtain b' where b': "each (notify ?H 2) ?es sample_awaiting = Some b'"
    "eb_deliveries b' = [(1, Callback 8, \<lparr>ev_type = 5, ev_data = 1\<rparr>), (1, Callback 8, \<lparr>ev_type = 5, ev_data = 2\<rparr>)]"
    by (auto simp del: each.simps)
  from awaiter_fires_once [OF a(1) _ _ b'(1)] show ?thesis using b'
    by (simp add: is_active_def a(2) sample_matches_def del: each.simps)
qed

end
