(* ===== verification/MarketTypes.thy ===== *)
theory MarketTypes
  imports Prices StringUtils
begin

section \<open>Market data: payloads, requests, results\<close>

text \<open>
  \<open>data/market/enums.hpp\<close>, \<open>data/bars\<close>, \<open>data/ticks\<close>, \<open>market_data/enums.hpp\<close>, \<open>MarketDataBatch.hpp\<close>,
  \<open>MarketDataSubscription.hpp\<close>, \<open>MarketDataContinuityOptions.hpp\<close>, \<open>MarketDataContinuity.hpp\<close> and the default
  operations of \<open>BaseMarketDataProvider.hpp\<close>. Times in milliseconds, identifiers, flags and counts are words of
  their width; a timeframe is a signed 32-bit number of seconds, kept as an integer.
\<close>

unbundle bit_operations_syntax

subsection \<open>Payload flags\<close>

definition market_flag :: "nat \<Rightarrow> u32" where "market_flag n = push_bit n 1"

definition flag_live_source :: u32 where "flag_live_source = market_flag 16"
definition flag_historical :: u32 where "flag_historical = market_flag 17"
definition flag_backfill :: u32 where "flag_backfill = market_flag 18"
definition flag_incomplete :: u32 where "flag_incomplete = market_flag 19"
definition flag_finalized :: u32 where "flag_finalized = market_flag 20"
definition flag_realtime :: u32 where "flag_realtime = market_flag 22"
definition flag_catchup :: u32 where "flag_catchup = market_flag 23"

lemmas flag_defs = flag_live_source_def flag_historical_def flag_backfill_def flag_incomplete_def
  flag_finalized_def flag_realtime_def flag_catchup_def

datatype market_price_type = MPT_UNKNOWN | MPT_BID | MPT_ASK | MPT_MID | MPT_LAST

primrec market_price_type_to_str :: "market_price_type \<Rightarrow> string" where
  "market_price_type_to_str MPT_UNKNOWN = ''UNKNOWN''"
| "market_price_type_to_str MPT_BID = ''BID''"
| "market_price_type_to_str MPT_ASK = ''ASK''"
| "market_price_type_to_str MPT_MID = ''MID''"
| "market_price_type_to_str MPT_LAST = ''LAST''"

primrec price_type_code :: "market_price_type \<Rightarrow> u32" where
  "price_type_code MPT_UNKNOWN = 0"
| "price_type_code MPT_BID = 1"
| "price_type_code MPT_ASK = 2"
| "price_type_code MPT_MID = 3"
| "price_type_code MPT_LAST = 4"

definition market_price_type_mask :: u32 where
  "market_price_type_mask = push_bit 24 0xF"

definition mark_live_payload :: "u32 \<Rightarrow> bool \<Rightarrow> u32" where
  "mark_live_payload flags catchup =
     (let flags = set_market_flag flags flag_live_source True;
          flags = set_market_flag flags flag_historical False;
          flags = set_market_flag flags flag_backfill False;
          flags = set_market_flag flags flag_realtime (\<not> catchup)
      in set_market_flag flags flag_catchup catchup)"

definition mark_historical_payload :: "u32 \<Rightarrow> bool \<Rightarrow> u32" where
  "mark_historical_payload flags backfill =
     (let flags = set_market_flag flags flag_live_source False;
          flags = set_market_flag flags flag_historical True;
          flags = set_market_flag flags flag_backfill backfill;
          flags = set_market_flag flags flag_realtime False
      in set_market_flag flags flag_catchup False)"

definition market_data_flags_valid :: "u32 \<Rightarrow> bool" where
  "market_data_flags_valid flags \<longleftrightarrow>
     (let live_source = has_market_flag flags flag_live_source; historical = has_market_flag flags flag_historical;
          backfill = has_market_flag flags flag_backfill; realtime = has_market_flag flags flag_realtime;
          catchup = has_market_flag flags flag_catchup
      in \<not> (live_source \<and> historical) \<and> \<not> (realtime \<and> catchup) \<and> (\<not> realtime \<or> live_source) \<and>
         (\<not> catchup \<or> live_source) \<and> (\<not> backfill \<or> historical))"

text \<open>The code of the price type that the flags hold; it need not be that of an enumerator.\<close>

definition market_price_type :: "u32 \<Rightarrow> u32" where
  "market_price_type flags = drop_bit 24 (flags AND market_price_type_mask)"

definition set_market_price_type :: "u32 \<Rightarrow> market_price_type \<Rightarrow> u32" where
  "set_market_price_type flags t =
     (let flags = flags AND NOT market_price_type_mask
      in flags OR (push_bit 24 (price_type_code t) AND market_price_type_mask))"

definition market_data_flags_to_string :: "u32 \<Rightarrow> string" where
  "market_data_flags_to_string flags =
     (let append = (\<lambda>name flag result.
            if has_market_flag flags flag then (if result \<noteq> [] then result @ ''|'' else result) @ name else result);
          result = append ''INITIALIZED'' flag_initialized (append ''FINALIZED'' flag_finalized
            (append ''INCOMPLETE'' flag_incomplete (append ''CATCHUP'' flag_catchup (append ''REALTIME'' flag_realtime
            (append ''BACKFILL'' flag_backfill (append ''HISTORICAL'' flag_historical
            (append ''LIVE_SOURCE'' flag_live_source [])))))))
      in if result = [] then ''NONE'' else result)"

subsection \<open>Bars\<close>

datatype bar_price_source = BPS_UNKNOWN | BPS_BID | BPS_ASK | BPS_MID | BPS_LAST

primrec bar_price_source_to_str :: "bar_price_source \<Rightarrow> string" where
  "bar_price_source_to_str BPS_UNKNOWN = ''UNKNOWN''"
| "bar_price_source_to_str BPS_BID = ''BID''"
| "bar_price_source_to_str BPS_ASK = ''ASK''"
| "bar_price_source_to_str BPS_MID = ''MID''"
| "bar_price_source_to_str BPS_LAST = ''LAST''"

definition bar_price_source_from_string :: "string \<Rightarrow> bar_price_source \<Rightarrow> bar_price_source" where
  "bar_price_source_from_string value fallback =
     (let value = to_upper_case (remove_space value)
      in if value = [] then fallback
         else if value = ''BID'' then BPS_BID
         else if value = ''ASK'' then BPS_ASK
         else if value = ''MID'' \<or> value = ''AVG'' then BPS_MID
         else if value = ''LAST'' then BPS_LAST
         else fallback)"

primrec market_price_type_from_bar_price_source :: "bar_price_source \<Rightarrow> market_price_type" where
  "market_price_type_from_bar_price_source BPS_UNKNOWN = MPT_UNKNOWN"
| "market_price_type_from_bar_price_source BPS_BID = MPT_BID"
| "market_price_type_from_bar_price_source BPS_ASK = MPT_ASK"
| "market_price_type_from_bar_price_source BPS_MID = MPT_MID"
| "market_price_type_from_bar_price_source BPS_LAST = MPT_LAST"

record bar =
  bar_open :: f64
  bar_high :: f64
  bar_low :: f64
  bar_close :: f64
  bar_volume :: f64
  bar_time_ms :: u64
  bar_flags :: u32

record bar_history_request =
  bhr_symbol :: string
  bhr_timeframe :: int
  bhr_from_ts :: int
  bhr_to_ts :: int
  bhr_price_source :: bar_price_source

record bar_sequence =
  bs_bars :: "bar list"
  bs_symbol :: string
  bs_provider :: string
  bs_timeframe :: int
  bs_price_digits :: u32
  bs_volume_digits :: u32
  bs_price_source :: bar_price_source

definition bar_sequence_default :: bar_sequence where
  "bar_sequence_default = \<lparr>bs_bars = [], bs_symbol = [], bs_provider = [], bs_timeframe = 0, bs_price_digits = 0,
     bs_volume_digits = 0, bs_price_source = BPS_MID\<rparr>"

text \<open>A history result, of bars or ticks.\<close>

record 's history_result =
  hr_success :: bool
  hr_status_code :: int
  hr_range_complete :: bool
  hr_error_desc :: string
  hr_sequence :: 's

definition history_ok :: "'s \<Rightarrow> int \<Rightarrow> bool \<Rightarrow> 's history_result" where
  "history_ok sequence status complete = \<lparr>hr_success = True, hr_status_code = status, hr_range_complete = complete,
     hr_error_desc = [], hr_sequence = sequence\<rparr>"

definition history_fail :: "'s \<Rightarrow> string \<Rightarrow> int \<Rightarrow> 's history_result" where
  "history_fail no_sequence message status = \<lparr>hr_success = False, hr_status_code = status, hr_range_complete = False,
     hr_error_desc = message, hr_sequence = no_sequence\<rparr>"

definition has_http_status :: "'s history_result \<Rightarrow> bool" where
  "has_http_status r \<longleftrightarrow> 0 < hr_status_code r"

subsection \<open>Ticks\<close>

datatype tick_history_source = THS_LOCAL_OBSERVED | THS_BROKER_HISTORICAL

primrec tick_history_source_to_str :: "tick_history_source \<Rightarrow> string" where
  "tick_history_source_to_str THS_LOCAL_OBSERVED = ''LOCAL_OBSERVED''"
| "tick_history_source_to_str THS_BROKER_HISTORICAL = ''BROKER_HISTORICAL''"

record tick_history_request =
  thr_symbol :: string
  thr_from_time_ms :: u64
  thr_to_time_ms :: u64
  thr_source :: tick_history_source

definition tick_history_request_valid :: "tick_history_request \<Rightarrow> bool" where
  "tick_history_request_valid r \<longleftrightarrow>
     thr_symbol r \<noteq> [] \<and> thr_from_time_ms r > 0 \<and> thr_to_time_ms r \<ge> thr_from_time_ms r"

record tick_sequence =
  ts_ticks :: "tick list"
  ts_symbol :: string
  ts_provider :: string
  ts_source :: string
  ts_price_digits :: u32
  ts_volume_digits :: u32

definition tick_sequence_default :: tick_sequence where
  "tick_sequence_default = \<lparr>ts_ticks = [], ts_symbol = [], ts_provider = [], ts_source = [], ts_price_digits = 0,
     ts_volume_digits = 0\<rparr>"

subsection \<open>Enumerations of market data\<close>

datatype md_type = MDT_UNKNOWN | MDT_TICKS | MDT_BARS

datatype md_transport = MTR_AUTO | MTR_WEBSOCKET | MTR_POLLING | MTR_HYBRID

datatype md_subscription_status =
    MSS_UNKNOWN | MSS_APPLIED | MSS_SUBSCRIBED | MSS_UNSUBSCRIBED | MSS_UNSUPPORTED | MSS_INVALID_REQUEST
  | MSS_WRONG_PROVIDER | MSS_FAILED

datatype md_stream_status =
    STS_UNKNOWN | STS_CONNECTING | STS_CONNECTED | STS_READY | STS_DISCONNECTED | STS_RECONNECTING | STS_STOPPED
  | STS_FAILED

primrec md_type_to_str :: "md_type \<Rightarrow> string" where
  "md_type_to_str MDT_TICKS = ''TICKS''"
| "md_type_to_str MDT_BARS = ''BARS''"
| "md_type_to_str MDT_UNKNOWN = ''UNKNOWN''"

primrec md_transport_to_str :: "md_transport \<Rightarrow> string" where
  "md_transport_to_str MTR_WEBSOCKET = ''WEBSOCKET''"
| "md_transport_to_str MTR_POLLING = ''POLLING''"
| "md_transport_to_str MTR_HYBRID = ''HYBRID''"
| "md_transport_to_str MTR_AUTO = ''AUTO''"

definition market_data_transport_from_string :: "string \<Rightarrow> md_transport \<Rightarrow> md_transport" where
  "market_data_transport_from_string value fallback =
     (let value = to_upper_case (remove_space value)
      in if value = [] then fallback
         else if value = ''AUTO'' then MTR_AUTO
         else if value = ''WEBSOCKET'' \<or> value = ''WS'' then MTR_WEBSOCKET
         else if value = ''POLLING'' \<or> value = ''POLL'' then MTR_POLLING
         else if value = ''HYBRID'' then MTR_HYBRID
         else fallback)"

primrec md_subscription_status_to_str :: "md_subscription_status \<Rightarrow> string" where
  "md_subscription_status_to_str MSS_APPLIED = ''APPLIED''"
| "md_subscription_status_to_str MSS_SUBSCRIBED = ''SUBSCRIBED''"
| "md_subscription_status_to_str MSS_UNSUBSCRIBED = ''UNSUBSCRIBED''"
| "md_subscription_status_to_str MSS_UNSUPPORTED = ''UNSUPPORTED''"
| "md_subscription_status_to_str MSS_INVALID_REQUEST = ''INVALID_REQUEST''"
| "md_subscription_status_to_str MSS_WRONG_PROVIDER = ''WRONG_PROVIDER''"
| "md_subscription_status_to_str MSS_FAILED = ''FAILED''"
| "md_subscription_status_to_str MSS_UNKNOWN = ''UNKNOWN''"

primrec md_stream_status_to_str :: "md_stream_status \<Rightarrow> string" where
  "md_stream_status_to_str STS_CONNECTING = ''CONNECTING''"
| "md_stream_status_to_str STS_CONNECTED = ''CONNECTED''"
| "md_stream_status_to_str STS_READY = ''READY''"
| "md_stream_status_to_str STS_DISCONNECTED = ''DISCONNECTED''"
| "md_stream_status_to_str STS_RECONNECTING = ''RECONNECTING''"
| "md_stream_status_to_str STS_STOPPED = ''STOPPED''"
| "md_stream_status_to_str STS_FAILED = ''FAILED''"
| "md_stream_status_to_str STS_UNKNOWN = ''UNKNOWN''"

subsection \<open>Continuity\<close>

datatype continuity_mode = CM_LIVE_ONLY | CM_PREFILL | CM_PREFILL_AND_RECOVER

datatype tick_deduplication_mode = TDM_PROVIDER_DEFAULT | TDM_TIMESTAMP | TDM_TIME_AND_PRICES | TDM_EXACT_OBSERVATION

record continuity_retry_policy =
  crp_max_attempts :: u64
  crp_initial_backoff_ms :: u64
  crp_max_backoff_ms :: u64

definition retry_policy_default :: continuity_retry_policy where
  "retry_policy_default = \<lparr>crp_max_attempts = 1, crp_initial_backoff_ms = 0, crp_max_backoff_ms = 30000\<rparr>"

definition retry_policy_valid :: "continuity_retry_policy \<Rightarrow> bool" where
  "retry_policy_valid p \<longleftrightarrow>
     crp_max_attempts p > 0 \<and> (crp_max_backoff_ms p = 0 \<or> crp_max_backoff_ms p \<ge> crp_initial_backoff_ms p)"

record continuity_options =
  co_mode :: continuity_mode
  co_prefill_bars :: u64
  co_max_backfill_bars :: u64
  co_retry :: continuity_retry_policy
  co_max_buffered_batches :: u64
  co_max_buffered_items :: u64

definition continuity_options_default :: continuity_options where
  "continuity_options_default = \<lparr>co_mode = CM_LIVE_ONLY, co_prefill_bars = 0, co_max_backfill_bars = 1000,
     co_retry = retry_policy_default, co_max_buffered_batches = 1024, co_max_buffered_items = 100000\<rparr>"

definition continuity_options_valid :: "continuity_options \<Rightarrow> bool" where
  "continuity_options_valid c =
     (case co_mode c of
        CM_LIVE_ONLY \<Rightarrow> co_prefill_bars c = 0
      | CM_PREFILL \<Rightarrow> co_prefill_bars c > 0 \<and> retry_policy_valid (co_retry c)
      | CM_PREFILL_AND_RECOVER \<Rightarrow> retry_policy_valid (co_retry c))"

definition continuity_enabled :: "continuity_mode \<Rightarrow> bool" where
  "continuity_enabled mode \<longleftrightarrow> mode \<noteq> CM_LIVE_ONLY"

definition recovers_gaps :: "continuity_mode \<Rightarrow> bool" where
  "recovers_gaps mode \<longleftrightarrow> mode = CM_PREFILL_AND_RECOVER"

record tick_continuity_options =
  tco_mode :: continuity_mode
  tco_prefill_lookback_ms :: u64
  tco_expected_interval_ms :: u64
  tco_max_backfill_ms :: u64
  tco_retry :: continuity_retry_policy
  tco_max_buffered_batches :: u64
  tco_max_buffered_items :: u64
  tco_deduplication_mode :: tick_deduplication_mode

definition tick_continuity_options_default :: tick_continuity_options where
  "tick_continuity_options_default = \<lparr>tco_mode = CM_LIVE_ONLY, tco_prefill_lookback_ms = 0,
     tco_expected_interval_ms = 1000, tco_max_backfill_ms = 60000, tco_retry = retry_policy_default,
     tco_max_buffered_batches = 1024, tco_max_buffered_items = 100000, tco_deduplication_mode = TDM_PROVIDER_DEFAULT\<rparr>"

definition tick_continuity_options_valid :: "tick_continuity_options \<Rightarrow> bool" where
  "tick_continuity_options_valid c =
     (if \<not> retry_policy_valid (tco_retry c) then False
      else case tco_mode c of
        CM_LIVE_ONLY \<Rightarrow> tco_prefill_lookback_ms c = 0
      | CM_PREFILL \<Rightarrow> tco_prefill_lookback_ms c > 0
      | CM_PREFILL_AND_RECOVER \<Rightarrow> tco_expected_interval_ms c > 0)"

datatype continuity_status =
    CS_UNKNOWN | CS_PREFILLING | CS_GAP_DETECTED | CS_BACKFILLING | CS_RETRYING | CS_LIVE | CS_FAILED | CS_DEGRADED
  | CS_STALE

primrec continuity_status_to_str :: "continuity_status \<Rightarrow> string" where
  "continuity_status_to_str CS_PREFILLING = ''PREFILLING''"
| "continuity_status_to_str CS_GAP_DETECTED = ''GAP_DETECTED''"
| "continuity_status_to_str CS_BACKFILLING = ''BACKFILLING''"
| "continuity_status_to_str CS_RETRYING = ''RETRYING''"
| "continuity_status_to_str CS_LIVE = ''LIVE''"
| "continuity_status_to_str CS_FAILED = ''FAILED''"
| "continuity_status_to_str CS_STALE = ''STALE''"
| "continuity_status_to_str CS_DEGRADED = ''DEGRADED''"
| "continuity_status_to_str CS_UNKNOWN = ''UNKNOWN''"

datatype continuity_phase =
    CP_UNKNOWN | CP_LIVE | CP_PREFILLING | CP_WAITING_FOR_READY | CP_RECOVERING | CP_FLUSHING | CP_DEGRADED

primrec continuity_phase_to_str :: "continuity_phase \<Rightarrow> string" where
  "continuity_phase_to_str CP_LIVE = ''LIVE''"
| "continuity_phase_to_str CP_PREFILLING = ''PREFILLING''"
| "continuity_phase_to_str CP_WAITING_FOR_READY = ''WAITING_FOR_READY''"
| "continuity_phase_to_str CP_RECOVERING = ''RECOVERING''"
| "continuity_phase_to_str CP_FLUSHING = ''FLUSHING''"
| "continuity_phase_to_str CP_DEGRADED = ''DEGRADED''"
| "continuity_phase_to_str CP_UNKNOWN = ''UNKNOWN''"

datatype continuity_operation = COP_NONE | COP_PREFILL | COP_GAP_BACKFILL | COP_RECONNECT_BACKFILL

primrec continuity_operation_to_str :: "continuity_operation \<Rightarrow> string" where
  "continuity_operation_to_str COP_PREFILL = ''PREFILL''"
| "continuity_operation_to_str COP_GAP_BACKFILL = ''GAP_BACKFILL''"
| "continuity_operation_to_str COP_RECONNECT_BACKFILL = ''RECONNECT_BACKFILL''"
| "continuity_operation_to_str COP_NONE = ''NONE''"

subsection \<open>Subscriptions\<close>

record tick_subscription_request =
  tsr_symbol :: string
  tsr_transport :: md_transport
  tsr_continuity :: tick_continuity_options

definition tick_subscription_request_valid :: "tick_subscription_request \<Rightarrow> bool" where
  "tick_subscription_request_valid r \<longleftrightarrow> tsr_symbol r \<noteq> []"

record bar_subscription_request =
  bsr_symbol :: string
  bsr_timeframe :: int
  bsr_price_source :: bar_price_source
  bsr_transport :: md_transport
  bsr_continuity :: continuity_options

definition bar_subscription_request_valid :: "bar_subscription_request \<Rightarrow> bool" where
  "bar_subscription_request_valid r \<longleftrightarrow>
     bsr_symbol r \<noteq> [] \<and> 0 < bsr_timeframe r \<and> continuity_options_valid (bsr_continuity r)"

record subscription_handle =
  sh_provider_id :: u64
  sh_id :: u64
  sh_symbol :: string
  sh_stream_type :: md_type
  sh_timeframe :: int
  sh_price_source :: bar_price_source
  sh_transport :: md_transport

definition subscription_handle_default :: subscription_handle where
  "subscription_handle_default = \<lparr>sh_provider_id = 0, sh_id = 0, sh_symbol = [], sh_stream_type = MDT_UNKNOWN,
     sh_timeframe = 0, sh_price_source = BPS_MID, sh_transport = MTR_AUTO\<rparr>"

definition subscription_handle_valid :: "subscription_handle \<Rightarrow> bool" where
  "subscription_handle_valid h \<longleftrightarrow> sh_provider_id h \<noteq> 0 \<and> sh_id h \<noteq> 0"

definition from_tick_request :: "u64 \<Rightarrow> u64 \<Rightarrow> tick_subscription_request \<Rightarrow> subscription_handle" where
  "from_tick_request provider_id i request = subscription_handle_default
     \<lparr>sh_provider_id := provider_id, sh_id := i, sh_symbol := tsr_symbol request, sh_stream_type := MDT_TICKS,
      sh_timeframe := 0, sh_transport := tsr_transport request\<rparr>"

definition from_bar_request :: "u64 \<Rightarrow> u64 \<Rightarrow> bar_subscription_request \<Rightarrow> subscription_handle" where
  "from_bar_request provider_id i request = subscription_handle_default
     \<lparr>sh_provider_id := provider_id, sh_id := i, sh_symbol := bsr_symbol request, sh_stream_type := MDT_BARS,
      sh_timeframe := bsr_timeframe request, sh_price_source := bsr_price_source request,
      sh_transport := bsr_transport request\<rparr>"

record subscription_result =
  sr_status :: md_subscription_status
  sr_error_message :: string
  sr_subscription :: subscription_handle

definition subscription_success :: "subscription_result \<Rightarrow> bool" where
  "subscription_success r \<longleftrightarrow>
     sr_status r = MSS_APPLIED \<or> sr_status r = MSS_SUBSCRIBED \<or> sr_status r = MSS_UNSUBSCRIBED"

definition failure_status_or_failed :: "md_subscription_status \<Rightarrow> md_subscription_status" where
  "failure_status_or_failed status =
     (if status = MSS_APPLIED \<or> status = MSS_SUBSCRIBED \<or> status = MSS_UNSUBSCRIBED then MSS_FAILED else status)"

definition failed :: "subscription_handle \<Rightarrow> md_subscription_status \<Rightarrow> string \<Rightarrow> subscription_result" where
  "failed handle status message =
     \<lparr>sr_status = failure_status_or_failed status, sr_error_message = message, sr_subscription = handle\<rparr>"

definition failed_tick :: "tick_subscription_request \<Rightarrow> md_subscription_status \<Rightarrow> string \<Rightarrow> subscription_result" where
  "failed_tick request status message =
     \<lparr>sr_status = failure_status_or_failed status, sr_error_message = message,
      sr_subscription = from_tick_request 0 0 request\<rparr>"

definition failed_bar :: "bar_subscription_request \<Rightarrow> md_subscription_status \<Rightarrow> string \<Rightarrow> subscription_result" where
  "failed_bar request status message =
     \<lparr>sr_status = failure_status_or_failed status, sr_error_message = message,
      sr_subscription = from_bar_request 0 0 request\<rparr>"

definition subscribed :: "subscription_handle \<Rightarrow> subscription_result" where
  "subscribed handle =
     (if \<not> subscription_handle_valid handle
      then failed handle MSS_INVALID_REQUEST ''Cannot subscribe with an invalid market-data subscription handle.''
      else \<lparr>sr_status = MSS_SUBSCRIBED, sr_error_message = [], sr_subscription = handle\<rparr>)"

definition unsubscribed :: "subscription_handle \<Rightarrow> subscription_result" where
  "unsubscribed handle =
     (if \<not> subscription_handle_valid handle
      then failed handle MSS_INVALID_REQUEST ''Cannot unsubscribe with an invalid market-data subscription handle.''
      else \<lparr>sr_status = MSS_UNSUBSCRIBED, sr_error_message = [], sr_subscription = handle\<rparr>)"

datatype subscription_change =
    Subscribe_ticks tick_subscription_request
  | Subscribe_bars bar_subscription_request
  | Unsubscribe_handle subscription_handle
  | Unsubscribe_all_streams

record subscription_batch_result =
  sbr_status :: md_subscription_status
  sbr_error_message :: string
  sbr_results :: "subscription_result list"

definition batch_success :: "subscription_batch_result \<Rightarrow> bool" where
  "batch_success r \<longleftrightarrow> sbr_status r = MSS_APPLIED"

definition applied :: "subscription_result list \<Rightarrow> subscription_batch_result" where
  "applied results = \<lparr>sbr_status = MSS_APPLIED, sbr_error_message = [], sbr_results = results\<rparr>"

definition batch_failed :: "md_subscription_status \<Rightarrow> string \<Rightarrow> subscription_result list \<Rightarrow> subscription_batch_result" where
  "batch_failed status message results =
     \<lparr>sbr_status = failure_status_or_failed status, sbr_error_message = message, sbr_results = results\<rparr>"

record status_update =
  su_provider_id :: u64
  su_subscription :: subscription_handle
  su_type :: md_type
  su_symbol :: string
  su_timeframe :: int
  su_transport :: md_transport
  su_status :: md_stream_status
  su_message :: string

record 'p md_batch =
  mb_items :: "'p list"
  mb_subscription :: subscription_handle
  mb_type :: md_type
  mb_symbol :: string
  mb_timeframe :: int
  mb_price_digits :: u32
  mb_volume_digits :: u32

subsection \<open>The default provider\<close>

text \<open>\<open>BaseMarketDataProvider\<close> supports no stream; \<open>apply_subscriptions\<close> answers the results of the batch. A provider
  overrides it; the operations on one stream go through a batch of one change.\<close>

definition default_change_result :: "u64 \<Rightarrow> subscription_change \<Rightarrow> subscription_result" where
  "default_change_result provider_id change =
     (case change of
        Subscribe_ticks r \<Rightarrow>
          if \<not> tick_subscription_request_valid r then failed_tick r MSS_INVALID_REQUEST ''Invalid tick subscription request.''
          else failed_tick r MSS_UNSUPPORTED ''Tick subscriptions are not supported by this provider.''
      | Subscribe_bars r \<Rightarrow>
          if \<not> bar_subscription_request_valid r then failed_bar r MSS_INVALID_REQUEST ''Invalid bar subscription request.''
          else failed_bar r MSS_UNSUPPORTED ''Bar subscriptions are not supported by this provider.''
      | Unsubscribe_handle h \<Rightarrow>
          if \<not> subscription_handle_valid h then failed h MSS_INVALID_REQUEST ''Invalid market-data subscription handle.''
          else if sh_provider_id h \<noteq> provider_id
          then failed h MSS_WRONG_PROVIDER ''Market-data subscription handle belongs to another provider.''
          else failed h MSS_UNSUPPORTED ''Market-data subscriptions are not supported by this provider.''
      | Unsubscribe_all_streams \<Rightarrow>
          failed subscription_handle_default MSS_UNSUPPORTED ''Market-data subscriptions are not supported by this provider.'')"

definition default_apply_subscriptions :: "u64 \<Rightarrow> subscription_change list \<Rightarrow> bool \<times> subscription_batch_result" where
  "default_apply_subscriptions provider_id changes =
     (if changes = [] then (False, batch_failed MSS_INVALID_REQUEST ''Market-data subscription batch is empty.'' [])
      else
        let results = map (default_change_result provider_id) changes
        in (False, batch_failed (sr_status (hd results)) (sr_error_message (hd results)) results))"

definition dispatch_single_subscription_result :: "subscription_batch_result \<Rightarrow> subscription_result" where
  "dispatch_single_subscription_result result =
     (if sbr_results result \<noteq> [] then hd (sbr_results result)
      else \<lparr>sr_status = failure_status_or_failed (sbr_status result), sr_error_message = sbr_error_message result,
            sr_subscription = subscription_handle_default\<rparr>)"

type_synonym apply_subscriptions = "subscription_change list \<Rightarrow> bool \<times> subscription_batch_result"

definition provider_subscribe_ticks :: "apply_subscriptions \<Rightarrow> tick_subscription_request \<Rightarrow> bool \<times> subscription_result" where
  "provider_subscribe_ticks apply_batch request =
     (let (accepted, result) = apply_batch [Subscribe_ticks request] in (accepted, dispatch_single_subscription_result result))"

definition provider_subscribe_bars :: "apply_subscriptions \<Rightarrow> bar_subscription_request \<Rightarrow> bool \<times> subscription_result" where
  "provider_subscribe_bars apply_batch request =
     (let (accepted, result) = apply_batch [Subscribe_bars request] in (accepted, dispatch_single_subscription_result result))"

definition provider_unsubscribe :: "apply_subscriptions \<Rightarrow> subscription_handle \<Rightarrow> bool \<times> subscription_result" where
  "provider_unsubscribe apply_batch handle =
     (let (accepted, result) = apply_batch [Unsubscribe_handle handle] in (accepted, dispatch_single_subscription_result result))"

subsection \<open>Lemmas\<close>

text \<open>No failure reads as a success, whatever status it is made with; an empty answer of a provider is one too.\<close>

lemma failures_fail [simp]:
  "\<not> subscription_success (failed h st m)" "\<not> subscription_success (failed_tick t st m)"
  "\<not> subscription_success (failed_bar b st m)" "\<not> batch_success (batch_failed st m rs)"
  by (cases st; simp add: failed_def failed_tick_def failed_bar_def batch_failed_def subscription_success_def
      batch_success_def failure_status_or_failed_def)+

lemma empty_answer_fails: "sbr_results r = [] \<Longrightarrow> \<not> subscription_success (dispatch_single_subscription_result r)"
  by (cases "sbr_status r") (simp_all add: dispatch_single_subscription_result_def subscription_success_def failure_status_or_failed_def)

lemma subscribed_success [simp]: "subscription_success (subscribed h) \<longleftrightarrow> subscription_handle_valid h"
  by (cases "subscription_handle_valid h") (simp_all add: subscribed_def, simp add: subscription_success_def)

lemma default_provider_fails:
  "\<not> subscription_success (snd (provider_subscribe_ticks (default_apply_subscriptions p) t))"
  "\<not> subscription_success (snd (provider_subscribe_bars (default_apply_subscriptions p) b))"
  "\<not> subscription_success (snd (provider_unsubscribe (default_apply_subscriptions p) h))"
  by (simp_all add: provider_subscribe_ticks_def provider_subscribe_bars_def provider_unsubscribe_def
      default_apply_subscriptions_def dispatch_single_subscription_result_def batch_failed_def default_change_result_def Let_def)

text \<open>The bits of the flags.\<close>

lemma has_market_flag_bit: "n < 32 \<Longrightarrow> has_market_flag w (market_flag n) \<longleftrightarrow> bit w n"
proof -
  assume n: "n < 32"
  have "w AND push_bit n 1 = (if bit w n then push_bit n 1 else 0)"
    by (rule bit_word_eqI) (use n in \<open>auto simp: bit_simps\<close>)
  moreover have "bit (push_bit n (1 :: u32)) n" using n by (simp add: bit_simps)
  then have "push_bit n (1 :: u32) \<noteq> 0" by (intro notI) (simp only: bit_0_eq bot_apply bot_bool_def)
  ultimately show ?thesis by (simp add: has_market_flag_def market_flag_def)
qed

lemma bit_set_market_flag:
  "n < 32 \<Longrightarrow> bit (set_market_flag w (market_flag m) v) n \<longleftrightarrow> (if n = m then v else bit w n)"
  by (auto simp: set_market_flag_def market_flag_def bit_simps)

lemma bit_mark_live:
  "n < 32 \<Longrightarrow> bit (mark_live_payload w c) n \<longleftrightarrow>
    (if n = 16 then True else if n = 17 \<or> n = 18 then False else if n = 22 then \<not> c else if n = 23 then c else bit w n)"
  by (auto simp: mark_live_payload_def flag_defs bit_set_market_flag)

lemma bit_mark_historical:
  "n < 32 \<Longrightarrow> bit (mark_historical_payload w b) n \<longleftrightarrow>
    (if n = 17 then True else if n = 18 then b else if n = 16 \<or> n = 22 \<or> n = 23 then False else bit w n)"
  by (auto simp: mark_historical_payload_def flag_defs bit_set_market_flag)

lemma flags_valid_bits:
  "market_data_flags_valid w \<longleftrightarrow> \<not> (bit w 16 \<and> bit w 17) \<and> \<not> (bit w 22 \<and> bit w 23) \<and> (bit w 22 \<longrightarrow> bit w 16)
     \<and> (bit w 23 \<longrightarrow> bit w 16) \<and> (bit w 18 \<longrightarrow> bit w 17)"
  by (auto simp: market_data_flags_valid_def flag_defs has_market_flag_bit Let_def)

lemma marks_valid: "market_data_flags_valid (mark_live_payload w c)" "market_data_flags_valid (mark_historical_payload w b)"
  by (simp_all add: flags_valid_bits bit_mark_live bit_mark_historical)

lemma price_type_roundtrip: "market_price_type (set_market_price_type w t) = price_type_code t"
proof -
  have "drop_bit 24 (((w AND NOT market_price_type_mask) OR (push_bit 24 c AND market_price_type_mask)) AND market_price_type_mask) = c AND 0xF" for c :: u32
  proof (rule bit_word_eqI)
    fix n assume "n < LENGTH(32)"
    have m: "market_price_type_mask = push_bit 24 (mask 4)" "(0xF :: u32) = mask 4"
      by (simp_all add: market_price_type_mask_def mask_eq_exp_minus_1)
    show "bit (drop_bit 24 (((w AND NOT market_price_type_mask) OR (push_bit 24 c AND market_price_type_mask)) AND market_price_type_mask)) n
      \<longleftrightarrow> bit (c AND 0xF) n"
      unfolding m using \<open>n < LENGTH(32)\<close> by (auto simp: bit_simps)
  qed
  note eq = this
  show ?thesis unfolding market_price_type_def set_market_price_type_def Let_def eq by (cases t) simp_all
qed

end
