(* ===== verification/MarketHub.thy ===== *)
theory MarketHub
  imports MarketTypes
begin

section \<open>The market data hub\<close>

text \<open>
  \<open>market_data/MarketDataHub.hpp\<close>. A subscriber is an address; \<open>alive\<close>, read at each operation, says which objects
  still exist (the hub keeps weak references). The calls made on subscribers are logged. Binding a provider routes its
  three callbacks to the publish operations below.
\<close>

subsection \<open>The hub\<close>

datatype hub_call =
    Tick_data nat "tick md_batch"
  | Bar_data nat "bar md_batch"
  | Status_update nat status_update

record subscriber_slot =
  ss_id :: u64
  ss_subscriber :: nat
  ss_replay_last_status :: bool

record market_data_hub =
  mh_subscribers :: "subscriber_slot list"
  mh_last_statuses :: "status_update list"
  mh_next_subscriber_id :: u64
  mh_calls :: "hub_call list"

definition make_hub :: market_data_hub where
  "make_hub = \<lparr>mh_subscribers = [], mh_last_statuses = [], mh_next_subscriber_id = 1, mh_calls = []\<rparr>"

definition same_status_key :: "status_update \<Rightarrow> status_update \<Rightarrow> bool" where
  "same_status_key lhs rhs \<longleftrightarrow>
     (if subscription_handle_valid (su_subscription lhs) \<or> subscription_handle_valid (su_subscription rhs) then
        subscription_handle_valid (su_subscription lhs) \<and> subscription_handle_valid (su_subscription rhs)
        \<and> sh_provider_id (su_subscription lhs) = sh_provider_id (su_subscription rhs)
        \<and> sh_id (su_subscription lhs) = sh_id (su_subscription rhs)
      else su_provider_id lhs = su_provider_id rhs \<and> su_type lhs = su_type rhs \<and> su_symbol lhs = su_symbol rhs
        \<and> su_timeframe lhs = su_timeframe rhs \<and> su_transport lhs = su_transport rhs)"

fun cache_status :: "status_update \<Rightarrow> status_update list \<Rightarrow> status_update list" where
  "cache_status update [] = [update]"
| "cache_status update (cached # rest) =
     (if same_status_key cached update then update # rest else cached # cache_status update rest)"

definition add_weak_subscriber :: "(nat \<Rightarrow> bool) \<Rightarrow> nat \<Rightarrow> bool \<Rightarrow> market_data_hub \<Rightarrow> u64 \<times> market_data_hub" where
  "add_weak_subscriber alive subscriber replay_last_status h =
     (if \<not> alive subscriber then (0, h)
      else
        let i = mh_next_subscriber_id h;
            h = h\<lparr>mh_next_subscriber_id := mh_next_subscriber_id h + 1\<rparr>;
            (i, h) = (if i = 0 then (mh_next_subscriber_id h, h\<lparr>mh_next_subscriber_id := mh_next_subscriber_id h + 1\<rparr>)
                      else (i, h));
            slot = \<lparr>ss_id = i, ss_subscriber = subscriber, ss_replay_last_status = replay_last_status\<rparr>;
            h = h\<lparr>mh_subscribers := mh_subscribers h @ [slot]\<rparr>;
            replay = (if replay_last_status then mh_last_statuses h else [])
        in (i, h\<lparr>mh_calls := mh_calls h @ map (Status_update subscriber) replay\<rparr>))"

definition remove_subscriber :: "u64 \<Rightarrow> market_data_hub \<Rightarrow> bool \<times> market_data_hub" where
  "remove_subscriber i h =
     (if i = 0 then (False, h)
      else
        let old_size = length (mh_subscribers h);
            h = h\<lparr>mh_subscribers := filter (\<lambda>slot. ss_id slot \<noteq> i) (mh_subscribers h)\<rparr>
        in (length (mh_subscribers h) \<noteq> old_size, h))"

definition clear_subscribers :: "market_data_hub \<Rightarrow> market_data_hub" where
  "clear_subscribers h = h\<lparr>mh_subscribers := []\<rparr>"

definition prune_subscribers :: "(nat \<Rightarrow> bool) \<Rightarrow> market_data_hub \<Rightarrow> market_data_hub" where
  "prune_subscribers alive h = h\<lparr>mh_subscribers := filter (\<lambda>slot. alive (ss_subscriber slot)) (mh_subscribers h)\<rparr>"

definition subscriber_count :: "(nat \<Rightarrow> bool) \<Rightarrow> market_data_hub \<Rightarrow> nat \<times> market_data_hub" where
  "subscriber_count alive h = (let h = prune_subscribers alive h in (length (mh_subscribers h), h))"

definition live_subscribers :: "(nat \<Rightarrow> bool) \<Rightarrow> market_data_hub \<Rightarrow> nat list \<times> market_data_hub" where
  "live_subscribers alive h =
     (let h = prune_subscribers alive h in (map ss_subscriber (mh_subscribers h), h))"

definition publish_ticks :: "(nat \<Rightarrow> bool) \<Rightarrow> tick md_batch option \<Rightarrow> market_data_hub \<Rightarrow> market_data_hub" where
  "publish_ticks alive batch h =
     (case batch of
        None \<Rightarrow> h
      | Some b \<Rightarrow>
          let b = b\<lparr>mb_items := map (\<lambda>t. t\<lparr>tk_flags := mark_live_payload (tk_flags t) False\<rparr>) (mb_items b)\<rparr>;
              (subscribers, h) = live_subscribers alive h
          in h\<lparr>mh_calls := mh_calls h @ map (\<lambda>s. Tick_data s b) subscribers\<rparr>)"

definition publish_bars :: "(nat \<Rightarrow> bool) \<Rightarrow> bar md_batch option \<Rightarrow> market_data_hub \<Rightarrow> market_data_hub" where
  "publish_bars alive batch h =
     (case batch of
        None \<Rightarrow> h
      | Some b \<Rightarrow>
          let b = b\<lparr>mb_items := map (\<lambda>x. x\<lparr>bar_flags := mark_live_payload (bar_flags x) False\<rparr>) (mb_items b)\<rparr>;
              (subscribers, h) = live_subscribers alive h
          in h\<lparr>mh_calls := mh_calls h @ map (\<lambda>s. Bar_data s b) subscribers\<rparr>)"

definition publish_status :: "(nat \<Rightarrow> bool) \<Rightarrow> status_update \<Rightarrow> market_data_hub \<Rightarrow> market_data_hub" where
  "publish_status alive update h =
     (let h = h\<lparr>mh_last_statuses := cache_status update (mh_last_statuses h)\<rparr>;
          h = prune_subscribers alive h
      in h\<lparr>mh_calls := mh_calls h @ map (\<lambda>slot. Status_update (ss_subscriber slot) update) (mh_subscribers h)\<rparr>)"

subsection \<open>The status cache\<close>

lemma same_status_key_equiv:
  "same_status_key u u"
  "same_status_key u v \<longleftrightarrow> same_status_key v u"
  "same_status_key u v \<Longrightarrow> same_status_key v w \<Longrightarrow> same_status_key u w"
  by (auto simp: same_status_key_def split: if_splits)

text \<open>What the cache holds for a stream.\<close>

definition cached_for :: "status_update \<Rightarrow> status_update list \<Rightarrow> status_update list" where
  "cached_for u cs = filter (\<lambda>c. same_status_key c u) cs"

lemma cache_keeps_others: "\<not> same_status_key v u \<Longrightarrow> cached_for u (cache_status v cs) = cached_for u cs"
  by (induction v cs rule: cache_status.induct)
     (auto simp: cached_for_def dest: same_status_key_equiv(3) same_status_key_equiv(2) [THEN iffD1])

lemma cache_replaces:
  "same_status_key v u \<Longrightarrow> length (cached_for u cs) \<le> 1 \<Longrightarrow> cached_for u (cache_status v cs) = [v]"
proof (induction v cs rule: cache_status.induct)
  case (2 v c cs)
  show ?case
  proof (cases "same_status_key c v")
    case True
    then have "same_status_key c u" using "2.prems"(1) same_status_key_equiv(3) by blast
    with "2.prems" True show ?thesis by (auto simp: cached_for_def)
  next
    case False
    then have "\<not> same_status_key c u" using "2.prems"(1) same_status_key_equiv by blast
    with "2.IH" [OF False] "2.prems" False show ?thesis by (simp add: cached_for_def)
  qed
qed (simp add: cached_for_def)

text \<open>The calls that fill the hub.\<close>

datatype hub_op =
    Add_subscriber nat bool
  | Remove_subscriber u64
  | Clear_subscribers
  | Publish_ticks "tick md_batch option"
  | Publish_bars "bar md_batch option"
  | Publish_status status_update

definition hub_step :: "market_data_hub \<Rightarrow> (nat \<Rightarrow> bool) \<times> hub_op \<Rightarrow> market_data_hub" where
  "hub_step h p = (case snd p of
     Add_subscriber s r \<Rightarrow> snd (add_weak_subscriber (fst p) s r h)
   | Remove_subscriber i \<Rightarrow> snd (remove_subscriber i h)
   | Clear_subscribers \<Rightarrow> clear_subscribers h
   | Publish_ticks b \<Rightarrow> publish_ticks (fst p) b h
   | Publish_bars b \<Rightarrow> publish_bars (fst p) b h
   | Publish_status u \<Rightarrow> publish_status (fst p) u h)"

lemma hub_step_statuses:
  "mh_last_statuses (hub_step h p) =
    (case snd p of Publish_status u \<Rightarrow> cache_status u (mh_last_statuses h) | _ \<Rightarrow> mh_last_statuses h)"
  by (cases "snd p")
     (simp_all add: hub_step_def add_weak_subscriber_def remove_subscriber_def clear_subscribers_def publish_ticks_def
       publish_bars_def publish_status_def prune_subscribers_def live_subscribers_def Let_def split: option.split)

text \<open>The updates published, the last first.\<close>

definition published :: "((nat \<Rightarrow> bool) \<times> hub_op) list \<Rightarrow> status_update list" where
  "published es = rev (concat (map (\<lambda>p. case snd p of Publish_status u \<Rightarrow> [u] | _ \<Rightarrow> []) es))"

lemma published_simps:
  "published [] = []"
  "published (es @ [p]) = (case snd p of Publish_status u \<Rightarrow> [u] | _ \<Rightarrow> []) @ published es"
  by (cases "snd p"; simp add: published_def)+

lemma cache_is_last:
  "cached_for u (mh_last_statuses (foldl hub_step make_hub es)) = take 1 (filter (\<lambda>v. same_status_key v u) (published es))"
proof (induction es rule: rev_induct)
  case Nil
  then show ?case by (simp add: make_hub_def cached_for_def published_simps)
next
  case (snoc p es)
  show ?case
  proof (cases "\<exists>v. snd p = Publish_status v")
    case True
    then obtain v where v: "snd p = Publish_status v" by blast
    have "length (cached_for u (mh_last_statuses (foldl hub_step make_hub es))) \<le> 1" using snoc by simp
    with v snoc show ?thesis
      by (cases "same_status_key v u") (simp_all add: hub_step_statuses published_simps cache_replaces cache_keeps_others)
  next
    case False
    then show ?thesis using snoc by (cases "snd p") (simp_all add: hub_step_statuses published_simps)
  qed
qed

lemma add_calls:
  "alive s \<Longrightarrow> mh_calls (snd (add_weak_subscriber alive s r h)) =
     mh_calls h @ (if r then map (Status_update s) (mh_last_statuses h) else [])"
  by (simp add: add_weak_subscriber_def Let_def split_def)

text \<open>Whatever happened to the hub before, a subscriber that joins with replay is told of every stream exactly once, the status that was published last for it, and of no stream without a status.\<close>

theorem late_subscriber_informed:
  assumes "alive s"
  shows "\<exists>new. mh_calls (snd (add_weak_subscriber alive s True (foldl hub_step make_hub es))) =
      mh_calls (foldl hub_step make_hub es) @ map (Status_update s) new \<and>
    filter (\<lambda>v. same_status_key v u) new = take 1 (filter (\<lambda>v. same_status_key v u) (published es))"
  using add_calls [of alive s True, OF assms] cache_is_last [of u es]
  by (intro exI [of _ "mh_last_statuses (foldl hub_step make_hub es)"]) (simp add: cached_for_def)

text \<open>The identifiers stay distinct until all but one of the values of the counter have been used.\<close>

definition hub_ids :: "nat \<Rightarrow> market_data_hub \<Rightarrow> bool" where
  "hub_ids n h \<longleftrightarrow> unat (mh_next_subscriber_id h) = Suc n \<and> distinct (map ss_id (mh_subscribers h))
     \<and> list_all (\<lambda>slot. 0 < unat (ss_id slot) \<and> unat (ss_id slot) \<le> n) (mh_subscribers h)"

lemma hub_ids_add:
  assumes "hub_ids n h" and "n < 18446744073709551614"
  shows "hub_ids (Suc n) (snd (add_weak_subscriber alive s r h)) \<or> hub_ids n (snd (add_weak_subscriber alive s r h))"
proof (cases "alive s")
  case True
  let ?i = "mh_next_subscriber_id h"
  have "?i \<noteq> 0" using assms(1) by (auto simp: hub_ids_def)
  moreover have "unat (?i + 1) = Suc (Suc n)"
    using assms unat_add_fits [of ?i 1] by (simp add: hub_ids_def)
  moreover have "?i \<notin> ss_id ` set (mh_subscribers h)" using assms(1) by (auto simp: hub_ids_def list_all_iff)
  ultimately show ?thesis using True assms(1)
    by (auto simp: add_weak_subscriber_def hub_ids_def Let_def list_all_iff)
next
  case False
  with assms show ?thesis by (simp add: add_weak_subscriber_def)
qed

lemma hub_ids_filter: "hub_ids n h \<Longrightarrow> hub_ids n (h\<lparr>mh_subscribers := filter P (mh_subscribers h)\<rparr>)"
  by (auto simp: hub_ids_def list_all_iff distinct_map intro: inj_on_subset)

text \<open>A removal takes exactly the slot of its identifier.\<close>

lemma remove_exact:
  assumes "hub_ids n h" and "slot \<in> set (mh_subscribers h)"
  shows "fst (remove_subscriber (ss_id slot) h) \<and>
    mset (mh_subscribers (snd (remove_subscriber (ss_id slot) h))) = mset (mh_subscribers h) - {#slot#}"
proof -
  have i: "ss_id slot \<noteq> 0" using assms by (auto simp: hub_ids_def list_all_iff)
  have d: "distinct (map ss_id (mh_subscribers h))" using assms(1) by (simp add: hub_ids_def)
  have "filter (\<lambda>x. ss_id x \<noteq> ss_id slot) xs = remove1 slot xs \<and> length (remove1 slot xs) \<noteq> length xs"
    if "distinct (map ss_id xs)" "slot \<in> set xs" for xs
    using that
  proof (induction xs)
    case (Cons x xs)
    show ?case
    proof (cases "x = slot")
      case True
      with Cons.prems have "\<forall>y \<in> set xs. ss_id y \<noteq> ss_id slot" by (auto simp: rev_image_eqI)
      with True show ?thesis by (simp add: filter_id_conv)
    next
      case False
      with Cons.prems have "slot \<in> set xs" "ss_id x \<noteq> ss_id slot" by (auto simp: rev_image_eqI)
      with Cons False show ?thesis by simp
    qed
  qed simp
  from this [OF d assms(2)] i show ?thesis by (simp add: remove_subscriber_def Let_def)
qed

subsection \<open>A sample\<close>

definition sample_update :: "string \<Rightarrow> md_stream_status \<Rightarrow> status_update" where
  "sample_update symbol st = \<lparr>su_provider_id = 1, su_subscription = subscription_handle_default, su_type = MDT_TICKS,
     su_symbol = symbol, su_timeframe = 0, su_transport = MTR_WEBSOCKET, su_status = st, su_message = []\<rparr>"

definition sample_hub_run :: "((nat \<Rightarrow> bool) \<times> hub_op) list" where
  "sample_hub_run = [(\<lambda>_. True, Add_subscriber 7 True), (\<lambda>_. True, Publish_status (sample_update ''EURUSD'' STS_CONNECTING)),
     (\<lambda>_. True, Publish_status (sample_update ''BTCUSDT'' STS_READY)), (\<lambda>_. False, Publish_status (sample_update ''EURUSD'' STS_READY))]"

lemma late_subscriber_informed_witness:
  "\<exists>new. mh_calls (snd (add_weak_subscriber (\<lambda>_. True) 9 True (foldl hub_step make_hub sample_hub_run))) =
      mh_calls (foldl hub_step make_hub sample_hub_run) @ map (Status_update 9) new \<and>
    filter (\<lambda>v. same_status_key v (sample_update ''EURUSD'' STS_UNKNOWN)) new = [sample_update ''EURUSD'' STS_READY]"
proof -
  have "take 1 (filter (\<lambda>v. same_status_key v (sample_update ''EURUSD'' STS_UNKNOWN)) (published sample_hub_run)) =
    [sample_update ''EURUSD'' STS_READY]" by code_simp
  with late_subscriber_informed [of "\<lambda>_. True" 9 sample_hub_run "sample_update ''EURUSD'' STS_UNKNOWN"]
  show ?thesis by simp
qed

end
