(* ===== verification/MarketHistory.thy ===== *)
theory MarketHistory
  imports MarketTypes
begin

section \<open>History ranges, validation and watermarks\<close>

text \<open>
  \<open>market_data/MarketDataContinuityService.hpp\<close> and the helpers of \<open>market_data/detail/MarketDataRouter.ipp\<close> that
  plan history requests, judge and clip the answers, remove duplicate ticks, keep the watermarks of a route and space
  retries. Times are 64-bit words; a request to a provider is answered by the argument \<open>fetch\<close>.
\<close>

subsection \<open>Requests\<close>

abbreviation u64_max :: u64 where "u64_max \<equiv> - 1"

definition safe_multiply :: "u64 \<Rightarrow> u64 \<Rightarrow> u64" where
  "safe_multiply left right =
     (if left = 0 \<or> right = 0 then 0 else if left > u64_max div right then u64_max else left * right)"

definition seconds_to_milliseconds :: "int \<Rightarrow> u64" where
  "seconds_to_milliseconds seconds =
     (if seconds \<le> 0 then 0
      else let val = u64_of_i64 seconds in if val > u64_max div 1000 then u64_max else val * 1000)"

definition make_history_request :: "bar_subscription_request \<Rightarrow> u64 \<Rightarrow> u64 \<Rightarrow> bar_history_request" where
  "make_history_request request from_ms to_ms =
     (let max_seconds = u64_of_i64 i64_max;
          from_seconds = from_ms div 1000;
          to_seconds = to_ms div 1000
      in \<lparr>bhr_symbol = bsr_symbol request, bhr_timeframe = bsr_timeframe request,
          bhr_from_ts = i64_of_u64 (min from_seconds max_seconds), bhr_to_ts = i64_of_u64 (min to_seconds max_seconds),
          bhr_price_source = bsr_price_source request\<rparr>)"

definition make_prefill_request :: "bar_subscription_request \<Rightarrow> u64 \<Rightarrow> u64 \<Rightarrow> bar_history_request" where
  "make_prefill_request request now_ms bars =
     (let timeframe_ms = safe_multiply (u64_of_i64 (bsr_timeframe request)) 1000;
          depth_ms = safe_multiply timeframe_ms (if bars > 0 then bars - 1 else 0);
          aligned_now_ms = (if timeframe_ms > 0 then now_ms - now_ms mod timeframe_ms else now_ms);
          boundary_ms = (if aligned_now_ms > 0 then aligned_now_ms else now_ms);
          from_ms = (if boundary_ms > depth_ms then boundary_ms - depth_ms else 1)
      in make_history_request request from_ms boundary_ms)"

definition make_gap_request :: "bar_subscription_request \<Rightarrow> u64 \<Rightarrow> u64 \<Rightarrow> u64 \<Rightarrow> bar_history_request" where
  "make_gap_request request from_ms to_ms max_bars =
     (let to_ms = (if max_bars > 0 \<and> to_ms \<ge> from_ms \<and> 0 < bsr_timeframe request then
            let span_ms = safe_multiply (safe_multiply (u64_of_i64 (bsr_timeframe request)) 1000) (max_bars - 1);
                bounded_to_ms = (if from_ms > u64_max - span_ms then u64_max else from_ms + span_ms)
            in min to_ms bounded_to_ms
          else to_ms)
      in make_history_request request from_ms to_ms)"

subsection \<open>Answers\<close>

definition is_symbol_noise :: "char \<Rightarrow> bool" where
  "is_symbol_noise c \<longleftrightarrow> c = CHR ''/'' \<or> c_isspace c"

text \<open>\<open>symbols_match\<close>: the two indices walk to the next relevant character of each side.\<close>

function symbols_match :: "string \<Rightarrow> string \<Rightarrow> bool" where
  "symbols_match lhs rhs =
     (let lhs = dropWhile is_symbol_noise lhs; rhs = dropWhile is_symbol_noise rhs
      in if lhs = [] \<or> rhs = [] then lhs = [] \<and> rhs = []
         else if c_toupper (hd lhs) \<noteq> c_toupper (hd rhs) then False
         else symbols_match (tl lhs) (tl rhs))"
  by pat_completeness auto
termination
proof (relation "measure (\<lambda>(lhs, rhs). length lhs)", goal_cases)
  case (2 lhs rhs lhs' rhs')
  then have "lhs' \<noteq> []" "length lhs' \<le> length lhs" using length_dropWhile_le [of is_symbol_noise lhs] by auto
  then show ?case by (cases lhs') auto
qed simp

declare symbols_match.simps [simp del]

fun bars_ordered :: "u64 \<Rightarrow> u64 \<Rightarrow> u64 \<Rightarrow> bar list \<Rightarrow> bool" where
  "bars_ordered from_ms to_ms previous_time_ms [] = True"
| "bars_ordered from_ms to_ms previous_time_ms (b # bs) =
     (if bar_time_ms b = 0 \<or> bar_time_ms b < from_ms \<or> bar_time_ms b > to_ms
         \<or> previous_time_ms \<noteq> 0 \<and> bar_time_ms b \<le> previous_time_ms
      then False else bars_ordered from_ms to_ms (bar_time_ms b) bs)"

definition bars_fit_request :: "bar_sequence \<Rightarrow> bar_history_request \<Rightarrow> bool" where
  "bars_fit_request sequence request =
     (if 0 < bs_timeframe sequence \<and> bs_timeframe sequence \<noteq> bhr_timeframe request then False
      else if bs_symbol sequence \<noteq> [] \<and> \<not> symbols_match (bs_symbol sequence) (bhr_symbol request) then False
      else
        let from_ms = safe_multiply (u64_of_i64 (max 0 (bhr_from_ts request))) 1000;
            to_ms = safe_multiply (u64_of_i64 (max 0 (bhr_to_ts request))) 1000
        in bars_ordered from_ms to_ms 0 (bs_bars sequence))"

fun ticks_ordered :: "u64 \<Rightarrow> u64 \<Rightarrow> u64 \<Rightarrow> tick list \<Rightarrow> bool" where
  "ticks_ordered from_ms to_ms previous_time_ms [] = True"
| "ticks_ordered from_ms to_ms previous_time_ms (t # ts) =
     (if tk_time_ms t < from_ms \<or> tk_time_ms t > to_ms \<or> previous_time_ms \<noteq> 0 \<and> tk_time_ms t < previous_time_ms
      then False else ticks_ordered from_ms to_ms (tk_time_ms t) ts)"

definition ticks_fit_range :: "tick_sequence \<Rightarrow> u64 \<Rightarrow> u64 \<Rightarrow> bool" where
  "ticks_fit_range sequence from_time_ms to_time_ms = ticks_ordered from_time_ms to_time_ms 0 (ts_ticks sequence)"

definition make_bar_batch :: "bar_sequence \<Rightarrow> bar_history_request \<Rightarrow> subscription_handle \<Rightarrow> bool \<Rightarrow> bar md_batch" where
  "make_bar_batch sequence request subscription backfill_marks =
     (let price_type = market_price_type_from_bar_price_source
            (if bs_price_source sequence = BPS_UNKNOWN then bhr_price_source request else bs_price_source sequence)
      in \<lparr>mb_items = map (\<lambda>b. b\<lparr>bar_flags := set_market_price_type (mark_historical_payload (bar_flags b) backfill_marks) price_type\<rparr>)
            (bs_bars sequence),
          mb_subscription = subscription, mb_type = MDT_BARS,
          mb_symbol = (if bs_symbol sequence = [] then bhr_symbol request else bs_symbol sequence),
          mb_timeframe = (if 0 < bs_timeframe sequence then bs_timeframe sequence else bhr_timeframe request),
          mb_price_digits = bs_price_digits sequence, mb_volume_digits = bs_volume_digits sequence\<rparr>)"

definition make_tick_batch :: "tick_sequence \<Rightarrow> tick_history_request \<Rightarrow> subscription_handle \<Rightarrow> bool \<Rightarrow> tick md_batch" where
  "make_tick_batch sequence request subscription backfill_marks =
     \<lparr>mb_items = map (\<lambda>t. t\<lparr>tk_flags := mark_historical_payload (tk_flags t) backfill_marks\<rparr>) (ts_ticks sequence),
      mb_subscription = subscription, mb_type = MDT_TICKS,
      mb_symbol = (if ts_symbol sequence = [] then thr_symbol request else ts_symbol sequence), mb_timeframe = 0,
      mb_price_digits = ts_price_digits sequence, mb_volume_digits = ts_volume_digits sequence\<rparr>"

text \<open>The callbacks that a history request makes when the provider answers.\<close>

definition bar_history_batch ::
  "bar_history_request \<Rightarrow> subscription_handle \<Rightarrow> bool \<Rightarrow> bool \<Rightarrow> bar_sequence history_result
    \<Rightarrow> bar_sequence history_result + bar md_batch" where
  "bar_history_batch request subscription backfill_marks require_complete_range result =
     (if \<not> hr_success result then Inl result
      else if require_complete_range \<and> \<not> hr_range_complete result
      then Inl (history_fail bar_sequence_default ''Historical bar response does not prove the requested range is complete.'' (hr_status_code result))
      else if \<not> bars_fit_request (hr_sequence result) request
      then Inl (history_fail bar_sequence_default ''Historical bar response is outside the requested range, unordered, or duplicated.'' (hr_status_code result))
      else Inr (make_bar_batch (hr_sequence result) request subscription backfill_marks))"

definition tick_history_batch ::
  "tick_history_request \<Rightarrow> subscription_handle \<Rightarrow> bool \<Rightarrow> bool \<Rightarrow> tick_sequence history_result
    \<Rightarrow> tick_sequence history_result + tick md_batch" where
  "tick_history_batch request subscription backfill_marks require_complete_range result =
     (if \<not> hr_success result then Inl result
      else if require_complete_range \<and> \<not> hr_range_complete result
      then Inl (history_fail tick_sequence_default ''Historical tick response does not prove the requested range is complete.'' (hr_status_code result))
      else if ts_symbol (hr_sequence result) \<noteq> [] \<and> \<not> symbols_match (ts_symbol (hr_sequence result)) (thr_symbol request)
      then Inl (history_fail tick_sequence_default ''Historical tick response does not match the requested symbol.'' (hr_status_code result))
      else if \<not> ticks_fit_range (hr_sequence result) (thr_from_time_ms request) (thr_to_time_ms request)
      then Inl (history_fail tick_sequence_default ''Historical tick response is outside the requested range or unordered.'' (hr_status_code result))
      else Inr (make_tick_batch (hr_sequence result) request subscription backfill_marks))"

subsection \<open>The router's view of an answer\<close>

definition history_is_well_formed :: "bar list \<Rightarrow> u64 \<Rightarrow> u64 \<Rightarrow> bool" where
  "history_is_well_formed items from_time_ms to_time_ms =
     (if from_time_ms = 0 \<or> to_time_ms < from_time_ms then False else bars_ordered from_time_ms to_time_ms 0 items)"

definition clip_history_to_range :: "bar list \<Rightarrow> u64 \<Rightarrow> u64 \<Rightarrow> bar list" where
  "clip_history_to_range items from_time_ms to_time_ms =
     filter (\<lambda>b. \<not> (bar_time_ms b < from_time_ms \<or> bar_time_ms b > to_time_ms)) items"

definition tick_history_covers_range :: "tick list \<Rightarrow> u64 \<Rightarrow> u64 \<Rightarrow> bool" where
  "tick_history_covers_range items from_time_ms to_time_ms =
     (if from_time_ms = 0 \<or> to_time_ms < from_time_ms then False else ticks_ordered from_time_ms to_time_ms 0 items)"

subsection \<open>Tick observations\<close>

record observation_key =
  ok_time_ms :: u64
  ok_ask :: f64
  ok_bid :: f64
  ok_last :: f64
  ok_reference :: f64
  ok_volume :: f64

definition same_key :: "observation_key \<Rightarrow> observation_key \<Rightarrow> bool" where
  "same_key a b \<longleftrightarrow> ok_time_ms a = ok_time_ms b \<and> f64_eq (ok_ask a) (ok_ask b) \<and> f64_eq (ok_bid a) (ok_bid b)
     \<and> f64_eq (ok_last a) (ok_last b) \<and> f64_eq (ok_reference a) (ok_reference b) \<and> f64_eq (ok_volume a) (ok_volume b)"

definition tick_observation_key :: "tick \<Rightarrow> tick_deduplication_mode \<Rightarrow> observation_key" where
  "tick_observation_key t mode =
     (let key = \<lparr>ok_time_ms = tk_time_ms t, ok_ask = 0, ok_bid = 0, ok_last = 0, ok_reference = 0, ok_volume = 0\<rparr>
      in case mode of
        TDM_TIMESTAMP \<Rightarrow> key
      | TDM_TIME_AND_PRICES \<Rightarrow>
          key\<lparr>ok_ask := tk_ask t, ok_bid := tk_bid t, ok_last := tk_last t, ok_reference := tk_reference t\<rparr>
      | _ \<Rightarrow>
          key\<lparr>ok_ask := tk_ask t, ok_bid := tk_bid t, ok_last := tk_last t, ok_reference := tk_reference t,
              ok_volume := tk_volume t\<rparr>)"

definition same_tick_observation :: "tick \<Rightarrow> tick \<Rightarrow> tick_deduplication_mode \<Rightarrow> bool" where
  "same_tick_observation lhs rhs mode = same_key (tick_observation_key lhs mode) (tick_observation_key rhs mode)"

text \<open>A hash set of keys is the list of the ticks that were inserted; a key is in it if it equals one of them.\<close>

definition seen_key :: "tick_deduplication_mode \<Rightarrow> tick list \<Rightarrow> tick \<Rightarrow> bool" where
  "seen_key mode seen t = list_ex (\<lambda>s. same_tick_observation s t mode) seen"

fun dedup_loop :: "tick_deduplication_mode \<Rightarrow> tick list \<Rightarrow> tick list \<Rightarrow> tick list" where
  "dedup_loop mode seen [] = []"
| "dedup_loop mode seen (t # ts) =
     (if seen_key mode seen t then dedup_loop mode seen ts else t # dedup_loop mode (seen @ [t]) ts)"

definition deduplicate_tick_items :: "tick list \<Rightarrow> tick_deduplication_mode \<Rightarrow> tick list" where
  "deduplicate_tick_items ticks mode = dedup_loop mode [] ticks"

definition resolve_tick_deduplication_mode :: "tick_deduplication_mode \<Rightarrow> tick_deduplication_mode \<Rightarrow> tick_deduplication_mode" where
  "resolve_tick_deduplication_mode provider_mode requested =
     (let mode = (if requested = TDM_PROVIDER_DEFAULT then provider_mode else requested)
      in if mode = TDM_PROVIDER_DEFAULT then TDM_EXACT_OBSERVATION else mode)"

subsection \<open>Watermarks\<close>

text \<open>The fields of \<open>ContinuityState\<close> and \<open>TickContinuityState\<close> that the operations below keep.\<close>

record bar_marks =
  bm_last_observed_time_ms :: u64
  bm_verified_through_time_ms :: u64
  bm_unverified_from_time_ms :: u64

record tick_marks = bar_marks +
  tm_last_delivered_tick_time_ms :: u64
  tm_last_delivered_tick_observations :: "tick list"

definition mark_unverified :: "u64 \<Rightarrow> 'a bar_marks_scheme \<Rightarrow> 'a bar_marks_scheme" where
  "mark_unverified from_time_ms c =
     (if from_time_ms = 0 then c
      else if bm_unverified_from_time_ms c = 0 \<or> from_time_ms < bm_unverified_from_time_ms c
      then c\<lparr>bm_unverified_from_time_ms := from_time_ms\<rparr> else c)"

definition record_verified_range :: "u64 \<Rightarrow> u64 \<Rightarrow> u64 \<Rightarrow> bool \<Rightarrow> 'a bar_marks_scheme \<Rightarrow> 'a bar_marks_scheme" where
  "record_verified_range from_time_ms to_time_ms timeframe_ms has_more_reconnect_history c =
     (if from_time_ms = 0 \<or> to_time_ms < from_time_ms then c
      else if bm_unverified_from_time_ms c \<noteq> 0
        \<and> (from_time_ms > bm_unverified_from_time_ms c \<or> to_time_ms < bm_unverified_from_time_ms c) then c
      else
        let c = c\<lparr>bm_verified_through_time_ms := max (bm_verified_through_time_ms c) to_time_ms\<rparr>
        in if \<not> has_more_reconnect_history then c\<lparr>bm_unverified_from_time_ms := 0\<rparr>
           else c\<lparr>bm_unverified_from_time_ms :=
             (if timeframe_ms > 0 \<and> to_time_ms \<le> u64_max - timeframe_ms then to_time_ms + timeframe_ms else to_time_ms)\<rparr>)"

definition record_bar :: "bar \<Rightarrow> 'a bar_marks_scheme \<Rightarrow> 'a bar_marks_scheme" where
  "record_bar b c =
     (let c = (if bar_time_ms b > bm_last_observed_time_ms c then c\<lparr>bm_last_observed_time_ms := bar_time_ms b\<rparr> else c);
          trusted_finalized = (has_market_flag (bar_flags b) flag_finalized
            \<or> has_market_flag (bar_flags b) flag_historical \<and> \<not> has_market_flag (bar_flags b) flag_incomplete)
      in if trusted_finalized \<and> (bm_unverified_from_time_ms c = 0 \<or> bar_time_ms b < bm_unverified_from_time_ms c)
            \<and> bar_time_ms b > bm_verified_through_time_ms c
         then c\<lparr>bm_verified_through_time_ms := bar_time_ms b\<rparr> else c)"

definition record_bar_progress :: "bar list \<Rightarrow> 'a bar_marks_scheme \<Rightarrow> 'a bar_marks_scheme" where
  "record_bar_progress bars c = fold record_bar bars c"

definition record_tick_verified_range :: "u64 \<Rightarrow> u64 \<Rightarrow> 'a bar_marks_scheme \<Rightarrow> 'a bar_marks_scheme" where
  "record_tick_verified_range from_time_ms to_time_ms c =
     (if from_time_ms = 0 \<or> to_time_ms < from_time_ms then c
      else if bm_unverified_from_time_ms c \<noteq> 0
        \<and> (from_time_ms > bm_unverified_from_time_ms c \<or> to_time_ms < bm_unverified_from_time_ms c) then c
      else c\<lparr>bm_verified_through_time_ms := max (bm_verified_through_time_ms c) to_time_ms, bm_unverified_from_time_ms := 0\<rparr>)"

definition deduplicate_against_last_delivery :: "tick_deduplication_mode \<Rightarrow> 'a tick_marks_scheme \<Rightarrow> tick list \<Rightarrow> tick list" where
  "deduplicate_against_last_delivery mode c ticks =
     (if ticks = [] then ticks
      else if tm_last_delivered_tick_time_ms c = 0 \<or> tm_last_delivered_tick_observations c = [] then ticks
      else filter (\<lambda>t. \<not> seen_key mode (tm_last_delivered_tick_observations c) t) ticks)"

definition observe_tick :: "tick \<Rightarrow> 'a tick_marks_scheme \<Rightarrow> 'a tick_marks_scheme" where
  "observe_tick t c =
     (let c = (if tk_time_ms t > bm_last_observed_time_ms c then c\<lparr>bm_last_observed_time_ms := tk_time_ms t\<rparr> else c)
      in if bm_unverified_from_time_ms c = 0 \<and> tk_time_ms t > bm_verified_through_time_ms c
         then c\<lparr>bm_verified_through_time_ms := tk_time_ms t\<rparr> else c)"

fun add_observations :: "tick_deduplication_mode \<Rightarrow> u64 \<Rightarrow> tick list \<Rightarrow> tick list \<Rightarrow> tick list" where
  "add_observations mode latest seen [] = seen"
| "add_observations mode latest seen (t # ts) =
     (if tk_time_ms t = latest \<and> \<not> seen_key mode seen t then add_observations mode latest (seen @ [t]) ts
      else add_observations mode latest seen ts)"

definition record_tick_progress :: "tick_deduplication_mode \<Rightarrow> tick list \<Rightarrow> 'a tick_marks_scheme \<Rightarrow> 'a tick_marks_scheme" where
  "record_tick_progress mode ticks c =
     (let c = fold observe_tick ticks c;
          latest_delivery_time_ms = fold (\<lambda>t latest. max latest (tk_time_ms t)) ticks 0
      in if latest_delivery_time_ms = 0 then c
         else
           let c = (if latest_delivery_time_ms > tm_last_delivered_tick_time_ms c
                 then c\<lparr>tm_last_delivered_tick_time_ms := latest_delivery_time_ms, tm_last_delivered_tick_observations := []\<rparr>
                 else c)
           in if latest_delivery_time_ms \<noteq> tm_last_delivered_tick_time_ms c then c
              else c\<lparr>tm_last_delivered_tick_observations :=
                add_observations mode latest_delivery_time_ms (tm_last_delivered_tick_observations c) ticks\<rparr>)"

subsection \<open>Tick history ranges and retries\<close>

definition align_tick_history_start_time_ms :: "u64 \<Rightarrow> u64 \<Rightarrow> u64" where
  "align_tick_history_start_time_ms time_ms interval_ms =
     (if time_ms = 0 \<or> interval_ms = 0 then time_ms else time_ms - time_ms mod interval_ms)"

definition align_tick_history_end_time_ms :: "u64 \<Rightarrow> u64 \<Rightarrow> u64" where
  "align_tick_history_end_time_ms time_ms interval_ms =
     (if time_ms = 0 \<or> interval_ms = 0 then time_ms else time_ms - time_ms mod interval_ms)"

definition bounded_tick_history_to_time_ms :: "u64 \<Rightarrow> u64 \<Rightarrow> u64 \<Rightarrow> u64 \<Rightarrow> u64" where
  "bounded_tick_history_to_time_ms from_time_ms target_time_ms max_backfill_ms interval_ms =
     (if max_backfill_ms = 0 then align_tick_history_end_time_ms target_time_ms interval_ms
      else
        let span = max_backfill_ms - 1;
            bounded = (if from_time_ms > u64_max - span then u64_max else from_time_ms + span);
            target_end = align_tick_history_end_time_ms target_time_ms interval_ms
        in if target_end \<le> bounded then target_end
           else if interval_ms = 0 then bounded
           else
             let aligned_bound = align_tick_history_start_time_ms bounded interval_ms
             in if aligned_bound \<ge> from_time_ms then aligned_bound else from_time_ms)"

definition next_tick_history_range :: "u64 \<Rightarrow> u64 \<Rightarrow> u64 \<Rightarrow> u64 \<Rightarrow> (u64 \<times> u64) option" where
  "next_tick_history_range previous_to_time_ms target_time_ms max_backfill_ms interval_ms =
     (if target_time_ms \<le> previous_to_time_ms then None
      else
        let can_overlap = (max_backfill_ms = 0 \<or>
              (if interval_ms = 0 then max_backfill_ms > 1 else max_backfill_ms > interval_ms));
            step = (if interval_ms > 0 then interval_ms else 1)
        in if \<not> can_overlap \<and> previous_to_time_ms > u64_max - step then None
           else
             let next_from_time_ms = (if can_overlap then previous_to_time_ms else previous_to_time_ms + step)
             in if next_from_time_ms > target_time_ms then None
                else
                  let to_ms = bounded_tick_history_to_time_ms next_from_time_ms target_time_ms max_backfill_ms interval_ms;
                      next_to_time_ms = (if to_ms < next_from_time_ms \<and> interval_ms > 0 then next_from_time_ms else to_ms)
                  in if next_to_time_ms \<ge> next_from_time_ms then Some (next_from_time_ms, next_to_time_ms) else None)"

fun backoff_loop :: "nat \<Rightarrow> u64 \<Rightarrow> u64 \<Rightarrow> u64" where
  "backoff_loop 0 max_backoff_ms delay_ms = delay_ms"
| "backoff_loop (Suc n) max_backoff_ms delay_ms =
     (if delay_ms > u64_max div 2 then u64_max
      else
        let delay_ms = delay_ms * 2
        in if max_backoff_ms > 0 \<and> delay_ms \<ge> max_backoff_ms then max_backoff_ms
           else backoff_loop n max_backoff_ms delay_ms)"

text \<open>The delay in milliseconds; \<open>max_delay_ms\<close> is the largest one that the clock's duration can hold.\<close>

definition continuity_retry_delay :: "u64 \<Rightarrow> continuity_retry_policy \<Rightarrow> nat \<Rightarrow> u64" where
  "continuity_retry_delay max_delay_ms policy attempt =
     (if attempt = 0 \<or> crp_initial_backoff_ms policy = 0 then 0
      else
        let delay_ms = backoff_loop (attempt - 1) (crp_max_backoff_ms policy) (crp_initial_backoff_ms policy);
            delay_ms = (if crp_max_backoff_ms policy > 0 then min delay_ms (crp_max_backoff_ms policy) else delay_ms)
        in min delay_ms max_delay_ms)"

subsection \<open>Arithmetic\<close>

lemma unat_u64_max [simp]: "unat u64_max = 18446744073709551615"
  by (simp add: unsigned_minus_1_eq_mask mask_eq_exp_minus_1)

lemma unat_safe_multiply: "unat (safe_multiply a b) = min (unat a * unat b) 18446744073709551615"
proof (cases "a = 0 \<or> b = 0")
  case True
  then show ?thesis by (auto simp: safe_multiply_def)
next
  case False
  then have b: "0 < unat b" by (simp add: unat_gt_0)
  have "a > u64_max div b \<longleftrightarrow> 18446744073709551615 < unat a * unat b"
    using div_less_iff_less_mult [OF b, of 18446744073709551615 "unat a"]
    by (simp add: word_less_nat_alt unat_div)
  with False show ?thesis using unat_mult_fits [of a b] by (simp add: safe_multiply_def min_def)
qed

lemma unat_add_sat: "unat (if a > u64_max - b then u64_max else a + b) = min (unat a + unat b) 18446744073709551615"
proof -
  have "unat (u64_max - b) = 18446744073709551615 - unat b"
    using unat_sub [of b u64_max] by simp
  moreover have "unat b \<le> 18446744073709551615" using unat_u64_less [of b] by simp
  ultimately have "a > u64_max - b \<longleftrightarrow> 18446744073709551615 < unat a + unat b"
    by (auto simp: word_less_nat_alt)
  then show ?thesis using unat_add_fits [of a b] by (simp add: min_def)
qed

subsection \<open>Order\<close>

lemma bars_ordered_iff:
  "bars_ordered a b p bs \<longleftrightarrow>
     list_all (\<lambda>x. bar_time_ms x \<noteq> 0 \<and> a \<le> bar_time_ms x \<and> bar_time_ms x \<le> b) bs
     \<and> (p \<noteq> 0 \<longrightarrow> list_all (\<lambda>x. p < bar_time_ms x) bs) \<and> sorted_wrt (<) (map bar_time_ms bs)"
proof (induction a b p bs rule: bars_ordered.induct)
  case (2 a b p x xs)
  show ?case
  proof (cases "bar_time_ms x = 0 \<or> bar_time_ms x < a \<or> bar_time_ms x > b \<or> p \<noteq> 0 \<and> bar_time_ms x \<le> p")
    case True
    then show ?thesis by auto
  next
    case False
    with 2 [OF False] show ?thesis by (auto simp: list_all_iff not_le intro: order.strict_trans)
  qed
qed simp

lemma ticks_ordered_iff:
  "ticks_ordered a b p ts \<longleftrightarrow>
     list_all (\<lambda>x. a \<le> tk_time_ms x \<and> tk_time_ms x \<le> b) ts
     \<and> list_all (\<lambda>x. p \<le> tk_time_ms x) ts \<and> sorted (map tk_time_ms ts)"
proof (induction a b p ts rule: ticks_ordered.induct)
  case (2 a b p x xs)
  show ?case
  proof (cases "tk_time_ms x < a \<or> tk_time_ms x > b \<or> p \<noteq> 0 \<and> tk_time_ms x < p")
    case True
    then show ?thesis by auto
  next
    case False
    then have "p \<le> tk_time_ms x" by (cases "p = 0") auto
    with 2 [OF False] False show ?thesis by (auto simp: list_all_iff intro: order.trans)
  qed
qed simp

subsection \<open>Symbols\<close>

definition symbol_core :: "string \<Rightarrow> string" where
  "symbol_core s = to_upper_case (filter (\<lambda>c. \<not> is_symbol_noise c) s)"

lemma symbol_core_dropWhile: "symbol_core (dropWhile is_symbol_noise s) = symbol_core s"
  by (induction s) (simp_all add: symbol_core_def to_upper_case_def)

lemma dropWhile_core:
  "symbol_core s = (case dropWhile is_symbol_noise s of [] \<Rightarrow> [] | c # cs \<Rightarrow> c_toupper c # symbol_core cs)"
  by (induction s) (simp_all add: symbol_core_def to_upper_case_def)

lemma symbols_match_iff: "symbols_match lhs rhs \<longleftrightarrow> symbol_core lhs = symbol_core rhs"
proof (induction lhs rhs rule: symbols_match.induct)
  case (1 lhs rhs)
  note core = dropWhile_core [of lhs] dropWhile_core [of rhs]
  note step = symbols_match.simps [of lhs rhs]
  show ?case
  proof (cases "dropWhile is_symbol_noise lhs = [] \<or> dropWhile is_symbol_noise rhs = []")
    case True
    then show ?thesis unfolding core step by (auto simp: Let_def simp del: dropWhile_eq_Nil_conv split: list.split)
  next
    case False
    then obtain a as b bs where c: "dropWhile is_symbol_noise lhs = a # as" "dropWhile is_symbol_noise rhs = b # bs"
      by (meson list.exhaust)
    have "c_toupper a = c_toupper b \<Longrightarrow> symbols_match as bs \<longleftrightarrow> symbol_core as = symbol_core bs"
      using "1.IH" [OF refl refl] c by simp
    then show ?thesis unfolding core step c by (simp add: Let_def)
  qed
qed

lemma symbols_match_equiv:
  "symbols_match s s" "symbols_match s t \<Longrightarrow> symbols_match t s" "symbols_match s t \<Longrightarrow> symbols_match t u \<Longrightarrow> symbols_match s u"
  by (simp_all add: symbols_match_iff)

subsection \<open>Duplicate observations\<close>

lemma f64_eq_laws:
  "f64_eq x y \<longleftrightarrow> f64_eq y x" "f64_eq x y \<Longrightarrow> f64_eq y z \<Longrightarrow> f64_eq x z"
  by (auto simp: f64_eq_def)

lemma same_observation_sym: "same_tick_observation s t m \<Longrightarrow> same_tick_observation t s m"
  by (auto simp: same_tick_observation_def same_key_def f64_eq_laws(1))

lemma same_observation_trans:
  "same_tick_observation s t m \<Longrightarrow> same_tick_observation t u m \<Longrightarrow> same_tick_observation s u m"
  by (auto simp: same_tick_observation_def same_key_def intro: f64_eq_laws(2))

lemma same_observation_time: "same_tick_observation s t m \<Longrightarrow> tk_time_ms s = tk_time_ms t"
  by (cases m) (auto simp: same_tick_observation_def same_key_def tick_observation_key_def Let_def)

lemma seen_key_Nil [simp]: "\<not> seen_key m [] t"
  by (simp add: seen_key_def)

lemma seen_key_append [simp]: "seen_key m (xs @ ys) t \<longleftrightarrow> seen_key m xs t \<or> seen_key m ys t"
  by (simp add: seen_key_def)

lemma seen_key_single [simp]: "seen_key m [s] t \<longleftrightarrow> same_tick_observation s t m"
  by (simp add: seen_key_def)

lemma dedup_loop_seen: "t \<in> set (dedup_loop m seen ts) \<Longrightarrow> \<not> seen_key m seen t"
  by (induction m seen ts rule: dedup_loop.induct) (auto split: if_splits)

lemma dedup_loop_covers: "seen_key m ts u \<Longrightarrow> seen_key m (seen @ dedup_loop m seen ts) u"
proof (induction m seen ts rule: dedup_loop.induct)
  case (2 m seen t ts)
  show ?case
  proof (cases "seen_key m seen t")
    case True
    then obtain s where "s \<in> set seen" "same_tick_observation s t m" by (auto simp: seen_key_def list_ex_iff)
    then have "same_tick_observation t u m \<Longrightarrow> seen_key m seen u"
      by (auto simp: seen_key_def list_ex_iff intro: same_observation_trans)
    with 2 True show ?thesis by (auto simp: seen_key_def)
  next
    case False
    with 2 show ?thesis by (auto simp: seen_key_def)
  qed
qed simp

lemma dedup_loop_distinct: "sorted_wrt (\<lambda>s t. \<not> same_tick_observation s t m) (dedup_loop m seen ts)"
proof (induction m seen ts rule: dedup_loop.induct)
  case (2 m seen t ts)
  then show ?case by (auto dest: dedup_loop_seen)
qed simp

lemma dedup_loop_set: "set (dedup_loop m seen ts) \<subseteq> set ts"
  by (induction m seen ts rule: dedup_loop.induct) auto

lemma seen_key_trans: "seen_key m seen s \<Longrightarrow> same_tick_observation s t m \<Longrightarrow> seen_key m seen t"
  by (auto simp: seen_key_def list_ex_iff intro: same_observation_trans)

lemma add_observations_seen:
  "seen_key m (add_observations m latest seen ts) u \<longleftrightarrow>
   seen_key m seen u \<or> seen_key m (filter (\<lambda>t. tk_time_ms t = latest) ts) u"
proof (induction m latest seen ts rule: add_observations.induct)
  case (2 m latest seen t ts)
  have "seen_key m (x # xs) u \<longleftrightarrow> same_tick_observation x u m \<or> seen_key m xs u" for x xs
    by (simp add: seen_key_def)
  with 2 show ?case by (auto dest: seen_key_trans)
qed simp

definition latest_time :: "tick list \<Rightarrow> u64" where
  "latest_time ts = fold (\<lambda>t latest. max latest (tk_time_ms t)) ts 0"

lemma fold_max: "fold (\<lambda>t latest. max latest (tk_time_ms t)) ts a = max a (latest_time ts)"
proof (induction ts arbitrary: a)
  case (Cons t ts)
  have "latest_time (t # ts) = max (tk_time_ms t) (latest_time ts)"
    using Cons [of "max 0 (tk_time_ms t)"] by (simp add: latest_time_def)
  with Cons [of "max a (tk_time_ms t)"] show ?case by (simp add: max.assoc)
qed (simp add: latest_time_def)

lemma latest_time_append [simp]: "latest_time (xs @ ys) = max (latest_time xs) (latest_time ys)"
  using fold_max [of ys "latest_time xs"] by (simp add: latest_time_def)

lemma latest_time_Nil [simp]: "latest_time [] = 0"
  by (simp add: latest_time_def)

lemma latest_time_ge: "t \<in> set ts \<Longrightarrow> tk_time_ms t \<le> latest_time ts"
proof (induction ts)
  case (Cons x xs)
  have "latest_time (x # xs) = max (tk_time_ms x) (latest_time xs)"
    using latest_time_append [of "[x]" xs] by (simp add: latest_time_def)
  with Cons show ?case by (auto simp: le_max_iff_disj)
qed simp

lemma observe_frame [simp]:
  "tm_last_delivered_tick_time_ms (fold observe_tick ts c) = tm_last_delivered_tick_time_ms c"
  "tm_last_delivered_tick_observations (fold observe_tick ts c) = tm_last_delivered_tick_observations c"
  by (induction ts arbitrary: c) (simp_all add: observe_tick_def Let_def)

text \<open>What the state remembers of the ticks delivered so far.\<close>

definition remembers :: "tick_deduplication_mode \<Rightarrow> tick list \<Rightarrow> 'a tick_marks_scheme \<Rightarrow> bool" where
  "remembers m delivered c \<longleftrightarrow> tm_last_delivered_tick_time_ms c = latest_time delivered \<and>
     (latest_time delivered = 0 \<longrightarrow> tm_last_delivered_tick_observations c = []) \<and>
     (\<forall>u. 0 < latest_time delivered \<longrightarrow> (seen_key m (tm_last_delivered_tick_observations c) u \<longleftrightarrow>
        seen_key m (filter (\<lambda>t. tk_time_ms t = latest_time delivered) delivered) u))"

lemma remembers_record:
  assumes "remembers m delivered c"
  shows "remembers m (delivered @ ts) (record_tick_progress m ts c)"
proof -
  let ?old = "latest_time delivered" and ?new = "latest_time ts"
  have none: "filter (\<lambda>t. tk_time_ms t = l) xs = []" if "latest_time xs < l" for l xs
    using that latest_time_ge [of _ xs] by (auto simp: filter_empty_conv dest: leD)
  have rec: "record_tick_progress m ts c =
    (let c = fold observe_tick ts c
     in if ?new = 0 then c
        else let c = (if ?new > ?old then c\<lparr>tm_last_delivered_tick_time_ms := ?new, tm_last_delivered_tick_observations := []\<rparr> else c)
             in if ?new \<noteq> tm_last_delivered_tick_time_ms c then c
                else c\<lparr>tm_last_delivered_tick_observations := add_observations m ?new (tm_last_delivered_tick_observations c) ts\<rparr>)"
    using assms by (simp add: record_tick_progress_def Let_def latest_time_def [symmetric] remembers_def)
  consider "?new = 0" | "0 < ?new" "?old < ?new" | "0 < ?new" "?new = ?old" | "0 < ?new" "?new < ?old"
    by (metis linorder_less_linear word_gt_0)
  then show ?thesis
  proof cases
    case 1
    then have "0 < ?old \<Longrightarrow> filter (\<lambda>t. tk_time_ms t = ?old) ts = []" by (intro none) simp
    with assms 1 show ?thesis by (simp add: rec remembers_def)
  next
    case 2
    then have "?new \<noteq> 0" "max ?old ?new = ?new" by (auto simp: max.absorb2)
    with 2 assms none [OF 2(2)] show ?thesis
      by (simp add: rec remembers_def Let_def add_observations_seen)
  next
    case 3
    then have "?old \<noteq> 0" by auto
    with 3 assms show ?thesis by (simp add: rec remembers_def Let_def add_observations_seen)
  next
    case 4
    then have "?new \<noteq> 0" "?old \<noteq> 0" "\<not> ?old < ?new" "?new \<noteq> ?old" "max ?old ?new = ?old" by (auto simp: max.absorb1)
    with 4 assms none [OF 4(2)] show ?thesis by (simp add: rec remembers_def Let_def)
  qed
qed

lemma remembers_run:
  "remembers m delivered c \<Longrightarrow> remembers m (delivered @ concat tss) (foldl (\<lambda>c ts. record_tick_progress m ts c) c tss)"
proof (induction tss arbitrary: delivered c)
  case (Cons ts tss)
  from Cons.IH [OF remembers_record [OF Cons.prems, of ts]] show ?case by simp
qed simp

text \<open>C36: Whatever live batches were delivered, the removal of duplicates from a history takes out exactly the ticks of
  the last delivered time that were delivered before (ticks without a time are kept). Hence, when the history starts no
  earlier than the last delivered tick, it takes out exactly what was delivered before, although it remembers the
  observations of one time stamp only; earlier ticks of an older range are delivered again.\<close>

theorem overlap_removed:
  assumes "tm_last_delivered_tick_time_ms c0 = 0" "tm_last_delivered_tick_observations c0 = []"
    and "c = foldl (\<lambda>c ts. record_tick_progress mode ts c) c0 tss"
  shows "deduplicate_against_last_delivery mode c history =
      filter (\<lambda>t. \<not> (0 < tk_time_ms t \<and> tk_time_ms t = latest_time (concat tss) \<and> seen_key mode (concat tss) t)) history
    \<and> (list_all (\<lambda>t. 0 < tk_time_ms t \<and> latest_time (concat tss) \<le> tk_time_ms t) history \<longrightarrow>
      deduplicate_against_last_delivery mode c history = filter (\<lambda>t. \<not> seen_key mode (concat tss) t) history)"
proof -
  let ?d = "concat tss"
  have "remembers mode ([] @ ?d) c"
    unfolding assms(3) by (rule remembers_run) (use assms(1,2) in \<open>simp add: remembers_def\<close>)
  then have r: "remembers mode ?d c" by simp
  have time: "seen_key mode xs t \<Longrightarrow> \<exists>s \<in> set xs. tk_time_ms s = tk_time_ms t" for xs t
    by (auto simp: seen_key_def list_ex_iff dest: same_observation_time)
  have at: "seen_key mode (filter (\<lambda>s. tk_time_ms s = T) ?d) t \<longleftrightarrow> tk_time_ms t = T \<and> seen_key mode ?d t" for t T
    by (auto simp: seen_key_def list_ex_iff dest: same_observation_time)
  have exact: "deduplicate_against_last_delivery mode c history =
      filter (\<lambda>t. \<not> (0 < tk_time_ms t \<and> tk_time_ms t = latest_time ?d \<and> seen_key mode ?d t)) history"
  proof (cases "latest_time ?d = 0")
    case True
    then have "(\<lambda>t. \<not> (0 < tk_time_ms t \<and> tk_time_ms t = latest_time ?d \<and> seen_key mode ?d t)) = (\<lambda>t. True)" by auto
    with True r show ?thesis by (simp add: deduplicate_against_last_delivery_def remembers_def)
  next
    case False
    then have p: "0 < latest_time ?d" by (simp add: word_gt_0)
    with r have ob: "seen_key mode (tm_last_delivered_tick_observations c) t \<longleftrightarrow> tk_time_ms t = latest_time ?d \<and> seen_key mode ?d t" for t
      by (simp add: remembers_def at)
    have "\<not> seen_key mode [] t" for t by (simp add: seen_key_def)
    with ob have n: "tm_last_delivered_tick_observations c = [] \<Longrightarrow> \<not> (tk_time_ms t = latest_time ?d \<and> seen_key mode ?d t)" for t by metis
    have f: "(\<lambda>t. \<not> (0 < tk_time_ms t \<and> tk_time_ms t = latest_time ?d \<and> seen_key mode ?d t)) =
      (\<lambda>t. \<not> seen_key mode (tm_last_delivered_tick_observations c) t)"
      using ob p by auto
    have "filter (\<lambda>t. \<not> seen_key mode (tm_last_delivered_tick_observations c) t) history = history"
      if "tm_last_delivered_tick_observations c = []"
      using that by (simp add: seen_key_def)
    with False r show ?thesis unfolding f by (auto simp: deduplicate_against_last_delivery_def remembers_def)
  qed
  have later: "filter (\<lambda>t. \<not> (0 < tk_time_ms t \<and> tk_time_ms t = latest_time ?d \<and> seen_key mode ?d t)) history =
      filter (\<lambda>t. \<not> seen_key mode ?d t) history"
    if h: "list_all (\<lambda>t. 0 < tk_time_ms t \<and> latest_time ?d \<le> tk_time_ms t) history"
  proof (rule filter_cong [OF refl])
    fix t assume "t \<in> set history"
    with h have l: "0 < tk_time_ms t" "latest_time ?d \<le> tk_time_ms t" by (simp_all add: list_all_iff)
    have "tk_time_ms t = latest_time ?d" if "seen_key mode ?d t"
      using time [OF that] latest_time_ge [of _ ?d] l by fastforce
    with l show "(\<not> (0 < tk_time_ms t \<and> tk_time_ms t = latest_time ?d \<and> seen_key mode ?d t)) = (\<not> seen_key mode ?d t)" by auto
  qed
  from exact later show ?thesis by simp
qed

subsection \<open>Ranges that make progress\<close>

lemma unat_align: "unat (align_tick_history_end_time_ms x i) = (if i = 0 then unat x else unat x div unat i * unat i)"
  "align_tick_history_start_time_ms x i = align_tick_history_end_time_ms x i"
proof -
  have "x mod i \<le> x" if "i \<noteq> 0" using that by (simp add: word_le_nat_alt unat_mod)
  then show "unat (align_tick_history_end_time_ms x i) = (if i = 0 then unat x else unat x div unat i * unat i)"
    using minus_mod_eq_div_mult [of "unat x" "unat i"]
    by (auto simp: align_tick_history_end_time_ms_def unat_sub unat_mod)
qed (simp add: align_tick_history_start_time_ms_def align_tick_history_end_time_ms_def)

lemma unat_bounded:
  "unat (bounded_tick_history_to_time_ms a t m i) =
    (let target = (if i = 0 then unat t else unat t div unat i * unat i);
         bound = min (unat a + (unat m - 1)) 18446744073709551615
     in if m = 0 \<or> target \<le> bound then target
        else if i = 0 then bound else max (unat a) (bound div unat i * unat i))"
proof (cases "m = 0")
  case True
  then show ?thesis by (simp add: bounded_tick_history_to_time_ms_def unat_align(1) Let_def)
next
  case False
  then have m: "unat (m - 1) = unat m - 1" using unat_minus_one by blast
  define B where "B = (if a > u64_max - (m - 1) then u64_max else a + (m - 1))"
  define T where "T = align_tick_history_end_time_ms t i"
  have B: "unat B = min (unat a + (unat m - 1)) 18446744073709551615" unfolding B_def unat_add_sat m ..
  have T: "unat T = (if i = 0 then unat t else unat t div unat i * unat i)" unfolding T_def by (rule unat_align(1))
  have eq: "bounded_tick_history_to_time_ms a t m i =
    (if T \<le> B then T else if i = 0 then B
     else if a \<le> align_tick_history_end_time_ms B i then align_tick_history_end_time_ms B i else a)"
    using False by (simp add: bounded_tick_history_to_time_ms_def Let_def unat_align(2) T_def B_def)
  have al: "i \<noteq> 0 \<Longrightarrow> unat (align_tick_history_end_time_ms B i) = unat B div unat i * unat i"
    by (simp add: unat_align(1))
  show ?thesis
  proof (cases "T \<le> B")
    case True
    then have "unat T \<le> unat B" by (simp add: word_le_nat_alt)
    with True show ?thesis unfolding eq Let_def T [symmetric] B [symmetric] by simp
  next
    case no: False
    then have n: "\<not> unat T \<le> unat B" by (simp add: word_le_nat_alt)
    show ?thesis
    proof (cases "i = 0")
      case True
      with no n False show ?thesis unfolding eq Let_def T [symmetric] B [symmetric] by simp
    next
      case i: False
      have "unat (if a \<le> align_tick_history_end_time_ms B i then align_tick_history_end_time_ms B i else a) =
        max (unat a) (unat B div unat i * unat i)"
        using al [OF i] by (simp add: word_le_nat_alt max_def)
      with no n False i show ?thesis unfolding eq Let_def T [symmetric] B [symmetric] by simp
    qed
  qed
qed

definition on_grid :: "u64 \<Rightarrow> u64 \<Rightarrow> bool" where
  "on_grid interval time \<longleftrightarrow> interval = 0 \<or> unat interval dvd unat time"

lemma dvd_gap: "(i :: nat) dvd p \<Longrightarrow> i dvd t \<Longrightarrow> p < t \<Longrightarrow> p + i \<le> t"
  by (metis dvd_diff_nat dvd_imp_le le_diff_conv2 less_or_eq_imp_le zero_less_diff add.commute)

lemma next_range_step:
  assumes "on_grid interval previous" "on_grid interval target" "previous < target"
  shows "\<exists>from_time to_time. next_tick_history_range previous target max_backfill interval = Some (from_time, to_time) \<and>
    previous \<le> from_time \<and> unat from_time \<le> unat previous + max 1 (unat interval) \<and> previous < to_time \<and>
    to_time \<le> target \<and> on_grid interval to_time \<and>
    \<not> (max_backfill \<noteq> 0 \<and> unat max_backfill \<le> unat to_time - unat from_time)"
proof -
  let ?p = "unat previous" and ?t = "unat target" and ?i = "unat interval" and ?m = "unat max_backfill"
  let ?step = "if interval > 0 then interval else 1"
  define can where "can \<longleftrightarrow> max_backfill = 0 \<or> (if interval = 0 then max_backfill > 1 else max_backfill > interval)"
  define f where "f = (if can then previous else previous + ?step)"
  have lt: "?p < ?t" and T: "?t \<le> 18446744073709551615"
    using assms(3) unat_u64_less [of target] by (simp_all add: word_less_nat_alt)
  have i0: "interval = 0 \<longleftrightarrow> ?i = 0" "interval > 0 \<longleftrightarrow> 0 < ?i" by (simp_all add: unat_gt_0 word_gt_0 unat_eq_zero)
  have step: "unat ?step = max 1 ?i" using i0 by (cases "interval = 0") auto
  have grid: "?i \<noteq> 0 \<Longrightarrow> ?i dvd ?p \<and> ?i dvd ?t" using assms(1,2) i0 by (simp add: on_grid_def)
  have next_t: "?p + max 1 ?i \<le> ?t"
    using lt dvd_gap [of ?i ?p ?t] grid by (cases "?i = 0") (auto simp: max_def)
  have no_wrap: "unat (previous + ?step) = ?p + max 1 ?i"
    using unat_add_fits [of previous ?step] next_t T unfolding step by linarith
  have f: "unat f = (if can then ?p else ?p + max 1 ?i)" unfolding f_def using no_wrap by simp
  have guard: "\<not> (previous > u64_max - ?step)"
  proof -
    have "unat (u64_max - ?step) = 18446744073709551615 - max 1 ?i"
      using unat_sub [of ?step u64_max] step by simp
    with next_t T show ?thesis by (simp add: word_less_nat_alt)
  qed
  define b where "b = bounded_tick_history_to_time_ms f target max_backfill interval"
  have b: "unat b =
    (if max_backfill = 0 \<or> ?t \<le> min (unat f + (?m - 1)) 18446744073709551615 then ?t
     else if interval = 0 then min (unat f + (?m - 1)) 18446744073709551615
     else max (unat f) (min (unat f + (?m - 1)) 18446744073709551615 div ?i * ?i))"
    using grid i0 unfolding b_def unat_bounded Let_def by (cases "interval = 0") simp_all
  have key: "unat f \<le> unat b \<and> ?p < unat b \<and> unat b \<le> ?t \<and> (?i \<noteq> 0 \<longrightarrow> ?i dvd unat b) \<and>
    (?m \<noteq> 0 \<longrightarrow> unat b - unat f < ?m)"
  proof -
    have m0: "max_backfill = 0 \<longleftrightarrow> ?m = 0" by (simp add: unat_eq_zero)
    have can: "can \<longleftrightarrow> ?m = 0 \<or> max 1 ?i < ?m"
      using i0 unfolding can_def m0 by (auto simp: word_less_nat_alt)
    have ft: "unat f \<le> ?t" "?p \<le> unat f" using f next_t lt by (auto split: if_splits)
    have fg: "?i \<noteq> 0 \<Longrightarrow> ?i dvd unat f" using f grid by (auto simp: max_def split: if_splits)
    have far: "\<not> can \<Longrightarrow> ?p < unat f" using f by simp
    show ?thesis
    proof (cases "?m = 0 \<or> ?t \<le> min (unat f + (?m - 1)) 18446744073709551615")
      case True
      with b m0 have "unat b = ?t" by simp
      with True ft lt grid T show ?thesis by auto
    next
      case False
      then have bound: "min (unat f + (?m - 1)) 18446744073709551615 = unat f + (?m - 1)" "unat f + (?m - 1) < ?t" "0 < ?m"
        using T by auto
      show ?thesis
      proof (cases "?i = 0")
        case True
        with False b m0 i0 bound have "unat b = unat f + (?m - 1)" by simp
        with bound True ft far can show ?thesis by (cases can) auto
      next
        case i: False
        define q where "q = (unat f + (?m - 1)) div ?i * ?i"
        from i False b m0 i0 bound have u: "unat b = max (unat f) q" by (simp add: q_def)
        have le: "q \<le> unat f + (?m - 1)" by (simp add: q_def)
        have "?p < unat b"
        proof (cases can)
          case True
          with can bound have "unat f + ?i \<le> unat f + (?m - 1)" by (auto simp: max_def split: if_splits)
          then have "(unat f + ?i) div ?i * ?i \<le> q" unfolding q_def by (rule mult_le_mono1 [OF div_le_mono])
          moreover have "(unat f + ?i) div ?i * ?i = unat f + ?i" using fg [OF i] i by simp
          ultimately show ?thesis using u ft i by simp
        qed (use far u in simp)
        moreover have "?i dvd unat b" unfolding u using fg [OF i] by (simp add: max_def q_def)
        moreover have "unat b \<le> ?t" "unat b - unat f < ?m" "unat f \<le> unat b" unfolding u using ft le bound by linarith+
        ultimately show ?thesis by simp
      qed
    qed
  qed
  have "next_tick_history_range previous target max_backfill interval = Some (f, b)"
  proof -
    have "\<not> f > target" using key f next_t lt by (auto simp: word_less_nat_alt split: if_splits)
    moreover have "\<not> b < f" "b \<ge> f" using key by (simp_all add: word_less_nat_alt word_le_nat_alt)
    moreover have "\<not> target \<le> previous" using assms(3) by simp
    ultimately show ?thesis
      using guard unfolding next_tick_history_range_def can_def [symmetric] Let_def f_def [symmetric] b_def [symmetric]
      by simp
  qed
  moreover have "previous \<le> f" "unat f \<le> ?p + max 1 ?i" "previous < b" "b \<le> target" "on_grid interval b"
    using key f i0 by (auto simp: word_less_nat_alt word_le_nat_alt on_grid_def)
  ultimately show ?thesis using key by (intro exI [of _ f] exI [of _ b]) (auto simp: unat_eq_zero)
qed

text \<open>While the history known of a route ends before a target on the provider's grid, there is a next range to request; it starts no later than one grid step after that end, never before it, ends after it and on the grid, no later than the target, and is no longer than the configured maximum. Requesting such ranges one after the other therefore reaches the target.\<close>

theorem next_range_progress:
  assumes "on_grid interval previous" "on_grid interval target" "previous < target"
  shows "\<exists>from_time to_time. next_tick_history_range previous target max_backfill interval = Some (from_time, to_time) \<and>
    previous \<le> from_time \<and> unat from_time \<le> unat previous + max 1 (unat interval) \<and> previous < to_time \<and>
    to_time \<le> target \<and> on_grid interval to_time \<and>
    \<not> (max_backfill \<noteq> 0 \<and> unat max_backfill \<le> unat to_time - unat from_time)"
  using assms by (rule next_range_step)

subsection \<open>Retries\<close>

lemma backoff_loop_exact:
  assumes "d \<noteq> 0" and "cap = 0 \<or> d \<le> cap"
  shows "unat (if cap > 0 then min (backoff_loop n cap d) cap else backoff_loop n cap d) =
    min (unat d * 2 ^ n) (if cap = 0 then 18446744073709551615 else unat cap)"
  using assms
proof (induction n arbitrary: d)
  case 0
  then show ?case using unat_u64_less [of d] by (auto simp: word_le_nat_alt word_gt_0 min_def)
next
  case (Suc n)
  have big: "2 * unat d \<le> unat d * 2 ^ Suc n" by simp
  have cap: "unat cap \<le> 18446744073709551615" using unat_u64_less [of cap] by simp
  show ?case
  proof (cases "d > u64_max div 2")
    case True
    then have "9223372036854775807 < unat d" by (simp add: word_less_nat_alt unat_div)
    with big have "18446744073709551615 < unat d * 2 ^ Suc n" by linarith
    with True cap show ?thesis by (auto simp: word_gt_0 word_le_nat_alt min_def)
  next
    case False
    then have "unat d \<le> 9223372036854775807" by (simp add: word_less_nat_alt unat_div)
    then have d2: "unat (d * 2) = 2 * unat d" using unat_mult_fits [of d 2] by simp
    show ?thesis
    proof (cases "cap > 0 \<and> d * 2 \<ge> cap")
      case True
      with d2 have "unat cap \<le> 2 * unat d" by (simp add: word_le_nat_alt)
      with big have "unat cap \<le> unat d * 2 ^ Suc n" by linarith
      with True False show ?thesis by (auto simp: word_gt_0)
    next
      case small: False
      have "unat (d * 2) \<noteq> 0" using d2 Suc.prems(1) by (simp add: unat_eq_zero)
      then have "d * 2 \<noteq> 0" by auto
      moreover have "cap = 0 \<or> d * 2 \<le> cap" using small by (auto simp: word_gt_0)
      ultimately have "unat (if cap > 0 then min (backoff_loop n cap (d * 2)) cap else backoff_loop n cap (d * 2)) =
        min (unat (d * 2) * 2 ^ n) (if cap = 0 then 18446744073709551615 else unat cap)"
        by (rule Suc.IH)
      with False small d2 show ?thesis by (cases "cap = 0") (simp_all add: mult.assoc mult.left_commute word_gt_0)
    qed
  qed
qed

text \<open>The delay before a retry doubles with every attempt from the configured start, up to the configured cap and the largest delay of the clock, and the doubling never overflows.\<close>

theorem retry_delay_exact:
  assumes "retry_policy_valid policy"
  shows "unat (continuity_retry_delay max_delay_ms policy attempt) =
    (if attempt = 0 then 0
     else min (unat max_delay_ms) (min (unat (crp_initial_backoff_ms policy) * 2 ^ (attempt - 1))
       (if crp_max_backoff_ms policy = 0 then 18446744073709551615 else unat (crp_max_backoff_ms policy))))"
proof (cases "attempt = 0 \<or> crp_initial_backoff_ms policy = 0")
  case True
  then show ?thesis by (auto simp: continuity_retry_delay_def)
next
  case False
  have um: "unat (min x y) = min (unat x) (unat y)" for x y :: u64 by (simp add: min_def word_le_nat_alt)
  have "crp_max_backoff_ms policy = 0 \<or> crp_initial_backoff_ms policy \<le> crp_max_backoff_ms policy"
    using assms by (auto simp: retry_policy_valid_def)
  with False backoff_loop_exact [of "crp_initial_backoff_ms policy" "crp_max_backoff_ms policy" "attempt - 1"]
  show ?thesis unfolding continuity_retry_delay_def Let_def by (simp add: um min.commute)
qed

subsection \<open>Answers that are delivered\<close>

definition bar_answer_usable :: "bar_history_request \<Rightarrow> bool \<Rightarrow> bar_sequence history_result \<Rightarrow> bool" where
  "bar_answer_usable request require_complete_range result \<longleftrightarrow>
     (let s = hr_sequence result; times = map bar_time_ms (bs_bars s)
      in hr_success result \<and> (require_complete_range \<longrightarrow> hr_range_complete result)
       \<and> (bs_timeframe s \<le> 0 \<or> bs_timeframe s = bhr_timeframe request)
       \<and> (bs_symbol s = [] \<or> symbol_core (bs_symbol s) = symbol_core (bhr_symbol request))
       \<and> sorted_wrt (<) times
       \<and> list_all (\<lambda>x. 0 < unat x \<and> min (unat (u64_of_i64 (max 0 (bhr_from_ts request))) * 1000) 18446744073709551615 \<le> unat x
           \<and> unat x \<le> unat (u64_of_i64 (max 0 (bhr_to_ts request))) * 1000) times)"

lemma bars_fit_iff:
  "bars_fit_request s request \<longleftrightarrow>
     (bs_timeframe s \<le> 0 \<or> bs_timeframe s = bhr_timeframe request)
     \<and> (bs_symbol s = [] \<or> symbol_core (bs_symbol s) = symbol_core (bhr_symbol request))
     \<and> sorted_wrt (<) (map bar_time_ms (bs_bars s))
     \<and> list_all (\<lambda>x. 0 < unat x \<and> min (unat (u64_of_i64 (max 0 (bhr_from_ts request))) * 1000) 18446744073709551615 \<le> unat x
           \<and> unat x \<le> unat (u64_of_i64 (max 0 (bhr_to_ts request))) * 1000) (map bar_time_ms (bs_bars s))"
proof -
  have "unat x \<le> min n 18446744073709551615 \<longleftrightarrow> unat x \<le> n" for x :: u64 and n
    using unat_u64_less [of x] by auto
  then show ?thesis
    unfolding bars_fit_request_def Let_def bars_ordered_iff symbols_match_iff
    by (auto simp: list_all_iff word_le_nat_alt unat_safe_multiply unat_gt_0 unat_eq_zero)
qed

lemma bit_set_price_type: "n < 24 \<Longrightarrow> bit (set_market_price_type w t) n \<longleftrightarrow> bit w n"
proof -
  assume n: "n < 24"
  have m: "market_price_type_mask = push_bit 24 (mask 4)" by (simp add: market_price_type_mask_def mask_eq_exp_minus_1)
  have "bit ((w AND NOT (push_bit 24 (mask 4))) OR (push_bit 24 c AND push_bit 24 (mask 4))) n \<longleftrightarrow> bit w n" for c :: u32
    using n by (auto simp: bit_simps)
  then show ?thesis by (simp add: set_market_price_type_def m Let_def)
qed

text \<open>A provider's answer is delivered exactly when it is usable: successful, complete if that is required, of the requested timeframe and symbol up to case, slashes and spaces, its bars in strictly increasing time within the requested range. Then its bars go out unchanged but for their flags, which mark them consistently as history; otherwise the error callback gets a failed result.\<close>

theorem bar_answer_exact:
  "(case bar_history_batch request h backfill require_complete result of
      Inl e \<Rightarrow> \<not> bar_answer_usable request require_complete result \<and> \<not> hr_success e
    | Inr b \<Rightarrow> bar_answer_usable request require_complete result
        \<and> map (\<lambda>x. x\<lparr>bar_flags := 0\<rparr>) (mb_items b) = map (\<lambda>x. x\<lparr>bar_flags := 0\<rparr>) (bs_bars (hr_sequence result))
        \<and> list_all (\<lambda>x. market_data_flags_valid (bar_flags x) \<and> has_market_flag (bar_flags x) flag_historical
            \<and> has_market_flag (bar_flags x) flag_backfill = backfill) (mb_items b))"
proof (cases "bar_answer_usable request require_complete result")
  case True
  then have "bar_history_batch request h backfill require_complete result =
    Inr (make_bar_batch (hr_sequence result) request h backfill)"
    by (auto simp: bar_history_batch_def bar_answer_usable_def bars_fit_iff Let_def)
  with True show ?thesis
    by (simp add: make_bar_batch_def Let_def list_all_iff o_def flags_valid_bits flag_defs has_market_flag_bit
        bit_set_price_type bit_mark_historical)
next
  case False
  then have "\<exists>e. bar_history_batch request h backfill require_complete result = Inl e \<and> \<not> hr_success e"
    by (auto simp: bar_history_batch_def bar_answer_usable_def bars_fit_iff Let_def history_fail_def)
  with False show ?thesis by auto
qed

subsection \<open>Grids\<close>

lemma on_grid_0 [simp]: "on_grid i 0" "on_grid 0 x" "on_grid i i"
  by (simp_all add: on_grid_def)

lemma on_grid_align [simp]: "on_grid i (align_tick_history_end_time_ms x i)" "on_grid i (align_tick_history_start_time_ms x i)"
  by (auto simp: on_grid_def unat_align)

lemma on_grid_bounded: "on_grid i a \<Longrightarrow> on_grid i (bounded_tick_history_to_time_ms a t m i)"
  by (auto simp: on_grid_def unat_bounded Let_def max_def)

subsection \<open>Samples\<close>

text \<open>The bids are given by their bits.\<close>

definition sample_tick :: "u64 \<Rightarrow> f64 \<Rightarrow> tick" where
  "sample_tick time bid = tick_default\<lparr>tk_time_ms := time, tk_bid := bid\<rparr>"

definition sample_marks :: tick_marks where
  "sample_marks = \<lparr>bm_last_observed_time_ms = 0, bm_verified_through_time_ms = 0, bm_unverified_from_time_ms = 0,
     tm_last_delivered_tick_time_ms = 0, tm_last_delivered_tick_observations = []\<rparr>"

definition sample_delivered :: "tick list list" where
  "sample_delivered = [[sample_tick 1000 1, sample_tick 1500 2], [sample_tick 1500 3]]"

definition sample_history :: "tick list" where
  "sample_history = [sample_tick 1500 2, sample_tick 1500 4, sample_tick 1700 2]"

lemma overlap_removed_witness:
  "deduplicate_against_last_delivery TDM_TIME_AND_PRICES
     (foldl (\<lambda>c ts. record_tick_progress TDM_TIME_AND_PRICES ts c) sample_marks sample_delivered) sample_history =
   [sample_tick 1500 4, sample_tick 1700 2]"
proof -
  have seen: "seen_key TDM_TIME_AND_PRICES (concat sample_delivered) (sample_tick 1500 2)"
    "\<not> seen_key TDM_TIME_AND_PRICES (concat sample_delivered) (sample_tick 1500 4)"
    "\<not> seen_key TDM_TIME_AND_PRICES (concat sample_delivered) (sample_tick 1700 2)"
    by code_simp+
  have later: "list_all (\<lambda>t. 0 < tk_time_ms t \<and> latest_time (concat sample_delivered) \<le> tk_time_ms t) sample_history" by code_simp
  have none: "tm_last_delivered_tick_time_ms sample_marks = 0" "tm_last_delivered_tick_observations sample_marks = []"
    by (simp_all add: sample_marks_def)
  have "deduplicate_against_last_delivery TDM_TIME_AND_PRICES
      (foldl (\<lambda>c ts. record_tick_progress TDM_TIME_AND_PRICES ts c) sample_marks sample_delivered) sample_history =
    filter (\<lambda>t. \<not> seen_key TDM_TIME_AND_PRICES (concat sample_delivered) t) sample_history"
    by (rule overlap_removed [OF none refl, THEN conjunct2, THEN mp, OF later])
  also have "\<dots> = [sample_tick 1500 4, sample_tick 1700 2]"
    using seen by (simp add: sample_history_def)
  finally show ?thesis .
qed

text \<open>A provider with a grid of a second and a maximum of 1500 milliseconds.\<close>

lemma next_range_progress_witness:
  "\<exists>from_time to_time. next_tick_history_range 4000 9000 1500 1000 = Some (from_time, to_time) \<and> 4000 < to_time \<and> to_time \<le> 9000"
  using next_range_progress [of 1000 4000 9000 1500] by (auto simp: on_grid_def)

lemma sample_range: "next_tick_history_range 4000 9000 1500 1000 = Some (4000, 5000)"
  "next_tick_history_range 4000 9000 1000 1000 = Some (5000, 5000)"
  "next_tick_history_range 4000 9000 0 1000 = Some (4000, 9000)"
  by code_simp+

lemma retry_delay_exact_witness:
  "unat (continuity_retry_delay (- 1) \<lparr>crp_max_attempts = 5, crp_initial_backoff_ms = 500, crp_max_backoff_ms = 3000\<rparr> 3) = 2000"
  using retry_delay_exact [of "\<lparr>crp_max_attempts = 5, crp_initial_backoff_ms = 500, crp_max_backoff_ms = 3000\<rparr>" "- 1" 3]
  by (simp add: retry_policy_valid_def)

end
