(* ===== verification/MarketRoute.thy ===== *)
theory MarketRoute
  imports MarketHistory
begin

section \<open>What tick and bar routes of the router share\<close>

text \<open>
  The common part of the routes of \<open>market_data/detail/MarketDataRouter.ipp\<close>: the stream of a route and the payloads
  and statuses that belong to it, history requests that wait for an answer or a retry, the updates that tell a
  subscriber how its history stands, and the monitoring fields of a route. Sizes of containers and counters of
  requests are natural numbers, since they stay far below the range of \<open>std::size_t\<close>; the steady clock counts
  nanoseconds in a signed 64-bit integer, and 0 is its default time point.
\<close>

subsection \<open>Streams\<close>

record stream_descriptor =
  sd_type :: md_type
  sd_symbol :: string
  sd_timeframe :: int
  sd_price_source :: bar_price_source
  sd_transport :: md_transport

definition stream_from_tick_request :: "tick_subscription_request \<Rightarrow> stream_descriptor" where
  "stream_from_tick_request request = \<lparr>sd_type = MDT_TICKS, sd_symbol = tsr_symbol request, sd_timeframe = 0,
     sd_price_source = BPS_MID, sd_transport = tsr_transport request\<rparr>"

definition stream_from_bar_request :: "bar_subscription_request \<Rightarrow> stream_descriptor" where
  "stream_from_bar_request request = \<lparr>sd_type = MDT_BARS, sd_symbol = bsr_symbol request,
     sd_timeframe = bsr_timeframe request, sd_price_source = bsr_price_source request, sd_transport = bsr_transport request\<rparr>"

definition stream_from_handle :: "subscription_handle \<Rightarrow> stream_descriptor" where
  "stream_from_handle subscription = \<lparr>sd_type = sh_stream_type subscription, sd_symbol = sh_symbol subscription,
     sd_timeframe = sh_timeframe subscription, sd_price_source = sh_price_source subscription,
     sd_transport = sh_transport subscription\<rparr>"

definition transport_matches :: "md_transport \<Rightarrow> md_transport \<Rightarrow> bool" where
  "transport_matches expected actual \<longleftrightarrow> expected = actual \<or> expected = MTR_AUTO \<or> expected = MTR_HYBRID
     \<or> actual = MTR_AUTO \<or> actual = MTR_HYBRID"

definition status_matches_stream :: "status_update \<Rightarrow> stream_descriptor \<Rightarrow> bool" where
  "status_matches_stream update stream \<longleftrightarrow> su_type update = sd_type stream \<and> su_symbol update = sd_symbol stream
     \<and> su_timeframe update = sd_timeframe stream \<and> transport_matches (sd_transport stream) (su_transport update)"

definition tick_batch_matches_stream :: "tick md_batch \<Rightarrow> stream_descriptor \<Rightarrow> bool" where
  "tick_batch_matches_stream batch stream \<longleftrightarrow>
     sd_type stream = MDT_TICKS \<and> mb_type batch = MDT_TICKS \<and> mb_symbol batch = sd_symbol stream"

definition bar_batch_matches_stream :: "bar md_batch \<Rightarrow> stream_descriptor \<Rightarrow> bool" where
  "bar_batch_matches_stream batch stream \<longleftrightarrow> sd_type stream = MDT_BARS \<and> mb_type batch = MDT_BARS
     \<and> mb_symbol batch = sd_symbol stream \<and> mb_timeframe batch = sd_timeframe stream"

definition history_batch_matches_stream :: "bar md_batch \<Rightarrow> stream_descriptor \<Rightarrow> bool" where
  "history_batch_matches_stream batch stream \<longleftrightarrow> sd_type stream = MDT_BARS \<and> mb_type batch = MDT_BARS
     \<and> symbols_match (mb_symbol batch) (sd_symbol stream) \<and> mb_timeframe batch = sd_timeframe stream"

subsection \<open>Entries and requests\<close>

datatype entry_phase = EP_PENDING | EP_ACTIVE | EP_UNSUBSCRIBING | EP_CLEANUP_FAILED

datatype request_kind = CRK_PREFILL | CRK_GAP_BACKFILL | CRK_RECONNECT_BACKFILL

record 'r pending_request =
  pr_subscription :: subscription_handle
  pr_request :: 'r
  pr_kind :: request_kind
  pr_announce_gap :: bool
  pr_from_time_ms :: u64
  pr_to_time_ms :: u64
  pr_requested_items :: nat
  pr_attempt :: nat

definition buffers_live_data :: "continuity_phase \<Rightarrow> bool" where
  "buffers_live_data phase \<longleftrightarrow>
     phase = CP_PREFILLING \<or> phase = CP_WAITING_FOR_READY \<or> phase = CP_RECOVERING \<or> phase = CP_FLUSHING"

definition invalidates_continuity :: "md_stream_status \<Rightarrow> bool" where
  "invalidates_continuity status \<longleftrightarrow>
     status = STS_DISCONNECTED \<or> status = STS_RECONNECTING \<or> status = STS_FAILED \<or> status = STS_STOPPED"

subsection \<open>Updates and monitoring\<close>

record continuity_update =
  cu_subscription :: subscription_handle
  cu_type :: md_type
  cu_symbol :: string
  cu_timeframe :: int
  cu_status :: continuity_status
  cu_from_time_ms :: u64
  cu_to_time_ms :: u64
  cu_requested_items :: nat
  cu_delivered_items :: nat
  cu_message :: string

definition make_continuity_update ::
  "subscription_handle \<Rightarrow> continuity_status \<Rightarrow> u64 \<Rightarrow> u64 \<Rightarrow> nat \<Rightarrow> nat \<Rightarrow> string \<Rightarrow> continuity_update" where
  "make_continuity_update subscription status from_time_ms to_time_ms requested_items delivered_items message =
     \<lparr>cu_subscription = subscription, cu_type = sh_stream_type subscription, cu_symbol = sh_symbol subscription,
      cu_timeframe = sh_timeframe subscription, cu_status = status, cu_from_time_ms = from_time_ms,
      cu_to_time_ms = to_time_ms, cu_requested_items = requested_items, cu_delivered_items = delivered_items,
      cu_message = message\<rparr>"

text \<open>The fields of \<open>ContinuityState\<close> and \<open>TickContinuityState\<close> that only the monitoring snapshot reads.\<close>

record continuity_monitor =
  cm_last_status :: continuity_status
  cm_last_operation :: continuity_operation
  cm_requested_from_time_ms :: u64
  cm_requested_to_time_ms :: u64
  cm_requested_items :: nat
  cm_confirmed_from_time_ms :: u64
  cm_confirmed_through_time_ms :: u64
  cm_confirmed_items :: nat
  cm_history_request_count :: nat
  cm_retry_count :: nat
  cm_failure_count :: nat
  cm_last_failure :: string
  cm_stale_duration :: int
  cm_degraded_duration :: int
  cm_stale_since :: int
  cm_degraded_since :: int

definition continuity_monitor_default :: continuity_monitor where
  "continuity_monitor_default = \<lparr>cm_last_status = CS_UNKNOWN, cm_last_operation = COP_NONE,
     cm_requested_from_time_ms = 0, cm_requested_to_time_ms = 0, cm_requested_items = 0, cm_confirmed_from_time_ms = 0,
     cm_confirmed_through_time_ms = 0, cm_confirmed_items = 0, cm_history_request_count = 0, cm_retry_count = 0,
     cm_failure_count = 0, cm_last_failure = [], cm_stale_duration = 0, cm_degraded_duration = 0, cm_stale_since = 0,
     cm_degraded_since = 0\<rparr>"

definition record_continuity_update :: "int \<Rightarrow> continuity_update \<Rightarrow> continuity_monitor \<Rightarrow> continuity_monitor" where
  "record_continuity_update now update m =
     (let m = (if cm_stale_since m \<noteq> 0 \<and> cu_status update \<noteq> CS_STALE
            then m\<lparr>cm_stale_duration := cm_stale_duration m + (now - cm_stale_since m), cm_stale_since := 0\<rparr> else m);
          m = (if cm_degraded_since m \<noteq> 0 \<and> cu_status update \<noteq> CS_DEGRADED
            then m\<lparr>cm_degraded_duration := cm_degraded_duration m + (now - cm_degraded_since m), cm_degraded_since := 0\<rparr> else m);
          m = (if cu_status update = CS_STALE \<and> cm_stale_since m = 0 then m\<lparr>cm_stale_since := now\<rparr> else m);
          m = (if cu_status update = CS_DEGRADED \<and> cm_degraded_since m = 0 then m\<lparr>cm_degraded_since := now\<rparr> else m);
          m = m\<lparr>cm_last_status := cu_status update\<rparr>
      in if cu_status update = CS_FAILED \<and> cu_message update \<noteq> [] then m\<lparr>cm_last_failure := cu_message update\<rparr> else m)"

primrec operation_of :: "request_kind \<Rightarrow> continuity_operation" where
  "operation_of CRK_PREFILL = COP_PREFILL"
| "operation_of CRK_GAP_BACKFILL = COP_GAP_BACKFILL"
| "operation_of CRK_RECONNECT_BACKFILL = COP_RECONNECT_BACKFILL"

text \<open>What a request leaves in the monitor when it goes out.\<close>

definition monitor_request :: "'r pending_request \<Rightarrow> continuity_monitor \<Rightarrow> continuity_monitor" where
  "monitor_request p m = m\<lparr>cm_last_operation := operation_of (pr_kind p), cm_requested_from_time_ms := pr_from_time_ms p,
     cm_requested_to_time_ms := pr_to_time_ms p, cm_requested_items := pr_requested_items p,
     cm_history_request_count := cm_history_request_count m + 1,
     cm_retry_count := (if pr_attempt p > 1 then cm_retry_count m + 1 else cm_retry_count m)\<rparr>"

subsection \<open>Clocks\<close>

text \<open>The clocks that a turn reads: the steady clock, the estimate of the provider's time and the local time.\<close>

record route_clock =
  rk_now :: int
  rk_provider_time_ms :: u64
  rk_local_time_ms :: u64

definition provider_time_ms :: "route_clock \<Rightarrow> u64" where
  "provider_time_ms clk =
     (if rk_provider_time_ms clk > 0 then rk_provider_time_ms clk
      else if rk_local_time_ms clk > 0 then rk_local_time_ms clk else 1)"

lemma provider_time_pos [simp]: "provider_time_ms clk \<noteq> 0"
  by (simp add: provider_time_ms_def word_gt_0)

definition steady_max :: int where
  "steady_max = 9223372036854775807"

definition max_delay_ms :: u64 where
  "max_delay_ms = 9223372036854"

definition retry_time :: "int \<Rightarrow> continuity_retry_policy \<Rightarrow> nat \<Rightarrow> int" where
  "retry_time now policy attempt =
     (let delay = uint (continuity_retry_delay max_delay_ms policy attempt) * 1000000
      in if delay \<ge> steady_max - now then steady_max else now + delay)"

text \<open>\<open>duration_to_milliseconds\<close>: a negative duration reads as zero, and no duration of the clock exceeds 64 bits.\<close>

definition duration_to_milliseconds :: "int \<Rightarrow> u64" where
  "duration_to_milliseconds duration =
     (if duration \<le> 0 then 0 else let val = duration div 1000000 in if val \<le> 0 then 0 else word_of_int val)"

subsection \<open>Results of routing a batch\<close>

record ('b, 'r) route_effects =
  re_deliveries :: "'b list"
  re_updates :: "continuity_update list"
  re_requests :: "'r pending_request list"

definition no_effects :: "('b, 'r) route_effects" where
  "no_effects = \<lparr>re_deliveries = [], re_updates = [], re_requests = []\<rparr>"

lemma no_effects_simps [simp]:
  "re_deliveries no_effects = []" "re_updates no_effects = []" "re_requests no_effects = []"
  by (simp_all add: no_effects_def)

subsection \<open>Lemmas\<close>

lemma record_update_frame [simp]:
  "cm_confirmed_from_time_ms (record_continuity_update now u m) = cm_confirmed_from_time_ms m"
  "cm_confirmed_through_time_ms (record_continuity_update now u m) = cm_confirmed_through_time_ms m"
  "cm_history_request_count (record_continuity_update now u m) = cm_history_request_count m"
  by (simp_all add: record_continuity_update_def Let_def)

text \<open>The route is stale, or degraded, exactly while its last update says so.\<close>

lemma stale_iff_last_update:
  "now \<noteq> 0 \<Longrightarrow> cm_stale_since (record_continuity_update now u m) \<noteq> 0 \<longleftrightarrow> cu_status u = CS_STALE"
  "now \<noteq> 0 \<Longrightarrow> cm_degraded_since (record_continuity_update now u m) \<noteq> 0 \<longleftrightarrow> cu_status u = CS_DEGRADED"
  by (auto simp: record_continuity_update_def Let_def)

end
