(* ===== verification/TickRoute.thy ===== *)
theory TickRoute
  imports MarketRoute
begin

section \<open>Tick routes\<close>

text \<open>
  A tick route of \<open>market_data/detail/MarketDataRouter.ipp\<close>: its part of \<open>Entry\<close> with \<open>TickContinuityState\<close>, and
  every operation that changes it, from the activation of the subscription to live batches, transport statuses,
  answers of the provider to history requests, retries and the end of the subscription. \<open>tr_operations\<close> are the
  history requests sent to the provider and not answered yet; an answer is an event of its own, so a provider that
  answers before \<open>fetch_tick_history\<close> returns is the case in which the answer is the next event. \<open>tr_calls\<close> are the
  calls that the subscriber receives, oldest first; a subscriber that calls back into the router while it is called
  is not modelled, and hence the checks that the code repeats after each callback are left out, other than at the
  start of each turn of the flush loop.
\<close>

type_synonym tick_pending = "tick_history_request pending_request"
type_synonym tick_effects = "(tick md_batch, tick_history_request) route_effects"

record tick_continuity_state = tick_marks +
  tc_phase :: continuity_phase
  tc_initial_prefill_pending :: bool
  tc_request_in_flight :: bool
  tc_buffer :: "tick md_batch list"
  tc_buffered_items :: nat
  tc_initial_prefill_boundary_time_ms :: u64
  tc_generation :: u64
  tc_reconnect_target_time_ms :: u64
  tc_retry_request :: "tick_pending option"
  tc_retry_at :: int
  tc_monitor :: continuity_monitor

datatype tick_route_call =
    Live_ticks "tick md_batch"
  | History_ticks "tick md_batch"
  | Tick_continuity continuity_update
  | Tick_status status_update

record tick_route =
  tr_phase :: entry_phase
  tr_stream :: stream_descriptor
  tr_subscription :: subscription_handle
  tr_subscriber_alive :: bool
  tr_release_requested :: bool
  tr_options :: tick_continuity_options
  tr_mode :: tick_deduplication_mode
  tr_history_interval_ms :: u64
  tr_state :: tick_continuity_state
  tr_operations :: "(tick_pending \<times> u64) list"
  tr_calls :: "tick_route_call list"

subsection \<open>Telling the subscriber\<close>

definition record_tick_continuity_update :: "int \<Rightarrow> continuity_update \<Rightarrow> tick_route \<Rightarrow> tick_route" where
  "record_tick_continuity_update now update r =
     r\<lparr>tr_state := (tr_state r)\<lparr>tc_monitor := record_continuity_update now update (tc_monitor (tr_state r))\<rparr>\<rparr>"

definition notify_tick_continuity :: "int \<Rightarrow> continuity_update \<Rightarrow> tick_route \<Rightarrow> tick_route" where
  "notify_tick_continuity now update r =
     (if tr_phase r \<noteq> EP_ACTIVE then r
      else let r = record_tick_continuity_update now update r
           in if tr_subscriber_alive r then r\<lparr>tr_calls := tr_calls r @ [Tick_continuity update]\<rparr> else r)"

text \<open>The callbacks that a turn makes after it released the lock.\<close>

definition deliver_effects :: "tick_effects \<Rightarrow> tick_route \<Rightarrow> tick_route" where
  "deliver_effects e r =
     r\<lparr>tr_calls := tr_calls r @ map Tick_continuity (re_updates e) @ map Live_ticks (re_deliveries e)\<rparr>"

definition tick_progress :: "tick list \<Rightarrow> tick_route \<Rightarrow> tick_route" where
  "tick_progress ticks r = r\<lparr>tr_state := record_tick_progress (tr_mode r) ticks (tr_state r)\<rparr>"

subsection \<open>Buffering\<close>

definition buffer_tick_continuity_batch :: "int \<Rightarrow> tick md_batch \<Rightarrow> bool \<Rightarrow> tick_route \<Rightarrow> bool \<times> tick_route \<times> tick_effects" where
  "buffer_tick_continuity_batch now batch push_front r =
     (let batch = batch\<lparr>mb_items := map (\<lambda>t. t\<lparr>tk_flags := mark_live_payload (tk_flags t) True\<rparr>) (mb_items batch)\<rparr>;
          batch_items = length (mb_items batch);
          options = tr_options r;
          c = tr_state r;
          exceeds_batch_limit = (tco_max_buffered_batches options > 0
            \<and> length (tc_buffer c) \<ge> unat (tco_max_buffered_batches options));
          exceeds_item_limit = (tco_max_buffered_items options > 0
            \<and> (batch_items > unat (tco_max_buffered_items options)
               \<or> tc_buffered_items c > unat (tco_max_buffered_items options) - batch_items))
      in if \<not> exceeds_batch_limit \<and> \<not> exceeds_item_limit then
           (True,
            r\<lparr>tr_state := c\<lparr>tc_buffer := (if push_front then batch # tc_buffer c else tc_buffer c @ [batch]),
                tc_buffered_items := tc_buffered_items c + batch_items\<rparr>\<rparr>,
            no_effects)
         else
           let released = tc_buffer c @ [batch];
               c = fold (\<lambda>b. record_tick_progress (tr_mode r) (mb_items b)) released c;
               r = r\<lparr>tr_state := c\<lparr>tc_buffer := [], tc_buffered_items := 0, tc_phase := CP_DEGRADED,
                     tc_initial_prefill_pending := False, tc_request_in_flight := False,
                     tc_reconnect_target_time_ms := 0, tc_retry_request := None, tc_retry_at := 0\<rparr>,
                   tr_options := options\<lparr>tco_mode := CM_LIVE_ONLY\<rparr>\<rparr>;
               failed_update = make_continuity_update (tr_subscription r) CS_FAILED 0 0 0 0
                 ''Tick continuity buffer limit exceeded; live delivery continues.'';
               degraded_update = make_continuity_update (tr_subscription r) CS_DEGRADED 0 0 0 0
                 ''Live tick delivery resumed without verified continuity after buffer overflow.'';
               r = record_tick_continuity_update now degraded_update (record_tick_continuity_update now failed_update r)
           in (False, r, \<lparr>re_deliveries = released, re_updates = [failed_update, degraded_update], re_requests = []\<rparr>))"

subsection \<open>Live batches\<close>

text \<open>The first tick farther than the expected interval from the latest tick before it: its index, the latest time
  before it, and the tick.\<close>

fun find_tick_gap :: "u64 \<Rightarrow> u64 \<Rightarrow> nat \<Rightarrow> tick list \<Rightarrow> (nat \<times> u64 \<times> tick) option" where
  "find_tick_gap interval previous_time_ms i [] = None"
| "find_tick_gap interval previous_time_ms i (t # ts) =
     (if tk_time_ms t = 0 then find_tick_gap interval previous_time_ms (Suc i) ts
      else
        let expected_time_ms = (if previous_time_ms \<le> u64_max - interval then previous_time_ms + interval else u64_max)
        in if tk_time_ms t > expected_time_ms then Some (i, previous_time_ms, t)
           else find_tick_gap interval
             (if tk_time_ms t > previous_time_ms then tk_time_ms t else previous_time_ms) (Suc i) ts)"

definition recover_tick_gap ::
  "int \<Rightarrow> tick md_batch \<Rightarrow> bool \<Rightarrow> nat \<Rightarrow> u64 \<Rightarrow> tick \<Rightarrow> tick_route \<Rightarrow> tick_route \<times> tick_effects" where
  "recover_tick_gap now routed process_buffered i previous_time_ms t r =
     (let interval = tr_history_interval_ms r;
          gap_to_time_ms = tk_time_ms t;
          request_from_time_ms = align_tick_history_start_time_ms previous_time_ms interval;
          to_ms = bounded_tick_history_to_time_ms request_from_time_ms gap_to_time_ms (tco_max_backfill_ms (tr_options r)) interval;
          request_to_time_ms = (if to_ms < request_from_time_ms \<and> interval > 0 then request_from_time_ms else to_ms)
      in if request_to_time_ms < request_from_time_ms then (r, no_effects)
         else
           let prefix = routed\<lparr>mb_items := take i (mb_items routed)\<rparr>;
               prefixes = (if i > 0 then [prefix] else []);
               r = (if i > 0 then tick_progress (mb_items prefix) r else r);
               (buffered, r, e) = buffer_tick_continuity_batch now (routed\<lparr>mb_items := drop i (mb_items routed)\<rparr>) process_buffered r
           in if \<not> buffered then (r, e\<lparr>re_deliveries := prefixes @ re_deliveries e\<rparr>)
              else
                (r\<lparr>tr_state := (mark_unverified request_from_time_ms (tr_state r))
                     \<lparr>tc_phase := CP_RECOVERING, tc_request_in_flight := True, tc_reconnect_target_time_ms := gap_to_time_ms\<rparr>\<rparr>,
                 \<lparr>re_deliveries = prefixes, re_updates = [],
                  re_requests = [\<lparr>pr_subscription = tr_subscription r,
                    pr_request = \<lparr>thr_symbol = sd_symbol (tr_stream r), thr_from_time_ms = request_from_time_ms,
                      thr_to_time_ms = request_to_time_ms, thr_source = THS_LOCAL_OBSERVED\<rparr>,
                    pr_kind = CRK_GAP_BACKFILL, pr_announce_gap = True, pr_from_time_ms = request_from_time_ms,
                    pr_to_time_ms = request_to_time_ms, pr_requested_items = 0, pr_attempt = 1\<rparr>]\<rparr>))"

definition route_tick_to_entry :: "int \<Rightarrow> tick md_batch \<Rightarrow> bool \<Rightarrow> bool \<Rightarrow> tick_route \<Rightarrow> tick_route \<times> tick_effects" where
  "route_tick_to_entry now batch process_buffered allow_gap_recovery r =
     (if tr_phase r \<noteq> EP_ACTIVE \<or> \<not> tick_batch_matches_stream batch (tr_stream r) then (r, no_effects)
      else if \<not> tr_subscriber_alive r then (r, no_effects)
      else if mb_items batch = [] then (r, no_effects)
      else
        let routed = batch\<lparr>mb_subscription := tr_subscription r,
              mb_items := map (\<lambda>t. t\<lparr>tk_flags := mark_live_payload (tk_flags t) process_buffered\<rparr>) (mb_items batch)\<rparr>;
            c = tr_state r;
            options = tr_options r
        in if continuity_enabled (tco_mode options) \<and> \<not> process_buffered \<and> buffers_live_data (tc_phase c)
           then (let (_, r, e) = buffer_tick_continuity_batch now routed False r in (r, e))
           else
             case (if allow_gap_recovery \<and> recovers_gaps (tco_mode options) \<and> \<not> tc_request_in_flight c
                      \<and> tco_expected_interval_ms options > 0 \<and> bm_last_observed_time_ms c > 0
                   then find_tick_gap (tco_expected_interval_ms options) (bm_last_observed_time_ms c) 0 (mb_items routed)
                   else None) of
               Some (i, previous_time_ms, t) \<Rightarrow> recover_tick_gap now routed process_buffered i previous_time_ms t r
             | None \<Rightarrow>
                 (tick_progress (mb_items routed) r, \<lparr>re_deliveries = [routed], re_updates = [], re_requests = []\<rparr>))"

subsection \<open>History requests\<close>

definition request_tick_continuity_history :: "int \<Rightarrow> tick_pending \<Rightarrow> tick_route \<Rightarrow> tick_route" where
  "request_tick_continuity_history now p r =
     (if tr_phase r \<noteq> EP_ACTIVE \<or> sd_type (tr_stream r) \<noteq> MDT_TICKS \<or> \<not> tc_request_in_flight (tr_state r) then r
      else
        let notice = (\<lambda>status message. notify_tick_continuity now (make_continuity_update (pr_subscription p) status
              (pr_from_time_ms p) (pr_to_time_ms p) (pr_requested_items p) 0 message));
            r = r\<lparr>tr_state := (tr_state r)\<lparr>tc_monitor := monitor_request p (tc_monitor (tr_state r))\<rparr>,
                  tr_operations := tr_operations r @ [(p, tc_generation (tr_state r))]\<rparr>
        in case pr_kind p of
             CRK_GAP_BACKFILL \<Rightarrow>
               notice CS_BACKFILLING ''Requesting historical ticks for the detected gap.''
                 (if pr_announce_gap p then notice CS_GAP_DETECTED ''A gap was detected in the live tick stream.'' r else r)
           | CRK_RECONNECT_BACKFILL \<Rightarrow> notice CS_BACKFILLING ''Revalidating observed ticks after reconnect.'' r
           | CRK_PREFILL \<Rightarrow> r)"

definition route_ticks :: "int \<Rightarrow> tick md_batch \<Rightarrow> tick_route \<Rightarrow> tick_route" where
  "route_ticks now batch r =
     (let (r, e) = route_tick_to_entry now batch False True r
      in fold (request_tick_continuity_history now) (re_requests e) (deliver_effects e r))"

definition start_tick_continuity :: "route_clock \<Rightarrow> tick_route \<Rightarrow> tick_route" where
  "start_tick_continuity clk r =
     (let c = tr_state r; options = tr_options r in
      if tr_phase r \<noteq> EP_ACTIVE \<or> sd_type (tr_stream r) \<noteq> MDT_TICKS \<or> \<not> tc_initial_prefill_pending c
         \<or> tc_phase c \<noteq> CP_PREFILLING \<or> tco_prefill_lookback_ms options = 0 \<or> tc_request_in_flight c then r
      else
        let lookback = tco_prefill_lookback_ms options;
            interval = tr_history_interval_ms r;
            current_time_ms = align_tick_history_start_time_ms (provider_time_ms clk) interval;
            original_boundary_time_ms = (if tc_initial_prefill_boundary_time_ms c = 0 then current_time_ms
              else tc_initial_prefill_boundary_time_ms c);
            current_boundary_time_ms = max original_boundary_time_ms current_time_ms;
            c = c\<lparr>tc_initial_prefill_boundary_time_ms := original_boundary_time_ms,
                  tc_reconnect_target_time_ms := current_boundary_time_ms\<rparr>;
            r = r\<lparr>tr_state := c\<rparr>;
            requested_from_time_ms = (if original_boundary_time_ms > lookback then original_boundary_time_ms - lookback else 1);
            from_ms = align_tick_history_start_time_ms requested_from_time_ms interval;
            from_time_ms = (if from_ms = 0 \<and> interval > 0 \<and> current_boundary_time_ms \<ge> interval then interval else from_ms);
            to_ms = bounded_tick_history_to_time_ms from_time_ms current_boundary_time_ms (tco_max_backfill_ms options) interval;
            to_time_ms = (if to_ms < from_time_ms \<and> interval > 0 then from_time_ms else to_ms)
        in if to_time_ms < from_time_ms then r
           else
             let p = \<lparr>pr_subscription = tr_subscription r,
                   pr_request = \<lparr>thr_symbol = sd_symbol (tr_stream r), thr_from_time_ms = from_time_ms,
                     thr_to_time_ms = to_time_ms, thr_source = THS_LOCAL_OBSERVED\<rparr>,
                   pr_kind = CRK_PREFILL, pr_announce_gap = False, pr_from_time_ms = from_time_ms,
                   pr_to_time_ms = to_time_ms, pr_requested_items = 0, pr_attempt = 1\<rparr>;
                 r = r\<lparr>tr_state := c\<lparr>tc_phase := CP_PREFILLING, tc_request_in_flight := True\<rparr>\<rparr>;
                 r = notify_tick_continuity (rk_now clk) (make_continuity_update (pr_subscription p) CS_PREFILLING
                   from_time_ms to_time_ms 0 0 ''Requesting observed tick history prefill.'') r
             in request_tick_continuity_history (rk_now clk) p r)"

subsection \<open>Recovery after a reconnect\<close>

definition earliest_time :: "tick list \<Rightarrow> u64" where
  "earliest_time ts = fold (\<lambda>t e. if tk_time_ms t = 0 then e else if e = 0 \<or> tk_time_ms t < e then tk_time_ms t else e) ts 0"

definition buffered_ticks :: "tick_continuity_state \<Rightarrow> tick list" where
  "buffered_ticks c = concat (map mb_items (tc_buffer c))"

definition start_tick_reconnect_recovery :: "route_clock \<Rightarrow> tick_route \<Rightarrow> tick_route" where
  "start_tick_reconnect_recovery clk r =
     (let c = tr_state r; options = tr_options r in
      if tr_phase r \<noteq> EP_ACTIVE \<or> sd_type (tr_stream r) \<noteq> MDT_TICKS then r
      else if tc_phase c \<noteq> CP_RECOVERING \<or> \<not> recovers_gaps (tco_mode options) \<or> tc_initial_prefill_pending c
         \<or> tc_request_in_flight c then r
      else
        let earliest_buffered_time_ms = earliest_time (buffered_ticks c);
            latest_buffered_time_ms = latest_time (buffered_ticks c);
            observed_time_ms = max (bm_last_observed_time_ms c) latest_buffered_time_ms;
            target_time_ms = max observed_time_ms (provider_time_ms clk);
            interval = tr_history_interval_ms r;
            from_ms = (if bm_unverified_from_time_ms c \<noteq> 0 then bm_unverified_from_time_ms c
              else if bm_verified_through_time_ms c > 0 then bm_verified_through_time_ms c
              else if earliest_buffered_time_ms > 0 then earliest_buffered_time_ms
              else observed_time_ms);
            from_time_ms = align_tick_history_start_time_ms from_ms interval
        in if from_time_ms = 0 \<or> from_time_ms > target_time_ms then
             let live = (bm_unverified_from_time_ms c = 0);
                 r = r\<lparr>tr_state := c\<lparr>tc_phase := (if live then CP_LIVE else CP_DEGRADED), tc_reconnect_target_time_ms := 0\<rparr>\<rparr>
             in notify_tick_continuity (rk_now clk) (make_continuity_update (tr_subscription r)
                  (if live then CS_LIVE else CS_DEGRADED) 0 0 0 0
                  (if live then ''No observed ticks required reconnect recovery.''
                   else ''Reconnect recovery could not prove the unresolved tick range.'')) r
           else
             let to_ms = bounded_tick_history_to_time_ms from_time_ms target_time_ms (tco_max_backfill_ms options) interval;
                 to_time_ms = (if to_ms < from_time_ms \<and> interval > 0 then from_time_ms else to_ms)
             in if to_time_ms < from_time_ms then r
                else
                  request_tick_continuity_history (rk_now clk)
                    \<lparr>pr_subscription = tr_subscription r,
                     pr_request = \<lparr>thr_symbol = sd_symbol (tr_stream r), thr_from_time_ms = from_time_ms,
                       thr_to_time_ms = to_time_ms, thr_source = THS_LOCAL_OBSERVED\<rparr>,
                     pr_kind = CRK_RECONNECT_BACKFILL, pr_announce_gap = False, pr_from_time_ms = from_time_ms,
                     pr_to_time_ms = to_time_ms, pr_requested_items = 0, pr_attempt = 1\<rparr>
                    (r\<lparr>tr_state := c\<lparr>tc_reconnect_target_time_ms := target_time_ms, tc_phase := CP_RECOVERING,
                         tc_request_in_flight := True\<rparr>\<rparr>))"

subsection \<open>Answers\<close>

text \<open>What a history answer is worth: the batch for the subscriber, without duplicates, whether the whole range is
  proved, and the message if it is not.\<close>

definition judge_tick_history ::
  "tick_pending \<Rightarrow> tick_sequence history_result \<Rightarrow> tick_route \<Rightarrow> tick md_batch option \<times> bool \<times> string" where
  "judge_tick_history p result r =
     (let sequence = hr_sequence result;
          stream_matches = (hr_success result \<and> (ts_symbol sequence = [] \<or> ts_symbol sequence = sd_symbol (tr_stream r)));
          range_valid = (stream_matches \<and> ticks_ordered (pr_from_time_ms p) (pr_to_time_ms p) 0 (ts_ticks sequence));
          batch = make_tick_batch sequence (pr_request p) (pr_subscription p) (pr_kind p \<noteq> CRK_PREFILL);
          batch = batch\<lparr>mb_items := deduplicate_tick_items (mb_items batch) (tr_mode r)\<rparr>;
          covers_range = (range_valid \<and> tick_history_covers_range (mb_items batch) (pr_from_time_ms p) (pr_to_time_ms p))
      in (if range_valid then Some batch else None,
          covers_range \<and> hr_range_complete result,
          if hr_error_desc result \<noteq> [] then hr_error_desc result
          else if \<not> hr_success result then ''Historical tick continuity request failed.''
          else if \<not> stream_matches then ''Historical tick response does not match the subscribed symbol.''
          else if \<not> range_valid then ''Historical tick response is outside the requested range or unordered.''
          else ''Historical tick response does not prove the requested range is complete.''))"

definition schedule_tick_retry :: "int \<Rightarrow> tick_pending \<Rightarrow> tick_route \<Rightarrow> tick_route" where
  "schedule_tick_retry now p r =
     notify_tick_continuity now (make_continuity_update (pr_subscription p) CS_RETRYING (pr_from_time_ms p)
         (pr_to_time_ms p) (pr_requested_items p) 0 ''Retrying historical tick continuity request.'')
       (r\<lparr>tr_state := (tr_state r)
          \<lparr>tc_retry_request := Some (p\<lparr>pr_announce_gap := False, pr_attempt := pr_attempt p + 1\<rparr>),
           tc_retry_at := retry_time now (tco_retry (tr_options r)) (pr_attempt p),
           tc_phase := (if pr_kind p = CRK_PREFILL then CP_PREFILLING else CP_RECOVERING)\<rparr>\<rparr>)"

text \<open>The range becomes verified, or stays open and is reported.\<close>

definition settle_tick_range :: "int \<Rightarrow> tick_pending \<Rightarrow> bool \<Rightarrow> nat \<Rightarrow> string \<Rightarrow> tick_route \<Rightarrow> tick_route" where
  "settle_tick_range now p usable delivered message r =
     (let c = tr_state r in
      if usable then r\<lparr>tr_state := record_tick_verified_range (pr_from_time_ms p) (pr_to_time_ms p) c\<rparr>
      else
        let c = (if pr_kind p = CRK_PREFILL then c\<lparr>tc_initial_prefill_pending := False\<rparr> else c);
            c = mark_unverified (pr_from_time_ms p) c;
            c = c\<lparr>tc_monitor := (tc_monitor c)\<lparr>cm_failure_count := cm_failure_count (tc_monitor c) + 1\<rparr>\<rparr>
        in notify_tick_continuity now (make_continuity_update (pr_subscription p) CS_FAILED (pr_from_time_ms p)
             (pr_to_time_ms p) (pr_requested_items p) delivered message) (r\<lparr>tr_state := c\<rparr>))"

text \<open>The buffer without the live ticks that the history contains.\<close>

definition prune_buffer :: "tick_deduplication_mode \<Rightarrow> tick list \<Rightarrow> tick md_batch list \<Rightarrow> tick md_batch list" where
  "prune_buffer mode history buffer =
     filter (\<lambda>b. mb_items b \<noteq> [])
       (map (\<lambda>b. b\<lparr>mb_items := filter (\<lambda>t. \<not> list_ex (\<lambda>h. same_tick_observation h t mode) history) (mb_items b)\<rparr>) buffer)"

definition confirmed_from :: "tick list \<Rightarrow> u64" where
  "confirmed_from ts = fold (\<lambda>t f. if f = 0 \<or> tk_time_ms t < f then tk_time_ms t else f) ts 0"

definition deliver_tick_history :: "tick md_batch \<Rightarrow> bool \<Rightarrow> tick_route \<Rightarrow> nat \<times> tick_route" where
  "deliver_tick_history batch usable r =
     (if mb_items batch = [] \<or> tr_phase r \<noteq> EP_ACTIVE \<or> tr_release_requested r then (length (mb_items batch), r)
      else
        let c = tr_state r;
            buffer = prune_buffer (tr_mode r) (mb_items batch) (tc_buffer c);
            c = c\<lparr>tc_buffer := buffer, tc_buffered_items := sum_list (map (\<lambda>b. length (mb_items b)) buffer)\<rparr>;
            items = deduplicate_against_last_delivery (tr_mode r) c (mb_items batch);
            c = (if usable \<and> items \<noteq> []
                 then c\<lparr>tc_monitor := (tc_monitor c)\<lparr>cm_confirmed_from_time_ms := confirmed_from items,
                        cm_confirmed_through_time_ms := latest_time items, cm_confirmed_items := length items\<rparr>\<rparr>
                 else c);
            r = r\<lparr>tr_state := c\<rparr>
        in if items = [] then (0, r)
           else
             let r = tick_progress items r
             in (length items,
                 if tr_subscriber_alive r then r\<lparr>tr_calls := tr_calls r @ [History_ticks (batch\<lparr>mb_items := items\<rparr>)]\<rparr> else r))"

datatype next_chunk = Flush | Stop | Request tick_pending

text \<open>What follows a usable answer: the next chunk of the range, or the buffer.\<close>

definition next_tick_chunk :: "tick_pending \<Rightarrow> bool \<Rightarrow> tick_route \<Rightarrow> next_chunk" where
  "next_tick_chunk p usable r =
     (let c = tr_state r;
          interval = tr_history_interval_ms r;
          history_target_time_ms = align_tick_history_end_time_ms (tc_reconnect_target_time_ms c) interval;
          target = (if pr_kind p = CRK_PREFILL \<and> \<not> history_target_time_ms > 0
            then tc_initial_prefill_boundary_time_ms c else history_target_time_ms);
          chunk = (\<lambda>(next_from, next_to). \<lparr>pr_subscription = tr_subscription r,
            pr_request = \<lparr>thr_symbol = sd_symbol (tr_stream r), thr_from_time_ms = next_from, thr_to_time_ms = next_to,
              thr_source = THS_LOCAL_OBSERVED\<rparr>,
            pr_kind = pr_kind p, pr_announce_gap = False, pr_from_time_ms = next_from, pr_to_time_ms = next_to,
            pr_requested_items = 0, pr_attempt = 1\<rparr>)
      in if \<not> usable \<or> \<not> target > pr_to_time_ms p then Flush
         else case next_tick_history_range (pr_to_time_ms p) target (tco_max_backfill_ms (tr_options r)) interval of
                None \<Rightarrow> if pr_kind p = CRK_PREFILL then Flush else Stop
              | Some bounds \<Rightarrow> if pr_kind p \<noteq> CRK_PREFILL \<and> snd bounds < fst bounds then Stop else Request (chunk bounds))"

definition request_next_tick_chunk :: "int \<Rightarrow> tick_pending \<Rightarrow> tick_route \<Rightarrow> tick_route" where
  "request_next_tick_chunk now q r =
     (let r = r\<lparr>tr_state := (tr_state r)
            \<lparr>tc_phase := (if pr_kind q = CRK_PREFILL then CP_PREFILLING else CP_RECOVERING), tc_request_in_flight := True\<rparr>\<rparr>;
          r = (if pr_kind q = CRK_PREFILL
               then notify_tick_continuity now (make_continuity_update (pr_subscription q) CS_PREFILLING
                 (pr_from_time_ms q) (pr_to_time_ms q) (pr_requested_items q) 0
                 ''Requesting the next historical tick prefill chunk.'') r
               else r)
      in request_tick_continuity_history now q r)"

subsection \<open>Flushing the buffer\<close>

lemma observe_ticks_frame [simp]:
  "tc_buffer (fold observe_tick ts c) = tc_buffer c"
  "tc_buffered_items (fold observe_tick ts c) = tc_buffered_items c"
  "tc_phase (fold observe_tick ts c) = tc_phase c"
  "tc_initial_prefill_pending (fold observe_tick ts c) = tc_initial_prefill_pending c"
  "tc_request_in_flight (fold observe_tick ts c) = tc_request_in_flight c"
  "tc_initial_prefill_boundary_time_ms (fold observe_tick ts c) = tc_initial_prefill_boundary_time_ms c"
  "tc_generation (fold observe_tick ts c) = tc_generation c"
  "tc_reconnect_target_time_ms (fold observe_tick ts c) = tc_reconnect_target_time_ms c"
  "tc_retry_request (fold observe_tick ts c) = tc_retry_request c"
  "tc_retry_at (fold observe_tick ts c) = tc_retry_at c"
  "tc_monitor (fold observe_tick ts c) = tc_monitor c"
  "bm_unverified_from_time_ms (fold observe_tick ts c) = bm_unverified_from_time_ms c"
  by (induction ts arbitrary: c) (simp_all add: observe_tick_def Let_def)

lemma record_tick_progress_frame [simp]:
  "tc_buffer (record_tick_progress m ts c) = tc_buffer c"
  "tc_buffered_items (record_tick_progress m ts c) = tc_buffered_items c"
  "tc_phase (record_tick_progress m ts c) = tc_phase c"
  "tc_initial_prefill_pending (record_tick_progress m ts c) = tc_initial_prefill_pending c"
  "tc_request_in_flight (record_tick_progress m ts c) = tc_request_in_flight c"
  "tc_initial_prefill_boundary_time_ms (record_tick_progress m ts c) = tc_initial_prefill_boundary_time_ms c"
  "tc_generation (record_tick_progress m ts c) = tc_generation c"
  "tc_reconnect_target_time_ms (record_tick_progress m ts c) = tc_reconnect_target_time_ms c"
  "tc_retry_request (record_tick_progress m ts c) = tc_retry_request c"
  "tc_retry_at (record_tick_progress m ts c) = tc_retry_at c"
  "tc_monitor (record_tick_progress m ts c) = tc_monitor c"
  "bm_unverified_from_time_ms (record_tick_progress m ts c) = bm_unverified_from_time_ms c"
  by (simp_all add: record_tick_progress_def Let_def)

lemma record_progress_fold_frame [simp]:
  "tc_phase (fold (\<lambda>b. record_tick_progress m (mb_items b)) bs c) = tc_phase c"
  "tc_generation (fold (\<lambda>b. record_tick_progress m (mb_items b)) bs c) = tc_generation c"
  "tc_monitor (fold (\<lambda>b. record_tick_progress m (mb_items b)) bs c) = tc_monitor c"
  "tc_initial_prefill_boundary_time_ms (fold (\<lambda>b. record_tick_progress m (mb_items b)) bs c) = tc_initial_prefill_boundary_time_ms c"
  "bm_unverified_from_time_ms (fold (\<lambda>b. record_tick_progress m (mb_items b)) bs c) = bm_unverified_from_time_ms c"
  by (induction bs arbitrary: c) simp_all

text \<open>A buffered batch grows the buffer by one, or empties it.\<close>

lemma buffer_tick_length:
  assumes "buffer_tick_continuity_batch now b front r = (ok, r', e)"
  shows "re_requests e = []" "length (tc_buffer (tr_state r')) = (if ok then Suc (length (tc_buffer (tr_state r))) else 0)"
  using assms
  by (auto simp: buffer_tick_continuity_batch_def record_tick_continuity_update_def Let_def split: if_splits)

text \<open>The flush loop makes the buffer shorter as long as no batch leads to a request.\<close>

lemma route_tick_length:
  assumes "route_tick_to_entry now b True allow r = (r', e)" "re_requests e = []"
  shows "length (tc_buffer (tr_state r')) \<le> length (tc_buffer (tr_state r))"
proof (cases "tr_phase r \<noteq> EP_ACTIVE \<or> \<not> tick_batch_matches_stream b (tr_stream r) \<or> \<not> tr_subscriber_alive r \<or> mb_items b = []")
  case True
  with assms(1) have "r' = r" by (auto simp: route_tick_to_entry_def split: if_splits)
  then show ?thesis by simp
next
  case False
  show ?thesis
    using assms False
    by (auto simp: route_tick_to_entry_def recover_tick_gap_def tick_progress_def Let_def dest: buffer_tick_length
        split: option.splits if_splits prod.splits)
qed

function flush_tick_buffer :: "int \<Rightarrow> tick_pending \<Rightarrow> u64 \<Rightarrow> bool \<Rightarrow> nat \<Rightarrow> tick_route \<Rightarrow> tick_route" where
  "flush_tick_buffer now p generation usable delivered r =
     (if tr_phase r \<noteq> EP_ACTIVE \<or> tc_generation (tr_state r) \<noteq> generation then r
      else case tc_buffer (tr_state r) of
        [] \<Rightarrow>
          let c = tr_state r;
              verified = (usable \<and> bm_unverified_from_time_ms c = 0);
              r = r\<lparr>tr_state := c\<lparr>tc_phase := (if verified then CP_LIVE else CP_DEGRADED), tc_reconnect_target_time_ms := 0\<rparr>\<rparr>
          in if continuity_enabled (tco_mode (tr_options r))
             then notify_tick_continuity now (make_continuity_update (pr_subscription p)
                    (if verified then CS_LIVE else CS_DEGRADED) (pr_from_time_ms p) (pr_to_time_ms p)
                    (pr_requested_items p) delivered
                    (if verified then ''Historical tick continuity is ready.''
                     else ''Live tick delivery continues without verified continuity.'')) r
             else r
      | b # bs \<Rightarrow>
          let c = tr_state r;
              (r, e) = route_tick_to_entry now b True usable
                (r\<lparr>tr_state := c\<lparr>tc_buffer := bs, tc_buffered_items := tc_buffered_items c - length (mb_items b)\<rparr>\<rparr>);
              r = deliver_effects e r
          in (case re_requests e of
                q # _ \<Rightarrow> request_tick_continuity_history now q r
              | [] \<Rightarrow> flush_tick_buffer now p generation usable delivered r))"
  by pat_completeness auto
termination
proof (relation "measure (\<lambda>(now, p, generation, usable, delivered, r). length (tc_buffer (tr_state r)))", goal_cases)
  case (2 now p generation usable delivered r b bs c x r' e r'')
  then show ?case using route_tick_length [of now b usable _ r' e] by (fastforce simp: deliver_effects_def)
qed simp

declare flush_tick_buffer.simps [simp del]

definition complete_tick_continuity ::
  "int \<Rightarrow> tick_pending \<Rightarrow> u64 \<Rightarrow> tick_sequence history_result \<Rightarrow> tick_route \<Rightarrow> tick_route" where
  "complete_tick_continuity now p generation result r =
     (let c = tr_state r in
      if tr_phase r \<noteq> EP_ACTIVE \<or> sd_type (tr_stream r) \<noteq> MDT_TICKS \<or> \<not> tc_request_in_flight c
         \<or> tc_generation c \<noteq> generation then r
      else
        let r = r\<lparr>tr_state := c\<lparr>tc_request_in_flight := False, tc_phase := CP_FLUSHING\<rparr>\<rparr>
        in if \<not> hr_success result \<and> pr_attempt p < unat (crp_max_attempts (tco_retry (tr_options r)))
           then schedule_tick_retry now p r
           else
             let (history, usable, message) = judge_tick_history p result r;
                 items = (case history of None \<Rightarrow> [] | Some batch \<Rightarrow> mb_items batch);
                 r = settle_tick_range now p usable (length items) message r;
                 (delivered, r) = (case history of None \<Rightarrow> (0, r) | Some batch \<Rightarrow> deliver_tick_history batch usable r)
             in case next_tick_chunk p usable r of
                  Request q \<Rightarrow> request_next_tick_chunk now q r
                | Stop \<Rightarrow> r
                | Flush \<Rightarrow>
                    flush_tick_buffer now p generation usable delivered
                      (if usable \<and> pr_kind p = CRK_PREFILL
                       then r\<lparr>tr_state := (tr_state r)\<lparr>tc_initial_prefill_pending := False\<rparr>\<rparr> else r))"

subsection \<open>Transport statuses\<close>

datatype restart = No_restart | Restart_prefill | Restart_recovery

definition lose_transport :: "int \<Rightarrow> tick_route \<Rightarrow> tick_route \<times> continuity_update list" where
  "lose_transport now r =
     (let c = tr_state r;
          announce_stale = (tc_phase c \<noteq> CP_WAITING_FOR_READY);
          c = c\<lparr>tc_generation := tc_generation c + 1, tc_request_in_flight := False, tc_retry_request := None,
                tc_retry_at := 0, tc_reconnect_target_time_ms := 0\<rparr>;
          earliest = (\<lambda>time. c\<lparr>bm_unverified_from_time_ms :=
            (if bm_unverified_from_time_ms c = 0 then time else min (bm_unverified_from_time_ms c) time)\<rparr>);
          c = (if \<not> recovers_gaps (tco_mode (tr_options r)) then c
               else if tc_initial_prefill_pending c \<and> tc_initial_prefill_boundary_time_ms c > 0
               then earliest (tc_initial_prefill_boundary_time_ms c)
               else if bm_verified_through_time_ms c > 0 then earliest (bm_verified_through_time_ms c)
               else if bm_last_observed_time_ms c > 0 then earliest (bm_last_observed_time_ms c)
               else c);
          r = r\<lparr>tr_state := c\<lparr>tc_phase := CP_WAITING_FOR_READY\<rparr>\<rparr>;
          stale_update = make_continuity_update (tr_subscription r) CS_STALE 0 0 0 0 ''Transport loss invalidated tick continuity.''
      in if announce_stale
         then (record_tick_continuity_update now stale_update r, if tr_subscriber_alive r then [stale_update] else [])
         else (r, []))"

definition apply_stream_status :: "int \<Rightarrow> md_stream_status \<Rightarrow> tick_route \<Rightarrow> tick_route \<times> continuity_update list \<times> restart" where
  "apply_stream_status now status r =
     (let enabled = continuity_enabled (tco_mode (tr_options r));
          recovers = recovers_gaps (tco_mode (tr_options r));
          (r, updates) = (if enabled \<and> (tc_initial_prefill_pending (tr_state r) \<or> recovers) \<and> invalidates_continuity status
            then lose_transport now r else (r, []));
          c = tr_state r
      in if enabled \<and> status = STS_READY \<and> tc_phase c = CP_WAITING_FOR_READY \<and> \<not> tc_request_in_flight c then
           if tc_initial_prefill_pending c then (r\<lparr>tr_state := c\<lparr>tc_phase := CP_PREFILLING\<rparr>\<rparr>, updates, Restart_prefill)
           else if recovers then (r\<lparr>tr_state := c\<lparr>tc_phase := CP_RECOVERING\<rparr>\<rparr>, updates, Restart_recovery)
           else (r, updates, No_restart)
         else (r, updates, No_restart))"

definition restart_route :: "route_clock \<Rightarrow> restart \<Rightarrow> tick_route \<Rightarrow> tick_route" where
  "restart_route clk how r =
     (case how of No_restart \<Rightarrow> r | Restart_prefill \<Rightarrow> start_tick_continuity clk r
      | Restart_recovery \<Rightarrow> start_tick_reconnect_recovery clk r)"

definition tell :: "tick_route_call list \<Rightarrow> tick_route \<Rightarrow> tick_route" where
  "tell calls r = (if tr_subscriber_alive r then r\<lparr>tr_calls := tr_calls r @ calls\<rparr> else r)"

definition route_status :: "route_clock \<Rightarrow> status_update \<Rightarrow> tick_route \<Rightarrow> tick_route" where
  "route_status clk update r =
     (if tr_phase r \<noteq> EP_ACTIVE \<or> \<not> status_matches_stream update (tr_stream r) then r
      else
        let (r, updates, how) = apply_stream_status (rk_now clk) (su_status update) r
        in restart_route clk how
             (tell (Tick_status (update\<lparr>su_subscription := tr_subscription r\<rparr>) # map Tick_continuity updates) r))"

subsection \<open>Turns, activation and the end\<close>

definition process_tick_route :: "route_clock \<Rightarrow> tick_route \<Rightarrow> tick_route" where
  "process_tick_route clk r =
     (let c = tr_state r;
          eligible = (tr_phase r = EP_ACTIVE \<and> sd_type (tr_stream r) = MDT_TICKS);
          due = (case tc_retry_request c of
            Some p \<Rightarrow> if eligible \<and> \<not> tc_request_in_flight c \<and> tc_retry_at c \<le> rk_now clk then Some p else None
          | None \<Rightarrow> None);
          c = (case due of
            Some p \<Rightarrow> c\<lparr>tc_phase := (if pr_kind p = CRK_PREFILL then CP_PREFILLING else CP_RECOVERING),
              tc_retry_request := None, tc_retry_at := 0, tc_request_in_flight := True\<rparr>
          | None \<Rightarrow> c);
          reconnect = (eligible \<and> recovers_gaps (tco_mode (tr_options r)) \<and> tc_phase c = CP_RECOVERING
            \<and> \<not> tc_initial_prefill_pending c \<and> \<not> tc_request_in_flight c \<and> tc_retry_request c = None);
          r = r\<lparr>tr_state := c\<rparr>;
          r = (case due of Some p \<Rightarrow> request_tick_continuity_history (rk_now clk) p r | None \<Rightarrow> r)
      in if reconnect then start_tick_reconnect_recovery clk r else r)"

text \<open>A new entry, as \<open>add_pending_entry\<close> makes it for a tick request.\<close>

definition tick_continuity_state_default :: tick_continuity_state where
  "tick_continuity_state_default = \<lparr>bm_last_observed_time_ms = 0, bm_verified_through_time_ms = 0,
     bm_unverified_from_time_ms = 0, tm_last_delivered_tick_time_ms = 0, tm_last_delivered_tick_observations = [],
     tc_phase = CP_LIVE, tc_initial_prefill_pending = False, tc_request_in_flight = False, tc_buffer = [],
     tc_buffered_items = 0, tc_initial_prefill_boundary_time_ms = 0, tc_generation = 0, tc_reconnect_target_time_ms = 0,
     tc_retry_request = None, tc_retry_at = 0, tc_monitor = continuity_monitor_default\<rparr>"

definition make_tick_route :: "tick_deduplication_mode \<Rightarrow> u64 \<Rightarrow> tick_subscription_request \<Rightarrow> tick_route" where
  "make_tick_route provider_mode history_interval_ms request =
     (let options = tsr_continuity request;
          pending = (continuity_enabled (tco_mode options) \<and> tco_prefill_lookback_ms options > 0)
      in \<lparr>tr_phase = EP_PENDING, tr_stream = stream_from_tick_request request, tr_subscription = subscription_handle_default,
          tr_subscriber_alive = True, tr_release_requested = False, tr_options = options,
          tr_mode = resolve_tick_deduplication_mode provider_mode (tco_deduplication_mode options),
          tr_history_interval_ms = history_interval_ms,
          tr_state = tick_continuity_state_default\<lparr>tc_initial_prefill_pending := pending,
            tc_phase := (if pending then CP_PREFILLING else CP_LIVE)\<rparr>,
          tr_operations = [], tr_calls = []\<rparr>)"

text \<open>\<open>complete_subscribe\<close> for an accepted subscription; the last status of the stream, if one is cached, is replayed.\<close>

definition activate_tick_route ::
  "route_clock \<Rightarrow> subscription_handle \<Rightarrow> status_update option \<Rightarrow> tick_route \<Rightarrow> tick_route" where
  "activate_tick_route clk subscription replay r =
     (let r = r\<lparr>tr_phase := EP_ACTIVE, tr_stream := stream_from_handle subscription, tr_subscription := subscription\<rparr>;
          prefill = (\<lambda>r. if sd_type (tr_stream r) = MDT_TICKS \<and> tco_prefill_lookback_ms (tr_options r) > 0
            then start_tick_continuity clk r else r)
      in if tr_release_requested r then r\<lparr>tr_phase := EP_UNSUBSCRIBING\<rparr>
         else case replay of
           None \<Rightarrow> prefill r
         | Some status \<Rightarrow>
             let (r, updates, how) = apply_stream_status (rk_now clk) (su_status status) r;
                 r = tell [Tick_status (status\<lparr>su_subscription := subscription\<rparr>)] (prefill r);
                 r = fold (\<lambda>u r. tell [Tick_continuity u] (record_tick_continuity_update (rk_now clk) u r)) updates r
             in restart_route clk how r)"

definition release_tick_route :: "tick_route \<Rightarrow> tick_route" where
  "release_tick_route r =
     (let r = r\<lparr>tr_release_requested := True\<rparr>
      in if tr_phase r = EP_PENDING \<or> tr_phase r = EP_UNSUBSCRIBING then r else r\<lparr>tr_phase := EP_UNSUBSCRIBING\<rparr>)"

subsection \<open>Runs\<close>

datatype tick_event =
    Ticks "tick md_batch"
  | Answer nat "tick_sequence history_result"
  | Status status_update
  | Process
  | Expire
  | Release

text \<open>The answer to an operation is taken once; a later one finds the operation completed.\<close>

fun tick_step :: "tick_route \<Rightarrow> route_clock \<times> tick_event \<Rightarrow> tick_route" where
  "tick_step r (clk, Ticks batch) = route_ticks (rk_now clk) batch r"
| "tick_step r (clk, Answer k result) =
     (if k < length (tr_operations r) then
        let (p, generation) = tr_operations r ! k
        in complete_tick_continuity (rk_now clk) p generation result
             (r\<lparr>tr_operations := take k (tr_operations r) @ drop (Suc k) (tr_operations r)\<rparr>)
      else r)"
| "tick_step r (clk, Status update) = route_status clk update r"
| "tick_step r (clk, Process) = process_tick_route clk r"
| "tick_step r (clk, Expire) = r\<lparr>tr_subscriber_alive := False\<rparr>"
| "tick_step r (clk, Release) = release_tick_route r"

end
