(* ===== verification/TickRouteLaws.thy ===== *)
theory TickRouteLaws
  imports TickRoute
begin

section \<open>Laws of tick routes\<close>

text \<open>
  What holds in every run of a tick route: it never waits for something that cannot come, no live tick is lost or
  delivered twice, the buffer keeps its limits, and a route that calls itself live has no open range. The last part
  shows the runs in which the code does not do what it means to do.
\<close>

subsection \<open>What the small steps leave alone\<close>

lemma tick_update_frame [simp]:
  "tr_phase (record_tick_continuity_update now u r) = tr_phase r"
  "tr_stream (record_tick_continuity_update now u r) = tr_stream r"
  "tr_subscription (record_tick_continuity_update now u r) = tr_subscription r"
  "tr_subscriber_alive (record_tick_continuity_update now u r) = tr_subscriber_alive r"
  "tr_release_requested (record_tick_continuity_update now u r) = tr_release_requested r"
  "tr_options (record_tick_continuity_update now u r) = tr_options r"
  "tr_mode (record_tick_continuity_update now u r) = tr_mode r"
  "tr_history_interval_ms (record_tick_continuity_update now u r) = tr_history_interval_ms r"
  "bm_last_observed_time_ms (tr_state (record_tick_continuity_update now u r)) = bm_last_observed_time_ms (tr_state r)"
  "bm_verified_through_time_ms (tr_state (record_tick_continuity_update now u r)) = bm_verified_through_time_ms (tr_state r)"
  "bm_unverified_from_time_ms (tr_state (record_tick_continuity_update now u r)) = bm_unverified_from_time_ms (tr_state r)"
  "tm_last_delivered_tick_time_ms (tr_state (record_tick_continuity_update now u r)) = tm_last_delivered_tick_time_ms (tr_state r)"
  "tm_last_delivered_tick_observations (tr_state (record_tick_continuity_update now u r)) = tm_last_delivered_tick_observations (tr_state r)"
  "tc_phase (tr_state (record_tick_continuity_update now u r)) = tc_phase (tr_state r)"
  "tc_initial_prefill_pending (tr_state (record_tick_continuity_update now u r)) = tc_initial_prefill_pending (tr_state r)"
  "tc_request_in_flight (tr_state (record_tick_continuity_update now u r)) = tc_request_in_flight (tr_state r)"
  "tc_buffer (tr_state (record_tick_continuity_update now u r)) = tc_buffer (tr_state r)"
  "tc_buffered_items (tr_state (record_tick_continuity_update now u r)) = tc_buffered_items (tr_state r)"
  "tc_initial_prefill_boundary_time_ms (tr_state (record_tick_continuity_update now u r)) = tc_initial_prefill_boundary_time_ms (tr_state r)"
  "tc_generation (tr_state (record_tick_continuity_update now u r)) = tc_generation (tr_state r)"
  "tc_reconnect_target_time_ms (tr_state (record_tick_continuity_update now u r)) = tc_reconnect_target_time_ms (tr_state r)"
  "tc_retry_request (tr_state (record_tick_continuity_update now u r)) = tc_retry_request (tr_state r)"
  "tc_retry_at (tr_state (record_tick_continuity_update now u r)) = tc_retry_at (tr_state r)"
  "tr_operations (record_tick_continuity_update now u r) = tr_operations r"
  "tr_calls (record_tick_continuity_update now u r) = tr_calls r"
  by (simp_all add: record_tick_continuity_update_def)

lemma notify_frame [simp]:
  "tr_phase (notify_tick_continuity now u r) = tr_phase r"
  "tr_stream (notify_tick_continuity now u r) = tr_stream r"
  "tr_subscription (notify_tick_continuity now u r) = tr_subscription r"
  "tr_subscriber_alive (notify_tick_continuity now u r) = tr_subscriber_alive r"
  "tr_release_requested (notify_tick_continuity now u r) = tr_release_requested r"
  "tr_options (notify_tick_continuity now u r) = tr_options r"
  "tr_mode (notify_tick_continuity now u r) = tr_mode r"
  "tr_history_interval_ms (notify_tick_continuity now u r) = tr_history_interval_ms r"
  "bm_last_observed_time_ms (tr_state (notify_tick_continuity now u r)) = bm_last_observed_time_ms (tr_state r)"
  "bm_verified_through_time_ms (tr_state (notify_tick_continuity now u r)) = bm_verified_through_time_ms (tr_state r)"
  "bm_unverified_from_time_ms (tr_state (notify_tick_continuity now u r)) = bm_unverified_from_time_ms (tr_state r)"
  "tm_last_delivered_tick_time_ms (tr_state (notify_tick_continuity now u r)) = tm_last_delivered_tick_time_ms (tr_state r)"
  "tm_last_delivered_tick_observations (tr_state (notify_tick_continuity now u r)) = tm_last_delivered_tick_observations (tr_state r)"
  "tc_phase (tr_state (notify_tick_continuity now u r)) = tc_phase (tr_state r)"
  "tc_initial_prefill_pending (tr_state (notify_tick_continuity now u r)) = tc_initial_prefill_pending (tr_state r)"
  "tc_request_in_flight (tr_state (notify_tick_continuity now u r)) = tc_request_in_flight (tr_state r)"
  "tc_buffer (tr_state (notify_tick_continuity now u r)) = tc_buffer (tr_state r)"
  "tc_buffered_items (tr_state (notify_tick_continuity now u r)) = tc_buffered_items (tr_state r)"
  "tc_initial_prefill_boundary_time_ms (tr_state (notify_tick_continuity now u r)) = tc_initial_prefill_boundary_time_ms (tr_state r)"
  "tc_generation (tr_state (notify_tick_continuity now u r)) = tc_generation (tr_state r)"
  "tc_reconnect_target_time_ms (tr_state (notify_tick_continuity now u r)) = tc_reconnect_target_time_ms (tr_state r)"
  "tc_retry_request (tr_state (notify_tick_continuity now u r)) = tc_retry_request (tr_state r)"
  "tc_retry_at (tr_state (notify_tick_continuity now u r)) = tc_retry_at (tr_state r)"
  "tr_operations (notify_tick_continuity now u r) = tr_operations r"
  by (simp_all add: notify_tick_continuity_def Let_def)

lemma deliver_frame [simp]:
  "tr_phase (deliver_effects e r) = tr_phase r"
  "tr_stream (deliver_effects e r) = tr_stream r"
  "tr_subscription (deliver_effects e r) = tr_subscription r"
  "tr_subscriber_alive (deliver_effects e r) = tr_subscriber_alive r"
  "tr_release_requested (deliver_effects e r) = tr_release_requested r"
  "tr_options (deliver_effects e r) = tr_options r"
  "tr_mode (deliver_effects e r) = tr_mode r"
  "tr_history_interval_ms (deliver_effects e r) = tr_history_interval_ms r"
  "tr_state (deliver_effects e r) = tr_state r"
  "tr_operations (deliver_effects e r) = tr_operations r"
  by (simp_all add: deliver_effects_def)

lemma tell_frame [simp]:
  "tr_phase (tell calls r) = tr_phase r"
  "tr_stream (tell calls r) = tr_stream r"
  "tr_subscription (tell calls r) = tr_subscription r"
  "tr_subscriber_alive (tell calls r) = tr_subscriber_alive r"
  "tr_release_requested (tell calls r) = tr_release_requested r"
  "tr_options (tell calls r) = tr_options r"
  "tr_mode (tell calls r) = tr_mode r"
  "tr_history_interval_ms (tell calls r) = tr_history_interval_ms r"
  "tr_state (tell calls r) = tr_state r"
  "tr_operations (tell calls r) = tr_operations r"
  by (simp_all add: tell_def)

lemma request_frame [simp]:
  "tr_phase (request_tick_continuity_history now p r) = tr_phase r"
  "tr_stream (request_tick_continuity_history now p r) = tr_stream r"
  "tr_subscription (request_tick_continuity_history now p r) = tr_subscription r"
  "tr_subscriber_alive (request_tick_continuity_history now p r) = tr_subscriber_alive r"
  "tr_release_requested (request_tick_continuity_history now p r) = tr_release_requested r"
  "tr_options (request_tick_continuity_history now p r) = tr_options r"
  "tr_mode (request_tick_continuity_history now p r) = tr_mode r"
  "tr_history_interval_ms (request_tick_continuity_history now p r) = tr_history_interval_ms r"
  "bm_last_observed_time_ms (tr_state (request_tick_continuity_history now p r)) = bm_last_observed_time_ms (tr_state r)"
  "bm_verified_through_time_ms (tr_state (request_tick_continuity_history now p r)) = bm_verified_through_time_ms (tr_state r)"
  "bm_unverified_from_time_ms (tr_state (request_tick_continuity_history now p r)) = bm_unverified_from_time_ms (tr_state r)"
  "tm_last_delivered_tick_time_ms (tr_state (request_tick_continuity_history now p r)) = tm_last_delivered_tick_time_ms (tr_state r)"
  "tm_last_delivered_tick_observations (tr_state (request_tick_continuity_history now p r)) = tm_last_delivered_tick_observations (tr_state r)"
  "tc_phase (tr_state (request_tick_continuity_history now p r)) = tc_phase (tr_state r)"
  "tc_initial_prefill_pending (tr_state (request_tick_continuity_history now p r)) = tc_initial_prefill_pending (tr_state r)"
  "tc_request_in_flight (tr_state (request_tick_continuity_history now p r)) = tc_request_in_flight (tr_state r)"
  "tc_buffer (tr_state (request_tick_continuity_history now p r)) = tc_buffer (tr_state r)"
  "tc_buffered_items (tr_state (request_tick_continuity_history now p r)) = tc_buffered_items (tr_state r)"
  "tc_initial_prefill_boundary_time_ms (tr_state (request_tick_continuity_history now p r)) = tc_initial_prefill_boundary_time_ms (tr_state r)"
  "tc_generation (tr_state (request_tick_continuity_history now p r)) = tc_generation (tr_state r)"
  "tc_reconnect_target_time_ms (tr_state (request_tick_continuity_history now p r)) = tc_reconnect_target_time_ms (tr_state r)"
  "tc_retry_request (tr_state (request_tick_continuity_history now p r)) = tc_retry_request (tr_state r)"
  "tc_retry_at (tr_state (request_tick_continuity_history now p r)) = tc_retry_at (tr_state r)"
  by (cases "pr_kind p"; simp add: request_tick_continuity_history_def Let_def)+

lemma request_operations:
  "tr_operations (request_tick_continuity_history now p r) =
     (if tr_phase r \<noteq> EP_ACTIVE \<or> sd_type (tr_stream r) \<noteq> MDT_TICKS \<or> \<not> tc_request_in_flight (tr_state r)
      then tr_operations r else tr_operations r @ [(p, tc_generation (tr_state r))])"
  by (cases "pr_kind p") (simp_all add: request_tick_continuity_history_def Let_def)

lemma tick_progress_frame [simp]:
  "tr_phase (tick_progress ts r) = tr_phase r"
  "tr_stream (tick_progress ts r) = tr_stream r"
  "tr_subscription (tick_progress ts r) = tr_subscription r"
  "tr_subscriber_alive (tick_progress ts r) = tr_subscriber_alive r"
  "tr_release_requested (tick_progress ts r) = tr_release_requested r"
  "tr_options (tick_progress ts r) = tr_options r"
  "tr_mode (tick_progress ts r) = tr_mode r"
  "tr_history_interval_ms (tick_progress ts r) = tr_history_interval_ms r"
  "bm_unverified_from_time_ms (tr_state (tick_progress ts r)) = bm_unverified_from_time_ms (tr_state r)"
  "tc_phase (tr_state (tick_progress ts r)) = tc_phase (tr_state r)"
  "tc_initial_prefill_pending (tr_state (tick_progress ts r)) = tc_initial_prefill_pending (tr_state r)"
  "tc_request_in_flight (tr_state (tick_progress ts r)) = tc_request_in_flight (tr_state r)"
  "tc_buffer (tr_state (tick_progress ts r)) = tc_buffer (tr_state r)"
  "tc_buffered_items (tr_state (tick_progress ts r)) = tc_buffered_items (tr_state r)"
  "tc_initial_prefill_boundary_time_ms (tr_state (tick_progress ts r)) = tc_initial_prefill_boundary_time_ms (tr_state r)"
  "tc_generation (tr_state (tick_progress ts r)) = tc_generation (tr_state r)"
  "tc_reconnect_target_time_ms (tr_state (tick_progress ts r)) = tc_reconnect_target_time_ms (tr_state r)"
  "tc_retry_request (tr_state (tick_progress ts r)) = tc_retry_request (tr_state r)"
  "tc_retry_at (tr_state (tick_progress ts r)) = tc_retry_at (tr_state r)"
  "tr_operations (tick_progress ts r) = tr_operations r"
  "tr_calls (tick_progress ts r) = tr_calls r"
  by (simp_all add: tick_progress_def)


subsection \<open>What a turn controls\<close>

text \<open>The part of a route that no turn changes while the subscription is active, and the part that plans its history.\<close>

definition route_frame :: "tick_route \<Rightarrow> _" where
  "route_frame r = (tr_phase r, tr_stream r, tr_subscription r, tr_subscriber_alive r, tr_release_requested r, tr_mode r,
     tr_history_interval_ms r)"

definition control :: "tick_route \<Rightarrow> _" where
  "control r = (let c = tr_state r in (tr_options r, tc_phase c, tc_initial_prefill_pending c, tc_request_in_flight c,
     tc_initial_prefill_boundary_time_ms c, tc_generation c, tc_retry_request c, bm_unverified_from_time_ms c, tr_operations r))"

lemma frame_eqD:
  assumes "route_frame r' = route_frame r"
  shows "tr_phase r' = tr_phase r" "tr_stream r' = tr_stream r" "tr_subscription r' = tr_subscription r"
    "tr_subscriber_alive r' = tr_subscriber_alive r" "tr_release_requested r' = tr_release_requested r"
    "tr_mode r' = tr_mode r" "tr_history_interval_ms r' = tr_history_interval_ms r"
  using assms by (simp_all add: route_frame_def)

lemma control_eqD:
  assumes "control r' = control r"
  shows "tr_options r' = tr_options r" "tc_phase (tr_state r') = tc_phase (tr_state r)"
    "tc_initial_prefill_pending (tr_state r') = tc_initial_prefill_pending (tr_state r)"
    "tc_request_in_flight (tr_state r') = tc_request_in_flight (tr_state r)"
    "tc_initial_prefill_boundary_time_ms (tr_state r') = tc_initial_prefill_boundary_time_ms (tr_state r)"
    "tc_generation (tr_state r') = tc_generation (tr_state r)" "tc_retry_request (tr_state r') = tc_retry_request (tr_state r)"
    "bm_unverified_from_time_ms (tr_state r') = bm_unverified_from_time_ms (tr_state r)" "tr_operations r' = tr_operations r"
  using assms by (simp_all add: control_def Let_def)

text \<open>A batch that does not fit the buffer leaves a live-only route without plans.\<close>

definition overflowed :: "tick_route \<Rightarrow> tick_route \<Rightarrow> bool" where
  "overflowed r r' \<longleftrightarrow> tr_options r' = (tr_options r)\<lparr>tco_mode := CM_LIVE_ONLY\<rparr> \<and> tc_phase (tr_state r') = CP_DEGRADED
     \<and> \<not> tc_initial_prefill_pending (tr_state r') \<and> \<not> tc_request_in_flight (tr_state r')
     \<and> tc_retry_request (tr_state r') = None \<and> tc_buffer (tr_state r') = []
     \<and> tc_initial_prefill_boundary_time_ms (tr_state r') = tc_initial_prefill_boundary_time_ms (tr_state r)
     \<and> tc_generation (tr_state r') = tc_generation (tr_state r) \<and> tr_operations r' = tr_operations r"

text \<open>A gap leaves the route in recovery, with a request to make.\<close>

definition recovering :: "tick_pending \<Rightarrow> tick_route \<Rightarrow> tick_route \<Rightarrow> bool" where
  "recovering p r r' \<longleftrightarrow> tr_options r' = tr_options r \<and> tc_phase (tr_state r') = CP_RECOVERING
     \<and> tc_initial_prefill_pending (tr_state r') = tc_initial_prefill_pending (tr_state r)
     \<and> tc_request_in_flight (tr_state r')
     \<and> tc_initial_prefill_boundary_time_ms (tr_state r') = tc_initial_prefill_boundary_time_ms (tr_state r)
     \<and> tc_generation (tr_state r') = tc_generation (tr_state r) \<and> tr_operations r' = tr_operations r
     \<and> tc_retry_request (tr_state r') = tc_retry_request (tr_state r)
     \<and> recovers_gaps (tco_mode (tr_options r)) \<and> pr_kind p = CRK_GAP_BACKFILL \<and> pr_attempt p = 1
     \<and> on_grid (tr_history_interval_ms r) (pr_to_time_ms p)"

lemma mark_unverified_frame [simp]:
  fixes c :: tick_continuity_state
  shows "tc_phase (mark_unverified f c) = tc_phase c" "tc_initial_prefill_pending (mark_unverified f c) = tc_initial_prefill_pending c"
    "tc_request_in_flight (mark_unverified f c) = tc_request_in_flight c" "tc_buffer (mark_unverified f c) = tc_buffer c"
    "tc_buffered_items (mark_unverified f c) = tc_buffered_items c" "tc_generation (mark_unverified f c) = tc_generation c"
    "tc_initial_prefill_boundary_time_ms (mark_unverified f c) = tc_initial_prefill_boundary_time_ms c"
    "tc_reconnect_target_time_ms (mark_unverified f c) = tc_reconnect_target_time_ms c"
    "tc_retry_request (mark_unverified f c) = tc_retry_request c" "tc_retry_at (mark_unverified f c) = tc_retry_at c"
    "tc_monitor (mark_unverified f c) = tc_monitor c"
    "bm_last_observed_time_ms (mark_unverified f c) = bm_last_observed_time_ms c"
    "tm_last_delivered_tick_time_ms (mark_unverified f c) = tm_last_delivered_tick_time_ms c"
    "tm_last_delivered_tick_observations (mark_unverified f c) = tm_last_delivered_tick_observations c"
  by (simp_all add: mark_unverified_def)

lemma buffer_tick_cases:
  assumes "buffer_tick_continuity_batch now b front r = (ok, r', e)"
  shows "route_frame r' = route_frame r" "if ok then control r' = control r else overflowed r r'"
  using assms
  by (auto simp: buffer_tick_continuity_batch_def route_frame_def control_def overflowed_def Let_def split: if_splits)

lemma recover_gap_cases:
  assumes "recover_tick_gap now b pb i previous t r = (r', e)" "recovers_gaps (tco_mode (tr_options r))"
  shows "route_frame r' = route_frame r"
    "re_requests e = [] \<and> (control r' = control r \<or> overflowed r r') \<or> (\<exists>p. re_requests e = [p] \<and> recovering p r r')"
proof -
  let ?i = "tr_history_interval_ms r"
  define fr where "fr = align_tick_history_start_time_ms previous ?i"
  define to where "to = bounded_tick_history_to_time_ms fr (tk_time_ms t) (tco_max_backfill_ms (tr_options r)) ?i"
  define to' where "to' = (if to < fr \<and> ?i > 0 then fr else to)"
  have grid: "on_grid ?i to'" by (simp add: to'_def to_def fr_def on_grid_bounded)
  define r1 where "r1 = (if i > 0 then tick_progress (take i (mb_items b)) r else r)"
  have r1: "route_frame r1 = route_frame r" "control r1 = control r"
    by (simp_all add: r1_def route_frame_def control_def Let_def)
  obtain ok r2 e2 where b: "buffer_tick_continuity_batch now (b\<lparr>mb_items := drop i (mb_items b)\<rparr>) pb r1 = (ok, r2, e2)"
    by (metis prod_cases3)
  note s = assms(1) [unfolded recover_tick_gap_def Let_def, folded fr_def, folded to_def, folded to'_def]
  note bc = buffer_tick_cases [OF b] buffer_tick_length(1) [OF b]
  have "(route_frame r' = route_frame r) \<and>
    (re_requests e = [] \<and> (control r' = control r \<or> overflowed r r') \<or> (\<exists>p. re_requests e = [p] \<and> recovering p r r'))"
  proof (cases "to' < fr")
    case True
    with s show ?thesis by auto
  next
    case False
    have b': "buffer_tick_continuity_batch now (b\<lparr>mb_items := drop i (mb_items b)\<rparr>) pb
        (if 0 < i then tick_progress (mb_items (b\<lparr>mb_items := take i (mb_items b)\<rparr>)) r else r) = (ok, r2, e2)"
      using b by (cases "0 < i") (simp_all add: r1_def)
    show ?thesis
    proof (cases ok)
      case ok: False
      with s False b' have r': "r' = r2" "re_requests e = []" using bc(3) by auto
      have "overflowed r1 r2" using bc(2) ok by simp
      then have "overflowed r r2" using control_eqD [OF r1(2)] by (simp add: overflowed_def)
      with r' bc(1) r1 show ?thesis by simp
    next
      case True
      with bc r1 have c: "control r2 = control r" "route_frame r2 = route_frame r" by simp_all
      with s False b' True have r': "r' = r2\<lparr>tr_state := (mark_unverified fr (tr_state r2))
          \<lparr>tc_phase := CP_RECOVERING, tc_request_in_flight := True, tc_reconnect_target_time_ms := tk_time_ms t\<rparr>\<rparr>"
        and e: "re_requests e = [\<lparr>pr_subscription = tr_subscription r2,
            pr_request = \<lparr>thr_symbol = sd_symbol (tr_stream r2), thr_from_time_ms = fr, thr_to_time_ms = to',
              thr_source = THS_LOCAL_OBSERVED\<rparr>,
            pr_kind = CRK_GAP_BACKFILL, pr_announce_gap = True, pr_from_time_ms = fr, pr_to_time_ms = to',
            pr_requested_items = 0, pr_attempt = 1\<rparr>]"
        by auto
      have "route_frame r' = route_frame r2" by (simp add: r' route_frame_def)
      moreover have "recovering (hd (re_requests e)) r r'"
        using c control_eqD [OF c(1)] grid assms(2) by (simp add: recovering_def r' e)
      ultimately show ?thesis using c(2) e by auto
    qed
  qed
  then show "route_frame r' = route_frame r"
    "re_requests e = [] \<and> (control r' = control r \<or> overflowed r r') \<or> (\<exists>p. re_requests e = [p] \<and> recovering p r r')"
    by blast+
qed

lemma route_tick_cases:
  assumes "route_tick_to_entry now b pb allow r = (r', e)"
  shows "route_frame r' = route_frame r"
    "re_requests e = [] \<and> (control r' = control r \<or> overflowed r r') \<or> (\<exists>p. re_requests e = [p] \<and> recovering p r r')"
proof -
  define routed where "routed = b\<lparr>mb_subscription := tr_subscription r,
    mb_items := map (\<lambda>t. t\<lparr>tk_flags := mark_live_payload (tk_flags t) pb\<rparr>) (mb_items b)\<rparr>"
  note s = assms [unfolded route_tick_to_entry_def Let_def, folded routed_def]
  have "(route_frame r' = route_frame r) \<and>
    (re_requests e = [] \<and> (control r' = control r \<or> overflowed r r') \<or> (\<exists>p. re_requests e = [p] \<and> recovering p r r'))"
  proof -
    consider "r' = r" "re_requests e = []"
      | ok where "buffer_tick_continuity_batch now routed False r = (ok, r', e)"
      | i p t where "recover_tick_gap now routed pb i p t r = (r', e)" "recovers_gaps (tco_mode (tr_options r))"
      | "r' = tick_progress (mb_items routed) r" "re_requests e = []"
    proof (cases "tr_phase r \<noteq> EP_ACTIVE \<or> \<not> tick_batch_matches_stream b (tr_stream r) \<or> \<not> tr_subscriber_alive r \<or> mb_items b = []")
      case True
      with s that(1) show ?thesis by (auto split: if_splits)
    next
      case False
      then have f: "\<not> (tr_phase r \<noteq> EP_ACTIVE \<or> \<not> tick_batch_matches_stream b (tr_stream r))" "tr_subscriber_alive r" "mb_items b \<noteq> []"
        by auto
      note s1 = s [unfolded if_not_P [OF f(1)] not_not if_P [OF f(2)] if_not_P [OF f(3)]]
      show ?thesis
      proof (cases "continuity_enabled (tco_mode (tr_options r)) \<and> \<not> pb \<and> buffers_live_data (tc_phase (tr_state r))")
        case True
        with s1 f show ?thesis using that(2) by (auto split: prod.splits)
      next
        case no: False
        show ?thesis
        proof (cases "if allow \<and> recovers_gaps (tco_mode (tr_options r)) \<and> \<not> tc_request_in_flight (tr_state r)
              \<and> tco_expected_interval_ms (tr_options r) > 0 \<and> bm_last_observed_time_ms (tr_state r) > 0
            then find_tick_gap (tco_expected_interval_ms (tr_options r)) (bm_last_observed_time_ms (tr_state r)) 0 (mb_items routed) else None")
          case None
          with s1 f no show ?thesis using that(4) by auto
        next
          case (Some g)
          then have "recovers_gaps (tco_mode (tr_options r))" by (auto split: if_splits)
          with s1 f no Some show ?thesis using that(3) by (cases g) auto
        qed
      qed
    qed
    then show ?thesis
    proof cases
      case 2
      from buffer_tick_cases [OF 2] buffer_tick_length(1) [OF 2] show ?thesis by (auto split: if_splits)
    next
      case 3
      from recover_gap_cases [OF 3] show ?thesis by simp
    qed (simp_all add: route_frame_def control_def Let_def)
  qed
  then show "route_frame r' = route_frame r"
    "re_requests e = [] \<and> (control r' = control r \<or> overflowed r r') \<or> (\<exists>p. re_requests e = [p] \<and> recovering p r r')"
    by blast+
qed

subsection \<open>A route that waits is waiting for something\<close>

text \<open>While a route holds live data back, it has a request out whose answer it will accept, or a retry planned, or the
  next turn of \<open>process\<close> starts its recovery, or it waits for the transport to become ready, which restarts it.\<close>

definition driven :: "tick_route \<Rightarrow> bool" where
  "driven r \<longleftrightarrow>
     (tc_phase (tr_state r) = CP_PREFILLING \<longrightarrow> tc_request_in_flight (tr_state r) \<or> tc_retry_request (tr_state r) \<noteq> None)
     \<and> (tc_phase (tr_state r) = CP_RECOVERING \<longrightarrow> tc_request_in_flight (tr_state r) \<or> tc_retry_request (tr_state r) \<noteq> None
          \<or> recovers_gaps (tco_mode (tr_options r)) \<and> \<not> tc_initial_prefill_pending (tr_state r))
     \<and> (tc_phase (tr_state r) = CP_WAITING_FOR_READY \<longrightarrow> continuity_enabled (tco_mode (tr_options r))
          \<and> \<not> tc_request_in_flight (tr_state r)
          \<and> (tc_initial_prefill_pending (tr_state r) \<or> recovers_gaps (tco_mode (tr_options r))))
     \<and> tc_phase (tr_state r) \<noteq> CP_FLUSHING
     \<and> (tc_request_in_flight (tr_state r) \<longrightarrow> (\<exists>p. (p, tc_generation (tr_state r)) \<in> set (tr_operations r)))"

text \<open>A request is out whose answer the route will accept.\<close>

definition asking :: "tick_route \<Rightarrow> bool" where
  "asking r \<longleftrightarrow> tc_request_in_flight (tr_state r) \<and> (\<exists>p. (p, tc_generation (tr_state r)) \<in> set (tr_operations r))"

lemma driven_asking: "driven r \<Longrightarrow> tc_request_in_flight (tr_state r) \<Longrightarrow> asking r"
  by (simp add: driven_def asking_def)

text \<open>Every range that was asked for ends on the grid of the provider, and a pending prefill has a depth.\<close>

definition planned :: "tick_route \<Rightarrow> bool" where
  "planned r \<longleftrightarrow>
     on_grid (tr_history_interval_ms r) (tc_initial_prefill_boundary_time_ms (tr_state r))
     \<and> list_all (\<lambda>q. on_grid (tr_history_interval_ms r) (pr_to_time_ms (fst q))) (tr_operations r)
     \<and> (\<forall>p. tc_retry_request (tr_state r) = Some p \<longrightarrow> on_grid (tr_history_interval_ms r) (pr_to_time_ms p))
     \<and> (tc_initial_prefill_pending (tr_state r) \<longrightarrow> tco_prefill_lookback_ms (tr_options r) \<noteq> 0)"

definition running :: "tick_route \<Rightarrow> bool" where
  "running r \<longleftrightarrow> tr_phase r = EP_ACTIVE \<and> sd_type (tr_stream r) = MDT_TICKS"

definition settled :: "tick_route \<Rightarrow> bool" where
  "settled r \<longleftrightarrow> planned r \<and> (running r \<longrightarrow> driven r)"

lemma settled_cong:
  assumes "route_frame r' = route_frame r" "control r' = control r"
  shows "settled r' = settled r" "planned r' = planned r" "running r' = running r"
  using frame_eqD [OF assms(1)] control_eqD [OF assms(2)]
  by (simp_all add: settled_def planned_def driven_def running_def)

lemma settled_overflowed:
  assumes "route_frame r' = route_frame r" "overflowed r r'" "planned r"
  shows "settled r'"
  using assms frame_eqD [OF assms(1)] by (simp add: settled_def planned_def driven_def overflowed_def)

text \<open>A request that goes out makes a buffering route driven.\<close>

lemma settled_request:
  assumes "planned r" "running r" "tc_request_in_flight (tr_state r)" "on_grid (tr_history_interval_ms r) (pr_to_time_ms p)"
    and "tc_phase (tr_state r) = CP_PREFILLING \<or> tc_phase (tr_state r) = CP_RECOVERING"
  shows "settled (request_tick_continuity_history now p r)"
  using assms by (auto simp: settled_def planned_def driven_def running_def request_operations Let_def)

lemma asking_request:
  assumes "running r" "tc_request_in_flight (tr_state r)"
  shows "asking (request_tick_continuity_history now p r)"
    "(p, tc_generation (tr_state (request_tick_continuity_history now p r))) \<in> set (tr_operations (request_tick_continuity_history now p r))"
  using assms by (auto simp: asking_def running_def request_operations)

lemma deliver_settled [simp]:
  "settled (deliver_effects e r) = settled r" "planned (deliver_effects e r) = planned r" "running (deliver_effects e r) = running r"
  by (simp_all add: settled_def planned_def driven_def running_def)

lemma notify_settled [simp]:
  "settled (notify_tick_continuity now u r) = settled r" "planned (notify_tick_continuity now u r) = planned r"
  "running (notify_tick_continuity now u r) = running r"
  by (simp_all add: settled_def planned_def driven_def running_def)

lemma record_settled [simp]:
  "settled (record_tick_continuity_update now u r) = settled r" "planned (record_tick_continuity_update now u r) = planned r"
  "running (record_tick_continuity_update now u r) = running r"
  by (simp_all add: settled_def planned_def driven_def running_def)

lemma tell_settled [simp]: "settled (tell calls r) = settled r" "planned (tell calls r) = planned r" "running (tell calls r) = running r"
  by (simp_all add: settled_def planned_def driven_def running_def)

lemma planned_recovering:
  assumes "route_frame r' = route_frame r" "recovering p r r'" "planned r"
  shows "planned r'" "on_grid (tr_history_interval_ms r') (pr_to_time_ms p)"
  using assms frame_eqD [OF assms(1)] by (simp_all add: planned_def recovering_def)

lemma settled_recovering:
  assumes "route_frame r' = route_frame r" "recovering p r r'" "planned r" "running r"
  shows "settled (request_tick_continuity_history now p (deliver_effects e r'))"
proof (rule settled_request)
  show "planned (deliver_effects e r')" using planned_recovering [OF assms(1-3)] by simp
  show "running (deliver_effects e r')" using assms(4) frame_eqD [OF assms(1)] by (simp add: running_def)
  show "tc_request_in_flight (tr_state (deliver_effects e r'))" using assms(2) by (simp add: recovering_def)
  show "on_grid (tr_history_interval_ms (deliver_effects e r')) (pr_to_time_ms p)" using planned_recovering [OF assms(1-3)] by simp
  show "tc_phase (tr_state (deliver_effects e r')) = CP_PREFILLING \<or> tc_phase (tr_state (deliver_effects e r')) = CP_RECOVERING"
    using assms(2) by (simp add: recovering_def)
qed

lemma settled_route_ticks:
  assumes "settled r"
  shows "settled (route_ticks now b r)"
proof (cases "running r")
  case False
  then have "route_tick_to_entry now b False True r = (r, no_effects)"
    by (auto simp: route_tick_to_entry_def running_def tick_batch_matches_stream_def)
  with assms show ?thesis by (simp add: route_ticks_def)
next
  case True
  obtain r' e where s: "route_tick_to_entry now b False True r = (r', e)" by fastforce
  note c = route_tick_cases [OF s]
  have p: "planned r" using assms by (simp add: settled_def)
  from c(2) show ?thesis
  proof (elim disjE conjE exE)
    assume "re_requests e = []" "control r' = control r"
    with s assms settled_cong(1) [OF c(1)] show ?thesis by (simp add: route_ticks_def)
  next
    assume "re_requests e = []" "overflowed r r'"
    with s settled_overflowed [OF c(1) _ p] show ?thesis by (simp add: route_ticks_def)
  next
    fix q assume "re_requests e = [q]" "recovering q r r'"
    with s settled_recovering [OF c(1) _ p True] show ?thesis by (simp add: route_ticks_def)
  qed
qed

text \<open>One turn of the flush loop, and induction over its turns.\<close>

definition popped :: "tick md_batch \<Rightarrow> tick md_batch list \<Rightarrow> tick_route \<Rightarrow> tick_route" where
  "popped b bs r = r\<lparr>tr_state := (tr_state r)\<lparr>tc_buffer := bs, tc_buffered_items := tc_buffered_items (tr_state r) - length (mb_items b)\<rparr>\<rparr>"

lemma popped_frame [simp]: "route_frame (popped b bs r) = route_frame r" "control (popped b bs r) = control r"
  "tr_calls (popped b bs r) = tr_calls r"
  by (simp_all add: popped_def route_frame_def control_def Let_def)

definition finished :: "int \<Rightarrow> tick_pending \<Rightarrow> bool \<Rightarrow> nat \<Rightarrow> tick_route \<Rightarrow> tick_route" where
  "finished now p usable delivered r =
     (let verified = (usable \<and> bm_unverified_from_time_ms (tr_state r) = 0);
          r' = r\<lparr>tr_state := (tr_state r)\<lparr>tc_phase := (if verified then CP_LIVE else CP_DEGRADED), tc_reconnect_target_time_ms := 0\<rparr>\<rparr>
      in if continuity_enabled (tco_mode (tr_options r))
         then notify_tick_continuity now (make_continuity_update (pr_subscription p)
                (if verified then CS_LIVE else CS_DEGRADED) (pr_from_time_ms p) (pr_to_time_ms p)
                (pr_requested_items p) delivered
                (if verified then ''Historical tick continuity is ready.''
                 else ''Live tick delivery continues without verified continuity.'')) r'
         else r')"

lemma flush_done:
  "tr_phase r = EP_ACTIVE \<Longrightarrow> tc_generation (tr_state r) = g \<Longrightarrow> tc_buffer (tr_state r) = [] \<Longrightarrow>
   flush_tick_buffer now p g usable delivered r = finished now p usable delivered r"
  by (subst flush_tick_buffer.simps) (simp add: finished_def Let_def)

lemma flush_turn:
  "tr_phase r = EP_ACTIVE \<Longrightarrow> tc_generation (tr_state r) = g \<Longrightarrow> tc_buffer (tr_state r) = b # bs \<Longrightarrow>
   route_tick_to_entry now b True usable (popped b bs r) = (r1, e) \<Longrightarrow>
   flush_tick_buffer now p g usable delivered r =
     (case re_requests e of q # _ \<Rightarrow> request_tick_continuity_history now q (deliver_effects e r1)
      | [] \<Rightarrow> flush_tick_buffer now p g usable delivered (deliver_effects e r1))"
  by (subst flush_tick_buffer.simps) (simp add: popped_def Let_def)

lemma flush_induct:
  assumes "\<And>r. (\<And>b bs r1 e. tc_buffer (tr_state r) = b # bs \<Longrightarrow>
      route_tick_to_entry now b True usable (popped b bs r) = (r1, e) \<Longrightarrow> re_requests e = [] \<Longrightarrow>
      P (deliver_effects e r1)) \<Longrightarrow> P r"
  shows "P r"
proof (induction "length (tc_buffer (tr_state r))" arbitrary: r rule: less_induct)
  case less
  show ?case
  proof (rule assms)
    fix b bs r1 e
    assume b: "tc_buffer (tr_state r) = b # bs" and s: "route_tick_to_entry now b True usable (popped b bs r) = (r1, e)"
      and n: "re_requests e = []"
    from route_tick_length [OF s n] have "length (tc_buffer (tr_state (deliver_effects e r1))) < length (tc_buffer (tr_state r))"
      by (simp add: popped_def b)
    then show "P (deliver_effects e r1)" by (rule less)
  qed
qed

lemma settled_flush:
  assumes "planned r" "running r" "\<not> tc_request_in_flight (tr_state r)" "tc_generation (tr_state r) = g"
  shows "settled (flush_tick_buffer now p g usable delivered r)"
  using assms
proof (induction r rule: flush_induct [where now = now and usable = usable])
  case (1 r)
  have active: "tr_phase r = EP_ACTIVE" using "1.prems" by (simp add: running_def)
  show ?case
  proof (cases "tc_buffer (tr_state r)")
    case Nil
    with flush_done [OF active "1.prems"(4) Nil] "1.prems" show ?thesis
      by (simp add: finished_def Let_def settled_def planned_def driven_def running_def)
  next
    case (Cons b bs)
    obtain r1 e where s: "route_tick_to_entry now b True usable (popped b bs r) = (r1, e)" by fastforce
    note c = route_tick_cases [OF s] and u = flush_turn [OF active "1.prems"(4) Cons s]
    note pop = popped_frame(1,2) [of b bs r]
    have pr: "planned (popped b bs r)" "running (popped b bs r)" using settled_cong [OF pop] "1.prems" by simp_all
    have fl: "\<not> tc_request_in_flight (tr_state (popped b bs r))" "tc_generation (tr_state (popped b bs r)) = g"
      using control_eqD [OF pop(2)] "1.prems" by simp_all
    show ?thesis
    proof (cases "re_requests e")
      case (Cons q qs)
      with c have q: "recovering q (popped b bs r) r1" by auto
      from settled_recovering [OF c(1) q pr] show ?thesis unfolding u Cons by simp
    next
      case Nil
      have keep: "planned r1 \<and> running r1 \<and> \<not> tc_request_in_flight (tr_state r1) \<and> tc_generation (tr_state r1) = g"
        using c(2) Nil
      proof (elim disjE conjE exE)
        assume a: "control r1 = control (popped b bs r)"
        show ?thesis using settled_cong [OF c(1) a] control_eqD [OF a] pr fl by simp
      next
        assume "overflowed (popped b bs r) r1"
        then show ?thesis using pr fl frame_eqD [OF c(1)] by (simp add: overflowed_def planned_def running_def)
      qed simp
      have "settled (flush_tick_buffer now p g usable delivered (deliver_effects e r1))"
        by (rule "1.IH" [OF Cons s Nil]) (use keep in simp_all)
      then show ?thesis unfolding u Nil by simp
    qed
  qed
qed

text \<open>The other operations.\<close>

lemma settled_start:
  assumes "planned r" "running r"
    and "tc_phase (tr_state r) = CP_PREFILLING \<Longrightarrow> tc_initial_prefill_pending (tr_state r)"
    and "tc_phase (tr_state r) \<noteq> CP_PREFILLING \<Longrightarrow> driven r"
    and "tc_request_in_flight (tr_state r) \<Longrightarrow> driven r"
  shows "settled (start_tick_continuity clk r)"
proof (cases "tc_phase (tr_state r) = CP_PREFILLING \<and> \<not> tc_request_in_flight (tr_state r)")
  case False
  with assms have "driven r" "start_tick_continuity clk r = r" by (auto simp: start_tick_continuity_def Let_def)
  with assms(1) show ?thesis by (simp add: settled_def)
next
  case True
  let ?c = "tr_state r" and ?i = "tr_history_interval_ms r"
  define now where "now = align_tick_history_start_time_ms (provider_time_ms clk) ?i"
  define original where "original = (if tc_initial_prefill_boundary_time_ms ?c = 0 then now else tc_initial_prefill_boundary_time_ms ?c)"
  define current where "current = max original now"
  define c1 where "c1 = ?c\<lparr>tc_initial_prefill_boundary_time_ms := original, tc_reconnect_target_time_ms := current\<rparr>"
  define asked where "asked = (if original > tco_prefill_lookback_ms (tr_options r) then original - tco_prefill_lookback_ms (tr_options r) else 1)"
  define start where "start = align_tick_history_start_time_ms asked ?i"
  define a where "a = (if start = 0 \<and> ?i > 0 \<and> current \<ge> ?i then ?i else start)"
  define e where "e = bounded_tick_history_to_time_ms a current (tco_max_backfill_ms (tr_options r)) ?i"
  define z where "z = (if e < a \<and> ?i > 0 then a else e)"
  have grid: "on_grid ?i original" "on_grid ?i a" "on_grid ?i z"
    using assms(1) by (simp_all add: original_def now_def a_def start_def z_def e_def on_grid_bounded planned_def)
  have guard: "\<not> (tr_phase r \<noteq> EP_ACTIVE \<or> sd_type (tr_stream r) \<noteq> MDT_TICKS \<or> \<not> tc_initial_prefill_pending ?c
      \<or> tc_phase ?c \<noteq> CP_PREFILLING \<or> tco_prefill_lookback_ms (tr_options r) = 0 \<or> tc_request_in_flight ?c)"
    using assms True by (auto simp: running_def planned_def)
  have le: "\<not> z < a"
  proof (cases "?i = 0")
    case False
    then show ?thesis by (simp add: z_def word_gt_0)
  next
    case True
    have c: "current \<noteq> 0" using True by (auto simp: current_def now_def align_tick_history_start_time_ms_def max_def)
    have o: "original \<le> current" by (simp add: current_def)
    have a: "a = asked" using True by (simp add: a_def start_def align_tick_history_start_time_ms_def)
    have "asked \<le> current"
    proof (cases "original > tco_prefill_lookback_ms (tr_options r)")
      case True
      then have "original - tco_prefill_lookback_ms (tr_options r) \<le> original" by (simp add: word_le_nat_alt word_less_nat_alt unat_sub)
      with o True show ?thesis by (simp add: asked_def)
    next
      case False
      have "1 \<le> current" using c by (simp add: word_le_nat_alt unat_gt_0 Suc_le_eq)
      with False show ?thesis by (simp add: asked_def)
    qed
    then have "unat asked \<le> unat e" using True unat_u64_less [of asked]
      by (simp add: e_def a unat_bounded Let_def word_le_nat_alt)
    then show ?thesis using True by (simp add: z_def a word_less_nat_alt)
  qed
  have s: "start_tick_continuity clk r =
     (let r1 = r\<lparr>tr_state := c1\<rparr>;
          p = \<lparr>pr_subscription = tr_subscription r,
            pr_request = \<lparr>thr_symbol = sd_symbol (tr_stream r), thr_from_time_ms = a, thr_to_time_ms = z, thr_source = THS_LOCAL_OBSERVED\<rparr>,
            pr_kind = CRK_PREFILL, pr_announce_gap = False, pr_from_time_ms = a, pr_to_time_ms = z,
            pr_requested_items = 0, pr_attempt = 1\<rparr>
      in request_tick_continuity_history (rk_now clk) p
           (notify_tick_continuity (rk_now clk) (make_continuity_update (tr_subscription r) CS_PREFILLING a z 0 0
             ''Requesting observed tick history prefill.'') (r1\<lparr>tr_state := c1\<lparr>tc_phase := CP_PREFILLING, tc_request_in_flight := True\<rparr>\<rparr>)))"
    unfolding start_tick_continuity_def Let_def if_not_P [OF guard]
    using le by (simp add: c1_def z_def e_def a_def start_def asked_def current_def original_def now_def cong: if_cong)
  show ?thesis
    unfolding s Let_def
    by (rule settled_request) (use assms(1,2) grid in \<open>simp_all add: planned_def running_def c1_def\<close>)
qed

lemma recovery_out:
  assumes "planned r" "running r" "tc_phase (tr_state r) = CP_RECOVERING" "recovers_gaps (tco_mode (tr_options r))"
    and "\<not> tc_initial_prefill_pending (tr_state r)" "\<not> tc_request_in_flight (tr_state r)"
  shows "settled (start_tick_reconnect_recovery clk r)"
    and "asking (start_tick_reconnect_recovery clk r) \<or> \<not> buffers_live_data (tc_phase (tr_state (start_tick_reconnect_recovery clk r)))"
proof -
  let ?c = "tr_state r" and ?i = "tr_history_interval_ms r"
  have act: "\<not> (tr_phase r \<noteq> EP_ACTIVE \<or> sd_type (tr_stream r) \<noteq> MDT_TICKS)" using assms(2) by (simp add: running_def)
  have go: "\<not> (tc_phase (tr_state r) \<noteq> CP_RECOVERING \<or> \<not> recovers_gaps (tco_mode (tr_options r))
    \<or> tc_initial_prefill_pending (tr_state r) \<or> tc_request_in_flight (tr_state r))" using assms(3-6) by simp
  define observed where "observed = max (bm_last_observed_time_ms ?c) (latest_time (buffered_ticks ?c))"
  define target where "target = max observed (provider_time_ms clk)"
  define start where "start = (if bm_unverified_from_time_ms ?c \<noteq> 0 then bm_unverified_from_time_ms ?c
    else if bm_verified_through_time_ms ?c > 0 then bm_verified_through_time_ms ?c
    else if earliest_time (buffered_ticks ?c) > 0 then earliest_time (buffered_ticks ?c) else observed)"
  define a where "a = align_tick_history_start_time_ms start ?i"
  define e where "e = bounded_tick_history_to_time_ms a target (tco_max_backfill_ms (tr_options r)) ?i"
  define z where "z = (if e < a \<and> ?i > 0 then a else e)"
  have grid: "on_grid ?i z" by (simp add: z_def e_def a_def on_grid_bounded)
  note s = start_tick_reconnect_recovery_def [of clk r, unfolded Let_def if_not_P [OF act] if_not_P [OF go],
      folded observed_def, folded target_def start_def, folded a_def, folded e_def, folded z_def]
  have "settled (start_tick_reconnect_recovery clk r) \<and> (asking (start_tick_reconnect_recovery clk r)
    \<or> \<not> buffers_live_data (tc_phase (tr_state (start_tick_reconnect_recovery clk r))))"
  proof (cases "a = 0 \<or> a > target")
    case True
    show ?thesis unfolding s if_P [OF True]
      using assms by (simp add: settled_def planned_def driven_def running_def buffers_live_data_def)
  next
    case a: False
    have le: "\<not> z < a"
    proof (cases "?i = 0")
      case True
      then have "unat a \<le> unat e" using a unat_u64_less [of a]
        by (simp add: e_def unat_bounded Let_def word_le_nat_alt not_less)
      then show ?thesis using True by (simp add: z_def word_less_nat_alt)
    next
      case False
      then show ?thesis by (simp add: z_def word_gt_0)
    qed
    define r1 where "r1 = r\<lparr>tr_state := ?c\<lparr>tc_reconnect_target_time_ms := target, tc_phase := CP_RECOVERING, tc_request_in_flight := True\<rparr>\<rparr>"
    have r1: "planned r1" "running r1" "tc_request_in_flight (tr_state r1)" "tc_phase (tr_state r1) = CP_RECOVERING"
      "tr_history_interval_ms r1 = ?i"
      using assms(1,2) by (simp_all add: r1_def planned_def running_def)
    show ?thesis unfolding s if_not_P [OF a] if_not_P [OF le] r1_def [symmetric]
      using settled_request [OF r1(1-3)] asking_request(1) [OF r1(2,3)] r1(4,5) grid by simp
  qed
  then show "settled (start_tick_reconnect_recovery clk r)"
    and "asking (start_tick_reconnect_recovery clk r) \<or> \<not> buffers_live_data (tc_phase (tr_state (start_tick_reconnect_recovery clk r)))"
    by blast+
qed

lemma settled_recovery:
  assumes "planned r" "running r" "driven r"
  shows "settled (start_tick_reconnect_recovery clk r)"
proof (cases "tc_phase (tr_state r) \<noteq> CP_RECOVERING \<or> \<not> recovers_gaps (tco_mode (tr_options r))
    \<or> tc_initial_prefill_pending (tr_state r) \<or> tc_request_in_flight (tr_state r)")
  case True
  with assms show ?thesis by (simp add: start_tick_reconnect_recovery_def settled_def Let_def)
qed (use assms recovery_out in blast)

lemma start_frame [simp]:
  "tc_phase (tr_state (start_tick_continuity clk r)) = tc_phase (tr_state r)"
  "tc_retry_request (tr_state (start_tick_continuity clk r)) = tc_retry_request (tr_state r)"
  "tr_phase (start_tick_continuity clk r) = tr_phase r"
  "tr_stream (start_tick_continuity clk r) = tr_stream r"
  by (simp_all add: start_tick_continuity_def Let_def)

lemma prefill_out:
  assumes "planned r" "running r" "tc_phase (tr_state r) = CP_PREFILLING" "tc_initial_prefill_pending (tr_state r)"
    and "\<not> tc_request_in_flight (tr_state r)" "tc_retry_request (tr_state r) = None"
  shows "asking (start_tick_continuity clk r)"
proof -
  have "settled (start_tick_continuity clk r)" by (rule settled_start) (use assms in simp_all)
  then have d: "driven (start_tick_continuity clk r)" using assms(2) by (simp add: settled_def running_def)
  with assms have "tc_request_in_flight (tr_state (start_tick_continuity clk r))" by (simp add: driven_def)
  with d show ?thesis by (rule driven_asking)
qed

lemma verified_range_frame [simp]:
  "tc_phase (record_tick_verified_range a z c) = tc_phase c"
  "tc_initial_prefill_pending (record_tick_verified_range a z c) = tc_initial_prefill_pending c"
  "tc_request_in_flight (record_tick_verified_range a z c) = tc_request_in_flight c"
  "tc_buffer (record_tick_verified_range a z c) = tc_buffer c"
  "tc_buffered_items (record_tick_verified_range a z c) = tc_buffered_items c"
  "tc_initial_prefill_boundary_time_ms (record_tick_verified_range a z c) = tc_initial_prefill_boundary_time_ms c"
  "tc_generation (record_tick_verified_range a z c) = tc_generation c"
  "tc_reconnect_target_time_ms (record_tick_verified_range a z c) = tc_reconnect_target_time_ms c"
  "tc_retry_request (record_tick_verified_range a z c) = tc_retry_request c"
  "tm_last_delivered_tick_observations (record_tick_verified_range a z c) = tm_last_delivered_tick_observations c"
  "tc_monitor (record_tick_verified_range a z c) = tc_monitor c"
  by (simp_all add: record_tick_verified_range_def)

text \<open>What the middle of a completion leaves alone.\<close>

definition plan :: "tick_route \<Rightarrow> _" where
  "plan r = (let c = tr_state r in (tr_options r, tc_phase c, tc_request_in_flight c,
     tc_initial_prefill_boundary_time_ms c, tc_generation c, tc_retry_request c, tr_operations r))"

lemma settle_frame:
  "route_frame (settle_tick_range now p usable n m r) = route_frame r" "plan (settle_tick_range now p usable n m r) = plan r"
  "tc_initial_prefill_pending (tr_state (settle_tick_range now p usable n m r)) \<Longrightarrow> tc_initial_prefill_pending (tr_state r)"
  "tc_buffer (tr_state (settle_tick_range now p usable n m r)) = tc_buffer (tr_state r)"
  "tc_initial_prefill_pending (tr_state (settle_tick_range now p usable n m r)) \<Longrightarrow> usable \<or> pr_kind p \<noteq> CRK_PREFILL"
  by (auto simp: settle_tick_range_def route_frame_def plan_def Let_def split: if_splits)

lemma deliver_history_frame:
  assumes "deliver_tick_history b usable r = (n, r')"
  shows "route_frame r' = route_frame r" "plan r' = plan r"
    "tc_initial_prefill_pending (tr_state r') = tc_initial_prefill_pending (tr_state r)"
  using assms by (auto simp: deliver_tick_history_def route_frame_def plan_def Let_def split: if_splits)

lemma planned_plan:
  assumes "route_frame r' = route_frame r" "plan r' = plan r" "planned r"
    and "tc_initial_prefill_pending (tr_state r') \<Longrightarrow> tc_initial_prefill_pending (tr_state r)"
  shows "planned r'"
  using assms frame_eqD [OF assms(1)] by (auto simp: planned_def plan_def Let_def)

text \<open>A usable answer never ends in a dead end: ranges that end on the grid make progress.\<close>

lemma next_chunk_cases:
  assumes "planned r" "on_grid (tr_history_interval_ms r) (pr_to_time_ms p)"
  shows "next_tick_chunk p usable r \<noteq> Stop"
    "next_tick_chunk p usable r = Request q \<Longrightarrow> on_grid (tr_history_interval_ms r) (pr_to_time_ms q) \<and> pr_kind q = pr_kind p \<and> pr_attempt q = 1 \<and> usable"
proof -
  let ?i = "tr_history_interval_ms r" and ?m = "tco_max_backfill_ms (tr_options r)"
  define h where "h = align_tick_history_end_time_ms (tc_reconnect_target_time_ms (tr_state r)) ?i"
  define target where "target = (if pr_kind p = CRK_PREFILL \<and> \<not> h > 0 then tc_initial_prefill_boundary_time_ms (tr_state r) else h)"
  have grid: "on_grid ?i target" using assms(1) by (simp add: target_def h_def planned_def)
  note s = next_tick_chunk_def [of p usable r, unfolded Let_def, folded h_def, folded target_def]
  have "next_tick_chunk p usable r \<noteq> Stop \<and>
    (\<forall>q. next_tick_chunk p usable r = Request q \<longrightarrow> on_grid ?i (pr_to_time_ms q) \<and> pr_kind q = pr_kind p \<and> pr_attempt q = 1 \<and> usable)"
  proof (cases "\<not> usable \<or> \<not> target > pr_to_time_ms p")
    case True
    then show ?thesis by (simp add: s)
  next
    case False
    then have lt: "pr_to_time_ms p < target" by simp
    from next_range_step [OF assms(2) grid lt, of ?m] obtain x y where
      n: "next_tick_history_range (pr_to_time_ms p) target ?m ?i = Some (x, y)" and y: "on_grid ?i y" "pr_to_time_ms p < y"
      and xy: "pr_to_time_ms p \<le> x" by blast
    have "\<not> y < x" using n by (auto simp: next_tick_history_range_def Let_def split: if_splits)
    then show ?thesis unfolding s using False n y by auto
  qed
  then show "next_tick_chunk p usable r \<noteq> Stop"
    "next_tick_chunk p usable r = Request q \<Longrightarrow> on_grid ?i (pr_to_time_ms q) \<and> pr_kind q = pr_kind p \<and> pr_attempt q = 1 \<and> usable"
    by blast+
qed

lemma settled_complete:
  assumes "planned r" "running r" "on_grid (tr_history_interval_ms r) (pr_to_time_ms p)"
    and "\<not> (tc_request_in_flight (tr_state r) \<and> tc_generation (tr_state r) = g) \<Longrightarrow> driven r"
  shows "settled (complete_tick_continuity now p g result r)"
proof (cases "tc_request_in_flight (tr_state r) \<and> tc_generation (tr_state r) = g")
  case False
  with assms show ?thesis by (auto simp: complete_tick_continuity_def settled_def Let_def)
next
  case True
  have guard: "\<not> (tr_phase r \<noteq> EP_ACTIVE \<or> sd_type (tr_stream r) \<noteq> MDT_TICKS \<or> \<not> tc_request_in_flight (tr_state r)
      \<or> tc_generation (tr_state r) \<noteq> g)"
    using True assms(2) by (simp add: running_def)
  define r0 where "r0 = r\<lparr>tr_state := (tr_state r)\<lparr>tc_request_in_flight := False, tc_phase := CP_FLUSHING\<rparr>\<rparr>"
  have r0: "planned r0" "running r0" "\<not> tc_request_in_flight (tr_state r0)" "tc_generation (tr_state r0) = g"
    "tr_history_interval_ms r0 = tr_history_interval_ms r"
    using assms True by (simp_all add: r0_def planned_def running_def)
  note s = complete_tick_continuity_def [of now p g result r, unfolded Let_def if_not_P [OF guard], folded r0_def]
  show ?thesis
  proof (cases "\<not> hr_success result \<and> pr_attempt p < unat (crp_max_attempts (tco_retry (tr_options r0)))")
    case True
    show ?thesis unfolding s if_P [OF True]
      using r0 assms(3) by (auto simp: schedule_tick_retry_def settled_def planned_def driven_def running_def)
  next
    case retry: False
    obtain history usable message where j: "judge_tick_history p result r0 = (history, usable, message)" by (metis prod_cases3)
    define items where "items = (case history of None \<Rightarrow> [] | Some batch \<Rightarrow> mb_items batch)"
    define r1 where "r1 = settle_tick_range now p usable (length items) message r0"
    obtain n r2 where d: "(case history of None \<Rightarrow> (0, r1) | Some batch \<Rightarrow> deliver_tick_history batch usable r1) = (n, r2)" by fastforce
    have r1: "route_frame r1 = route_frame r0" "plan r1 = plan r0"
      "tc_initial_prefill_pending (tr_state r1) \<Longrightarrow> tc_initial_prefill_pending (tr_state r0)"
      unfolding r1_def by (fact settle_frame(1), fact settle_frame(2), fact settle_frame(3))
    have r2: "route_frame r2 = route_frame r1" "plan r2 = plan r1"
      "tc_initial_prefill_pending (tr_state r2) = tc_initial_prefill_pending (tr_state r1)"
      using d deliver_history_frame [of _ usable r1 n r2] by (auto split: option.splits)
    have p2: "planned r2" by (rule planned_plan [OF _ _ r0(1)]) (use r1 r2 in auto)
    have run2: "running r2" using r0(2) frame_eqD [OF r2(1)] frame_eqD [OF r1(1)] by (simp add: running_def)
    have f2: "\<not> tc_request_in_flight (tr_state r2)" "tc_generation (tr_state r2) = g"
      using r0(3,4) r1(2) r2(2) by (simp_all add: plan_def Let_def)
    have g2: "on_grid (tr_history_interval_ms r2) (pr_to_time_ms p)"
      using assms(3) r0(5) frame_eqD [OF r2(1)] frame_eqD [OF r1(1)] by simp
    note s2 = s [unfolded if_not_P [OF retry] j prod.case, folded items_def, folded r1_def, unfolded d prod.case]
    show ?thesis
    proof (cases "next_tick_chunk p usable r2")
      case Stop
      with next_chunk_cases(1) [OF p2 g2] show ?thesis by simp
    next
      case Flush
      show ?thesis unfolding s2 Flush next_chunk.case
        by (rule settled_flush) (use p2 run2 f2 in \<open>auto simp: planned_def running_def\<close>)
    next
      case (Request q)
      note q = next_chunk_cases(2) [OF p2 g2 Request]
      show ?thesis unfolding s2 Request next_chunk.case request_next_tick_chunk_def Let_def
        by (rule settled_request) (use p2 run2 q in \<open>auto simp: planned_def running_def\<close>)
    qed
  qed
qed

lemma settled_lose:
  assumes "planned r" "running r" "continuity_enabled (tco_mode (tr_options r))"
    and "tc_initial_prefill_pending (tr_state r) \<or> recovers_gaps (tco_mode (tr_options r))"
  shows "settled (fst (lose_transport now r))"
  using assms by (auto simp: lose_transport_def settled_def planned_def driven_def running_def Let_def)

lemma planned_lose: "planned r \<Longrightarrow> planned (fst (lose_transport now r))"
  by (simp add: lose_transport_def planned_def Let_def)

lemma lose_frame:
  "route_frame (fst (lose_transport now r)) = route_frame r" "tr_options (fst (lose_transport now r)) = tr_options r"
  "tc_phase (tr_state (fst (lose_transport now r))) = CP_WAITING_FOR_READY"
  "tr_calls (fst (lose_transport now r)) = tr_calls r"
  "tc_buffer (tr_state (fst (lose_transport now r))) = tc_buffer (tr_state r)"
  "tm_last_delivered_tick_observations (tr_state (fst (lose_transport now r))) = tm_last_delivered_tick_observations (tr_state r)"
  by (simp_all add: lose_transport_def route_frame_def Let_def)

text \<open>A status, before the restart that it asks for.\<close>

lemma apply_status_settled:
  assumes "settled r" "running r" "apply_stream_status now status r = (r', us, how)"
  shows "planned r'" "running r'" "how = No_restart \<Longrightarrow> driven r'" "how = Restart_recovery \<Longrightarrow> driven r'"
    "how = Restart_prefill \<Longrightarrow> tc_phase (tr_state r') = CP_PREFILLING \<and> tc_initial_prefill_pending (tr_state r')
       \<and> \<not> tc_request_in_flight (tr_state r')"
proof -
  define lost where "lost \<longleftrightarrow> continuity_enabled (tco_mode (tr_options r))
    \<and> (tc_initial_prefill_pending (tr_state r) \<or> recovers_gaps (tco_mode (tr_options r))) \<and> invalidates_continuity status"
  define r1 where "r1 = fst (if lost then lose_transport now r else (r, []))"
  have s1: "settled r1"
  proof (cases lost)
    case True
    with assms(1,2) have "planned r" "continuity_enabled (tco_mode (tr_options r))"
      "tc_initial_prefill_pending (tr_state r) \<or> recovers_gaps (tco_mode (tr_options r))"
      by (simp_all add: settled_def lost_def)
    with True settled_lose [OF _ assms(2)] show ?thesis by (simp add: r1_def)
  qed (use assms(1) in \<open>simp add: r1_def\<close>)
  have fr: "route_frame r1 = route_frame r" "tr_options r1 = tr_options r" by (simp_all add: r1_def lose_frame)
  have run1: "running r1" using assms(2) frame_eqD [OF fr(1)] by (simp add: running_def)
  have d1: "driven r1" "planned r1" using s1 run1 by (simp_all add: settled_def)
  obtain us1 where l: "(if lost then lose_transport now r else (r, [])) = (r1, us1)"
    by (cases "if lost then lose_transport now r else (r, [])") (simp add: r1_def)
  note s = assms(3) [unfolded apply_stream_status_def Let_def, folded lost_def, unfolded l prod.case]
  have "planned r' \<and> running r' \<and> (how \<noteq> Restart_prefill \<longrightarrow> driven r') \<and>
    (how = Restart_prefill \<longrightarrow> tc_phase (tr_state r') = CP_PREFILLING \<and> tc_initial_prefill_pending (tr_state r')
       \<and> \<not> tc_request_in_flight (tr_state r'))"
  proof (cases "continuity_enabled (tco_mode (tr_options r)) \<and> status = STS_READY
      \<and> tc_phase (tr_state r1) = CP_WAITING_FOR_READY \<and> \<not> tc_request_in_flight (tr_state r1)")
    case False
    with s d1 run1 show ?thesis by (auto split: if_splits)
  next
    case True
    with s d1 run1 fr(2) show ?thesis
      by (auto simp: planned_def running_def driven_def split: if_splits)
  qed
  then show "planned r'" "running r'" "how = No_restart \<Longrightarrow> driven r'" "how = Restart_recovery \<Longrightarrow> driven r'"
    "how = Restart_prefill \<Longrightarrow> tc_phase (tr_state r') = CP_PREFILLING \<and> tc_initial_prefill_pending (tr_state r')
       \<and> \<not> tc_request_in_flight (tr_state r')"
    by blast+
qed

lemma apply_status_frame:
  assumes "apply_stream_status now status r = (r', us, how)"
  shows "route_frame r' = route_frame r" "planned r \<Longrightarrow> planned r'" "tr_calls r' = tr_calls r"
    "tc_buffer (tr_state r') = tc_buffer (tr_state r)"
    "tm_last_delivered_tick_observations (tr_state r') = tm_last_delivered_tick_observations (tr_state r)"
    "tr_options r' = tr_options r"
proof -
  let ?lost = "continuity_enabled (tco_mode (tr_options r))
    \<and> (tc_initial_prefill_pending (tr_state r) \<or> recovers_gaps (tco_mode (tr_options r))) \<and> invalidates_continuity status"
  obtain r1 us1 where l: "(if ?lost then lose_transport now r else (r, [])) = (r1, us1)" by fastforce
  have r1: "r1 = (if ?lost then fst (lose_transport now r) else r)" using l by (auto split: if_splits)
  have f: "route_frame r1 = route_frame r" "planned r \<Longrightarrow> planned r1" "tr_calls r1 = tr_calls r"
    "tc_buffer (tr_state r1) = tc_buffer (tr_state r)" "tr_options r1 = tr_options r"
    "tm_last_delivered_tick_observations (tr_state r1) = tm_last_delivered_tick_observations (tr_state r)"
    by (simp_all add: r1 lose_frame planned_lose)
  consider ph where "r' = r1\<lparr>tr_state := (tr_state r1)\<lparr>tc_phase := ph\<rparr>\<rparr>" | "r' = r1"
    using assms unfolding apply_stream_status_def Let_def l prod.case by (auto split: if_splits)
  then have "route_frame r' = route_frame r1 \<and> (planned r1 \<longrightarrow> planned r') \<and> tr_calls r' = tr_calls r1
      \<and> tc_buffer (tr_state r') = tc_buffer (tr_state r1)
      \<and> tm_last_delivered_tick_observations (tr_state r') = tm_last_delivered_tick_observations (tr_state r1)
      \<and> tr_options r' = tr_options r1"
  proof cases
    case 1
    then show ?thesis by (simp add: route_frame_def planned_def)
  qed simp
  with f show "route_frame r' = route_frame r" "planned r \<Longrightarrow> planned r'" "tr_calls r' = tr_calls r"
    "tc_buffer (tr_state r') = tc_buffer (tr_state r)"
    "tm_last_delivered_tick_observations (tr_state r') = tm_last_delivered_tick_observations (tr_state r)"
    "tr_options r' = tr_options r"
    by simp_all
qed

lemma driven_tell [simp]: "driven (tell calls r) = driven r" "driven (record_tick_continuity_update now u r) = driven r"
  by (simp_all add: driven_def)

text \<open>A planned retry goes out with the first turn after its time.\<close>

lemma retry_goes_out:
  assumes "running r" "\<not> tc_request_in_flight (tr_state r)" "tc_retry_request (tr_state r) = Some p"
    and "tc_retry_at (tr_state r) \<le> rk_now clk"
  shows "asking (process_tick_route clk r)"
    "(p, tc_generation (tr_state (process_tick_route clk r))) \<in> set (tr_operations (process_tick_route clk r))"
  using assms
  by (auto simp: process_tick_route_def Let_def running_def asking_def request_operations)

text \<open>A route that recovers asks with the next turn, or has nothing to ask for and releases its buffer mode.\<close>

lemma recovery_goes_out:
  assumes "planned r" "running r" "\<not> tc_request_in_flight (tr_state r)" "tc_retry_request (tr_state r) = None"
    "tc_phase (tr_state r) = CP_RECOVERING" "recovers_gaps (tco_mode (tr_options r))" "\<not> tc_initial_prefill_pending (tr_state r)"
  shows "asking (process_tick_route clk r) \<or> \<not> buffers_live_data (tc_phase (tr_state (process_tick_route clk r)))"
proof -
  have "process_tick_route clk r = start_tick_reconnect_recovery clk r"
    using assms(2-7) by (simp add: process_tick_route_def Let_def running_def)
  with recovery_out(2) [OF assms(1,2,5,6,7,3)] show ?thesis by simp
qed

lemma asking_tell [simp]: "asking (tell calls r) = asking r" "asking (record_tick_continuity_update now u r) = asking r"
  by (simp_all add: asking_def)

lemma ready_restarts:
  assumes "planned r" "running r" "\<not> tc_request_in_flight (tr_state r)" "tc_retry_request (tr_state r) = None"
    "tc_phase (tr_state r) = CP_WAITING_FOR_READY" "continuity_enabled (tco_mode (tr_options r))"
    "tc_initial_prefill_pending (tr_state r) \<or> recovers_gaps (tco_mode (tr_options r))"
    and u: "status_matches_stream u (tr_stream r)" "su_status u = STS_READY"
  shows "asking (route_status clk u r) \<or> \<not> buffers_live_data (tc_phase (tr_state (route_status clk u r)))"
proof (cases "tc_initial_prefill_pending (tr_state r)")
  case True
  have "asking (start_tick_continuity clk (tell calls (r\<lparr>tr_state := (tr_state r)\<lparr>tc_phase := CP_PREFILLING\<rparr>\<rparr>)))" for calls
    by (rule prefill_out) (use assms True in \<open>simp_all add: planned_def running_def\<close>)
  then show ?thesis
    using assms True by (simp add: route_status_def apply_stream_status_def invalidates_continuity_def restart_route_def running_def Let_def)
next
  case False
  have "asking (start_tick_reconnect_recovery clk (tell calls (r\<lparr>tr_state := (tr_state r)\<lparr>tc_phase := CP_RECOVERING\<rparr>\<rparr>)))
    \<or> \<not> buffers_live_data (tc_phase (tr_state (start_tick_reconnect_recovery clk (tell calls (r\<lparr>tr_state := (tr_state r)\<lparr>tc_phase := CP_RECOVERING\<rparr>\<rparr>)))))" for calls
    by (rule recovery_out(2)) (use assms False in \<open>simp_all add: planned_def running_def\<close>)
  then show ?thesis
    using assms False by (simp add: route_status_def apply_stream_status_def invalidates_continuity_def restart_route_def running_def Let_def)
qed

lemma settled_restart:
  assumes "planned r" "running r" "how \<noteq> Restart_prefill \<Longrightarrow> driven r"
    and "how = Restart_prefill \<Longrightarrow> tc_phase (tr_state r) = CP_PREFILLING \<and> tc_initial_prefill_pending (tr_state r)
       \<and> \<not> tc_request_in_flight (tr_state r)"
  shows "settled (restart_route clk how r)"
proof (cases how)
  case No_restart
  with assms show ?thesis by (simp add: restart_route_def settled_def)
next
  case Restart_prefill
  then show ?thesis unfolding restart_route_def restart.case Restart_prefill
    by (intro settled_start) (use assms Restart_prefill in auto)
next
  case Restart_recovery
  with assms settled_recovery show ?thesis by (simp add: restart_route_def)
qed

lemma settled_status:
  assumes "settled r"
  shows "settled (route_status clk update r)"
proof (cases "tr_phase r \<noteq> EP_ACTIVE \<or> \<not> status_matches_stream update (tr_stream r)")
  case True
  with assms show ?thesis by (auto simp: route_status_def)
next
  case active: False
  obtain r' us how where s: "apply_stream_status (rk_now clk) (su_status update) r = (r', us, how)" by (metis prod_cases3)
  show ?thesis
  proof (cases "running r")
    case True
    note a = apply_status_settled [OF assms True s]
    have "settled (restart_route clk how (tell calls r'))" for calls
    proof (rule settled_restart)
      show "planned (tell calls r')" "running (tell calls r')" using a(1,2) by simp_all
      show "driven (tell calls r')" if "how \<noteq> Restart_prefill" using that a(3,4) by (cases how) simp_all
      show "tc_phase (tr_state (tell calls r')) = CP_PREFILLING \<and> tc_initial_prefill_pending (tr_state (tell calls r'))
        \<and> \<not> tc_request_in_flight (tr_state (tell calls r'))" if "how = Restart_prefill"
        using a(5) [OF that] by simp
    qed
    with active s show ?thesis by (simp add: route_status_def)
  next
    case False
    then have type: "sd_type (tr_stream r) \<noteq> MDT_TICKS" using active by (simp add: running_def)
    note fr = apply_status_frame(1) [OF s] and pl = apply_status_frame(2) [OF s]
    have nr: "\<not> running (tell calls r')" for calls using False frame_eqD [OF fr] by (simp add: running_def)
    have "restart_route clk how (tell calls r') = tell calls r'" for calls
      using type frame_eqD [OF fr] active
      by (cases how) (simp_all add: restart_route_def start_tick_continuity_def start_tick_reconnect_recovery_def Let_def)
    with active s pl nr assms show ?thesis by (simp add: route_status_def settled_def)
  qed
qed

lemma settled_process:
  assumes "settled r"
  shows "settled (process_tick_route clk r)"
proof (cases "running r")
  case False
  then have e: "(tr_phase r = EP_ACTIVE \<and> sd_type (tr_stream r) = MDT_TICKS) = False" by (simp add: running_def)
  have "process_tick_route clk r = r"
    unfolding process_tick_route_def Let_def e by (cases "tc_retry_request (tr_state r)") simp_all
  with assms show ?thesis by simp
next
  case True
  with assms have p: "planned r" and d: "driven r" by (simp_all add: settled_def)
  have el: "tr_phase r = EP_ACTIVE" "sd_type (tr_stream r) = MDT_TICKS" using True by (simp_all add: running_def)
  show ?thesis
  proof (cases "\<exists>q. tc_retry_request (tr_state r) = Some q \<and> \<not> tc_request_in_flight (tr_state r) \<and> tc_retry_at (tr_state r) \<le> rk_now clk")
    case due: True
    then obtain q where q: "tc_retry_request (tr_state r) = Some q" "\<not> tc_request_in_flight (tr_state r)"
      "tc_retry_at (tr_state r) \<le> rk_now clk" by blast
    have g: "on_grid (tr_history_interval_ms r) (pr_to_time_ms q)" using p q(1) by (simp add: planned_def)
    have "settled (request_tick_continuity_history (rk_now clk) q (r\<lparr>tr_state := (tr_state r)
      \<lparr>tc_phase := (if pr_kind q = CRK_PREFILL then CP_PREFILLING else CP_RECOVERING),
       tc_retry_request := None, tc_retry_at := 0, tc_request_in_flight := True\<rparr>\<rparr>))"
      by (rule settled_request) (use p True g in \<open>simp_all add: planned_def running_def\<close>)
    with q el show ?thesis by (simp add: process_tick_route_def Let_def)
  next
    case False
    have s: "process_tick_route clk r = (if recovers_gaps (tco_mode (tr_options r)) \<and> tc_phase (tr_state r) = CP_RECOVERING
        \<and> \<not> tc_initial_prefill_pending (tr_state r) \<and> \<not> tc_request_in_flight (tr_state r) \<and> tc_retry_request (tr_state r) = None
      then start_tick_reconnect_recovery clk r else r)"
    proof (cases "tc_retry_request (tr_state r)")
      case None
      with el show ?thesis by (simp add: process_tick_route_def Let_def)
    next
      case (Some q)
      with False have "tc_request_in_flight (tr_state r) \<or> \<not> tc_retry_at (tr_state r) \<le> rk_now clk" by simp
      with Some el show ?thesis by (elim disjE) (simp_all add: process_tick_route_def Let_def)
    qed
    show ?thesis unfolding s using settled_recovery [OF p True d] assms by simp
  qed
qed

lemma settled_step:
  assumes "settled r"
  shows "settled (tick_step r (clk, e))"
proof (cases e)
  case (Answer k result)
  show ?thesis
  proof (cases "k < length (tr_operations r)")
    case True
    obtain p g where op: "tr_operations r ! k = (p, g)" by fastforce
    define r0 where "r0 = r\<lparr>tr_operations := take k (tr_operations r) @ drop (Suc k) (tr_operations r)\<rparr>"
    have ops: "tr_operations r = take k (tr_operations r) @ (p, g) # drop (Suc k) (tr_operations r)"
      using id_take_nth_drop [OF True] op by simp
    have "set (tr_operations r) = set (take k (tr_operations r) @ (p, g) # drop (Suc k) (tr_operations r))"
      using arg_cong [OF ops, of set] .
    then have split: "set (tr_operations r) = insert (p, g) (set (tr_operations r0))" by (simp add: r0_def)
    have "planned r" using assms by (simp add: settled_def)
    then have g: "on_grid (tr_history_interval_ms r0) (pr_to_time_ms p)"
      and "list_all (\<lambda>q. on_grid (tr_history_interval_ms r) (pr_to_time_ms (fst q))) (tr_operations r0)"
      using split by (simp_all add: planned_def list_all_iff r0_def)
    with \<open>planned r\<close> have pl: "planned r0" by (simp add: planned_def r0_def)
    show ?thesis
    proof (cases "running r")
      case run: True
      then have "running r0" by (simp add: running_def r0_def)
      moreover have "driven r0" if "\<not> (tc_request_in_flight (tr_state r0) \<and> tc_generation (tr_state r0) = g)"
        using assms run that split by (auto simp: settled_def driven_def r0_def)
      ultimately have "settled (complete_tick_continuity (rk_now clk) p g result r0)"
        using settled_complete [OF pl _ g] by blast
      with Answer True op show ?thesis by (simp add: r0_def)
    next
      case False
      then have "complete_tick_continuity (rk_now clk) p g result r0 = r0"
        by (auto simp: complete_tick_continuity_def running_def r0_def)
      moreover have "\<not> running r0" using False by (simp add: running_def r0_def)
      ultimately show ?thesis using Answer True op pl by (simp add: r0_def settled_def)
    qed
  qed (use assms Answer in simp)
next
  case Expire
  with assms show ?thesis by (simp add: settled_def planned_def driven_def running_def)
next
  case Release
  with assms show ?thesis by (simp add: settled_def planned_def driven_def running_def release_tick_route_def Let_def)
qed (use assms settled_route_ticks settled_status settled_process in simp_all)

text \<open>The start of a route.\<close>

lemma tell_updates_frame [simp]:
  "settled (fold (\<lambda>u r. tell [Tick_continuity u] (record_tick_continuity_update now u r)) us r) = settled r"
  by (induction us arbitrary: r) simp_all

lemma settled_activate: "settled (activate_tick_route clk h replay (make_tick_route pm i request))"
proof -
  let ?r = "make_tick_route pm i request"
  define r where "r = ?r\<lparr>tr_phase := EP_ACTIVE, tr_stream := stream_from_handle h, tr_subscription := h\<rparr>"
  define prefill where "prefill = (\<lambda>r. if sd_type (tr_stream r) = MDT_TICKS \<and> tco_prefill_lookback_ms (tr_options r) > 0
    then start_tick_continuity clk r else r)"
  have r: "planned r" "\<not> tc_request_in_flight (tr_state r)" "tr_release_requested ?r = False" "tr_release_requested r = False"
    "tc_phase (tr_state r) = CP_LIVE \<or> tc_phase (tr_state r) = CP_PREFILLING \<and> tc_initial_prefill_pending (tr_state r)
       \<and> tco_prefill_lookback_ms (tr_options r) > 0"
    by (simp_all add: r_def planned_def make_tick_route_def tick_continuity_state_default_def Let_def word_gt_0)
  have start: "settled (prefill r')"
    if "planned r'" "running r' \<Longrightarrow> driven r' \<or> tc_phase (tr_state r') = CP_PREFILLING \<and> tc_initial_prefill_pending (tr_state r')
      \<and> \<not> tc_request_in_flight (tr_state r') \<and> tco_prefill_lookback_ms (tr_options r') > 0" for r'
  proof (cases "running r'")
    case False
    then have "prefill r' = r'" by (simp add: prefill_def start_tick_continuity_def running_def Let_def)
    with that(1) False show ?thesis by (simp add: settled_def)
  next
    case True
    from that(2) [OF True] show ?thesis
    proof
      assume d: "driven r'"
      show ?thesis
      proof (cases "tc_initial_prefill_pending (tr_state r')")
        case p: True
        have "settled (start_tick_continuity clk r')" by (rule settled_start [OF that(1) True]) (use d p in simp_all)
        with d True that(1) show ?thesis by (simp add: prefill_def settled_def)
      next
        case False
        then have "start_tick_continuity clk r' = r'" by (simp add: start_tick_continuity_def Let_def)
        with d that(1) show ?thesis by (simp add: prefill_def settled_def)
      qed
    next
      assume "tc_phase (tr_state r') = CP_PREFILLING \<and> tc_initial_prefill_pending (tr_state r')
        \<and> \<not> tc_request_in_flight (tr_state r') \<and> tco_prefill_lookback_ms (tr_options r') > 0"
      with True settled_start [OF that(1) True] show ?thesis by (simp add: prefill_def running_def)
    qed
  qed
  have none: "settled (prefill r)"
    by (rule start) (use r in \<open>auto simp: driven_def\<close>)
  show ?thesis
  proof (cases replay)
    case None
    with none r(3) show ?thesis by (simp add: activate_tick_route_def prefill_def r_def Let_def)
  next
    case (Some st)
    obtain r1 us how where s: "apply_stream_status (rk_now clk) (su_status st) r = (r1, us, how)" by (metis prod_cases3)
    have ph: "tc_phase (tr_state r) \<noteq> CP_WAITING_FOR_READY" using r(5) by auto
    let ?lost = "continuity_enabled (tco_mode (tr_options r))
      \<and> (tc_initial_prefill_pending (tr_state r) \<or> recovers_gaps (tco_mode (tr_options r))) \<and> invalidates_continuity (su_status st)"
    have r1: "how = No_restart \<and> r1 = (if ?lost then fst (lose_transport (rk_now clk) r) else r)"
    proof (cases ?lost)
      case True
      then have n: "(su_status st = STS_READY) = False" by (auto simp: invalidates_continuity_def)
      obtain x us1 where l: "lose_transport (rk_now clk) r = (x, us1)" by fastforce
      from s [unfolded apply_stream_status_def Let_def if_P [OF True] l prod.case n] have "r1 = x" "how = No_restart" by simp_all
      with True l show ?thesis by simp
    next
      case False
      have n: "(tc_phase (tr_state r) = CP_WAITING_FOR_READY) = False" using ph by simp
      from s [unfolded apply_stream_status_def Let_def if_not_P [OF False] prod.case n] have "r1 = r" "how = No_restart" by simp_all
      then show ?thesis unfolding if_not_P [OF False] by simp
    qed
    have "settled (prefill r1)"
    proof (cases ?lost)
      case False
      with none r1 show ?thesis by simp
    next
      case True
      show ?thesis
      proof (rule start)
        show "planned r1" using r1 True planned_lose [OF r(1)] by simp
        assume run: "running r1"
        have "running r" using run r1 True frame_eqD [OF lose_frame(1) [of "rk_now clk" r]] by (simp add: running_def)
        with settled_lose [OF r(1) this] True r1 run show "driven r1 \<or> tc_phase (tr_state r1) = CP_PREFILLING
          \<and> tc_initial_prefill_pending (tr_state r1) \<and> \<not> tc_request_in_flight (tr_state r1) \<and> tco_prefill_lookback_ms (tr_options r1) > 0"
          by (simp add: settled_def)
      qed
    qed
    moreover have "how = No_restart" using r1 by simp
    ultimately show ?thesis
      using Some s r(4) by (simp add: activate_tick_route_def restart_route_def Let_def r_def [symmetric] prefill_def [symmetric])
  qed
qed

lemma settled_run: "settled (foldl tick_step (activate_tick_route clk h replay (make_tick_route pm i request)) es)"
proof (induction es rule: rev_induct)
  case Nil
  then show ?case by (simp add: settled_activate)
next
  case (snoc e es)
  then show ?case by (cases e) (simp add: settled_step)
qed


end
