(* ===== verification/TickLedger.thy ===== *)
theory TickLedger
  imports TickRouteLaws
begin

section \<open>No live tick is lost\<close>

text \<open>
  A ledger of the ticks of a route: what came in from the live stream is delivered, or waits in the buffer, or was
  dropped because the history that was delivered contains the same observation.
\<close>

subsection \<open>The ledger\<close>

text \<open>A tick without the marks that the router puts on it.\<close>

definition observation :: "tick \<Rightarrow> tick" where
  "observation t = t\<lparr>tk_flags := 0\<rparr>"

primrec live_of :: "tick_route_call \<Rightarrow> tick list" where
  "live_of (Live_ticks b) = mb_items b"
| "live_of (History_ticks b) = []"
| "live_of (Tick_continuity u) = []"
| "live_of (Tick_status s) = []"

primrec history_of :: "tick_route_call \<Rightarrow> tick list" where
  "history_of (Live_ticks b) = []"
| "history_of (History_ticks b) = mb_items b"
| "history_of (Tick_continuity u) = []"
| "history_of (Tick_status s) = []"

definition live_ticks :: "tick_route \<Rightarrow> tick list" where
  "live_ticks r = concat (map live_of (tr_calls r))"

definition history_ticks :: "tick_route \<Rightarrow> tick list" where
  "history_ticks r = concat (map history_of (tr_calls r))"

text \<open>What is delivered, about to be delivered in this turn (\<open>ds\<close>), or buffered.\<close>

definition ledger :: "tick list \<Rightarrow> tick_route \<Rightarrow> tick multiset" where
  "ledger ds r = mset (map observation (live_ticks r @ ds @ buffered_ticks (tr_state r)))"

definition told :: "tick list \<Rightarrow> tick_route \<Rightarrow> tick list" where
  "told ds r = live_ticks r @ history_ticks r @ ds"

text \<open>What the state remembers was delivered, and what it holds back belongs to its stream.\<close>

definition honest :: "tick list \<Rightarrow> tick_route \<Rightarrow> bool" where
  "honest ds r \<longleftrightarrow>
     (\<forall>u. seen_key (tr_mode r) (tm_last_delivered_tick_observations (tr_state r)) u \<longrightarrow> seen_key (tr_mode r) (told ds r) u)
     \<and> (\<forall>b \<in> set (tc_buffer (tr_state r)). tick_batch_matches_stream b (tr_stream r))"

definition open_route :: "tick_route \<Rightarrow> bool" where
  "open_route r \<longleftrightarrow> tr_phase r = EP_ACTIVE \<and> tr_subscriber_alive r \<and> \<not> tr_release_requested r"

lemma observation_marks [simp]: "observation (t\<lparr>tk_flags := f\<rparr>) = observation t"
  by (simp add: observation_def)

lemma map_observation_marks [simp]: "map (observation \<circ> (\<lambda>t. t\<lparr>tk_flags := f t\<rparr>)) ts = map observation ts"
  by (induction ts) simp_all

lemma mset_observation_marks [simp]: "image_mset (observation \<circ> (\<lambda>t. t\<lparr>tk_flags := f t\<rparr>)) M = image_mset observation M"
  by (induction M) simp_all

lemma same_observation_marks [simp]:
  "same_tick_observation (s\<lparr>tk_flags := f\<rparr>) t m = same_tick_observation s t m"
  "same_tick_observation s (t\<lparr>tk_flags := f\<rparr>) m = same_tick_observation s t m"
  by (cases m; simp add: same_tick_observation_def tick_observation_key_def Let_def)+

lemma seen_key_marks [simp]: "seen_key m (map (\<lambda>t. t\<lparr>tk_flags := f t\<rparr>) ts) u = seen_key m ts u"
  by (induction ts) (simp_all add: seen_key_def)

lemma seen_key_mem: "seen_key m xs u \<longleftrightarrow> (\<exists>x \<in> set xs. same_tick_observation x u m)"
  by (auto simp: seen_key_def list_ex_iff)

text \<open>Recording progress remembers only what it is given.\<close>

lemma record_progress_seen:
  assumes "seen_key m (tm_last_delivered_tick_observations (record_tick_progress m ts c)) u"
  shows "seen_key m (tm_last_delivered_tick_observations c) u \<or> seen_key m ts u"
proof -
  have "seen_key m (filter P ts) u \<Longrightarrow> seen_key m ts u" for P by (auto simp: seen_key_mem)
  with assms show ?thesis
    by (auto simp: record_tick_progress_def Let_def add_observations_seen split: if_splits)
qed

lemma record_progress_fold_seen:
  "seen_key m (tm_last_delivered_tick_observations (fold (\<lambda>b. record_tick_progress m (mb_items b)) bs c)) u \<Longrightarrow>
   seen_key m (tm_last_delivered_tick_observations c) u \<or> seen_key m (concat (map mb_items bs)) u"
proof (induction bs arbitrary: c)
  case (Cons b bs)
  from Cons.IH [of "record_tick_progress m (mb_items b) c"] Cons.prems record_progress_seen [of m "mb_items b" c u]
  show ?case by auto
qed simp

lemma calls_frame [simp]:
  "live_ticks (record_tick_continuity_update now u r) = live_ticks r" "history_ticks (record_tick_continuity_update now u r) = history_ticks r"
  "live_ticks (notify_tick_continuity now u r) = live_ticks r" "history_ticks (notify_tick_continuity now u r) = history_ticks r"
  "live_ticks (tick_progress ts r) = live_ticks r" "history_ticks (tick_progress ts r) = history_ticks r"
  by (simp_all add: live_ticks_def history_ticks_def notify_tick_continuity_def Let_def)

lemma request_calls [simp]:
  "live_ticks (request_tick_continuity_history now p r) = live_ticks r"
  "history_ticks (request_tick_continuity_history now p r) = history_ticks r"
proof -
  have "live_ticks (r\<lparr>tr_state := c, tr_operations := ops\<rparr>) = live_ticks r"
    "history_ticks (r\<lparr>tr_state := c, tr_operations := ops\<rparr>) = history_ticks r" for c ops
    by (simp_all add: live_ticks_def history_ticks_def)
  then show "live_ticks (request_tick_continuity_history now p r) = live_ticks r"
    "history_ticks (request_tick_continuity_history now p r) = history_ticks r"
    by (cases "pr_kind p"; simp add: request_tick_continuity_history_def Let_def)+
qed

lemma deliver_calls [simp]:
  "live_ticks (deliver_effects e r) = live_ticks r @ concat (map mb_items (re_deliveries e))"
  "history_ticks (deliver_effects e r) = history_ticks r"
  by (simp_all add: live_ticks_def history_ticks_def deliver_effects_def comp_def)

definition handed :: "tick_effects \<Rightarrow> tick list" where
  "handed e = concat (map mb_items (re_deliveries e))"

text \<open>The deliveries of a turn move from the pending part of the ledger into the delivered one.\<close>

lemma deliver_ledger:
  "ledger [] (deliver_effects e r) = ledger (handed e) r" "honest [] (deliver_effects e r) = honest (handed e) r"
  "told [] (deliver_effects e r) = live_ticks r @ handed e @ history_ticks r"
  by (auto simp: ledger_def honest_def told_def handed_def)

lemma request_ledger [simp]:
  "ledger ds (request_tick_continuity_history now p r) = ledger ds r"
  "honest ds (request_tick_continuity_history now p r) = honest ds r"
  "told ds (request_tick_continuity_history now p r) = told ds r"
  "open_route (request_tick_continuity_history now p r) = open_route r"
  by (simp_all add: ledger_def honest_def told_def buffered_ticks_def open_route_def)

lemma notify_ledger [simp]:
  "ledger ds (notify_tick_continuity now u r) = ledger ds r" "honest ds (notify_tick_continuity now u r) = honest ds r"
  "told ds (notify_tick_continuity now u r) = told ds r" "open_route (notify_tick_continuity now u r) = open_route r"
  by (simp_all add: ledger_def honest_def told_def buffered_ticks_def open_route_def)

lemma deliver_open [simp]: "open_route (deliver_effects e r) = open_route r"
  by (simp add: open_route_def)

subsection \<open>Live batches keep the ledger\<close>

lemma buffer_ledger:
  assumes "buffer_tick_continuity_batch now b front r = (ok, r', e)"
  shows "ledger (ds @ handed e) r' = ledger ds r + mset (map observation (mb_items b))"
    "honest ds r \<Longrightarrow> tick_batch_matches_stream b (tr_stream r) \<Longrightarrow> honest (ds @ handed e) r'"
    "live_ticks r' = live_ticks r" "history_ticks r' = history_ticks r"
proof -
  define m where "m = b\<lparr>mb_items := map (\<lambda>t. t\<lparr>tk_flags := mark_live_payload (tk_flags t) True\<rparr>) (mb_items b)\<rparr>"
  have m: "image_mset observation (mset (mb_items m)) = image_mset observation (mset (mb_items b))"
    "tick_batch_matches_stream m s = tick_batch_matches_stream b s" for s
    by (simp_all add: m_def tick_batch_matches_stream_def multiset.map_comp)
  note s = assms [unfolded buffer_tick_continuity_batch_def Let_def, folded m_def]
  have calls: "live_ticks (r\<lparr>tr_state := c, tr_options := opt\<rparr>) = live_ticks r" "history_ticks (r\<lparr>tr_state := c, tr_options := opt\<rparr>) = history_ticks r"
    "live_ticks (r\<lparr>tr_state := c\<rparr>) = live_ticks r" "history_ticks (r\<lparr>tr_state := c\<rparr>) = history_ticks r" for c opt
    by (simp_all add: live_ticks_def history_ticks_def)
  have "ledger (ds @ handed e) r' = ledger ds r + mset (map observation (mb_items b)) \<and>
    (honest ds r \<longrightarrow> tick_batch_matches_stream b (tr_stream r) \<longrightarrow> honest (ds @ handed e) r') \<and>
    live_ticks r' = live_ticks r \<and> history_ticks r' = history_ticks r"
  proof (cases ok)
    case True
    with s have "r' = r\<lparr>tr_state := (tr_state r)\<lparr>tc_buffer := (if front then m # tc_buffer (tr_state r) else tc_buffer (tr_state r) @ [m]),
        tc_buffered_items := tc_buffered_items (tr_state r) + length (mb_items m)\<rparr>\<rparr>" and "e = no_effects"
      by (auto split: if_splits)
    then show ?thesis using m
      by (auto simp: ledger_def honest_def told_def handed_def buffered_ticks_def calls)
  next
    case False
    with s have e: "re_deliveries e = tc_buffer (tr_state r) @ [m]"
      and r': "live_ticks r' = live_ticks r" "history_ticks r' = history_ticks r" "tr_mode r' = tr_mode r"
        "tc_buffer (tr_state r') = []" "tm_last_delivered_tick_observations (tr_state r') =
          tm_last_delivered_tick_observations (fold (\<lambda>b. record_tick_progress (tr_mode r) (mb_items b)) (tc_buffer (tr_state r) @ [m]) (tr_state r))"
      by (auto simp: calls split: if_splits)
    have "honest (ds @ handed e) r'" if h: "honest ds r"
      using record_progress_fold_seen [of "tr_mode r" "tc_buffer (tr_state r) @ [m]" "tr_state r"] h
      by (auto simp: honest_def told_def handed_def e r')
    then show ?thesis using m by (simp add: ledger_def handed_def buffered_ticks_def e r')
  qed
  then show "ledger (ds @ handed e) r' = ledger ds r + mset (map observation (mb_items b))"
    "honest ds r \<Longrightarrow> tick_batch_matches_stream b (tr_stream r) \<Longrightarrow> honest (ds @ handed e) r'"
    "live_ticks r' = live_ticks r" "history_ticks r' = history_ticks r"
    by blast+
qed

lemma progress_ledger:
  "ledger (ds @ ts) (tick_progress ts r) = ledger ds r + mset (map observation ts)"
  "honest ds r \<Longrightarrow> honest (ds @ ts) (tick_progress ts r)"
proof -
  show "ledger (ds @ ts) (tick_progress ts r) = ledger ds r + mset (map observation ts)"
    by (simp add: ledger_def buffered_ticks_def)
  assume h: "honest ds r"
  have "seen_key (tr_mode r) (tm_last_delivered_tick_observations (tr_state (tick_progress ts r))) u \<Longrightarrow>
    seen_key (tr_mode r) (told ds r) u \<or> seen_key (tr_mode r) ts u" for u
    using record_progress_seen [of "tr_mode r" ts "tr_state r" u] h by (auto simp: tick_progress_def honest_def)
  with h show "honest (ds @ ts) (tick_progress ts r)" by (auto simp: honest_def told_def)
qed

lemma find_gap_later: "find_tick_gap interval previous i ts = Some (k, p, t) \<Longrightarrow> p < tk_time_ms t"
proof (induction interval previous i ts rule: find_tick_gap.induct)
  case (2 interval previous i x xs)
  have le: "previous \<le> (if previous \<le> u64_max - interval then previous + interval else u64_max)"
  proof (cases "previous \<le> u64_max - interval")
    case True
    then have "unat previous + unat interval \<le> 18446744073709551615"
      using unat_sub [of interval u64_max] unat_u64_less [of interval] by (simp add: word_le_nat_alt)
    with unat_add_fits [of previous interval] True show ?thesis by (simp add: word_le_nat_alt)
  qed simp
  from 2 le show ?case by (auto simp: Let_def split: if_splits)
qed simp

lemma bounded_not_before: "previous < t \<Longrightarrow> unat previous \<le> unat (bounded_tick_history_to_time_ms previous t m 0)"
  using unat_u64_less [of previous] by (auto simp: unat_bounded Let_def word_less_nat_alt)

lemma recover_gap_ledger:
  assumes "recover_tick_gap now b pb i previous t r = (r', e)" "previous < tk_time_ms t"
  shows "ledger (handed e) r' = ledger [] r + mset (map observation (mb_items b))"
    "honest [] r \<Longrightarrow> tick_batch_matches_stream b (tr_stream r) \<Longrightarrow> honest (handed e) r'"
    "live_ticks r' = live_ticks r" "history_ticks r' = history_ticks r"
proof -
  let ?i = "tr_history_interval_ms r"
  define fr where "fr = align_tick_history_start_time_ms previous ?i"
  define to where "to = bounded_tick_history_to_time_ms fr (tk_time_ms t) (tco_max_backfill_ms (tr_options r)) ?i"
  define to' where "to' = (if to < fr \<and> ?i > 0 then fr else to)"
  define r1 where "r1 = (if i > 0 then tick_progress (take i (mb_items b)) r else r)"
  define pre where "pre = (if i > 0 then take i (mb_items b) else [])"
  have pre: "pre = take i (mb_items b)" by (simp add: pre_def)
  have le: "\<not> to' < fr"
  proof (cases "?i = 0")
    case True
    with bounded_not_before [OF assms(2)] show ?thesis
      by (simp add: to'_def to_def fr_def align_tick_history_start_time_ms_def word_less_nat_alt not_less)
  qed (simp add: to'_def word_gt_0)
  have l1: "ledger pre r1 = ledger [] r + mset (map observation pre)" "honest [] r \<Longrightarrow> honest pre r1"
    "tr_stream r1 = tr_stream r" "live_ticks r1 = live_ticks r" "history_ticks r1 = history_ticks r"
    using progress_ledger(1) [of "[]" "take i (mb_items b)" r] progress_ledger(2) [of "[]" r "take i (mb_items b)"] by (simp_all add: r1_def pre_def)
  obtain ok r2 e2 where bb: "buffer_tick_continuity_batch now (b\<lparr>mb_items := drop i (mb_items b)\<rparr>) pb r1 = (ok, r2, e2)"
    by (metis prod_cases3)
  then have b': "buffer_tick_continuity_batch now (b\<lparr>mb_items := drop i (mb_items b)\<rparr>) pb
      (if 0 < i then tick_progress (mb_items (b\<lparr>mb_items := take i (mb_items b)\<rparr>)) r else r) = (ok, r2, e2)"
    by (cases "0 < i") (simp_all add: r1_def)
  note s = assms(1) [unfolded recover_tick_gap_def Let_def, folded fr_def, folded to_def, folded to'_def,
      unfolded if_not_P [OF le] b' prod.case]
  note l2 = buffer_ledger(1,2) [OF bb, of pre] buffer_ledger(3,4) [OF bb]
  have total: "ledger (pre @ handed e2) r2 = ledger [] r + mset (map observation (mb_items b))"
    unfolding l2(1) l1(1) by (simp add: pre flip: image_mset_union mset_append)
  have h2: "honest (pre @ handed e2) r2" if "honest [] r" "tick_batch_matches_stream b (tr_stream r)"
    by (rule l2(2) [OF l1(2) [OF that(1)]]) (use that(2) l1(3) in \<open>simp add: tick_batch_matches_stream_def\<close>)
  have e2: "ok \<Longrightarrow> handed e2 = []"
    using bb by (auto simp: buffer_tick_continuity_batch_def Let_def handed_def split: if_splits)
  have "ledger (handed e) r' = ledger (pre @ handed e2) r2 \<and> (honest (pre @ handed e2) r2 \<longrightarrow> honest (handed e) r') \<and>
    live_ticks r' = live_ticks r2 \<and> history_ticks r' = history_ticks r2"
  proof (cases ok)
    case False
    with s show ?thesis by (auto simp: handed_def pre_def split: if_splits)
  next
    case True
    with s have d: "handed e = pre" by (auto simp: handed_def pre_def split: if_splits)
    from True s show ?thesis unfolding d e2 [OF True] append_Nil2
      by (auto simp: ledger_def honest_def told_def live_ticks_def history_ticks_def buffered_ticks_def split: if_splits)
  qed
  with total h2 l1(4,5) l2(3,4) show "ledger (handed e) r' = ledger [] r + mset (map observation (mb_items b))"
    "honest [] r \<Longrightarrow> tick_batch_matches_stream b (tr_stream r) \<Longrightarrow> honest (handed e) r'"
    "live_ticks r' = live_ticks r" "history_ticks r' = history_ticks r"
    by simp_all
qed

lemma route_tick_ledger:
  assumes "route_tick_to_entry now b pb allow r = (r', e)" "open_route r" "tick_batch_matches_stream b (tr_stream r)"
  shows "ledger (handed e) r' = ledger [] r + mset (map observation (mb_items b))"
    "honest [] r \<Longrightarrow> honest (handed e) r'" "live_ticks r' = live_ticks r" "history_ticks r' = history_ticks r"
    "route_frame r' = route_frame r"
proof -
  define routed where "routed = b\<lparr>mb_subscription := tr_subscription r,
    mb_items := map (\<lambda>t. t\<lparr>tk_flags := mark_live_payload (tk_flags t) pb\<rparr>) (mb_items b)\<rparr>"
  have m: "mset (map observation (mb_items routed)) = mset (map observation (mb_items b))"
    "tick_batch_matches_stream routed (tr_stream r)"
    using assms(3) by (simp_all add: routed_def tick_batch_matches_stream_def multiset.map_comp)
  have f: "\<not> (tr_phase r \<noteq> EP_ACTIVE \<or> \<not> tick_batch_matches_stream b (tr_stream r))" "\<not> \<not> tr_subscriber_alive r"
    using assms(2,3) by (simp_all add: open_route_def)
  note s = assms(1) [unfolded route_tick_to_entry_def Let_def, folded routed_def, unfolded if_not_P [OF f(1)] if_not_P [OF f(2)]]
  have "ledger (handed e) r' = ledger [] r + mset (map observation (mb_items b)) \<and>
    (honest [] r \<longrightarrow> honest (handed e) r') \<and> live_ticks r' = live_ticks r \<and> history_ticks r' = history_ticks r"
  proof (cases "mb_items b = []")
    case True
    with s show ?thesis by (simp add: handed_def)
  next
    case ne: False
    note s1 = s [unfolded if_not_P [OF ne]]
    show ?thesis
    proof (cases "continuity_enabled (tco_mode (tr_options r)) \<and> \<not> pb \<and> buffers_live_data (tc_phase (tr_state r))")
      case True
      obtain ok r2 e2 where bb: "buffer_tick_continuity_batch now routed False r = (ok, r2, e2)" by (metis prod_cases3)
      have eq: "r' = r2" "e = e2" using s1 [unfolded if_P [OF True] bb prod.case] by simp_all
      note bl = buffer_ledger(1,2) [OF bb, of "[]"] buffer_ledger(3,4) [OF bb]
      show ?thesis unfolding eq using bl m by simp
    next
      case no: False
      note s2 = s1 [unfolded if_not_P [OF no]]
      show ?thesis
      proof (cases "if allow \<and> recovers_gaps (tco_mode (tr_options r)) \<and> \<not> tc_request_in_flight (tr_state r)
              \<and> tco_expected_interval_ms (tr_options r) > 0 \<and> bm_last_observed_time_ms (tr_state r) > 0
            then find_tick_gap (tco_expected_interval_ms (tr_options r)) (bm_last_observed_time_ms (tr_state r)) 0 (mb_items routed) else None")
        case None
        from s2 [unfolded None option.case] have eq: "r' = tick_progress (mb_items routed) r" "handed e = mb_items routed"
          by (auto simp: handed_def)
        show ?thesis unfolding eq
          using progress_ledger(1) [of "[]" "mb_items routed" r] progress_ledger(2) [of "[]" r "mb_items routed"] m by simp
      next
        case (Some g)
        obtain i p t where g: "g = (i, p, t)" by (metis prod_cases3)
        from Some g have "find_tick_gap (tco_expected_interval_ms (tr_options r)) (bm_last_observed_time_ms (tr_state r)) 0 (mb_items routed) = Some (i, p, t)"
          by (simp split: if_splits)
        note rg = recover_gap_ledger [OF _ find_gap_later [OF this]]
        from s2 [unfolded Some g option.case prod.case] have "recover_tick_gap now routed pb i p t r = (r', e)" .
        from rg [OF this] m show ?thesis by simp
      qed
    qed
  qed
  with route_tick_cases(1) [OF assms(1)] show "ledger (handed e) r' = ledger [] r + mset (map observation (mb_items b))"
    "honest [] r \<Longrightarrow> honest (handed e) r'" "live_ticks r' = live_ticks r" "history_ticks r' = history_ticks r"
    "route_frame r' = route_frame r"
    by simp_all
qed

subsection \<open>Accounting for a turn\<close>

text \<open>Between two states of a route: the ticks that came in are in the ledger, less those whose observation the subscriber has seen.\<close>

definition accounts :: "tick list \<Rightarrow> tick_route \<Rightarrow> tick_route \<Rightarrow> bool" where
  "accounts ins r r' \<longleftrightarrow>
     (\<exists>dropped. ledger [] r' + mset (map observation dropped) = ledger [] r + mset (map observation ins)
        \<and> list_all (seen_key (tr_mode r) (told [] r')) dropped)
     \<and> set (told [] r) \<subseteq> set (told [] r') \<and> route_frame r' = route_frame r \<and> (honest [] r \<longrightarrow> honest [] r')"

lemma seen_mono: "set xs \<subseteq> set ys \<Longrightarrow> seen_key m xs u \<Longrightarrow> seen_key m ys u"
  by (auto simp: seen_key_mem)

lemma accounts_same:
  assumes "ledger [] r' = ledger [] r + mset (map observation ins)" "set (told [] r) \<subseteq> set (told [] r')" "route_frame r' = route_frame r"
    "honest [] r \<Longrightarrow> honest [] r'"
  shows "accounts ins r r'"
  unfolding accounts_def by (intro conjI exI [of _ "[]"]) (use assms in simp_all)

lemma accounts_refl: "accounts [] r r"
  by (rule accounts_same) simp_all

lemma add_chain:
  fixes a :: "'a :: ab_semigroup_add"
  assumes "a + d2 = b + y" "b + d1 = c + x"
  shows "a + (d1 + d2) = c + (x + y)"
proof -
  have "a + (d1 + d2) = (a + d2) + d1" by (simp only: ac_simps)
  also have "\<dots> = (b + d1) + y" unfolding assms(1) by (simp only: ac_simps)
  finally show ?thesis by (simp only: assms(2) ac_simps)
qed

lemma accounts_trans:
  assumes "accounts xs r r1" "accounts ys r1 r2"
  shows "accounts (xs @ ys) r r2"
proof -
  from assms obtain d1 d2 where d: "ledger [] r1 + mset (map observation d1) = ledger [] r + mset (map observation xs)"
      "list_all (seen_key (tr_mode r) (told [] r1)) d1"
      "ledger [] r2 + mset (map observation d2) = ledger [] r1 + mset (map observation ys)"
      "list_all (seen_key (tr_mode r1) (told [] r2)) d2"
    and f: "set (told [] r) \<subseteq> set (told [] r1)" "set (told [] r1) \<subseteq> set (told [] r2)" "route_frame r1 = route_frame r"
      "route_frame r2 = route_frame r1" "honest [] r \<longrightarrow> honest [] r2"
    unfolding accounts_def by blast
  have "ledger [] r2 + mset (map observation (d1 @ d2)) = ledger [] r + mset (map observation (xs @ ys))"
    unfolding map_append mset_append by (rule add_chain [OF d(3,1)])
  moreover have "list_all (seen_key (tr_mode r) (told [] r2)) (d1 @ d2)"
    using d(2,4) f(2) frame_eqD(6) [OF f(3)] by (auto simp: list_all_iff intro: seen_mono)
  ultimately show ?thesis unfolding accounts_def using f by (intro conjI exI [of _ "d1 @ d2"]) auto
qed

lemma accounts_open: "accounts ins r r' \<Longrightarrow> open_route r \<Longrightarrow> open_route r'"
  by (auto simp: accounts_def open_route_def dest: frame_eqD)

lemma accounts_honest: "accounts ins r r' \<Longrightarrow> honest [] r \<Longrightarrow> honest [] r'"
  by (simp add: accounts_def)

text \<open>A live batch, delivered or buffered.\<close>

lemma accounts_live:
  assumes "route_tick_to_entry now b pb allow r = (r', e)" "open_route r" "tick_batch_matches_stream b (tr_stream r)"
  shows "accounts (mb_items b) r (deliver_effects e r')"
  by (rule accounts_same)
    (use route_tick_ledger [OF assms] in \<open>auto simp: deliver_ledger told_def route_frame_def\<close>)

lemma accounts_request: "accounts [] r (request_tick_continuity_history now p r)"
  by (rule accounts_same) (auto simp: route_frame_def)

lemma accounts_notify: "accounts [] r (notify_tick_continuity now u r)"
  by (rule accounts_same) (auto simp: route_frame_def)

text \<open>Steps that deliver no ticks and leave the buffer and the remembered observations alone.\<close>

definition quiet :: "tick_route \<Rightarrow> tick_route \<Rightarrow> bool" where
  "quiet r r' \<longleftrightarrow> route_frame r' = route_frame r \<and> live_ticks r' = live_ticks r \<and> history_ticks r' = history_ticks r
     \<and> tr_options r' = tr_options r \<and> tc_buffer (tr_state r') = tc_buffer (tr_state r)
     \<and> tc_buffered_items (tr_state r') = tc_buffered_items (tr_state r)
     \<and> tm_last_delivered_tick_observations (tr_state r') = tm_last_delivered_tick_observations (tr_state r)"

lemma accounts_quiet: "quiet r r' \<Longrightarrow> accounts [] r r'"
  using frame_eqD [of r' r] by (intro accounts_same) (simp_all add: quiet_def ledger_def told_def honest_def buffered_ticks_def)

lemma quiet_refl [simp]: "quiet r r"
  by (simp add: quiet_def)

lemma quiet_trans: "quiet r r1 \<Longrightarrow> quiet r1 r2 \<Longrightarrow> quiet r r2"
  by (simp add: quiet_def)

lemma quiet_state:
  assumes "tc_buffer c = tc_buffer (tr_state r)" "tc_buffered_items c = tc_buffered_items (tr_state r)"
    "tm_last_delivered_tick_observations c = tm_last_delivered_tick_observations (tr_state r)"
  shows "quiet r (r\<lparr>tr_state := c\<rparr>)"
  using assms by (simp add: quiet_def route_frame_def live_ticks_def history_ticks_def)

lemma quiet_request [simp]: "quiet r (request_tick_continuity_history now p r1) = quiet r r1"
  by (simp add: quiet_def route_frame_def)

lemma quiet_notify [simp]: "quiet r (notify_tick_continuity now u r1) = quiet r r1"
  by (simp add: quiet_def route_frame_def)

lemma quiet_record [simp]: "quiet r (record_tick_continuity_update now u r1) = quiet r r1"
  by (simp add: quiet_def route_frame_def)

lemma tell_calls:
  "live_ticks (tell calls r) = live_ticks r @ (if tr_subscriber_alive r then concat (map live_of calls) else [])"
  "history_ticks (tell calls r) = history_ticks r @ (if tr_subscriber_alive r then concat (map history_of calls) else [])"
  by (simp_all add: tell_def live_ticks_def history_ticks_def)

lemma quiet_tell [simp]: "concat (map live_of calls) = [] \<Longrightarrow> concat (map history_of calls) = [] \<Longrightarrow> quiet r (tell calls r1) = quiet r r1"
  by (simp only: quiet_def route_frame_def tell_calls tell_frame if_cancel append_Nil2)

lemma quiet_start: "quiet r (start_tick_continuity clk r)"
  by (simp add: start_tick_continuity_def quiet_state Let_def)

lemma quiet_recovery: "quiet r (start_tick_reconnect_recovery clk r)"
  by (simp add: start_tick_reconnect_recovery_def quiet_state Let_def)

lemma quiet_lose: "quiet r (fst (lose_transport now r))"
  by (simp add: lose_transport_def quiet_state Let_def)

lemma quiet_status:
  assumes "apply_stream_status now status r = (r', us, how)"
  shows "quiet r r'"
proof -
  let ?lost = "continuity_enabled (tco_mode (tr_options r))
    \<and> (tc_initial_prefill_pending (tr_state r) \<or> recovers_gaps (tco_mode (tr_options r))) \<and> invalidates_continuity status"
  obtain r1 us1 where l: "(if ?lost then lose_transport now r else (r, [])) = (r1, us1)" by fastforce
  have "r1 = (if ?lost then fst (lose_transport now r) else r)" using l by (auto split: if_splits)
  then have q: "quiet r r1" by (simp add: quiet_lose)
  note s = assms [unfolded apply_stream_status_def Let_def l prod.case]
  have "quiet r1 r'" using s by (auto simp: quiet_state split: if_splits)
  with q show ?thesis by (rule quiet_trans)
qed

lemma quiet_restart: "quiet r (restart_route clk how r)"
  by (cases how) (simp_all add: restart_route_def quiet_start quiet_recovery)

lemma quiet_route_status: "quiet r (route_status clk update r)"
proof (cases "tr_phase r \<noteq> EP_ACTIVE \<or> \<not> status_matches_stream update (tr_stream r)")
  case True
  then show ?thesis by (auto simp: route_status_def)
next
  case active: False
  obtain r' us how where s: "apply_stream_status (rk_now clk) (su_status update) r = (r', us, how)" by (metis prod_cases3)
  have none: "concat (map live_of (Tick_status u # map Tick_continuity us)) = []"
    "concat (map history_of (Tick_status u # map Tick_continuity us)) = []" for u
    by (induction us) simp_all
  have "quiet r (tell (Tick_status u # map Tick_continuity us) r')" for u
    using quiet_status [OF s] none by simp
  then have "quiet r (restart_route clk how (tell (Tick_status u # map Tick_continuity us) r'))" for u
    by (rule quiet_trans [OF _ quiet_restart])
  then show ?thesis unfolding route_status_def if_not_P [OF active] s Let_def prod.case .
qed

lemma quiet_process: "quiet r (process_tick_route clk r)"
  unfolding process_tick_route_def Let_def
  by (cases "tc_retry_request (tr_state r)")
    (auto intro!: quiet_trans [OF _ quiet_recovery] simp: quiet_state)

text \<open>Flushing.\<close>

lemma accounts_popped:
  assumes "tc_buffer (tr_state r) = b # bs" "accounts (mb_items b) (popped b bs r) r'"
  shows "accounts [] r r'"
proof -
  have "ledger [] r = ledger [] (popped b bs r) + mset (map observation (mb_items b))"
    by (simp add: ledger_def popped_def live_ticks_def buffered_ticks_def assms(1))
  moreover have "told [] (popped b bs r) = told [] r" "honest [] r \<longrightarrow> honest [] (popped b bs r)"
    by (simp_all add: told_def live_ticks_def history_ticks_def honest_def popped_def assms(1))
  moreover have "tr_mode (popped b bs r) = tr_mode r" using frame_eqD(6) [OF popped_frame(1)] .
  ultimately show ?thesis using assms(2) by (simp add: accounts_def)
qed

lemma quiet_finished: "quiet r (finished now p usable n r)"
  by (simp add: finished_def quiet_state Let_def)

lemma accounts_flush:
  assumes "open_route r" "honest [] r" "tc_generation (tr_state r) = g"
  shows "accounts [] r (flush_tick_buffer now p g usable n r)"
  using assms
proof (induction r rule: flush_induct [where now = now and usable = usable])
  case (1 r)
  have active: "tr_phase r = EP_ACTIVE" using "1.prems" by (simp add: open_route_def)
  show ?case
  proof (cases "tc_buffer (tr_state r)")
    case Nil
    show ?thesis unfolding flush_done [OF active "1.prems"(3) Nil] by (rule accounts_quiet [OF quiet_finished])
  next
    case (Cons b bs)
    obtain r1 e where s: "route_tick_to_entry now b True usable (popped b bs r) = (r1, e)" by fastforce
    note u = flush_turn [OF active "1.prems"(3) Cons s]
    have op: "open_route (popped b bs r)" using "1.prems"(1) by (simp add: open_route_def popped_def)
    have mt: "tick_batch_matches_stream b (tr_stream (popped b bs r))" using "1.prems"(2) Cons by (simp add: honest_def popped_def)
    have a: "accounts [] r (deliver_effects e r1)" by (rule accounts_popped [OF Cons accounts_live [OF s op mt]])
    have g: "tc_generation (tr_state (deliver_effects e r1)) = g"
      using route_tick_cases(2) [OF s] control_eqD(6) [OF popped_frame(2), of b bs r] "1.prems"(3)
      by (auto simp: overflowed_def recovering_def dest: control_eqD)
    show ?thesis
    proof (cases "re_requests e")
      case (Cons q qs)
      show ?thesis unfolding u Cons list.case using accounts_trans [OF a accounts_request] by simp
    next
      case Nil
      have "accounts [] (deliver_effects e r1) (flush_tick_buffer now p g usable n (deliver_effects e r1))"
        by (rule "1.IH" [OF Cons s Nil accounts_open [OF a "1.prems"(1)] accounts_honest [OF a "1.prems"(2)] g])
      from accounts_trans [OF a this] show ?thesis unfolding u Nil list.case by simp
    qed
  qed
qed

subsection \<open>Answers\<close>

text \<open>A buffered tick is dropped only for a history tick that is delivered, or that was delivered before.\<close>

lemma prune_buffer_split:
  assumes "prune = prune_buffer m hs buffer"
  shows "\<exists>dropped. mset (concat (map mb_items prune)) + mset dropped = mset (concat (map mb_items buffer))
    \<and> list_all (seen_key m hs) dropped"
proof (intro exI conjI)
  let ?dup = "\<lambda>t. list_ex (\<lambda>h. same_tick_observation h t m) hs"
  have f: "filter (\<lambda>t. \<not> ?dup t) (concat (map mb_items buffer)) = concat (map mb_items prune)"
    unfolding assms prune_buffer_def by (induction buffer) auto
  show "mset (concat (map mb_items prune)) + mset (filter ?dup (concat (map mb_items buffer))) = mset (concat (map mb_items buffer))"
    unfolding f [symmetric] mset_filter by (metis add.commute multiset_partition)
  show "list_all (seen_key m hs) (filter ?dup (concat (map mb_items buffer)))"
    by (simp add: list_all_iff seen_key_def)
qed

lemma prune_buffer_matches:
  "\<forall>b \<in> set buffer. tick_batch_matches_stream b s \<Longrightarrow> \<forall>b \<in> set (prune_buffer m hs buffer). tick_batch_matches_stream b s"
  by (auto simp: prune_buffer_def tick_batch_matches_stream_def)

lemma accounts_deliver_history:
  assumes "deliver_tick_history batch usable r = (n, r')" "open_route r" "honest [] r"
  shows "accounts [] r r'"
proof (cases "mb_items batch = []")
  case True
  with assms(1) show ?thesis by (simp add: deliver_tick_history_def accounts_refl)
next
  case False
  let ?m = "tr_mode r" and ?hs = "mb_items batch"
  have guard: "\<not> (?hs = [] \<or> tr_phase r \<noteq> EP_ACTIVE \<or> tr_release_requested r)"
    using False assms(2) by (simp add: open_route_def)
  define buffer where "buffer = prune_buffer ?m ?hs (tc_buffer (tr_state r))"
  define c1 where "c1 = (tr_state r)\<lparr>tc_buffer := buffer, tc_buffered_items := sum_list (map (\<lambda>b. length (mb_items b)) buffer)\<rparr>"
  define items where "items = deduplicate_against_last_delivery ?m c1 ?hs"
  define c2 where "c2 = (if usable \<and> items \<noteq> []
     then c1\<lparr>tc_monitor := (tc_monitor c1)\<lparr>cm_confirmed_from_time_ms := confirmed_from items,
            cm_confirmed_through_time_ms := latest_time items, cm_confirmed_items := length items\<rparr>\<rparr>
     else c1)"
  define r2 where "r2 = r\<lparr>tr_state := c2\<rparr>"
  note s = assms(1) [unfolded deliver_tick_history_def Let_def if_not_P [OF guard], folded buffer_def, folded c1_def,
      folded items_def, folded c2_def, folded r2_def]
  have c2: "tc_buffer c2 = buffer" "tm_last_delivered_tick_observations c2 = tm_last_delivered_tick_observations (tr_state r)"
    by (simp_all add: c2_def c1_def)
  have r': "route_frame r' = route_frame r" "tc_buffer (tr_state r') = buffer" "live_ticks r' = live_ticks r"
    "history_ticks r' = history_ticks r @ items"
    "tm_last_delivered_tick_observations (tr_state r') = (if items = [] then tm_last_delivered_tick_observations (tr_state r)
       else tm_last_delivered_tick_observations (record_tick_progress ?m items c2))"
    using s assms(2)
    by (auto simp: r2_def c2 route_frame_def live_ticks_def history_ticks_def open_route_def tick_progress_def split: if_splits)
  have rem: "seen_key ?m (told [] r') u" if "seen_key ?m (tm_last_delivered_tick_observations (tr_state r)) u" for u
    using assms(3) that by (auto simp: honest_def told_def r')
  obtain dropped where d: "mset (concat (map mb_items buffer)) + mset dropped = mset (concat (map mb_items (tc_buffer (tr_state r))))"
      "list_all (seen_key ?m ?hs) dropped"
    using prune_buffer_split [OF buffer_def] by blast
  have seen: "seen_key ?m (told [] r') t" if "h \<in> set ?hs" "same_tick_observation h t ?m" for h t
  proof (cases "h \<in> set items")
    case True
    with that(2) show ?thesis by (auto simp: told_def r' seen_key_mem)
  next
    case no: False
    then have "seen_key ?m (tm_last_delivered_tick_observations (tr_state r)) h"
      using that(1) by (auto simp: items_def deduplicate_against_last_delivery_def c1_def split: if_splits)
    from seen_key_trans [OF rem [OF this] that(2)] show ?thesis .
  qed
  have dr: "list_all (seen_key ?m (told [] r')) dropped"
    using d(2) seen by (fastforce simp: list_all_iff seen_key_mem [of _ ?hs])
  have led: "ledger [] r' + mset (map observation dropped) = ledger [] r + mset (map observation [])"
    using arg_cong [OF d(1), of "image_mset observation"] by (simp add: ledger_def buffered_ticks_def r')
  have hon: "honest [] r'"
  proof -
    have "seen_key ?m (told [] r') u" if "seen_key ?m (tm_last_delivered_tick_observations (tr_state r')) u" for u
    proof (cases "items = []")
      case True
      with that rem show ?thesis by (simp add: r'(5))
    next
      case False
      with that have "seen_key ?m (tm_last_delivered_tick_observations (tr_state r)) u \<or> seen_key ?m items u"
        using record_progress_seen [of ?m items c2 u] by (simp add: r'(5) c2)
      with rem show ?thesis by (auto simp: told_def r')
    qed
    moreover have "\<forall>b \<in> set buffer. tick_batch_matches_stream b (tr_stream r)"
      unfolding buffer_def using assms(3) by (intro prune_buffer_matches) (simp add: honest_def)
    ultimately show ?thesis using frame_eqD(2,6) [OF r'(1)] by (simp add: honest_def r'(2))
  qed
  show ?thesis unfolding accounts_def
    by (intro conjI exI [of _ dropped]) (use led dr r'(1) hon in \<open>auto simp: told_def r'(3,4)\<close>)
qed

lemma quiet_settle: "quiet r (settle_tick_range now p usable n m r)"
  by (simp add: settle_tick_range_def quiet_state Let_def)

lemma accounts_complete:
  assumes "open_route r" "honest [] r"
  shows "accounts [] r (complete_tick_continuity now p g result r)"
proof (cases "tr_phase r \<noteq> EP_ACTIVE \<or> sd_type (tr_stream r) \<noteq> MDT_TICKS \<or> \<not> tc_request_in_flight (tr_state r)
      \<or> tc_generation (tr_state r) \<noteq> g")
  case True
  then show ?thesis by (simp add: complete_tick_continuity_def accounts_refl)
next
  case guard: False
  define r0 where "r0 = r\<lparr>tr_state := (tr_state r)\<lparr>tc_request_in_flight := False, tc_phase := CP_FLUSHING\<rparr>\<rparr>"
  have a0: "accounts [] r r0" unfolding r0_def by (intro accounts_quiet quiet_state) simp_all
  note s = complete_tick_continuity_def [of now p g result r, unfolded Let_def if_not_P [OF guard], folded r0_def]
  show ?thesis
  proof (cases "\<not> hr_success result \<and> pr_attempt p < unat (crp_max_attempts (tco_retry (tr_options r0)))")
    case True
    have "quiet r0 (schedule_tick_retry now p r0)" by (simp add: schedule_tick_retry_def quiet_state)
    from accounts_trans [OF a0 accounts_quiet [OF this]] show ?thesis unfolding s if_P [OF True] by simp
  next
    case retry: False
    obtain history usable message where j: "judge_tick_history p result r0 = (history, usable, message)" by (metis prod_cases3)
    define items where "items = (case history of None \<Rightarrow> [] | Some batch \<Rightarrow> mb_items batch)"
    define r1 where "r1 = settle_tick_range now p usable (length items) message r0"
    obtain n r2 where d: "(case history of None \<Rightarrow> (0, r1) | Some batch \<Rightarrow> deliver_tick_history batch usable r1) = (n, r2)" by fastforce
    have a1: "accounts [] r r1"
      using accounts_trans [OF a0 accounts_quiet [OF quiet_settle]] by (simp add: r1_def)
    note oh1 = accounts_open [OF a1 assms(1)] accounts_honest [OF a1 assms(2)]
    have "accounts [] r1 r2"
    proof (cases history)
      case None
      with d show ?thesis by (simp add: accounts_refl)
    next
      case (Some batch)
      with d accounts_deliver_history [OF _ oh1] show ?thesis by simp
    qed
    from accounts_trans [OF a1 this] have a2: "accounts [] r r2" by simp
    have g2: "tc_generation (tr_state r2) = g"
    proof -
      have "plan r2 = plan r1" using d deliver_history_frame(2) [of _ usable r1 n r2] by (auto split: option.splits)
      moreover have "plan r1 = plan r0" unfolding r1_def by (rule settle_frame(2))
      moreover have "tc_generation (tr_state r0) = g" using guard by (simp add: r0_def)
      ultimately show ?thesis by (simp add: plan_def Let_def)
    qed
    note s2 = s [unfolded if_not_P [OF retry] j prod.case, folded items_def, folded r1_def, unfolded d prod.case]
    show ?thesis
    proof (cases "next_tick_chunk p usable r2")
      case Stop
      with a2 show ?thesis unfolding s2 by simp
    next
      case Flush
      define r3 where "r3 = (if usable \<and> pr_kind p = CRK_PREFILL
         then r2\<lparr>tr_state := (tr_state r2)\<lparr>tc_initial_prefill_pending := False\<rparr>\<rparr> else r2)"
      have "quiet r2 r3" by (simp add: r3_def quiet_state)
      from accounts_trans [OF a2 accounts_quiet [OF this]] have a3: "accounts [] r r3" by simp
      have g3: "tc_generation (tr_state r3) = g" using g2 by (simp add: r3_def)
      from accounts_trans [OF a3 accounts_flush [OF accounts_open [OF a3 assms(1)] accounts_honest [OF a3 assms(2)] g3]]
      show ?thesis unfolding s2 Flush next_chunk.case r3_def [symmetric] by simp
    next
      case (Request q)
      have "quiet r2 (request_next_tick_chunk now q r2)" by (simp add: request_next_tick_chunk_def Let_def quiet_state)
      from accounts_trans [OF a2 accounts_quiet [OF this]] show ?thesis unfolding s2 Request next_chunk.case by simp
    qed
  qed
qed

subsection \<open>Runs\<close>

primrec incoming :: "stream_descriptor \<Rightarrow> tick_event \<Rightarrow> tick list" where
  "incoming s (Ticks b) = (if tick_batch_matches_stream b s then mb_items b else [])"
| "incoming s (Answer k result) = []"
| "incoming s (Status u) = []"
| "incoming s Process = []"
| "incoming s Expire = []"
| "incoming s Release = []"

definition stays :: "tick_event \<Rightarrow> bool" where
  "stays e \<longleftrightarrow> e \<noteq> Expire \<and> e \<noteq> Release"

lemma accounts_requests: "accounts [] r (fold (request_tick_continuity_history now) ps r)"
proof (induction ps arbitrary: r)
  case (Cons p ps)
  from accounts_trans [OF accounts_request Cons] show ?case by simp
qed (simp add: accounts_refl)

lemma accounts_step:
  assumes "open_route r" "honest [] r" "stays e"
  shows "accounts (incoming (tr_stream r) e) r (tick_step r (clk, e))"
proof (cases e)
  case (Ticks b)
  obtain r' ef where s: "route_tick_to_entry (rk_now clk) b False True r = (r', ef)" by fastforce
  show ?thesis
  proof (cases "tick_batch_matches_stream b (tr_stream r)")
    case True
    from accounts_trans [OF accounts_live [OF s assms(1) True] accounts_requests] True show ?thesis
      by (simp add: Ticks route_ticks_def s)
  next
    case False
    then have "route_tick_to_entry (rk_now clk) b False True r = (r, no_effects)" by (simp add: route_tick_to_entry_def)
    then have "accounts [] r (route_ticks (rk_now clk) b r)"
      by (intro accounts_same) (simp_all add: route_ticks_def deliver_ledger told_def route_frame_def handed_def)
    with False show ?thesis by (simp add: Ticks)
  qed
next
  case (Answer k result)
  show ?thesis
  proof (cases "k < length (tr_operations r)")
    case True
    obtain p g where op: "tr_operations r ! k = (p, g)" by fastforce
    define r0 where "r0 = r\<lparr>tr_operations := take k (tr_operations r) @ drop (Suc k) (tr_operations r)\<rparr>"
    have a: "accounts [] r r0"
      by (rule accounts_quiet) (simp add: r0_def quiet_def route_frame_def live_ticks_def history_ticks_def)
    from accounts_trans [OF a accounts_complete [OF accounts_open [OF a assms(1)] accounts_honest [OF a assms(2)]]]
    show ?thesis by (simp add: Answer True op r0_def)
  qed (simp add: Answer accounts_refl)
next
  case (Status u)
  with accounts_quiet [OF quiet_route_status] show ?thesis by simp
next
  case Process
  with accounts_quiet [OF quiet_process] show ?thesis by simp
qed (use assms(3) in \<open>simp_all add: stays_def\<close>)

lemma accounts_run:
  assumes "open_route r" "honest [] r" "list_all (\<lambda>(clk, e). stays e) es"
  shows "accounts (concat (map (\<lambda>(clk, e). incoming (tr_stream r) e) es)) r (foldl tick_step r es)"
  using assms
proof (induction es arbitrary: r)
  case (Cons ce es)
  obtain clk e where ce: "ce = (clk, e)" by fastforce
  have a: "accounts (incoming (tr_stream r) e) r (tick_step r (clk, e))"
    using Cons.prems by (intro accounts_step) (simp_all add: ce)
  have st: "tr_stream (tick_step r (clk, e)) = tr_stream r" using a by (auto simp: accounts_def dest: frame_eqD)
  from accounts_trans [OF a Cons.IH [OF accounts_open [OF a Cons.prems(1)] accounts_honest [OF a Cons.prems(2)]]] Cons.prems(3)
  show ?case by (simp add: ce st)
qed (simp add: accounts_refl)

lemma quiet_updates: "quiet r (fold (\<lambda>u r. tell [Tick_continuity u] (record_tick_continuity_update now u r)) us r1) = quiet r r1"
  by (induction us arbitrary: r1) simp_all

lemma activated_route:
  fixes clk h replay pm i request
  defines "r \<equiv> activate_tick_route clk h replay (make_tick_route pm i request)"
  shows "open_route r" "tc_buffer (tr_state r) = []" "tc_buffered_items (tr_state r) = 0" "live_ticks r = []" "history_ticks r = []"
    "tm_last_delivered_tick_observations (tr_state r) = []" "tr_stream r = stream_from_handle h"
    "tr_options r = tsr_continuity request"
proof -
  let ?r = "make_tick_route pm i request"
  define r1 where "r1 = ?r\<lparr>tr_phase := EP_ACTIVE, tr_stream := stream_from_handle h, tr_subscription := h\<rparr>"
  have n: "\<not> tr_release_requested r1" by (simp add: r1_def make_tick_route_def Let_def)
  have pre: "quiet r0 x \<Longrightarrow> quiet r0 (if sd_type (tr_stream x) = MDT_TICKS \<and> tco_prefill_lookback_ms (tr_options x) > 0
    then start_tick_continuity clk x else x)" for r0 x
    using quiet_start quiet_trans by auto
  have "quiet r1 r"
  proof (cases replay)
    case None
    then show ?thesis
      unfolding r_def activate_tick_route_def Let_def r1_def [symmetric] if_not_P [OF n] None option.case by (intro pre) simp
  next
    case (Some st)
    obtain r2 us how where s: "apply_stream_status (rk_now clk) (su_status st) r1 = (r2, us, how)" by (metis prod_cases3)
    have q: "quiet r1 r2" by (rule quiet_status [OF s])
    show ?thesis
      unfolding r_def activate_tick_route_def Let_def r1_def [symmetric] if_not_P [OF n] Some option.case s prod.case
      by (rule quiet_trans [OF _ quiet_restart]) (unfold quiet_updates, simp add: pre [OF q])
  qed
  moreover have "tr_phase r1 = EP_ACTIVE" "tr_subscriber_alive r1" "tr_stream r1 = stream_from_handle h"
    "tc_buffer (tr_state r1) = []" "tc_buffered_items (tr_state r1) = 0" "live_ticks r1 = []" "history_ticks r1 = []"
    "tm_last_delivered_tick_observations (tr_state r1) = []" "tr_options r1 = tsr_continuity request"
    by (simp_all add: r1_def make_tick_route_def tick_continuity_state_default_def live_ticks_def history_ticks_def Let_def)
  ultimately show "open_route r" "tc_buffer (tr_state r) = []" "tc_buffered_items (tr_state r) = 0" "live_ticks r = []" "history_ticks r = []"
    "tm_last_delivered_tick_observations (tr_state r) = []" "tr_stream r = stream_from_handle h"
    "tr_options r = tsr_continuity request"
    using n frame_eqD [of r r1] by (simp_all add: quiet_def open_route_def)
qed

text \<open>C29: No live tick is lost and none is delivered twice: in every run of an active tick route whose subscriber stays, the ticks that came in on its stream are, up to the marks the router sets, exactly the live ticks delivered so far, those in the buffer, and dropped ones, and the subscriber has received the observation of each dropped tick, from the history or live.\<close>

theorem live_ticks_conserved:
  assumes "r = foldl tick_step (activate_tick_route clk h replay (make_tick_route pm interval request)) es"
    and "list_all (\<lambda>(clk, e). stays e) es"
  shows "\<exists>dropped. mset (map observation (live_ticks r @ buffered_ticks (tr_state r) @ dropped))
       = mset (map observation (concat (map (\<lambda>(clk, e). incoming (stream_from_handle h) e) es)))
     \<and> list_all (seen_key (tr_mode r) (live_ticks r @ history_ticks r)) dropped"
proof -
  let ?r0 = "activate_tick_route clk h replay (make_tick_route pm interval request)"
  note a = activated_route [of clk h replay pm interval request]
  let ?ins = "concat (map (\<lambda>(clk, e). incoming (stream_from_handle h) e) es)"
  have l0: "honest [] ?r0" "ledger [] ?r0 = {#}" by (simp_all add: honest_def ledger_def buffered_ticks_def a)
  have ac: "accounts ?ins ?r0 r" using accounts_run [OF a(1) l0(1) assms(2)] unfolding a(7) assms(1) [symmetric] .
  then obtain d where d: "ledger [] r + mset (map observation d) = mset (map observation ?ins)"
    "list_all (seen_key (tr_mode ?r0) (told [] r)) d"
    using l0(2) by (auto simp: accounts_def)
  have "tr_mode ?r0 = tr_mode r" using ac frame_eqD(6) [of r ?r0] by (simp add: accounts_def)
  with d show ?thesis by (intro exI [of _ d]) (simp add: ledger_def told_def add.assoc)
qed

end
