(* ===== verification/TickBounds.thy ===== *)
theory TickBounds
  imports TickLedger
begin

section \<open>What a tick route holds back\<close>

text \<open>
  The buffer of a route in every run: it keeps the two limits of the options, its item counter is exact, and it holds
  only non-empty batches of its own stream. And a route that is in the live phase has no open range.
\<close>

subsection \<open>The buffer\<close>

definition held :: "tick_continuity_options \<Rightarrow> tick_route \<Rightarrow> bool" where
  "held opt r \<longleftrightarrow> (tr_options r)\<lparr>tco_mode := CM_LIVE_ONLY\<rparr> = opt\<lparr>tco_mode := CM_LIVE_ONLY\<rparr>
     \<and> tc_buffered_items (tr_state r) = length (buffered_ticks (tr_state r))
     \<and> list_all (\<lambda>b. mb_items b \<noteq> [] \<and> tick_batch_matches_stream b (tr_stream r)) (tc_buffer (tr_state r))
     \<and> (tco_max_buffered_batches (tr_options r) > 0 \<longrightarrow>
          length (tc_buffer (tr_state r)) \<le> unat (tco_max_buffered_batches (tr_options r)))
     \<and> (tco_max_buffered_items (tr_options r) > 0 \<longrightarrow>
          tc_buffered_items (tr_state r) \<le> unat (tco_max_buffered_items (tr_options r)))"

lemma held_quiet: "quiet r r' \<Longrightarrow> held opt r \<Longrightarrow> held opt r'"
  using frame_eqD [of r' r] by (auto simp: quiet_def held_def buffered_ticks_def)

lemma held_frame [simp]:
  "held opt (deliver_effects e r) = held opt r" "held opt (tick_progress ts r) = held opt r" "held opt (request_tick_continuity_history now p r) = held opt r"
  by (simp_all add: held_def buffered_ticks_def)

lemma length_buffered: "length (buffered_ticks c) = sum_list (map (\<lambda>b. length (mb_items b)) (tc_buffer c))"
  by (simp add: buffered_ticks_def length_concat comp_def)

lemma held_buffer:
  assumes "buffer_tick_continuity_batch now b front r = (ok, r', e)" "held opt r" "mb_items b \<noteq> []"
    "tick_batch_matches_stream b (tr_stream r)"
  shows "held opt r'"
  using assms
  by (auto simp: buffer_tick_continuity_batch_def held_def length_buffered tick_batch_matches_stream_def Let_def split: if_splits)

lemma find_gap_index: "find_tick_gap interval previous i ts = Some (k, p, t) \<Longrightarrow> i \<le> k \<and> k < i + length ts"
  by (induction interval previous i ts rule: find_tick_gap.induct) (auto simp: Let_def split: if_splits)

lemma held_state:
  "held opt r \<Longrightarrow> tc_buffer c = tc_buffer (tr_state r) \<Longrightarrow> tc_buffered_items c = tc_buffered_items (tr_state r) \<Longrightarrow>
   held opt (r\<lparr>tr_state := c\<rparr>)"
  by (auto simp: held_def buffered_ticks_def)

lemma held_recover:
  assumes "recover_tick_gap now b pb i previous t r = (r', e)" "held opt r" "i < length (mb_items b)"
    "tick_batch_matches_stream b (tr_stream r)"
  shows "held opt r'"
proof -
  define r1 where "r1 = (if i > 0 then tick_progress (take i (mb_items b)) r else r)"
  obtain ok r2 e2 where bb: "buffer_tick_continuity_batch now (b\<lparr>mb_items := drop i (mb_items b)\<rparr>) pb r1 = (ok, r2, e2)"
    by (metis prod_cases3)
  then have b': "buffer_tick_continuity_batch now (b\<lparr>mb_items := drop i (mb_items b)\<rparr>) pb
      (if 0 < i then tick_progress (mb_items (b\<lparr>mb_items := take i (mb_items b)\<rparr>)) r else r) = (ok, r2, e2)"
    by (cases "0 < i") (simp_all add: r1_def)
  have "held opt r1" "tr_stream r1 = tr_stream r" using assms(2) by (simp_all add: r1_def)
  with assms(3,4) have h2: "held opt r2"
    by (intro held_buffer [OF bb]) (simp_all add: tick_batch_matches_stream_def)
  note s = assms(1) [unfolded recover_tick_gap_def Let_def b' prod.case]
  from s have "r' = r \<or> r' = r2 \<or> (\<exists>c. r' = r2\<lparr>tr_state := c\<rparr> \<and> tc_buffer c = tc_buffer (tr_state r2)
      \<and> tc_buffered_items c = tc_buffered_items (tr_state r2))"
    by (auto split: if_splits)
  with h2 assms(2) held_state show ?thesis by blast
qed

lemma held_route:
  assumes "route_tick_to_entry now b pb allow r = (r', e)" "held opt r"
  shows "held opt r'"
proof -
  define routed where "routed = b\<lparr>mb_subscription := tr_subscription r,
    mb_items := map (\<lambda>t. t\<lparr>tk_flags := mark_live_payload (tk_flags t) pb\<rparr>) (mb_items b)\<rparr>"
  note s = assms(1) [unfolded route_tick_to_entry_def Let_def, folded routed_def]
  consider "r' = r"
    | ok where "buffer_tick_continuity_batch now routed False r = (ok, r', e)" "mb_items b \<noteq> []" "tick_batch_matches_stream b (tr_stream r)"
    | i p t where "recover_tick_gap now routed pb i p t r = (r', e)" "i < length (mb_items routed)" "tick_batch_matches_stream b (tr_stream r)"
    | "r' = tick_progress (mb_items routed) r"
  proof (cases "tr_phase r \<noteq> EP_ACTIVE \<or> \<not> tick_batch_matches_stream b (tr_stream r) \<or> \<not> tr_subscriber_alive r \<or> mb_items b = []")
    case True
    with s that(1) show ?thesis by (auto split: if_splits)
  next
    case False
    then have f: "\<not> (tr_phase r \<noteq> EP_ACTIVE \<or> \<not> tick_batch_matches_stream b (tr_stream r))" "\<not> \<not> tr_subscriber_alive r"
      "mb_items b \<noteq> []" "tick_batch_matches_stream b (tr_stream r)"
      by auto
    note s1 = s [unfolded if_not_P [OF f(1)] if_not_P [OF f(2)] if_not_P [OF f(3)]]
    show ?thesis
    proof (cases "continuity_enabled (tco_mode (tr_options r)) \<and> \<not> pb \<and> buffers_live_data (tc_phase (tr_state r))")
      case True
      with s1 f show ?thesis using that(2) by (auto split: prod.splits)
    next
      case no: False
      note s2 = s1 [unfolded if_not_P [OF no]]
      show ?thesis
      proof (cases "if allow \<and> recovers_gaps (tco_mode (tr_options r)) \<and> \<not> tc_request_in_flight (tr_state r)
            \<and> tco_expected_interval_ms (tr_options r) > 0 \<and> bm_last_observed_time_ms (tr_state r) > 0
          then find_tick_gap (tco_expected_interval_ms (tr_options r)) (bm_last_observed_time_ms (tr_state r)) 0 (mb_items routed) else None")
        case None
        with s2 show ?thesis using that(4) by simp
      next
        case (Some g)
        obtain i p t where g: "g = (i, p, t)" by (metis prod_cases3)
        from Some g have "find_tick_gap (tco_expected_interval_ms (tr_options r)) (bm_last_observed_time_ms (tr_state r)) 0 (mb_items routed) = Some (i, p, t)"
          by (simp split: if_splits)
        from find_gap_index [OF this] s2 [unfolded Some g option.case prod.case] f(4) show ?thesis using that(3) by simp
      qed
    qed
  qed
  then show ?thesis
  proof cases
    case 2
    then show ?thesis by (intro held_buffer [OF 2(1) assms(2)]) (simp_all add: routed_def tick_batch_matches_stream_def)
  next
    case 3
    then show ?thesis by (intro held_recover [OF 3(1) assms(2)]) (simp_all add: routed_def tick_batch_matches_stream_def)
  qed (use assms(2) in simp_all)
qed

lemma held_popped: "held opt r \<Longrightarrow> tc_buffer (tr_state r) = b # bs \<Longrightarrow> held opt (popped b bs r)"
  by (auto simp: held_def popped_def length_buffered)

lemma held_flush: "held opt r \<Longrightarrow> held opt (flush_tick_buffer now p g usable n r)"
proof (induction r rule: flush_induct [where now = now and usable = usable])
  case (1 r)
  show ?case
  proof (cases "tr_phase r = EP_ACTIVE \<and> tc_generation (tr_state r) = g")
    case False
    with "1.prems" show ?thesis by (subst flush_tick_buffer.simps) simp
  next
    case True
    then have a: "tr_phase r = EP_ACTIVE" "tc_generation (tr_state r) = g" by auto
    show ?thesis
    proof (cases "tc_buffer (tr_state r)")
      case Nil
      show ?thesis unfolding flush_done [OF a Nil] by (rule held_quiet [OF quiet_finished "1.prems"])
    next
      case (Cons b bs)
      obtain r1 e where s: "route_tick_to_entry now b True usable (popped b bs r) = (r1, e)" by fastforce
      have h: "held opt (deliver_effects e r1)" using held_route [OF s held_popped [OF "1.prems" Cons]] by simp
      show ?thesis unfolding flush_turn [OF a Cons s] using h "1.IH" [OF Cons s _ h] by (cases "re_requests e") simp_all
    qed
  qed
qed

lemma prune_shorter:
  "length (prune_buffer m hs buffer) \<le> length buffer"
  "sum_list (map (\<lambda>b. length (mb_items b)) (prune_buffer m hs buffer)) \<le> sum_list (map (\<lambda>b. length (mb_items b)) buffer)"
proof -
  have l: "length (prune_buffer m hs (b # bs)) \<le> Suc (length (prune_buffer m hs bs))" for b bs
    by (simp add: prune_buffer_def)
  show "length (prune_buffer m hs buffer) \<le> length buffer"
    unfolding prune_buffer_def by (rule le_trans [OF length_filter_le]) simp
  show "sum_list (map (\<lambda>b. length (mb_items b)) (prune_buffer m hs buffer)) \<le> sum_list (map (\<lambda>b. length (mb_items b)) buffer)"
    unfolding prune_buffer_def by (induction buffer) (auto intro: add_mono length_filter_le le_trans [OF _ le_add2])
qed

lemma held_deliver_history:
  assumes "deliver_tick_history batch usable r = (n, r')" "held opt r"
  shows "held opt r'"
proof (cases "mb_items batch = [] \<or> tr_phase r \<noteq> EP_ACTIVE \<or> tr_release_requested r")
  case True
  with assms show ?thesis by (simp add: deliver_tick_history_def)
next
  case False
  let ?b = "prune_buffer (tr_mode r) (mb_items batch) (tc_buffer (tr_state r))"
  have h: "held opt (r\<lparr>tr_state := c\<rparr>)"
    if "tc_buffer c = ?b" "tc_buffered_items c = sum_list (map (\<lambda>b. length (mb_items b)) ?b)" for c
  proof -
    have "list_all (\<lambda>b. mb_items b \<noteq> [] \<and> tick_batch_matches_stream b (tr_stream r)) ?b"
      using assms(2) by (auto simp: held_def list_all_iff prune_buffer_def tick_batch_matches_stream_def)
    with assms(2) prune_shorter [of "tr_mode r" "mb_items batch" "tc_buffer (tr_state r)"] that show ?thesis
      by (auto simp: held_def length_buffered)
  qed
  have calls: "held opt (r'\<lparr>tr_calls := cs\<rparr>) = held opt r'" for r' cs by (simp add: held_def)
  show ?thesis
    using assms(1) False
    by (auto simp: deliver_tick_history_def Let_def calls intro!: h split: if_splits)
qed

lemma held_complete:
  assumes "held opt r"
  shows "held opt (complete_tick_continuity now p g result r)"
proof (cases "tr_phase r \<noteq> EP_ACTIVE \<or> sd_type (tr_stream r) \<noteq> MDT_TICKS \<or> \<not> tc_request_in_flight (tr_state r)
      \<or> tc_generation (tr_state r) \<noteq> g")
  case True
  with assms show ?thesis by (simp add: complete_tick_continuity_def)
next
  case guard: False
  define r0 where "r0 = r\<lparr>tr_state := (tr_state r)\<lparr>tc_request_in_flight := False, tc_phase := CP_FLUSHING\<rparr>\<rparr>"
  have h0: "held opt r0" unfolding r0_def by (rule held_quiet [OF quiet_state assms]) simp_all
  note s = complete_tick_continuity_def [of now p g result r, unfolded Let_def if_not_P [OF guard], folded r0_def]
  show ?thesis
  proof (cases "\<not> hr_success result \<and> pr_attempt p < unat (crp_max_attempts (tco_retry (tr_options r0)))")
    case True
    have "quiet r0 (schedule_tick_retry now p r0)" by (simp add: schedule_tick_retry_def quiet_state)
    from held_quiet [OF this h0] show ?thesis unfolding s if_P [OF True] .
  next
    case retry: False
    obtain history usable message where j: "judge_tick_history p result r0 = (history, usable, message)" by (metis prod_cases3)
    define items where "items = (case history of None \<Rightarrow> [] | Some batch \<Rightarrow> mb_items batch)"
    define r1 where "r1 = settle_tick_range now p usable (length items) message r0"
    obtain n r2 where d: "(case history of None \<Rightarrow> (0, r1) | Some batch \<Rightarrow> deliver_tick_history batch usable r1) = (n, r2)" by fastforce
    have h1: "held opt r1" unfolding r1_def by (rule held_quiet [OF quiet_settle h0])
    have h2: "held opt r2" using d h1 held_deliver_history by (cases history) auto
    note s2 = s [unfolded if_not_P [OF retry] j prod.case, folded items_def, folded r1_def, unfolded d prod.case]
    show ?thesis
    proof (cases "next_tick_chunk p usable r2")
      case Flush
      have "held opt (if usable \<and> pr_kind p = CRK_PREFILL
         then r2\<lparr>tr_state := (tr_state r2)\<lparr>tc_initial_prefill_pending := False\<rparr>\<rparr> else r2)"
        by (rule held_quiet [OF _ h2]) (simp add: quiet_state)
      then show ?thesis unfolding s2 Flush next_chunk.case by (rule held_flush)
    next
      case (Request q)
      have "quiet r2 (request_next_tick_chunk now q r2)" by (simp add: request_next_tick_chunk_def Let_def quiet_state)
      from held_quiet [OF this h2] show ?thesis unfolding s2 Request next_chunk.case .
    qed (use s2 h2 in simp)
  qed
qed

lemma held_requests: "held opt (fold (request_tick_continuity_history now) ps r) = held opt r"
  by (induction ps arbitrary: r) simp_all

lemma held_step: "held opt r \<Longrightarrow> held opt (tick_step r (clk, e))"
proof (cases e)
  case (Ticks b)
  assume h: "held opt r"
  obtain r' ef where s: "route_tick_to_entry (rk_now clk) b False True r = (r', ef)" by fastforce
  from held_route [OF s h] show ?thesis by (simp add: Ticks route_ticks_def s held_requests)
next
  case (Answer k result)
  assume h: "held opt r"
  have "held opt (r\<lparr>tr_operations := ops\<rparr>)" for ops using h by (auto simp: held_def)
  from held_complete [OF this] h show ?thesis by (auto simp: Answer split: prod.split)
next
  case (Status u)
  assume "held opt r"
  then show ?thesis using held_quiet [OF quiet_route_status] by (simp add: Status)
next
  case Process
  assume "held opt r"
  then show ?thesis using held_quiet [OF quiet_process] by (simp add: Process)
qed (auto simp: held_def release_tick_route_def Let_def)

lemma held_run: "held (tsr_continuity request) (foldl tick_step (activate_tick_route clk h replay (make_tick_route pm interval request)) es)"
proof (induction es rule: rev_induct)
  case Nil
  show ?case by (simp add: held_def activated_route buffered_ticks_def)
next
  case (snoc e es)
  then show ?case by (cases e) (simp add: held_step)
qed

text \<open>C32: Every buffered batch of a tick route belongs to its stream and has ticks, and the item counter of the buffer is the number of ticks in it, in every run.\<close>

theorem tick_buffer_well_formed:
  fixes clk h replay pm interval request es
  defines "r \<equiv> foldl tick_step (activate_tick_route clk h replay (make_tick_route pm interval request)) es"
  shows "tc_buffered_items (tr_state r) = sum_list (map (\<lambda>b. length (mb_items b)) (tc_buffer (tr_state r)))
    \<and> list_all (\<lambda>b. mb_items b \<noteq> [] \<and> tick_batch_matches_stream b (tr_stream r)) (tc_buffer (tr_state r))"
  using held_run [of request clk h replay pm interval es] by (simp add: held_def r_def length_buffered)

text \<open>C31: The buffer of a tick route keeps the limits that the subscription set, in every run: at most max_buffered_batches batches and max_buffered_items ticks, where zero means no limit.\<close>

theorem tick_buffer_limits:
  fixes clk h replay pm interval request es
  defines "r \<equiv> foldl tick_step (activate_tick_route clk h replay (make_tick_route pm interval request)) es"
  shows "(tco_max_buffered_batches (tsr_continuity request) = 0
      \<or> length (tc_buffer (tr_state r)) \<le> unat (tco_max_buffered_batches (tsr_continuity request)))
    \<and> (tco_max_buffered_items (tsr_continuity request) = 0
      \<or> length (concat (map mb_items (tc_buffer (tr_state r)))) \<le> unat (tco_max_buffered_items (tsr_continuity request)))"
proof -
  have h: "held (tsr_continuity request) r" unfolding r_def by (rule held_run)
  then have "(tr_options r)\<lparr>tco_mode := CM_LIVE_ONLY\<rparr> = (tsr_continuity request)\<lparr>tco_mode := CM_LIVE_ONLY\<rparr>" by (simp add: held_def)
  from arg_cong [OF this, of tco_max_buffered_batches] arg_cong [OF this, of tco_max_buffered_items]
  have "tco_max_buffered_batches (tr_options r) = tco_max_buffered_batches (tsr_continuity request)"
    "tco_max_buffered_items (tr_options r) = tco_max_buffered_items (tsr_continuity request)" by simp_all
  with h show ?thesis by (auto simp: held_def buffered_ticks_def word_gt_0)
qed

subsection \<open>The live phase\<close>

definition live_sound :: "tick_route \<Rightarrow> bool" where
  "live_sound r \<longleftrightarrow> (tc_phase (tr_state r) = CP_LIVE \<longrightarrow> bm_unverified_from_time_ms (tr_state r) = 0)"

lemma live_sound_frame [simp]:
  "live_sound (deliver_effects e r) = live_sound r" "live_sound (request_tick_continuity_history now p r) = live_sound r"
  "live_sound (notify_tick_continuity now u r) = live_sound r" "live_sound (record_tick_continuity_update now u r) = live_sound r"
  "live_sound (tell calls r) = live_sound r"
  by (simp_all add: live_sound_def)

lemma live_sound_other: "tc_phase (tr_state r) \<noteq> CP_LIVE \<Longrightarrow> live_sound r"
  by (simp add: live_sound_def)

lemma live_sound_route:
  assumes "route_tick_to_entry now b pb allow r = (r', e)" "live_sound r"
  shows "live_sound r'"
  using route_tick_cases(2) [OF assms(1)] assms(2)
  by (auto simp: live_sound_def overflowed_def recovering_def dest: control_eqD)

lemma live_sound_flush: "live_sound r \<Longrightarrow> live_sound (flush_tick_buffer now p g usable n r)"
proof (induction r rule: flush_induct [where now = now and usable = usable])
  case (1 r)
  show ?case
  proof (cases "tr_phase r = EP_ACTIVE \<and> tc_generation (tr_state r) = g")
    case False
    with "1.prems" show ?thesis by (subst flush_tick_buffer.simps) simp
  next
    case True
    then have a: "tr_phase r = EP_ACTIVE" "tc_generation (tr_state r) = g" by auto
    show ?thesis
    proof (cases "tc_buffer (tr_state r)")
      case Nil
      show ?thesis unfolding flush_done [OF a Nil] by (simp add: finished_def live_sound_def Let_def)
    next
      case (Cons b bs)
      obtain r1 e where s: "route_tick_to_entry now b True usable (popped b bs r) = (r1, e)" by fastforce
      have "live_sound (popped b bs r)" using "1.prems" by (simp add: live_sound_def popped_def)
      then have h: "live_sound (deliver_effects e r1)" using live_sound_route [OF s] by simp
      show ?thesis unfolding flush_turn [OF a Cons s] using h "1.IH" [OF Cons s _ h] by (cases "re_requests e") simp_all
    qed
  qed
qed

lemma live_sound_complete:
  assumes "live_sound r"
  shows "live_sound (complete_tick_continuity now p g result r)"
proof (cases "tr_phase r \<noteq> EP_ACTIVE \<or> sd_type (tr_stream r) \<noteq> MDT_TICKS \<or> \<not> tc_request_in_flight (tr_state r)
      \<or> tc_generation (tr_state r) \<noteq> g")
  case True
  with assms show ?thesis by (simp add: complete_tick_continuity_def)
next
  case guard: False
  define r0 where "r0 = r\<lparr>tr_state := (tr_state r)\<lparr>tc_request_in_flight := False, tc_phase := CP_FLUSHING\<rparr>\<rparr>"
  note s = complete_tick_continuity_def [of now p g result r, unfolded Let_def if_not_P [OF guard], folded r0_def]
  show ?thesis
  proof (cases "\<not> hr_success result \<and> pr_attempt p < unat (crp_max_attempts (tco_retry (tr_options r0)))")
    case True
    show ?thesis unfolding s if_P [OF True] by (intro live_sound_other) (simp add: schedule_tick_retry_def)
  next
    case retry: False
    obtain history usable message where j: "judge_tick_history p result r0 = (history, usable, message)" by (metis prod_cases3)
    define items where "items = (case history of None \<Rightarrow> [] | Some batch \<Rightarrow> mb_items batch)"
    define r1 where "r1 = settle_tick_range now p usable (length items) message r0"
    obtain n r2 where d: "(case history of None \<Rightarrow> (0, r1) | Some batch \<Rightarrow> deliver_tick_history batch usable r1) = (n, r2)" by fastforce
    have "plan r2 = plan r1" using d deliver_history_frame(2) [of _ usable r1 n r2] by (auto split: option.splits)
    moreover have "plan r1 = plan r0" unfolding r1_def by (rule settle_frame(2))
    moreover have "tc_phase (tr_state r0) = CP_FLUSHING" by (simp add: r0_def)
    ultimately have ph: "tc_phase (tr_state r2) = CP_FLUSHING" by (simp add: plan_def Let_def)
    note s2 = s [unfolded if_not_P [OF retry] j prod.case, folded items_def, folded r1_def, unfolded d prod.case]
    show ?thesis
    proof (cases "next_tick_chunk p usable r2")
      case Flush
      show ?thesis unfolding s2 Flush next_chunk.case
        by (intro live_sound_flush live_sound_other) (simp add: ph)
    next
      case Stop
      with ph show ?thesis unfolding s2 by (simp add: live_sound_other)
    next
      case (Request q)
      show ?thesis unfolding s2 Request next_chunk.case
        by (intro live_sound_other) (simp add: request_next_tick_chunk_def Let_def)
    qed
  qed
qed

lemma live_sound_start: "live_sound r \<Longrightarrow> live_sound (start_tick_continuity clk r)"
  by (simp add: start_tick_continuity_def Let_def) (simp add: live_sound_def)

text \<open>A recovery does nothing, or ends at once, or sends a request.\<close>

lemma recovery_shape:
  "start_tick_reconnect_recovery clk r = r
   \<or> (\<exists>u. start_tick_reconnect_recovery clk r = notify_tick_continuity (rk_now clk) u
        (r\<lparr>tr_state := (tr_state r)\<lparr>tc_phase := (if bm_unverified_from_time_ms (tr_state r) = 0 then CP_LIVE else CP_DEGRADED),
           tc_reconnect_target_time_ms := 0\<rparr>\<rparr>))
   \<or> (\<exists>p t. start_tick_reconnect_recovery clk r = request_tick_continuity_history (rk_now clk) p
        (r\<lparr>tr_state := (tr_state r)\<lparr>tc_reconnect_target_time_ms := t, tc_phase := CP_RECOVERING, tc_request_in_flight := True\<rparr>\<rparr>))"
proof (cases "(tr_phase r \<noteq> EP_ACTIVE \<or> sd_type (tr_stream r) \<noteq> MDT_TICKS) \<or> (tc_phase (tr_state r) \<noteq> CP_RECOVERING
    \<or> \<not> recovers_gaps (tco_mode (tr_options r)) \<or> tc_initial_prefill_pending (tr_state r) \<or> tc_request_in_flight (tr_state r))")
  case True
  then have "start_tick_reconnect_recovery clk r = r" by (elim disjE) (simp_all add: start_tick_reconnect_recovery_def Let_def)
  then show ?thesis by simp
next
  case False
  then have act: "\<not> (tr_phase r \<noteq> EP_ACTIVE \<or> sd_type (tr_stream r) \<noteq> MDT_TICKS)"
    and go: "\<not> (tc_phase (tr_state r) \<noteq> CP_RECOVERING
    \<or> \<not> recovers_gaps (tco_mode (tr_options r)) \<or> tc_initial_prefill_pending (tr_state r) \<or> tc_request_in_flight (tr_state r))"
    by blast+
  let ?c = "tr_state r" and ?i = "tr_history_interval_ms r"
  define observed where "observed = max (bm_last_observed_time_ms ?c) (latest_time (buffered_ticks ?c))"
  define target where "target = max observed (provider_time_ms clk)"
  define start where "start = (if bm_unverified_from_time_ms ?c \<noteq> 0 then bm_unverified_from_time_ms ?c
    else if bm_verified_through_time_ms ?c > 0 then bm_verified_through_time_ms ?c
    else if earliest_time (buffered_ticks ?c) > 0 then earliest_time (buffered_ticks ?c) else observed)"
  define a where "a = align_tick_history_start_time_ms start ?i"
  define e where "e = bounded_tick_history_to_time_ms a target (tco_max_backfill_ms (tr_options r)) ?i"
  define z where "z = (if e < a \<and> ?i > 0 then a else e)"
  note s = start_tick_reconnect_recovery_def [of clk r, unfolded Let_def if_not_P [OF act] if_not_P [OF go],
      folded observed_def, folded target_def start_def, folded a_def, folded e_def, folded z_def]
  show ?thesis
  proof (cases "a = 0 \<or> a > target")
    case True
    show ?thesis unfolding s if_P [OF True] by blast
  next
    case a: False
    show ?thesis
    proof (cases "z < a")
      case True
      show ?thesis unfolding s if_not_P [OF a] if_P [OF True] by blast
    next
      case False
      show ?thesis unfolding s if_not_P [OF a] if_not_P [OF False] by blast
    qed
  qed
qed

lemma live_sound_recovery: "live_sound r \<Longrightarrow> live_sound (start_tick_reconnect_recovery clk r)"
  using recovery_shape [of clk r] by (auto simp: live_sound_def split: if_splits)

lemma live_sound_restart: "live_sound r \<Longrightarrow> live_sound (restart_route clk how r)"
  by (cases how) (simp_all add: restart_route_def live_sound_start live_sound_recovery)

lemma live_sound_apply:
  assumes "apply_stream_status now status r = (r', us, how)" "live_sound r"
  shows "live_sound r'"
proof -
  let ?lost = "continuity_enabled (tco_mode (tr_options r))
    \<and> (tc_initial_prefill_pending (tr_state r) \<or> recovers_gaps (tco_mode (tr_options r))) \<and> invalidates_continuity status"
  obtain r1 us1 where l: "(if ?lost then lose_transport now r else (r, [])) = (r1, us1)" by fastforce
  have "r1 = (if ?lost then fst (lose_transport now r) else r)" using l by (auto split: if_splits)
  then have "live_sound r1" using assms(2) lose_frame(3) [of now r] by (simp add: live_sound_def)
  moreover note assms(1) [unfolded apply_stream_status_def Let_def l prod.case]
  ultimately show ?thesis by (auto simp: live_sound_def split: if_splits)
qed

lemma live_sound_status: "live_sound r \<Longrightarrow> live_sound (route_status clk u r)"
  by (auto simp: route_status_def live_sound_restart dest: live_sound_apply split: prod.split)

lemma live_sound_process: "live_sound r \<Longrightarrow> live_sound (process_tick_route clk r)"
proof (cases "tc_retry_request (tr_state r)")
  case None
  assume "live_sound r"
  with live_sound_recovery show ?thesis by (simp add: process_tick_route_def None Let_def)
next
  case (Some q)
  assume h: "live_sound r"
  show ?thesis
  proof (cases "(tr_phase r = EP_ACTIVE \<and> sd_type (tr_stream r) = MDT_TICKS) \<and> \<not> tc_request_in_flight (tr_state r)
      \<and> tc_retry_at (tr_state r) \<le> rk_now clk")
    case True
    then show ?thesis by (intro live_sound_other) (simp add: process_tick_route_def Some Let_def)
  next
    case False
    show ?thesis unfolding process_tick_route_def Let_def Some option.case if_not_P [OF False] using h by (simp add: Some)
  qed
qed

lemma live_sound_step: "live_sound r \<Longrightarrow> live_sound (tick_step r (clk, e))"
proof (cases e)
  case (Ticks b)
  assume h: "live_sound r"
  obtain r' ef where s: "route_tick_to_entry (rk_now clk) b False True r = (r', ef)" by fastforce
  have "live_sound (fold (request_tick_continuity_history (rk_now clk)) ps x) = live_sound x" for ps x
    by (induction ps arbitrary: x) simp_all
  with live_sound_route [OF s h] show ?thesis by (simp add: Ticks route_ticks_def s)
next
  case (Answer k result)
  assume h: "live_sound r"
  have "live_sound (r\<lparr>tr_operations := ops\<rparr>)" for ops using h by (simp add: live_sound_def)
  from live_sound_complete [OF this] h show ?thesis by (simp add: Answer split: prod.split)
qed (simp_all add: live_sound_status live_sound_process, simp_all add: live_sound_def release_tick_route_def Let_def)

lemma live_sound_run:
  "live_sound (foldl tick_step (activate_tick_route clk h replay (make_tick_route pm interval request)) es)"
proof (induction es rule: rev_induct)
  case Nil
  let ?r = "make_tick_route pm interval request"
  let ?r1 = "?r\<lparr>tr_phase := EP_ACTIVE, tr_stream := stream_from_handle h, tr_subscription := h\<rparr>"
  have r: "live_sound ?r1" "\<not> tr_release_requested ?r1"
    by (simp_all add: live_sound_def make_tick_route_def tick_continuity_state_default_def Let_def)
  have up: "live_sound (fold (\<lambda>u r. tell [Tick_continuity u] (record_tick_continuity_update (rk_now clk) u r)) us x) = live_sound x" for us x
    by (induction us arbitrary: x) simp_all
  show ?case
  proof (cases replay)
    case None
    with r show ?thesis by (simp add: activate_tick_route_def live_sound_start Let_def)
  next
    case (Some st)
    obtain r2 us how where s: "apply_stream_status (rk_now clk) (su_status st) ?r1 = (r2, us, how)" by (metis prod_cases3)
    note l2 = live_sound_apply [OF s r(1)]
    show ?thesis
      unfolding foldl_Nil activate_tick_route_def Let_def if_not_P [OF r(2)] Some option.case s prod.case
      by (intro live_sound_restart) (simp add: up l2 live_sound_start)
  qed
next
  case (snoc e es)
  then show ?case by (cases e) (simp add: live_sound_step)
qed

text \<open>A tick route that calls itself live has no range left that it could not verify, in every run.\<close>

theorem live_means_verified:
  assumes "r = foldl tick_step (activate_tick_route clk h replay (make_tick_route pm interval request)) es"
    and "tc_phase (tr_state r) = CP_LIVE"
  shows "bm_unverified_from_time_ms (tr_state r) = 0"
  using live_sound_run [of clk h replay pm interval request es] assms by (simp add: live_sound_def)

end
