(* ===== verification/TickGaps.thy ===== *)
theory TickGaps
  imports TickBounds
begin

section \<open>Runs of a tick route\<close>

text \<open>
  A gap whose history is empty: the route that waits for it (\<open>waits_for_gap\<close>) is in the same state after every answer.
  The last section is a route in a concrete run, in which the states that the general laws speak of are reached.
\<close>

subsection \<open>A gap without history\<close>

definition empty_answer :: "tick_sequence history_result \<Rightarrow> bool" where
  "empty_answer a \<longleftrightarrow> hr_success a \<and> hr_range_complete a \<and> ts_ticks (hr_sequence a) = [] \<and> ts_symbol (hr_sequence a) = []"

definition request_for_gap :: "tick_route \<Rightarrow> tick \<Rightarrow> tick_pending" where
  "request_for_gap r t =
     (let L = bm_last_observed_time_ms (tr_state r) in
      \<lparr>pr_subscription = tr_subscription r,
       pr_request = \<lparr>thr_symbol = sd_symbol (tr_stream r), thr_from_time_ms = L, thr_to_time_ms = tk_time_ms t,
         thr_source = THS_LOCAL_OBSERVED\<rparr>,
       pr_kind = CRK_GAP_BACKFILL, pr_announce_gap = True, pr_from_time_ms = L, pr_to_time_ms = tk_time_ms t,
       pr_requested_items = 0, pr_attempt = 1\<rparr>)"

definition gap_before :: "tick_route \<Rightarrow> tick \<Rightarrow> bool" where
  "gap_before r t \<longleftrightarrow>
     (let L = bm_last_observed_time_ms (tr_state r); options = tr_options r in
      0 < L \<and> 0 < tco_expected_interval_ms options \<and> unat L + unat (tco_expected_interval_ms options) < unat (tk_time_ms t) \<and>
      (tco_max_backfill_ms options = 0 \<or> unat (tk_time_ms t) - unat L < unat (tco_max_backfill_ms options)) \<and>
      tr_history_interval_ms r = 0)"

definition held_batch :: "tick_route \<Rightarrow> tick \<Rightarrow> tick md_batch \<Rightarrow> bool" where
  "held_batch r t b \<longleftrightarrow> (\<exists>ts. mb_items b = t # ts) \<and> tick_batch_matches_stream b (tr_stream r) \<and>
     mb_subscription b = tr_subscription r \<and> list_all (\<lambda>x. tk_flags x = mark_live_payload (tk_flags x) True) (mb_items b)"

definition buffer_in_limits :: "tick_route \<Rightarrow> bool" where
  "buffer_in_limits r \<longleftrightarrow> (let c = tr_state r; options = tr_options r in
     tc_buffered_items c = length (buffered_ticks c) \<and>
     (tco_max_buffered_batches options > 0 \<longrightarrow> length (tc_buffer c) \<le> unat (tco_max_buffered_batches options)) \<and>
     (tco_max_buffered_items options > 0 \<longrightarrow> tc_buffered_items c \<le> unat (tco_max_buffered_items options)))"

text \<open>The route waits for the history of a gap that its first buffered tick ended.\<close>

definition waits_for_gap :: "tick_route \<Rightarrow> tick \<Rightarrow> bool" where
  "waits_for_gap r t \<longleftrightarrow>
     tr_phase r = EP_ACTIVE \<and> sd_type (tr_stream r) = MDT_TICKS \<and> tr_subscriber_alive r \<and>
     recovers_gaps (tco_mode (tr_options r)) \<and> gap_before r t \<and> buffer_in_limits r \<and>
     (\<exists>b bs. tc_buffer (tr_state r) = b # bs \<and> held_batch r t b) \<and>
     tc_request_in_flight (tr_state r) \<and> tc_phase (tr_state r) = CP_RECOVERING \<and>
     tc_reconnect_target_time_ms (tr_state r) = tk_time_ms t \<and>
     tr_operations r = [(request_for_gap r t, tc_generation (tr_state r))]"

definition gap_notices :: "tick_route \<Rightarrow> tick \<Rightarrow> continuity_update list" where
  "gap_notices r t = (let L = bm_last_observed_time_ms (tr_state r) in
     [make_continuity_update (tr_subscription r) CS_GAP_DETECTED L (tk_time_ms t) 0 0 ''A gap was detected in the live tick stream.'',
      make_continuity_update (tr_subscription r) CS_BACKFILLING L (tk_time_ms t) 0 0 ''Requesting historical ticks for the detected gap.''])"

lemma gap_range:
  assumes "gap_before r t"
  shows "bm_last_observed_time_ms (tr_state r) > 0" "tco_expected_interval_ms (tr_options r) > 0"
    "bm_last_observed_time_ms (tr_state r) \<le> u64_max - tco_expected_interval_ms (tr_options r)"
    "tk_time_ms t > bm_last_observed_time_ms (tr_state r) + tco_expected_interval_ms (tr_options r)"
    "tk_time_ms t \<noteq> 0" "bm_last_observed_time_ms (tr_state r) \<le> tk_time_ms t"
    "bounded_tick_history_to_time_ms (bm_last_observed_time_ms (tr_state r)) (tk_time_ms t) (tco_max_backfill_ms (tr_options r)) 0 = tk_time_ms t"
    "tr_history_interval_ms r = 0"
proof -
  let ?L = "bm_last_observed_time_ms (tr_state r)" and ?e = "tco_expected_interval_ms (tr_options r)" and ?m = "tco_max_backfill_ms (tr_options r)"
  have g: "0 < ?L" "0 < ?e" "unat ?L + unat ?e < unat (tk_time_ms t)" "?m = 0 \<or> unat (tk_time_ms t) - unat ?L < unat ?m"
    "tr_history_interval_ms r = 0"
    using assms by (simp_all add: gap_before_def Let_def)
  have lt: "unat (tk_time_ms t) < 2 ^ 64" by (rule unat_u64_less [THEN order.strict_trans2]) simp
  show "?L > 0" "?e > 0" "tr_history_interval_ms r = 0" by (rule g)+
  have s: "unat (?L + ?e) = unat ?L + unat ?e" using g(3) lt by (subst unat_add_lem [THEN iffD1]) simp_all
  show "tk_time_ms t > ?L + ?e" using g(3) by (simp add: word_less_nat_alt s)
  show "tk_time_ms t \<noteq> 0" using g(3) by auto
  show "?L \<le> tk_time_ms t" using g(3) by (simp add: word_le_nat_alt)
  have "unat (u64_max - ?e) = unat (u64_max :: u64) - unat ?e" by (rule unat_sub) simp
  then show "?L \<le> u64_max - ?e" using g(3) lt by (simp add: word_le_nat_alt)
  have "unat (bounded_tick_history_to_time_ms ?L (tk_time_ms t) ?m 0) = unat (tk_time_ms t)"
    using g(4) lt by (auto simp: unat_bounded Let_def)
  then show "bounded_tick_history_to_time_ms ?L (tk_time_ms t) ?m 0 = tk_time_ms t" by (simp add: word_unat_eq_iff)
qed

lemma gap_found:
  "gap_before r t \<Longrightarrow> find_tick_gap (tco_expected_interval_ms (tr_options r)) (bm_last_observed_time_ms (tr_state r)) 0 (t # ts) =
    Some (0, bm_last_observed_time_ms (tr_state r), t)"
  using gap_range [of r t] by simp

lemma align_no_grid [simp]: "align_tick_history_start_time_ms t 0 = t" "align_tick_history_end_time_ms t 0 = t"
  by (simp_all add: align_tick_history_start_time_ms_def align_tick_history_end_time_ms_def)

text \<open>The marks of a buffered batch are those that buffering it again gives it.\<close>

lemma held_marks:
  assumes "held_batch r t b"
  shows "map (\<lambda>x. x\<lparr>tk_flags := mark_live_payload (tk_flags x) True\<rparr>) (mb_items b) = mb_items b"
    "b\<lparr>mb_subscription := tr_subscription r, mb_items := mb_items b\<rparr> = b"
proof -
  have "list_all (\<lambda>x. tk_flags x = mark_live_payload (tk_flags x) True) (mb_items b)"
    using assms by (simp add: held_batch_def)
  then show "map (\<lambda>x. x\<lparr>tk_flags := mark_live_payload (tk_flags x) True\<rparr>) (mb_items b) = mb_items b"
    by (induction "mb_items b" rule: list.induct) (auto simp: list_all_iff intro!: map_idI tick.equality)
  have "mb_subscription b = tr_subscription r" using assms by (simp add: held_batch_def)
  then show "b\<lparr>mb_subscription := tr_subscription r, mb_items := mb_items b\<rparr> = b" by (cases b) simp
qed

definition gap_asked :: "tick_route \<Rightarrow> tick \<Rightarrow> tick_route" where
  "gap_asked r t = r\<lparr>tr_state := (mark_unverified (bm_last_observed_time_ms (tr_state r)) (tr_state r))
     \<lparr>tc_phase := CP_RECOVERING, tc_request_in_flight := True, tc_reconnect_target_time_ms := tk_time_ms t\<rparr>\<rparr>"

lemma gap_turn:
  assumes r: "tr_phase r = EP_ACTIVE" "tr_subscriber_alive r" "recovers_gaps (tco_mode (tr_options r))"
      "\<not> tc_request_in_flight (tr_state r)" "tc_buffer (tr_state r) = b # bs"
    and g: "gap_before r t" and l: "buffer_in_limits r" and h: "held_batch r t b"
  shows "route_tick_to_entry now b True True (popped b bs r) =
    (gap_asked r t, \<lparr>re_deliveries = [], re_updates = [], re_requests = [request_for_gap r t]\<rparr>)"
proof -
  let ?x = "popped b bs r"
  obtain ts where it: "mb_items b = t # ts" using h by (auto simp: held_batch_def)
  note m = held_marks [OF h]
  have n: "tc_buffered_items (tr_state r) = length (mb_items b) + length (concat (map mb_items bs))"
    using l r(5) by (simp add: buffer_in_limits_def buffered_ticks_def Let_def)
  have pushed: "buffer_tick_continuity_batch now b True ?x = (True, r, no_effects)"
    using l n r(5)
    by (auto simp: buffer_tick_continuity_batch_def popped_def buffer_in_limits_def m(1) Let_def)
  have gx: "gap_before ?x t" using g by (simp add: gap_before_def popped_def)
  note gr = gap_range [OF gx]
  have found: "(if True \<and> recovers_gaps (tco_mode (tr_options ?x)) \<and> \<not> tc_request_in_flight (tr_state ?x)
      \<and> tco_expected_interval_ms (tr_options ?x) > 0 \<and> bm_last_observed_time_ms (tr_state ?x) > 0
    then find_tick_gap (tco_expected_interval_ms (tr_options ?x)) (bm_last_observed_time_ms (tr_state ?x)) 0 (mb_items b)
    else None) = Some (0, bm_last_observed_time_ms (tr_state r), t)"
    using r gr(1,2) gap_found [OF gx, of ts] it by (simp add: popped_def)
  have asked: "recover_tick_gap now b True 0 (bm_last_observed_time_ms (tr_state r)) t ?x =
    (gap_asked r t, \<lparr>re_deliveries = [], re_updates = [], re_requests = [request_for_gap r t]\<rparr>)"
    using gr(7,8) pushed gap_range(6) [OF g]
    by (simp add: recover_tick_gap_def popped_def gap_asked_def request_for_gap_def Let_def)
  have routed: "b\<lparr>mb_subscription := tr_subscription ?x,
      mb_items := map (\<lambda>t. t\<lparr>tk_flags := mark_live_payload (tk_flags t) True\<rparr>) (mb_items b)\<rparr> = b"
    unfolding m(1) using m(2) by (simp add: popped_def)
  have g1: "\<not> (tr_phase ?x \<noteq> EP_ACTIVE \<or> \<not> tick_batch_matches_stream b (tr_stream ?x))" "\<not> \<not> tr_subscriber_alive ?x"
    "mb_items b \<noteq> []" "\<not> (continuity_enabled (tco_mode (tr_options ?x)) \<and> \<not> True \<and> buffers_live_data (tc_phase (tr_state ?x)))"
    using r h it by (simp_all add: popped_def held_batch_def)
  show ?thesis
    unfolding route_tick_to_entry_def Let_def if_not_P [OF g1(1)] if_not_P [OF g1(2)] if_not_P [OF g1(3)] routed if_not_P [OF g1(4)]
      found option.case prod.case asked ..
qed

lemma empty_answer_judged:
  assumes "empty_answer a" "pr_from_time_ms p \<noteq> 0" "pr_from_time_ms p \<le> pr_to_time_ms p"
  shows "\<exists>batch msg. judge_tick_history p a r = (Some batch, True, msg) \<and> mb_items batch = []"
  using assms
  by (simp add: judge_tick_history_def empty_answer_def make_tick_batch_def deduplicate_tick_items_def
      tick_history_covers_range_def Let_def)

lemma verified_last_observed [simp]:
  "bm_last_observed_time_ms (record_tick_verified_range a z c) = bm_last_observed_time_ms c"
  by (simp add: record_tick_verified_range_def)

lemma gap_answered:
  assumes w: "waits_for_gap r t" and a: "empty_answer a"
  shows "tick_step r (clk, Answer 0 a) = request_tick_continuity_history (rk_now clk) (request_for_gap r t)
    (gap_asked (r\<lparr>tr_operations := [], tr_state := record_tick_verified_range (bm_last_observed_time_ms (tr_state r)) (tk_time_ms t) (tr_state r)\<rparr>) t)"
proof -
  let ?L = "bm_last_observed_time_ms (tr_state r)" and ?p = "request_for_gap r t"
  obtain b bs where buf: "tc_buffer (tr_state r) = b # bs" and h: "held_batch r t b" using w by (auto simp: waits_for_gap_def)
  have g: "gap_before r t" and l: "buffer_in_limits r"
    and s: "tr_phase r = EP_ACTIVE" "sd_type (tr_stream r) = MDT_TICKS" "tr_subscriber_alive r" "recovers_gaps (tco_mode (tr_options r))"
      "tc_request_in_flight (tr_state r)" "tc_phase (tr_state r) = CP_RECOVERING" "tc_reconnect_target_time_ms (tr_state r) = tk_time_ms t"
      "tr_operations r = [(?p, tc_generation (tr_state r))]"
    using w by (simp_all add: waits_for_gap_def)
  have p: "pr_from_time_ms ?p = ?L" "pr_to_time_ms ?p = tk_time_ms t" "pr_kind ?p = CRK_GAP_BACKFILL"
    by (simp_all add: request_for_gap_def Let_def)
  define q where "q = r\<lparr>tr_operations := [], tr_state := (tr_state r)\<lparr>tc_request_in_flight := False, tc_phase := CP_FLUSHING\<rparr>\<rparr>"
  define v where "v = q\<lparr>tr_state := record_tick_verified_range ?L (tk_time_ms t) (tr_state q)\<rparr>"
  obtain batch msg where j: "judge_tick_history ?p a q = (Some batch, True, msg)" "mb_items batch = []"
    using empty_answer_judged [OF a, of ?p q] gap_range(1,6) [OF g] p by (auto simp: word_gt_0)
  have st: "settle_tick_range (rk_now clk) ?p True 0 msg q = v"
    by (simp add: settle_tick_range_def v_def p Let_def)
  have dl: "deliver_tick_history batch True v = (0, v)" by (simp add: deliver_tick_history_def j(2))
  have nx: "next_tick_chunk ?p True v = Flush"
    using gap_range(8) [OF g] s(7) by (simp add: next_tick_chunk_def v_def q_def p Let_def)
  have ok: "hr_success a" using a by (simp add: empty_answer_def)
  have "tick_step r (clk, Answer 0 a) = flush_tick_buffer (rk_now clk) ?p (tc_generation (tr_state r)) True 0 v"
    using s ok j st dl nx by (simp add: complete_tick_continuity_def q_def [symmetric] p Let_def)
  also have "\<dots> = request_tick_continuity_history (rk_now clk) (request_for_gap v t) (gap_asked v t)"
  proof -
    have v: "tr_phase v = EP_ACTIVE" "tr_subscriber_alive v" "recovers_gaps (tco_mode (tr_options v))"
      "\<not> tc_request_in_flight (tr_state v)" "tc_buffer (tr_state v) = b # bs" "tc_generation (tr_state v) = tc_generation (tr_state r)"
      "gap_before v t" "buffer_in_limits v" "held_batch v t b"
      using s buf g l h by (auto simp: v_def q_def gap_before_def buffer_in_limits_def held_batch_def buffered_ticks_def Let_def)
    show ?thesis
      unfolding flush_turn [OF v(1,6,5) gap_turn [OF v(1-5,7-9)]] by (simp add: deliver_effects_def)
  qed
  also have "request_for_gap v t = ?p" by (simp add: request_for_gap_def v_def q_def Let_def)
  also have "gap_asked v t = gap_asked (r\<lparr>tr_operations := [], tr_state := record_tick_verified_range ?L (tk_time_ms t) (tr_state r)\<rparr>) t"
    by (simp add: gap_asked_def v_def q_def record_tick_verified_range_def mark_unverified_def)
  finally show ?thesis .
qed

lemma gap_asked_frame:
  "tr_phase (gap_asked r t) = tr_phase r" "tr_stream (gap_asked r t) = tr_stream r" "tr_subscription (gap_asked r t) = tr_subscription r"
  "tr_subscriber_alive (gap_asked r t) = tr_subscriber_alive r" "tr_options (gap_asked r t) = tr_options r"
  "tr_history_interval_ms (gap_asked r t) = tr_history_interval_ms r" "tr_operations (gap_asked r t) = tr_operations r"
  "tr_calls (gap_asked r t) = tr_calls r" "bm_last_observed_time_ms (tr_state (gap_asked r t)) = bm_last_observed_time_ms (tr_state r)"
  "tc_phase (tr_state (gap_asked r t)) = CP_RECOVERING" "tc_request_in_flight (tr_state (gap_asked r t))"
  "tc_reconnect_target_time_ms (tr_state (gap_asked r t)) = tk_time_ms t" "tc_buffer (tr_state (gap_asked r t)) = tc_buffer (tr_state r)"
  "tc_buffered_items (tr_state (gap_asked r t)) = tc_buffered_items (tr_state r)"
  "tc_generation (tr_state (gap_asked r t)) = tc_generation (tr_state r)"
  by (simp_all add: gap_asked_def mark_unverified_def)

lemma request_gap_calls:
  assumes "tr_phase x = EP_ACTIVE" "sd_type (tr_stream x) = MDT_TICKS" "tc_request_in_flight (tr_state x)" "tr_subscriber_alive x"
    and "pr_kind p = CRK_GAP_BACKFILL" "pr_announce_gap p"
  shows "tr_calls (request_tick_continuity_history now p x) = tr_calls x @ map Tick_continuity
    [make_continuity_update (pr_subscription p) CS_GAP_DETECTED (pr_from_time_ms p) (pr_to_time_ms p) (pr_requested_items p) 0
       ''A gap was detected in the live tick stream.'',
     make_continuity_update (pr_subscription p) CS_BACKFILLING (pr_from_time_ms p) (pr_to_time_ms p) (pr_requested_items p) 0
       ''Requesting historical ticks for the detected gap.'']"
  using assms
  by (simp add: request_tick_continuity_history_def notify_tick_continuity_def record_tick_continuity_update_def Let_def)

lemma gap_stays:
  assumes w: "waits_for_gap r t" and a: "empty_answer a" and r': "r' = tick_step r (clk, Answer 0 a)"
  shows "waits_for_gap r' t" "gap_notices r' t = gap_notices r t" "tr_calls r' = tr_calls r @ map Tick_continuity (gap_notices r t)"
    "tc_buffer (tr_state r') = tc_buffer (tr_state r)" "tr_operations r' = tr_operations r"
proof -
  let ?L = "bm_last_observed_time_ms (tr_state r)" and ?p = "request_for_gap r t"
  define x where "x = gap_asked (r\<lparr>tr_operations := [], tr_state := record_tick_verified_range ?L (tk_time_ms t) (tr_state r)\<rparr>) t"
  have e: "r' = request_tick_continuity_history (rk_now clk) ?p x" using gap_answered [OF w a] r' by (simp add: x_def)
  have s: "tr_phase r = EP_ACTIVE" "sd_type (tr_stream r) = MDT_TICKS" "tr_subscriber_alive r"
      "tr_operations r = [(?p, tc_generation (tr_state r))]"
    using w by (simp_all add: waits_for_gap_def)
  have x: "tr_phase x = EP_ACTIVE" "sd_type (tr_stream x) = MDT_TICKS" "tc_request_in_flight (tr_state x)" "tr_subscriber_alive x"
    "tr_operations x = []" "tr_calls x = tr_calls r" "tc_generation (tr_state x) = tc_generation (tr_state r)"
    using s by (simp_all add: x_def gap_asked_frame)
  have p: "pr_kind ?p = CRK_GAP_BACKFILL" "pr_announce_gap ?p" by (simp_all add: request_for_gap_def Let_def)
  show "tr_calls r' = tr_calls r @ map Tick_continuity (gap_notices r t)"
    unfolding e request_gap_calls [OF x(1-4) p] x(6) by (simp add: gap_notices_def request_for_gap_def Let_def)
  show ops: "tr_operations r' = tr_operations r" using s(4) x by (simp add: e request_operations)
  have f: "tr_stream r' = tr_stream r" "tr_subscription r' = tr_subscription r" "tr_options r' = tr_options r"
    "tr_history_interval_ms r' = tr_history_interval_ms r" "bm_last_observed_time_ms (tr_state r') = ?L"
    "tc_buffered_items (tr_state r') = tc_buffered_items (tr_state r)" "tc_generation (tr_state r') = tc_generation (tr_state r)"
    by (simp_all add: e x_def gap_asked_frame record_tick_verified_range_def)
  show b: "tc_buffer (tr_state r') = tc_buffer (tr_state r)" by (simp add: e x_def gap_asked_frame)
  have q: "request_for_gap r' t = ?p" "gap_before r' t = gap_before r t" "buffer_in_limits r' = buffer_in_limits r"
      "held_batch r' t c = held_batch r t c" for c
    by (simp_all add: request_for_gap_def gap_before_def buffer_in_limits_def held_batch_def buffered_ticks_def f b Let_def)
  have "tr_phase r' = EP_ACTIVE" "tr_subscriber_alive r'" "tc_request_in_flight (tr_state r')" "tc_phase (tr_state r') = CP_RECOVERING"
    "tc_reconnect_target_time_ms (tr_state r') = tk_time_ms t"
    using x by (simp_all add: e) (simp_all add: x_def gap_asked_frame)
  with w show "waits_for_gap r' t" unfolding waits_for_gap_def q f b ops by blast
  show "gap_notices r' t = gap_notices r t" by (simp add: gap_notices_def f)
qed

lemma empty_answers_change_nothing:
  assumes "waits_for_gap r t" and "list_all (\<lambda>(clk, e). \<exists>a. e = Answer 0 a \<and> empty_answer a) es"
  shows "let r' = foldl tick_step r es in waits_for_gap r' t \<and> tr_operations r' = tr_operations r
    \<and> tc_buffer (tr_state r') = tc_buffer (tr_state r)
    \<and> tr_calls r' = tr_calls r @ map Tick_continuity (concat (replicate (length es) (gap_notices r t)))"
  using assms
proof (induction es arbitrary: r)
  case (Cons e es)
  then obtain clk a where e: "e = (clk, Answer 0 a)" "empty_answer a" by (cases e) auto
  note s = gap_stays [OF Cons.prems(1) e(2) refl, of clk]
  have "list_all (\<lambda>(clk, e). \<exists>a. e = Answer 0 a \<and> empty_answer a) es" using Cons.prems(2) by simp
  from Cons.IH [OF s(1) this] show ?case by (simp add: s(2-5) e(1) Let_def del: tick_step.simps)
qed simp

text \<open>Such a route arises whenever a live batch jumps over a gap.\<close>

definition live_before_gap :: "tick_route \<Rightarrow> tick md_batch \<Rightarrow> tick \<Rightarrow> bool" where
  "live_before_gap r b t \<longleftrightarrow>
     tr_phase r = EP_ACTIVE \<and> tr_subscriber_alive r \<and> recovers_gaps (tco_mode (tr_options r)) \<and> tc_phase (tr_state r) = CP_LIVE \<and>
     \<not> tc_request_in_flight (tr_state r) \<and> tc_buffer (tr_state r) = [] \<and> tc_buffered_items (tr_state r) = 0 \<and> tr_operations r = [] \<and>
     gap_before r t \<and> tick_batch_matches_stream b (tr_stream r) \<and> (\<exists>ts. mb_items b = t # ts) \<and>
     (tco_max_buffered_items (tr_options r) > 0 \<longrightarrow> length (mb_items b) \<le> unat (tco_max_buffered_items (tr_options r)))"

lemma gap_opens:
  assumes "live_before_gap r b t"
  shows "\<exists>t'. tk_time_ms t' = tk_time_ms t \<and> waits_for_gap (route_ticks now b r) t' \<and>
    gap_notices (route_ticks now b r) t' = gap_notices r t \<and> request_for_gap (route_ticks now b r) t' = request_for_gap r t \<and>
    tr_calls (route_ticks now b r) = tr_calls r @ map Tick_continuity (gap_notices r t)"
proof -
  obtain ts where
    r: "tr_phase r = EP_ACTIVE" "tr_subscriber_alive r" "recovers_gaps (tco_mode (tr_options r))" "tc_phase (tr_state r) = CP_LIVE"
      "\<not> tc_request_in_flight (tr_state r)" "tc_buffer (tr_state r) = []" "tc_buffered_items (tr_state r) = 0" "tr_operations r = []"
    and g: "gap_before r t" and b: "tick_batch_matches_stream b (tr_stream r)" "mb_items b = t # ts"
    and l: "tco_max_buffered_items (tr_options r) > 0 \<longrightarrow> length (mb_items b) \<le> unat (tco_max_buffered_items (tr_options r))"
    using assms by (auto simp: live_before_gap_def)
  define mark where "mark c x = x\<lparr>tk_flags := mark_live_payload (tk_flags x) c\<rparr>" for c and x :: tick
  define b1 where "b1 = b\<lparr>mb_subscription := tr_subscription r, mb_items := map (mark False) (mb_items b)\<rparr>"
  define b2 where "b2 = b1\<lparr>mb_items := map (mark True) (mb_items b1)\<rparr>"
  define t1 where "t1 = mark False t"
  define t2 where "t2 = mark True t1"
  have it: "mb_items b1 = t1 # map (mark False) ts" "mb_items b2 = t2 # map (mark True) (map (mark False) ts)"
    using b(2) by (simp_all add: b1_def b2_def t1_def t2_def)
  have time: "tk_time_ms t1 = tk_time_ms t" "tk_time_ms t2 = tk_time_ms t" by (simp_all add: t1_def t2_def mark_def)
  have g1: "gap_before r t1" using g time by (simp add: gap_before_def)
  note gr = gap_range [OF g1]
  define y where "y = r\<lparr>tr_state := (tr_state r)\<lparr>tc_buffer := [b2], tc_buffered_items := length (mb_items b2)\<rparr>\<rparr>"
  have n: "length (mb_items b2) = length (mb_items b)" by (simp add: b2_def b1_def)
  have pushed: "buffer_tick_continuity_batch now b1 False r = (True, y, no_effects)"
    using l r(6,7) n
    by (auto simp: buffer_tick_continuity_batch_def y_def b2_def b1_def mark_def unat_gt_0 word_gt_0 Let_def cong: if_cong)
  have asked: "recover_tick_gap now b1 False 0 (bm_last_observed_time_ms (tr_state r)) t1 r =
    (gap_asked y t2, \<lparr>re_deliveries = [], re_updates = [], re_requests = [request_for_gap r t2]\<rparr>)"
    using gr(6-8) pushed by (simp add: recover_tick_gap_def gap_asked_def request_for_gap_def time y_def Let_def)
  have found: "(if True \<and> recovers_gaps (tco_mode (tr_options r)) \<and> \<not> tc_request_in_flight (tr_state r)
      \<and> tco_expected_interval_ms (tr_options r) > 0 \<and> bm_last_observed_time_ms (tr_state r) > 0
    then find_tick_gap (tco_expected_interval_ms (tr_options r)) (bm_last_observed_time_ms (tr_state r)) 0 (mb_items b1)
    else None) = Some (0, bm_last_observed_time_ms (tr_state r), t1)"
    using r gr(1,2) gap_found [OF g1] it by simp
  have gd: "\<not> (tr_phase r \<noteq> EP_ACTIVE \<or> \<not> tick_batch_matches_stream b (tr_stream r))" "\<not> \<not> tr_subscriber_alive r"
    "mb_items b \<noteq> []" "\<not> (continuity_enabled (tco_mode (tr_options r)) \<and> \<not> False \<and> buffers_live_data (tc_phase (tr_state r)))"
    using r b by (simp_all add: buffers_live_data_def)
  have "route_tick_to_entry now b False True r = (gap_asked y t2, \<lparr>re_deliveries = [], re_updates = [], re_requests = [request_for_gap r t2]\<rparr>)"
    unfolding route_tick_to_entry_def Let_def if_not_P [OF gd(1)] if_not_P [OF gd(2)] if_not_P [OF gd(3)]
      mark_def [symmetric] b1_def [symmetric] if_not_P [OF gd(4)] found option.case prod.case asked ..
  then have e: "route_ticks now b r = request_tick_continuity_history now (request_for_gap r t2) (gap_asked y t2)"
    by (simp add: route_ticks_def deliver_effects_def)
  let ?z = "route_ticks now b r"
  have again: "mark_live_payload (mark_live_payload w True) True = mark_live_payload w True" for w
    by (rule bit_word_eqI) (simp add: bit_mark_live)
  have ty: "sd_type (tr_stream r) = MDT_TICKS" using b(1) by (simp add: tick_batch_matches_stream_def)
  have y: "tr_phase y = EP_ACTIVE" "tr_stream y = tr_stream r" "tr_subscription y = tr_subscription r" "tr_subscriber_alive y"
    "tr_options y = tr_options r" "tr_history_interval_ms y = tr_history_interval_ms r" "tr_operations y = []" "tr_calls y = tr_calls r"
    "bm_last_observed_time_ms (tr_state y) = bm_last_observed_time_ms (tr_state r)"
    "tc_buffer (tr_state y) = [b2]" "tc_buffered_items (tr_state y) = length (mb_items b2)"
    using r by (simp_all add: y_def)
  have z: "tr_phase ?z = EP_ACTIVE" "tr_stream ?z = tr_stream r" "tr_subscription ?z = tr_subscription r" "tr_subscriber_alive ?z"
    "tr_options ?z = tr_options r" "tr_history_interval_ms ?z = tr_history_interval_ms r"
    "bm_last_observed_time_ms (tr_state ?z) = bm_last_observed_time_ms (tr_state r)"
    "tc_buffer (tr_state ?z) = [b2]" "tc_buffered_items (tr_state ?z) = length (mb_items b2)"
    "tc_request_in_flight (tr_state ?z)" "tc_phase (tr_state ?z) = CP_RECOVERING" "tc_reconnect_target_time_ms (tr_state ?z) = tk_time_ms t2"
    "tr_operations ?z = [(request_for_gap r t2, tc_generation (tr_state ?z))]"
    using ty by (simp_all add: e gap_asked_frame y request_operations)
  have "held_batch ?z t2 b2"
    using it(2) b(1) by (simp add: held_batch_def z tick_batch_matches_stream_def)
      (auto simp: b2_def b1_def mark_def t2_def again list_all_iff)
  moreover have one: "0 < w \<Longrightarrow> Suc 0 \<le> unat w" for w :: u64 by (simp add: word_less_nat_alt)
  have "buffer_in_limits ?z"
    using l n one [of "tco_max_buffered_batches (tr_options r)"] by (simp add: buffer_in_limits_def buffered_ticks_def z Let_def)
  moreover have "gap_before ?z t2" using g time by (simp add: gap_before_def z)
  moreover have "request_for_gap ?z t2 = request_for_gap r t2" by (simp add: request_for_gap_def z)
  ultimately have "waits_for_gap ?z t2" using ty r(3) by (simp add: waits_for_gap_def z)
  moreover have "tr_calls ?z = tr_calls r @ map Tick_continuity (gap_notices r t)"
  proof -
    let ?x = "gap_asked y t2"
    have x: "tr_phase ?x = EP_ACTIVE" "sd_type (tr_stream ?x) = MDT_TICKS" "tc_request_in_flight (tr_state ?x)" "tr_subscriber_alive ?x"
      using ty by (simp_all add: gap_asked_frame y)
    have p: "pr_kind (request_for_gap r t2) = CRK_GAP_BACKFILL" "pr_announce_gap (request_for_gap r t2)"
      by (simp_all add: request_for_gap_def Let_def)
    show ?thesis unfolding e request_gap_calls [OF x p]
      by (simp add: gap_asked_frame y gap_notices_def request_for_gap_def time Let_def)
  qed
  ultimately show ?thesis
    using time by (intro exI [of _ t2]) (simp add: gap_notices_def request_for_gap_def z)
qed


subsection \<open>A subscription\<close>

definition sample_options :: "continuity_mode \<Rightarrow> tick_continuity_options" where
  "sample_options mode = tick_continuity_options_default\<lparr>tco_mode := mode, tco_expected_interval_ms := 1000\<rparr>"

definition sample_request :: "continuity_mode \<Rightarrow> tick_subscription_request" where
  "sample_request mode = \<lparr>tsr_symbol = ''EURUSD'', tsr_transport = MTR_AUTO, tsr_continuity = sample_options mode\<rparr>"

definition sample_handle :: subscription_handle where
  "sample_handle = \<lparr>sh_provider_id = 7, sh_id = 1, sh_symbol = ''EURUSD'', sh_stream_type = MDT_TICKS, sh_timeframe = 0,
     sh_price_source = BPS_MID, sh_transport = MTR_AUTO\<rparr>"

definition sample_clock :: route_clock where
  "sample_clock = \<lparr>rk_now = 0, rk_provider_time_ms = 20000, rk_local_time_ms = 20000\<rparr>"

definition sample_tick :: "u64 \<Rightarrow> tick" where
  "sample_tick t = tick_default\<lparr>tk_time_ms := t\<rparr>"

definition sample_batch :: "u64 \<Rightarrow> tick md_batch" where
  "sample_batch t = \<lparr>mb_items = [sample_tick t], mb_subscription = sample_handle, mb_type = MDT_TICKS, mb_symbol = ''EURUSD'',
     mb_timeframe = 0, mb_price_digits = 5, mb_volume_digits = 0\<rparr>"

text \<open>The provider observed no tick in the range that was asked for, and says so.\<close>

definition nothing_observed :: "tick_sequence history_result" where
  "nothing_observed = history_ok tick_sequence_default 200 True"

definition sample_route :: "continuity_mode \<Rightarrow> tick_route" where
  "sample_route mode = activate_tick_route sample_clock sample_handle None (make_tick_route TDM_PROVIDER_DEFAULT 0 (sample_request mode))"

lemmas sample_defs = sample_options_def sample_request_def sample_handle_def sample_clock_def sample_tick_def sample_batch_def
  sample_route_def nothing_observed_def

lemmas route_defs = activate_tick_route_def make_tick_route_def tick_continuity_state_default_def stream_from_handle_def
  tick_continuity_options_default_def tick_default_def 

definition marked :: "bool \<Rightarrow> u64 \<Rightarrow> tick md_batch" where
  "marked buffered t = (sample_batch t)\<lparr>mb_items := [(sample_tick t)\<lparr>tk_flags := mark_live_payload 0 buffered\<rparr>]\<rparr>"

definition flowing_route :: "tick_route_call list \<Rightarrow> continuity_monitor \<Rightarrow> tick_route" where
  "flowing_route calls m = \<lparr>tr_phase = EP_ACTIVE, tr_stream = stream_from_handle sample_handle, tr_subscription = sample_handle,
     tr_subscriber_alive = True, tr_release_requested = False, tr_options = sample_options CM_PREFILL_AND_RECOVER,
     tr_mode = TDM_EXACT_OBSERVATION, tr_history_interval_ms = 0,
     tr_state = \<lparr>bm_last_observed_time_ms = 7000, bm_verified_through_time_ms = 7000, bm_unverified_from_time_ms = 0,
       tm_last_delivered_tick_time_ms = 7000, tm_last_delivered_tick_observations = mb_items (marked False 7000),
       tc_phase = CP_LIVE, tc_initial_prefill_pending = False, tc_request_in_flight = False,
       tc_buffer = [], tc_buffered_items = 0, tc_initial_prefill_boundary_time_ms = 0, tc_generation = 0,
       tc_reconnect_target_time_ms = 0, tc_retry_request = None, tc_retry_at = 0, tc_monitor = m\<rparr>,
     tr_operations = [], tr_calls = calls\<rparr>"

lemmas step_defs = continuity_enabled_def recovers_gaps_def resolve_tick_deduplication_mode_def tick_progress_def
  tick_batch_matches_stream_def record_tick_progress_def deliver_effects_def buffers_live_data_def
  observe_tick_def transport_matches_def

lemma first_tick:
  "tick_step (sample_route CM_PREFILL_AND_RECOVER) (sample_clock, Ticks (sample_batch 7000)) =
     flowing_route [Live_ticks (marked False 7000)] continuity_monitor_default"
  by (simp add: route_ticks_def route_tick_to_entry_def sample_defs route_defs step_defs marked_def flowing_route_def Let_def)

lemma flowing_before_gap: "live_before_gap (flowing_route calls m) (sample_batch 12000) (sample_tick 12000)"
  by (simp add: live_before_gap_def flowing_route_def gap_before_def sample_options_def sample_batch_def sample_tick_def
      tick_continuity_options_default_def recovers_gaps_def tick_batch_matches_stream_def stream_from_handle_def sample_handle_def
      tick_default_def Let_def)

lemma nothing_observed_empty: "empty_answer nothing_observed"
  by (simp add: empty_answer_def nothing_observed_def history_ok_def tick_sequence_default_def)

lemma empty_answers: "list_all (\<lambda>(clk, e). \<exists>a. e = Answer 0 a \<and> empty_answer a) (replicate n (sample_clock, Answer 0 nothing_observed))"
  by (simp add: list_all_iff nothing_observed_empty)

definition gap_run :: "nat \<Rightarrow> tick_route" where
  "gap_run n = foldl tick_step (sample_route CM_PREFILL_AND_RECOVER)
     ([(sample_clock, Ticks (sample_batch 7000)), (sample_clock, Ticks (sample_batch 12000))]
      @ replicate n (sample_clock, Answer 0 nothing_observed))"

lemma gap_run_unfold:
  "gap_run n = foldl tick_step (activate_tick_route sample_clock sample_handle None
     (make_tick_route TDM_PROVIDER_DEFAULT 0 (sample_request CM_PREFILL_AND_RECOVER)))
     ([(sample_clock, Ticks (sample_batch 7000)), (sample_clock, Ticks (sample_batch 12000))]
      @ replicate n (sample_clock, Answer 0 nothing_observed))"
  by (simp only: gap_run_def sample_route_def)

lemma gap_run_flows:
  "gap_run n = foldl tick_step (flowing_route [Live_ticks (marked False 7000)] continuity_monitor_default)
     ((sample_clock, Ticks (sample_batch 12000)) # replicate n (sample_clock, Answer 0 nothing_observed))"
  unfolding gap_run_def by (simp add: first_tick del: tick_step.simps)


lemma gap_run_waits: "\<exists>t. waits_for_gap (gap_run n) t"
proof -
  let ?f = "flowing_route [Live_ticks (marked False 7000)] continuity_monitor_default"
  obtain t where "waits_for_gap (route_ticks (rk_now sample_clock) (sample_batch 12000) ?f) t"
    using gap_opens [OF flowing_before_gap] by blast
  from empty_answers_change_nothing [OF this empty_answers [of n]] show ?thesis
    by (auto simp: gap_run_flows Let_def)
qed


theorem live_ticks_conserved_witness:
  "\<exists>dropped. mset (map observation (live_ticks (gap_run 3) @ buffered_ticks (tr_state (gap_run 3)) @ dropped))
       = mset (map observation [sample_tick 7000, sample_tick 12000])
     \<and> list_all (seen_key (tr_mode (gap_run 3)) (live_ticks (gap_run 3) @ history_ticks (gap_run 3))) dropped"
proof -
  let ?es = "[(sample_clock, Ticks (sample_batch 7000)), (sample_clock, Ticks (sample_batch 12000))] @ replicate 3 (sample_clock, Answer 0 nothing_observed)"
  have "list_all (\<lambda>(clk, e). stays e) ?es" by (simp add: stays_def numeral_3_eq_3)
  from live_ticks_conserved [OF gap_run_unfold [of 3] this]
  have "\<exists>dropped. mset (map observation (live_ticks (gap_run 3) @ buffered_ticks (tr_state (gap_run 3)) @ dropped))
       = mset (map observation (concat (map (\<lambda>(clk, e). incoming (stream_from_handle sample_handle) e) ?es)))
     \<and> list_all (seen_key (tr_mode (gap_run 3)) (live_ticks (gap_run 3) @ history_ticks (gap_run 3))) dropped" .
  moreover have "concat (map (\<lambda>(clk, e). incoming (stream_from_handle sample_handle) e) ?es) = [sample_tick 7000, sample_tick 12000]"
    by (simp add: numeral_3_eq_3 sample_batch_def tick_batch_matches_stream_def stream_from_handle_def sample_handle_def)
  ultimately show ?thesis by (simp only:)
qed

theorem live_means_verified_witness:
  "bm_unverified_from_time_ms (tr_state (flowing_route [Live_ticks (marked False 7000)] continuity_monitor_default)) = 0"
proof (rule live_means_verified)
  show "flowing_route [Live_ticks (marked False 7000)] continuity_monitor_default =
    foldl tick_step (activate_tick_route sample_clock sample_handle None
      (make_tick_route TDM_PROVIDER_DEFAULT 0 (sample_request CM_PREFILL_AND_RECOVER))) [(sample_clock, Ticks (sample_batch 7000))]"
    using first_tick by (simp add: sample_route_def)
  show "tc_phase (tr_state (flowing_route [Live_ticks (marked False 7000)] continuity_monitor_default)) = CP_LIVE"
    by (simp add: flowing_route_def)
qed

end
