(* ===== verification/Encodings.thy ===== *)
theory Encodings
  imports StringUtils "HOL-Library.Signed_Division"
begin

unbundle bit_operations_syntax

section \<open>Text encodings\<close>

text \<open>
  The two codecs of \<open>src/include/optionx_cpp/utils\<close>: \<open>Base36.hpp\<close> (integers, arrays and strings in
  36 symbols) and \<open>Base64.hpp\<close>. Functions that throw return a sum, the error on the left. A
  codec is a pair of an encoder and a fallible decoder with the law that decoding an encoded value
  gives the value back; the locale states what follows from the law, and both codecs are
  interpretations of it.
\<close>

subsection \<open>Fallible results\<close>

fun attempt_bind :: "'e + 'a \<Rightarrow> ('a \<Rightarrow> 'e + 'b) \<Rightarrow> 'e + 'b" where
  "attempt_bind (Inl e) f = Inl e"
| "attempt_bind (Inr x) f = f x"

definition guard_or :: "bool \<Rightarrow> 'e \<Rightarrow> 'e + unit" where
  "guard_or b e = (if b then Inr () else Inl e)"

fun attempt_map :: "('a \<Rightarrow> 'e + 'b) \<Rightarrow> 'a list \<Rightarrow> 'e + 'b list" where
  "attempt_map f [] = Inr []"
| "attempt_map f (x # xs) = attempt_bind (f x) (\<lambda>y. attempt_bind (attempt_map f xs) (\<lambda>ys. Inr (y # ys)))"

named_theorems attempt_iff \<open>when a fallible step succeeds, and with what\<close>

lemma attempt_bind_Inr [attempt_iff]: "attempt_bind m f = Inr y \<longleftrightarrow> (\<exists>x. m = Inr x \<and> f x = Inr y)"
  by (cases m) simp_all

lemma guard_or_Inr [attempt_iff]: "guard_or b e = Inr u \<longleftrightarrow> b"
  by (simp add: guard_or_def)

lemma guard_or_simps [simp]: "guard_or True e = Inr ()" "guard_or False e = Inl e"
  by (simp_all add: guard_or_def)

lemma attempt_map_Inr:
  "attempt_map f xs = Inr ys \<longleftrightarrow> list_all2 (\<lambda>x y. f x = Inr y) xs ys"
  by (induction xs arbitrary: ys) (auto simp: attempt_iff list_all2_Cons1)

subsection \<open>Codecs\<close>

locale string_codec =
  fixes enc :: "'a \<Rightarrow> string"
    and dec :: "string \<Rightarrow> 'e + 'a"
    and valid :: "'a \<Rightarrow> bool"
  assumes dec_enc: "valid x \<Longrightarrow> dec (enc x) = Inr x"
begin

lemma enc_inj: "valid x \<Longrightarrow> valid y \<Longrightarrow> enc x = enc y \<longleftrightarrow> x = y"
  by (metis dec_enc sum.inject(2))

lemma dec_surj: "valid x \<Longrightarrow> \<exists>s. dec s = Inr x"
  using dec_enc by blast

text \<open>Normalising a text (decode, then encode) gives a text that normalising leaves alone.\<close>

lemma reencode_stable: "dec s = Inr x \<Longrightarrow> valid x \<Longrightarrow> dec (enc x) = dec s"
  by (simp add: dec_enc)

end

subsection \<open>Base36\<close>

datatype codec_error = Invalid_argument string | Signed_overflow

definition BASE36_MAP :: string where
  "BASE36_MAP = ''0123456789abcdefghijklmnopqrstuvwxyz''"

definition init_char_map :: "char \<Rightarrow> int option" where
  "init_char_map c = (if CHR ''0'' \<le> c \<and> c \<le> CHR ''9'' then Some (of_char c - 48)
     else if CHR ''a'' \<le> c \<and> c \<le> CHR ''z'' then Some (of_char c - 97 + 10)
     else if CHR ''A'' \<le> c \<and> c \<le> CHR ''Z'' then Some (of_char c - 65 + 10)
     else None)"

text \<open>\<open>encode_int\<close>: the \<open>do\<close> loop. \<open>%\<close> and \<open>/\<close> truncate towards zero; a negative remainder indexes the
  table out of bounds, which is undefined: the loop then has no result.\<close>

function encode_int_loop :: "int \<Rightarrow> string \<Rightarrow> string option" where
  "encode_int_loop n result =
     (if n smod 36 < 0 then None
      else if n sdiv 36 > 0 then encode_int_loop (n sdiv 36) (BASE36_MAP ! nat (n smod 36) # result)
      else Some (BASE36_MAP ! nat (n smod 36) # result))"
  by pat_completeness auto

termination
  by (relation "measure (\<lambda>(n, r). nat n)") (auto simp: signed_divide_int_def sgn_if split: if_splits)

declare encode_int_loop.simps [simp del]

definition encode_int :: "int \<Rightarrow> string option" where
  "encode_int n = encode_int_loop n []"

text \<open>\<open>decode_int\<close>: from the last character, with \<open>result\<close> and \<open>base\<close> of type \<open>long long\<close>.\<close>

fun decode_int_loop :: "string \<Rightarrow> int \<Rightarrow> int \<Rightarrow> codec_error + int" where
  "decode_int_loop [] result base = Inr result"
| "decode_int_loop (c # cs) result base = (case init_char_map c of
     None \<Rightarrow> Inl (Invalid_argument ''Invalid Base36 character'')
   | Some v \<Rightarrow> if \<not> i64 (v * base) \<or> \<not> i64 (result + v * base) \<or> \<not> i64 (base * 36) then Inl Signed_overflow
       else decode_int_loop cs (result + v * base) (base * 36))"

definition decode_int :: "string \<Rightarrow> codec_error + int" where
  "decode_int s = decode_int_loop (rev s) 0 1"

definition encode_array :: "int list \<Rightarrow> string" where
  "encode_array arr = map (\<lambda>x. if x \<ge> 36 \<or> x < 0 then CHR ''?'' else BASE36_MAP ! nat x) arr"

definition decode_array :: "string \<Rightarrow> int list \<Rightarrow> int list" where
  "decode_array str vec = vec @ map (\<lambda>c. case init_char_map c of None \<Rightarrow> - 1 | Some v \<Rightarrow> v) str"

text \<open>\<open>encode_string\<close>: two symbols for every byte, the code of a byte being an \<open>unsigned char\<close>.\<close>

definition encode_byte :: "char \<Rightarrow> string" where
  "encode_byte c = (case encode_int (of_char c) of None \<Rightarrow> []
     | Some encoded \<Rightarrow> if length encoded = 1 then CHR ''0'' # encoded else encoded)"

definition encode_string :: "string \<Rightarrow> string" where
  "encode_string input = concat (map encode_byte input)"

definition decode_chunk :: "string \<Rightarrow> codec_error + char" where
  "decode_chunk chunk = attempt_bind (decode_int chunk) (\<lambda>value.
     if value < 0 \<or> value > 255 then Inl (Invalid_argument ''Invalid Base36 chunk for decoding.'')
     else Inr (char_of (nat value)))"

fun decode_string_loop :: "string \<Rightarrow> string \<Rightarrow> codec_error + string" where
  "decode_string_loop [] result = Inr result"
| "decode_string_loop [a] result = attempt_bind (decode_chunk [a]) (\<lambda>c. Inr (result @ [c]))"
| "decode_string_loop (a # b # cs) result =
     attempt_bind (decode_chunk [a, b]) (\<lambda>c. decode_string_loop cs (result @ [c]))"

definition decode_string :: "string \<Rightarrow> codec_error + string" where
  "decode_string input = (if length input mod 2 \<noteq> 0
     then Inl (Invalid_argument ''Invalid Base36 string length for decoding.'')
     else decode_string_loop input [])"

subsection \<open>Base64\<close>

definition BASE64_ALPHABET :: string where
  "BASE64_ALPHABET = ''ABCDEFGHIJKLMNOPQRSTUVWXYZabcdefghijklmnopqrstuvwxyz0123456789+/''"

text \<open>One round of the encoder: at most three bytes into a 24-bit buffer, and out in four symbols.\<close>

definition b64_buffer :: "string \<Rightarrow> u32" where
  "b64_buffer g = foldl (\<lambda>buffer j. buffer OR push_bit (16 - j * 8) (of_nat (of_char (g ! j)))) 0 [0..<length g]"

definition b64_symbols :: "string \<Rightarrow> string" where
  "b64_symbols g = map (\<lambda>j. if j < length g + 1
     then BASE64_ALPHABET ! unat (drop_bit (18 - j * 6) (b64_buffer g) AND 0x3F) else CHR ''='') [0..<4]"

fun b64_encode :: "string \<Rightarrow> string" where
  "b64_encode [] = []"
| "b64_encode (c # cs) = b64_symbols (take 3 (c # cs)) @ b64_encode (drop 3 (c # cs))"

definition BASE64_DECODING_TABLE :: "int list" where
  "BASE64_DECODING_TABLE =
    [-1, -1, -1, -1, -1, -1, -1, -1, -1, -1, -1, -1, -1, -1, -1, -1,
     -1, -1, -1, -1, -1, -1, -1, -1, -1, -1, -1, -1, -1, -1, -1, -1,
     -1, -1, -1, -1, -1, -1, -1, -1, -1, -1, -1, 62, -1, -1, -1, 63,
     52, 53, 54, 55, 56, 57, 58, 59, 60, 61, -1, -1, -1, -2, -1, -1,
     -1, 0, 1, 2, 3, 4, 5, 6, 7, 8, 9, 10, 11, 12, 13, 14,
     15, 16, 17, 18, 19, 20, 21, 22, 23, 24, 25, -1, -1, -1, -1, -1,
     -1, 26, 27, 28, 29, 30, 31, 32, 33, 34, 35, 36, 37, 38, 39, 40,
     41, 42, 43, 44, 45, 46, 47, 48, 49, 50, 51, -1, -1, -1, -1, -1]"

text \<open>\<open>char\<close> is signed: a byte above 127 is a negative character, which the decoder refuses.\<close>

fun b64_decode_loop :: "string \<Rightarrow> u32 \<Rightarrow> nat \<Rightarrow> string \<Rightarrow> string + string" where
  "b64_decode_loop [] buffer bits output = Inr output"
| "b64_decode_loop (c # cs) buffer bits output =
     (if c = CHR ''='' then Inr output
      else if (of_char c :: nat) > 127 \<or> BASE64_DECODING_TABLE ! of_char c = - 1 then Inl ''Invalid Base64 input.''
      else if bits + 6 \<ge> 8 then b64_decode_loop cs (push_bit 6 buffer OR word_of_int (BASE64_DECODING_TABLE ! of_char c))
             (bits + 6 - 8) (output @ [char_of (unat (drop_bit (bits + 6 - 8)
               (push_bit 6 buffer OR word_of_int (BASE64_DECODING_TABLE ! of_char c)) AND 0xFF))])
      else b64_decode_loop cs (push_bit 6 buffer OR word_of_int (BASE64_DECODING_TABLE ! of_char c)) (bits + 6) output)"

definition b64_decode :: "string \<Rightarrow> string + string" where
  "b64_decode input = b64_decode_loop input 0 0 []"

subsection \<open>Base36 gives back what it encoded\<close>

lemma BASE36_MAP_decodes: "d < 36 \<Longrightarrow> init_char_map (BASE36_MAP ! d) = Some (int d)"
proof -
  have "list_all (\<lambda>d. init_char_map (BASE36_MAP ! d) = Some (int d)) [0..<36]" by code_simp
  then show "d < 36 \<Longrightarrow> ?thesis" by (simp add: list_all_iff)
qed

function base36_le :: "nat \<Rightarrow> string" where
  "base36_le n = BASE36_MAP ! (n mod 36) # (if n div 36 > 0 then base36_le (n div 36) else [])"
  by pat_completeness auto
termination by (relation "measure id") auto

declare base36_le.simps [simp del]

lemma encode_int_loop_le: "encode_int_loop (int n) r = Some (rev (base36_le n) @ r)"
proof (induction n arbitrary: r rule: base36_le.induct)
  case (1 n)
  have m: "int n smod 36 = int (n mod 36)"
    by (simp add: signed_modulo_int_def zmod_int sgn_if)
  have d: "int n sdiv 36 = int (n div 36)"
    by (simp add: signed_divide_int_def zdiv_int sgn_if)
  show ?case
    using 1 by (subst encode_int_loop.simps, subst base36_le.simps) (simp add: m d del: of_nat_mod of_nat_div zmod_int zdiv_int)
qed

lemma decode_int_loop_le:
  "k < 12 \<Longrightarrow> n < 36 ^ (12 - k) \<Longrightarrow> res < 36 ^ k \<Longrightarrow>
   decode_int_loop (base36_le n) (int res) (36 ^ k) = Inr (int (res + n * 36 ^ k))"
proof (induction n arbitrary: k res rule: base36_le.induct)
  case (1 n)
  let ?d = "n mod 36"
  have split: "n = 36 * (n div 36) + ?d" by simp
  have pk: "(36 :: nat) ^ Suc k \<le> 36 ^ 12" using 1(2) by (intro power_increasing) auto
  have "?d \<le> 35" using pos_mod_bound by (simp add: less_Suc_eq_le [symmetric])
  then have dk: "?d * 36 ^ k \<le> 35 * 36 ^ k" by simp
  have b1: "res + ?d * 36 ^ k < 36 ^ Suc k" unfolding power_Suc using dk 1(4) by linarith
  have big: "(36 :: nat) ^ 12 = 4738381338321616896" by simp
  have c1: "i64 (int ?d * 36 ^ k)"
  proof -
    have "int (?d * 36 ^ k) \<le> 4738381338321616896" using b1 pk big by linarith
    moreover have "0 \<le> int ?d * 36 ^ k" by simp
    ultimately show ?thesis unfolding i64_def by (simp only: of_nat_mult of_nat_power of_nat_numeral) linarith
  qed
  have c2: "i64 (int res + int ?d * 36 ^ k)"
  proof -
    have "int (res + ?d * 36 ^ k) \<le> 4738381338321616896" using b1 pk big by linarith
    moreover have "0 \<le> int ?d * 36 ^ k" by simp
    moreover have "0 \<le> int res" by simp
    ultimately show ?thesis unfolding i64_def by (simp only: of_nat_mult of_nat_add of_nat_power of_nat_numeral) linarith
  qed
  have c3: "i64 (36 ^ k * 36)"
  proof -
    have "int (36 ^ Suc k) \<le> 4738381338321616896" using pk big by linarith
    moreover have "(0 :: int) \<le> 36 ^ k * 36" by simp
    ultimately show ?thesis unfolding i64_def by (simp only: power_Suc2 of_nat_mult of_nat_power of_nat_numeral) linarith
  qed
  have step: "decode_int_loop (BASE36_MAP ! ?d # cs) (int res) (36 ^ k)
      = decode_int_loop cs (int (res + ?d * 36 ^ k)) (36 ^ Suc k)" for cs
    using c1 c2 c3 by (simp add: BASE36_MAP_decodes mult.commute)
  show ?case
  proof (cases "n div 36 > 0")
    case True
    have "n div 36 < 36 ^ (12 - Suc k)"
    proof -
      have "(36 :: nat) ^ (12 - k) = 36 * 36 ^ (12 - Suc k)" using 1(2) by (simp flip: power_Suc add: Suc_diff_Suc)
      then show ?thesis using 1(3) by simp
    qed
    moreover from this True have "Suc k < 12" by (cases "Suc k = 12") (use 1(2) in auto)
    ultimately have "decode_int_loop (base36_le (n div 36)) (int (res + ?d * 36 ^ k)) (36 ^ Suc k)
        = Inr (int (res + ?d * 36 ^ k + n div 36 * 36 ^ Suc k))"
      using 1(1) [OF True] b1 by blast
    moreover have "res + ?d * 36 ^ k + n div 36 * 36 ^ Suc k = res + n * 36 ^ k"
    proof -
      have "?d * 36 ^ k + n div 36 * 36 ^ Suc k = (36 * (n div 36) + ?d) * 36 ^ k" by (simp only: power_Suc algebra_simps)
      then show ?thesis by (simp only: split [symmetric] add.assoc)
    qed
    ultimately show ?thesis using True by (subst base36_le.simps) (simp only: step if_True)
  next
    case False
    then have "n < 36" by simp
    then have d: "?d = n" by simp
    have le: "base36_le n = [BASE36_MAP ! ?d]" using False by (subst base36_le.simps) simp
    show ?thesis unfolding le using step [of "[]"] by (simp only: decode_int_loop.simps(1) d)
  qed
qed

lemma encode_int_some: "0 \<le> n \<Longrightarrow> encode_int n = Some (rev (base36_le (nat n)))"
  using encode_int_loop_le [of "nat n" "[]"] by (simp add: encode_int_def)

lemma decode_encode_int:
  assumes "0 \<le> n" and "n < 36 ^ 12"
  shows "decode_int (the (encode_int n)) = Inr n"
proof -
  have "nat n < 36 ^ 12" using assms by simp
  then have "decode_int_loop (base36_le (nat n)) (int 0) (36 ^ 0) = Inr (int (0 + nat n * 36 ^ 0))"
    by (intro decode_int_loop_le) simp_all
  then show ?thesis using assms by (simp add: encode_int_some decode_int_def)
qed

interpretation base36_int: string_codec "\<lambda>n. the (encode_int n)" decode_int "\<lambda>n. 0 \<le> n \<and> n < 36 ^ 12"
  by unfold_locales (simp add: decode_encode_int)

lemma base36_le_small:
  "n < 36 \<Longrightarrow> base36_le n = [BASE36_MAP ! n]"
  "36 \<le> n \<Longrightarrow> n < 1296 \<Longrightarrow> base36_le n = [BASE36_MAP ! (n mod 36), BASE36_MAP ! (n div 36)]"
proof -
  show one: "base36_le m = [BASE36_MAP ! m]" if "m < 36" for m
    using that by (subst base36_le.simps) simp
  assume "36 \<le> n" and "n < 1296"
  then have "n div 36 > 0" and "n div 36 < 36" by auto
  then show "base36_le n = [BASE36_MAP ! (n mod 36), BASE36_MAP ! (n div 36)]"
    by (subst base36_le.simps) (simp add: one)
qed

lemma encode_byte_two: "length (encode_byte c) = 2 \<and> decode_chunk (encode_byte c) = Inr c"
proof -
  define n where "n = (of_char c :: nat)"
  have n: "n < 256" by (simp add: n_def)
  have c: "char_of n = c" by (simp add: n_def)
  have e: "encode_int (of_char c) = Some (rev (base36_le n))"
    using encode_int_some [OF of_nat_0_le_iff [of n]] by (simp add: n_def of_nat_of_char del: of_nat_0_le_iff)
  show ?thesis
  proof (cases "n < 36")
    case True
    then have "encode_byte c = [BASE36_MAP ! 0, BASE36_MAP ! n]"
      by (simp add: encode_byte_def e base36_le_small) (simp add: BASE36_MAP_def)
    then show ?thesis using True n
      by (simp add: decode_chunk_def decode_int_def BASE36_MAP_decodes i64_def c)
  next
    case False
    then have "encode_byte c = [BASE36_MAP ! (n div 36), BASE36_MAP ! (n mod 36)]" using n
      by (simp add: encode_byte_def e base36_le_small)
    moreover have "int (n mod 36) + int (n div 36) * 36 = int n" by presburger
    moreover have "n div 36 < 36" "n mod 36 < 36" "int (n div 36) < 36" "int (n mod 36) < 36" using n by auto
    ultimately show ?thesis using n
      by (simp add: decode_chunk_def decode_int_def BASE36_MAP_decodes i64_def c
          del: of_nat_mod of_nat_div zmod_int zdiv_int)
  qed
qed

lemma decode_string_loop_encoded:
  "decode_string_loop (concat (map encode_byte s)) result = Inr (result @ s)"
proof (induction s arbitrary: result)
  case (Cons c s)
  obtain a b where ab: "encode_byte c = [a, b]"
    using encode_byte_two [of c] by (auto simp: length_Suc_conv numeral_2_eq_2)
  then have "decode_chunk [a, b] = Inr c" using encode_byte_two [of c] by simp
  then show ?case using Cons.IH by (simp add: ab)
qed simp

lemma length_encode_string: "length (encode_string s) = 2 * length s"
  by (induction s) (simp_all add: encode_string_def encode_byte_two)

interpretation base36_text: string_codec encode_string decode_string "\<lambda>_. True"
  by unfold_locales (simp add: decode_string_def length_encode_string,
    simp add: encode_string_def decode_string_loop_encoded)

text \<open>The decoder does not distinguish the cases of a letter.\<close>

lemma of_char_int: "n < 256 \<Longrightarrow> (of_char (char_of (n :: nat)) :: int) = int n"
  by (subst of_nat_of_char [symmetric]) simp

lemma init_char_map_code: "(n :: nat) < 256 \<Longrightarrow> init_char_map (char_of n) =
    (if 48 \<le> n \<and> n \<le> 57 then Some (int n - 48) else if 97 \<le> n \<and> n \<le> 122 then Some (int n - 87)
     else if 65 \<le> n \<and> n \<le> 90 then Some (int n - 55) else None)"
  by (simp add: init_char_map_def less_eq_char_def of_char_int)

lemma c_toupper_code: "(n :: nat) < 256 \<Longrightarrow> c_toupper (char_of n) = char_of (if 97 \<le> n \<and> n \<le> 122 then n - 32 else n)"
  by (simp add: c_toupper_def)

lemma init_char_map_upper: "init_char_map (c_toupper c) = init_char_map c"
proof -
  define n where "n = (of_char c :: nat)"
  have n: "n < 256" and c: "c = char_of n" by (simp_all add: n_def)
  have m: "(if 97 \<le> n \<and> n \<le> 122 then n - 32 else n) < 256" using n by (auto intro: le_less_trans [OF diff_le_self])
  show ?thesis
    unfolding c c_toupper_code [OF n] init_char_map_code [OF n] init_char_map_code [OF m] using n by auto
qed

lemma decode_int_loop_upper: "decode_int_loop (map c_toupper cs) r b = decode_int_loop cs r b"
  by (induction cs arbitrary: r b) (simp_all add: init_char_map_upper split: option.split)

lemma decode_array_encode: "decode_array (encode_array v) [] = map (\<lambda>x. if 0 \<le> x \<and> x < 36 then x else - 1) v"
  by (auto simp: encode_array_def decode_array_def BASE36_MAP_decodes, simp_all add: init_char_map_def)

subsection \<open>Base64 gives back what it encoded\<close>

lemma b64_symbol:
  assumes "d < 64"
  shows "BASE64_ALPHABET ! d \<noteq> CHR ''=''" and "(of_char (BASE64_ALPHABET ! d) :: nat) \<le> 127"
    and "BASE64_DECODING_TABLE ! of_char (BASE64_ALPHABET ! d) = int d"
proof -
  have "list_all (\<lambda>d. BASE64_ALPHABET ! d \<noteq> CHR ''='' \<and> (of_char (BASE64_ALPHABET ! d) :: nat) \<le> 127
      \<and> BASE64_DECODING_TABLE ! of_char (BASE64_ALPHABET ! d) = int d) [0..<64]" by code_simp
  with assms show "BASE64_ALPHABET ! d \<noteq> CHR ''=''" "(of_char (BASE64_ALPHABET ! d) :: nat) \<le> 127"
    "BASE64_DECODING_TABLE ! of_char (BASE64_ALPHABET ! d) = int d" by (simp_all add: list_all_iff)
qed

lemma six_bits: "unat ((w :: u32) AND 63) < 64"
proof -
  have "w AND 63 = take_bit 6 w" by (simp add: take_bit_eq_mask mask_eq_exp_minus_1)
  moreover have "take_bit 6 (unat w) < 2 ^ 6" by (rule take_bit_nat_less_exp)
  ultimately show ?thesis by (simp add: unsigned_take_bit_eq)
qed

lemma b64_step:
  "b64_decode_loop (BASE64_ALPHABET ! unat (w AND 63) # cs) buffer bits output =
     (if bits + 6 \<ge> 8 then b64_decode_loop cs (push_bit 6 buffer OR (w AND 63)) (bits + 6 - 8)
          (output @ [char_of (unat (drop_bit (bits + 6 - 8) (push_bit 6 buffer OR (w AND 63)) AND 0xFF))])
      else b64_decode_loop cs (push_bit 6 buffer OR (w AND 63)) (bits + 6) output)"
proof -
  note s = b64_symbol [OF six_bits [of w]]
  have i: "word_of_int (int (unat (w AND 63))) = w AND 63" by simp
  have n: "int (unat (w AND 63)) \<noteq> - 1" by linarith
  show ?thesis
    using s(1,2) by (simp only: b64_decode_loop.simps s(3) i n if_False not_le [symmetric] not_not simp_thms)
qed

lemma masks: "(63 :: u32) = mask 6" "(255 :: u32) = mask 8"
  by (simp_all add: mask_eq_exp_minus_1)

lemma b64_first: "drop_bit 4 (push_bit 6 (push_bit 6 B OR (drop_bit 18 X AND 63)) OR (drop_bit 12 X AND 63)) AND 255
    = drop_bit 16 (X :: u32) AND 255"
  unfolding masks by (rule bit_word_eqI) (auto simp: bit_simps)

lemma b64_second: "drop_bit 2 (push_bit 6 (push_bit 6 (push_bit 6 B OR (drop_bit 18 X AND 63)) OR (drop_bit 12 X AND 63))
      OR (drop_bit 6 X AND 63)) AND 255 = drop_bit 8 (X :: u32) AND 255"
  unfolding masks by (rule bit_word_eqI) (auto simp: bit_simps)

lemma b64_third: "(push_bit 6 (push_bit 6 (push_bit 6 (push_bit 6 B OR (drop_bit 18 X AND 63)) OR (drop_bit 12 X AND 63))
      OR (drop_bit 6 X AND 63)) OR (X AND 63)) AND 255 = (X :: u32) AND 255"
  unfolding masks by (rule bit_word_eqI) (auto simp: bit_simps)

lemma unat_byte: "unat (of_nat (of_char c) :: u32) = of_char c"
proof -
  have "(of_char c :: nat) < 256" by simp
  moreover have "(256 :: nat) < 2 ^ LENGTH(32)" by simp
  ultimately have "(of_char c :: nat) < 2 ^ LENGTH(32)" by (rule less_trans)
  then show ?thesis by (simp add: unat_of_nat take_bit_nat_eq_self del: len_bit0)
qed

lemma byte_word: "(of_nat (of_char c) :: u32) AND 255 = of_nat (of_char c)"
proof -
  have "unat (of_nat (of_char c) :: u32) < 2 ^ 8" by (simp only: unat_byte) simp
  then have "take_bit 8 (of_nat (of_char c) :: u32) = of_nat (of_char c)" 

    by (intro unsigned_word_eqI [where 'a = nat]) (simp only: unsigned_take_bit_eq take_bit_nat_eq_self)
  then show ?thesis by (simp add: take_bit_eq_mask masks)
qed

lemma byte_back: "char_of (unat (of_nat (of_char c) :: u32)) = c"
  by (simp only: unat_byte char_of_char)

lemma high_bits: "(w AND 255) = w \<Longrightarrow> 8 \<le> i \<Longrightarrow> \<not> bit (w :: u32) i"
  by (metis bit_and_iff bit_mask_iff masks(2) not_le)

lemma b64_bytes:
  fixes a b c :: u32
  assumes "a AND 255 = a" and "b AND 255 = b" and "c AND 255 = c"
  defines "X \<equiv> push_bit 16 a OR push_bit 8 b OR c"
  shows "drop_bit 16 X AND 255 = a" and "drop_bit 8 X AND 255 = b" and "X AND 255 = c"
proof -
  note h = high_bits [OF assms(1)] high_bits [OF assms(2)] high_bits [OF assms(3)]
  have "bit (drop_bit 16 X AND 255) n = bit a n" if "n < 32" for n
    unfolding X_def masks using h that by (cases "n < 8") (simp_all add: bit_simps)
  then show "drop_bit 16 X AND 255 = a" by (intro bit_word_eqI) simp
  have "bit (drop_bit 8 X AND 255) n = bit b n" if "n < 32" for n
    unfolding X_def masks using h that by (cases "n < 8") (simp_all add: bit_simps)
  then show "drop_bit 8 X AND 255 = b" by (intro bit_word_eqI) simp
  have "bit (X AND 255) n = bit c n" if "n < 32" for n
    unfolding X_def masks using h that by (cases "n < 8") (simp_all add: bit_simps)
  then show "X AND 255 = c" by (intro bit_word_eqI) simp
qed

lemma zero_byte: "(0 :: u32) AND 255 = 0"
  by simp

lemma b64_buffer_simps:
  "b64_buffer [a] = push_bit 16 (of_nat (of_char a)) OR push_bit 8 0 OR 0"
  "b64_buffer [a, b] = push_bit 16 (of_nat (of_char a)) OR push_bit 8 (of_nat (of_char b)) OR 0"
  "b64_buffer [a, b, c] = push_bit 16 (of_nat (of_char a)) OR push_bit 8 (of_nat (of_char b)) OR of_nat (of_char c)"
  by (simp_all add: b64_buffer_def upt_rec or.assoc)

lemma b64_symbols_simps:
  "b64_symbols g = map (\<lambda>w. BASE64_ALPHABET ! unat (w AND 63)) (take (Suc (length g))
      [drop_bit 18 (b64_buffer g), drop_bit 12 (b64_buffer g), drop_bit 6 (b64_buffer g), b64_buffer g])
      @ replicate (3 - length g) CHR ''=''" if "g \<noteq> []" "length g \<le> 3"
  using that by (cases g; cases "tl g"; cases "tl (tl g)") (simp_all add: b64_symbols_def upt_rec numeral_eq_Suc)

lemma b64_steps:
  "b64_decode_loop (BASE64_ALPHABET ! unat (w AND 63) # cs) B 0 out =
     b64_decode_loop cs (push_bit 6 B OR (w AND 63)) 6 out"
  "b64_decode_loop (BASE64_ALPHABET ! unat (w AND 63) # cs) B 6 out =
     b64_decode_loop cs (push_bit 6 B OR (w AND 63)) 4
       (out @ [char_of (unat (drop_bit 4 (push_bit 6 B OR (w AND 63)) AND 255))])"
  "b64_decode_loop (BASE64_ALPHABET ! unat (w AND 63) # cs) B 4 out =
     b64_decode_loop cs (push_bit 6 B OR (w AND 63)) 2
       (out @ [char_of (unat (drop_bit 2 (push_bit 6 B OR (w AND 63)) AND 255))])"
  "b64_decode_loop (BASE64_ALPHABET ! unat (w AND 63) # cs) B 2 out =
     b64_decode_loop cs (push_bit 6 B OR (w AND 63)) 0
       (out @ [char_of (unat ((push_bit 6 B OR (w AND 63)) AND 255))])"
  unfolding b64_step by simp_all

text \<open>Whatever is left in the buffer from earlier rounds, a round gives its bytes back.\<close>

lemma b64_decode_group:
  "\<exists>B'. b64_decode_loop (b64_symbols [a, b, c] @ cs) B 0 out = b64_decode_loop cs B' 0 (out @ [a, b, c])"
proof -
  define X where "X = b64_buffer [a, b, c]"
  have "b64_symbols [a, b, c] = map (\<lambda>w. BASE64_ALPHABET ! unat (w AND 63)) [drop_bit 18 X, drop_bit 12 X, drop_bit 6 X, X]"
    by (simp add: b64_symbols_simps X_def)
  moreover have "drop_bit 16 X AND 255 = of_nat (of_char a)" "drop_bit 8 X AND 255 = of_nat (of_char b)"
      "X AND 255 = of_nat (of_char c)"
    unfolding X_def b64_buffer_simps 
    by (simp_all only: b64_bytes [OF byte_word byte_word byte_word])
  ultimately show ?thesis
    by (intro exI) (simp only: list.map append_Cons append_Nil b64_steps b64_first b64_second b64_third byte_back append_assoc)
qed

lemma b64_decode_tail:
  "b64_decode_loop (b64_symbols [a]) B 0 out = Inr (out @ [a])"
  "b64_decode_loop (b64_symbols [a, b]) B 0 out = Inr (out @ [a, b])"
proof -
  define X where "X = b64_buffer [a]"
  have "b64_symbols [a] = map (\<lambda>w. BASE64_ALPHABET ! unat (w AND 63)) [drop_bit 18 X, drop_bit 12 X] @ ''==''"
    by (simp add: b64_symbols_simps X_def numeral_eq_Suc)
  moreover have "drop_bit 16 X AND 255 = of_nat (of_char a)"
    unfolding X_def b64_buffer_simps 
    by (simp only: b64_bytes [OF byte_word zero_byte zero_byte])
  ultimately show "b64_decode_loop (b64_symbols [a]) B 0 out = Inr (out @ [a])"
    by (simp only: list.map append_Cons append_Nil b64_steps b64_first byte_back append_assoc) simp
next
  define X where "X = b64_buffer [a, b]"
  have "b64_symbols [a, b] = map (\<lambda>w. BASE64_ALPHABET ! unat (w AND 63)) [drop_bit 18 X, drop_bit 12 X, drop_bit 6 X] @ ''=''"
    by (simp add: b64_symbols_simps X_def numeral_eq_Suc)
  moreover have "drop_bit 16 X AND 255 = of_nat (of_char a)" "drop_bit 8 X AND 255 = of_nat (of_char b)"
    unfolding X_def b64_buffer_simps 
    by (simp_all only: b64_bytes [OF byte_word byte_word zero_byte])
  ultimately show "b64_decode_loop (b64_symbols [a, b]) B 0 out = Inr (out @ [a, b])"
    by (simp only: list.map append_Cons append_Nil b64_steps b64_first b64_second byte_back append_assoc) simp
qed

lemma b64_decode_loop_encode: "b64_decode_loop (b64_encode s) B 0 out = Inr (out @ s)"
proof (induction s arbitrary: B out rule: b64_encode.induct)
  case (2 x cs)
  show ?case
  proof (cases cs rule: list.exhaust [case_names Nil Cons])
    case Nil
    then show ?thesis by (simp add: b64_decode_tail)
  next
    case (Cons y ds)
    show ?thesis
    proof (cases ds)
      case Nil
      then show ?thesis using Cons by (simp add: b64_decode_tail)
    next
      case (Cons z es)
      then have s: "cs = y # z # es" using \<open>cs = y # ds\<close> by simp
      obtain B' where "b64_decode_loop (b64_symbols [x, y, z] @ b64_encode es) B 0 out
          = b64_decode_loop (b64_encode es) B' 0 (out @ [x, y, z])"
        using b64_decode_group by blast
      then show ?thesis using "2.IH" [of B' "out @ [x, y, z]"] by (simp add: s)
    qed
  qed
qed simp

interpretation base64: string_codec b64_encode b64_decode "\<lambda>_. True"
  by unfold_locales (simp add: b64_decode_def b64_decode_loop_encode)

lemma length_b64_encode: "length (b64_encode s) = 4 * ((length s + 2) div 3)"
proof (induction s rule: b64_encode.induct)
  case (2 c cs)
  have "length (b64_symbols (take 3 (c # cs))) = 4" by (simp add: b64_symbols_def)
  moreover have "4 + 4 * ((length (drop 3 (c # cs)) + 2) div 3) = 4 * ((length (c # cs) + 2) div 3)"
  proof (cases "length cs < 2")
    case True
    then show ?thesis by (cases "length cs") auto
  next
    case False
    then obtain m where "length cs = m + 2" by (metis add.commute le_Suc_ex not_less)
    then show ?thesis by simp presburger
  qed
  ultimately show ?case using 2 by (simp only: b64_encode.simps length_append)
qed simp

text \<open>A byte outside the alphabet before any padding is refused.\<close>

lemma b64_decode_loop_refuses:
  assumes "CHR ''='' \<notin> set s" and "c \<noteq> CHR ''=''"
    and "(of_char c :: nat) > 127 \<or> BASE64_DECODING_TABLE ! of_char c = - 1"
  shows "b64_decode_loop (s @ c # cs) B bits out = Inl ''Invalid Base64 input.''"
  using assms(1) by (induction s arbitrary: B bits out) (use assms(2,3) in auto)

end
