(* ===== verification/BotBinary.thy ===== *)
theory BotBinary
  imports Encodings Requests
begin

unbundle bit_operations_syntax

section \<open>The Bot binary protocol\<close>

text \<open>
  \<open>bridges/bot_binary/detail/BotBinaryProtocol.hpp\<close>: a trade command as the request value, the
  HTTP URL and the signal file name that BotBinary reads, and the parsers of the three. A function
  that throws returns a sum whose left side is the message of the exception. A string is its
  bytes; \<open>std::uint64_t\<close> is a word, so that the overflow guards are the code's.
\<close>

subsection \<open>Data\<close>

datatype bot_expiry_kind = BX_DURATION | BX_END_TIME

datatype bot_time_unit = BU_SECONDS | BU_MINUTES | BU_HOURS

record bot_config =
  bc_http_base_url :: string
  bc_include_suffix :: bool

definition bot_config_default :: bot_config where
  "bot_config_default = \<lparr>bc_http_base_url = ''http://127.0.0.2/'', bc_include_suffix = False\<rparr>"

record bot_command =
  bt_symbol :: string
  bt_order_type :: order_type
  bt_amount_value :: string
  bt_expiry_kind :: bot_expiry_kind
  bt_expiry_value :: u64
  bt_expiry_unit :: bot_time_unit
  bt_idempotency_key :: string
  bt_transport_suffix :: string

definition bot_command_default :: bot_command where
  "bot_command_default = \<lparr>bt_symbol = [], bt_order_type = ORD_UNKNOWN, bt_amount_value = [],
     bt_expiry_kind = BX_DURATION, bt_expiry_value = 0, bt_expiry_unit = BU_MINUTES,
     bt_idempotency_key = [], bt_transport_suffix = []\<rparr>"

record bot_prepared =
  bp_idempotency_key :: string
  bp_request_query_value :: string
  bp_http_url :: string
  bp_file_name :: string
  bp_transport_suffix :: string

record bot_parsed =
  bq_symbol :: string
  bq_order_type :: order_type
  bq_amount_value :: string
  bq_expiry_kind :: bot_expiry_kind
  bq_expiry_value :: u64
  bq_expiry_unit :: bot_time_unit
  bq_transport_suffix :: string

subsection \<open>Tokens\<close>

fun bot_binary_direction_token :: "order_type \<Rightarrow> string + string" where
  "bot_binary_direction_token ORD_BUY = Inr ''CALL''"
| "bot_binary_direction_token ORD_SELL = Inr ''PUT''"
| "bot_binary_direction_token ORD_UNKNOWN = Inl ''BotBinary command requires BUY or SELL order_type.''"

fun bot_binary_time_unit_token :: "bot_time_unit \<Rightarrow> string" where
  "bot_binary_time_unit_token BU_SECONDS = ''s''"
| "bot_binary_time_unit_token BU_MINUTES = ''m''"
| "bot_binary_time_unit_token BU_HOURS = ''h''"

definition bot_binary_order_type_from_direction :: "string \<Rightarrow> string + order_type" where
  "bot_binary_order_type_from_direction direction =
     (if direction = ''CALL'' then Inr ORD_BUY else if direction = ''PUT'' then Inr ORD_SELL
      else Inl ''BotBinary command requires CALL or PUT direction.'')"

definition bot_binary_time_unit_from_token :: "string \<Rightarrow> string + bot_time_unit" where
  "bot_binary_time_unit_from_token u =
     (if u = ''s'' then Inr BU_SECONDS else if u = ''m'' then Inr BU_MINUTES
      else if u = ''h'' then Inr BU_HOURS else Inl ''Invalid BotBinary time unit token.'')"

fun expiry_field_token :: "bot_expiry_kind \<Rightarrow> string" where
  "expiry_field_token BX_DURATION = ''duration''"
| "expiry_field_token BX_END_TIME = ''endtime''"

definition expiry_kind_from_token :: "string \<Rightarrow> string + bot_expiry_kind" where
  "expiry_kind_from_token token =
     (if token = ''duration'' then Inr BX_DURATION else if token = ''endtime'' then Inr BX_END_TIME
      else Inl ''Invalid BotBinary expiry field.'')"

subsection \<open>Command builders\<close>

definition bot_binary_duration_command ::
  "string \<Rightarrow> order_type \<Rightarrow> string \<Rightarrow> u64 \<Rightarrow> string \<Rightarrow> string + bot_command" where
  "bot_binary_duration_command symbol order amount seconds key =
     (if seconds = 0 then Inl ''BotBinary duration must be positive.''
      else Inr (bot_command_default\<lparr>bt_symbol := symbol, bt_order_type := order, bt_amount_value := amount,
        bt_expiry_kind := BX_DURATION, bt_idempotency_key := key,
        bt_expiry_value := (if seconds mod 3600 = 0 then seconds div 3600
          else if seconds mod 60 = 0 then seconds div 60 else seconds),
        bt_expiry_unit := (if seconds mod 3600 = 0 then BU_HOURS
          else if seconds mod 60 = 0 then BU_MINUTES else BU_SECONDS)\<rparr>))"

definition bot_binary_end_time_command ::
  "string \<Rightarrow> order_type \<Rightarrow> string \<Rightarrow> u64 \<Rightarrow> string \<Rightarrow> string + bot_command" where
  "bot_binary_end_time_command symbol order amount end_time key =
     (if end_time = 0 then Inl ''BotBinary endtime must be positive.''
      else Inr (bot_command_default\<lparr>bt_symbol := symbol, bt_order_type := order, bt_amount_value := amount,
        bt_expiry_kind := BX_END_TIME, bt_expiry_value := end_time, bt_expiry_unit := BU_SECONDS,
        bt_idempotency_key := key\<rparr>))"

subsection \<open>Validation\<close>

definition control_char :: "char \<Rightarrow> bool" where
  "control_char ch \<longleftrightarrow> (of_char ch :: nat) < 32 \<or> (of_char ch :: nat) = 127"

definition unsafe_chars :: string where
  "unsafe_chars = [CHR ''/'', CHR 0x5C, CHR '':'', CHR ''*'', CHR ''?'', CHR 0x22, CHR ''<'', CHR ''>'',
     CHR ''|'', CHR ''&'', CHR ''#'']"

definition has_forbidden_bot_binary_char :: "string \<Rightarrow> bool \<Rightarrow> bool" where
  "has_forbidden_bot_binary_char value allow_equals =
     list_ex (\<lambda>ch. control_char ch \<or> ch = CHR ''='' \<and> \<not> allow_equals \<or> ch \<in> set unsafe_chars) value"

definition validate_bot_binary_token :: "string \<Rightarrow> string \<Rightarrow> bool \<Rightarrow> string + unit" where
  "validate_bot_binary_token value field allow_equals =
     (if value = [] then Inl (''BotBinary '' @ field @ '' must not be empty.'')
      else if has_forbidden_bot_binary_char value allow_equals
           then Inl (''BotBinary '' @ field @ '' contains unsafe characters.'')
      else Inr ())"

definition validate_optionx_idempotency_key :: "string \<Rightarrow> string + unit" where
  "validate_optionx_idempotency_key value =
     (if value = [] then Inl ''BotBinary idempotency_key must not be empty.''
      else if length value > 512 then Inl ''BotBinary idempotency_key is too long.''
      else if list_ex control_char value then Inl ''BotBinary idempotency_key contains control characters.''
      else Inr ())"

text \<open>The loop over the amount, with its four flags.\<close>

fun amount_loop :: "string \<Rightarrow> bool \<Rightarrow> bool \<Rightarrow> bool \<Rightarrow> bool \<Rightarrow> string + unit" where
  "amount_loop [] seen_dot seen_digit seen_fraction_digit seen_nonzero_digit =
     (if \<not> seen_digit \<or> \<not> seen_nonzero_digit \<or> seen_dot \<and> \<not> seen_fraction_digit
      then Inl ''BotBinary amount must be positive.'' else Inr ())"
| "amount_loop (ch # cs) seen_dot seen_digit seen_fraction_digit seen_nonzero_digit =
     (if is_digit ch
      then amount_loop cs seen_dot True (seen_fraction_digit \<or> seen_dot) (seen_nonzero_digit \<or> ch \<noteq> CHR ''0'')
      else if ch = CHR ''.'' \<and> \<not> seen_dot
      then if \<not> seen_digit then Inl ''BotBinary amount must have a digit before decimal point.''
           else amount_loop cs True seen_digit seen_fraction_digit seen_nonzero_digit
      else Inl ''BotBinary amount must be a positive ASCII decimal string.'')"

definition validate_positive_decimal_amount :: "string \<Rightarrow> string + unit" where
  "validate_positive_decimal_amount value =
     (if value = [] then Inl ''BotBinary amount must not be empty.'' else amount_loop value False False False False)"

subsection \<open>The default suffix\<close>

function base36_u64_loop :: "u64 \<Rightarrow> string \<Rightarrow> string" where
  "base36_u64_loop value result =
     (if value div 36 > 0 then base36_u64_loop (value div 36) (BASE36_MAP ! unat (value mod 36) # result)
      else BASE36_MAP ! unat (value mod 36) # result)"
  by pat_completeness auto

termination
proof (relation "measure (\<lambda>(v, r). unat v)")
  fix v :: u64 and r :: string
  assume "v div 36 > 0"
  then have "unat v div 36 > 0" by (simp add: word_less_nat_alt unat_div)
  then show "((v div 36, BASE36_MAP ! unat (v mod 36) # r), v, r) \<in> measure (\<lambda>(v, r). unat v)"
    by (simp add: unat_div)
qed simp

declare base36_u64_loop.simps [simp del]

definition base36_uint64 :: "u64 \<Rightarrow> string" where
  "base36_uint64 value = base36_u64_loop value []"

definition fnv1a64 :: "string \<Rightarrow> u64" where
  "fnv1a64 value = foldl (\<lambda>hash ch. (hash XOR of_nat (of_char ch)) * 1099511628211) 14695981039346656037 value"

definition default_bot_binary_suffix :: "string \<Rightarrow> string" where
  "default_bot_binary_suffix key = ''ox_'' @ base36_uint64 (fnv1a64 key)"

subsection \<open>Percent encoding\<close>

definition is_unreserved_query_char :: "char \<Rightarrow> bool" where
  "is_unreserved_query_char ch \<longleftrightarrow> CHR ''A'' \<le> ch \<and> ch \<le> CHR ''Z'' \<or> CHR ''a'' \<le> ch \<and> ch \<le> CHR ''z''
     \<or> CHR ''0'' \<le> ch \<and> ch \<le> CHR ''9'' \<or> ch = CHR ''-'' \<or> ch = CHR ''.'' \<or> ch = CHR ''_'' \<or> ch = CHR ''~''"

definition percent_hex :: string where
  "percent_hex = ''0123456789ABCDEF''"

definition percent_encode_char :: "char \<Rightarrow> string" where
  "percent_encode_char ch = (if is_unreserved_query_char ch then [ch]
     else [CHR ''%'', percent_hex ! (of_char ch div 16), percent_hex ! (of_char ch mod 16)])"

definition percent_encode_query_value :: "string \<Rightarrow> string" where
  "percent_encode_query_value value = concat (map percent_encode_char value)"

definition hex_value :: "char \<Rightarrow> int" where
  "hex_value ch = (if CHR ''0'' \<le> ch \<and> ch \<le> CHR ''9'' then of_char ch - 48
     else if CHR ''a'' \<le> ch \<and> ch \<le> CHR ''f'' then of_char ch - 97 + 10
     else if CHR ''A'' \<le> ch \<and> ch \<le> CHR ''F'' then of_char ch - 65 + 10
     else - 1)"

fun percent_decode_query_value :: "string \<Rightarrow> string + string" where
  "percent_decode_query_value [] = Inr []"
| "percent_decode_query_value (ch # cs) =
     (if ch \<noteq> CHR ''%'' then attempt_bind (percent_decode_query_value cs) (\<lambda>r. Inr (ch # r))
      else case cs of
        h # l # rest \<Rightarrow>
          if hex_value h < 0 \<or> hex_value l < 0
          then Inl ''BotBinary request contains an invalid percent escape.''
          else attempt_bind (percent_decode_query_value rest)
                 (\<lambda>r. Inr (char_of (nat (hex_value h * 16 + hex_value l)) # r))
      | _ \<Rightarrow> Inl ''BotBinary request contains an incomplete percent escape.'')"

definition append_bot_binary_request_query :: "string \<Rightarrow> string \<Rightarrow> string + string" where
  "append_bot_binary_request_query base_url value =
     (if base_url = [] then Inl ''BotBinary HTTP base URL must not be empty.''
      else Inr (base_url
        @ (if str_find base_url CHR ''?'' 0 = None then ''?''
           else if last base_url = CHR ''?'' \<or> last base_url = CHR ''&'' then [] else ''&'')
        @ ''request='' @ percent_encode_query_value value))"

subsection \<open>Splitting and parsing\<close>

text \<open>The loop over \<open>find(separator, start)\<close>: the pieces between the separators, one at least.\<close>

function split_on :: "char \<Rightarrow> string \<Rightarrow> string list" where
  "split_on sep s = (case dropWhile (\<lambda>c. c \<noteq> sep) s of
     [] \<Rightarrow> [s]
   | c # rest \<Rightarrow> takeWhile (\<lambda>c. c \<noteq> sep) s # split_on sep rest)"
  by pat_completeness auto

termination
proof (relation "measure (\<lambda>(c, s). length s)")
  fix sep s c rest
  assume "dropWhile (\<lambda>c. c \<noteq> sep) s = c # rest"
  then show "((sep, rest), sep, s) \<in> measure (\<lambda>(c, s). length s)"
    using length_dropWhile_le [of "\<lambda>c. c \<noteq> sep" s] by simp
qed simp

declare split_on.simps [simp del]

definition split_bot_binary_tokens :: "string \<Rightarrow> string list" where
  "split_bot_binary_tokens value = split_on CHR ''='' value"

fun join_with :: "char \<Rightarrow> string list \<Rightarrow> string" where
  "join_with sep [] = []"
| "join_with sep [t] = t"
| "join_with sep (t # u # ts) = t @ sep # join_with sep (u # ts)"

definition join_suffix_tokens :: "string list \<Rightarrow> nat \<Rightarrow> string" where
  "join_suffix_tokens tokens start = join_with CHR ''='' (drop start tokens)"

fun parse_u64_loop :: "string \<Rightarrow> string \<Rightarrow> u64 \<Rightarrow> string + u64" where
  "parse_u64_loop field [] result = Inr result"
| "parse_u64_loop field (ch # cs) result =
     (if \<not> is_digit ch then Inl (''BotBinary '' @ field @ '' must be an unsigned integer.'')
      else if (u64_max - of_nat (digit_value ch)) div 10 < result then Inl (''BotBinary '' @ field @ '' is too large.'')
      else parse_u64_loop field cs (result * 10 + of_nat (digit_value ch)))"

definition parse_positive_uint64 :: "string \<Rightarrow> string \<Rightarrow> string + u64" where
  "parse_positive_uint64 value field =
     (if value = [] then Inl (''BotBinary '' @ field @ '' must not be empty.'')
      else attempt_bind (parse_u64_loop field value 0) (\<lambda>result.
        if result = 0 then Inl (''BotBinary '' @ field @ '' must be positive.'') else Inr result))"

definition parse_bot_binary_value :: "string \<Rightarrow> bool \<Rightarrow> string + bot_parsed" where
  "parse_bot_binary_value value require_suffix =
     (let tokens = split_bot_binary_tokens value in
      if length tokens < 7 then Inl ''BotBinary command has too few fields.''
      else attempt_bind (bot_binary_order_type_from_direction (tokens ! 1)) (\<lambda>order.
        attempt_bind (expiry_kind_from_token (tokens ! 3)) (\<lambda>kind.
        attempt_bind (parse_positive_uint64 (tokens ! 4) ''expiry value'') (\<lambda>expiry.
        attempt_bind (bot_binary_time_unit_from_token (tokens ! 5)) (\<lambda>u.
        let suffix = join_suffix_tokens tokens 6 in
        attempt_bind (validate_bot_binary_token (tokens ! 0) ''symbol'' False) (\<lambda>_.
        attempt_bind (validate_positive_decimal_amount (tokens ! 2)) (\<lambda>_.
        if kind = BX_END_TIME \<and> u \<noteq> BU_SECONDS then Inl ''BotBinary endtime expiry must use seconds.''
        else if require_suffix \<and> suffix = [] then Inl ''BotBinary file signal requires a transport suffix.''
        else attempt_bind (if suffix \<noteq> [] then validate_bot_binary_token suffix ''transport_suffix'' True else Inr ()) (\<lambda>_.
        Inr \<lparr>bq_symbol = tokens ! 0, bq_order_type = order, bq_amount_value = tokens ! 2, bq_expiry_kind = kind,
          bq_expiry_value = expiry, bq_expiry_unit = u, bq_transport_suffix = suffix\<rparr>))))))))"

text \<open>The loop over the parts of the query between ampersands: \<open>None\<close> when none starts with the key.\<close>

fun request_part :: "string list \<Rightarrow> string option" where
  "request_part [] = None"
| "request_part (part # parts) = (if take 8 part = ''request='' then Some (drop 8 part) else request_part parts)"

definition extract_request_query_value :: "string \<Rightarrow> string + string" where
  "extract_request_query_value value =
     (let query = (case str_find value CHR ''?'' 0 of None \<Rightarrow> value | Some p \<Rightarrow> drop (p + 1) value);
          query = (case str_find query CHR ''#'' 0 of None \<Rightarrow> query | Some p \<Rightarrow> take p query)
      in case request_part (split_on CHR ''&'' query) of
           Some part \<Rightarrow> percent_decode_query_value part
         | None \<Rightarrow> Inr value)"

text \<open>\<open>find_last_of("/\\")\<close> and \<open>substr\<close>: what follows the last slash of either kind.\<close>

definition file_leaf_name :: "string \<Rightarrow> string" where
  "file_leaf_name path = List.rev (takeWhile (\<lambda>c. c \<noteq> CHR ''/'' \<and> c \<noteq> CHR 0x5C) (List.rev path))"

definition strip_txt_extension :: "string \<Rightarrow> string + string" where
  "strip_txt_extension name =
     (if length name < 4 \<or> drop (length name - 4) name \<noteq> ''.txt''
      then Inl ''BotBinary file signal name must end with .txt.''
      else Inr (take (length name - 4) name))"

definition parse_bot_binary_request_value :: "string \<Rightarrow> string + bot_parsed" where
  "parse_bot_binary_request_value value = parse_bot_binary_value value False"

definition parse_bot_binary_http_request :: "string \<Rightarrow> string + bot_parsed" where
  "parse_bot_binary_http_request url =
     attempt_bind (extract_request_query_value url) parse_bot_binary_request_value"

definition parse_bot_binary_file_signal_name :: "string \<Rightarrow> string + bot_parsed" where
  "parse_bot_binary_file_signal_name name =
     attempt_bind (strip_txt_extension (file_leaf_name name)) (\<lambda>v. parse_bot_binary_value v True)"

subsection \<open>To a trade signal\<close>

fun bot_unit_multiplier :: "bot_time_unit \<Rightarrow> u64" where
  "bot_unit_multiplier BU_SECONDS = 1"
| "bot_unit_multiplier BU_MINUTES = 60"
| "bot_unit_multiplier BU_HOURS = 3600"

definition bot_binary_duration_seconds :: "bot_parsed \<Rightarrow> string + u64" where
  "bot_binary_duration_seconds c =
     (if bq_expiry_kind c \<noteq> BX_DURATION then Inl ''BotBinary command is not a duration command.''
      else if bq_expiry_value c > u64_max div bot_unit_multiplier (bq_expiry_unit c)
      then Inl ''BotBinary duration is too large.''
      else Inr (bq_expiry_value c * bot_unit_multiplier (bq_expiry_unit c)))"

text \<open>
  \<open>std::stod\<close> on the texts the parsers let through, digits with at most one dot between digits:
  the nearest double, or \<open>std::out_of_range\<close> when the C library reports a range error, which it
  does for an overflow and for a denormal result that is not exact.
\<close>

definition stod :: "string \<Rightarrow> string + f64" where
  "stod s =
     (let whole = takeWhile is_digit s;
          fraction = takeWhile is_digit (drop (Suc (length whole)) s);
          p = int (digits_val 0 (whole @ fraction));
          q = 10 ^ length fraction;
          x = f64_of_ratio p q
      in if f64_is_inf x \<or> f64_magnitude x < 2 ^ 52 \<and> p * 2 ^ 1074 mod q \<noteq> 0 then Inl ''stod'' else Inr x)"

definition bot_binary_to_trade_signal :: "bot_parsed \<Rightarrow> string \<Rightarrow> string + 'p trade_signal" where
  "bot_binary_to_trade_signal c signal_name =
     attempt_bind (stod (bq_amount_value c)) (\<lambda>amount.
       let signal = trade_signal_default\<lparr>tsig_symbol := bq_symbol c, tsig_signal_name := signal_name,
             tsig_order_type := bq_order_type c, tsig_amount := amount\<rparr>
       in case bq_expiry_kind c of
          BX_DURATION \<Rightarrow> attempt_bind (bot_binary_duration_seconds c) (\<lambda>seconds.
            if seconds > 4294967295 then Inl ''BotBinary duration is too large for TradeSignal.''
            else Inr (signal\<lparr>tsig_option_type := OPT_SPRINT, tsig_duration := of_nat (unat seconds)\<rparr>))
        | BX_END_TIME \<Rightarrow>
            if bq_expiry_value c > 9223372036854775807 then Inl ''BotBinary endtime is too large for TradeSignal.''
            else Inr (signal\<lparr>tsig_option_type := OPT_CLASSIC, tsig_expiry_time := i64_of_u64 (bq_expiry_value c)\<rparr>))"

definition bot_binary_to_trade_request :: "bot_parsed \<Rightarrow> string \<Rightarrow> string + trade_request" where
  "bot_binary_to_trade_request c signal_name =
     attempt_bind (bot_binary_to_trade_signal c signal_name :: string + unit trade_signal)
       (\<lambda>signal. Inr (to_trade_request signal))"

subsection \<open>Preparing a command\<close>

definition bot_command_base :: "bot_command \<Rightarrow> string \<Rightarrow> string" where
  "bot_command_base c direction = bt_symbol c @ ''='' @ direction @ ''='' @ bt_amount_value c @ ''=''
     @ expiry_field_token (bt_expiry_kind c) @ ''='' @ u64_to_string (bt_expiry_value c) @ ''=''
     @ bot_binary_time_unit_token (bt_expiry_unit c) @ ''=''"

definition prepare_bot_binary_command :: "bot_command \<Rightarrow> bot_config \<Rightarrow> string + bot_prepared" where
  "prepare_bot_binary_command c config =
     attempt_bind (validate_bot_binary_token (bt_symbol c) ''symbol'' False) (\<lambda>_.
     attempt_bind (validate_positive_decimal_amount (bt_amount_value c)) (\<lambda>_.
     attempt_bind (validate_optionx_idempotency_key (bt_idempotency_key c)) (\<lambda>_.
     if bt_expiry_value c = 0 then Inl ''BotBinary expiry value must be positive.''
     else if bt_expiry_kind c = BX_END_TIME \<and> bt_expiry_unit c \<noteq> BU_SECONDS
     then Inl ''BotBinary endtime expiry must use seconds.''
     else let suffix = (if bt_transport_suffix c = [] then default_bot_binary_suffix (bt_idempotency_key c)
                        else bt_transport_suffix c) in
     attempt_bind (validate_bot_binary_token suffix ''transport_suffix'' True) (\<lambda>_.
     attempt_bind (bot_binary_direction_token (bt_order_type c)) (\<lambda>direction.
     let base = bot_command_base c direction;
         query = (if bc_include_suffix config then base @ suffix else base) in
     attempt_bind (append_bot_binary_request_query (bc_http_base_url config) query) (\<lambda>url.
     Inr \<lparr>bp_idempotency_key = bt_idempotency_key c, bp_request_query_value = query, bp_http_url = url,
          bp_file_name = base @ suffix @ ''.txt'', bp_transport_suffix = suffix\<rparr>))))))"

definition prepare_bot_binary_request ::
  "trade_request \<Rightarrow> string \<Rightarrow> string \<Rightarrow> bot_config \<Rightarrow> string + bot_prepared" where
  "prepare_bot_binary_request request amount key config =
     (if treq_duration request = 0 \<and> treq_expiry_time request \<le> 0
      then Inl ''BotBinary TradeRequest requires duration or expiry_time.''
      else attempt_bind
        (if treq_expiry_time request > 0
         then bot_binary_end_time_command (treq_symbol request) (treq_order_type request) amount
                (u64_of_i64 (treq_expiry_time request)) key
         else bot_binary_duration_command (treq_symbol request) (treq_order_type request) amount
                (of_nat (unat (treq_duration request))) key)
        (\<lambda>command. prepare_bot_binary_command command config))"

subsection \<open>Splitting and joining are inverse\<close>

lemma split_on_last: "sep \<notin> set s \<Longrightarrow> split_on sep s = [s]"
proof -
  assume "sep \<notin> set s"
  then have "dropWhile (\<lambda>c. c \<noteq> sep) s = []" by (auto simp: dropWhile_eq_Nil_conv)
  then show ?thesis by (subst split_on.simps) (simp only: list.case)
qed

lemma split_on_piece:
  assumes "sep \<notin> set a"
  shows "split_on sep (a @ sep # b) = a # split_on sep b"
proof -
  have "\<forall>c\<in>set a. c \<noteq> sep" using assms by auto
  then have "dropWhile (\<lambda>c. c \<noteq> sep) (a @ sep # b) = sep # b" and "takeWhile (\<lambda>c. c \<noteq> sep) (a @ sep # b) = a"
    by (simp_all add: dropWhile_append3 takeWhile_append2)
  then show ?thesis by (subst split_on.simps) simp
qed

lemma split_on_nonempty: "split_on sep s \<noteq> []"
  by (subst split_on.simps) (simp split: list.split)

lemma join_with_Cons: "ts \<noteq> [] \<Longrightarrow> join_with sep (t # ts) = t @ sep # join_with sep ts"
  by (cases ts) simp_all

lemma join_split_on: "join_with sep (split_on sep s) = s"
proof (induction "length s" arbitrary: s rule: less_induct)
  case less
  show ?case
  proof (cases "sep \<in> set s")
    case False
    then show ?thesis by (simp add: split_on_last)
  next
    case True
    then obtain a b where s: "s = a @ sep # b" and "sep \<notin> set a" by (meson split_list_first)
    then show ?thesis using less [of b] by (simp add: split_on_piece join_with_Cons split_on_nonempty)
  qed
qed

subsection \<open>Percent encoding is reversible\<close>

lemma hex_value_digit: "k < 16 \<Longrightarrow> hex_value (percent_hex ! k) = int k"
proof -
  have "list_all (\<lambda>k. hex_value (percent_hex ! k) = int k) [0..<16]" by code_simp
  then show "k < 16 \<Longrightarrow> ?thesis" by (simp add: list_all_iff)
qed

lemma percent_decode_char:
  "percent_decode_query_value (percent_encode_char ch @ cs)
     = attempt_bind (percent_decode_query_value cs) (\<lambda>r. Inr (ch # r))"
proof (cases "is_unreserved_query_char ch")
  case True
  then have "ch \<noteq> CHR ''%''" by (auto simp: is_unreserved_query_char_def less_eq_char_def)
  with True show ?thesis by (simp add: percent_encode_char_def)
next
  case False
  define n where "n = (of_char ch :: nat)"
  have n: "n < 256" by (simp add: n_def)
  have "int (n div 16) * 16 + int (n mod 16) = int n" by presburger
  moreover have "n div 16 < 16" "n mod 16 < 16" using n by auto
  moreover have "char_of n = ch" by (simp add: n_def)
  ultimately show ?thesis using False
    by (simp add: percent_encode_char_def hex_value_digit flip: n_def del: of_nat_mod of_nat_div zmod_int zdiv_int)
qed

lemma percent_decode_encode: "percent_decode_query_value (percent_encode_query_value s) = Inr s"
proof (induction s)
  case (Cons c s)
  then have "percent_decode_query_value (percent_encode_char c @ percent_encode_query_value s) = Inr (c # s)"
    by (simp only: percent_decode_char attempt_bind.simps)
  then show ?case by (simp add: percent_encode_query_value_def)
qed (simp add: percent_encode_query_value_def)

interpretation percent: string_codec percent_encode_query_value percent_decode_query_value "\<lambda>_. True"
  by unfold_locales (simp add: percent_decode_encode)

text \<open>What the encoder writes are unreserved characters and escapes: nothing that ends a query.\<close>

lemma percent_encode_char_safe: "c \<in> set (percent_encode_char ch) \<Longrightarrow> is_unreserved_query_char c \<or> c = CHR ''%''"
proof -
  have "list_all is_unreserved_query_char percent_hex" by code_simp
  moreover have "(of_char ch :: nat) div 16 < length percent_hex" "(of_char ch :: nat) mod 16 < length percent_hex"
    by (simp_all add: percent_hex_def less_mult_imp_div_less)
  ultimately have "is_unreserved_query_char (percent_hex ! (of_char ch div 16))"
      "is_unreserved_query_char (percent_hex ! (of_char ch mod 16))"
    by (auto simp: list_all_iff)
  then show "c \<in> set (percent_encode_char ch) \<Longrightarrow> ?thesis" by (auto simp: percent_encode_char_def split: if_splits)
qed

lemma percent_encode_no_delimiter:
  "CHR ''&'' \<notin> set (percent_encode_query_value s)" "CHR ''#'' \<notin> set (percent_encode_query_value s)"
  "CHR ''?'' \<notin> set (percent_encode_query_value s)"
proof -
  have "c \<notin> set (percent_encode_query_value s)" if "\<not> (is_unreserved_query_char c \<or> c = CHR ''%'')" for c
    using that percent_encode_char_safe [of c] unfolding percent_encode_query_value_def by auto
  moreover have "list_all (\<lambda>c. \<not> (is_unreserved_query_char c \<or> c = CHR ''%'')) [CHR ''&'', CHR ''#'', CHR ''?'']"
    by code_simp
  ultimately show "CHR ''&'' \<notin> set (percent_encode_query_value s)" "CHR ''#'' \<notin> set (percent_encode_query_value s)"
    "CHR ''?'' \<notin> set (percent_encode_query_value s)"
    unfolding list.pred_inject by blast+
qed

subsection \<open>What validation lets through\<close>

lemma validate_token_Inr [attempt_iff]:
  "validate_bot_binary_token v f e = Inr u \<longleftrightarrow> v \<noteq> [] \<and> \<not> has_forbidden_bot_binary_char v e"
  by (simp add: validate_bot_binary_token_def)

lemma token_chars:
  assumes "\<not> has_forbidden_bot_binary_char v e"
  shows "CHR ''/'' \<notin> set v" "CHR 0x5C \<notin> set v" "\<not> e \<Longrightarrow> CHR ''='' \<notin> set v"
proof -
  have "ch \<notin> set v" if "ch \<in> set unsafe_chars \<or> ch = CHR ''='' \<and> \<not> e" for ch
    using assms that unfolding has_forbidden_bot_binary_char_def list_ex_iff by blast
  then show "CHR ''/'' \<notin> set v" "CHR 0x5C \<notin> set v" "\<not> e \<Longrightarrow> CHR ''='' \<notin> set v"
    by (simp_all add: unsafe_chars_def)
qed

lemma amount_loop_chars:
  "amount_loop cs d a b c = Inr u \<Longrightarrow> ch \<in> set cs \<Longrightarrow> is_digit ch \<or> ch = CHR ''.''"
  by (induction cs d a b c rule: amount_loop.induct) (auto split: if_splits)

lemma amount_chars:
  assumes "validate_positive_decimal_amount v = Inr u"
  shows "CHR ''/'' \<notin> set v" "CHR 0x5C \<notin> set v" "CHR ''='' \<notin> set v"
proof -
  have "amount_loop v False False False False = Inr u"
    using assms by (simp add: validate_positive_decimal_amount_def split: if_splits)
  then have "ch \<notin> set v" if "\<not> (is_digit ch \<or> ch = CHR ''.'')" for ch
    using amount_loop_chars that by blast
  then show "CHR ''/'' \<notin> set v" "CHR 0x5C \<notin> set v" "CHR ''='' \<notin> set v"
    by (simp_all add: is_digit_def)
qed

lemma parse_u64_loop_whole: "whole_loop cs r = Some v \<Longrightarrow> parse_u64_loop f cs r = Inr v"
  by (induction cs arbitrary: r) (auto simp: Let_def split: if_splits)

lemma parse_u64_to_string:
  assumes "v \<noteq> 0"
  shows "parse_positive_uint64 (u64_to_string v) f = Inr v"
proof -
  have "whole_loop (u64_to_string v) 0 = Some v"
    using whole_loop_digits [OF nat_to_string_digits [of "unat v"], of 0] unat_u64_less [of v]
    by (simp add: u64_to_string_def nat_to_string_val)
  then have "parse_u64_loop f (u64_to_string v) 0 = Inr v" by (rule parse_u64_loop_whole)
  then show ?thesis using assms nat_to_string_nonempty by (simp add: parse_positive_uint64_def u64_to_string_def)
qed

lemma digits_chars: "ch \<in> set (u64_to_string v) \<Longrightarrow> is_digit ch"
  using nat_to_string_digits by (auto simp: u64_to_string_def list_all_iff)

lemma u64_to_string_chars:
  "CHR ''/'' \<notin> set (u64_to_string v)" "CHR 0x5C \<notin> set (u64_to_string v)" "CHR ''='' \<notin> set (u64_to_string v)"
proof -
  have "ch \<notin> set (u64_to_string v)" if "\<not> is_digit ch" for ch
    using digits_chars that by blast
  then show "CHR ''/'' \<notin> set (u64_to_string v)" "CHR 0x5C \<notin> set (u64_to_string v)" "CHR ''='' \<notin> set (u64_to_string v)"
    by (simp_all add: is_digit_def)
qed

subsection \<open>The default suffix is always a valid token\<close>

lemma base36_u64_loop_chars:
  "set (base36_u64_loop w r) \<subseteq> set BASE36_MAP \<union> set r \<and> base36_u64_loop w r \<noteq> []"
proof (induction w r rule: base36_u64_loop.induct)
  case (1 w r)
  have "unat (w mod 36) < length BASE36_MAP" by (simp add: unat_mod BASE36_MAP_def)
  then have m: "BASE36_MAP ! unat (w mod 36) \<in> set BASE36_MAP" by (rule nth_mem)
  show ?case
  proof (cases "w div 36 > 0")
    case True
    have e: "base36_u64_loop w r = base36_u64_loop (w div 36) (BASE36_MAP ! unat (w mod 36) # r)"
      by (subst base36_u64_loop.simps) (simp only: True if_True)
    show ?thesis unfolding e using 1 [OF True] m by auto
  next
    case False
    have e: "base36_u64_loop w r = BASE36_MAP ! unat (w mod 36) # r"
      by (subst base36_u64_loop.simps) (simp only: False if_False)
    show ?thesis unfolding e using m by auto
  qed
qed

lemma base36_uint64_chars: "set (base36_uint64 w) \<subseteq> set BASE36_MAP"
proof -
  have "set (base36_u64_loop w []) \<subseteq> set BASE36_MAP \<union> set []" using base36_u64_loop_chars by blast
  then show ?thesis by (simp add: base36_uint64_def)
qed

lemma default_suffix_valid: "validate_bot_binary_token (default_bot_binary_suffix key) f True = Inr ()"
proof -
  have "list_all (\<lambda>ch. \<not> (control_char ch \<or> ch \<in> set unsafe_chars)) (''ox_'' @ BASE36_MAP)" by code_simp
  moreover have "set (default_bot_binary_suffix key) \<subseteq> set (''ox_'' @ BASE36_MAP)"
    unfolding default_bot_binary_suffix_def set_append using base36_uint64_chars by (rule Un_mono [OF subset_refl])
  ultimately have "\<not> has_forbidden_bot_binary_char (default_bot_binary_suffix key) True"
    unfolding has_forbidden_bot_binary_char_def list_all_iff list_ex_iff by blast
  moreover have "default_bot_binary_suffix key \<noteq> []" by (simp add: default_bot_binary_suffix_def)
  ultimately show ?thesis by (simp add: attempt_iff)
qed

lemma base36_u64_loop_le: "base36_u64_loop w r = List.rev (base36_le (unat w)) @ r"
proof (induction w r rule: base36_u64_loop.induct)
  case (1 w r)
  have d: "w div 36 > 0 \<longleftrightarrow> unat w div 36 > 0" by (simp add: word_less_nat_alt unat_div)
  show ?case
  proof (cases "w div 36 > 0")
    case True
    have e: "base36_u64_loop w r = base36_u64_loop (w div 36) (BASE36_MAP ! unat (w mod 36) # r)"
      by (subst base36_u64_loop.simps) (simp only: True if_True)
    have le: "base36_le (unat w) = BASE36_MAP ! (unat w mod 36) # base36_le (unat w div 36)"
      using True d by (subst base36_le.simps) simp
    have u: "unat (w div 36) = unat w div 36" "unat (w mod 36) = unat w mod 36" by (simp_all add: unat_div unat_mod)
    have "base36_u64_loop w r = List.rev (base36_le (unat w div 36)) @ BASE36_MAP ! (unat w mod 36) # r"
      using e 1 [OF True] by (simp only: u)
    then show ?thesis unfolding le by (simp only: rev.simps append_assoc append_Cons append_Nil)
  next
    case False
    have le: "base36_le (unat w) = [BASE36_MAP ! (unat w mod 36)]" using False d by (subst base36_le.simps) simp
    have e: "base36_u64_loop w r = BASE36_MAP ! unat (w mod 36) # r"
      by (subst base36_u64_loop.simps) (simp only: False if_False)
    show ?thesis unfolding e le by (simp add: unat_mod)
  qed
qed

text \<open>The suffix carries the hash: below the decoder's range the hash can be read back from it.\<close>

lemma base36_uint64_encode_int: "base36_uint64 w = the (encode_int (int (unat w)))"
  by (simp add: base36_uint64_def base36_u64_loop_le encode_int_some)

subsection \<open>Parsing gives back what was prepared\<close>

text \<open>The command as the parsers report it, with the suffix that travelled.\<close>

definition parsed_of :: "bot_command \<Rightarrow> string \<Rightarrow> bot_parsed" where
  "parsed_of c suffix = \<lparr>bq_symbol = bt_symbol c, bq_order_type = bt_order_type c,
     bq_amount_value = bt_amount_value c, bq_expiry_kind = bt_expiry_kind c, bq_expiry_value = bt_expiry_value c,
     bq_expiry_unit = bt_expiry_unit c, bq_transport_suffix = suffix\<rparr>"

lemma prepare_Inr:
  assumes "prepare_bot_binary_command c config = Inr p"
  obtains direction where
    "validate_bot_binary_token (bt_symbol c) ''symbol'' False = Inr ()"
    "validate_positive_decimal_amount (bt_amount_value c) = Inr ()"
    "bt_expiry_value c \<noteq> 0" "bt_expiry_kind c = BX_END_TIME \<Longrightarrow> bt_expiry_unit c = BU_SECONDS"
    "validate_bot_binary_token (bp_transport_suffix p) ''transport_suffix'' True = Inr ()"
    "bot_binary_direction_token (bt_order_type c) = Inr direction"
    "bp_request_query_value p = bot_command_base c direction @ (if bc_include_suffix config then bp_transport_suffix p else [])"
    "append_bot_binary_request_query (bc_http_base_url config) (bp_request_query_value p) = Inr (bp_http_url p)"
    "bp_file_name p = bot_command_base c direction @ bp_transport_suffix p @ ''.txt''"
    "bp_idempotency_key p = bt_idempotency_key c"
    "bt_transport_suffix c \<noteq> [] \<Longrightarrow> bp_transport_suffix p = bt_transport_suffix c"
  using assms unfolding prepare_bot_binary_command_def Let_def
  by (auto simp: attempt_iff split: if_splits)

lemma direction_token_Inr:
  "bot_binary_direction_token ot = Inr d \<Longrightarrow> bot_binary_order_type_from_direction d = Inr ot \<and> d \<in> {''CALL'', ''PUT''}"
  by (cases ot) (auto simp: bot_binary_order_type_from_direction_def)

lemma expiry_kind_roundtrip: "expiry_kind_from_token (expiry_field_token k) = Inr k"
  by (cases k) (simp_all add: expiry_kind_from_token_def)

lemma time_unit_roundtrip: "bot_binary_time_unit_from_token (bot_binary_time_unit_token u) = Inr u"
  by (cases u) (simp_all add: bot_binary_time_unit_from_token_def)

text \<open>The text before the suffix has its six fields, none of which holds the separator or a slash.\<close>

lemma base_tokens:
  assumes "validate_bot_binary_token (bt_symbol c) ''symbol'' False = Inr ()"
    and "validate_positive_decimal_amount (bt_amount_value c) = Inr ()"
    and "bot_binary_direction_token (bt_order_type c) = Inr d"
  shows "split_bot_binary_tokens (bot_command_base c d @ suffix) = [bt_symbol c, d, bt_amount_value c,
      expiry_field_token (bt_expiry_kind c), u64_to_string (bt_expiry_value c), bot_binary_time_unit_token (bt_expiry_unit c)]
      @ split_on CHR ''='' suffix"
    and "CHR ''/'' \<notin> set (bot_command_base c d)" "CHR 0x5C \<notin> set (bot_command_base c d)"
proof -
  have s: "\<not> has_forbidden_bot_binary_char (bt_symbol c) False" using assms(1) by (simp add: attempt_iff)
  note sym = token_chars [OF s] and amt = amount_chars [OF assms(2)] and val = u64_to_string_chars
  have d: "CHR ''='' \<notin> set d" "CHR ''/'' \<notin> set d" "CHR 0x5C \<notin> set d" using direction_token_Inr [OF assms(3)] by auto
  have k: "CHR ''='' \<notin> set (expiry_field_token k)" "CHR ''/'' \<notin> set (expiry_field_token k)"
    "CHR 0x5C \<notin> set (expiry_field_token k)" for k by (cases k; simp)+
  have u: "CHR ''='' \<notin> set (bot_binary_time_unit_token u)" "CHR ''/'' \<notin> set (bot_binary_time_unit_token u)"
    "CHR 0x5C \<notin> set (bot_binary_time_unit_token u)" for u by (cases u; simp)+
  show "split_bot_binary_tokens (bot_command_base c d @ suffix) = [bt_symbol c, d, bt_amount_value c,
      expiry_field_token (bt_expiry_kind c), u64_to_string (bt_expiry_value c), bot_binary_time_unit_token (bt_expiry_unit c)]
      @ split_on CHR ''='' suffix"
    unfolding split_bot_binary_tokens_def bot_command_base_def append_assoc append_Cons append_Nil
    by (simp only: split_on_piece sym(3) d(1) amt(3) k(1) val(3) u(1) not_False_eq_True)
  show "CHR ''/'' \<notin> set (bot_command_base c d)" "CHR 0x5C \<notin> set (bot_command_base c d)"
    using sym d amt k u val by (simp_all add: bot_command_base_def)
qed

lemma parse_base:
  assumes "validate_bot_binary_token (bt_symbol c) ''symbol'' False = Inr ()"
    and "validate_positive_decimal_amount (bt_amount_value c) = Inr ()"
    and "bt_expiry_value c \<noteq> 0" and "bt_expiry_kind c = BX_END_TIME \<Longrightarrow> bt_expiry_unit c = BU_SECONDS"
    and "bot_binary_direction_token (bt_order_type c) = Inr d"
    and "suffix \<noteq> [] \<Longrightarrow> validate_bot_binary_token suffix ''transport_suffix'' True = Inr ()"
    and "require \<Longrightarrow> suffix \<noteq> []"
  shows "parse_bot_binary_value (bot_command_base c d @ suffix) require = Inr (parsed_of c suffix)"
proof -
  have len: "\<not> length (split_bot_binary_tokens (bot_command_base c d @ suffix)) < 7"
    using split_on_nonempty [of "CHR ''=''" suffix]
    by (cases "split_on CHR ''='' suffix") (simp_all add: base_tokens [OF assms(1,2,5)])
  have j: "join_suffix_tokens (split_bot_binary_tokens (bot_command_base c d @ suffix)) 6 = suffix"
    by (simp add: join_suffix_tokens_def base_tokens [OF assms(1,2,5)] join_split_on)
  have n: "split_bot_binary_tokens (bot_command_base c d @ suffix) ! 0 = bt_symbol c"
    "split_bot_binary_tokens (bot_command_base c d @ suffix) ! 1 = d"
    "split_bot_binary_tokens (bot_command_base c d @ suffix) ! 2 = bt_amount_value c"
    "split_bot_binary_tokens (bot_command_base c d @ suffix) ! 3 = expiry_field_token (bt_expiry_kind c)"
    "split_bot_binary_tokens (bot_command_base c d @ suffix) ! 4 = u64_to_string (bt_expiry_value c)"
    "split_bot_binary_tokens (bot_command_base c d @ suffix) ! 5 = bot_binary_time_unit_token (bt_expiry_unit c)"
    by (simp_all add: base_tokens [OF assms(1,2,5)])
  have d: "bot_binary_order_type_from_direction d = Inr (bt_order_type c)" using direction_token_Inr [OF assms(5)] by simp
  have sfx: "(if suffix \<noteq> [] then validate_bot_binary_token suffix ''transport_suffix'' True else Inr ()) = Inr ()"
    using assms(6) by simp
  have e: "\<not> (bt_expiry_kind c = BX_END_TIME \<and> bt_expiry_unit c \<noteq> BU_SECONDS)" and q: "\<not> (require \<and> suffix = [])"
    using assms(4,7) by auto
  show ?thesis
    unfolding parse_bot_binary_value_def Let_def if_not_P [OF len] n j d attempt_bind.simps expiry_kind_roundtrip
      parse_u64_to_string [OF assms(3)] time_unit_roundtrip assms(1,2) if_not_P [OF e] if_not_P [OF q] sfx parsed_of_def ..
qed

lemma request_part_append: "request_part (xs @ ys) = (case request_part xs of None \<Rightarrow> request_part ys | Some v \<Rightarrow> Some v)"
  by (induction xs) simp_all

lemma split_on_append: "split_on sep (a @ sep # b) = split_on sep a @ split_on sep b"
proof (induction "length a" arbitrary: a rule: less_induct)
  case less
  show ?case
  proof (cases "sep \<in> set a")
    case False
    then show ?thesis by (simp add: split_on_last split_on_piece)
  next
    case True
    then obtain u v where a: "a = u @ sep # v" and "sep \<notin> set u" by (meson split_list_first)
    then show ?thesis using less [of v] by (simp add: split_on_piece)
  qed
qed

text \<open>A base URL to which a request can be added: its own query has no fragment and no request.\<close>

definition http_base_ok :: "string \<Rightarrow> bool" where
  "http_base_ok url = (case str_find url CHR ''?'' 0 of
     None \<Rightarrow> True
   | Some p \<Rightarrow> (let q = drop (p + 1) url in
       CHR ''#'' \<notin> set q \<and> request_part (split_on CHR ''&'' q) = None \<and> (q = [] \<or> last q \<noteq> CHR ''?'')))"

lemma str_find_first:
  "ch \<notin> set a \<Longrightarrow> str_find (a @ ch # b) ch 0 = Some (length a)"
  by (simp add: str_find_def find_char_from_append)

lemma extract_request:
  assumes "request_part (split_on CHR ''&'' q) = Some (percent_encode_query_value v)"
    and "CHR ''?'' \<notin> set a" and "CHR ''#'' \<notin> set q"
  shows "extract_request_query_value (a @ CHR ''?'' # q) = Inr v"
proof -
  have h: "str_find q CHR ''#'' 0 = None" using assms(3) by simp
  have d: "drop (length a + 1) (a @ CHR ''?'' # q) = q" by simp
  show ?thesis
    unfolding extract_request_query_value_def str_find_first [OF assms(2)] Let_def option.case d h assms(1)
    by (simp add: percent_decode_encode)
qed

lemma request_piece:
  "request_part (split_on CHR ''&'' (''request='' @ percent_encode_query_value v)) = Some (percent_encode_query_value v)"
proof -
  have "CHR ''&'' \<notin> set (''request='' @ percent_encode_query_value v)" using percent_encode_no_delimiter by simp
  from split_on_last [OF this] show ?thesis by simp
qed

lemma append_extract:
  assumes "append_bot_binary_request_query base v = Inr url" and "http_base_ok base"
  shows "extract_request_query_value url = Inr v"
proof (cases "CHR ''?'' \<in> set base")
  case False
  then have u: "url = base @ CHR ''?'' # (''request='' @ percent_encode_query_value v)"
    using assms(1) by (auto simp: append_bot_binary_request_query_def split: if_splits)
  show ?thesis unfolding u
    by (rule extract_request [OF request_piece False]) (simp add: percent_encode_no_delimiter)
next
  case True
  then obtain a q where b: "base = a @ CHR ''?'' # q" and a: "CHR ''?'' \<notin> set a" by (meson split_list_first)
  have ok: "CHR ''#'' \<notin> set q" "request_part (split_on CHR ''&'' q) = None" "q = [] \<or> last q \<noteq> CHR ''?''"
    using assms(2) by (simp_all add: http_base_ok_def b str_find_first [OF a] Let_def)
  define r where "r = ''request='' @ percent_encode_query_value v"
  have r: "CHR ''#'' \<notin> set r" by (simp add: r_def percent_encode_no_delimiter)
  have u: "url = a @ CHR ''?'' # (q @ (if q = [] \<or> last q = CHR ''&'' then [] else ''&'') @ r)"
    using assms(1) ok(3) by (auto simp: append_bot_binary_request_query_def b str_find_first [OF a] r_def split: if_splits)
  have "request_part (split_on CHR ''&'' (q @ (if q = [] \<or> last q = CHR ''&'' then [] else ''&'') @ r))
      = Some (percent_encode_query_value v)"
  proof -
    consider "q = []" | q' where "q = q' @ ''&''" | "q \<noteq> []" "last q \<noteq> CHR ''&''"
      by (metis append_butlast_last_id)
    then show ?thesis
    proof cases
      case 1
      then show ?thesis using request_piece by (simp add: r_def)
    next
      case (2 q')
      then have "request_part (split_on CHR ''&'' q') = None"
        using ok(2) by (simp add: split_on_append request_part_append split: option.splits)
      then show ?thesis using 2 request_piece [of v, folded r_def] by (simp add: split_on_append request_part_append)
    next
      case 3
      then show ?thesis using ok(2) request_piece [of v, folded r_def] by (simp add: split_on_append request_part_append)
    qed
  qed
  then show ?thesis unfolding u using a ok(1) r by (intro extract_request) auto
qed

lemma leaf_of_plain:
  assumes "CHR ''/'' \<notin> set s" and "CHR 0x5C \<notin> set s"
  shows "file_leaf_name s = s"
proof -
  have "takeWhile (\<lambda>c. c \<noteq> CHR ''/'' \<and> c \<noteq> CHR 0x5C) (List.rev s) = List.rev s"
    using assms by (subst takeWhile_eq_all_conv) auto
  then have "List.rev (takeWhile (\<lambda>c. c \<noteq> CHR ''/'' \<and> c \<noteq> CHR 0x5C) (List.rev s)) = s" by (simp only: rev_rev_ident)
  then show ?thesis by (simp only: file_leaf_name_def)
qed

lemma prepared_parse:
  assumes "prepare_bot_binary_command c config = Inr p"
  defines "sent \<equiv> parsed_of c (if bc_include_suffix config then bp_transport_suffix p else [])"
  shows "parse_bot_binary_file_signal_name (bp_file_name p) = Inr (parsed_of c (bp_transport_suffix p))"
    and "parse_bot_binary_request_value (bp_request_query_value p) = Inr sent"
    and "http_base_ok (bc_http_base_url config) \<Longrightarrow> parse_bot_binary_http_request (bp_http_url p) = Inr sent"
proof -
  obtain d where ok: "validate_bot_binary_token (bt_symbol c) ''symbol'' False = Inr ()"
    "validate_positive_decimal_amount (bt_amount_value c) = Inr ()"
    "bt_expiry_value c \<noteq> 0" "bt_expiry_kind c = BX_END_TIME \<Longrightarrow> bt_expiry_unit c = BU_SECONDS"
    "validate_bot_binary_token (bp_transport_suffix p) ''transport_suffix'' True = Inr ()"
    "bot_binary_direction_token (bt_order_type c) = Inr d"
    and q: "bp_request_query_value p = bot_command_base c d @ (if bc_include_suffix config then bp_transport_suffix p else [])"
    and url: "append_bot_binary_request_query (bc_http_base_url config) (bp_request_query_value p) = Inr (bp_http_url p)"
    and f: "bp_file_name p = bot_command_base c d @ bp_transport_suffix p @ ''.txt''"
    using prepare_Inr [OF assms(1)] by metis
  have sfx: "bp_transport_suffix p \<noteq> []" "CHR ''/'' \<notin> set (bp_transport_suffix p)" "CHR 0x5C \<notin> set (bp_transport_suffix p)"
    using ok(5) token_chars [of "bp_transport_suffix p" True] by (simp_all add: attempt_iff)
  have leaf: "file_leaf_name (bp_file_name p) = bp_file_name p"
    using base_tokens(2,3) [OF ok(1,2,6)] sfx by (intro leaf_of_plain) (simp_all add: f)
  have strip: "strip_txt_extension (bp_file_name p) = Inr (bot_command_base c d @ bp_transport_suffix p)"
    by (simp add: strip_txt_extension_def f)
  show "parse_bot_binary_file_signal_name (bp_file_name p) = Inr (parsed_of c (bp_transport_suffix p))"
    unfolding parse_bot_binary_file_signal_name_def leaf strip attempt_bind.simps
    by (rule parse_base [OF ok(1,2,3) ok(4) ok(6) ok(5) sfx(1)])
  show v: "parse_bot_binary_request_value (bp_request_query_value p) = Inr sent"
    unfolding parse_bot_binary_request_value_def q sent_def
    by (rule parse_base [OF ok(1,2,3) ok(4) ok(6)]) (use ok(5) in \<open>simp_all split: if_splits\<close>)
  show "parse_bot_binary_http_request (bp_http_url p) = Inr sent" if "http_base_ok (bc_http_base_url config)"
    unfolding parse_bot_binary_http_request_def append_extract [OF url that] attempt_bind.simps by (rule v)
qed

text \<open>C27: A prepared command can be read back from each of its three forms: the signal file name, the
  request value and the HTTP URL (for a base URL without a request of its own) all parse to the
  command, with the suffix that travelled in them.\<close>

theorem prepared_roundtrip:
  assumes "prepare_bot_binary_command c config = Inr p"
  shows "parse_bot_binary_file_signal_name (bp_file_name p) = Inr (parsed_of c (bp_transport_suffix p)) \<and>
    parse_bot_binary_request_value (bp_request_query_value p)
      = Inr (parsed_of c (if bc_include_suffix config then bp_transport_suffix p else [])) \<and>
    (http_base_ok (bc_http_base_url config) \<longrightarrow> parse_bot_binary_http_request (bp_http_url p)
      = Inr (parsed_of c (if bc_include_suffix config then bp_transport_suffix p else [])))"
  using prepared_parse [OF assms] by blast

text \<open>The largest exact unit: the value times the unit is the number of seconds, without overflow.\<close>

lemma duration_command_exact:
  assumes "bot_binary_duration_command symbol order amount seconds key = Inr c"
  shows "bt_expiry_value c * bot_unit_multiplier (bt_expiry_unit c) = seconds"
    and "\<not> bt_expiry_value c > u64_max div bot_unit_multiplier (bt_expiry_unit c)"
    and "bt_expiry_kind c = BX_DURATION" "bt_symbol c = symbol" "bt_order_type c = order" "bt_amount_value c = amount"
proof -
  show "bt_expiry_kind c = BX_DURATION" "bt_symbol c = symbol" "bt_order_type c = order" "bt_amount_value c = amount"
    using assms by (auto simp: bot_binary_duration_command_def split: if_splits)
  have div: "seconds div k * k = seconds" if "seconds mod k = 0" for k
    using div_mult_mod_eq [of seconds k] unfolding that by (simp only: add_0_right)
  note d3600 = div [of 3600] and d60 = div [of 60]
  have "unat seconds div m \<le> 18446744073709551615 div m" for m
    using unat_u64_less [of seconds] by (intro div_le_mono) linarith
  then have le: "\<not> seconds div m > u64_max div m" for m
    by (simp add: word_less_nat_alt unat_div not_less)
  show "bt_expiry_value c * bot_unit_multiplier (bt_expiry_unit c) = seconds"
    using assms d3600 d60 unfolding bot_binary_duration_command_def
    by (cases "seconds mod 3600 = 0"; cases "seconds mod 60 = 0"; cases "seconds = 0")
       (auto simp del: mod_eq_0_iff_dvd dvd_eq_mod_eq_0 mod_0_imp_dvd)
  show "\<not> bt_expiry_value c > u64_max div bot_unit_multiplier (bt_expiry_unit c)"
    using assms le [of 3600] le [of 60] le [of 1] by (auto simp: bot_binary_duration_command_def split: if_splits)
qed

text \<open>C28: A trade request sent as a signal file arrives as the same order: the file name parses, and the
  trade request made from it has the symbol, the direction and the expiry of the one that was sent,
  and the stake its decimal text denotes.\<close>

theorem trade_request_survives:
  assumes "prepare_bot_binary_request req amount key config = Inr p" and "stod amount = Inr stake"
    and "i64 (treq_expiry_time req)"
  shows "attempt_bind (parse_bot_binary_file_signal_name (bp_file_name p)) (\<lambda>q. bot_binary_to_trade_request q name)
    = Inr (trade_request_default
        \<lparr>treq_symbol := treq_symbol req, treq_signal_name := name, treq_order_type := treq_order_type req,
         treq_amount := stake,
         treq_option_type := (if treq_expiry_time req > 0 then OPT_CLASSIC else OPT_SPRINT),
         treq_duration := (if treq_expiry_time req > 0 then 0 else treq_duration req),
         treq_expiry_time := (if treq_expiry_time req > 0 then treq_expiry_time req else 0)\<rparr>)"
proof -
  obtain c where c: "(if treq_expiry_time req > 0
         then bot_binary_end_time_command (treq_symbol req) (treq_order_type req) amount (u64_of_i64 (treq_expiry_time req)) key
         else bot_binary_duration_command (treq_symbol req) (treq_order_type req) amount (of_nat (unat (treq_duration req))) key)
       = Inr c" and prep: "prepare_bot_binary_command c config = Inr p"
    using assms(1) by (auto simp: prepare_bot_binary_request_def attempt_iff split: if_splits)
  from prep have parsed: "parse_bot_binary_file_signal_name (bp_file_name p) = Inr (parsed_of c (bp_transport_suffix p))"
    by (rule prepared_parse)
  show ?thesis
  proof (cases "treq_expiry_time req > 0")
    case True
    then have e: "bot_binary_end_time_command (treq_symbol req) (treq_order_type req) amount (u64_of_i64 (treq_expiry_time req)) key
       = Inr c" using c by simp
    have m: "treq_expiry_time req \<le> i64_max" using assms(3) by (simp add: i64_def)
    have "\<not> u64_of_i64 (treq_expiry_time req) > 9223372036854775807"
      using True m by (simp add: word_less_nat_alt)
    moreover have "i64_of_u64 (u64_of_i64 (treq_expiry_time req)) = treq_expiry_time req"
      using True m by (intro i64_of_u64_id) simp_all
    ultimately show ?thesis using True e assms(2) unfolding parsed
      by (auto simp: bot_binary_end_time_command_def bot_binary_to_trade_request_def bot_binary_to_trade_signal_def
          parsed_of_def to_trade_request_def assign_to_request_def trade_signal_default_def trade_request_default_def Let_def
          split: if_splits)
  next
    case False
    then have e: "bot_binary_duration_command (treq_symbol req) (treq_order_type req) amount (of_nat (unat (treq_duration req))) key
       = Inr c" using c by simp
    note d = duration_command_exact [OF e]
    have s: "bot_binary_duration_seconds (parsed_of c (bp_transport_suffix p)) = Inr (of_nat (unat (treq_duration req)))"
      using d by (simp add: bot_binary_duration_seconds_def parsed_of_def)
    have u: "unat (of_nat (unat (treq_duration req)) :: u64) = unat (treq_duration req)"
      using unsigned_less [of "treq_duration req", where 'a = nat]
      by (simp add: unsigned_ucast_eq take_bit_nat_eq_self)
    have "\<not> (of_nat (unat (treq_duration req)) :: u64) > 4294967295"
      using unsigned_less [of "treq_duration req", where 'a = nat] by (simp only: word_less_nat_alt u) simp
    with s u d False assms(2) show ?thesis unfolding parsed
      by (simp add: bot_binary_to_trade_request_def bot_binary_to_trade_signal_def
          parsed_of_def to_trade_request_def assign_to_request_def trade_signal_default_def trade_request_default_def Let_def)
  qed
qed

definition sample_command :: bot_command where
  "sample_command = \<lparr>bt_symbol = ''R_25'', bt_order_type = ORD_BUY, bt_amount_value = ''1.50'',
     bt_expiry_kind = BX_DURATION, bt_expiry_value = 5, bt_expiry_unit = BU_MINUTES,
     bt_idempotency_key = ''k'', bt_transport_suffix = ''a=b''\<rparr>"

lemma prepared_roundtrip_witness:
  "parse_bot_binary_file_signal_name ''R_25=CALL=1.50=duration=5=m=a=b.txt'' = Inr (parsed_of sample_command ''a=b'') \<and>
   parse_bot_binary_http_request ''http://h/?request=R_25%3DCALL%3D1.50%3Dduration%3D5%3Dm%3Da%3Db''
     = Inr (parsed_of sample_command ''a=b'')"
proof -
  let ?p = "\<lparr>bp_idempotency_key = ''k'', bp_request_query_value = ''R_25=CALL=1.50=duration=5=m=a=b'',
     bp_http_url = ''http://h/?request=R_25%3DCALL%3D1.50%3Dduration%3D5%3Dm%3Da%3Db'',
     bp_file_name = ''R_25=CALL=1.50=duration=5=m=a=b.txt'', bp_transport_suffix = ''a=b''\<rparr>"
  let ?g = "\<lparr>bc_http_base_url = ''http://h/'', bc_include_suffix = True\<rparr>"
  have "prepare_bot_binary_command sample_command ?g = Inr ?p" by code_simp
  from prepared_roundtrip [OF this] have r: "parse_bot_binary_file_signal_name (bp_file_name ?p) = Inr (parsed_of sample_command ''a=b'')"
    "http_base_ok ''http://h/'' \<longrightarrow> parse_bot_binary_http_request (bp_http_url ?p) = Inr (parsed_of sample_command ''a=b'')"
    by simp_all
  have "http_base_ok ''http://h/''" by code_simp
  with r show ?thesis by simp
qed

lemma trade_request_survives_witness:
  "attempt_bind (parse_bot_binary_file_signal_name ''EURUSD=PUT=2=duration=3=m=ox_2o0orczlzhbwq.txt'')
     (\<lambda>q. bot_binary_to_trade_request q ''bot'') = Inr (trade_request_default
        \<lparr>treq_symbol := ''EURUSD'', treq_signal_name := ''bot'', treq_order_type := ORD_SELL,
         treq_amount := f64_of_int 2, treq_option_type := OPT_SPRINT, treq_duration := 180, treq_expiry_time := 0\<rparr>)"
proof -
  let ?r = "trade_request_default\<lparr>treq_symbol := ''EURUSD'', treq_order_type := ORD_SELL, treq_duration := 180\<rparr>"
  obtain p where p: "prepare_bot_binary_request ?r ''2'' ''k'' bot_config_default = Inr p"
    and f: "bp_file_name p = ''EURUSD=PUT=2=duration=3=m=ox_2o0orczlzhbwq.txt''"
  proof -
    have "(case prepare_bot_binary_request ?r ''2'' ''k'' bot_config_default of
       Inr p \<Rightarrow> bp_file_name p = ''EURUSD=PUT=2=duration=3=m=ox_2o0orczlzhbwq.txt'' | Inl e \<Rightarrow> False)" by code_simp
    then show thesis using that by (auto split: sum.splits)
  qed
  have "stod ''2'' = Inr (f64_of_int 2)" by code_simp
  from trade_request_survives [OF p this, where name = "''bot''"] show ?thesis
    by (simp add: f trade_request_default_def)
qed

end
