(* ===== verification/BinaryFormat.thy ===== *)
theory BinaryFormat
  imports Encodings TradingEnums
begin

section \<open>The binary storage format\<close>

text \<open>
  The private helpers of \<open>data/trading/TradeRecord.hpp\<close>, of which \<open>SignalRecord.hpp\<close> has a copy of
  its own: \<open>append_value\<close> and its siblings, and the \<open>BinaryReader\<close>. A reader takes the bytes from
  \<open>m_offset\<close> on and returns a value with the bytes after it. \<open>append_value\<close> copies the object
  representation; on the little-endian targets that the format is for, this is the value's bytes
  from the least significant one on. The name of the class, which the messages start with, is an
  argument.
\<close>

type_synonym bytes = "u8 list"
type_synonym 'a parsed = "string + 'a \<times> bytes"

subsection \<open>Scalars\<close>

fun le_bytes :: "nat \<Rightarrow> int \<Rightarrow> bytes" where
  "le_bytes 0 x = []"
| "le_bytes (Suc k) x = word_of_int x # le_bytes k (x div 256)"

fun le_value :: "bytes \<Rightarrow> int" where
  "le_value [] = 0"
| "le_value (b # bs) = uint b + 256 * le_value bs"

definition read_raw :: "string \<Rightarrow> nat \<Rightarrow> bytes \<Rightarrow> bytes parsed" where
  "read_raw cls k bs = (if k > length bs then Inl (cls @ ''::from_bytes: corrupted or truncated data'')
     else Inr (take k bs, drop k bs))"

definition append_u8 :: "u8 \<Rightarrow> bytes" where "append_u8 v = le_bytes 1 (uint v)"
definition append_u16 :: "16 word \<Rightarrow> bytes" where "append_u16 v = le_bytes 2 (uint v)"
definition append_u32 :: "u32 \<Rightarrow> bytes" where "append_u32 v = le_bytes 4 (uint v)"
definition append_u64 :: "u64 \<Rightarrow> bytes" where "append_u64 v = le_bytes 8 (uint v)"
definition append_i32 :: "int \<Rightarrow> bytes" where "append_i32 v = le_bytes 4 v"
definition append_i64 :: "int \<Rightarrow> bytes" where "append_i64 v = le_bytes 8 v"

definition read_u8 :: "string \<Rightarrow> bytes \<Rightarrow> u8 parsed" where
  "read_u8 cls bs = attempt_bind (read_raw cls 1 bs) (\<lambda>(v, r). Inr (word_of_int (le_value v), r))"
definition read_u16 :: "string \<Rightarrow> bytes \<Rightarrow> 16 word parsed" where
  "read_u16 cls bs = attempt_bind (read_raw cls 2 bs) (\<lambda>(v, r). Inr (word_of_int (le_value v), r))"
definition read_u32 :: "string \<Rightarrow> bytes \<Rightarrow> u32 parsed" where
  "read_u32 cls bs = attempt_bind (read_raw cls 4 bs) (\<lambda>(v, r). Inr (word_of_int (le_value v), r))"
definition read_u64 :: "string \<Rightarrow> bytes \<Rightarrow> u64 parsed" where
  "read_u64 cls bs = attempt_bind (read_raw cls 8 bs) (\<lambda>(v, r). Inr (word_of_int (le_value v), r))"

definition to_signed :: "int \<Rightarrow> int \<Rightarrow> int" where
  "to_signed half v = (if v \<ge> half then v - 2 * half else v)"

definition read_i32 :: "string \<Rightarrow> bytes \<Rightarrow> int parsed" where
  "read_i32 cls bs = attempt_bind (read_raw cls 4 bs) (\<lambda>(v, r). Inr (to_signed 2147483648 (le_value v), r))"
definition read_i64 :: "string \<Rightarrow> bytes \<Rightarrow> int parsed" where
  "read_i64 cls bs = attempt_bind (read_raw cls 8 bs) (\<lambda>(v, r). Inr (to_signed 9223372036854775808 (le_value v), r))"

subsection \<open>Strings and enums\<close>

text \<open>A string longer than a 32-bit length makes the writer throw; \<open>append_string\<close> is the rest.\<close>

definition string_fits :: "string \<Rightarrow> bool" where
  "string_fits s \<longleftrightarrow> length s \<le> 4294967295"

definition byte_of_char :: "char \<Rightarrow> u8" where
  "byte_of_char c = of_nat (of_char c)"

definition char_of_byte :: "u8 \<Rightarrow> char" where
  "char_of_byte b = char_of (unat b)"

definition append_string :: "string \<Rightarrow> bytes" where
  "append_string s = append_u32 (of_nat (length s)) @ map byte_of_char s"

definition read_string :: "string \<Rightarrow> bytes \<Rightarrow> string parsed" where
  "read_string cls bs = attempt_bind (read_u32 cls bs) (\<lambda>(len, r).
     attempt_bind (read_raw cls (unat len) r) (\<lambda>(v, r). Inr (map char_of_byte v, r)))"

text \<open>
  \<open>append_enum8\<close> writes the number of the enumerator. \<open>read_enum8\<close> casts the byte back; a byte that
  numbers no enumerator would give an object without a name, and the model stops there.
\<close>

definition append_enum8 :: "'e list \<Rightarrow> 'e \<Rightarrow> bytes" where
  "append_enum8 vs v = append_u8 (of_nat (enum_index vs v))"

definition read_enum8 :: "'e list \<Rightarrow> string \<Rightarrow> bytes \<Rightarrow> 'e parsed" where
  "read_enum8 vs cls bs = attempt_bind (read_u8 cls bs) (\<lambda>(v, r).
     if unat v < length vs then Inr (vs ! unat v, r) else Inl (cls @ '': unnamed enumerator''))"

text \<open>\<open>append_vector_u32\<close> and \<open>read_vector_u32\<close> of \<open>SignalRecord.hpp\<close>.\<close>

definition append_vector_u32 :: "u32 list \<Rightarrow> bytes" where
  "append_vector_u32 vs = append_u32 (of_nat (length vs)) @ concat (map append_u32 vs)"

fun read_many_u32 :: "string \<Rightarrow> nat \<Rightarrow> bytes \<Rightarrow> u32 list parsed" where
  "read_many_u32 cls 0 bs = Inr ([], bs)"
| "read_many_u32 cls (Suc k) bs = attempt_bind (read_u32 cls bs) (\<lambda>(v, r).
     attempt_bind (read_many_u32 cls k r) (\<lambda>(vs, r). Inr (v # vs, r)))"

definition read_vector_u32 :: "string \<Rightarrow> bytes \<Rightarrow> u32 list parsed" where
  "read_vector_u32 cls bs = attempt_bind (read_u32 cls bs) (\<lambda>(len, r).
     if unat len > length r div 4 then Inl (cls @ ''::from_bytes: corrupted vector length'')
     else read_many_u32 cls (unat len) r)"

definition ensure_finished :: "string \<Rightarrow> bytes \<Rightarrow> string + unit" where
  "ensure_finished cls bs = (if bs \<noteq> [] then Inl (cls @ ''::from_bytes: trailing data'') else Inr ())"

subsection \<open>The law of a field\<close>

text \<open>
  A field is written and read back in front of anything, and what a reader accepts is what the
  writer writes: the format has one encoding of each value.
\<close>

locale field_codec =
  fixes put :: "'a \<Rightarrow> bytes"
    and get :: "bytes \<Rightarrow> 'a parsed"
    and ok :: "'a \<Rightarrow> bool"
  assumes get_put: "ok x \<Longrightarrow> get (put x @ r) = Inr (x, r)"
    and get_only: "get bs = Inr (x, r) \<Longrightarrow> ok x \<and> bs = put x @ r"
begin

lemma get_iff: "get bs = Inr (x, r) \<longleftrightarrow> ok x \<and> bs = put x @ r"
  using get_put get_only by blast

lemma get_put_last: "ok x \<Longrightarrow> get (put x) = Inr (x, [])"
  using get_put [of x "[]"] by simp

lemma put_prefix_free: "ok x \<Longrightarrow> ok y \<Longrightarrow> put x @ r = put y @ s \<longleftrightarrow> x = y \<and> r = s"
  by (metis get_put sum.inject(2) prod.inject)

lemma get_extend: "get bs = Inr (x, r) \<Longrightarrow> get (bs @ e) = Inr (x, r @ e)"
  by (simp add: get_iff)

end

lemma length_le_bytes [simp]: "length (le_bytes k x) = k"
  by (induction k arbitrary: x) simp_all

lemma le_value_bytes: "le_value (le_bytes k x) = x mod 256 ^ k"
proof (induction k arbitrary: x)
  case (Suc k)
  have "uint (word_of_int x :: u8) = x mod 256" by (simp add: uint_word_of_int)
  moreover have "x mod (256 * 256 ^ k) = 256 * (x div 256 mod 256 ^ k) + x mod 256"
    by (rule zmod_zmult2_eq) simp
  ultimately show ?case using Suc by simp
qed simp

lemma le_value_bounds: "0 \<le> le_value bs \<and> le_value bs < 256 ^ length bs"
proof (induction bs)
  case (Cons b bs)
  have "uint b \<le> 255" using uint_lt2p [of b] by simp
  moreover have "0 \<le> uint b" by simp
  moreover have "le_value bs + 1 \<le> 256 ^ length bs" using Cons by simp
  ultimately show ?case using Cons by simp
qed simp

lemma le_bytes_value: "le_bytes (length bs) (le_value bs) = bs"
proof (induction bs)
  case (Cons b bs)
  have u: "0 \<le> uint b" "uint b < 256" using uint_lt2p [of b] by simp_all
  have "word_of_int (uint b + 256 * le_value bs) = b"
  proof (rule word_uint_eqI)
    show "uint (word_of_int (uint b + 256 * le_value bs) :: u8) = uint b"
      unfolding uint_word_of_int using u by simp
  qed
  moreover have "(uint b + 256 * le_value bs) div 256 = le_value bs" using u by simp
  ultimately show ?case using Cons by simp
qed simp

lemma le_bytes_mod: "le_bytes k (x mod 256 ^ k) = le_bytes k x"
  by (metis le_bytes_value le_value_bytes length_le_bytes)

lemma read_raw_Inr: "read_raw cls k bs = Inr (v, r) \<longleftrightarrow> length v = k \<and> bs = v @ r"
  by (auto simp: read_raw_def)

lemma read_raw_append [simp]: "length v = k \<Longrightarrow> read_raw cls k (v @ r) = Inr (v, r)"
  by (simp add: read_raw_def)

lemma uint_bytes:
  fixes w :: "'a :: len word"
  assumes "LENGTH('a) = 8 * k"
  shows "word_of_int (le_value (le_bytes k (uint w))) = w"
proof -
  have "uint w < 256 ^ k" using uint_lt2p [of w] by (simp add: assms power_mult)
  then show ?thesis by (simp add: le_value_bytes)
qed

lemma bytes_uint:
  assumes "LENGTH('a :: len) = 8 * length bs"
  shows "le_bytes (length bs) (uint (word_of_int (le_value bs) :: 'a word)) = bs"
proof -
  have "uint (word_of_int (le_value bs) :: 'a word) = le_value bs"
    using le_value_bounds [of bs] by (simp add: uint_word_of_int assms power_mult)
  then show ?thesis by (simp add: le_bytes_value)
qed

text \<open>The unsigned scalars in one lemma: reading a word of \<open>k\<close> bytes.\<close>

lemma word_codec:
  assumes "LENGTH('a :: len) = 8 * k"
  shows "field_codec (\<lambda>v :: 'a word. le_bytes k (uint v))
    (\<lambda>bs. attempt_bind (read_raw cls k bs) (\<lambda>(v, r). Inr (word_of_int (le_value v), r))) (\<lambda>_. True)"
proof
  show "attempt_bind (read_raw cls k (le_bytes k (uint x) @ r)) (\<lambda>(v, r). Inr (word_of_int (le_value v) :: 'a word, r))
      = Inr (x, r)" for x :: "'a word" and r
    using uint_bytes [OF assms, of x] by simp
next
  fix bs r and x :: "'a word"
  assume "attempt_bind (read_raw cls k bs) (\<lambda>(v, r). Inr (word_of_int (le_value v) :: 'a word, r)) = Inr (x, r)"
  then obtain v where v: "length v = k" "bs = v @ r" "x = word_of_int (le_value v)"
    by (auto simp: attempt_iff read_raw_Inr)
  have "le_bytes (length v) (uint x) = v" unfolding v(3) by (rule bytes_uint) (simp add: assms v(1))
  then show "True \<and> bs = le_bytes k (uint x) @ r" using v by simp
qed

lemma to_signed_bytes:
  assumes "- half \<le> x" "x < half" "2 * half = 256 ^ k"
  shows "to_signed half (le_value (le_bytes k x)) = x"
proof (cases "0 \<le> x")
  case True
  then have "x mod 256 ^ k = x" using assms by simp
  then show ?thesis using assms by (simp add: to_signed_def le_value_bytes)
next
  case False
  have "x mod 256 ^ k = (x + 256 ^ k) mod 256 ^ k" by simp
  also have "\<dots> = x + 256 ^ k" using False assms by (intro mod_pos_pos_trivial) linarith+
  finally show ?thesis using False assms by (simp add: to_signed_def le_value_bytes)
qed

lemma bytes_to_signed:
  assumes "2 * half = 256 ^ length bs"
  shows "le_bytes (length bs) (to_signed half (le_value bs)) = bs"
    and "- half \<le> to_signed half (le_value bs)" "to_signed half (le_value bs) < half"
proof -
  have "to_signed half (le_value bs) mod 256 ^ length bs = le_value bs"
    using le_value_bounds [of bs] by (simp add: to_signed_def assms [symmetric] flip: assms)
  then show "le_bytes (length bs) (to_signed half (le_value bs)) = bs"
    by (metis le_bytes_mod le_bytes_value)
  show "- half \<le> to_signed half (le_value bs)" "to_signed half (le_value bs) < half"
    using le_value_bounds [of bs] assms by (auto simp: to_signed_def)
qed

lemma signed_codec:
  assumes "2 * half = (256 :: int) ^ k"
  shows "field_codec (le_bytes k)
    (\<lambda>bs. attempt_bind (read_raw cls k bs) (\<lambda>(v, r). Inr (to_signed half (le_value v), r)))
    (\<lambda>x. - half \<le> x \<and> x < half)"
proof
  show "attempt_bind (read_raw cls k (le_bytes k x @ r)) (\<lambda>(v, r). Inr (to_signed half (le_value v), r)) = Inr (x, r)"
    if "- half \<le> x \<and> x < half" for x r
    using to_signed_bytes [OF _ _ assms, of x] that by simp
next
  fix bs r x
  assume "attempt_bind (read_raw cls k bs) (\<lambda>(v, r). Inr (to_signed half (le_value v), r)) = Inr (x, r)"
  then obtain v where v: "length v = k" "bs = v @ r" "x = to_signed half (le_value v)"
    by (auto simp: attempt_iff read_raw_Inr)
  then show "(- half \<le> x \<and> x < half) \<and> bs = le_bytes k x @ r"
    using bytes_to_signed [of half v] assms by simp
qed

definition i32 :: "int \<Rightarrow> bool" where
  "i32 x \<longleftrightarrow> - 2147483648 \<le> x \<and> x \<le> 2147483647"

interpretation u8_field: field_codec append_u8 "read_u8 cls" "\<lambda>_. True" for cls
  unfolding append_u8_def read_u8_def by (rule word_codec) simp

interpretation u16_field: field_codec append_u16 "read_u16 cls" "\<lambda>_. True" for cls
  unfolding append_u16_def read_u16_def by (rule word_codec) simp

interpretation u32_field: field_codec append_u32 "read_u32 cls" "\<lambda>_. True" for cls
  unfolding append_u32_def read_u32_def by (rule word_codec) simp

interpretation u64_field: field_codec append_u64 "read_u64 cls" "\<lambda>_. True" for cls
  unfolding append_u64_def read_u64_def by (rule word_codec) simp

interpretation i32_field: field_codec append_i32 "read_i32 cls" i32 for cls
proof -
  have i: "i32 = (\<lambda>x. - 2147483648 \<le> x \<and> x < 2147483648)" by (auto simp: i32_def)
  show "field_codec append_i32 (read_i32 cls) i32"
    unfolding append_i32_def read_i32_def i by (rule signed_codec) simp
qed

interpretation i64_field: field_codec append_i64 "read_i64 cls" i64 for cls
proof -
  have i: "i64 = (\<lambda>x. - 9223372036854775808 \<le> x \<and> x < 9223372036854775808)" by (auto simp: i64_def)
  show "field_codec append_i64 (read_i64 cls) i64"
    unfolding append_i64_def read_i64_def i by (rule signed_codec) simp
qed

lemma byte_char [simp]: "char_of_byte (byte_of_char c) = c"
proof -
  have "unat (of_nat (of_char c) :: u8) = of_char c" by (simp add: unat_of_nat take_bit_nat_eq_self)
  then show ?thesis by (simp add: char_of_byte_def byte_of_char_def)
qed

lemma char_byte [simp]: "byte_of_char (char_of_byte b) = b"
proof -
  have "unat b < 256" using unsigned_less [of b, where 'a = nat] by simp
  then show ?thesis by (simp add: char_of_byte_def byte_of_char_def)
qed

lemma unat_u32_fits: "n \<le> 4294967295 \<Longrightarrow> unat (of_nat n :: u32) = n"
  by (simp add: unat_of_nat take_bit_nat_eq_self)

lemma unat_u32_le: "unat (w :: u32) \<le> 4294967295"
  using unsigned_less [of w, where 'a = nat] by simp

interpretation string_field: field_codec append_string "read_string cls" string_fits for cls
proof
  show "read_string cls (append_string x @ r) = Inr (x, r)" if "string_fits x" for x r
    using that by (simp add: read_string_def append_string_def u32_field.get_put unat_u32_fits string_fits_def o_def)
next
  fix bs x r
  assume "read_string cls bs = Inr (x, r)"
  then obtain len t v where "bs = append_u32 len @ t" "length v = unat len" "t = v @ r" "x = map char_of_byte v"
    by (auto simp: read_string_def attempt_iff u32_field.get_iff read_raw_Inr)
  then show "string_fits x \<and> bs = append_string x @ r"
    using unat_u32_le [of len] by (simp add: append_string_def string_fits_def o_def)
qed

lemma enum_index_nth:
  assumes "distinct vs" "i < length vs"
  shows "enum_index vs (vs ! i) = i"
proof -
  have "takeWhile (\<lambda>x. x \<noteq> vs ! i) vs = take i vs"
    using assms by (intro takeWhile_eq_take_P_nth) (auto simp: nth_eq_iff_index_eq)
  then show ?thesis using assms by (simp add: enum_index_def)
qed

lemma nth_enum_index:
  assumes "v \<in> set vs"
  shows "enum_index vs v < length vs" "vs ! enum_index vs v = v"
proof -
  show l: "enum_index vs v < length vs"
  proof -
    have "takeWhile (\<lambda>x. x \<noteq> v) vs \<noteq> vs" using assms by (metis (mono_tags) takeWhile_eq_all_conv)
    then show ?thesis
      unfolding enum_index_def by (metis le_neq_implies_less length_takeWhile_le take_all takeWhile_eq_take order_refl)
  qed
  then show "vs ! enum_index vs v = v"
    unfolding enum_index_def using nth_length_takeWhile [of "\<lambda>x. x \<noteq> v" vs] by blast
qed

lemma enum8_codec:
  assumes d: "distinct vs" and n: "length vs \<le> 256"
  shows "field_codec (append_enum8 vs) (read_enum8 vs cls) (\<lambda>v. v \<in> set vs)"
proof
  show "read_enum8 vs cls (append_enum8 vs x @ r) = Inr (x, r)" if "x \<in> set vs" for x r
  proof -
    have "enum_index vs x < 256" using nth_enum_index [OF that] n by linarith
    then have "unat (of_nat (enum_index vs x) :: u8) = enum_index vs x" by (simp add: unat_of_nat take_bit_nat_eq_self)
    then show ?thesis using nth_enum_index [OF that] by (simp add: read_enum8_def append_enum8_def u8_field.get_put)
  qed
next
  fix bs x r
  assume "read_enum8 vs cls bs = Inr (x, r)"
  then obtain b where b: "bs = append_u8 b @ r" "unat b < length vs" "x = vs ! unat b"
    by (auto simp: read_enum8_def attempt_iff u8_field.get_iff split: if_splits)
  then show "x \<in> set vs \<and> bs = append_enum8 vs x @ r"
    by (simp add: append_enum8_def enum_index_nth [OF d])
qed

lemma read_many_u32_iff:
  "read_many_u32 cls k bs = Inr (vs, r) \<longleftrightarrow> length vs = k \<and> bs = concat (map append_u32 vs) @ r"
proof (induction k arbitrary: bs vs)
  case (Suc k)
  then show ?case by (cases vs) (auto simp: attempt_iff u32_field.get_iff)
qed auto

lemma length_concat_u32 [simp]: "length (concat (map append_u32 vs)) = 4 * length vs"
  by (induction vs) (simp_all add: append_u32_def)

interpretation vector_field: field_codec append_vector_u32 "read_vector_u32 cls" "\<lambda>vs. length vs \<le> 4294967295" for cls
proof
  show "read_vector_u32 cls (append_vector_u32 x @ r) = Inr (x, r)" if "length x \<le> 4294967295" for x r
    using that by (simp add: read_vector_u32_def append_vector_u32_def u32_field.get_put unat_u32_fits read_many_u32_iff)
next
  fix bs x r
  assume "read_vector_u32 cls bs = Inr (x, r)"
  then obtain len t where "bs = append_u32 len @ t" "length x = unat len" "t = concat (map append_u32 x) @ r"
    by (auto simp: read_vector_u32_def attempt_iff u32_field.get_iff read_many_u32_iff split: if_splits)
  then show "length x \<le> 4294967295 \<and> bs = append_vector_u32 x @ r"
    using unat_u32_le [of len] by (simp add: append_vector_u32_def)
qed

subsection \<open>The enums of the records\<close>

lemma in_platform_type_values [simp]: "x \<in> set platform_type_values"
  by (cases x) (simp_all add: platform_type_values_def)

interpretation platform_field: field_codec "append_enum8 platform_type_values" "read_enum8 platform_type_values cls" "\<lambda>_. True" for cls
  using enum8_codec [of platform_type_values cls] by (simp add: platform_type_values_def [symmetric]) (simp add: platform_type_values_def)

lemma in_account_type_values [simp]: "x \<in> set account_type_values"
  by (cases x) (simp_all add: account_type_values_def)

interpretation account_type_field: field_codec "append_enum8 account_type_values" "read_enum8 account_type_values cls" "\<lambda>_. True" for cls
  using enum8_codec [of account_type_values cls] by (simp add: account_type_values_def [symmetric]) (simp add: account_type_values_def)

lemma in_currency_type_values [simp]: "x \<in> set currency_type_values"
  by (cases x) (simp_all add: currency_type_values_def)

interpretation currency_field: field_codec "append_enum8 currency_type_values" "read_enum8 currency_type_values cls" "\<lambda>_. True" for cls
  using enum8_codec [of currency_type_values cls] by (simp add: currency_type_values_def [symmetric]) (simp add: currency_type_values_def)

lemma in_option_type_values [simp]: "x \<in> set option_type_values"
  by (cases x) (simp_all add: option_type_values_def)

interpretation option_type_field: field_codec "append_enum8 option_type_values" "read_enum8 option_type_values cls" "\<lambda>_. True" for cls
  using enum8_codec [of option_type_values cls] by (simp add: option_type_values_def [symmetric]) (simp add: option_type_values_def)

lemma in_order_type_values [simp]: "x \<in> set order_type_values"
  by (cases x) (simp_all add: order_type_values_def)

interpretation order_type_field: field_codec "append_enum8 order_type_values" "read_enum8 order_type_values cls" "\<lambda>_. True" for cls
  using enum8_codec [of order_type_values cls] by (simp add: order_type_values_def [symmetric]) (simp add: order_type_values_def)

lemma in_trade_state_values [simp]: "x \<in> set trade_state_values"
  by (cases x) (simp_all add: trade_state_values_def)

interpretation state_field: field_codec "append_enum8 trade_state_values" "read_enum8 trade_state_values cls" "\<lambda>_. True" for cls
  using enum8_codec [of trade_state_values cls] by (simp add: trade_state_values_def [symmetric]) (simp add: trade_state_values_def)

lemma in_trade_error_code_values [simp]: "x \<in> set trade_error_code_values"
  by (cases x) (simp_all add: trade_error_code_values_def)

interpretation error_code_field: field_codec "append_enum8 trade_error_code_values" "read_enum8 trade_error_code_values cls" "\<lambda>_. True" for cls
  using enum8_codec [of trade_error_code_values cls] by (simp add: trade_error_code_values_def [symmetric]) (simp add: trade_error_code_values_def)

lemma in_mm_system_type_values [simp]: "x \<in> set mm_system_type_values"
  by (cases x) (simp_all add: mm_system_type_values_def)

interpretation mm_field: field_codec "append_enum8 mm_system_type_values" "read_enum8 mm_system_type_values cls" "\<lambda>_. True" for cls
  using enum8_codec [of mm_system_type_values cls] by (simp add: mm_system_type_values_def [symmetric]) (simp add: mm_system_type_values_def)

lemma in_signal_status_values [simp]: "x \<in> set signal_status_values"
  by (cases x) (simp_all add: signal_status_values_def)

interpretation signal_status_field: field_codec "append_enum8 signal_status_values" "read_enum8 signal_status_values cls" "\<lambda>_. True" for cls
  using enum8_codec [of signal_status_values cls] by (simp add: signal_status_values_def [symmetric]) (simp add: signal_status_values_def)

lemma in_signal_reject_code_values [simp]: "x \<in> set signal_reject_code_values"
  by (cases x) (simp_all add: signal_reject_code_values_def)

interpretation reject_code_field: field_codec "append_enum8 signal_reject_code_values" "read_enum8 signal_reject_code_values cls" "\<lambda>_. True" for cls
  using enum8_codec [of signal_reject_code_values cls] by (simp add: signal_reject_code_values_def [symmetric]) (simp add: signal_reject_code_values_def)

lemma in_signal_outcome_values [simp]: "x \<in> set signal_outcome_values"
  by (cases x) (simp_all add: signal_outcome_values_def)

interpretation outcome_field: field_codec "append_enum8 signal_outcome_values" "read_enum8 signal_outcome_values cls" "\<lambda>_. True" for cls
  using enum8_codec [of signal_outcome_values cls] by (simp add: signal_outcome_values_def [symmetric]) (simp add: signal_outcome_values_def)

end
