(* ===== verification/TradeRecords.thy ===== *)
theory TradeRecords
  imports Requests
begin

unbundle bit_operations_syntax

section \<open>Trade and signal records\<close>

text \<open>
  \<open>data/trading/TradeRecord.hpp\<close>, \<open>SignalRecord.hpp\<close>, \<open>TradeRecordQuery.hpp\<close> and
  \<open>storages/TradeRecordDB/TradeRecordStatusFixer.hpp\<close>: the flat records the databases keep, how a
  request, a result and a patch are copied into them, when two records name the same broker order,
  and the repair of trades that never reached a final state. The JSON of the polymorphic parameters
  of a signal comes from their virtual methods: \<open>dump\<close> is an argument. The binary format is in
  \<open>RecordCodec\<close>.
\<close>

subsection \<open>TradeRecord\<close>

record trade_record =
  trec_trade_id :: u32
  trec_signal_id :: u32
  trec_bridge_id :: u32
  trec_unique_id :: int
  trec_unique_hash :: string
  trec_account_id :: int
  trec_option_id :: int
  trec_option_hash :: string
  trec_platform_type :: platform_type
  trec_account_type :: account_type
  trec_currency :: currency_type
  trec_symbol :: string
  trec_signal_name :: string
  trec_user_data :: string
  trec_comment :: string
  trec_option_type :: option_type
  trec_order_type :: order_type
  trec_amount :: f64
  trec_refund :: f64
  trec_min_payout :: f64
  trec_payout :: f64
  trec_profit :: f64
  trec_open_balance :: f64
  trec_close_balance :: f64
  trec_trade_state :: trade_state
  trec_live_state :: trade_state
  trec_error_code :: trade_error_code
  trec_error_desc :: string
  trec_open_price :: f64
  trec_close_price :: f64
  trec_delay :: int
  trec_ping :: int
  trec_place_date :: int
  trec_send_date :: int
  trec_open_date :: int
  trec_close_date :: int
  trec_duration :: u32
  trec_mm_type :: mm_system_type
  trec_mm_step :: int
  trec_mm_group_id :: int
  trec_mm_group_hash :: string
  trec_mm_group_name :: string
  trec_mm_params_json :: string
  trec_decision_params_json :: string
  trec_metadata_json :: string
  trec_flags :: u8
  trec_spread :: spread_pack

definition trade_record_default :: trade_record where
  "trade_record_default = \<lparr>
    trec_trade_id = 0, trec_signal_id = 0, trec_bridge_id = 0, trec_unique_id = 0,
    trec_unique_hash = [], trec_account_id = 0, trec_option_id = 0, trec_option_hash = [],
    trec_platform_type = PT_UNKNOWN, trec_account_type = ACC_UNKNOWN,
    trec_currency = CUR_UNKNOWN, trec_symbol = [], trec_signal_name = [], trec_user_data = [],
    trec_comment = [], trec_option_type = OPT_UNKNOWN, trec_order_type = ORD_UNKNOWN,
    trec_amount = 0, trec_refund = 0, trec_min_payout = 0, trec_payout = 0, trec_profit = 0,
    trec_open_balance = 0, trec_close_balance = 0, trec_trade_state = TS_UNKNOWN,
    trec_live_state = TS_UNKNOWN, trec_error_code = TEC_SUCCESS, trec_error_desc = [],
    trec_open_price = 0, trec_close_price = 0, trec_delay = 0, trec_ping = 0,
    trec_place_date = 0, trec_send_date = 0, trec_open_date = 0, trec_close_date = 0,
    trec_duration = 0, trec_mm_type = MM_NONE, trec_mm_step = 0, trec_mm_group_id = 0,
    trec_mm_group_hash = [], trec_mm_group_name = [], trec_mm_params_json = [],
    trec_decision_params_json = [], trec_metadata_json = [], trec_flags = 0,
    trec_spread = spread_pack_default\<rparr>"

definition trec_last_in_group :: "trade_record \<Rightarrow> bool" where
  "trec_last_in_group r \<longleftrightarrow> trec_flags r AND 1 \<noteq> 0"

definition trec_has_open_balance :: "trade_record \<Rightarrow> bool" where
  "trec_has_open_balance r \<longleftrightarrow> trec_flags r AND 2 \<noteq> 0"

definition trec_has_close_balance :: "trade_record \<Rightarrow> bool" where
  "trec_has_close_balance r \<longleftrightarrow> trec_flags r AND 4 \<noteq> 0"

definition trec_set_last_in_group :: "bool \<Rightarrow> trade_record \<Rightarrow> trade_record" where
  "trec_set_last_in_group v r =
     r\<lparr>trec_flags := (if v then trec_flags r OR 1 else trec_flags r AND NOT 1)\<rparr>"

definition trec_set_open_balance :: "f64 \<Rightarrow> trade_record \<Rightarrow> trade_record" where
  "trec_set_open_balance value r = r\<lparr>trec_open_balance := value, trec_flags := trec_flags r OR 2\<rparr>"

definition trec_set_close_balance :: "f64 \<Rightarrow> trade_record \<Rightarrow> trade_record" where
  "trec_set_close_balance value r = r\<lparr>trec_close_balance := value, trec_flags := trec_flags r OR 4\<rparr>"

definition trec_assign_request :: "trade_request \<Rightarrow> trade_record \<Rightarrow> trade_record" where
  "trec_assign_request q r =
     r\<lparr>trec_trade_id := treq_trade_id q, trec_signal_id := treq_signal_id q, trec_bridge_id := treq_bridge_id q,
       trec_unique_id := treq_unique_id q, trec_unique_hash := treq_unique_hash q,
       trec_account_id := treq_account_id q, trec_account_type := treq_account_type q,
       trec_currency := treq_currency q, trec_symbol := treq_symbol q, trec_signal_name := treq_signal_name q,
       trec_user_data := treq_user_data q, trec_comment := treq_comment q, trec_option_type := treq_option_type q,
       trec_order_type := treq_order_type q, trec_amount := treq_amount q, trec_refund := treq_refund q,
       trec_min_payout := treq_min_payout q, trec_duration := treq_duration q,
       trec_close_date := (if treq_expiry_time q > 0 then treq_expiry_time q * 1000 else trec_close_date r)\<rparr>"

definition result_has_balance_projection :: "trade_result \<Rightarrow> bool" where
  "result_has_balance_projection s \<longleftrightarrow> tres_trade_state s = TS_WIN \<or> tres_trade_state s = TS_LOSS \<or>
     tres_trade_state s = TS_STANDOFF \<or> tres_trade_state s = TS_REFUND"

definition spread_known :: "spread_pack \<Rightarrow> bool" where
  "spread_known s \<longleftrightarrow> sp_raw s \<noteq> 0 \<or> sp_digits s \<noteq> 0"

text \<open>The balances are stored between the fields before them and those after, as the code does.\<close>

definition snapshot_balances :: "trade_result \<Rightarrow> trade_record \<Rightarrow> trade_record" where
  "snapshot_balances s r =
     (let r = (if has_open_balance s then trec_set_open_balance (tres_open_balance s) r else r)
      in if has_close_balance s then trec_set_close_balance (tres_close_balance s) r
         else if trec_has_open_balance r \<and> result_has_balance_projection s
              then trec_set_close_balance (f64_add (trec_open_balance r) (tres_profit s)) r
         else r)"

definition apply_result_snapshot :: "trade_result \<Rightarrow> trade_record \<Rightarrow> trade_record" where
  "apply_result_snapshot s r =
     (let r = r\<lparr>trec_trade_id := (if tres_trade_id s > 0 then tres_trade_id s else trec_trade_id r),
            trec_option_id := (if tres_option_id s \<noteq> 0 then tres_option_id s else trec_option_id r),
            trec_option_hash := (if tres_option_hash s \<noteq> [] then tres_option_hash s else trec_option_hash r),
            trec_amount := (if f64_less 0 (tres_amount s) then tres_amount s else trec_amount r),
            trec_payout := tres_payout s, trec_profit := tres_profit s\<rparr>;
          r = snapshot_balances s r
      in r\<lparr>trec_open_price := tres_open_price s, trec_close_price := tres_close_price s,
           trec_delay := tres_delay s, trec_ping := tres_ping s, trec_place_date := tres_place_date s,
           trec_send_date := tres_send_date s, trec_open_date := tres_open_date s,
           trec_close_date := (if tres_close_date s > 0 \<or> trec_close_date r = 0 then tres_close_date s else trec_close_date r),
           trec_trade_state := tres_trade_state s, trec_live_state := tres_live_state s,
           trec_error_code := tres_error_code s, trec_error_desc := tres_error_desc s,
           trec_account_type := (if tres_account_type s \<noteq> ACC_UNKNOWN then tres_account_type s else trec_account_type r),
           trec_currency := (if tres_currency s \<noteq> CUR_UNKNOWN then tres_currency s else trec_currency r),
           trec_platform_type := (if tres_platform_type s \<noteq> PT_UNKNOWN then tres_platform_type s else trec_platform_type r),
           trec_spread := (if spread_known (tres_spread s) then tres_spread s else trec_spread r)\<rparr>)"

text \<open>
  \<open>merge_result_patch\<close>: one \<open>patch\<close> per field, in order; the boolean is \<open>updated\<close>. A field is
  patched when the result knows a value and it differs from the record's.
\<close>

definition patch :: "bool \<Rightarrow> (trade_record \<Rightarrow> bool) \<Rightarrow> (trade_record \<Rightarrow> trade_record)
    \<Rightarrow> trade_record \<times> bool \<Rightarrow> trade_record \<times> bool" where
  "patch known differs upd p = (if known \<and> differs (fst p) then (upd (fst p), True) else p)"

definition patch_balances :: "trade_result \<Rightarrow> trade_record \<times> bool \<Rightarrow> trade_record \<times> bool" where
  "patch_balances s p =
     (let p = (if has_open_balance s
               then (trec_set_open_balance (tres_open_balance s) (fst p),
                     snd p \<or> \<not> trec_has_open_balance (fst p) \<or> \<not> f64_eq (trec_open_balance (fst p)) (tres_open_balance s))
               else p)
      in if has_close_balance s
         then (trec_set_close_balance (tres_close_balance s) (fst p),
               snd p \<or> \<not> trec_has_close_balance (fst p) \<or> \<not> f64_eq (trec_close_balance (fst p)) (tres_close_balance s))
         else if \<not> trec_has_close_balance (fst p) \<and> trec_has_open_balance (fst p) \<and> result_has_balance_projection s
              then (trec_set_close_balance (f64_add (trec_open_balance (fst p)) (tres_profit s)) (fst p), True)
         else p)"

definition patch_identity :: "trade_result \<Rightarrow> trade_record \<times> bool \<Rightarrow> trade_record \<times> bool" where
  "patch_identity s p =
     (let p = patch (tres_trade_id s > 0) (\<lambda>r. trec_trade_id r \<noteq> tres_trade_id s) (trec_trade_id_update (\<lambda>_. tres_trade_id s)) p;
          p = patch (tres_option_id s \<noteq> 0) (\<lambda>r. trec_option_id r \<noteq> tres_option_id s) (trec_option_id_update (\<lambda>_. tres_option_id s)) p;
          p = patch (tres_option_hash s \<noteq> []) (\<lambda>r. trec_option_hash r \<noteq> tres_option_hash s) (trec_option_hash_update (\<lambda>_. tres_option_hash s)) p;
          p = patch (f64_less 0 (tres_amount s)) (\<lambda>r. \<not> f64_eq (trec_amount r) (tres_amount s)) (trec_amount_update (\<lambda>_. tres_amount s)) p;
          p = patch (\<not> f64_eq (tres_payout s) 0) (\<lambda>r. \<not> f64_eq (trec_payout r) (tres_payout s)) (trec_payout_update (\<lambda>_. tres_payout s)) p
      in patch (\<not> f64_eq (tres_profit s) 0 \<or> tres_trade_state s = TS_STANDOFF \<or> tres_trade_state s = TS_REFUND)
           (\<lambda>r. \<not> f64_eq (trec_profit r) (tres_profit s)) (trec_profit_update (\<lambda>_. tres_profit s)) p)"

definition patch_market :: "trade_result \<Rightarrow> trade_record \<times> bool \<Rightarrow> trade_record \<times> bool" where
  "patch_market s p =
     (let p = patch (\<not> f64_eq (tres_open_price s) 0) (\<lambda>r. \<not> f64_eq (trec_open_price r) (tres_open_price s)) (trec_open_price_update (\<lambda>_. tres_open_price s)) p;
          p = patch (\<not> f64_eq (tres_close_price s) 0) (\<lambda>r. \<not> f64_eq (trec_close_price r) (tres_close_price s)) (trec_close_price_update (\<lambda>_. tres_close_price s)) p;
          p = patch (tres_delay s \<noteq> 0) (\<lambda>r. trec_delay r \<noteq> tres_delay s) (trec_delay_update (\<lambda>_. tres_delay s)) p;
          p = patch (tres_ping s \<noteq> 0) (\<lambda>r. trec_ping r \<noteq> tres_ping s) (trec_ping_update (\<lambda>_. tres_ping s)) p;
          p = patch (tres_place_date s > 0) (\<lambda>r. trec_place_date r \<noteq> tres_place_date s) (trec_place_date_update (\<lambda>_. tres_place_date s)) p;
          p = patch (tres_send_date s > 0) (\<lambda>r. trec_send_date r \<noteq> tres_send_date s) (trec_send_date_update (\<lambda>_. tres_send_date s)) p;
          p = patch (tres_open_date s > 0) (\<lambda>r. trec_open_date r \<noteq> tres_open_date s) (trec_open_date_update (\<lambda>_. tres_open_date s)) p
      in patch (tres_close_date s > 0) (\<lambda>r. trec_close_date r \<noteq> tres_close_date s) (trec_close_date_update (\<lambda>_. tres_close_date s)) p)"

definition patch_state :: "trade_result \<Rightarrow> trade_record \<times> bool \<Rightarrow> trade_record \<times> bool" where
  "patch_state s p =
     (let p = patch (tres_trade_state s \<noteq> TS_UNKNOWN) (\<lambda>r. trec_trade_state r \<noteq> tres_trade_state s) (trec_trade_state_update (\<lambda>_. tres_trade_state s)) p;
          p = patch (tres_live_state s \<noteq> TS_UNKNOWN) (\<lambda>r. trec_live_state r \<noteq> tres_live_state s) (trec_live_state_update (\<lambda>_. tres_live_state s)) p;
          p = patch (tres_error_code s \<noteq> TEC_SUCCESS) (\<lambda>r. trec_error_code r \<noteq> tres_error_code s) (trec_error_code_update (\<lambda>_. tres_error_code s)) p;
          p = patch (tres_error_desc s \<noteq> []) (\<lambda>r. trec_error_desc r \<noteq> tres_error_desc s) (trec_error_desc_update (\<lambda>_. tres_error_desc s)) p;
          p = patch (tres_account_type s \<noteq> ACC_UNKNOWN) (\<lambda>r. trec_account_type r \<noteq> tres_account_type s) (trec_account_type_update (\<lambda>_. tres_account_type s)) p;
          p = patch (tres_currency s \<noteq> CUR_UNKNOWN) (\<lambda>r. trec_currency r \<noteq> tres_currency s) (trec_currency_update (\<lambda>_. tres_currency s)) p;
          p = patch (tres_platform_type s \<noteq> PT_UNKNOWN) (\<lambda>r. trec_platform_type r \<noteq> tres_platform_type s) (trec_platform_type_update (\<lambda>_. tres_platform_type s)) p
      in patch (spread_known (tres_spread s)) (\<lambda>r. trec_spread r \<noteq> tres_spread s) (trec_spread_update (\<lambda>_. tres_spread s)) p)"

definition merge_result_patch :: "trade_result \<Rightarrow> trade_record \<Rightarrow> trade_record \<times> bool" where
  "merge_result_patch s r = patch_state s (patch_market s (patch_balances s (patch_identity s (r, False))))"

definition trec_assign_signal :: "('p \<Rightarrow> string) \<Rightarrow> 'p trade_signal \<Rightarrow> trade_record \<Rightarrow> trade_record" where
  "trec_assign_signal dump s r =
     (trec_assign_request (to_trade_request s) r)
       \<lparr>trec_mm_type := tsig_mm_type s, trec_mm_step := tsig_mm_step s, trec_mm_group_id := tsig_mm_group_id s,
        trec_mm_group_hash := tsig_mm_group_hash s, trec_mm_group_name := tsig_mm_group_name s,
        trec_mm_params_json := (case tsig_mm_params s of None \<Rightarrow> [] | Some q \<Rightarrow> dump q),
        trec_decision_params_json := (case tsig_decision_params s of None \<Rightarrow> [] | Some q \<Rightarrow> dump q)\<rparr>"

definition trec_from_request :: "trade_request \<Rightarrow> trade_record" where
  "trec_from_request q = trec_assign_request q trade_record_default"

definition trec_from_request_result :: "trade_request \<Rightarrow> trade_result \<Rightarrow> trade_record" where
  "trec_from_request_result q s = apply_result_snapshot s (trec_from_request q)"

definition trec_from_signal :: "('p \<Rightarrow> string) \<Rightarrow> 'p trade_signal \<Rightarrow> trade_record" where
  "trec_from_signal dump s = trec_assign_signal dump s trade_record_default"

definition trec_from_signal_result :: "('p \<Rightarrow> string) \<Rightarrow> 'p trade_signal \<Rightarrow> trade_result \<Rightarrow> trade_record" where
  "trec_from_signal_result dump sig s = apply_result_snapshot s (trec_from_signal dump sig)"

definition has_broker_identity :: "trade_record \<Rightarrow> bool" where
  "has_broker_identity r \<longleftrightarrow> trec_option_id r \<noteq> 0 \<or> trec_option_hash r \<noteq> []"

definition same_known :: "'a \<Rightarrow> 'a \<Rightarrow> 'a \<Rightarrow> bool" where
  "same_known lhs rhs unknown \<longleftrightarrow> lhs = unknown \<or> rhs = unknown \<or> lhs = rhs"

definition same_broker_identity :: "trade_record \<Rightarrow> trade_record \<Rightarrow> bool" where
  "same_broker_identity a b =
     (if \<not> has_broker_identity a \<or> \<not> has_broker_identity b then False
      else if \<not> same_known (trec_platform_type a) (trec_platform_type b) PT_UNKNOWN then False
      else if \<not> same_known (trec_account_type a) (trec_account_type b) ACC_UNKNOWN then False
      else if \<not> same_known (trec_account_id a) (trec_account_id b) 0 then False
      else if \<not> same_known (trec_symbol a) (trec_symbol b) [] then False
      else if trec_option_id a \<noteq> 0 \<and> trec_option_id b \<noteq> 0 \<and> trec_option_id a \<noteq> trec_option_id b then False
      else if trec_option_hash a \<noteq> [] \<and> trec_option_hash b \<noteq> [] \<and> trec_option_hash a \<noteq> trec_option_hash b then False
      else trec_option_id a \<noteq> 0 \<and> trec_option_id b \<noteq> 0 \<and> trec_option_id a = trec_option_id b
        \<or> trec_option_hash a \<noteq> [] \<and> trec_option_hash b \<noteq> [] \<and> trec_option_hash a = trec_option_hash b)"

subsection \<open>The timestamp of a query\<close>

datatype trade_record_time_field = TF_AUTO | TF_PLACE_DATE | TF_SEND_DATE | TF_OPEN_DATE | TF_CLOSE_DATE

datatype time_range_mode = TR_NONE | TR_CLOSED | TR_HALF_OPEN

fun select_timestamp_ms :: "trade_record \<Rightarrow> trade_record_time_field \<Rightarrow> int" where
  "select_timestamp_ms r TF_PLACE_DATE = trec_place_date r"
| "select_timestamp_ms r TF_SEND_DATE = trec_send_date r"
| "select_timestamp_ms r TF_OPEN_DATE = trec_open_date r"
| "select_timestamp_ms r TF_CLOSE_DATE = trec_close_date r"
| "select_timestamp_ms r TF_AUTO =
     (if trec_place_date r > 0 then trec_place_date r
      else if trec_send_date r > 0 then trec_send_date r
      else if trec_open_date r > 0 then trec_open_date r
      else if trec_close_date r > 0 then trec_close_date r else 0)"

subsection \<open>Repair of stale trades\<close>

text \<open>
  \<open>fix_stale_statuses\<close>. The callback is an argument, \<open>None\<close> for an empty \<open>std::function\<close>. The product
  \<open>rec.duration * 1000\<close> is one of a 32-bit unsigned integer and wraps.
\<close>

definition max_terminal_close :: "trade_record list \<Rightarrow> int" where
  "max_terminal_close rs = foldl (\<lambda>m r. if is_terminal_trade_state (trec_trade_state r) \<and> trec_close_date r > m
     then trec_close_date r else m) 0 rs"

definition should_check_error :: "int \<Rightarrow> trade_record \<Rightarrow> bool" where
  "should_check_error border r =
     (if trec_close_date r > 0 \<and> trec_close_date r < border then True
      else trec_open_date r > 0 \<and> trec_duration r > 0 \<and> trec_open_date r + uint (trec_duration r * 1000) < border)"

definition is_stale :: "int \<Rightarrow> trade_record \<Rightarrow> bool" where
  "is_stale border r \<longleftrightarrow> \<not> is_terminal_trade_state (trec_trade_state r) \<and>
     (trec_trade_state r = TS_OPEN_SUCCESS \<or> trec_trade_state r = TS_IN_PROGRESS \<or> trec_trade_state r = TS_WAITING_CLOSE) \<and>
     should_check_error border r"

definition fix_stale_record :: "(trade_record \<Rightarrow> trade_result) option \<Rightarrow> trade_record \<Rightarrow> trade_record" where
  "fix_stale_record callback r =
     (let (r', resolved) = (case callback of
          None \<Rightarrow> (r, False)
        | Some f \<Rightarrow> if tres_trade_state (f r) \<noteq> TS_UNKNOWN then merge_result_patch (f r) r else (r, False))
      in if resolved then r' else r'\<lparr>trec_trade_state := TS_CHECK_ERROR\<rparr>)"

definition fix_stale_statuses ::
  "(trade_record \<Rightarrow> trade_result) option \<Rightarrow> int \<Rightarrow> trade_record list \<Rightarrow> trade_record list" where
  "fix_stale_statuses callback wait_ms rs =
     (if rs = [] \<or> max_terminal_close rs = 0 then rs
      else let border = max_terminal_close rs - wait_ms
           in if border \<le> 0 then rs
              else map (\<lambda>r. if is_stale border r then fix_stale_record callback r else r) rs)"

subsection \<open>Applying the same patch twice changes nothing the second time\<close>

definition settled :: "bool \<Rightarrow> (trade_record \<Rightarrow> bool) \<Rightarrow> trade_record \<Rightarrow> bool" where
  "settled known differs r \<longleftrightarrow> \<not> (known \<and> differs r)"

lemma settled_own [simp]: "(\<And>r. known \<Longrightarrow> \<not> differs (upd r)) \<Longrightarrow> settled known differs (fst (patch known differs upd p))"
  by (auto simp: settled_def patch_def)

lemma settled_other [simp]: "(\<And>r. differs (upd r) = differs r) \<Longrightarrow>
    settled known differs (fst (patch k d upd p)) = settled known differs (fst p)"
  by (auto simp: settled_def patch_def)

lemma patch_chain: "p = (m, False) \<Longrightarrow> settled known differs m \<Longrightarrow> patch known differs upd p = (m, False)"
  by (auto simp: settled_def patch_def)

lemma settled_balances [simp]:
  assumes "\<And>v r. differs (trec_set_open_balance v r) = differs r" and "\<And>v r. differs (trec_set_close_balance v r) = differs r"
  shows "settled known differs (fst (patch_balances s p)) = settled known differs (fst p)"
  using assms by (simp add: settled_def patch_balances_def Let_def)

text \<open>The balance fields and flags are left alone by every field patch.\<close>

definition balance_part :: "trade_record \<Rightarrow> f64 \<times> f64 \<times> u8" where
  "balance_part r = (trec_open_balance r, trec_close_balance r, trec_flags r)"

lemma patch_balance_part [simp]: "(\<And>r. balance_part (upd r) = balance_part r) \<Longrightarrow>
    balance_part (fst (patch known differs upd p)) = balance_part (fst p)"
  by (auto simp: patch_def)

lemma balance_part_frames [simp]:
  "balance_part (trec_open_price_update g1 r) = balance_part r"
  "balance_part (trec_close_price_update g2 r) = balance_part r"
  "balance_part (trec_delay_update g3 r) = balance_part r"
  "balance_part (trec_ping_update g4 r) = balance_part r"
  "balance_part (trec_place_date_update g5 r) = balance_part r"
  "balance_part (trec_send_date_update g6 r) = balance_part r"
  "balance_part (trec_open_date_update g7 r) = balance_part r"
  "balance_part (trec_close_date_update g8 r) = balance_part r"
  "balance_part (trec_trade_state_update g9 r) = balance_part r"
  "balance_part (trec_live_state_update g10 r) = balance_part r"
  "balance_part (trec_error_code_update g11 r) = balance_part r"
  "balance_part (trec_error_desc_update g12 r) = balance_part r"
  "balance_part (trec_account_type_update g13 r) = balance_part r"
  "balance_part (trec_currency_update g14 r) = balance_part r"
  "balance_part (trec_platform_type_update g15 r) = balance_part r"
  "balance_part (trec_spread_update g16 r) = balance_part r"
  by (simp_all add: balance_part_def)

lemma flag_set: "(x OR 2) AND 2 \<noteq> (0 :: u8)" "(x OR 4) AND 4 \<noteq> (0 :: u8)"
  "(x OR 4) AND 2 = x AND (2 :: u8)" "(x OR 2) AND 4 = x AND (4 :: u8)"
  by (simp_all add: word_ao_dist)

lemma or24: "\<exists>y. (x OR 2) OR 4 = y OR (2 :: u8)"
  by (metis or.assoc or.commute)

lemma patch_balances_state:
  assumes "b = balance_part (fst (patch_balances s p))"
  shows "has_open_balance s \<Longrightarrow> \<exists>c y. b = (tres_open_balance s, c, y OR 2)"
    and "has_close_balance s \<Longrightarrow> \<exists>x y. b = (x, tres_close_balance s, y OR 4)"
    and "\<not> has_close_balance s \<Longrightarrow> snd (snd b) AND 4 \<noteq> 0 \<or> snd (snd b) AND 2 = 0 \<or> \<not> result_has_balance_projection s"
proof -
  note defs = patch_balances_def Let_def balance_part_def trec_set_open_balance_def trec_set_close_balance_def
    trec_has_open_balance_def trec_has_close_balance_def
  show "has_open_balance s \<Longrightarrow> \<exists>c y. b = (tres_open_balance s, c, y OR 2)"
    unfolding assms
    by (cases "has_close_balance s"; cases "result_has_balance_projection s"; cases "trec_flags (fst p) AND 4 = 0")
       (auto simp add: defs or24)
  show "has_close_balance s \<Longrightarrow> \<exists>x y. b = (x, tres_close_balance s, y OR 4)"
    unfolding assms by (cases "has_open_balance s") (simp_all add: defs, blast+)
  show "\<not> has_close_balance s \<Longrightarrow> snd (snd b) AND 4 \<noteq> 0 \<or> snd (snd b) AND 2 = 0 \<or> \<not> result_has_balance_projection s"
    unfolding assms
    by (cases "has_open_balance s"; cases "result_has_balance_projection s"; cases "trec_flags (fst p) AND 4 = 0";
        cases "trec_flags (fst p) AND 2 = 0") (simp_all add: defs flag_set)
qed

lemma patch_balances_again:
  assumes b: "balance_part r = balance_part (fst (patch_balances s p))"
    and "has_open_balance s \<Longrightarrow> f64_eq (tres_open_balance s) (tres_open_balance s)"
    and "has_close_balance s \<Longrightarrow> f64_eq (tres_close_balance s) (tres_close_balance s)"
  shows "patch_balances s (r, v) = (r, v)"
proof -
  note st = patch_balances_state [OF b]
  have op: "trec_set_open_balance (tres_open_balance s) r = r" "trec_has_open_balance r"
    "trec_open_balance r = tres_open_balance s" if "has_open_balance s"
    using st(1) [OF that] by (auto simp: balance_part_def trec_set_open_balance_def trec_has_open_balance_def flag_set or.assoc)
  have cl: "trec_set_close_balance (tres_close_balance s) r = r" "trec_has_close_balance r"
    "trec_close_balance r = tres_close_balance s" if "has_close_balance s"
    using st(2) [OF that] by (auto simp: balance_part_def trec_set_close_balance_def trec_has_close_balance_def flag_set or.assoc)
  have no: "\<not> (\<not> trec_has_close_balance r \<and> trec_has_open_balance r \<and> result_has_balance_projection s)"
    if "\<not> has_close_balance s"
    using st(3) [OF that] by (auto simp: balance_part_def trec_has_close_balance_def trec_has_open_balance_def)
  show ?thesis
    by (cases "has_open_balance s"; cases "has_close_balance s")
       (use op cl no assms(2,3) in \<open>auto simp: patch_balances_def Let_def\<close>)
qed

text \<open>A result whose numbers are numbers.\<close>

definition no_nan :: "trade_result \<Rightarrow> bool" where
  "no_nan s \<longleftrightarrow> list_all (\<lambda>x. f64_eq x x) [tres_amount s, tres_payout s, tres_profit s, tres_open_balance s,
     tres_close_balance s, tres_open_price s, tres_close_price s]"

lemma merge_again:
  assumes "no_nan s" and m_def: "m = fst (merge_result_patch s r)"
  shows "merge_result_patch s m = (m, False)"
proof -
  have n: "f64_eq (tres_amount s) (tres_amount s)" "f64_eq (tres_payout s) (tres_payout s)"
    "f64_eq (tres_profit s) (tres_profit s)" "f64_eq (tres_open_balance s) (tres_open_balance s)"
    "f64_eq (tres_close_balance s) (tres_close_balance s)" "f64_eq (tres_open_price s) (tres_open_price s)"
    "f64_eq (tres_close_price s) (tres_close_price s)" using assms(1) by (simp_all add: no_nan_def)
  note unfold_m = m_def merge_result_patch_def patch_state_def patch_market_def patch_identity_def Let_def
  have id: "patch_identity s (m, False) = (m, False)"
    unfolding patch_identity_def Let_def
    by (intro patch_chain refl; unfold unfold_m)
       (simp_all add: n trec_set_open_balance_def trec_set_close_balance_def)
  have bal: "patch_balances s (m, False) = (m, False)"
    by (rule patch_balances_again [of _ _ "patch_identity s (r, False)"])
       (simp_all add: n m_def merge_result_patch_def patch_state_def patch_market_def Let_def)
  have mk: "patch_market s (m, False) = (m, False)"
    unfolding patch_market_def Let_def
    by (intro patch_chain refl; unfold unfold_m)
       (simp_all add: n trec_set_open_balance_def trec_set_close_balance_def)
  have stt: "patch_state s (m, False) = (m, False)"
    unfolding patch_state_def Let_def
    by (intro patch_chain refl; unfold unfold_m)
       (simp_all add: n trec_set_open_balance_def trec_set_close_balance_def)
  show ?thesis unfolding merge_result_patch_def id bal mk stt ..
qed

text \<open>C22: Merging a result patch is idempotent: whatever the record was, merging the same patch a second
  time reports that nothing was updated and leaves every field as it is (for a patch without NaNs,
  which differ from themselves).\<close>

theorem merge_idempotent:
  assumes "no_nan s"
  shows "merge_result_patch s (fst (merge_result_patch s r)) = (fst (merge_result_patch s r), False)"
  by (rule merge_again [OF assms refl])

definition sample_patch :: trade_result where
  "sample_patch = trade_result_default\<lparr>tres_trade_state := TS_WIN, tres_open_balance := f64_of_int 100,
     tres_balance_flags := 2, tres_profit := f64_of_int 8\<rparr>"

lemma merge_idempotent_witness:
  "no_nan sample_patch \<and> snd (merge_result_patch sample_patch trade_record_default) \<and>
   \<not> snd (merge_result_patch sample_patch (fst (merge_result_patch sample_patch trade_record_default)))"
proof -
  have n: "no_nan sample_patch" by code_simp
  have u: "snd (merge_result_patch sample_patch trade_record_default)" by code_simp
  from n u merge_idempotent [OF n, of trade_record_default] show ?thesis by simp
qed

subsection \<open>Broker identity\<close>

lemma same_known_sym: "same_known a b u = same_known b a u"
  by (auto simp: same_known_def)

lemma same_broker_identity_sym: "same_broker_identity a b = same_broker_identity b a"
  unfolding same_broker_identity_def by (auto simp: same_known_sym)

lemma same_broker_identity_refl: "has_broker_identity a \<Longrightarrow> same_broker_identity a a"
  by (auto simp: same_broker_identity_def same_known_def has_broker_identity_def)

subsection \<open>What the repair does\<close>

lemma max_terminal_close_spec:
  "max_terminal_close rs = Max (insert 0 (trec_close_date ` {r \<in> set rs. is_terminal_trade_state (trec_trade_state r)}))"
proof -
  let ?f = "\<lambda>m r. if is_terminal_trade_state (trec_trade_state r) \<and> trec_close_date r > m then trec_close_date r else m"
  let ?A = "\<lambda>rs. trec_close_date ` {r \<in> set rs. is_terminal_trade_state (trec_trade_state r)}"
  have "foldl ?f m rs = Max (insert m (?A rs))" for m
  proof (induction rs arbitrary: m)
    case (Cons r rs)
    have fin: "finite (?A rs)" by simp
    show ?case
    proof (cases "is_terminal_trade_state (trec_trade_state r)")
      case True
      then have e: "?A (r # rs) = insert (trec_close_date r) (?A rs)" by auto
      have "foldl ?f m (r # rs) = foldl ?f (max m (trec_close_date r)) rs" using True by (simp add: max_def)
      also have "\<dots> = Max (insert (max m (trec_close_date r)) (?A rs))" by (rule Cons)
      also have "\<dots> = Max (insert m (insert (trec_close_date r) (?A rs)))"
        using fin by (cases "?A rs = {}") (simp_all only: Max_insert max.assoc Max_singleton
            finite_insert insert_not_empty not_False_eq_True finite.emptyI)
      finally show ?thesis by (simp only: e)
    next
      case False
      then have e: "?A (r # rs) = ?A rs" by auto
      show ?thesis using False Cons by (simp only: e) simp
    qed
  qed simp
  then show ?thesis by (simp add: max_terminal_close_def)
qed

text \<open>The condition in whole numbers: a trade that is open and whose close date, or whose open date and duration, lie
  before the border.\<close>

definition latest_finished :: "trade_record list \<Rightarrow> int" where
  "latest_finished rs = Max (insert 0 (trec_close_date ` {r \<in> set rs. trec_trade_state r \<in>
     {TS_WIN, TS_LOSS, TS_STANDOFF, TS_REFUND, TS_OPEN_ERROR, TS_CHECK_ERROR, TS_CANCELED_TRADE}}))"

definition should_have_closed :: "int \<Rightarrow> trade_record \<Rightarrow> bool" where
  "should_have_closed border r \<longleftrightarrow> trec_trade_state r \<in> {TS_OPEN_SUCCESS, TS_IN_PROGRESS, TS_WAITING_CLOSE} \<and>
     (0 < trec_close_date r \<and> trec_close_date r < border \<or>
      0 < trec_open_date r \<and> 0 < uint (trec_duration r) \<and> trec_open_date r + uint (trec_duration r) * 1000 < border)"

lemma latest_finished: "max_terminal_close rs = latest_finished rs"
proof -
  have "{r \<in> set rs. is_terminal_trade_state (trec_trade_state r)} = {r \<in> set rs. trec_trade_state r \<in>
     {TS_WIN, TS_LOSS, TS_STANDOFF, TS_REFUND, TS_OPEN_ERROR, TS_CHECK_ERROR, TS_CANCELED_TRADE}}"
    by (auto simp: is_terminal_trade_state_def)
  then show ?thesis by (simp only: max_terminal_close_spec latest_finished_def)
qed

lemma latest_finished_nonneg: "0 \<le> latest_finished rs"
  by (simp add: latest_finished_def)

lemma stale_iff:
  assumes "uint (trec_duration r) * 1000 < 2 ^ 32"
  shows "is_stale border r \<longleftrightarrow> should_have_closed border r"
proof -
  have "uint (trec_duration r * 1000) = uint (trec_duration r) * 1000"
    using assms by (simp add: uint_word_ariths take_bit_eq_mod)
  then show ?thesis
    by (auto simp: is_stale_def should_have_closed_def should_check_error_def is_terminal_trade_state_def word_gt_0 word_less_def)
qed

text \<open>C23: The repair of stale trades without a resolver, exactly, for records whose duration is less than 4294968
  seconds (a longer one wraps in the code): when some trade is finished and its latest close lies more than the waiting
  time after the epoch, every trade that is opened, in progress or waiting to close, and whose close date or whose open
  date plus duration lies before that close less the waiting time, becomes \<open>CHECK_ERROR\<close> and keeps every other
  field; all other records are returned as they are, none that should have closed remains, and otherwise nothing
  changes.\<close>

theorem stale_repair_exact:
  fixes rs :: "trade_record list" and wait_ms :: int
  defines "border \<equiv> latest_finished rs - wait_ms"
  assumes "\<And>r. r \<in> set rs \<Longrightarrow> uint (trec_duration r) * 1000 < 2 ^ 32"
  shows "fix_stale_statuses None wait_ms rs =
      (if 0 < latest_finished rs \<and> 0 < border
       then map (\<lambda>r. if should_have_closed border r then r\<lparr>trec_trade_state := TS_CHECK_ERROR\<rparr> else r) rs else rs) \<and>
    (0 < latest_finished rs \<and> 0 < border \<longrightarrow>
       list_all (\<lambda>r. \<not> should_have_closed border r) (fix_stale_statuses None wait_ms rs))"
proof -
  have m: "max_terminal_close rs - wait_ms = border" by (simp add: border_def latest_finished)
  have z: "rs = [] \<Longrightarrow> latest_finished rs = 0" by (simp add: latest_finished_def)
  have "fix_stale_statuses None wait_ms rs =
      (if 0 < latest_finished rs \<and> 0 < border
       then map (\<lambda>r. if is_stale border r then r\<lparr>trec_trade_state := TS_CHECK_ERROR\<rparr> else r) rs else rs)"
  proof -
    have none: "(rs = [] \<or> latest_finished rs = 0) = (\<not> 0 < latest_finished rs)" using z latest_finished_nonneg [of rs] by linarith
    have one: "fix_stale_record None r = r\<lparr>trec_trade_state := TS_CHECK_ERROR\<rparr>" for r by (simp add: fix_stale_record_def)
    show ?thesis
      by (simp only: fix_stale_statuses_def Let_def m [unfolded latest_finished] latest_finished none one not_less [symmetric]) simp
  qed
  also have "\<dots> = (if 0 < latest_finished rs \<and> 0 < border
       then map (\<lambda>r. if should_have_closed border r then r\<lparr>trec_trade_state := TS_CHECK_ERROR\<rparr> else r) rs else rs)"
    using assms(2) stale_iff by (auto cong: map_cong)
  finally show ?thesis by (auto simp: list_all_iff should_have_closed_def)
qed

definition finished_sample :: trade_record where
  "finished_sample = trade_record_default\<lparr>trec_trade_state := TS_WIN, trec_close_date := 100000\<rparr>"

definition stuck_sample :: trade_record where
  "stuck_sample = trade_record_default\<lparr>trec_trade_state := TS_IN_PROGRESS, trec_close_date := 50000\<rparr>"

lemma stale_repair_exact_witness:
  "fix_stale_statuses None 30000 [finished_sample, stuck_sample] = [finished_sample, stuck_sample\<lparr>trec_trade_state := TS_CHECK_ERROR\<rparr>]"
proof -
  have l: "latest_finished [finished_sample, stuck_sample] = 100000"
    unfolding latest_finished [symmetric]
    by (simp add: max_terminal_close_def finished_sample_def stuck_sample_def is_terminal_trade_state_def)
  have "\<not> should_have_closed 70000 finished_sample" "should_have_closed 70000 stuck_sample"
    by (simp_all add: should_have_closed_def finished_sample_def stuck_sample_def)
  moreover have "uint (trec_duration r) * 1000 < 2 ^ 32" if "r \<in> set [finished_sample, stuck_sample]" for r
    using that by (auto simp: finished_sample_def stuck_sample_def trade_record_default_def)
  ultimately show ?thesis
    using stale_repair_exact [of "[finished_sample, stuck_sample]" 30000] unfolding l by simp
qed

text \<open>The 32-bit product wraps: a trade of 4294968 seconds (about 50 days) counts as over after 704 ms.\<close>

lemma long_duration_stale_at_once:
  "should_check_error 1000000 (trade_record_default\<lparr>trec_open_date := 1, trec_duration := 4294968\<rparr>)"
  by (simp add: should_check_error_def trade_record_default_def)

end
