(* ===== verification/RecordCodec.thy ===== *)
theory RecordCodec
  imports BinaryFormat TradeRecords
begin

section \<open>The stored form of trade and signal records\<close>

text \<open>
  \<open>data/trading/SignalRecord.hpp\<close> and the serialisation of \<open>TradeRecord.hpp\<close>. \<open>to_bytes\<close> writes the
  fields in a fixed order after a magic number and a version; \<open>from_bytes\<close> reads them back and
  refuses anything else. A \<open>double\<close> is written as its 64 bits. \<open>to_bytes\<close> throws the same message
  for any string that does not fit; the model checks the strings first.
\<close>

subsection \<open>SignalRecord\<close>

record signal_record =
  srec_signal_id :: u32
  srec_bridge_id :: u32
  srec_unique_id :: int
  srec_unique_hash :: string
  srec_account_id :: int
  srec_platform_type :: platform_type
  srec_account_type :: account_type
  srec_currency :: currency_type
  srec_symbol :: string
  srec_signal_name :: string
  srec_user_data :: string
  srec_comment :: string
  srec_option_type :: option_type
  srec_order_type :: order_type
  srec_amount :: f64
  srec_refund :: f64
  srec_min_payout :: f64
  srec_duration :: u32
  srec_expiry_time :: int
  srec_status :: signal_status
  srec_reject_code :: signal_reject_code
  srec_reject_desc :: string
  srec_outcome :: signal_outcome
  srec_trade_state :: trade_state
  srec_total_amount :: f64
  srec_total_profit :: f64
  srec_create_date :: int
  srec_accept_date :: int
  srec_reject_date :: int
  srec_complete_date :: int
  srec_mm_type :: mm_system_type
  srec_mm_step :: int
  srec_mm_group_id :: int
  srec_mm_group_hash :: string
  srec_mm_group_name :: string
  srec_mm_params_json :: string
  srec_decision_params_json :: string
  srec_metadata_json :: string
  srec_trade_ids :: "u32 list"

definition signal_record_default :: signal_record where
  "signal_record_default = \<lparr>
    srec_signal_id = 0, srec_bridge_id = 0, srec_unique_id = 0, srec_unique_hash = [],
    srec_account_id = 0, srec_platform_type = PT_UNKNOWN, srec_account_type = ACC_UNKNOWN,
    srec_currency = CUR_UNKNOWN, srec_symbol = [], srec_signal_name = [], srec_user_data = [],
    srec_comment = [], srec_option_type = OPT_UNKNOWN, srec_order_type = ORD_UNKNOWN,
    srec_amount = 0, srec_refund = 0, srec_min_payout = 0, srec_duration = 0,
    srec_expiry_time = 0, srec_status = SS_UNKNOWN, srec_reject_code = SRC_NONE,
    srec_reject_desc = [], srec_outcome = SO_UNKNOWN, srec_trade_state = TS_UNKNOWN,
    srec_total_amount = 0, srec_total_profit = 0, srec_create_date = 0, srec_accept_date = 0,
    srec_reject_date = 0, srec_complete_date = 0, srec_mm_type = MM_NONE, srec_mm_step = 0,
    srec_mm_group_id = 0, srec_mm_group_hash = [], srec_mm_group_name = [],
    srec_mm_params_json = [], srec_decision_params_json = [], srec_metadata_json = [],
    srec_trade_ids = []\<rparr>"

definition has_trade_id :: "signal_record \<Rightarrow> u32 \<Rightarrow> bool" where
  "has_trade_id r trade_id \<longleftrightarrow> trade_id \<in> set (srec_trade_ids r)"

definition add_trade_id :: "u32 \<Rightarrow> signal_record \<Rightarrow> signal_record" where
  "add_trade_id trade_id r = (if trade_id = 0 \<or> has_trade_id r trade_id then r
     else r\<lparr>srec_trade_ids := srec_trade_ids r @ [trade_id]\<rparr>)"

definition srec_assign_request :: "trade_request \<Rightarrow> signal_record \<Rightarrow> signal_record" where
  "srec_assign_request q r =
     r\<lparr>srec_signal_id := treq_signal_id q,
       srec_bridge_id := treq_bridge_id q,
       srec_unique_id := treq_unique_id q,
       srec_unique_hash := treq_unique_hash q,
       srec_account_id := treq_account_id q,
       srec_account_type := treq_account_type q,
       srec_currency := treq_currency q,
       srec_symbol := treq_symbol q,
       srec_signal_name := treq_signal_name q,
       srec_user_data := treq_user_data q,
       srec_comment := treq_comment q,
       srec_option_type := treq_option_type q,
       srec_order_type := treq_order_type q,
       srec_amount := treq_amount q,
       srec_refund := treq_refund q,
       srec_min_payout := treq_min_payout q,
       srec_duration := treq_duration q,
       srec_expiry_time := treq_expiry_time q\<rparr>"

definition srec_assign_signal :: "('p \<Rightarrow> string) \<Rightarrow> 'p trade_signal \<Rightarrow> signal_record \<Rightarrow> signal_record" where
  "srec_assign_signal dump q r =
     r\<lparr>srec_signal_id := tsig_signal_id q,
       srec_bridge_id := tsig_bridge_id q,
       srec_unique_id := tsig_unique_id q,
       srec_unique_hash := tsig_unique_hash q,
       srec_account_id := tsig_account_id q,
       srec_platform_type := tsig_platform_type q,
       srec_account_type := tsig_account_type q,
       srec_currency := tsig_currency q,
       srec_symbol := tsig_symbol q,
       srec_signal_name := tsig_signal_name q,
       srec_user_data := tsig_user_data q,
       srec_comment := tsig_comment q,
       srec_option_type := tsig_option_type q,
       srec_order_type := tsig_order_type q,
       srec_amount := tsig_amount q,
       srec_refund := tsig_refund q,
       srec_min_payout := tsig_min_payout q,
       srec_duration := tsig_duration q,
       srec_expiry_time := tsig_expiry_time q,
       srec_mm_type := tsig_mm_type q,
       srec_mm_step := tsig_mm_step q,
       srec_mm_group_id := tsig_mm_group_id q,
       srec_mm_group_hash := tsig_mm_group_hash q,
       srec_mm_group_name := tsig_mm_group_name q,
       srec_mm_params_json := (case tsig_mm_params q of None \<Rightarrow> [] | Some p \<Rightarrow> dump p),
       srec_decision_params_json := (case tsig_decision_params q of None \<Rightarrow> [] | Some p \<Rightarrow> dump p)\<rparr>"

definition srec_from_request :: "trade_request \<Rightarrow> signal_record" where
  "srec_from_request q = srec_assign_request q signal_record_default"

definition srec_from_signal :: "('p \<Rightarrow> string) \<Rightarrow> 'p trade_signal \<Rightarrow> signal_record" where
  "srec_from_signal dump q = srec_assign_signal dump q signal_record_default"

lemma add_trade_id_distinct:
  "distinct (srec_trade_ids r) \<Longrightarrow> 0 \<notin> set (srec_trade_ids r) \<Longrightarrow>
   distinct (srec_trade_ids (add_trade_id i r)) \<and> 0 \<notin> set (srec_trade_ids (add_trade_id i r))"
  by (auto simp: add_trade_id_def has_trade_id_def)

subsection \<open>Writing and reading a signal record\<close>

definition signal_record_strings :: "signal_record \<Rightarrow> string list" where
  "signal_record_strings r = [
    srec_unique_hash r, srec_symbol r, srec_signal_name r, srec_user_data r, srec_comment r,
    srec_reject_desc r, srec_mm_group_hash r, srec_mm_group_name r, srec_mm_params_json r,
    srec_decision_params_json r, srec_metadata_json r]"

definition signal_record_to_bytes :: "signal_record \<Rightarrow> string + bytes" where
  "signal_record_to_bytes r =
     (if \<not> list_all string_fits (signal_record_strings r)
      then Inl ''SignalRecord string field is too large to serialize''
      else if \<not> length (srec_trade_ids r) \<le> 4294967295
      then Inl ''SignalRecord vector field is too large to serialize''
      else Inr (append_u32 0x5253584f @ append_u16 1 @
       append_u32 (srec_signal_id r) @ append_u32 (srec_bridge_id r) @
       append_i64 (srec_unique_id r) @ append_string (srec_unique_hash r) @
       append_i64 (srec_account_id r) @
       append_enum8 platform_type_values (srec_platform_type r) @
       append_enum8 account_type_values (srec_account_type r) @
       append_enum8 currency_type_values (srec_currency r) @ append_string (srec_symbol r) @
       append_string (srec_signal_name r) @ append_string (srec_user_data r) @
       append_string (srec_comment r) @ append_enum8 option_type_values (srec_option_type r) @
       append_enum8 order_type_values (srec_order_type r) @ append_u64 (srec_amount r) @
       append_u64 (srec_refund r) @ append_u64 (srec_min_payout r) @
       append_u32 (srec_duration r) @ append_i64 (srec_expiry_time r) @
       append_enum8 signal_status_values (srec_status r) @
       append_enum8 signal_reject_code_values (srec_reject_code r) @
       append_string (srec_reject_desc r) @
       append_enum8 signal_outcome_values (srec_outcome r) @
       append_enum8 trade_state_values (srec_trade_state r) @
       append_u64 (srec_total_amount r) @ append_u64 (srec_total_profit r) @
       append_i64 (srec_create_date r) @ append_i64 (srec_accept_date r) @
       append_i64 (srec_reject_date r) @ append_i64 (srec_complete_date r) @
       append_enum8 mm_system_type_values (srec_mm_type r) @ append_i32 (srec_mm_step r) @
       append_i64 (srec_mm_group_id r) @ append_string (srec_mm_group_hash r) @
       append_string (srec_mm_group_name r) @ append_string (srec_mm_params_json r) @
       append_string (srec_decision_params_json r) @ append_string (srec_metadata_json r) @
       append_vector_u32 (srec_trade_ids r)))"

definition signal_record_from_bytes :: "bytes \<Rightarrow> string + signal_record" where
  "signal_record_from_bytes bs =
     attempt_bind (read_u32 ''SignalRecord'' bs) (\<lambda>(magic, bs).
     if magic \<noteq> 0x5253584f then Inl ''SignalRecord::from_bytes: invalid magic'' else
     attempt_bind (read_u16 ''SignalRecord'' bs) (\<lambda>(version, bs).
     if version \<noteq> 1 then Inl ''SignalRecord::from_bytes: unsupported version'' else
     attempt_bind (read_u32 ''SignalRecord'' bs) (\<lambda>(signal_id, bs).
     attempt_bind (read_u32 ''SignalRecord'' bs) (\<lambda>(bridge_id, bs).
     attempt_bind (read_i64 ''SignalRecord'' bs) (\<lambda>(unique_id, bs).
     attempt_bind (read_string ''SignalRecord'' bs) (\<lambda>(unique_hash, bs).
     attempt_bind (read_i64 ''SignalRecord'' bs) (\<lambda>(account_id, bs).
     attempt_bind (read_enum8 platform_type_values ''SignalRecord'' bs) (\<lambda>(platform_type, bs).
     attempt_bind (read_enum8 account_type_values ''SignalRecord'' bs) (\<lambda>(account_type, bs).
     attempt_bind (read_enum8 currency_type_values ''SignalRecord'' bs) (\<lambda>(currency, bs).
     attempt_bind (read_string ''SignalRecord'' bs) (\<lambda>(symbol, bs).
     attempt_bind (read_string ''SignalRecord'' bs) (\<lambda>(signal_name, bs).
     attempt_bind (read_string ''SignalRecord'' bs) (\<lambda>(user_data, bs).
     attempt_bind (read_string ''SignalRecord'' bs) (\<lambda>(comment, bs).
     attempt_bind (read_enum8 option_type_values ''SignalRecord'' bs) (\<lambda>(option_type, bs).
     attempt_bind (read_enum8 order_type_values ''SignalRecord'' bs) (\<lambda>(order_type, bs).
     attempt_bind (read_u64 ''SignalRecord'' bs) (\<lambda>(amount, bs).
     attempt_bind (read_u64 ''SignalRecord'' bs) (\<lambda>(refund, bs).
     attempt_bind (read_u64 ''SignalRecord'' bs) (\<lambda>(min_payout, bs).
     attempt_bind (read_u32 ''SignalRecord'' bs) (\<lambda>(duration, bs).
     attempt_bind (read_i64 ''SignalRecord'' bs) (\<lambda>(expiry_time, bs).
     attempt_bind (read_enum8 signal_status_values ''SignalRecord'' bs) (\<lambda>(status, bs).
     attempt_bind (read_enum8 signal_reject_code_values ''SignalRecord'' bs) (\<lambda>(reject_code, bs).
     attempt_bind (read_string ''SignalRecord'' bs) (\<lambda>(reject_desc, bs).
     attempt_bind (read_enum8 signal_outcome_values ''SignalRecord'' bs) (\<lambda>(outcome, bs).
     attempt_bind (read_enum8 trade_state_values ''SignalRecord'' bs) (\<lambda>(trade_state, bs).
     attempt_bind (read_u64 ''SignalRecord'' bs) (\<lambda>(total_amount, bs).
     attempt_bind (read_u64 ''SignalRecord'' bs) (\<lambda>(total_profit, bs).
     attempt_bind (read_i64 ''SignalRecord'' bs) (\<lambda>(create_date, bs).
     attempt_bind (read_i64 ''SignalRecord'' bs) (\<lambda>(accept_date, bs).
     attempt_bind (read_i64 ''SignalRecord'' bs) (\<lambda>(reject_date, bs).
     attempt_bind (read_i64 ''SignalRecord'' bs) (\<lambda>(complete_date, bs).
     attempt_bind (read_enum8 mm_system_type_values ''SignalRecord'' bs) (\<lambda>(mm_type, bs).
     attempt_bind (read_i32 ''SignalRecord'' bs) (\<lambda>(mm_step, bs).
     attempt_bind (read_i64 ''SignalRecord'' bs) (\<lambda>(mm_group_id, bs).
     attempt_bind (read_string ''SignalRecord'' bs) (\<lambda>(mm_group_hash, bs).
     attempt_bind (read_string ''SignalRecord'' bs) (\<lambda>(mm_group_name, bs).
     attempt_bind (read_string ''SignalRecord'' bs) (\<lambda>(mm_params_json, bs).
     attempt_bind (read_string ''SignalRecord'' bs) (\<lambda>(decision_params_json, bs).
     attempt_bind (read_string ''SignalRecord'' bs) (\<lambda>(metadata_json, bs).
     attempt_bind (read_vector_u32 ''SignalRecord'' bs) (\<lambda>(trade_ids, bs).
     attempt_bind (ensure_finished ''SignalRecord'' bs) (\<lambda>_.
     Inr \<lparr>
       srec_signal_id = signal_id, srec_bridge_id = bridge_id, srec_unique_id = unique_id,
       srec_unique_hash = unique_hash, srec_account_id = account_id,
       srec_platform_type = platform_type, srec_account_type = account_type,
       srec_currency = currency, srec_symbol = symbol, srec_signal_name = signal_name,
       srec_user_data = user_data, srec_comment = comment, srec_option_type = option_type,
       srec_order_type = order_type, srec_amount = amount, srec_refund = refund,
       srec_min_payout = min_payout, srec_duration = duration, srec_expiry_time = expiry_time,
       srec_status = status, srec_reject_code = reject_code, srec_reject_desc = reject_desc,
       srec_outcome = outcome, srec_trade_state = trade_state,
       srec_total_amount = total_amount, srec_total_profit = total_profit,
       srec_create_date = create_date, srec_accept_date = accept_date,
       srec_reject_date = reject_date, srec_complete_date = complete_date,
       srec_mm_type = mm_type, srec_mm_step = mm_step, srec_mm_group_id = mm_group_id,
       srec_mm_group_hash = mm_group_hash, srec_mm_group_name = mm_group_name,
       srec_mm_params_json = mm_params_json, srec_decision_params_json = decision_params_json,
       srec_metadata_json = metadata_json, srec_trade_ids = trade_ids\<rparr>))))))))))))))))))))))))))))))))))))))))))"

text \<open>The values of the C++ types: signed fields in range, strings and vectors short enough to be written.\<close>

definition signal_record_ok :: "signal_record \<Rightarrow> bool" where
  "signal_record_ok r \<longleftrightarrow> list_all string_fits (signal_record_strings r) \<and>
     i64 (srec_unique_id r) \<and> i64 (srec_account_id r) \<and>
     i64 (srec_expiry_time r) \<and> i64 (srec_create_date r) \<and>
     i64 (srec_accept_date r) \<and> i64 (srec_reject_date r) \<and>
     i64 (srec_complete_date r) \<and> i32 (srec_mm_step r) \<and>
     i64 (srec_mm_group_id r) \<and> length (srec_trade_ids r) \<le> 4294967295"

subsection \<open>Writing and reading a trade record\<close>

definition trade_record_strings :: "trade_record \<Rightarrow> string list" where
  "trade_record_strings r = [
    trec_unique_hash r, trec_option_hash r, trec_symbol r, trec_signal_name r,
    trec_user_data r, trec_comment r, trec_error_desc r, trec_mm_group_hash r,
    trec_mm_group_name r, trec_mm_params_json r, trec_decision_params_json r,
    trec_metadata_json r]"

definition trade_record_to_bytes :: "trade_record \<Rightarrow> string + bytes" where
  "trade_record_to_bytes r =
     (if \<not> list_all string_fits (trade_record_strings r)
      then Inl ''TradeRecord string field is too large to serialize''
      else Inr (append_u32 0x5254584f @ append_u16 1 @
       append_u32 (trec_trade_id r) @ append_u32 (trec_signal_id r) @
       append_u32 (trec_bridge_id r) @ append_i64 (trec_unique_id r) @
       append_string (trec_unique_hash r) @ append_i64 (trec_account_id r) @
       append_i64 (trec_option_id r) @ append_string (trec_option_hash r) @
       append_enum8 platform_type_values (trec_platform_type r) @
       append_enum8 account_type_values (trec_account_type r) @
       append_enum8 currency_type_values (trec_currency r) @ append_string (trec_symbol r) @
       append_string (trec_signal_name r) @ append_string (trec_user_data r) @
       append_string (trec_comment r) @ append_enum8 option_type_values (trec_option_type r) @
       append_enum8 order_type_values (trec_order_type r) @ append_u64 (trec_amount r) @
       append_u64 (trec_refund r) @ append_u64 (trec_min_payout r) @
       append_u64 (trec_payout r) @ append_u64 (trec_profit r) @
       append_u64 (trec_open_balance r) @ append_u64 (trec_close_balance r) @
       append_enum8 trade_state_values (trec_trade_state r) @
       append_enum8 trade_state_values (trec_live_state r) @
       append_enum8 trade_error_code_values (trec_error_code r) @
       append_string (trec_error_desc r) @ append_u64 (trec_open_price r) @
       append_u64 (trec_close_price r) @ append_i64 (trec_delay r) @ append_i64 (trec_ping r) @
       append_i64 (trec_place_date r) @ append_i64 (trec_send_date r) @
       append_i64 (trec_open_date r) @ append_i64 (trec_close_date r) @
       append_u32 (trec_duration r) @ append_enum8 mm_system_type_values (trec_mm_type r) @
       append_i32 (trec_mm_step r) @ append_i64 (trec_mm_group_id r) @
       append_string (trec_mm_group_hash r) @ append_string (trec_mm_group_name r) @
       append_string (trec_mm_params_json r) @ append_string (trec_decision_params_json r) @
       append_string (trec_metadata_json r) @ append_u8 (trec_flags r) @
       append_u64 (sp_raw (trec_spread r)) @ append_u8 (sp_digits (trec_spread r))))"

definition trade_record_from_bytes :: "bytes \<Rightarrow> string + trade_record" where
  "trade_record_from_bytes bs =
     attempt_bind (read_u32 ''TradeRecord'' bs) (\<lambda>(magic, bs).
     if magic \<noteq> 0x5254584f then Inl ''TradeRecord::from_bytes: invalid magic'' else
     attempt_bind (read_u16 ''TradeRecord'' bs) (\<lambda>(version, bs).
     if version \<noteq> 1 then Inl ''TradeRecord::from_bytes: unsupported version'' else
     attempt_bind (read_u32 ''TradeRecord'' bs) (\<lambda>(trade_id, bs).
     attempt_bind (read_u32 ''TradeRecord'' bs) (\<lambda>(signal_id, bs).
     attempt_bind (read_u32 ''TradeRecord'' bs) (\<lambda>(bridge_id, bs).
     attempt_bind (read_i64 ''TradeRecord'' bs) (\<lambda>(unique_id, bs).
     attempt_bind (read_string ''TradeRecord'' bs) (\<lambda>(unique_hash, bs).
     attempt_bind (read_i64 ''TradeRecord'' bs) (\<lambda>(account_id, bs).
     attempt_bind (read_i64 ''TradeRecord'' bs) (\<lambda>(option_id, bs).
     attempt_bind (read_string ''TradeRecord'' bs) (\<lambda>(option_hash, bs).
     attempt_bind (read_enum8 platform_type_values ''TradeRecord'' bs) (\<lambda>(platform_type, bs).
     attempt_bind (read_enum8 account_type_values ''TradeRecord'' bs) (\<lambda>(account_type, bs).
     attempt_bind (read_enum8 currency_type_values ''TradeRecord'' bs) (\<lambda>(currency, bs).
     attempt_bind (read_string ''TradeRecord'' bs) (\<lambda>(symbol, bs).
     attempt_bind (read_string ''TradeRecord'' bs) (\<lambda>(signal_name, bs).
     attempt_bind (read_string ''TradeRecord'' bs) (\<lambda>(user_data, bs).
     attempt_bind (read_string ''TradeRecord'' bs) (\<lambda>(comment, bs).
     attempt_bind (read_enum8 option_type_values ''TradeRecord'' bs) (\<lambda>(option_type, bs).
     attempt_bind (read_enum8 order_type_values ''TradeRecord'' bs) (\<lambda>(order_type, bs).
     attempt_bind (read_u64 ''TradeRecord'' bs) (\<lambda>(amount, bs).
     attempt_bind (read_u64 ''TradeRecord'' bs) (\<lambda>(refund, bs).
     attempt_bind (read_u64 ''TradeRecord'' bs) (\<lambda>(min_payout, bs).
     attempt_bind (read_u64 ''TradeRecord'' bs) (\<lambda>(payout, bs).
     attempt_bind (read_u64 ''TradeRecord'' bs) (\<lambda>(profit, bs).
     attempt_bind (read_u64 ''TradeRecord'' bs) (\<lambda>(open_balance, bs).
     attempt_bind (read_u64 ''TradeRecord'' bs) (\<lambda>(close_balance, bs).
     attempt_bind (read_enum8 trade_state_values ''TradeRecord'' bs) (\<lambda>(trade_state, bs).
     attempt_bind (read_enum8 trade_state_values ''TradeRecord'' bs) (\<lambda>(live_state, bs).
     attempt_bind (read_enum8 trade_error_code_values ''TradeRecord'' bs) (\<lambda>(error_code, bs).
     attempt_bind (read_string ''TradeRecord'' bs) (\<lambda>(error_desc, bs).
     attempt_bind (read_u64 ''TradeRecord'' bs) (\<lambda>(open_price, bs).
     attempt_bind (read_u64 ''TradeRecord'' bs) (\<lambda>(close_price, bs).
     attempt_bind (read_i64 ''TradeRecord'' bs) (\<lambda>(delay, bs).
     attempt_bind (read_i64 ''TradeRecord'' bs) (\<lambda>(ping, bs).
     attempt_bind (read_i64 ''TradeRecord'' bs) (\<lambda>(place_date, bs).
     attempt_bind (read_i64 ''TradeRecord'' bs) (\<lambda>(send_date, bs).
     attempt_bind (read_i64 ''TradeRecord'' bs) (\<lambda>(open_date, bs).
     attempt_bind (read_i64 ''TradeRecord'' bs) (\<lambda>(close_date, bs).
     attempt_bind (read_u32 ''TradeRecord'' bs) (\<lambda>(duration, bs).
     attempt_bind (read_enum8 mm_system_type_values ''TradeRecord'' bs) (\<lambda>(mm_type, bs).
     attempt_bind (read_i32 ''TradeRecord'' bs) (\<lambda>(mm_step, bs).
     attempt_bind (read_i64 ''TradeRecord'' bs) (\<lambda>(mm_group_id, bs).
     attempt_bind (read_string ''TradeRecord'' bs) (\<lambda>(mm_group_hash, bs).
     attempt_bind (read_string ''TradeRecord'' bs) (\<lambda>(mm_group_name, bs).
     attempt_bind (read_string ''TradeRecord'' bs) (\<lambda>(mm_params_json, bs).
     attempt_bind (read_string ''TradeRecord'' bs) (\<lambda>(decision_params_json, bs).
     attempt_bind (read_string ''TradeRecord'' bs) (\<lambda>(metadata_json, bs).
     attempt_bind (read_u8 ''TradeRecord'' bs) (\<lambda>(flags, bs).
     attempt_bind (read_u64 ''TradeRecord'' bs) (\<lambda>(spread_raw, bs).
     attempt_bind (read_u8 ''TradeRecord'' bs) (\<lambda>(spread_digits, bs).
     attempt_bind (ensure_finished ''TradeRecord'' bs) (\<lambda>_.
     Inr \<lparr>
       trec_trade_id = trade_id, trec_signal_id = signal_id, trec_bridge_id = bridge_id,
       trec_unique_id = unique_id, trec_unique_hash = unique_hash,
       trec_account_id = account_id, trec_option_id = option_id,
       trec_option_hash = option_hash, trec_platform_type = platform_type,
       trec_account_type = account_type, trec_currency = currency, trec_symbol = symbol,
       trec_signal_name = signal_name, trec_user_data = user_data, trec_comment = comment,
       trec_option_type = option_type, trec_order_type = order_type, trec_amount = amount,
       trec_refund = refund, trec_min_payout = min_payout, trec_payout = payout,
       trec_profit = profit, trec_open_balance = open_balance,
       trec_close_balance = close_balance, trec_trade_state = trade_state,
       trec_live_state = live_state, trec_error_code = error_code,
       trec_error_desc = error_desc, trec_open_price = open_price,
       trec_close_price = close_price, trec_delay = delay, trec_ping = ping,
       trec_place_date = place_date, trec_send_date = send_date, trec_open_date = open_date,
       trec_close_date = close_date, trec_duration = duration, trec_mm_type = mm_type,
       trec_mm_step = mm_step, trec_mm_group_id = mm_group_id,
       trec_mm_group_hash = mm_group_hash, trec_mm_group_name = mm_group_name,
       trec_mm_params_json = mm_params_json, trec_decision_params_json = decision_params_json,
       trec_metadata_json = metadata_json, trec_flags = flags,
       trec_spread = \<lparr>sp_raw = spread_raw, sp_digits = spread_digits\<rparr>\<rparr>)))))))))))))))))))))))))))))))))))))))))))))))))))"

text \<open>The values of the C++ types: signed fields in range, strings and vectors short enough to be written.\<close>

definition trade_record_ok :: "trade_record \<Rightarrow> bool" where
  "trade_record_ok r \<longleftrightarrow> list_all string_fits (trade_record_strings r) \<and>
     i64 (trec_unique_id r) \<and> i64 (trec_account_id r) \<and> i64 (trec_option_id r) \<and>
     i64 (trec_delay r) \<and> i64 (trec_ping r) \<and> i64 (trec_place_date r) \<and>
     i64 (trec_send_date r) \<and> i64 (trec_open_date r) \<and> i64 (trec_close_date r) \<and>
     i32 (trec_mm_step r) \<and> i64 (trec_mm_group_id r)"

subsection \<open>The format is a bijection\<close>

named_theorems field_iff \<open>what each field reader accepts\<close>

lemmas field_puts = u8_field.get_put u8_field.get_put_last
  u16_field.get_put u16_field.get_put_last
  u32_field.get_put u32_field.get_put_last
  u64_field.get_put u64_field.get_put_last
  i32_field.get_put i32_field.get_put_last
  i64_field.get_put i64_field.get_put_last
  string_field.get_put string_field.get_put_last
  vector_field.get_put vector_field.get_put_last
  platform_field.get_put platform_field.get_put_last
  account_type_field.get_put account_type_field.get_put_last
  currency_field.get_put currency_field.get_put_last
  option_type_field.get_put option_type_field.get_put_last
  order_type_field.get_put order_type_field.get_put_last
  state_field.get_put state_field.get_put_last
  error_code_field.get_put error_code_field.get_put_last
  mm_field.get_put mm_field.get_put_last
  signal_status_field.get_put signal_status_field.get_put_last
  reject_code_field.get_put reject_code_field.get_put_last
  outcome_field.get_put outcome_field.get_put_last

lemmas field_iffs = u8_field.get_iff
  u16_field.get_iff
  u32_field.get_iff
  u64_field.get_iff
  i32_field.get_iff
  i64_field.get_iff
  string_field.get_iff
  vector_field.get_iff
  platform_field.get_iff
  account_type_field.get_iff
  currency_field.get_iff
  option_type_field.get_iff
  order_type_field.get_iff
  state_field.get_iff
  error_code_field.get_iff
  mm_field.get_iff
  signal_status_field.get_iff
  reject_code_field.get_iff
  outcome_field.get_iff

lemma ensure_finished_Inr: "ensure_finished cls bs = Inr u \<longleftrightarrow> bs = []"
  by (simp add: ensure_finished_def)

lemma trade_record_eta: "\<lparr>trec_trade_id = trec_trade_id r, trec_signal_id =
     trec_signal_id r, trec_bridge_id = trec_bridge_id r, trec_unique_id = trec_unique_id r,
     trec_unique_hash = trec_unique_hash r, trec_account_id = trec_account_id r, trec_option_id
     = trec_option_id r, trec_option_hash = trec_option_hash r, trec_platform_type =
     trec_platform_type r, trec_account_type = trec_account_type r, trec_currency =
     trec_currency r, trec_symbol = trec_symbol r, trec_signal_name = trec_signal_name r,
     trec_user_data = trec_user_data r, trec_comment = trec_comment r, trec_option_type =
     trec_option_type r, trec_order_type = trec_order_type r, trec_amount = trec_amount r,
     trec_refund = trec_refund r, trec_min_payout = trec_min_payout r, trec_payout = trec_payout
     r, trec_profit = trec_profit r, trec_open_balance = trec_open_balance r, trec_close_balance
     = trec_close_balance r, trec_trade_state = trec_trade_state r, trec_live_state =
     trec_live_state r, trec_error_code = trec_error_code r, trec_error_desc = trec_error_desc
     r, trec_open_price = trec_open_price r, trec_close_price = trec_close_price r, trec_delay =
     trec_delay r, trec_ping = trec_ping r, trec_place_date = trec_place_date r, trec_send_date
     = trec_send_date r, trec_open_date = trec_open_date r, trec_close_date = trec_close_date r,
     trec_duration = trec_duration r, trec_mm_type = trec_mm_type r, trec_mm_step = trec_mm_step
     r, trec_mm_group_id = trec_mm_group_id r, trec_mm_group_hash = trec_mm_group_hash r,
     trec_mm_group_name = trec_mm_group_name r, trec_mm_params_json = trec_mm_params_json r,
     trec_decision_params_json = trec_decision_params_json r, trec_metadata_json =
     trec_metadata_json r, trec_flags = trec_flags r, trec_spread = \<lparr>sp_raw = sp_raw
     (trec_spread r), sp_digits = sp_digits (trec_spread r)\<rparr>\<rparr> = r"
  by (cases r)
     simp

lemma signal_record_eta: "\<lparr>srec_signal_id = srec_signal_id r, srec_bridge_id =
     srec_bridge_id r, srec_unique_id = srec_unique_id r, srec_unique_hash = srec_unique_hash r,
     srec_account_id = srec_account_id r, srec_platform_type = srec_platform_type r,
     srec_account_type = srec_account_type r, srec_currency = srec_currency r, srec_symbol =
     srec_symbol r, srec_signal_name = srec_signal_name r, srec_user_data = srec_user_data r,
     srec_comment = srec_comment r, srec_option_type = srec_option_type r, srec_order_type =
     srec_order_type r, srec_amount = srec_amount r, srec_refund = srec_refund r,
     srec_min_payout = srec_min_payout r, srec_duration = srec_duration r, srec_expiry_time =
     srec_expiry_time r, srec_status = srec_status r, srec_reject_code = srec_reject_code r,
     srec_reject_desc = srec_reject_desc r, srec_outcome = srec_outcome r, srec_trade_state =
     srec_trade_state r, srec_total_amount = srec_total_amount r, srec_total_profit =
     srec_total_profit r, srec_create_date = srec_create_date r, srec_accept_date =
     srec_accept_date r, srec_reject_date = srec_reject_date r, srec_complete_date =
     srec_complete_date r, srec_mm_type = srec_mm_type r, srec_mm_step = srec_mm_step r,
     srec_mm_group_id = srec_mm_group_id r, srec_mm_group_hash = srec_mm_group_hash r,
     srec_mm_group_name = srec_mm_group_name r, srec_mm_params_json = srec_mm_params_json r,
     srec_decision_params_json = srec_decision_params_json r, srec_metadata_json =
     srec_metadata_json r, srec_trade_ids = srec_trade_ids r\<rparr> = r"
  by (cases r) simp

lemma trade_record_read_back:
  assumes "trade_record_ok r" and "trade_record_to_bytes r = Inr bs"
  shows "trade_record_from_bytes bs = Inr r"
proof -
  note ok = assms(1) [unfolded trade_record_ok_def trade_record_strings_def]
  show ?thesis
    using ok assms(2) unfolding trade_record_to_bytes_def trade_record_from_bytes_def
    by (auto simp: field_puts ensure_finished_def trade_record_eta split: if_splits)
qed

lemma signal_record_read_back:
  assumes "signal_record_ok r" and "signal_record_to_bytes r = Inr bs"
  shows "signal_record_from_bytes bs = Inr r"
proof -
  note ok = assms(1) [unfolded signal_record_ok_def signal_record_strings_def]
  show ?thesis
    using ok assms(2) unfolding signal_record_to_bytes_def signal_record_from_bytes_def
    by (auto simp: field_puts ensure_finished_def signal_record_eta split: if_splits)
qed

lemma trade_record_only:
  assumes "trade_record_from_bytes bs = Inr r"
  shows "trade_record_ok r \<and> trade_record_to_bytes r = Inr bs"
  using assms unfolding trade_record_from_bytes_def
  by (clarsimp simp: attempt_iff field_iffs ensure_finished_Inr trade_record_ok_def trade_record_strings_def trade_record_to_bytes_def
      simp del: One_nat_def split: if_splits)

lemma signal_record_only:
  assumes "signal_record_from_bytes bs = Inr r"
  shows "signal_record_ok r \<and> signal_record_to_bytes r = Inr bs"
  using assms unfolding signal_record_from_bytes_def
  by (clarsimp simp: attempt_iff field_iffs ensure_finished_Inr signal_record_ok_def signal_record_strings_def signal_record_to_bytes_def
      simp del: One_nat_def split: if_splits)

lemma trade_record_extended:
  assumes "trade_record_ok r" and "trade_record_to_bytes r = Inr bs" and "e \<noteq> []"
  shows "trade_record_from_bytes (bs @ e) = Inl ''TradeRecord::from_bytes: trailing data''"
proof -
  note ok = assms(1) [unfolded trade_record_ok_def trade_record_strings_def]
  show ?thesis
    using ok assms(2,3) unfolding trade_record_to_bytes_def trade_record_from_bytes_def
    by (auto simp: field_puts ensure_finished_def split: if_splits)
qed

lemma trade_record_truncated:
  assumes "trade_record_from_bytes bs = Inr r" and "n < length bs"
  shows "\<exists>e. trade_record_from_bytes (take n bs) = Inl e"
proof (cases "trade_record_from_bytes (take n bs)")
  case (Inr r')
  then have "trade_record_from_bytes (take n bs @ drop n bs) = Inl ''TradeRecord::from_bytes: trailing data''"
    using trade_record_only [OF Inr] assms(2) by (intro trade_record_extended) auto
  then show ?thesis using assms(1) by simp
qed simp

lemma signal_record_extended:
  assumes "signal_record_ok r" and "signal_record_to_bytes r = Inr bs" and "e \<noteq> []"
  shows "signal_record_from_bytes (bs @ e) = Inl ''SignalRecord::from_bytes: trailing data''"
proof -
  note ok = assms(1) [unfolded signal_record_ok_def signal_record_strings_def]
  show ?thesis
    using ok assms(2,3) unfolding signal_record_to_bytes_def signal_record_from_bytes_def
    by (auto simp: field_puts ensure_finished_def split: if_splits)
qed

lemma signal_record_truncated:
  assumes "signal_record_from_bytes bs = Inr r" and "n < length bs"
  shows "\<exists>e. signal_record_from_bytes (take n bs) = Inl e"
proof (cases "signal_record_from_bytes (take n bs)")
  case (Inr r')
  then have "signal_record_from_bytes (take n bs @ drop n bs) = Inl ''SignalRecord::from_bytes: trailing data''"
    using signal_record_only [OF Inr] assms(2) by (intro signal_record_extended) auto
  then show ?thesis using assms(1) by simp
qed simp

text \<open>C21: The stored form of a trade record is one to one: what writing a record within the C++ ranges
  produces is read back as that record, every one of its fields included, and no other bytes are read as it.
  (Bytes whose enum fields name no enumerator are outside the model: the code casts them to a nameless value.)\<close>

theorem trade_record_format:
  "trade_record_from_bytes bs = Inr r \<longleftrightarrow> trade_record_ok r \<and> trade_record_to_bytes r = Inr bs"
  using trade_record_only trade_record_read_back by blast

text \<open>The same for signal records, with their vector of trade identifiers.\<close>

theorem signal_record_format:
  "signal_record_from_bytes bs = Inr r \<longleftrightarrow> signal_record_ok r \<and> signal_record_to_bytes r = Inr bs"
  using signal_record_only signal_record_read_back by blast

text \<open>A stored record that lost its tail is never read as a record, and one with bytes after it is
  refused as having trailing data, wherever the cut is and whatever follows.\<close>

theorem record_bytes_exact_length:
  assumes "trade_record_from_bytes bs = Inr r" and "n < length bs" and "e \<noteq> []"
  shows "(\<exists>msg. trade_record_from_bytes (take n bs) = Inl msg) \<and>
    trade_record_from_bytes (bs @ e) = Inl ''TradeRecord::from_bytes: trailing data''"
  using trade_record_truncated [OF assms(1,2)] trade_record_extended [OF _ _ assms(3)] trade_record_only [OF assms(1)] by blast

lemma record_bytes_exact_length_witness:
  "\<exists>bs. trade_record_to_bytes trade_record_default = Inr bs \<and>
     trade_record_from_bytes (bs @ [0]) = Inl ''TradeRecord::from_bytes: trailing data''"
proof -
  have ok: "trade_record_ok trade_record_default"
    by (simp add: trade_record_ok_def trade_record_strings_def trade_record_default_def string_fits_def i32_def)
  obtain bs where bs: "trade_record_to_bytes trade_record_default = Inr bs"
    using ok by (simp add: trade_record_to_bytes_def trade_record_ok_def)
  have "4 \<le> length bs" using bs by (auto simp: trade_record_to_bytes_def append_u32_def split: if_splits)
  then have "0 < length bs" by linarith
  with record_bytes_exact_length [OF trade_record_read_back [OF ok bs], of 0 "[0]"] bs show ?thesis by auto
qed

interpretation trade_record_codec: string_codec
  "\<lambda>r. map char_of_byte (case trade_record_to_bytes r of Inr bs \<Rightarrow> bs | Inl e \<Rightarrow> [])"
  "\<lambda>s. trade_record_from_bytes (map byte_of_char s)" trade_record_ok
proof
  fix r assume ok: "trade_record_ok r"
  then obtain bs where "trade_record_to_bytes r = Inr bs"
    by (auto simp: trade_record_to_bytes_def trade_record_ok_def)
  then show "trade_record_from_bytes (map byte_of_char (map char_of_byte
      (case trade_record_to_bytes r of Inr bs \<Rightarrow> bs | Inl e \<Rightarrow> []))) = Inr r"
    using trade_record_read_back [OF ok] by (simp add: o_def)
qed

end
