(* ===== verification/TradeQueries.thy ===== *)
theory TradeQueries
  imports TradeRecords TimeZone
begin

unbundle bit_operations_syntax

section \<open>Queries over trade records\<close>

text \<open>
  \<open>data/trading/TradeRecordFilter.hpp\<close> and \<open>TradeRecordQuery.hpp\<close>,
  \<open>storages/TradeRecordDB/TradeRecordFilterMatcher.hpp\<close> and \<open>detail.hpp\<close>: which records a query
  selects, and the composite key under which the database stores a record. The calendar functions of
  the time\_shield library are arguments, collected in a record.
\<close>

subsection \<open>Filters\<close>

record 'a include_exclude =
  ie_include :: "'a list"
  ie_exclude :: "'a list"

definition ie_none :: "'a include_exclude" where
  "ie_none = \<lparr>ie_include = [], ie_exclude = []\<rparr>"

definition ie_match :: "'a include_exclude \<Rightarrow> 'a \<Rightarrow> bool" where
  "ie_match f value =
     (if ie_include f \<noteq> [] \<and> value \<notin> set (ie_include f) then False
      else if ie_exclude f \<noteq> [] \<and> value \<in> set (ie_exclude f) then False
      else True)"

definition ie_add_include :: "'a \<Rightarrow> 'a include_exclude \<Rightarrow> 'a include_exclude" where
  "ie_add_include value f = f\<lparr>ie_include := ie_include f @ [value]\<rparr>"

definition ie_add_exclude :: "'a \<Rightarrow> 'a include_exclude \<Rightarrow> 'a include_exclude" where
  "ie_add_exclude value f = f\<lparr>ie_exclude := ie_exclude f @ [value]\<rparr>"

definition ie_empty :: "'a include_exclude \<Rightarrow> bool" where
  "ie_empty f \<longleftrightarrow> ie_include f = [] \<and> ie_exclude f = []"

record trade_record_filter =
  tf_platforms :: "platform_type include_exclude"
  tf_accounts :: "account_type include_exclude"
  tf_currencies :: "currency_type include_exclude"
  tf_option_types :: "option_type include_exclude"
  tf_order_types :: "order_type include_exclude"
  tf_trade_states :: "trade_state include_exclude"
  tf_error_codes :: "trade_error_code include_exclude"
  tf_symbols :: "string include_exclude"
  tf_signals :: "string include_exclude"
  tf_user_data :: "string include_exclude"
  tf_mm_group_names :: "string include_exclude"
  tf_account_ids :: "int include_exclude"
  tf_option_ids :: "int include_exclude"
  tf_trade_ids :: "u32 include_exclude"
  tf_signal_ids :: "u32 include_exclude"
  tf_unique_ids :: "int include_exclude"
  tf_durations :: "u32 include_exclude"
  tf_mm_steps :: "int include_exclude"
  tf_hours :: "int include_exclude"
  tf_weekdays :: "int include_exclude"
  tf_month_days :: "int include_exclude"
  tf_months :: "int include_exclude"
  tf_start_second_of_day :: int
  tf_stop_second_of_day :: int
  tf_use_second_of_day :: bool
  tf_min_amount :: "f64 option"
  tf_max_amount :: "f64 option"
  tf_min_payout :: "f64 option"
  tf_max_payout :: "f64 option"
  tf_min_profit :: "f64 option"
  tf_max_profit :: "f64 option"
  tf_min_balance :: "f64 option"
  tf_max_balance :: "f64 option"
  tf_min_ping :: "int option"
  tf_max_ping :: "int option"
  tf_min_delay :: "int option"
  tf_max_delay :: "int option"
  tf_only_terminal :: bool
  tf_only_non_terminal :: bool
  tf_only_first_mm_step :: bool

definition trade_record_filter_default :: trade_record_filter where
  "trade_record_filter_default =
     \<lparr>tf_platforms = ie_none, tf_accounts = ie_none, tf_currencies = ie_none, tf_option_types = ie_none,
      tf_order_types = ie_none, tf_trade_states = ie_none, tf_error_codes = ie_none, tf_symbols = ie_none,
      tf_signals = ie_none, tf_user_data = ie_none, tf_mm_group_names = ie_none, tf_account_ids = ie_none,
      tf_option_ids = ie_none, tf_trade_ids = ie_none, tf_signal_ids = ie_none, tf_unique_ids = ie_none,
      tf_durations = ie_none, tf_mm_steps = ie_none, tf_hours = ie_none, tf_weekdays = ie_none,
      tf_month_days = ie_none, tf_months = ie_none, tf_start_second_of_day = 0, tf_stop_second_of_day = 0,
      tf_use_second_of_day = False, tf_min_amount = None, tf_max_amount = None, tf_min_payout = None,
      tf_max_payout = None, tf_min_profit = None, tf_max_profit = None, tf_min_balance = None,
      tf_max_balance = None, tf_min_ping = None, tf_max_ping = None, tf_min_delay = None, tf_max_delay = None,
      tf_only_terminal = False, tf_only_non_terminal = False, tf_only_first_mm_step = False\<rparr>"

definition match_second_of_day :: "int \<Rightarrow> int \<Rightarrow> int \<Rightarrow> bool" where
  "match_second_of_day second start stop =
     (if start = stop then True
      else if start < stop then second \<ge> start \<and> second \<le> stop
      else second \<ge> start \<or> second \<le> stop)"

subsection \<open>Matching a record\<close>

record calendar =
  cal_hour :: "int \<Rightarrow> int"
  cal_min :: "int \<Rightarrow> int"
  cal_sec :: "int \<Rightarrow> int"
  cal_day :: "int \<Rightarrow> int"
  cal_mon :: "int \<Rightarrow> int"

text \<open>\<open>!filter.min_x || !(record.x < *filter.min_x)\<close>, for doubles and for integers.\<close>

definition not_below :: "f64 option \<Rightarrow> f64 \<Rightarrow> bool" where
  "not_below lo x \<longleftrightarrow> (case lo of None \<Rightarrow> True | Some b \<Rightarrow> \<not> f64_less x b)"

definition not_above :: "f64 option \<Rightarrow> f64 \<Rightarrow> bool" where
  "not_above hi x \<longleftrightarrow> (case hi of None \<Rightarrow> True | Some b \<Rightarrow> \<not> f64_less b x)"

definition int_within :: "int option \<Rightarrow> int option \<Rightarrow> int \<Rightarrow> bool" where
  "int_within lo hi x \<longleftrightarrow> (case lo of None \<Rightarrow> True | Some b \<Rightarrow> \<not> x < b) \<and> (case hi of None \<Rightarrow> True | Some b \<Rightarrow> \<not> x > b)"

definition match_fields :: "trade_record \<Rightarrow> trade_record_filter \<Rightarrow> bool" where
  "match_fields r f \<longleftrightarrow>
     ie_match (tf_platforms f) (trec_platform_type r) \<and> ie_match (tf_accounts f) (trec_account_type r) \<and>
     ie_match (tf_currencies f) (trec_currency r) \<and> ie_match (tf_option_types f) (trec_option_type r) \<and>
     ie_match (tf_order_types f) (trec_order_type r) \<and> ie_match (tf_trade_states f) (trec_trade_state r) \<and>
     ie_match (tf_error_codes f) (trec_error_code r) \<and>
     ie_match (tf_symbols f) (trec_symbol r) \<and> ie_match (tf_signals f) (trec_signal_name r) \<and>
     ie_match (tf_user_data f) (trec_user_data r) \<and> ie_match (tf_mm_group_names f) (trec_mm_group_name r) \<and>
     ie_match (tf_account_ids f) (trec_account_id r) \<and> ie_match (tf_option_ids f) (trec_option_id r) \<and>
     ie_match (tf_trade_ids f) (trec_trade_id r) \<and> ie_match (tf_signal_ids f) (trec_signal_id r) \<and>
     ie_match (tf_unique_ids f) (trec_unique_id r) \<and>
     ie_match (tf_durations f) (trec_duration r) \<and> ie_match (tf_mm_steps f) (trec_mm_step r) \<and>
     \<not> (tf_only_terminal f \<and> \<not> is_terminal_trade_state (trec_trade_state r)) \<and>
     \<not> (tf_only_non_terminal f \<and> is_terminal_trade_state (trec_trade_state r)) \<and>
     \<not> (tf_only_first_mm_step f \<and> trec_mm_step r \<noteq> 0)"

definition match_ranges :: "trade_record \<Rightarrow> trade_record_filter \<Rightarrow> bool" where
  "match_ranges r f \<longleftrightarrow>
     not_below (tf_min_amount f) (trec_amount r) \<and> not_above (tf_max_amount f) (trec_amount r) \<and>
     not_below (tf_min_payout f) (trec_payout r) \<and> not_above (tf_max_payout f) (trec_payout r) \<and>
     not_below (tf_min_profit f) (trec_profit r) \<and> not_above (tf_max_profit f) (trec_profit r) \<and>
     not_below (tf_min_balance f) (trec_close_balance r) \<and> not_above (tf_max_balance f) (trec_close_balance r) \<and>
     int_within (tf_min_ping f) (tf_max_ping f) (trec_ping r) \<and>
     int_within (tf_min_delay f) (tf_max_delay f) (trec_delay r)"

definition match_local_time :: "time_shield \<Rightarrow> calendar \<Rightarrow> trade_record_filter \<Rightarrow> trade_time_zone \<Rightarrow> int \<Rightarrow> bool" where
  "match_local_time L cal f z selected_ms =
     (let sec = ts_ms_to_sec L (to_local_ms L z selected_ms)
      in \<not> (\<not> ie_empty (tf_hours f) \<and> \<not> ie_match (tf_hours f) (cal_hour cal sec)) \<and>
         \<not> (\<not> ie_empty (tf_weekdays f) \<and> \<not> ie_match (tf_weekdays f) (ts_weekday_of_ts L sec)) \<and>
         \<not> (\<not> ie_empty (tf_month_days f) \<and> \<not> ie_match (tf_month_days f) (cal_day cal sec)) \<and>
         \<not> (\<not> ie_empty (tf_months f) \<and> \<not> ie_match (tf_months f) (cal_mon cal sec)) \<and>
         (tf_use_second_of_day f \<longrightarrow> match_second_of_day
            (cal_hour cal sec * 3600 + cal_min cal sec * 60 + cal_sec cal sec)
            (tf_start_second_of_day f) (tf_stop_second_of_day f)))"

definition match_filter ::
  "time_shield \<Rightarrow> calendar \<Rightarrow> trade_record \<Rightarrow> trade_record_filter \<Rightarrow> trade_time_zone \<Rightarrow> int \<Rightarrow> bool" where
  "match_filter L cal r f z selected_ms =
     (if \<not> match_fields r f then False
      else if \<not> match_ranges r f then False
      else let selected_ms = (if selected_ms = 0 then select_timestamp_ms r TF_AUTO else selected_ms)
           in if selected_ms > 0 then match_local_time L cal f z selected_ms else True)"

record trade_record_query =
  tq_start_ms :: int
  tq_stop_ms :: int
  tq_time_zone :: trade_time_zone
  tq_time_field :: trade_record_time_field
  tq_range_mode :: time_range_mode
  tq_limit :: nat
  tq_offset :: nat
  tq_ascending :: bool
  tq_filter :: trade_record_filter
  tq_fix_stale_status :: bool
  tq_wait_status_sec :: int
  tq_coarse_expansion_ms :: int

definition trade_record_query_default :: trade_record_query where
  "trade_record_query_default =
     \<lparr>tq_start_ms = 0, tq_stop_ms = 0, tq_time_zone = tz_utc, tq_time_field = TF_AUTO, tq_range_mode = TR_NONE,
      tq_limit = 0, tq_offset = 0, tq_ascending = True, tq_filter = trade_record_filter_default,
      tq_fix_stale_status = True, tq_wait_status_sec = 30, tq_coarse_expansion_ms = 86400000\<rparr>"

definition match_query :: "time_shield \<Rightarrow> calendar \<Rightarrow> trade_record \<Rightarrow> trade_record_query \<Rightarrow> bool" where
  "match_query L cal r q =
     (let ts = select_timestamp_ms r (tq_time_field q)
      in if tq_range_mode q \<noteq> TR_NONE \<and> (tq_start_ms q \<noteq> 0 \<or> tq_stop_ms q \<noteq> 0) \<and>
            (ts < tq_start_ms q \<or> (if tq_range_mode q = TR_CLOSED then ts > tq_stop_ms q else ts \<ge> tq_stop_ms q))
         then False
         else match_filter L cal r (tq_filter q) (tq_time_zone q) ts)"

subsection \<open>The composite key\<close>

text \<open>\<open>bias_minutes\<close>: a 32-bit signed value, here an integer, shifted to an unsigned order.\<close>

definition bias_minutes :: "int \<Rightarrow> u32" where
  "bias_minutes m = word_of_int m + 0x80000000"

definition unbias_minutes :: "u32 \<Rightarrow> int" where
  "unbias_minutes b = sint (b - 0x80000000)"

definition make_composite_key :: "int \<Rightarrow> u32 \<Rightarrow> u64" where
  "make_composite_key unix_minutes trade_index = push_bit 32 (ucast (bias_minutes unix_minutes)) OR ucast trade_index"

definition composite_key_minutes :: "u64 \<Rightarrow> int" where
  "composite_key_minutes key = unbias_minutes (ucast (drop_bit 32 key))"

definition composite_key_index :: "u64 \<Rightarrow> u32" where
  "composite_key_index key = ucast (key AND 0xFFFFFFFF)"

text \<open>\<open>time_shield::ms_to_min\<close> is the argument; the result is clamped to 32 bits.\<close>

definition timestamp_ms_to_unix_minutes :: "(int \<Rightarrow> int) \<Rightarrow> int \<Rightarrow> int" where
  "timestamp_ms_to_unix_minutes ms_to_min timestamp_ms =
     (let minutes = ms_to_min timestamp_ms
      in if minutes \<le> - 2147483648 then - 2147483648
         else if minutes \<ge> 2147483647 then 2147483647 else minutes)"

definition selected_timestamp_ms :: "trade_record \<Rightarrow> int" where
  "selected_timestamp_ms r =
     (if trec_place_date r > 0 then trec_place_date r
      else if trec_send_date r > 0 then trec_send_date r
      else if trec_open_date r > 0 then trec_open_date r
      else if trec_close_date r > 0 then trec_close_date r else 0)"

subsection \<open>Lemmas\<close>

lemma selected_auto: "select_timestamp_ms r TF_AUTO = selected_timestamp_ms r"
  by (simp add: selected_timestamp_ms_def)

lemma unix_minutes_range:
  "- 2147483648 \<le> timestamp_ms_to_unix_minutes g t \<and> timestamp_ms_to_unix_minutes g t \<le> 2147483647"
  by (auto simp: timestamp_ms_to_unix_minutes_def Let_def)

lemma unix_minutes_mono: "mono g \<Longrightarrow> s \<le> t \<Longrightarrow> timestamp_ms_to_unix_minutes g s \<le> timestamp_ms_to_unix_minutes g t"
  using monoD [of g s t] by (auto simp: timestamp_ms_to_unix_minutes_def Let_def)

lemma uint_bias: "- 2147483648 \<le> m \<Longrightarrow> m \<le> 2147483647 \<Longrightarrow> uint (bias_minutes m) = m + 2147483648"
proof -
  assume a: "- 2147483648 \<le> m" "m \<le> 2147483647"
  have e: "bias_minutes m = word_of_int (m + 2147483648)" by (simp add: bias_minutes_def)
  have "0 \<le> m + 2147483648" "m + 2147483648 < 2 ^ LENGTH(32)" using a by simp_all
  then show ?thesis unfolding e uint_word_of_int by (rule mod_pos_pos_trivial)
qed

lemma uint_composite: "uint (make_composite_key m t) = uint (bias_minutes m) * 4294967296 + uint t"
proof -
  have u: "uint (bias_minutes m) < 4294967296" "uint t < 4294967296"
    using uint_lt2p [of "bias_minutes m"] uint_lt2p [of t] by simp_all
  have "push_bit 32 (ucast (bias_minutes m)) OR (ucast t :: u64) = push_bit 32 (ucast (bias_minutes m)) + ucast t"
    by (intro disjunctive_add [symmetric]) (auto simp: bit_simps dest: bit_imp_le_length)
  also have "\<dots> = word_of_int (uint (bias_minutes m)) * word_of_int 4294967296 + word_of_int (uint t)"
    unfolding push_bit_eq_mult ucast_eq by simp
  also have "\<dots> = word_of_int (uint (bias_minutes m) * 4294967296 + uint t)"
    by (simp only: wi_hom_syms)
  finally have e: "make_composite_key m t = word_of_int (uint (bias_minutes m) * 4294967296 + uint t)"
    by (simp only: make_composite_key_def)
  have "0 \<le> uint (bias_minutes m) * 4294967296 + uint t" by simp
  moreover have "uint (bias_minutes m) * 4294967296 + uint t < 2 ^ LENGTH(64)" using u by simp
  ultimately show ?thesis unfolding e uint_word_of_int by (rule mod_pos_pos_trivial)
qed

text \<open>Keys sort by the minute, then by the trade.\<close>

lemma composite_le:
  assumes "- 2147483648 \<le> m" "m \<le> 2147483647" "- 2147483648 \<le> n" "n \<le> 2147483647"
  shows "make_composite_key m s \<le> make_composite_key n t \<longleftrightarrow> m < n \<or> m = n \<and> s \<le> t"
proof -
  have u: "0 \<le> uint s" "uint s < 4294967296" "0 \<le> uint t" "uint t < 4294967296"
    using uint_lt2p [of s] uint_lt2p [of t] by simp_all
  show ?thesis
  proof (cases m n rule: linorder_cases)
    case less
    then have "(m + 2147483648) * 4294967296 + uint s \<le> (n + 2147483648) * 4294967296 + uint t" using u by (simp only: distrib_right)
    then show ?thesis using less
      unfolding word_le_def uint_composite uint_bias [OF assms(1,2)] uint_bias [OF assms(3,4)] by simp
  next
    case greater
    then have "\<not> (m + 2147483648) * 4294967296 + uint s \<le> (n + 2147483648) * 4294967296 + uint t" using u by (simp only: distrib_right)
    then show ?thesis using greater
      unfolding word_le_def uint_composite uint_bias [OF assms(1,2)] uint_bias [OF assms(3,4)] by simp
  next
    case equal
    then show ?thesis
      unfolding word_le_def uint_composite uint_bias [OF assms(1,2)] uint_bias [OF assms(3,4)] by simp
  qed
qed

lemma composite_inj:
  assumes "- 2147483648 \<le> m" "m \<le> 2147483647" "- 2147483648 \<le> n" "n \<le> 2147483647"
  shows "make_composite_key m s = make_composite_key n t \<longleftrightarrow> m = n \<and> s = t"
proof -
  have "make_composite_key m s = make_composite_key n t \<longleftrightarrow>
      make_composite_key m s \<le> make_composite_key n t \<and> make_composite_key n t \<le> make_composite_key m s"
    by (rule order_eq_iff)
  then show ?thesis
    unfolding composite_le [OF assms] composite_le [OF assms(3,4,1,2)] by (auto intro: order_antisym)
qed

lemma composite_parts:
  assumes "- 2147483648 \<le> m" "m \<le> 2147483647"
  shows "composite_key_minutes (make_composite_key m t) = m" "composite_key_index (make_composite_key m t) = t"
proof -
  have "ucast (drop_bit 32 (make_composite_key m t)) = bias_minutes m"
    unfolding make_composite_key_def by (rule bit_word_eqI) (auto simp: bit_simps dest: bit_imp_le_length)
  moreover have "bias_minutes m - 0x80000000 = word_of_int m" by (simp add: bias_minutes_def)
  moreover have "sint (word_of_int m :: u32) = m"
    using assms by (simp add: sint_sbintrunc' signed_take_bit_int_eq_self)
  ultimately show "composite_key_minutes (make_composite_key m t) = m"
    by (simp add: composite_key_minutes_def unbias_minutes_def)
  have m: "(0xFFFFFFFF :: u64) = mask 32" by (simp add: mask_eq_exp_minus_1)
  show "composite_key_index (make_composite_key m t) = t"
    unfolding composite_key_index_def make_composite_key_def m
    by (intro bit_word_eqI) (auto simp: bit_simps)
qed

text \<open>A time-of-day window, also one that crosses midnight, is the arc of the day from its start to its
  stop: for seconds of a day, it matches exactly when walking forward from the start reaches the
  second no later than the stop. A window whose ends coincide matches every second.\<close>

theorem second_of_day_window:
  assumes "0 \<le> second" "second < 86400" "0 \<le> start" "start < 86400" "0 \<le> stop" "stop < 86400"
  shows "match_second_of_day second start stop \<longleftrightarrow>
    start = stop \<or> (second - start) mod 86400 \<le> (stop - start) mod 86400"
proof -
  have m: "(x - start) mod 86400 = (if start \<le> x then x - start else x - start + 86400)"
    if "0 \<le> x" "x < 86400" for x
  proof (cases "start \<le> x")
    case True
    then show ?thesis using that assms(3,4) by simp
  next
    case False
    have "(x - start) mod 86400 = (x - start + 86400) mod 86400" by simp
    also have "\<dots> = x - start + 86400" using False that assms(3,4) by (intro mod_pos_pos_trivial) linarith+
    finally show ?thesis using False by simp
  qed
  show ?thesis
    unfolding m [OF assms(1,2)] m [OF assms(5,6)] match_second_of_day_def using assms by auto
qed

lemma second_of_day_window_witness:
  "match_second_of_day 3600 79200 7200 \<and> \<not> match_second_of_day 43200 79200 7200"
  using second_of_day_window [of 3600 79200 7200] second_of_day_window [of 43200 79200 7200] by simp

end
