(* ===== verification/TradeDB.thy ===== *)
theory TradeDB
  imports TradeQueries "HOL-Library.Product_Lexorder" "HOL-Library.RBT"
begin

section \<open>The trade record database\<close>

text \<open>
  \<open>storages/TradeRecordDB.hpp\<close> and \<open>storages/TradeRecordDB/TradeRecordDB.ipp\<close>, the operations under the
  database lock. The tables are those of the mdbx\_containers library: what the code calls of them is
  an argument, a record of operations per table, and \<open>table_laws\<close> is the documented behaviour the
  code relies on, that of an ordered map. A transaction that is not committed leaves the tables as
  they were, so an operation is a function of the state; the exceptions of the library, which the code
  answers with \<open>DB_ERROR\<close>, are outside the model. The value table of the metadata is an optional value.
  \<open>time_shield::timestamp_ms()\<close> and \<open>ms_to_min\<close> are arguments.
\<close>

subsection \<open>Tables\<close>

record ('t, 'k, 'v) table_ops =
  tb_find :: "'t \<Rightarrow> 'k \<Rightarrow> 'v option"
  tb_put :: "'t \<Rightarrow> 'k \<Rightarrow> 'v \<Rightarrow> 't"
  tb_erase :: "'t \<Rightarrow> 'k \<Rightarrow> 't"
  tb_clear :: "'t \<Rightarrow> 't"
  tb_rows :: "'t \<Rightarrow> ('k \<times> 'v) list"

definition table_laws :: "('t, 'k :: linorder, 'v) table_ops \<Rightarrow> bool" where
  "table_laws T \<longleftrightarrow>
     (\<forall>t k v k'. tb_find T (tb_put T t k v) k' = (if k' = k then Some v else tb_find T t k')) \<and>
     (\<forall>t k k'. tb_find T (tb_erase T t k) k' = (if k' = k then None else tb_find T t k')) \<and>
     (\<forall>t k. tb_find T (tb_clear T t) k = None) \<and>
     (\<forall>t. sorted (map fst (tb_rows T t)) \<and> distinct (map fst (tb_rows T t)) \<and>
        (\<forall>k v. (k, v) \<in> set (tb_rows T t) \<longleftrightarrow> tb_find T t k = Some v))"

text \<open>\<open>for_each_range\<close>: the rows with a key between the two, in key order.\<close>

definition rows_between :: "('t, 'k :: linorder, 'v) table_ops \<Rightarrow> 't \<Rightarrow> 'k \<Rightarrow> 'k \<Rightarrow> 'v list" where
  "rows_between T t lo hi = map snd (filter (\<lambda>(k, v). lo \<le> k \<and> k \<le> hi) (tb_rows T t))"

record ('r, 'u, 'i) db_ops =
  op_records :: "('r, u64, trade_record) table_ops"
  op_uid :: "('u, int, u64) table_ops"
  op_tid :: "('i, u64, u64) table_ops"
  op_ms_to_min :: "int \<Rightarrow> int"

definition db_laws :: "('r, 'u, 'i) db_ops \<Rightarrow> bool" where
  "db_laws T \<longleftrightarrow> table_laws (op_records T) \<and> table_laws (op_uid T) \<and> table_laws (op_tid T)"

subsection \<open>State and results\<close>

record db_meta =
  meta_db_version :: u64
  meta_next_trade_uid :: u32
  meta_last_update_ms :: int

definition db_meta_default :: db_meta where
  "db_meta_default = \<lparr>meta_db_version = 1, meta_next_trade_uid = 1, meta_last_update_ms = 0\<rparr>"

record ('r, 'u, 'i) trade_db =
  db_open :: bool
  db_read_only :: bool
  db_records :: 'r
  db_uid :: 'u
  db_tid :: 'i
  db_meta :: "db_meta option"

datatype storage_status =
    ST_SUCCESS | ST_NOT_FOUND | ST_INVALID_ARGUMENT | ST_NOT_OPEN | ST_READ_ONLY | ST_QUEUE_CLOSED
  | ST_CONFLICT | ST_DB_ERROR | ST_SEQUENCE_EXHAUSTED

record write_result =
  wr_status :: storage_status
  wr_record :: trade_record
  wr_message :: string

record read_result =
  rr_status :: storage_status
  rr_record :: trade_record
  rr_found :: bool
  rr_message :: string

record list_result =
  lr_status :: storage_status
  lr_records :: "trade_record list"
  lr_message :: string

definition write_success :: "trade_record \<Rightarrow> write_result" where
  "write_success r = \<lparr>wr_status = ST_SUCCESS, wr_record = r, wr_message = []\<rparr>"

definition write_error :: "storage_status \<Rightarrow> trade_record \<Rightarrow> string \<Rightarrow> write_result" where
  "write_error st r msg = \<lparr>wr_status = st, wr_record = r, wr_message = msg\<rparr>"

definition read_error :: "storage_status \<Rightarrow> string \<Rightarrow> read_result" where
  "read_error st msg = \<lparr>rr_status = st, rr_record = trade_record_default, rr_found = False, rr_message = msg\<rparr>"

definition read_success :: "trade_record \<Rightarrow> read_result" where
  "read_success r = \<lparr>rr_status = ST_SUCCESS, rr_record = r, rr_found = True, rr_message = []\<rparr>"

definition list_error :: "storage_status \<Rightarrow> string \<Rightarrow> list_result" where
  "list_error st msg = \<lparr>lr_status = st, lr_records = [], lr_message = msg\<rparr>"

subsection \<open>Metadata and trade identifiers\<close>

definition meta_get_or :: "('r, 'u, 'i) trade_db \<Rightarrow> db_meta" where
  "meta_get_or D = (case db_meta D of None \<Rightarrow> db_meta_default | Some m \<Rightarrow> m)"

definition init_meta :: "('r, 'u, 'i) trade_db \<Rightarrow> ('r, 'u, 'i) trade_db" where
  "init_meta D =
     (let m = meta_get_or D;
          m = (if meta_db_version m = 0 then m\<lparr>meta_db_version := 1\<rparr> else m);
          m = (if meta_next_trade_uid m = 0 then m\<lparr>meta_next_trade_uid := 1\<rparr> else m)
      in D\<lparr>db_meta := Some m\<rparr>)"

definition update_last_update :: "int \<Rightarrow> ('r, 'u, 'i) trade_db \<Rightarrow> ('r, 'u, 'i) trade_db" where
  "update_last_update now D = D\<lparr>db_meta := Some ((meta_get_or D)\<lparr>meta_last_update_ms := now\<rparr>)\<rparr>"

text \<open>The index is keyed by the trade identifier widened to 64 bits.\<close>

definition tid_key :: "u32 \<Rightarrow> u64" where
  "tid_key i = ucast i"

definition tid_contains :: "('r, 'u, 'i) db_ops \<Rightarrow> ('r, 'u, 'i) trade_db \<Rightarrow> u32 \<Rightarrow> bool" where
  "tid_contains T D i \<longleftrightarrow> tb_find (op_tid T) (db_tid D) (tid_key i) \<noteq> None"

text \<open>The search for a free identifier; 0 when it has come round to its start. \<open>None\<close> would be a search
  that does not end.\<close>

partial_function (option) reserve_loop :: "(u32 \<Rightarrow> bool) \<Rightarrow> u32 \<Rightarrow> u32 \<Rightarrow> bool \<Rightarrow> u32 option" where
  "reserve_loop contains start candidate wrapped =
     (if candidate \<noteq> 0 \<and> contains candidate
      then if candidate + 1 = 0
           then if 1 = start then Some 0 else reserve_loop contains start 1 True
           else if wrapped \<and> candidate + 1 = start then Some 0
           else reserve_loop contains start (candidate + 1) wrapped
      else Some candidate)"

definition reserve_trade_id :: "('r, 'u, 'i) db_ops \<Rightarrow> ('r, 'u, 'i) trade_db \<Rightarrow> (u32 \<times> ('r, 'u, 'i) trade_db) option" where
  "reserve_trade_id T D =
     (let m = meta_get_or D;
          start = (if meta_next_trade_uid m = 0 then 1 else meta_next_trade_uid m)
      in case reserve_loop (tid_contains T D) start start False of
           None \<Rightarrow> None
         | Some candidate \<Rightarrow>
             if candidate = 0 then Some (0, D)
             else Some (candidate, D\<lparr>db_meta := Some (m\<lparr>meta_next_trade_uid :=
               (if candidate + 1 = 0 then 1 else candidate + 1)\<rparr>)\<rparr>))"

definition bump_next_trade_id :: "u32 \<Rightarrow> ('r, 'u, 'i) trade_db \<Rightarrow> ('r, 'u, 'i) trade_db" where
  "bump_next_trade_id used D =
     (if used = 0 then D
      else let m = meta_get_or D;
               m = (if meta_next_trade_uid m = 0 then m\<lparr>meta_next_trade_uid := 1\<rparr> else m)
           in if meta_next_trade_uid m \<le> used
              then D\<lparr>db_meta := Some (m\<lparr>meta_next_trade_uid := (if used = 4294967295 then 1 else used + 1)\<rparr>)\<rparr>
              else D)"

definition get_trade_id ::
  "('r, 'u, 'i) db_ops \<Rightarrow> int \<Rightarrow> ('r, 'u, 'i) trade_db \<Rightarrow> (u32 \<times> ('r, 'u, 'i) trade_db) option" where
  "get_trade_id T now D =
     (if \<not> db_open D then Some (0, D)
      else if db_read_only D then Some (0, D)
      else case reserve_trade_id T D of
        None \<Rightarrow> None
      | Some (i, D') \<Rightarrow> if i = 0 then Some (0, D) else Some (i, update_last_update now D'))"

text \<open>\<open>assign_trade_id\<close>: the request, whether it has an identifier now, and the database.\<close>

definition assign_trade_id ::
  "('r, 'u, 'i) db_ops \<Rightarrow> int \<Rightarrow> trade_request \<Rightarrow> ('r, 'u, 'i) trade_db
     \<Rightarrow> (trade_request \<times> bool \<times> ('r, 'u, 'i) trade_db) option" where
  "assign_trade_id T now q D =
     (if treq_trade_id q > 0 then Some (q, True, D)
      else case get_trade_id T now D of
        None \<Rightarrow> None
      | Some (i, D') \<Rightarrow> Some (q\<lparr>treq_trade_id := i\<rparr>, i > 0, D'))"

subsection \<open>Writing\<close>

definition record_key :: "('r, 'u, 'i) db_ops \<Rightarrow> trade_record \<Rightarrow> u64" where
  "record_key T r = make_composite_key (timestamp_ms_to_unix_minutes (op_ms_to_min T) (selected_timestamp_ms r)) (trec_trade_id r)"

text \<open>The statements that \<open>write_no_lock\<close> and \<open>upsert_no_lock\<close> end with: the row of the same trade under
  an older key goes, the record and the index entries are put.\<close>

definition drop_moved_row :: "('r, 'u, 'i) db_ops \<Rightarrow> trade_record \<Rightarrow> ('r, 'u, 'i) trade_db \<Rightarrow> ('r, 'u, 'i) trade_db" where
  "drop_moved_row T r D =
     (case tb_find (op_tid T) (db_tid D) (tid_key (trec_trade_id r)) of
        None \<Rightarrow> D
      | Some old_key \<Rightarrow>
          if old_key = record_key T r then D
          else D\<lparr>db_uid := (case tb_find (op_records T) (db_records D) old_key of
                   None \<Rightarrow> db_uid D
                 | Some old \<Rightarrow> if trec_unique_id old > 0 \<and> trec_unique_id old \<noteq> trec_unique_id r
                               then tb_erase (op_uid T) (db_uid D) (trec_unique_id old) else db_uid D),
                 db_records := tb_erase (op_records T) (db_records D) old_key\<rparr>)"

definition put_row :: "('r, 'u, 'i) db_ops \<Rightarrow> trade_record \<Rightarrow> ('r, 'u, 'i) trade_db \<Rightarrow> ('r, 'u, 'i) trade_db" where
  "put_row T r D =
     D\<lparr>db_records := tb_put (op_records T) (db_records D) (record_key T r) r,
       db_uid := (if trec_unique_id r > 0 then tb_put (op_uid T) (db_uid D) (trec_unique_id r) (record_key T r) else db_uid D),
       db_tid := tb_put (op_tid T) (db_tid D) (tid_key (trec_trade_id r)) (record_key T r)\<rparr>"

definition store_record :: "('r, 'u, 'i) db_ops \<Rightarrow> int \<Rightarrow> trade_record \<Rightarrow> ('r, 'u, 'i) trade_db \<Rightarrow> ('r, 'u, 'i) trade_db" where
  "store_record T now r D =
     update_last_update now (bump_next_trade_id (trec_trade_id r) (put_row T r (drop_moved_row T r D)))"

definition db_write ::
  "('r, 'u, 'i) db_ops \<Rightarrow> int \<Rightarrow> trade_record \<Rightarrow> ('r, 'u, 'i) trade_db \<Rightarrow> write_result \<times> ('r, 'u, 'i) trade_db" where
  "db_write T now r D =
     (if \<not> db_open D then (write_error ST_NOT_OPEN r ''TradeRecordDB is not open'', D)
      else if db_read_only D then (write_error ST_READ_ONLY r ''TradeRecordDB is read-only'', D)
      else if trec_trade_id r = 0 then (write_error ST_INVALID_ARGUMENT r ''TradeRecord trade_id is required'', D)
      else (write_success r, store_record T now r D))"

definition find_broker_identity_key :: "('r, 'u, 'i) db_ops \<Rightarrow> trade_record \<Rightarrow> ('r, 'u, 'i) trade_db \<Rightarrow> u32" where
  "find_broker_identity_key T r D =
     (case List.find (\<lambda>row. same_broker_identity r (snd row)) (tb_rows (op_records T) (db_records D)) of
        None \<Rightarrow> 0 | Some row \<Rightarrow> trec_trade_id (snd row))"

text \<open>The identifier \<open>upsert\<close> settles on before it may have to reserve one; an index entry that leads
  nowhere is dropped on the way.\<close>

definition match_by_uid :: "('r, 'u, 'i) db_ops \<Rightarrow> trade_record \<Rightarrow> ('r, 'u, 'i) trade_db \<Rightarrow> u32 \<times> ('r, 'u, 'i) trade_db" where
  "match_by_uid T r D =
     (if trec_trade_id r = 0 \<and> trec_unique_id r > 0
      then case tb_find (op_uid T) (db_uid D) (trec_unique_id r) of
             None \<Rightarrow> (0, D)
           | Some key \<Rightarrow> (case tb_find (op_records T) (db_records D) key of
               Some existing \<Rightarrow> (trec_trade_id existing, D)
             | None \<Rightarrow> (0, D\<lparr>db_uid := tb_erase (op_uid T) (db_uid D) (trec_unique_id r)\<rparr>))
      else (trec_trade_id r, D))"

definition upsert_id ::
  "('r, 'u, 'i) db_ops \<Rightarrow> trade_record \<Rightarrow> ('r, 'u, 'i) trade_db \<Rightarrow> (u32 \<times> ('r, 'u, 'i) trade_db) option" where
  "upsert_id T r D =
     (let (i, D1) = match_by_uid T r D;
          i = (if i = 0 \<and> has_broker_identity r then find_broker_identity_key T r D1 else i)
      in if i = 0 then reserve_trade_id T D1 else Some (i, D1))"

definition db_upsert ::
  "('r, 'u, 'i) db_ops \<Rightarrow> int \<Rightarrow> trade_record \<Rightarrow> ('r, 'u, 'i) trade_db \<Rightarrow> (write_result \<times> ('r, 'u, 'i) trade_db) option" where
  "db_upsert T now r D =
     (if \<not> db_open D then Some (write_error ST_NOT_OPEN r ''TradeRecordDB is not open'', D)
      else if db_read_only D then Some (write_error ST_READ_ONLY r ''TradeRecordDB is read-only'', D)
      else case upsert_id T r D of
        None \<Rightarrow> None
      | Some (i, D1) \<Rightarrow>
          if i = 0 then Some (write_error ST_DB_ERROR r ''TradeRecordDB could not reserve a trade_id'', D)
          else Some (write_success (r\<lparr>trec_trade_id := i\<rparr>), store_record T now (r\<lparr>trec_trade_id := i\<rparr>) D1))"

definition db_erase ::
  "('r, 'u, 'i) db_ops \<Rightarrow> int \<Rightarrow> u32 \<Rightarrow> ('r, 'u, 'i) trade_db \<Rightarrow> storage_status \<times> ('r, 'u, 'i) trade_db" where
  "db_erase T now i D =
     (if \<not> db_open D then (ST_NOT_OPEN, D)
      else if db_read_only D then (ST_READ_ONLY, D)
      else if i = 0 then (ST_INVALID_ARGUMENT, D)
      else case tb_find (op_tid T) (db_tid D) (tid_key i) of
        None \<Rightarrow> (ST_NOT_FOUND, D)
      | Some key \<Rightarrow> (ST_SUCCESS, update_last_update now
          (D\<lparr>db_uid := (case tb_find (op_records T) (db_records D) key of
               Some r \<Rightarrow> if trec_unique_id r > 0 then tb_erase (op_uid T) (db_uid D) (trec_unique_id r) else db_uid D
             | None \<Rightarrow> db_uid D),
             db_records := tb_erase (op_records T) (db_records D) key,
             db_tid := tb_erase (op_tid T) (db_tid D) (tid_key i)\<rparr>)))"

definition db_clear :: "('r, 'u, 'i) db_ops \<Rightarrow> int \<Rightarrow> ('r, 'u, 'i) trade_db \<Rightarrow> storage_status \<times> ('r, 'u, 'i) trade_db" where
  "db_clear T now D =
     (if \<not> db_open D then (ST_NOT_OPEN, D)
      else if db_read_only D then (ST_READ_ONLY, D)
      else (ST_SUCCESS, update_last_update now (init_meta
        (D\<lparr>db_records := tb_clear (op_records T) (db_records D), db_uid := tb_clear (op_uid T) (db_uid D),
           db_tid := tb_clear (op_tid T) (db_tid D), db_meta := None\<rparr>))))"

subsection \<open>Reading\<close>

definition find_by_trade_id :: "('r, 'u, 'i) db_ops \<Rightarrow> u32 \<Rightarrow> ('r, 'u, 'i) trade_db \<Rightarrow> read_result" where
  "find_by_trade_id T i D =
     (if \<not> db_open D then read_error ST_NOT_OPEN ''TradeRecordDB is not open''
      else if i = 0 then read_error ST_INVALID_ARGUMENT ''TradeRecord trade_id is required''
      else case tb_find (op_tid T) (db_tid D) (tid_key i) of
        None \<Rightarrow> read_error ST_NOT_FOUND ''TradeRecord was not found''
      | Some key \<Rightarrow> (case tb_find (op_records T) (db_records D) key of
          None \<Rightarrow> read_error ST_NOT_FOUND ''TradeRecord index points to missing record''
        | Some r \<Rightarrow> read_success r))"

definition find_by_uid :: "('r, 'u, 'i) db_ops \<Rightarrow> int \<Rightarrow> ('r, 'u, 'i) trade_db \<Rightarrow> read_result" where
  "find_by_uid T u D =
     (if \<not> db_open D then read_error ST_NOT_OPEN ''TradeRecordDB is not open''
      else if u \<le> 0 then read_error ST_INVALID_ARGUMENT ''TradeRecord unique_id is required''
      else case tb_find (op_uid T) (db_uid D) u of
        None \<Rightarrow> read_error ST_NOT_FOUND ''TradeRecord UID index entry was not found''
      | Some key \<Rightarrow> (case tb_find (op_records T) (db_records D) key of
          None \<Rightarrow> read_error ST_NOT_FOUND ''TradeRecord UID index points to missing record''
        | Some r \<Rightarrow> if trec_unique_id r \<noteq> u
                    then read_error ST_NOT_FOUND ''TradeRecord UID index points to a different unique_id''
                    else read_success r))"

text \<open>\<open>std::sort\<close> by the timestamp and then the trade; no two stored records have the same trade.\<close>

definition sort_records :: "(trade_record \<Rightarrow> int) \<Rightarrow> trade_record list \<Rightarrow> trade_record list" where
  "sort_records ts rs = sort_key (\<lambda>r. (ts r, trec_trade_id r)) rs"

definition minute_rows :: "('r, 'u, 'i) db_ops \<Rightarrow> int \<Rightarrow> int \<Rightarrow> ('r, 'u, 'i) trade_db \<Rightarrow> trade_record list" where
  "minute_rows T start_min stop_min D =
     rows_between (op_records T) (db_records D) (make_composite_key start_min 0) (make_composite_key stop_min 0xFFFFFFFF)"

definition find_by_timestamp :: "('r, 'u, 'i) db_ops \<Rightarrow> int \<Rightarrow> ('r, 'u, 'i) trade_db \<Rightarrow> list_result" where
  "find_by_timestamp T ts D =
     (if \<not> db_open D then list_error ST_NOT_OPEN ''TradeRecordDB is not open''
      else if ts < 0 then list_error ST_INVALID_ARGUMENT ''TradeRecord timestamp is invalid''
      else let m = timestamp_ms_to_unix_minutes (op_ms_to_min T) ts
           in \<lparr>lr_status = ST_SUCCESS, lr_records = sort_records selected_timestamp_ms
                (filter (\<lambda>r. selected_timestamp_ms r = ts) (minute_rows T m m D)), lr_message = []\<rparr>)"

definition find_range :: "('r, 'u, 'i) db_ops \<Rightarrow> int \<Rightarrow> int \<Rightarrow> ('r, 'u, 'i) trade_db \<Rightarrow> list_result" where
  "find_range T start_ms stop_ms D =
     (if \<not> db_open D then list_error ST_NOT_OPEN ''TradeRecordDB is not open''
      else if start_ms < 0 \<or> stop_ms < 0 \<or> start_ms > stop_ms
      then list_error ST_INVALID_ARGUMENT ''TradeRecord timestamp range is invalid''
      else \<lparr>lr_status = ST_SUCCESS, lr_records = sort_records selected_timestamp_ms
             (filter (\<lambda>r. selected_timestamp_ms r \<ge> start_ms \<and> selected_timestamp_ms r \<le> stop_ms)
               (minute_rows T (timestamp_ms_to_unix_minutes (op_ms_to_min T) start_ms)
                  (timestamp_ms_to_unix_minutes (op_ms_to_min T) stop_ms) D)), lr_message = []\<rparr>)"

text \<open>The minutes scanned for a query: wider by \<open>coarse_expansion_ms\<close> when it asks for a field the
  key is not made from.\<close>

definition scan_minutes :: "(int \<Rightarrow> int) \<Rightarrow> trade_record_query \<Rightarrow> int \<times> int" where
  "scan_minutes g q =
     (if tq_range_mode q = TR_NONE then (- 2147483648, 2147483647)
      else if tq_time_field q \<noteq> TF_AUTO \<and> tq_time_field q \<noteq> TF_PLACE_DATE
      then let ex = tq_coarse_expansion_ms q
           in (timestamp_ms_to_unix_minutes g (if tq_start_ms q > ex then tq_start_ms q - ex else 0),
               timestamp_ms_to_unix_minutes g (if tq_stop_ms q < i64_max - ex then tq_stop_ms q + ex else i64_max))
      else (timestamp_ms_to_unix_minutes g (tq_start_ms q), timestamp_ms_to_unix_minutes g (tq_stop_ms q)))"

definition page :: "nat \<Rightarrow> nat \<Rightarrow> 'a list \<Rightarrow> 'a list" where
  "page off lim rs =
     (let rs = (if off > 0 then if off \<ge> length rs then [] else drop off rs else rs)
      in if lim > 0 \<and> length rs > lim then take lim rs else rs)"

definition find_records ::
  "time_shield \<Rightarrow> calendar \<Rightarrow> ('r, 'u, 'i) db_ops \<Rightarrow> trade_record_query \<Rightarrow> ('r, 'u, 'i) trade_db \<Rightarrow> list_result" where
  "find_records L cal T q D =
     (if \<not> db_open D then list_error ST_NOT_OPEN ''TradeRecordDB is not open''
      else let (lo, hi) = scan_minutes (op_ms_to_min T) q;
               rs = filter (\<lambda>r. match_query L cal r q) (minute_rows T lo hi D);
               rs = (if tq_fix_stale_status q then fix_stale_statuses None (tq_wait_status_sec q * 1000) rs else rs);
               sorted_rs = sort_records (\<lambda>r. select_timestamp_ms r (tq_time_field q)) rs
           in \<lparr>lr_status = ST_SUCCESS, lr_records = page (tq_offset q) (tq_limit q)
                (if tq_ascending q then sorted_rs else List.rev sorted_rs), lr_message = []\<rparr>)"

definition find_records_vector ::
  "time_shield \<Rightarrow> calendar \<Rightarrow> ('r, 'u, 'i) db_ops \<Rightarrow> trade_record_query \<Rightarrow> ('r, 'u, 'i) trade_db \<Rightarrow> trade_record list" where
  "find_records_vector L cal T q D =
     (if lr_status (find_records L cal T q D) = ST_SUCCESS then lr_records (find_records L cal T q D) else [])"

definition find_day ::
  "time_shield \<Rightarrow> calendar \<Rightarrow> ('r, 'u, 'i) db_ops \<Rightarrow> int \<Rightarrow> trade_time_zone \<Rightarrow> ('r, 'u, 'i) trade_db \<Rightarrow> list_result" where
  "find_day L cal T t z D = find_records L cal T (trade_record_query_default
     \<lparr>tq_time_field := TF_AUTO, tq_range_mode := TR_HALF_OPEN, tq_time_zone := z,
      tq_start_ms := start_of_local_day_utc_ms L z t, tq_stop_ms := next_local_day_start_utc_ms L z t\<rparr>) D"

definition db_count :: "('r, 'u, 'i) db_ops \<Rightarrow> ('r, 'u, 'i) trade_db \<Rightarrow> nat" where
  "db_count T D = (if db_open D then length (tb_rows (op_records T) (db_records D)) else 0)"

end
