(* ===== verification/StorageQueue.thy ===== *)
theory StorageQueue
  imports TradeDB Contracts
begin

section \<open>The worker queue of a record storage\<close>

text \<open>
  The asynchronous half of \<open>storages/TradeRecordDB\<close> and \<open>storages/SignalRecordDB\<close>, whose queues are the same
  statements around different commands: commands are queued, executed by a worker thread or by
  the caller, and their results are handed to callbacks when the caller processes the queue. Every
  transition under \<open>m_queue_mutex\<close> is one event, so a list of events is an interleaving of the
  caller with the worker; an event that cannot happen yet (a \<open>join\<close>, a wait on the idle condition)
  leaves the state as it is. A callback is the number its command was given when it was accepted.
  Callbacks that call back into the database are left out. What the queue needs of its storage is a record of
  operations; the locale \<open>executor\<close> holds what follows for any storage whose commands return.
\<close>

text \<open>Executing the command with the given number, \<open>is_open\<close>, and closing the tables.\<close>

record ('d, 'c, 'y) storage_ops =
  st_exec :: "nat \<Rightarrow> 'c \<Rightarrow> 'd \<Rightarrow> ('y \<times> 'd) option"
  st_is_open :: "'d \<Rightarrow> bool"
  st_close :: "'d \<Rightarrow> 'd"

subsection \<open>The queue\<close>

record ('d, 'c, 'y) storage_queue =
  dq_db :: "'d"
  dq_work :: "(nat \<times> 'c) list"
  dq_active :: "(nat \<times> 'c) option"
  dq_accepting :: bool
  dq_worker_stop :: bool
  dq_worker_running :: bool
  dq_callbacks :: "(nat \<times> 'y) list"
  dq_delivered :: "(nat \<times> 'y) list"
  dq_accepted :: "(nat \<times> 'c) list"
  dq_hung :: bool

definition storage_queue_new :: "'d \<Rightarrow> ('d, 'c, 'y) storage_queue" where
  "storage_queue_new D = \<lparr>dq_db = D, dq_work = [], dq_active = None, dq_accepting = True, dq_worker_stop = False,
     dq_worker_running = False, dq_callbacks = [], dq_delivered = [], dq_accepted = [], dq_hung = False\<rparr>"

definition enqueue_command :: "'c \<Rightarrow> ('d, 'c, 'y) storage_queue \<Rightarrow> storage_status \<times> ('d, 'c, 'y) storage_queue" where
  "enqueue_command c Q =
     (if \<not> dq_accepting Q then (ST_QUEUE_CLOSED, Q)
      else let x = (length (dq_accepted Q), c)
           in (ST_SUCCESS, Q\<lparr>dq_work := dq_work Q @ [x], dq_accepted := dq_accepted Q @ [x]\<rparr>))"

definition run_worker :: "('d, 'c, 'y) storage_ops \<Rightarrow> ('d, 'c, 'y) storage_queue \<Rightarrow> bool \<times> ('d, 'c, 'y) storage_queue" where
  "run_worker X Q =
     (if \<not> st_is_open X (dq_db Q) then (False, Q)
      else if \<not> dq_accepting Q \<or> dq_worker_running Q then (False, Q)
      else (True, Q\<lparr>dq_worker_stop := False, dq_worker_running := True\<rparr>))"

text \<open>\<open>pop_command\<close> (and the same statements of \<open>worker_loop\<close>): the next command is in hand.\<close>

definition pop_command :: "('d, 'c, 'y) storage_queue \<Rightarrow> ('d, 'c, 'y) storage_queue" where
  "pop_command Q = (case dq_work Q of [] \<Rightarrow> Q | x # xs \<Rightarrow> Q\<lparr>dq_work := xs, dq_active := Some x\<rparr>)"

text \<open>\<open>execute_command\<close>: the command runs, its callback is queued, and it is finished.\<close>

definition execute_command ::
  "('d, 'c, 'y) storage_ops \<Rightarrow> ('d, 'c, 'y) storage_queue \<Rightarrow> ('d, 'c, 'y) storage_queue" where
  "execute_command X Q =
     (case dq_active Q of
        None \<Rightarrow> Q
      | Some (n, c) \<Rightarrow> (case st_exec X n c (dq_db Q) of
          None \<Rightarrow> Q\<lparr>dq_hung := True\<rparr>
        | Some (reply, D) \<Rightarrow> Q\<lparr>dq_db := D, dq_active := None, dq_callbacks := dq_callbacks Q @ [(n, reply)]\<rparr>))"

function drain_work :: 
  "('d, 'c, 'y) storage_ops \<Rightarrow> ('d, 'c, 'y) storage_queue \<Rightarrow> ('d, 'c, 'y) storage_queue" where
  "drain_work X Q =
     (if dq_work Q = [] then Q else drain_work X (execute_command X (pop_command Q)))"
  by pat_completeness auto

termination
  by (relation "measure (\<lambda>(X, Q). length (dq_work Q))")
    (auto simp: execute_command_def pop_command_def split: list.splits option.splits)

declare drain_work.simps [simp del]

definition deliver_callbacks :: "('d, 'c, 'y) storage_queue \<Rightarrow> ('d, 'c, 'y) storage_queue" where
  "deliver_callbacks Q = Q\<lparr>dq_callbacks := [], dq_delivered := dq_delivered Q @ dq_callbacks Q\<rparr>"

definition process_queue ::
  "('d, 'c, 'y) storage_ops \<Rightarrow> ('d, 'c, 'y) storage_queue \<Rightarrow> ('d, 'c, 'y) storage_queue" where
  "process_queue X Q =
     deliver_callbacks (if \<not> dq_worker_running Q then drain_work X Q else Q)"

text \<open>\<open>flush\<close> returns when the worker is idle.\<close>

definition flush_queue ::
  "('d, 'c, 'y) storage_ops \<Rightarrow> ('d, 'c, 'y) storage_queue \<Rightarrow> ('d, 'c, 'y) storage_queue" where
  "flush_queue X Q =
     (if dq_worker_running Q then
        (if dq_work Q = [] \<and> dq_active Q = None then deliver_callbacks Q else Q)
      else deliver_callbacks (drain_work X Q))"

text \<open>\<open>worker_loop\<close> leaves when it is told to stop and has no work.\<close>

definition worker_exit :: "('d, 'c, 'y) storage_queue \<Rightarrow> ('d, 'c, 'y) storage_queue" where
  "worker_exit Q =
     (if dq_worker_running Q \<and> dq_active Q = None \<and> dq_worker_stop Q \<and> dq_work Q = [] then Q\<lparr>dq_worker_running := False\<rparr> else Q)"

definition shutdown_begin :: "('d, 'c, 'y) storage_ops \<Rightarrow> ('d, 'c, 'y) storage_queue \<Rightarrow> ('d, 'c, 'y) storage_queue" where
  "shutdown_begin X Q =
     (if \<not> dq_accepting Q \<and> \<not> dq_worker_running Q \<and> \<not> st_is_open X (dq_db Q) then Q
      else Q\<lparr>dq_accepting := False, dq_worker_stop := True\<rparr>)"

text \<open>The rest of \<open>shutdown\<close>, after the worker has been joined.\<close>

definition shutdown_end ::
  "('d, 'c, 'y) storage_ops \<Rightarrow> ('d, 'c, 'y) storage_queue \<Rightarrow> ('d, 'c, 'y) storage_queue" where
  "shutdown_end X Q =
     (if dq_accepting Q \<or> dq_worker_running Q then Q
      else let Q = deliver_callbacks (drain_work X Q)
           in Q\<lparr>dq_db := st_close X (dq_db Q)\<rparr>)"

datatype 'c queue_event =
    QE_ENQUEUE 'c | QE_RUN | QE_TAKE | QE_EXECUTE | QE_EXIT | QE_PROCESS | QE_FLUSH | QE_SHUTDOWN_BEGIN | QE_SHUTDOWN_END

text \<open>Taking and executing are the worker's when there is one.\<close>

fun queue_step ::
  "('d, 'c, 'y) storage_ops \<Rightarrow> ('d, 'c, 'y) storage_queue \<Rightarrow> 'c queue_event \<Rightarrow> ('d, 'c, 'y) storage_queue" where
  "queue_step X Q (QE_ENQUEUE c) = snd (enqueue_command c Q)"
| "queue_step X Q QE_RUN = snd (run_worker X Q)"
| "queue_step X Q QE_TAKE = (if dq_worker_running Q \<and> dq_active Q = None then pop_command Q else Q)"
| "queue_step X Q QE_EXECUTE = (if dq_worker_running Q then execute_command X Q else Q)"
| "queue_step X Q QE_EXIT = worker_exit Q"
| "queue_step X Q QE_PROCESS = process_queue X Q"
| "queue_step X Q QE_FLUSH = flush_queue X Q"
| "queue_step X Q QE_SHUTDOWN_BEGIN = shutdown_begin X Q"
| "queue_step X Q QE_SHUTDOWN_END = shutdown_end X Q"

subsection \<open>Commands are executed in the order they were accepted\<close>

text \<open>The specification: the commands one after the other on the database, each with its reply.\<close>

fun exec_all ::
  "('d, 'c, 'y) storage_ops \<Rightarrow> (nat \<times> 'c) list \<Rightarrow> 'd
     \<Rightarrow> (nat \<times> 'y) list \<times> 'd" where
  "exec_all X [] D = ([], D)"
| "exec_all X ((n, c) # xs) D =
     (case st_exec X n c D of
        None \<Rightarrow> ([], D)
      | Some (reply, D') \<Rightarrow> ((n, reply) # fst (exec_all X xs D'), snd (exec_all X xs D')))"

definition pending :: "('d, 'c, 'y) storage_queue \<Rightarrow> (nat \<times> 'c) list" where
  "pending Q = (case dq_active Q of None \<Rightarrow> [] | Some x \<Rightarrow> [x]) @ dq_work Q"

text \<open>What has been executed when the pending commands are what is left of the accepted ones.\<close>

definition in_order ::
  "('d, 'c, 'y) storage_ops \<Rightarrow> 'd \<Rightarrow> ('d, 'c, 'y) storage_queue \<Rightarrow> bool" where
  "in_order X D Q \<longleftrightarrow>
     (\<exists>xs. dq_accepted Q = xs @ pending Q \<and>
        dq_delivered Q @ dq_callbacks Q = fst (exec_all X xs D) \<and>
        (dq_db Q = snd (exec_all X xs D) \<or> pending Q = [] \<and> \<not> dq_accepting Q)) \<and>
     map fst (dq_accepted Q) = [0..<length (dq_accepted Q)] \<and>
     (dq_worker_running Q \<or> dq_active Q = None) \<and> \<not> dq_hung Q"

definition worker_rounds :: "nat \<Rightarrow> 'c queue_event list" where
  "worker_rounds k = concat (replicate k [QE_TAKE, QE_EXECUTE])"

subsection \<open>What any such storage guarantees\<close>

locale executor =
  fixes X :: "('d, 'c, 'y) storage_ops"
  assumes exec_total: "st_exec X n c D \<noteq> None"
    and closed: "\<not> st_is_open X (st_close X D)"
begin

lemma exec_all_snoc:
  "exec_all X (xs @ [(n, c)]) D =
     (let (rs, D1) = exec_all X xs D; (reply, D2) = the (st_exec X n c D1) in (rs @ [(n, reply)], D2))"
proof (induction xs arbitrary: D)
  case Nil
  then show ?case using exec_total [of n c D] by (auto split: option.split)
next
  case (Cons x xs)
  then show ?case using exec_total [of "fst x" "snd x" D] by (cases x) (auto simp: Let_def case_prod_beta split: option.split)
qed

lemma exec_all_tickets: "map fst (fst (exec_all X xs D)) = map fst xs"
proof (induction xs arbitrary: D)
  case (Cons x xs)
  then show ?case using exec_total [of "fst x" "snd x" D] by (cases x) (auto split: option.split)
qed simp

lemma in_orderI:
  assumes "dq_accepted Q = xs @ pending Q" "dq_delivered Q @ dq_callbacks Q = fst (exec_all X xs D)"
    "dq_db Q = snd (exec_all X xs D) \<or> pending Q = [] \<and> \<not> dq_accepting Q"
    "map fst (dq_accepted Q) = [0..<length (dq_accepted Q)]" "dq_worker_running Q \<or> dq_active Q = None" "\<not> dq_hung Q"
  shows "in_order X D Q"
  using assms unfolding in_order_def by blast

lemma in_orderE:
  assumes "in_order X D Q"
  obtains xs where "dq_accepted Q = xs @ pending Q" "dq_delivered Q @ dq_callbacks Q = fst (exec_all X xs D)"
    "dq_db Q = snd (exec_all X xs D) \<or> pending Q = [] \<and> \<not> dq_accepting Q"
    "map fst (dq_accepted Q) = [0..<length (dq_accepted Q)]" "dq_worker_running Q \<or> dq_active Q = None" "\<not> dq_hung Q"
  using assms unfolding in_order_def by blast

text \<open>Executing the command in hand is one more command of the specification.\<close>

lemma execute_exact:
  assumes a: "dq_active Q = Some (n, c)" and acc: "dq_accepted Q = xs @ pending Q"
    and out: "dq_delivered Q @ dq_callbacks Q = fst (exec_all X xs D)"
    and db: "dq_db Q = snd (exec_all X xs D)" and h: "\<not> dq_hung Q"
  shows "let Q' = execute_command X Q; ys = xs @ [(n, c)] in
    dq_accepted Q' = ys @ pending Q' \<and> dq_delivered Q' @ dq_callbacks Q' = fst (exec_all X ys D) \<and>
    dq_db Q' = snd (exec_all X ys D) \<and> \<not> dq_hung Q' \<and> dq_active Q' = None \<and> dq_work Q' = dq_work Q \<and>
    dq_accepted Q' = dq_accepted Q \<and> dq_worker_running Q' = dq_worker_running Q \<and> dq_accepting Q' = dq_accepting Q"
proof -
  obtain reply D' where e: "st_exec X n c (dq_db Q) = Some (reply, D')"
    using exec_total [of n c "dq_db Q"] by fast
  show ?thesis
    using a acc out db h e by (simp add: Let_def execute_command_def exec_all_snoc case_prod_beta pending_def)
qed

lemma execute_in_order: "in_order X D Q \<Longrightarrow> in_order X D (execute_command X Q)"
proof -
  assume i: "in_order X D Q"
  then show ?thesis
  proof (cases "dq_active Q")
    case None
    then show ?thesis using i by (simp add: execute_command_def)
  next
    case (Some x)
    obtain n c where x: "dq_active Q = Some (n, c)" using Some by (cases x) simp
    obtain xs where xs: "dq_accepted Q = xs @ pending Q" "dq_delivered Q @ dq_callbacks Q = fst (exec_all X xs D)"
      "dq_db Q = snd (exec_all X xs D) \<or> pending Q = [] \<and> \<not> dq_accepting Q"
      "map fst (dq_accepted Q) = [0..<length (dq_accepted Q)]" "\<not> dq_hung Q"
      using in_orderE [OF i] by metis
    have "dq_db Q = snd (exec_all X xs D)" using xs(3) x by (auto simp: pending_def)
    from execute_exact [OF x xs(1,2) this xs(5)] show ?thesis
      unfolding Let_def using xs(4) by (intro in_orderI [where xs = "xs @ [(n, c)]"]) auto
  qed
qed

lemma pop_in_order:
  assumes "in_order X D Q" and "dq_active Q = None" and "dq_worker_running Q"
  shows "in_order X D (pop_command Q)"
proof (cases "dq_work Q")
  case Nil
  then show ?thesis using assms by (simp add: pop_command_def)
next
  case (Cons x ws)
  then have "pending (pop_command Q) = pending Q" using assms(2) by (simp add: pop_command_def pending_def)
  then show ?thesis using assms Cons unfolding in_order_def by (simp add: pop_command_def)
qed

text \<open>A drain by the caller executes everything that is queued.\<close>

lemma drain_work_exact:
  assumes "dq_active Q = None" "dq_accepted Q = xs @ pending Q" "dq_delivered Q @ dq_callbacks Q = fst (exec_all X xs D)"
    "dq_db Q = snd (exec_all X xs D)" "\<not> dq_hung Q"
  shows "let Q' = drain_work X Q in
    dq_work Q' = [] \<and> dq_active Q' = None \<and> dq_accepted Q' = dq_accepted Q \<and>
    dq_delivered Q' @ dq_callbacks Q' = fst (exec_all X (dq_accepted Q) D) \<and>
    dq_db Q' = snd (exec_all X (dq_accepted Q) D) \<and> \<not> dq_hung Q' \<and>
    dq_worker_running Q' = dq_worker_running Q \<and> dq_accepting Q' = dq_accepting Q"
  using assms
proof (induction "length (dq_work Q)" arbitrary: Q xs rule: less_induct)
  case less
  show ?case
  proof (cases "dq_work Q")
    case Nil
    then show ?thesis using less.prems by (subst (1) drain_work.simps) (simp add: pending_def)
  next
    case (Cons x ws)
    obtain n c where x: "x = (n, c)" by (cases x)
    let ?P = "pop_command Q" and ?E = "execute_command X (pop_command Q)"
    have P: "dq_active ?P = Some (n, c)" "dq_accepted ?P = xs @ pending ?P" "dq_delivered ?P @ dq_callbacks ?P = fst (exec_all X xs D)"
      "dq_db ?P = snd (exec_all X xs D)" "\<not> dq_hung ?P"
      using less.prems Cons by (simp_all add: pop_command_def pending_def x)
    note E = execute_exact [OF P, unfolded Let_def]
    have p: "dq_accepted ?P = dq_accepted Q" "dq_worker_running ?P = dq_worker_running Q" "dq_accepting ?P = dq_accepting Q" "dq_work ?P = ws"
      using Cons by (simp_all add: pop_command_def)
    have s: "length (dq_work ?E) < length (dq_work Q)" using conjunct1 [OF E [THEN conjunct2, THEN conjunct2, THEN conjunct2, THEN conjunct2, THEN conjunct2]] p(4) Cons by simp
    have d: "drain_work X Q = drain_work X ?E" using Cons by (subst drain_work.simps) simp
    have "dq_accepted ?E = dq_accepted Q" "dq_worker_running ?E = dq_worker_running Q" "dq_accepting ?E = dq_accepting Q"
      using E unfolding p by blast+
    then show ?thesis
      using less.hyps [OF s, of "xs @ [(n, c)]"] E unfolding d Let_def by metis
  qed
qed

lemma drain_in_order:
  assumes i: "in_order X D Q" and r: "\<not> dq_worker_running Q"
  shows "in_order X D (drain_work X Q)"
    and "let Q' = drain_work X Q in pending Q' = [] \<and> dq_accepted Q' = dq_accepted Q \<and>
      dq_delivered Q' @ dq_callbacks Q' = fst (exec_all X (dq_accepted Q) D)"
proof -
  obtain xs where xs: "dq_accepted Q = xs @ pending Q" "dq_delivered Q @ dq_callbacks Q = fst (exec_all X xs D)"
    "dq_db Q = snd (exec_all X xs D) \<or> pending Q = [] \<and> \<not> dq_accepting Q"
    "map fst (dq_accepted Q) = [0..<length (dq_accepted Q)]" "dq_active Q = None" "\<not> dq_hung Q"
    using in_orderE [OF i] r by metis
  have "in_order X D (drain_work X Q) \<and> (let Q' = drain_work X Q in
      pending Q' = [] \<and> dq_accepted Q' = dq_accepted Q \<and>
      dq_delivered Q' @ dq_callbacks Q' = fst (exec_all X (dq_accepted Q) D))"
  proof (cases "dq_db Q = snd (exec_all X xs D)")
    case True
    note d = drain_work_exact [OF xs(5) xs(1,2) True xs(6), unfolded Let_def]
    then have p: "pending (drain_work X Q) = []" by (simp add: pending_def)
    have "in_order X D (drain_work X Q)"
      using d p xs(4) by (intro in_orderI [where xs = "dq_accepted Q"]) simp_all
    then show ?thesis using d p by (simp add: Let_def)
  next
    case False
    then have p: "pending Q = []" using xs(3) by simp
    then have "drain_work X Q = Q" by (subst drain_work.simps) (simp add: pending_def)
    then show ?thesis using i p xs(1,2) by (simp add: Let_def)
  qed
  then show "in_order X D (drain_work X Q)"
    and "let Q' = drain_work X Q in pending Q' = [] \<and> dq_accepted Q' = dq_accepted Q \<and>
      dq_delivered Q' @ dq_callbacks Q' = fst (exec_all X (dq_accepted Q) D)" by blast+
qed

lemma deliver_in_order: "in_order X D Q \<Longrightarrow> in_order X D (deliver_callbacks Q)"
  by (auto simp: in_order_def deliver_callbacks_def pending_def)

lemma enqueue_in_order: "in_order X D Q \<Longrightarrow> in_order X D (snd (enqueue_command c Q))"
  by (auto simp: in_order_def enqueue_command_def pending_def Let_def)

lemma control_in_order:
  assumes "in_order X D Q"
  shows "in_order X D (snd (run_worker X Q))" "in_order X D (worker_exit Q)" "in_order X D (shutdown_begin X Q)"
  using assms by (auto simp: in_order_def run_worker_def worker_exit_def shutdown_begin_def pending_def)

lemma shutdown_end_in_order:
  assumes i: "in_order X D Q"
  shows "in_order X D (shutdown_end X Q)"
proof (cases "dq_accepting Q \<or> dq_worker_running Q")
  case True
  then show ?thesis using i by (simp add: shutdown_end_def)
next
  case False
  let ?Q = "deliver_callbacks (drain_work X Q)"
  have r: "\<not> dq_worker_running Q" using False by simp
  have d: "in_order X D ?Q" by (rule deliver_in_order [OF drain_in_order(1) [OF i r]])
  have p: "pending ?Q = []" using drain_in_order(2) [OF i r] by (simp add: Let_def deliver_callbacks_def pending_def)
  have "dq_accepting (drain_work X Q) = dq_accepting Q"
    by (induction X Q rule: drain_work.induct)
      (subst drain_work.simps, auto simp: execute_command_def pop_command_def split: list.splits option.splits)
  then have "\<not> dq_accepting ?Q" using False by (simp add: deliver_callbacks_def)
  then show ?thesis using d p False unfolding in_order_def shutdown_end_def Let_def by (auto simp: pending_def)
qed

lemma step_in_order: "in_order X D Q \<Longrightarrow> in_order X D (queue_step X Q e)"
  by (cases e) (auto simp: process_queue_def flush_queue_def enqueue_in_order control_in_order execute_in_order
    pop_in_order deliver_in_order drain_in_order(1) shutdown_end_in_order)

lemma steps_in_order: "in_order X D Q \<Longrightarrow> in_order X D (foldl (queue_step X) Q es)"
  by (rule machine.run_inv [where step = "queue_step X" and inv = "in_order X D" and ev_ok = "\<lambda>_. True"])
    (simp_all add: machine_def step_in_order list_all_iff)

lemma new_in_order: "in_order X D (storage_queue_new D)"
  by (rule in_orderI [where xs = "[]"]) (simp_all add: storage_queue_new_def pending_def)

lemma run_in_order: "in_order X D (foldl (queue_step X) (storage_queue_new D) es)"
  by (rule steps_in_order [OF new_in_order])

subsection \<open>Shutting down\<close>

lemma execute_frame:
  fixes Q :: "('d, 'c, 'y) storage_queue"
  assumes E: "E = execute_command X Q"
  shows "dq_work E = dq_work Q" "dq_active E = None" "dq_worker_running E = dq_worker_running Q"
    "dq_accepted E = dq_accepted Q" "dq_worker_stop E = dq_worker_stop Q" "dq_accepting E = dq_accepting Q"
proof -
  have "dq_work E = dq_work Q \<and> dq_active E = None \<and> dq_worker_running E = dq_worker_running Q \<and>
    dq_accepted E = dq_accepted Q \<and> dq_worker_stop E = dq_worker_stop Q \<and> dq_accepting E = dq_accepting Q"
  proof (cases "dq_active Q")
    case (Some x)
    obtain n c where x: "x = (n, c)" by (cases x) simp
    obtain reply D' where "st_exec X n c (dq_db Q) = Some (reply, D')"
      using exec_total [of n c "dq_db Q"] by fast
    then show ?thesis using Some by (simp add: E execute_command_def x)
  qed (simp add: E execute_command_def)
  then show "dq_work E = dq_work Q" "dq_active E = None" "dq_worker_running E = dq_worker_running Q"
    "dq_accepted E = dq_accepted Q" "dq_worker_stop E = dq_worker_stop Q" "dq_accepting E = dq_accepting Q" by blast+
qed

text \<open>With nothing in hand, a worker that takes and executes as often as there is work ends idle.\<close>

lemma worker_round:
  assumes "in_order X D Q" "dq_worker_running Q" "dq_active Q = None" "dq_work Q \<noteq> []"
  shows "let Q' = queue_step X (queue_step X Q QE_TAKE) QE_EXECUTE in
    dq_work Q' = tl (dq_work Q) \<and> dq_active Q' = None \<and> dq_worker_running Q' \<and> dq_accepted Q' = dq_accepted Q \<and>
    dq_worker_stop Q' = dq_worker_stop Q \<and> dq_accepting Q' = dq_accepting Q"
proof -
  obtain n c ws where w: "dq_work Q = (n, c) # ws" using assms(4) by (cases "dq_work Q") auto
  obtain reply D' where e: "st_exec X n c (dq_db Q) = Some (reply, D')"
    using exec_total [of n c "dq_db Q"] by fast
  show ?thesis using assms w e by (simp add: Let_def pop_command_def execute_command_def)
qed

lemma worker_drains:
  assumes "in_order X D Q" "dq_worker_running Q" "dq_active Q = None"
  shows "let Q' = foldl (queue_step X) Q (worker_rounds (length (dq_work Q))) in
    dq_work Q' = [] \<and> dq_active Q' = None \<and> dq_worker_running Q' \<and> dq_accepted Q' = dq_accepted Q \<and>
    dq_worker_stop Q' = dq_worker_stop Q \<and> dq_accepting Q' = dq_accepting Q"
  using assms
proof (induction "length (dq_work Q)" arbitrary: Q)
  case 0
  then show ?case by (simp add: worker_rounds_def)
next
  case (Suc k)
  let ?Q = "queue_step X (queue_step X Q QE_TAKE) QE_EXECUTE"
  have ne: "dq_work Q \<noteq> []" using Suc.hyps(2) by auto
  note r = worker_round [OF Suc.prems ne, unfolded Let_def]
  have i: "in_order X D ?Q" by (intro step_in_order Suc.prems)
  have k: "k = length (dq_work ?Q)" using r Suc.hyps(2) by (simp del: queue_step.simps)
  have "(worker_rounds (length (dq_work Q)) :: 'c queue_event list) = QE_TAKE # QE_EXECUTE # worker_rounds k"
    using Suc.hyps(2) [symmetric] by (simp add: worker_rounds_def)
  then have f: "foldl (queue_step X) Q (worker_rounds (length (dq_work Q)))
      = foldl (queue_step X) ?Q (worker_rounds k)"
    by (simp del: queue_step.simps)
  show ?case
    using Suc.hyps(1) [OF k i] r unfolding f k [symmetric] Let_def by (simp del: queue_step.simps)
qed

text \<open>The end of a shutdown whose worker has been joined: everything accepted has been answered.\<close>

lemma shutdown_end_answers:
  assumes i: "in_order X D Q" and a: "\<not> dq_accepting Q" and r: "\<not> dq_worker_running Q"
  shows "dq_delivered (shutdown_end X Q) = fst (exec_all X (dq_accepted Q) D)"
    and "\<not> st_is_open X (dq_db (shutdown_end X Q))"
  using drain_in_order(2) [OF i r] a r by (simp_all add: shutdown_end_def Let_def deliver_callbacks_def closed)

lemma idle_rounds:
  assumes "\<not> dq_worker_running Q"
  shows "foldl (queue_step X) Q (worker_rounds k) = Q"
proof (induction k)
  case (Suc k)
  have "(worker_rounds (Suc k) :: 'c queue_event list) = QE_TAKE # QE_EXECUTE # worker_rounds k" by (simp add: worker_rounds_def)
  then show ?case using Suc assms by simp
qed (simp add: worker_rounds_def)

lemma worker_stops:
  assumes i: "in_order X D Q" and a: "\<not> dq_accepting Q" and st: "dq_worker_stop Q"
  shows "let F = foldl (queue_step X) Q (QE_EXECUTE # worker_rounds (length (dq_work Q)) @ [QE_EXIT])
    in in_order X D F \<and> \<not> dq_accepting F \<and> \<not> dq_worker_running F \<and> dq_accepted F = dq_accepted Q"
proof -
  let ?F = "foldl (queue_step X) Q (QE_EXECUTE # worker_rounds (length (dq_work Q)) @ [QE_EXIT])"
  have io: "in_order X D ?F" by (rule steps_in_order [OF i])
  show ?thesis
  proof (cases "dq_worker_running Q")
    case False
    have "?F = Q" using False idle_rounds [OF False] by (simp add: worker_exit_def)
    then show ?thesis using i a False by (simp only: Let_def) blast
  next
    case True
    let ?Q = "queue_step X Q QE_EXECUTE"
    have q: "dq_work ?Q = dq_work Q" "dq_active ?Q = None" "dq_worker_running ?Q" "dq_accepted ?Q = dq_accepted Q"
      "dq_worker_stop ?Q = dq_worker_stop Q" "dq_accepting ?Q = dq_accepting Q"
      using True execute_frame [OF refl, of Q] by simp_all
    note d = worker_drains [OF step_in_order [OF i, of QE_EXECUTE] q(3,2), unfolded q(1) Let_def]
    have "?F = worker_exit (foldl (queue_step X) ?Q (worker_rounds (length (dq_work Q))))" by simp
    then show ?thesis using d io q st a by (simp add: Let_def worker_exit_def del: queue_step.simps)
  qed
qed


lemma order_exact:
  "let F = foldl (queue_step X) (storage_queue_new D) es in
     \<exists>k. dq_delivered F @ dq_callbacks F = fst (exec_all X (take k (dq_accepted F)) D) \<and>
       k + length (pending F) = length (dq_accepted F) \<and> distinct (map fst (dq_accepted F))"
proof -
  let ?F = "foldl (queue_step X) (storage_queue_new D) es"
  obtain xs where "dq_accepted ?F = xs @ pending ?F" "dq_delivered ?F @ dq_callbacks ?F = fst (exec_all X xs D)"
    "map fst (dq_accepted ?F) = [0..<length (dq_accepted ?F)]"
    by (rule in_orderE [OF run_in_order])
  then show ?thesis unfolding Let_def by (intro exI [of _ "length xs"]) simp
qed

lemma shutdown_answers:
  fixes es :: "'c queue_event list"
  assumes Q: "Q = foldl (queue_step X) (storage_queue_new D) (es @ [QE_SHUTDOWN_BEGIN])" and o: "st_is_open X (dq_db Q)"
  shows "fst (enqueue_command c Q) = ST_QUEUE_CLOSED \<and>
    (let F = foldl (queue_step X) Q ((QE_EXECUTE # worker_rounds (length (dq_work Q)) @ [QE_EXIT]) @ [QE_SHUTDOWN_END])
     in dq_delivered F = fst (exec_all X (dq_accepted Q) D) \<and>
        map fst (dq_delivered F) = map fst (dq_accepted Q) \<and> \<not> st_is_open X (dq_db F))"
proof -
  have i: "in_order X D Q" unfolding Q by (rule run_in_order)
  have a: "\<not> dq_accepting Q" and st: "dq_worker_stop Q"
    using o unfolding Q by (auto simp: shutdown_begin_def split: if_splits)
  note w = worker_stops [OF i a st, unfolded Let_def]
  note e = shutdown_end_answers [OF w [THEN conjunct1] w [THEN conjunct2, THEN conjunct1] w [THEN conjunct2, THEN conjunct2, THEN conjunct1]]
  have f: "foldl (queue_step X) Q ((QE_EXECUTE # worker_rounds (length (dq_work Q)) @ [QE_EXIT]) @ [QE_SHUTDOWN_END])
      = shutdown_end X (foldl (queue_step X) Q (QE_EXECUTE # worker_rounds (length (dq_work Q)) @ [QE_EXIT]))"
    unfolding foldl_append by simp
  have "fst (enqueue_command c Q) = ST_QUEUE_CLOSED" using a by (simp add: enqueue_command_def)
  then show ?thesis
    unfolding f Let_def e(1) w [THEN conjunct2, THEN conjunct2, THEN conjunct2] exec_all_tickets using e(2) by simp
qed

end

end
