(* ===== verification/TradeDBLaws.thy ===== *)
theory TradeDBLaws
  imports TradeDB Contracts
begin

section \<open>What the trade record database guarantees\<close>

text \<open>
  The invariant that ties the record table to its index by trade, the refinement of every write to an
  update of two maps, from trades to records and from unique identifiers to keys (\<open>db_spec\<close>), the exactness of the range query, and the search
  for a free identifier.
\<close>

subsection \<open>Tables as maps\<close>

lemma tables:
  assumes "table_laws T"
  shows tb_find_put [simp]: "tb_find T (tb_put T t k v) k' = (if k' = k then Some v else tb_find T t k')"
    and tb_find_erase [simp]: "tb_find T (tb_erase T t k) k' = (if k' = k then None else tb_find T t k')"
    and tb_find_clear [simp]: "tb_find T (tb_clear T t) k = None"
    and tb_rows_find: "(k, v) \<in> set (tb_rows T t) \<longleftrightarrow> tb_find T t k = Some v"
    and tb_rows_distinct: "distinct (map fst (tb_rows T t))"
  using assms unfolding table_laws_def by blast+

lemma db_lawsD:
  assumes "db_laws T"
  shows "table_laws (op_records T)" "table_laws (op_uid T)" "table_laws (op_tid T)"
  using assms by (simp_all add: db_laws_def)

lemma tid_key_eq [simp]: "tid_key i = tid_key j \<longleftrightarrow> i = j"
proof
  have u: "(ucast (tid_key k) :: u32) = k" for k
    unfolding tid_key_def by (rule bit_word_eqI) (auto simp: bit_simps)
  assume "tid_key i = tid_key j"
  then have "(ucast (tid_key i) :: u32) = ucast (tid_key j)" by (rule arg_cong)
  then show "i = j" unfolding u .
qed simp

subsection \<open>The invariant\<close>

definition db_ok :: "('r, 'u, 'i) db_ops \<Rightarrow> ('r, 'u, 'i) trade_db \<Rightarrow> bool" where
  "db_ok T D \<longleftrightarrow>
     (\<forall>k r. tb_find (op_records T) (db_records D) k = Some r \<longrightarrow>
        trec_trade_id r \<noteq> 0 \<and> k = record_key T r \<and> tb_find (op_tid T) (db_tid D) (tid_key (trec_trade_id r)) = Some k) \<and>
     (\<forall>i k. tb_find (op_tid T) (db_tid D) i = Some k \<longrightarrow>
        (\<exists>r. tb_find (op_records T) (db_records D) k = Some r \<and> i = tid_key (trec_trade_id r)))"

text \<open>The database as a map from trade identifiers to records.\<close>

definition db_view :: "('r, 'u, 'i) db_ops \<Rightarrow> ('r, 'u, 'i) trade_db \<Rightarrow> u32 \<Rightarrow> trade_record option" where
  "db_view T D i = (case tb_find (op_tid T) (db_tid D) (tid_key i) of
     None \<Rightarrow> None | Some k \<Rightarrow> tb_find (op_records T) (db_records D) k)"

lemma db_okD:
  assumes "db_ok T D" and "tb_find (op_records T) (db_records D) k = Some r"
  shows "trec_trade_id r \<noteq> 0" "k = record_key T r" "tb_find (op_tid T) (db_tid D) (tid_key (trec_trade_id r)) = Some k"
  using assms unfolding db_ok_def by blast+

lemma db_ok_tid:
  assumes "db_ok T D" and "tb_find (op_tid T) (db_tid D) (tid_key i) = Some k"
  obtains r where "tb_find (op_records T) (db_records D) k = Some r" "trec_trade_id r = i" "k = record_key T r" "i \<noteq> 0"
proof -
  from assms obtain r where r: "tb_find (op_records T) (db_records D) k = Some r" "tid_key i = tid_key (trec_trade_id r)"
    unfolding db_ok_def by blast
  with db_okD [OF assms(1) r(1)] that show thesis by simp
qed

lemma record_key_eq:
  assumes "record_key T r = record_key T s"
  shows "trec_trade_id r = trec_trade_id s"
proof -
  note u = unix_minutes_range [of "op_ms_to_min T"]
  show ?thesis
    using composite_inj [OF conjunct1 [OF u] conjunct2 [OF u] conjunct1 [OF u] conjunct2 [OF u]]
      assms [unfolded record_key_def] by blast
qed

text \<open>A record is in the database exactly when the view has it under its own identifier.\<close>

lemma db_view_iff:
  assumes "db_ok T D"
  shows "tb_find (op_records T) (db_records D) k = Some r \<longleftrightarrow> k = record_key T r \<and> db_view T D (trec_trade_id r) = Some r"
proof
  assume f: "tb_find (op_records T) (db_records D) k = Some r"
  from db_okD [OF assms f] f show "k = record_key T r \<and> db_view T D (trec_trade_id r) = Some r"
    by (simp add: db_view_def)
next
  assume a: "k = record_key T r \<and> db_view T D (trec_trade_id r) = Some r"
  then obtain k' where "tb_find (op_records T) (db_records D) k' = Some r"
    by (auto simp: db_view_def split: option.splits)
  with db_okD [OF assms this] a show "tb_find (op_records T) (db_records D) k = Some r" by simp
qed

lemma db_view_id:
  assumes "db_ok T D" and "db_view T D i = Some r"
  shows "trec_trade_id r = i" "i \<noteq> 0"
proof -
  from assms(2) obtain k where k: "tb_find (op_tid T) (db_tid D) (tid_key i) = Some k"
    "tb_find (op_records T) (db_records D) k = Some r" by (auto simp: db_view_def split: option.splits)
  obtain s where "tb_find (op_records T) (db_records D) k = Some s" "trec_trade_id s = i" "i \<noteq> 0"
    by (rule db_ok_tid [OF assms(1) k(1)])
  with k(2) show "trec_trade_id r = i" "i \<noteq> 0" by simp_all
qed

text \<open>Operations on the metadata leave tables and flags alone.\<close>

lemma meta_frame [simp]:
  "db_records (update_last_update now D) = db_records D" "db_uid (update_last_update now D) = db_uid D"
  "db_tid (update_last_update now D) = db_tid D" "db_open (update_last_update now D) = db_open D"
  "db_read_only (update_last_update now D) = db_read_only D"
  "db_records (bump_next_trade_id i D) = db_records D" "db_uid (bump_next_trade_id i D) = db_uid D"
  "db_tid (bump_next_trade_id i D) = db_tid D" "db_open (bump_next_trade_id i D) = db_open D"
  "db_read_only (bump_next_trade_id i D) = db_read_only D"
  "db_records (init_meta D) = db_records D" "db_uid (init_meta D) = db_uid D"
  "db_tid (init_meta D) = db_tid D" "db_open (init_meta D) = db_open D"
  "db_read_only (init_meta D) = db_read_only D"
  by (simp_all add: update_last_update_def bump_next_trade_id_def init_meta_def Let_def)

definition same_tables :: "('r, 'u, 'i) trade_db \<Rightarrow> ('r, 'u, 'i) trade_db \<Rightarrow> bool" where
  "same_tables D E \<longleftrightarrow> db_records D = db_records E \<and> db_tid D = db_tid E \<and> db_open D = db_open E
     \<and> db_read_only D = db_read_only E"

lemma same_tables_ok: "same_tables D E \<Longrightarrow> db_ok T D = db_ok T E"
  by (simp add: same_tables_def db_ok_def)

lemma same_tables_view: "same_tables D E \<Longrightarrow> db_view T D = db_view T E"
  by (rule ext) (auto simp: same_tables_def db_view_def split: option.split)

subsection \<open>Storing refines a map update\<close>

lemma drop_moved_row_frame [simp]:
  "db_tid (drop_moved_row T r D) = db_tid D" "db_open (drop_moved_row T r D) = db_open D"
  "db_read_only (drop_moved_row T r D) = db_read_only D"
  by (simp_all add: drop_moved_row_def split: option.split)

text \<open>After a moved row is gone, every row left that belongs to the trade is under the new key.\<close>

lemma drop_moved_row_find:
  assumes "db_laws T" and ok: "db_ok T D"
  shows "tb_find (op_records T) (db_records (drop_moved_row T r D)) k =
    (if tb_find (op_tid T) (db_tid D) (tid_key (trec_trade_id r)) = Some k \<and> k \<noteq> record_key T r then None
     else tb_find (op_records T) (db_records D) k)"
  using tables(2) [OF db_lawsD(1) [OF assms(1)]]
  by (auto simp: drop_moved_row_def split: option.split)

lemma put_row_ok:
  assumes laws: "db_laws T" and ok: "db_ok T D" and id: "trec_trade_id r \<noteq> 0"
  shows "db_ok T (put_row T r (drop_moved_row T r D))"
    and "db_view T (put_row T r (drop_moved_row T r D)) = (db_view T D)(trec_trade_id r \<mapsto> r)"
proof -
  define E where "E = put_row T r (drop_moved_row T r D)"
  let ?key = "record_key T r" and ?t = "tid_key (trec_trade_id r)"
  note L = db_lawsD [OF laws]
  have tid: "tb_find (op_tid T) (db_tid E) i = (if i = ?t then Some ?key else tb_find (op_tid T) (db_tid D) i)" for i
    by (simp add: E_def put_row_def tables(1) [OF L(3)])
  have rec: "tb_find (op_records T) (db_records E) k = (if k = ?key then Some r
      else if tb_find (op_tid T) (db_tid D) ?t = Some k then None else tb_find (op_records T) (db_records D) k)" for k
    by (simp add: E_def put_row_def tables(1) [OF L(1)] drop_moved_row_find [OF laws ok])
  have other: "trec_trade_id s \<noteq> trec_trade_id r"
    if "tb_find (op_records T) (db_records D) k = Some s" "k \<noteq> ?key" "tb_find (op_tid T) (db_tid D) ?t \<noteq> Some k" for k s
    using db_okD [OF ok that(1)] that(3) by auto
  have bwd: "\<exists>s. tb_find (op_records T) (db_records E) k = Some s \<and> i = tid_key (trec_trade_id s)"
    if "tb_find (op_tid T) (db_tid E) i = Some k" for i k
  proof (cases "i = ?t")
    case True
    then show ?thesis using that by (simp add: tid rec)
  next
    case False
    then have f: "tb_find (op_tid T) (db_tid D) i = Some k" using that by (simp add: tid)
    then obtain s where s: "tb_find (op_records T) (db_records D) k = Some s" "i = tid_key (trec_trade_id s)"
      using ok unfolding db_ok_def by blast
    have "k \<noteq> ?key" using record_key_eq [of T s r] db_okD(2) [OF ok s(1)] s(2) False by auto
    moreover have "tb_find (op_tid T) (db_tid D) ?t \<noteq> Some k"
    proof
      assume "tb_find (op_tid T) (db_tid D) ?t = Some k"
      then obtain s' where "tb_find (op_records T) (db_records D) k = Some s'" "?t = tid_key (trec_trade_id s')"
        using ok unfolding db_ok_def by blast
      then show False using s False by simp
    qed
    ultimately show ?thesis using s by (simp add: rec)
  qed
  have fwd: "trec_trade_id s \<noteq> 0 \<and> k = record_key T s \<and> tb_find (op_tid T) (db_tid E) (tid_key (trec_trade_id s)) = Some k"
    if "tb_find (op_records T) (db_records E) k = Some s" for k s
  proof (cases "k = ?key")
    case True
    then show ?thesis using that id by (simp add: rec tid)
  next
    case False
    then have f: "tb_find (op_records T) (db_records D) k = Some s" "tb_find (op_tid T) (db_tid D) ?t \<noteq> Some k"
      using that by (auto simp: rec split: if_splits)
    then show ?thesis using other [OF f(1) False f(2)] db_okD [OF ok f(1)] by (simp add: tid)
  qed
  show "db_ok T (put_row T r (drop_moved_row T r D))"
    unfolding db_ok_def E_def [symmetric] using bwd fwd by blast
  show "db_view T (put_row T r (drop_moved_row T r D)) = (db_view T D)(trec_trade_id r \<mapsto> r)"
  proof
    fix i
    show "db_view T (put_row T r (drop_moved_row T r D)) i = ((db_view T D)(trec_trade_id r \<mapsto> r)) i"
    proof (cases "i = trec_trade_id r")
      case True
      then show ?thesis by (simp add: db_view_def tid rec flip: E_def)
    next
      case False
      then have "tb_find (op_records T) (db_records E) k = tb_find (op_records T) (db_records D) k"
        if "tb_find (op_tid T) (db_tid D) (tid_key i) = Some k" for k
        using bwd [of "tid_key i" k] that False by (auto simp: tid rec split: if_splits)
      with False show ?thesis by (auto simp: db_view_def tid split: option.splits simp flip: E_def)
    qed
  qed
qed

lemma store_record_refines:
  assumes "db_laws T" and "db_ok T D" and "trec_trade_id r \<noteq> 0"
  shows "db_ok T (store_record T now r D)"
    and "db_view T (store_record T now r D) = (db_view T D)(trec_trade_id r \<mapsto> r)"
    and "db_open (store_record T now r D) = db_open D" "db_read_only (store_record T now r D) = db_read_only D"
proof -
  have s: "same_tables (store_record T now r D) (put_row T r (drop_moved_row T r D))"
    by (simp add: same_tables_def store_record_def)
  show "db_ok T (store_record T now r D)" "db_view T (store_record T now r D) = (db_view T D)(trec_trade_id r \<mapsto> r)"
    unfolding same_tables_ok [OF s] same_tables_view [OF s] using put_row_ok [OF assms] by simp_all
  show "db_open (store_record T now r D) = db_open D" "db_read_only (store_record T now r D) = db_read_only D"
    by (simp_all add: store_record_def put_row_def)
qed

lemma db_erase_refines:
  assumes laws: "db_laws T" and ok: "db_ok T D" and f: "tb_find (op_tid T) (db_tid D) (tid_key i) = Some key"
    and E: "db_records E = tb_erase (op_records T) (db_records D) key" "db_tid E = tb_erase (op_tid T) (db_tid D) (tid_key i)"
  shows "db_ok T E" "db_view T E = (db_view T D)(i := None)"
proof -
  note L = db_lawsD [OF laws]
  obtain r where r: "tb_find (op_records T) (db_records D) key = Some r" "trec_trade_id r = i"
    using db_ok_tid [OF ok f] by blast
  have tid: "tb_find (op_tid T) (db_tid E) j = (if j = tid_key i then None else tb_find (op_tid T) (db_tid D) j)" for j
    by (simp add: E tables(2) [OF L(3)])
  have rec: "tb_find (op_records T) (db_records E) k = (if k = key then None else tb_find (op_records T) (db_records D) k)" for k
    by (simp add: E tables(2) [OF L(1)])
  have uniq: "k \<noteq> key" if "tb_find (op_tid T) (db_tid D) j = Some k" "j \<noteq> tid_key i" for j k
    using ok r that unfolding db_ok_def by (metis option.inject)
  have diff: "trec_trade_id s \<noteq> i" if "tb_find (op_records T) (db_records D) k = Some s" "k \<noteq> key" for k s
    using db_okD(3) [OF ok that(1)] f that(2) by auto
  show "db_ok T E"
    unfolding db_ok_def tid rec using ok uniq diff
    unfolding db_ok_def by (auto split: if_splits)
  show "db_view T E = (db_view T D)(i := None)"
  proof
    fix j show "db_view T E j = ((db_view T D)(i := None)) j"
      using uniq by (auto simp: db_view_def tid rec split: option.splits)
  qed
qed

subsection \<open>The search for a free identifier\<close>

definition reserve_post :: "(u32 \<Rightarrow> bool) \<Rightarrow> u32 option \<Rightarrow> bool" where
  "reserve_post contains res \<longleftrightarrow> (\<exists>c. res = Some c \<and> (if c = 0 then (\<forall>i. i \<noteq> 0 \<longrightarrow> contains i) else \<not> contains c))"

lemma u32_le: "i \<le> j \<longleftrightarrow> unat i \<le> unat j" "i < j \<longleftrightarrow> unat i < unat j" for i j :: u32
  by (simp_all add: word_le_nat_alt word_less_nat_alt)

lemma u32_next: "(c :: u32) + 1 \<noteq> 0 \<Longrightarrow> unat (c + 1) = Suc (unat c)"
  using unatSuc [of c] by (simp add: add.commute)

lemma u32_last: "(c :: u32) + 1 = 0 \<Longrightarrow> i \<le> c"
proof -
  assume "c + 1 = 0"
  then have "c = - 1" by (simp add: eq_neg_iff_add_eq_0)
  then show "i \<le> c" by (simp only: word_n1_ge)
qed

lemma unat_zero: "unat (c :: u32) = 0 \<longleftrightarrow> c = 0"
  by (rule unat_eq_zero)

lemma reserve_wrapped:
  assumes "c \<noteq> 0" "c < start" "\<And>i. i \<noteq> 0 \<Longrightarrow> start \<le> i \<or> i < c \<Longrightarrow> contains i"
  shows "reserve_post contains (reserve_loop contains start c True)"
  using assms
proof (induction "unat start - unat c" arbitrary: c rule: less_induct)
  case less
  have ne: "c + 1 \<noteq> 0"
  proof
    assume "c + 1 = 0"
    with u32_last [of c start] less.prems(2) show False by simp
  qed
  note nx = u32_next [OF ne]
  show ?case
  proof (cases "contains c")
    case False
    then show ?thesis using less.prems(1) by (subst reserve_loop.simps) (simp add: reserve_post_def)
  next
    case True
    show ?thesis
    proof (cases "c + 1 = start")
      case eq: True
      have "contains i" if "i \<noteq> 0" for i
      proof (cases "start \<le> i \<or> i < c")
        case False
        then have "i = c" using nx eq by (simp add: u32_le not_le) (metis le_antisym less_Suc_eq_le not_less unsigned_word_eqI)
        then show ?thesis using True by simp
      qed (use less.prems(3) that in blast)
      then show ?thesis using True less.prems(1) ne eq by (subst reserve_loop.simps) (simp add: reserve_post_def)
    next
      case neq: False
      have lt: "c + 1 < start"
        using less.prems(2) neq nx by (simp add: u32_le) (metis Suc_lessI unsigned_word_eqI)
      have "reserve_post contains (reserve_loop contains start (c + 1) True)"
      proof (rule less.hyps)
        show "unat start - unat (c + 1) < unat start - unat c" using lt nx by (simp add: u32_le)
        show "c + 1 \<noteq> 0" by (rule ne)
        show "c + 1 < start" by (rule lt)
        show "contains i" if "i \<noteq> 0" "start \<le> i \<or> i < c + 1" for i
        proof (cases "i = c")
          case True
          then show ?thesis using \<open>contains c\<close> by simp
        next
          case False
          then have "unat i \<noteq> unat c" by (metis unsigned_word_eqI)
          then have "start \<le> i \<or> i < c" using that(2) nx by (auto simp: u32_le)
          then show ?thesis using less.prems(3) that(1) by blast
        qed
      qed
      then show ?thesis using True less.prems(1) ne neq by (subst reserve_loop.simps) simp
    qed
  qed
qed

lemma reserve_unwrapped:
  assumes "start \<noteq> 0" "start \<le> c" "\<And>i. start \<le> i \<Longrightarrow> i < c \<Longrightarrow> contains i"
  shows "reserve_post contains (reserve_loop contains start c False)"
  using assms
proof (induction "4294967296 - unat c" arbitrary: c rule: less_induct)
  case less
  have c0: "c \<noteq> 0" using less.prems(1,2) by (metis word_le_0_iff)
  show ?case
  proof (cases "contains c")
    case False
    then show ?thesis using c0 by (subst reserve_loop.simps) (simp add: reserve_post_def)
  next
    case True
    show ?thesis
    proof (cases "c + 1 = 0")
      case last: True
      have all: "contains i" if "start \<le> i" for i
      proof (cases "i = c")
        case False
        with u32_last [OF last, of i] have "i < c" by simp
        with less.prems(3) that show ?thesis by blast
      qed (simp add: True)
      show ?thesis
      proof (cases "start = 1")
        case True
        have "contains i" if "i \<noteq> 0" for i
        proof -
          have "1 \<le> i" using that by (simp add: u32_le unat_zero Suc_le_eq unat_gt_0)
          then show ?thesis using all True by simp
        qed
        then show ?thesis using \<open>contains c\<close> c0 last True by (subst reserve_loop.simps) (simp add: reserve_post_def)
      next
        case False
        have "reserve_post contains (reserve_loop contains start 1 True)"
        proof (rule reserve_wrapped)
          show "1 < start" using False less.prems(1) by (simp add: u32_le) (metis One_nat_def Suc_lessI unat_1 unat_gt_0 unsigned_word_eqI)
          show "contains i" if "i \<noteq> 0" "start \<le> i \<or> i < 1" for i
            using that all by (auto simp: u32_le unat_zero)
        qed simp
        then show ?thesis using \<open>contains c\<close> c0 last False by (subst reserve_loop.simps) simp
      qed
    next
      case ne: False
      note nx = u32_next [OF ne]
      have lim: "unat (c + 1) < 4294967296" using unsigned_less [of "c + 1", where 'a = nat] by simp
      have "reserve_post contains (reserve_loop contains start (c + 1) False)"
      proof (rule less.hyps)
        show "4294967296 - unat (c + 1) < 4294967296 - unat c" using lim nx by linarith
        show "start \<le> c + 1" using less.prems(2) nx by (simp add: u32_le)
        show "contains i" if "start \<le> i" "i < c + 1" for i
        proof (cases "i = c")
          case False
          then have "unat i \<noteq> unat c" by (metis unsigned_word_eqI)
          then have "i < c" using that(2) nx by (simp add: u32_le)
          then show ?thesis using less.prems(3) that(1) by blast
        qed (simp add: True)
      qed (rule less.prems(1))
      then show ?thesis using True c0 ne by (subst reserve_loop.simps) simp
    qed
  qed
qed

lemma reserve_search:
  assumes "start \<noteq> 0"
  shows "reserve_post contains (reserve_loop contains start start False)"
  by (rule reserve_unwrapped [OF assms]) auto

lemma reserve_trade_id_post:
  obtains i D' where "reserve_trade_id T D = Some (i, D')"
    "i = 0 \<Longrightarrow> (\<forall>j. j \<noteq> 0 \<longrightarrow> tid_contains T D j) \<and> D' = D"
    "i \<noteq> 0 \<Longrightarrow> \<not> tid_contains T D i" "same_tables D' D" "db_uid D' = db_uid D"
proof -
  define start where "start = (if meta_next_trade_uid (meta_get_or D) = 0 then 1 else meta_next_trade_uid (meta_get_or D))"
  have "start \<noteq> 0" by (simp add: start_def)
  from reserve_search [OF this, of "tid_contains T D"]
  obtain c where c: "reserve_loop (tid_contains T D) start start False = Some c"
    "if c = 0 then (\<forall>i. i \<noteq> 0 \<longrightarrow> tid_contains T D i) else \<not> tid_contains T D c"
    unfolding reserve_post_def by blast
  show thesis
  proof (cases "c = 0")
    case True
    then show thesis using c that [of 0 D]
      by (simp add: reserve_trade_id_def Let_def same_tables_def flip: start_def)
  next
    case False
    then show thesis using c that
      by (simp add: reserve_trade_id_def Let_def same_tables_def flip: start_def)
  qed
qed

lemma tid_contains_view: "db_ok T D \<Longrightarrow> tid_contains T D i \<longleftrightarrow> db_view T D i \<noteq> None"
proof
  assume ok: "db_ok T D" and c: "tid_contains T D i"
  then obtain k where k: "tb_find (op_tid T) (db_tid D) (tid_key i) = Some k" by (auto simp: tid_contains_def)
  obtain r where "tb_find (op_records T) (db_records D) k = Some r" by (rule db_ok_tid [OF ok k])
  with k show "db_view T D i \<noteq> None" by (simp add: db_view_def)
next
  assume "db_view T D i \<noteq> None"
  then show "tid_contains T D i" by (auto simp: tid_contains_def db_view_def split: option.splits)
qed

lemma find_by_trade_id_view:
  "db_open D \<Longrightarrow> i \<noteq> 0 \<Longrightarrow> db_ok T D \<Longrightarrow> find_by_trade_id T i D =
     (case db_view T D i of None \<Rightarrow> read_error ST_NOT_FOUND ''TradeRecord was not found'' | Some r \<Rightarrow> read_success r)"
proof -
  assume a: "db_open D" "i \<noteq> 0" "db_ok T D"
  show ?thesis
  proof (cases "tb_find (op_tid T) (db_tid D) (tid_key i)")
    case (Some k)
    obtain r where "tb_find (op_records T) (db_records D) k = Some r" by (rule db_ok_tid [OF a(3) Some])
    then show ?thesis using a Some by (simp add: find_by_trade_id_def db_view_def)
  qed (use a in \<open>simp add: find_by_trade_id_def db_view_def\<close>)
qed

subsection \<open>Every operation refines an operation on the map\<close>

lemma match_by_uid_same: "same_tables (snd (match_by_uid T r D)) D"
  by (auto simp: match_by_uid_def same_tables_def split: option.split)

lemma same_tables_trans: "same_tables A B \<Longrightarrow> same_tables B C \<Longrightarrow> same_tables A C"
  by (simp add: same_tables_def)

lemma tid_contains_same: "same_tables A B \<Longrightarrow> tid_contains T A = tid_contains T B"
  by (rule ext) (simp add: tid_contains_def same_tables_def)

subsection \<open>What the calls promise\<close>

text \<open>The calls of the writing operations and their answers. The database as two maps: from trades to records, and from
  unique identifiers to the key of a record. The second may be stale: an entry may lead to a record with another unique
  identifier, or to none.\<close>

datatype db_call = DC_WRITE trade_record | DC_UPSERT trade_record | DC_ERASE u32 | DC_CLEAR | DC_RESERVE

text \<open>One call of a writing operation at a time \<open>now\<close>; the state when the search for an identifier did not end
  would be that of before.\<close>

fun db_call_step :: "('r, 'u, 'i) db_ops \<Rightarrow> ('r, 'u, 'i) trade_db \<Rightarrow> int \<times> db_call \<Rightarrow> ('r, 'u, 'i) trade_db" where
  "db_call_step T D (now, DC_WRITE r) = snd (db_write T now r D)"
| "db_call_step T D (now, DC_UPSERT r) = (case db_upsert T now r D of None \<Rightarrow> D | Some (_, D') \<Rightarrow> D')"
| "db_call_step T D (now, DC_ERASE i) = snd (db_erase T now i D)"
| "db_call_step T D (now, DC_CLEAR) = snd (db_clear T now D)"
| "db_call_step T D (now, DC_RESERVE) = (case get_trade_id T now D of None \<Rightarrow> D | Some (_, D') \<Rightarrow> D')"

definition db_ready :: "('r, 'u, 'i) db_ops \<Rightarrow> ('r, 'u, 'i) trade_db \<Rightarrow> bool" where
  "db_ready T D \<longleftrightarrow> db_open D \<and> \<not> db_read_only D \<and> db_ok T D"

lemma db_view_zero: "db_ok T D \<Longrightarrow> db_view T D 0 = None"
  using db_view_id(2) [of T D 0] by (cases "db_view T D 0") auto

type_synonym db_abs = "(u32 \<Rightarrow> trade_record option) \<times> (int \<Rightarrow> u64 option)"

definition db_abs :: "('r, 'u, 'i) db_ops \<Rightarrow> ('r, 'u, 'i) trade_db \<Rightarrow> db_abs" where
  "db_abs T D = (db_view T D, tb_find (op_uid T) (db_uid D))"

datatype db_answer = Wrote storage_status trade_record | Answered storage_status | Reserved u32

fun answer_of :: "('r, 'u, 'i) db_ops \<Rightarrow> ('r, 'u, 'i) trade_db \<Rightarrow> int \<times> db_call \<Rightarrow> db_answer option" where
  "answer_of T D (now, DC_WRITE r) = (let w = fst (db_write T now r D) in Some (Wrote (wr_status w) (wr_record w)))"
| "answer_of T D (now, DC_UPSERT r) = map_option (\<lambda>(w, _). Wrote (wr_status w) (wr_record w)) (db_upsert T now r D)"
| "answer_of T D (now, DC_ERASE i) = Some (Answered (fst (db_erase T now i D)))"
| "answer_of T D (now, DC_CLEAR) = Some (Answered (fst (db_clear T now D)))"
| "answer_of T D (now, DC_RESERVE) = map_option (\<lambda>(i, _). Reserved i) (get_trade_id T now D)"

text \<open>A record is stored under its trade; its unique identifier, if it has one, leads to its key. When the record of
  the trade moves to another key, the unique identifier it had before is forgotten.\<close>

definition stored :: "(trade_record \<Rightarrow> u64) \<Rightarrow> trade_record \<Rightarrow> db_abs \<Rightarrow> db_abs" where
  "stored K r = (\<lambda>(m, x).
     (m(trec_trade_id r \<mapsto> r),
      \<lambda>u. if 0 < trec_unique_id r \<and> u = trec_unique_id r then Some (K r)
          else if \<exists>old. m (trec_trade_id r) = Some old \<and> K old \<noteq> K r \<and> 0 < trec_unique_id old \<and> u = trec_unique_id old
          then None else x u))"

definition holds :: "db_abs \<Rightarrow> trade_record \<Rightarrow> bool" where
  "holds A s \<longleftrightarrow> fst A (trec_trade_id s) = Some s"

definition full :: "db_abs \<Rightarrow> bool" where
  "full A \<longleftrightarrow> (\<forall>j. j \<noteq> 0 \<longrightarrow> fst A j \<noteq> None)"

text \<open>The trade that an upsert without an identifier settles on: the one its unique identifier leads to, else the one
  with the least key of the same broker order, else a free one (0 when there is none).\<close>

definition settles_on :: "(trade_record \<Rightarrow> u64) \<Rightarrow> trade_record \<Rightarrow> db_abs \<Rightarrow> u32 \<Rightarrow> bool" where
  "settles_on K r A i \<longleftrightarrow>
     (if 0 < trec_unique_id r \<and> (\<exists>s. holds A s \<and> snd A (trec_unique_id r) = Some (K s))
      then \<exists>s. holds A s \<and> snd A (trec_unique_id r) = Some (K s) \<and> i = trec_trade_id s
      else if has_broker_identity r \<and> (\<exists>s. holds A s \<and> same_broker_identity r s)
      then \<exists>s. holds A s \<and> same_broker_identity r s \<and> i = trec_trade_id s \<and>
             (\<forall>s'. holds A s' \<and> same_broker_identity r s' \<longrightarrow> K s \<le> K s')
      else if i = 0 then full A else fst A i = None)"

fun db_spec :: "(trade_record \<Rightarrow> u64) \<Rightarrow> db_call \<Rightarrow> db_abs \<Rightarrow> db_answer \<Rightarrow> db_abs \<Rightarrow> bool" where
  "db_spec K (DC_WRITE r) A a B \<longleftrightarrow>
     (if trec_trade_id r = 0 then a = Wrote ST_INVALID_ARGUMENT r \<and> B = A else a = Wrote ST_SUCCESS r \<and> B = stored K r A)"
| "db_spec K (DC_UPSERT r) A a B \<longleftrightarrow>
     (\<exists>i. (if trec_trade_id r \<noteq> 0 then i = trec_trade_id r else settles_on K r A i) \<and>
        (if i = 0 then a = Wrote ST_DB_ERROR r \<and> B = A
         else a = Wrote ST_SUCCESS (r\<lparr>trec_trade_id := i\<rparr>) \<and> B = stored K (r\<lparr>trec_trade_id := i\<rparr>) A))"
| "db_spec K (DC_ERASE i) A a B \<longleftrightarrow>
     (case fst A i of
        None \<Rightarrow> a = Answered (if i = 0 then ST_INVALID_ARGUMENT else ST_NOT_FOUND) \<and> B = A
      | Some r \<Rightarrow> a = Answered ST_SUCCESS \<and> B = ((fst A)(i := None),
          if 0 < trec_unique_id r then (snd A)(trec_unique_id r := None) else snd A))"
| "db_spec K DC_CLEAR A a B \<longleftrightarrow> a = Answered ST_SUCCESS \<and> B = (Map.empty, Map.empty)"
| "db_spec K DC_RESERVE A a B \<longleftrightarrow> B = A \<and> (\<exists>j. a = Reserved j \<and> (if j = 0 then full A else fst A j = None))"

text \<open>The index by unique identifier is exact: an entry for exactly the stored records that have one.\<close>

definition uid_exact :: "(trade_record \<Rightarrow> u64) \<Rightarrow> db_abs \<Rightarrow> bool" where
  "uid_exact K A \<longleftrightarrow> (\<forall>u k. snd A u = Some k \<longleftrightarrow> 0 < u \<and> (\<exists>s. holds A s \<and> trec_unique_id s = u \<and> K s = k))"

text \<open>What was written did not take the unique identifier of another trade, nor change that of its own.\<close>

definition keeps_uids :: "db_abs \<Rightarrow> db_answer \<Rightarrow> bool" where
  "keeps_uids A a \<longleftrightarrow> (\<forall>r s. a = Wrote ST_SUCCESS r \<and> holds A s \<and> 0 < trec_unique_id s \<longrightarrow>
     (trec_unique_id s = trec_unique_id r \<longleftrightarrow> trec_trade_id s = trec_trade_id r))"

subsection \<open>Every operation refines an operation on the maps\<close>

lemma drop_moved_uid:
  assumes laws: "db_laws T" and ok: "db_ok T D"
  shows "tb_find (op_uid T) (db_uid (drop_moved_row T r D)) u =
    (if \<exists>old. db_view T D (trec_trade_id r) = Some old \<and> record_key T old \<noteq> record_key T r \<and> 0 < trec_unique_id old
        \<and> trec_unique_id old \<noteq> trec_unique_id r \<and> u = trec_unique_id old
     then None else tb_find (op_uid T) (db_uid D) u)"
proof (cases "tb_find (op_tid T) (db_tid D) (tid_key (trec_trade_id r))")
  case None
  then show ?thesis by (simp add: drop_moved_row_def db_view_def)
next
  case (Some k)
  obtain s where s: "tb_find (op_records T) (db_records D) k = Some s" "k = record_key T s"
    by (rule db_ok_tid [OF ok Some])
  have "db_view T D (trec_trade_id r) = Some s" using Some s(1) by (simp add: db_view_def)
  then show ?thesis using Some s tables(2) [OF db_lawsD(2) [OF laws]] by (auto simp: drop_moved_row_def)
qed

lemma store_abs:
  assumes laws: "db_laws T" and ok: "db_ok T D" and id: "trec_trade_id r \<noteq> 0"
  shows "db_abs T (store_record T now r D) = stored (record_key T) r (db_abs T D)"
proof -
  have u: "tb_find (op_uid T) (db_uid (store_record T now r D)) v =
    (if 0 < trec_unique_id r \<and> v = trec_unique_id r then Some (record_key T r)
     else tb_find (op_uid T) (db_uid (drop_moved_row T r D)) v)" for v
    by (simp add: store_record_def put_row_def tables(1) [OF db_lawsD(2) [OF laws]])
  have "tb_find (op_uid T) (db_uid (store_record T now r D)) = snd (stored (record_key T) r (db_abs T D))"
    by (rule ext) (auto simp: u drop_moved_uid [OF laws ok] stored_def db_abs_def)
  then show ?thesis using store_record_refines(2) [OF laws ok id, of now]
    by (simp add: db_abs_def stored_def)
qed


lemma find_least:
  assumes "sorted (map fst rows)" and "List.find P rows = Some row"
  shows "row \<in> set rows \<and> P row \<and> (\<forall>q\<in>set rows. P q \<longrightarrow> fst row \<le> fst q)"
  using assms
proof (induction rows)
  case (Cons a rows)
  then show ?case by (cases "P a") auto
qed simp

lemma find_none: "List.find P rows = None \<Longrightarrow> q \<in> set rows \<Longrightarrow> \<not> P q"
  by (induction rows) (auto split: if_splits)

lemma holds_row:
  assumes "db_ok T D"
  shows "tb_find (op_records T) (db_records D) k = Some s \<longleftrightarrow> holds (db_abs T D) s \<and> k = record_key T s"
  using db_view_iff [OF assms] by (auto simp: holds_def db_abs_def)

lemma holds_id: "db_ok T D \<Longrightarrow> holds (db_abs T D) s \<Longrightarrow> trec_trade_id s \<noteq> 0"
  using db_view_id(2) by (auto simp: holds_def db_abs_def)

lemma full_contains: "db_ok T D \<Longrightarrow> full (db_abs T D) \<longleftrightarrow> (\<forall>j. j \<noteq> 0 \<longrightarrow> tid_contains T D j)"
  by (simp add: full_def db_abs_def tid_contains_view)

lemma broker_key_least:
  assumes laws: "db_laws T" and ok: "db_ok T D"
  shows "find_broker_identity_key T r D = 0 \<longleftrightarrow> \<not> (\<exists>s. holds (db_abs T D) s \<and> same_broker_identity r s)"
    and "find_broker_identity_key T r D \<noteq> 0 \<Longrightarrow> \<exists>s. holds (db_abs T D) s \<and> same_broker_identity r s \<and>
      find_broker_identity_key T r D = trec_trade_id s \<and>
      (\<forall>s'. holds (db_abs T D) s' \<and> same_broker_identity r s' \<longrightarrow> record_key T s \<le> record_key T s')"
proof -
  note L = db_lawsD(1) [OF laws]
  let ?rows = "tb_rows (op_records T) (db_records D)"
  have srt: "sorted (map fst ?rows)" using L unfolding table_laws_def by blast
  have row: "(k, s) \<in> set ?rows \<longleftrightarrow> holds (db_abs T D) s \<and> k = record_key T s" for k s
    by (simp only: tb_rows_find [OF L] holds_row [OF ok])
  have "(if \<exists>s. holds (db_abs T D) s \<and> same_broker_identity r s
    then \<exists>s. holds (db_abs T D) s \<and> same_broker_identity r s \<and> find_broker_identity_key T r D = trec_trade_id s \<and>
      (\<forall>s'. holds (db_abs T D) s' \<and> same_broker_identity r s' \<longrightarrow> record_key T s \<le> record_key T s')
    else find_broker_identity_key T r D = 0)"
  proof (cases "List.find (\<lambda>row. same_broker_identity r (snd row)) ?rows")
    case None
    have n: "\<not> (\<exists>s. holds (db_abs T D) s \<and> same_broker_identity r s)"
      using find_none [OF None] row by fastforce
    show ?thesis unfolding if_not_P [OF n] using None by (simp add: find_broker_identity_key_def)
  next
    case (Some q)
    obtain k s where q: "q = (k, s)" by (cases q)
    from find_least [OF srt Some] have f: "holds (db_abs T D) s" "k = record_key T s" "same_broker_identity r s"
      "\<forall>p\<in>set ?rows. same_broker_identity r (snd p) \<longrightarrow> k \<le> fst p"
      by (auto simp: q row)
    have "record_key T s \<le> record_key T s'" if "holds (db_abs T D) s'" "same_broker_identity r s'" for s'
      using f(2,4) that row [of "record_key T s'" s'] by fastforce
    moreover have y: "\<exists>s. holds (db_abs T D) s \<and> same_broker_identity r s" using f(1,3) by blast
    moreover have "find_broker_identity_key T r D = trec_trade_id s" using Some q by (simp add: find_broker_identity_key_def)
    ultimately show ?thesis unfolding if_P [OF y] using f(1,3) by blast
  qed
  then show "find_broker_identity_key T r D = 0 \<longleftrightarrow> \<not> (\<exists>s. holds (db_abs T D) s \<and> same_broker_identity r s)"
    and "find_broker_identity_key T r D \<noteq> 0 \<Longrightarrow> \<exists>s. holds (db_abs T D) s \<and> same_broker_identity r s \<and>
      find_broker_identity_key T r D = trec_trade_id s \<and>
      (\<forall>s'. holds (db_abs T D) s' \<and> same_broker_identity r s' \<longrightarrow> record_key T s \<le> record_key T s')"
    using holds_id [OF ok] by (auto split: if_splits)
qed

text \<open>The lookup by unique identifier, and what it leaves of the index.\<close>

lemma match_by_uid_abs:
  assumes laws: "db_laws T" and ok: "db_ok T D" and z: "trec_trade_id r = 0"
  shows "if 0 < trec_unique_id r \<and> (\<exists>s. holds (db_abs T D) s \<and> snd (db_abs T D) (trec_unique_id r) = Some (record_key T s))
    then \<exists>s. holds (db_abs T D) s \<and> snd (db_abs T D) (trec_unique_id r) = Some (record_key T s) \<and>
       match_by_uid T r D = (trec_trade_id s, D)
    else fst (match_by_uid T r D) = 0"
    and "u \<noteq> trec_unique_id r \<or> \<not> 0 < trec_unique_id r \<Longrightarrow>
      tb_find (op_uid T) (db_uid (snd (match_by_uid T r D))) u = tb_find (op_uid T) (db_uid D) u"
proof -
  have sx: "snd (db_abs T D) = tb_find (op_uid T) (db_uid D)" by (simp add: db_abs_def)
  have there: "holds (db_abs T D) s \<Longrightarrow> tb_find (op_records T) (db_records D) (record_key T s) = Some s" for s
    using holds_row [OF ok] by simp
  have row: "tb_find (op_records T) (db_records D) k = Some s \<Longrightarrow> holds (db_abs T D) s \<and> k = record_key T s" for k s
    using holds_row [OF ok] by simp
  show "if 0 < trec_unique_id r \<and> (\<exists>s. holds (db_abs T D) s \<and> snd (db_abs T D) (trec_unique_id r) = Some (record_key T s))
    then \<exists>s. holds (db_abs T D) s \<and> snd (db_abs T D) (trec_unique_id r) = Some (record_key T s) \<and>
       match_by_uid T r D = (trec_trade_id s, D)
    else fst (match_by_uid T r D) = 0"
  proof (cases "0 < trec_unique_id r \<and> (\<exists>s. holds (db_abs T D) s \<and> snd (db_abs T D) (trec_unique_id r) = Some (record_key T s))")
    case True
    then obtain s where s: "holds (db_abs T D) s" "snd (db_abs T D) (trec_unique_id r) = Some (record_key T s)" by blast
    have "match_by_uid T r D = (trec_trade_id s, D)"
      using True z s(2) there [OF s(1)] by (simp add: match_by_uid_def sx)
    with s True show ?thesis by auto
  next
    case False
    have "fst (match_by_uid T r D) = 0"
      using False z row by (force simp: match_by_uid_def sx split: option.splits)
    then show ?thesis unfolding if_not_P [OF False] .
  qed
  show "u \<noteq> trec_unique_id r \<or> \<not> 0 < trec_unique_id r \<Longrightarrow>
      tb_find (op_uid T) (db_uid (snd (match_by_uid T r D))) u = tb_find (op_uid T) (db_uid D) u"
    using tables(2) [OF db_lawsD(2) [OF laws]] by (auto simp: match_by_uid_def split: option.splits)
qed

lemma reserve_uid: "reserve_trade_id T D = Some (i, E) \<Longrightarrow> db_uid E = db_uid D"
  using reserve_trade_id_post [of T D] by (metis option.inject prod.inject)

lemma upsert_id_settles:
  assumes laws: "db_laws T" and ok: "db_ok T D" and z: "trec_trade_id r = 0"
  obtains i D1 where "upsert_id T r D = Some (i, D1)" "same_tables D1 D" "settles_on (record_key T) r (db_abs T D) i"
    "\<And>u. u \<noteq> trec_unique_id r \<or> \<not> 0 < trec_unique_id r \<Longrightarrow> tb_find (op_uid T) (db_uid D1) u = tb_find (op_uid T) (db_uid D) u"
proof -
  let ?A = "db_abs T D" and ?K = "record_key T"
  obtain j E where m: "match_by_uid T r D = (j, E)" by (cases "match_by_uid T r D")
  have E: "same_tables E D" using match_by_uid_same [of T r D] m by simp
  have okE: "db_ok T E" using same_tables_ok [OF E] ok by simp
  have hE: "holds (db_abs T E) s = holds ?A s" "full (db_abs T E) = full ?A" for s
    using same_tables_view [OF E, of T] by (simp_all add: holds_def full_def db_abs_def)
  have x: "u \<noteq> trec_unique_id r \<or> \<not> 0 < trec_unique_id r \<Longrightarrow> tb_find (op_uid T) (db_uid E) u = tb_find (op_uid T) (db_uid D) u" for u
    using match_by_uid_abs(2) [OF laws ok z, of u] m by simp
  define i where "i = (if j = 0 \<and> has_broker_identity r then find_broker_identity_key T r E else j)"
  have u: "upsert_id T r D = (if i = 0 then reserve_trade_id T E else Some (i, E))"
    by (simp add: upsert_id_def m i_def Let_def)
  show thesis
  proof (cases "0 < trec_unique_id r \<and> (\<exists>s. holds ?A s \<and> snd ?A (trec_unique_id r) = Some (?K s))")
    case True
    then obtain s where s: "holds ?A s" "snd ?A (trec_unique_id r) = Some (?K s)" "j = trec_trade_id s"
      using match_by_uid_abs(1) [OF laws ok z] m by auto
    then have "i = trec_trade_id s" "i \<noteq> 0" using holds_id [OF ok s(1)] by (simp_all add: i_def)
    moreover have "settles_on ?K r ?A (trec_trade_id s)" unfolding settles_on_def if_P [OF True] using s(1,2) by blast
    ultimately show thesis using that [of i E] u E x by simp
  next
    case nohit: False
    have j: "j = 0" using match_by_uid_abs(1) [OF laws ok z] m unfolding if_not_P [OF nohit] by simp
    show thesis
    proof (cases "has_broker_identity r \<and> (\<exists>s. holds ?A s \<and> same_broker_identity r s)")
      case True
      then have nz: "find_broker_identity_key T r E \<noteq> 0" using broker_key_least(1) [OF laws okE] hE by auto
      with True j have i: "i = find_broker_identity_key T r E" "i \<noteq> 0" by (simp_all add: i_def)
      have "settles_on ?K r ?A i"
        unfolding settles_on_def if_not_P [OF nohit] if_P [OF True] i(1)
        using broker_key_least(2) [OF laws okE nz] unfolding hE .
      then show thesis using that [of i E] u i(2) E x by simp
    next
      case False
      have i: "i = 0" using False j broker_key_least(1) [OF laws okE, of r] hE by (auto simp: i_def)
      obtain c D' where c: "reserve_trade_id T E = Some (c, D')" "same_tables D' E" "db_uid D' = db_uid E"
        "c = 0 \<Longrightarrow> (\<forall>j. j \<noteq> 0 \<longrightarrow> tid_contains T E j)" "c \<noteq> 0 \<Longrightarrow> \<not> tid_contains T E c"
        using reserve_trade_id_post [of T E] by metis
      have "settles_on ?K r ?A c"
        unfolding settles_on_def if_not_P [OF nohit] if_not_P [OF False]
        using c(4,5) full_contains [OF okE] hE tid_contains_view [OF okE, of c] same_tables_view [OF E, of T] by (simp add: db_abs_def)
      then show thesis using that [of c D'] u i c(1,3) same_tables_trans [OF c(2) E] x by simp
    qed
  qed
qed


text \<open>The tables after an upsert are those of a store under the identifier it settled on.\<close>

lemma store_after_match:
  assumes laws: "db_laws T" and ok: "db_ok T D" and s: "same_tables D1 D" and id: "trec_trade_id r \<noteq> 0"
    and x: "\<And>u. u \<noteq> trec_unique_id r \<or> \<not> 0 < trec_unique_id r \<Longrightarrow> tb_find (op_uid T) (db_uid D1) u = tb_find (op_uid T) (db_uid D) u"
  shows "db_abs T (store_record T now r D1) = stored (record_key T) r (db_abs T D)"
proof -
  have ok1: "db_ok T D1" using same_tables_ok [OF s] ok by simp
  have v: "db_view T D1 = db_view T D" by (rule same_tables_view [OF s])
  show ?thesis unfolding store_abs [OF laws ok1 id]
    by (auto simp: stored_def db_abs_def v x fun_eq_iff)
qed

lemma upsert_refines:
  assumes laws: "db_laws T" and ok: "db_ok T D" and w: "db_open D" "\<not> db_read_only D"
  shows "\<exists>a. answer_of T D (now, DC_UPSERT r) = Some a \<and> db_ready T (db_call_step T D (now, DC_UPSERT r)) \<and>
    db_spec (record_key T) (DC_UPSERT r) (db_abs T D) a (db_abs T (db_call_step T D (now, DC_UPSERT r)))"
proof -
  obtain i D1 where u: "upsert_id T r D = Some (i, D1)" "same_tables D1 D"
      "if trec_trade_id r \<noteq> 0 then i = trec_trade_id r else settles_on (record_key T) r (db_abs T D) i"
    and x: "\<And>u. u \<noteq> trec_unique_id r \<or> \<not> 0 < trec_unique_id r \<Longrightarrow> tb_find (op_uid T) (db_uid D1) u = tb_find (op_uid T) (db_uid D) u"
  proof (cases "trec_trade_id r = 0")
    case True
    obtain i D1 where "upsert_id T r D = Some (i, D1)" "same_tables D1 D" "settles_on (record_key T) r (db_abs T D) i"
      "\<And>u. u \<noteq> trec_unique_id r \<or> \<not> 0 < trec_unique_id r \<Longrightarrow> tb_find (op_uid T) (db_uid D1) u = tb_find (op_uid T) (db_uid D) u"
      by (rule upsert_id_settles [OF laws ok True]) blast
    with True show thesis by (intro that [of i D1]) auto
  next
    case False
    then have "upsert_id T r D = Some (trec_trade_id r, D)" by (simp add: upsert_id_def match_by_uid_def)
    with False show thesis by (intro that [of "trec_trade_id r" D]) (simp_all add: same_tables_def)
  qed
  show ?thesis
  proof (cases "i = 0")
    case True
    have "db_upsert T now r D = Some (write_error ST_DB_ERROR r ''TradeRecordDB could not reserve a trade_id'', D)"
      using True u(1) w by (simp add: db_upsert_def)
    moreover have "trec_trade_id r = 0" "settles_on (record_key T) r (db_abs T D) 0" using u(3) True by (simp_all split: if_splits)
    ultimately show ?thesis using w ok by (auto simp: write_error_def db_ready_def)
  next
    case False
    let ?r = "r\<lparr>trec_trade_id := i\<rparr>"
    have "db_upsert T now r D = Some (write_success ?r, store_record T now ?r D1)"
      using u(1) False w by (simp add: db_upsert_def)
    moreover have "db_abs T (store_record T now ?r D1) = stored (record_key T) ?r (db_abs T D)"
      by (rule store_after_match [OF laws ok u(2)]) (use False x in simp_all)
    moreover have "db_ok T D1" using same_tables_ok [OF u(2)] ok by simp
    then have "db_ready T (store_record T now ?r D1)"
      using store_record_refines [OF laws, of D1 ?r now] False u(2) w by (simp add: db_ready_def same_tables_def)
    ultimately have "answer_of T D (now, DC_UPSERT r) = Some (Wrote ST_SUCCESS ?r)" "db_ready T (db_call_step T D (now, DC_UPSERT r))"
      and e: "db_abs T (db_call_step T D (now, DC_UPSERT r)) = stored (record_key T) ?r (db_abs T D)"
      by (simp_all add: write_success_def)
    moreover have "db_spec (record_key T) (DC_UPSERT r) (db_abs T D) (Wrote ST_SUCCESS ?r) (db_abs T (db_call_step T D (now, DC_UPSERT r)))"
      unfolding db_spec.simps(2) e using u(3) False by (intro exI [of _ i] conjI) (simp_all only: if_False simp_thms)
    ultimately show ?thesis by blast
  qed
qed

lemma call_refines:
  assumes laws: "db_laws T" and rdy: "db_ready T D"
  shows "\<exists>a. answer_of T D (now, c) = Some a \<and> db_ready T (db_call_step T D (now, c)) \<and>
    db_spec (record_key T) c (db_abs T D) a (db_abs T (db_call_step T D (now, c)))"
proof -
  have w: "db_open D" "\<not> db_read_only D" and ok: "db_ok T D" using rdy by (simp_all add: db_ready_def)
  show ?thesis
  proof (cases c)
    case (DC_WRITE r)
    show ?thesis
    proof (cases "trec_trade_id r = 0")
      case True
      then show ?thesis using DC_WRITE rdy w by (simp add: db_write_def write_error_def)
    next
      case False
      with DC_WRITE w show ?thesis using store_record_refines [OF laws ok False, of now] store_abs [OF laws ok False, of now]
        by (simp add: db_write_def db_ready_def write_success_def)
    qed
  next
    case (DC_UPSERT r)
    then show ?thesis using upsert_refines [OF laws ok w] by simp
  next
    case (DC_ERASE i)
    have v: "fst (db_abs T D) i = db_view T D i" by (simp add: db_abs_def)
    show ?thesis
    proof (cases "i = 0 \<or> tb_find (op_tid T) (db_tid D) (tid_key i) = None")
      case True
      then have "db_erase T now i D = (if i = 0 then ST_INVALID_ARGUMENT else ST_NOT_FOUND, D)" using w by (auto simp: db_erase_def)
      moreover have "db_view T D i = None" using True db_view_zero [OF ok] by (auto simp: db_view_def)
      ultimately show ?thesis using DC_ERASE rdy v by (simp split: if_splits)
    next
      case False
      then obtain k where k: "tb_find (op_tid T) (db_tid D) (tid_key i) = Some k" and i: "i \<noteq> 0" by auto
      obtain r where r: "tb_find (op_records T) (db_records D) k = Some r" by (rule db_ok_tid [OF ok k])
      have vr: "db_view T D i = Some r" using k r by (simp add: db_view_def)
      let ?E = "snd (db_erase T now i D)"
      have e: "db_records ?E = tb_erase (op_records T) (db_records D) k"
        "db_tid ?E = tb_erase (op_tid T) (db_tid D) (tid_key i)" "db_open ?E" "\<not> db_read_only ?E"
        "fst (db_erase T now i D) = ST_SUCCESS"
        "db_uid ?E = (if 0 < trec_unique_id r then tb_erase (op_uid T) (db_uid D) (trec_unique_id r) else db_uid D)"
        using w k i r by (simp_all add: db_erase_def)
      note er = db_erase_refines [OF laws ok k e(1,2)]
      have "db_abs T ?E = ((db_view T D)(i := None),
          if 0 < trec_unique_id r then (tb_find (op_uid T) (db_uid D))(trec_unique_id r := None) else tb_find (op_uid T) (db_uid D))"
        using tables(2) [OF db_lawsD(2) [OF laws]] by (simp add: db_abs_def er(2) e(6) fun_eq_iff)
      moreover have "fst (db_abs T D) i = Some r" "fst (db_abs T D) = db_view T D" "snd (db_abs T D) = tb_find (op_uid T) (db_uid D)"
        using vr by (simp_all add: db_abs_def)
      ultimately have "db_spec (record_key T) (DC_ERASE i) (db_abs T D) (Answered ST_SUCCESS) (db_abs T ?E)" by simp
      then show ?thesis using er(1) e(3-5) DC_ERASE by (simp add: db_ready_def)
    qed
  next
    case DC_CLEAR
    note L = tables(3) [OF db_lawsD(1) [OF laws]] tables(3) [OF db_lawsD(2) [OF laws]] tables(3) [OF db_lawsD(3) [OF laws]]
    have "db_ok T (snd (db_clear T now D))" "db_abs T (snd (db_clear T now D)) = (Map.empty, Map.empty)"
      using w L by (auto simp: db_clear_def db_ok_def db_view_def db_abs_def)
    then show ?thesis using DC_CLEAR w by (simp add: db_ready_def db_clear_def)
  next
    case DC_RESERVE
    obtain i D' where r: "reserve_trade_id T D = Some (i, D')" "same_tables D' D" "db_uid D' = db_uid D"
      "i = 0 \<Longrightarrow> (\<forall>j. j \<noteq> 0 \<longrightarrow> tid_contains T D j) \<and> D' = D" "i \<noteq> 0 \<Longrightarrow> \<not> tid_contains T D i"
      using reserve_trade_id_post [of T D] by metis
    then obtain E where e: "get_trade_id T now D = Some (i, E)" "same_tables E D" "db_uid E = db_uid D"
      using w by (cases "i = 0") (simp_all add: get_trade_id_def same_tables_def)
    have "if i = 0 then full (db_abs T D) else fst (db_abs T D) i = None"
      using r(4,5) full_contains [OF ok] tid_contains_view [OF ok, of i] by (auto simp: db_abs_def)
    moreover have "db_abs T E = db_abs T D" using same_tables_view [OF e(2), of T] e(3) by (simp add: db_abs_def)
    ultimately show ?thesis
      using DC_RESERVE rdy e(1) same_tables_ok [OF e(2), of T] e(2) by (simp add: db_ready_def same_tables_def)
  qed
qed

interpretation db_machine: machine "db_call_step T" "\<lambda>_. True" "\<lambda>D. db_laws T \<longrightarrow> db_ready T D" for T
proof
  fix D e assume "db_laws T \<longrightarrow> db_ready T D"
  then show "db_laws T \<longrightarrow> db_ready T (db_call_step T D e)"
    using call_refines [of T D "fst e" "snd e"] by (cases e) auto
qed

subsection \<open>When the index by unique identifier is exact\<close>

lemma uid_exact_stored:
  assumes x: "uid_exact K A" and k: "keeps_uids A (Wrote ST_SUCCESS r)" and wf: "\<And>i s. fst A i = Some s \<Longrightarrow> trec_trade_id s = i"
  shows "uid_exact K (stored K r A)"
proof -
  obtain m y where A: "A = (m, y)" by (cases A)
  have same: "holds A s \<Longrightarrow> 0 < trec_unique_id s \<Longrightarrow> trec_unique_id s = trec_unique_id r \<longleftrightarrow> trec_trade_id s = trec_trade_id r" for s
    using k by (simp add: keeps_uids_def)
  have h: "holds (stored K r A) s \<longleftrightarrow> s = r \<or> trec_trade_id s \<noteq> trec_trade_id r \<and> holds A s" for s
    by (auto simp: holds_def stored_def A)
  have y: "y u = Some k \<longleftrightarrow> 0 < u \<and> (\<exists>s. holds A s \<and> trec_unique_id s = u \<and> K s = k)" for u k
    using x by (simp add: uid_exact_def A)
  show ?thesis
    unfolding uid_exact_def
  proof (intro allI)
    fix u k
    let ?y = "snd (stored K r A)"
    show "?y u = Some k \<longleftrightarrow> 0 < u \<and> (\<exists>s. holds (stored K r A) s \<and> trec_unique_id s = u \<and> K s = k)"
    proof (cases "0 < trec_unique_id r \<and> u = trec_unique_id r")
      case True
      then have "?y u = Some (K r)" by (simp add: stored_def A)
      moreover have "holds (stored K r A) s \<and> trec_unique_id s = u \<longleftrightarrow> s = r" for s
        using True same [of s] by (auto simp: h)
      ultimately show ?thesis using True by (metis option.inject)
    next
      case False
      have old: "\<not> (\<exists>old. m (trec_trade_id r) = Some old \<and> 0 < trec_unique_id old \<and> u = trec_unique_id old)"
      proof
        assume "\<exists>old. m (trec_trade_id r) = Some old \<and> 0 < trec_unique_id old \<and> u = trec_unique_id old"
        then obtain s where s: "m (trec_trade_id r) = Some s" "0 < trec_unique_id s" "u = trec_unique_id s" by blast
        with wf have i: "trec_trade_id s = trec_trade_id r" by (simp add: A)
        then have "holds A s" using s(1) by (simp add: holds_def A)
        from same [OF this s(2)] i s(2,3) False show False by simp
      qed
      have e: "?y u = y u" using False old by (auto simp: stored_def A)
      have g: "holds (stored K r A) s \<and> trec_unique_id s = u \<longleftrightarrow> holds A s \<and> trec_unique_id s = u" if "0 < u" for s
        using False same [of s] that by (auto simp: h)
      then show ?thesis unfolding e y by blast
    qed
  qed
qed

lemma uid_exact_erased:
  assumes x: "uid_exact K (m, y)" and r: "m i = Some r" and wf: "\<And>i s. m i = Some s \<Longrightarrow> trec_trade_id s = i"
    and inj: "\<And>s t. K s = K t \<Longrightarrow> trec_trade_id s = trec_trade_id t"
  shows "uid_exact K (m(i := None), if 0 < trec_unique_id r then y(trec_unique_id r := None) else y)"
proof -
  have i: "trec_trade_id r = i" and hr: "holds (m, y) r" using wf [OF r] r by (simp_all add: holds_def)
  have y: "y u = Some k \<longleftrightarrow> 0 < u \<and> (\<exists>s. holds (m, y) s \<and> trec_unique_id s = u \<and> K s = k)" for u k
    using x by (simp add: uid_exact_def)
  have h: "holds (m(i := None), z) s \<longleftrightarrow> trec_trade_id s \<noteq> i \<and> holds (m, y) s" for s z
    by (auto simp: holds_def)
  have alone: "trec_trade_id s = i" if "holds (m, y) s" "trec_unique_id s = trec_unique_id r" "0 < trec_unique_id r" for s
  proof -
    have "y (trec_unique_id r) = Some (K s)" unfolding y using that by blast
    moreover have "y (trec_unique_id r) = Some (K r)" unfolding y using that(3) hr by blast
    ultimately have "K s = K r" by simp
    then show ?thesis using inj [of s r] i by simp
  qed
  have only: "s = r" if "holds (m, y) s" "trec_trade_id s = i" for s using that r by (simp add: holds_def)
  show ?thesis
    unfolding uid_exact_def snd_conv h
  proof (intro allI)
    fix u k
    show "(if 0 < trec_unique_id r then y(trec_unique_id r := None) else y) u = Some k \<longleftrightarrow>
        0 < u \<and> (\<exists>s. (trec_trade_id s \<noteq> i \<and> holds (m, y) s) \<and> trec_unique_id s = u \<and> K s = k)"
    proof (cases "u = trec_unique_id r")
      case True
      have "\<not> (\<exists>s. (trec_trade_id s \<noteq> i \<and> holds (m, y) s) \<and> trec_unique_id s = u \<and> K s = k)" if "0 < u"
      proof
        assume "\<exists>s. (trec_trade_id s \<noteq> i \<and> holds (m, y) s) \<and> trec_unique_id s = u \<and> K s = k"
        then obtain s where s: "trec_trade_id s \<noteq> i" "holds (m, y) s" "trec_unique_id s = u" by blast
        from s(1) show False by (rule notE) (rule alone [OF s(2)], use s(3) True that in simp_all)
      qed
      moreover have "(if 0 < trec_unique_id r then y(trec_unique_id r := None) else y) u \<noteq> Some k"
      proof (cases "0 < trec_unique_id r")
        case False
        then have "\<not> 0 < u" using True by simp
        then have "y u \<noteq> Some k" unfolding y by blast
        with False show ?thesis by (simp only: if_False not_False_eq_True)
      qed (simp add: True)
      ultimately show ?thesis by (simp only: simp_thms) blast
    next
      case False
      have e: "(if 0 < trec_unique_id r then y(trec_unique_id r := None) else y) u = y u" using False by simp
      have "holds (m, y) s \<and> trec_unique_id s = u \<Longrightarrow> trec_trade_id s \<noteq> i" for s using only [of s] False by blast
      then show ?thesis unfolding e y by blast
    qed
  qed
qed

lemma uid_exact_call:
  assumes spec: "db_spec K c A a B" and x: "uid_exact K A" and k: "keeps_uids A a"
    and wf: "\<And>i s. fst A i = Some s \<Longrightarrow> trec_trade_id s = i"
    and inj: "\<And>s t. K s = K t \<Longrightarrow> trec_trade_id s = trec_trade_id t"
  shows "uid_exact K B"
proof (cases c)
  case (DC_WRITE r)
  show ?thesis
  proof (cases "trec_trade_id r = 0")
    case True
    then show ?thesis using DC_WRITE spec x by simp
  next
    case False
    then have "a = Wrote ST_SUCCESS r" "B = stored K r A" using DC_WRITE spec by simp_all
    then show ?thesis using uid_exact_stored [OF x _ wf, of r] k by blast
  qed
next
  case (DC_UPSERT r)
  then obtain i where "if i = 0 then a = Wrote ST_DB_ERROR r \<and> B = A
      else a = Wrote ST_SUCCESS (r\<lparr>trec_trade_id := i\<rparr>) \<and> B = stored K (r\<lparr>trec_trade_id := i\<rparr>) A"
    using spec by (simp only: db_spec.simps) blast
  then consider "B = A" | "a = Wrote ST_SUCCESS (r\<lparr>trec_trade_id := i\<rparr>)" "B = stored K (r\<lparr>trec_trade_id := i\<rparr>) A"
    by (metis (full_types))
  then show ?thesis
  proof cases
    case 2
    then show ?thesis using uid_exact_stored [OF x _ wf, of "r\<lparr>trec_trade_id := i\<rparr>"] k by blast
  qed (use x in simp)
next
  case (DC_ERASE i)
  obtain m y where A: "A = (m, y)" by (cases A)
  show ?thesis
  proof (cases "m i")
    case None
    then show ?thesis using DC_ERASE spec x by (simp add: A)
  next
    case (Some r)
    then have "B = (m(i := None), if 0 < trec_unique_id r then y(trec_unique_id r := None) else y)"
      using DC_ERASE spec by (simp add: A)
    moreover have "m j = Some s \<Longrightarrow> trec_trade_id s = j" for j s using wf by (simp add: A)
    ultimately show ?thesis using uid_exact_erased [OF x [unfolded A] Some _ inj] by blast
  qed
next
  case DC_CLEAR
  then show ?thesis using spec by (simp add: uid_exact_def holds_def)
next
  case DC_RESERVE
  then show ?thesis using spec x by simp
qed

subsection \<open>The range query finds every record of the range\<close>

lemma rows_between_set:
  assumes "table_laws R"
  shows "x \<in> set (rows_between R t lo hi) \<longleftrightarrow> (\<exists>k. tb_find R t k = Some x \<and> lo \<le> k \<and> k \<le> hi)"
  using tb_rows_find [OF assms] by (force simp: rows_between_def image_iff)

lemma rows_between_distinct:
  assumes laws: "db_laws T" and ok: "db_ok T D"
  shows "distinct (rows_between (op_records T) (db_records D) lo hi)"
proof -
  note L = db_lawsD(1) [OF laws]
  have d: "distinct (tb_rows (op_records T) (db_records D))"
    using tb_rows_distinct [OF L] distinct_map by blast
  have "inj_on snd (set (tb_rows (op_records T) (db_records D)))"
  proof (rule inj_onI)
    fix x y assume xy: "x \<in> set (tb_rows (op_records T) (db_records D))" "y \<in> set (tb_rows (op_records T) (db_records D))" "snd x = snd y"
    then have "tb_find (op_records T) (db_records D) (fst x) = Some (snd x)" "tb_find (op_records T) (db_records D) (fst y) = Some (snd y)"
      using tb_rows_find [OF L] by (metis prod.collapse)+
    then show "x = y" using db_okD(2) [OF ok] xy(3) by (metis prod.collapse)
  qed
  then have "inj_on snd (set (filter (\<lambda>(k, _). lo \<le> k \<and> k \<le> hi) (tb_rows (op_records T) (db_records D))))"
    by (rule inj_on_subset) auto
  then show ?thesis
    using d unfolding rows_between_def by (simp add: distinct_map)
qed

lemma minute_rows_set:
  assumes laws: "db_laws T" and ok: "db_ok T D" and a: "- 2147483648 \<le> a" "a \<le> 2147483647" and b: "- 2147483648 \<le> b" "b \<le> 2147483647"
  shows "r \<in> set (minute_rows T a b D) \<longleftrightarrow> db_view T D (trec_trade_id r) = Some r \<and>
    a \<le> timestamp_ms_to_unix_minutes (op_ms_to_min T) (selected_timestamp_ms r) \<and>
    timestamp_ms_to_unix_minutes (op_ms_to_min T) (selected_timestamp_ms r) \<le> b"
proof -
  note u = unix_minutes_range [of "op_ms_to_min T" "selected_timestamp_ms r"]
  have lo: "make_composite_key a 0 \<le> record_key T r \<longleftrightarrow> a \<le> timestamp_ms_to_unix_minutes (op_ms_to_min T) (selected_timestamp_ms r)"
    unfolding record_key_def composite_le [OF a conjunct1 [OF u] conjunct2 [OF u]] by auto
  have mx: "(t :: u32) \<le> 0xFFFFFFFF" for t
    using unsigned_less [of t, where 'a = nat] by (simp add: word_le_nat_alt)
  have hi: "record_key T r \<le> make_composite_key b 0xFFFFFFFF \<longleftrightarrow> timestamp_ms_to_unix_minutes (op_ms_to_min T) (selected_timestamp_ms r) \<le> b"
    unfolding record_key_def composite_le [OF conjunct1 [OF u] conjunct2 [OF u] b] using mx by auto
  show ?thesis
    unfolding minute_rows_def rows_between_set [OF db_lawsD(1) [OF laws]] db_view_iff [OF ok] using lo hi by auto
qed

lemma range_rows:
  assumes laws: "db_laws T" and rdy: "db_ready T D" and m: "mono (op_ms_to_min T)" and rng: "0 \<le> start" "start \<le> stop"
  shows "set (lr_records (find_range T start stop D)) =
      {r. db_view T D (trec_trade_id r) = Some r \<and> start \<le> selected_timestamp_ms r \<and> selected_timestamp_ms r \<le> stop}"
    and "distinct (lr_records (find_range T start stop D))"
    and "sorted (map (\<lambda>r. (selected_timestamp_ms r, trec_trade_id r)) (lr_records (find_range T start stop D)))"
    and "lr_status (find_range T start stop D) = ST_SUCCESS"
proof -
  have ok: "db_ok T D" and op: "db_open D" using rdy by (simp_all add: db_ready_def)
  have g: "\<not> (start < 0 \<or> stop < 0 \<or> start > stop)" using rng by simp
  note f = find_range_def [of T start stop D, unfolded if_not_P [OF g]]
  note u = unix_minutes_range [of "op_ms_to_min T"]
  note rows = minute_rows_set [OF laws ok conjunct1 [OF u] conjunct2 [OF u] conjunct1 [OF u] conjunct2 [OF u]]
  show "set (lr_records (find_range T start stop D)) =
      {r. db_view T D (trec_trade_id r) = Some r \<and> start \<le> selected_timestamp_ms r \<and> selected_timestamp_ms r \<le> stop}"
    using op unix_minutes_mono [OF m] by (auto simp: f sort_records_def rows)
  show "distinct (lr_records (find_range T start stop D))"
    using op rows_between_distinct [OF laws ok] by (simp add: f sort_records_def minute_rows_def)
  show "sorted (map (\<lambda>r. (selected_timestamp_ms r, trec_trade_id r)) (lr_records (find_range T start stop D)))"
    using op by (simp add: f sort_records_def)
  show "lr_status (find_range T start stop D) = ST_SUCCESS" using op by (simp add: f)
qed

subsection \<open>A concrete table\<close>

definition rbt_table :: "(('k :: linorder, 'v) RBT.rbt, 'k, 'v) table_ops" where
  "rbt_table = \<lparr>tb_find = RBT.lookup, tb_put = (\<lambda>t k v. RBT.insert k v t), tb_erase = (\<lambda>t k. RBT.delete k t),
     tb_clear = (\<lambda>_. RBT.empty), tb_rows = RBT.entries\<rparr>"

definition rbt_ops :: "((u64, trade_record) RBT.rbt, (int, u64) RBT.rbt, (u64, u64) RBT.rbt) db_ops" where
  "rbt_ops = \<lparr>op_records = rbt_table, op_uid = rbt_table, op_tid = rbt_table, op_ms_to_min = (\<lambda>ms. ms div 60000)\<rparr>"

definition rbt_db :: "((u64, trade_record) RBT.rbt, (int, u64) RBT.rbt, (u64, u64) RBT.rbt) trade_db" where
  "rbt_db = \<lparr>db_open = True, db_read_only = False, db_records = RBT.empty, db_uid = RBT.empty, db_tid = RBT.empty, db_meta = None\<rparr>"

lemma rbt_table_laws: "table_laws rbt_table"
  unfolding table_laws_def rbt_table_def
  by (simp add: RBT.sorted_entries RBT.distinct_entries RBT.lookup_in_tree)

lemma rbt_laws: "db_laws rbt_ops"
  by (simp add: db_laws_def rbt_ops_def rbt_table_laws)

lemma rbt_ready: "db_ready rbt_ops rbt_db"
  by (simp add: db_ready_def db_ok_def rbt_ops_def rbt_db_def rbt_table_def)

lemma rbt_view: "db_view rbt_ops rbt_db = Map.empty"
  by (rule ext) (simp add: db_view_def rbt_ops_def rbt_db_def rbt_table_def)

lemma rbt_mono: "mono (op_ms_to_min rbt_ops)"
  by (rule monoI) (simp add: rbt_ops_def zdiv_mono1)

definition sample_trade :: "u32 \<Rightarrow> int \<Rightarrow> int \<Rightarrow> trade_record" where
  "sample_trade i u t = trade_record_default\<lparr>trec_trade_id := i, trec_unique_id := u, trec_place_date := t\<rparr>"

subsection \<open>The properties\<close>

text \<open>C13: The database is two maps, from trades to records and from unique identifiers to keys. Every write, upsert,
  erase, clear and reservation keeps the record table and the index by trade consistent with each other, and changes the
  two maps and answers as specified: a record goes under its trade, moving it to another key included; an upsert without
  a trade takes the one that its unique identifier leads to, else the one of the same broker order with the least key,
  else a free one, and fails without a change when all are taken; an erase forgets the record and its unique identifier.
  The index by unique identifier is exact as long as it was exact before and no write takes the unique identifier of
  another trade or changes the one of its own.\<close>

theorem database_refines_map:
  assumes "db_laws T" and "db_ready T D"
  shows "\<exists>a. answer_of T D (now, c) = Some a \<and> db_ready T (db_call_step T D (now, c)) \<and>
    db_spec (record_key T) c (db_abs T D) a (db_abs T (db_call_step T D (now, c))) \<and>
    (uid_exact (record_key T) (db_abs T D) \<and> keeps_uids (db_abs T D) a \<longrightarrow>
      uid_exact (record_key T) (db_abs T (db_call_step T D (now, c))))"
proof -
  have ok: "db_ok T D" using assms(2) by (simp add: db_ready_def)
  have wf: "fst (db_abs T D) i = Some s \<Longrightarrow> trec_trade_id s = i" for i s
    using db_view_id(1) [OF ok] by (simp add: db_abs_def)
  obtain a where "answer_of T D (now, c) = Some a" "db_ready T (db_call_step T D (now, c))"
    and spec: "db_spec (record_key T) c (db_abs T D) a (db_abs T (db_call_step T D (now, c)))"
    using call_refines [OF assms, of now c] by blast
  moreover have "uid_exact (record_key T) (db_abs T (db_call_step T D (now, c)))"
    if "uid_exact (record_key T) (db_abs T D)" "keeps_uids (db_abs T D) a"
    by (rule uid_exact_call [OF spec that]) (use wf record_key_eq in blast)+
  ultimately show ?thesis by blast
qed

lemma rbt_abs: "db_abs rbt_ops rbt_db = (Map.empty, Map.empty)"
  by (simp add: db_abs_def rbt_view) (rule ext, simp add: rbt_ops_def rbt_db_def rbt_table_def)

lemma database_refines_map_witness:
  "db_abs rbt_ops (db_call_step rbt_ops rbt_db (5, DC_WRITE (sample_trade 7 9 60000))) =
     ([7 \<mapsto> sample_trade 7 9 60000], [9 \<mapsto> record_key rbt_ops (sample_trade 7 9 60000)])
   \<and> uid_exact (record_key rbt_ops) (db_abs rbt_ops (db_call_step rbt_ops rbt_db (5, DC_WRITE (sample_trade 7 9 60000))))"
proof -
  obtain a where a: "db_spec (record_key rbt_ops) (DC_WRITE (sample_trade 7 9 60000)) (db_abs rbt_ops rbt_db) a
      (db_abs rbt_ops (db_call_step rbt_ops rbt_db (5, DC_WRITE (sample_trade 7 9 60000))))"
    "uid_exact (record_key rbt_ops) (db_abs rbt_ops rbt_db) \<and> keeps_uids (db_abs rbt_ops rbt_db) a \<longrightarrow>
      uid_exact (record_key rbt_ops) (db_abs rbt_ops (db_call_step rbt_ops rbt_db (5, DC_WRITE (sample_trade 7 9 60000))))"
    using database_refines_map [OF rbt_laws rbt_ready, of 5 "DC_WRITE (sample_trade 7 9 60000)"] by blast
  have n: "trec_trade_id (sample_trade 7 9 60000) = 7" "trec_unique_id (sample_trade 7 9 60000) = 9" by (simp_all add: sample_trade_def)
  have "db_abs rbt_ops (db_call_step rbt_ops rbt_db (5, DC_WRITE (sample_trade 7 9 60000))) =
      stored (record_key rbt_ops) (sample_trade 7 9 60000) (Map.empty, Map.empty)"
    using a(1) unfolding db_spec.simps rbt_abs n by simp
  then have "db_abs rbt_ops (db_call_step rbt_ops rbt_db (5, DC_WRITE (sample_trade 7 9 60000))) =
     ([7 \<mapsto> sample_trade 7 9 60000], [9 \<mapsto> record_key rbt_ops (sample_trade 7 9 60000)])"
    by (simp add: stored_def n fun_eq_iff)
  moreover have "uid_exact (record_key rbt_ops) (db_abs rbt_ops rbt_db)" "keeps_uids (db_abs rbt_ops rbt_db) a"
    by (simp_all add: uid_exact_def keeps_uids_def holds_def rbt_abs)
  ultimately show ?thesis using a(2) by simp
qed

lemma rbt_written: "db_view rbt_ops (db_call_step rbt_ops rbt_db (5, DC_WRITE (sample_trade 7 0 60000))) = [7 \<mapsto> sample_trade 7 0 60000]"
proof -
  have "trec_trade_id (sample_trade 7 0 60000) = 7" by (simp add: sample_trade_def)
  then have "db_abs rbt_ops (db_call_step rbt_ops rbt_db (5, DC_WRITE (sample_trade 7 0 60000))) =
      stored (record_key rbt_ops) (sample_trade 7 0 60000) (Map.empty, Map.empty)"
    using call_refines [OF rbt_laws rbt_ready, of 5 "DC_WRITE (sample_trade 7 0 60000)"] rbt_abs by auto
  then show ?thesis by (simp add: db_abs_def stored_def sample_trade_def)
qed

text \<open>C14: A range query after any calls returns exactly the stored records whose selected timestamp lies in
  the range, each once, by timestamp and then by trade: the minute in the composite key never hides a
  record of the range and the scan by key never lets one of another time through.\<close>

theorem range_query_exact:
  fixes T :: "('r, 'u, 'i) db_ops" and D :: "('r, 'u, 'i) trade_db" and calls :: "(int \<times> db_call) list"
  assumes "db_laws T" and "db_ready T D" and "mono (op_ms_to_min T)" and "0 \<le> start" and "start \<le> stop"
  defines "E \<equiv> foldl (db_call_step T) D calls"
  shows "set (lr_records (find_range T start stop E)) =
      {r. db_view T E (trec_trade_id r) = Some r \<and> start \<le> selected_timestamp_ms r \<and> selected_timestamp_ms r \<le> stop} \<and>
    distinct (lr_records (find_range T start stop E)) \<and>
    sorted (map (\<lambda>r. (selected_timestamp_ms r, trec_trade_id r)) (lr_records (find_range T start stop E)))"
proof -
  have "db_laws T \<longrightarrow> db_ready T E"
    unfolding E_def using assms(2) by (intro db_machine.run_inv) (simp_all add: list_all_iff)
  then have "db_ready T E" using assms(1) by simp
  from range_rows [OF assms(1) this assms(3-5)] show ?thesis by blast
qed

lemma range_query_exact_witness:
  "set (lr_records (find_range rbt_ops 50000 70000 (foldl (db_call_step rbt_ops) rbt_db [(5, DC_WRITE (sample_trade 7 0 60000))])))
     = {sample_trade 7 0 60000}"
proof -
  have v: "db_view rbt_ops (foldl (db_call_step rbt_ops) rbt_db [(5, DC_WRITE (sample_trade 7 0 60000))])
      = [7 \<mapsto> sample_trade 7 0 60000]"
    by (simp only: foldl_Cons foldl_Nil rbt_written)
  have "set (lr_records (find_range rbt_ops 50000 70000 (foldl (db_call_step rbt_ops) rbt_db [(5, DC_WRITE (sample_trade 7 0 60000))])))
      = {r. [7 \<mapsto> sample_trade 7 0 60000] (trec_trade_id r) = Some r \<and> 50000 \<le> selected_timestamp_ms r \<and> selected_timestamp_ms r \<le> 70000}"
    using range_query_exact [OF rbt_laws rbt_ready rbt_mono, of 50000 70000 "[(5, DC_WRITE (sample_trade 7 0 60000))]"]
    unfolding v by simp
  also have "\<dots> = {sample_trade 7 0 60000}"
    by (auto simp: sample_trade_def selected_timestamp_ms_def trade_record_default_def split: if_splits)
  finally show ?thesis .
qed

text \<open>C15: The search for a trade identifier always ends, and the identifier it reserves is one that no
  stored record has; it gives none only when all 4294967295 of them are taken. An upsert that names no
  trade, no unique identifier and no broker order therefore never replaces a record.\<close>

theorem reserved_id_fresh:
  assumes "db_laws T" and "db_ready T D"
  shows "\<exists>i E. get_trade_id T now D = Some (i, E) \<and> db_view T E = db_view T D \<and>
    (if i = 0 then \<forall>j. j \<noteq> 0 \<longrightarrow> db_view T D j \<noteq> None else db_view T D i = None)"
proof -
  have w: "db_open D" "\<not> db_read_only D" and ok: "db_ok T D" using assms(2) by (simp_all add: db_ready_def)
  obtain i D' where r: "reserve_trade_id T D = Some (i, D')" "same_tables D' D"
    "i = 0 \<Longrightarrow> (\<forall>j. j \<noteq> 0 \<longrightarrow> tid_contains T D j)" "i \<noteq> 0 \<Longrightarrow> \<not> tid_contains T D i"
    using reserve_trade_id_post [of T D] by metis
  have s: "same_tables (update_last_update now D') D" using r(2) by (simp add: same_tables_def)
  show ?thesis
  proof (cases "i = 0")
    case True
    then show ?thesis using w r(1,3) tid_contains_view [OF ok] by (simp add: get_trade_id_def)
  next
    case False
    then show ?thesis using w r(1,4) tid_contains_view [OF ok, of i] same_tables_view [OF s, of T]
      by (intro exI [of _ i] exI [of _ "update_last_update now D'"]) (simp add: get_trade_id_def)
  qed
qed

lemma reserved_id_fresh_witness:
  "\<exists>i E. get_trade_id rbt_ops 5 rbt_db = Some (i, E) \<and> i \<noteq> 0"
proof -
  obtain i E where "get_trade_id rbt_ops 5 rbt_db = Some (i, E)"
    "if i = 0 then \<forall>j. j \<noteq> 0 \<longrightarrow> db_view rbt_ops rbt_db j \<noteq> None else db_view rbt_ops rbt_db i = None"
    using reserved_id_fresh [OF rbt_laws rbt_ready, of 5] by blast
  moreover have "db_view rbt_ops rbt_db 1 = None" by (simp add: rbt_view)
  ultimately show ?thesis by (metis one_neq_zero)
qed

text \<open>C16: The index by unique identifier can go stale, and \<open>upsert\<close> trusts it: when a trade is written again
  with another unique identifier in the same minute, the entry of the old one stays; the lookup by it says
  \<open>NOT_FOUND\<close>, but the upsert of a new trade with that unique identifier replaces the first trade's record.\<close>

theorem stale_uid_upsert_overwrites:
  fixes T :: "('r, 'u, 'i) db_ops" and D :: "('r, 'u, 'i) trade_db" and r s :: trade_record and u u' now :: int
  assumes "db_laws T" and "db_ready T D" and "trec_trade_id r \<noteq> 0"
    and "trec_unique_id r = u" "u > 0" "u' \<noteq> u" "u' > 0" and "trec_trade_id s = 0" "trec_unique_id s = u"
  defines "r' \<equiv> r\<lparr>trec_unique_id := u'\<rparr>"
  defines "E \<equiv> snd (db_write T now r' (snd (db_write T now r D)))"
  shows "db_view T E (trec_trade_id r) = Some r' \<and>
    rr_status (find_by_uid T u E) = ST_NOT_FOUND \<and>
    (\<exists>F. db_upsert T now s E = Some (write_success (s\<lparr>trec_trade_id := trec_trade_id r\<rparr>), F) \<and>
       db_view T F = (db_view T E)(trec_trade_id r \<mapsto> s\<lparr>trec_trade_id := trec_trade_id r\<rparr>))"
proof -
  note L = db_lawsD [OF assms(1)]
  have w: "db_open D" "\<not> db_read_only D" and ok: "db_ok T D" using assms(2) by (simp_all add: db_ready_def)
  have id': "trec_trade_id r' \<noteq> 0" "trec_trade_id r' = trec_trade_id r" using assms(3) by (simp_all add: r'_def)
  define D1 where "D1 = store_record T now r D"
  note s1 = store_record_refines [OF assms(1) ok assms(3), of now, folded D1_def]
  have E: "E = store_record T now r' D1"
    using w s1(3,4) id' assms(3) by (simp add: E_def db_write_def flip: D1_def)
  note s2 = store_record_refines [OF assms(1) s1(1) id'(1), of now, folded E]
  have key: "record_key T r' = record_key T r" by (simp add: record_key_def r'_def selected_timestamp_ms_def)
  have t1: "tb_find (op_tid T) (db_tid D1) (tid_key (trec_trade_id r)) = Some (record_key T r)"
    by (simp add: D1_def store_record_def put_row_def tables(1) [OF L(3)])
  have dr: "drop_moved_row T r' D1 = D1" using t1 by (simp add: drop_moved_row_def id'(2) key)
  have u1: "tb_find (op_uid T) (db_uid D1) u = Some (record_key T r)"
    using assms(4,5) by (simp add: D1_def store_record_def put_row_def tables(1) [OF L(2)])
  have ru: "trec_unique_id r' = u'" by (simp add: r'_def)
  have uE: "tb_find (op_uid T) (db_uid E) u = Some (record_key T r)"
    using u1 assms(6,7) ru by (simp add: E store_record_def dr put_row_def tables(1) [OF L(2)])
  have rE: "tb_find (op_records T) (db_records E) (record_key T r) = Some r'"
    by (simp add: E store_record_def dr put_row_def tables(1) [OF L(1)] key)
  have v: "db_view T E (trec_trade_id r) = Some r'" using s2(2) id'(2) by simp
  have f: "rr_status (find_by_uid T u E) = ST_NOT_FOUND"
    using assms(5,6) s2(3) s1(3) w by (simp add: find_by_uid_def uE rE r'_def read_error_def)
  have m: "match_by_uid T s E = (trec_trade_id r, E)"
    using assms(5,8,9) id'(2) by (simp add: match_by_uid_def uE rE)
  have up: "upsert_id T s E = Some (trec_trade_id r, E)"
    using assms(3) by (simp add: upsert_id_def m)
  have "db_upsert T now s E = Some (write_success (s\<lparr>trec_trade_id := trec_trade_id r\<rparr>),
      store_record T now (s\<lparr>trec_trade_id := trec_trade_id r\<rparr>) E)"
    using assms(3) s1(3,4) s2(3,4) w by (simp add: db_upsert_def up)
  moreover have "db_view T (store_record T now (s\<lparr>trec_trade_id := trec_trade_id r\<rparr>) E)
      = (db_view T E)(trec_trade_id r \<mapsto> s\<lparr>trec_trade_id := trec_trade_id r\<rparr>)"
    using store_record_refines(2) [OF assms(1) s2(1), of "s\<lparr>trec_trade_id := trec_trade_id r\<rparr>" now] assms(3) by simp
  ultimately show ?thesis using v f by blast
qed

lemma stale_uid_upsert_overwrites_witness:
  "\<exists>F. db_upsert rbt_ops 5 (sample_trade 0 100 60001) (snd (db_write rbt_ops 5 (sample_trade 1 200 60000)
       (snd (db_write rbt_ops 5 (sample_trade 1 100 60000) rbt_db)))) = Some (write_success (sample_trade 1 100 60001), F)"
proof -
  have e: "(sample_trade 1 100 60000)\<lparr>trec_unique_id := 200\<rparr> = sample_trade 1 200 60000"
    "(sample_trade 0 100 60001)\<lparr>trec_trade_id := 1\<rparr> = sample_trade 1 100 60001"
    "trec_trade_id (sample_trade 1 100 60000) = 1" "trec_unique_id (sample_trade 1 100 60000) = 100"
    "trec_trade_id (sample_trade 0 100 60001) = 0" "trec_unique_id (sample_trade 0 100 60001) = 100"
    by (simp_all add: sample_trade_def)
  show ?thesis
    using stale_uid_upsert_overwrites [OF rbt_laws rbt_ready, of "sample_trade 1 100 60000" 100 200 "sample_trade 0 100 60001" 5]
    unfolding e by auto
qed

end
