(* ===== verification/TradeDBQueue.thy ===== *)
theory TradeDBQueue
  imports StorageQueue TradeDBLaws
begin

section \<open>The worker queue of the trade record database\<close>

text \<open>
  The commands of \<open>storages/TradeRecordDB\<close> on the queue of StorageQueue. \<open>clock\<close> gives the time at which the command
  with a number is executed.
\<close>

subsection \<open>Commands\<close>

datatype db_command =
    CMD_UPSERT trade_record | CMD_WRITE trade_record | CMD_FIND_TRADE_ID u32 | CMD_FIND_UID int
  | CMD_FIND_TIMESTAMP int | CMD_FIND_RANGE int int | CMD_FIND_RECORDS trade_record_query | CMD_ERASE u32 | CMD_CLEAR

datatype db_reply = REPLY_WRITE write_result | REPLY_READ read_result | REPLY_LIST list_result | REPLY_STATUS storage_status

text \<open>The body of a queued command; an upsert whose search for an identifier did not end would have no reply.\<close>

fun exec_command ::
  "time_shield \<Rightarrow> calendar \<Rightarrow> ('r, 'u, 'i) db_ops \<Rightarrow> int \<Rightarrow> db_command \<Rightarrow> ('r, 'u, 'i) trade_db
     \<Rightarrow> (db_reply \<times> ('r, 'u, 'i) trade_db) option" where
  "exec_command L cal T now (CMD_UPSERT r) D = map_option (map_prod REPLY_WRITE id) (db_upsert T now r D)"
| "exec_command L cal T now (CMD_WRITE r) D = Some (map_prod REPLY_WRITE id (db_write T now r D))"
| "exec_command L cal T now (CMD_FIND_TRADE_ID i) D = Some (REPLY_READ (find_by_trade_id T i D), D)"
| "exec_command L cal T now (CMD_FIND_UID u) D = Some (REPLY_READ (find_by_uid T u D), D)"
| "exec_command L cal T now (CMD_FIND_TIMESTAMP t) D = Some (REPLY_LIST (find_by_timestamp T t D), D)"
| "exec_command L cal T now (CMD_FIND_RANGE a b) D = Some (REPLY_LIST (find_range T a b D), D)"
| "exec_command L cal T now (CMD_FIND_RECORDS q) D = Some (REPLY_LIST (find_records L cal T q D), D)"
| "exec_command L cal T now (CMD_ERASE i) D = Some (map_prod REPLY_STATUS id (db_erase T now i D))"
| "exec_command L cal T now CMD_CLEAR D = Some (map_prod REPLY_STATUS id (db_clear T now D))"

subsection \<open>The database as a storage of the queue\<close>

definition trade_storage ::
  "time_shield \<Rightarrow> calendar \<Rightarrow> ('r, 'u, 'i) db_ops \<Rightarrow> (nat \<Rightarrow> int) \<Rightarrow> (('r, 'u, 'i) trade_db, db_command, db_reply) storage_ops" where
  "trade_storage L cal T clock = \<lparr>st_exec = (\<lambda>n c D. exec_command L cal T (clock n) c D), st_is_open = db_open,
     st_close = (\<lambda>D. D\<lparr>db_open := False\<rparr>)\<rparr>"

lemma exec_command_total: "exec_command L cal T now c D \<noteq> None"
proof -
  have "reserve_trade_id T E \<noteq> None" for E by (rule reserve_trade_id_post [of T E]) simp
  then have "upsert_id T r D \<noteq> None" for r unfolding upsert_id_def Let_def by (auto split: prod.split)
  then have "db_upsert T now r D \<noteq> None" for r
  proof -
    obtain i E where "upsert_id T r D = Some (i, E)" using \<open>\<And>r. upsert_id T r D \<noteq> None\<close> by fast
    then show "db_upsert T now r D \<noteq> None" by (simp add: db_upsert_def)
  qed
  then show ?thesis by (cases c) auto
qed

interpretation trade_executor: executor "trade_storage L cal T clock" for L cal T clock
  by unfold_locales (simp_all add: trade_storage_def exec_command_total del: not_None_eq)

subsection \<open>The properties\<close>

text \<open>C19: Whatever the interleaving of the caller with the worker, the accepted commands are executed one at a time in
  the order of acceptance, each on the database its predecessors left, and the replies handed to the callbacks
  so far and still waiting to be are those of the executed commands: none is lost, repeated or overtaken.\<close>

theorem queue_order_exact:
  "let X = trade_storage L cal T clock; F = foldl (queue_step X) (storage_queue_new D) es in
     \<exists>k. dq_delivered F @ dq_callbacks F = fst (exec_all X (take k (dq_accepted F)) D) \<and>
       k + length (pending F) = length (dq_accepted F) \<and> distinct (map fst (dq_accepted F))"
  unfolding Let_def by (rule trade_executor.order_exact [unfolded Let_def])

text \<open>C20: A shutdown completes and answers everything: from any state the queue can reach, once the shutdown has begun
  nothing more is accepted, the worker finishes the command in hand and the queued ones and leaves, and after
  the join every command ever accepted has been executed and its callback called exactly once, in order.\<close>

theorem shutdown_answers_all:
  fixes L :: time_shield and D :: "('r, 'u, 'i) trade_db" and es :: "db_command queue_event list"
  assumes X: "X = trade_storage L cal T clock"
    and Q: "Q = foldl (queue_step X) (storage_queue_new D) (es @ [QE_SHUTDOWN_BEGIN])" and o: "db_open (dq_db Q)"
  shows "fst (enqueue_command c Q) = ST_QUEUE_CLOSED \<and>
    (let F = foldl (queue_step X) Q ((QE_EXECUTE # worker_rounds (length (dq_work Q)) @ [QE_EXIT]) @ [QE_SHUTDOWN_END])
     in dq_delivered F = fst (exec_all X (dq_accepted Q) D) \<and>
        map fst (dq_delivered F) = map fst (dq_accepted Q) \<and> \<not> db_open (dq_db F))"
proof -
  have e: "st_is_open (trade_storage L cal T clock) = db_open" by (simp add: trade_storage_def)
  show ?thesis
    using trade_executor.shutdown_answers [OF Q [unfolded X], unfolded e, OF o] unfolding X .
qed

text \<open>A queue on the red-black tables: a write, the worker started, a second command, and the shutdown.\<close>

lemma shutdown_answers_all_witness:
  "\<exists>F :: (((u64, trade_record) RBT.rbt, (int, u64) RBT.rbt, (u64, u64) RBT.rbt) trade_db, db_command, db_reply) storage_queue.
     map fst (dq_delivered F) = [0, 1] \<and> \<not> db_open (dq_db F)"
proof -
  let ?es = "[QE_ENQUEUE (CMD_WRITE (sample_trade 1 0 60000)), QE_RUN, QE_TAKE, QE_ENQUEUE (CMD_ERASE 1)]"
  let ?X = "trade_storage sample_time_shield \<lparr>cal_hour = (\<lambda>s. s div 3600 mod 24), cal_min = (\<lambda>s. s div 60 mod 60),
     cal_sec = (\<lambda>s. s mod 60), cal_day = (\<lambda>_. 1), cal_mon = (\<lambda>_. 1)\<rparr> rbt_ops int"
  define Q where "Q = foldl (queue_step ?X) (storage_queue_new rbt_db) (?es @ [QE_SHUTDOWN_BEGIN])"
  have q: "db_open (dq_db Q)" "map fst (dq_accepted Q) = [0, 1]"
    by (simp_all add: Q_def enqueue_command_def run_worker_def storage_queue_new_def rbt_db_def pop_command_def shutdown_begin_def
      Let_def trade_storage_def)
  have "map fst (dq_delivered F) = [0, 1] \<and> \<not> db_open (dq_db F)"
    if "F = foldl (queue_step ?X) Q ((QE_EXECUTE # worker_rounds (length (dq_work Q)) @ [QE_EXIT]) @ [QE_SHUTDOWN_END])" for F
    using shutdown_answers_all [OF refl Q_def q(1), of CMD_CLEAR] q(2) unfolding Let_def that by argo
  then show ?thesis by blast
qed

end
