(* ===== verification/SignalDB.thy ===== *)
theory SignalDB
  imports TradeDB RecordCodec
begin

section \<open>The signal record database\<close>

text \<open>
  \<open>storages/SignalRecordDB.hpp\<close> and \<open>storages/SignalRecordDB/SignalRecordDB.ipp\<close>, the operations under the
  database lock: signals in one table under a key of the minute and the signal, found again by an
  index of signal identifiers and by an index of the trades each signal produced. As in the database
  of trades, the tables are arguments with the laws of an ordered map, a transaction that is not
  committed leaves the tables as they were, and the exceptions of the library are outside the model.
\<close>

subsection \<open>Tables, state and results\<close>

record ('r, 's, 'i) signal_ops =
  so_records :: "('r, u64, signal_record) table_ops"
  so_sid :: "('s, u32, u64) table_ops"
  so_tid :: "('i, u32, u64) table_ops"
  so_ms_to_min :: "int \<Rightarrow> int"

record signal_meta =
  smeta_db_version :: u64
  smeta_next_signal_id :: u32
  smeta_last_update_ms :: int

definition signal_meta_default :: signal_meta where
  "signal_meta_default = \<lparr>smeta_db_version = 1, smeta_next_signal_id = 1, smeta_last_update_ms = 0\<rparr>"

record ('r, 's, 'i) signal_db =
  sdb_open :: bool
  sdb_read_only :: bool
  sdb_records :: 'r
  sdb_sid :: 's
  sdb_tid :: 'i
  sdb_meta :: "signal_meta option"

record signal_write_result =
  swr_status :: storage_status
  swr_record :: signal_record
  swr_message :: string

record signal_read_result =
  srr_status :: storage_status
  srr_record :: signal_record
  srr_found :: bool
  srr_message :: string

record signal_list_result =
  slr_status :: storage_status
  slr_records :: "signal_record list"
  slr_message :: string

definition signal_write_success :: "signal_record \<Rightarrow> signal_write_result" where
  "signal_write_success r = \<lparr>swr_status = ST_SUCCESS, swr_record = r, swr_message = []\<rparr>"

definition signal_write_error :: "storage_status \<Rightarrow> signal_record \<Rightarrow> string \<Rightarrow> signal_write_result" where
  "signal_write_error st r msg = \<lparr>swr_status = st, swr_record = r, swr_message = msg\<rparr>"

definition signal_read_error :: "storage_status \<Rightarrow> string \<Rightarrow> signal_read_result" where
  "signal_read_error st msg = \<lparr>srr_status = st, srr_record = signal_record_default, srr_found = False, srr_message = msg\<rparr>"

definition signal_read_success :: "signal_record \<Rightarrow> signal_read_result" where
  "signal_read_success r = \<lparr>srr_status = ST_SUCCESS, srr_record = r, srr_found = True, srr_message = []\<rparr>"

definition signal_list_error :: "storage_status \<Rightarrow> string \<Rightarrow> signal_list_result" where
  "signal_list_error st msg = \<lparr>slr_status = st, slr_records = [], slr_message = msg\<rparr>"

text \<open>The creation of a signal, or the first later event of it that has a time.\<close>

definition signal_timestamp_ms :: "signal_record \<Rightarrow> int" where
  "signal_timestamp_ms r =
     (if srec_create_date r > 0 then srec_create_date r
      else if srec_accept_date r > 0 then srec_accept_date r
      else if srec_reject_date r > 0 then srec_reject_date r
      else if srec_complete_date r > 0 then srec_complete_date r else 0)"

subsection \<open>Metadata and signal identifiers\<close>

definition signal_meta_get :: "('r, 's, 'i) signal_db \<Rightarrow> signal_meta" where
  "signal_meta_get D = (case sdb_meta D of None \<Rightarrow> signal_meta_default | Some m \<Rightarrow> m)"

definition signal_init_meta :: "('r, 's, 'i) signal_db \<Rightarrow> ('r, 's, 'i) signal_db" where
  "signal_init_meta D =
     (let m = signal_meta_get D;
          m = (if smeta_db_version m = 0 then m\<lparr>smeta_db_version := 1\<rparr> else m);
          m = (if smeta_next_signal_id m = 0 then m\<lparr>smeta_next_signal_id := 1\<rparr> else m)
      in D\<lparr>sdb_meta := Some m\<rparr>)"

definition signal_last_update :: "int \<Rightarrow> ('r, 's, 'i) signal_db \<Rightarrow> ('r, 's, 'i) signal_db" where
  "signal_last_update now D = D\<lparr>sdb_meta := Some ((signal_meta_get D)\<lparr>smeta_last_update_ms := now\<rparr>)\<rparr>"

definition sid_contains :: "('r, 's, 'i) signal_ops \<Rightarrow> ('r, 's, 'i) signal_db \<Rightarrow> u32 \<Rightarrow> bool" where
  "sid_contains T D i \<longleftrightarrow> tb_find (so_sid T) (sdb_sid D) i \<noteq> None"

text \<open>The search is the loop \<open>reserve_loop\<close>, statement by statement that of the database of trades.\<close>

definition reserve_signal_id :: "('r, 's, 'i) signal_ops \<Rightarrow> ('r, 's, 'i) signal_db \<Rightarrow> (u32 \<times> ('r, 's, 'i) signal_db) option" where
  "reserve_signal_id T D =
     (let m = signal_meta_get D;
          start = (if smeta_next_signal_id m = 0 then 1 else smeta_next_signal_id m)
      in case reserve_loop (sid_contains T D) start start False of
           None \<Rightarrow> None
         | Some candidate \<Rightarrow>
             if candidate = 0 then Some (0, D)
             else Some (candidate, D\<lparr>sdb_meta := Some (m\<lparr>smeta_next_signal_id :=
               (if candidate + 1 = 0 then 1 else candidate + 1)\<rparr>)\<rparr>))"

definition bump_next_signal_id :: "u32 \<Rightarrow> ('r, 's, 'i) signal_db \<Rightarrow> ('r, 's, 'i) signal_db" where
  "bump_next_signal_id used D =
     (if used = 0 then D
      else let m = signal_meta_get D;
               m = (if smeta_next_signal_id m = 0 then m\<lparr>smeta_next_signal_id := 1\<rparr> else m)
           in if smeta_next_signal_id m \<le> used
              then D\<lparr>sdb_meta := Some (m\<lparr>smeta_next_signal_id := (if used = 4294967295 then 1 else used + 1)\<rparr>)\<rparr>
              else D)"

definition get_signal_id ::
  "('r, 's, 'i) signal_ops \<Rightarrow> int \<Rightarrow> ('r, 's, 'i) signal_db \<Rightarrow> (u32 \<times> ('r, 's, 'i) signal_db) option" where
  "get_signal_id T now D =
     (if \<not> sdb_open D then Some (0, D)
      else if sdb_read_only D then Some (0, D)
      else case reserve_signal_id T D of
        None \<Rightarrow> None
      | Some (i, D') \<Rightarrow> if i = 0 then Some (0, D) else Some (i, signal_last_update now D'))"

text \<open>\<open>assign_signal_id\<close> of a signal, a record and a request: whether it has an identifier now.\<close>

definition assign_signal_id_signal ::
  "('r, 's, 'i) signal_ops \<Rightarrow> int \<Rightarrow> 'p trade_signal \<Rightarrow> ('r, 's, 'i) signal_db \<Rightarrow> ('p trade_signal \<times> bool \<times> ('r, 's, 'i) signal_db) option" where
  "assign_signal_id_signal T now s D =
     (if tsig_signal_id s > 0 then Some (s, True, D)
      else case get_signal_id T now D of
        None \<Rightarrow> None
      | Some (i, D') \<Rightarrow> Some (s\<lparr>tsig_signal_id := i\<rparr>, i > 0, D'))"

definition assign_signal_id_record ::
  "('r, 's, 'i) signal_ops \<Rightarrow> int \<Rightarrow> signal_record \<Rightarrow> ('r, 's, 'i) signal_db \<Rightarrow> (signal_record \<times> bool \<times> ('r, 's, 'i) signal_db) option" where
  "assign_signal_id_record T now r D =
     (if srec_signal_id r > 0 then Some (r, True, D)
      else case get_signal_id T now D of
        None \<Rightarrow> None
      | Some (i, D') \<Rightarrow> Some (r\<lparr>srec_signal_id := i\<rparr>, i > 0, D'))"

definition assign_signal_id_request ::
  "('r, 's, 'i) signal_ops \<Rightarrow> int \<Rightarrow> trade_request \<Rightarrow> ('r, 's, 'i) signal_db \<Rightarrow> (trade_request \<times> bool \<times> ('r, 's, 'i) signal_db) option" where
  "assign_signal_id_request T now q D =
     (if treq_signal_id q > 0 then Some (q, True, D)
      else case get_signal_id T now D of
        None \<Rightarrow> None
      | Some (i, D') \<Rightarrow> Some (q\<lparr>treq_signal_id := i\<rparr>, i > 0, D'))"

subsection \<open>Indexes\<close>

definition signal_key :: "('r, 's, 'i) signal_ops \<Rightarrow> signal_record \<Rightarrow> u64" where
  "signal_key T r = make_composite_key (timestamp_ms_to_unix_minutes (so_ms_to_min T) (signal_timestamp_ms r)) (srec_signal_id r)"

text \<open>An index entry goes when it leads nowhere or to a record of the signal.\<close>

definition erase_if_same_signal ::
  "('r, u64, signal_record) table_ops \<Rightarrow> 'r \<Rightarrow> u32 \<Rightarrow> ('t, u32, u64) table_ops \<Rightarrow> u32 \<Rightarrow> 't \<Rightarrow> 't" where
  "erase_if_same_signal R rows signal I key t =
     (case tb_find I t key of
        None \<Rightarrow> t
      | Some composite \<Rightarrow> (case tb_find R rows composite of
          None \<Rightarrow> tb_erase I t key
        | Some indexed \<Rightarrow> if srec_signal_id indexed = signal then tb_erase I t key else t))"

definition remove_indexes :: "('r, 's, 'i) signal_ops \<Rightarrow> signal_record \<Rightarrow> ('r, 's, 'i) signal_db \<Rightarrow> ('r, 's, 'i) signal_db" where
  "remove_indexes T r D =
     D\<lparr>sdb_sid := (if srec_signal_id r > 0 then erase_if_same_signal (so_records T) (sdb_records D) (srec_signal_id r)
             (so_sid T) (srec_signal_id r) (sdb_sid D) else sdb_sid D),
           sdb_tid := fold (\<lambda>t ix. if t = 0 then ix
             else erase_if_same_signal (so_records T) (sdb_records D) (srec_signal_id r) (so_tid T) t ix)
             (srec_trade_ids r) (sdb_tid D)\<rparr>"

definition write_indexes :: "('r, 's, 'i) signal_ops \<Rightarrow> signal_record \<Rightarrow> u64 \<Rightarrow> ('r, 's, 'i) signal_db \<Rightarrow> ('r, 's, 'i) signal_db" where
  "write_indexes T r key D =
     D\<lparr>sdb_sid := (if srec_signal_id r > 0 then tb_put (so_sid T) (sdb_sid D) (srec_signal_id r) key else sdb_sid D),
       sdb_tid := fold (\<lambda>t ix. if t = 0 then ix else tb_put (so_tid T) ix t key) (srec_trade_ids r) (sdb_tid D)\<rparr>"

text \<open>The statements of \<open>store_record_no_lock\<close> before the new row is put: the old one loses its index entries,
  and the row itself when its key has changed.\<close>

definition drop_old_signal :: "('r, 's, 'i) signal_ops \<Rightarrow> signal_record \<Rightarrow> ('r, 's, 'i) signal_db \<Rightarrow> ('r, 's, 'i) signal_db" where
  "drop_old_signal T r D =
     (case tb_find (so_sid T) (sdb_sid D) (srec_signal_id r) of
        None \<Rightarrow> D
      | Some existing \<Rightarrow>
          let D1 = (case tb_find (so_records T) (sdb_records D) existing of None \<Rightarrow> D | Some old \<Rightarrow> remove_indexes T old D)
          in if existing \<noteq> signal_key T r then D1\<lparr>sdb_records := tb_erase (so_records T) (sdb_records D1) existing\<rparr> else D1)"

definition store_signal :: "('r, 's, 'i) signal_ops \<Rightarrow> int \<Rightarrow> signal_record \<Rightarrow> ('r, 's, 'i) signal_db \<Rightarrow> ('r, 's, 'i) signal_db" where
  "store_signal T now r D =
     (let D1 = drop_old_signal T r D;
          D2 = D1\<lparr>sdb_records := tb_put (so_records T) (sdb_records D1) (signal_key T r) r\<rparr>
      in signal_last_update now (bump_next_signal_id (srec_signal_id r) (write_indexes T r (signal_key T r) D2)))"

text \<open>The signal that one of the trades belongs to, the first that has one; dangling entries go on the way.\<close>

fun signal_of_trades :: "('r, 's, 'i) signal_ops \<Rightarrow> u32 list \<Rightarrow> ('r, 's, 'i) signal_db \<Rightarrow> u32 \<times> ('r, 's, 'i) signal_db" where
  "signal_of_trades T [] D = (0, D)"
| "signal_of_trades T (t # ts) D =
     (if t = 0 then signal_of_trades T ts D
      else case tb_find (so_tid T) (sdb_tid D) t of
        None \<Rightarrow> signal_of_trades T ts D
      | Some composite \<Rightarrow> (case tb_find (so_records T) (sdb_records D) composite of
          Some existing \<Rightarrow> (srec_signal_id existing, D)
        | None \<Rightarrow> signal_of_trades T ts (D\<lparr>sdb_tid := tb_erase (so_tid T) (sdb_tid D) t\<rparr>)))"

definition find_existing_signal_id :: "('r, 's, 'i) signal_ops \<Rightarrow> signal_record \<Rightarrow> ('r, 's, 'i) signal_db \<Rightarrow> u32 \<times> ('r, 's, 'i) signal_db" where
  "find_existing_signal_id T r D = (if srec_signal_id r > 0 then (srec_signal_id r, D) else signal_of_trades T (srec_trade_ids r) D)"

text \<open>Whether a trade already belongs to another signal.\<close>

fun conflict_loop :: "('r, 's, 'i) signal_ops \<Rightarrow> u32 \<Rightarrow> u32 list \<Rightarrow> ('r, 's, 'i) signal_db \<Rightarrow> bool \<times> ('r, 's, 'i) signal_db" where
  "conflict_loop T signal [] D = (False, D)"
| "conflict_loop T signal (t # ts) D =
     (if t = 0 then conflict_loop T signal ts D
      else case tb_find (so_tid T) (sdb_tid D) t of
        None \<Rightarrow> conflict_loop T signal ts D
      | Some composite \<Rightarrow> (case tb_find (so_records T) (sdb_records D) composite of
          None \<Rightarrow> conflict_loop T signal ts (D\<lparr>sdb_tid := tb_erase (so_tid T) (sdb_tid D) t\<rparr>)
        | Some existing \<Rightarrow> if srec_signal_id existing = signal then conflict_loop T signal ts D else (True, D)))"

definition trade_id_conflicts :: "('r, 's, 'i) signal_ops \<Rightarrow> signal_record \<Rightarrow> ('r, 's, 'i) signal_db \<Rightarrow> bool \<times> ('r, 's, 'i) signal_db" where
  "trade_id_conflicts T r D = conflict_loop T (srec_signal_id r) (srec_trade_ids r) D"

definition conflict_message :: string where
  "conflict_message = ''SignalRecord trade_id already belongs to another signal''"

subsection \<open>Writing\<close>

definition signal_write ::
  "('r, 's, 'i) signal_ops \<Rightarrow> int \<Rightarrow> signal_record \<Rightarrow> ('r, 's, 'i) signal_db \<Rightarrow> signal_write_result \<times> ('r, 's, 'i) signal_db" where
  "signal_write T now r D =
     (if \<not> sdb_open D then (signal_write_error ST_NOT_OPEN r ''SignalRecordDB is not open'', D)
      else if sdb_read_only D then (signal_write_error ST_READ_ONLY r ''SignalRecordDB is read-only'', D)
      else if srec_signal_id r = 0 then (signal_write_error ST_INVALID_ARGUMENT r ''SignalRecord signal_id is required'', D)
      else case trade_id_conflicts T r D of
        (True, _) \<Rightarrow> (signal_write_error ST_CONFLICT r conflict_message, D)
      | (False, D1) \<Rightarrow> (signal_write_success r, store_signal T now r D1))"

text \<open>The identifier of an upsert: its own, that of the signal its trades belong to, or a reserved one.\<close>

definition signal_upsert_id ::
  "('r, 's, 'i) signal_ops \<Rightarrow> signal_record \<Rightarrow> ('r, 's, 'i) signal_db \<Rightarrow> (u32 \<times> ('r, 's, 'i) signal_db) option" where
  "signal_upsert_id T r D =
     (let (i, D1) = find_existing_signal_id T r D in if i = 0 then reserve_signal_id T D1 else Some (i, D1))"

definition signal_upsert ::
  "('r, 's, 'i) signal_ops \<Rightarrow> int \<Rightarrow> signal_record \<Rightarrow> ('r, 's, 'i) signal_db \<Rightarrow> (signal_write_result \<times> ('r, 's, 'i) signal_db) option" where
  "signal_upsert T now r D =
     (if \<not> sdb_open D then Some (signal_write_error ST_NOT_OPEN r ''SignalRecordDB is not open'', D)
      else if sdb_read_only D then Some (signal_write_error ST_READ_ONLY r ''SignalRecordDB is read-only'', D)
      else case signal_upsert_id T r D of
        None \<Rightarrow> None
      | Some (i, D1) \<Rightarrow>
          if i = 0 then Some (signal_write_error ST_SEQUENCE_EXHAUSTED r ''SignalRecordDB could not reserve a signal_id'', D)
          else let r' = r\<lparr>srec_signal_id := i\<rparr> in case trade_id_conflicts T r' D1 of
            (True, _) \<Rightarrow> Some (signal_write_error ST_CONFLICT r' conflict_message, D)
          | (False, D2) \<Rightarrow> Some (signal_write_success r', store_signal T now r' D2))"

definition signal_erase ::
  "('r, 's, 'i) signal_ops \<Rightarrow> int \<Rightarrow> u32 \<Rightarrow> ('r, 's, 'i) signal_db \<Rightarrow> storage_status \<times> ('r, 's, 'i) signal_db" where
  "signal_erase T now i D =
     (if \<not> sdb_open D then (ST_NOT_OPEN, D)
      else if sdb_read_only D then (ST_READ_ONLY, D)
      else if i = 0 then (ST_INVALID_ARGUMENT, D)
      else case tb_find (so_sid T) (sdb_sid D) i of
        None \<Rightarrow> (ST_NOT_FOUND, D)
      | Some composite \<Rightarrow> (case tb_find (so_records T) (sdb_records D) composite of
          None \<Rightarrow> (ST_NOT_FOUND, signal_last_update now (D\<lparr>sdb_sid := tb_erase (so_sid T) (sdb_sid D) i\<rparr>))
        | Some r \<Rightarrow> (ST_SUCCESS, signal_last_update now
            ((remove_indexes T r D)\<lparr>sdb_records := tb_erase (so_records T) (sdb_records D) composite\<rparr>))))"

definition signal_clear :: "('r, 's, 'i) signal_ops \<Rightarrow> int \<Rightarrow> ('r, 's, 'i) signal_db \<Rightarrow> storage_status \<times> ('r, 's, 'i) signal_db" where
  "signal_clear T now D =
     (if \<not> sdb_open D then (ST_NOT_OPEN, D)
      else if sdb_read_only D then (ST_READ_ONLY, D)
      else (ST_SUCCESS, signal_last_update now (signal_init_meta
        (D\<lparr>sdb_records := tb_clear (so_records T) (sdb_records D), sdb_sid := tb_clear (so_sid T) (sdb_sid D),
           sdb_tid := tb_clear (so_tid T) (sdb_tid D), sdb_meta := None\<rparr>))))"

subsection \<open>Reading\<close>

definition find_by_signal_id :: "('r, 's, 'i) signal_ops \<Rightarrow> u32 \<Rightarrow> ('r, 's, 'i) signal_db \<Rightarrow> signal_read_result" where
  "find_by_signal_id T i D =
     (if \<not> sdb_open D then signal_read_error ST_NOT_OPEN ''SignalRecordDB is not open''
      else if i = 0 then signal_read_error ST_INVALID_ARGUMENT ''SignalRecord signal_id is required''
      else case tb_find (so_sid T) (sdb_sid D) i of
        None \<Rightarrow> signal_read_error ST_NOT_FOUND ''SignalRecord was not found''
      | Some composite \<Rightarrow> (case tb_find (so_records T) (sdb_records D) composite of
          None \<Rightarrow> signal_read_error ST_NOT_FOUND ''SignalRecord signal_id index points to missing record''
        | Some r \<Rightarrow> if srec_signal_id r \<noteq> i
                    then signal_read_error ST_NOT_FOUND ''SignalRecord signal_id index points to a different signal_id''
                    else signal_read_success r))"

definition find_signal_by_trade :: "('r, 's, 'i) signal_ops \<Rightarrow> u32 \<Rightarrow> ('r, 's, 'i) signal_db \<Rightarrow> signal_read_result" where
  "find_signal_by_trade T t D =
     (if \<not> sdb_open D then signal_read_error ST_NOT_OPEN ''SignalRecordDB is not open''
      else if t = 0 then signal_read_error ST_INVALID_ARGUMENT ''SignalRecord produced trade_id is required''
      else case tb_find (so_tid T) (sdb_tid D) t of
        None \<Rightarrow> signal_read_error ST_NOT_FOUND ''SignalRecord trade_id index entry was not found''
      | Some composite \<Rightarrow> (case tb_find (so_records T) (sdb_records D) composite of
          None \<Rightarrow> signal_read_error ST_NOT_FOUND ''SignalRecord trade_id index points to missing record''
        | Some r \<Rightarrow> if \<not> has_trade_id r t
                    then signal_read_error ST_NOT_FOUND ''SignalRecord trade_id index points to a record without that trade_id''
                    else signal_read_success r))"

definition signal_rows :: "('r, 's, 'i) signal_ops \<Rightarrow> int \<Rightarrow> int \<Rightarrow> ('r, 's, 'i) signal_db \<Rightarrow> signal_record list" where
  "signal_rows T start_min stop_min D =
     rows_between (so_records T) (sdb_records D) (make_composite_key start_min 0) (make_composite_key stop_min 0xFFFFFFFF)"

definition sort_signals :: "signal_record list \<Rightarrow> signal_record list" where
  "sort_signals rs = sort_key (\<lambda>r. (signal_timestamp_ms r, srec_signal_id r)) rs"

text \<open>The lookups by \<open>unique_id\<close> answer in the order of the keys, without sorting.\<close>

definition find_signals_by_uid :: "('r, 's, 'i) signal_ops \<Rightarrow> int \<Rightarrow> ('r, 's, 'i) signal_db \<Rightarrow> signal_list_result" where
  "find_signals_by_uid T u D =
     (if \<not> sdb_open D then signal_list_error ST_NOT_OPEN ''SignalRecordDB is not open''
      else \<lparr>slr_status = ST_SUCCESS,
             slr_records = filter (\<lambda>r. srec_unique_id r = u) (signal_rows T (- 2147483648) 2147483647 D), slr_message = []\<rparr>)"

definition find_signals_by_uid_range ::
  "('r, 's, 'i) signal_ops \<Rightarrow> int \<Rightarrow> int \<Rightarrow> int \<Rightarrow> ('r, 's, 'i) signal_db \<Rightarrow> signal_list_result" where
  "find_signals_by_uid_range T u start_ms stop_ms D =
     (if \<not> sdb_open D then signal_list_error ST_NOT_OPEN ''SignalRecordDB is not open''
      else if start_ms < 0 \<or> stop_ms < 0 \<or> start_ms > stop_ms
      then signal_list_error ST_INVALID_ARGUMENT ''SignalRecord timestamp range is invalid''
      else \<lparr>slr_status = ST_SUCCESS, slr_records =
             filter (\<lambda>r. srec_unique_id r = u \<and> signal_timestamp_ms r \<ge> start_ms \<and> signal_timestamp_ms r \<le> stop_ms)
               (signal_rows T (timestamp_ms_to_unix_minutes (so_ms_to_min T) start_ms)
                  (timestamp_ms_to_unix_minutes (so_ms_to_min T) stop_ms) D), slr_message = []\<rparr>)"

definition find_signals_by_timestamp :: "('r, 's, 'i) signal_ops \<Rightarrow> int \<Rightarrow> ('r, 's, 'i) signal_db \<Rightarrow> signal_list_result" where
  "find_signals_by_timestamp T ts D =
     (if \<not> sdb_open D then signal_list_error ST_NOT_OPEN ''SignalRecordDB is not open''
      else if ts < 0 then signal_list_error ST_INVALID_ARGUMENT ''SignalRecord timestamp is invalid''
      else let m = timestamp_ms_to_unix_minutes (so_ms_to_min T) ts
           in \<lparr>slr_status = ST_SUCCESS,
                slr_records = sort_signals (filter (\<lambda>r. signal_timestamp_ms r = ts) (signal_rows T m m D)), slr_message = []\<rparr>)"

definition find_signal_range :: "('r, 's, 'i) signal_ops \<Rightarrow> int \<Rightarrow> int \<Rightarrow> ('r, 's, 'i) signal_db \<Rightarrow> signal_list_result" where
  "find_signal_range T start_ms stop_ms D =
     (if \<not> sdb_open D then signal_list_error ST_NOT_OPEN ''SignalRecordDB is not open''
      else if start_ms < 0 \<or> stop_ms < 0 \<or> start_ms > stop_ms
      then signal_list_error ST_INVALID_ARGUMENT ''SignalRecord timestamp range is invalid''
      else \<lparr>slr_status = ST_SUCCESS, slr_records = sort_signals
             (filter (\<lambda>r. signal_timestamp_ms r \<ge> start_ms \<and> signal_timestamp_ms r \<le> stop_ms)
               (signal_rows T (timestamp_ms_to_unix_minutes (so_ms_to_min T) start_ms)
                  (timestamp_ms_to_unix_minutes (so_ms_to_min T) stop_ms) D)), slr_message = []\<rparr>)"

definition find_signals :: "('r, 's, 'i) signal_ops \<Rightarrow> ('r, 's, 'i) signal_db \<Rightarrow> signal_list_result" where
  "find_signals T D =
     (if \<not> sdb_open D then signal_list_error ST_NOT_OPEN ''SignalRecordDB is not open''
      else \<lparr>slr_status = ST_SUCCESS, slr_records = sort_signals (signal_rows T (- 2147483648) 2147483647 D), slr_message = []\<rparr>)"

definition find_signals_vector :: "('r, 's, 'i) signal_ops \<Rightarrow> ('r, 's, 'i) signal_db \<Rightarrow> signal_record list" where
  "find_signals_vector T D = (if slr_status (find_signals T D) = ST_SUCCESS then slr_records (find_signals T D) else [])"

definition signal_count :: "('r, 's, 'i) signal_ops \<Rightarrow> ('r, 's, 'i) signal_db \<Rightarrow> nat" where
  "signal_count T D = (if sdb_open D then length (tb_rows (so_records T) (sdb_records D)) else 0)"

end
