(* ===== verification/SignalDBLaws.thy ===== *)
theory SignalDBLaws
  imports SignalDB TradeDBLaws
begin

section \<open>What the signal record database guarantees\<close>

text \<open>
  The invariant that ties the rows to both indexes, so that no trade belongs to two signals, and the refinement
  of every write to an operation on a map from signal identifiers to records.
\<close>

subsection \<open>The invariant\<close>

definition sdb_laws :: "('r, 's, 'i) signal_ops \<Rightarrow> bool" where
  "sdb_laws T \<longleftrightarrow> table_laws (so_records T) \<and> table_laws (so_sid T) \<and> table_laws (so_tid T)"

lemma sdb_lawsD:
  assumes "sdb_laws T"
  shows "table_laws (so_records T)" "table_laws (so_sid T)" "table_laws (so_tid T)"
  using assms by (simp_all add: sdb_laws_def)

abbreviation row_at :: "('r, 's, 'i) signal_ops \<Rightarrow> ('r, 's, 'i) signal_db \<Rightarrow> u64 \<Rightarrow> signal_record option" where
  "row_at T D \<equiv> tb_find (so_records T) (sdb_records D)"

abbreviation sid_at :: "('r, 's, 'i) signal_ops \<Rightarrow> ('r, 's, 'i) signal_db \<Rightarrow> u32 \<Rightarrow> u64 option" where
  "sid_at T D \<equiv> tb_find (so_sid T) (sdb_sid D)"

abbreviation tid_at :: "('r, 's, 'i) signal_ops \<Rightarrow> ('r, 's, 'i) signal_db \<Rightarrow> u32 \<Rightarrow> u64 option" where
  "tid_at T D \<equiv> tb_find (so_tid T) (sdb_tid D)"

definition sdb_ok :: "('r, 's, 'i) signal_ops \<Rightarrow> ('r, 's, 'i) signal_db \<Rightarrow> bool" where
  "sdb_ok T D \<longleftrightarrow>
     (\<forall>k r. row_at T D k = Some r \<longrightarrow> srec_signal_id r \<noteq> 0 \<and> k = signal_key T r \<and> sid_at T D (srec_signal_id r) = Some k \<and>
        (\<forall>t\<in>set (srec_trade_ids r). t \<noteq> 0 \<longrightarrow> tid_at T D t = Some k)) \<and>
     (\<forall>i k. sid_at T D i = Some k \<longrightarrow> (\<exists>r. row_at T D k = Some r \<and> srec_signal_id r = i)) \<and>
     (\<forall>t k. tid_at T D t = Some k \<longrightarrow> (\<exists>r. row_at T D k = Some r \<and> t \<in> set (srec_trade_ids r) \<and> t \<noteq> 0))"

text \<open>The database as a map from signal identifiers to records.\<close>

definition sdb_view :: "('r, 's, 'i) signal_ops \<Rightarrow> ('r, 's, 'i) signal_db \<Rightarrow> u32 \<Rightarrow> signal_record option" where
  "sdb_view T D i = (case sid_at T D i of None \<Rightarrow> None | Some k \<Rightarrow> row_at T D k)"

lemma sdb_row:
  assumes "sdb_ok T D" and "row_at T D k = Some r"
  shows "srec_signal_id r \<noteq> 0" "k = signal_key T r" "sid_at T D (srec_signal_id r) = Some k"
    and "t \<in> set (srec_trade_ids r) \<Longrightarrow> t \<noteq> 0 \<Longrightarrow> tid_at T D t = Some k"
  using assms unfolding sdb_ok_def by blast+

lemma sdb_sid_row:
  assumes "sdb_ok T D" and "sid_at T D i = Some k"
  obtains r where "row_at T D k = Some r" "srec_signal_id r = i" "i \<noteq> 0"
proof -
  from assms obtain r where r: "row_at T D k = Some r" "srec_signal_id r = i" unfolding sdb_ok_def by blast
  with sdb_row(1) [OF assms(1) r(1)] that show thesis by simp
qed

lemma sdb_tid_row:
  assumes "sdb_ok T D" and "tid_at T D t = Some k"
  obtains r where "row_at T D k = Some r" "t \<in> set (srec_trade_ids r)" "t \<noteq> 0"
  using assms unfolding sdb_ok_def by blast

lemma sdb_view_iff:
  assumes "sdb_ok T D"
  shows "sdb_view T D i = Some r \<longleftrightarrow> row_at T D (signal_key T r) = Some r \<and> srec_signal_id r = i"
proof
  assume "sdb_view T D i = Some r"
  then obtain k where k: "sid_at T D i = Some k" "row_at T D k = Some r" by (auto simp: sdb_view_def split: option.splits)
  obtain s where "row_at T D k = Some s" "srec_signal_id s = i" by (rule sdb_sid_row [OF assms k(1)])
  with k(2) sdb_row(2) [OF assms k(2)] show "row_at T D (signal_key T r) = Some r \<and> srec_signal_id r = i" by simp
next
  assume "row_at T D (signal_key T r) = Some r \<and> srec_signal_id r = i"
  with sdb_row(3) [OF assms, of "signal_key T r" r] show "sdb_view T D i = Some r" by (auto simp: sdb_view_def)
qed

lemma signal_key_eq:
  assumes "signal_key T r = signal_key T s"
  shows "srec_signal_id r = srec_signal_id s"
proof -
  note u = unix_minutes_range [of "so_ms_to_min T"]
  show ?thesis
    using composite_inj [OF conjunct1 [OF u] conjunct2 [OF u] conjunct1 [OF u] conjunct2 [OF u]]
      assms [unfolded signal_key_def] by blast
qed

subsection \<open>The indexes as functions\<close>

text \<open>What \<open>erase_if_same_signal\<close> leaves of an entry.\<close>

definition kept_entry :: "(u64 \<Rightarrow> signal_record option) \<Rightarrow> u32 \<Rightarrow> u64 option \<Rightarrow> u64 option" where
  "kept_entry rows signal e = (case e of None \<Rightarrow> None | Some k \<Rightarrow>
     (case rows k of None \<Rightarrow> None | Some x \<Rightarrow> if srec_signal_id x = signal then None else Some k))"

lemma kept_twice: "kept_entry rows signal (kept_entry rows signal e) = kept_entry rows signal e"
  by (auto simp: kept_entry_def split: option.splits)

lemma erase_if_find:
  assumes "table_laws I"
  shows "tb_find I (erase_if_same_signal R rows signal I key x) key' =
    (if key' = key then kept_entry (tb_find R rows) signal (tb_find I x key) else tb_find I x key')"
  by (auto simp: erase_if_same_signal_def kept_entry_def tables(2) [OF assms] split: option.splits)

lemma erase_fold_find:
  assumes "table_laws I"
  shows "tb_find I (fold (\<lambda>t ix. if t = 0 then ix else erase_if_same_signal R rows signal I t ix) ts x) key =
    (if key \<noteq> 0 \<and> key \<in> set ts then kept_entry (tb_find R rows) signal (tb_find I x key) else tb_find I x key)"
  by (induction ts arbitrary: x) (auto simp: erase_if_find [OF assms] kept_twice)

lemma put_fold_find:
  assumes "table_laws I"
  shows "tb_find I (fold (\<lambda>t ix. if t = 0 then ix else tb_put I ix t k) ts x) key =
    (if key \<noteq> 0 \<and> key \<in> set ts then Some k else tb_find I x key)"
  by (induction ts arbitrary: x) (auto simp: tables(1) [OF assms])

lemma signal_meta_frame [simp]:
  "sdb_records (signal_last_update now D) = sdb_records D" "sdb_sid (signal_last_update now D) = sdb_sid D"
  "sdb_tid (signal_last_update now D) = sdb_tid D" "sdb_open (signal_last_update now D) = sdb_open D"
  "sdb_read_only (signal_last_update now D) = sdb_read_only D"
  "sdb_records (bump_next_signal_id i D) = sdb_records D" "sdb_sid (bump_next_signal_id i D) = sdb_sid D"
  "sdb_tid (bump_next_signal_id i D) = sdb_tid D" "sdb_open (bump_next_signal_id i D) = sdb_open D"
  "sdb_read_only (bump_next_signal_id i D) = sdb_read_only D"
  "sdb_records (signal_init_meta D) = sdb_records D" "sdb_sid (signal_init_meta D) = sdb_sid D"
  "sdb_tid (signal_init_meta D) = sdb_tid D" "sdb_open (signal_init_meta D) = sdb_open D"
  "sdb_read_only (signal_init_meta D) = sdb_read_only D"
  by (simp_all add: signal_last_update_def bump_next_signal_id_def signal_init_meta_def Let_def)

lemma remove_indexes_frame [simp]:
  "sdb_records (remove_indexes T r D) = sdb_records D" "sdb_open (remove_indexes T r D) = sdb_open D"
  "sdb_read_only (remove_indexes T r D) = sdb_read_only D"
  by (simp_all add: remove_indexes_def)

text \<open>Removing the indexes of a stored record drops exactly the entries that lead to it.\<close>

lemma remove_indexes_find:
  assumes laws: "sdb_laws T" and ok: "sdb_ok T D" and r: "row_at T D k = Some r"
  shows "sid_at T (remove_indexes T r D) i = (if i = srec_signal_id r then None else sid_at T D i)"
    and "tid_at T (remove_indexes T r D) t = (if tid_at T D t = Some k then None else tid_at T D t)"
proof -
  note L = sdb_lawsD [OF laws]
  note R = sdb_row [OF ok r]
  have nz: "srec_signal_id r > 0" using R(1) by (simp add: word_gt_0)
  have self: "kept_entry (row_at T D) (srec_signal_id r) (Some k) = None" by (simp add: kept_entry_def r)
  show "sid_at T (remove_indexes T r D) i = (if i = srec_signal_id r then None else sid_at T D i)"
    using nz R(3) self by (simp add: remove_indexes_def erase_if_find [OF L(2)])
  have entry: "t \<in> set (srec_trade_ids r) \<and> t \<noteq> 0" if "tid_at T D t = Some k"
    using sdb_tid_row [OF ok that] r by (metis option.inject)
  show "tid_at T (remove_indexes T r D) t = (if tid_at T D t = Some k then None else tid_at T D t)"
    using entry R(4) [of t] self by (auto simp: remove_indexes_def erase_fold_find [OF L(3)])
qed

subsection \<open>Storing refines a map update\<close>

lemma store_signal_frame [simp]:
  "sdb_open (store_signal T now r D) = sdb_open D" "sdb_read_only (store_signal T now r D) = sdb_read_only D"
  by (auto simp: store_signal_def drop_old_signal_def write_indexes_def Let_def split: option.split)

lemma drop_old_find:
  fixes T :: "('r, 's, 'i) signal_ops" and D :: "('r, 's, 'i) signal_db" and r :: signal_record
  assumes laws: "sdb_laws T" and ok: "sdb_ok T D"
  defines "k0 \<equiv> sid_at T D (srec_signal_id r)"
  shows "k \<noteq> signal_key T r \<Longrightarrow> row_at T (drop_old_signal T r D) k = (if k0 = Some k then None else row_at T D k)"
    and "sid_at T (drop_old_signal T r D) i = (if i = srec_signal_id r then None else sid_at T D i)"
    and "tid_at T (drop_old_signal T r D) t = (if k0 \<noteq> None \<and> tid_at T D t = k0 then None else tid_at T D t)"
proof -
  note L = sdb_lawsD [OF laws]
  have "(k \<noteq> signal_key T r \<longrightarrow> row_at T (drop_old_signal T r D) k = (if k0 = Some k then None else row_at T D k)) \<and>
    sid_at T (drop_old_signal T r D) i = (if i = srec_signal_id r then None else sid_at T D i) \<and>
    tid_at T (drop_old_signal T r D) t = (if k0 \<noteq> None \<and> tid_at T D t = k0 then None else tid_at T D t)"
  proof (cases k0)
    case None
    then show ?thesis by (simp add: drop_old_signal_def k0_def)
  next
    case (Some e)
    obtain old where old: "row_at T D e = Some old" "srec_signal_id old = srec_signal_id r"
      using sdb_sid_row [OF ok] Some by (metis k0_def)
    show ?thesis
      using Some old remove_indexes_find [OF laws ok old(1)]
      by (simp add: drop_old_signal_def Let_def tables(2) [OF L(1)] flip: k0_def)
  qed
  then show "k \<noteq> signal_key T r \<Longrightarrow> row_at T (drop_old_signal T r D) k = (if k0 = Some k then None else row_at T D k)"
    and "sid_at T (drop_old_signal T r D) i = (if i = srec_signal_id r then None else sid_at T D i)"
    and "tid_at T (drop_old_signal T r D) t = (if k0 \<noteq> None \<and> tid_at T D t = k0 then None else tid_at T D t)"
    by blast+
qed

lemma store_find:
  fixes T :: "('r, 's, 'i) signal_ops" and D :: "('r, 's, 'i) signal_db" and r :: signal_record and now :: int
  assumes laws: "sdb_laws T" and ok: "sdb_ok T D" and id: "srec_signal_id r \<noteq> 0"
  defines "k0 \<equiv> sid_at T D (srec_signal_id r)" and "E \<equiv> store_signal T now r D"
  shows "row_at T E k = (if k = signal_key T r then Some r else if k0 = Some k then None else row_at T D k)"
    and "sid_at T E i = (if i = srec_signal_id r then Some (signal_key T r) else sid_at T D i)"
    and "tid_at T E t = (if t \<noteq> 0 \<and> t \<in> set (srec_trade_ids r) then Some (signal_key T r)
      else if k0 \<noteq> None \<and> tid_at T D t = k0 then None else tid_at T D t)"
proof -
  note L = sdb_lawsD [OF laws]
  have nz: "srec_signal_id r > 0" using id by (simp add: word_gt_0)
  show "row_at T E k = (if k = signal_key T r then Some r else if k0 = Some k then None else row_at T D k)"
    using drop_old_find(1) [OF laws ok, of k r] by (simp add: E_def k0_def store_signal_def write_indexes_def Let_def tables(1) [OF L(1)])
  show "sid_at T E i = (if i = srec_signal_id r then Some (signal_key T r) else sid_at T D i)"
    using nz by (simp add: E_def store_signal_def write_indexes_def Let_def tables(1) [OF L(2)] drop_old_find(2) [OF laws ok])
  show "tid_at T E t = (if t \<noteq> 0 \<and> t \<in> set (srec_trade_ids r) then Some (signal_key T r)
      else if k0 \<noteq> None \<and> tid_at T D t = k0 then None else tid_at T D t)"
    by (simp add: E_def store_signal_def write_indexes_def Let_def put_fold_find [OF L(3)]
      drop_old_find(3) [OF laws ok] k0_def)
qed

text \<open>No trade of the record belongs to another signal.\<close>

definition trades_free :: "('r, 's, 'i) signal_ops \<Rightarrow> signal_record \<Rightarrow> ('r, 's, 'i) signal_db \<Rightarrow> bool" where
  "trades_free T r D \<longleftrightarrow> (\<forall>t\<in>set (srec_trade_ids r). t \<noteq> 0 \<longrightarrow>
     tid_at T D t = None \<or> tid_at T D t = sid_at T D (srec_signal_id r))"

lemma store_signal_ok:
  assumes laws: "sdb_laws T" and ok: "sdb_ok T D" and id: "srec_signal_id r \<noteq> 0" and free: "trades_free T r D"
  shows "sdb_ok T (store_signal T now r D)"
proof -
  let ?E = "store_signal T now r D"
  note f = store_find [OF laws ok id, of now]
  have row: "srec_signal_id q \<noteq> 0 \<and> k = signal_key T q \<and> sid_at T ?E (srec_signal_id q) = Some k \<and>
      (\<forall>t\<in>set (srec_trade_ids q). t \<noteq> 0 \<longrightarrow> tid_at T ?E t = Some k)" if q: "row_at T ?E k = Some q" for k q
  proof (cases "k = signal_key T r")
    case True
    then have "q = r" using q by (simp add: f)
    show ?thesis unfolding \<open>q = r\<close> using True id by (simp add: f)
  next
    case False
    then have o: "row_at T D k = Some q" "sid_at T D (srec_signal_id r) \<noteq> Some k" using q by (auto simp: f split: if_splits)
    note R = sdb_row [OF ok o(1)]
    have "srec_signal_id q \<noteq> srec_signal_id r" using R(3) o(2) by auto
    moreover have "tid_at T ?E t = Some k" if t: "t \<in> set (srec_trade_ids q)" "t \<noteq> 0" for t
      using R(4) [OF t] o(2) free t by (auto simp: f trades_free_def)
    ultimately show ?thesis using R(1-3) by (simp add: f)
  qed
  have sid: "\<exists>q. row_at T ?E k = Some q \<and> srec_signal_id q = i" if s: "sid_at T ?E i = Some k" for i k
  proof (cases "i = srec_signal_id r")
    case True
    then show ?thesis using s by (simp add: f)
  next
    case False
    then have "sid_at T D i = Some k" using s by (simp add: f)
    then obtain q where q: "row_at T D k = Some q" "srec_signal_id q = i" by (rule sdb_sid_row [OF ok])
    have "k \<noteq> signal_key T r" using sdb_row(2) [OF ok q(1)] signal_key_eq [of T q r] q(2) False by auto
    moreover have "sid_at T D (srec_signal_id r) \<noteq> Some k"
      using sdb_sid_row [OF ok, of "srec_signal_id r" k] q False by (metis option.inject)
    ultimately show ?thesis using q by (simp add: f)
  qed
  have tid: "\<exists>q. row_at T ?E k = Some q \<and> t \<in> set (srec_trade_ids q) \<and> t \<noteq> 0" if s: "tid_at T ?E t = Some k" for t k
  proof (cases "t \<noteq> 0 \<and> t \<in> set (srec_trade_ids r)")
    case True
    then show ?thesis using s by (simp add: f)
  next
    case False
    then have o: "tid_at T D t = Some k" "sid_at T D (srec_signal_id r) \<noteq> Some k" using s by (auto simp: f split: if_splits)
    obtain q where q: "row_at T D k = Some q" "t \<in> set (srec_trade_ids q)" "t \<noteq> 0" by (rule sdb_tid_row [OF ok o(1)])
    have "k \<noteq> signal_key T r"
      using sdb_row(2,3) [OF ok q(1)] signal_key_eq [of T q r] o(2) by auto
    then show ?thesis using q o(2) by (simp add: f)
  qed
  show ?thesis unfolding sdb_ok_def using row sid tid by blast
qed

lemma store_signal_view:
  assumes laws: "sdb_laws T" and ok: "sdb_ok T D" and id: "srec_signal_id r \<noteq> 0"
  shows "sdb_view T (store_signal T now r D) = (sdb_view T D)(srec_signal_id r \<mapsto> r)"
proof
  fix i
  note f = store_find [OF laws ok id, of now]
  show "sdb_view T (store_signal T now r D) i = ((sdb_view T D)(srec_signal_id r \<mapsto> r)) i"
  proof (cases "i = srec_signal_id r")
    case False
    have "k \<noteq> signal_key T r \<and> sid_at T D (srec_signal_id r) \<noteq> Some k" if s: "sid_at T D i = Some k" for k
    proof -
      obtain q where q: "row_at T D k = Some q" "srec_signal_id q = i" by (rule sdb_sid_row [OF ok s])
      then show ?thesis
        using sdb_row(2) [OF ok q(1)] signal_key_eq [of T q r] False sdb_sid_row [OF ok, of "srec_signal_id r" k]
        by (metis option.inject)
    qed
    then show ?thesis using False by (auto simp: sdb_view_def f split: option.split)
  qed (simp add: sdb_view_def f)
qed

text \<open>Erasing a stored signal takes its row and every index entry that leads to it.\<close>

lemma erase_signal_ok:
  fixes T :: "('r, 's, 'i) signal_ops" and D E :: "('r, 's, 'i) signal_db" and r :: signal_record
  assumes laws: "sdb_laws T" and ok: "sdb_ok T D" and r: "row_at T D k = Some r"
    and E: "E = (remove_indexes T r D)\<lparr>sdb_records := tb_erase (so_records T) (sdb_records D) k\<rparr>"
  shows "sdb_ok T E" "sdb_view T E = (sdb_view T D)(srec_signal_id r := None)"
proof -
  note L = sdb_lawsD [OF laws]
  have row: "row_at T E k' = (if k' = k then None else row_at T D k')" for k' by (simp add: E tables(2) [OF L(1)])
  have sid: "sid_at T E i = (if i = srec_signal_id r then None else sid_at T D i)" for i
    using remove_indexes_find(1) [OF laws ok r] by (simp add: E)
  have tid: "tid_at T E t = (if tid_at T D t = Some k then None else tid_at T D t)" for t
    using remove_indexes_find(2) [OF laws ok r] by (simp add: E)
  have other: "srec_signal_id q \<noteq> srec_signal_id r" if "row_at T D k' = Some q" "k' \<noteq> k" for k' q
    using sdb_row(3) [OF ok that(1)] sdb_row(3) [OF ok r] that(2) by auto
  have keep: "k' \<noteq> k" if "sid_at T D i = Some k'" "i \<noteq> srec_signal_id r" for i k'
    using sdb_sid_row [OF ok that(1)] that(2) r by (metis option.inject)
  have 1: "srec_signal_id q \<noteq> 0 \<and> k' = signal_key T q \<and> sid_at T E (srec_signal_id q) = Some k' \<and>
      (\<forall>t\<in>set (srec_trade_ids q). t \<noteq> 0 \<longrightarrow> tid_at T E t = Some k')" if q: "row_at T E k' = Some q" for k' q
  proof -
    have o: "row_at T D k' = Some q" "k' \<noteq> k" using q by (auto simp: row split: if_splits)
    show ?thesis using sdb_row [OF ok o(1)] other [OF o] o(2) by (simp add: sid tid)
  qed
  have 2: "\<exists>q. row_at T E k' = Some q \<and> srec_signal_id q = i" if "sid_at T E i = Some k'" for i k'
  proof -
    have o: "sid_at T D i = Some k'" "i \<noteq> srec_signal_id r" using that by (auto simp: sid split: if_splits)
    show ?thesis using sdb_sid_row [OF ok o(1)] keep [OF o] by (metis row)
  qed
  have 3: "\<exists>q. row_at T E k' = Some q \<and> t \<in> set (srec_trade_ids q) \<and> t \<noteq> 0" if "tid_at T E t = Some k'" for t k'
  proof -
    have o: "tid_at T D t = Some k'" "k' \<noteq> k" using that by (auto simp: tid split: if_splits)
    show ?thesis using sdb_tid_row [OF ok o(1)] o(2) by (metis row)
  qed
  show "sdb_ok T E" unfolding sdb_ok_def using 1 2 3 by blast
  show "sdb_view T E = (sdb_view T D)(srec_signal_id r := None)"
    by (rule ext) (use keep in \<open>auto simp: sdb_view_def sid row split: option.split\<close>)
qed

subsection \<open>Which signal a trade belongs to\<close>

definition claims :: "(u32 \<Rightarrow> signal_record option) \<Rightarrow> u32 \<Rightarrow> u32 \<Rightarrow> bool" where
  "claims m t i \<longleftrightarrow> t \<noteq> 0 \<and> (\<exists>r. m i = Some r \<and> t \<in> set (srec_trade_ids r))"

lemma claims_iff:
  assumes ok: "sdb_ok T D"
  shows "claims (sdb_view T D) t i \<longleftrightarrow> (\<exists>k r. tid_at T D t = Some k \<and> row_at T D k = Some r \<and> srec_signal_id r = i)"
proof
  assume "claims (sdb_view T D) t i"
  then obtain r where r: "t \<noteq> 0" "sdb_view T D i = Some r" "t \<in> set (srec_trade_ids r)" by (auto simp: claims_def)
  with sdb_view_iff [OF ok, of i r] have "row_at T D (signal_key T r) = Some r" "srec_signal_id r = i" by blast+
  then show "\<exists>k r. tid_at T D t = Some k \<and> row_at T D k = Some r \<and> srec_signal_id r = i"
    using sdb_row(4) [OF ok _ r(3,1)] by blast
next
  assume "\<exists>k r. tid_at T D t = Some k \<and> row_at T D k = Some r \<and> srec_signal_id r = i"
  then obtain k r where k: "tid_at T D t = Some k" "row_at T D k = Some r" "srec_signal_id r = i" by blast
  have "t \<in> set (srec_trade_ids r)" "t \<noteq> 0" using sdb_tid_row [OF ok k(1)] k(2) by (metis option.inject)+
  moreover have "sdb_view T D i = Some r" using sdb_view_iff [OF ok, of i r] sdb_row(2) [OF ok k(2)] k(2,3) by simp
  ultimately show "claims (sdb_view T D) t i" by (auto simp: claims_def)
qed

lemma claims_unique:
  "sdb_ok T D \<Longrightarrow> claims (sdb_view T D) t i \<Longrightarrow> claims (sdb_view T D) t j \<Longrightarrow> i = j"
  unfolding claims_iff by (metis option.inject)

lemma claims_zero: "claims m 0 i \<longleftrightarrow> False"
  by (simp add: claims_def)

lemma no_entry_no_claim: "sdb_ok T D \<Longrightarrow> t = 0 \<or> tid_at T D t = None \<Longrightarrow> \<not> claims (sdb_view T D) t j"
  by (cases "t = 0") (simp_all add: claims_zero claims_iff)

definition taken :: "(u32 \<Rightarrow> signal_record option) \<Rightarrow> u32 \<Rightarrow> u32 list \<Rightarrow> bool" where
  "taken m i ts \<longleftrightarrow> (\<exists>t\<in>set ts. \<exists>j. j \<noteq> i \<and> claims m t j)"

lemma conflict_loop_exact:
  assumes ok: "sdb_ok T D"
  shows "conflict_loop T i ts D = (taken (sdb_view T D) i ts, D)"
proof (induction ts)
  case (Cons t ts)
  show ?case
  proof (cases "t = 0 \<or> tid_at T D t = None")
    case True
    then have "\<not> claims (sdb_view T D) t j" for j by (rule no_entry_no_claim [OF ok])
    then have "taken (sdb_view T D) i (t # ts) = taken (sdb_view T D) i ts" by (simp add: taken_def)
    with True Cons show ?thesis by auto
  next
    case False
    then obtain k r where k: "tid_at T D t = Some k" "row_at T D k = Some r" using sdb_tid_row [OF ok] by blast
    have "claims (sdb_view T D) t j \<longleftrightarrow> j = srec_signal_id r" for j using k by (auto simp: claims_iff [OF ok])
    then have "taken (sdb_view T D) i (t # ts) \<longleftrightarrow> srec_signal_id r \<noteq> i \<or> taken (sdb_view T D) i ts"
      by (auto simp: taken_def)
    then show ?thesis using k False Cons by simp
  qed
qed (simp add: taken_def)

lemma not_taken_free:
  assumes ok: "sdb_ok T D" and nt: "\<not> taken (sdb_view T D) (srec_signal_id r) (srec_trade_ids r)"
  shows "trades_free T r D"
  unfolding trades_free_def
proof (intro ballI impI)
  fix t assume t: "t \<in> set (srec_trade_ids r)" "t \<noteq> 0"
  show "tid_at T D t = None \<or> tid_at T D t = sid_at T D (srec_signal_id r)"
  proof (cases "tid_at T D t")
    case (Some k)
    obtain q where q: "row_at T D k = Some q" by (rule sdb_tid_row [OF ok Some])
    have "claims (sdb_view T D) t (srec_signal_id q)" using Some q by (auto simp: claims_iff [OF ok])
    then have "srec_signal_id q = srec_signal_id r" using nt t by (auto simp: taken_def)
    then show ?thesis using sdb_row(3) [OF ok q] Some by simp
  qed simp
qed

text \<open>The first of the trades that belongs to a signal belongs to this one; 0 when none does.\<close>

fun first_signal :: "(u32 \<Rightarrow> signal_record option) \<Rightarrow> u32 list \<Rightarrow> u32 \<Rightarrow> bool" where
  "first_signal m [] i \<longleftrightarrow> i = 0"
| "first_signal m (t # ts) i \<longleftrightarrow> claims m t i \<or> (\<forall>j. \<not> claims m t j) \<and> first_signal m ts i"

lemma signal_of_trades_exact:
  assumes ok: "sdb_ok T D"
  shows "\<exists>i. signal_of_trades T ts D = (i, D) \<and> first_signal (sdb_view T D) ts i"
proof (induction ts)
  case (Cons t ts)
  show ?case
  proof (cases "t = 0 \<or> tid_at T D t = None")
    case True
    then have "\<not> claims (sdb_view T D) t j" for j by (rule no_entry_no_claim [OF ok])
    with True Cons show ?thesis by auto
  next
    case False
    then obtain k r where k: "tid_at T D t = Some k" "row_at T D k = Some r" using sdb_tid_row [OF ok] by blast
    have "claims (sdb_view T D) t (srec_signal_id r)" using k by (auto simp: claims_iff [OF ok])
    then show ?thesis using k False by simp
  qed
qed simp

subsection \<open>Identifiers\<close>

definition same_signal_tables :: "('r, 's, 'i) signal_db \<Rightarrow> ('r, 's, 'i) signal_db \<Rightarrow> bool" where
  "same_signal_tables D E \<longleftrightarrow> sdb_records D = sdb_records E \<and> sdb_sid D = sdb_sid E \<and> sdb_tid D = sdb_tid E \<and>
     sdb_open D = sdb_open E \<and> sdb_read_only D = sdb_read_only E"

lemma same_signal_tablesD:
  assumes "same_signal_tables D E"
  shows "sdb_ok T D = sdb_ok T E" "sdb_view T D = sdb_view T E" "sdb_open D = sdb_open E" "sdb_read_only D = sdb_read_only E"
  using assms by (auto simp: same_signal_tables_def sdb_ok_def sdb_view_def split: option.split)

lemma sid_contains_view: "sdb_ok T D \<Longrightarrow> sid_contains T D i \<longleftrightarrow> sdb_view T D i \<noteq> None"
proof -
  assume ok: "sdb_ok T D"
  show ?thesis
  proof (cases "sid_at T D i")
    case (Some k)
    obtain r where "row_at T D k = Some r" by (rule sdb_sid_row [OF ok Some])
    then show ?thesis using Some by (simp add: sid_contains_def sdb_view_def)
  qed (simp add: sid_contains_def sdb_view_def)
qed

lemma reserve_signal_id_post:
  assumes ok: "sdb_ok T D"
  obtains i D' where "reserve_signal_id T D = Some (i, D')" "same_signal_tables D' D"
    "if i = 0 then D' = D \<and> (\<forall>j. j \<noteq> 0 \<longrightarrow> sdb_view T D j \<noteq> None) else sdb_view T D i = None"
proof -
  define start where "start = (if smeta_next_signal_id (signal_meta_get D) = 0 then 1 else smeta_next_signal_id (signal_meta_get D))"
  have "start \<noteq> 0" by (simp add: start_def)
  from reserve_search [OF this, of "sid_contains T D"]
  obtain c where c: "reserve_loop (sid_contains T D) start start False = Some c"
    "if c = 0 then (\<forall>i. i \<noteq> 0 \<longrightarrow> sid_contains T D i) else \<not> sid_contains T D c"
    unfolding reserve_post_def by blast
  have "\<exists>D'. reserve_signal_id T D = Some (c, D') \<and> same_signal_tables D' D \<and> (c = 0 \<longrightarrow> D' = D)"
    using c(1) by (simp add: reserve_signal_id_def Let_def same_signal_tables_def flip: start_def)
  then show thesis using that c(2) unfolding sid_contains_view [OF ok] by (metis (full_types))
qed

subsection \<open>Every call refines an operation on the map\<close>

definition sdb_ready :: "('r, 's, 'i) signal_ops \<Rightarrow> ('r, 's, 'i) signal_db \<Rightarrow> bool" where
  "sdb_ready T D \<longleftrightarrow> sdb_open D \<and> \<not> sdb_read_only D \<and> sdb_ok T D"

datatype signal_call = SC_WRITE signal_record | SC_UPSERT signal_record | SC_ERASE u32 | SC_CLEAR | SC_RESERVE

text \<open>One call at a time \<open>now\<close>: its status and the database after it. A search for an identifier that did not end
  would have no result.\<close>

fun signal_result :: "('r, 's, 'i) signal_ops \<Rightarrow> int \<Rightarrow> signal_call \<Rightarrow> ('r, 's, 'i) signal_db \<Rightarrow> (storage_status \<times> ('r, 's, 'i) signal_db) option" where
  "signal_result T now (SC_WRITE r) D = Some (map_prod swr_status id (signal_write T now r D))"
| "signal_result T now (SC_UPSERT r) D = map_option (map_prod swr_status id) (signal_upsert T now r D)"
| "signal_result T now (SC_ERASE i) D = Some (signal_erase T now i D)"
| "signal_result T now SC_CLEAR D = Some (signal_clear T now D)"
| "signal_result T now SC_RESERVE D = map_option (map_prod (\<lambda>_. ST_SUCCESS) id) (get_signal_id T now D)"

text \<open>The specification, on the map of signals.\<close>

definition map_write ::
  "signal_record \<Rightarrow> (u32 \<Rightarrow> signal_record option) \<Rightarrow> storage_status \<Rightarrow> (u32 \<Rightarrow> signal_record option) \<Rightarrow> bool" where
  "map_write r m st m' \<longleftrightarrow>
     (if taken m (srec_signal_id r) (srec_trade_ids r) then st = ST_CONFLICT \<and> m' = m
      else st = ST_SUCCESS \<and> m' = m(srec_signal_id r \<mapsto> r))"

fun signal_spec ::
  "signal_call \<Rightarrow> (u32 \<Rightarrow> signal_record option) \<Rightarrow> storage_status \<Rightarrow> (u32 \<Rightarrow> signal_record option) \<Rightarrow> bool" where
  "signal_spec (SC_WRITE r) m st m' \<longleftrightarrow>
     (if srec_signal_id r = 0 then st = ST_INVALID_ARGUMENT \<and> m' = m else map_write r m st m')"
| "signal_spec (SC_UPSERT r) m st m' \<longleftrightarrow>
     (if srec_signal_id r \<noteq> 0 then map_write r m st m'
      else \<exists>i. first_signal m (srec_trade_ids r) i \<and>
        (if i \<noteq> 0 then map_write (r\<lparr>srec_signal_id := i\<rparr>) m st m'
         else if \<forall>j. j \<noteq> 0 \<longrightarrow> m j \<noteq> None then st = ST_SEQUENCE_EXHAUSTED \<and> m' = m
         else \<exists>j. j \<noteq> 0 \<and> m j = None \<and> map_write (r\<lparr>srec_signal_id := j\<rparr>) m st m'))"
| "signal_spec (SC_ERASE i) m st m' \<longleftrightarrow>
     m' = m(i := None) \<and> st = (if i = 0 then ST_INVALID_ARGUMENT else if m i = None then ST_NOT_FOUND else ST_SUCCESS)"
| "signal_spec SC_CLEAR m st m' \<longleftrightarrow> st = ST_SUCCESS \<and> m' = Map.empty"
| "signal_spec SC_RESERVE m st m' \<longleftrightarrow> st = ST_SUCCESS \<and> m' = m"

lemma sdb_view_zero: "sdb_ok T D \<Longrightarrow> sdb_view T D 0 = None"
proof -
  assume ok: "sdb_ok T D"
  have "sid_at T D 0 \<noteq> Some k" for k using sdb_sid_row [OF ok, of 0 k] by blast
  then have "sid_at T D 0 = None" by fastforce
  then show ?thesis by (simp add: sdb_view_def)
qed

text \<open>The end that \<open>write\<close> and \<open>upsert\<close> share.\<close>

lemma checked_store:
  assumes laws: "sdb_laws T" and ok: "sdb_ok T D" and id: "srec_signal_id r \<noteq> 0" and s: "same_signal_tables D1 D"
    and w: "sdb_open D" "\<not> sdb_read_only D"
  shows "snd (trade_id_conflicts T r D1) = D1"
    and "fst (trade_id_conflicts T r D1) = taken (sdb_view T D) (srec_signal_id r) (srec_trade_ids r)"
    and "\<not> taken (sdb_view T D) (srec_signal_id r) (srec_trade_ids r) \<Longrightarrow>
      sdb_ready T (store_signal T now r D1) \<and> sdb_view T (store_signal T now r D1) = (sdb_view T D)(srec_signal_id r \<mapsto> r)"
proof -
  note S = same_signal_tablesD [OF s]
  have ok1: "sdb_ok T D1" using ok S(1) by blast
  note c = conflict_loop_exact [OF ok1, of "srec_signal_id r" "srec_trade_ids r"]
  show "snd (trade_id_conflicts T r D1) = D1"
    "fst (trade_id_conflicts T r D1) = taken (sdb_view T D) (srec_signal_id r) (srec_trade_ids r)"
    by (simp_all add: trade_id_conflicts_def c S)
  assume nt: "\<not> taken (sdb_view T D) (srec_signal_id r) (srec_trade_ids r)"
  have "trades_free T r D1" by (rule not_taken_free [OF ok1]) (simp add: nt S)
  then have "sdb_ok T (store_signal T now r D1)" by (rule store_signal_ok [OF laws ok1 id])
  then show "sdb_ready T (store_signal T now r D1) \<and> sdb_view T (store_signal T now r D1) = (sdb_view T D)(srec_signal_id r \<mapsto> r)"
    using store_signal_view [OF laws ok1 id, of now] w by (simp add: sdb_ready_def S)
qed

lemma signal_upsert_id_post:
  assumes ok: "sdb_ok T D"
  obtains i D1 where "signal_upsert_id T r D = Some (i, D1)" "same_signal_tables D1 D"
    "srec_signal_id r \<noteq> 0 \<Longrightarrow> i = srec_signal_id r"
    "srec_signal_id r = 0 \<Longrightarrow> (\<exists>j. first_signal (sdb_view T D) (srec_trade_ids r) j \<and>
       (if j \<noteq> 0 then i = j else if i = 0 then \<forall>j. j \<noteq> 0 \<longrightarrow> sdb_view T D j \<noteq> None else sdb_view T D i = None))"
proof (cases "srec_signal_id r = 0")
  case False
  then show thesis using that [of "srec_signal_id r" D]
    by (simp add: signal_upsert_id_def find_existing_signal_id_def same_signal_tables_def word_gt_0)
next
  case True
  obtain j where j: "signal_of_trades T (srec_trade_ids r) D = (j, D)" "first_signal (sdb_view T D) (srec_trade_ids r) j"
    using signal_of_trades_exact [OF ok] by blast
  obtain i D' where i: "reserve_signal_id T D = Some (i, D')" "same_signal_tables D' D"
    "if i = 0 then D' = D \<and> (\<forall>j. j \<noteq> 0 \<longrightarrow> sdb_view T D j \<noteq> None) else sdb_view T D i = None"
    by (rule reserve_signal_id_post [OF ok])
  have u: "signal_upsert_id T r D = (if j = 0 then Some (i, D') else Some (j, D))"
    using True j(1) i(1) by (simp add: signal_upsert_id_def find_existing_signal_id_def)
  show thesis
  proof (cases "j = 0")
    case jz: True
    show thesis by (rule that [of i D']) (use u jz True i j(2) in \<open>auto split: if_splits\<close>)
  next
    case False
    show thesis by (rule that [of j D]) (use u False True j(2) in \<open>auto simp: same_signal_tables_def\<close>)
  qed
qed

lemma signal_call_refines:
  assumes laws: "sdb_laws T" and rdy: "sdb_ready T D"
  shows "\<exists>st D'. signal_result T now c D = Some (st, D') \<and> sdb_ready T D' \<and> signal_spec c (sdb_view T D) st (sdb_view T D')"
proof -
  have w: "sdb_open D" "\<not> sdb_read_only D" and ok: "sdb_ok T D" using rdy by (simp_all add: sdb_ready_def)
  have refl_s: "same_signal_tables D D" by (simp add: same_signal_tables_def)
  show ?thesis
  proof (cases c)
    case (SC_WRITE r)
    show ?thesis
    proof (cases "srec_signal_id r = 0")
      case True
      then show ?thesis using SC_WRITE w rdy by (simp add: signal_write_def signal_write_error_def)
    next
      case False
      note cs = checked_store [OF laws ok False refl_s w]
      obtain b E where b: "trade_id_conflicts T r D = (b, E)" by (cases "trade_id_conflicts T r D")
      show ?thesis using SC_WRITE w rdy False cs b
        by (cases b) (auto simp: signal_write_def signal_write_error_def signal_write_success_def map_write_def)
    qed
  next
    case (SC_UPSERT r)
    obtain i D1 where u: "signal_upsert_id T r D = Some (i, D1)" "same_signal_tables D1 D"
      and given: "srec_signal_id r \<noteq> 0 \<Longrightarrow> i = srec_signal_id r"
      and found: "srec_signal_id r = 0 \<Longrightarrow> (\<exists>j. first_signal (sdb_view T D) (srec_trade_ids r) j \<and>
       (if j \<noteq> 0 then i = j else if i = 0 then \<forall>j. j \<noteq> 0 \<longrightarrow> sdb_view T D j \<noteq> None else sdb_view T D i = None))"
      by (rule signal_upsert_id_post [OF ok, of r]) blast
    show ?thesis
    proof (cases "i = 0")
      case True
      then have "srec_signal_id r = 0" using given by auto
      with found True have "first_signal (sdb_view T D) (srec_trade_ids r) 0" "\<forall>j. j \<noteq> 0 \<longrightarrow> sdb_view T D j \<noteq> None"
        by (auto split: if_splits)
      then have "signal_spec c (sdb_view T D) ST_SEQUENCE_EXHAUSTED (sdb_view T D)"
        using SC_UPSERT \<open>srec_signal_id r = 0\<close> by auto
      then show ?thesis using SC_UPSERT u True w rdy by (simp add: signal_upsert_def signal_write_error_def)
    next
      case False
      let ?r = "r\<lparr>srec_signal_id := i\<rparr>"
      have id: "srec_signal_id ?r \<noteq> 0" using False by simp
      note cs = checked_store [OF laws ok id u(2) w]
      obtain b E where b: "trade_id_conflicts T ?r D1 = (b, E)" by (cases "trade_id_conflicts T ?r D1")
      have "\<exists>st D'. signal_result T now c D = Some (st, D') \<and> sdb_ready T D' \<and> map_write ?r (sdb_view T D) st (sdb_view T D')"
        using SC_UPSERT w rdy False cs b u(1)
        by (cases b) (auto simp: signal_upsert_def Let_def signal_write_error_def signal_write_success_def map_write_def)
      moreover have "signal_spec c (sdb_view T D) st m'" if "map_write ?r (sdb_view T D) st m'" for st m'
      proof (cases "srec_signal_id r = 0")
        case True
        obtain j where "first_signal (sdb_view T D) (srec_trade_ids r) j" "if j \<noteq> 0 then i = j else sdb_view T D i = None"
          using found [OF True] False by auto
        then show ?thesis using True False that SC_UPSERT by (auto split: if_splits)
      next
        case nz: False
        then show ?thesis using given [OF nz] that SC_UPSERT by simp
      qed
      ultimately show ?thesis by blast
    qed
  next
    case (SC_ERASE i)
    show ?thesis
    proof (cases "i = 0 \<or> sid_at T D i = None")
      case True
      then have "sdb_view T D i = None" using sdb_view_zero [OF ok] by (auto simp: sdb_view_def)
      then show ?thesis using True SC_ERASE w rdy by (auto simp: signal_erase_def fun_upd_idem)
    next
      case False
      then obtain k where k: "sid_at T D i = Some k" "i \<noteq> 0" by auto
      obtain r where r: "row_at T D k = Some r" "srec_signal_id r = i" using sdb_sid_row [OF ok k(1)] by metis
      note e = erase_signal_ok [OF laws ok r(1) refl]
      let ?E = "(remove_indexes T r D)\<lparr>sdb_records := tb_erase (so_records T) (sdb_records D) k\<rparr>"
      have s: "same_signal_tables (signal_last_update now ?E) ?E" by (simp add: same_signal_tables_def)
      have "sdb_view T D i = Some r" using k r by (simp add: sdb_view_def)
      then show ?thesis
        using SC_ERASE w k r e same_signal_tablesD(1,2) [OF s, of T] by (simp add: signal_erase_def sdb_ready_def)
    qed
  next
    case SC_CLEAR
    note L = tables(3) [OF sdb_lawsD(1) [OF laws]] tables(3) [OF sdb_lawsD(2) [OF laws]] tables(3) [OF sdb_lawsD(3) [OF laws]]
    have "sdb_ok T (snd (signal_clear T now D))" "sdb_view T (snd (signal_clear T now D)) = Map.empty"
      using w L by (auto simp: signal_clear_def sdb_ok_def sdb_view_def)
    then show ?thesis using SC_CLEAR w by (simp add: sdb_ready_def signal_clear_def)
  next
    case SC_RESERVE
    obtain i D' where r: "reserve_signal_id T D = Some (i, D')" "same_signal_tables D' D"
      by (rule reserve_signal_id_post [OF ok]) 
    obtain E where e: "get_signal_id T now D = Some (i, E)" "same_signal_tables E D"
      using w r by (cases "i = 0") (simp_all add: get_signal_id_def same_signal_tables_def)
    then show ?thesis
      using SC_RESERVE rdy same_signal_tablesD(1,2) [OF e(2), of T] same_signal_tablesD(3,4) [OF e(2)] by (simp add: sdb_ready_def)
  qed
qed

text \<open>Reading: what a lookup by signal and by trade answers in terms of the map.\<close>

lemma find_signal_by_trade_view:
  assumes ok: "sdb_ok T D" and o: "sdb_open D" and t: "t \<noteq> 0"
  shows "find_signal_by_trade T t D = signal_read_success r \<longleftrightarrow> sdb_view T D (srec_signal_id r) = Some r \<and> t \<in> set (srec_trade_ids r)"
proof (cases "tid_at T D t")
  case None
  then have "\<not> claims (sdb_view T D) t (srec_signal_id r)" using no_entry_no_claim [OF ok] by blast
  then show ?thesis using None o t
    by (auto simp: find_signal_by_trade_def signal_read_error_def signal_read_success_def claims_def)
next
  case (Some k)
  obtain q where q: "row_at T D k = Some q" "t \<in> set (srec_trade_ids q)" by (rule sdb_tid_row [OF ok Some])
  have f: "find_signal_by_trade T t D = signal_read_success q"
    using o t Some q by (simp add: find_signal_by_trade_def has_trade_id_def)
  have v: "sdb_view T D (srec_signal_id q) = Some q"
    using sdb_view_iff [OF ok] sdb_row(2) [OF ok q(1)] q(1) by simp
  have "r = q" if "sdb_view T D (srec_signal_id r) = Some r" "t \<in> set (srec_trade_ids r)"
  proof -
    have "claims (sdb_view T D) t (srec_signal_id r)" unfolding claims_def using that t by blast
    moreover have "claims (sdb_view T D) t (srec_signal_id q)" unfolding claims_def using v q(2) t by blast
    ultimately have "srec_signal_id r = srec_signal_id q" by (rule claims_unique [OF ok])
    then show ?thesis using that(1) v by (metis option.inject)
  qed
  then have "q = r \<longleftrightarrow> sdb_view T D (srec_signal_id r) = Some r \<and> t \<in> set (srec_trade_ids r)" using v q(2) by blast
  moreover have "signal_read_success q = signal_read_success r \<longleftrightarrow> q = r" by (simp only: signal_read_success_def signal_read_result.iffs simp_thms)
  ultimately show ?thesis unfolding f by simp
qed

lemma find_by_signal_id_view:
  assumes ok: "sdb_ok T D" and o: "sdb_open D" and i: "i \<noteq> 0"
  shows "find_by_signal_id T i D = (case sdb_view T D i of
     None \<Rightarrow> signal_read_error ST_NOT_FOUND ''SignalRecord was not found'' | Some r \<Rightarrow> signal_read_success r)"
proof (cases "sid_at T D i")
  case (Some k)
  obtain r where "row_at T D k = Some r" "srec_signal_id r = i" using sdb_sid_row [OF ok Some] by metis
  then show ?thesis using o i Some by (simp add: find_by_signal_id_def sdb_view_def)
qed (use o i in \<open>simp add: find_by_signal_id_def sdb_view_def\<close>)

subsection \<open>Runs\<close>

definition signal_step :: "('r, 's, 'i) signal_ops \<Rightarrow> ('r, 's, 'i) signal_db \<Rightarrow> int \<times> signal_call \<Rightarrow> ('r, 's, 'i) signal_db" where
  "signal_step T D e = (case signal_result T (fst e) (snd e) D of None \<Rightarrow> D | Some x \<Rightarrow> snd x)"

interpretation signal_machine: machine "signal_step T" "\<lambda>_. True" "\<lambda>D. sdb_laws T \<longrightarrow> sdb_ready T D" for T
proof
  fix D e assume "sdb_laws T \<longrightarrow> sdb_ready T D"
  then show "sdb_laws T \<longrightarrow> sdb_ready T (signal_step T D e)"
    using signal_call_refines [of T D "fst e" "snd e"] by (auto simp: signal_step_def)
qed

subsection \<open>A concrete database\<close>

definition rbt_signal_ops :: "((u64, signal_record) RBT.rbt, (u32, u64) RBT.rbt, (u32, u64) RBT.rbt) signal_ops" where
  "rbt_signal_ops = \<lparr>so_records = rbt_table, so_sid = rbt_table, so_tid = rbt_table, so_ms_to_min = (\<lambda>ms. ms div 60000)\<rparr>"

definition rbt_signal_db :: "((u64, signal_record) RBT.rbt, (u32, u64) RBT.rbt, (u32, u64) RBT.rbt) signal_db" where
  "rbt_signal_db = \<lparr>sdb_open = True, sdb_read_only = False, sdb_records = RBT.empty, sdb_sid = RBT.empty,
     sdb_tid = RBT.empty, sdb_meta = None\<rparr>"

lemma rbt_signal_laws: "sdb_laws rbt_signal_ops"
  by (simp add: sdb_laws_def rbt_signal_ops_def rbt_table_laws)

lemma rbt_signal_ready: "sdb_ready rbt_signal_ops rbt_signal_db"
  by (simp add: sdb_ready_def sdb_ok_def rbt_signal_ops_def rbt_signal_db_def rbt_table_def)

lemma rbt_signal_view: "sdb_view rbt_signal_ops rbt_signal_db = Map.empty"
  by (rule ext) (simp add: sdb_view_def rbt_signal_ops_def rbt_signal_db_def rbt_table_def)

definition sample_signal :: "u32 \<Rightarrow> u32 list \<Rightarrow> signal_record" where
  "sample_signal i ts = signal_record_default\<lparr>srec_signal_id := i, srec_trade_ids := ts\<rparr>"

lemma sample_write:
  "signal_spec (SC_WRITE (sample_signal 1 [7])) Map.empty st m \<longleftrightarrow> st = ST_SUCCESS \<and> m = [1 \<mapsto> sample_signal 1 [7]]"
  by (simp add: map_write_def taken_def claims_def) (simp add: sample_signal_def)

subsection \<open>The properties\<close>

text \<open>C17: The signal database is a map from signal identifiers to records in which no trade belongs to two signals: each
  write, upsert, erase, clear and reservation ends, keeps the rows and both indexes consistent, and changes the map
  as specified. A write or upsert that names a trade of another signal answers \<open>CONFLICT\<close> and changes nothing; an upsert
  without an identifier takes that of the signal its first known trade belongs to, or one no signal has.\<close>

theorem signal_database_refines:
  assumes "sdb_laws T" and "sdb_ready T D"
  shows "\<exists>st D'. signal_result T now c D = Some (st, D') \<and> sdb_ready T D' \<and> signal_spec c (sdb_view T D) st (sdb_view T D')"
  by (rule signal_call_refines [OF assms])

lemma signal_database_refines_witness:
  "\<exists>D'. signal_result rbt_signal_ops 5 (SC_WRITE (sample_signal 1 [7])) rbt_signal_db = Some (ST_SUCCESS, D') \<and>
     sdb_view rbt_signal_ops D' = [1 \<mapsto> sample_signal 1 [7]]"
proof -
  obtain st D' where "signal_result rbt_signal_ops 5 (SC_WRITE (sample_signal 1 [7])) rbt_signal_db = Some (st, D')"
    "signal_spec (SC_WRITE (sample_signal 1 [7])) (sdb_view rbt_signal_ops rbt_signal_db) st (sdb_view rbt_signal_ops D')"
    using signal_database_refines [OF rbt_signal_laws rbt_signal_ready] by blast
  then show ?thesis unfolding rbt_signal_view sample_write by blast
qed

text \<open>C18: After any calls, a trade belongs to at most one signal, and the lookup by trade finds exactly the stored
  record that lists it: an index entry never goes stale, whatever trades the later versions of a signal drop or add.\<close>

theorem trade_has_one_signal:
  fixes T :: "('r, 's, 'i) signal_ops" and calls :: "(int \<times> signal_call) list"
  assumes "sdb_laws T" and "sdb_ready T D" and "t \<noteq> 0" and E: "E = foldl (signal_step T) D calls"
  shows "(\<exists>\<^sub>\<le>\<^sub>1i. claims (sdb_view T E) t i) \<and>
    (\<forall>r. find_signal_by_trade T t E = signal_read_success r \<longleftrightarrow>
       sdb_view T E (srec_signal_id r) = Some r \<and> t \<in> set (srec_trade_ids r))"
proof -
  have "sdb_laws T \<longrightarrow> sdb_ready T E"
    unfolding E using assms(2) by (intro signal_machine.run_inv) (simp_all add: list_all_iff)
  then have "sdb_ok T E" "sdb_open E" using assms(1) by (simp_all add: sdb_ready_def)
  then show ?thesis using find_signal_by_trade_view [OF _ _ assms(3)] claims_unique unfolding Uniq_def by blast
qed

lemma trade_has_one_signal_witness:
  "find_signal_by_trade rbt_signal_ops 7 (foldl (signal_step rbt_signal_ops) rbt_signal_db [(5, SC_WRITE (sample_signal 1 [7]))])
     = signal_read_success (sample_signal 1 [7])"
proof -
  let ?E = "foldl (signal_step rbt_signal_ops) rbt_signal_db [(5, SC_WRITE (sample_signal 1 [7]))]"
  obtain st D' where "signal_result rbt_signal_ops 5 (SC_WRITE (sample_signal 1 [7])) rbt_signal_db = Some (st, D')"
    "signal_spec (SC_WRITE (sample_signal 1 [7])) (sdb_view rbt_signal_ops rbt_signal_db) st (sdb_view rbt_signal_ops D')"
    using signal_call_refines [OF rbt_signal_laws rbt_signal_ready] by blast
  then have "sdb_view rbt_signal_ops ?E = [1 \<mapsto> sample_signal 1 [7]]"
    unfolding rbt_signal_view sample_write by (simp add: signal_step_def del: signal_result.simps)
  moreover have "srec_signal_id (sample_signal 1 [7]) = 1" "7 \<in> set (srec_trade_ids (sample_signal 1 [7]))"
    by (simp_all add: sample_signal_def)
  ultimately show ?thesis
    using trade_has_one_signal [OF rbt_signal_laws rbt_signal_ready _ refl, of 7 "[(5, SC_WRITE (sample_signal 1 [7]))]"]
    by (simp del: foldl_Cons)
qed

end
