(* ===== verification/SignalDBQueue.thy ===== *)
theory SignalDBQueue
  imports StorageQueue SignalDBLaws
begin

section \<open>The worker queue of the signal record database\<close>

text \<open>
  The commands of \<open>storages/SignalRecordDB\<close> on the queue of StorageQueue, whose statements its own queue repeats.
\<close>

datatype signal_command =
    SCMD_UPSERT signal_record | SCMD_WRITE signal_record | SCMD_FIND_SIGNAL_ID u32 | SCMD_FIND_UID int
  | SCMD_FIND_UID_RANGE int int int | SCMD_FIND_TRADE_ID u32 | SCMD_FIND_RANGE int int | SCMD_FIND_RECORDS
  | SCMD_ERASE u32 | SCMD_CLEAR

datatype signal_reply =
    SREPLY_WRITE signal_write_result | SREPLY_READ signal_read_result | SREPLY_LIST signal_list_result | SREPLY_STATUS storage_status

fun signal_exec_command ::
  "('r, 's, 'i) signal_ops \<Rightarrow> int \<Rightarrow> signal_command \<Rightarrow> ('r, 's, 'i) signal_db \<Rightarrow> (signal_reply \<times> ('r, 's, 'i) signal_db) option" where
  "signal_exec_command T now (SCMD_UPSERT r) D = map_option (map_prod SREPLY_WRITE id) (signal_upsert T now r D)"
| "signal_exec_command T now (SCMD_WRITE r) D = Some (map_prod SREPLY_WRITE id (signal_write T now r D))"
| "signal_exec_command T now (SCMD_FIND_SIGNAL_ID i) D = Some (SREPLY_READ (find_by_signal_id T i D), D)"
| "signal_exec_command T now (SCMD_FIND_UID u) D = Some (SREPLY_LIST (find_signals_by_uid T u D), D)"
| "signal_exec_command T now (SCMD_FIND_UID_RANGE u a b) D = Some (SREPLY_LIST (find_signals_by_uid_range T u a b D), D)"
| "signal_exec_command T now (SCMD_FIND_TRADE_ID t) D = Some (SREPLY_READ (find_signal_by_trade T t D), D)"
| "signal_exec_command T now (SCMD_FIND_RANGE a b) D = Some (SREPLY_LIST (find_signal_range T a b D), D)"
| "signal_exec_command T now SCMD_FIND_RECORDS D = Some (SREPLY_LIST (find_signals T D), D)"
| "signal_exec_command T now (SCMD_ERASE i) D = Some (map_prod SREPLY_STATUS id (signal_erase T now i D))"
| "signal_exec_command T now SCMD_CLEAR D = Some (map_prod SREPLY_STATUS id (signal_clear T now D))"

definition signal_storage ::
  "('r, 's, 'i) signal_ops \<Rightarrow> (nat \<Rightarrow> int) \<Rightarrow> (('r, 's, 'i) signal_db, signal_command, signal_reply) storage_ops" where
  "signal_storage T clock = \<lparr>st_exec = (\<lambda>n c D. signal_exec_command T (clock n) c D), st_is_open = sdb_open,
     st_close = (\<lambda>D. D\<lparr>sdb_open := False\<rparr>)\<rparr>"

text \<open>The operations of the queue on this storage. Accepting a command, taking the next one, delivering the callbacks and the
  end of the worker are those of StorageQueue as they stand.\<close>

definition signal_run ::
  "('r, 's, 'i) signal_ops \<Rightarrow> (nat \<Rightarrow> int) \<Rightarrow> (('r, 's, 'i) signal_db, signal_command, signal_reply) storage_queue
     \<Rightarrow> bool \<times> (('r, 's, 'i) signal_db, signal_command, signal_reply) storage_queue" where
  "signal_run T clock = run_worker (signal_storage T clock)"

definition signal_execute ::
  "('r, 's, 'i) signal_ops \<Rightarrow> (nat \<Rightarrow> int) \<Rightarrow> (('r, 's, 'i) signal_db, signal_command, signal_reply) storage_queue
     \<Rightarrow> (('r, 's, 'i) signal_db, signal_command, signal_reply) storage_queue" where
  "signal_execute T clock = execute_command (signal_storage T clock)"

definition signal_drain ::
  "('r, 's, 'i) signal_ops \<Rightarrow> (nat \<Rightarrow> int) \<Rightarrow> (('r, 's, 'i) signal_db, signal_command, signal_reply) storage_queue
     \<Rightarrow> (('r, 's, 'i) signal_db, signal_command, signal_reply) storage_queue" where
  "signal_drain T clock = drain_work (signal_storage T clock)"

definition signal_process ::
  "('r, 's, 'i) signal_ops \<Rightarrow> (nat \<Rightarrow> int) \<Rightarrow> (('r, 's, 'i) signal_db, signal_command, signal_reply) storage_queue
     \<Rightarrow> (('r, 's, 'i) signal_db, signal_command, signal_reply) storage_queue" where
  "signal_process T clock = process_queue (signal_storage T clock)"

definition signal_flush ::
  "('r, 's, 'i) signal_ops \<Rightarrow> (nat \<Rightarrow> int) \<Rightarrow> (('r, 's, 'i) signal_db, signal_command, signal_reply) storage_queue
     \<Rightarrow> (('r, 's, 'i) signal_db, signal_command, signal_reply) storage_queue" where
  "signal_flush T clock = flush_queue (signal_storage T clock)"

definition signal_shutdown_begin ::
  "('r, 's, 'i) signal_ops \<Rightarrow> (nat \<Rightarrow> int) \<Rightarrow> (('r, 's, 'i) signal_db, signal_command, signal_reply) storage_queue
     \<Rightarrow> (('r, 's, 'i) signal_db, signal_command, signal_reply) storage_queue" where
  "signal_shutdown_begin T clock = shutdown_begin (signal_storage T clock)"

definition signal_shutdown_end ::
  "('r, 's, 'i) signal_ops \<Rightarrow> (nat \<Rightarrow> int) \<Rightarrow> (('r, 's, 'i) signal_db, signal_command, signal_reply) storage_queue
     \<Rightarrow> (('r, 's, 'i) signal_db, signal_command, signal_reply) storage_queue" where
  "signal_shutdown_end T clock = shutdown_end (signal_storage T clock)"

text \<open>A step of the queue is one of these.\<close>

lemma signal_steps:
  "queue_step (signal_storage T clock) Q QE_RUN = snd (signal_run T clock Q)"
  "queue_step (signal_storage T clock) Q QE_EXECUTE = (if dq_worker_running Q then signal_execute T clock Q else Q)"
  "queue_step (signal_storage T clock) Q QE_PROCESS = signal_process T clock Q"
  "queue_step (signal_storage T clock) Q QE_FLUSH = signal_flush T clock Q"
  "queue_step (signal_storage T clock) Q QE_SHUTDOWN_BEGIN = signal_shutdown_begin T clock Q"
  "queue_step (signal_storage T clock) Q QE_SHUTDOWN_END = signal_shutdown_end T clock Q"
  "signal_process T clock Q = deliver_callbacks (if \<not> dq_worker_running Q then signal_drain T clock Q else Q)"
  by (simp_all add: signal_run_def signal_execute_def signal_process_def signal_flush_def signal_shutdown_begin_def
    signal_shutdown_end_def signal_drain_def process_queue_def)

lemma reserve_signal_id_total: "\<exists>x. reserve_signal_id T D = Some x"
proof -
  define start where "start = (if smeta_next_signal_id (signal_meta_get D) = 0 then 1 else smeta_next_signal_id (signal_meta_get D))"
  have "start \<noteq> 0" by (simp add: start_def)
  from reserve_search [OF this, of "sid_contains T D"]
  obtain c where "reserve_loop (sid_contains T D) start start False = Some c" unfolding reserve_post_def by blast
  then show ?thesis by (simp add: reserve_signal_id_def Let_def flip: start_def)
qed

lemma signal_exec_total: "signal_exec_command T now c D \<noteq> None"
proof -
  have "signal_upsert T now r D \<noteq> None" for r
  proof -
    obtain i E where f: "find_existing_signal_id T r D = (i, E)" by fastforce
    obtain j E' where "signal_upsert_id T r D = Some (j, E')"
      using reserve_signal_id_total [of T E] by (cases "i = 0") (auto simp: signal_upsert_id_def f)
    then show ?thesis by (auto simp: signal_upsert_def Let_def split: prod.split bool.split)
  qed
  then show ?thesis by (cases c) auto
qed

interpretation signal_executor: executor "signal_storage T clock" for T clock
  by unfold_locales (simp_all add: signal_storage_def signal_exec_total del: not_None_eq)

text \<open>The signal database gives the same guarantees as that of trades.\<close>

lemma signal_queue_order:
  "let X = signal_storage T clock; F = foldl (queue_step X) (storage_queue_new D) es in
     \<exists>k. dq_delivered F @ dq_callbacks F = fst (exec_all X (take k (dq_accepted F)) D) \<and>
       k + length (pending F) = length (dq_accepted F) \<and> distinct (map fst (dq_accepted F))"
  unfolding Let_def by (rule signal_executor.order_exact [unfolded Let_def])

lemma signal_shutdown_answers:
  assumes Q: "Q = foldl (queue_step (signal_storage T clock)) (storage_queue_new D) (es @ [QE_SHUTDOWN_BEGIN])" and o: "sdb_open (dq_db Q)"
  shows "let X = signal_storage T clock;
      F = foldl (queue_step X) Q ((QE_EXECUTE # worker_rounds (length (dq_work Q)) @ [QE_EXIT]) @ [QE_SHUTDOWN_END])
    in dq_delivered F = fst (exec_all X (dq_accepted Q) D) \<and> \<not> sdb_open (dq_db F)"
proof -
  have e: "st_is_open (signal_storage T clock) = sdb_open" by (simp add: signal_storage_def)
  show ?thesis
    using signal_executor.shutdown_answers [OF Q, unfolded e, OF o] unfolding Let_def by blast
qed

end
