(* ===== verification/TradeStats.thy ===== *)
theory TradeStats
  imports TradeQueries BinaryFormat "HOL-Library.Char_ord" "HOL-Library.List_Lexorder" "HOL-Library.Product_Lexorder"
begin

section \<open>Statistics of trades\<close>

text \<open>
  \<open>data/trading/TradeStats.hpp\<close> and \<open>storages/TradeRecordDB/TradeStatsCalculator.hpp\<close>. The counters are
  natural numbers (a 64-bit counter of records in memory does not wrap), the sums are doubles added
  in the order of the code. An array of the statistics is a function of its index, updated within its
  bounds only. Maps keyed by an enumeration are ordered by its numbers. The optional converters of
  \<open>TradeStatsConfig\<close> are arguments.
\<close>

subsection \<open>Order of the enumerations\<close>

instantiation platform_type :: linorder
begin

definition less_eq_platform_type :: "platform_type \<Rightarrow> platform_type \<Rightarrow> bool" where
  "less_eq_platform_type a b \<longleftrightarrow> enum_index platform_type_values a \<le> enum_index platform_type_values b"

definition less_platform_type :: "platform_type \<Rightarrow> platform_type \<Rightarrow> bool" where
  "less_platform_type a b \<longleftrightarrow> enum_index platform_type_values a < enum_index platform_type_values b"

instance
proof
  fix x y :: platform_type
  have "z \<in> set platform_type_values" for z by (cases z) (simp_all add: platform_type_values_def)
  then show "x \<le> y \<Longrightarrow> y \<le> x \<Longrightarrow> x = y"
    unfolding less_eq_platform_type_def by (metis nth_enum_index(2) order_antisym)
qed (auto simp: less_eq_platform_type_def less_platform_type_def)

end

instantiation account_type :: linorder
begin

definition less_eq_account_type :: "account_type \<Rightarrow> account_type \<Rightarrow> bool" where
  "less_eq_account_type a b \<longleftrightarrow> enum_index account_type_values a \<le> enum_index account_type_values b"

definition less_account_type :: "account_type \<Rightarrow> account_type \<Rightarrow> bool" where
  "less_account_type a b \<longleftrightarrow> enum_index account_type_values a < enum_index account_type_values b"

instance
proof
  fix x y :: account_type
  have "z \<in> set account_type_values" for z by (cases z) (simp_all add: account_type_values_def)
  then show "x \<le> y \<Longrightarrow> y \<le> x \<Longrightarrow> x = y"
    unfolding less_eq_account_type_def by (metis nth_enum_index(2) order_antisym)
qed (auto simp: less_eq_account_type_def less_account_type_def)

end

instantiation currency_type :: linorder
begin

definition less_eq_currency_type :: "currency_type \<Rightarrow> currency_type \<Rightarrow> bool" where
  "less_eq_currency_type a b \<longleftrightarrow> enum_index currency_type_values a \<le> enum_index currency_type_values b"

definition less_currency_type :: "currency_type \<Rightarrow> currency_type \<Rightarrow> bool" where
  "less_currency_type a b \<longleftrightarrow> enum_index currency_type_values a < enum_index currency_type_values b"

instance
proof
  fix x y :: currency_type
  have "z \<in> set currency_type_values" for z by (cases z) (simp_all add: currency_type_values_def)
  then show "x \<le> y \<Longrightarrow> y \<le> x \<Longrightarrow> x = y"
    unfolding less_eq_currency_type_def by (metis nth_enum_index(2) order_antisym)
qed (auto simp: less_eq_currency_type_def less_currency_type_def)

end

subsection \<open>TradeStats.hpp\<close>

datatype stats_selection = SEL_ALL_TRADES | SEL_FIRST_MM_STEP | SEL_LAST_IN_GROUP

record winrate_stats =
  ws_wins :: nat
  ws_losses :: nat
  ws_standoffs :: nat
  ws_refunds :: nat
  ws_errors :: nat
  ws_trades :: nat
  ws_winrate :: f64
  ws_result_rate :: f64

definition winrate_default :: winrate_stats where
  "winrate_default = \<lparr>ws_wins = 0, ws_losses = 0, ws_standoffs = 0, ws_refunds = 0, ws_errors = 0,
     ws_trades = 0, ws_winrate = 0, ws_result_rate = 0\<rparr>"

definition winrate_add :: "trade_state \<Rightarrow> winrate_stats \<Rightarrow> winrate_stats" where
  "winrate_add state w =
     (let w = w\<lparr>ws_trades := ws_trades w + 1\<rparr>
      in if state = TS_WIN then w\<lparr>ws_wins := ws_wins w + 1\<rparr>
         else if state = TS_LOSS then w\<lparr>ws_losses := ws_losses w + 1\<rparr>
         else if state = TS_STANDOFF then w\<lparr>ws_standoffs := ws_standoffs w + 1\<rparr>
         else if state = TS_REFUND then w\<lparr>ws_refunds := ws_refunds w + 1\<rparr>
         else if is_error_trade_state state then w\<lparr>ws_errors := ws_errors w + 1\<rparr>
         else w)"

definition f64_of_nat :: "nat \<Rightarrow> f64" where
  "f64_of_nat n = f64_of_int (int n)"

definition winrate_calc :: "winrate_stats \<Rightarrow> winrate_stats" where
  "winrate_calc w =
     (let decisive = ws_wins w + ws_losses w;
          terminal = ws_wins w + ws_losses w + ws_standoffs w + ws_refunds w
      in w\<lparr>ws_winrate := (if decisive > 0 then f64_div (f64_of_nat (ws_wins w)) (f64_of_nat decisive) else 0),
           ws_result_rate := (if ws_trades w > 0 then f64_div (f64_of_nat terminal) (f64_of_nat (ws_trades w)) else 0)\<rparr>)"

record chart_data =
  ch_x_time :: "int list"
  ch_y_value :: "f64 list"
  ch_x_label :: "string list"

definition chart_default :: chart_data where
  "chart_default = \<lparr>ch_x_time = [], ch_y_value = [], ch_x_label = []\<rparr>"

definition chart_push :: "int \<Rightarrow> f64 \<Rightarrow> chart_data \<Rightarrow> chart_data" where
  "chart_push x y c = c\<lparr>ch_x_time := ch_x_time c @ [x], ch_y_value := ch_y_value c @ [y]\<rparr>"

record series_stats =
  ss_max_win_series :: nat
  ss_max_loss_series :: nat
  ss_avg_win_series :: nat
  ss_avg_loss_series :: nat
  ss_total_win_series :: nat
  ss_total_loss_series :: nat
  ss_current_series :: nat
  ss_current_is_win :: bool

definition series_stats_default :: series_stats where
  "series_stats_default = \<lparr>ss_max_win_series = 0, ss_max_loss_series = 0, ss_avg_win_series = 0, ss_avg_loss_series = 0,
     ss_total_win_series = 0, ss_total_loss_series = 0, ss_current_series = 0, ss_current_is_win = False\<rparr>"

record trade_stats =
  st_total :: winrate_stats
  st_buy :: winrate_stats
  st_sell :: winrate_stats
  st_by_symbol :: "(string, winrate_stats) std_map"
  st_by_signal :: "(string, winrate_stats) std_map"
  st_by_platform :: "(platform_type, winrate_stats) std_map"
  st_by_currency :: "(currency_type, winrate_stats) std_map"
  st_by_duration :: "(u32, winrate_stats) std_map"
  st_by_mm_step :: "(int, winrate_stats) std_map"
  st_by_sec :: "nat \<Rightarrow> winrate_stats"
  st_by_min :: "nat \<Rightarrow> winrate_stats"
  st_by_hour :: "nat \<Rightarrow> winrate_stats"
  st_by_weekday :: "nat \<Rightarrow> winrate_stats"
  st_by_month_day :: "nat \<Rightarrow> winrate_stats"
  st_by_month :: "nat \<Rightarrow> winrate_stats"
  st_by_second :: "nat \<Rightarrow> winrate_stats"
  st_total_volume :: f64
  st_total_profit :: f64
  st_gross_profit :: f64
  st_gross_loss :: f64
  st_profit_factor :: f64
  st_average_amount :: f64
  st_average_profit :: f64
  st_average_profit_per_trade :: f64
  st_max_profit_trade :: f64
  st_max_loss_trade :: f64
  st_max_absolute_drawdown :: f64
  st_max_relative_drawdown :: f64
  st_max_drawdown_date :: int
  st_max_absolute_drawdown_free :: f64
  st_max_relative_drawdown_free :: f64
  st_max_drawdown_date_free :: int
  st_equity_curve :: chart_data
  st_free_funds_curve :: chart_data
  st_profit_curve :: chart_data
  st_profit_percent_curve :: chart_data
  st_daily_profit :: chart_data
  st_hourly_profit :: chart_data
  st_series :: series_stats
  st_by_ping_ms :: "(int, winrate_stats) std_map"

definition trade_stats_default :: trade_stats where
  "trade_stats_default = \<lparr>st_total = winrate_default, st_buy = winrate_default, st_sell = winrate_default,
     st_by_symbol = [], st_by_signal = [], st_by_platform = [], st_by_currency = [], st_by_duration = [], st_by_mm_step = [],
     st_by_sec = (\<lambda>_. winrate_default), st_by_min = (\<lambda>_. winrate_default), st_by_hour = (\<lambda>_. winrate_default),
     st_by_weekday = (\<lambda>_. winrate_default), st_by_month_day = (\<lambda>_. winrate_default), st_by_month = (\<lambda>_. winrate_default),
     st_by_second = (\<lambda>_. winrate_default), st_total_volume = 0, st_total_profit = 0, st_gross_profit = 0, st_gross_loss = 0,
     st_profit_factor = 0, st_average_amount = 0, st_average_profit = 0, st_average_profit_per_trade = 0,
     st_max_profit_trade = 0, st_max_loss_trade = 0, st_max_absolute_drawdown = 0, st_max_relative_drawdown = 0,
     st_max_drawdown_date = 0, st_max_absolute_drawdown_free = 0, st_max_relative_drawdown_free = 0,
     st_max_drawdown_date_free = 0, st_equity_curve = chart_default, st_free_funds_curve = chart_default,
     st_profit_curve = chart_default, st_profit_percent_curve = chart_default, st_daily_profit = chart_default,
     st_hourly_profit = chart_default, st_series = series_stats_default, st_by_ping_ms = []\<rparr>"

datatype stats_balance_mode = BM_SIMPLE | BM_SWEEP_LINE

datatype stats_equity_mode = EM_SYNTHETIC_PROFIT | EM_RECORD_BALANCE | EM_PORTFOLIO_BALANCE

record currency_matrix =
  cm_base_currency :: currency_type
  cm_rates :: "(currency_type \<times> currency_type, f64) std_map"

definition set_rate :: "currency_type \<Rightarrow> currency_type \<Rightarrow> f64 \<Rightarrow> currency_matrix \<Rightarrow> currency_matrix" where
  "set_rate a b rate m = m\<lparr>cm_rates := map_put (a, b) rate (cm_rates m)\<rparr>"

definition matrix_convert :: "currency_matrix \<Rightarrow> f64 \<Rightarrow> currency_type \<Rightarrow> currency_type \<Rightarrow> f64" where
  "matrix_convert m value a b =
     (if a = b \<or> a = CUR_UNKNOWN \<or> b = CUR_UNKNOWN then value
      else case map_find (cm_rates m) (a, b) of
        Some direct \<Rightarrow> f64_mul value direct
      | None \<Rightarrow> (case map_find (cm_rates m) (b, a) of
          Some opposite \<Rightarrow> if \<not> f64_eq opposite 0 then f64_div value opposite else value
        | None \<Rightarrow> value))"

definition convert_to_base :: "currency_matrix \<Rightarrow> f64 \<Rightarrow> currency_type \<Rightarrow> f64" where
  "convert_to_base m value a = matrix_convert m value a (cm_base_currency m)"

record stats_config =
  sc_selection :: stats_selection
  sc_start_balance :: f64
  sc_time_zone :: trade_time_zone
  sc_filter :: trade_record_filter
  sc_include_errors :: bool
  sc_include_non_terminal :: bool
  sc_convert :: "(f64 \<Rightarrow> currency_type \<Rightarrow> f64) option"
  sc_convert_currency :: "(f64 \<Rightarrow> currency_type \<Rightarrow> currency_type \<Rightarrow> int \<Rightarrow> f64) option"
  sc_currency_matrix :: currency_matrix
  sc_equity_mode :: stats_equity_mode
  sc_balance_mode :: stats_balance_mode

definition stats_config_default :: stats_config where
  "stats_config_default = \<lparr>sc_selection = SEL_ALL_TRADES, sc_start_balance = 0, sc_time_zone = tz_utc,
     sc_filter = trade_record_filter_default, sc_include_errors = False, sc_include_non_terminal = False,
     sc_convert = None, sc_convert_currency = None,
     sc_currency_matrix = \<lparr>cm_base_currency = CUR_UNKNOWN, cm_rates = []\<rparr>,
     sc_equity_mode = EM_SYNTHETIC_PROFIT, sc_balance_mode = BM_SWEEP_LINE\<rparr>"

subsection \<open>Series of wins and losses\<close>

text \<open>An outcome: the keys it is ordered by (result time, decision time, trade, unique identifier) and its state.\<close>

type_synonym outcome_event = "(int \<times> int \<times> u32 \<times> int) \<times> trade_state"

definition outcome_result_timestamp :: "trade_record \<Rightarrow> int" where
  "outcome_result_timestamp r =
     (if trec_close_date r > 0 then trec_close_date r
      else if trec_open_date r > 0 then trec_open_date r
      else select_timestamp_ms r TF_AUTO)"

definition outcome_decision_timestamp :: "trade_record \<Rightarrow> int \<Rightarrow> int" where
  "outcome_decision_timestamp r result_ts =
     (if trec_place_date r > 0 then trec_place_date r
      else if trec_send_date r > 0 then trec_send_date r
      else if trec_open_date r > 0 then trec_open_date r
      else result_ts)"

definition make_outcome_event :: "trade_record \<Rightarrow> outcome_event" where
  "make_outcome_event r =
     ((outcome_result_timestamp r, outcome_decision_timestamp r (outcome_result_timestamp r), trec_trade_id r, trec_unique_id r),
      trec_trade_state r)"

text \<open>One side of the loop of \<open>recount_series\<close>: the running series, the longest, their number and total length.\<close>

record streak_side =
  sk_cur :: nat
  sk_max :: nat
  sk_count :: nat
  sk_total :: nat

definition streak_none :: streak_side where
  "streak_none = \<lparr>sk_cur = 0, sk_max = 0, sk_count = 0, sk_total = 0\<rparr>"

definition close_streak :: "streak_side \<Rightarrow> streak_side" where
  "close_streak k = (if sk_cur k > 0
     then \<lparr>sk_cur = 0, sk_max = max (sk_max k) (sk_cur k), sk_count = sk_count k + 1, sk_total = sk_total k + sk_cur k\<rparr>
     else k)"

definition extend_streak :: "streak_side \<Rightarrow> streak_side" where
  "extend_streak k = k\<lparr>sk_cur := sk_cur k + 1\<rparr>"

fun series_loop :: "trade_state list \<Rightarrow> streak_side \<Rightarrow> streak_side \<Rightarrow> streak_side \<times> streak_side" where
  "series_loop [] win loss = (win, loss)"
| "series_loop (state # states) win loss =
     (if state = TS_WIN then series_loop states (extend_streak win) (close_streak loss)
      else if state = TS_LOSS then series_loop states (close_streak win) (extend_streak loss)
      else series_loop states (close_streak win) (close_streak loss))"

definition recount_series :: "outcome_event list \<Rightarrow> series_stats" where
  "recount_series events =
     (let (win, loss) = series_loop (map snd (sort_key fst events)) streak_none streak_none;
          w = close_streak win;
          l = close_streak loss
      in \<lparr>ss_max_win_series = sk_max w, ss_max_loss_series = sk_max l,
          ss_avg_win_series = (if sk_count w > 0 then sk_total w div sk_count w else 0),
          ss_avg_loss_series = (if sk_count l > 0 then sk_total l div sk_count l else 0),
          ss_total_win_series = sk_count w, ss_total_loss_series = sk_count l,
          ss_current_series = (if sk_cur win > 0 then sk_cur win else sk_cur loss),
          ss_current_is_win = (sk_cur win > 0)\<rparr>)"

subsection \<open>Money and curves\<close>

definition f64_max :: "f64 \<Rightarrow> f64 \<Rightarrow> f64" where
  "f64_max a b = (if f64_less a b then b else a)"

definition f64_min :: "f64 \<Rightarrow> f64 \<Rightarrow> f64" where
  "f64_min a b = (if f64_less b a then b else a)"

definition map_add :: "'k :: linorder \<Rightarrow> f64 \<Rightarrow> ('k, f64) std_map \<Rightarrow> ('k, f64) std_map" where
  "map_add k v m = map_put k (f64_add (case map_find m k of None \<Rightarrow> 0 | Some x \<Rightarrow> x) v) m"

definition map_count :: "'k :: linorder \<Rightarrow> trade_state \<Rightarrow> ('k, winrate_stats) std_map \<Rightarrow> ('k, winrate_stats) std_map" where
  "map_count k state m = map_put k (winrate_add state (case map_find m k of None \<Rightarrow> winrate_default | Some w \<Rightarrow> w)) m"

definition convert_money :: "f64 \<Rightarrow> currency_type \<Rightarrow> int \<Rightarrow> stats_config \<Rightarrow> f64" where
  "convert_money value a ts config =
     (let to = cm_base_currency (sc_currency_matrix config)
      in case sc_convert_currency config of
           Some f \<Rightarrow> f value a to ts
         | None \<Rightarrow> if to \<noteq> CUR_UNKNOWN then convert_to_base (sc_currency_matrix config) value a
                   else (case sc_convert config of Some f \<Rightarrow> f value a | None \<Rightarrow> value))"

type_synonym account_key = "platform_type \<times> account_type \<times> int \<times> currency_type"

record balance_event =
  be_ts :: int
  be_open_ts :: int
  be_account :: account_key
  be_currency :: currency_type
  be_open_balance :: f64
  be_has_open_balance :: bool
  be_close_balance :: f64
  be_profit :: f64

definition initial_balance_for_event :: "balance_event \<Rightarrow> stats_config \<Rightarrow> f64" where
  "initial_balance_for_event e config =
     (if be_has_open_balance e
      then convert_money (be_open_balance e) (be_currency e) (if be_open_ts e > 0 then be_open_ts e else be_ts e) config
      else f64_sub (convert_money (be_close_balance e) (be_currency e) (be_ts e) config)
                   (convert_money (be_profit e) (be_currency e) (be_ts e) config))"

definition append_equity_sample :: "int \<Rightarrow> f64 \<Rightarrow> f64 \<Rightarrow> trade_stats \<Rightarrow> trade_stats" where
  "append_equity_sample ts equity baseline s =
     (let s = s\<lparr>st_equity_curve := chart_push ts equity (st_equity_curve s),
                st_profit_curve := chart_push ts (f64_sub equity baseline) (st_profit_curve s)\<rparr>
      in if f64_less 0 baseline
         then s\<lparr>st_profit_percent_curve := chart_push ts
                (f64_mul (f64_div (f64_sub equity baseline) baseline) (f64_of_int 100)) (st_profit_percent_curve s)\<rparr>
         else s)"

text \<open>\<open>update_equity_drawdown\<close>: the statistics and the new peak.\<close>

definition update_equity_drawdown :: "int \<Rightarrow> f64 \<Rightarrow> trade_stats \<times> f64 \<Rightarrow> trade_stats \<times> f64" where
  "update_equity_drawdown ts equity sp =
     (let peak = f64_max (snd sp) equity;
          dd = f64_sub peak equity;
          s = fst sp;
          s = (if f64_less (st_max_absolute_drawdown s) dd
               then s\<lparr>st_max_absolute_drawdown := dd, st_max_drawdown_date := ts\<rparr> else s);
          s = (if f64_less 0 peak
               then s\<lparr>st_max_relative_drawdown := f64_max (st_max_relative_drawdown s) (f64_div dd peak)\<rparr> else s)
      in (s, peak))"

fun synthetic_loop :: "f64 \<Rightarrow> (int \<times> f64) list \<Rightarrow> f64 \<Rightarrow> trade_stats \<times> f64 \<Rightarrow> trade_stats" where
  "synthetic_loop start [] equity sp = fst sp"
| "synthetic_loop start ((ts, p) # kvs) equity sp =
     (let equity = f64_add equity p
      in synthetic_loop start kvs equity
           (update_equity_drawdown ts equity (append_equity_sample ts equity start (fst sp), snd sp)))"

definition build_synthetic_curves :: "stats_config \<Rightarrow> (int, f64) std_map \<Rightarrow> trade_stats \<Rightarrow> trade_stats" where
  "build_synthetic_curves config realized s =
     synthetic_loop (sc_start_balance config) realized (sc_start_balance config) (s, sc_start_balance config)"

text \<open>The inner \<open>do\<close> loops take the events of one moment: \<open>same_moment\<close> splits them off a sorted list.\<close>

function moments :: "('e \<Rightarrow> int) \<Rightarrow> 'e list \<Rightarrow> (int \<times> 'e list) list" where
  "moments f [] = []"
| "moments f (e # es) = (f e, e # takeWhile (\<lambda>x. f x = f e) es) # moments f (dropWhile (\<lambda>x. f x = f e) es)"
  by pat_completeness auto

termination by (relation "measure (\<lambda>(f, es). length es)") (auto simp: length_dropWhile_le le_imp_less_Suc)

definition sort_balance_events :: "balance_event list \<Rightarrow> balance_event list" where
  "sort_balance_events = sort_key (\<lambda>e. (be_ts e, be_account e))"

text \<open>One balance: the baseline of the first event; the last event of a moment gives the equity.\<close>

definition record_balance_moment ::
  "stats_config \<Rightarrow> f64 \<Rightarrow> int \<times> balance_event list \<Rightarrow> trade_stats \<times> f64 \<Rightarrow> trade_stats \<times> f64" where
  "record_balance_moment config baseline m sp =
     (let e = last (snd m);
          equity = convert_money (be_close_balance e) (be_currency e) (be_ts e) config
      in update_equity_drawdown (fst m) equity (append_equity_sample (fst m) equity baseline (fst sp), snd sp))"

definition build_record_balance_curves :: "stats_config \<Rightarrow> balance_event list \<Rightarrow> trade_stats \<Rightarrow> trade_stats" where
  "build_record_balance_curves config events s =
     (case sort_balance_events events of
        [] \<Rightarrow> s
      | e # es \<Rightarrow>
          let baseline = initial_balance_for_event e config
          in fst (foldl (\<lambda>sp m. record_balance_moment config baseline m sp) (s, baseline) (moments be_ts (e # es))))"

text \<open>Several accounts: their balances, the baseline, the equity, the peak and whether there is a sample.\<close>

record portfolio =
  pf_balances :: "(account_key, f64) std_map"
  pf_baseline :: f64
  pf_equity :: f64
  pf_peak :: f64
  pf_has_sample :: bool

definition portfolio_enter :: "stats_config \<Rightarrow> balance_event \<Rightarrow> portfolio \<Rightarrow> portfolio" where
  "portfolio_enter config e p =
     (case map_find (pf_balances p) (be_account e) of
        Some _ \<Rightarrow> p
      | None \<Rightarrow>
          let i = initial_balance_for_event e config;
              p = p\<lparr>pf_baseline := f64_add (pf_baseline p) i, pf_equity := f64_add (pf_equity p) i,
                    pf_balances := map_put (be_account e) i (pf_balances p)\<rparr>
          in if pf_has_sample p then p else p\<lparr>pf_peak := pf_baseline p, pf_has_sample := True\<rparr>)"

definition portfolio_event :: "stats_config \<Rightarrow> balance_event \<Rightarrow> portfolio \<Rightarrow> portfolio" where
  "portfolio_event config e p =
     (let close = convert_money (be_close_balance e) (be_currency e) (be_ts e) config;
          p = portfolio_enter config e p
      in p\<lparr>pf_equity := f64_add (pf_equity p)
             (f64_sub close (case map_find (pf_balances p) (be_account e) of None \<Rightarrow> 0 | Some b \<Rightarrow> b)),
           pf_balances := map_put (be_account e) close (pf_balances p)\<rparr>)"

definition portfolio_moment ::
  "stats_config \<Rightarrow> int \<times> balance_event list \<Rightarrow> trade_stats \<times> portfolio \<Rightarrow> trade_stats \<times> portfolio" where
  "portfolio_moment config m sp =
     (let p = foldl (\<lambda>p e. portfolio_event config e p) (snd sp) (snd m);
          s = append_equity_sample (fst m) (pf_equity p) (pf_baseline p) (fst sp);
          (s, peak) = update_equity_drawdown (fst m) (pf_equity p) (s, pf_peak p)
      in (s, p\<lparr>pf_peak := peak\<rparr>))"

definition build_portfolio_balance_curves :: "stats_config \<Rightarrow> balance_event list \<Rightarrow> trade_stats \<Rightarrow> trade_stats" where
  "build_portfolio_balance_curves config events s =
     fst (foldl (\<lambda>sp m. portfolio_moment config m sp)
       (s, \<lparr>pf_balances = [], pf_baseline = 0, pf_equity = 0, pf_peak = 0, pf_has_sample = False\<rparr>)
       (moments be_ts (sort_balance_events events)))"

subsection \<open>The calculator\<close>

definition include_by_selection :: "trade_record \<Rightarrow> stats_config \<Rightarrow> bool" where
  "include_by_selection r config =
     (if sc_selection config = SEL_FIRST_MM_STEP \<and> trec_mm_step r \<noteq> 0 then False
      else if sc_selection config = SEL_LAST_IN_GROUP then trec_last_in_group r
      else True)"

text \<open>The filter of the loop, and the conditions for the money and for the outcome counters.\<close>

definition stats_filtered :: "time_shield \<Rightarrow> calendar \<Rightarrow> stats_config \<Rightarrow> trade_record \<Rightarrow> bool" where
  "stats_filtered L cal config r = match_filter L cal r (sc_filter config) (sc_time_zone config) 0"

definition counts_money :: "stats_config \<Rightarrow> trade_record \<Rightarrow> bool" where
  "counts_money config r \<longleftrightarrow> include_by_selection r config \<and> is_result_state (trec_trade_state r)"

definition counts_outcome :: "stats_config \<Rightarrow> trade_record \<Rightarrow> bool" where
  "counts_outcome config r \<longleftrightarrow> include_by_selection r config \<and>
     (sc_include_errors config \<or> \<not> is_error_trade_state (trec_trade_state r)) \<and>
     (sc_include_non_terminal config \<or> is_terminal_trade_state (trec_trade_state r)) \<and>
     is_terminal_trade_state (trec_trade_state r)"

text \<open>What the loop over the records carries: the statistics and its local containers.\<close>

record stats_acc =
  sa_stats :: trade_stats
  sa_realized :: "(int, f64) std_map"
  sa_daily :: "(int, f64) std_map"
  sa_hourly :: "(int, f64) std_map"
  sa_volume_count :: nat
  sa_sweep :: "(int \<times> f64) list"
  sa_balance :: "balance_event list"
  sa_outcomes :: "outcome_event list"

definition stats_acc_default :: stats_acc where
  "stats_acc_default = \<lparr>sa_stats = trade_stats_default, sa_realized = [], sa_daily = [], sa_hourly = [],
     sa_volume_count = 0, sa_sweep = [], sa_balance = [], sa_outcomes = []\<rparr>"

definition add_totals :: "f64 \<Rightarrow> f64 \<Rightarrow> trade_stats \<Rightarrow> trade_stats" where
  "add_totals amount profit s =
     s\<lparr>st_total_volume := f64_add (st_total_volume s) amount,
       st_total_profit := f64_add (st_total_profit s) profit,
       st_gross_profit := (if f64_less 0 profit then f64_add (st_gross_profit s) profit else st_gross_profit s),
       st_gross_loss := (if f64_less profit 0 then f64_add (st_gross_loss s) (f64_neg profit) else st_gross_loss s),
       st_max_profit_trade := f64_max (st_max_profit_trade s) profit,
       st_max_loss_trade := f64_min (st_max_loss_trade s) profit\<rparr>"

definition balance_event_of :: "trade_record \<Rightarrow> int \<Rightarrow> balance_event" where
  "balance_event_of r curve_ts =
     \<lparr>be_ts = curve_ts, be_open_ts = (if trec_open_date r > 0 then trec_open_date r else curve_ts),
      be_account = (trec_platform_type r, trec_account_type r, trec_account_id r, trec_currency r),
      be_currency = trec_currency r, be_open_balance = trec_open_balance r, be_has_open_balance = trec_has_open_balance r,
      be_close_balance = trec_close_balance r, be_profit = trec_profit r\<rparr>"

definition add_realized :: "time_shield \<Rightarrow> stats_config \<Rightarrow> trade_record \<Rightarrow> int \<Rightarrow> f64 \<Rightarrow> stats_acc \<Rightarrow> stats_acc" where
  "add_realized L config r curve_ts profit a =
     (if curve_ts > 0
      then a\<lparr>sa_realized := map_add curve_ts profit (sa_realized a),
             sa_balance := (if trec_has_close_balance r then sa_balance a @ [balance_event_of r curve_ts] else sa_balance a),
             sa_daily := map_add (start_of_local_day_utc_ms L (sc_time_zone config) curve_ts) profit (sa_daily a),
             sa_hourly := map_add (start_of_local_hour_utc_ms L (sc_time_zone config) curve_ts) profit (sa_hourly a)\<rparr>
      else a)"

definition add_sweep :: "stats_config \<Rightarrow> trade_record \<Rightarrow> int \<Rightarrow> f64 \<Rightarrow> f64 \<Rightarrow> (int \<times> f64) list \<Rightarrow> (int \<times> f64) list" where
  "add_sweep config r curve_ts amount profit es =
     (if sc_balance_mode config = BM_SWEEP_LINE
      then es @ (if trec_open_date r > 0 then [(trec_open_date r, f64_neg amount)] else [])
              @ (if curve_ts > 0 then [(curve_ts, f64_add amount profit)] else [])
      else es)"

definition add_money :: "time_shield \<Rightarrow> stats_config \<Rightarrow> trade_record \<Rightarrow> stats_acc \<Rightarrow> stats_acc" where
  "add_money L config r a =
     (let curve_ts = (if trec_close_date r > 0 then trec_close_date r else trec_open_date r);
          amount_ts = (if trec_open_date r > 0 then trec_open_date r else curve_ts);
          amount = convert_money (trec_amount r) (trec_currency r) amount_ts config;
          profit = convert_money (trec_profit r) (trec_currency r) curve_ts config;
          a = a\<lparr>sa_volume_count := sa_volume_count a + 1, sa_stats := add_totals amount profit (sa_stats a)\<rparr>;
          a = add_realized L config r curve_ts profit a;
          a = (if trec_ping r > 0
               then a\<lparr>sa_stats := (sa_stats a)\<lparr>st_by_ping_ms := map_count (trec_ping r) (trec_trade_state r) (st_by_ping_ms (sa_stats a))\<rparr>\<rparr>
               else a)
      in a\<lparr>sa_sweep := add_sweep config r curve_ts amount profit (sa_sweep a)\<rparr>)"

definition array_count :: "int \<Rightarrow> int \<Rightarrow> int \<Rightarrow> trade_state \<Rightarrow> (nat \<Rightarrow> winrate_stats) \<Rightarrow> nat \<Rightarrow> winrate_stats" where
  "array_count lo hi i state arr =
     (if lo \<le> i \<and> i < hi then arr(nat (i - lo) := winrate_add state (arr (nat (i - lo)))) else arr)"

definition add_time_of_day :: "time_shield \<Rightarrow> calendar \<Rightarrow> stats_config \<Rightarrow> trade_record \<Rightarrow> trade_stats \<Rightarrow> trade_stats" where
  "add_time_of_day L cal config r s =
     (let ts = select_timestamp_ms r TF_AUTO; state = trec_trade_state r
      in if ts > 0
         then let sec = ts_ms_to_sec L (to_local_ms L (sc_time_zone config) ts)
              in s\<lparr>st_by_sec := array_count 0 86400 (cal_hour cal sec * 3600 + cal_min cal sec * 60 + cal_sec cal sec) state (st_by_sec s),
                   st_by_min := array_count 0 1440 (cal_hour cal sec * 60 + cal_min cal sec) state (st_by_min s),
                   st_by_hour := array_count 0 24 (cal_hour cal sec) state (st_by_hour s),
                   st_by_weekday := array_count 0 7 (ts_weekday_of_ts L sec) state (st_by_weekday s),
                   st_by_month_day := array_count 1 32 (cal_day cal sec) state (st_by_month_day s),
                   st_by_month := array_count 1 13 (cal_mon cal sec) state (st_by_month s),
                   st_by_second := array_count 0 60 (cal_sec cal sec) state (st_by_second s)\<rparr>
         else s)"

definition add_groups :: "trade_record \<Rightarrow> trade_stats \<Rightarrow> trade_stats" where
  "add_groups r s =
     (let state = trec_trade_state r
      in s\<lparr>st_total := winrate_add state (st_total s),
           st_buy := (if trec_order_type r = ORD_BUY then winrate_add state (st_buy s) else st_buy s),
           st_sell := (if trec_order_type r = ORD_SELL then winrate_add state (st_sell s) else st_sell s),
           st_by_symbol := (if trec_symbol r \<noteq> [] then map_count (trec_symbol r) state (st_by_symbol s) else st_by_symbol s),
           st_by_signal := (if trec_signal_name r \<noteq> [] then map_count (trec_signal_name r) state (st_by_signal s) else st_by_signal s),
           st_by_platform := map_count (trec_platform_type r) state (st_by_platform s),
           st_by_currency := map_count (trec_currency r) state (st_by_currency s),
           st_by_duration := (if trec_duration r > 0 then map_count (trec_duration r) state (st_by_duration s) else st_by_duration s),
           st_by_mm_step := map_count (trec_mm_step r) state (st_by_mm_step s)\<rparr>)"

definition add_outcome :: "time_shield \<Rightarrow> calendar \<Rightarrow> stats_config \<Rightarrow> trade_record \<Rightarrow> stats_acc \<Rightarrow> stats_acc" where
  "add_outcome L cal config r a =
     a\<lparr>sa_stats := add_time_of_day L cal config r (add_groups r (sa_stats a)),
       sa_outcomes := sa_outcomes a @ [make_outcome_event r]\<rparr>"

definition stats_step :: "time_shield \<Rightarrow> calendar \<Rightarrow> stats_config \<Rightarrow> stats_acc \<Rightarrow> trade_record \<Rightarrow> stats_acc" where
  "stats_step L cal config a r =
     (if \<not> stats_filtered L cal config r then a
      else let a = (if counts_money config r then add_money L config r a else a)
           in if counts_outcome config r then add_outcome L cal config r a else a)"

definition calc_all :: "('k \<times> winrate_stats) list \<Rightarrow> ('k \<times> winrate_stats) list" where
  "calc_all m = map (\<lambda>(k, w). (k, winrate_calc w)) m"

definition finalize_winrates :: "trade_stats \<Rightarrow> trade_stats" where
  "finalize_winrates s =
     s\<lparr>st_total := winrate_calc (st_total s), st_buy := winrate_calc (st_buy s), st_sell := winrate_calc (st_sell s),
       st_by_symbol := calc_all (st_by_symbol s), st_by_signal := calc_all (st_by_signal s),
       st_by_platform := calc_all (st_by_platform s), st_by_currency := calc_all (st_by_currency s),
       st_by_duration := calc_all (st_by_duration s), st_by_mm_step := calc_all (st_by_mm_step s),
       st_by_ping_ms := calc_all (st_by_ping_ms s),
       st_by_sec := winrate_calc \<circ> st_by_sec s, st_by_min := winrate_calc \<circ> st_by_min s,
       st_by_hour := winrate_calc \<circ> st_by_hour s, st_by_weekday := winrate_calc \<circ> st_by_weekday s,
       st_by_month_day := winrate_calc \<circ> st_by_month_day s, st_by_month := winrate_calc \<circ> st_by_month s,
       st_by_second := winrate_calc \<circ> st_by_second s\<rparr>"

definition derive_money :: "nat \<Rightarrow> trade_stats \<Rightarrow> trade_stats" where
  "derive_money n s =
     (let s = s\<lparr>st_profit_factor := (if f64_less 0 (st_gross_loss s) then f64_div (st_gross_profit s) (st_gross_loss s)
                 else if f64_less 0 (st_gross_profit s) then f64_make False f64_infinity else 0)\<rparr>
      in if n > 0
         then s\<lparr>st_average_amount := f64_div (st_total_volume s) (f64_of_nat n),
                st_average_profit_per_trade := f64_div (st_total_profit s) (f64_of_nat n),
                st_average_profit := f64_div (st_total_profit s) (f64_of_nat n)\<rparr>
         else s)"

definition build_curves :: "stats_config \<Rightarrow> stats_acc \<Rightarrow> trade_stats \<Rightarrow> trade_stats" where
  "build_curves config a s =
     (case sc_equity_mode config of
        EM_RECORD_BALANCE \<Rightarrow> build_record_balance_curves config (sa_balance a) s
      | EM_PORTFOLIO_BALANCE \<Rightarrow> build_portfolio_balance_curves config (sa_balance a) s
      | EM_SYNTHETIC_PROFIT \<Rightarrow> build_synthetic_curves config (sa_realized a) s)"

definition fill_charts :: "stats_acc \<Rightarrow> trade_stats \<Rightarrow> trade_stats" where
  "fill_charts a s =
     s\<lparr>st_daily_profit := foldl (\<lambda>c (k, v). chart_push k v c) (st_daily_profit s) (sa_daily a),
       st_hourly_profit := foldl (\<lambda>c (k, v). chart_push k v c) (st_hourly_profit s) (sa_hourly a)\<rparr>"

text \<open>One moment of the sweep: statistics, free funds and their peak. \<open>std::sort\<close> leaves the order of the
  events of one moment open; the model keeps the order in which they were pushed.\<close>

definition sweep_moment :: "int \<times> (int \<times> f64) list \<Rightarrow> trade_stats \<times> f64 \<times> f64 \<Rightarrow> trade_stats \<times> f64 \<times> f64" where
  "sweep_moment m x =
     (let (s, free, peak) = x;
          delta = foldl (\<lambda>d e. f64_add d (snd e)) 0 (snd m);
          free = f64_add free delta;
          peak = f64_max peak free;
          dd = f64_sub peak free;
          s = (if f64_less (st_max_absolute_drawdown_free s) dd
               then s\<lparr>st_max_absolute_drawdown_free := dd, st_max_drawdown_date_free := fst m\<rparr> else s);
          s = (if f64_less 0 peak
               then s\<lparr>st_max_relative_drawdown_free := f64_max (st_max_relative_drawdown_free s) (f64_div dd peak)\<rparr> else s)
      in (s\<lparr>st_free_funds_curve := chart_push (fst m) free (st_free_funds_curve s)\<rparr>, free, peak))"

definition sweep_free_funds :: "stats_config \<Rightarrow> (int \<times> f64) list \<Rightarrow> trade_stats \<Rightarrow> trade_stats" where
  "sweep_free_funds config events s =
     (if sc_balance_mode config = BM_SWEEP_LINE
      then fst (foldl (\<lambda>x m. sweep_moment m x) (s, sc_start_balance config, sc_start_balance config)
             (moments fst (sort_key fst events)))
      else s)"

definition finish_stats :: "stats_config \<Rightarrow> stats_acc \<Rightarrow> trade_stats" where
  "finish_stats config a =
     (let s = (sa_stats a)\<lparr>st_series := recount_series (sa_outcomes a)\<rparr>;
          s = derive_money (sa_volume_count a) (finalize_winrates s)
      in sweep_free_funds config (sa_sweep a) (fill_charts a (build_curves config a s)))"

definition calc_stats :: "time_shield \<Rightarrow> calendar \<Rightarrow> trade_record list \<Rightarrow> stats_config \<Rightarrow> trade_stats" where
  "calc_stats L cal records config = finish_stats config (foldl (stats_step L cal config) stats_acc_default records)"

subsection \<open>TradeMetaStatsCalculator.hpp\<close>

record trade_meta_stats =
  tm_platforms :: "platform_type list"
  tm_accounts :: "account_type list"
  tm_currencies :: "currency_type list"
  tm_symbols :: "string list"
  tm_signals :: "string list"
  tm_durations :: "u32 list"
  tm_has_demo :: bool
  tm_has_real :: bool
  tm_platform_stats :: "trade_stats list"
  tm_account_stats :: "trade_stats list"
  tm_currency_stats :: "trade_stats list"
  tm_signal_stats :: "trade_stats list"
  tm_symbol_stats :: "trade_stats list"
  tm_duration_stats :: "trade_stats list"
  tm_hour_stats :: "trade_stats list"
  tm_weekday_stats :: "trade_stats list"

definition counts_meta :: "time_shield \<Rightarrow> calendar \<Rightarrow> stats_config \<Rightarrow> trade_record \<Rightarrow> bool" where
  "counts_meta L cal config r \<longleftrightarrow> stats_filtered L cal config r \<and>
     (sc_include_errors config \<or> \<not> is_error_trade_state (trec_trade_state r)) \<and>
     (sc_include_non_terminal config \<or> is_terminal_trade_state (trec_trade_state r))"

definition distinct_values :: "'k :: linorder list \<Rightarrow> 'k list" where
  "distinct_values xs = map fst (foldl (\<lambda>s x. fst (set_insert x s)) [] xs)"

definition with_filter :: "(trade_record_filter \<Rightarrow> trade_record_filter) \<Rightarrow> stats_config \<Rightarrow> stats_config" where
  "with_filter f config = config\<lparr>sc_filter := f (sc_filter config)\<rparr>"

definition only_value :: "'a \<Rightarrow> 'a include_exclude \<Rightarrow> 'a include_exclude" where
  "only_value x f = ie_add_include x (f\<lparr>ie_include := []\<rparr>)"

definition calc_meta :: "time_shield \<Rightarrow> calendar \<Rightarrow> trade_record list \<Rightarrow> stats_config \<Rightarrow> trade_meta_stats" where
  "calc_meta L cal records config =
     (let rs = filter (counts_meta L cal config) records;
          stats = (\<lambda>f. calc_stats L cal records (with_filter f config));
          platforms = distinct_values (map trec_platform_type rs);
          accounts = distinct_values (map trec_account_type rs);
          currencies = distinct_values (map trec_currency rs);
          symbols = distinct_values (filter (\<lambda>s. s \<noteq> []) (map trec_symbol rs));
          signals = distinct_values (filter (\<lambda>s. s \<noteq> []) (map trec_signal_name rs));
          durations = distinct_values (filter (\<lambda>d. d > 0) (map trec_duration rs))
      in \<lparr>tm_platforms = platforms, tm_accounts = accounts, tm_currencies = currencies, tm_symbols = symbols,
          tm_signals = signals, tm_durations = durations,
          tm_has_demo = list_ex (\<lambda>r. trec_account_type r = ACC_DEMO) rs,
          tm_has_real = list_ex (\<lambda>r. trec_account_type r = ACC_REAL) rs,
          tm_platform_stats = map (\<lambda>x. stats (\<lambda>f. f\<lparr>tf_platforms := only_value x (tf_platforms f)\<rparr>)) platforms,
          tm_account_stats = map (\<lambda>x. stats (\<lambda>f. f\<lparr>tf_accounts := only_value x (tf_accounts f)\<rparr>)) accounts,
          tm_currency_stats = map (\<lambda>x. stats (\<lambda>f. f\<lparr>tf_currencies := only_value x (tf_currencies f)\<rparr>)) currencies,
          tm_signal_stats = map (\<lambda>x. stats (\<lambda>f. f\<lparr>tf_signals := only_value x (tf_signals f)\<rparr>)) signals,
          tm_symbol_stats = map (\<lambda>x. stats (\<lambda>f. f\<lparr>tf_symbols := only_value x (tf_symbols f)\<rparr>)) symbols,
          tm_duration_stats = map (\<lambda>x. stats (\<lambda>f. f\<lparr>tf_durations := only_value x (tf_durations f)\<rparr>)) durations,
          tm_hour_stats = map (\<lambda>h. stats (\<lambda>f. f\<lparr>tf_hours := only_value h (tf_hours f)\<rparr>)) (map int [0..<24]),
          tm_weekday_stats = map (\<lambda>d. stats (\<lambda>f. f\<lparr>tf_weekdays := only_value d (tf_weekdays f)\<rparr>)) (map int [0..<7])\<rparr>)"

end
