(* ===== verification/TradeStatsLaws.thy ===== *)
theory TradeStatsLaws
  imports TradeStats
begin

section \<open>What the statistics say\<close>

text \<open>
  Every counter is the number of records of its group with that outcome, and the series are the maximal
  runs of wins and of losses in the order of the results: neither depends on the order of the input, as long as no two
  outcomes agree in every key of that order.
\<close>

subsection \<open>A loop over records, one field at a time\<close>

lemma foldl_field:
  assumes "\<And>a r. g (f a r) = (if P r then upd (g a) r else g a)"
  shows "g (foldl f a rs) = foldl upd (g a) (filter P rs)"
  by (induction rs arbitrary: a) (simp_all add: assms)

lemma foldl_if:
  "foldl (\<lambda>x r. if P r then upd x r else x) x rs = foldl upd x (filter P rs)"
  by (induction rs arbitrary: x) auto

definition counted :: "time_shield \<Rightarrow> calendar \<Rightarrow> stats_config \<Rightarrow> trade_record \<Rightarrow> bool" where
  "counted L cal config r \<longleftrightarrow> stats_filtered L cal config r \<and> counts_outcome config r"

named_theorems stats_parts

lemma add_money_groups [stats_parts]:
  "st_total (sa_stats (add_money L config r a)) = st_total (sa_stats a)"
  "st_buy (sa_stats (add_money L config r a)) = st_buy (sa_stats a)"
  "st_sell (sa_stats (add_money L config r a)) = st_sell (sa_stats a)"
  "st_by_symbol (sa_stats (add_money L config r a)) = st_by_symbol (sa_stats a)"
  "st_by_signal (sa_stats (add_money L config r a)) = st_by_signal (sa_stats a)"
  "st_by_platform (sa_stats (add_money L config r a)) = st_by_platform (sa_stats a)"
  "st_by_currency (sa_stats (add_money L config r a)) = st_by_currency (sa_stats a)"
  "st_by_duration (sa_stats (add_money L config r a)) = st_by_duration (sa_stats a)"
  "st_by_mm_step (sa_stats (add_money L config r a)) = st_by_mm_step (sa_stats a)"
  "st_by_sec (sa_stats (add_money L config r a)) = st_by_sec (sa_stats a)"
  "st_by_min (sa_stats (add_money L config r a)) = st_by_min (sa_stats a)"
  "st_by_hour (sa_stats (add_money L config r a)) = st_by_hour (sa_stats a)"
  "st_by_weekday (sa_stats (add_money L config r a)) = st_by_weekday (sa_stats a)"
  "st_by_month_day (sa_stats (add_money L config r a)) = st_by_month_day (sa_stats a)"
  "st_by_month (sa_stats (add_money L config r a)) = st_by_month (sa_stats a)"
  "st_by_second (sa_stats (add_money L config r a)) = st_by_second (sa_stats a)"
  "st_by_ping_ms (sa_stats (add_money L config r a)) =
     (if trec_ping r > 0 then map_count (trec_ping r) (trec_trade_state r) (st_by_ping_ms (sa_stats a)) else st_by_ping_ms (sa_stats a))"
  "sa_outcomes (add_money L config r a) = sa_outcomes a"
  by (simp_all add: add_money_def Let_def add_totals_def add_realized_def)

lemma add_outcome_groups:
  assumes b: "b = add_outcome L cal config r a" and s: "s = sa_stats a"
  shows "st_total (sa_stats b) = winrate_add (trec_trade_state r) (st_total s)"
    "st_buy (sa_stats b) = (if trec_order_type r = ORD_BUY then winrate_add (trec_trade_state r) (st_buy s) else st_buy s)"
    "st_sell (sa_stats b) = (if trec_order_type r = ORD_SELL then winrate_add (trec_trade_state r) (st_sell s) else st_sell s)"
    "st_by_symbol (sa_stats b) = (if trec_symbol r \<noteq> [] then map_count (trec_symbol r) (trec_trade_state r) (st_by_symbol s) else st_by_symbol s)"
    "st_by_signal (sa_stats b) = (if trec_signal_name r \<noteq> [] then map_count (trec_signal_name r) (trec_trade_state r) (st_by_signal s) else st_by_signal s)"
    "st_by_platform (sa_stats b) = map_count (trec_platform_type r) (trec_trade_state r) (st_by_platform s)"
    "st_by_currency (sa_stats b) = map_count (trec_currency r) (trec_trade_state r) (st_by_currency s)"
    "st_by_duration (sa_stats b) = (if trec_duration r > 0 then map_count (trec_duration r) (trec_trade_state r) (st_by_duration s) else st_by_duration s)"
    "st_by_mm_step (sa_stats b) = map_count (trec_mm_step r) (trec_trade_state r) (st_by_mm_step s)"
    "sa_outcomes b = sa_outcomes a @ [make_outcome_event r]"
  by (simp_all add: b s add_outcome_def add_time_of_day_def add_groups_def Let_def)

text \<open>The moment at which a record is entered in the counters by time, in seconds of the local time, and whether
  it has one.\<close>

definition timed :: "trade_record \<Rightarrow> bool" where
  "timed r \<longleftrightarrow> select_timestamp_ms r TF_AUTO > 0"

definition local_second :: "time_shield \<Rightarrow> stats_config \<Rightarrow> trade_record \<Rightarrow> int" where
  "local_second L config r = ts_ms_to_sec L (to_local_ms L (sc_time_zone config) (select_timestamp_ms r TF_AUTO))"

definition second_of_day :: "calendar \<Rightarrow> int \<Rightarrow> int" where
  "second_of_day cal t = cal_hour cal t * 3600 + cal_min cal t * 60 + cal_sec cal t"

definition minute_of_day :: "calendar \<Rightarrow> int \<Rightarrow> int" where
  "minute_of_day cal t = cal_hour cal t * 60 + cal_min cal t"

lemma add_outcome_times:
  assumes b: "b = add_outcome L cal config r a" and s: "s = sa_stats a" and t: "t = local_second L config r"
    and w: "w = trec_trade_state r"
  shows "st_by_sec (sa_stats b) = (if timed r then array_count 0 86400 (second_of_day cal t) w (st_by_sec s) else st_by_sec s)"
    "st_by_min (sa_stats b) = (if timed r then array_count 0 1440 (minute_of_day cal t) w (st_by_min s) else st_by_min s)"
    "st_by_hour (sa_stats b) = (if timed r then array_count 0 24 (cal_hour cal t) w (st_by_hour s) else st_by_hour s)"
    "st_by_weekday (sa_stats b) = (if timed r then array_count 0 7 (ts_weekday_of_ts L t) w (st_by_weekday s) else st_by_weekday s)"
    "st_by_month_day (sa_stats b) = (if timed r then array_count 1 32 (cal_day cal t) w (st_by_month_day s) else st_by_month_day s)"
    "st_by_month (sa_stats b) = (if timed r then array_count 1 13 (cal_mon cal t) w (st_by_month s) else st_by_month s)"
    "st_by_second (sa_stats b) = (if timed r then array_count 0 60 (cal_sec cal t) w (st_by_second s) else st_by_second s)"
    "st_by_ping_ms (sa_stats b) = st_by_ping_ms s"
  by (simp_all add: b s t w add_outcome_def add_time_of_day_def add_groups_def timed_def local_second_def second_of_day_def
      minute_of_day_def Let_def del: select_timestamp_ms.simps)

lemma stats_step_cases:
  "stats_step L cal config a r =
     (if counted L cal config r then add_outcome L cal config r
        (if stats_filtered L cal config r \<and> counts_money config r then add_money L config r a else a)
      else if stats_filtered L cal config r \<and> counts_money config r then add_money L config r a else a)"
  by (simp add: stats_step_def counted_def Let_def)

text \<open>The curves, charts and money figures that are built at the end leave the counters alone.\<close>

definition counters :: "trade_stats \<Rightarrow> (winrate_stats \<times> winrate_stats \<times> winrate_stats) \<times>
    (string, winrate_stats) std_map \<times> (string, winrate_stats) std_map \<times> (platform_type, winrate_stats) std_map \<times>
    (currency_type, winrate_stats) std_map \<times> (u32, winrate_stats) std_map \<times> (int, winrate_stats) std_map \<times>
    (int, winrate_stats) std_map \<times> (nat \<Rightarrow> winrate_stats) list \<times> series_stats" where
  "counters s = ((st_total s, st_buy s, st_sell s), st_by_symbol s, st_by_signal s, st_by_platform s, st_by_currency s,
     st_by_duration s, st_by_mm_step s, st_by_ping_ms s,
     [st_by_sec s, st_by_min s, st_by_hour s, st_by_weekday s, st_by_month_day s, st_by_month s, st_by_second s], st_series s)"

lemma counters_append [simp]: "counters (append_equity_sample ts e b s) = counters s"
  by (simp add: append_equity_sample_def counters_def Let_def)

lemma counters_drawdown [simp]: "counters (fst (update_equity_drawdown ts e sp)) = counters (fst sp)"
  by (simp add: update_equity_drawdown_def counters_def Let_def)

lemma counters_foldl:
  assumes "\<And>x m. counters (fst (f x m)) = counters (fst x)"
  shows "counters (fst (foldl f x ms)) = counters (fst x)"
  by (induction ms arbitrary: x) (simp_all add: assms)

lemma counters_synthetic [simp]: "counters (build_synthetic_curves config realized s) = counters s"
proof -
  have "counters (synthetic_loop st kvs e sp) = counters (fst sp)" for st kvs e sp
    by (induction st kvs e sp rule: synthetic_loop.induct) (simp_all add: Let_def)
  then show ?thesis by (simp add: build_synthetic_curves_def)
qed

lemma counters_record [simp]: "counters (build_record_balance_curves config es s) = counters s"
  unfolding build_record_balance_curves_def
  by (simp add: counters_foldl record_balance_moment_def Let_def split: list.split)

lemma counters_portfolio [simp]: "counters (build_portfolio_balance_curves config es s) = counters s"
proof -
  have "counters (fst (portfolio_moment config m x)) = counters (fst x)" for m x
    using counters_drawdown [of "fst m"] by (simp add: portfolio_moment_def Let_def case_prod_beta)
  then show ?thesis unfolding build_portfolio_balance_curves_def by (simp add: counters_foldl)
qed

lemma counters_sweep [simp]: "counters (sweep_free_funds config es s) = counters s"
proof -
  have "counters (fst (sweep_moment m x)) = counters (fst x)" for m x
    by (simp add: sweep_moment_def counters_def Let_def case_prod_beta)
  then show ?thesis by (simp add: sweep_free_funds_def counters_foldl)
qed

lemma finish_counters:
  "counters (finish_stats config a) = counters (finalize_winrates ((sa_stats a)\<lparr>st_series := recount_series (sa_outcomes a)\<rparr>))"
proof -
  have "counters (derive_money n s) = counters s" "counters (fill_charts a s) = counters s" for n s
    by (simp_all add: derive_money_def fill_charts_def counters_def Let_def)
  moreover have "counters (build_curves config a s) = counters s" for s
    by (simp add: build_curves_def split: stats_equity_mode.split)
  ultimately show ?thesis by (simp add: finish_stats_def Let_def)
qed

subsection \<open>Counting a group\<close>

definition counts_of :: "trade_state list \<Rightarrow> winrate_stats" where
  "counts_of ss = \<lparr>ws_wins = count_list ss TS_WIN, ws_losses = count_list ss TS_LOSS,
     ws_standoffs = count_list ss TS_STANDOFF, ws_refunds = count_list ss TS_REFUND,
     ws_errors = length (filter is_error_trade_state ss), ws_trades = length ss, ws_winrate = 0, ws_result_rate = 0\<rparr>"

text \<open>The counters of a group of records, with their rates.\<close>

definition group_stats :: "trade_record list \<Rightarrow> winrate_stats" where
  "group_stats rs = winrate_calc (counts_of (map trec_trade_state rs))"

definition group_entry :: "trade_record list \<Rightarrow> winrate_stats option" where
  "group_entry rs = (if rs = [] then None else Some (group_stats rs))"

lemma counts_of_Nil [simp]: "counts_of [] = winrate_default"
  by (simp add: counts_of_def winrate_default_def)

lemma counts_of_snoc: "counts_of (ss @ [s]) = winrate_add s (counts_of ss)"
  by (cases s) (simp_all add: counts_of_def winrate_add_def Let_def is_error_trade_state_def)

lemma winrate_foldl:
  "foldl (\<lambda>w r. winrate_add (trec_trade_state r) w) winrate_default rs = counts_of (map trec_trade_state rs)"
  by (induction rs rule: rev_induct) (simp_all add: counts_of_snoc)

definition group_map :: "(trade_record \<Rightarrow> 'k :: linorder) \<Rightarrow> trade_record list \<Rightarrow> ('k, winrate_stats) std_map" where
  "group_map key rs = foldl (\<lambda>m r. map_count (key r) (trec_trade_state r) m) [] rs"

lemma group_map_ok: "map_ok (group_map key rs)"
  by (induction rs rule: rev_induct) (simp_all add: group_map_def map_count_def)

lemma group_map_find:
  "map_find (group_map key rs) k = (if filter (\<lambda>r. key r = k) rs = [] then None
     else Some (counts_of (map trec_trade_state (filter (\<lambda>r. key r = k) rs))))"
proof (induction rs rule: rev_induct)
  case (snoc r rs)
  let ?G = "\<lambda>k. map trec_trade_state (filter (\<lambda>r. key r = k) rs)"
  have "group_map key (rs @ [r]) = map_count (key r) (trec_trade_state r) (group_map key rs)" by (simp add: group_map_def)
  moreover have "(case map_find (group_map key rs) (key r) of None \<Rightarrow> winrate_default | Some w \<Rightarrow> w) = counts_of (?G (key r))" if "k = key r"
    using snoc.IH that by (auto simp flip: counts_of_Nil)
  ultimately show ?case
    using snoc.IH group_map_ok [of key rs] by (cases "k = key r") (simp_all add: map_count_def map_find_put counts_of_snoc)
qed (simp add: group_map_def)

lemma map_find_calc_all: "map_find (calc_all m) k = map_option winrate_calc (map_find m k)"
  by (induction m) (auto simp: calc_all_def)

lemma calc_all_ok: "map_ok m \<Longrightarrow> map_ok (calc_all m)"
proof -
  have "map fst (calc_all m) = map fst m" by (induction m) (auto simp: calc_all_def)
  then show "map_ok m \<Longrightarrow> map_ok (calc_all m)" by (simp add: map_ok_def)
qed

lemma group_find: "map_find (calc_all (group_map key rs)) k = group_entry (filter (\<lambda>r. key r = k) rs)"
  by (simp add: map_find_calc_all group_map_find group_entry_def group_stats_def)

subsection \<open>The fields of the result\<close>

text \<open>A field that counts, and one that counts by group, after the loop.\<close>

lemma winrate_field:
  assumes "\<And>a r. g (f a r) = (if P r then (if Q r then winrate_add (trec_trade_state r) (g a) else g a) else g a)" and "g a0 = winrate_default"
  shows "g (foldl f a0 records) = counts_of (map trec_trade_state (filter Q (filter P records)))"
  unfolding foldl_field [where f = f and g = g and P = P, OF assms(1)] foldl_if winrate_foldl [symmetric] assms(2) ..

lemma group_field:
  assumes "\<And>a r. g (f a r) = (if P r then (if Q r then map_count (key r) (trec_trade_state r) (g a) else g a) else g a)" and "g a0 = []"
  shows "g (foldl f a0 records) = group_map key (filter Q (filter P records))"
  unfolding foldl_field [where f = f and g = g and P = P, OF assms(1)] foldl_if group_map_def assms(2) ..

text \<open>An array of counters: the cell of index \<open>n\<close> counts the records whose number is \<open>n\<close> above the first.\<close>

lemma array_field:
  assumes step: "\<And>a r. g (f a r) = (if P r then (if Q r then array_count lo hi (i r) (trec_trade_state r) (g a) else g a) else g a)"
    and zero: "g a0 = (\<lambda>_. winrate_default)"
  shows "g (foldl f a0 records) = (\<lambda>n. counts_of (map trec_trade_state
    (filter (\<lambda>r. Q r \<and> int n < hi - lo \<and> i r = int n + lo) (filter P records))))"
proof (induction records rule: rev_induct)
  case (snoc r records)
  show ?case
  proof (cases "P r \<and> Q r \<and> lo \<le> i r \<and> i r < hi")
    case True
    then have "int n < hi - lo \<and> i r = int n + lo \<longleftrightarrow> n = nat (i r - lo)" for n by auto
    then show ?thesis
      using True snoc.IH by (auto simp: step array_count_def counts_of_snoc fun_eq_iff)
  next
    case False
    then have "\<not> (P r \<and> Q r \<and> int n < hi - lo \<and> i r = int n + lo)" for n by auto
    then show ?thesis
      using False snoc.IH by (auto simp: step array_count_def fun_eq_iff)
  qed
qed (simp add: zero)

lemma filter_all: "filter (\<lambda>r. True) xs = xs"
  by simp

lemmas step_simps = stats_step_cases stats_parts add_outcome_groups [OF refl refl] add_outcome_times [OF refl refl refl refl]
lemmas zero_simps = stats_acc_default_def trade_stats_default_def

lemma loop_totals:
  assumes rs: "rs = filter (counted L cal config) records"
    and A: "A = foldl (stats_step L cal config) stats_acc_default records"
  shows "st_total (sa_stats A) = counts_of (map trec_trade_state rs)"
    "st_buy (sa_stats A) = counts_of (map trec_trade_state (filter (\<lambda>r. trec_order_type r = ORD_BUY) rs))"
    "st_sell (sa_stats A) = counts_of (map trec_trade_state (filter (\<lambda>r. trec_order_type r = ORD_SELL) rs))"
proof -
  note step = step_simps zero_simps
  show "st_total (sa_stats A) = counts_of (map trec_trade_state rs)" unfolding A rs
    by (rule winrate_field [where g = "\<lambda>a. st_total (sa_stats a)" and Q = "\<lambda>r. True", unfolded filter_all]) (simp_all add: step)
  show "st_buy (sa_stats A) = counts_of (map trec_trade_state (filter (\<lambda>r. trec_order_type r = ORD_BUY) rs))" unfolding A rs by (rule winrate_field [where g = "\<lambda>a. st_buy (sa_stats a)"]) (simp_all add: step)
  show "st_sell (sa_stats A) = counts_of (map trec_trade_state (filter (\<lambda>r. trec_order_type r = ORD_SELL) rs))" unfolding A rs by (rule winrate_field [where g = "\<lambda>a. st_sell (sa_stats a)"]) (simp_all add: step)
qed

lemma loop_groups:
  assumes rs: "rs = filter (counted L cal config) records"
    and A: "A = foldl (stats_step L cal config) stats_acc_default records"
  shows "st_by_platform (sa_stats A) = group_map trec_platform_type rs"
    "st_by_currency (sa_stats A) = group_map trec_currency rs"
    "st_by_mm_step (sa_stats A) = group_map trec_mm_step rs"
    "st_by_symbol (sa_stats A) = group_map trec_symbol (filter (\<lambda>r. trec_symbol r \<noteq> []) rs)"
    "st_by_signal (sa_stats A) = group_map trec_signal_name (filter (\<lambda>r. trec_signal_name r \<noteq> []) rs)"
    "st_by_duration (sa_stats A) = group_map trec_duration (filter (\<lambda>r. trec_duration r > 0) rs)"
proof -
  note step = step_simps zero_simps
  show "st_by_platform (sa_stats A) = group_map trec_platform_type rs" unfolding A rs
    by (rule group_field [where g = "\<lambda>a. st_by_platform (sa_stats a)" and Q = "\<lambda>r. True", unfolded filter_all]) (simp_all add: step)
  show "st_by_currency (sa_stats A) = group_map trec_currency rs" unfolding A rs
    by (rule group_field [where g = "\<lambda>a. st_by_currency (sa_stats a)" and Q = "\<lambda>r. True", unfolded filter_all]) (simp_all add: step)
  show "st_by_mm_step (sa_stats A) = group_map trec_mm_step rs" unfolding A rs
    by (rule group_field [where g = "\<lambda>a. st_by_mm_step (sa_stats a)" and Q = "\<lambda>r. True", unfolded filter_all]) (simp_all add: step)
  show "st_by_symbol (sa_stats A) = group_map trec_symbol (filter (\<lambda>r. trec_symbol r \<noteq> []) rs)" unfolding A rs by (rule group_field [where g = "\<lambda>a. st_by_symbol (sa_stats a)"]) (simp_all add: step)
  show "st_by_signal (sa_stats A) = group_map trec_signal_name (filter (\<lambda>r. trec_signal_name r \<noteq> []) rs)" unfolding A rs by (rule group_field [where g = "\<lambda>a. st_by_signal (sa_stats a)"]) (simp_all add: step)
  show "st_by_duration (sa_stats A) = group_map trec_duration (filter (\<lambda>r. trec_duration r > 0) rs)" unfolding A rs by (rule group_field [where g = "\<lambda>a. st_by_duration (sa_stats a)"]) (simp_all add: step)
qed

text \<open>The cell \<open>n\<close> of an array of \<open>len\<close> counters whose first number is \<open>first\<close>.\<close>

definition cell :: "(trade_record \<Rightarrow> int) \<Rightarrow> int \<Rightarrow> int \<Rightarrow> trade_record list \<Rightarrow> nat \<Rightarrow> trade_record list" where
  "cell part len first rs n = filter (\<lambda>r. timed r \<and> int n < len \<and> part r = int n + first) rs"

lemma loop_times:
  assumes rs: "rs = filter (counted L cal config) records"
    and A: "A = foldl (stats_step L cal config) stats_acc_default records" and t: "t = local_second L config"
  shows "st_by_sec (sa_stats A) n = counts_of (map trec_trade_state (cell (\<lambda>r. second_of_day cal (t r)) 86400 0 rs n))"
    "st_by_min (sa_stats A) n = counts_of (map trec_trade_state (cell (\<lambda>r. minute_of_day cal (t r)) 1440 0 rs n))"
    "st_by_hour (sa_stats A) n = counts_of (map trec_trade_state (cell (\<lambda>r. cal_hour cal (t r)) 24 0 rs n))"
    "st_by_weekday (sa_stats A) n = counts_of (map trec_trade_state (cell (\<lambda>r. ts_weekday_of_ts L (t r)) 7 0 rs n))"
    "st_by_month_day (sa_stats A) n = counts_of (map trec_trade_state (cell (\<lambda>r. cal_day cal (t r)) 31 1 rs n))"
    "st_by_month (sa_stats A) n = counts_of (map trec_trade_state (cell (\<lambda>r. cal_mon cal (t r)) 12 1 rs n))"
    "st_by_second (sa_stats A) n = counts_of (map trec_trade_state (cell (\<lambda>r. cal_sec cal (t r)) 60 0 rs n))"
proof -
  note step = step_simps zero_simps
  have field: "g A n = counts_of (map trec_trade_state (cell i (hi - lo) lo rs n))"
    if "\<And>a r. g (stats_step L cal config a r) = (if counted L cal config r
        then (if timed r then array_count lo hi (i r) (trec_trade_state r) (g a) else g a) else g a)"
      and "g stats_acc_default = (\<lambda>_. winrate_default)" for g :: "stats_acc \<Rightarrow> nat \<Rightarrow> winrate_stats" and i lo hi
    unfolding A cell_def rs by (subst array_field [OF that]) (rule refl)
  show "st_by_sec (sa_stats A) n = counts_of (map trec_trade_state (cell (\<lambda>r. second_of_day cal (t r)) 86400 0 rs n))"
    using field [of "\<lambda>a. st_by_sec (sa_stats a)" 0 86400 "\<lambda>r. second_of_day cal (t r)"] by (simp add: step t)
  show "st_by_min (sa_stats A) n = counts_of (map trec_trade_state (cell (\<lambda>r. minute_of_day cal (t r)) 1440 0 rs n))"
    using field [of "\<lambda>a. st_by_min (sa_stats a)" 0 1440 "\<lambda>r. minute_of_day cal (t r)"] by (simp add: step t)
  show "st_by_hour (sa_stats A) n = counts_of (map trec_trade_state (cell (\<lambda>r. cal_hour cal (t r)) 24 0 rs n))"
    using field [of "\<lambda>a. st_by_hour (sa_stats a)" 0 24 "\<lambda>r. cal_hour cal (t r)"] by (simp add: step t)
  show "st_by_weekday (sa_stats A) n = counts_of (map trec_trade_state (cell (\<lambda>r. ts_weekday_of_ts L (t r)) 7 0 rs n))"
    using field [of "\<lambda>a. st_by_weekday (sa_stats a)" 0 7 "\<lambda>r. ts_weekday_of_ts L (t r)"] by (simp add: step t)
  show "st_by_month_day (sa_stats A) n = counts_of (map trec_trade_state (cell (\<lambda>r. cal_day cal (t r)) 31 1 rs n))"
    using field [of "\<lambda>a. st_by_month_day (sa_stats a)" 1 32 "\<lambda>r. cal_day cal (t r)"] by (simp add: step t)
  show "st_by_month (sa_stats A) n = counts_of (map trec_trade_state (cell (\<lambda>r. cal_mon cal (t r)) 12 1 rs n))"
    using field [of "\<lambda>a. st_by_month (sa_stats a)" 1 13 "\<lambda>r. cal_mon cal (t r)"] by (simp add: step t)
  show "st_by_second (sa_stats A) n = counts_of (map trec_trade_state (cell (\<lambda>r. cal_sec cal (t r)) 60 0 rs n))"
    using field [of "\<lambda>a. st_by_second (sa_stats a)" 0 60 "\<lambda>r. cal_sec cal (t r)"] by (simp add: step t)
qed

text \<open>The counters by ping count the trades whose money is counted.\<close>

definition paid :: "time_shield \<Rightarrow> calendar \<Rightarrow> stats_config \<Rightarrow> trade_record \<Rightarrow> bool" where
  "paid L cal config r \<longleftrightarrow> stats_filtered L cal config r \<and> counts_money config r"

lemma loop_pings:
  "st_by_ping_ms (sa_stats (foldl (stats_step L cal config) stats_acc_default records))
     = group_map trec_ping (filter (\<lambda>r. trec_ping r > 0) (filter (paid L cal config) records))"
  by (rule group_field [where g = "\<lambda>a. st_by_ping_ms (sa_stats a)"]) (simp_all add: step_simps zero_simps paid_def)

lemma loop_outcomes:
  assumes rs: "rs = filter (counted L cal config) records"
    and A: "A = foldl (stats_step L cal config) stats_acc_default records"
  shows "sa_outcomes A = map make_outcome_event rs"
proof -
  have "foldl (\<lambda>es r. es @ [make_outcome_event r]) [] xs = map make_outcome_event xs" for xs
    by (induction xs rule: rev_induct) simp_all
  then show ?thesis
    unfolding A rs by (subst foldl_field [where g = sa_outcomes and upd = "\<lambda>es r. es @ [make_outcome_event r]"])
      (simp_all add: step_simps zero_simps)
qed

lemma calc_counters:
  assumes rs: "rs = filter (counted L cal config) records" and s: "s = calc_stats L cal records config"
  shows "st_total s = group_stats rs"
    "st_buy s = group_stats (filter (\<lambda>r. trec_order_type r = ORD_BUY) rs)"
    "st_sell s = group_stats (filter (\<lambda>r. trec_order_type r = ORD_SELL) rs)"
    "st_by_platform s = calc_all (group_map trec_platform_type rs)"
    "st_by_currency s = calc_all (group_map trec_currency rs)"
    "st_by_mm_step s = calc_all (group_map trec_mm_step rs)"
    "st_by_symbol s = calc_all (group_map trec_symbol (filter (\<lambda>r. trec_symbol r \<noteq> []) rs))"
    "st_by_signal s = calc_all (group_map trec_signal_name (filter (\<lambda>r. trec_signal_name r \<noteq> []) rs))"
    "st_by_duration s = calc_all (group_map trec_duration (filter (\<lambda>r. trec_duration r > 0) rs))"
    "st_series s = recount_series (map make_outcome_event rs)"
    "st_by_ping_ms s = calc_all (group_map trec_ping (filter (\<lambda>r. trec_ping r > 0) (filter (paid L cal config) records)))"
  using finish_counters [of config "foldl (stats_step L cal config) stats_acc_default records"]
    loop_totals [OF rs refl] loop_groups [OF rs refl] loop_outcomes [OF rs refl] loop_pings [of L cal config records]
  by (simp_all add: s calc_stats_def counters_def finalize_winrates_def group_stats_def)

lemma calc_times:
  assumes rs: "rs = filter (counted L cal config) records" and s: "s = calc_stats L cal records config"
    and t: "t = local_second L config"
  shows "st_by_sec s = (\<lambda>n. group_stats (cell (\<lambda>r. second_of_day cal (t r)) 86400 0 rs n))"
    "st_by_min s = (\<lambda>n. group_stats (cell (\<lambda>r. minute_of_day cal (t r)) 1440 0 rs n))"
    "st_by_hour s = (\<lambda>n. group_stats (cell (\<lambda>r. cal_hour cal (t r)) 24 0 rs n))"
    "st_by_weekday s = (\<lambda>n. group_stats (cell (\<lambda>r. ts_weekday_of_ts L (t r)) 7 0 rs n))"
    "st_by_month_day s = (\<lambda>n. group_stats (cell (\<lambda>r. cal_day cal (t r)) 31 1 rs n))"
    "st_by_month s = (\<lambda>n. group_stats (cell (\<lambda>r. cal_mon cal (t r)) 12 1 rs n))"
    "st_by_second s = (\<lambda>n. group_stats (cell (\<lambda>r. cal_sec cal (t r)) 60 0 rs n))"
  using finish_counters [of config "foldl (stats_step L cal config) stats_acc_default records"] loop_times [OF rs refl t]
  by (simp_all add: s calc_stats_def counters_def finalize_winrates_def group_stats_def fun_eq_iff)

subsection \<open>Series are maximal runs\<close>

text \<open>The lengths of the maximal runs of elements that satisfy \<open>P\<close>.\<close>

function streaks :: "('a \<Rightarrow> bool) \<Rightarrow> 'a list \<Rightarrow> nat list" where
  "streaks P [] = []"
| "streaks P (x # xs) =
     (if P x then Suc (length (takeWhile P xs)) # streaks P (dropWhile P xs) else streaks P xs)"
  by pat_completeness auto

termination by (relation "measure (\<lambda>(P, xs). length xs)") (auto simp: length_dropWhile_le le_imp_less_Suc)

text \<open>The runs when \<open>c\<close> elements of a run have been seen already.\<close>

fun streaks_with :: "('a \<Rightarrow> bool) \<Rightarrow> nat \<Rightarrow> 'a list \<Rightarrow> nat list" where
  "streaks_with P c [] = (if c > 0 then [c] else [])"
| "streaks_with P c (x # xs) =
     (if P x then streaks_with P (Suc c) xs else (if c > 0 then [c] else []) @ streaks_with P 0 xs)"

lemma streaks_run:
  "takeWhile P xs \<noteq> [] \<Longrightarrow> streaks P xs = length (takeWhile P xs) # streaks P (dropWhile P xs)"
  by (cases xs) (auto split: if_splits)

lemma streaks_with_eq:
  "streaks_with P c xs = (if c + length (takeWhile P xs) > 0
     then (c + length (takeWhile P xs)) # streaks P (dropWhile P xs) else streaks P xs)"
  by (induction P c xs rule: streaks_with.induct) (auto simp: streaks_run)

lemma streaks_with_0: "streaks_with P 0 xs = streaks P xs"
  unfolding streaks_with_eq by (cases xs) auto

text \<open>What one side of the loop comes to, and what it comes to after the trailing run is closed.\<close>

definition side_after :: "nat list \<Rightarrow> streak_side \<Rightarrow> streak_side" where
  "side_after ks k = \<lparr>sk_cur = 0, sk_max = foldl max (sk_max k) ks, sk_count = sk_count k + length ks, sk_total = sk_total k + sum_list ks\<rparr>"

lemma side_after_simps [simp]:
  "sk_cur (extend_streak k) = Suc (sk_cur k)" "sk_cur (close_streak k) = 0"
  "side_after ks (extend_streak k) = side_after ks k"
  "side_after ks (close_streak k) = side_after ((if sk_cur k > 0 then [sk_cur k] else []) @ ks) k"
  by (simp_all add: extend_streak_def close_streak_def side_after_def)

lemma close_side_after: "close_streak k = side_after (if sk_cur k > 0 then [sk_cur k] else []) k"
  by (cases k) (simp add: close_streak_def side_after_def)

lemma series_loop_win:
  "close_streak (fst (series_loop ss win loss)) = side_after (streaks_with (\<lambda>s. s = TS_WIN) (sk_cur win) ss) win"
proof (induction ss win loss rule: series_loop.induct)
  case (1 win loss)
  show ?case by (simp add: close_side_after)
qed simp

lemma series_loop_loss:
  "close_streak (snd (series_loop ss win loss)) = side_after (streaks_with (\<lambda>s. s = TS_LOSS) (sk_cur loss) ss) loss"
proof (induction ss win loss rule: series_loop.induct)
  case (1 win loss)
  show ?case by (simp add: close_side_after)
qed simp

lemma series_loop_append:
  "series_loop (ss @ ts) win loss = series_loop ts (fst (series_loop ss win loss)) (snd (series_loop ss win loss))"
  by (induction ss win loss rule: series_loop.induct) simp_all

text \<open>The run that is still open at the end.\<close>

definition trailing :: "('a \<Rightarrow> bool) \<Rightarrow> 'a list \<Rightarrow> nat" where
  "trailing P xs = length (takeWhile P (List.rev xs))"

lemma series_loop_current:
  "sk_cur (fst (series_loop ss streak_none streak_none)) = trailing (\<lambda>s. s = TS_WIN) ss"
  "sk_cur (snd (series_loop ss streak_none streak_none)) = trailing (\<lambda>s. s = TS_LOSS) ss"
  by (induction ss rule: rev_induct) (simp_all add: series_loop_append trailing_def streak_none_def)

text \<open>The statistics of a sequence of outcomes.\<close>

definition longest :: "nat list \<Rightarrow> nat" where
  "longest ks = Max (set (0 # ks))"

definition average :: "nat list \<Rightarrow> nat" where
  "average ks = sum_list ks div length ks"

definition series_of :: "trade_state list \<Rightarrow> series_stats" where
  "series_of ss =
     (let w = streaks (\<lambda>s. s = TS_WIN) ss; l = streaks (\<lambda>s. s = TS_LOSS) ss;
          tw = trailing (\<lambda>s. s = TS_WIN) ss; tl = trailing (\<lambda>s. s = TS_LOSS) ss
      in \<lparr>ss_max_win_series = longest w, ss_max_loss_series = longest l,
          ss_avg_win_series = average w, ss_avg_loss_series = average l,
          ss_total_win_series = length w, ss_total_loss_series = length l,
          ss_current_series = (if tw > 0 then tw else tl), ss_current_is_win = (tw > 0)\<rparr>)"

lemma longest_foldl: "foldl max 0 ks = longest ks"
  unfolding longest_def Max.set_eq_fold foldl_conv_fold by (simp add: max.commute)

lemma recount_series_exact: "recount_series es = series_of (map snd (sort_key fst es))"
proof -
  let ?ss = "map snd (sort_key fst es)"
  have w: "close_streak (fst (series_loop ?ss streak_none streak_none)) = side_after (streaks (\<lambda>s. s = TS_WIN) ?ss) streak_none"
    and l: "close_streak (snd (series_loop ?ss streak_none streak_none)) = side_after (streaks (\<lambda>s. s = TS_LOSS) ?ss) streak_none"
    by (simp_all add: series_loop_win series_loop_loss streaks_with_0 streak_none_def)
  show ?thesis
    unfolding recount_series_def Let_def case_prod_beta w l series_loop_current series_of_def
    by (simp add: side_after_def streak_none_def longest_foldl average_def)
qed

subsection \<open>The order of the input\<close>

lemma group_stats_mset: "mset rs = mset rs' \<Longrightarrow> group_stats rs = group_stats rs'"
proof -
  assume m: "mset rs = mset rs'"
  have c: "count_list (map f rs) x = count_list (map f rs') x" for f :: "trade_record \<Rightarrow> trade_state" and x
    using m by (metis count_mset mset_map)
  have l: "length (filter P (map f rs)) = length (filter P (map f rs'))" for P and f :: "trade_record \<Rightarrow> trade_state"
    using m by (metis mset_filter mset_map size_mset)
  show "group_stats rs = group_stats rs'"
    using c l mset_eq_length [OF m] by (simp add: group_stats_def counts_of_def)
qed

lemma group_entry_mset: "mset rs = mset rs' \<Longrightarrow> group_entry rs = group_entry rs'"
  using group_stats_mset [of rs rs'] by (auto simp: group_entry_def)

lemma mset_filter_eq: "mset rs = mset rs' \<Longrightarrow> mset (filter P rs) = mset (filter P rs')"
  by (simp add: mset_filter)

lemma group_map_mset:
  assumes "mset rs = mset rs'"
  shows "calc_all (group_map key rs) = calc_all (group_map key rs')"
  by (rule map_ok_ext) (simp_all add: calc_all_ok group_map_ok group_find group_entry_mset [OF mset_filter_eq [OF assms]])

lemma sort_key_mset:
  assumes "mset xs = mset ys" and "inj_on f (set xs)"
  shows "sort_key f xs = sort_key f ys"
  by (rule sort_key_inj_key_eq) (use assms mset_eq_setD [OF assms(1)] in simp_all)

subsection \<open>The properties\<close>

text \<open>C24: Every counter of the statistics is the exact tally of its group: of the records that pass the filter and
  the selection, in total, by direction, by platform, currency, step, symbol, signal and duration, with no
  entry for a value no such record has; of those with a time, by second, minute and hour of the local day, weekday, day of
  the month, month and second of the minute, the cells outside the code's arrays staying empty; and by ping, of the
  records whose money is counted.\<close>

theorem counters_exact:
  "let rs = (\<lambda>P. filter (\<lambda>r. counted L cal config r \<and> P r) records);
      timed_rs = (\<lambda>P. rs (\<lambda>r. timed r \<and> P (local_second L config r)));
      s = calc_stats L cal records config in
    st_total s = group_stats (rs (\<lambda>_. True)) \<and>
    st_buy s = group_stats (rs (\<lambda>r. trec_order_type r = ORD_BUY)) \<and>
    st_sell s = group_stats (rs (\<lambda>r. trec_order_type r = ORD_SELL)) \<and>
    map_find (st_by_platform s) p = group_entry (rs (\<lambda>r. trec_platform_type r = p)) \<and>
    map_find (st_by_currency s) c = group_entry (rs (\<lambda>r. trec_currency r = c)) \<and>
    map_find (st_by_mm_step s) n = group_entry (rs (\<lambda>r. trec_mm_step r = n)) \<and>
    map_find (st_by_symbol s) x = group_entry (rs (\<lambda>r. trec_symbol r \<noteq> [] \<and> trec_symbol r = x)) \<and>
    map_find (st_by_signal s) y = group_entry (rs (\<lambda>r. trec_signal_name r \<noteq> [] \<and> trec_signal_name r = y)) \<and>
    map_find (st_by_duration s) d = group_entry (rs (\<lambda>r. trec_duration r > 0 \<and> trec_duration r = d)) \<and>
    st_by_sec s k = group_stats (timed_rs (\<lambda>t. k < 86400 \<and> cal_hour cal t * 3600 + cal_min cal t * 60 + cal_sec cal t = int k)) \<and>
    st_by_min s k = group_stats (timed_rs (\<lambda>t. k < 1440 \<and> cal_hour cal t * 60 + cal_min cal t = int k)) \<and>
    st_by_hour s k = group_stats (timed_rs (\<lambda>t. k < 24 \<and> cal_hour cal t = int k)) \<and>
    st_by_weekday s k = group_stats (timed_rs (\<lambda>t. k < 7 \<and> ts_weekday_of_ts L t = int k)) \<and>
    st_by_month_day s k = group_stats (timed_rs (\<lambda>t. k < 31 \<and> cal_day cal t = int k + 1)) \<and>
    st_by_month s k = group_stats (timed_rs (\<lambda>t. k < 12 \<and> cal_mon cal t = int k + 1)) \<and>
    st_by_second s k = group_stats (timed_rs (\<lambda>t. k < 60 \<and> cal_sec cal t = int k)) \<and>
    map_find (st_by_ping_ms s) g = group_entry (filter (\<lambda>r. stats_filtered L cal config r \<and> counts_money config r \<and>
      trec_ping r > 0 \<and> trec_ping r = g) records)"
  unfolding calc_counters [OF refl refl] calc_times [OF refl refl refl] group_find Let_def filter_filter cell_def paid_def
    second_of_day_def minute_of_day_def by (simp add: conj_comms)

text \<open>C25: The series of wins and losses are the maximal runs of the counted outcomes, in the order of their result
  times: how many there are, the longest, their mean length and the run that is still open.\<close>

theorem series_exact:
  "st_series (calc_stats L cal records config)
     = series_of (map snd (sort_key fst (map make_outcome_event (filter (counted L cal config) records))))"
  unfolding calc_counters(10) [OF refl refl] by (rule recount_series_exact)

text \<open>C26: Neither the counters (in total, by direction, group, time and ping) nor the series depend on the order of the
  input, as long as no two counted records agree in all four keys the outcomes are ordered by.\<close>

theorem input_order_irrelevant:
  assumes "mset records = mset records'"
    and "distinct (map (fst \<circ> make_outcome_event) (filter (counted L cal config) records))"
  shows "counters (calc_stats L cal records config) = counters (calc_stats L cal records' config)"
proof -
  let ?rs = "filter (counted L cal config) records" and ?rs' = "filter (counted L cal config) records'"
  have m: "mset ?rs = mset ?rs'" by (rule mset_filter_eq [OF assms(1)])
  have "inj_on fst (set (map make_outcome_event ?rs))"
    using assms(2) by (auto simp: distinct_map inj_on_def)
  moreover have "mset (map make_outcome_event ?rs) = mset (map make_outcome_event ?rs')" using m by simp
  ultimately have "sort_key fst (map make_outcome_event ?rs) = sort_key fst (map make_outcome_event ?rs')"
    by (metis sort_key_mset)
  then have series: "recount_series (map make_outcome_event ?rs) = recount_series (map make_outcome_event ?rs')"
    by (simp add: recount_series_exact)
  have p: "mset (filter (paid L cal config) records) = mset (filter (paid L cal config) records')"
    by (rule mset_filter_eq [OF assms(1)])
  note g = group_stats_mset [OF m] group_stats_mset [OF mset_filter_eq [OF m]] group_map_mset [OF m] group_map_mset [OF mset_filter_eq [OF m]]
    group_map_mset [OF mset_filter_eq [OF p]]
  show ?thesis
    unfolding counters_def calc_counters [OF refl refl] calc_times [OF refl refl refl] cell_def series by (simp only: g)
qed

text \<open>A calendar of one day, for evaluation.\<close>

definition sample_calendar :: calendar where
  "sample_calendar = \<lparr>cal_hour = (\<lambda>s. s div 3600 mod 24), cal_min = (\<lambda>s. s div 60 mod 60), cal_sec = (\<lambda>s. s mod 60),
     cal_day = (\<lambda>_. 1), cal_mon = (\<lambda>_. 1)\<rparr>"

definition sample_result :: "u32 \<Rightarrow> trade_state \<Rightarrow> int \<Rightarrow> int \<Rightarrow> trade_record" where
  "sample_result i st close balance = trec_set_close_balance (f64_of_int balance)
     (trade_record_default\<lparr>trec_trade_id := i, trec_trade_state := st, trec_close_date := close\<rparr>)"

lemma input_order_irrelevant_witness:
  "counters (calc_stats sample_time_shield sample_calendar [sample_result 1 TS_WIN 60000 110, sample_result 2 TS_LOSS 60000 105] stats_config_default)
     = counters (calc_stats sample_time_shield sample_calendar [sample_result 2 TS_LOSS 60000 105, sample_result 1 TS_WIN 60000 110] stats_config_default)"
proof (rule input_order_irrelevant)
  show "distinct (map (fst \<circ> make_outcome_event) (filter (counted sample_time_shield sample_calendar stats_config_default)
      [sample_result 1 TS_WIN 60000 110, sample_result 2 TS_LOSS 60000 105]))"
    by (rule distinct_map_filter) (simp add: make_outcome_event_def sample_result_def trec_set_close_balance_def)
qed (simp add: add_mset_commute)

subsection \<open>The curve of recorded balances\<close>

definition curve_time :: "trade_record \<Rightarrow> int" where
  "curve_time r = (if trec_close_date r > 0 then trec_close_date r else trec_open_date r)"

definition gives_balance :: "time_shield \<Rightarrow> calendar \<Rightarrow> stats_config \<Rightarrow> trade_record \<Rightarrow> bool" where
  "gives_balance L cal config r \<longleftrightarrow> stats_filtered L cal config r \<and> counts_money config r \<and> curve_time r > 0 \<and> trec_has_close_balance r"

lemma loop_balances:
  "sa_balance (foldl (stats_step L cal config) a records) = sa_balance a @
     map (\<lambda>r. balance_event_of r (curve_time r)) (filter (gives_balance L cal config) records)"
proof (induction records arbitrary: a)
  case (Cons r records)
  have "sa_balance (stats_step L cal config a r)
      = sa_balance a @ (if gives_balance L cal config r then [balance_event_of r (curve_time r)] else [])"
    by (simp add: stats_step_def gives_balance_def add_money_def add_realized_def add_outcome_def curve_time_def Let_def)
  then show ?case using Cons.IH by simp
qed simp

lemma equity_after_drawdown [simp]: "st_equity_curve (fst (update_equity_drawdown ts e sp)) = st_equity_curve (fst sp)"
  by (simp add: update_equity_drawdown_def Let_def)

lemma equity_append [simp]: "st_equity_curve (append_equity_sample ts e b s) = chart_push ts e (st_equity_curve s)"
  by (simp add: append_equity_sample_def Let_def)

lemma record_curve_loop:
  "ch_y_value (st_equity_curve (fst (foldl (\<lambda>sp m. record_balance_moment config b m sp) sp ms)))
     = ch_y_value (st_equity_curve (fst sp)) @
       map (\<lambda>m. convert_money (be_close_balance (last (snd m))) (be_currency (last (snd m))) (be_ts (last (snd m))) config) ms"
  by (induction ms arbitrary: sp) (simp_all add: record_balance_moment_def chart_push_def Let_def)

lemma equity_sweep [simp]: "st_equity_curve (sweep_free_funds config es s) = st_equity_curve s"
proof -
  have "st_equity_curve (fst (foldl (\<lambda>x m. sweep_moment m x) x ms)) = st_equity_curve (fst x)" for x ms
    by (induction ms arbitrary: x) (simp_all add: sweep_moment_def Let_def case_prod_beta)
  then show ?thesis by (simp add: sweep_free_funds_def)
qed

lemma equity_loop: "st_equity_curve (sa_stats (foldl (stats_step L cal config) a records)) = st_equity_curve (sa_stats a)"
proof (induction records arbitrary: a)
  case (Cons r records)
  have "st_equity_curve (sa_stats (stats_step L cal config a r)) = st_equity_curve (sa_stats a)"
    by (simp add: stats_step_def add_money_def add_totals_def add_realized_def add_outcome_def add_time_of_day_def add_groups_def Let_def)
  then show ?case using Cons.IH by simp
qed simp

text \<open>One sample for each moment at which balances were recorded: the last of them in the order of the sort.\<close>

lemma record_balance_curve:
  assumes "sc_equity_mode config = EM_RECORD_BALANCE"
  shows "ch_y_value (st_equity_curve (calc_stats L cal records config))
    = map (\<lambda>m. convert_money (be_close_balance (last (snd m))) (be_currency (last (snd m))) (be_ts (last (snd m))) config)
        (moments be_ts (sort_balance_events (map (\<lambda>r. balance_event_of r (curve_time r)) (filter (gives_balance L cal config) records))))"
proof -
  have a: "st_equity_curve s = chart_default \<Longrightarrow> ch_y_value (st_equity_curve (build_record_balance_curves config es s))
      = map (\<lambda>m. convert_money (be_close_balance (last (snd m))) (be_currency (last (snd m))) (be_ts (last (snd m))) config)
          (moments be_ts (sort_balance_events es))" for es s
    by (cases "sort_balance_events es")
      (simp_all add: build_record_balance_curves_def record_curve_loop chart_default_def Let_def del: moments.simps(2))
  have "st_equity_curve (derive_money n (finalize_winrates (s\<lparr>st_series := x\<rparr>))) = st_equity_curve s" for n s x
    by (simp add: derive_money_def finalize_winrates_def Let_def)
  then show ?thesis
    by (simp add: calc_stats_def finish_stats_def Let_def build_curves_def assms fill_charts_def a loop_balances equity_loop
        stats_acc_default_def trade_stats_default_def)
qed

lemma sample_balance_event:
  assumes "config = stats_config_default\<lparr>sc_equity_mode := EM_RECORD_BALANCE\<rparr>" "st = TS_WIN \<or> st = TS_LOSS"
  shows "gives_balance sample_time_shield sample_calendar config (sample_result i st 60000 b)"
    "be_close_balance (balance_event_of (sample_result i st 60000 b) t) = f64_of_int b"
    "be_ts (balance_event_of (sample_result i st 60000 b) t) = t"
    "be_account (balance_event_of (sample_result i st 60000 b) t) = (PT_UNKNOWN, ACC_UNKNOWN, 0, CUR_UNKNOWN)"
    "curve_time (sample_result i st 60000 b) = 60000"
  using assms(2)
  by (auto simp: assms(1) gives_balance_def stats_filtered_def counts_money_def include_by_selection_def is_result_state_def
      balance_event_of_def curve_time_def sample_result_def trec_set_close_balance_def trec_has_close_balance_def
      trade_record_default_def stats_config_default_def match_filter_def match_fields_def match_ranges_def match_local_time_def
      trade_record_filter_default_def ie_match_def ie_none_def ie_empty_def not_below_def not_above_def int_within_def
      Let_def)

text \<open>The equity curve made of recorded balances does depend on the order of the input: of two trades of one
  account that close at the same moment, the one that comes last in the input gives the equity.\<close>

theorem balance_curve_depends_on_order:
  defines "config \<equiv> stats_config_default\<lparr>sc_equity_mode := EM_RECORD_BALANCE\<rparr>"
    and "a \<equiv> sample_result 1 TS_WIN 60000 110" and "b \<equiv> sample_result 2 TS_LOSS 60000 105"
  shows "ch_y_value (st_equity_curve (calc_stats sample_time_shield sample_calendar [a, b] config)) = [f64_of_int 105] \<and>
    ch_y_value (st_equity_curve (calc_stats sample_time_shield sample_calendar [b, a] config)) = [f64_of_int 110]"
proof -
  have "convert_money x c t (stats_config_default\<lparr>sc_equity_mode := EM_RECORD_BALANCE\<rparr>) = x" for x c t
    by (simp add: convert_money_def stats_config_default_def)
  then show ?thesis
    by (simp add: config_def a_def b_def record_balance_curve sample_balance_event [OF refl] sort_balance_events_def)
qed

text \<open>\<open>include_non_terminal\<close> has no effect: the outcomes are restricted to terminal states afterwards.\<close>

lemma include_non_terminal_ignored:
  "counts_outcome (config\<lparr>sc_include_non_terminal := b\<rparr>) r = counts_outcome config r"
  by (auto simp: counts_outcome_def include_by_selection_def)

text \<open>The statistics by hour drop the hours of the base filter: a trade that the filter excludes is counted.\<close>

lemma hour_stats_ignore_base_filter:
  defines "config \<equiv> with_filter (\<lambda>f. f\<lparr>tf_hours := only_value 10 (tf_hours f)\<rparr>) stats_config_default"
    and "r \<equiv> (sample_result 1 TS_WIN 0 0)\<lparr>trec_place_date := 11 * 3600000\<rparr>"
  shows "ws_trades (st_total (calc_stats sample_time_shield sample_calendar [r] config)) = 0"
    and "ws_trades (st_total (tm_hour_stats (calc_meta sample_time_shield sample_calendar [r] config) ! 11)) = 1"
proof -
  note d = counted_def stats_filtered_def counts_outcome_def include_by_selection_def match_filter_def match_fields_def
    match_ranges_def match_local_time_def trade_record_filter_default_def ie_match_def ie_none_def ie_empty_def not_below_def
    not_above_def int_within_def only_value_def ie_add_include_def with_filter_def stats_config_default_def
    sample_result_def trec_set_close_balance_def trade_record_default_def is_terminal_trade_state_def is_error_trade_state_def
    select_timestamp_ms.simps
  have l: "ts_ms_to_sec sample_time_shield (to_local_ms sample_time_shield tz_utc 39600000) = 39600" by code_simp
  have c: "\<not> counted sample_time_shield sample_calendar config r"
    by (simp add: config_def r_def d l sample_calendar_def)
  have c': "counted sample_time_shield sample_calendar (with_filter (\<lambda>f. f\<lparr>tf_hours := only_value 11 (tf_hours f)\<rparr>) config) r"
    by (simp add: config_def r_def d l sample_calendar_def)
  show "ws_trades (st_total (calc_stats sample_time_shield sample_calendar [r] config)) = 0"
    using c by (simp add: calc_counters(1) [OF refl refl] group_stats_def winrate_calc_def winrate_default_def Let_def)
  show "ws_trades (st_total (tm_hour_stats (calc_meta sample_time_shield sample_calendar [r] config) ! 11)) = 1"
    using c' by (simp add: calc_meta_def Let_def calc_counters(1) [OF refl refl] group_stats_def winrate_calc_def counts_of_def)
qed

end
