(* ===== verification/Spec2Isabelle.thy ===== *)
theory Spec2Isabelle
  imports Filters Series Risk Sizing IntradeOrders Tasks Lifecycle Events MarketHub MarketHistory TickGaps
    BotBinary RecordCodec TradeDBQueue SignalDBQueue TradeStatsLaws
begin

text \<open>
  Verification of the core of optionx, a C++ library for trading binary options. Paths below are under
  \<open>src/include/optionx_cpp/\<close>.

  The program. A trading system (\<open>trading_system/\<close>) decides what to trade: filters look at signals, sizing
  policies set the stake, a series (for instance a martingale) tracks the steps of an operation, risk admission
  reserves the money at stake, and settlements close what was opened; executions that belong together form a
  group with one outcome. A platform carries the orders out: requests wait in a queue
  (\<open>components/BaseTradeExecutionComponent\<close>) that validates them against the account, sends them to the broker
  at a limited rate, follows them to their end and reports every change. Around it, tasks are scheduled
  (\<open>utils/tasks\<close>), modules are started and stopped in layers (\<open>lifecycle/\<close>), components talk over an event bus
  (\<open>utils/pubsub\<close>), and market data flow from providers to subscribers through a hub and a router
  (\<open>market_data/\<close>) that closes the gaps of a live stream with history; prices and amounts are converted between decimal texts, binary64 and fixed point, and times
  between UTC and the trade's time zone. Finished and running trades are kept in a record database (\<open>storages/\<close>), and
  bridges (\<open>bridges/\<close>) exchange orders with other programs as texts.

  Theories, and what each models.

  \<^item> Prelude, StdMap, Contracts: shared lemmas, \<open>std::map\<close> as a sorted association list, and the locales used as
    interfaces (a finite map, a store of keyed members, an idempotent transition).
  \<^item> StringUtils, TradingEnums: \<open>utils/string_utils.hpp\<close>, \<open>data/trading/enums.hpp\<close>: every enumeration with its printer
    and parser.
  \<^item> Money, Sizing: \<open>trading_system/PolicyTypes.hpp\<close>, \<open>Sizing.hpp\<close>: decimal texts read and printed exactly, with their
    overflow checks; percentages computed without overflow equal the exact rational rounding.
  \<^item> Requests, Identity: \<open>data/trading/TradeRequest.hpp\<close> and its neighbours, \<open>trading_system/Identity.hpp\<close>,
    \<open>TradeIntent.hpp\<close>, \<open>TradeSeries.hpp\<close>, \<open>DecisionContext.hpp\<close>.
  \<^item> TimeZone: \<open>data/trading/TradeTimeZone.hpp\<close>. The TimeShield library is a parameter of the model.
  \<^item> Filters: \<open>trading_system/Filters.hpp\<close>.
  \<^item> Settlement, Aggregator: \<open>trading_system/Settlement.hpp\<close>, \<open>ExecutionGroupAggregator.hpp\<close>: the group outcome is the
    exact sum, independent of the order of the settlements.
  \<^item> Series: \<open>trading_system/SeriesProgression.hpp\<close>, refined to an abstract progression whose transitions are named by
    the call and the outcomes of the members (\<open>series_spec\<close>).
  \<^item> Risk: \<open>trading_system/RiskAdmission.hpp\<close>: what is reserved never exceeds the limit, in any sequence of calls.
  \<^item> Float64, Prices: binary64 values as integers scaled by a fixed power of two, rounding to nearest even, and the
    fixed-point prices, spreads and ticks of \<open>utils/fixed_point.hpp\<close>, \<open>data/ticks/Tick.hpp\<close>, \<open>data/trading/SpreadPack.hpp\<close>.
  \<^item> AccountInfo, TradeState: the account interface and the validation and outcome of a trade
    (\<open>data/account\<close>, \<open>TradeStateManager.hpp\<close>).
  \<^item> TradeQueue, TradeQueueLaws, TradeExecution: \<open>TradeQueueManager.hpp\<close>: the state of the queue and every operation on
    it; its invariant; the calls in any order, from the empty queue; which trades a silent broker leaves to the timeout
    (\<open>due\<close>) and which it leaves open for ever.
  \<^item> IntradeAccount, IntradeOrders: the account of one broker (\<open>platforms/IntradeBarPlatform/AccountInfoData.hpp\<close>,
    \<open>symbol_utils.hpp\<close>) and the queue on top of it.
  \<^item> Tasks: \<open>utils/tasks/Task.hpp\<close>, \<open>TaskManager.hpp\<close>.
  \<^item> Lifecycle: \<open>lifecycle/LifecycleStack.hpp\<close>: modules are added, processed and shut down; dependents stop before what
    they depend on, and a shutdown that is repeated ends.
  \<^item> Events: \<open>utils/pubsub\<close>: the bus with its queue, nested notifications and single-shot awaiters.
  \<^item> MarketTypes: \<open>data/bars\<close>, \<open>data/ticks\<close>, \<open>market_data/enums.hpp\<close> and the option and request records of the router.
  \<^item> MarketHub: \<open>market_data/MarketDataHub.hpp\<close>: subscribers and the cached statuses a late subscriber receives.
  \<^item> MarketHistory: the functions of \<open>market_data/MarketDataContinuityService.hpp\<close> and \<open>detail/MarketDataRouter.ipp\<close> that
    judge, order and deduplicate history, plan ranges and compute retry delays.
  \<^item> MarketRoute, TickRoute: a route of the router from its activation to its end: what it delivers, buffers and asks the
    provider for, and how it reacts to answers, transport statuses and turns. MarketRoute holds what bar and tick routes share.
  \<^item> TickRouteLaws, TickLedger, TickBounds, TickGaps: the laws of tick routes over all runs. Each follows the same plan, a
    relation between the states before and after a turn that every operation keeps: \<open>settled\<close> (the route is waiting for
    something that will come, and then goes on), \<open>accounts\<close> (no live tick is lost or doubled), \<open>held\<close> (the buffer is within its limits) and
    \<open>live_sound\<close>. TickGaps shows that the recovery of a gap in which the
    provider observed nothing never ends, on any route that is live before the gap.
  \<^item> Encodings: \<open>utils/Base36.hpp\<close>, \<open>utils/Base64.hpp\<close>, with the law of a coding as a locale.
  \<^item> BotBinary: \<open>bridges/bot_binary/detail/BotBinaryProtocol.hpp\<close>: a command as a signal file name, as a request value
    and as a URL; each is parsed back to the command it was made from.
  \<^item> TradeRecords, BinaryFormat, RecordCodec: \<open>data/trading/TradeRecord.hpp\<close>, \<open>SignalRecord.hpp\<close>: filling a record from
    requests and results, merging result patches, the repair of stale statuses (\<open>TradeRecordStatusFixer.hpp\<close>), and the
    binary format of both records, field by field.
  \<^item> TradeQueries, TradeDB, TradeDBLaws: \<open>data/trading/TradeRecordFilter.hpp\<close>, \<open>TradeRecordQuery.hpp\<close>,
    \<open>storages/TradeRecordDB\<close>: the filters and the operations of the database over three tables and the metadata. The
    tables of the MDBX container are parameters with the laws of an ordered map (\<open>table_laws\<close>, shown to hold of
    red-black trees); the database refines two maps, from trade identifiers to records and from unique identifiers to
    keys, the second of which can go stale.
  \<^item> SignalDB, SignalDBLaws: \<open>storages/SignalRecordDB\<close>: the same for signals, with an index of the trades a signal
    produced; a trade belongs to at most one signal, and a write that would share one is a conflict.
  \<^item> StorageQueue, TradeDBQueue, SignalDBQueue: the worker queues of both databases: commands, their callbacks, the
    worker and the shutdown as events, so that every interleaving of caller and worker is a list of them. The locale
    \<open>executor\<close> proves the order and the shutdown for any storage whose commands return; both databases interpret it.
  \<^item> TradeStats, TradeStatsLaws: \<open>data/trading/TradeStats.hpp\<close>, \<open>storages/TradeRecordDB/TradeStatsCalculator.hpp\<close>,
    \<open>TradeMetaStatsCalculator.hpp\<close>: counters by group, series of wins and losses, curves, drawdowns and the free-funds
    sweep in binary64. Every counter, by group, time and ping, is the exact tally of its records and the series are the
    maximal runs, whatever the order of the input when no two outcomes tie; the curve of recorded balances does depend on it.

  Conventions. A class is a record, an enumeration a datatype, an operation a function from the old state to the new
  one and its result; the clock, the account, TimeShield and the callbacks are arguments. What the program sends out
  (events, callbacks, orders) is a log in the state, so that theorems can count it. Integers have their width where
  overflow matters; times of the queue and of the tasks are unbounded integers.

  Loops. Loops over containers are structural recursions. The two loops of the queue over its transactions run on the
  list they start with. The catch-up loop of a periodic task is a partial function; Tasks shows exactly when it ends,
  and that the manager never runs it when it does not. The scan for a local midnight is bounded by the days it can step over.
  The flush loop of a tick route ends because a turn that sends no request makes the buffer shorter.

  Not modelled. Threads (each operation is one step under its mutex, the steps of the database's worker are events),
  logging, JSON and stream conversions (through nlohmann::json), subscribers of the router that call back into it while they are called, its registry of providers and
  leases, and bar routes, the HTTP, WebSocket and named-pipe transports, the container library under the database
  with its errors, callbacks that call back into the database, cryptography, and the code in other languages.
\<close>

end
